(* ===== verification/Prelude.thy ===== *)
theory Prelude
  imports Complex_Main "HOL-Library.Word" "HOL-Library.Multiset" "HOL-Library.AList"
begin

section \<open>Shared vocabulary of the node's models\<close>

text \<open>
  This theory holds what every component model shares: the reading of JavaScript's numeric and
  string primitives (\<open>bigint\<close> as \<^typ>\<open>int\<close> with division truncating towards zero, decimal printing of a \<open>bigint\<close>,
  bytes as 8-bit words), results of code that can throw (a sum, \<^const>\<open>Inl\<close> for the thrown
  error), and JavaScript's insertion-ordered \<open>Map\<close> as an association list.
\<close>

type_synonym bigint = int
type_synonym byte = "8 word"
type_synonym bytes = "8 word list"

subsection \<open>Results of code that can throw\<close>

fun res_bind :: "'e + 'a \<Rightarrow> ('a \<Rightarrow> 'e + 'b) \<Rightarrow> 'e + 'b" where
  "res_bind (Inl e) f = Inl e"
| "res_bind (Inr x) f = f x"

lemma res_bind_Inr_iff [simp]:
  "res_bind r f = Inr y \<longleftrightarrow> (\<exists>x. r = Inr x \<and> f x = Inr y)"
  by (cases r) auto

lemma res_bind_Inl_iff:
  "res_bind r f = Inl e \<longleftrightarrow> r = Inl e \<or> (\<exists>x. r = Inr x \<and> f x = Inl e)"
  by (cases r) auto

lemma res_bind_assoc: "res_bind (res_bind r f) g = res_bind r (\<lambda>x. res_bind (f x) g)"
  by (cases r) auto

text \<open>A \<open>for\<close> loop whose body can throw, threading the state it updates.\<close>

fun res_fold :: "('a \<Rightarrow> 's \<Rightarrow> 'e + 's) \<Rightarrow> 'a list \<Rightarrow> 's \<Rightarrow> 'e + 's" where
  "res_fold f [] s = Inr s"
| "res_fold f (x # xs) s = res_bind (f x s) (res_fold f xs)"

lemma res_fold_append: "res_fold f (xs @ ys) s = res_bind (res_fold f xs s) (res_fold f ys)"
proof (induction xs arbitrary: s)
  case (Cons x xs)
  then show ?case by (cases "f x s") simp_all
qed simp

text \<open>Collecting the results of a body that does not throw.\<close>

lemma res_fold_collect:
  "(\<And>x. x \<in> set xs \<Longrightarrow> f x = Inr (g x)) \<Longrightarrow>
   res_fold (\<lambda>x acc. res_bind (f x) (\<lambda>y. Inr (acc @ [y]))) xs acc = Inr (acc @ map g xs)"
  by (induction xs arbitrary: acc) auto

lemma res_fold_invariant:
  assumes step: "\<And>x s s'. x \<in> set xs \<Longrightarrow> P s \<Longrightarrow> f x s = Inr s' \<Longrightarrow> P s'"
    and start: "P s" and run: "res_fold f xs s = Inr s'"
  shows "P s'"
  using assms
proof (induction xs arbitrary: s)
  case (Cons x xs)
  from Cons.prems(3) obtain t where t: "f x s = Inr t" and rest: "res_fold f xs t = Inr s'"
    by auto
  from Cons.prems(1) [of x s t] Cons.prems(2) t have Pt: "P t" by simp
  have "P s2" if "y \<in> set xs" "P s1" "f y s1 = Inr s2" for y s1 s2
    using Cons.prems(1) [of y s1 s2] that by simp
  then show ?case using Cons.IH [of t] Pt rest by blast
qed simp

text \<open>Methods that throw after they have changed the object: the state comes back with the error.\<close>

definition st_return :: "'a \<Rightarrow> 's \<Rightarrow> ('e + 'a) \<times> 's" where
  "st_return x s = (Inr x, s)"

definition st_throw :: "'e \<Rightarrow> 's \<Rightarrow> ('e + 'a) \<times> 's" where
  "st_throw e s = (Inl e, s)"

definition st_lift :: "'e + 'a \<Rightarrow> 's \<Rightarrow> ('e + 'a) \<times> 's" where
  "st_lift r s = (r, s)"

definition st_get :: "('s \<Rightarrow> 'a) \<Rightarrow> 's \<Rightarrow> ('e + 'a) \<times> 's" where
  "st_get f s = (Inr (f s), s)"

definition st_put :: "('s \<Rightarrow> 's) \<Rightarrow> 's \<Rightarrow> ('e + unit) \<times> 's" where
  "st_put f s = (Inr (), f s)"

definition st_bind :: "('s \<Rightarrow> ('e + 'a) \<times> 's) \<Rightarrow> ('a \<Rightarrow> 's \<Rightarrow> ('e + 'b) \<times> 's) \<Rightarrow> 's \<Rightarrow> ('e + 'b) \<times> 's" where
  "st_bind m f s = (case m s of (Inl e, s') \<Rightarrow> (Inl e, s') | (Inr x, s') \<Rightarrow> f x s')"

definition st_when :: "bool \<Rightarrow> ('s \<Rightarrow> ('e + unit) \<times> 's) \<Rightarrow> 's \<Rightarrow> ('e + unit) \<times> 's" where
  "st_when b m = (if b then m else st_return ())"

fun st_each :: "('a \<Rightarrow> 's \<Rightarrow> ('e + unit) \<times> 's) \<Rightarrow> 'a list \<Rightarrow> 's \<Rightarrow> ('e + unit) \<times> 's" where
  "st_each f [] = st_return ()"
| "st_each f (x # xs) = st_bind (f x) (\<lambda>_. st_each f xs)"

lemmas st_simps = st_return_def st_throw_def st_lift_def st_get_def st_put_def st_when_def

lemma st_bind_Inr_iff:
  "st_bind m f s = (Inr y, s2) \<longleftrightarrow> (\<exists>x s1. m s = (Inr x, s1) \<and> f x s1 = (Inr y, s2))"
  by (auto simp: st_bind_def split: prod.splits sum.splits)

lemma st_bind_Inr: "m s = (Inr x, s1) \<Longrightarrow> st_bind m f s = f x s1"
  by (simp add: st_bind_def)

lemma st_bind_Inl: "m s = (Inl e, s1) \<Longrightarrow> st_bind m f s = (Inl e, s1)"
  by (simp add: st_bind_def)

text \<open>A predicate on the state that a method keeps, also when it throws.\<close>

definition st_keeps :: "('s \<Rightarrow> bool) \<Rightarrow> ('s \<Rightarrow> ('e + 'a) \<times> 's) \<Rightarrow> bool" where
  "st_keeps P m \<longleftrightarrow> (\<forall>s. P s \<longrightarrow> P (snd (m s)))"

lemma st_keepsI: "(\<And>s. P s \<Longrightarrow> P (snd (m s))) \<Longrightarrow> st_keeps P m"
  by (simp add: st_keeps_def)

lemma st_keepsD: "st_keeps P m \<Longrightarrow> P s \<Longrightarrow> m s = (r, s') \<Longrightarrow> P s'"
  by (fastforce simp: st_keeps_def)

lemma st_keeps_basic [simp]:
  "st_keeps P (st_return x)" "st_keeps P (st_throw e)" "st_keeps P (st_lift r)" "st_keeps P (st_get f)"
  by (simp_all add: st_keeps_def st_simps)

lemma st_keeps_put: "(\<And>s. P s \<Longrightarrow> P (f s)) \<Longrightarrow> st_keeps P (st_put f)"
  by (simp add: st_keeps_def st_simps)

lemma st_keeps_bind: "st_keeps P m \<Longrightarrow> (\<And>x. st_keeps P (f x)) \<Longrightarrow> st_keeps P (st_bind m f)"
  unfolding st_keeps_def st_bind_def by (auto split: prod.splits sum.splits)

lemma st_keeps_if: "(b \<Longrightarrow> st_keeps P m) \<Longrightarrow> (\<not> b \<Longrightarrow> st_keeps P m') \<Longrightarrow> st_keeps P (if b then m else m')"
  by simp

lemma st_keeps_when: "(b \<Longrightarrow> st_keeps P m) \<Longrightarrow> st_keeps P (st_when b m)"
  by (simp add: st_when_def)

lemma st_keeps_option: "st_keeps P m \<Longrightarrow> (\<And>x. r = Some x \<Longrightarrow> st_keeps P (f x)) \<Longrightarrow>
    st_keeps P (case r of None \<Rightarrow> m | Some x \<Rightarrow> f x)"
  by (simp split: option.splits)

lemma st_keeps_each: "(\<And>x. st_keeps P (f x)) \<Longrightarrow> st_keeps P (st_each f xs)"
  by (induction xs) (simp_all add: st_keeps_bind)

lemmas st_keeps_intros = st_keeps_bind st_keeps_if st_keeps_when st_keeps_option st_keeps_each

text \<open>Hoare triples with a postcondition for the value and one for the error.\<close>

definition triple ::
    "('s \<Rightarrow> bool) \<Rightarrow> ('s \<Rightarrow> ('e + 'a) \<times> 's) \<Rightarrow> ('a \<Rightarrow> 's \<Rightarrow> bool) \<Rightarrow> ('e \<Rightarrow> 's \<Rightarrow> bool) \<Rightarrow> bool" where
  "triple Pre m Post Exc \<longleftrightarrow> (\<forall>s. Pre s \<longrightarrow> (case m s of (Inr x, s') \<Rightarrow> Post x s' | (Inl e, s') \<Rightarrow> Exc e s'))"

lemma tripleD: "triple Pre m Post Exc \<Longrightarrow> Pre s \<Longrightarrow> (case m s of (Inr x, s') \<Rightarrow> Post x s' | (Inl e, s') \<Rightarrow> Exc e s')"
  by (simp add: triple_def)

lemma triple_total: "triple Pre m (\<lambda>_. Post) (\<lambda>_ _. False) \<Longrightarrow> Pre s \<Longrightarrow> \<exists>s'. m s = (Inr (), s') \<and> Post s'"
  by (drule tripleD, assumption) (auto split: prod.splits sum.splits)

named_theorems triple_rules

lemma triple_bind [triple_rules]: "triple Pre m Mid Exc \<Longrightarrow> (\<And>x. triple (Mid x) (f x) Post Exc) \<Longrightarrow> triple Pre (st_bind m f) Post Exc"
  unfolding triple_def st_bind_def by (fastforce split: prod.splits sum.splits)

lemma triple_get [triple_rules]: "(\<And>x. triple (\<lambda>s. Pre s \<and> x = g s) (f x) Post Exc) \<Longrightarrow> triple Pre (st_bind (st_get g) f) Post Exc"
  unfolding triple_def st_bind_def st_get_def by fastforce

lemma triple_if [triple_rules]:
  "(b \<Longrightarrow> triple Pre m Post Exc) \<Longrightarrow> (\<not> b \<Longrightarrow> triple Pre m' Post Exc) \<Longrightarrow> triple Pre (if b then m else m') Post Exc"
  by simp

lemma triple_prod: "(\<And>a b. x = (a, b) \<Longrightarrow> triple Pre (f a b) Post Exc) \<Longrightarrow> triple Pre (case x of (a, b) \<Rightarrow> f a b) Post Exc"
  by (cases x) simp

lemma triple_throw: "(\<And>s. Pre s \<Longrightarrow> Exc e s) \<Longrightarrow> triple Pre (st_throw e) Post Exc"
  by (simp add: triple_def st_throw_def)

lemma triple_return: "(\<And>s. Pre s \<Longrightarrow> Post x s) \<Longrightarrow> triple Pre (st_return x) Post Exc"
  by (simp add: triple_def st_return_def)

lemma triple_put: "(\<And>s. Pre s \<Longrightarrow> Post () (f s)) \<Longrightarrow> triple Pre (st_put f) Post Exc"
  by (simp add: triple_def st_put_def)

lemma triple_weaken:
  "triple Pre m Post Exc \<Longrightarrow> (\<And>s. Pre' s \<Longrightarrow> Pre s) \<Longrightarrow> (\<And>x s. Post x s \<Longrightarrow> Post' x s) \<Longrightarrow> (\<And>e s. Exc e s \<Longrightarrow> Exc' e s)
   \<Longrightarrow> triple Pre' m Post' Exc'"
  unfolding triple_def by (fastforce split: prod.splits sum.splits)

lemma triple_keeps: "st_keeps Q m \<Longrightarrow> (\<And>s. Pre s \<Longrightarrow> Q s) \<Longrightarrow> triple Pre m (\<lambda>_. Q) (\<lambda>_. Q)"
  unfolding triple_def st_keeps_def by (fastforce split: prod.splits sum.splits)

text \<open>An \<open>Array.prototype.map\<close> whose callback can throw.\<close>

fun res_map :: "('a \<Rightarrow> 'e + 'b) \<Rightarrow> 'a list \<Rightarrow> 'e + 'b list" where
  "res_map f [] = Inr []"
| "res_map f (x # xs) = res_bind (f x) (\<lambda>y. res_bind (res_map f xs) (\<lambda>ys. Inr (y # ys)))"

lemma res_map_Inr_iff: "res_map f xs = Inr ys \<longleftrightarrow> list_all2 (\<lambda>x y. f x = Inr y) xs ys"
  by (induction xs arbitrary: ys) (auto simp: list_all2_Cons1)

lemma res_map_total: "(\<forall>x \<in> set xs. \<exists>y. f x = Inr y) \<Longrightarrow> \<exists>ys. res_map f xs = Inr ys"
  by (induction xs) auto

lemma res_fold_total:
  "(\<And>x s. x \<in> set xs \<Longrightarrow> \<exists>s'. f x s = Inr s') \<Longrightarrow> \<exists>s'. res_fold f xs s = Inr s'"
proof (induction xs arbitrary: s)
  case (Cons x xs)
  from Cons.prems [of x s] obtain t where "f x s = Inr t" by auto
  with Cons show ?case by simp
qed simp

subsection \<open>Sorting an array with a comparator\<close>

text \<open>
  \<open>Array.prototype.sort\<close> is stable. Which pairs it compares is up to the engine, but no algorithm can
  order the elements without comparing those that end up next to each other, so a comparator that
  throws for a whole class of elements that tie makes every run throw; the model throws when the
  comparison of any two positions does.
\<close>

fun all_pairs :: "'a list \<Rightarrow> ('a \<times> 'a) list" where
  "all_pairs [] = []"
| "all_pairs (x # xs) = map (Pair x) xs @ all_pairs xs"

fun insert_stable :: "('a \<Rightarrow> 'a \<Rightarrow> 'e + int) \<Rightarrow> 'a \<Rightarrow> 'a list \<Rightarrow> 'a list" where
  "insert_stable cmp x [] = [x]"
| "insert_stable cmp x (y # ys) =
     (case cmp x y of Inr c \<Rightarrow> if c \<le> 0 then x # y # ys else y # insert_stable cmp x ys
      | Inl e \<Rightarrow> x # y # ys)"

definition js_sort :: "('a \<Rightarrow> 'a \<Rightarrow> 'e + int) \<Rightarrow> 'a list \<Rightarrow> 'e + 'a list" where
  "js_sort cmp xs =
     res_bind (res_fold (\<lambda>p u. res_bind (cmp (fst p) (snd p)) (\<lambda>_. Inr u)) (all_pairs xs) ())
       (\<lambda>_. Inr (foldr (insert_stable cmp) xs []))"

lemma all_pairs_set: "(x, y) \<in> set (all_pairs xs) \<Longrightarrow> x \<in> set xs \<and> y \<in> set xs"
  by (induction xs) auto

lemma res_fold_check:
  "(\<forall>p \<in> set ps. \<exists>c. f p = Inr c) \<Longrightarrow> res_fold (\<lambda>p u. res_bind (f p) (\<lambda>_. Inr u)) ps u = Inr u"
  by (induction ps) auto

lemma js_sort_key:
  fixes key :: "'a \<Rightarrow> 'k :: linorder"
  assumes cmp: "\<And>x y. x \<in> set xs \<Longrightarrow> y \<in> set xs \<Longrightarrow>
      \<exists>c. cmp x y = Inr c \<and> (c \<le> 0 \<longleftrightarrow> key x \<le> key y)"
  shows "js_sort cmp xs = Inr (sort_key key xs)"
proof -
  have ins: "insert_stable cmp x ys = insort_key key x ys" if "x \<in> set xs" "set ys \<subseteq> set xs" for x ys
    using that
  proof (induction ys)
    case (Cons y ys)
    then obtain c where "cmp x y = Inr c" "c \<le> 0 \<longleftrightarrow> key x \<le> key y" using cmp [of x y] by auto
    with Cons show ?case by simp
  qed simp
  have "foldr (insert_stable cmp) zs [] = sort_key key zs" if "set zs \<subseteq> set xs" for zs
    using that ins by (induction zs) simp_all
  moreover have "res_fold (\<lambda>p u. res_bind (cmp (fst p) (snd p)) (\<lambda>_. Inr u)) (all_pairs xs) () = Inr ()"
  proof -
    have "\<forall>p \<in> set (all_pairs xs). \<exists>c. cmp (fst p) (snd p) = Inr c"
      using cmp all_pairs_set [of _ _ xs] by fastforce
    then show ?thesis by (rule res_fold_check)
  qed
  ultimately show ?thesis by (simp add: js_sort_def)
qed

subsection \<open>\<open>bigint\<close> division\<close>

text \<open>The \<open>/\<close> of two \<open>bigint\<close> values rounds towards zero; a zero divisor throws, and every
  caller in the models tests for it or divides by a constant.\<close>

definition bigint_div :: "bigint \<Rightarrow> bigint \<Rightarrow> bigint" where
  "bigint_div a b = sgn a * sgn b * (\<bar>a\<bar> div \<bar>b\<bar>)"

lemma bigint_div_nonneg [simp]: "0 \<le> a \<Longrightarrow> 0 < b \<Longrightarrow> bigint_div a b = a div b"
  by (cases "a = 0") (auto simp: bigint_div_def)

lemma bigint_div_neg: "a < 0 \<Longrightarrow> 0 < b \<Longrightarrow> bigint_div a b = - ((- a) div b)"
  by (simp add: bigint_div_def)

lemma bigint_div_nonneg_iff: "0 < b \<Longrightarrow> 0 \<le> bigint_div a b \<longleftrightarrow> - b < a"
proof (cases "0 \<le> a")
  case True
  assume "0 < b"
  with True show ?thesis by (simp add: pos_imp_zdiv_nonneg_iff)
next
  case False
  assume b: "0 < b"
  from False b have "bigint_div a b = - ((- a) div b)" by (simp add: bigint_div_neg)
  moreover from False b have "0 \<le> (- a) div b" by (simp add: pos_imp_zdiv_nonneg_iff)
  moreover from False b have "(- a) div b = 0 \<longleftrightarrow> - a < b" by (simp add: zdiv_eq_0_iff)
  ultimately show ?thesis by auto
qed

lemma bigint_div_mono: "0 < c \<Longrightarrow> a \<le> b \<Longrightarrow> bigint_div a c \<le> bigint_div b c"
proof -
  assume c: "0 < c" and ab: "a \<le> b"
  consider "0 \<le> a" | "a < 0" "0 \<le> b" | "a < 0" "b < 0" by linarith
  then show ?thesis
  proof cases
    case 1
    with c ab show ?thesis by (simp add: zdiv_mono1)
  next
    case 2
    with c have "0 \<le> (- a) div c" "0 \<le> b div c" by (simp_all add: pos_imp_zdiv_nonneg_iff)
    with 2 c show ?thesis by (simp add: bigint_div_neg)
  next
    case 3
    with c ab have "(- b) div c \<le> (- a) div c" by (simp add: zdiv_mono1)
    with 3 c show ?thesis by (simp add: bigint_div_neg)
  qed
qed

subsection \<open>Decimal printing of a \<open>bigint\<close>\<close>

definition digit_char :: "nat \<Rightarrow> char" where
  "digit_char d = char_of (48 + d)"

fun nat_toString :: "nat \<Rightarrow> string" where
  "nat_toString n =
     (if n < 10 then [digit_char n] else nat_toString (n div 10) @ [digit_char (n mod 10)])"

declare nat_toString.simps [simp del]

definition bigint_toString :: "bigint \<Rightarrow> string" where
  "bigint_toString z =
     (if z < 0 then CHR ''-'' # nat_toString (nat (- z)) else nat_toString (nat z))"

fun parse_digits :: "nat \<Rightarrow> string \<Rightarrow> nat" where
  "parse_digits acc [] = acc"
| "parse_digits acc (c # cs) = parse_digits (10 * acc + (of_char c - 48)) cs"

lemma parse_digits_append: "parse_digits acc (xs @ ys) = parse_digits (parse_digits acc xs) ys"
  by (induction xs arbitrary: acc) auto

lemma of_char_digit_char [simp]: "d < 10 \<Longrightarrow> of_char (digit_char d) = 48 + d"
  by (simp add: digit_char_def)

lemma parse_nat_toString: "parse_digits 0 (nat_toString n) = n"
proof (induction n rule: nat_toString.induct)
  case (1 n)
  show ?case
  proof (cases "n < 10")
    case True
    then show ?thesis by (simp add: nat_toString.simps [of n])
  next
    case False
    with 1 have "parse_digits 0 (nat_toString (n div 10)) = n div 10" by simp
    with False show ?thesis
      by (simp add: nat_toString.simps [of n] parse_digits_append)
  qed
qed

lemma nat_toString_inject [simp]: "nat_toString m = nat_toString n \<longleftrightarrow> m = n"
  by (metis parse_nat_toString)

lemma nat_toString_digits: "c \<in> set (nat_toString n) \<Longrightarrow> \<exists>d < 10. c = digit_char d"
proof (induction n rule: nat_toString.induct)
  case (1 n)
  show ?case
  proof (cases "n < 10")
    case True
    with 1 show ?thesis by (auto simp: nat_toString.simps [of n])
  next
    case False
    with 1 have "(\<exists>d < 10. c = digit_char d) \<or> c = digit_char (n mod 10)"
      by (auto simp: nat_toString.simps [of n])
    then show ?thesis by (auto intro: exI [of _ "n mod 10"])
  qed
qed

lemma digit_char_neq_minus: "d < 10 \<Longrightarrow> digit_char d \<noteq> CHR ''-''"
proof
  assume "d < 10" and eq: "digit_char d = CHR ''-''"
  from eq have "(of_char (digit_char d) :: nat) = 45" by (simp add: of_char_def)
  moreover from \<open>d < 10\<close> have "(of_char (digit_char d) :: nat) = 48 + d" by simp
  ultimately show False by linarith
qed

lemma nat_toString_no_minus: "nat_toString n \<noteq> CHR ''-'' # cs"
proof
  assume "nat_toString n = CHR ''-'' # cs"
  then have "CHR ''-'' \<in> set (nat_toString n)" by simp
  then show False using nat_toString_digits digit_char_neq_minus by metis
qed

lemma bigint_toString_inject [simp]: "bigint_toString a = bigint_toString b \<longleftrightarrow> a = b"
proof -
  have "CHR ''-'' # cs \<noteq> nat_toString n" for n cs
    using nat_toString_no_minus by metis
  then show ?thesis
    by (auto simp: bigint_toString_def nat_toString_no_minus split: if_splits)
qed

text \<open>The \<open>bigint\<close> whose big-endian bytes are given, as \<open>BigInt('0x' + toHex(bytes))\<close> reads them.\<close>

definition be_value :: "bytes \<Rightarrow> int" where
  "be_value bs = foldl (\<lambda>a b. 256 * a + uint b) 0 bs"

subsection \<open>JavaScript's insertion-ordered maps\<close>

text \<open>
  A JavaScript \<open>Map\<close> iterates over its entries in the order in which the keys were first
  inserted; \<open>set\<close> on a present key replaces the value in place and \<open>delete\<close> drops the entry.
  That is an association list with distinct keys under \<^const>\<open>AList.update\<close>,
  \<^const>\<open>AList.delete\<close> and \<^const>\<open>map_of\<close>.
\<close>

type_synonym ('k, 'v) js_map = "('k \<times> 'v) list"

abbreviation js_map_ok :: "('k, 'v) js_map \<Rightarrow> bool" where
  "js_map_ok m \<equiv> distinct (map fst m)"

abbreviation js_keys :: "('k, 'v) js_map \<Rightarrow> 'k list" where
  "js_keys m \<equiv> map fst m"

lemma update_fresh_append:
  "k \<notin> set (map fst xs) \<Longrightarrow> AList.update k v xs = xs @ [(k, v)]"
  by (induction xs) auto

lemma update_subset: "set (AList.update k v xs) \<subseteq> insert (k, v) (set xs)"
  by (induction xs) auto

lemma delete_subset: "set (AList.delete k xs) \<subseteq> set xs"
  by (auto simp: AList.delete_eq)

lemma js_map_rev: "js_map_ok xs \<Longrightarrow> map_of (rev xs) = map_of xs"
  by (simp add: map_of_inject_set flip: rev_map)

lemma update_present_map:
  "k \<in> set (map fst xs) \<Longrightarrow> distinct (map fst xs) \<Longrightarrow>
     AList.update k v xs = map (\<lambda>(k', v'). (k', if k' = k then v else v')) xs"
proof (induction xs)
  case (Cons x xs)
  obtain a b where x: "x = (a, b)" by (cases x)
  show ?case
  proof (cases "a = k")
    case True
    with Cons.prems x have "k \<notin> fst ` set xs" by auto
    then have "map (\<lambda>(k', v'). (k', if k' = k then v else v')) xs = xs"
      by (induction xs) auto
    with True x show ?thesis by simp
  next
    case False
    with Cons x show ?thesis by simp
  qed
qed simp

text \<open>
  The contract of such a map, as the clients of the node's own map classes rely on it: the
  operations act on the sequence of entries as the JavaScript \<open>Map\<close> does. A class may promise
  this for some keys only (\<open>ok\<close>).
\<close>

locale insertion_ordered_map =
  fixes empty :: 'm
    and put :: "'m \<Rightarrow> 'k \<Rightarrow> 'v \<Rightarrow> 'm"
    and lookup :: "'m \<Rightarrow> 'k \<Rightarrow> 'v option"
    and has :: "'m \<Rightarrow> 'k \<Rightarrow> bool"
    and remove :: "'m \<Rightarrow> 'k \<Rightarrow> 'm"
    and contents :: "'m \<Rightarrow> ('k \<times> 'v) list"
    and invar :: "'m \<Rightarrow> bool"
    and ok :: "'k \<Rightarrow> bool"
  assumes invar_empty: "invar empty"
    and contents_empty: "contents empty = []"
    and invar_put: "invar m \<Longrightarrow> ok k \<Longrightarrow> invar (put m k v)"
    and contents_put: "invar m \<Longrightarrow> ok k \<Longrightarrow> contents (put m k v) = AList.update k v (contents m)"
    and lookup_contents: "invar m \<Longrightarrow> ok k \<Longrightarrow> lookup m k = map_of (contents m) k"
    and has_contents: "invar m \<Longrightarrow> ok k \<Longrightarrow> has m k \<longleftrightarrow> k \<in> fst ` set (contents m)"
    and invar_remove: "invar m \<Longrightarrow> ok k \<Longrightarrow> invar (remove m k)"
    and contents_remove: "invar m \<Longrightarrow> ok k \<Longrightarrow> contents (remove m k) = AList.delete k (contents m)"
    and distinct_contents: "invar m \<Longrightarrow> distinct (map fst (contents m))"
begin

lemma lookup_put: "invar m \<Longrightarrow> ok k \<Longrightarrow> ok j \<Longrightarrow>
    lookup (put m k v) j = (if j = k then Some v else lookup m j)"
  by (simp add: lookup_contents invar_put contents_put update_conv)

lemma lookup_remove: "invar m \<Longrightarrow> ok k \<Longrightarrow> ok j \<Longrightarrow>
    lookup (remove m k) j = (if j = k then None else lookup m j)"
  by (simp add: lookup_contents invar_remove contents_remove delete_conv)

lemma has_lookup: "invar m \<Longrightarrow> ok k \<Longrightarrow> has m k \<longleftrightarrow> lookup m k \<noteq> None"
  by (simp add: lookup_contents has_contents map_of_eq_None_iff)

text \<open>Loading a sequence of entries, as the constructors do.\<close>

lemma invar_load:
  "invar m \<Longrightarrow> \<forall>(k, v) \<in> set kvs. ok k \<Longrightarrow> invar (fold (\<lambda>(k, v) m. put m k v) kvs m)"
  by (induction kvs arbitrary: m) (auto simp: invar_put)

lemma contents_load:
  "invar m \<Longrightarrow> \<forall>(k, v) \<in> set kvs. ok k \<Longrightarrow>
     contents (fold (\<lambda>(k, v) m. put m k v) kvs m) = fold (\<lambda>(k, v). AList.update k v) kvs (contents m)"
  by (induction kvs arbitrary: m) (auto simp: invar_put contents_put)

lemma lookup_load:
  "invar m \<Longrightarrow> \<forall>(k, v) \<in> set kvs. ok k \<Longrightarrow> ok j \<Longrightarrow>
     lookup (fold (\<lambda>(k, v) m. put m k v) kvs m) j = (lookup m ++ map_of (rev kvs)) j"
proof (induction kvs arbitrary: m)
  case (Cons x kvs)
  obtain k v where x: "x = (k, v)" by (cases x)
  with Cons show ?case
    by (auto simp: invar_put lookup_put map_add_def split: option.splits)
qed simp

end

end
