(* ===== verification/Fast_Collections.thy ===== *)
theory Fast_Collections
  imports Prelude
begin

section \<open>The node's own map and set classes (\<open>src/src/utils/fast\<close>)\<close>

text \<open>
  \<open>FastBigIntMap\<close>, \<open>FastStringMap\<close>, \<open>FastBigIntSet\<close> and \<open>FastStringSet\<close> each keep a plain
  JavaScript object \<open>items\<close> (property name to value) and an array \<open>keyOrder\<close>. The models keep
  both fields. A property name of a \<open>bigint\<close> key is its decimal print, so the classes are
  correct only because that print is injective (\<open>bigint_toString_inject\<close>). A string key is used as a
  property name directly; an object literal inherits from \<open>Object.prototype\<close>, and an assignment
  to the name \<^verbatim>\<open>__proto__\<close> creates no own property, which the string models keep.
\<close>

subsection \<open>A record of properties beside an order of keys\<close>

text \<open>
  What the four classes share: the object's own properties and the array of keys, with the
  property name of a key given by \<open>name\<close>. They agree when the array has no duplicate and the own
  properties are exactly the names of its keys. The laws hold for every injective \<open>name\<close>.
\<close>

definition ks_contents :: "('k \<Rightarrow> string) \<Rightarrow> (string \<rightharpoonup> 'v) \<Rightarrow> 'k list \<Rightarrow> ('k \<times> 'v) list" where
  "ks_contents name own order = map (\<lambda>k. (k, the (own (name k)))) order"

definition ks_invar :: "('k \<Rightarrow> string) \<Rightarrow> (string \<rightharpoonup> 'v) \<Rightarrow> 'k list \<Rightarrow> bool" where
  "ks_invar name own order \<longleftrightarrow> distinct order \<and> dom own = name ` set order"

lemma ks_fst_contents [simp]: "map fst (ks_contents name own order) = order"
  by (simp add: ks_contents_def comp_def)

lemma ks_fst_set_contents [simp]: "fst ` set (ks_contents name own order) = set order"
  by (simp add: ks_contents_def image_image)

locale keyed_store =
  fixes name :: "'k \<Rightarrow> string"
  assumes name_inj: "name k = name j \<Longrightarrow> k = j"
begin

lemma has_iff: "ks_invar name own order \<Longrightarrow> own (name k) \<noteq> None \<longleftrightarrow> k \<in> set order"
proof -
  assume "ks_invar name own order"
  then have "name k \<in> dom own \<longleftrightarrow> name k \<in> name ` set order" by (simp add: ks_invar_def)
  then show ?thesis using name_inj by (auto simp: domIff)
qed

lemma invar_set:
  "ks_invar name own order \<Longrightarrow>
   ks_invar name (own(name k \<mapsto> v)) (if own (name k) = None then order @ [k] else order)"
  using has_iff [of own order k] by (auto simp: ks_invar_def)

lemma contents_set:
  assumes inv: "ks_invar name own order"
  shows "ks_contents name (own(name k \<mapsto> v)) (if own (name k) = None then order @ [k] else order)
    = AList.update k v (ks_contents name own order)"
proof (cases "k \<in> set order")
  case True
  then have "own (name k) \<noteq> None" "distinct order"
    using inv has_iff [of own order k] by (auto simp: ks_invar_def)
  then show ?thesis using True
    by (subst update_present_map) (auto simp: ks_contents_def comp_def dest: name_inj)
next
  case False
  then have "own (name k) = None" using inv has_iff [of own order k] by auto
  moreover have "AList.update k v (ks_contents name own order) = ks_contents name own order @ [(k, v)]"
    using False by (intro update_fresh_append) simp
  ultimately show ?thesis using False
    by (auto simp: ks_contents_def dest: name_inj)
qed

lemma lookup:
  assumes inv: "ks_invar name own order"
  shows "own (name k) = map_of (ks_contents name own order) k"
proof (cases "own (name k)")
  case None
  then have "k \<notin> set order" using inv has_iff [of own order k] by auto
  with None show ?thesis by (simp add: ks_contents_def map_of_map_restrict)
next
  case (Some v)
  then have "k \<in> set order" using inv has_iff [of own order k] by auto
  with Some show ?thesis by (simp add: ks_contents_def map_of_map_restrict)
qed

lemma invar_remove:
  "ks_invar name own order \<Longrightarrow> ks_invar name (own(name k := None)) (filter (\<lambda>j. j \<noteq> k) order)"
  by (auto simp: ks_invar_def dest: name_inj)

lemma contents_remove:
  "ks_contents name (own(name k := None)) (filter (\<lambda>j. j \<noteq> k) order)
   = AList.delete k (ks_contents name own order)"
  by (auto simp: ks_contents_def AList.delete_eq filter_map comp_def dest: name_inj
           intro!: map_cong filter_cong)

lemma remove_absent:
  "ks_invar name own order \<Longrightarrow> own (name k) = None \<Longrightarrow>
   AList.delete k (ks_contents name own order) = ks_contents name own order"
  by (rule delete_id) (metis has_iff ks_fst_set_contents)

end

interpretation big: keyed_store bigint_toString
  by unfold_locales simp

interpretation str: keyed_store "\<lambda>k. k"
  by unfold_locales simp

subsection \<open>\<open>FastBigIntMap\<close>\<close>

record FastBigIntMap =
  bm_items :: "string \<rightharpoonup> bigint"
  bm_keyOrder :: "bigint list"

definition FastBigIntMap_empty :: FastBigIntMap where
  "FastBigIntMap_empty = \<lparr>bm_items = Map.empty, bm_keyOrder = []\<rparr>"

definition FastBigIntMap_size :: "FastBigIntMap \<Rightarrow> nat" where
  "FastBigIntMap_size m = length (bm_keyOrder m)"

definition FastBigIntMap_setAll :: "FastBigIntMap \<Rightarrow> FastBigIntMap \<Rightarrow> FastBigIntMap" where
  "FastBigIntMap_setAll this other =
     this\<lparr>bm_items := bm_items other, bm_keyOrder := bm_keyOrder other\<rparr>"

definition FastBigIntMap_has :: "FastBigIntMap \<Rightarrow> bigint \<Rightarrow> bool" where
  "FastBigIntMap_has m key \<longleftrightarrow> bm_items m (bigint_toString key) \<noteq> None"

definition FastBigIntMap_set :: "FastBigIntMap \<Rightarrow> bigint \<Rightarrow> bigint \<Rightarrow> FastBigIntMap" where
  "FastBigIntMap_set m key v =
     (let keyStr = bigint_toString key;
          m1 = (if FastBigIntMap_has m key then m
                else m\<lparr>bm_keyOrder := bm_keyOrder m @ [key]\<rparr>)
      in m1\<lparr>bm_items := (bm_items m1)(keyStr \<mapsto> v)\<rparr>)"

definition FastBigIntMap_get :: "FastBigIntMap \<Rightarrow> bigint \<Rightarrow> bigint option" where
  "FastBigIntMap_get m key = bm_items m (bigint_toString key)"

definition FastBigIntMap_delete :: "FastBigIntMap \<Rightarrow> bigint \<Rightarrow> FastBigIntMap \<times> bool" where
  "FastBigIntMap_delete m key =
     (if FastBigIntMap_has m key
      then (m\<lparr>bm_items := (bm_items m)(bigint_toString key := None),
              bm_keyOrder := filter (\<lambda>k. k \<noteq> key) (bm_keyOrder m)\<rparr>, True)
      else (m, False))"

definition FastBigIntMap_clear :: "FastBigIntMap \<Rightarrow> FastBigIntMap" where
  "FastBigIntMap_clear m = m\<lparr>bm_items := Map.empty, bm_keyOrder := []\<rparr>"

definition FastBigIntMap_entries :: "FastBigIntMap \<Rightarrow> (bigint \<times> bigint option) list" where
  "FastBigIntMap_entries m = map (\<lambda>k. (k, bm_items m (bigint_toString k))) (bm_keyOrder m)"

definition FastBigIntMap_keys :: "FastBigIntMap \<Rightarrow> bigint list" where
  "FastBigIntMap_keys m = bm_keyOrder m"

definition FastBigIntMap_values :: "FastBigIntMap \<Rightarrow> bigint option list" where
  "FastBigIntMap_values m = map (\<lambda>k. bm_items m (bigint_toString k)) (bm_keyOrder m)"

definition FastBigIntMap_getOrInsert ::
    "FastBigIntMap \<Rightarrow> bigint \<Rightarrow> bigint \<Rightarrow> FastBigIntMap \<times> bigint option" where
  "FastBigIntMap_getOrInsert m key defaultValue =
     (if FastBigIntMap_has m key then (m, bm_items m (bigint_toString key))
      else (FastBigIntMap_set m key defaultValue, Some defaultValue))"

definition FastBigIntMap_getOrInsertComputed ::
    "FastBigIntMap \<Rightarrow> bigint \<Rightarrow> (bigint \<Rightarrow> bigint) \<Rightarrow> FastBigIntMap \<times> bigint option" where
  "FastBigIntMap_getOrInsertComputed m key callbackfn =
     (if FastBigIntMap_has m key then (m, bm_items m (bigint_toString key))
      else (FastBigIntMap_set m key (callbackfn key), Some (callbackfn key)))"

definition FastBigIntMap_fromIterable :: "(bigint \<times> bigint) list \<Rightarrow> FastBigIntMap" where
  "FastBigIntMap_fromIterable kvs =
     fold (\<lambda>(k, v) m. FastBigIntMap_set m k v) kvs FastBigIntMap_empty"

text \<open>The entries under the class invariant, where no iterated key reads \<open>undefined\<close>.\<close>

definition bm_contents :: "FastBigIntMap \<Rightarrow> (bigint \<times> bigint) list" where
  "bm_contents m = ks_contents bigint_toString (bm_items m) (bm_keyOrder m)"

definition bm_invar :: "FastBigIntMap \<Rightarrow> bool" where
  "bm_invar m \<longleftrightarrow> ks_invar bigint_toString (bm_items m) (bm_keyOrder m)"

lemmas bm_defs = bm_contents_def bm_invar_def

lemma bm_entries_contents:
  "bm_invar m \<Longrightarrow> FastBigIntMap_entries m = map (\<lambda>(k, v). (k, Some v)) (bm_contents m)"
  using big.has_iff [of "bm_items m" "bm_keyOrder m"]
  by (auto simp: bm_defs FastBigIntMap_entries_def ks_contents_def)

lemma bm_set_fields:
  "bm_items (FastBigIntMap_set m k v) = (bm_items m)(bigint_toString k \<mapsto> v)"
  "bm_keyOrder (FastBigIntMap_set m k v)
   = (if bm_items m (bigint_toString k) = None then bm_keyOrder m @ [k] else bm_keyOrder m)"
  by (simp_all add: FastBigIntMap_set_def FastBigIntMap_has_def Let_def)

lemma bm_delete_contents:
  "bm_invar m \<Longrightarrow> bm_contents (fst (FastBigIntMap_delete m k)) = AList.delete k (bm_contents m)"
  using big.remove_absent [of "bm_items m" "bm_keyOrder m" k]
  by (simp add: bm_defs FastBigIntMap_delete_def FastBigIntMap_has_def big.contents_remove)

lemma bm_delete_invar: "bm_invar m \<Longrightarrow> bm_invar (fst (FastBigIntMap_delete m k))"
  by (simp add: bm_defs FastBigIntMap_delete_def big.invar_remove)

interpretation fbm: insertion_ordered_map FastBigIntMap_empty FastBigIntMap_set FastBigIntMap_get
  FastBigIntMap_has "\<lambda>m k. fst (FastBigIntMap_delete m k)" bm_contents bm_invar "\<lambda>_. True"
proof unfold_locales
  fix m :: FastBigIntMap and k :: bigint and v :: bigint
  assume inv: "bm_invar m"
  show "bm_invar (FastBigIntMap_set m k v)"
    using inv big.invar_set [of "bm_items m" "bm_keyOrder m" k v] by (simp add: bm_defs bm_set_fields)
  show "bm_contents (FastBigIntMap_set m k v) = AList.update k v (bm_contents m)"
    using inv big.contents_set [of "bm_items m" "bm_keyOrder m" k v]
    by (simp add: bm_defs bm_set_fields)
  show "FastBigIntMap_get m k = map_of (bm_contents m) k"
    using inv big.lookup [of "bm_items m" "bm_keyOrder m" k]
    by (simp add: bm_defs FastBigIntMap_get_def)
  show "FastBigIntMap_has m k \<longleftrightarrow> k \<in> fst ` set (bm_contents m)"
    using inv big.has_iff [of "bm_items m" "bm_keyOrder m" k]
    by (simp add: bm_defs FastBigIntMap_has_def)
  show "distinct (map fst (bm_contents m))"
    using inv by (simp add: bm_defs) (simp add: ks_invar_def)
qed (simp_all add: bm_delete_contents bm_delete_invar,
     simp_all add: bm_defs FastBigIntMap_empty_def ks_invar_def ks_contents_def)

subsubsection \<open>Runs of operations\<close>

text \<open>Any sequence of mutating calls, on the class and on the JavaScript \<open>Map\<close> it stands for.\<close>

datatype map_call =
    CallSet bigint bigint
  | CallDelete bigint
  | CallClear
  | CallGetOrInsert bigint bigint

fun bm_call :: "map_call \<Rightarrow> FastBigIntMap \<Rightarrow> FastBigIntMap" where
  "bm_call (CallSet k v) m = FastBigIntMap_set m k v"
| "bm_call (CallDelete k) m = fst (FastBigIntMap_delete m k)"
| "bm_call CallClear m = FastBigIntMap_clear m"
| "bm_call (CallGetOrInsert k v) m = fst (FastBigIntMap_getOrInsert m k v)"

fun js_map_call :: "map_call \<Rightarrow> (bigint, bigint) js_map \<Rightarrow> (bigint, bigint) js_map" where
  "js_map_call (CallSet k v) m = AList.update k v m"
| "js_map_call (CallDelete k) m = AList.delete k m"
| "js_map_call CallClear m = []"
| "js_map_call (CallGetOrInsert k v) m = (if map_of m k = None then AList.update k v m else m)"

lemma bm_call_step:
  "bm_invar m \<Longrightarrow> bm_invar (bm_call c m) \<and> bm_contents (bm_call c m) = js_map_call c (bm_contents m)"
proof (cases c)
  case (CallGetOrInsert k v)
  assume "bm_invar m"
  with CallGetOrInsert show ?thesis
    using fbm.has_lookup [of m k] fbm.lookup_contents [of m k]
    by (simp add: FastBigIntMap_getOrInsert_def fbm.invar_put fbm.contents_put)
qed (simp_all add: fbm.invar_put fbm.contents_put fbm.invar_remove fbm.contents_remove,
     simp add: FastBigIntMap_clear_def bm_defs ks_invar_def ks_contents_def)

lemma bm_calls:
  "bm_invar m \<Longrightarrow>
   bm_invar (fold bm_call cs m) \<and> bm_contents (fold bm_call cs m) = fold js_map_call cs (bm_contents m)"
  by (induction cs arbitrary: m) (simp_all add: bm_call_step)

subsection \<open>Property names of a plain object\<close>

text \<open>
  The names an object literal inherits from \<open>Object.prototype\<close>. Assigning to \<^verbatim>\<open>__proto__\<close> runs
  the inherited accessor: it makes no own property, and it replaces the prototype when the
  assigned value is an object (\<open>is_object\<close>).
\<close>

definition proto_name :: string where
  "proto_name = ''__proto__''"

definition object_prototype_names :: "string list" where
  "object_prototype_names =
     [proto_name, ''constructor'', ''hasOwnProperty'', ''isPrototypeOf'', ''propertyIsEnumerable'',
      ''toLocaleString'', ''toString'', ''valueOf'', ''__defineGetter__'', ''__defineSetter__'',
      ''__lookupGetter__'', ''__lookupSetter__'']"

definition assign_own :: "string \<Rightarrow> 'v \<Rightarrow> (string \<rightharpoonup> 'v) \<Rightarrow> (string \<rightharpoonup> 'v)" where
  "assign_own k v own = (if k = proto_name then own else own(k \<mapsto> v))"

text \<open>What reading a property gives: \<open>undefined\<close>, an own value, a member of \<open>Object.prototype\<close>,
  or whatever a replaced prototype answers.\<close>

datatype 'v js_read = Undefined | OwnValue 'v | Builtin string | ViaReplacedPrototype string

subsection \<open>\<open>FastStringMap\<close>\<close>

record 'v FastStringMap =
  sm_items :: "string \<rightharpoonup> 'v"
  sm_protoReplaced :: bool
  sm_keyOrder :: "string list"

definition FastStringMap_empty :: "'v FastStringMap" where
  "FastStringMap_empty = \<lparr>sm_items = Map.empty, sm_protoReplaced = False, sm_keyOrder = []\<rparr>"

definition FastStringMap_size :: "'v FastStringMap \<Rightarrow> nat" where
  "FastStringMap_size m = length (sm_keyOrder m)"

text \<open>The spread copies own properties into a fresh object literal.\<close>

definition FastStringMap_setAll :: "'v FastStringMap \<Rightarrow> 'v FastStringMap \<Rightarrow> 'v FastStringMap" where
  "FastStringMap_setAll this other =
     this\<lparr>sm_items := sm_items other, sm_protoReplaced := False, sm_keyOrder := sm_keyOrder other\<rparr>"

definition FastStringMap_has :: "'v FastStringMap \<Rightarrow> string \<Rightarrow> bool" where
  "FastStringMap_has m key \<longleftrightarrow> sm_items m key \<noteq> None"

definition FastStringMap_set ::
    "('v \<Rightarrow> bool) \<Rightarrow> 'v FastStringMap \<Rightarrow> string \<Rightarrow> 'v \<Rightarrow> 'v FastStringMap" where
  "FastStringMap_set is_object m key v =
     (let m1 = (if FastStringMap_has m key then m
                else m\<lparr>sm_keyOrder := sm_keyOrder m @ [key]\<rparr>)
      in m1\<lparr>sm_items := assign_own key v (sm_items m1),
             sm_protoReplaced := sm_protoReplaced m1 \<or> (key = proto_name \<and> is_object v)\<rparr>)"

definition FastStringMap_read :: "'v FastStringMap \<Rightarrow> string \<Rightarrow> 'v js_read" where
  "FastStringMap_read m key =
     (case sm_items m key of
        Some v \<Rightarrow> OwnValue v
      | None \<Rightarrow> if sm_protoReplaced m then ViaReplacedPrototype key
                else if key \<in> set object_prototype_names then Builtin key else Undefined)"

definition FastStringMap_delete :: "'v FastStringMap \<Rightarrow> string \<Rightarrow> 'v FastStringMap \<times> bool" where
  "FastStringMap_delete m key =
     (if FastStringMap_has m key
      then (m\<lparr>sm_items := (sm_items m)(key := None),
              sm_keyOrder := filter (\<lambda>k. k \<noteq> key) (sm_keyOrder m)\<rparr>, True)
      else (m, False))"

definition FastStringMap_clear :: "'v FastStringMap \<Rightarrow> 'v FastStringMap" where
  "FastStringMap_clear m = m\<lparr>sm_items := Map.empty, sm_protoReplaced := False, sm_keyOrder := []\<rparr>"

definition FastStringMap_entries :: "'v FastStringMap \<Rightarrow> (string \<times> 'v js_read) list" where
  "FastStringMap_entries m = map (\<lambda>k. (k, FastStringMap_read m k)) (sm_keyOrder m)"

definition FastStringMap_getOrInsert ::
    "('v \<Rightarrow> bool) \<Rightarrow> 'v FastStringMap \<Rightarrow> string \<Rightarrow> 'v \<Rightarrow> 'v FastStringMap \<times> 'v js_read" where
  "FastStringMap_getOrInsert is_object m key defaultValue =
     (if FastStringMap_has m key then (m, FastStringMap_read m key)
      else (FastStringMap_set is_object m key defaultValue, OwnValue defaultValue))"

definition sm_get :: "'v FastStringMap \<Rightarrow> string \<Rightarrow> 'v option" where
  "sm_get m key = (case FastStringMap_read m key of OwnValue v \<Rightarrow> Some v | _ \<Rightarrow> None)"

definition sm_contents :: "'v FastStringMap \<Rightarrow> (string \<times> 'v) list" where
  "sm_contents m = ks_contents (\<lambda>k. k) (sm_items m) (sm_keyOrder m)"

definition sm_invar :: "'v FastStringMap \<Rightarrow> bool" where
  "sm_invar m \<longleftrightarrow> ks_invar (\<lambda>k. k) (sm_items m) (sm_keyOrder m) \<and> \<not> sm_protoReplaced m"

lemmas sm_defs = sm_contents_def sm_invar_def

lemma sm_get_own [simp]: "sm_get m k = sm_items m k"
  by (simp add: sm_get_def FastStringMap_read_def split: option.splits)

lemma sm_set_fields:
  "k \<noteq> proto_name \<Longrightarrow> sm_items (FastStringMap_set ob m k v) = (sm_items m)(k \<mapsto> v)"
  "sm_keyOrder (FastStringMap_set ob m k v)
   = (if sm_items m k = None then sm_keyOrder m @ [k] else sm_keyOrder m)"
  "k \<noteq> proto_name \<Longrightarrow> sm_protoReplaced (FastStringMap_set ob m k v) = sm_protoReplaced m"
  by (simp_all add: FastStringMap_set_def FastStringMap_has_def assign_own_def Let_def)

lemma sm_delete_contents:
  "sm_invar m \<Longrightarrow> sm_contents (fst (FastStringMap_delete m k)) = AList.delete k (sm_contents m)"
  using str.remove_absent [of "sm_items m" "sm_keyOrder m" k]
  by (simp add: sm_defs FastStringMap_delete_def FastStringMap_has_def str.contents_remove)

lemma sm_delete_invar: "sm_invar m \<Longrightarrow> sm_invar (fst (FastStringMap_delete m k))"
  by (simp add: sm_defs FastStringMap_delete_def str.invar_remove)

interpretation fsm: insertion_ordered_map FastStringMap_empty "FastStringMap_set ob" sm_get
  FastStringMap_has "\<lambda>m k. fst (FastStringMap_delete m k)" sm_contents sm_invar
  "\<lambda>k. k \<noteq> proto_name" for ob :: "'v \<Rightarrow> bool"
proof unfold_locales
  fix m :: "'v FastStringMap" and k :: string and v :: 'v
  assume inv: "sm_invar m" and k: "k \<noteq> proto_name"
  show "sm_invar (FastStringMap_set ob m k v)"
    using inv k str.invar_set [of "sm_items m" "sm_keyOrder m" k v] by (simp add: sm_defs sm_set_fields)
  show "sm_contents (FastStringMap_set ob m k v) = AList.update k v (sm_contents m)"
    using inv k str.contents_set [of "sm_items m" "sm_keyOrder m" k v]
    by (simp add: sm_defs sm_set_fields)
  show "sm_get m k = map_of (sm_contents m) k"
    using inv str.lookup [of "sm_items m" "sm_keyOrder m" k] by (simp add: sm_defs)
  show "FastStringMap_has m k \<longleftrightarrow> k \<in> fst ` set (sm_contents m)"
    using inv str.has_iff [of "sm_items m" "sm_keyOrder m" k]
    by (simp add: sm_defs FastStringMap_has_def)
next
  fix m :: "'v FastStringMap"
  assume "sm_invar m"
  then show "distinct (map fst (sm_contents m))"
    by (simp add: sm_defs) (simp add: ks_invar_def)
qed (simp_all add: sm_delete_contents sm_delete_invar,
     simp_all add: sm_defs FastStringMap_empty_def ks_invar_def ks_contents_def)

subsection \<open>\<open>FastBigIntSet\<close> and \<open>FastStringSet\<close>\<close>

record 'k fast_set =
  fs_items :: "string \<rightharpoonup> bool"
  fs_keyOrder :: "'k list"

definition fast_set_empty :: "'k fast_set" where
  "fast_set_empty = \<lparr>fs_items = Map.empty, fs_keyOrder = []\<rparr>"

definition fast_set_clear :: "'k fast_set \<Rightarrow> 'k fast_set" where
  "fast_set_clear s = s\<lparr>fs_items := Map.empty, fs_keyOrder := []\<rparr>"

definition fast_set_size :: "'k fast_set \<Rightarrow> nat" where
  "fast_set_size s = length (fs_keyOrder s)"

definition FastBigIntSet_has :: "bigint fast_set \<Rightarrow> bigint \<Rightarrow> bool" where
  "FastBigIntSet_has s x \<longleftrightarrow> fs_items s (bigint_toString x) \<noteq> None"

definition FastBigIntSet_add :: "bigint fast_set \<Rightarrow> bigint \<Rightarrow> bigint fast_set" where
  "FastBigIntSet_add s x =
     (if FastBigIntSet_has s x then s
      else s\<lparr>fs_items := (fs_items s)(bigint_toString x \<mapsto> True),
             fs_keyOrder := fs_keyOrder s @ [x]\<rparr>)"

definition FastBigIntSet_delete :: "bigint fast_set \<Rightarrow> bigint \<Rightarrow> bigint fast_set \<times> bool" where
  "FastBigIntSet_delete s x =
     (if FastBigIntSet_has s x
      then (s\<lparr>fs_items := (fs_items s)(bigint_toString x := None),
              fs_keyOrder := filter (\<lambda>k. k \<noteq> x) (fs_keyOrder s)\<rparr>, True)
      else (s, False))"

definition FastBigIntSet_addAll :: "bigint fast_set \<Rightarrow> bigint fast_set \<Rightarrow> bigint fast_set" where
  "FastBigIntSet_addAll this other = fold (\<lambda>x s. FastBigIntSet_add s x) (fs_keyOrder other) this"

definition FastStringSet_has :: "string fast_set \<Rightarrow> string \<Rightarrow> bool" where
  "FastStringSet_has s x \<longleftrightarrow> fs_items s x \<noteq> None"

definition FastStringSet_add :: "string fast_set \<Rightarrow> string \<Rightarrow> string fast_set" where
  "FastStringSet_add s x =
     (if FastStringSet_has s x then s
      else s\<lparr>fs_items := assign_own x True (fs_items s), fs_keyOrder := fs_keyOrder s @ [x]\<rparr>)"

definition FastStringSet_delete :: "string fast_set \<Rightarrow> string \<Rightarrow> string fast_set \<times> bool" where
  "FastStringSet_delete s x =
     (if FastStringSet_has s x
      then (s\<lparr>fs_items := (fs_items s)(x := None),
              fs_keyOrder := filter (\<lambda>k. k \<noteq> x) (fs_keyOrder s)\<rparr>, True)
      else (s, False))"

definition FastStringSet_addAll :: "string fast_set \<Rightarrow> string fast_set \<Rightarrow> string fast_set" where
  "FastStringSet_addAll this other = fold (\<lambda>x s. FastStringSet_add s x) (fs_keyOrder other) this"

definition set_invar :: "('k \<Rightarrow> string) \<Rightarrow> 'k fast_set \<Rightarrow> bool" where
  "set_invar name s \<longleftrightarrow> ks_invar name (fs_items s) (fs_keyOrder s)"

lemma fast_bigint_set_add:
  assumes "set_invar bigint_toString s"
  shows "set_invar bigint_toString (FastBigIntSet_add s x)
    \<and> set (fs_keyOrder (FastBigIntSet_add s x)) = insert x (set (fs_keyOrder s))"
  using assms big.has_iff [of "fs_items s" "fs_keyOrder s" x]
    big.invar_set [of "fs_items s" "fs_keyOrder s" x True]
  by (auto simp: set_invar_def FastBigIntSet_add_def FastBigIntSet_has_def)

lemma fast_string_set_add:
  assumes "set_invar (\<lambda>k. k) s" and "x \<noteq> proto_name"
  shows "set_invar (\<lambda>k. k) (FastStringSet_add s x)
    \<and> set (fs_keyOrder (FastStringSet_add s x)) = insert x (set (fs_keyOrder s))"
  using assms str.has_iff [of "fs_items s" "fs_keyOrder s" x]
    str.invar_set [of "fs_items s" "fs_keyOrder s" x True]
  by (auto simp: set_invar_def FastStringSet_add_def FastStringSet_has_def assign_own_def)

lemma fast_bigint_set_addAll:
  "set_invar bigint_toString s \<Longrightarrow>
   set_invar bigint_toString (FastBigIntSet_addAll s t)
   \<and> set (fs_keyOrder (FastBigIntSet_addAll s t)) = set (fs_keyOrder s) \<union> set (fs_keyOrder t)"
proof -
  have "set_invar bigint_toString (fold (\<lambda>x s. FastBigIntSet_add s x) xs s)
    \<and> set (fs_keyOrder (fold (\<lambda>x s. FastBigIntSet_add s x) xs s)) = set (fs_keyOrder s) \<union> set xs"
    if "set_invar bigint_toString s" for xs s
    using that by (induction xs arbitrary: s) (auto simp: fast_bigint_set_add)
  then show "set_invar bigint_toString s \<Longrightarrow> ?thesis" by (simp add: FastBigIntSet_addAll_def)
qed

subsection \<open>Properties\<close>

text \<open>
  after any sequence of \<open>set\<close>, \<open>delete\<close>, \<open>clear\<close> and \<open>getOrInsert\<close> calls on a new
  \<open>FastBigIntMap\<close>, its iteration order, \<open>get\<close>, \<open>has\<close>, \<open>keys\<close>, \<open>values\<close> and \<open>size\<close> are those of a JavaScript \<open>Map\<close>
  that ran the same calls, and no iterated key reads \<open>undefined\<close>.
\<close>

theorem FastBigIntMap_refines_js_map:
  fixes cs :: "map_call list"
  defines "m \<equiv> fold bm_call cs FastBigIntMap_empty" and "r \<equiv> fold js_map_call cs []"
  shows "FastBigIntMap_entries m = map (\<lambda>(k, v). (k, Some v)) r
    \<and> FastBigIntMap_get m = map_of r
    \<and> (\<forall>k. FastBigIntMap_has m k \<longleftrightarrow> k \<in> set (js_keys r))
    \<and> FastBigIntMap_keys m = js_keys r
    \<and> FastBigIntMap_values m = map (\<lambda>(k, v). Some v) r
    \<and> FastBigIntMap_size m = length r
    \<and> js_map_ok r"
proof -
  have inv: "bm_invar m" and con: "bm_contents m = r"
    using bm_calls [of FastBigIntMap_empty cs] fbm.invar_empty fbm.contents_empty
    by (simp_all add: m_def r_def)
  have entries: "FastBigIntMap_entries m = map (\<lambda>(k, v). (k, Some v)) r"
    using bm_entries_contents [OF inv] con by simp
  have keys: "bm_keyOrder m = js_keys r"
    using con by (auto simp: bm_contents_def)
  have "FastBigIntMap_values m = map snd (FastBigIntMap_entries m)"
    by (simp add: FastBigIntMap_values_def FastBigIntMap_entries_def comp_def)
  then have vals: "FastBigIntMap_values m = map (\<lambda>(k, v). Some v) r"
    by (simp add: entries comp_def case_prod_beta)
  have "FastBigIntMap_get m = map_of r" using fbm.lookup_contents [OF inv] con by auto
  moreover have "FastBigIntMap_has m k \<longleftrightarrow> k \<in> set (js_keys r)" for k
    using fbm.has_contents [OF inv] con by simp
  moreover have "js_map_ok r" using fbm.distinct_contents [OF inv] con by simp
  moreover have "length (bm_keyOrder m) = length r" using keys by simp
  ultimately show ?thesis
    using entries keys vals by (simp add: FastBigIntMap_keys_def FastBigIntMap_size_def)
qed

text \<open>
  a \<open>FastStringMap\<close> built from any list of entries whose keys avoid \<^verbatim>\<open>__proto__\<close> behaves as
  the JavaScript \<open>Map\<close> built from them: the same iteration order, the last value for each key, no
  duplicate key.
\<close>

theorem FastStringMap_load_correct:
  fixes kvs :: "(string \<times> 'v) list" and ob :: "'v \<Rightarrow> bool"
  assumes proto: "proto_name \<notin> fst ` set kvs"
  defines "m \<equiv> fold (\<lambda>(k, v) m. FastStringMap_set ob m k v) kvs FastStringMap_empty"
  shows "sm_contents m = fold (\<lambda>(k, v). AList.update k v) kvs []
    \<and> (\<forall>k. k \<noteq> proto_name \<longrightarrow> sm_get m k = map_of (rev kvs) k
          \<and> (FastStringMap_has m k \<longleftrightarrow> k \<in> fst ` set kvs))
    \<and> distinct (sm_keyOrder m)"
proof -
  have ok: "\<forall>(k, v) \<in> set kvs. k \<noteq> proto_name" using proto by force
  note inv = fsm.invar_load [OF fsm.invar_empty ok, of ob, folded m_def]
  have con: "sm_contents m = fold (\<lambda>(k, v). AList.update k v) kvs []"
    using fsm.contents_load [OF fsm.invar_empty ok, of ob]
    by (simp add: m_def fsm.contents_empty)
  have get: "sm_get m k = map_of (rev kvs) k" if "k \<noteq> proto_name" for k
    using fsm.lookup_load [OF fsm.invar_empty ok that, of ob]
    by (simp add: m_def FastStringMap_empty_def map_add_def split: option.splits)
  have has: "FastStringMap_has m k \<longleftrightarrow> k \<in> fst ` set kvs" if "k \<noteq> proto_name" for k
    using fsm.has_lookup [OF inv that] get [OF that] map_of_eq_None_iff [of "rev kvs" k]
    by (simp del: not_None_eq)
  show ?thesis using con get has inv by (auto simp: sm_invar_def ks_invar_def)
qed

theorem FastStringMap_load_correct_witness:
  "let m = fold (\<lambda>(k, v) m. FastStringMap_set (\<lambda>_. False) m k v)
             [(''a'', 1::nat), (''b'', 2), (''a'', 3)] FastStringMap_empty
   in FastStringMap_has m ''b'' \<and> sm_get m ''a'' = Some 3"
proof -
  let ?kvs = "[(''a'', 1::nat), (''b'', 2), (''a'', 3)]"
  have p: "proto_name \<notin> fst ` set ?kvs" by (simp add: proto_name_def)
  have a: "''a'' \<noteq> proto_name" "''b'' \<noteq> proto_name" by (simp_all add: proto_name_def)
  show ?thesis
    using FastStringMap_load_correct [OF p, of "\<lambda>_. False"] a unfolding Let_def by auto
qed

text \<open>
  the string classes lose the key \<^verbatim>\<open>__proto__\<close>: adding it to any \<open>FastStringSet\<close> that
  does not hold it grows \<open>size\<close> by one each time and never makes \<open>has\<close> true, so the set holds
  duplicates; a \<open>FastStringMap\<close> behaves the same way.
\<close>

theorem fast_string_proto_key_lost:
  assumes "\<not> FastStringSet_has s proto_name" and "\<not> FastStringMap_has m proto_name"
  shows "\<not> FastStringSet_has (FastStringSet_add s proto_name) proto_name
    \<and> fast_set_size (FastStringSet_add s proto_name) = Suc (fast_set_size s)
    \<and> \<not> distinct (fs_keyOrder (FastStringSet_add (FastStringSet_add s proto_name) proto_name))
    \<and> \<not> FastStringMap_has (FastStringMap_set ob m proto_name v) proto_name
    \<and> FastStringMap_size (FastStringMap_set ob m proto_name v) = Suc (FastStringMap_size m)"
  using assms
  by (simp add: FastStringSet_has_def FastStringSet_add_def assign_own_def fast_set_size_def
      FastStringMap_has_def FastStringMap_set_def FastStringMap_size_def)

theorem fast_string_proto_key_lost_witness:
  "fast_set_size (FastStringSet_add fast_set_empty proto_name) = 1
   \<and> \<not> FastStringSet_has (FastStringSet_add fast_set_empty proto_name) proto_name"
proof -
  have h: "\<not> FastStringSet_has fast_set_empty proto_name"
      "\<not> FastStringMap_has (FastStringMap_empty :: nat FastStringMap) proto_name"
    by (simp_all add: FastStringSet_has_def fast_set_empty_def FastStringMap_has_def
        FastStringMap_empty_def)
  show ?thesis
    using fast_string_proto_key_lost [OF h]
    by (simp add: fast_set_size_def fast_set_empty_def)
qed

end
