(* ===== verification/Consensus_Rules.thy ===== *)
theory Consensus_Rules
  imports Prelude
begin

unbundle bit_operations_syntax

section \<open>The consensus rule flags (\<open>src/src/vm/consensus/ConsensusRules.ts\<close>)\<close>

text \<open>
  A \<open>ConsensusRules\<close> object is one \<open>bigint\<close> whose bits are flags. The class is modelled by its
  value; mutating methods return the new value. JavaScript's bitwise operators on \<open>bigint\<close> are
  those of two's complement integers of unbounded width, which are HOL's on \<^typ>\<open>int\<close>. The abstract
  reading of a value is the set of its bits.
\<close>

record ConsensusRules =
  cr_value :: bigint

definition NONE :: bigint where "NONE = 0"
definition UNSAFE_QUANTUM_SIGNATURES_ALLOWED :: bigint where
  "UNSAFE_QUANTUM_SIGNATURES_ALLOWED = 1"
definition CONTRACT_UPDATES_ALLOWED :: bigint where "CONTRACT_UPDATES_ALLOWED = 2"
definition RESERVED_FLAG_2 :: bigint where "RESERVED_FLAG_2 = 4"

definition ConsensusRules_new :: ConsensusRules where
  "ConsensusRules_new = \<lparr>cr_value = 0\<rparr>"

definition ConsensusRules_fromBigint :: "bigint \<Rightarrow> ConsensusRules" where
  "ConsensusRules_fromBigint v = \<lparr>cr_value = v\<rparr>"

definition ConsensusRules_combine :: "bigint list \<Rightarrow> ConsensusRules" where
  "ConsensusRules_combine flags = \<lparr>cr_value = fold (\<lambda>f r. r OR f) flags 0\<rparr>"

definition ConsensusRules_reset :: "ConsensusRules \<Rightarrow> ConsensusRules" where
  "ConsensusRules_reset c = c\<lparr>cr_value := 0\<rparr>"

definition ConsensusRules_asBigInt :: "ConsensusRules \<Rightarrow> bigint" where
  "ConsensusRules_asBigInt c = cr_value c"

text \<open>\<open>DataView.setBigInt64\<close>, big-endian: the low 64 bits, most significant byte first.\<close>

definition ConsensusRules_toBeBytes :: "ConsensusRules \<Rightarrow> bytes" where
  "ConsensusRules_toBeBytes c =
     map (\<lambda>i. word_of_int (drop_bit (8 * (7 - i)) (cr_value c))) [0..<8]"

definition ConsensusRules_contains :: "ConsensusRules \<Rightarrow> ConsensusRules \<Rightarrow> bool" where
  "ConsensusRules_contains c other \<longleftrightarrow> (cr_value c AND cr_value other) = cr_value other"

definition ConsensusRules_containsFlag :: "ConsensusRules \<Rightarrow> bigint \<Rightarrow> bool" where
  "ConsensusRules_containsFlag c flag \<longleftrightarrow> (cr_value c AND flag) = flag"

definition ConsensusRules_intersects :: "ConsensusRules \<Rightarrow> ConsensusRules \<Rightarrow> bool" where
  "ConsensusRules_intersects c other \<longleftrightarrow> (cr_value c AND cr_value other) \<noteq> 0"

definition ConsensusRules_intersectsFlag :: "ConsensusRules \<Rightarrow> bigint \<Rightarrow> bool" where
  "ConsensusRules_intersectsFlag c flag \<longleftrightarrow> (cr_value c AND flag) \<noteq> 0"

definition ConsensusRules_isEmpty :: "ConsensusRules \<Rightarrow> bool" where
  "ConsensusRules_isEmpty c \<longleftrightarrow> cr_value c = 0"

definition ConsensusRules_union :: "ConsensusRules \<Rightarrow> ConsensusRules \<Rightarrow> ConsensusRules" where
  "ConsensusRules_union c other = \<lparr>cr_value = cr_value c OR cr_value other\<rparr>"

definition ConsensusRules_intersection :: "ConsensusRules \<Rightarrow> ConsensusRules \<Rightarrow> ConsensusRules" where
  "ConsensusRules_intersection c other = \<lparr>cr_value = cr_value c AND cr_value other\<rparr>"

definition ConsensusRules_difference :: "ConsensusRules \<Rightarrow> ConsensusRules \<Rightarrow> ConsensusRules" where
  "ConsensusRules_difference c other = \<lparr>cr_value = cr_value c AND NOT (cr_value other)\<rparr>"

definition ConsensusRules_symmetricDifference ::
    "ConsensusRules \<Rightarrow> ConsensusRules \<Rightarrow> ConsensusRules" where
  "ConsensusRules_symmetricDifference c other = \<lparr>cr_value = cr_value c XOR cr_value other\<rparr>"

definition ConsensusRules_complement :: "ConsensusRules \<Rightarrow> ConsensusRules" where
  "ConsensusRules_complement c = \<lparr>cr_value = NOT (cr_value c)\<rparr>"

definition ConsensusRules_insert :: "ConsensusRules \<Rightarrow> ConsensusRules \<Rightarrow> ConsensusRules" where
  "ConsensusRules_insert c other = c\<lparr>cr_value := cr_value c OR cr_value other\<rparr>"

definition ConsensusRules_insertFlag :: "ConsensusRules \<Rightarrow> bigint \<Rightarrow> ConsensusRules" where
  "ConsensusRules_insertFlag c flag = c\<lparr>cr_value := cr_value c OR flag\<rparr>"

definition ConsensusRules_remove :: "ConsensusRules \<Rightarrow> ConsensusRules \<Rightarrow> ConsensusRules" where
  "ConsensusRules_remove c other = c\<lparr>cr_value := cr_value c AND NOT (cr_value other)\<rparr>"

definition ConsensusRules_removeFlag :: "ConsensusRules \<Rightarrow> bigint \<Rightarrow> ConsensusRules" where
  "ConsensusRules_removeFlag c flag = c\<lparr>cr_value := cr_value c AND NOT flag\<rparr>"

definition ConsensusRules_toggle :: "ConsensusRules \<Rightarrow> ConsensusRules \<Rightarrow> ConsensusRules" where
  "ConsensusRules_toggle c other = c\<lparr>cr_value := cr_value c XOR cr_value other\<rparr>"

definition ConsensusRules_toggleFlag :: "ConsensusRules \<Rightarrow> bigint \<Rightarrow> ConsensusRules" where
  "ConsensusRules_toggleFlag c flag = c\<lparr>cr_value := cr_value c XOR flag\<rparr>"

definition ConsensusRules_set :: "ConsensusRules \<Rightarrow> ConsensusRules \<Rightarrow> bool \<Rightarrow> ConsensusRules" where
  "ConsensusRules_set c other on =
     (if on then ConsensusRules_insert c other else ConsensusRules_remove c other)"

definition ConsensusRules_setFlag :: "ConsensusRules \<Rightarrow> bigint \<Rightarrow> bool \<Rightarrow> ConsensusRules" where
  "ConsensusRules_setFlag c flag on =
     (if on then ConsensusRules_insertFlag c flag else ConsensusRules_removeFlag c flag)"

definition ConsensusRules_clone :: "ConsensusRules \<Rightarrow> ConsensusRules" where
  "ConsensusRules_clone c = \<lparr>cr_value = cr_value c\<rparr>"

definition ConsensusRules_equals :: "ConsensusRules \<Rightarrow> ConsensusRules \<Rightarrow> bool" where
  "ConsensusRules_equals c other \<longleftrightarrow> cr_value c = cr_value other"

text \<open>The loop of \<open>toBinaryString\<close>: the low bit is prepended, then the value shifted right.\<close>

fun toBinaryString_loop :: "nat \<Rightarrow> bigint \<Rightarrow> string \<Rightarrow> string" where
  "toBinaryString_loop 0 val result = result"
| "toBinaryString_loop (Suc n) val result =
     toBinaryString_loop n (drop_bit 1 val)
       ((if val AND 1 \<noteq> 0 then CHR ''1'' else CHR ''0'') # result)"

definition ConsensusRules_toBinaryString :: "ConsensusRules \<Rightarrow> string" where
  "ConsensusRules_toBinaryString c = ''0b'' @ toBinaryString_loop 64 (cr_value c) ''''"

subsection \<open>Values as sets of bits\<close>

definition flag_bits :: "bigint \<Rightarrow> nat set" where
  "flag_bits v = {n. bit v n}"

lemma in_flag_bits [simp]: "n \<in> flag_bits v \<longleftrightarrow> bit v n"
  by (simp add: flag_bits_def)

lemma flag_bits_inject [simp]: "flag_bits a = flag_bits b \<longleftrightarrow> a = b"
  by (auto simp: flag_bits_def set_eq_iff bit_eq_iff)

lemma flag_bits_ops [simp]:
  "flag_bits (a OR b) = flag_bits a \<union> flag_bits b"
  "flag_bits (a AND b) = flag_bits a \<inter> flag_bits b"
  "flag_bits (NOT a) = - flag_bits a"
  "flag_bits (a XOR b) = (flag_bits a - flag_bits b) \<union> (flag_bits b - flag_bits a)"
  "flag_bits 0 = {}"
  by (auto simp: bit_simps)

lemma subset_flag_bits: "(a AND b) = b \<longleftrightarrow> flag_bits b \<subseteq> flag_bits a"
  by (simp flip: flag_bits_inject) blast

lemma disjoint_flag_bits: "(a AND b) = 0 \<longleftrightarrow> flag_bits a \<inter> flag_bits b = {}"
  by (simp flip: flag_bits_inject)

lemma flag_bits_fold_or:
  "flag_bits (fold (\<lambda>f r. r OR f) fs a) = flag_bits a \<union> \<Union> (flag_bits ` set fs)"
  by (induction fs arbitrary: a) auto

lemmas ConsensusRules_set_ops =
  ConsensusRules_combine_def ConsensusRules_contains_def ConsensusRules_containsFlag_def
  ConsensusRules_intersects_def ConsensusRules_intersectsFlag_def ConsensusRules_isEmpty_def
  ConsensusRules_union_def ConsensusRules_intersection_def ConsensusRules_difference_def
  ConsensusRules_symmetricDifference_def ConsensusRules_complement_def ConsensusRules_insert_def
  ConsensusRules_insertFlag_def ConsensusRules_remove_def ConsensusRules_removeFlag_def
  ConsensusRules_toggle_def ConsensusRules_toggleFlag_def ConsensusRules_set_def
  ConsensusRules_setFlag_def ConsensusRules_clone_def ConsensusRules_equals_def

subsection \<open>Printing and serialising\<close>

lemma toBinaryString_loop_bits:
  "toBinaryString_loop n v acc =
     map (\<lambda>i. if bit v i then CHR ''1'' else CHR ''0'') (rev [0..<n]) @ acc"
proof (induction n arbitrary: v acc)
  case (Suc n)
  have low: "v AND 1 \<noteq> 0 \<longleftrightarrow> bit v 0"
    by (simp add: and_one_eq odd_iff_mod_2_eq_one bit_0)
  have "rev [0..<Suc n] = map Suc (rev [0..<n]) @ [0]"
    by (simp add: upt_conv_Cons map_Suc_upt del: upt_Suc flip: rev_map)
  then show ?case
    by (simp add: Suc.IH low bit_drop_bit_eq comp_def add.commute del: upt_Suc)
qed simp

definition binary_value :: "string \<Rightarrow> int" where
  "binary_value cs = foldl (\<lambda>a c. 2 * a + of_bool (c = CHR ''1'')) 0 cs"

lemma be_value_chunks:
  "foldl (\<lambda>a b. 256 * a + uint b) acc
     (map (\<lambda>i. word_of_int (drop_bit (8 * i) v) :: byte) (rev [0..<n]))
   = 256 ^ n * acc + v mod 256 ^ n"
proof (induction n arbitrary: acc)
  case (Suc n)
  have "(256::int) ^ n = 2 ^ (8 * n)" by (simp add: power_mult)
  then have top: "uint (word_of_int (drop_bit (8 * n) v) :: byte) = v div 256 ^ n mod 256"
    by (simp add: uint_word_of_int drop_bit_eq_div)
  have "v mod 256 ^ Suc n = v mod (256 ^ n * 256)" by (simp add: mult.commute)
  also have "\<dots> = 256 ^ n * (v div 256 ^ n mod 256) + v mod 256 ^ n"
    by (simp add: zmod_zmult2_eq)
  finally have "v mod 256 ^ Suc n = 256 ^ n * (v div 256 ^ n mod 256) + v mod 256 ^ n" .
  then show ?case by (simp add: Suc.IH top) (simp add: algebra_simps)
qed simp

lemma toBeBytes_rev:
  "ConsensusRules_toBeBytes c
   = map (\<lambda>i. word_of_int (drop_bit (8 * i) (cr_value c))) (rev [0..<8])"
proof -
  have "map (\<lambda>i. 7 - i) [0..<8::nat] = rev [0..<8]" by (simp add: upt_rec)
  then have "map (\<lambda>i. word_of_int (drop_bit (8 * i) (cr_value c)) :: byte) (rev [0..<8])
      = map (\<lambda>i. word_of_int (drop_bit (8 * i) (cr_value c))) (map (\<lambda>i. 7 - i) [0..<8])"
    by simp
  then show ?thesis by (simp only: ConsensusRules_toBeBytes_def map_map comp_def)
qed

lemma binary_value_bits:
  "binary_value (map (\<lambda>i. if bit v i then CHR ''1'' else CHR ''0'') (rev [0..<n])) = v mod 2 ^ n"
proof -
  have "binary_value (map (\<lambda>i. if bit v i then CHR ''1'' else CHR ''0'') (rev [0..<n]))
      = foldr (\<lambda>b a. of_bool b + 2 * a) (map (bit v) [0..<n]) 0"
    by (auto simp: binary_value_def foldl_conv_foldr foldr_map rev_map comp_def add.commute
        intro!: foldr_cong)
  also have "\<dots> = take_bit n v"
    using horner_sum_bit_eq_take_bit [of v n] by (simp add: horner_sum_foldr comp_def)
  finally show ?thesis by (simp add: take_bit_eq_mod)
qed

subsection \<open>Properties\<close>

text \<open>
  the flag operations are the set operations on the bits of the value: union, intersection,
  difference, symmetric difference, complement, insertion, removal and toggling, with \<open>contains\<close>
  the inclusion, \<open>intersects\<close> a common bit and \<open>equals\<close> the equality of the bit sets.
\<close>

theorem ConsensusRules_refine_flag_sets:
  fixes c d :: ConsensusRules and f :: bigint
  defines "B \<equiv> \<lambda>c. flag_bits (cr_value c)"
  shows "B (ConsensusRules_combine fs) = \<Union> (flag_bits ` set fs)
    \<and> B (ConsensusRules_union c d) = B c \<union> B d
    \<and> B (ConsensusRules_intersection c d) = B c \<inter> B d
    \<and> B (ConsensusRules_difference c d) = B c - B d
    \<and> B (ConsensusRules_symmetricDifference c d) = (B c - B d) \<union> (B d - B c)
    \<and> B (ConsensusRules_complement c) = - B c
    \<and> B (ConsensusRules_set c d on) = (if on then B c \<union> B d else B c - B d)
    \<and> B (ConsensusRules_setFlag c f on) = (if on then B c \<union> flag_bits f else B c - flag_bits f)
    \<and> B (ConsensusRules_toggleFlag (ConsensusRules_toggleFlag c f) f) = B c
    \<and> (ConsensusRules_contains c d \<longleftrightarrow> B d \<subseteq> B c)
    \<and> (ConsensusRules_containsFlag c f \<longleftrightarrow> flag_bits f \<subseteq> B c)
    \<and> (ConsensusRules_intersects c d \<longleftrightarrow> B c \<inter> B d \<noteq> {})
    \<and> (ConsensusRules_intersectsFlag c f \<longleftrightarrow> B c \<inter> flag_bits f \<noteq> {})
    \<and> (ConsensusRules_isEmpty c \<longleftrightarrow> B c = {})
    \<and> (ConsensusRules_equals c d \<longleftrightarrow> B c = B d)"
proof -
  have "B c = {} \<longleftrightarrow> cr_value c = 0" unfolding B_def by (simp flip: flag_bits_inject)
  then show ?thesis
    unfolding B_def ConsensusRules_set_ops
    by (auto simp: flag_bits_fold_or subset_flag_bits disjoint_flag_bits simp del: in_flag_bits)
qed

text \<open>
  both serialisations keep the low 64 bits of the flags exactly: \<open>toBeBytes\<close> is eight bytes
  whose big-endian value, and \<open>toBinaryString\<close> is \<open>0b\<close> and 64 binary digits whose value, is the flags
  modulo \<open>2 ^ 64\<close>.
\<close>

theorem ConsensusRules_serialisation_roundtrip:
  "length (ConsensusRules_toBeBytes c) = 8
   \<and> be_value (ConsensusRules_toBeBytes c) = cr_value c mod 2 ^ 64
   \<and> take 2 (ConsensusRules_toBinaryString c) = ''0b''
   \<and> length (ConsensusRules_toBinaryString c) = 66
   \<and> binary_value (drop 2 (ConsensusRules_toBinaryString c)) = cr_value c mod 2 ^ 64"
proof -
  have "be_value (ConsensusRules_toBeBytes c) = cr_value c mod 2 ^ 64"
    unfolding be_value_def toBeBytes_rev be_value_chunks by simp
  moreover have "ConsensusRules_toBinaryString c
      = ''0b'' @ map (\<lambda>i. if bit (cr_value c) i then CHR ''1'' else CHR ''0'') (rev [0..<64])"
    unfolding ConsensusRules_toBinaryString_def toBinaryString_loop_bits by simp
  ultimately show ?thesis
    using binary_value_bits [of "cr_value c" 64]
    by (simp add: ConsensusRules_toBeBytes_def del: upt_conv_Cons)
qed

end
