(* ===== verification/Consensus_Config.thy ===== *)
theory Consensus_Config
  imports Prelude Consensus_Rules
begin

section \<open>Consensus parameters and upgrades (\<open>src/src/poc/configurations\<close>)\<close>

text \<open>
  The parameter tables of the consensus (\<open>IOPNetConsensus\<close>, \<open>RoswellConsensus\<close>), the object
  \<open>OPNetConsensus\<close> that selects the active one from the block height, and the indexer's
  \<open>ConsensusTracker\<close> around it. JavaScript numbers that are not integers are exact rationals. The
  node's configuration file is the parameter \<open>config\<close> of the operations. Addresses are their
  hexadecimal form. A method that throws may already have changed the object, so the operations
  return the object together with an outcome, which is also where \<open>process.exit\<close> shows.
\<close>

subsection \<open>Data\<close>

datatype Consensus = Roswell | Rachel | Kecksburg | Phoenix | Aurora | Rendlesham | Lazar
  | ShagHarbor | Exeter | Stephenville | Valensole | Socorro | Pascagoula | Tehran | Westall
  | Hopkinsville | Belgium | Breeze | Flatwoods | Maury | Varginha | Trindade | Levelland
  | Wanaque | Coyame | Delphos

datatype ChainIds = Bitcoin | Fractal | Dogecoin | Litecoin

datatype BitcoinNetwork = mainnet | testnet | testnet4 | regtest | signet | custom

type_synonym address = string

record SpecialContract =
  sc_address :: address
  freeGas :: bool
  bypassBlockLimit :: bool
  maxExternalGas :: bigint
  transactionGasLimit :: bigint

type_synonym 'a per_network = "(ChainIds \<times> (BitcoinNetwork \<times> 'a) list) list"

record OPNetEnabledConfigs =
  OE_ENABLED :: bool
  OE_BLOCK :: bigint

record EarlyMiningConfig =
  EM_ENABLED :: bool
  WHITELISTED_PUBLIC_KEY :: "address option"
  EXPIRES_AT_BLOCK :: "bigint option"
  PATCH_2_ENABLE_AT_BLOCK :: "bigint option"
  EXPIRES_AT_BLOCK_PATCH_2 :: "bigint option"

record EPOCH_config =
  EPOCH_ENABLED :: bool
  BLOCKS_PER_EPOCH :: bigint
  MIN_DIFFICULTY :: nat
  GRAFFITI_LENGTH :: nat
  TIMELOCK_BLOCKS_REWARD :: nat
  SOLUTION_LIFETIME :: bigint
  GRAFFITI_LENGTH_PATCH_BLOCK_HEIGHT :: "bigint per_network"
  EARLY_MINING :: "EarlyMiningConfig per_network option"

record GENERIC_config =
  ENABLED_AT_BLOCK :: bigint
  NEXT_CONSENSUS :: Consensus
  NEXT_CONSENSUS_BLOCK :: bigint
  IS_READY_FOR_NEXT_CONSENSUS :: bool
  ALLOW_LEGACY :: bool

record GAS_config =
  COLD_STORAGE_LOAD :: bigint
  GAS_PENALTY_FACTOR :: bigint
  TARGET_GAS :: bigint
  SMOOTH_OUT_GAS_INCREASE :: bigint
  MAX_THEORETICAL_GAS :: bigint
  TRANSACTION_MAX_GAS :: bigint
  EMULATION_MAX_GAS :: bigint
  PANIC_GAS_COST :: bigint
  SAT_TO_GAS_RATIO :: bigint
  MIN_BASE_GAS :: rat
  SMOOTHING_FACTOR :: rat
  ALPHA1 :: rat
  ALPHA2 :: rat
  U_TARGET :: rat

record TRANSACTIONS_config =
  MAXIMUM_EVENT_LENGTH :: nat
  MAXIMUM_TOTAL_EVENT_LENGTH :: nat
  MAXIMUM_EVENT_NAME_LENGTH :: nat
  MAXIMUM_RECEIPT_LENGTH :: nat
  MAXIMUM_DEPLOYMENT_DEPTH :: nat
  MAXIMUM_CALL_DEPTH :: nat
  REENTRANCY_GUARD :: bool
  STORAGE_COST_PER_BYTE :: bigint
  SKIP_PROOF_VALIDATION_FOR_EXECUTION_BEFORE_TRANSACTION :: bool
  ENABLE_ACCESS_LIST :: bool
  MAXIMUM_UPDATE_DEPTH :: nat

record VM_config =
  CONSENSUS_RULES :: ConsensusRules
  CURRENT_DEPLOYMENT_VERSION :: nat
  MAXIMUM_INPUTS :: nat
  MAXIMUM_OUTPUTS :: nat
  WRITE_FLAGS :: bool
  WRITE_COINBASE :: bool
  WRITE_WITNESSES :: bool
  WRITE_SCRIPT_PUB_KEY :: bool
  OP_RETURN_ENABLED :: bool
  OP_RETURN_MAXIMUM_SIZE :: nat

record IOPNetConsensus =
  CONSENSUS :: Consensus
  CONSENSUS_NAME :: string
  OPNET_ENABLED :: "OPNetEnabledConfigs per_network"
  EPOCH :: EPOCH_config
  GENERIC :: GENERIC_config
  PREIMAGE_LENGTH :: nat
  MAXIMUM_CONTRACT_SIZE_COMPRESSED :: nat
  MAXIMUM_CALLDATA_SIZE_COMPRESSED :: nat
  SPECIAL_CONTRACTS :: "(string \<times> SpecialContract) list per_network"
  MAX_DECOMPRESSED_SIZE :: nat
  MAXIMUM_TRANSACTION_BROADCAST_SIZE :: nat
  PSBT_MAXIMUM_TRANSACTION_BROADCAST_SIZE :: nat
  MLDSA_MAX_LOADS :: nat
  GAS :: GAS_config
  TRANSACTIONS :: TRANSACTIONS_config
  VM :: VM_config
  MINIMAL_PSBT_ACCEPTANCE_FEE_VB_PER_SAT :: bigint

subsection \<open>The Roswell consensus\<close>

definition nativeSwapContractSettings :: "address \<Rightarrow> SpecialContract" where
  "nativeSwapContractSettings a =
     \<lparr>sc_address = a, freeGas = True, bypassBlockLimit = True,
      maxExternalGas = 12000000000, transactionGasLimit = 600000000000\<rparr>"

definition nativeSwapRegtest :: address where
  "nativeSwapRegtest = ''0xfcab8f4f47c83846581eb2c1b07918971af2100d245444d9c3dee1a3dadd6d4f''"

definition nativeSwapMainnet :: address where
  "nativeSwapMainnet = ''0xbaf131d22120efe459586eb9eda2590f78044851bfcda49365ed1c1dbc863ee4''"

definition nativeSwapTestnet :: address where
  "nativeSwapTestnet = ''0x4397befe4e067390596b3c296e77fe86589487bf3bf3f0a9a93ce794e2d78fb5''"

definition SPECIAL_CONTRACTS_ROSWELL :: "(string \<times> SpecialContract) list per_network" where
  "SPECIAL_CONTRACTS_ROSWELL =
     [(Bitcoin,
       [(mainnet, [(nativeSwapMainnet, nativeSwapContractSettings nativeSwapMainnet)]),
        (testnet, [(nativeSwapTestnet, nativeSwapContractSettings nativeSwapTestnet)]),
        (testnet4, []),
        (regtest, [(nativeSwapRegtest, nativeSwapContractSettings nativeSwapRegtest)])])]"

definition RoswellConsensusRules :: ConsensusRules where
  "RoswellConsensusRules =
     ConsensusRules_insertFlag ConsensusRules_new UNSAFE_QUANTUM_SIGNATURES_ALLOWED"

definition Roswell_EPOCH :: EPOCH_config where
  "Roswell_EPOCH =
     \<lparr>EPOCH_ENABLED = True, BLOCKS_PER_EPOCH = 5, MIN_DIFFICULTY = 35, GRAFFITI_LENGTH = 16,
      TIMELOCK_BLOCKS_REWARD = 75, SOLUTION_LIFETIME = 80,
      GRAFFITI_LENGTH_PATCH_BLOCK_HEIGHT =
        [(Bitcoin, [(mainnet, 943452), (testnet, 12583), (regtest, 0)])],
      EARLY_MINING = Some
        [(Bitcoin,
          [(mainnet, \<lparr>EM_ENABLED = True,
              WHITELISTED_PUBLIC_KEY =
                Some ''0xb884f251011f1b2f747a477b0d019c3abea15c889ea5e404bf7ed5e219af7de1'',
              EXPIRES_AT_BLOCK = Some 955357, PATCH_2_ENABLE_AT_BLOCK = Some 948230,
              EXPIRES_AT_BLOCK_PATCH_2 = Some 1000069\<rparr>),
           (testnet, \<lparr>EM_ENABLED = False, WHITELISTED_PUBLIC_KEY = None, EXPIRES_AT_BLOCK = None,
              PATCH_2_ENABLE_AT_BLOCK = None, EXPIRES_AT_BLOCK_PATCH_2 = None\<rparr>),
           (regtest, \<lparr>EM_ENABLED = True, WHITELISTED_PUBLIC_KEY = None, EXPIRES_AT_BLOCK = None,
              PATCH_2_ENABLE_AT_BLOCK = None, EXPIRES_AT_BLOCK_PATCH_2 = None\<rparr>)])]\<rparr>"

definition Roswell_GENERIC :: GENERIC_config where
  "Roswell_GENERIC =
     \<lparr>ENABLED_AT_BLOCK = - 1, NEXT_CONSENSUS = Rachel, NEXT_CONSENSUS_BLOCK = 953020,
      IS_READY_FOR_NEXT_CONSENSUS = False, ALLOW_LEGACY = False\<rparr>"

definition Roswell_GAS :: GAS_config where
  "Roswell_GAS =
     \<lparr>COLD_STORAGE_LOAD = 21000000, GAS_PENALTY_FACTOR = 1, TARGET_GAS = 20000000000001,
      SMOOTH_OUT_GAS_INCREASE = 1000000000, MAX_THEORETICAL_GAS = 20000000000000,
      TRANSACTION_MAX_GAS = 150000000000, EMULATION_MAX_GAS = 149000000000,
      PANIC_GAS_COST = 100000000, SAT_TO_GAS_RATIO = 1000000, MIN_BASE_GAS = 1,
      SMOOTHING_FACTOR = 4 / 10, ALPHA1 = 5 / 10, ALPHA2 = 1, U_TARGET = 1\<rparr>"

definition Roswell_TRANSACTIONS :: TRANSACTIONS_config where
  "Roswell_TRANSACTIONS =
     \<lparr>MAXIMUM_EVENT_LENGTH = 1024 * 1024, MAXIMUM_TOTAL_EVENT_LENGTH = 1024 * 1024 * 2,
      MAXIMUM_EVENT_NAME_LENGTH = 64, MAXIMUM_RECEIPT_LENGTH = 2048,
      MAXIMUM_DEPLOYMENT_DEPTH = 2, MAXIMUM_CALL_DEPTH = 50, REENTRANCY_GUARD = False,
      STORAGE_COST_PER_BYTE = 50000,
      SKIP_PROOF_VALIDATION_FOR_EXECUTION_BEFORE_TRANSACTION = True,
      ENABLE_ACCESS_LIST = False, MAXIMUM_UPDATE_DEPTH = 1\<rparr>"

definition Roswell_VM :: VM_config where
  "Roswell_VM =
     \<lparr>CONSENSUS_RULES = RoswellConsensusRules, CURRENT_DEPLOYMENT_VERSION = 0,
      MAXIMUM_INPUTS = 250, MAXIMUM_OUTPUTS = 250, WRITE_FLAGS = True, WRITE_COINBASE = True,
      WRITE_WITNESSES = True, WRITE_SCRIPT_PUB_KEY = True, OP_RETURN_ENABLED = True,
      OP_RETURN_MAXIMUM_SIZE = 1200\<rparr>"

definition RoswellConsensus :: IOPNetConsensus where
  "RoswellConsensus =
     \<lparr>CONSENSUS = Roswell, CONSENSUS_NAME = ''Roswell'',
      OPNET_ENABLED = [(Bitcoin,
        [(mainnet, \<lparr>OE_ENABLED = True, OE_BLOCK = 941396\<rparr>),
         (testnet, \<lparr>OE_ENABLED = True, OE_BLOCK = 100\<rparr>),
         (regtest, \<lparr>OE_ENABLED = True, OE_BLOCK = 100\<rparr>)])],
      EPOCH = Roswell_EPOCH, GENERIC = Roswell_GENERIC, PREIMAGE_LENGTH = 20,
      MAXIMUM_CONTRACT_SIZE_COMPRESSED = 1536 * 1024,
      MAXIMUM_CALLDATA_SIZE_COMPRESSED = 380 * 1024,
      SPECIAL_CONTRACTS = SPECIAL_CONTRACTS_ROSWELL,
      MAX_DECOMPRESSED_SIZE = 1024 * 1024 * 2,
      MAXIMUM_TRANSACTION_BROADCAST_SIZE = 400000,
      PSBT_MAXIMUM_TRANSACTION_BROADCAST_SIZE = 0, MLDSA_MAX_LOADS = 50,
      GAS = Roswell_GAS, TRANSACTIONS = Roswell_TRANSACTIONS, VM = Roswell_VM,
      MINIMAL_PSBT_ACCEPTANCE_FEE_VB_PER_SAT = 5\<rparr>"

subsection \<open>The active consensus\<close>

record node_config =
  CHAIN_ID :: ChainIds
  NETWORK :: BitcoinNetwork
  REINDEX :: bool
  REINDEX_FROM_BLOCK :: bigint

datatype consensus_error = ConsensusNotSet | ChainNotSupported | NetworkNotSupported
  | InvalidBlockHeight | NextConsensusNotReady | NextConsensusNotFound | NextConsensusNotSet

datatype outcome = Returned | Threw consensus_error | Exited

text \<open>The callbacks registered for an upgrade are numbered; \<open>oc_trace\<close> records their calls.\<close>

record OPNetConsensus =
  blockHeight :: bigint
  oc_consensus :: "IOPNetConsensus option"
  consensusUpgradeCallbacks :: "nat list"
  oc_trace :: "(nat \<times> Consensus \<times> bool) list"

definition imminentConsensusBlockDifference :: bigint where
  "imminentConsensusBlockDifference = 1008"

text \<open>\<open>allConsensus\<close> as a table in the order of \<open>Object.keys\<close>.\<close>

type_synonym consensus_table = "(Consensus \<times> IOPNetConsensus) list"

definition allConsensus :: consensus_table where
  "allConsensus = [(Roswell, RoswellConsensus)]"

definition OPNetConsensus_init :: OPNetConsensus where
  "OPNetConsensus_init =
     \<lparr>blockHeight = 0, oc_consensus = None, consensusUpgradeCallbacks = [], oc_trace = []\<rparr>"

definition get_consensus :: "OPNetConsensus \<Rightarrow> consensus_error + IOPNetConsensus" where
  "get_consensus s = (case oc_consensus s of None \<Rightarrow> Inl ConsensusNotSet | Some c \<Rightarrow> Inr c)"

definition per_network_get :: "'a per_network \<Rightarrow> node_config \<Rightarrow> 'a option" where
  "per_network_get t cfg =
     (case map_of t (CHAIN_ID cfg) of None \<Rightarrow> None | Some chain \<Rightarrow> map_of chain (NETWORK cfg))"

definition consensusEpochPatches :: "node_config \<Rightarrow> OPNetConsensus \<Rightarrow> consensus_error + bigint" where
  "consensusEpochPatches cfg s =
     res_bind (get_consensus s) (\<lambda>c.
       case map_of (GRAFFITI_LENGTH_PATCH_BLOCK_HEIGHT (EPOCH c)) (CHAIN_ID cfg) of
         None \<Rightarrow> Inl ChainNotSupported
       | Some chain \<Rightarrow> (case map_of chain (NETWORK cfg) of
           None \<Rightarrow> Inl NetworkNotSupported
         | Some p \<Rightarrow> Inr p))"

definition allowUnsafeSignatures :: "OPNetConsensus \<Rightarrow> consensus_error + bool" where
  "allowUnsafeSignatures s =
     res_bind (get_consensus s) (\<lambda>c.
       Inr (ConsensusRules_containsFlag (CONSENSUS_RULES (VM c)) UNSAFE_QUANTUM_SIGNATURES_ALLOWED))"

definition allowContractUpdates :: "OPNetConsensus \<Rightarrow> consensus_error + bool" where
  "allowContractUpdates s =
     res_bind (get_consensus s) (\<lambda>c.
       Inr (ConsensusRules_containsFlag (CONSENSUS_RULES (VM c)) CONTRACT_UPDATES_ALLOWED))"

definition opnetEnabled :: "node_config \<Rightarrow> OPNetConsensus \<Rightarrow> consensus_error + OPNetEnabledConfigs" where
  "opnetEnabled cfg s =
     res_bind (get_consensus s) (\<lambda>c.
       case per_network_get (OPNET_ENABLED c) cfg of
         None \<Rightarrow> Inr \<lparr>OE_ENABLED = False, OE_BLOCK = 0\<rparr>
       | Some e \<Rightarrow> Inr e)"

definition calculateCurrentEpoch :: "OPNetConsensus \<Rightarrow> bigint \<Rightarrow> consensus_error + bigint" where
  "calculateCurrentEpoch s height =
     (if height < 0 then Inl InvalidBlockHeight
      else res_bind (get_consensus s) (\<lambda>c. Inr (bigint_div height (BLOCKS_PER_EPOCH (EPOCH c)))))"

definition addConsensusUpgradeCallback :: "OPNetConsensus \<Rightarrow> nat \<Rightarrow> OPNetConsensus" where
  "addConsensusUpgradeCallback s cb =
     s\<lparr>consensusUpgradeCallbacks := consensusUpgradeCallbacks s @ [cb]\<rparr>"

definition isNextConsensusImminent :: "OPNetConsensus \<Rightarrow> consensus_error + bool" where
  "isNextConsensusImminent s =
     res_bind (get_consensus s) (\<lambda>c.
       Inr (NEXT_CONSENSUS_BLOCK (GENERIC c) - blockHeight s \<le> imminentConsensusBlockDifference))"

definition specialContract ::
    "node_config \<Rightarrow> OPNetConsensus \<Rightarrow> string \<Rightarrow> consensus_error + SpecialContract option" where
  "specialContract cfg s a =
     res_bind (get_consensus s) (\<lambda>c.
       case per_network_get (SPECIAL_CONTRACTS c) cfg of
         None \<Rightarrow> Inr None
       | Some network \<Rightarrow> Inr (map_of network a))"

definition isConsensusBlock :: "OPNetConsensus \<Rightarrow> consensus_error + bool" where
  "isConsensusBlock s =
     res_bind (get_consensus s) (\<lambda>c. Inr (NEXT_CONSENSUS_BLOCK (GENERIC c) = blockHeight s))"

definition isReadyForNextConsensus :: "OPNetConsensus \<Rightarrow> consensus_error + bool" where
  "isReadyForNextConsensus s =
     res_bind (get_consensus s) (\<lambda>c. Inr (IS_READY_FOR_NEXT_CONSENSUS (GENERIC c)))"

definition hasConsensus :: "OPNetConsensus \<Rightarrow> bool" where
  "hasConsensus s \<longleftrightarrow> oc_consensus s \<noteq> None"

text \<open>\<open>Consensus[...]\<close> of a missing next consensus cannot happen: the field is an enum value. The
  test \<open>!nextConsensus\<close> is true for the enum value 0, \<open>Roswell\<close>.\<close>

definition enforceNextConsensus ::
    "consensus_table \<Rightarrow> OPNetConsensus \<Rightarrow> OPNetConsensus \<times> outcome" where
  "enforceNextConsensus table s =
     (case oc_consensus s of
        None \<Rightarrow> (s, Threw ConsensusNotSet)
      | Some c \<Rightarrow>
          let nextConsensus = NEXT_CONSENSUS (GENERIC c);
              isReady = IS_READY_FOR_NEXT_CONSENSUS (GENERIC c)
          in if nextConsensus = Roswell then (s, Threw NextConsensusNotSet)
             else
               let s1 = s\<lparr>oc_trace := oc_trace s
                          @ map (\<lambda>cb. (cb, nextConsensus, isReady)) (consensusUpgradeCallbacks s)\<rparr>;
                   s2 = s1\<lparr>oc_consensus := None\<rparr>
               in if \<not> isReady then (s2, Threw NextConsensusNotReady)
                  else (case map_of table nextConsensus of
                          None \<Rightarrow> (s2, Threw NextConsensusNotFound)
                        | Some n \<Rightarrow> (s2\<lparr>oc_consensus := Some n\<rparr>, Returned)))"

fun updateConfigurations_loop ::
    "consensus_table \<Rightarrow> OPNetConsensus \<Rightarrow> OPNetConsensus \<times> outcome" where
  "updateConfigurations_loop [] s = (s, Returned)"
| "updateConfigurations_loop ((k, c) # rest) s =
     (if ENABLED_AT_BLOCK (GENERIC c) > blockHeight s then updateConfigurations_loop rest s
      else
        let s1 = s\<lparr>oc_consensus := Some c\<rparr>
        in if NEXT_CONSENSUS_BLOCK (GENERIC c) \<ge> blockHeight s1 then (s1, Returned)
           else if \<not> IS_READY_FOR_NEXT_CONSENSUS (GENERIC c) then (s1, Exited)
           else updateConfigurations_loop rest s1)"

definition setBlockHeight ::
    "node_config \<Rightarrow> consensus_table \<Rightarrow> OPNetConsensus \<Rightarrow> bigint \<Rightarrow> bool \<Rightarrow> OPNetConsensus \<times> outcome" where
  "setBlockHeight cfg table s height wasReorg =
     (let h = (if REINDEX cfg \<and> oc_consensus s = None \<and> \<not> wasReorg
               then REINDEX_FROM_BLOCK cfg else height);
          s1 = s\<lparr>blockHeight := h\<rparr>;
          (s2, out) = (if oc_consensus s1 = None then updateConfigurations_loop table s1
                       else (s1, Returned))
      in if out \<noteq> Returned then (s2, out)
         else (case oc_consensus s2 of
                 None \<Rightarrow> (s2, Returned)
               | Some c \<Rightarrow> if NEXT_CONSENSUS_BLOCK (GENERIC c) \<le> h then enforceNextConsensus table s2
                           else (s2, Returned)))"

subsection \<open>\<open>ConsensusTracker\<close>\<close>

definition verifyConsensus :: "OPNetConsensus \<Rightarrow> bool" where
  "verifyConsensus s \<longleftrightarrow>
     hasConsensus s \<and> isConsensusBlock s = Inr True \<and> isReadyForNextConsensus s = Inr False"

datatype tracker_result = Accepted | Refused | ProcessExited

definition setConsensusBlockHeight ::
    "node_config \<Rightarrow> consensus_table \<Rightarrow> OPNetConsensus \<Rightarrow> bigint \<Rightarrow> OPNetConsensus \<times> tracker_result" where
  "setConsensusBlockHeight cfg table s height =
     (if verifyConsensus s then (s, Refused)
      else
        let (s1, out) = setBlockHeight cfg table s height False
        in case out of
             Exited \<Rightarrow> (s1, ProcessExited)
           | Threw e \<Rightarrow> (s1, Refused)
           | Returned \<Rightarrow>
               if verifyConsensus s1 then (s1, Refused)
               else if oc_consensus s1 = None then (s1, Refused)
               else (s1, Accepted))"

subsection \<open>Runs of the tracker\<close>

text \<open>The states the indexer can be in: it registers callbacks and feeds heights, and stops for
  good when the process exits.\<close>

inductive tracker_reachable :: "node_config \<Rightarrow> OPNetConsensus \<Rightarrow> bool" for cfg where
  start: "tracker_reachable cfg OPNetConsensus_init"
| callback: "tracker_reachable cfg s \<Longrightarrow> tracker_reachable cfg (addConsensusUpgradeCallback s cb)"
| height: "tracker_reachable cfg s \<Longrightarrow> setConsensusBlockHeight cfg allConsensus s h = (s', r) \<Longrightarrow>
     r \<noteq> ProcessExited \<Longrightarrow> tracker_reachable cfg s'"

definition roswell_only :: "OPNetConsensus \<Rightarrow> bool" where
  "roswell_only s \<longleftrightarrow>
     (\<forall>c. oc_consensus s = Some c \<longrightarrow> c = RoswellConsensus \<and> blockHeight s < 953020)"

definition effective_height :: "node_config \<Rightarrow> OPNetConsensus \<Rightarrow> bigint \<Rightarrow> bigint" where
  "effective_height cfg s h =
     (if REINDEX cfg \<and> oc_consensus s = None then REINDEX_FROM_BLOCK cfg else h)"

lemma Roswell_GENERIC_sel [simp]:
  "GENERIC RoswellConsensus = Roswell_GENERIC"
  "ENABLED_AT_BLOCK Roswell_GENERIC = - 1" "NEXT_CONSENSUS Roswell_GENERIC = Rachel"
  "NEXT_CONSENSUS_BLOCK Roswell_GENERIC = 953020"
  "IS_READY_FOR_NEXT_CONSENSUS Roswell_GENERIC = False"
  by (simp_all add: RoswellConsensus_def Roswell_GENERIC_def)

lemma setBlockHeight_roswell:
  fixes cfg :: node_config and height :: bigint
  assumes "roswell_only s"
  defines "h \<equiv> effective_height cfg s height"
  shows "setBlockHeight cfg allConsensus s height False =
    (if oc_consensus s = None \<and> h < - 1 then (s\<lparr>blockHeight := h\<rparr>, Returned)
     else if h < 953020
       then (s\<lparr>blockHeight := h, oc_consensus := Some RoswellConsensus\<rparr>, Returned)
     else if oc_consensus s = None \<and> 953020 < h
       then (s\<lparr>blockHeight := h, oc_consensus := Some RoswellConsensus\<rparr>, Exited)
     else (s\<lparr>blockHeight := h, oc_consensus := None,
             oc_trace := oc_trace s @ map (\<lambda>cb. (cb, Rachel, False)) (consensusUpgradeCallbacks s)\<rparr>,
           Threw NextConsensusNotReady))"
proof (cases "oc_consensus s")
  case None
  then show ?thesis
    by (auto simp: setBlockHeight_def h_def effective_height_def allConsensus_def Let_def
        enforceNextConsensus_def)
next
  case (Some c)
  then have c: "oc_consensus s = Some RoswellConsensus" using assms(1) by (simp add: roswell_only_def)
  then have "s\<lparr>oc_consensus := Some RoswellConsensus\<rparr> = s" by (cases s) simp
  then have "s\<lparr>blockHeight := h, oc_consensus := Some RoswellConsensus\<rparr> = s\<lparr>blockHeight := h\<rparr>"
    by (cases s) simp
  then show ?thesis using c
    by (simp add: setBlockHeight_def h_def effective_height_def Let_def enforceNextConsensus_def)
qed

lemma verifyConsensus_roswell: "roswell_only s \<Longrightarrow> \<not> verifyConsensus s"
  by (auto simp: verifyConsensus_def roswell_only_def isConsensusBlock_def get_consensus_def
      hasConsensus_def)

lemma tracker_step_roswell:
  assumes inv: "roswell_only s"
    and step: "setConsensusBlockHeight cfg allConsensus s height = (s', r)"
  shows "(r = Accepted \<longleftrightarrow> effective_height cfg s height < 953020
             \<and> (oc_consensus s = None \<longrightarrow> - 1 \<le> effective_height cfg s height))
    \<and> (r \<noteq> ProcessExited \<longrightarrow> roswell_only s')"
proof -
  let ?h = "effective_height cfg s height"
  have good: "roswell_only t \<Longrightarrow> \<not> verifyConsensus t" for t by (rule verifyConsensus_roswell)
  have ok: "roswell_only (s\<lparr>blockHeight := ?h, oc_consensus := Some RoswellConsensus\<rparr>)"
    if "?h < 953020" using that by (simp add: roswell_only_def)
  have none: "roswell_only (s\<lparr>blockHeight := ?h\<rparr>)" if "oc_consensus s = None"
    using that by (simp add: roswell_only_def)
  show ?thesis
    using step good [OF inv] good [OF ok] good [OF none] ok none
    by (auto simp: setConsensusBlockHeight_def setBlockHeight_roswell [OF inv] roswell_only_def
        split: if_splits)
qed

lemma tracker_reachable_roswell: "tracker_reachable cfg s \<Longrightarrow> roswell_only s"
proof (induction rule: tracker_reachable.induct)
  case start
  show ?case by (simp add: roswell_only_def OPNetConsensus_init_def)
next
  case (callback s cb)
  then show ?case by (simp add: roswell_only_def addConsensusUpgradeCallback_def)
next
  case (height s h s' r)
  then show ?case using tracker_step_roswell by blast
qed

subsection \<open>Properties\<close>

text \<open>
  C38: a node that only knows Roswell never runs it at or past the block of the next consensus.
  Whatever heights the tracker was fed and in whatever order, whenever a consensus is active it is
  Roswell and the block height is below 953020; and the tracker accepts a height exactly when the
  height in force is below 953020 (and, on a fresh object, not below \<open>-1\<close>).
\<close>

theorem consensus_stops_at_next_fork:
  assumes "tracker_reachable cfg s"
    and "setConsensusBlockHeight cfg allConsensus s height = (s', r)"
  shows "(\<forall>c. oc_consensus s = Some c \<longrightarrow> c = RoswellConsensus \<and> blockHeight s < 953020)
    \<and> (r = Accepted \<longleftrightarrow> effective_height cfg s height < 953020
          \<and> (hasConsensus s \<or> - 1 \<le> effective_height cfg s height))"
  using tracker_reachable_roswell [OF assms(1)] tracker_step_roswell [OF _ assms(2)]
  by (auto simp: roswell_only_def hasConsensus_def)

theorem consensus_stops_at_next_fork_witness:
  "let cfg = \<lparr>CHAIN_ID = Bitcoin, NETWORK = mainnet, REINDEX = False, REINDEX_FROM_BLOCK = 0\<rparr>
   in snd (setConsensusBlockHeight cfg allConsensus OPNetConsensus_init 953019) = Accepted
      \<and> snd (setConsensusBlockHeight cfg allConsensus OPNetConsensus_init 953020) \<noteq> Accepted"
proof -
  let ?cfg = "\<lparr>CHAIN_ID = Bitcoin, NETWORK = mainnet, REINDEX = False, REINDEX_FROM_BLOCK = 0\<rparr>"
  have "snd (setConsensusBlockHeight ?cfg allConsensus OPNetConsensus_init h) = Accepted
      \<longleftrightarrow> h < 953020 \<and> - 1 \<le> h" for h
    using consensus_stops_at_next_fork [OF tracker_reachable.start surjective_pairing, of ?cfg h]
    by (simp add: effective_height_def hasConsensus_def OPNetConsensus_init_def)
  then show ?thesis by (simp add: Let_def)
qed

text \<open>
  an upgrade happens exactly at its block. With an active consensus that declares itself ready
  for a next consensus present in the table, a height below the upgrade block only moves the
  height, and a height at or past it activates the next consensus and calls every registered
  callback once, in order of registration, with the next consensus and \<open>true\<close>.
\<close>

theorem consensus_upgrade_at_block:
  assumes "oc_consensus s = Some c" and "IS_READY_FOR_NEXT_CONSENSUS (GENERIC c)"
    and "NEXT_CONSENSUS (GENERIC c) \<noteq> Roswell"
    and "map_of table (NEXT_CONSENSUS (GENERIC c)) = Some n"
  shows "setBlockHeight cfg table s h wasReorg =
    (if h < NEXT_CONSENSUS_BLOCK (GENERIC c) then (s\<lparr>blockHeight := h\<rparr>, Returned)
     else (s\<lparr>blockHeight := h, oc_consensus := Some n,
             oc_trace := oc_trace s @ map (\<lambda>cb. (cb, NEXT_CONSENSUS (GENERIC c), True))
                                         (consensusUpgradeCallbacks s)\<rparr>, Returned))"
  using assms by (simp add: setBlockHeight_def enforceNextConsensus_def Let_def)

theorem consensus_upgrade_at_block_witness:
  "let c = RoswellConsensus\<lparr>GENERIC := Roswell_GENERIC\<lparr>IS_READY_FOR_NEXT_CONSENSUS := True\<rparr>\<rparr>;
       n = RoswellConsensus\<lparr>CONSENSUS := Rachel\<rparr>;
       s = OPNetConsensus_init\<lparr>oc_consensus := Some c\<rparr>
   in oc_consensus (fst (setBlockHeight
        \<lparr>CHAIN_ID = Bitcoin, NETWORK = mainnet, REINDEX = False, REINDEX_FROM_BLOCK = 0\<rparr>
        [(Roswell, c), (Rachel, n)] s 953020 False)) = Some n"
  unfolding Let_def
  by (subst consensus_upgrade_at_block [where n = "RoswellConsensus\<lparr>CONSENSUS := Rachel\<rparr>" and
        c = "RoswellConsensus\<lparr>GENERIC := Roswell_GENERIC\<lparr>IS_READY_FOR_NEXT_CONSENSUS := True\<rparr>\<rparr>"])
    simp_all

text \<open>
  under Roswell, \<open>calculateCurrentEpoch\<close> maps block \<open>h\<close> to the epoch \<open>e\<close> with
  \<open>5 * e \<le> h < 5 * (e + 1)\<close> for every non-negative height, and throws on a negative one.
\<close>

theorem calculateCurrentEpoch_blocks:
  assumes "oc_consensus s = Some RoswellConsensus"
  shows "(h < 0 \<longrightarrow> calculateCurrentEpoch s h = Inl InvalidBlockHeight)
    \<and> (0 \<le> h \<longrightarrow> (\<exists>e. calculateCurrentEpoch s h = Inr e \<and> 5 * e \<le> h \<and> h < 5 * (e + 1)))"
  using assms
  by (auto simp: calculateCurrentEpoch_def get_consensus_def RoswellConsensus_def Roswell_EPOCH_def)

theorem calculateCurrentEpoch_blocks_witness:
  "\<exists>e. calculateCurrentEpoch (OPNetConsensus_init\<lparr>oc_consensus := Some RoswellConsensus\<rparr>) 14 = Inr e
     \<and> 5 * e \<le> 14 \<and> 14 < 5 * (e + 1)"
  using calculateCurrentEpoch_blocks
    [of "OPNetConsensus_init\<lparr>oc_consensus := Some RoswellConsensus\<rparr>" 14] by simp

end
