(* ===== verification/Gas.thy ===== *)
theory Gas
  imports Consensus_Config
begin

section \<open>Gas price and gas accounting\<close>

text \<open>
  \<open>BlockGasPredictor\<close> (\<open>src/src/blockchain-indexer/processor/gas\<close>) moves the base gas price of a
  block from the gas the block used, through an exponential moving average of the utilisation, all
  in fixed point with eight decimals; \<open>GasTracker\<close> (\<open>src/src/vm/runtime\<close>) bounds the gas of one
  transaction. Both are modelled with their fields as records.
\<close>

subsection \<open>\<open>BlockGasPredictor\<close>\<close>

definition scalingFactor :: bigint where
  "scalingFactor = 10 ^ 8"

record BlockGasPredictor =
  gasTarget :: bigint
  bMin :: bigint
  smoothingFactor :: bigint
  alpha1 :: bigint
  alpha2 :: bigint
  uTarget :: bigint
  currentB :: bigint

datatype gas_error = DivisionByZero | GasNegative | SpecialGasNegative | OutOfGas bigint bigint
  | OutOfFreeGas bigint bigint | SpecialGasNotZero

text \<open>\<open>Math.round\<close> rounds halves up.\<close>

definition toBase :: "rat \<Rightarrow> bigint" where
  "toBase v = \<lfloor>v * rat_of_int scalingFactor + 1 / 2\<rfloor>"

definition toBaseBigInt :: "bigint \<Rightarrow> bigint" where
  "toBaseBigInt v = v * scalingFactor"

definition BlockGasPredictor_new ::
    "rat \<Rightarrow> bigint option \<Rightarrow> bigint \<Rightarrow> bigint \<Rightarrow> rat \<Rightarrow> rat \<Rightarrow> rat \<Rightarrow> rat \<Rightarrow> BlockGasPredictor" where
  "BlockGasPredictor_new bmin currB target smoothTarget smoothing a1 a2 u =
     \<lparr>gasTarget = target + smoothTarget, bMin = toBase bmin, smoothingFactor = toBase smoothing,
      alpha1 = toBase a1, alpha2 = toBase a2, uTarget = toBase u,
      currentB = (case currB of None \<Rightarrow> toBase bmin
                  | Some b \<Rightarrow> if b > 0 then b else toBase bmin)\<rparr>"

definition multiplyBigInt :: "bigint \<Rightarrow> bigint \<Rightarrow> bigint" where
  "multiplyBigInt a b = bigint_div (a * b) scalingFactor"

definition divideBigInt :: "bigint \<Rightarrow> bigint \<Rightarrow> gas_error + bigint" where
  "divideBigInt a b =
     (if b = 0 then Inl DivisionByZero else Inr (bigint_div (a * scalingFactor) b))"

definition calculateUCurrent :: "BlockGasPredictor \<Rightarrow> bigint \<Rightarrow> gas_error + bigint" where
  "calculateUCurrent p usedBlockGas = divideBigInt (usedBlockGas * scalingFactor) (gasTarget p)"

definition calculateAdjustment :: "BlockGasPredictor \<Rightarrow> bigint \<Rightarrow> bigint \<Rightarrow> bigint \<Rightarrow> bigint" where
  "calculateAdjustment p emaScaled alphaScaled sign =
     (let diff = (if emaScaled > uTarget p then emaScaled - uTarget p else uTarget p - emaScaled);
          adjustmentChange = bigint_div (alphaScaled * diff) scalingFactor
      in if sign = 1 then scalingFactor + adjustmentChange else scalingFactor - adjustmentChange)"

definition calculateBNext :: "BlockGasPredictor \<Rightarrow> bigint \<Rightarrow> bigint" where
  "calculateBNext p adjustmentScaled =
     (let multiplied = multiplyBigInt (currentB p) adjustmentScaled
      in if multiplied > bMin p then multiplied else bMin p)"

definition calculateEMA :: "BlockGasPredictor \<Rightarrow> bigint \<Rightarrow> bigint \<Rightarrow> bigint" where
  "calculateEMA p uCurrentScaled previousEMAScaled =
     (let alphaPart = multiplyBigInt (smoothingFactor p) uCurrentScaled;
          oneMinusAlphaScaled = scalingFactor - smoothingFactor p;
          emaPart = multiplyBigInt oneMinusAlphaScaled previousEMAScaled
      in alphaPart + emaPart)"

record CalculatedBlockGas =
  bNext :: bigint
  ema :: bigint

definition calculateNextBaseGas ::
    "BlockGasPredictor \<Rightarrow> bigint \<Rightarrow> bigint \<Rightarrow> gas_error + (BlockGasPredictor \<times> CalculatedBlockGas)" where
  "calculateNextBaseGas p usedBlockGas prevEMA0 =
     (let prevEMA = (if prevEMA0 = 0 then uTarget p else prevEMA0)
      in res_bind (calculateUCurrent p usedBlockGas) (\<lambda>u.
         let uCurrent = bigint_div u scalingFactor;
             ema0 = calculateEMA p uCurrent prevEMA;
             emaScaled = (if ema0 < 50000 then 50000 else ema0);
             alpha = (if usedBlockGas > gasTarget p then alpha1 p else alpha2 p);
             sign = (if emaScaled > uTarget p then 1 else - 1);
             adjustment = calculateAdjustment p emaScaled alpha sign;
             p' = p\<lparr>currentB := calculateBNext p adjustment\<rparr>
         in Inr (p', \<lparr>bNext = currentB p', ema = emaScaled\<rparr>)))"

definition roswell_predictor :: "bigint option \<Rightarrow> BlockGasPredictor" where
  "roswell_predictor b =
     (let g = GAS RoswellConsensus
      in BlockGasPredictor_new (MIN_BASE_GAS g) b (TARGET_GAS g) (SMOOTH_OUT_GAS_INCREASE g)
           (SMOOTHING_FACTOR g) (ALPHA1 g) (ALPHA2 g) (U_TARGET g))"

subsubsection \<open>Lemmas\<close>

lemma scalingFactor_pos [simp]: "0 < scalingFactor"
  by (simp add: scalingFactor_def)

lemma scalingFactor_nonzero [simp]: "scalingFactor \<noteq> 0" "0 \<le> scalingFactor"
  by (simp_all add: scalingFactor_def)

lemma multiplyBigInt_mono: "0 \<le> a \<Longrightarrow> b \<le> c \<Longrightarrow> multiplyBigInt a b \<le> multiplyBigInt a c"
  by (simp add: multiplyBigInt_def bigint_div_mono mult_left_mono)

lemma multiplyBigInt_one [simp]: "multiplyBigInt a scalingFactor = a"
proof (cases "0 \<le> a")
  case True
  then show ?thesis using scalingFactor_pos by (simp add: multiplyBigInt_def)
next
  case False
  have "a * scalingFactor < 0" using False scalingFactor_pos by (simp add: mult_neg_pos)
  then have "multiplyBigInt a scalingFactor = - ((- a * scalingFactor) div scalingFactor)"
    by (simp add: multiplyBigInt_def bigint_div_neg)
  also have "(- a * scalingFactor) div scalingFactor = - a"
    by (rule nonzero_mult_div_cancel_right) simp
  finally show ?thesis by simp
qed

text \<open>The two divisions of the utilisation are one: \<open>used * 10^8 / target\<close>, rounded down.\<close>

lemma utilisation:
  assumes "0 \<le> used" "0 < gasTarget p" "calculateUCurrent p used = Inr u"
  shows "bigint_div u scalingFactor = used * scalingFactor div gasTarget p"
proof -
  have u: "u = used * scalingFactor * scalingFactor div gasTarget p"
    using assms scalingFactor_pos by (simp add: calculateUCurrent_def divideBigInt_def)
  then have "0 \<le> u" using assms by (simp add: pos_imp_zdiv_nonneg_iff)
  then have "bigint_div u scalingFactor
      = used * scalingFactor * scalingFactor div (gasTarget p * scalingFactor)"
    using u assms scalingFactor_pos by (simp add: zdiv_zmult2_eq)
  also have "\<dots> = used * scalingFactor div gasTarget p"
    using scalingFactor_pos by (simp add: div_mult_mult2)
  finally show ?thesis .
qed

text \<open>The moving average of two non-negative values, with a smoothing factor between 0 and 1,
  stays between them up to one unit of the last decimal.\<close>

lemma calculateEMA_bounds:
  assumes "0 \<le> smoothingFactor p" "smoothingFactor p \<le> scalingFactor" "0 \<le> u" "0 \<le> e"
  shows "min u e - 1 \<le> calculateEMA p u e" and "calculateEMA p u e \<le> max u e"
proof -
  let ?S = scalingFactor and ?s = "smoothingFactor p"
  let ?A = "?s * u" and ?B = "(?S - ?s) * e"
  have nn: "0 \<le> ?A" "0 \<le> ?B" using assms by simp_all
  have eq: "calculateEMA p u e = ?A div ?S + ?B div ?S"
    using nn by (simp add: calculateEMA_def multiplyBigInt_def)
  have "?s * min u e + (?S - ?s) * min u e \<le> ?A + ?B"
    using assms by (intro add_mono mult_left_mono) auto
  then have low: "?S * min u e \<le> ?A + ?B" by (simp add: algebra_simps)
  have "?A + ?B \<le> ?s * max u e + (?S - ?s) * max u e"
    using assms by (intro add_mono mult_left_mono) auto
  then have high: "?A + ?B \<le> ?S * max u e" by (simp add: algebra_simps)
  have split: "(?A + ?B) div ?S = ?A div ?S + ?B div ?S + (?A mod ?S + ?B mod ?S) div ?S"
    by (rule div_add1_eq)
  have "min u e \<le> (?A + ?B) div ?S"
    using low zdiv_mono1 [of "?S * min u e" "?A + ?B" ?S] by simp
  moreover have "(?A + ?B) div ?S \<le> ?A div ?S + ?B div ?S + 1"
  proof -
    have "?A mod ?S + ?B mod ?S < 2 * ?S"
      using pos_mod_bound [OF scalingFactor_pos, of ?A] pos_mod_bound [OF scalingFactor_pos, of ?B]
      by linarith
    moreover have "(?A mod ?S + ?B mod ?S) div ?S * ?S \<le> ?A mod ?S + ?B mod ?S"
      using pos_mod_sign [OF scalingFactor_pos, of "?A mod ?S + ?B mod ?S"]
      by (simp flip: minus_mod_eq_div_mult)
    ultimately have "(?A mod ?S + ?B mod ?S) div ?S * ?S < 2 * ?S" by linarith
    then have "(?A mod ?S + ?B mod ?S) div ?S < 2" by (simp only: mult_less_cancel_right) simp
    with split show ?thesis by linarith
  qed
  ultimately show "min u e - 1 \<le> calculateEMA p u e" by (simp add: eq)
  have "0 \<le> (?A mod ?S + ?B mod ?S) div ?S" by (simp add: pos_imp_zdiv_nonneg_iff)
  then have "?A div ?S + ?B div ?S \<le> (?A + ?B) div ?S" using split by linarith
  also have "\<dots> \<le> max u e" using high zdiv_mono1 [of "?A + ?B" "?S * max u e" ?S] by simp
  finally show "calculateEMA p u e \<le> max u e" by (simp add: eq)
qed

lemma calculateBNext_floor: "bMin p \<le> calculateBNext p a"
  by (simp add: calculateBNext_def Let_def)

lemma calculateBNext_up:
  "0 \<le> currentB p \<Longrightarrow> scalingFactor \<le> a \<Longrightarrow> currentB p \<le> calculateBNext p a"
  using multiplyBigInt_mono [of "currentB p" scalingFactor a] by (simp add: calculateBNext_def Let_def)

lemma calculateBNext_down:
  "0 \<le> currentB p \<Longrightarrow> a \<le> scalingFactor \<Longrightarrow> calculateBNext p a \<le> max (currentB p) (bMin p)"
  using multiplyBigInt_mono [of "currentB p" a scalingFactor] by (auto simp: calculateBNext_def Let_def)

lemma calculateAdjustment_sign:
  assumes "0 \<le> alpha"
  shows "e > uTarget p \<Longrightarrow> scalingFactor \<le> calculateAdjustment p e alpha 1"
    and "e \<le> uTarget p \<Longrightarrow> calculateAdjustment p e alpha (- 1) \<le> scalingFactor"
  using assms by (simp_all add: calculateAdjustment_def Let_def pos_imp_zdiv_nonneg_iff)

text \<open>Prices and averages do not depend on the object, only on these facts about it.\<close>

definition predictor_ok :: "BlockGasPredictor \<Rightarrow> bool" where
  "predictor_ok p \<longleftrightarrow> 0 < gasTarget p \<and> 0 \<le> smoothingFactor p \<and> smoothingFactor p \<le> scalingFactor
     \<and> 0 \<le> alpha1 p \<and> 0 \<le> alpha2 p \<and> 0 < uTarget p \<and> 0 < bMin p \<and> 0 < currentB p"

lemma calculateNextBaseGas_cases:
  assumes "predictor_ok p" "0 \<le> used" "0 \<le> prev"
  obtains e alpha where
    "calculateNextBaseGas p used prev =
       Inr (p\<lparr>currentB := calculateBNext p
               (calculateAdjustment p e alpha (if e > uTarget p then 1 else - 1))\<rparr>,
            \<lparr>bNext = calculateBNext p
               (calculateAdjustment p e alpha (if e > uTarget p then 1 else - 1)), ema = e\<rparr>)"
    and "0 \<le> alpha" and "alpha = (if used > gasTarget p then alpha1 p else alpha2 p)"
    and "e = max 50000 (calculateEMA p (used * scalingFactor div gasTarget p)
                          (if prev = 0 then uTarget p else prev))"
proof -
  obtain u where u: "calculateUCurrent p used = Inr u"
    using assms(1) by (simp add: calculateUCurrent_def divideBigInt_def predictor_ok_def)
  have "bigint_div u scalingFactor = used * scalingFactor div gasTarget p"
    using assms u by (intro utilisation) (simp_all add: predictor_ok_def)
  then show ?thesis
    using u assms(1) that
    by (simp add: calculateNextBaseGas_def Let_def max_def predictor_ok_def)
qed

subsection \<open>\<open>GasTracker\<close>\<close>

record GasTracker =
  gt_gasUsed :: bigint
  gt_maxGas :: bigint
  gt_specialGas :: bigint
  gt_paidMaximum :: bigint
  gt_settings :: "SpecialContract option"

definition gas_cap :: "bigint \<Rightarrow> bigint \<Rightarrow> bigint" where
  "gas_cap maxGas cap = (if maxGas < cap then maxGas else cap)"

definition gasLimitOf :: "GAS_config \<Rightarrow> SpecialContract \<Rightarrow> bigint" where
  "gasLimitOf gas st =
     (if transactionGasLimit st \<noteq> 0 then transactionGasLimit st else TRANSACTION_MAX_GAS gas)"

definition GasTracker_new :: "GAS_config \<Rightarrow> bigint \<Rightarrow> SpecialContract option \<Rightarrow> GasTracker" where
  "GasTracker_new gas maxGas settings =
     (case settings of
        Some st \<Rightarrow>
          if freeGas st
          then \<lparr>gt_gasUsed = 0, gt_maxGas = gas_cap maxGas (maxExternalGas st), gt_specialGas = 0,
                gt_paidMaximum = gas_cap maxGas (gasLimitOf gas st), gt_settings = settings\<rparr>
          else \<lparr>gt_gasUsed = 0, gt_maxGas = gas_cap maxGas (TRANSACTION_MAX_GAS gas),
                gt_specialGas = 0, gt_paidMaximum = gas_cap maxGas (TRANSACTION_MAX_GAS gas),
                gt_settings = settings\<rparr>
      | None \<Rightarrow>
          \<lparr>gt_gasUsed = 0, gt_maxGas = gas_cap maxGas (TRANSACTION_MAX_GAS gas), gt_specialGas = 0,
           gt_paidMaximum = gas_cap maxGas (TRANSACTION_MAX_GAS gas), gt_settings = None\<rparr>)"

definition paidMaximum :: "GasTracker \<Rightarrow> bigint" where
  "paidMaximum t =
     (let used = gt_specialGas t + gt_gasUsed t
      in if gt_paidMaximum t > used then gt_paidMaximum t else used)"

definition convertSatToGas :: "bigint \<Rightarrow> bigint \<Rightarrow> bigint \<Rightarrow> bigint" where
  "convertSatToGas sat maxGas ratio =
     (let gas = sat * ratio in if gas < maxGas then gas else maxGas)"

definition combinedGas :: "GasTracker \<Rightarrow> bool \<Rightarrow> bigint" where
  "combinedGas t external =
     (if external then gt_gasUsed t else gt_gasUsed t + gt_specialGas t)"

definition maxGasVM :: "GAS_config \<Rightarrow> GasTracker \<Rightarrow> bool \<Rightarrow> bigint" where
  "maxGasVM gas t external =
     (case gt_settings t of
        Some st \<Rightarrow>
          if external \<and> freeGas st then maxExternalGas st
          else gasLimitOf gas st - maxExternalGas st
      | None \<Rightarrow> gt_maxGas t)"

definition setFinalGasUsed :: "GasTracker \<Rightarrow> bigint \<Rightarrow> bigint \<Rightarrow> gas_error + GasTracker" where
  "setFinalGasUsed t gas specialGas =
     (if gas < 0 then Inl GasNegative
      else if specialGas < 0 then Inl SpecialGasNegative
      else Inr (t\<lparr>gt_gasUsed := gas, gt_specialGas := specialGas\<rparr>))"

definition countGas :: "GasTracker \<Rightarrow> bigint \<Rightarrow> bigint \<Rightarrow> gas_error + GasTracker" where
  "countGas t gas maxGas =
     (if gas > maxGas then Inl (OutOfGas gas maxGas) else Inr (t\<lparr>gt_gasUsed := gas\<rparr>))"

definition is_free_contract :: "GasTracker \<Rightarrow> address option \<Rightarrow> bool" where
  "is_free_contract t from \<longleftrightarrow>
     (case gt_settings t of
        Some st \<Rightarrow> freeGas st \<and> (case from of Some a \<Rightarrow> a = sc_address st | None \<Rightarrow> False)
      | None \<Rightarrow> False)"

definition setGasUsed ::
    "GAS_config \<Rightarrow> GasTracker \<Rightarrow> bigint \<Rightarrow> bigint \<Rightarrow> bool \<Rightarrow> address option \<Rightarrow> gas_error + GasTracker" where
  "setGasUsed cfg t gas specialGas isExternCall from =
     (if gas < 0 then Inl GasNegative
      else
        let maxGas = maxGasVM cfg t isExternCall
        in if \<not> isExternCall \<and> is_free_contract t from
           then (let newGas = gas + specialGas
                 in if newGas > maxGas then Inl (OutOfFreeGas newGas maxGas)
                    else Inr (t\<lparr>gt_specialGas := newGas\<rparr>))
           else if specialGas \<noteq> 0 then Inl SpecialGasNotZero
           else countGas t gas maxGas)"

subsubsection \<open>Limits kept by a run of calls\<close>

record gas_call =
  call_gas :: bigint
  call_special :: bigint
  call_extern :: bool
  call_from :: "address option"

definition gas_calls :: "GAS_config \<Rightarrow> gas_call list \<Rightarrow> GasTracker \<Rightarrow> gas_error + GasTracker" where
  "gas_calls cfg = res_fold (\<lambda>c t.
     setGasUsed cfg t (call_gas c) (call_special c) (call_extern c) (call_from c))"

definition used_limit :: "GAS_config \<Rightarrow> GasTracker \<Rightarrow> bigint" where
  "used_limit cfg t = max 0 (max (maxGasVM cfg t True) (maxGasVM cfg t False))"

lemma setGasUsed_frame:
  assumes "setGasUsed cfg t gas sp ext from = Inr t'"
  shows "gt_settings t' = gt_settings t \<and> gt_maxGas t' = gt_maxGas t
    \<and> gt_paidMaximum t' = gt_paidMaximum t"
  using assms by (auto simp: setGasUsed_def countGas_def Let_def split: if_splits)

lemma setGasUsed_limits:
  assumes "setGasUsed cfg t gas sp ext from = Inr t'"
    and "0 \<le> gt_gasUsed t" "gt_gasUsed t \<le> used_limit cfg t"
    and "gt_specialGas t \<le> used_limit cfg t"
  shows "0 \<le> gt_gasUsed t' \<and> gt_gasUsed t' \<le> used_limit cfg t' \<and> gt_specialGas t' \<le> used_limit cfg t'"
proof -
  have "used_limit cfg t' = used_limit cfg t"
    using setGasUsed_frame [OF assms(1)] by (simp add: used_limit_def maxGasVM_def cong: option.case_cong)
  moreover have "maxGasVM cfg t ext \<le> used_limit cfg t"
    by (cases ext) (simp_all add: used_limit_def)
  ultimately show ?thesis
    using assms by (auto simp: setGasUsed_def countGas_def Let_def split: if_splits)
qed

lemma gas_calls_limits:
  assumes "gas_calls cfg cs t = Inr t'"
    and "0 \<le> gt_gasUsed t" "gt_gasUsed t \<le> used_limit cfg t" "gt_specialGas t \<le> used_limit cfg t"
  shows "0 \<le> gt_gasUsed t' \<and> gt_gasUsed t' \<le> used_limit cfg t' \<and> gt_specialGas t' \<le> used_limit cfg t'
    \<and> gt_settings t' = gt_settings t \<and> gt_maxGas t' = gt_maxGas t"
proof -
  let ?P = "\<lambda>u. 0 \<le> gt_gasUsed u \<and> gt_gasUsed u \<le> used_limit cfg u \<and> gt_specialGas u \<le> used_limit cfg u
    \<and> gt_settings u = gt_settings t \<and> gt_maxGas u = gt_maxGas t"
  show ?thesis
  proof (rule res_fold_invariant [where P = ?P and xs = cs and s = t])
    fix c u u'
    assume "?P u"
      and step: "setGasUsed cfg u (call_gas c) (call_special c) (call_extern c) (call_from c) = Inr u'"
    then show "?P u'" using setGasUsed_limits [OF step] setGasUsed_frame [OF step] by simp
  qed (use assms in \<open>simp_all add: gas_calls_def\<close>)
qed

subsection \<open>The price over a sequence of blocks\<close>

fun gas_chain :: "BlockGasPredictor \<Rightarrow> bigint \<Rightarrow> bigint list \<Rightarrow> gas_error + (BlockGasPredictor \<times> bigint)" where
  "gas_chain p e [] = Inr (p, e)"
| "gas_chain p e (used # rest) =
     res_bind (calculateNextBaseGas p used e) (\<lambda>(p', r). gas_chain p' (ema r) rest)"

lemma calculateNextBaseGas_step:
  assumes ok: "predictor_ok p" and nn: "0 \<le> used" "0 \<le> prev"
  obtains r where "calculateNextBaseGas p used prev = Inr (p\<lparr>currentB := bNext r\<rparr>, r)"
    and "bMin p \<le> bNext r" and "predictor_ok (p\<lparr>currentB := bNext r\<rparr>)"
    and "uTarget p < ema r \<Longrightarrow> currentB p \<le> bNext r"
    and "ema r \<le> uTarget p \<Longrightarrow> bNext r \<le> max (currentB p) (bMin p)"
    and "50000 \<le> ema r"
    and "ema r \<le> max 50000 (max (used * scalingFactor div gasTarget p)
                                  (if prev = 0 then uTarget p else prev))"
proof -
  let ?u = "used * scalingFactor div gasTarget p" and ?e = "if prev = 0 then uTarget p else prev"
  obtain e alpha where eq: "calculateNextBaseGas p used prev =
       Inr (p\<lparr>currentB := calculateBNext p
               (calculateAdjustment p e alpha (if e > uTarget p then 1 else - 1))\<rparr>,
            \<lparr>bNext = calculateBNext p
               (calculateAdjustment p e alpha (if e > uTarget p then 1 else - 1)), ema = e\<rparr>)"
    and alpha: "0 \<le> alpha" and e: "e = max 50000 (calculateEMA p ?u ?e)"
    using calculateNextBaseGas_cases [OF ok nn] by metis
  have b: "0 \<le> currentB p" using ok by (auto simp: predictor_ok_def)
  have "0 \<le> ?u" "0 \<le> ?e" using ok nn by (auto simp: predictor_ok_def pos_imp_zdiv_nonneg_iff)
  then have "calculateEMA p ?u ?e \<le> max ?u ?e"
    using calculateEMA_bounds(2) [of p ?u ?e] ok by (simp add: predictor_ok_def)
  then have em: "e \<le> max 50000 (max ?u ?e)" using e by linarith
  let ?b = "calculateBNext p (calculateAdjustment p e alpha (if e > uTarget p then 1 else - 1))"
  let ?r = "\<lparr>bNext = ?b, ema = e\<rparr>"
  have fl: "bMin p \<le> ?b" by (rule calculateBNext_floor)
  have up: "uTarget p < e \<Longrightarrow> currentB p \<le> ?b"
    using calculateBNext_up [OF b] calculateAdjustment_sign(1) [OF alpha] by simp
  have down: "e \<le> uTarget p \<Longrightarrow> ?b \<le> max (currentB p) (bMin p)"
    using calculateBNext_down [OF b] calculateAdjustment_sign(2) [OF alpha, of e p] by simp
  have "predictor_ok (p\<lparr>currentB := ?b\<rparr>)" using ok fl by (simp add: predictor_ok_def)
  then show ?thesis using that [of ?r] eq fl up down em e by simp
qed

lemma gas_chain_runs:
  "predictor_ok p \<Longrightarrow> 0 \<le> e \<Longrightarrow> \<forall>u \<in> set us. 0 \<le> u \<Longrightarrow>
   \<exists>p' e'. gas_chain p e us = Inr (p', e') \<and> predictor_ok p' \<and> bMin p' = bMin p
     \<and> (us \<noteq> [] \<or> bMin p \<le> currentB p \<longrightarrow> bMin p \<le> currentB p')"
proof (induction us arbitrary: p e)
  case (Cons u us)
  then have "0 \<le> u" by simp
  obtain r where r: "calculateNextBaseGas p u e = Inr (p\<lparr>currentB := bNext r\<rparr>, r)"
    and ok: "predictor_ok (p\<lparr>currentB := bNext r\<rparr>)" and "50000 \<le> ema r" and "bMin p \<le> bNext r"
    using calculateNextBaseGas_step [OF Cons.prems(1) \<open>0 \<le> u\<close> Cons.prems(2)] by metis
  then have "0 \<le> ema r" by linarith
  from Cons.IH [OF ok this] Cons.prems(3) \<open>bMin p \<le> bNext r\<close> show ?case by (auto simp: r)
qed simp

lemma roswell_predictor_ok: "predictor_ok (roswell_predictor b) \<and> bMin (roswell_predictor b) = 10 ^ 8"
proof -
  have "toBase 1 = 10 ^ 8" "toBase (4 / 10) = 4 * 10 ^ 7" "toBase (5 / 10) = 5 * 10 ^ 7"
    by (simp_all add: toBase_def scalingFactor_def floor_eq_iff)
  then show ?thesis
    by (simp add: roswell_predictor_def BlockGasPredictor_new_def RoswellConsensus_def
        Roswell_GAS_def predictor_ok_def scalingFactor_def Let_def split: option.splits)
qed

subsection \<open>Properties\<close>

text \<open>
  one step of the gas price. For non-negative gas and average, the computation does not throw;
  the new price is stored, never falls under the minimum, does not fall when the average is above
  the target, and does not rise (but to the minimum) when it is at or below it; the reported
  average is at least 50000 and at most the largest of 50000, the utilisation and the previous
  average.
\<close>

theorem gas_price_step:
  assumes "predictor_ok p" and "0 \<le> used" and "0 \<le> prev"
  shows "\<exists>r. calculateNextBaseGas p used prev = Inr (p\<lparr>currentB := bNext r\<rparr>, r)
    \<and> bMin p \<le> bNext r
    \<and> (uTarget p < ema r \<longrightarrow> currentB p \<le> bNext r)
    \<and> (ema r \<le> uTarget p \<longrightarrow> bNext r \<le> max (currentB p) (bMin p))
    \<and> 50000 \<le> ema r
    \<and> ema r \<le> max 50000 (max (used * scalingFactor div gasTarget p)
                                  (if prev = 0 then uTarget p else prev))"
  using calculateNextBaseGas_step [OF assms] by metis

theorem gas_price_step_witness:
  "\<exists>r. calculateNextBaseGas (roswell_predictor None) 40000000000000 0
        = Inr ((roswell_predictor None)\<lparr>currentB := bNext r\<rparr>, r) \<and> 10 ^ 8 \<le> bNext r"
  using gas_price_step [of "roswell_predictor None" 40000000000000 0] roswell_predictor_ok [of None]
  by auto

text \<open>
  C35: with the Roswell parameters and any stored price, the price can be computed over any sequence
  of blocks with non-negative gas, starting from no average, without an error, and after at least
  one block it is at least the minimum of one satoshi (\<open>10 ^ 8\<close> scaled).
\<close>

theorem roswell_price_never_below_minimum:
  assumes "\<forall>u \<in> set us. 0 \<le> u" and "us \<noteq> []"
  shows "\<exists>p e. gas_chain (roswell_predictor b) 0 us = Inr (p, e) \<and> 10 ^ 8 \<le> currentB p"
  using gas_chain_runs [of "roswell_predictor b" 0 us] roswell_predictor_ok [of b] assms by auto

theorem roswell_price_never_below_minimum_witness:
  "\<exists>p e. gas_chain (roswell_predictor (Some 7)) 0 [0, 30000000000000, 5] = Inr (p, e)
     \<and> 10 ^ 8 \<le> currentB p"
  using roswell_price_never_below_minimum [of "[0, 30000000000000, 5]" "Some 7"] by simp

text \<open>
  gas limits of a transaction. After any sequence of accepted \<open>setGasUsed\<close> calls on a new
  tracker without special settings, the gas used is between zero and both the given maximum and
  the consensus maximum; with special settings both the gas used and the special gas are at most
  the larger of the external limit and the contract's own limit.
\<close>

theorem gas_tracker_limits:
  assumes "gas_calls cfg cs (GasTracker_new cfg maxGas settings) = Inr t"
    and "0 \<le> maxGas" and "0 \<le> TRANSACTION_MAX_GAS cfg"
    and "\<forall>st. settings = Some st \<longrightarrow> 0 \<le> maxExternalGas st"
  shows "0 \<le> gt_gasUsed t
    \<and> (settings = None \<longrightarrow> gt_gasUsed t \<le> min maxGas (TRANSACTION_MAX_GAS cfg))
    \<and> (\<forall>st. settings = Some st \<longrightarrow>
          gt_gasUsed t \<le> max (maxExternalGas st) (gasLimitOf cfg st - maxExternalGas st)
          \<and> gt_specialGas t \<le> max (maxExternalGas st) (gasLimitOf cfg st - maxExternalGas st))"
proof -
  let ?t0 = "GasTracker_new cfg maxGas settings"
  have "gt_gasUsed ?t0 = 0 \<and> gt_specialGas ?t0 = 0 \<and> gt_settings ?t0 = settings"
    by (simp add: GasTracker_new_def split: option.splits)
  then have "0 \<le> gt_gasUsed t \<and> gt_gasUsed t \<le> used_limit cfg t \<and> gt_specialGas t \<le> used_limit cfg t
      \<and> gt_settings t = settings \<and> gt_maxGas t = gt_maxGas ?t0"
    using gas_calls_limits [OF assms(1)] by (simp add: used_limit_def)
  then show ?thesis
    using assms(2-4)
    by (cases settings)
      (auto simp: used_limit_def maxGasVM_def GasTracker_new_def gas_cap_def split: if_splits)
qed

theorem gas_tracker_limits_witness:
  "\<exists>t. gas_calls Roswell_GAS [\<lparr>call_gas = 7, call_special = 0, call_extern = True, call_from = None\<rparr>]
        (GasTracker_new Roswell_GAS 10 None) = Inr t \<and> gt_gasUsed t = 7 \<and> gt_gasUsed t \<le> 10"
proof -
  let ?cs = "[\<lparr>call_gas = 7, call_special = 0, call_extern = True, call_from = None\<rparr>]"
  obtain t where t: "gas_calls Roswell_GAS ?cs (GasTracker_new Roswell_GAS 10 None) = Inr t"
    and seven: "gt_gasUsed t = 7"
    by (simp add: gas_calls_def setGasUsed_def GasTracker_new_def countGas_def maxGasVM_def
        gas_cap_def Roswell_GAS_def is_free_contract_def)
  have "gt_gasUsed t \<le> 10"
    using gas_tracker_limits [OF t] by (simp add: Roswell_GAS_def)
  with t seven show ?thesis by blast
qed

end
