(* ===== verification/Contract_Evaluation.thy ===== *)
theory Contract_Evaluation
  imports Fast_Collections Gas
begin

section \<open>One contract execution (\<open>src/src/vm/runtime/classes\<close>)\<close>

text \<open>
  \<open>AddressStack\<close>, \<open>MutableNumber\<close> and \<open>ContractEvaluation\<close>: the state one contract call reads and
  writes, its merge into the caller's state, and the result handed to the virtual machine manager.

  Objects that the source shares between the evaluations of one transaction (gas tracker, call
  stack, depth counters, storage) are fields of the evaluation record, and an operation takes the
  record with their current values. \<open>AddressMap\<close> is used through
  the \<open>Map\<close> interface only and is a \<open>js_map\<close> keyed by address. \<open>DeterministicMap\<close>, from a package, is
  the sequence of its entries with its insertion as the parameter \<open>put\<close> (locale
  \<open>pointer_storage\<close> states what the code relies on). A thrown error ends the evaluation and its
  caller turns it into a revert, so operations that throw return the error only.
\<close>

subsection \<open>\<open>AddressStack\<close>\<close>

record AddressStack =
  as_items :: "address list"

definition AddressStack_length :: "AddressStack \<Rightarrow> nat" where
  "AddressStack_length s = length (as_items s)"

definition AddressStack_push :: "AddressStack \<Rightarrow> address \<Rightarrow> AddressStack \<times> nat" where
  "AddressStack_push s a = (let items = as_items s @ [a] in (s\<lparr>as_items := items\<rparr>, length items))"

definition AddressStack_pop :: "AddressStack \<Rightarrow> AddressStack \<times> address option" where
  "AddressStack_pop s =
     (if as_items s = [] then (s, None)
      else (s\<lparr>as_items := butlast (as_items s)\<rparr>, Some (last (as_items s))))"

definition AddressStack_peek :: "AddressStack \<Rightarrow> address option" where
  "AddressStack_peek s =
     (if AddressStack_length s = 0 then None else Some (as_items s ! (AddressStack_length s - 1)))"

definition AddressStack_clear :: "AddressStack \<Rightarrow> AddressStack" where
  "AddressStack_clear s = s\<lparr>as_items := []\<rparr>"

fun includes_loop :: "address list \<Rightarrow> address \<Rightarrow> bool" where
  "includes_loop [] a = False"
| "includes_loop (item # rest) a = (if item = a then True else includes_loop rest a)"

definition AddressStack_includes :: "AddressStack \<Rightarrow> address \<Rightarrow> bool" where
  "AddressStack_includes s a = includes_loop (as_items s) a"

definition AddressStack_concat :: "AddressStack \<Rightarrow> AddressStack \<Rightarrow> AddressStack" where
  "AddressStack_concat s other = \<lparr>as_items = as_items s @ as_items other\<rparr>"

lemma includes_loop_set [simp]: "includes_loop xs a \<longleftrightarrow> a \<in> set xs"
  by (induction xs) auto

subsection \<open>\<open>MutableNumber\<close>\<close>

record MutableNumber =
  mn_value :: int

definition MutableNumber_new :: MutableNumber where
  "MutableNumber_new = \<lparr>mn_value = 0\<rparr>"

definition MutableNumber_increment :: "MutableNumber \<Rightarrow> int \<Rightarrow> MutableNumber" where
  "MutableNumber_increment m by' = m\<lparr>mn_value := mn_value m + by'\<rparr>"

definition MutableNumber_decrement :: "MutableNumber \<Rightarrow> int \<Rightarrow> MutableNumber" where
  "MutableNumber_decrement m by' = m\<lparr>mn_value := mn_value m - by'\<rparr>"

subsection \<open>State of an evaluation\<close>

type_synonym pointer_entries = "(bigint \<times> bigint) list"

record NetEvent =
  ev_type :: string
  ev_data :: bytes

record ContractInformation =
  ci_blockHeight :: bigint
  ci_contractAddress :: string
  contractPublicKey :: address
  ci_bytecode :: bytes
  ci_wasCompressed :: bool
  ci_deployedTransactionId :: bytes
  ci_deployedTransactionHash :: bytes
  ci_deployerPubKey :: bytes
  ci_contractSeed :: bytes
  ci_contractSaltHash :: bytes
  ci_deployerAddress :: address

datatype eval_error = DeployDepthExceeded | UpdateDepthExceeded | StorageAlreadySet
  | EventTooLong | EventTypeTooLong | TotalEventsTooLong | MaxGasMismatch | GasError gas_error
  | ReentrancyDetected | ContractAlreadyDeployed | CannotParseAccessList

record ContractEvaluation =
  ce_contractAddress :: address
  ce_externalCall :: bool
  ce_isDeployment :: bool
  ce_isUpdate :: bool
  ce_modifiedStorage :: "(address, FastBigIntMap) js_map option"
  ce_events :: "(address, NetEvent list) js_map"
  ce_result :: "bytes option"
  ce_contractDeployDepth :: MutableNumber
  ce_contractUpdateDepth :: MutableNumber
  ce_mldsaLoadCounter :: MutableNumber
  ce_gasTracker :: GasTracker
  ce_storage :: "(address, pointer_entries) js_map"
  ce_preloadStorage :: "(address, pointer_entries) js_map"
  ce_deployedContracts :: "(address, ContractInformation) js_map"
  ce_touchedAddresses :: "(address, bool) js_map"
  ce_callStack :: AddressStack
  ce_accessList :: "(string \<times> (string \<times> string) list) list option"
  ce_totalEventSize :: nat
  ce_revert :: "bytes option"

record ExecutionParameters =
  xp_contractAddress :: address
  xp_externalCall :: bool
  xp_isDeployment :: bool
  xp_isUpdate :: bool
  xp_contractDeployDepth :: "MutableNumber option"
  xp_contractUpdateDepth :: "MutableNumber option"
  xp_mldsaLoadCounter :: "MutableNumber option"
  xp_gasTracker :: GasTracker
  xp_storage :: "(address, pointer_entries) js_map"
  xp_preloadStorage :: "(address, pointer_entries) js_map"
  xp_deployedContracts :: "(address, ContractInformation) js_map option"
  xp_touchedAddresses :: "(address, bool) js_map option"
  xp_callStack :: "AddressStack option"
  xp_accessList :: "(string \<times> (string \<times> string) list) list option"

definition or_else :: "'a option \<Rightarrow> 'a \<Rightarrow> 'a" where
  "or_else x d = (case x of None \<Rightarrow> d | Some v \<Rightarrow> v)"

lemma or_else_simps [simp]: "or_else None d = d" "or_else (Some v) d = v"
  by (simp_all add: or_else_def)

subsection \<open>Operations\<close>

definition touchAddress :: "ContractEvaluation \<Rightarrow> address \<Rightarrow> bool \<Rightarrow> ContractEvaluation" where
  "touchAddress e a isContract =
     e\<lparr>ce_touchedAddresses := AList.update a isContract (ce_touchedAddresses e)\<rparr>"

definition touchedAddress :: "ContractEvaluation \<Rightarrow> address \<Rightarrow> bool option" where
  "touchedAddress e a = map_of (ce_touchedAddresses e) a"

definition evaluation_setGasUsed ::
    "GAS_config \<Rightarrow> ContractEvaluation \<Rightarrow> bigint \<Rightarrow> bigint \<Rightarrow> eval_error + ContractEvaluation" where
  "evaluation_setGasUsed cfg e gas specialGas =
     (case setGasUsed cfg (ce_gasTracker e) gas specialGas (ce_externalCall e)
             (Some (ce_contractAddress e)) of
        Inl err \<Rightarrow> Inl (GasError err)
      | Inr t \<Rightarrow> Inr (e\<lparr>ce_gasTracker := t\<rparr>))"

definition evaluation_setFinalGasUsed ::
    "ContractEvaluation \<Rightarrow> bigint \<Rightarrow> bigint \<Rightarrow> eval_error + ContractEvaluation" where
  "evaluation_setFinalGasUsed e gas specialGas =
     (case setFinalGasUsed (ce_gasTracker e) gas specialGas of
        Inl err \<Rightarrow> Inl (GasError err)
      | Inr t \<Rightarrow> Inr (e\<lparr>ce_gasTracker := t\<rparr>))"

definition incrementContractDeployDepth ::
    "TRANSACTIONS_config \<Rightarrow> ContractEvaluation \<Rightarrow> eval_error + ContractEvaluation" where
  "incrementContractDeployDepth cfg e =
     (if mn_value (ce_contractDeployDepth e) \<ge> int (MAXIMUM_DEPLOYMENT_DEPTH cfg)
      then Inl DeployDepthExceeded
      else Inr (e\<lparr>ce_contractDeployDepth := MutableNumber_increment (ce_contractDeployDepth e) 1\<rparr>))"

definition incrementContractUpdates ::
    "TRANSACTIONS_config \<Rightarrow> ContractEvaluation \<Rightarrow> eval_error + ContractEvaluation" where
  "incrementContractUpdates cfg e =
     (if mn_value (ce_contractUpdateDepth e) \<ge> int (MAXIMUM_UPDATE_DEPTH cfg)
      then Inl UpdateDepthExceeded
      else Inr (e\<lparr>ce_contractUpdateDepth := MutableNumber_increment (ce_contractUpdateDepth e) 1\<rparr>))"

definition incrementMLDSALoadCounter :: "ContractEvaluation \<Rightarrow> ContractEvaluation" where
  "incrementMLDSALoadCounter e =
     e\<lparr>ce_mldsaLoadCounter := MutableNumber_increment (ce_mldsaLoadCounter e) 1\<rparr>"

definition isCallStackTooDeep :: "TRANSACTIONS_config \<Rightarrow> ContractEvaluation \<Rightarrow> bool" where
  "isCallStackTooDeep cfg e \<longleftrightarrow> AddressStack_length (ce_callStack e) \<ge> MAXIMUM_CALL_DEPTH cfg"

definition setStorage ::
    "(bigint \<Rightarrow> bigint \<Rightarrow> pointer_entries \<Rightarrow> pointer_entries) \<Rightarrow> ContractEvaluation \<Rightarrow> bigint \<Rightarrow> bigint
     \<Rightarrow> ContractEvaluation" where
  "setStorage put e pointer v =
     (let current = or_else (map_of (ce_storage e) (ce_contractAddress e)) []
      in e\<lparr>ce_storage := AList.update (ce_contractAddress e) (put pointer v current) (ce_storage e)\<rparr>)"

definition addToStorage ::
    "(bigint \<Rightarrow> bigint \<Rightarrow> pointer_entries \<Rightarrow> pointer_entries) \<Rightarrow> ContractEvaluation \<Rightarrow> bigint \<Rightarrow> bigint
     \<Rightarrow> eval_error + ContractEvaluation" where
  "addToStorage put e pointer v =
     (let current = or_else (map_of (ce_preloadStorage e) (ce_contractAddress e)) []
      in if map_of current pointer \<noteq> None then Inl StorageAlreadySet
         else Inr (e\<lparr>ce_preloadStorage :=
                AList.update (ce_contractAddress e) (put pointer v current) (ce_preloadStorage e)\<rparr>))"

definition getStorage :: "ContractEvaluation \<Rightarrow> bigint \<Rightarrow> bigint option" where
  "getStorage e pointer =
     (let inPreload = map_of (ce_preloadStorage e) (ce_contractAddress e)
      in case map_of (ce_storage e) (ce_contractAddress e) of
           None \<Rightarrow> (case inPreload of Some p \<Rightarrow> map_of p pointer | None \<Rightarrow> None)
         | Some current \<Rightarrow>
             (case map_of current pointer of
                Some val \<Rightarrow> Some val
              | None \<Rightarrow> (case inPreload of Some p \<Rightarrow> map_of p pointer | None \<Rightarrow> None)))"

definition setTotalEventSize ::
    "TRANSACTIONS_config \<Rightarrow> ContractEvaluation \<Rightarrow> nat \<Rightarrow> eval_error + ContractEvaluation" where
  "setTotalEventSize cfg e sz =
     (let newSize = ce_totalEventSize e + sz
      in if newSize > MAXIMUM_TOTAL_EVENT_LENGTH cfg then Inl TotalEventsTooLong
         else Inr (e\<lparr>ce_totalEventSize := newSize\<rparr>))"

definition enforceEventLimits ::
    "TRANSACTIONS_config \<Rightarrow> ContractEvaluation \<Rightarrow> NetEvent \<Rightarrow> eval_error + ContractEvaluation" where
  "enforceEventLimits cfg e event =
     (if length (ev_data event) > MAXIMUM_EVENT_LENGTH cfg then Inl EventTooLong
      else if length (ev_type event) > MAXIMUM_EVENT_NAME_LENGTH cfg then Inl EventTypeTooLong
      else setTotalEventSize cfg e (length (ev_data event)))"

definition emitEvent ::
    "TRANSACTIONS_config \<Rightarrow> ContractEvaluation \<Rightarrow> NetEvent \<Rightarrow> eval_error + ContractEvaluation" where
  "emitEvent cfg e event =
     res_bind (enforceEventLimits cfg e event) (\<lambda>e1.
       let current = or_else (map_of (ce_events e1) (ce_contractAddress e1)) []
       in Inr (e1\<lparr>ce_events := AList.update (ce_contractAddress e1) (current @ [event]) (ce_events e1)\<rparr>))"

definition mergeStorage ::
    "ContractEvaluation \<Rightarrow> (address \<times> pointer_entries) list \<Rightarrow> ContractEvaluation" where
  "mergeStorage e storage =
     (let start = or_else (ce_modifiedStorage e) [];
          merged = fold (\<lambda>(key, entries) m.
                     let current = or_else (map_of m key) FastBigIntMap_empty
                     in AList.update key (fold (\<lambda>(k, v) c. FastBigIntMap_set c k v) entries current) m)
                   storage start
      in e\<lparr>ce_modifiedStorage := Some merged\<rparr>)"

definition setResult :: "ContractEvaluation \<Rightarrow> bytes \<Rightarrow> ContractEvaluation" where
  "setResult e r = (let e1 = e\<lparr>ce_result := Some r\<rparr> in mergeStorage e1 (ce_storage e1))"

definition push_event ::
    "TRANSACTIONS_config \<Rightarrow> NetEvent \<Rightarrow> ContractEvaluation \<times> NetEvent list
     \<Rightarrow> eval_error + (ContractEvaluation \<times> NetEvent list)" where
  "push_event cfg v st =
     (case st of (e, current) \<Rightarrow> res_bind (enforceEventLimits cfg e v) (\<lambda>e'. Inr (e', current @ [v])))"

definition mergeEvents_entry ::
    "TRANSACTIONS_config \<Rightarrow> address \<times> NetEvent list \<Rightarrow> ContractEvaluation
     \<Rightarrow> eval_error + ContractEvaluation" where
  "mergeEvents_entry cfg kv e =
     (let current = or_else (map_of (ce_events e) (fst kv)) []
      in res_bind (res_fold (push_event cfg) (snd kv) (e, current))
           (\<lambda>(e', cur). Inr (e'\<lparr>ce_events := AList.update (fst kv) cur (ce_events e')\<rparr>)))"

definition mergeEvents ::
    "TRANSACTIONS_config \<Rightarrow> ContractEvaluation \<Rightarrow> (address \<times> NetEvent list) list
     \<Rightarrow> eval_error + ContractEvaluation" where
  "mergeEvents cfg e events = res_fold (mergeEvents_entry cfg) events e"

definition checkReentrancy :: "ContractEvaluation \<Rightarrow> eval_error + unit" where
  "checkReentrancy e =
     (if AddressStack_includes (ce_callStack e) (ce_contractAddress e)
      then Inl ReentrancyDetected else Inr ())"

definition merge ::
    "GAS_config \<Rightarrow> TRANSACTIONS_config \<Rightarrow> ContractEvaluation \<Rightarrow> ContractEvaluation
     \<Rightarrow> eval_error + ContractEvaluation" where
  "merge gas cfg e extern =
     (if gt_maxGas (ce_gasTracker extern) \<noteq> gt_maxGas (ce_gasTracker e) then Inl MaxGasMismatch
      else
        case setGasUsed gas (ce_gasTracker e) (gt_gasUsed (ce_gasTracker extern)) 0 True
               (Some (ce_contractAddress e)) of
          Inl err \<Rightarrow> Inl (GasError err)
        | Inr t \<Rightarrow>
            let e1 = e\<lparr>ce_gasTracker := t\<rparr>
            in (case ce_revert extern of
                  Some r \<Rightarrow> Inr (e1\<lparr>ce_revert := Some r\<rparr>)
                | None \<Rightarrow>
                    let e2 = e1\<lparr>ce_callStack := ce_callStack extern\<rparr>
                    in res_bind (if REENTRANCY_GUARD cfg then checkReentrancy e2 else Inr ()) (\<lambda>_.
                         let e3 = e2\<lparr>ce_contractDeployDepth := ce_contractDeployDepth extern,
                                     ce_contractUpdateDepth := ce_contractUpdateDepth extern\<rparr>;
                             e4 = (case ce_modifiedStorage extern of
                                     Some ms \<Rightarrow> mergeStorage e3 (map (\<lambda>(a, m). (a, bm_contents m)) ms)
                                   | None \<Rightarrow> e3)
                         in mergeEvents cfg e4 (ce_events extern))))"

record EvaluatedResult =
  er_changedStorage :: "(address, FastBigIntMap) js_map option"
  er_loadedStorage :: "(address, pointer_entries) js_map"
  er_result :: "bytes option"
  er_events :: "(address, NetEvent list) js_map"
  er_gasUsed :: bigint
  er_specialGasUsed :: bigint
  er_deployedContracts :: "ContractInformation list"
  er_revert :: "bytes option"

definition getEvaluationResult :: "ContractEvaluation \<Rightarrow> EvaluatedResult" where
  "getEvaluationResult e =
     (let reverted = (ce_revert e \<noteq> None)
      in \<lparr>er_changedStorage = (if reverted then Some [] else ce_modifiedStorage e),
          er_loadedStorage = ce_preloadStorage e,
          er_result = (if reverted then Some [0] else ce_result e),
          er_events = (if reverted then [] else ce_events e),
          er_gasUsed = gt_gasUsed (ce_gasTracker e),
          er_specialGasUsed = gt_specialGas (ce_gasTracker e),
          er_deployedContracts = (if reverted then [] else map snd (ce_deployedContracts e)),
          er_revert = ce_revert e\<rparr>)"

definition set_revert :: "(string \<Rightarrow> bytes) \<Rightarrow> ContractEvaluation \<Rightarrow> string \<Rightarrow> ContractEvaluation" where
  "set_revert getErrorAsBuffer e msg =
     (let r = getErrorAsBuffer msg
      in e\<lparr>ce_revert := Some (if length r > 4096
                              then getErrorAsBuffer ''OP_NET: Revert error too long.'' else r)\<rparr>)"

definition addContractInformation ::
    "ContractEvaluation \<Rightarrow> ContractInformation \<Rightarrow> eval_error + ContractEvaluation" where
  "addContractInformation e contract =
     (if map_of (ce_deployedContracts e) (contractPublicKey contract) \<noteq> None
      then Inl ContractAlreadyDeployed
      else Inr (e\<lparr>ce_deployedContracts :=
             AList.update (contractPublicKey contract) contract (ce_deployedContracts e)\<rparr>))"

definition deployedContract :: "ContractEvaluation \<Rightarrow> address \<Rightarrow> bool" where
  "deployedContract e a \<longleftrightarrow> map_of (ce_deployedContracts e) a \<noteq> None"

text \<open>\<open>toPointer\<close> is \<open>BufferHelper.uint8ArrayToPointer\<close>; a proven pointer without value reads 0.\<close>

definition preloadedStorage ::
    "(bigint \<Rightarrow> bigint \<Rightarrow> pointer_entries \<Rightarrow> pointer_entries) \<Rightarrow> (bytes \<Rightarrow> bigint) \<Rightarrow> ContractEvaluation
     \<Rightarrow> (address \<times> (bytes \<times> bytes option) list) list option \<Rightarrow> ContractEvaluation" where
  "preloadedStorage put toPointer e storage =
     (case storage of
        None \<Rightarrow> e
      | Some st \<Rightarrow>
          e\<lparr>ce_preloadStorage :=
             fold (\<lambda>(a, pointers) m.
               let current = or_else (map_of m a) []
               in AList.update a
                    (fold (\<lambda>(key, v) c. put (toPointer key)
                             (case v of Some b \<Rightarrow> toPointer b | None \<Rightarrow> 0) c) pointers current) m)
             st (ce_preloadStorage e)\<rparr>)"

text \<open>The access list is keyed by base64 strings; the decoders and \<open>Address.fromString\<close> can throw,
  and every error inside becomes the one error of the caller.\<close>

definition parseAccessList ::
    "(bigint \<Rightarrow> bigint \<Rightarrow> pointer_entries \<Rightarrow> pointer_entries) \<Rightarrow> (string \<Rightarrow> address option)
     \<Rightarrow> (string \<Rightarrow> bytes option) \<Rightarrow> ContractEvaluation \<Rightarrow> eval_error + ContractEvaluation" where
  "parseAccessList put fromString fromBase64 e =
     (case ce_accessList e of
        None \<Rightarrow> Inr e
      | Some al \<Rightarrow>
          res_bind
            (res_fold (\<lambda>(a, storageKeys) st.
               case fromString a of
                 None \<Rightarrow> Inl CannotParseAccessList
               | Some contract \<Rightarrow>
                   res_bind
                     (res_fold (\<lambda>(key, v) c.
                        case (fromBase64 key, fromBase64 v) of
                          (Some kb, Some vb) \<Rightarrow>
                            if length kb \<noteq> 32 \<or> length vb \<noteq> 32 then Inl CannotParseAccessList
                            else Inr (put (be_value kb) (be_value vb) c)
                        | _ \<Rightarrow> Inl CannotParseAccessList)
                      storageKeys (or_else (map_of st contract) []))
                     (\<lambda>c. Inr (AList.update contract c st)))
             al (ce_storage e))
            (\<lambda>st. Inr (e\<lparr>ce_storage := st\<rparr>)))"

definition evaluation_of_params :: "ExecutionParameters \<Rightarrow> ContractEvaluation" where
  "evaluation_of_params params =
     \<lparr>ce_contractAddress = xp_contractAddress params,
      ce_externalCall = xp_externalCall params,
      ce_isDeployment = xp_isDeployment params,
      ce_isUpdate = xp_isUpdate params,
      ce_modifiedStorage = None, ce_events = [], ce_result = None,
      ce_contractDeployDepth = or_else (xp_contractDeployDepth params) MutableNumber_new,
      ce_contractUpdateDepth = or_else (xp_contractUpdateDepth params) MutableNumber_new,
      ce_mldsaLoadCounter = or_else (xp_mldsaLoadCounter params) MutableNumber_new,
      ce_gasTracker = xp_gasTracker params,
      ce_storage = xp_storage params, ce_preloadStorage = xp_preloadStorage params,
      ce_deployedContracts = or_else (xp_deployedContracts params) [],
      ce_touchedAddresses = or_else (xp_touchedAddresses params) [],
      ce_callStack = or_else (xp_callStack params) \<lparr>as_items = []\<rparr>,
      ce_accessList = xp_accessList params, ce_totalEventSize = 0, ce_revert = None\<rparr>"

definition ContractEvaluation_new ::
    "(bigint \<Rightarrow> bigint \<Rightarrow> pointer_entries \<Rightarrow> pointer_entries) \<Rightarrow> (string \<Rightarrow> address option)
     \<Rightarrow> (string \<Rightarrow> bytes option) \<Rightarrow> TRANSACTIONS_config \<Rightarrow> ExecutionParameters
     \<Rightarrow> eval_error + ContractEvaluation" where
  "ContractEvaluation_new put fromString fromBase64 cfg params =
     (let e0 = evaluation_of_params params
      in res_bind (if ce_isDeployment e0 then incrementContractDeployDepth cfg e0 else Inr e0) (\<lambda>e1.
         res_bind (if ce_isUpdate e1 then incrementContractUpdates cfg e1 else Inr e1) (\<lambda>e2.
         let e3 = e2\<lparr>ce_callStack := fst (AddressStack_push (ce_callStack e2) (ce_contractAddress e2))\<rparr>;
             e4 = touchAddress e3 (ce_contractAddress e3) True
         in if \<not> ce_externalCall e4 then parseAccessList put fromString fromBase64 e4 else Inr e4)))"

subsection \<open>Contract storage\<close>

text \<open>What the code relies on of \<open>DeterministicMap.set\<close>: it is an insertion into a map whose iteration has
  one entry for each key.\<close>

locale pointer_storage =
  fixes put :: "bigint \<Rightarrow> bigint \<Rightarrow> pointer_entries \<Rightarrow> pointer_entries"
  assumes lookup_put: "map_of (put k v m) = (map_of m)(k \<mapsto> v)"
    and distinct_put: "js_map_ok m \<Longrightarrow> js_map_ok (put k v m)"
begin

lemma getStorage_setStorage:
  "getStorage (setStorage put e p v) q = (if q = p then Some v else getStorage e q)"
  by (auto simp: getStorage_def setStorage_def Let_def lookup_put update_conv or_else_def
      split: option.splits)

lemma getStorage_writes:
  "getStorage (fold (\<lambda>(p, v) e. setStorage put e p v) ws e) = getStorage e ++ map_of (rev ws)"
proof (induction ws arbitrary: e)
  case (Cons w ws)
  obtain p v where w: "w = (p, v)" by (cases w)
  show ?case
    by (rule ext) (simp add: w Cons getStorage_setStorage map_add_def split: option.splits)
qed simp

lemma storage_writes:
  "or_else (map_of (ce_storage (fold (\<lambda>(p, v) e. setStorage put e p v) ws e)) (ce_contractAddress e)) []
   = fold (\<lambda>(p, v). put p v) ws (or_else (map_of (ce_storage e) (ce_contractAddress e)) [])"
proof (induction ws arbitrary: e)
  case (Cons w ws)
  obtain p v where w: "w = (p, v)" by (cases w)
  show ?case
    using Cons [of "setStorage put e p v"] by (simp add: w setStorage_def Let_def update_conv)
qed simp

lemma lookup_writes: "map_of (fold (\<lambda>(p, v). put p v) ws m) = map_of m ++ map_of (rev ws)"
proof (induction ws arbitrary: m)
  case (Cons w ws)
  then show ?case by (cases w) (simp add: lookup_put map_add_def fun_eq_iff split: option.splits)
qed simp

lemma writes_ok:
  assumes "js_map_ok (ce_storage e)" "\<forall>(a, es) \<in> set (ce_storage e). js_map_ok es"
  shows "js_map_ok (ce_storage (setStorage put e p v))
    \<and> (\<forall>(a, es) \<in> set (ce_storage (setStorage put e p v)). js_map_ok es)"
proof -
  let ?c = "or_else (map_of (ce_storage e) (ce_contractAddress e)) []"
  have c: "js_map_ok ?c"
    using assms(2) by (auto simp: or_else_def dest: map_of_SomeD split: option.splits)
  have "js_map_ok es" if "(a, es) \<in> set (AList.update (ce_contractAddress e) (put p v ?c) (ce_storage e))"
    for a es
    using that assms(2) distinct_put [OF c, of p v]
      update_subset [of "ce_contractAddress e" "put p v ?c" "ce_storage e"] by blast
  then show ?thesis using assms(1) by (auto simp: setStorage_def Let_def distinct_update)
qed

lemma all_writes_ok:
  assumes "js_map_ok (ce_storage e)" "\<forall>(a, es) \<in> set (ce_storage e). js_map_ok es"
  shows "js_map_ok (ce_storage (fold (\<lambda>(p, v) e. setStorage put e p v) ws e))
    \<and> (\<forall>(a, es) \<in> set (ce_storage (fold (\<lambda>(p, v) e. setStorage put e p v) ws e)). js_map_ok es)"
  using assms
proof (induction ws arbitrary: e)
  case (Cons w ws)
  obtain p v where w: "w = (p, v)" by (cases w)
  show ?case using writes_ok [OF Cons.prems, of p v] Cons.IH [of "setStorage put e p v"]
    by (simp add: w)
qed simp

end

text \<open>The insertion of a JavaScript \<open>Map\<close>, and the insertion that keeps the entries sorted by pointer.\<close>

interpretation js_storage: pointer_storage AList.update
  by unfold_locales (simp_all add: update_conv' distinct_update)

fun sorted_put :: "bigint \<Rightarrow> bigint \<Rightarrow> pointer_entries \<Rightarrow> pointer_entries" where
  "sorted_put k v [] = [(k, v)]"
| "sorted_put k v ((a, b) # m) =
     (if k = a then (k, v) # m else if k < a then (k, v) # AList.delete k ((a, b) # m)
      else (a, b) # sorted_put k v m)"

lemma sorted_put_keys: "fst ` set (sorted_put k v m) \<subseteq> insert k (fst ` set m)"
  by (induction k v m rule: sorted_put.induct)
    (auto simp: AList.delete_eq)

interpretation sorted_storage: pointer_storage sorted_put
proof unfold_locales
  show "map_of (sorted_put k v m) = (map_of m)(k \<mapsto> v)" for k v m
    by (induction k v m rule: sorted_put.induct) (auto simp: fun_eq_iff delete_conv)
  show "js_map_ok (sorted_put k v m)" if "js_map_ok m" for k v m
    using that
  proof (induction k v m rule: sorted_put.induct)
    case (2 k v a b m)
    have m: "a \<notin> fst ` set m" "js_map_ok m" using 2(2) by simp_all
    then have del: "a \<notin> fst ` set (AList.delete k m)" "js_map_ok (AList.delete k m)"
        "k \<notin> fst ` set (AList.delete k m)"
      using delete_subset [of k m] distinct_delete [of m k] by (auto simp: AList.delete_eq)
    have put: "k \<noteq> a \<Longrightarrow> a \<notin> fst ` set (sorted_put k v m)"
      using m(1) sorted_put_keys [of k v m] by blast
    show ?case using 2(1) m del put by simp
  qed simp
qed

definition modified_at :: "ContractEvaluation \<Rightarrow> address \<Rightarrow> bigint \<Rightarrow> bigint option" where
  "modified_at e a k =
     (case ce_modifiedStorage e of None \<Rightarrow> None
      | Some ms \<Rightarrow> (case map_of ms a of None \<Rightarrow> None | Some m \<Rightarrow> FastBigIntMap_get m k))"

definition entries_at :: "(address \<times> pointer_entries) list \<Rightarrow> address \<Rightarrow> bigint \<Rightarrow> bigint option" where
  "entries_at st a k = (case map_of st a of None \<Rightarrow> None | Some es \<Rightarrow> map_of es k)"

definition modified_ok :: "ContractEvaluation \<Rightarrow> bool" where
  "modified_ok e \<longleftrightarrow> (\<forall>(a, m) \<in> set (or_else (ce_modifiedStorage e) []). bm_invar m)"

text \<open>The loop of \<open>mergeStorage\<close> over the addresses.\<close>

definition merge_entry ::
    "address \<times> pointer_entries \<Rightarrow> (address, FastBigIntMap) js_map \<Rightarrow> (address, FastBigIntMap) js_map" where
  "merge_entry kv m =
     (case kv of (key, entries) \<Rightarrow>
        let current = or_else (map_of m key) FastBigIntMap_empty
        in AList.update key (fold (\<lambda>(k, v) c. FastBigIntMap_set c k v) entries current) m)"

definition table_at :: "(address, FastBigIntMap) js_map \<Rightarrow> address \<Rightarrow> bigint \<Rightarrow> bigint option" where
  "table_at m a k = (case map_of m a of None \<Rightarrow> None | Some c \<Rightarrow> FastBigIntMap_get c k)"

definition table_ok :: "(address, FastBigIntMap) js_map \<Rightarrow> bool" where
  "table_ok m \<longleftrightarrow> (\<forall>(a, c) \<in> set m. bm_invar c)"

lemma mergeStorage_fold:
  "mergeStorage e st = e\<lparr>ce_modifiedStorage := Some (fold merge_entry st (or_else (ce_modifiedStorage e) []))\<rparr>"
proof -
  have "(\<lambda>(key, entries) m.
      let current = or_else (map_of m key) FastBigIntMap_empty
      in AList.update key (fold (\<lambda>(k, v) c. FastBigIntMap_set c k v) entries current) m) = merge_entry"
    by (auto simp: merge_entry_def fun_eq_iff)
  then show ?thesis by (simp add: mergeStorage_def Let_def)
qed

lemma table_current_ok: "table_ok m \<Longrightarrow> bm_invar (or_else (map_of m a) FastBigIntMap_empty)"
  using fbm.invar_empty by (auto simp: table_ok_def or_else_def dest: map_of_SomeD split: option.splits)

lemma merge_entry_ok: "table_ok m \<Longrightarrow> table_ok (merge_entry (a, es) m)"
  using fbm.invar_load [OF table_current_ok, of m es a]
    update_subset [of a "fold (\<lambda>(k, v) c. FastBigIntMap_set c k v) es
      (or_else (map_of m a) FastBigIntMap_empty)" m]
  by (fastforce simp: table_ok_def merge_entry_def)

lemma merge_entry_at:
  assumes "table_ok m" "js_map_ok es"
  shows "table_at (merge_entry (a, es) m) b k =
    (if b = a then (table_at m a ++ map_of es) k else table_at m b k)"
proof -
  have "map_of (rev es) = map_of es" using assms(2) by (rule js_map_rev)
  moreover have "FastBigIntMap_get (or_else (map_of m a) FastBigIntMap_empty) j = table_at m a j" for j
    by (simp add: table_at_def or_else_def FastBigIntMap_get_def FastBigIntMap_empty_def
        split: option.splits)
  ultimately show ?thesis
    using fbm.lookup_load [OF table_current_ok [OF assms(1), of a], of es k]
    by (simp add: merge_entry_def table_at_def update_conv map_add_def split: option.splits)
qed

lemma fold_merge_entry_at:
  assumes "table_ok m" "js_map_ok st" "\<forall>(a, es) \<in> set st. js_map_ok es"
  shows "table_ok (fold merge_entry st m)
    \<and> table_at (fold merge_entry st m) b k = (table_at m b ++ entries_at st b) k"
  using assms
proof (induction st arbitrary: m)
  case (Cons x st)
  obtain a es where x: "x = (a, es)" by (cases x)
  have ok: "table_ok (merge_entry (a, es) m)" using Cons.prems merge_entry_ok by blast
  have es: "js_map_ok es" using Cons.prems(3) x by simp
  have a: "map_of st a = None" using Cons.prems(2) x by (simp add: map_of_eq_None_iff)
  show ?case
    using Cons.IH [OF ok] Cons.prems merge_entry_at [OF Cons.prems(1) es] a
    by (auto simp: x entries_at_def map_add_def split: option.splits)
qed (simp add: entries_at_def map_add_def)

lemma mergeStorage_at:
  assumes "modified_ok e" "js_map_ok st" "\<forall>(a, es) \<in> set st. js_map_ok es"
  shows "modified_ok (mergeStorage e st)
    \<and> modified_at (mergeStorage e st) b k = (modified_at e b ++ entries_at st b) k"
proof -
  have "modified_at e b = table_at (or_else (ce_modifiedStorage e) []) b"
    by (auto simp: fun_eq_iff modified_at_def table_at_def or_else_def split: option.splits)
  then show ?thesis
    using fold_merge_entry_at [of "or_else (ce_modifiedStorage e) []" st b k] assms
    by (simp add: mergeStorage_fold modified_ok_def table_ok_def modified_at_def table_at_def)
qed

subsection \<open>Event accounting\<close>

definition events_bytes :: "NetEvent list \<Rightarrow> nat" where
  "events_bytes evs = sum_list (map (\<lambda>v. length (ev_data v)) evs)"

definition event_ok :: "TRANSACTIONS_config \<Rightarrow> NetEvent \<Rightarrow> bool" where
  "event_ok cfg v \<longleftrightarrow> length (ev_data v) \<le> MAXIMUM_EVENT_LENGTH cfg
     \<and> length (ev_type v) \<le> MAXIMUM_EVENT_NAME_LENGTH cfg"

definition events_ok :: "TRANSACTIONS_config \<Rightarrow> ContractEvaluation \<Rightarrow> bool" where
  "events_ok cfg e \<longleftrightarrow>
     ce_totalEventSize e = sum_list (map (\<lambda>(a, evs). events_bytes evs) (ce_events e))
     \<and> ce_totalEventSize e \<le> MAXIMUM_TOTAL_EVENT_LENGTH cfg
     \<and> (\<forall>(a, evs) \<in> set (ce_events e). \<forall>v \<in> set evs. event_ok cfg v)
     \<and> js_map_ok (ce_events e)"

lemma events_bytes_simps [simp]:
  "events_bytes [] = 0" "events_bytes (xs @ ys) = events_bytes xs + events_bytes ys"
  "events_bytes (x # xs) = length (ev_data x) + events_bytes xs"
  by (simp_all add: events_bytes_def)

lemma events_bytes_update:
  "sum_list (map (\<lambda>(a, evs). events_bytes evs) (AList.update k evs m)) + events_bytes (or_else (map_of m k) [])
   = sum_list (map (\<lambda>(a, evs). events_bytes evs) m) + events_bytes evs"
  by (induction m) auto

lemma enforceEventLimits_iff:
  "enforceEventLimits cfg e v = Inr e' \<longleftrightarrow>
     event_ok cfg v \<and> ce_totalEventSize e + length (ev_data v) \<le> MAXIMUM_TOTAL_EVENT_LENGTH cfg
     \<and> e' = e\<lparr>ce_totalEventSize := ce_totalEventSize e + length (ev_data v)\<rparr>"
  by (auto simp: enforceEventLimits_def setTotalEventSize_def event_ok_def Let_def)

text \<open>Appending events under one address, as both \<open>emitEvent\<close> and \<open>mergeEvents\<close> do.\<close>

lemma events_ok_append:
  assumes ok: "events_ok cfg e" and new: "\<forall>v \<in> set evs. event_ok cfg v"
    and size: "ce_totalEventSize e + events_bytes evs \<le> MAXIMUM_TOTAL_EVENT_LENGTH cfg"
  shows "events_ok cfg (e\<lparr>ce_totalEventSize := ce_totalEventSize e + events_bytes evs,
      ce_events := AList.update a (or_else (map_of (ce_events e) a) [] @ evs) (ce_events e)\<rparr>)"
proof -
  let ?cur = "or_else (map_of (ce_events e) a) []"
  have cur: "\<forall>v \<in> set ?cur. event_ok cfg v"
    using ok by (auto simp: events_ok_def or_else_def dest: map_of_SomeD split: option.splits)
  have "\<forall>(b, vs) \<in> set (AList.update a (?cur @ evs) (ce_events e)). \<forall>v \<in> set vs. event_ok cfg v"
    using ok new cur update_subset [of a "?cur @ evs" "ce_events e"]
    by (fastforce simp: events_ok_def)
  then show ?thesis
    using ok size events_bytes_update [of a "?cur @ evs" "ce_events e"]
    by (simp add: events_ok_def distinct_update)
qed

lemma emitEvent_ok: "events_ok cfg e \<Longrightarrow> emitEvent cfg e v = Inr e' \<Longrightarrow> events_ok cfg e'"
  using events_ok_append [of cfg e "[v]" "ce_contractAddress e"]
  by (auto simp: emitEvent_def enforceEventLimits_iff Let_def)

lemma push_events:
  "res_fold (push_event cfg) evs (e, c) = Inr (e', c') \<Longrightarrow>
   (\<forall>v \<in> set evs. event_ok cfg v) \<and> c' = c @ evs
   \<and> (evs \<noteq> [] \<longrightarrow> ce_totalEventSize e + events_bytes evs \<le> MAXIMUM_TOTAL_EVENT_LENGTH cfg)
   \<and> e' = e\<lparr>ce_totalEventSize := ce_totalEventSize e + events_bytes evs\<rparr>"
proof (induction evs arbitrary: e c)
  case (Cons v evs)
  let ?e = "e\<lparr>ce_totalEventSize := ce_totalEventSize e + length (ev_data v)\<rparr>"
  from Cons.prems have v: "event_ok cfg v"
      "ce_totalEventSize e + length (ev_data v) \<le> MAXIMUM_TOTAL_EVENT_LENGTH cfg"
    and rest: "res_fold (push_event cfg) evs (?e, c @ [v]) = Inr (e', c')"
    by (auto simp: push_event_def [of cfg v "(e, c)"] enforceEventLimits_iff)
  show ?case using Cons.IH [OF rest] v by (cases "evs = []") (simp_all add: add.assoc)
qed simp

lemma mergeEvents_entry_ok:
  assumes ok: "events_ok cfg e" and step: "mergeEvents_entry cfg (a, vs) e = Inr e'"
  shows "events_ok cfg e'"
proof -
  from step obtain e2 c where loop: "res_fold (push_event cfg) vs
        (e, or_else (map_of (ce_events e) a) []) = Inr (e2, c)"
      and e': "e' = e2\<lparr>ce_events := AList.update a c (ce_events e2)\<rparr>"
    by (auto simp: mergeEvents_entry_def Let_def)
  note l = push_events [OF loop]
  have "ce_totalEventSize e + events_bytes vs \<le> MAXIMUM_TOTAL_EVENT_LENGTH cfg"
    using l ok by (cases "vs = []") (auto simp: events_ok_def)
  with l events_ok_append [OF ok, of vs a] e' show ?thesis by simp
qed

lemma mergeEvents_ok:
  assumes "events_ok cfg e" and "mergeEvents cfg e evs = Inr e'"
  shows "events_ok cfg e'"
  using res_fold_invariant [of evs "events_ok cfg" "mergeEvents_entry cfg" e e'] assms
    mergeEvents_entry_ok [of cfg] by (auto simp: mergeEvents_def)

lemma mergeEvents_frame:
  assumes "mergeEvents cfg e evs = Inr e'"
  shows "ce_contractDeployDepth e' = ce_contractDeployDepth e
    \<and> ce_contractUpdateDepth e' = ce_contractUpdateDepth e
    \<and> ce_modifiedStorage e' = ce_modifiedStorage e \<and> ce_revert e' = ce_revert e"
proof -
  have "\<exists>t ev. e2 = e1\<lparr>ce_totalEventSize := t, ce_events := ev\<rparr>"
    if "mergeEvents_entry cfg kv e1 = Inr e2" for kv e1 e2
    using that by (auto simp: mergeEvents_entry_def Let_def dest!: push_events)
  then show ?thesis
    using res_fold_invariant [of evs "\<lambda>s. ce_contractDeployDepth s = ce_contractDeployDepth e
      \<and> ce_contractUpdateDepth s = ce_contractUpdateDepth e
      \<and> ce_modifiedStorage s = ce_modifiedStorage e \<and> ce_revert s = ce_revert e" "mergeEvents_entry cfg" e e'] assms
    by (fastforce simp: mergeEvents_def)
qed

subsection \<open>Evaluations of one transaction\<close>

text \<open>
  The evaluations a transaction can reach: a first call, a call made by a reached evaluation (it
  shares its counters), and the operations the virtual machine performs on a reached evaluation,
  the merge of a reached callee among them.
\<close>

inductive evaluation_reachable for put fromString fromBase64 gas cfg where
  first_call: "ContractEvaluation_new put fromString fromBase64 cfg params = Inr e \<Longrightarrow>
    xp_contractDeployDepth params = None \<Longrightarrow> xp_contractUpdateDepth params = None \<Longrightarrow>
    evaluation_reachable put fromString fromBase64 gas cfg e"
| external_call: "evaluation_reachable put fromString fromBase64 gas cfg caller \<Longrightarrow>
    xp_contractDeployDepth params = Some (ce_contractDeployDepth caller) \<Longrightarrow>
    xp_contractUpdateDepth params = Some (ce_contractUpdateDepth caller) \<Longrightarrow>
    ContractEvaluation_new put fromString fromBase64 cfg params = Inr e \<Longrightarrow>
    evaluation_reachable put fromString fromBase64 gas cfg e"
| touch: "evaluation_reachable put fromString fromBase64 gas cfg e \<Longrightarrow>
    evaluation_reachable put fromString fromBase64 gas cfg (touchAddress e a b)"
| use_gas: "evaluation_reachable put fromString fromBase64 gas cfg e \<Longrightarrow>
    evaluation_setGasUsed gas e g sg = Inr e' \<Longrightarrow>
    evaluation_reachable put fromString fromBase64 gas cfg e'"
| final_gas: "evaluation_reachable put fromString fromBase64 gas cfg e \<Longrightarrow>
    evaluation_setFinalGasUsed e g sg = Inr e' \<Longrightarrow>
    evaluation_reachable put fromString fromBase64 gas cfg e'"
| deploy_depth: "evaluation_reachable put fromString fromBase64 gas cfg e \<Longrightarrow>
    incrementContractDeployDepth cfg e = Inr e' \<Longrightarrow>
    evaluation_reachable put fromString fromBase64 gas cfg e'"
| update_depth: "evaluation_reachable put fromString fromBase64 gas cfg e \<Longrightarrow>
    incrementContractUpdates cfg e = Inr e' \<Longrightarrow>
    evaluation_reachable put fromString fromBase64 gas cfg e'"
| load_mldsa: "evaluation_reachable put fromString fromBase64 gas cfg e \<Longrightarrow>
    evaluation_reachable put fromString fromBase64 gas cfg (incrementMLDSALoadCounter e)"
| store: "evaluation_reachable put fromString fromBase64 gas cfg e \<Longrightarrow>
    evaluation_reachable put fromString fromBase64 gas cfg (setStorage put e p v)"
| preload: "evaluation_reachable put fromString fromBase64 gas cfg e \<Longrightarrow>
    addToStorage put e p v = Inr e' \<Longrightarrow>
    evaluation_reachable put fromString fromBase64 gas cfg e'"
| preload_all: "evaluation_reachable put fromString fromBase64 gas cfg e \<Longrightarrow>
    evaluation_reachable put fromString fromBase64 gas cfg (preloadedStorage put toPointer e st)"
| emit: "evaluation_reachable put fromString fromBase64 gas cfg e \<Longrightarrow>
    emitEvent cfg e event = Inr e' \<Longrightarrow>
    evaluation_reachable put fromString fromBase64 gas cfg e'"
| result: "evaluation_reachable put fromString fromBase64 gas cfg e \<Longrightarrow>
    evaluation_reachable put fromString fromBase64 gas cfg (setResult e r)"
| deployed: "evaluation_reachable put fromString fromBase64 gas cfg e \<Longrightarrow>
    addContractInformation e c = Inr e' \<Longrightarrow>
    evaluation_reachable put fromString fromBase64 gas cfg e'"
| reverted: "evaluation_reachable put fromString fromBase64 gas cfg e \<Longrightarrow>
    evaluation_reachable put fromString fromBase64 gas cfg (set_revert toBuffer e msg)"
| merged: "evaluation_reachable put fromString fromBase64 gas cfg e \<Longrightarrow>
    evaluation_reachable put fromString fromBase64 gas cfg extern \<Longrightarrow>
    merge gas cfg e extern = Inr e' \<Longrightarrow>
    evaluation_reachable put fromString fromBase64 gas cfg e'"

definition depths_ok :: "TRANSACTIONS_config \<Rightarrow> ContractEvaluation \<Rightarrow> bool" where
  "depths_ok cfg e \<longleftrightarrow>
     mn_value (ce_contractDeployDepth e) \<in> {0..int (MAXIMUM_DEPLOYMENT_DEPTH cfg)}
     \<and> mn_value (ce_contractUpdateDepth e) \<in> {0..int (MAXIMUM_UPDATE_DEPTH cfg)}"

definition evaluation_inv :: "TRANSACTIONS_config \<Rightarrow> ContractEvaluation \<Rightarrow> bool" where
  "evaluation_inv cfg e \<longleftrightarrow> events_ok cfg e \<and> depths_ok cfg e \<and> modified_ok e"

lemma mergeStorage_ok: "modified_ok e \<Longrightarrow> modified_ok (mergeStorage e st)"
proof -
  have "table_ok m \<Longrightarrow> table_ok (fold merge_entry st m)" for m
    by (induction st arbitrary: m) (auto simp: merge_entry_ok)
  then show "modified_ok e \<Longrightarrow> ?thesis"
    by (auto simp: mergeStorage_fold modified_ok_def table_ok_def)
qed

lemma evaluation_inv_frame:
  assumes "evaluation_inv cfg e" "ce_totalEventSize e' = ce_totalEventSize e" "ce_events e' = ce_events e"
    "ce_contractDeployDepth e' = ce_contractDeployDepth e"
    "ce_contractUpdateDepth e' = ce_contractUpdateDepth e"
    "ce_modifiedStorage e' = ce_modifiedStorage e"
  shows "evaluation_inv cfg e'"
  using assms by (simp add: evaluation_inv_def events_ok_def depths_ok_def modified_ok_def)

lemma parseAccessList_frame:
  assumes "parseAccessList put fs fb e = Inr e'"
  obtains st where "e' = e\<lparr>ce_storage := st\<rparr>"
proof (cases "ce_accessList e")
  case None
  with assms have "e' = e\<lparr>ce_storage := ce_storage e\<rparr>" by (simp add: parseAccessList_def)
  then show ?thesis by (rule that)
next
  case (Some al)
  with assms show ?thesis by (auto simp: parseAccessList_def intro: that)
qed

lemma increment_inv:
  "evaluation_inv cfg e \<Longrightarrow> incrementContractDeployDepth cfg e = Inr e' \<Longrightarrow> evaluation_inv cfg e'"
  "evaluation_inv cfg e \<Longrightarrow> incrementContractUpdates cfg e = Inr e' \<Longrightarrow> evaluation_inv cfg e'"
  by (fastforce simp: incrementContractDeployDepth_def incrementContractUpdates_def
      MutableNumber_increment_def evaluation_inv_def events_ok_def depths_ok_def modified_ok_def
      split: if_splits)+

text \<open>The constructor: the two counters, then the call stack, the touched addresses and the access list.\<close>

lemma new_steps:
  assumes "ContractEvaluation_new put fs fb cfg params = Inr e"
  obtains e1 e2 st where
    "(if xp_isDeployment params then incrementContractDeployDepth cfg (evaluation_of_params params)
      else Inr (evaluation_of_params params)) = Inr e1"
    "(if ce_isUpdate e1 then incrementContractUpdates cfg e1 else Inr e1) = Inr e2"
    "e = (touchAddress (e2\<lparr>ce_callStack := \<lparr>as_items = as_items (ce_callStack e2) @ [ce_contractAddress e2]\<rparr>\<rparr>)
           (ce_contractAddress e2) True)\<lparr>ce_storage := st\<rparr>"
proof -
  from assms obtain e1 e2 where
    e1: "(if xp_isDeployment params then incrementContractDeployDepth cfg (evaluation_of_params params)
      else Inr (evaluation_of_params params)) = Inr e1"
    and e2: "(if ce_isUpdate e1 then incrementContractUpdates cfg e1 else Inr e1) = Inr e2"
    and e: "(let e3 = e2\<lparr>ce_callStack := fst (AddressStack_push (ce_callStack e2) (ce_contractAddress e2))\<rparr>;
             e4 = touchAddress e3 (ce_contractAddress e3) True
         in if \<not> ce_externalCall e4 then parseAccessList put fs fb e4 else Inr e4) = Inr e"
    unfolding ContractEvaluation_new_def Let_def res_bind_Inr_iff
    by (auto simp: evaluation_of_params_def)
  let ?e3 = "e2\<lparr>ce_callStack := \<lparr>as_items = as_items (ce_callStack e2) @ [ce_contractAddress e2]\<rparr>\<rparr>"
  have p: "fst (AddressStack_push (ce_callStack e2) (ce_contractAddress e2))
      = \<lparr>as_items = as_items (ce_callStack e2) @ [ce_contractAddress e2]\<rparr>"
    by (simp add: AddressStack_push_def Let_def)
  let ?e4 = "touchAddress ?e3 (ce_contractAddress e2) True"
  have "\<exists>st. e = ?e4\<lparr>ce_storage := st\<rparr>"
  proof (cases "ce_externalCall e2")
    case True
    then have "e = ?e4\<lparr>ce_storage := ce_storage ?e4\<rparr>"
      using e p by (simp add: Let_def touchAddress_def)
    then show ?thesis by blast
  next
    case False
    then have "parseAccessList put fs fb ?e4 = Inr e"
      using e p by (simp add: Let_def touchAddress_def)
    then show ?thesis by (rule parseAccessList_frame) blast
  qed
  with e1 e2 show ?thesis by (auto intro: that)
qed

lemma new_inv:
  assumes new: "ContractEvaluation_new put fs fb cfg params = Inr e"
    and d: "mn_value (or_else (xp_contractDeployDepth params) MutableNumber_new)
              \<in> {0..int (MAXIMUM_DEPLOYMENT_DEPTH cfg)}"
    and u: "mn_value (or_else (xp_contractUpdateDepth params) MutableNumber_new)
              \<in> {0..int (MAXIMUM_UPDATE_DEPTH cfg)}"
  shows "evaluation_inv cfg e"
  using new
proof (rule new_steps)
  fix e1 e2 st
  have e0: "evaluation_inv cfg (evaluation_of_params params)"
    using d u by (simp add: evaluation_inv_def evaluation_of_params_def events_ok_def depths_ok_def
        modified_ok_def)
  assume e1: "(if xp_isDeployment params
      then incrementContractDeployDepth cfg (evaluation_of_params params)
      else Inr (evaluation_of_params params)) = Inr e1"
    and e2: "(if ce_isUpdate e1 then incrementContractUpdates cfg e1 else Inr e1) = Inr e2"
    and e: "e = (touchAddress (e2\<lparr>ce_callStack :=
        \<lparr>as_items = as_items (ce_callStack e2) @ [ce_contractAddress e2]\<rparr>\<rparr>)
      (ce_contractAddress e2) True)\<lparr>ce_storage := st\<rparr>"
  have i1: "evaluation_inv cfg e1"
    using e0 e1 increment_inv(1) [OF e0, of e1] by (cases "xp_isDeployment params") simp_all
  then have "evaluation_inv cfg e2"
    using e2 increment_inv(2) [OF i1, of e2] by (cases "ce_isUpdate e1") simp_all
  then show "evaluation_inv cfg e"
    by (rule evaluation_inv_frame) (simp_all add: e touchAddress_def)
qed

lemma merge_inv:
  assumes "evaluation_inv cfg e" "evaluation_inv cfg extern" "merge gas cfg e extern = Inr e'"
  shows "evaluation_inv cfg e'"
proof -
  from assms(3) obtain t where t: "setGasUsed gas (ce_gasTracker e) (gt_gasUsed (ce_gasTracker extern)) 0
      True (Some (ce_contractAddress e)) = Inr t"
    by (auto simp: merge_def split: if_splits sum.splits)
  show ?thesis
  proof (cases "ce_revert extern")
    case (Some r)
    with assms t show ?thesis
      by (auto simp: merge_def Let_def split: if_splits intro: evaluation_inv_frame)
  next
    case None
    define e3 where "e3 = e\<lparr>ce_gasTracker := t, ce_callStack := ce_callStack extern,
      ce_contractDeployDepth := ce_contractDeployDepth extern,
      ce_contractUpdateDepth := ce_contractUpdateDepth extern\<rparr>"
    define e4 where "e4 = (case ce_modifiedStorage extern of
        Some ms \<Rightarrow> mergeStorage e3 (map (\<lambda>(a, m). (a, bm_contents m)) ms) | None \<Rightarrow> e3)"
    have "evaluation_inv cfg e3"
      using assms by (simp add: e3_def evaluation_inv_def events_ok_def depths_ok_def modified_ok_def)
    then have e4: "events_ok cfg e4 \<and> depths_ok cfg e4 \<and> modified_ok e4"
      by (auto simp: e4_def evaluation_inv_def mergeStorage_ok split: option.splits)
        (auto simp: mergeStorage_def events_ok_def depths_ok_def Let_def)
    from assms(3) t None have run: "mergeEvents cfg e4 (ce_events extern) = Inr e'"
      unfolding e4_def e3_def by (auto simp: merge_def Let_def split: if_splits)
    show ?thesis using e4 mergeEvents_ok [OF _ run] mergeEvents_frame [OF run]
      by (simp add: evaluation_inv_def depths_ok_def modified_ok_def)
  qed
qed

lemma reachable_inv:
  "evaluation_reachable put fs fb gas cfg e \<Longrightarrow> evaluation_inv cfg e"
proof (induction rule: evaluation_reachable.induct)
  case (first_call params e)
  then show ?case by (intro new_inv [OF first_call(1)]) (simp_all add: MutableNumber_new_def)
next
  case (external_call caller params e)
  then show ?case
    by (intro new_inv [OF external_call(4)]) (simp_all add: evaluation_inv_def depths_ok_def)
next
  case (deploy_depth e e')
  then show ?case by (blast intro: increment_inv)
next
  case (update_depth e e')
  then show ?case by (blast intro: increment_inv)
next
  case (emit e event e')
  then have "depths_ok cfg e' \<and> modified_ok e'"
    by (auto simp: emitEvent_def enforceEventLimits_iff Let_def evaluation_inv_def depths_ok_def
        modified_ok_def)
  with emit show ?case by (auto simp: evaluation_inv_def dest: emitEvent_ok)
next
  case (result e r)
  then show ?case
    by (auto simp: evaluation_inv_def setResult_def Let_def mergeStorage_fold events_ok_def depths_ok_def)
      (use mergeStorage_ok [of "e\<lparr>ce_result := Some r\<rparr>" "ce_storage e"] in
        \<open>simp add: modified_ok_def mergeStorage_fold\<close>)
next
  case (merged e extern e')
  then show ?case by (blast intro: merge_inv)
next
  case (touch e a b)
  from touch.IH show ?case by (rule evaluation_inv_frame) (simp_all add: touchAddress_def)
next
  case (use_gas e g sg e')
  from use_gas.IH show ?case
    by (rule evaluation_inv_frame) (use use_gas.hyps in \<open>auto simp: evaluation_setGasUsed_def split: sum.splits if_splits\<close>)
next
  case (final_gas e g sg e')
  from final_gas.IH show ?case
    by (rule evaluation_inv_frame) (use final_gas.hyps in \<open>auto simp: evaluation_setFinalGasUsed_def split: sum.splits if_splits\<close>)
next
  case (load_mldsa e)
  from load_mldsa.IH show ?case by (rule evaluation_inv_frame) (simp_all add: incrementMLDSALoadCounter_def)
next
  case (store e p v)
  from store.IH show ?case by (rule evaluation_inv_frame) (simp_all add: setStorage_def Let_def)
next
  case (preload e p v e')
  from preload.IH show ?case
    by (rule evaluation_inv_frame) (use preload.hyps in \<open>auto simp: addToStorage_def Let_def split: sum.splits if_splits\<close>)
next
  case (preload_all e toPointer st)
  from preload_all.IH show ?case by (rule evaluation_inv_frame) (simp_all add: preloadedStorage_def split: option.splits)
next
  case (deployed e c e')
  from deployed.IH show ?case
    by (rule evaluation_inv_frame) (use deployed.hyps in \<open>auto simp: addContractInformation_def split: sum.splits if_splits\<close>)
next
  case (reverted e toBuffer msg)
  from reverted.IH show ?case by (rule evaluation_inv_frame) (simp_all add: set_revert_def Let_def)
qed

lemma fold_setStorage_frame:
  "ce_contractAddress (fold (\<lambda>(p, v) e. setStorage put e p v) ws e) = ce_contractAddress e
   \<and> ce_modifiedStorage (fold (\<lambda>(p, v) e. setStorage put e p v) ws e) = ce_modifiedStorage e
   \<and> (b \<noteq> ce_contractAddress e \<longrightarrow>
        map_of (ce_storage (fold (\<lambda>(p, v) e. setStorage put e p v) ws e)) b = map_of (ce_storage e) b)"
  by (induction ws arbitrary: e) (auto simp: setStorage_def Let_def update_conv)

lemma entries_at_writes:
  assumes "pointer_storage put"
  shows "entries_at (ce_storage (fold (\<lambda>(p, v) e. setStorage put e p v) ws e)) b
    = (if b = ce_contractAddress e then entries_at (ce_storage e) b ++ map_of (rev ws)
       else entries_at (ce_storage e) b)"
proof -
  have e: "entries_at st a = map_of (or_else (map_of st a) [])" for st a
    by (simp add: fun_eq_iff entries_at_def or_else_def split: option.splits)
  show ?thesis
    using fold_setStorage_frame [of put ws e b]
    by (simp add: e pointer_storage.storage_writes [OF assms] pointer_storage.lookup_writes [OF assms])
qed

text \<open>A first call on a new contract, with 1000 gas.\<close>

definition sample_params :: ExecutionParameters where
  "sample_params = \<lparr>xp_contractAddress = ''c'', xp_externalCall = True, xp_isDeployment = True,
     xp_isUpdate = False, xp_contractDeployDepth = None, xp_contractUpdateDepth = None,
     xp_mldsaLoadCounter = None, xp_gasTracker = GasTracker_new Roswell_GAS 1000 None,
     xp_storage = [], xp_preloadStorage = [], xp_deployedContracts = None,
     xp_touchedAddresses = None, xp_callStack = None, xp_accessList = None\<rparr>"

subsection \<open>Properties\<close>

text \<open>
  C32: in every evaluation a transaction can reach, the counted event size is exactly the number of
  data bytes of the recorded events and stays within the limit of the consensus rules, every event
  respects the data and type length limits, and the deployment and update depths shared by the
  calls stay within theirs.
\<close>

theorem reachable_evaluation_limits:
  assumes "evaluation_reachable put fromString fromBase64 gas cfg e"
  shows "ce_totalEventSize e
      = sum_list (map (\<lambda>(a, evs). sum_list (map (\<lambda>v. length (ev_data v)) evs)) (ce_events e))
    \<and> ce_totalEventSize e \<le> MAXIMUM_TOTAL_EVENT_LENGTH cfg
    \<and> (\<forall>(a, evs) \<in> set (ce_events e). \<forall>v \<in> set evs.
         length (ev_data v) \<le> MAXIMUM_EVENT_LENGTH cfg
         \<and> length (ev_type v) \<le> MAXIMUM_EVENT_NAME_LENGTH cfg)
    \<and> mn_value (ce_contractDeployDepth e) \<le> int (MAXIMUM_DEPLOYMENT_DEPTH cfg)
    \<and> mn_value (ce_contractUpdateDepth e) \<le> int (MAXIMUM_UPDATE_DEPTH cfg)"
  using reachable_inv [OF assms]
  by (auto simp: evaluation_inv_def events_ok_def event_ok_def events_bytes_def depths_ok_def)

theorem reachable_evaluation_limits_witness:
  "\<exists>e. evaluation_reachable AList.update (\<lambda>_. None) (\<lambda>_. None) Roswell_GAS Roswell_TRANSACTIONS e
     \<and> length (ce_events e) = 1 \<and> ce_totalEventSize e = 2
     \<and> mn_value (ce_contractDeployDepth e) \<le> 2"
proof -
  let ?new = "ContractEvaluation_new AList.update (\<lambda>_. None) (\<lambda>_. None) Roswell_TRANSACTIONS sample_params"
  let ?event = "\<lparr>ev_type = ''Transferred'', ev_data = [1, 2]\<rparr>"
  have new: "\<exists>e. ?new = Inr e"
    by (simp add: ContractEvaluation_new_def evaluation_of_params_def sample_params_def
        incrementContractDeployDepth_def Roswell_TRANSACTIONS_def MutableNumber_new_def
        touchAddress_def Let_def)
  then obtain e where e: "?new = Inr e" by blast
  have reach: "evaluation_reachable AList.update (\<lambda>_. None) (\<lambda>_. None) Roswell_GAS Roswell_TRANSACTIONS e"
    using e by (rule evaluation_reachable.first_call) (simp_all add: sample_params_def)
  have fields: "ce_events e = []" "ce_totalEventSize e = 0"
    using e by (auto simp: ContractEvaluation_new_def evaluation_of_params_def sample_params_def
        incrementContractDeployDepth_def MutableNumber_new_def touchAddress_def Let_def split: if_splits)
  have "\<exists>e'. emitEvent Roswell_TRANSACTIONS e ?event = Inr e'
      \<and> length (ce_events e') = 1 \<and> ce_totalEventSize e' = 2"
    by (simp add: emitEvent_def enforceEventLimits_def setTotalEventSize_def fields
        Roswell_TRANSACTIONS_def Let_def)
  then obtain e' where e': "emitEvent Roswell_TRANSACTIONS e ?event = Inr e'"
      "length (ce_events e') = 1" "ce_totalEventSize e' = 2" by blast
  from reach e'(1) have "evaluation_reachable AList.update (\<lambda>_. None) (\<lambda>_. None) Roswell_GAS
      Roswell_TRANSACTIONS e'" by (rule evaluation_reachable.emit)
  with reachable_evaluation_limits [OF this] e' show ?thesis
    by (auto simp: Roswell_TRANSACTIONS_def)
qed

text \<open>
  C21: a contract reads its own writes, over the preloaded values, and \<open>setResult\<close> publishes exactly
  the last write of each pointer on top of the changes recorded before, for its own address and no
  other.
\<close>

theorem storage_writes_published:
  fixes ws :: pointer_entries
  assumes put: "pointer_storage put"
    and store: "js_map_ok (ce_storage e)" "\<forall>(a, es) \<in> set (ce_storage e). js_map_ok es"
    and modified: "modified_ok e"
  defines "e' \<equiv> fold (\<lambda>(p, v) e. setStorage put e p v) ws e"
  shows "getStorage e' = getStorage e ++ map_of (rev ws)
    \<and> modified_at (setResult e' r) (ce_contractAddress e)
        = modified_at e (ce_contractAddress e) ++ entries_at (ce_storage e) (ce_contractAddress e)
            ++ map_of (rev ws)
    \<and> (\<forall>b. b \<noteq> ce_contractAddress e \<longrightarrow>
         modified_at (setResult e' r) b = modified_at e b ++ entries_at (ce_storage e) b)"
proof -
  have ok: "js_map_ok (ce_storage e')" "\<forall>(a, es) \<in> set (ce_storage e'). js_map_ok es"
    using pointer_storage.all_writes_ok [OF put store] by (simp_all add: e'_def)
  let ?r = "e'\<lparr>ce_result := Some r\<rparr>"
  have m: "modified_at ?r b = modified_at e b" "modified_ok ?r" for b
    using modified fold_setStorage_frame [of put ws e]
    by (simp_all add: fun_eq_iff modified_at_def modified_ok_def e'_def)
  have pub: "modified_at (setResult e' r) b = modified_at e b ++ entries_at (ce_storage e') b" for b
    using mergeStorage_at [OF m(2) ok] m(1) by (simp add: fun_eq_iff setResult_def map_add_def)
  show ?thesis
    using pub entries_at_writes [OF put, of ws e] pointer_storage.getStorage_writes [OF put, of ws e]
    by (simp add: e'_def map_add_assoc)
qed

theorem storage_writes_published_witness:
  "\<exists>e'. e' = fold (\<lambda>(p, v) e. setStorage sorted_put e p v) [(7, 1), (3, 5), (7, 2)]
           (evaluation_of_params sample_params)
     \<and> getStorage e' 7 = Some 2 \<and> modified_at (setResult e' []) ''c'' 7 = Some 2
     \<and> modified_at (setResult e' []) ''d'' 7 = None"
proof -
  let ?e = "evaluation_of_params sample_params"
  have h: "js_map_ok (ce_storage ?e)" "\<forall>(a, es) \<in> set (ce_storage ?e). js_map_ok es"
      "modified_ok ?e" "ce_contractAddress ?e = ''c''" "modified_at ?e ''d'' = Map.empty"
      "entries_at (ce_storage ?e) ''d'' = Map.empty"
    by (simp_all add: evaluation_of_params_def sample_params_def modified_ok_def fun_eq_iff
        modified_at_def entries_at_def)
  show ?thesis
    using storage_writes_published [OF sorted_storage.pointer_storage_axioms h(1-3),
        of "[(7, 1), (3, 5), (7, 2)]" "[]"] h(4-6)
    by (simp add: map_add_def)
qed

text \<open>What an evaluation can go on to do: any sequence of the operations above, with any callees merged.\<close>

inductive evaluation_continues for put gas cfg where
  here: "evaluation_continues put gas cfg e e"
| touch: "evaluation_continues put gas cfg e0 e \<Longrightarrow> evaluation_continues put gas cfg e0 (touchAddress e a b)"
| use_gas: "evaluation_continues put gas cfg e0 e \<Longrightarrow> evaluation_setGasUsed gas e g sg = Inr e' \<Longrightarrow>
    evaluation_continues put gas cfg e0 e'"
| final_gas: "evaluation_continues put gas cfg e0 e \<Longrightarrow> evaluation_setFinalGasUsed e g sg = Inr e' \<Longrightarrow>
    evaluation_continues put gas cfg e0 e'"
| deploy_depth: "evaluation_continues put gas cfg e0 e \<Longrightarrow> incrementContractDeployDepth cfg e = Inr e' \<Longrightarrow>
    evaluation_continues put gas cfg e0 e'"
| update_depth: "evaluation_continues put gas cfg e0 e \<Longrightarrow> incrementContractUpdates cfg e = Inr e' \<Longrightarrow>
    evaluation_continues put gas cfg e0 e'"
| load_mldsa: "evaluation_continues put gas cfg e0 e \<Longrightarrow>
    evaluation_continues put gas cfg e0 (incrementMLDSALoadCounter e)"
| store: "evaluation_continues put gas cfg e0 e \<Longrightarrow> evaluation_continues put gas cfg e0 (setStorage put e p v)"
| preload: "evaluation_continues put gas cfg e0 e \<Longrightarrow> addToStorage put e p v = Inr e' \<Longrightarrow>
    evaluation_continues put gas cfg e0 e'"
| preload_all: "evaluation_continues put gas cfg e0 e \<Longrightarrow>
    evaluation_continues put gas cfg e0 (preloadedStorage put toPointer e st)"
| emit: "evaluation_continues put gas cfg e0 e \<Longrightarrow> emitEvent cfg e event = Inr e' \<Longrightarrow>
    evaluation_continues put gas cfg e0 e'"
| result: "evaluation_continues put gas cfg e0 e \<Longrightarrow> evaluation_continues put gas cfg e0 (setResult e r)"
| deployed: "evaluation_continues put gas cfg e0 e \<Longrightarrow> addContractInformation e c = Inr e' \<Longrightarrow>
    evaluation_continues put gas cfg e0 e'"
| reverted: "evaluation_continues put gas cfg e0 e \<Longrightarrow> evaluation_continues put gas cfg e0 (set_revert toBuffer e msg)"
| merged: "evaluation_continues put gas cfg e0 e \<Longrightarrow> merge gas cfg e extern = Inr e' \<Longrightarrow>
    evaluation_continues put gas cfg e0 e'"

lemma merge_revert: "merge gas cfg e extern = Inr e' \<Longrightarrow> ce_revert e \<noteq> None \<Longrightarrow> ce_revert e' \<noteq> None"
  by (auto simp: merge_def mergeStorage_def Let_def res_bind_Inr_iff dest!: mergeEvents_frame
      split: if_splits sum.splits option.splits)

text \<open>No operation takes a revert back.\<close>

lemma revert_permanent:
  assumes "evaluation_continues put gas cfg e e'" "ce_revert e \<noteq> None"
  shows "ce_revert e' \<noteq> None"
  using assms
proof (induction rule: evaluation_continues.induct)
  case (merged e0 e extern e')
  then show ?case using merge_revert by blast
qed (auto simp: touchAddress_def evaluation_setGasUsed_def evaluation_setFinalGasUsed_def incrementContractDeployDepth_def
      incrementContractUpdates_def incrementMLDSALoadCounter_def setStorage_def addToStorage_def preloadedStorage_def
      emitEvent_def enforceEventLimits_def setTotalEventSize_def setResult_def addContractInformation_def set_revert_def
      mergeStorage_def Let_def res_bind_Inr_iff split: if_splits sum.splits option.splits)

text \<open>
  C31: a reverted callee reverts the transaction, whatever the caller does next. Merging a callee that reverted changes
  of the caller exactly the gas, which becomes the callee's, and the revert reason: storage, events, result, call stack and
  depth counters are those of before the call. From there on no sequence of operations (stores, events, a result,
  deployments, further calls merged with success) gives an evaluation whose result has a storage
  change, an event, a deployed contract or another result than the one byte of a failure.
\<close>

theorem revert_discards_effects:
  assumes "ce_revert extern = Some reason" and "merge gas cfg e extern = Inr e1"
    and "evaluation_continues put gas cfg e1 e2"
  shows "(\<exists>t. e1 = e\<lparr>ce_gasTracker := t, ce_revert := Some reason\<rparr> \<and> gt_gasUsed t = gt_gasUsed (ce_gasTracker extern))
    \<and> er_revert (getEvaluationResult e2) \<noteq> None \<and> er_changedStorage (getEvaluationResult e2) = Some []
    \<and> er_events (getEvaluationResult e2) = [] \<and> er_deployedContracts (getEvaluationResult e2) = []
    \<and> er_result (getEvaluationResult e2) = Some [0]"
proof -
  have frame: "\<exists>t. e1 = e\<lparr>ce_gasTracker := t, ce_revert := Some reason\<rparr> \<and> gt_gasUsed t = gt_gasUsed (ce_gasTracker extern)"
    using assms(1,2) by (auto simp: merge_def setGasUsed_def countGas_def Let_def split: if_splits sum.splits)
  then have "ce_revert e1 \<noteq> None" by auto
  with assms(3) have "ce_revert e2 \<noteq> None" by (rule revert_permanent)
  with frame show ?thesis by (auto simp: getEvaluationResult_def Let_def)
qed

theorem revert_discards_effects_witness:
  "\<exists>e1. merge Roswell_GAS Roswell_TRANSACTIONS (evaluation_of_params sample_params)
           (set_revert (\<lambda>m. [1, 2]) (evaluation_of_params sample_params) ''out of gas'') = Inr e1
     \<and> er_changedStorage (getEvaluationResult (setResult (setStorage AList.update e1 7 9) [5])) = Some []
     \<and> er_result (getEvaluationResult (setResult (setStorage AList.update e1 7 9) [5])) = Some [0]"
proof -
  let ?e = "evaluation_of_params sample_params"
  let ?x = "set_revert (\<lambda>m. [1, 2]) ?e ''out of gas''"
  have x: "ce_revert ?x = Some [1, 2]" by (simp add: set_revert_def Let_def)
  have "\<exists>e'. merge Roswell_GAS Roswell_TRANSACTIONS ?e ?x = Inr e'"
    by (simp add: merge_def set_revert_def evaluation_of_params_def sample_params_def setGasUsed_def
        countGas_def maxGasVM_def GasTracker_new_def gas_cap_def Roswell_GAS_def is_free_contract_def
        Let_def)
  then obtain e1 where e1: "merge Roswell_GAS Roswell_TRANSACTIONS ?e ?x = Inr e1" by blast
  have "evaluation_continues AList.update Roswell_GAS Roswell_TRANSACTIONS e1 (setResult (setStorage AList.update e1 7 9) [5])"
    by (intro evaluation_continues.result evaluation_continues.store evaluation_continues.here)
  from revert_discards_effects [OF x e1 this] e1 show ?thesis by blast
qed

text \<open>
  the reentrancy guard cannot be switched on as written. The constructor pushes the contract's
  address on the shared call stack and nothing pops it, so the stack a callee returns always holds
  the caller's address: with \<open>REENTRANCY_GUARD\<close> set, merging any callee that did not revert, of a
  caller that has run its constructor, throws; with the guard off the same merge can succeed.
\<close>

theorem reentrancy_guard_rejects_every_call:
  assumes caller: "ContractEvaluation_new put fromString fromBase64 cfg params = Inr e"
    and callee: "as_items (ce_callStack extern) = as_items (ce_callStack e) @ pushed"
    and no_revert: "ce_revert extern = None"
    and guard: "REENTRANCY_GUARD cfg"
  shows "\<exists>err. merge gas cfg e extern = Inl err"
proof -
  from caller have "ce_contractAddress e \<in> set (as_items (ce_callStack e))"
    by (rule new_steps) (simp add: touchAddress_def)
  with callee have "\<exists>err. checkReentrancy (e\<lparr>ce_gasTracker := t, ce_callStack := ce_callStack extern\<rparr>)
      = Inl err" for t
    by (simp add: checkReentrancy_def AddressStack_includes_def)
  then show ?thesis
    using no_revert guard
    by (auto simp: merge_def res_bind_Inl_iff Let_def split: sum.splits)
qed

theorem reentrancy_guard_rejects_every_call_witness:
  "\<exists>e err. ContractEvaluation_new AList.update (\<lambda>_. None) (\<lambda>_. None)
             (Roswell_TRANSACTIONS\<lparr>REENTRANCY_GUARD := True\<rparr>) sample_params = Inr e
     \<and> merge Roswell_GAS (Roswell_TRANSACTIONS\<lparr>REENTRANCY_GUARD := True\<rparr>) e
         (e\<lparr>ce_contractAddress := ''d'', ce_callStack := \<lparr>as_items = [''c'', ''d'']\<rparr>\<rparr>) = Inl err"
proof -
  let ?cfg = "Roswell_TRANSACTIONS\<lparr>REENTRANCY_GUARD := True\<rparr>"
  have "\<exists>e. ContractEvaluation_new AList.update (\<lambda>_. None) (\<lambda>_. None) ?cfg sample_params = Inr e
      \<and> as_items (ce_callStack e) = [''c''] \<and> ce_revert e = None"
    by (simp add: ContractEvaluation_new_def evaluation_of_params_def sample_params_def
        incrementContractDeployDepth_def Roswell_TRANSACTIONS_def MutableNumber_new_def
        touchAddress_def AddressStack_push_def Let_def)
  then obtain e where e: "ContractEvaluation_new AList.update (\<lambda>_. None) (\<lambda>_. None) ?cfg sample_params
      = Inr e" "as_items (ce_callStack e) = [''c'']" "ce_revert e = None" by blast
  let ?x = "e\<lparr>ce_contractAddress := ''d'', ce_callStack := \<lparr>as_items = [''c'', ''d'']\<rparr>\<rparr>"
  have "\<exists>err. merge Roswell_GAS ?cfg e ?x = Inl err"
    by (rule reentrancy_guard_rejects_every_call [OF e(1), where pushed = "[''d'']"])
      (simp_all add: e)
  with e(1) show ?thesis by blast
qed

end
