(* ===== verification/Epoch_Validator.thy ===== *)
theory Epoch_Validator
  imports Consensus_Config
begin

section \<open>Proof of work of the epochs (\<open>src/src/poc/epoch\<close>)\<close>

text \<open>
  \<open>EpochValidator\<close> and \<open>EpochDifficultyConverter\<close>: a miner submits a salt for its key, the preimage is
  the exclusive or of the epoch's checksum root, the key and the salt, and its difficulty is the
  number of leading bits its SHA-1 shares with the SHA-1 of the checksum root.

  SHA-1 (the runtime's) and \<open>fromHex\<close> (a package's, \<^const>\<open>None\<close> when it throws) are parameters. The
  database is read through the parameter \<open>headers\<close>, the checksum root of the header of a height. Log
  messages are left out; the messages of the results are a datatype.
\<close>

unbundle bit_operations_syntax

subsection \<open>Matching bits\<close>

text \<open>The inner loop, with \<open>n\<close> bits left to look at: the count, and whether it met a difference.\<close>

fun match_byte :: "nat \<Rightarrow> byte \<Rightarrow> byte \<Rightarrow> nat \<Rightarrow> nat \<times> bool" where
  "match_byte 0 byte1 byte2 m = (m, False)"
| "match_byte (Suc i) byte1 byte2 m =
     (if drop_bit i byte1 AND 1 = drop_bit i byte2 AND 1 then match_byte i byte1 byte2 (m + 1)
      else (m, True))"

fun match_loop :: "bytes \<Rightarrow> bytes \<Rightarrow> nat \<Rightarrow> nat" where
  "match_loop (byte1 # hash1) (byte2 # hash2) m =
     (if byte1 = byte2 then match_loop hash1 hash2 (m + 8)
      else let (m', stop) = match_byte 8 byte1 byte2 m
           in if stop then m' else match_loop hash1 hash2 m')"
| "match_loop _ _ m = m"

definition countMatchingBits :: "bytes \<Rightarrow> bytes \<Rightarrow> nat" where
  "countMatchingBits hash1 hash2 = match_loop hash1 hash2 0"

subsection \<open>The preimage\<close>

definition pad32 :: "bytes \<Rightarrow> bytes" where
  "pad32 bs = (let s = take (min 32 (length bs)) bs in s @ replicate (32 - length s) 0)"

definition calculatePreimage :: "bytes \<Rightarrow> bytes \<Rightarrow> bytes \<Rightarrow> bytes" where
  "calculatePreimage checksumRoot mldsaPublicKey salt =
     (let target32 = pad32 checksumRoot; pubKey32 = pad32 mldsaPublicKey; salt32 = pad32 salt
      in map (\<lambda>i. (target32 ! i XOR pubKey32 ! i) XOR salt32 ! i) [0..<32])"

subsection \<open>Validation\<close>

definition stringToBuffer :: "(string \<Rightarrow> bytes option) \<Rightarrow> string \<Rightarrow> bytes option" where
  "stringToBuffer fromHex str = fromHex (if take 2 str = ''0x'' then drop 2 str else str)"

datatype epoch_error = EpochZero | HeaderNotFound bigint | BadHex | BadRootLength nat
  | EpochNotFound bigint | NoChecksumRoot bigint | InvalidKeyLength | NoWinner | EpochMismatch
  | BadSaltLength nat | TreeFrozen | TreeNotGenerated | BlockNotInEpoch bigint | WinnerNotSet
  | GraffitiTooLong nat | IndexOutOfBounds | EpochHashMissing | InvalidAddress | ReindexInProgress
  | DatabaseError

record PendingTargetEpoch =
  pt_checksumRoot :: bytes
  pt_targetHash :: bytes
  pt_nextEpochNumber :: bigint

definition getEpochData ::
    "EPOCH_config \<Rightarrow> (bytes \<Rightarrow> bytes) \<Rightarrow> (string \<Rightarrow> bytes option) \<Rightarrow> (bigint \<Rightarrow> string option) \<Rightarrow> bigint
     \<Rightarrow> epoch_error + PendingTargetEpoch" where
  "getEpochData cfg sha1 fromHex headers epochNumber =
     (if epochNumber = 0 then Inl EpochZero
      else
        let targetBlockHeight = epochNumber * BLOCKS_PER_EPOCH cfg - 1
        in case headers targetBlockHeight of
             None \<Rightarrow> Inl (HeaderNotFound targetBlockHeight)
           | Some rootHex \<Rightarrow>
               (case stringToBuffer fromHex rootHex of
                  None \<Rightarrow> Inl BadHex
                | Some checksumRoot \<Rightarrow>
                    Inr \<lparr>pt_checksumRoot = checksumRoot, pt_targetHash = sha1 checksumRoot,
                         pt_nextEpochNumber = epochNumber\<rparr>))"

definition getPendingEpochTarget ::
    "EPOCH_config \<Rightarrow> (bytes \<Rightarrow> bytes) \<Rightarrow> (string \<Rightarrow> bytes option) \<Rightarrow> (bigint \<Rightarrow> string option) \<Rightarrow> bigint
     \<Rightarrow> epoch_error + PendingTargetEpoch" where
  "getPendingEpochTarget cfg sha1 fromHex headers currentEpoch =
     (if currentEpoch = 0
      then Inr \<lparr>pt_checksumRoot = replicate 32 0, pt_targetHash = sha1 (replicate 32 0),
                pt_nextEpochNumber = 0\<rparr>
      else getEpochData cfg sha1 fromHex headers currentEpoch)"

record EpochValidationParams =
  vp_epochNumber :: bigint
  vp_checksumRoot :: bytes
  vp_salt :: bytes
  vp_mldsaPublicKey :: bytes

datatype validation_message = ZeroCannotBeMined | WrongEpoch bigint | RootMismatch
  | DifficultyTooLow | ValidSolution | ValidationError epoch_error

record EpochValidationResult =
  vr_valid :: bool
  vr_matchingBits :: nat
  vr_hash :: bytes
  vr_targetPattern :: bytes
  vr_challenge :: bytes
  vr_message :: validation_message

definition refused :: "validation_message \<Rightarrow> EpochValidationResult" where
  "refused msg = \<lparr>vr_valid = False, vr_matchingBits = 0, vr_hash = [], vr_targetPattern = [],
     vr_challenge = [], vr_message = msg\<rparr>"

definition verifyChecksumRoot :: "PendingTargetEpoch \<Rightarrow> bytes \<Rightarrow> bool" where
  "verifyChecksumRoot epoch targetHash \<longleftrightarrow> pt_checksumRoot epoch = targetHash"

definition validateEpochSolution ::
    "EPOCH_config \<Rightarrow> (bytes \<Rightarrow> bytes) \<Rightarrow> (string \<Rightarrow> bytes option) \<Rightarrow> (bigint \<Rightarrow> string option)
     \<Rightarrow> EpochValidationParams \<Rightarrow> bigint \<Rightarrow> nat \<Rightarrow> EpochValidationResult" where
  "validateEpochSolution cfg sha1 fromHex headers params currentHeight minDifficulty =
     (if vp_epochNumber params = 0 then refused ZeroCannotBeMined
      else
        let currentEpoch = bigint_div currentHeight (BLOCKS_PER_EPOCH cfg)
        in if vp_epochNumber params \<noteq> currentEpoch then refused (WrongEpoch currentEpoch)
           else
             (case getEpochData cfg sha1 fromHex headers (vp_epochNumber params) of
                Inl err \<Rightarrow> refused (ValidationError err)
              | Inr epoch \<Rightarrow>
                  if \<not> verifyChecksumRoot epoch (vp_checksumRoot params) then refused RootMismatch
                  else
                    let solution = calculatePreimage (pt_checksumRoot epoch)
                                     (vp_mldsaPublicKey params) (vp_salt params);
                        hash = sha1 solution;
                        matchingBits = countMatchingBits hash (pt_targetHash epoch);
                        valid = (matchingBits \<ge> minDifficulty)
                    in \<lparr>vr_valid = valid, vr_matchingBits = matchingBits, vr_hash = hash,
                        vr_targetPattern = pt_targetHash epoch, vr_challenge = solution,
                        vr_message = (if valid then ValidSolution else DifficultyTooLow)\<rparr>))"

subsection \<open>\<open>EpochDifficultyConverter\<close>\<close>

definition bitsToScaledDifficulty :: "int \<Rightarrow> bigint" where
  "bitsToScaledDifficulty bits = 2 ^ nat (max 0 bits)"

definition formatDifficulty :: "bigint \<Rightarrow> string" where
  "formatDifficulty difficulty =
     (if difficulty < 1000 then bigint_toString difficulty
      else if difficulty < 10 ^ 6 then bigint_toString (bigint_div difficulty (10 ^ 3)) @ ''K''
      else if difficulty < 10 ^ 9 then bigint_toString (bigint_div difficulty (10 ^ 6)) @ ''M''
      else if difficulty < 10 ^ 12 then bigint_toString (bigint_div difficulty (10 ^ 9)) @ ''G''
      else if difficulty < 10 ^ 15 then bigint_toString (bigint_div difficulty (10 ^ 12)) @ ''T''
      else bigint_toString (bigint_div difficulty (10 ^ 15)) @ ''P'')"

subsection \<open>Reference: common prefix of the bit strings\<close>

definition byte_bits :: "byte \<Rightarrow> bool list" where
  "byte_bits b = map (bit b) (rev [0..<8])"

definition bit_string :: "bytes \<Rightarrow> bool list" where
  "bit_string bs = concat (map byte_bits bs)"

fun common_prefix :: "'a list \<Rightarrow> 'a list \<Rightarrow> 'a list" where
  "common_prefix (x # xs) (y # ys) = (if x = y then x # common_prefix xs ys else [])"
| "common_prefix _ _ = []"

lemma bit_eq_shift: "drop_bit i b1 AND 1 = drop_bit i b2 AND 1 \<longleftrightarrow> bit b1 i = bit (b2 :: byte) i"
  for b1 :: byte
  by (simp add: and_one_eq mod2_eq_if bit_iff_odd_drop_bit)

lemma byte_bits_inject [simp]: "byte_bits a = byte_bits b \<longleftrightarrow> a = b"
proof
  assume "byte_bits a = byte_bits b"
  then have "\<forall>n < 8. bit a n = bit b n" by (auto simp: byte_bits_def map_eq_conv)
  then show "a = b" by (intro bit_word_eqI) simp
qed simp

lemma common_prefix_append:
  "length xs = length ys \<Longrightarrow> common_prefix (xs @ us) (ys @ vs)
   = (if xs = ys then xs @ common_prefix us vs else common_prefix xs ys)"
  by (induction xs ys rule: list_induct2) auto

lemma common_prefix_comm: "length (common_prefix xs ys) = length (common_prefix ys xs)"
  by (induction xs ys rule: common_prefix.induct) auto

lemma common_prefix_length: "length (common_prefix xs ys) \<le> min (length xs) (length ys)"
  by (induction xs ys rule: common_prefix.induct) auto

lemma common_prefix_full: "length xs = length ys \<Longrightarrow>
    length (common_prefix xs ys) = length xs \<longleftrightarrow> xs = ys"
proof (induction xs ys rule: list_induct2)
  case (Cons x xs y ys)
  then show ?case by auto
qed simp

lemma length_byte_bits [simp]: "length (byte_bits b) = 8"
  by (simp add: byte_bits_def)

lemma length_bit_string [simp]: "length (bit_string bs) = 8 * length bs"
  by (induction bs) (simp_all add: bit_string_def)

lemma match_byte_prefix:
  "n \<le> 8 \<Longrightarrow> match_byte n b1 b2 m =
     (let xs = map (bit b1) (rev [0..<n]); ys = map (bit b2) (rev [0..<n])
      in (m + length (common_prefix xs ys), xs \<noteq> ys))"
  by (induction n arbitrary: m) (auto simp: bit_eq_shift Let_def simp del: upt_Suc_append)

lemma match_loop_prefix:
  "match_loop h1 h2 m = m + length (common_prefix (bit_string h1) (bit_string h2))"
proof (induction h1 h2 m rule: match_loop.induct)
  case (1 b1 h1 b2 h2 m)
  have split: "common_prefix (bit_string (b1 # h1)) (bit_string (b2 # h2))
      = (if b1 = b2 then byte_bits b1 @ common_prefix (bit_string h1) (bit_string h2)
         else common_prefix (byte_bits b1) (byte_bits b2))"
    using common_prefix_append [of "byte_bits b1" "byte_bits b2"] by (simp add: bit_string_def)
  show ?case
  proof (cases "b1 = b2")
    case True
    with 1(1) split show ?thesis by simp
  next
    case False
    then have "byte_bits b1 \<noteq> byte_bits b2" by simp
    then have "match_byte 8 b1 b2 m = (m + length (common_prefix (byte_bits b1) (byte_bits b2)), True)"
      by (simp add: match_byte_prefix Let_def byte_bits_def del: upt_Suc upt_rec_numeral)
    with False split show ?thesis by simp
  qed
qed (simp_all add: bit_string_def)

lemma countMatchingBits_prefix:
  "countMatchingBits h1 h2 = length (common_prefix (bit_string h1) (bit_string h2))"
  by (simp add: countMatchingBits_def match_loop_prefix)

subsection \<open>Facts on the preimage\<close>

lemma length_pad32 [simp]: "length (pad32 bs) = 32"
  by (simp add: pad32_def Let_def)

lemma pad32_id [simp]: "length bs = 32 \<Longrightarrow> pad32 bs = bs"
  by (simp add: pad32_def)

lemma length_calculatePreimage [simp]: "length (calculatePreimage r k s) = 32"
  by (simp add: calculatePreimage_def Let_def)

lemma nth_calculatePreimage:
  "i < 32 \<Longrightarrow> calculatePreimage r k s ! i = (pad32 r ! i XOR pad32 k ! i) XOR pad32 s ! i"
  by (simp add: calculatePreimage_def Let_def)

lemma xor_cancel: "c XOR a = c XOR b \<longleftrightarrow> a = (b :: byte)"
  by (auto simp: bit_eq_iff bit_simps)

lemma xor_swap_salt: "(a XOR k) XOR ((s XOR k) XOR k') = (a XOR k') XOR (s :: byte)"
  by (auto simp: bit_eq_iff bit_simps)

lemma bitsToScaledDifficulty_ratio:
  assumes "0 \<le> a" "a \<le> b"
  shows "bitsToScaledDifficulty b = 2 ^ nat (b - a) * bitsToScaledDifficulty a"
proof -
  have "nat b = nat (b - a) + nat a" using assms by simp
  then show ?thesis using assms by (simp add: bitsToScaledDifficulty_def flip: power_add)
qed

subsection \<open>Properties\<close>

text \<open>
  the difficulty of a hash is the length of the common prefix of the two bit strings, most
  significant bit first. It is therefore symmetric, at most eight times the shorter length, and for
  hashes of one length it is maximal exactly when they are equal.
\<close>

theorem countMatchingBits_is_common_prefix:
  "countMatchingBits h1 h2 = length (common_prefix (bit_string h1) (bit_string h2))
   \<and> countMatchingBits h1 h2 = countMatchingBits h2 h1
   \<and> countMatchingBits h1 h2 \<le> 8 * min (length h1) (length h2)
   \<and> (countMatchingBits h1 h2 = 8 * length h1 \<and> length h1 = length h2 \<longleftrightarrow> h1 = h2)"
proof -
  have inj: "bit_string h1 = bit_string h2 \<Longrightarrow> length h1 = length h2 \<Longrightarrow> h1 = h2"
  proof (induction h1 arbitrary: h2)
    case (Cons b h1)
    then show ?case by (cases h2) (auto simp: bit_string_def)
  qed simp
  have "countMatchingBits h1 h2 = 8 * length h1 \<longleftrightarrow> bit_string h1 = bit_string h2"
    if "length h1 = length h2"
    using common_prefix_full [of "bit_string h1" "bit_string h2"] that
    by (simp add: countMatchingBits_prefix)
  with inj have "countMatchingBits h1 h2 = 8 * length h1 \<and> length h1 = length h2 \<longleftrightarrow> h1 = h2" by auto
  then show ?thesis
    using common_prefix_comm [of "bit_string h1" "bit_string h2"]
      common_prefix_length [of "bit_string h1" "bit_string h2"]
    by (auto simp: countMatchingBits_prefix min_def)
qed

text \<open>
  a preimage has 32 bytes and, for one root and one key of 32 bytes, different salts of 32 bytes
  have different preimages; but it does not bind the key: for any other key there is a salt of 32
  bytes that gives the same preimage, so the same hash and the same difficulty.
\<close>

theorem calculatePreimage_salt_and_key:
  assumes "length key = 32" "length key' = 32" "length salt = 32" "length salt' = 32"
  shows "length (calculatePreimage checksumRoot key salt) = 32
    \<and> (calculatePreimage checksumRoot key salt = calculatePreimage checksumRoot key salt'
        \<longleftrightarrow> salt = salt')
    \<and> (\<exists>other. length other = 32
         \<and> calculatePreimage checksumRoot key' other = calculatePreimage checksumRoot key salt)"
proof -
  have inj: "salt = salt'"
    if eq: "calculatePreimage checksumRoot key salt = calculatePreimage checksumRoot key salt'"
  proof (rule nth_equalityI)
    fix i assume "i < length salt"
    with assms have i: "i < 32" by simp
    from eq have "calculatePreimage checksumRoot key salt ! i = calculatePreimage checksumRoot key salt' ! i"
      by simp
    with i assms have "(pad32 checksumRoot ! i XOR key ! i) XOR salt ! i
        = (pad32 checksumRoot ! i XOR key ! i) XOR salt' ! i"
      by (simp add: nth_calculatePreimage)
    then show "salt ! i = salt' ! i" by (simp only: xor_cancel)
  qed (use assms in simp)
  let ?other = "map (\<lambda>i. (salt ! i XOR key' ! i) XOR key ! i) [0..<32]"
  have "calculatePreimage checksumRoot key' ?other = calculatePreimage checksumRoot key salt"
    by (rule nth_equalityI) (use assms in \<open>simp_all add: nth_calculatePreimage xor_swap_salt\<close>)
  then have "\<exists>other. length other = 32
      \<and> calculatePreimage checksumRoot key' other = calculatePreimage checksumRoot key salt"
    by (intro exI [of _ ?other]) simp
  with inj show ?thesis by auto
qed

theorem calculatePreimage_salt_and_key_witness:
  "\<exists>other. length other = 32
     \<and> calculatePreimage [1, 2] (replicate 32 9) other = calculatePreimage [1, 2] (replicate 32 7) (replicate 32 5)"
  using calculatePreimage_salt_and_key
    [of "replicate 32 7" "replicate 32 9" "replicate 32 5" "replicate 32 6" "[1, 2]"]
  by simp

text \<open>
  a solution is accepted exactly when it is for the epoch of the current height, that epoch is
  not the first, the header of the last block of the epoch before it is known and carries the
  claimed checksum root, and the hash of the preimage reaches the minimum difficulty.
\<close>

theorem validateEpochSolution_valid_iff:
  assumes "0 < BLOCKS_PER_EPOCH cfg" "0 \<le> height"
  shows "vr_valid (validateEpochSolution cfg sha1 fromHex headers params height minDifficulty) \<longleftrightarrow>
    vp_epochNumber params = height div BLOCKS_PER_EPOCH cfg \<and> vp_epochNumber params \<noteq> 0
    \<and> (\<exists>hex. headers (vp_epochNumber params * BLOCKS_PER_EPOCH cfg - 1) = Some hex
          \<and> stringToBuffer fromHex hex = Some (vp_checksumRoot params))
    \<and> minDifficulty \<le> countMatchingBits
         (sha1 (calculatePreimage (vp_checksumRoot params) (vp_mldsaPublicKey params) (vp_salt params)))
         (sha1 (vp_checksumRoot params))"
proof -
  have "bigint_div height (BLOCKS_PER_EPOCH cfg) = height div BLOCKS_PER_EPOCH cfg"
    using assms by simp
  then show ?thesis
    by (auto simp: validateEpochSolution_def refused_def getEpochData_def verifyChecksumRoot_def
        Let_def split: option.splits)
qed

theorem validateEpochSolution_valid_iff_witness:
  "\<not> vr_valid (validateEpochSolution Roswell_EPOCH (\<lambda>x. x) (\<lambda>_. None) (\<lambda>_. None)
       \<lparr>vp_epochNumber = 2, vp_checksumRoot = [], vp_salt = [], vp_mldsaPublicKey = []\<rparr> 12 20)
   \<and> vr_valid (validateEpochSolution Roswell_EPOCH (\<lambda>x. take 20 x) (\<lambda>_. Some (replicate 32 1))
       (\<lambda>h. if h = 9 then Some ''0x01'' else None)
       \<lparr>vp_epochNumber = 2, vp_checksumRoot = replicate 32 1, vp_salt = replicate 32 3,
        vp_mldsaPublicKey = replicate 32 3\<rparr> 12 20)"
proof -
  have pos: "0 < BLOCKS_PER_EPOCH Roswell_EPOCH" and b: "BLOCKS_PER_EPOCH Roswell_EPOCH = 5"
    by (simp_all add: Roswell_EPOCH_def)
  have pre: "calculatePreimage (replicate 32 1) (replicate 32 3) (replicate 32 3) = replicate 32 1"
    by (rule nth_equalityI) (simp_all add: nth_calculatePreimage)
  have "countMatchingBits (replicate 20 1) (replicate 20 1) = 160"
    using common_prefix_full [of "bit_string (replicate 20 1)" "bit_string (replicate 20 1)"]
    by (simp add: countMatchingBits_prefix)
  then show ?thesis
    using validateEpochSolution_valid_iff [OF pos, of 12] by (simp add: b pre stringToBuffer_def)
qed

end
