(* ===== verification/Epoch_Merkle.thy ===== *)
theory Epoch_Merkle
  imports Epoch_Validator
begin

section \<open>The Merkle tree of an epoch (\<open>EpochMerkleTree\<close>)\<close>

text \<open>
  \<open>src/src/blockchain-indexer/processor/block/merkle/EpochMerkleTree.ts\<close>: the leaves of an epoch are
  the encoding of the epoch's data followed by the encodings of its attestations; the tree is built
  when the epoch is frozen, and an export carries a proof for every leaf.

  The Merkle tree itself, the byte writer, the hexadecimal converters, \<open>Address\<close> and the hash
  functions come from packages. They are the fields of \<open>externals\<close>; \<open>externals_ok\<close> states the
  documented behaviour the code relies on. A built tree is the list of leaves it was built from. The
  time of an export is left out.
\<close>

record externals =
  x_sha1 :: "bytes \<Rightarrow> bytes"
  x_sha256 :: "bytes \<Rightarrow> bytes"
  x_fromHex :: "string \<Rightarrow> bytes option"
  x_toHex :: "bytes \<Rightarrow> string"
  x_writeU8 :: "nat \<Rightarrow> bytes"
  x_writeU16 :: "nat \<Rightarrow> bytes"
  x_writeU64 :: "bigint \<Rightarrow> bytes"
  x_writeAddress :: "address \<Rightarrow> bytes"
  x_root :: "bytes list \<Rightarrow> bytes"
  x_rootHex :: "bytes list \<Rightarrow> string"
  x_proof :: "bytes list \<Rightarrow> bytes \<Rightarrow> bytes list option"
  x_hash :: "bytes \<Rightarrow> bytes"
  x_verify :: "bytes list \<Rightarrow> bytes \<Rightarrow> bytes \<Rightarrow> bool"
  x_verifyData :: "bytes list \<Rightarrow> bytes \<Rightarrow> bytes \<Rightarrow> bool"
  x_rootHexOf :: "bytes list \<Rightarrow> bytes \<Rightarrow> string"
  x_chainId :: bytes
  x_protocolId :: bytes
  x_dead :: address
  x_deadKey :: bytes
  x_deadLegacyKey :: bytes
  x_address :: "bytes \<Rightarrow> address option"

subsection \<open>Data\<close>

datatype AttestationType = BLOCK_WITNESS | EMPTY_ATTESTATION

fun attestation_code :: "AttestationType \<Rightarrow> nat" where
  "attestation_code BLOCK_WITNESS = 0"
| "attestation_code EMPTY_ATTESTATION = 1"

record Attestation =
  at_type :: AttestationType
  at_blockNumber :: bigint
  at_checksumRoot :: bytes
  at_signature :: bytes
  at_timestamp :: int
  at_publicKey :: address

record EpochSubmissionWinner =
  ew_epochNumber :: bigint
  ew_matchingBits :: nat
  ew_salt :: bytes
  ew_mldsaPublicKey :: bytes
  ew_legacyPublicKey :: bytes
  ew_solutionHash :: bytes
  ew_graffiti :: bytes

record EpochData =
  ed_epochNumber :: bigint
  ed_startBlock :: bigint
  ed_endBlock :: bigint
  ed_checksumRoot :: bytes
  ed_previousEpochHash :: bytes
  ed_attestedEpochNumber :: bigint
  ed_attestedChecksumRoot :: bytes
  ed_winner :: "EpochSubmissionWinner option"

record winner_proof =
  wp_mldsaPublicKey :: string
  wp_legacyPublicKey :: string
  wp_matchingBits :: nat
  wp_salt :: string
  wp_solutionHash :: string
  wp_graffiti :: string

record EpochDataProof =
  ep_epochNumber :: bigint
  ep_startBlock :: bigint
  ep_endBlock :: bigint
  ep_checksumRoot :: string
  ep_previousEpochHash :: string
  ep_attestedEpochNumber :: bigint
  ep_attestedChecksumRoot :: string
  ep_winner :: "winner_proof option"
  ep_proof :: "bytes list"
  ep_leafHash :: string

record AttestationProof =
  ap_type :: AttestationType
  ap_blockNumber :: bigint
  ap_checksumRoot :: string
  ap_signature :: bytes
  ap_timestamp :: int
  ap_publicKey :: address
  ap_proofs :: "bytes list"
  ap_leafHash :: string
  ap_index :: nat

record CompleteEpochMerkleTreeExport =
  ex_root :: string
  ex_hash :: string
  ex_epoch :: EpochDataProof
  ex_attestations :: "AttestationProof list"
  ex_leafCount :: nat

record EpochTreeVerification =
  tv_root :: string
  tv_epochValid :: bool
  tv_epochRoot :: string
  tv_attestations :: "(AttestationProof \<times> bool \<times> string) list"
  tv_allValid :: bool
  tv_validCount :: nat
  tv_totalCount :: nat

record EpochMerkleTree =
  em_tree :: "bytes list option"
  em_attestations :: "Attestation list"
  em_epochData :: EpochData
  em_epochBytes :: "bytes option"
  em_frozen :: bool
  em_maxAttestations :: nat
  em_epochHash :: "bytes option"

definition EpochMerkleTree_new :: "EpochData \<Rightarrow> nat \<Rightarrow> EpochMerkleTree" where
  "EpochMerkleTree_new d maxAttestations =
     \<lparr>em_tree = None, em_attestations = [], em_epochData = d, em_epochBytes = None,
      em_frozen = False, em_maxAttestations = maxAttestations, em_epochHash = None\<rparr>"

subsection \<open>Encodings\<close>

definition attestationToBytes :: "externals \<Rightarrow> Attestation \<Rightarrow> bytes" where
  "attestationToBytes X a =
     x_writeU8 X (attestation_code (at_type a)) @ x_writeU64 X (at_blockNumber a)
     @ at_checksumRoot a @ at_signature a @ x_writeU64 X (at_timestamp a)
     @ x_writeAddress X (at_publicKey a)"

definition resizedGraffiti :: "nat \<Rightarrow> bytes \<Rightarrow> bytes" where
  "resizedGraffiti len g = (let s = take (min (length g) len) g in s @ replicate (len - length s) 0)"

definition epochDataToBytes :: "externals \<Rightarrow> EPOCH_config \<Rightarrow> EpochData \<Rightarrow> epoch_error + bytes" where
  "epochDataToBytes X cfg d =
     (let base = x_chainId X @ x_protocolId X @ x_writeU64 X (ed_epochNumber d)
            @ x_writeU64 X (ed_startBlock d) @ x_writeU64 X (ed_endBlock d) @ ed_checksumRoot d
            @ ed_previousEpochHash d @ x_writeU64 X (ed_attestedEpochNumber d)
            @ ed_attestedChecksumRoot d
      in case ed_winner d of
           None \<Rightarrow> Inl WinnerNotSet
         | Some w \<Rightarrow>
             if length (ew_graffiti w) > GRAFFITI_LENGTH cfg
             then Inl (GraffitiTooLong (length (ew_graffiti w)))
             else Inr (base @ ew_mldsaPublicKey w @ ew_legacyPublicKey w
                    @ x_writeU16 X (ew_matchingBits w mod 2 ^ 16) @ ew_salt w @ ew_solutionHash w
                    @ resizedGraffiti (GRAFFITI_LENGTH cfg) (ew_graffiti w)))"

subsection \<open>Building the tree\<close>

definition setWinner ::
    "EpochMerkleTree \<Rightarrow> EpochSubmissionWinner \<Rightarrow> epoch_error + EpochMerkleTree" where
  "setWinner t w =
     (if em_frozen t then Inl TreeFrozen
      else Inr (t\<lparr>em_epochData := (em_epochData t)\<lparr>ed_winner := Some w\<rparr>\<rparr>))"

definition addBlockAttestation ::
    "EpochMerkleTree \<Rightarrow> Attestation \<Rightarrow> epoch_error + EpochMerkleTree" where
  "addBlockAttestation t a =
     (if em_frozen t then Inl TreeFrozen
      else if at_blockNumber a < ed_startBlock (em_epochData t)
              \<or> at_blockNumber a > ed_endBlock (em_epochData t)
      then Inl (BlockNotInEpoch (at_blockNumber a))
      else Inr (t\<lparr>em_attestations := em_attestations t @ [a\<lparr>at_type := BLOCK_WITNESS\<rparr>]\<rparr>))"

definition ZERO_HASH :: string where
  "ZERO_HASH = ''0x'' @ replicate 64 (CHR ''0'')"

text \<open>\<open>fromHex\<close> is applied to the constant as it stands.\<close>

definition addDummyAttestations ::
    "externals \<Rightarrow> EpochMerkleTree \<Rightarrow> epoch_error + EpochMerkleTree" where
  "addDummyAttestations X t =
     (case x_fromHex X ZERO_HASH of
        None \<Rightarrow> Inl BadHex
      | Some zero \<Rightarrow>
          let d1 = \<lparr>at_type = EMPTY_ATTESTATION, at_blockNumber = ed_startBlock (em_epochData t),
                    at_checksumRoot = zero, at_signature = replicate 64 0, at_timestamp = 0,
                    at_publicKey = x_dead X\<rparr>;
              d2 = \<lparr>at_type = EMPTY_ATTESTATION, at_blockNumber = ed_endBlock (em_epochData t) - 1,
                    at_checksumRoot = zero, at_signature = replicate 64 1, at_timestamp = 1,
                    at_publicKey = x_dead X\<rparr>
          in Inr (t\<lparr>em_attestations := em_attestations t @ [d1, d2]\<rparr>))"

definition generateTree ::
    "externals \<Rightarrow> EPOCH_config \<Rightarrow> EpochMerkleTree \<Rightarrow> epoch_error + EpochMerkleTree" where
  "generateTree X cfg t =
     (if em_frozen t then Inl TreeFrozen
      else res_bind (if length (em_attestations t) < 2 then addDummyAttestations X t else Inr t) (\<lambda>t1.
        let atts = sort_key (\<lambda>a. - at_timestamp a) (em_attestations t1);
            t2 = t1\<lparr>em_attestations := atts\<rparr>;
            selected = take (em_maxAttestations t2) (em_attestations t2)
        in res_bind (epochDataToBytes X cfg (em_epochData t2)) (\<lambda>bs.
             Inr (t2\<lparr>em_epochBytes := Some bs, em_epochHash := Some (x_sha256 X bs),
                     em_tree := Some (bs # map (attestationToBytes X) selected)\<rparr>))))"

definition freeze :: "externals \<Rightarrow> EPOCH_config \<Rightarrow> EpochMerkleTree \<Rightarrow> epoch_error + EpochMerkleTree" where
  "freeze X cfg t = res_bind (generateTree X cfg t) (\<lambda>t'. Inr (t'\<lparr>em_frozen := True\<rparr>))"

subsection \<open>Reading the tree\<close>

definition tree_leaves :: "EpochMerkleTree \<Rightarrow> epoch_error + bytes list" where
  "tree_leaves t = (case em_tree t of None \<Rightarrow> Inl TreeNotGenerated | Some leaves \<Rightarrow> Inr leaves)"

definition rootBuffer :: "externals \<Rightarrow> EpochMerkleTree \<Rightarrow> epoch_error + bytes" where
  "rootBuffer X t = res_bind (tree_leaves t) (\<lambda>leaves. Inr (x_root X leaves))"

definition epochHash :: "EpochMerkleTree \<Rightarrow> epoch_error + bytes" where
  "epochHash t = (case em_epochHash t of None \<Rightarrow> Inl EpochHashMissing | Some h \<Rightarrow> Inr h)"

definition leaf_proof :: "externals \<Rightarrow> bytes list \<Rightarrow> bytes \<Rightarrow> epoch_error + bytes list" where
  "leaf_proof X leaves d = (case x_proof X leaves d of None \<Rightarrow> Inl IndexOutOfBounds | Some p \<Rightarrow> Inr p)"

definition getProof :: "externals \<Rightarrow> EpochMerkleTree \<Rightarrow> nat \<Rightarrow> epoch_error + bytes list" where
  "getProof X t i =
     res_bind (tree_leaves t) (\<lambda>leaves.
       if i \<ge> length (em_attestations t) then Inl IndexOutOfBounds
       else leaf_proof X leaves (attestationToBytes X (em_attestations t ! i)))"

definition getEpochDataProof :: "externals \<Rightarrow> EpochMerkleTree \<Rightarrow> bytes option \<Rightarrow> epoch_error + bytes list" where
  "getEpochDataProof X t bs =
     (case bs of
        None \<Rightarrow> Inl WinnerNotSet
      | Some b \<Rightarrow> res_bind (tree_leaves t) (\<lambda>leaves. leaf_proof X leaves b))"

definition EpochMerkleTree_getEpochData ::
    "externals \<Rightarrow> EPOCH_config \<Rightarrow> EpochMerkleTree \<Rightarrow> epoch_error + EpochDataProof" where
  "EpochMerkleTree_getEpochData X cfg t =
     res_bind (tree_leaves t) (\<lambda>leaves.
     res_bind (case em_epochBytes t of Some b \<Rightarrow> Inr b | None \<Rightarrow> epochDataToBytes X cfg (em_epochData t)) (\<lambda>bs.
     res_bind (getEpochDataProof X t (Some bs)) (\<lambda>proof.
       let d = em_epochData t in
       Inr \<lparr>ep_epochNumber = ed_epochNumber d, ep_startBlock = ed_startBlock d,
            ep_endBlock = ed_endBlock d, ep_checksumRoot = x_toHex X (ed_checksumRoot d),
            ep_previousEpochHash = x_toHex X (ed_previousEpochHash d),
            ep_attestedEpochNumber = ed_attestedEpochNumber d,
            ep_attestedChecksumRoot = x_toHex X (ed_attestedChecksumRoot d),
            ep_winner = map_option (\<lambda>w.
              \<lparr>wp_mldsaPublicKey = x_toHex X (ew_mldsaPublicKey w),
               wp_legacyPublicKey = x_toHex X (ew_legacyPublicKey w),
               wp_matchingBits = ew_matchingBits w, wp_salt = x_toHex X (ew_salt w),
               wp_solutionHash = x_toHex X (ew_solutionHash w),
               wp_graffiti = x_toHex X (ew_graffiti w)\<rparr>) (ed_winner d),
            ep_proof = proof, ep_leafHash = ''0x'' @ x_toHex X (x_hash X bs)\<rparr>)))"

definition getAttestationProofs ::
    "externals \<Rightarrow> EpochMerkleTree \<Rightarrow> nat \<Rightarrow> epoch_error + AttestationProof" where
  "getAttestationProofs X t i =
     res_bind (tree_leaves t) (\<lambda>leaves.
       if i \<ge> length (em_attestations t) then Inl IndexOutOfBounds
       else
         let a = em_attestations t ! i in
         res_bind (getProof X t i) (\<lambda>proof.
           Inr \<lparr>ap_type = at_type a, ap_blockNumber = at_blockNumber a,
                ap_checksumRoot = x_toHex X (at_checksumRoot a), ap_signature = at_signature a,
                ap_timestamp = at_timestamp a, ap_publicKey = at_publicKey a, ap_proofs = proof,
                ap_leafHash = ''0x'' @ x_toHex X (x_hash X (attestationToBytes X a)),
                ap_index = i\<rparr>))"

definition getAllAttestationProofs ::
    "externals \<Rightarrow> EpochMerkleTree \<Rightarrow> epoch_error + AttestationProof list" where
  "getAllAttestationProofs X t =
     res_bind (tree_leaves t) (\<lambda>leaves.
       res_fold (\<lambda>i acc. res_bind (getAttestationProofs X t i) (\<lambda>p. Inr (acc @ [p])))
         [0..<length (em_attestations t)] [])"

definition export :: "externals \<Rightarrow> EPOCH_config \<Rightarrow> EpochMerkleTree \<Rightarrow> epoch_error + CompleteEpochMerkleTreeExport" where
  "export X cfg t =
     res_bind (tree_leaves t) (\<lambda>leaves.
     res_bind (epochHash t) (\<lambda>h.
     res_bind (EpochMerkleTree_getEpochData X cfg t) (\<lambda>epoch.
     res_bind (getAllAttestationProofs X t) (\<lambda>atts.
       Inr \<lparr>ex_root = x_rootHex X leaves, ex_hash = ''0x'' @ x_toHex X h, ex_epoch = epoch,
            ex_attestations = atts, ex_leafCount = length (em_attestations t) + 1\<rparr>))))"

subsection \<open>Verifying an export\<close>

definition verifyAttestation :: "externals \<Rightarrow> bytes \<Rightarrow> Attestation \<Rightarrow> bytes list \<Rightarrow> bool" where
  "verifyAttestation X r a proof = x_verify X proof r (x_hash X (attestationToBytes X a))"

definition verifyEpochData :: "externals \<Rightarrow> bytes \<Rightarrow> bytes list \<Rightarrow> bytes \<Rightarrow> bool" where
  "verifyEpochData X r proofs d = x_verifyData X proofs r d"

definition hex_or :: "externals \<Rightarrow> string \<Rightarrow> epoch_error + bytes" where
  "hex_or X s = (case stringToBuffer (x_fromHex X) s of None \<Rightarrow> Inl BadHex | Some b \<Rightarrow> Inr b)"

definition hex_plain :: "externals \<Rightarrow> string \<Rightarrow> epoch_error + bytes" where
  "hex_plain X s = (case x_fromHex X s of None \<Rightarrow> Inl BadHex | Some b \<Rightarrow> Inr b)"

definition verify_package ::
    "externals \<Rightarrow> bytes \<Rightarrow> AttestationProof \<Rightarrow> epoch_error + (AttestationProof \<times> bool \<times> string)" where
  "verify_package X r p =
     res_bind (hex_or X (ap_checksumRoot p)) (\<lambda>cr.
       let a = \<lparr>at_type = ap_type p, at_blockNumber = ap_blockNumber p, at_checksumRoot = cr,
                at_signature = ap_signature p, at_timestamp = ap_timestamp p,
                at_publicKey = ap_publicKey p\<rparr>;
           isValid = verifyAttestation X r a (ap_proofs p)
       in res_bind (hex_or X (ap_leafHash p)) (\<lambda>lh.
            Inr (p, isValid, x_rootHexOf X (ap_proofs p) lh)))"

definition export_epochData :: "externals \<Rightarrow> EpochDataProof \<Rightarrow> winner_proof \<Rightarrow> epoch_error + EpochData" where
  "export_epochData X e w =
     res_bind (hex_or X (ep_attestedChecksumRoot e)) (\<lambda>acr.
     res_bind (hex_or X (ep_checksumRoot e)) (\<lambda>cr.
     res_bind (hex_or X (ep_previousEpochHash e)) (\<lambda>prev.
     res_bind (hex_or X (wp_salt w)) (\<lambda>salt.
     res_bind (hex_plain X (wp_mldsaPublicKey w)) (\<lambda>key.
     res_bind (hex_plain X (wp_legacyPublicKey w)) (\<lambda>legacy.
     res_bind (hex_or X (wp_solutionHash w)) (\<lambda>sol.
     res_bind (hex_plain X (wp_graffiti w)) (\<lambda>graffiti.
       Inr \<lparr>ed_epochNumber = ep_epochNumber e, ed_startBlock = ep_startBlock e,
            ed_endBlock = ep_endBlock e, ed_checksumRoot = cr, ed_previousEpochHash = prev,
            ed_attestedEpochNumber = ep_attestedEpochNumber e, ed_attestedChecksumRoot = acr,
            ed_winner = Some \<lparr>ew_epochNumber = ep_epochNumber e,
              ew_matchingBits = wp_matchingBits w, ew_salt = salt, ew_mldsaPublicKey = key,
              ew_legacyPublicKey = legacy, ew_solutionHash = sol, ew_graffiti = graffiti\<rparr>\<rparr>))))))))"

definition EpochMerkleTree_verify ::
    "externals \<Rightarrow> EPOCH_config \<Rightarrow> CompleteEpochMerkleTreeExport \<Rightarrow> epoch_error + EpochTreeVerification" where
  "EpochMerkleTree_verify X cfg ex =
     res_bind (hex_or X (ex_root ex)) (\<lambda>r.
       case ep_winner (ex_epoch ex) of
         None \<Rightarrow> Inl WinnerNotSet
       | Some w \<Rightarrow>
           res_bind (export_epochData X (ex_epoch ex) w) (\<lambda>d.
           res_bind (epochDataToBytes X cfg d) (\<lambda>bs.
             let epochDataValid = verifyEpochData X r (ep_proof (ex_epoch ex)) bs in
             res_bind (hex_or X (ep_leafHash (ex_epoch ex))) (\<lambda>lh.
               let epochDataRoot = x_rootHexOf X (ep_proof (ex_epoch ex)) lh in
               res_bind (res_fold (\<lambda>p acc. res_bind (verify_package X r p) (\<lambda>v. Inr (acc @ [v])))
                           (ex_attestations ex) []) (\<lambda>vs.
                 let validCount = length (filter (\<lambda>(p, ok, s). ok) vs)
                                  + (if epochDataValid then 1 else 0);
                     totalCount = length vs + 1
                 in Inr \<lparr>tv_root = ex_root ex, tv_epochValid = epochDataValid,
                         tv_epochRoot = epochDataRoot, tv_attestations = vs,
                         tv_allValid = (validCount = totalCount), tv_validCount = validCount,
                         tv_totalCount = totalCount\<rparr>)))))"

subsection \<open>What the code relies on of the packages\<close>

definition externals_ok :: "externals \<Rightarrow> bool" where
  "externals_ok X \<longleftrightarrow>
     (\<forall>b. x_fromHex X (x_toHex X b) = Some b \<and> take 2 (x_toHex X b) \<noteq> ''0x'')
     \<and> x_fromHex X ZERO_HASH \<noteq> None
     \<and> (\<forall>L. stringToBuffer (x_fromHex X) (x_rootHex X L) = Some (x_root X L))
     \<and> (\<forall>L d. d \<in> set L \<longrightarrow>
          (\<exists>p. x_proof X L d = Some p \<and> x_verify X p (x_root X L) (x_hash X d)
                \<and> x_verifyData X p (x_root X L) d))"

lemma hex_roundtrip [simp]:
  assumes "externals_ok X"
  shows "hex_or X (x_toHex X b) = Inr b" "hex_plain X (x_toHex X b) = Inr b"
    "hex_or X (CHR ''0'' # CHR ''x'' # x_toHex X b) = Inr b"
    "hex_or X (x_rootHex X L) = Inr (x_root X L)"
  using assms by (simp_all add: externals_ok_def hex_or_def hex_plain_def stringToBuffer_def)

text \<open>A frozen tree: its leaves, in order.\<close>

definition tree_ok :: "externals \<Rightarrow> EPOCH_config \<Rightarrow> EpochMerkleTree \<Rightarrow> bytes \<Rightarrow> bool" where
  "tree_ok X cfg t bs \<longleftrightarrow>
     em_tree t = Some (bs # map (attestationToBytes X) (take (em_maxAttestations t) (em_attestations t)))
     \<and> em_epochBytes t = Some bs \<and> em_epochHash t = Some (x_sha256 X bs)
     \<and> epochDataToBytes X cfg (em_epochData t) = Inr bs"

lemma freeze_tree_ok:
  assumes "freeze X cfg t = Inr t'"
  obtains bs where "tree_ok X cfg t' bs" "em_frozen t'" "em_maxAttestations t' = em_maxAttestations t"
    "sorted (map (\<lambda>a. - at_timestamp a) (em_attestations t'))" "2 \<le> length (em_attestations t')"
    "length (em_attestations t') \<le> length (em_attestations t) + 2"
    "mset (em_attestations t) \<subseteq># mset (em_attestations t')"
    "em_epochData t' = em_epochData t" "\<not> em_frozen t"
proof -
  from assms obtain t1 bs where fr: "\<not> em_frozen t"
    and t1: "(if length (em_attestations t) < 2 then addDummyAttestations X t else Inr t) = Inr t1"
    and bs: "epochDataToBytes X cfg (em_epochData t1) = Inr bs"
    and t': "t' = t1\<lparr>em_attestations := sort_key (\<lambda>a. - at_timestamp a) (em_attestations t1),
        em_epochBytes := Some bs, em_epochHash := Some (x_sha256 X bs),
        em_tree := Some (bs # map (attestationToBytes X) (take (em_maxAttestations t1)
          (sort_key (\<lambda>a. - at_timestamp a) (em_attestations t1)))), em_frozen := True\<rparr>"
    by (auto simp: freeze_def generateTree_def Let_def split: if_splits)
  from t1 have atts: "em_maxAttestations t1 = em_maxAttestations t" "em_epochData t1 = em_epochData t"
      "2 \<le> length (em_attestations t1)" "length (em_attestations t1) \<le> length (em_attestations t) + 2"
      "mset (em_attestations t) \<subseteq># mset (em_attestations t1)"
    by (auto simp: addDummyAttestations_def Let_def split: if_splits option.splits)
  show ?thesis
    by (rule that [of bs]) (use t' bs fr atts in \<open>simp_all add: tree_ok_def\<close>)
qed

lemma addBlockAttestation_loop:
  "res_fold (\<lambda>a t. addBlockAttestation t a) atts t = Inr t' \<Longrightarrow>
   t' = t\<lparr>em_attestations := em_attestations t @ map (\<lambda>a. a\<lparr>at_type := BLOCK_WITNESS\<rparr>) atts\<rparr>
   \<and> (\<forall>a \<in> set atts. ed_startBlock (em_epochData t) \<le> at_blockNumber a
        \<and> at_blockNumber a \<le> ed_endBlock (em_epochData t))"
proof (induction atts arbitrary: t)
  case (Cons a atts)
  from Cons.prems obtain t1 where t1: "addBlockAttestation t a = Inr t1"
      "res_fold (\<lambda>a t. addBlockAttestation t a) atts t1 = Inr t'" by auto
  with Cons.IH [OF t1(2)] show ?case
    by (auto simp: addBlockAttestation_def split: if_splits)
qed simp

subsection \<open>Exports of a frozen tree\<close>

definition epoch_export :: "externals \<Rightarrow> EpochData \<Rightarrow> bytes \<Rightarrow> bytes list \<Rightarrow> EpochDataProof" where
  "epoch_export X d bs proof =
     \<lparr>ep_epochNumber = ed_epochNumber d, ep_startBlock = ed_startBlock d,
      ep_endBlock = ed_endBlock d, ep_checksumRoot = x_toHex X (ed_checksumRoot d),
      ep_previousEpochHash = x_toHex X (ed_previousEpochHash d),
      ep_attestedEpochNumber = ed_attestedEpochNumber d,
      ep_attestedChecksumRoot = x_toHex X (ed_attestedChecksumRoot d),
      ep_winner = map_option (\<lambda>w.
        \<lparr>wp_mldsaPublicKey = x_toHex X (ew_mldsaPublicKey w),
         wp_legacyPublicKey = x_toHex X (ew_legacyPublicKey w),
         wp_matchingBits = ew_matchingBits w, wp_salt = x_toHex X (ew_salt w),
         wp_solutionHash = x_toHex X (ew_solutionHash w),
         wp_graffiti = x_toHex X (ew_graffiti w)\<rparr>) (ed_winner d),
      ep_proof = proof, ep_leafHash = ''0x'' @ x_toHex X (x_hash X bs)\<rparr>"

lemma getEpochData_frozen:
  assumes "externals_ok X" "tree_ok X cfg t bs" "em_tree t = Some leaves"
  obtains pf where "EpochMerkleTree_getEpochData X cfg t = Inr (epoch_export X (em_epochData t) bs pf)"
    "x_verifyData X pf (x_root X leaves) bs"
proof -
  have "bs \<in> set leaves" using assms(2,3) by (auto simp: tree_ok_def)
  with assms(1) obtain p where "x_proof X leaves bs = Some p" "x_verifyData X p (x_root X leaves) bs"
    unfolding externals_ok_def by blast
  then show ?thesis
    using assms(2,3)
    by (intro that [of p])
      (simp_all add: EpochMerkleTree_getEpochData_def epoch_export_def getEpochDataProof_def
        tree_leaves_def leaf_proof_def tree_ok_def Let_def)
qed

lemma verify_epoch_data:
  assumes "externals_ok X" "epochDataToBytes X cfg d = Inr bs"
  obtains w d' where "ep_winner (epoch_export X d bs pf) = Some w"
    "export_epochData X (epoch_export X d bs pf) w = Inr d'" "epochDataToBytes X cfg d' = Inr bs"
proof -
  from assms(2) obtain w where w: "ed_winner d = Some w"
    by (auto simp: epochDataToBytes_def split: option.splits)
  let ?d' = "d\<lparr>ed_winner := Some (w\<lparr>ew_epochNumber := ed_epochNumber d\<rparr>)\<rparr>"
  have "epochDataToBytes X cfg ?d' = epochDataToBytes X cfg d"
    by (simp add: epochDataToBytes_def w)
  then show ?thesis
    using assms w
    by (intro that [of "\<lparr>wp_mldsaPublicKey = x_toHex X (ew_mldsaPublicKey w),
         wp_legacyPublicKey = x_toHex X (ew_legacyPublicKey w),
         wp_matchingBits = ew_matchingBits w, wp_salt = x_toHex X (ew_salt w),
         wp_solutionHash = x_toHex X (ew_solutionHash w),
         wp_graffiti = x_toHex X (ew_graffiti w)\<rparr>" ?d'])
      (simp_all add: epoch_export_def export_epochData_def)
qed

lemma attestation_proof_frozen:
  assumes X: "externals_ok X" and t: "tree_ok X cfg t bs" "em_tree t = Some leaves"
    and i: "i < length (em_attestations t)" "length (em_attestations t) \<le> em_maxAttestations t"
  obtains p s where "getAttestationProofs X t i = Inr p" "verify_package X (x_root X leaves) p = Inr (p, True, s)"
proof -
  let ?a = "em_attestations t ! i"
  let ?b = "attestationToBytes X ?a"
  have "?b \<in> set leaves" using t i by (auto simp: tree_ok_def)
  with X obtain p where p: "x_proof X leaves ?b = Some p" "x_verify X p (x_root X leaves) (x_hash X ?b)"
    unfolding externals_ok_def by blast
  define pr where "pr = \<lparr>ap_type = at_type ?a, ap_blockNumber = at_blockNumber ?a,
     ap_checksumRoot = x_toHex X (at_checksumRoot ?a), ap_signature = at_signature ?a,
     ap_timestamp = at_timestamp ?a, ap_publicKey = at_publicKey ?a, ap_proofs = p,
     ap_leafHash = ''0x'' @ x_toHex X (x_hash X ?b), ap_index = i\<rparr>"
  have get: "getAttestationProofs X t i = Inr pr"
    using t p i by (simp add: getAttestationProofs_def getProof_def tree_leaves_def leaf_proof_def
        pr_def Let_def)
  have a: "\<lparr>at_type = at_type ?a, at_blockNumber = at_blockNumber ?a,
      at_checksumRoot = at_checksumRoot ?a, at_signature = at_signature ?a,
      at_timestamp = at_timestamp ?a, at_publicKey = at_publicKey ?a\<rparr> = ?a" by simp
  have "verify_package X (x_root X leaves) pr
      = Inr (pr, True, x_rootHexOf X p (x_hash X ?b))"
    using X p by (simp add: verify_package_def pr_def a verifyAttestation_def Let_def)
  with get show ?thesis by (rule that)
qed

lemma all_attestation_proofs_frozen:
  assumes X: "externals_ok X" and t: "tree_ok X cfg t bs" "em_tree t = Some leaves"
    and len: "length (em_attestations t) \<le> em_maxAttestations t"
  obtains ps vs where "getAllAttestationProofs X t = Inr ps"
    "res_fold (\<lambda>p acc. res_bind (verify_package X (x_root X leaves) p) (\<lambda>v. Inr (acc @ [v]))) ps [] = Inr vs"
    "\<forall>(p, ok, s) \<in> set vs. ok" "length vs = length (em_attestations t)"
proof -
  define get where "get i = projr (getAttestationProofs X t i)" for i
  define ver where "ver p = projr (verify_package X (x_root X leaves) p)" for p
  let ?is = "[0..<length (em_attestations t)]"
  have one: "getAttestationProofs X t i = Inr (get i)
      \<and> verify_package X (x_root X leaves) (get i) = Inr (ver (get i)) \<and> fst (snd (ver (get i)))"
    if i: "i < length (em_attestations t)" for i
  proof -
    obtain p s where "getAttestationProofs X t i = Inr p"
        "verify_package X (x_root X leaves) p = Inr (p, True, s)"
      using attestation_proof_frozen [OF X t i len] .
    then show ?thesis by (simp add: get_def ver_def)
  qed
  show ?thesis
  proof (rule that [of "map get ?is" "map ver (map get ?is)"])
    show "getAllAttestationProofs X t = Inr (map get ?is)"
      using t one res_fold_collect [of ?is "getAttestationProofs X t" get "[]"]
      by (simp add: getAllAttestationProofs_def tree_leaves_def)
    show "res_fold (\<lambda>p acc. res_bind (verify_package X (x_root X leaves) p) (\<lambda>v. Inr (acc @ [v])))
        (map get ?is) [] = Inr (map ver (map get ?is))"
      by (subst res_fold_collect [of _ _ ver]) (use one in auto)
    show "\<forall>(p, ok, s) \<in> set (map ver (map get ?is)). ok"
      using one by (auto simp: case_prod_beta)
  qed simp
qed

lemma export_frozen_verifies:
  assumes X: "externals_ok X" and t: "tree_ok X cfg t bs"
    and len: "length (em_attestations t) \<le> em_maxAttestations t"
  shows "\<exists>ex v. export X cfg t = Inr ex \<and> EpochMerkleTree_verify X cfg ex = Inr v
    \<and> tv_allValid v \<and> tv_totalCount v = length (em_attestations t) + 1"
proof -
  obtain leaves where leaves: "em_tree t = Some leaves" using t by (auto simp: tree_ok_def)
  obtain pf where epoch: "EpochMerkleTree_getEpochData X cfg t = Inr (epoch_export X (em_epochData t) bs pf)"
      "x_verifyData X pf (x_root X leaves) bs"
    using getEpochData_frozen [OF X t leaves] .
  have enc: "epochDataToBytes X cfg (em_epochData t) = Inr bs" using t by (simp add: tree_ok_def)
  obtain w d' where w: "ep_winner (epoch_export X (em_epochData t) bs pf) = Some w"
      "export_epochData X (epoch_export X (em_epochData t) bs pf) w = Inr d'"
      "epochDataToBytes X cfg d' = Inr bs"
    using verify_epoch_data [OF X enc] .
  obtain ps vs where atts: "getAllAttestationProofs X t = Inr ps"
      "res_fold (\<lambda>p acc. res_bind (verify_package X (x_root X leaves) p) (\<lambda>v. Inr (acc @ [v]))) ps [] = Inr vs"
      "\<forall>(p, ok, s) \<in> set vs. ok" "length vs = length (em_attestations t)"
    using all_attestation_proofs_frozen [OF X t leaves len] .
  have all: "filter (\<lambda>(p, ok, s). ok) vs = vs" using atts(3) by (auto simp: filter_id_conv)
  have "export X cfg t = Inr \<lparr>ex_root = x_rootHex X leaves, ex_hash = ''0x'' @ x_toHex X (x_sha256 X bs),
      ex_epoch = epoch_export X (em_epochData t) bs pf, ex_attestations = ps,
      ex_leafCount = length (em_attestations t) + 1\<rparr>"
    using t leaves epoch(1) atts(1)
    by (simp add: export_def tree_leaves_def epochHash_def tree_ok_def)
  moreover have "ep_proof (epoch_export X (em_epochData t) bs pf) = pf"
      "ep_leafHash (epoch_export X (em_epochData t) bs pf) = ''0x'' @ x_toHex X (x_hash X bs)"
    by (simp_all add: epoch_export_def)
  ultimately show ?thesis
    using X w atts(2,4) all epoch(2)
    by (simp add: EpochMerkleTree_verify_def verifyEpochData_def Let_def)
qed

subsection \<open>Concrete packages\<close>

text \<open>Big-endian integers, and a tree whose root is the list of its leaves: the packages' documented
  behaviour can hold.\<close>

definition be_bytes :: "nat \<Rightarrow> int \<Rightarrow> bytes" where
  "be_bytes n v = map (\<lambda>i. word_of_int (drop_bit (8 * i) v)) (rev [0..<n])"

lemma be_value_be_bytes: "be_value (be_bytes n v) = v mod 256 ^ n"
  by (simp add: be_value_def be_bytes_def be_value_chunks)

definition sample_externals :: externals where
  "sample_externals = \<lparr>x_sha1 = take 20, x_sha256 = take 32,
     x_fromHex = (\<lambda>s. Some (map (\<lambda>c. of_nat (of_char c)) (tl s))),
     x_toHex = (\<lambda>b. CHR ''h'' # map (\<lambda>w. char_of (unat w)) b),
     x_writeU8 = (\<lambda>n. be_bytes 1 (int n)), x_writeU16 = (\<lambda>n. be_bytes 2 (int n)),
     x_writeU64 = be_bytes 8,
     x_writeAddress = (\<lambda>a. take 32 (map (\<lambda>c. of_nat (of_char c)) a @ replicate 32 0)),
     x_root = concat, x_rootHex = (\<lambda>L. CHR ''h'' # map (\<lambda>w. char_of (unat w)) (concat L)),
     x_proof = (\<lambda>L d. if d \<in> set L then Some L else None), x_hash = (\<lambda>d. d),
     x_verify = (\<lambda>p r h. r = concat p \<and> h \<in> set p),
     x_verifyData = (\<lambda>p r d. r = concat p \<and> d \<in> set p),
     x_rootHexOf = (\<lambda>p h. []), x_chainId = replicate 32 1, x_protocolId = replicate 32 2,
     x_dead = ''dead'', x_deadKey = replicate 32 9, x_deadLegacyKey = replicate 33 9,
     x_address = (\<lambda>b. Some (map (\<lambda>w. char_of (unat w)) b))\<rparr>"

lemma sample_externals_ok: "externals_ok sample_externals"
proof -
  have "map (\<lambda>c. of_nat (of_char c)) (map (\<lambda>w. char_of (unat w)) b) = b" for b :: bytes
  proof -
    have "unat w mod 256 = unat w" for w :: byte using unsigned_less [of w, where ?'a = nat] by simp
    then show ?thesis by (simp add: comp_def map_idI)
  qed
  then show ?thesis
    by (auto simp: externals_ok_def sample_externals_def stringToBuffer_def)
qed

definition writer_ok :: "externals \<Rightarrow> bool" where
  "writer_ok X \<longleftrightarrow> (\<forall>n. length (x_writeU8 X n) = 1) \<and> (\<forall>n. length (x_writeU64 X n) = 8)
     \<and> inj_on (x_writeU8 X) {0..<256} \<and> inj_on (x_writeU64 X) {0..<2 ^ 64}"

lemma be_bytes_inject:
  assumes "be_bytes n a = be_bytes n b" "0 \<le> a" "a < 256 ^ n" "0 \<le> b" "b < 256 ^ n"
  shows "a = b"
proof -
  have "a mod 256 ^ n = b mod 256 ^ n"
    using arg_cong [OF assms(1), of be_value] by (simp only: be_value_be_bytes)
  then show ?thesis using assms(2-5) by (simp only: mod_pos_pos_trivial)
qed

lemma sample_writer_ok: "writer_ok sample_externals"
proof -
  have "inj_on (be_bytes 8) {0..<2 ^ 64}"
    by (rule inj_onI) (erule be_bytes_inject, simp_all)
  moreover have "inj_on (\<lambda>n. be_bytes 1 (int n)) {0..<256}"
    by (rule inj_onI) (drule be_bytes_inject, simp_all)
  moreover have "length (be_bytes n v) = n" for n v by (simp add: be_bytes_def)
  ultimately show ?thesis by (simp add: writer_ok_def sample_externals_def)
qed

definition sample_winner :: EpochSubmissionWinner where
  "sample_winner = \<lparr>ew_epochNumber = 1, ew_matchingBits = 40, ew_salt = replicate 32 3,
     ew_mldsaPublicKey = replicate 32 4, ew_legacyPublicKey = replicate 33 5,
     ew_solutionHash = replicate 20 6, ew_graffiti = [7]\<rparr>"

definition sample_epochData :: EpochData where
  "sample_epochData = \<lparr>ed_epochNumber = 1, ed_startBlock = 5, ed_endBlock = 9,
     ed_checksumRoot = replicate 32 8, ed_previousEpochHash = replicate 32 0,
     ed_attestedEpochNumber = - 3, ed_attestedChecksumRoot = replicate 32 0, ed_winner = None\<rparr>"

definition sample_attestation :: "int \<Rightarrow> Attestation" where
  "sample_attestation time = \<lparr>at_type = BLOCK_WITNESS, at_blockNumber = 7,
     at_checksumRoot = replicate 32 8, at_signature = replicate 64 1, at_timestamp = time,
     at_publicKey = ''w''\<rparr>"

subsection \<open>Properties\<close>

text \<open>
  an epoch that is given its winner and attestations and then frozen can be exported, and the
  export verifies: the epoch leaf and every attestation, the added placeholders included, prove
  against the root. This holds as long as the attestations fit the tree's bound.
\<close>

theorem epoch_export_verifies:
  assumes "externals_ok X"
    and "setWinner (EpochMerkleTree_new d maxAttestations) w = Inr t1"
    and "res_fold (\<lambda>a t. addBlockAttestation t a) atts t1 = Inr t2"
    and "freeze X cfg t2 = Inr t3"
    and "length atts + 2 \<le> maxAttestations"
  shows "\<exists>ex v. export X cfg t3 = Inr ex \<and> EpochMerkleTree_verify X cfg ex = Inr v
    \<and> tv_allValid v \<and> tv_validCount v = length (em_attestations t3) + 1
    \<and> ex_leafCount ex = length (em_attestations t3) + 1"
proof -
  have t2: "em_maxAttestations t2 = maxAttestations" "length (em_attestations t2) = length atts"
    using assms(2) addBlockAttestation_loop [OF assms(3)]
    by (auto simp: setWinner_def EpochMerkleTree_new_def)
  obtain bs where bs: "tree_ok X cfg t3 bs" "em_maxAttestations t3 = em_maxAttestations t2"
      "length (em_attestations t3) \<le> length (em_attestations t2) + 2"
    using assms(4) by (rule freeze_tree_ok)
  then obtain ex v where ex: "export X cfg t3 = Inr ex" "EpochMerkleTree_verify X cfg ex = Inr v"
      "tv_allValid v" "tv_totalCount v = length (em_attestations t3) + 1"
    using export_frozen_verifies [OF assms(1) bs(1)] t2 assms(5) by auto
  have "tv_allValid v = (tv_validCount v = tv_totalCount v)"
    using ex(2) by (auto simp: EpochMerkleTree_verify_def Let_def split: option.splits)
  moreover have "ex_leafCount ex = length (em_attestations t3) + 1"
    using ex(1) by (auto simp: export_def)
  ultimately show ?thesis using ex by auto
qed

theorem epoch_export_verifies_witness:
  "\<exists>t2 t3 ex v. res_fold (\<lambda>a t. addBlockAttestation t a) [sample_attestation 100]
       ((EpochMerkleTree_new (sample_epochData\<lparr>ed_winner := Some sample_winner\<rparr>) 500000)) = Inr t2
     \<and> freeze sample_externals Roswell_EPOCH t2 = Inr t3
     \<and> export sample_externals Roswell_EPOCH t3 = Inr ex
     \<and> EpochMerkleTree_verify sample_externals Roswell_EPOCH ex = Inr v \<and> tv_allValid v"
proof -
  let ?d = "sample_epochData\<lparr>ed_winner := Some sample_winner\<rparr>"
  let ?t1 = "EpochMerkleTree_new ?d 500000"
  have w: "setWinner (EpochMerkleTree_new sample_epochData 500000) sample_winner = Inr ?t1"
    by (simp add: setWinner_def EpochMerkleTree_new_def)
  have "\<exists>t2. res_fold (\<lambda>a t. addBlockAttestation t a) [sample_attestation 100] ?t1 = Inr t2
      \<and> em_epochData t2 = ?d \<and> \<not> em_frozen t2"
    by (simp add: addBlockAttestation_def EpochMerkleTree_new_def sample_epochData_def
        sample_attestation_def)
  then obtain t2 where t2: "res_fold (\<lambda>a t. addBlockAttestation t a) [sample_attestation 100] ?t1 = Inr t2"
      "em_epochData t2 = ?d" "\<not> em_frozen t2" by blast
  have bytes: "\<exists>bs. epochDataToBytes sample_externals Roswell_EPOCH ?d = Inr bs"
    by (simp add: epochDataToBytes_def sample_winner_def Roswell_EPOCH_def Let_def)
  have zero: "x_fromHex sample_externals ZERO_HASH \<noteq> None"
    by (simp add: sample_externals_def)
  have "\<exists>t3. freeze sample_externals Roswell_EPOCH t2 = Inr t3"
    using bytes zero t2(2,3)
    by (auto simp: freeze_def generateTree_def addDummyAttestations_def Let_def split: if_splits)
  then obtain t3 where t3: "freeze sample_externals Roswell_EPOCH t2 = Inr t3" by blast
  show ?thesis
    using epoch_export_verifies [OF sample_externals_ok w t2(1) t3] t2(1) t3 by auto
qed

text \<open>
  a frozen epoch is final and complete. Nothing can be added to it or changed in it, its tree has
  the epoch's leaf first and at least two attestations, newest first, and every attestation that was
  added is among them, as a block witness of a block of the epoch.
\<close>

theorem frozen_epoch_final:
  assumes "res_fold (\<lambda>a t. addBlockAttestation t a) atts (EpochMerkleTree_new d maxAttestations) = Inr t2"
    and "freeze X cfg t2 = Inr t3"
  shows "setWinner t3 w = Inl TreeFrozen \<and> addBlockAttestation t3 a = Inl TreeFrozen
    \<and> generateTree X cfg t3 = Inl TreeFrozen \<and> freeze X cfg t3 = Inl TreeFrozen
    \<and> (\<exists>bs. epochDataToBytes X cfg d = Inr bs
        \<and> em_tree t3 = Some (bs # map (attestationToBytes X)
            (take maxAttestations (em_attestations t3))))
    \<and> sorted (rev (map at_timestamp (em_attestations t3))) \<and> 2 \<le> length (em_attestations t3)
    \<and> (\<forall>b \<in> set atts. b\<lparr>at_type := BLOCK_WITNESS\<rparr> \<in> set (em_attestations t3)
          \<and> at_blockNumber b \<in> {ed_startBlock d..ed_endBlock d})"
proof -
  have t2: "em_attestations t2 = map (\<lambda>b. b\<lparr>at_type := BLOCK_WITNESS\<rparr>) atts"
      "em_epochData t2 = d" "em_maxAttestations t2 = maxAttestations"
      "\<forall>b \<in> set atts. at_blockNumber b \<in> {ed_startBlock d..ed_endBlock d}"
    using addBlockAttestation_loop [OF assms(1)] by (auto simp: EpochMerkleTree_new_def)
  obtain bs where bs: "tree_ok X cfg t3 bs" "em_frozen t3" "em_maxAttestations t3 = em_maxAttestations t2"
      "sorted (map (\<lambda>a. - at_timestamp a) (em_attestations t3))" "2 \<le> length (em_attestations t3)"
      "mset (em_attestations t2) \<subseteq># mset (em_attestations t3)" "em_epochData t3 = em_epochData t2"
    using assms(2) by (rule freeze_tree_ok)
  have desc: "sorted (rev (map at_timestamp (em_attestations t3)))"
    using bs(4) by (simp add: sorted_iff_nth_mono rev_nth sorted_wrt_iff_nth_less)
  have sub: "set (em_attestations t2) \<subseteq> set (em_attestations t3)"
    using bs(6) set_mset_mono by fastforce
  show ?thesis
    using bs(1-3,5,7) t2 desc sub
    by (auto simp: setWinner_def addBlockAttestation_def generateTree_def freeze_def tree_ok_def)
qed

theorem frozen_epoch_final_witness:
  "\<exists>t2 t3. res_fold (\<lambda>a t. addBlockAttestation t a) [sample_attestation 100, sample_attestation 200]
       (EpochMerkleTree_new (sample_epochData\<lparr>ed_winner := Some sample_winner\<rparr>) 500000) = Inr t2
     \<and> freeze sample_externals Roswell_EPOCH t2 = Inr t3
     \<and> addBlockAttestation t3 (sample_attestation 300) = Inl TreeFrozen
     \<and> sample_attestation 200 \<in> set (em_attestations t3)"
proof -
  let ?d = "sample_epochData\<lparr>ed_winner := Some sample_winner\<rparr>"
  have "\<exists>t2. res_fold (\<lambda>a t. addBlockAttestation t a) [sample_attestation 100, sample_attestation 200]
       (EpochMerkleTree_new ?d 500000) = Inr t2 \<and> em_epochData t2 = ?d \<and> \<not> em_frozen t2
       \<and> length (em_attestations t2) = 2"
    by (simp add: addBlockAttestation_def EpochMerkleTree_new_def sample_epochData_def
        sample_attestation_def)
  then obtain t2 where t2: "res_fold (\<lambda>a t. addBlockAttestation t a)
        [sample_attestation 100, sample_attestation 200] (EpochMerkleTree_new ?d 500000) = Inr t2"
      "em_epochData t2 = ?d" "\<not> em_frozen t2" "length (em_attestations t2) = 2" by blast
  have "\<exists>bs. epochDataToBytes sample_externals Roswell_EPOCH ?d = Inr bs"
    by (simp add: epochDataToBytes_def sample_winner_def Roswell_EPOCH_def Let_def)
  then have "\<exists>t3. freeze sample_externals Roswell_EPOCH t2 = Inr t3"
    using t2(2-4) by (auto simp: freeze_def generateTree_def Let_def)
  then obtain t3 where t3: "freeze sample_externals Roswell_EPOCH t2 = Inr t3" by blast
  have "(sample_attestation 200)\<lparr>at_type := BLOCK_WITNESS\<rparr> = sample_attestation 200"
    by (simp add: sample_attestation_def)
  then show ?thesis
    using frozen_epoch_final [OF t2(1) t3] t2(1) t3 by auto
qed

text \<open>
  the encoding of an attestation is unambiguous: attestations with 32-byte roots, signatures of
  one length and block numbers and times within 64 bits that have the same bytes have the same
  type, block, root, signature, time and address bytes.
\<close>

theorem attestationToBytes_injective:
  assumes "writer_ok X" "attestationToBytes X a = attestationToBytes X b"
    and "length (at_checksumRoot a) = 32" "length (at_checksumRoot b) = 32"
    and "length (at_signature a) = length (at_signature b)"
    and "{at_blockNumber a, at_blockNumber b, at_timestamp a, at_timestamp b} \<subseteq> {0..<2 ^ 64}"
  shows "at_type a = at_type b \<and> at_blockNumber a = at_blockNumber b
    \<and> at_checksumRoot a = at_checksumRoot b \<and> at_signature a = at_signature b
    \<and> at_timestamp a = at_timestamp b
    \<and> x_writeAddress X (at_publicKey a) = x_writeAddress X (at_publicKey b)"
proof -
  have w: "\<And>n. length (x_writeU8 X n) = 1" "\<And>n. length (x_writeU64 X n) = 8"
      "inj_on (x_writeU8 X) {0..<256}" "inj_on (x_writeU64 X) {0..<2 ^ 64}"
    using assms(1) by (auto simp: writer_ok_def)
  have parts: "x_writeU8 X (attestation_code (at_type a)) = x_writeU8 X (attestation_code (at_type b))"
      "x_writeU64 X (at_blockNumber a) = x_writeU64 X (at_blockNumber b)"
      "at_checksumRoot a = at_checksumRoot b" "at_signature a = at_signature b"
      "x_writeU64 X (at_timestamp a) = x_writeU64 X (at_timestamp b)"
      "x_writeAddress X (at_publicKey a) = x_writeAddress X (at_publicKey b)"
    using assms(2-5) w by (auto simp: attestationToBytes_def)
  have "attestation_code (at_type a) = attestation_code (at_type b)"
    by (rule inj_onD [OF w(3) parts(1)]) (cases "at_type a"; cases "at_type b"; simp)+
  then have "at_type a = at_type b" by (cases "at_type a"; cases "at_type b"; simp)
  moreover have "at_blockNumber a = at_blockNumber b"
    by (rule inj_onD [OF w(4) parts(2)]) (use assms(6) in simp_all)
  moreover have "at_timestamp a = at_timestamp b"
    by (rule inj_onD [OF w(4) parts(5)]) (use assms(6) in simp_all)
  ultimately show ?thesis using parts by simp
qed

theorem attestationToBytes_injective_witness:
  "attestationToBytes sample_externals ((sample_attestation 100)\<lparr>at_publicKey := ''w'' @ [CHR 0x00]\<rparr>)
     = attestationToBytes sample_externals (sample_attestation 100)
   \<and> at_signature ((sample_attestation 100)\<lparr>at_publicKey := ''w'' @ [CHR 0x00]\<rparr>)
     = at_signature (sample_attestation 100)
   \<and> attestationToBytes sample_externals (sample_attestation 100)
     \<noteq> attestationToBytes sample_externals (sample_attestation 200)"
proof -
  let ?a = "sample_attestation 100"
  let ?b = "?a\<lparr>at_publicKey := ''w'' @ [CHR 0x00]\<rparr>"
  have eq: "attestationToBytes sample_externals ?b = attestationToBytes sample_externals ?a"
    by (simp add: attestationToBytes_def sample_attestation_def sample_externals_def numeral_eq_Suc)
  show ?thesis
    using attestationToBytes_injective [OF sample_writer_ok eq] eq
      attestationToBytes_injective [OF sample_writer_ok, of ?a "sample_attestation 200"]
    by (auto simp: sample_attestation_def)
qed

end
