(* ===== verification/Epoch_Manager.thy ===== *)
theory Epoch_Manager
  imports Epoch_Merkle "HOL-Library.List_Lexorder" "HOL-Library.Product_Lexorder"
begin

section \<open>Finalising epochs (\<open>src/src/blockchain-indexer/processor/epoch\<close>)\<close>

text \<open>
  \<open>EpochManager\<close> validates the submissions of the miners, selects the winner of an epoch and writes
  the finalised epoch; \<open>EpochReindexer\<close> rebuilds a range of epochs.

  The database is the record \<open>epoch_db\<close>: what the manager reads of it and the documents it writes. A
  write can fail; \<open>Promise.allSettled\<close> ignores that, so the outcome of the three writes is the
  parameter \<open>settled\<close> of the operation. Reads started together are made in the order of the source.
  Messages to the plugins are recorded in \<open>db_messages\<close>; sending them cannot fail the manager.
\<close>

subsection \<open>Data\<close>

record IEpochSubmission =
  su_epochNumber :: bigint
  su_txId :: bytes
  su_txHash :: bytes
  su_hash :: bytes
  su_solution :: bytes
  su_mldsaPublicKey :: bytes
  su_legacyPublicKey :: bytes
  su_salt :: bytes
  su_graffiti :: "bytes option"

record BlockHeader =
  bh_height :: bigint
  bh_checksumRoot :: string

record BlockWitness =
  wi_blockNumber :: bigint
  wi_signature :: bytes
  wi_timestamp :: int
  wi_publicKey :: "bytes option"

record IEpoch =
  ie_startBlock :: bigint
  ie_endBlock :: bigint
  ie_targetHash :: bytes
  ie_target :: bytes
  ie_solution :: bytes
  ie_salt :: bytes
  ie_mldsaPublicKey :: bytes
  ie_legacyPublicKey :: bytes
  ie_graffiti :: "bytes option"
  ie_solutionBits :: nat
  ie_epochRoot :: bytes
  ie_epochHash :: bytes
  ie_proofs :: "bytes list"

record IEpochDocument =
  doc_epochNumber :: bigint
  doc_epochHash :: bytes
  doc_epochRoot :: bytes
  doc_startBlock :: bigint
  doc_endBlock :: bigint
  doc_difficultyScaled :: string
  doc_targetHash :: bytes
  doc_solution :: bytes
  doc_mldsaPublicKey :: bytes
  doc_legacyPublicKey :: bytes
  doc_salt :: bytes
  doc_graffiti :: "bytes option"
  doc_proofs :: "bytes list"

record AttestationEpoch =
  ae_root :: bytes
  ae_epochNumber :: bigint

datatype plugin_message = EpochChange bigint bigint bigint | EpochFinalized bigint bigint bigint string

record epoch_db =
  db_headers :: "bigint \<Rightarrow> BlockHeader option"
  db_epochs :: "bigint \<Rightarrow> IEpochDocument option"
  db_submissions :: "bigint \<Rightarrow> IEpochSubmission list"
  db_witnesses :: "bigint \<Rightarrow> bigint \<Rightarrow> nat \<Rightarrow> BlockWitness list"
  db_witnessProofs :: "AttestationProof list"
  db_oldTargetsDeleted :: "bigint list"
  db_messages :: "plugin_message list"

record settled_writes =
  proofs_written :: bool
  epoch_written :: bool
  targets_deleted :: bool

subsection \<open>Selecting the winner\<close>

fun compareBytes :: "bytes \<Rightarrow> bytes \<Rightarrow> int" where
  "compareBytes (a # as) (b # bs) = (if a \<noteq> b then uint a - uint b else compareBytes as bs)"
| "compareBytes as bs = int (length as) - int (length bs)"

definition truthy :: "bigint option \<Rightarrow> bool" where
  "truthy b \<longleftrightarrow> (case b of None \<Rightarrow> False | Some v \<Rightarrow> v \<noteq> 0)"

definition reached :: "bigint \<Rightarrow> bigint option \<Rightarrow> bool" where
  "reached h b \<longleftrightarrow> (case b of None \<Rightarrow> False | Some v \<Rightarrow> h \<ge> v)"

definition whitelist_active :: "EarlyMiningConfig \<Rightarrow> bigint \<Rightarrow> bool" where
  "whitelist_active n endBlock \<longleftrightarrow>
     (let patch2Active = truthy (PATCH_2_ENABLE_AT_BLOCK n) \<and> reached endBlock (PATCH_2_ENABLE_AT_BLOCK n)
            \<and> (\<not> truthy (EXPIRES_AT_BLOCK_PATCH_2 n) \<or> \<not> reached endBlock (EXPIRES_AT_BLOCK_PATCH_2 n));
          originalExpired = truthy (EXPIRES_AT_BLOCK n) \<and> reached endBlock (EXPIRES_AT_BLOCK n)
      in \<not> (originalExpired \<and> \<not> patch2Active))"

text \<open>\<open>x_address\<close> is \<open>new Address\<close> of the key, which can throw.\<close>

definition keep_whitelisted ::
    "externals \<Rightarrow> address \<Rightarrow> IEpochSubmission \<Rightarrow> IEpochSubmission list \<Rightarrow> epoch_error + IEpochSubmission list" where
  "keep_whitelisted X key s acc =
     (case x_address X (su_mldsaPublicKey s) of
        None \<Rightarrow> Inl InvalidAddress
      | Some a \<Rightarrow> Inr (if key = a then acc @ [s] else acc))"

definition filterEarlyMiningSubmissions ::
    "externals \<Rightarrow> EPOCH_config \<Rightarrow> node_config \<Rightarrow> IEpochSubmission list \<Rightarrow> bigint
     \<Rightarrow> epoch_error + IEpochSubmission list" where
  "filterEarlyMiningSubmissions X cfg node submissions endBlock =
     (case EARLY_MINING cfg of
        None \<Rightarrow> Inr submissions
      | Some table \<Rightarrow>
          (case per_network_get table node of
             None \<Rightarrow> Inr submissions
           | Some n \<Rightarrow>
               if \<not> EM_ENABLED n then Inr submissions
               else (case WHITELISTED_PUBLIC_KEY n of
                       None \<Rightarrow> Inr submissions
                     | Some key \<Rightarrow>
                         if \<not> whitelist_active n endBlock then Inr submissions
                         else res_fold (keep_whitelisted X key) submissions [])))"

definition compareSubmissions ::
    "bytes \<Rightarrow> IEpochSubmission \<Rightarrow> IEpochSubmission \<Rightarrow> epoch_error + int" where
  "compareSubmissions targetHash a b =
     (let aKey = su_mldsaPublicKey a; bKey = su_mldsaPublicKey b in
      if length aKey < 32 \<or> length bKey < 32 then Inl InvalidKeyLength
      else
        let c = compareBytes aKey bKey in
        if c \<noteq> 0 then Inr c
        else
          let h = compareBytes (su_txHash a) (su_txHash b) in
          if h \<noteq> 0 then Inr h
          else
            let aSlice = drop 12 aKey; bSlice = drop 12 bKey in
            if length aSlice = 20 \<and> length bSlice = 20 then
              let aBits = countMatchingBits aSlice targetHash;
                  bBits = countMatchingBits bSlice targetHash in
              if aBits \<noteq> bBits then Inr (int bBits - int aBits)
              else
                let s = compareBytes (su_salt a) (su_salt b) in
                if s \<noteq> 0 then Inr s else Inr (compareBytes (su_txId a) (su_txId b))
            else Inl InvalidKeyLength)"

definition getWinningSubmission ::
    "IEpochSubmission list \<Rightarrow> bytes \<Rightarrow> epoch_error + IEpochSubmission" where
  "getWinningSubmission submissions targetHash =
     res_bind (js_sort (compareSubmissions targetHash) submissions)
       (\<lambda>s. case s of [] \<Rightarrow> Inl NoWinner | winner # _ \<Rightarrow> Inr winner)"

definition best_step ::
    "bytes \<Rightarrow> IEpochSubmission \<Rightarrow> IEpochSubmission list \<times> nat \<Rightarrow> IEpochSubmission list \<times> nat" where
  "best_step targetHash submission st =
     (case st of (best, bestMatchingBits) \<Rightarrow>
        if length (su_solution submission) \<noteq> 20 then st
        else
          let matchingBits = countMatchingBits (su_solution submission) targetHash in
          if matchingBits = bestMatchingBits then (best @ [submission], bestMatchingBits)
          else if matchingBits > bestMatchingBits then ([submission], matchingBits)
          else st)"

definition getBestSubmission ::
    "externals \<Rightarrow> EPOCH_config \<Rightarrow> node_config \<Rightarrow> IEpochSubmission list \<Rightarrow> bytes \<Rightarrow> bigint
     \<Rightarrow> epoch_error + EpochSubmissionWinner option" where
  "getBestSubmission X cfg node submissions targetHash endBlock =
     (if submissions = [] then Inr None
      else res_bind (filterEarlyMiningSubmissions X cfg node submissions endBlock) (\<lambda>eligible.
        if eligible = [] then Inr None
        else
          let (best, bestMatchingBits) = fold (best_step targetHash) eligible ([], 0) in
          if best = [] then Inr None
          else res_bind (getWinningSubmission best targetHash) (\<lambda>w.
            Inr (Some \<lparr>ew_epochNumber = su_epochNumber w, ew_matchingBits = bestMatchingBits,
                       ew_salt = su_salt w, ew_mldsaPublicKey = su_mldsaPublicKey w,
                       ew_legacyPublicKey = su_legacyPublicKey w, ew_solutionHash = su_hash w,
                       ew_graffiti = (case su_graffiti w of Some g \<Rightarrow> g
                                      | None \<Rightarrow> replicate (GRAFFITI_LENGTH cfg) 0)\<rparr>))))"

subsection \<open>Validating a submission\<close>

record Submission =
  sb_mldsaPublicKey :: bytes
  sb_salt :: bytes
  sb_graffiti :: "bytes option"

datatype submission_reason = EpochIsZero | EpochMismatchTarget | BitsBelowMinimum nat nat
  | SaltNot32 | GraffitiLength nat

record ValidatedSolutionResult =
  vs_valid :: bool
  vs_matchingBits :: nat
  vs_hash :: bytes
  vs_reason :: "submission_reason option"

definition validateEpochSubmission ::
    "externals \<Rightarrow> EPOCH_config \<Rightarrow> Submission \<Rightarrow> bigint \<Rightarrow> PendingTargetEpoch \<Rightarrow> ValidatedSolutionResult" where
  "validateEpochSubmission X cfg sub height pending =
     (let currentEpoch = bigint_div height (BLOCKS_PER_EPOCH cfg) in
      if currentEpoch = 0
      then \<lparr>vs_valid = False, vs_matchingBits = 0, vs_hash = [], vs_reason = Some EpochIsZero\<rparr>
      else if pt_nextEpochNumber pending \<noteq> currentEpoch
      then \<lparr>vs_valid = False, vs_matchingBits = 0, vs_hash = [], vs_reason = Some EpochMismatchTarget\<rparr>
      else
        let preimage = calculatePreimage (pt_checksumRoot pending) (sb_mldsaPublicKey sub) (sb_salt sub);
            hash = x_sha1 X preimage;
            bits = countMatchingBits hash (pt_targetHash pending);
            minDifficulty = (if MIN_DIFFICULTY cfg = 0 then 20 else MIN_DIFFICULTY cfg);
            answer = (\<lambda>reason. \<lparr>vs_valid = (reason = None), vs_matchingBits = bits, vs_hash = hash,
                                vs_reason = reason\<rparr>)
        in if bits < minDifficulty then answer (Some (BitsBelowMinimum bits minDifficulty))
           else if length (sb_salt sub) \<noteq> 32 then answer (Some SaltNot32)
           else (case sb_graffiti sub of
                   Some g \<Rightarrow> if length g > GRAFFITI_LENGTH cfg then answer (Some (GraffitiLength (length g)))
                             else answer None
                 | None \<Rightarrow> answer None))"

subsection \<open>Reading what an epoch is built from\<close>

definition getPreviousEpochHash :: "epoch_db \<Rightarrow> bigint \<Rightarrow> epoch_error + bytes" where
  "getPreviousEpochHash db epochNumber =
     (if epochNumber = 0 then Inr (replicate 32 0)
      else (case db_epochs db (epochNumber - 1) of
              None \<Rightarrow> Inl (EpochNotFound (epochNumber - 1))
            | Some e \<Rightarrow> Inr (doc_epochHash e)))"

definition getMiningTargetBlock :: "EPOCH_config \<Rightarrow> bigint \<Rightarrow> bigint option" where
  "getMiningTargetBlock cfg epochNumber =
     (if epochNumber = 0 then None else Some (epochNumber * BLOCKS_PER_EPOCH cfg - 1))"

text \<open>The three places that decode a header's checksum root do the same.\<close>

definition checksum_root :: "externals \<Rightarrow> BlockHeader \<Rightarrow> epoch_error + bytes" where
  "checksum_root X header =
     res_bind (hex_or X (bh_checksumRoot header)) (\<lambda>r.
       if length r \<noteq> 32 then Inl (BadRootLength (length r)) else Inr r)"

definition getMiningTargetChecksum ::
    "externals \<Rightarrow> epoch_db \<Rightarrow> bigint option \<Rightarrow> epoch_error + bytes option" where
  "getMiningTargetChecksum X db targetBlock =
     (case targetBlock of
        None \<Rightarrow> Inr None
      | Some h \<Rightarrow>
          (case db_headers db h of
             None \<Rightarrow> Inl (HeaderNotFound h)
           | Some header \<Rightarrow> res_bind (checksum_root X header) (\<lambda>r. Inr (Some r))))"

definition block_range :: "bigint \<Rightarrow> bigint \<Rightarrow> bigint list" where
  "block_range a b = map (\<lambda>i. a + int i) [0..<nat (b - a + 1)]"

definition getChecksumRoots ::
    "externals \<Rightarrow> epoch_db \<Rightarrow> bigint \<Rightarrow> bigint \<Rightarrow> epoch_error + (bigint, bytes) js_map" where
  "getChecksumRoots X db startBlock endBlock =
     res_fold (\<lambda>header m.
         case header of
           None \<Rightarrow> Inr m
         | Some bh \<Rightarrow> res_bind (checksum_root X bh) (\<lambda>r. Inr (AList.update (bh_height bh) r m)))
       (map (db_headers db) (block_range startBlock endBlock)) []"

definition witnessToAttestation ::
    "externals \<Rightarrow> BlockWitness \<Rightarrow> (bigint, bytes) js_map \<Rightarrow> epoch_error + Attestation option" where
  "witnessToAttestation X witness checkSumRoots =
     (case map_of checkSumRoots (wi_blockNumber witness) of
        None \<Rightarrow> Inl (NoChecksumRoot (wi_blockNumber witness))
      | Some r \<Rightarrow>
          (case wi_publicKey witness of
             None \<Rightarrow> Inr None
           | Some key \<Rightarrow>
               (case x_address X key of
                  None \<Rightarrow> Inl InvalidAddress
                | Some a \<Rightarrow>
                    Inr (Some \<lparr>at_type = BLOCK_WITNESS, at_blockNumber = wi_blockNumber witness,
                               at_checksumRoot = r, at_signature = wi_signature witness,
                               at_timestamp = wi_timestamp witness, at_publicKey = a\<rparr>))))"

definition getAttestationChecksumRoot ::
    "externals \<Rightarrow> epoch_db \<Rightarrow> bigint \<Rightarrow> epoch_error + AttestationEpoch" where
  "getAttestationChecksumRoot X db epochNumber =
     (let targetEpochNumber = epochNumber - 4 in
      if epochNumber < 4
      then Inr \<lparr>ae_root = replicate 32 0, ae_epochNumber = targetEpochNumber\<rparr>
      else
        (case db_epochs db targetEpochNumber of
           None \<Rightarrow> Inl (EpochNotFound targetEpochNumber)
         | Some e \<Rightarrow>
             (case db_headers db (doc_endBlock e) of
                None \<Rightarrow> Inl (HeaderNotFound (doc_endBlock e))
              | Some header \<Rightarrow>
                  res_bind (checksum_root X header) (\<lambda>r.
                    Inr \<lparr>ae_root = r, ae_epochNumber = targetEpochNumber\<rparr>))))"

subsection \<open>Writing an epoch\<close>

definition createEpoch :: "EPOCH_config \<Rightarrow> IEpoch \<Rightarrow> IEpochDocument" where
  "createEpoch cfg epoch =
     \<lparr>doc_epochNumber = bigint_div (ie_startBlock epoch) (BLOCKS_PER_EPOCH cfg),
      doc_epochHash = ie_epochHash epoch, doc_epochRoot = ie_epochRoot epoch,
      doc_startBlock = ie_startBlock epoch,
      doc_endBlock = ie_startBlock epoch + BLOCKS_PER_EPOCH cfg - 1,
      doc_difficultyScaled = bigint_toString (bitsToScaledDifficulty (int (ie_solutionBits epoch))),
      doc_targetHash = ie_targetHash epoch, doc_solution = ie_solution epoch,
      doc_mldsaPublicKey = ie_mldsaPublicKey epoch, doc_legacyPublicKey = ie_legacyPublicKey epoch,
      doc_salt = ie_salt epoch, doc_graffiti = ie_graffiti epoch, doc_proofs = ie_proofs epoch\<rparr>"

text \<open>\<open>allSettled\<close>: each write happens or fails on its own, and the manager goes on.\<close>

definition write_epoch ::
    "settled_writes \<Rightarrow> AttestationProof list \<Rightarrow> IEpochDocument \<Rightarrow> bigint \<Rightarrow> epoch_db \<Rightarrow> epoch_db" where
  "write_epoch settled proofs doc epochNumber db =
     db\<lparr>db_witnessProofs := (if proofs_written settled then db_witnessProofs db @ proofs
                             else db_witnessProofs db),
        db_epochs := (if epoch_written settled
                      then (db_epochs db)(doc_epochNumber doc \<mapsto> doc) else db_epochs db),
        db_oldTargetsDeleted := (if targets_deleted settled
                      then db_oldTargetsDeleted db @ [epochNumber] else db_oldTargetsDeleted db)\<rparr>"

definition add_witness ::
    "externals \<Rightarrow> (bigint, bytes) js_map \<Rightarrow> BlockWitness \<Rightarrow> EpochMerkleTree \<Rightarrow> epoch_error + EpochMerkleTree" where
  "add_witness X roots w t =
     res_bind (witnessToAttestation X w roots) (\<lambda>a.
       case a of None \<Rightarrow> Inr t | Some att \<Rightarrow> addBlockAttestation t att)"

definition proposer_of ::
    "externals \<Rightarrow> EPOCH_config \<Rightarrow> EpochSubmissionWinner option \<Rightarrow> bigint \<Rightarrow> bytes \<times> bytes \<times> bytes \<times> bytes" where
  "proposer_of X cfg winning epochNumber =
     (case winning of
        Some w \<Rightarrow>
          if epochNumber = 0
          then (replicate 32 255, x_deadKey X, x_deadLegacyKey X, replicate (GRAFFITI_LENGTH cfg) 0)
          else (ew_salt w, ew_mldsaPublicKey w, ew_legacyPublicKey w, ew_graffiti w)
      | None \<Rightarrow> (replicate 32 255, x_deadKey X, x_deadLegacyKey X, replicate (GRAFFITI_LENGTH cfg) 0))"

definition epoch_winner_of ::
    "externals \<Rightarrow> bytes \<Rightarrow> bigint \<Rightarrow> bytes \<Rightarrow> bytes \<Rightarrow> bytes \<Rightarrow> bytes \<Rightarrow> EpochSubmissionWinner" where
  "epoch_winner_of X checksumRoot epochNumber salt mldsaPublicKey legacyPublicKey graffiti =
     (let solutionHash = x_sha1 X (calculatePreimage checksumRoot mldsaPublicKey salt)
      in \<lparr>ew_epochNumber = epochNumber,
          ew_matchingBits = countMatchingBits solutionHash (x_sha1 X checksumRoot),
          ew_salt = salt, ew_mldsaPublicKey = mldsaPublicKey,
          ew_legacyPublicKey = legacyPublicKey, ew_solutionHash = solutionHash,
          ew_graffiti = graffiti\<rparr>)"

text \<open>The second half of \<open>finalizeEpoch\<close>, once the proposer is known.\<close>

definition build_epoch ::
    "externals \<Rightarrow> EPOCH_config \<Rightarrow> settled_writes \<Rightarrow> (bigint, bytes) js_map \<Rightarrow> BlockWitness list
     \<Rightarrow> EpochData \<Rightarrow> bytes \<Rightarrow> bytes \<Rightarrow> bytes \<Rightarrow> bytes \<Rightarrow> epoch_db \<Rightarrow> epoch_error + epoch_db" where
  "build_epoch X cfg settled checksumRoots witnesses epochData salt mldsaPublicKey legacyPublicKey
     graffiti db =
     (if length salt \<noteq> 32 then Inl (BadSaltLength (length salt))
      else
        let checksumRoot = ed_checksumRoot epochData; epochNumber = ed_epochNumber epochData;
            startBlock = ed_startBlock epochData; endBlock = ed_endBlock epochData;
            winner = epoch_winner_of X checksumRoot epochNumber salt mldsaPublicKey legacyPublicKey graffiti
        in
        res_bind (setWinner (EpochMerkleTree_new epochData 500000) winner) (\<lambda>t1.
        res_bind (res_fold (add_witness X checksumRoots) witnesses t1) (\<lambda>t2.
        res_bind (freeze X cfg t2) (\<lambda>t3.
        res_bind (rootBuffer X t3) (\<lambda>epochRoot.
        res_bind (epochHash t3) (\<lambda>hash.
        res_bind (getEpochDataProof X t3 (em_epochBytes t3)) (\<lambda>proofs.
          let doc = createEpoch cfg \<lparr>ie_startBlock = startBlock, ie_endBlock = endBlock,
                ie_targetHash = x_sha1 X checksumRoot, ie_target = checksumRoot,
                ie_solution = ew_solutionHash winner, ie_salt = salt,
                ie_mldsaPublicKey = mldsaPublicKey, ie_legacyPublicKey = legacyPublicKey,
                ie_graffiti = Some graffiti, ie_solutionBits = ew_matchingBits winner,
                ie_epochRoot = epochRoot, ie_epochHash = hash, ie_proofs = proofs\<rparr>
          in res_bind (getAllAttestationProofs X t3) (\<lambda>allProofs.
               let db1 = write_epoch settled allProofs doc epochNumber db
               in Inr (db1\<lparr>db_messages := db_messages db1
                         @ [EpochFinalized epochNumber startBlock endBlock
                              (x_toHex X (doc_epochRoot doc))]\<rparr>)))))))))"

definition finalizeEpoch ::
    "externals \<Rightarrow> EPOCH_config \<Rightarrow> node_config \<Rightarrow> settled_writes \<Rightarrow> bigint \<Rightarrow> bigint
     \<Rightarrow> (bigint, bytes) js_map \<Rightarrow> IEpochSubmission list \<Rightarrow> BlockWitness list \<Rightarrow> bigint \<Rightarrow> bytes
     \<Rightarrow> AttestationEpoch \<Rightarrow> bytes option \<Rightarrow> epoch_db \<Rightarrow> epoch_error + epoch_db" where
  "finalizeEpoch X cfg node settled startBlock endBlock checksumRoots submissions witnesses epochNumber
     previousEpochHash attested miningTarget db =
     (let checksumRoot = (case miningTarget of
            Some r \<Rightarrow> if epochNumber = 0 then replicate 32 0 else r | None \<Rightarrow> replicate 32 0);
          targetHash = x_sha1 X checksumRoot;
          epochData = \<lparr>ed_epochNumber = epochNumber, ed_startBlock = startBlock,
            ed_endBlock = endBlock, ed_checksumRoot = checksumRoot,
            ed_previousEpochHash = previousEpochHash,
            ed_attestedEpochNumber = ae_epochNumber attested,
            ed_attestedChecksumRoot = ae_root attested, ed_winner = None\<rparr> in
      res_bind (getBestSubmission X cfg node submissions targetHash endBlock) (\<lambda>winning.
      if (case winning of Some w \<Rightarrow> ew_epochNumber w \<noteq> epochNumber | None \<Rightarrow> False)
      then Inl EpochMismatch
      else
        (case proposer_of X cfg winning epochNumber of
           (salt, mldsaPublicKey, legacyPublicKey, graffiti) \<Rightarrow>
             build_epoch X cfg settled checksumRoots witnesses epochData salt mldsaPublicKey
               legacyPublicKey graffiti db)))"

definition finalizeEpochCompletion ::
    "externals \<Rightarrow> EPOCH_config \<Rightarrow> node_config \<Rightarrow> nat \<Rightarrow> settled_writes \<Rightarrow> bigint \<Rightarrow> epoch_db
     \<Rightarrow> epoch_error + epoch_db" where
  "finalizeEpochCompletion X cfg node maxPerBlock settled epochNumber db =
     (if \<not> EPOCH_ENABLED cfg then Inr db
      else
        let startBlock = epochNumber * BLOCKS_PER_EPOCH cfg;
            endBlock = startBlock + BLOCKS_PER_EPOCH cfg - 1;
            miningTargetBlock = getMiningTargetBlock cfg epochNumber in
        res_bind (getPreviousEpochHash db epochNumber) (\<lambda>lastEpoch.
        res_bind (getAttestationChecksumRoot X db epochNumber) (\<lambda>attested.
        let submissions = (if epochNumber = 0 then [] else db_submissions db epochNumber);
            witnesses = db_witnesses db startBlock endBlock maxPerBlock in
        res_bind (getChecksumRoots X db startBlock endBlock) (\<lambda>roots.
        res_bind (getMiningTargetChecksum X db miningTargetBlock) (\<lambda>miningTarget.
          finalizeEpoch X cfg node settled startBlock endBlock roots submissions witnesses epochNumber
            lastEpoch attested miningTarget db)))))"

text \<open>The plugins learn of the new epoch before the previous one is finalised; the message stays when
  the finalisation throws.\<close>

definition updateEpoch ::
    "externals \<Rightarrow> EPOCH_config \<Rightarrow> node_config \<Rightarrow> nat \<Rightarrow> settled_writes \<Rightarrow> bigint \<Rightarrow> epoch_db
     \<Rightarrow> epoch_db \<times> epoch_error option" where
  "updateEpoch X cfg node maxPerBlock settled tip db =
     (let n = BLOCKS_PER_EPOCH cfg in
      if tip mod n = 0 \<and> tip > 0 then
        let epochToFinalize = bigint_div tip n - 1;
            newEpochNumber = bigint_div tip n;
            newEpochStartBlock = newEpochNumber * n;
            newEpochEndBlock = newEpochStartBlock + n - 1;
            db1 = db\<lparr>db_messages := db_messages db
                    @ [EpochChange newEpochNumber newEpochStartBlock newEpochEndBlock]\<rparr>
        in (case finalizeEpochCompletion X cfg node maxPerBlock settled epochToFinalize db1 of
              Inl e \<Rightarrow> (db1, Some e) | Inr db2 \<Rightarrow> (db2, None))
      else (db, None))"

subsection \<open>\<open>EpochReindexer\<close>\<close>

record EpochReindexer =
  isReindexing :: bool
  aborted :: bool

datatype reindex_result = ReindexDone bool | ReindexThrew epoch_error

fun reindex_loop ::
    "externals \<Rightarrow> EPOCH_config \<Rightarrow> node_config \<Rightarrow> nat \<Rightarrow> (bigint \<Rightarrow> settled_writes) \<Rightarrow> bool \<Rightarrow> bigint list
     \<Rightarrow> epoch_db \<Rightarrow> epoch_db \<times> reindex_result" where
  "reindex_loop X cfg node mx settled stop [] db = (db, ReindexDone True)"
| "reindex_loop X cfg node mx settled stop (e # es) db =
     (if stop then (db, ReindexDone False)
      else (case finalizeEpochCompletion X cfg node mx (settled e) e db of
              Inl err \<Rightarrow> (db, ReindexThrew err)
            | Inr db' \<Rightarrow> reindex_loop X cfg node mx settled stop es db'))"

definition deleteEpochsFromEpochNumber :: "bigint \<Rightarrow> epoch_db \<Rightarrow> epoch_db" where
  "deleteEpochsFromEpochNumber n db =
     db\<lparr>db_epochs := (\<lambda>k. if k \<ge> n then None else db_epochs db k)\<rparr>"

definition reindexEpochs ::
    "externals \<Rightarrow> EPOCH_config \<Rightarrow> node_config \<Rightarrow> nat \<Rightarrow> (bigint \<Rightarrow> settled_writes) \<Rightarrow> EpochReindexer
     \<Rightarrow> bigint \<Rightarrow> bigint \<Rightarrow> epoch_db \<Rightarrow> EpochReindexer \<times> epoch_db \<times> reindex_result" where
  "reindexEpochs X cfg node mx settled r fromEpoch currentBlockHeight db =
     (if isReindexing r then (r, db, ReindexThrew ReindexInProgress)
      else
        let lastCompletedEpoch = (if currentBlockHeight > 0
              then bigint_div currentBlockHeight (BLOCKS_PER_EPOCH cfg) - 1 else - 1);
            r' = \<lparr>isReindexing = False, aborted = False\<rparr>
        in if lastCompletedEpoch < 0 then (r', db, ReindexDone True)
           else if fromEpoch > lastCompletedEpoch then (r', db, ReindexDone True)
           else
             let (db', res) = reindex_loop X cfg node mx settled False
                   (block_range fromEpoch lastCompletedEpoch) (deleteEpochsFromEpochNumber fromEpoch db)
             in (r', db', res))"

subsection \<open>The order of the tie-break\<close>

lemma compareBytes_eq_0 [simp]: "compareBytes a b = 0 \<longleftrightarrow> a = b"
  by (induction a b rule: compareBytes.induct) (auto simp: word_uint_eq_iff)

lemma compareBytes_le_0: "compareBytes a b \<le> 0 \<longleftrightarrow> a \<le> b"
  by (induction a b rule: compareBytes.induct) (auto simp: word_less_def word_uint_eq_iff)

definition tie_key :: "IEpochSubmission \<Rightarrow> bytes \<times> bytes \<times> bytes \<times> bytes" where
  "tie_key s = (su_mldsaPublicKey s, su_txHash s, su_salt s, su_txId s)"

lemma compareSubmissions_key:
  assumes "length (su_mldsaPublicKey a) = 32" "length (su_mldsaPublicKey b) = 32"
  shows "\<exists>c. compareSubmissions t a b = Inr c \<and> (c \<le> 0 \<longleftrightarrow> tie_key a \<le> tie_key b)"
proof -
  have "compareBytes x y \<noteq> 0 \<Longrightarrow> compareBytes x y \<le> 0 \<longleftrightarrow> x < y" for x y
    using compareBytes_le_0 [of x y] by (auto simp: less_le)
  then show ?thesis
    using assms
    by (auto simp: compareSubmissions_def Let_def tie_key_def compareBytes_le_0 less_eq_prod_def)
qed

lemma getWinningSubmission_key:
  assumes "\<forall>s \<in> set xs. length (su_mldsaPublicKey s) = 32" "xs \<noteq> []"
  shows "getWinningSubmission xs t = Inr (hd (sort_key tie_key xs))"
proof -
  have "js_sort (compareSubmissions t) xs = Inr (sort_key tie_key xs)"
    using assms(1) by (intro js_sort_key compareSubmissions_key) auto
  moreover obtain w ws where "sort_key tie_key xs = w # ws"
    using assms(2) by (metis list.exhaust set_empty set_sort)
  ultimately show ?thesis by (simp add: getWinningSubmission_def)
qed

lemma hd_sort_key_least:
  fixes key :: "'a \<Rightarrow> 'k :: linorder"
  assumes "xs \<noteq> []"
  shows "hd (sort_key key xs) \<in> set xs \<and> (\<forall>x \<in> set xs. key (hd (sort_key key xs)) \<le> key x)"
proof -
  obtain w ws where w: "sort_key key xs = w # ws"
    using assms by (metis list.exhaust set_empty set_sort)
  have "sorted (map key (w # ws))" using sorted_sort_key [of key xs] by (simp add: w)
  moreover have "set xs = set (w # ws)" using set_sort [of key xs] by (simp add: w)
  ultimately show ?thesis by (auto simp: w)
qed

subsection \<open>The best submissions\<close>

definition sub_bits :: "bytes \<Rightarrow> IEpochSubmission \<Rightarrow> nat" where
  "sub_bits t s = countMatchingBits (su_solution s) t"

definition best_bits :: "bytes \<Rightarrow> IEpochSubmission list \<Rightarrow> nat" where
  "best_bits t xs = Max (insert 0 (sub_bits t ` {s \<in> set xs. length (su_solution s) = 20}))"

definition best_subs :: "bytes \<Rightarrow> IEpochSubmission list \<Rightarrow> IEpochSubmission list" where
  "best_subs t xs = filter (\<lambda>s. length (su_solution s) = 20 \<and> sub_bits t s = best_bits t xs) xs"

lemma best_bits_snoc:
  "best_bits t (xs @ [x]) =
     (if length (su_solution x) = 20 then max (best_bits t xs) (sub_bits t x) else best_bits t xs)"
proof (cases "length (su_solution x) = 20")
  case True
  have set: "{s \<in> set (xs @ [x]). length (su_solution s) = 20}
      = insert x {s \<in> set xs. length (su_solution s) = 20}" using True by auto
  have "Max (insert 0 (insert (sub_bits t x) (sub_bits t ` {s \<in> set xs. length (su_solution s) = 20})))
      = max (sub_bits t x) (Max (insert 0 (sub_bits t ` {s \<in> set xs. length (su_solution s) = 20})))"
    by (subst insert_commute) (rule Max_insert, simp_all)
  with True set show ?thesis by (simp add: best_bits_def max.commute)
next
  case False
  then have "{s \<in> set (xs @ [x]). length (su_solution s) = 20}
      = {s \<in> set xs. length (su_solution s) = 20}" by auto
  with False show ?thesis by (simp add: best_bits_def)
qed

lemma sub_bits_le_best: "s \<in> set xs \<Longrightarrow> length (su_solution s) = 20 \<Longrightarrow> sub_bits t s \<le> best_bits t xs"
  unfolding best_bits_def by (rule Max_ge) auto

lemma best_subs_nonempty:
  assumes "s \<in> set xs" "length (su_solution s) = 20"
  shows "best_subs t xs \<noteq> []"
proof -
  let ?A = "sub_bits t ` {s \<in> set xs. length (su_solution s) = 20}"
  have "best_bits t xs \<in> insert 0 ?A" unfolding best_bits_def by (rule Max_in) auto
  moreover have "sub_bits t s = best_bits t xs" if "best_bits t xs = 0"
    using sub_bits_le_best [OF assms, of t] that by simp
  ultimately show ?thesis using assms by (auto simp: best_subs_def filter_empty_conv)
qed

lemma best_loop: "fold (best_step t) xs ([], 0) = (best_subs t xs, best_bits t xs)"
proof (induction xs rule: rev_induct)
  case Nil
  then show ?case by (simp add: best_subs_def best_bits_def)
next
  case (snoc x xs)
  have none: "best_bits t xs < m \<Longrightarrow>
      filter (\<lambda>s. length (su_solution s) = 20 \<and> sub_bits t s = m) xs = []" for m
    using sub_bits_le_best [of _ xs t] by (fastforce simp: filter_empty_conv)
  show ?case
    using none [of "sub_bits t x"]
    by (auto simp: snoc best_step_def [of t x] Let_def best_subs_def best_bits_snoc max_def
        simp flip: sub_bits_def)
qed

lemma best_subs_perm: "mset xs = mset ys \<Longrightarrow> mset (best_subs t xs) = mset (best_subs t ys)"
proof -
  assume eq: "mset xs = mset ys"
  then have "set xs = set ys" by (metis set_mset_mset)
  then have "best_bits t xs = best_bits t ys" by (simp add: best_bits_def)
  with eq show ?thesis by (simp add: best_subs_def mset_filter)
qed

lemma keep_whitelisted_loop:
  "\<forall>s \<in> set xs. x_address X (su_mldsaPublicKey s) \<noteq> None \<Longrightarrow>
   res_fold (keep_whitelisted X key) xs acc
   = Inr (acc @ filter (\<lambda>s. x_address X (su_mldsaPublicKey s) = Some key) xs)"
  by (induction xs arbitrary: acc) (auto simp: keep_whitelisted_def)

text \<open>The key the whitelist admits at a height, and the submissions it leaves.\<close>

definition active_whitelist :: "EPOCH_config \<Rightarrow> node_config \<Rightarrow> bigint \<Rightarrow> address option" where
  "active_whitelist cfg node endBlock =
     (case EARLY_MINING cfg of None \<Rightarrow> None
      | Some table \<Rightarrow>
          (case per_network_get table node of None \<Rightarrow> None
           | Some n \<Rightarrow> if EM_ENABLED n \<and> whitelist_active n endBlock then WHITELISTED_PUBLIC_KEY n
                       else None))"

definition eligible :: "externals \<Rightarrow> address option \<Rightarrow> IEpochSubmission \<Rightarrow> bool" where
  "eligible X wl s \<longleftrightarrow> wl = None \<or> x_address X (su_mldsaPublicKey s) = wl"

lemma filterEarlyMining_eligible:
  assumes "\<forall>s \<in> set xs. x_address X (su_mldsaPublicKey s) \<noteq> None"
  shows "filterEarlyMiningSubmissions X cfg node xs endBlock
    = Inr (filter (eligible X (active_whitelist cfg node endBlock)) xs)"
  using assms
  by (auto simp: filterEarlyMiningSubmissions_def active_whitelist_def
      eligible_def [abs_def] keep_whitelisted_loop split: option.splits)

definition winner_of :: "EPOCH_config \<Rightarrow> nat \<Rightarrow> IEpochSubmission \<Rightarrow> EpochSubmissionWinner" where
  "winner_of cfg bits w =
     \<lparr>ew_epochNumber = su_epochNumber w, ew_matchingBits = bits, ew_salt = su_salt w,
      ew_mldsaPublicKey = su_mldsaPublicKey w, ew_legacyPublicKey = su_legacyPublicKey w,
      ew_solutionHash = su_hash w,
      ew_graffiti = (case su_graffiti w of Some g \<Rightarrow> g | None \<Rightarrow> replicate (GRAFFITI_LENGTH cfg) 0)\<rparr>"

definition submissions_ok :: "externals \<Rightarrow> IEpochSubmission list \<Rightarrow> bool" where
  "submissions_ok X xs \<longleftrightarrow> (\<forall>s \<in> set xs. length (su_mldsaPublicKey s) = 32
     \<and> x_address X (su_mldsaPublicKey s) \<noteq> None)"

lemma getBestSubmission_eq:
  assumes "submissions_ok X xs"
  shows "getBestSubmission X cfg node xs t endBlock =
    (let best = best_subs t (filter (eligible X (active_whitelist cfg node endBlock)) xs) in
     if best = [] then Inr None
     else Inr (Some (winner_of cfg (sub_bits t (hd best)) (hd (sort_key tie_key best)))))"
proof -
  let ?el = "filter (eligible X (active_whitelist cfg node endBlock)) xs"
  let ?best = "best_subs t ?el"
  have fil: "filterEarlyMiningSubmissions X cfg node xs endBlock = Inr ?el"
    using assms by (intro filterEarlyMining_eligible) (auto simp: submissions_ok_def)
  have empty: "best_subs t [] = []" by (simp add: best_subs_def)
  show ?thesis
  proof (cases "?best = []")
    case True
    with fil show ?thesis
      by (auto simp: getBestSubmission_def best_loop Let_def)
  next
    case False
    have "\<forall>s \<in> set ?best. length (su_mldsaPublicKey s) = 32"
      using assms by (auto simp: best_subs_def submissions_ok_def)
    note win = getWinningSubmission_key [OF this False]
    have "hd ?best \<in> set ?best" using False by simp
    then have "best_bits t ?el = sub_bits t (hd ?best)" by (simp add: best_subs_def)
    with fil win False show ?thesis
      by (auto simp: getBestSubmission_def best_loop winner_of_def Let_def empty)
  qed
qed

subsection \<open>The document of a finalised epoch\<close>

lemma add_witness_frame:
  "res_fold (add_witness X roots) ws t = Inr t' \<Longrightarrow>
   em_epochData t' = em_epochData t \<and> em_maxAttestations t' = em_maxAttestations t \<and> em_frozen t' = em_frozen t"
proof (induction ws arbitrary: t)
  case (Cons w ws)
  then obtain t1 where t1: "add_witness X roots w t = Inr t1"
      "res_fold (add_witness X roots) ws t1 = Inr t'" by auto
  have "em_epochData t1 = em_epochData t \<and> em_maxAttestations t1 = em_maxAttestations t
      \<and> em_frozen t1 = em_frozen t"
    using t1(1) by (auto simp: add_witness_def addBlockAttestation_def split: option.splits if_splits)
  with Cons.IH [OF t1(2)] show ?case by simp
qed simp

text \<open>What the stored document says of the epoch's data \<open>d\<close> and its winner \<open>w\<close>.\<close>

definition document_ok ::
    "externals \<Rightarrow> EPOCH_config \<Rightarrow> IEpochDocument \<Rightarrow> EpochData \<Rightarrow> EpochSubmissionWinner \<Rightarrow> bool" where
  "document_ok X cfg doc d w \<longleftrightarrow>
     ed_winner d = Some w
     \<and> doc_epochNumber doc = bigint_div (ed_startBlock d) (BLOCKS_PER_EPOCH cfg)
     \<and> doc_startBlock doc = ed_startBlock d
     \<and> doc_endBlock doc = ed_startBlock d + BLOCKS_PER_EPOCH cfg - 1
     \<and> doc_targetHash doc = x_sha1 X (ed_checksumRoot d)
     \<and> doc_solution doc = x_sha1 X (calculatePreimage (ed_checksumRoot d) (ew_mldsaPublicKey w) (ew_salt w))
     \<and> ew_solutionHash w = doc_solution doc \<and> length (ew_salt w) = 32
     \<and> ew_matchingBits w = countMatchingBits (doc_solution doc) (doc_targetHash doc)
     \<and> doc_difficultyScaled doc = bigint_toString (2 ^ ew_matchingBits w)
     \<and> doc_mldsaPublicKey doc = ew_mldsaPublicKey w \<and> doc_salt doc = ew_salt w
     \<and> doc_graffiti doc = Some (ew_graffiti w)
     \<and> (\<exists>bs leaves. epochDataToBytes X cfg d = Inr bs \<and> bs \<in> set leaves
          \<and> doc_epochHash doc = x_sha256 X bs \<and> doc_epochRoot doc = x_root X leaves
          \<and> x_proof X leaves bs = Some (doc_proofs doc))"

lemma build_epoch_document:
  assumes "build_epoch X cfg settled roots wits d salt key legacy graffiti db = Inr db'"
  obtains doc w where "document_ok X cfg doc (d\<lparr>ed_winner := Some w\<rparr>) w"
    "ew_salt w = salt" "ew_mldsaPublicKey w = key"
    "epoch_written settled \<Longrightarrow> db_epochs db' = (db_epochs db)(doc_epochNumber doc \<mapsto> doc)"
    "\<not> epoch_written settled \<Longrightarrow> db_epochs db' = db_epochs db"
    "db_headers db' = db_headers db"
proof -
  define w where "w = epoch_winner_of X (ed_checksumRoot d) (ed_epochNumber d) salt key legacy graffiti"
  from assms obtain t1 t2 t3 rt h pf allp where
    t1: "setWinner (EpochMerkleTree_new d 500000) w = Inr t1"
    and t2: "res_fold (add_witness X roots) wits t1 = Inr t2" and t3: "freeze X cfg t2 = Inr t3"
    and reads: "rootBuffer X t3 = Inr rt" "epochHash t3 = Inr h"
      "getEpochDataProof X t3 (em_epochBytes t3) = Inr pf" and salt: "length salt = 32"
    and db': "db' = (let db1 = write_epoch settled allp (createEpoch cfg
        \<lparr>ie_startBlock = ed_startBlock d, ie_endBlock = ed_endBlock d,
         ie_targetHash = x_sha1 X (ed_checksumRoot d), ie_target = ed_checksumRoot d,
         ie_solution = ew_solutionHash w, ie_salt = salt, ie_mldsaPublicKey = key,
         ie_legacyPublicKey = legacy, ie_graffiti = Some graffiti,
         ie_solutionBits = ew_matchingBits w, ie_epochRoot = rt, ie_epochHash = h,
         ie_proofs = pf\<rparr>) (ed_epochNumber d) db
      in db1\<lparr>db_messages := db_messages db1 @ [EpochFinalized (ed_epochNumber d) (ed_startBlock d)
               (ed_endBlock d) (x_toHex X rt)]\<rparr>)"
    unfolding build_epoch_def Let_def w_def [symmetric]
    by (auto simp: createEpoch_def split: if_splits)
  obtain bs where bs: "tree_ok X cfg t3 bs" "em_epochData t3 = em_epochData t2"
    using t3 by (rule freeze_tree_ok)
  have d: "em_epochData t3 = d\<lparr>ed_winner := Some w\<rparr>"
    using bs(2) add_witness_frame [OF t2] t1 by (auto simp: setWinner_def EpochMerkleTree_new_def)
  obtain leaves where leaves: "em_tree t3 = Some leaves" "bs \<in> set leaves" "em_epochBytes t3 = Some bs"
      "em_epochHash t3 = Some (x_sha256 X bs)" "epochDataToBytes X cfg (d\<lparr>ed_winner := Some w\<rparr>) = Inr bs"
    using bs(1) d by (auto simp: tree_ok_def)
  have r: "rt = x_root X leaves" "h = x_sha256 X bs" "x_proof X leaves bs = Some pf"
    using reads leaves
    by (auto simp: rootBuffer_def tree_leaves_def epochHash_def getEpochDataProof_def leaf_proof_def
        split: option.splits)
  have w: "ew_salt w = salt" "ew_mldsaPublicKey w = key" "ew_graffiti w = graffiti"
      "ew_solutionHash w = x_sha1 X (calculatePreimage (ed_checksumRoot d) key salt)"
      "ew_matchingBits w = countMatchingBits (ew_solutionHash w) (x_sha1 X (ed_checksumRoot d))"
    by (simp_all add: w_def epoch_winner_of_def Let_def)
  show ?thesis
  proof (rule that [of "createEpoch cfg
        \<lparr>ie_startBlock = ed_startBlock d, ie_endBlock = ed_endBlock d,
         ie_targetHash = x_sha1 X (ed_checksumRoot d), ie_target = ed_checksumRoot d,
         ie_solution = ew_solutionHash w, ie_salt = salt, ie_mldsaPublicKey = key,
         ie_legacyPublicKey = legacy, ie_graffiti = Some graffiti,
         ie_solutionBits = ew_matchingBits w, ie_epochRoot = rt, ie_epochHash = h,
         ie_proofs = pf\<rparr>" w])
    show "document_ok X cfg (createEpoch cfg
        \<lparr>ie_startBlock = ed_startBlock d, ie_endBlock = ed_endBlock d,
         ie_targetHash = x_sha1 X (ed_checksumRoot d), ie_target = ed_checksumRoot d,
         ie_solution = ew_solutionHash w, ie_salt = salt, ie_mldsaPublicKey = key,
         ie_legacyPublicKey = legacy, ie_graffiti = Some graffiti,
         ie_solutionBits = ew_matchingBits w, ie_epochRoot = rt, ie_epochHash = h,
         ie_proofs = pf\<rparr>) (d\<lparr>ed_winner := Some w\<rparr>) w"
      using leaves r salt
      by (auto simp: document_ok_def createEpoch_def bitsToScaledDifficulty_def w)
  qed (simp_all add: db' w write_epoch_def Let_def)
qed

lemma completion_document:
  assumes run: "finalizeEpochCompletion X cfg node mx settled n db = Inr db'"
    and cfg: "EPOCH_ENABLED cfg" "0 < BLOCKS_PER_EPOCH cfg" "0 \<le> n"
  obtains doc d w where "document_ok X cfg doc d w" "doc_epochNumber doc = n"
    "ed_epochNumber d = n" "ed_startBlock d = n * BLOCKS_PER_EPOCH cfg"
    "ed_endBlock d = n * BLOCKS_PER_EPOCH cfg + BLOCKS_PER_EPOCH cfg - 1"
    "getPreviousEpochHash db n = Inr (ed_previousEpochHash d)"
    "0 < n \<Longrightarrow> getMiningTargetChecksum X db (getMiningTargetBlock cfg n) = Inr (Some (ed_checksumRoot d))"
    "epoch_written settled \<Longrightarrow> db_epochs db' = (db_epochs db)(n \<mapsto> doc)"
    "\<not> epoch_written settled \<Longrightarrow> db_epochs db' = db_epochs db"
    "db_headers db' = db_headers db"
proof -
  let ?b = "BLOCKS_PER_EPOCH cfg"
  from run cfg(1) obtain prev att roots target where
    prev: "getPreviousEpochHash db n = Inr prev"
    and target: "getMiningTargetChecksum X db (getMiningTargetBlock cfg n) = Inr target"
    and fin: "finalizeEpoch X cfg node settled (n * ?b) (n * ?b + ?b - 1) roots
      (if n = 0 then [] else db_submissions db n) (db_witnesses db (n * ?b) (n * ?b + ?b - 1) mx) n
      prev att target db = Inr db'"
    by (auto simp: finalizeEpochCompletion_def Let_def)
  define d where "d = \<lparr>ed_epochNumber = n, ed_startBlock = n * ?b, ed_endBlock = n * ?b + ?b - 1,
      ed_checksumRoot = (case target of Some r \<Rightarrow> if n = 0 then replicate 32 0 else r
                         | None \<Rightarrow> replicate 32 0),
      ed_previousEpochHash = prev, ed_attestedEpochNumber = ae_epochNumber att,
      ed_attestedChecksumRoot = ae_root att, ed_winner = None\<rparr>"
  from fin obtain winning where
    "(case proposer_of X cfg winning n of (salt, key, legacy, graffiti) \<Rightarrow>
       build_epoch X cfg settled roots (db_witnesses db (n * ?b) (n * ?b + ?b - 1) mx) d salt key
         legacy graffiti db) = Inr db'"
    unfolding finalizeEpoch_def Let_def d_def [symmetric] res_bind_Inr_iff by (auto split: if_splits)
  then obtain salt key legacy graffiti where
    build: "build_epoch X cfg settled roots (db_witnesses db (n * ?b) (n * ?b + ?b - 1) mx) d salt key
      legacy graffiti db = Inr db'"
    by (cases "proposer_of X cfg winning n") auto
  obtain doc w where doc: "document_ok X cfg doc (d\<lparr>ed_winner := Some w\<rparr>) w"
      "epoch_written settled \<Longrightarrow> db_epochs db' = (db_epochs db)(doc_epochNumber doc \<mapsto> doc)"
      "\<not> epoch_written settled \<Longrightarrow> db_epochs db' = db_epochs db" "db_headers db' = db_headers db"
    using build by (rule build_epoch_document) blast
  have n: "doc_epochNumber doc = n" using doc(1) cfg by (simp add: document_ok_def d_def)
  have "target \<noteq> None" if "0 < n"
    using target that by (auto simp: getMiningTargetChecksum_def getMiningTargetBlock_def split: option.splits)
  then show ?thesis
    using doc n prev target by (intro that [of doc "d\<lparr>ed_winner := Some w\<rparr>" w]) (auto simp: d_def)
qed

subsection \<open>When a finalisation succeeds\<close>

definition header_ok :: "externals \<Rightarrow> bigint \<Rightarrow> BlockHeader \<Rightarrow> bool" where
  "header_ok X h bh \<longleftrightarrow> bh_height bh = h \<and> (\<exists>r. hex_or X (bh_checksumRoot bh) = Inr r \<and> length r = 32)"

lemma checksum_root_ok: "header_ok X h bh \<Longrightarrow> \<exists>r. checksum_root X bh = Inr r"
  by (auto simp: header_ok_def checksum_root_def)

lemma set_block_range: "set (block_range a b) = {a..b}"
proof -
  have "h \<in> (\<lambda>i. a + int i) ` {0..<nat (b - a + 1)}" if "a \<le> h" "h \<le> b" for h
    using that by (intro image_eqI [of _ _ "nat (h - a)"]) auto
  then show ?thesis by (auto simp: block_range_def)
qed

lemma checksum_roots_loop:
  "\<forall>h \<in> set hs. \<exists>bh. db_headers db h = Some bh \<and> header_ok X h bh \<Longrightarrow>
   \<exists>m'. res_fold (\<lambda>header m.
         case header of
           None \<Rightarrow> Inr m
         | Some bh \<Rightarrow> res_bind (checksum_root X bh) (\<lambda>r. Inr (AList.update (bh_height bh) r m)))
       (map (db_headers db) hs) m = Inr m' \<and> fst ` set m \<union> set hs \<subseteq> fst ` set m'"
proof (induction hs arbitrary: m)
  case (Cons h hs)
  from Cons.prems obtain bh where h: "db_headers db h = Some bh" "header_ok X h bh" by auto
  with checksum_root_ok [of X h bh] obtain r where
    bh: "db_headers db h = Some bh" "bh_height bh = h" "checksum_root X bh = Inr r"
    by (auto simp: header_ok_def)
  have "\<forall>h \<in> set hs. \<exists>bh. db_headers db h = Some bh \<and> header_ok X h bh" using Cons.prems by simp
  from Cons.IH [OF this, of "AList.update h r m"] bh show ?case
    by (auto simp: dom_update)
qed simp

lemma getChecksumRoots_ok:
  assumes "\<forall>h \<in> {a..b}. \<exists>bh. db_headers db h = Some bh \<and> header_ok X h bh"
  shows "\<exists>m. getChecksumRoots X db a b = Inr m \<and> (\<forall>h \<in> {a..b}. map_of m h \<noteq> None)"
  using checksum_roots_loop [of "block_range a b" db X "[]"] assms
  by (fastforce simp: getChecksumRoots_def set_block_range map_of_eq_None_iff)

definition witness_ok :: "externals \<Rightarrow> bigint \<Rightarrow> bigint \<Rightarrow> BlockWitness \<Rightarrow> bool" where
  "witness_ok X a b w \<longleftrightarrow> wi_blockNumber w \<in> {a..b}
     \<and> (case wi_publicKey w of None \<Rightarrow> True | Some k \<Rightarrow> x_address X k \<noteq> None)"

lemma add_witness_ok:
  assumes "witness_ok X (ed_startBlock (em_epochData t)) (ed_endBlock (em_epochData t)) w"
    and "map_of roots (wi_blockNumber w) \<noteq> None" "\<not> em_frozen t"
  shows "\<exists>t'. add_witness X roots w t = Inr t'
    \<and> length (em_attestations t') \<le> Suc (length (em_attestations t))"
  using assms
  by (auto simp: add_witness_def witnessToAttestation_def witness_ok_def addBlockAttestation_def
      split: option.splits)

lemma add_witnesses_ok:
  "\<forall>w \<in> set ws. witness_ok X (ed_startBlock (em_epochData t)) (ed_endBlock (em_epochData t)) w
      \<and> map_of roots (wi_blockNumber w) \<noteq> None \<Longrightarrow> \<not> em_frozen t \<Longrightarrow>
   \<exists>t'. res_fold (add_witness X roots) ws t = Inr t'
     \<and> length (em_attestations t') \<le> length (em_attestations t) + length ws"
proof (induction ws arbitrary: t)
  case (Cons w ws)
  from Cons.prems add_witness_ok [of X t w roots] obtain t1 where
    t1: "add_witness X roots w t = Inr t1" "length (em_attestations t1) \<le> Suc (length (em_attestations t))"
    by auto
  have f: "em_epochData t1 = em_epochData t" "\<not> em_frozen t1"
    using add_witness_frame [of X roots "[w]" t t1] t1(1) Cons.prems(2) by simp_all
  have "\<forall>w \<in> set ws. witness_ok X (ed_startBlock (em_epochData t1)) (ed_endBlock (em_epochData t1)) w
      \<and> map_of roots (wi_blockNumber w) \<noteq> None"
    using Cons.prems(1) f(1) by simp
  from Cons.IH [OF this f(2)] t1 show ?case by fastforce
qed simp

lemma freeze_ok:
  assumes "x_fromHex X ZERO_HASH \<noteq> None" "\<not> em_frozen t" "ed_winner (em_epochData t) = Some w"
    and "length (ew_graffiti w) \<le> GRAFFITI_LENGTH cfg"
  shows "\<exists>t'. freeze X cfg t = Inr t'"
proof -
  have "\<exists>bs. epochDataToBytes X cfg (em_epochData t) = Inr bs"
    using assms(3,4) by (simp add: epochDataToBytes_def Let_def)
  with assms(1,2) show ?thesis
    by (auto simp: freeze_def generateTree_def addDummyAttestations_def Let_def split: if_splits)
qed

lemma build_epoch_ok:
  assumes X: "externals_ok X"
    and ws: "\<forall>w \<in> set ws. witness_ok X (ed_startBlock d) (ed_endBlock d) w
              \<and> map_of roots (wi_blockNumber w) \<noteq> None" "length ws + 2 \<le> 500000"
    and salt: "length salt = 32" and graffiti: "length graffiti \<le> GRAFFITI_LENGTH cfg"
  shows "\<exists>db'. build_epoch X cfg settled roots ws d salt key legacy graffiti db = Inr db'"
proof -
  define w where "w = epoch_winner_of X (ed_checksumRoot d) (ed_epochNumber d) salt key legacy graffiti"
  define t1 where "t1 = (EpochMerkleTree_new d 500000)\<lparr>em_epochData := d\<lparr>ed_winner := Some w\<rparr>\<rparr>"
  have t1: "setWinner (EpochMerkleTree_new d 500000) w = Inr t1"
    by (simp add: setWinner_def EpochMerkleTree_new_def t1_def)
  have "\<exists>t2. res_fold (add_witness X roots) ws t1 = Inr t2
      \<and> length (em_attestations t2) \<le> length (em_attestations t1) + length ws"
    by (rule add_witnesses_ok) (use ws(1) in \<open>simp_all add: t1_def EpochMerkleTree_new_def\<close>)
  then obtain t2 where t2: "res_fold (add_witness X roots) ws t1 = Inr t2"
      "length (em_attestations t2) \<le> length ws"
    by (auto simp: t1_def EpochMerkleTree_new_def)
  note fr = add_witness_frame [OF t2(1)]
  have "ew_graffiti w = graffiti" by (simp add: w_def epoch_winner_of_def Let_def)
  with fr graffiti X obtain t3 where t3: "freeze X cfg t2 = Inr t3"
    using freeze_ok [of X t2 w cfg] by (auto simp: externals_ok_def t1_def EpochMerkleTree_new_def)
  obtain bs where bs: "tree_ok X cfg t3 bs" "em_maxAttestations t3 = em_maxAttestations t2"
      "length (em_attestations t3) \<le> length (em_attestations t2) + 2"
    using t3 by (rule freeze_tree_ok)
  obtain leaves where leaves: "em_tree t3 = Some leaves" "bs \<in> set leaves"
    using bs(1) by (auto simp: tree_ok_def)
  have len: "length (em_attestations t3) \<le> em_maxAttestations t3"
    using bs t2(2) ws(2) fr by (simp add: t1_def EpochMerkleTree_new_def)
  obtain ps where ps: "getAllAttestationProofs X t3 = Inr ps"
    using all_attestation_proofs_frozen [OF X bs(1) leaves(1) len] by blast
  from X leaves(2) obtain pf where "x_proof X leaves bs = Some pf" unfolding externals_ok_def by blast
  then have "rootBuffer X t3 = Inr (x_root X leaves)" "epochHash t3 = Inr (x_sha256 X bs)"
      "getEpochDataProof X t3 (em_epochBytes t3) = Inr pf"
    using bs(1) leaves
    by (simp_all add: rootBuffer_def tree_leaves_def epochHash_def getEpochDataProof_def leaf_proof_def
        tree_ok_def)
  then show ?thesis
    using salt t1 t2(1) t3 ps by (simp add: build_epoch_def Let_def flip: w_def)
qed

text \<open>What the database must hold for an epoch to be finalised.\<close>

definition epoch_inputs_ok :: "externals \<Rightarrow> EPOCH_config \<Rightarrow> nat \<Rightarrow> bigint \<Rightarrow> epoch_db \<Rightarrow> bool" where
  "epoch_inputs_ok X cfg mx n db \<longleftrightarrow>
     (let a = n * BLOCKS_PER_EPOCH cfg; b = a + BLOCKS_PER_EPOCH cfg - 1 in
      (\<forall>h \<in> {max 0 (a - 1)..b}. \<exists>bh. db_headers db h = Some bh \<and> header_ok X h bh)
      \<and> (0 < n \<longrightarrow> db_epochs db (n - 1) \<noteq> None)
      \<and> (4 \<le> n \<longrightarrow> (\<exists>e bh. db_epochs db (n - 4) = Some e \<and> db_headers db (doc_endBlock e) = Some bh
                          \<and> header_ok X (doc_endBlock e) bh))
      \<and> submissions_ok X (db_submissions db n)
      \<and> (\<forall>s \<in> set (db_submissions db n). su_epochNumber s = n \<and> length (su_salt s) = 32
            \<and> (\<forall>g. su_graffiti s = Some g \<longrightarrow> length g \<le> GRAFFITI_LENGTH cfg))
      \<and> (\<forall>w \<in> set (db_witnesses db a b mx). witness_ok X a b w)
      \<and> length (db_witnesses db a b mx) + 2 \<le> 500000)"

lemma best_submission_fields:
  assumes "submissions_ok X xs" "getBestSubmission X cfg node xs t endBlock = Inr (Some w)"
  obtains s where "s \<in> set xs" "w = winner_of cfg (sub_bits t s) s"
    "s \<in> set (best_subs t (filter (eligible X (active_whitelist cfg node endBlock)) xs))"
    "\<forall>s' \<in> set (best_subs t (filter (eligible X (active_whitelist cfg node endBlock)) xs)).
       tie_key s \<le> tie_key s'"
proof -
  let ?best = "best_subs t (filter (eligible X (active_whitelist cfg node endBlock)) xs)"
  have ne: "?best \<noteq> []" and w: "w = winner_of cfg (sub_bits t (hd ?best)) (hd (sort_key tie_key ?best))"
    using assms(2) getBestSubmission_eq [OF assms(1), of cfg node t endBlock]
    by (auto simp: Let_def split: if_splits)
  have s: "hd (sort_key tie_key ?best) \<in> set ?best"
      "\<forall>s' \<in> set ?best. tie_key (hd (sort_key tie_key ?best)) \<le> tie_key s'"
    using hd_sort_key_least [OF ne, of tie_key] by auto
  have "hd ?best \<in> set ?best" using ne by simp
  then have "sub_bits t (hd ?best) = sub_bits t (hd (sort_key tie_key ?best))"
    using s(1) by (simp add: best_subs_def)
  with w s show ?thesis by (intro that [of "hd (sort_key tie_key ?best)"]) (auto simp: best_subs_def)
qed

lemma proposer_ok:
  assumes "submissions_ok X subs" "getBestSubmission X cfg node subs t b = Inr winning"
    and "\<forall>s \<in> set subs. su_epochNumber s = n \<and> length (su_salt s) = 32
          \<and> (\<forall>g. su_graffiti s = Some g \<longrightarrow> length g \<le> GRAFFITI_LENGTH cfg)"
  shows "\<exists>salt key legacy graffiti. proposer_of X cfg winning n = (salt, key, legacy, graffiti)
    \<and> length salt = 32 \<and> length graffiti \<le> GRAFFITI_LENGTH cfg
    \<and> (\<forall>w. winning = Some w \<longrightarrow> ew_epochNumber w = n)"
proof (cases winning)
  case None
  then show ?thesis by (simp add: proposer_of_def)
next
  case (Some w)
  obtain s where s: "s \<in> set subs" "w = winner_of cfg (sub_bits t s) s"
    using assms(1) assms(2) [unfolded Some] by (rule best_submission_fields)
  then show ?thesis
    using assms(3) Some by (auto simp: proposer_of_def winner_of_def split: option.splits)
qed

lemma completion_ok:
  assumes X: "externals_ok X" and ok: "epoch_inputs_ok X cfg mx n db"
    and b: "0 < BLOCKS_PER_EPOCH cfg" and n: "0 \<le> n"
  shows "\<exists>db'. finalizeEpochCompletion X cfg node mx settled n db = Inr db'"
proof -
  let ?a = "n * BLOCKS_PER_EPOCH cfg"
  let ?e = "?a + BLOCKS_PER_EPOCH cfg - 1"
  let ?subs = "if n = 0 then [] else db_submissions db n"
  note inp = ok [unfolded epoch_inputs_ok_def Let_def]
  have hdr: "\<forall>h \<in> {max 0 (?a - 1)..?e}. \<exists>bh. db_headers db h = Some bh \<and> header_ok X h bh"
    and ep: "0 < n \<Longrightarrow> db_epochs db (n - 1) \<noteq> None"
    and old: "4 \<le> n \<Longrightarrow> \<exists>e bh. db_epochs db (n - 4) = Some e \<and> db_headers db (doc_endBlock e) = Some bh
                          \<and> header_ok X (doc_endBlock e) bh"
    using inp by auto
  have "\<exists>prev. getPreviousEpochHash db n = Inr prev"
    using ep n by (cases "n = 0") (auto simp: getPreviousEpochHash_def)
  then obtain prev where prev: "getPreviousEpochHash db n = Inr prev" by blast
  have "\<exists>att. getAttestationChecksumRoot X db n = Inr att"
  proof (cases "4 \<le> n")
    case True
    with old obtain e bh where e: "db_epochs db (n - 4) = Some e" "db_headers db (doc_endBlock e) = Some bh"
        "header_ok X (doc_endBlock e) bh" by blast
    with checksum_root_ok [OF e(3)] True show ?thesis
      by (auto simp: getAttestationChecksumRoot_def Let_def)
  qed (simp add: getAttestationChecksumRoot_def Let_def)
  then obtain att where att: "getAttestationChecksumRoot X db n = Inr att" by blast
  have pos: "0 \<le> ?a" using n b by (simp add: mult_nonneg_nonneg)
  have hdr': "\<forall>h \<in> {?a..?e}. \<exists>bh. db_headers db h = Some bh \<and> header_ok X h bh"
    using hdr pos by auto
  obtain roots where roots: "getChecksumRoots X db ?a ?e = Inr roots"
      "\<forall>h \<in> {?a..?e}. map_of roots h \<noteq> None"
    using getChecksumRoots_ok [OF hdr'] by blast
  have "\<exists>target. getMiningTargetChecksum X db (getMiningTargetBlock cfg n) = Inr target"
  proof (cases "n = 0")
    case False
    then have "1 \<le> ?a" using n b by (metis int_one_le_iff_zero_less order_le_less mult_pos_pos)
    then have "?a - 1 \<in> {max 0 (?a - 1)..?e}" using b by simp
    then obtain bh where bh: "db_headers db (?a - 1) = Some bh" "header_ok X (?a - 1) bh" using hdr by blast
    with checksum_root_ok [OF bh(2)] False show ?thesis
      by (auto simp: getMiningTargetChecksum_def getMiningTargetBlock_def)
  qed (simp add: getMiningTargetChecksum_def getMiningTargetBlock_def)
  then obtain target where target: "getMiningTargetChecksum X db (getMiningTargetBlock cfg n) = Inr target"
    by blast
  define d where "d = \<lparr>ed_epochNumber = n, ed_startBlock = ?a, ed_endBlock = ?e,
      ed_checksumRoot = (case target of Some r \<Rightarrow> if n = 0 then replicate 32 0 else r
                         | None \<Rightarrow> replicate 32 0),
      ed_previousEpochHash = prev, ed_attestedEpochNumber = ae_epochNumber att,
      ed_attestedChecksumRoot = ae_root att, ed_winner = None\<rparr>"
  have subs: "submissions_ok X ?subs" using inp by (simp add: submissions_ok_def)
  have "\<exists>winning. getBestSubmission X cfg node ?subs (x_sha1 X (ed_checksumRoot d)) ?e = Inr winning"
    using getBestSubmission_eq [OF subs, of cfg node "x_sha1 X (ed_checksumRoot d)" ?e]
    by (auto simp: Let_def)
  then obtain winning where win: "getBestSubmission X cfg node ?subs (x_sha1 X (ed_checksumRoot d)) ?e = Inr winning"
    by blast
  have fields: "\<forall>s \<in> set ?subs. su_epochNumber s = n \<and> length (su_salt s) = 32
      \<and> (\<forall>g. su_graffiti s = Some g \<longrightarrow> length g \<le> GRAFFITI_LENGTH cfg)" using inp by simp
  obtain salt key legacy graffiti where
    p: "proposer_of X cfg winning n = (salt, key, legacy, graffiti)" "length salt = 32"
      "length graffiti \<le> GRAFFITI_LENGTH cfg" "\<forall>w. winning = Some w \<longrightarrow> ew_epochNumber w = n"
    using proposer_ok [OF subs win fields] by blast
  have ws: "\<forall>w \<in> set (db_witnesses db ?a ?e mx). witness_ok X (ed_startBlock d) (ed_endBlock d) w
      \<and> map_of roots (wi_blockNumber w) \<noteq> None"
    using inp roots(2) by (auto simp: d_def witness_ok_def)
  have "\<exists>db'. build_epoch X cfg settled roots (db_witnesses db ?a ?e mx) d salt key legacy graffiti db = Inr db'"
    using build_epoch_ok [OF X ws _ p(2,3)] inp by blast
  then have "\<exists>db'. finalizeEpoch X cfg node settled ?a ?e roots ?subs (db_witnesses db ?a ?e mx) n prev att
      target db = Inr db'"
    using win p unfolding finalizeEpoch_def Let_def d_def by (auto split: option.splits)
  then show ?thesis
    using prev att roots(1) target by (auto simp: finalizeEpochCompletion_def Let_def)
qed

subsection \<open>Indexing a range of blocks\<close>

definition index_tip ::
    "externals \<Rightarrow> EPOCH_config \<Rightarrow> node_config \<Rightarrow> nat \<Rightarrow> (bigint \<Rightarrow> settled_writes) \<Rightarrow> bigint \<Rightarrow> epoch_db
     \<Rightarrow> epoch_error + epoch_db" where
  "index_tip X cfg node mx settled tip db =
     (case updateEpoch X cfg node mx (settled tip) tip db of
        (db', None) \<Rightarrow> Inr db' | (db', Some e) \<Rightarrow> Inl e)"

definition index_tips ::
    "externals \<Rightarrow> EPOCH_config \<Rightarrow> node_config \<Rightarrow> nat \<Rightarrow> (bigint \<Rightarrow> settled_writes) \<Rightarrow> bigint list \<Rightarrow> epoch_db
     \<Rightarrow> epoch_error + epoch_db" where
  "index_tips X cfg node mx settled tips db = res_fold (index_tip X cfg node mx settled) tips db"

lemma index_tip_iff:
  "index_tip X cfg node mx settled tip db = Inr db' \<longleftrightarrow>
   updateEpoch X cfg node mx (settled tip) tip db = (db', None)"
  by (auto simp: index_tip_def split: prod.splits option.splits)

definition epoch_recorded :: "EPOCH_config \<Rightarrow> epoch_db \<Rightarrow> bigint \<Rightarrow> bool" where
  "epoch_recorded cfg db n \<longleftrightarrow>
     (\<exists>doc. db_epochs db n = Some doc \<and> doc_epochNumber doc = n
        \<and> doc_startBlock doc = n * BLOCKS_PER_EPOCH cfg
        \<and> doc_endBlock doc = n * BLOCKS_PER_EPOCH cfg + BLOCKS_PER_EPOCH cfg - 1)"

lemma completion_records:
  assumes "finalizeEpochCompletion X cfg node mx settled n db = Inr db'"
    and "EPOCH_ENABLED cfg" "0 < BLOCKS_PER_EPOCH cfg" "0 \<le> n" "epoch_written settled"
  shows "epoch_recorded cfg db' n \<and> (\<forall>k. k \<noteq> n \<longrightarrow> db_epochs db' k = db_epochs db k)"
proof -
  obtain doc d w where "document_ok X cfg doc d w" "doc_epochNumber doc = n"
      "ed_startBlock d = n * BLOCKS_PER_EPOCH cfg" "db_epochs db' = (db_epochs db)(n \<mapsto> doc)"
    using assms(1-4) by (rule completion_document) (use assms(5) in blast)
  then show ?thesis by (auto simp: epoch_recorded_def document_ok_def)
qed

lemma updateEpoch_records:
  assumes "updateEpoch X cfg node mx settled tip db = (db', None)"
    and "EPOCH_ENABLED cfg" "0 < BLOCKS_PER_EPOCH cfg" "epoch_written settled"
  shows "if tip mod BLOCKS_PER_EPOCH cfg = 0 \<and> 0 < tip
    then epoch_recorded cfg db' (tip div BLOCKS_PER_EPOCH cfg - 1)
      \<and> (\<forall>k. k \<noteq> tip div BLOCKS_PER_EPOCH cfg - 1 \<longrightarrow> db_epochs db' k = db_epochs db k)
    else db' = db"
proof (cases "tip mod BLOCKS_PER_EPOCH cfg = 0 \<and> 0 < tip")
  case True
  let ?n = "tip div BLOCKS_PER_EPOCH cfg - 1"
  let ?db = "db\<lparr>db_messages := db_messages db @ [EpochChange (tip div BLOCKS_PER_EPOCH cfg)
      (tip div BLOCKS_PER_EPOCH cfg * BLOCKS_PER_EPOCH cfg)
      (tip div BLOCKS_PER_EPOCH cfg * BLOCKS_PER_EPOCH cfg + BLOCKS_PER_EPOCH cfg - 1)]\<rparr>"
  have "BLOCKS_PER_EPOCH cfg \<le> tip"
    using True assms(3) by (meson dvd_imp_mod_0 mod_0_imp_dvd zdvd_imp_le)
  then have n: "0 \<le> ?n" using assms(3) by (simp add: pos_imp_zdiv_pos_iff int_one_le_iff_zero_less)
  have fin: "finalizeEpochCompletion X cfg node mx settled ?n ?db = Inr db'"
    using assms(1,3) True by (auto simp: updateEpoch_def Let_def split: sum.splits)
  from completion_records [OF fin assms(2,3) n assms(4)] True show ?thesis by simp
next
  case False
  then have "updateEpoch X cfg node mx settled tip db = (db, None)"
    unfolding updateEpoch_def Let_def by (simp only: if_False)
  with assms(1) False show ?thesis by auto
qed

lemma div_step:
  assumes "0 < (b :: int)"
  shows "(1 + h) div b = (if (1 + h) mod b = 0 then h div b + 1 else h div b)"
proof -
  have h: "h = b * (h div b) + h mod b" by simp
  have r: "0 \<le> h mod b" "h mod b < b" using assms by simp_all
  show ?thesis
  proof (cases "h mod b = b - 1")
    case True
    with h have "1 + h = b * (h div b + 1)" by (simp add: algebra_simps)
    then have "(1 + h) div b = h div b + 1" "(1 + h) mod b = 0" using assms by simp_all
    then show ?thesis by simp
  next
    case False
    then have s: "1 + h mod b < b" using r by simp
    have "1 + h = b * (h div b) + (1 + h mod b)" using h by simp
    then have "(1 + h) div b = h div b" "(1 + h) mod b = 1 + h mod b"
      using s r by (metis (no_types, lifting) add_nonneg_nonneg div_mult_self4 div_pos_pos_trivial
          add.right_neutral assms less_irrefl zero_le_one, metis mod_mult_self4 mod_pos_pos_trivial
          add_nonneg_nonneg zero_le_one)
    then show ?thesis using r by simp
  qed
qed

lemma index_tips_records:
  assumes "index_tips X cfg node mx settled (map int [0..<Suc h]) db = Inr db'"
    and "EPOCH_ENABLED cfg" "0 < BLOCKS_PER_EPOCH cfg" "\<forall>tip. epoch_written (settled tip)"
  shows "(\<forall>n. 0 \<le> n \<and> n < int h div BLOCKS_PER_EPOCH cfg \<longrightarrow> epoch_recorded cfg db' n)
    \<and> (\<forall>n. n < 0 \<or> int h div BLOCKS_PER_EPOCH cfg \<le> n \<longrightarrow> db_epochs db' n = db_epochs db n)"
  using assms(1)
proof (induction h arbitrary: db')
  case 0
  then have "db' = db"
    by (simp add: index_tips_def index_tip_iff updateEpoch_def)
  then show ?case by auto
next
  case (Suc h)
  let ?b = "BLOCKS_PER_EPOCH cfg"
  have "map int [0..<Suc (Suc h)] = map int [0..<Suc h] @ [int (Suc h)]" by simp
  with Suc.prems obtain db1 where db1: "index_tips X cfg node mx settled (map int [0..<Suc h]) db = Inr db1"
      "updateEpoch X cfg node mx (settled (int (Suc h))) (int (Suc h)) db1 = (db', None)"
    by (auto simp: index_tips_def res_fold_append index_tip_iff simp del: upt_Suc)
  note IH = Suc.IH [OF db1(1)]
  have q: "0 \<le> int h div ?b" using assms(3) by (simp add: pos_imp_zdiv_nonneg_iff)
  have step: "(1 + int h) div ?b = (if (1 + int h) mod ?b = 0 then int h div ?b + 1 else int h div ?b)"
    using assms(3) by (rule div_step)
  have up: "if (1 + int h) mod ?b = 0 then epoch_recorded cfg db' ((1 + int h) div ?b - 1)
      \<and> (\<forall>k. k \<noteq> (1 + int h) div ?b - 1 \<longrightarrow> db_epochs db' k = db_epochs db1 k) else db' = db1"
    using updateEpoch_records [OF db1(2) assms(2,3)] assms(4) by (auto split: if_splits)
  show ?case
  proof (cases "(1 + int h) mod ?b = 0")
    case True
    with up step have new: "epoch_recorded cfg db' (int h div ?b)"
        and keep: "\<And>k. k \<noteq> int h div ?b \<Longrightarrow> db_epochs db' k = db_epochs db1 k" by simp_all
    have "epoch_recorded cfg db' n" if "0 \<le> n" "n < int h div ?b + 1" for n
      using that IH new keep [of n] by (cases "n = int h div ?b") (auto simp: epoch_recorded_def)
    with IH q step True keep show ?thesis by auto
  next
    case False
    with up step IH show ?thesis by simp
  qed
qed

lemma reindex_loop_records:
  assumes "reindex_loop X cfg node mx settled False es db = (db', ReindexDone True)"
    and "EPOCH_ENABLED cfg" "0 < BLOCKS_PER_EPOCH cfg" "\<forall>e. epoch_written (settled e)" "\<forall>e \<in> set es. 0 \<le> e"
  shows "(\<forall>n \<in> set es. epoch_recorded cfg db' n) \<and> (\<forall>n. n \<notin> set es \<longrightarrow> db_epochs db' n = db_epochs db n)"
  using assms(1,5)
proof (induction es arbitrary: db)
  case (Cons e es)
  from Cons.prems obtain db1 where db1: "finalizeEpochCompletion X cfg node mx (settled e) e db = Inr db1"
      "reindex_loop X cfg node mx settled False es db1 = (db', ReindexDone True)"
    by (auto split: sum.splits)
  have e: "epoch_recorded cfg db1 e \<and> (\<forall>k. k \<noteq> e \<longrightarrow> db_epochs db1 k = db_epochs db k)"
    using completion_records [OF db1(1) assms(2,3)] assms(4) Cons.prems(2) by simp
  have IH: "(\<forall>n \<in> set es. epoch_recorded cfg db' n) \<and> (\<forall>n. n \<notin> set es \<longrightarrow> db_epochs db' n = db_epochs db1 n)"
    using Cons.IH [OF db1(2)] Cons.prems(2) by simp
  show ?case
  proof (cases "e \<in> set es")
    case True
    with IH e show ?thesis by auto
  next
    case False
    with IH have "db_epochs db' e = db_epochs db1 e" by simp
    with e have "epoch_recorded cfg db' e" by (simp add: epoch_recorded_def)
    with IH e show ?thesis by auto
  qed
qed simp

subsection \<open>A small database\<close>

definition sample_submission :: "bigint \<Rightarrow> byte \<Rightarrow> IEpochSubmission" where
  "sample_submission n k = \<lparr>su_epochNumber = n, su_txId = [k], su_txHash = [k], su_hash = replicate 20 k,
     su_solution = replicate 20 8, su_mldsaPublicKey = replicate 32 k,
     su_legacyPublicKey = replicate 33 k, su_salt = replicate 32 k, su_graffiti = None\<rparr>"

definition sample_doc :: IEpochDocument where
  "sample_doc = \<lparr>doc_epochNumber = 0, doc_epochHash = replicate 32 1, doc_epochRoot = replicate 32 2,
     doc_startBlock = 0, doc_endBlock = 4, doc_difficultyScaled = ''1'', doc_targetHash = [],
     doc_solution = [], doc_mldsaPublicKey = [], doc_legacyPublicKey = [], doc_salt = [],
     doc_graffiti = None, doc_proofs = []\<rparr>"

definition sample_db :: epoch_db where
  "sample_db = \<lparr>db_headers = (\<lambda>h. Some \<lparr>bh_height = h,
       bh_checksumRoot = x_toHex sample_externals (replicate 32 8)\<rparr>),
     db_epochs = (\<lambda>k. if k = 0 then Some sample_doc else None),
     db_submissions = (\<lambda>n. [sample_submission n 5, sample_submission n 3]),
     db_witnesses = (\<lambda>a b m. [\<lparr>wi_blockNumber = a, wi_signature = replicate 64 1, wi_timestamp = 10,
                               wi_publicKey = Some (replicate 32 7)\<rparr>]),
     db_witnessProofs = [], db_oldTargetsDeleted = [], db_messages = []\<rparr>"

definition sample_node :: node_config where
  "sample_node = \<lparr>CHAIN_ID = Bitcoin, NETWORK = regtest, REINDEX = False, REINDEX_FROM_BLOCK = 0\<rparr>"

definition all_written :: settled_writes where
  "all_written = \<lparr>proofs_written = True, epoch_written = True, targets_deleted = True\<rparr>"

lemma Roswell_EPOCH_sel [simp]:
  "BLOCKS_PER_EPOCH Roswell_EPOCH = 5" "EPOCH_ENABLED Roswell_EPOCH" "MIN_DIFFICULTY Roswell_EPOCH = 35"
  "GRAFFITI_LENGTH Roswell_EPOCH = 16"
  by (simp_all add: Roswell_EPOCH_def)

lemma sample_submissions_ok: "submissions_ok sample_externals (db_submissions sample_db n)"
  by (simp add: submissions_ok_def sample_db_def sample_submission_def sample_externals_def)

lemma sample_inputs_ok: "n \<in> {0, 1} \<Longrightarrow> epoch_inputs_ok sample_externals Roswell_EPOCH 10 n sample_db"
proof -
  have hdr: "\<exists>bh. db_headers sample_db h = Some bh \<and> header_ok sample_externals h bh" for h
    using hex_roundtrip(1) [OF sample_externals_ok, of "replicate 32 8"]
    by (simp add: sample_db_def header_ok_def)
  assume "n \<in> {0, 1}"
  then show ?thesis
    using hdr sample_submissions_ok [of n] unfolding epoch_inputs_ok_def Let_def
    by (auto simp: sample_db_def sample_submission_def witness_ok_def sample_externals_def)
qed

subsection \<open>Properties\<close>

text \<open>
  C28: the winner of an epoch is one of the submissions the whitelist admits; no admitted submission
  with a 20-byte solution has more matching bits, and among those with as many the winner has the
  least key, then transaction hash, then salt, then transaction identifier.
\<close>

theorem best_submission_optimal:
  assumes "submissions_ok X xs" "getBestSubmission X cfg node xs targetHash endBlock = Inr (Some w)"
  shows "\<exists>s \<in> set xs. w = winner_of cfg (countMatchingBits (su_solution s) targetHash) s
    \<and> (\<forall>key. active_whitelist cfg node endBlock = Some key \<longrightarrow>
         x_address X (su_mldsaPublicKey s) = Some key)
    \<and> (\<forall>s' \<in> set xs. eligible X (active_whitelist cfg node endBlock) s' \<and> length (su_solution s') = 20 \<longrightarrow>
         countMatchingBits (su_solution s') targetHash \<le> countMatchingBits (su_solution s) targetHash
         \<and> (countMatchingBits (su_solution s') targetHash = countMatchingBits (su_solution s) targetHash
             \<longrightarrow> (su_mldsaPublicKey s, su_txHash s, su_salt s, su_txId s)
                 \<le> (su_mldsaPublicKey s', su_txHash s', su_salt s', su_txId s')))"
proof -
  let ?el = "filter (eligible X (active_whitelist cfg node endBlock)) xs"
  obtain s where s: "s \<in> set xs" "w = winner_of cfg (sub_bits targetHash s) s"
      "s \<in> set (best_subs targetHash ?el)"
      "\<forall>s' \<in> set (best_subs targetHash ?el). tie_key s \<le> tie_key s'"
    using assms by (rule best_submission_fields)
  have best: "sub_bits targetHash s = best_bits targetHash ?el" "eligible X (active_whitelist cfg node endBlock) s"
    using s(3) by (auto simp: best_subs_def)
  have "sub_bits targetHash s' \<le> sub_bits targetHash s
      \<and> (sub_bits targetHash s' = sub_bits targetHash s \<longrightarrow> tie_key s \<le> tie_key s')"
    if "s' \<in> set xs" "eligible X (active_whitelist cfg node endBlock) s'" "length (su_solution s') = 20" for s'
    using that s(4) best(1) sub_bits_le_best [of s' ?el targetHash] by (simp add: best_subs_def)
  then show ?thesis
    using s(1,2) best(2) by (auto simp: sub_bits_def tie_key_def eligible_def intro!: bexI [of _ s])
qed

theorem best_submission_optimal_witness:
  "\<exists>w. getBestSubmission sample_externals Roswell_EPOCH sample_node (db_submissions sample_db 1)
         (replicate 20 8) 9 = Inr (Some w)
     \<and> (\<exists>s \<in> set (db_submissions sample_db 1). ew_salt w = su_salt s)"
proof -
  let ?xs = "db_submissions sample_db 1"
  have "active_whitelist Roswell_EPOCH sample_node 9 = None"
    by (simp add: active_whitelist_def Roswell_EPOCH_def sample_node_def per_network_get_def)
  then have "filter (eligible sample_externals (active_whitelist Roswell_EPOCH sample_node 9)) ?xs = ?xs"
    by (simp add: eligible_def)
  moreover have "best_subs (replicate 20 8) ?xs \<noteq> []"
    by (rule best_subs_nonempty [of "sample_submission 1 5"])
      (simp_all add: sample_db_def sample_submission_def)
  ultimately obtain w where w: "getBestSubmission sample_externals Roswell_EPOCH sample_node ?xs
      (replicate 20 8) 9 = Inr (Some w)"
    using getBestSubmission_eq [OF sample_submissions_ok] by (simp add: Let_def)
  from best_submission_optimal [OF sample_submissions_ok w] w show ?thesis
    by (auto simp: winner_of_def)
qed

text \<open>
  C30: every node picks the same winner: the selection does not depend on the order in which the
  database returns the submissions, as long as no two of them agree on key, transaction hash, salt
  and transaction identifier.
\<close>

theorem winner_independent_of_order:
  assumes "mset xs = mset ys" "submissions_ok X xs"
    and "inj_on (\<lambda>s. (su_mldsaPublicKey s, su_txHash s, su_salt s, su_txId s)) (set xs)"
  shows "getBestSubmission X cfg node xs targetHash endBlock
    = getBestSubmission X cfg node ys targetHash endBlock"
proof -
  let ?P = "eligible X (active_whitelist cfg node endBlock)"
  let ?a = "best_subs targetHash (filter ?P xs)" and ?b = "best_subs targetHash (filter ?P ys)"
  have set: "set xs = set ys" using assms(1) by (metis set_mset_mset)
  then have ys: "submissions_ok X ys" using assms(2) by (simp add: submissions_ok_def)
  have perm: "mset ?a = mset ?b" using assms(1) by (intro best_subs_perm) simp
  have inj: "inj_on tie_key (set ?a)"
  proof (rule inj_on_subset)
    show "inj_on tie_key (set xs)" using assms(3) by (simp add: inj_on_def tie_key_def)
  qed (auto simp: best_subs_def)
  have "sort_key tie_key ?a = sort_key tie_key ?b"
    using perm inj by (intro sort_key_inj_key_eq) (simp_all add: perm)
  moreover have "sub_bits targetHash (hd ?a) = sub_bits targetHash (hd ?b)" if "?a \<noteq> []"
  proof -
    have "?b \<noteq> []" using that perm by auto
    with that have "hd ?a \<in> set ?b" "hd ?b \<in> set ?b"
      using perm by (metis hd_in_set set_mset_mset)+
    then show ?thesis by (simp add: best_subs_def)
  qed
  moreover have "?a = [] \<longleftrightarrow> ?b = []" using perm by (metis mset_zero_iff)
  ultimately show ?thesis
    unfolding getBestSubmission_eq [OF assms(2)] getBestSubmission_eq [OF ys] Let_def by simp
qed

theorem winner_independent_of_order_witness:
  "getBestSubmission sample_externals Roswell_EPOCH sample_node
     [sample_submission 1 5, sample_submission 1 3] (replicate 20 8) 9
   = getBestSubmission sample_externals Roswell_EPOCH sample_node
     [sample_submission 1 3, sample_submission 1 5] (replicate 20 8) 9"
  by (rule winner_independent_of_order)
    (use sample_submissions_ok [of 1] in
      \<open>simp_all add: sample_db_def inj_on_def sample_submission_def\<close>)

text \<open>
  a submission is valid exactly when the current epoch is not the first, the pending target is for
  it, the hash of its preimage matches enough bits of the target, its salt has 32 bytes and its
  graffiti fits; the reported bits and hash are those of its preimage.
\<close>

theorem validateEpochSubmission_valid_iff:
  assumes "0 < BLOCKS_PER_EPOCH cfg" "0 \<le> height" "0 < MIN_DIFFICULTY cfg"
  shows "vs_valid (validateEpochSubmission X cfg sub height pending) \<longleftrightarrow>
    BLOCKS_PER_EPOCH cfg \<le> height
    \<and> pt_nextEpochNumber pending = height div BLOCKS_PER_EPOCH cfg
    \<and> MIN_DIFFICULTY cfg \<le> countMatchingBits
        (x_sha1 X (calculatePreimage (pt_checksumRoot pending) (sb_mldsaPublicKey sub) (sb_salt sub)))
        (pt_targetHash pending)
    \<and> length (sb_salt sub) = 32
    \<and> (\<forall>g. sb_graffiti sub = Some g \<longrightarrow> length g \<le> GRAFFITI_LENGTH cfg)"
proof -
  have "height div BLOCKS_PER_EPOCH cfg = 0 \<longleftrightarrow> height < BLOCKS_PER_EPOCH cfg"
    using assms by (auto simp: zdiv_eq_0_iff)
  then show ?thesis
    using assms by (auto simp: validateEpochSubmission_def Let_def split: option.splits)
qed

theorem validateEpochSubmission_valid_iff_witness:
  "vs_valid (validateEpochSubmission (sample_externals\<lparr>x_sha1 := (\<lambda>b. replicate 20 1)\<rparr>) Roswell_EPOCH
     \<lparr>sb_mldsaPublicKey = replicate 32 1, sb_salt = replicate 32 2, sb_graffiti = None\<rparr> 7
     \<lparr>pt_checksumRoot = replicate 32 3, pt_targetHash = replicate 20 1, pt_nextEpochNumber = 1\<rparr>)"
proof -
  have "countMatchingBits (replicate 20 1) (replicate 20 1) = 160"
    using common_prefix_full [of "bit_string (replicate 20 1)" "bit_string (replicate 20 1)"]
    by (simp add: countMatchingBits_prefix)
  then show ?thesis
    using validateEpochSubmission_valid_iff [of Roswell_EPOCH 7] by simp
qed

text \<open>
  C34: finalising an epoch succeeds whenever the database holds what it is built from: the headers of
  its blocks and of its mining target with 32-byte checksum roots, the epoch before it, the epoch four
  before it, well-formed submissions for it and witnesses of its blocks.
\<close>

theorem epoch_finalisation_succeeds:
  assumes "externals_ok X" "epoch_inputs_ok X cfg maxPerBlock n db"
    and "0 < BLOCKS_PER_EPOCH cfg" "0 \<le> n"
  shows "\<exists>db'. finalizeEpochCompletion X cfg node maxPerBlock settled n db = Inr db'"
  using assms by (rule completion_ok)

theorem epoch_finalisation_succeeds_witness:
  "\<exists>db'. finalizeEpochCompletion sample_externals Roswell_EPOCH sample_node 10 all_written 1 sample_db = Inr db'"
  by (rule epoch_finalisation_succeeds) (simp_all add: sample_externals_ok sample_inputs_ok)

text \<open>
  a finalised epoch is stored under its number with the block range of that number. Its hash is the
  SHA-256 of its encoded data, which names the hash of the epoch before it; its proofs verify that
  data against its root; and its solution and difficulty are those of the recorded key and salt
  against the recorded target.
\<close>

theorem finalized_epoch_document:
  assumes X: "externals_ok X"
    and run: "finalizeEpochCompletion X cfg node maxPerBlock settled n db = Inr db'"
    and cfg: "EPOCH_ENABLED cfg" "0 < BLOCKS_PER_EPOCH cfg" "0 \<le> n" and written: "epoch_written settled"
  shows "\<exists>doc d bs. db_epochs db' = (db_epochs db)(n \<mapsto> doc) \<and> doc_epochNumber doc = n
    \<and> doc_startBlock doc = n * BLOCKS_PER_EPOCH cfg
    \<and> doc_endBlock doc = n * BLOCKS_PER_EPOCH cfg + BLOCKS_PER_EPOCH cfg - 1
    \<and> epochDataToBytes X cfg d = Inr bs \<and> doc_epochHash doc = x_sha256 X bs
    \<and> ed_epochNumber d = n
    \<and> verifyEpochData X (doc_epochRoot doc) (doc_proofs doc) bs
    \<and> (0 < n \<longrightarrow> (\<exists>prev. db_epochs db (n - 1) = Some prev \<and> ed_previousEpochHash d = doc_epochHash prev))
    \<and> doc_targetHash doc = x_sha1 X (ed_checksumRoot d)
    \<and> doc_solution doc = x_sha1 X (calculatePreimage (ed_checksumRoot d) (doc_mldsaPublicKey doc) (doc_salt doc))
    \<and> doc_difficultyScaled doc
        = bigint_toString (2 ^ countMatchingBits (doc_solution doc) (doc_targetHash doc))"
proof -
  obtain doc d w where doc: "document_ok X cfg doc d w" "doc_epochNumber doc = n" "ed_epochNumber d = n"
      "ed_startBlock d = n * BLOCKS_PER_EPOCH cfg" "getPreviousEpochHash db n = Inr (ed_previousEpochHash d)"
      "db_epochs db' = (db_epochs db)(n \<mapsto> doc)"
    using run cfg by (rule completion_document) (use written in blast)
  obtain bs leaves where bs: "epochDataToBytes X cfg d = Inr bs" "bs \<in> set leaves"
      "doc_epochHash doc = x_sha256 X bs" "doc_epochRoot doc = x_root X leaves"
      "x_proof X leaves bs = Some (doc_proofs doc)"
    using doc(1) by (auto simp: document_ok_def)
  have "x_verifyData X (doc_proofs doc) (x_root X leaves) bs"
    using X bs(2,5) unfolding externals_ok_def by fastforce
  moreover have "\<exists>prev. db_epochs db (n - 1) = Some prev \<and> ed_previousEpochHash d = doc_epochHash prev" if "0 < n"
    using doc(5) that by (auto simp: getPreviousEpochHash_def split: option.splits)
  ultimately show ?thesis
    using doc bs by (intro exI [of _ doc] exI [of _ d] exI [of _ bs])
      (simp add: document_ok_def verifyEpochData_def)
qed

theorem finalized_epoch_document_witness:
  "\<exists>db' doc. finalizeEpochCompletion sample_externals Roswell_EPOCH sample_node 10 all_written 1 sample_db = Inr db'
     \<and> db_epochs db' 1 = Some doc \<and> doc_startBlock doc = 5 \<and> doc_endBlock doc = 9"
proof -
  obtain db' where run: "finalizeEpochCompletion sample_externals Roswell_EPOCH sample_node 10 all_written 1
      sample_db = Inr db'"
    using completion_ok [OF sample_externals_ok sample_inputs_ok [of 1]] by auto
  have w: "epoch_written all_written" by (simp add: all_written_def)
  show ?thesis using finalized_epoch_document [OF sample_externals_ok run _ _ _ w] run by auto
qed

text \<open>
  what is validated at submission time is what is recorded at finalisation: for an epoch after the
  first, the pending target the node hands out has the target hash of the finalised epoch, and
  validating the recorded key and salt against it yields the recorded solution and difficulty.
\<close>

theorem validated_work_is_recorded:
  fixes g :: "bytes option"
  assumes run: "finalizeEpochCompletion X cfg node maxPerBlock settled n db = Inr db'"
    and cfg: "EPOCH_ENABLED cfg" "0 < BLOCKS_PER_EPOCH cfg" "0 < n" and written: "epoch_written settled"
    and pending: "getPendingEpochTarget cfg (x_sha1 X) (x_fromHex X)
          (\<lambda>h. map_option bh_checksumRoot (db_headers db h)) n = Inr pt"
    and height: "0 \<le> height" "height div BLOCKS_PER_EPOCH cfg = n"
    and doc: "db_epochs db' n = Some doc"
  defines "v \<equiv> validateEpochSubmission X cfg
      \<lparr>sb_mldsaPublicKey = doc_mldsaPublicKey doc, sb_salt = doc_salt doc, sb_graffiti = g\<rparr> height pt"
  shows "pt_targetHash pt = doc_targetHash doc \<and> vs_hash v = doc_solution doc
    \<and> doc_difficultyScaled doc = bigint_toString (2 ^ vs_matchingBits v)"
proof -
  have n: "0 \<le> n" using cfg by simp
  obtain doc' d w where d: "document_ok X cfg doc' d w" "db_epochs db' = (db_epochs db)(n \<mapsto> doc')"
      "getMiningTargetChecksum X db (getMiningTargetBlock cfg n) = Inr (Some (ed_checksumRoot d))"
    using run cfg(1,2) n by (rule completion_document) (use written cfg(3) in blast)
  have "doc' = doc" using d(2) doc by simp
  note d = d(1) [unfolded this] d(3)
  have pt: "pt_nextEpochNumber pt = n" "pt_targetHash pt = x_sha1 X (pt_checksumRoot pt)"
      "pt_checksumRoot pt = ed_checksumRoot d"
    using pending d(2) cfg(3)
    by (auto simp: getPendingEpochTarget_def getEpochData_def getMiningTargetChecksum_def
        getMiningTargetBlock_def checksum_root_def hex_or_def Let_def split: option.splits if_splits)
  have "bigint_div height (BLOCKS_PER_EPOCH cfg) = n" using height cfg(2) by simp
  then have "vs_hash v = x_sha1 X (calculatePreimage (pt_checksumRoot pt) (doc_mldsaPublicKey doc) (doc_salt doc))
      \<and> vs_matchingBits v = countMatchingBits (vs_hash v) (pt_targetHash pt)"
    using pt(1) cfg(3) by (auto simp: v_def validateEpochSubmission_def Let_def split: option.splits)
  with pt d(1) show ?thesis by (simp add: document_ok_def)
qed

theorem validated_work_is_recorded_witness:
  "\<exists>db' doc pt. finalizeEpochCompletion sample_externals Roswell_EPOCH sample_node 10 all_written 1 sample_db = Inr db'
     \<and> db_epochs db' 1 = Some doc \<and> pt_targetHash pt = doc_targetHash doc
     \<and> vs_hash (validateEpochSubmission sample_externals Roswell_EPOCH
         \<lparr>sb_mldsaPublicKey = doc_mldsaPublicKey doc, sb_salt = doc_salt doc, sb_graffiti = None\<rparr> 7 pt)
       = doc_solution doc"
proof -
  obtain db' where run: "finalizeEpochCompletion sample_externals Roswell_EPOCH sample_node 10 all_written 1
      sample_db = Inr db'"
    using completion_ok [OF sample_externals_ok sample_inputs_ok [of 1]] by auto
  have w: "epoch_written all_written" by (simp add: all_written_def)
  have "epoch_recorded Roswell_EPOCH db' 1" using completion_records [OF run _ _ _ w] by simp
  then obtain doc where doc: "db_epochs db' 1 = Some doc" by (auto simp: epoch_recorded_def)
  have "\<exists>pt. getPendingEpochTarget Roswell_EPOCH (x_sha1 sample_externals) (x_fromHex sample_externals)
      (\<lambda>h. map_option bh_checksumRoot (db_headers sample_db h)) 1 = Inr pt"
    by (simp add: getPendingEpochTarget_def getEpochData_def sample_db_def sample_externals_def
        stringToBuffer_def Let_def)
  then obtain pt where pt: "getPendingEpochTarget Roswell_EPOCH (x_sha1 sample_externals)
      (x_fromHex sample_externals) (\<lambda>h. map_option bh_checksumRoot (db_headers sample_db h)) 1 = Inr pt" by blast
  show ?thesis
    using validated_work_is_recorded [OF run _ _ _ w pt _ _ doc, of 7 None] run doc by auto
qed



text \<open>
  a failed write of the epoch is not noticed when it happens, only by the next finalisation: the
  operation returns, the database has no document for the epoch, and finalising the following epoch
  throws because the hash of its predecessor is missing.
\<close>

theorem lost_epoch_write_stops_next_epoch:
  assumes run: "finalizeEpochCompletion X cfg node maxPerBlock settled n db = Inr db'"
    and cfg: "EPOCH_ENABLED cfg" "0 < BLOCKS_PER_EPOCH cfg" "0 \<le> n"
    and lost: "\<not> epoch_written settled" and new: "db_epochs db n = None"
  shows "db_epochs db' = db_epochs db
    \<and> finalizeEpochCompletion X cfg node maxPerBlock settled' (n + 1) db' = Inl (EpochNotFound n)"
proof -
  obtain doc d w where doc: "document_ok X cfg doc d w" "db_epochs db' = db_epochs db"
    using run cfg by (rule completion_document) (use lost in blast)
  then have "getPreviousEpochHash db' (n + 1) = Inl (EpochNotFound n)"
    using new cfg(3) by (simp add: getPreviousEpochHash_def)
  then show ?thesis using doc cfg(1) by (simp add: finalizeEpochCompletion_def Let_def)
qed

theorem lost_epoch_write_stops_next_epoch_witness:
  "\<exists>db'. finalizeEpochCompletion sample_externals Roswell_EPOCH sample_node 10
       (all_written\<lparr>epoch_written := False\<rparr>) 1 sample_db = Inr db'
     \<and> finalizeEpochCompletion sample_externals Roswell_EPOCH sample_node 10 all_written 2 db'
       = Inl (EpochNotFound 1)"
proof -
  obtain db' where run: "finalizeEpochCompletion sample_externals Roswell_EPOCH sample_node 10
       (all_written\<lparr>epoch_written := False\<rparr>) 1 sample_db = Inr db'"
    using completion_ok [OF sample_externals_ok sample_inputs_ok [of 1]] by auto
  show ?thesis
    using lost_epoch_write_stops_next_epoch [OF run, of all_written] run by (simp add: sample_db_def)
qed

text \<open>
  a reindexing that completes has rebuilt every epoch from the requested one to the last complete
  one and left the earlier ones alone, and the reindexer is ready for the next request.
\<close>

theorem reindex_rebuilds_epochs:
  assumes run: "reindexEpochs X cfg node maxPerBlock settled r fromEpoch height db = (r', db', ReindexDone True)"
    and cfg: "EPOCH_ENABLED cfg" "0 < BLOCKS_PER_EPOCH cfg" "\<forall>e. epoch_written (settled e)"
    and range: "0 \<le> fromEpoch" "fromEpoch < height div BLOCKS_PER_EPOCH cfg" "0 < height"
  shows "\<not> isReindexing r'
    \<and> (\<forall>n \<in> {fromEpoch..<height div BLOCKS_PER_EPOCH cfg}.
         \<exists>doc. db_epochs db' n = Some doc \<and> doc_epochNumber doc = n
           \<and> doc_startBlock doc = n * BLOCKS_PER_EPOCH cfg)
    \<and> (\<forall>n < fromEpoch. db_epochs db' n = db_epochs db n)"
proof -
  let ?last = "height div BLOCKS_PER_EPOCH cfg - 1"
  have last: "bigint_div height (BLOCKS_PER_EPOCH cfg) - 1 = ?last" using cfg(2) range(3) by simp
  have loop: "reindex_loop X cfg node maxPerBlock settled False (block_range fromEpoch ?last)
      (deleteEpochsFromEpochNumber fromEpoch db) = (db', ReindexDone True)" and r: "\<not> isReindexing r'"
    using run range last
    by (auto simp: reindexEpochs_def Let_def split: if_splits prod.splits)
  have rec: "(\<forall>n \<in> {fromEpoch..?last}. epoch_recorded cfg db' n)
      \<and> (\<forall>n. n \<notin> {fromEpoch..?last} \<longrightarrow>
           db_epochs db' n = db_epochs (deleteEpochsFromEpochNumber fromEpoch db) n)"
    using reindex_loop_records [OF loop cfg] range(1) by (simp add: set_block_range)
  have old: "db_epochs (deleteEpochsFromEpochNumber fromEpoch db) n = db_epochs db n" if "n < fromEpoch" for n
    using that by (simp add: deleteEpochsFromEpochNumber_def)
  show ?thesis using rec old r by (auto simp: epoch_recorded_def)
qed

theorem reindex_rebuilds_epochs_witness:
  "\<exists>r' db' doc. reindexEpochs sample_externals Roswell_EPOCH sample_node 10 (\<lambda>_. all_written)
       \<lparr>isReindexing = False, aborted = False\<rparr> 1 12 sample_db = (r', db', ReindexDone True)
     \<and> db_epochs db' 1 = Some doc \<and> doc_startBlock doc = 5 \<and> db_epochs db' 0 = Some sample_doc"
proof -
  let ?db = "deleteEpochsFromEpochNumber 1 sample_db"
  have "?db = sample_db" by (auto simp: deleteEpochsFromEpochNumber_def sample_db_def)
  moreover obtain db' where "finalizeEpochCompletion sample_externals Roswell_EPOCH sample_node 10 all_written 1
      sample_db = Inr db'"
    using completion_ok [OF sample_externals_ok sample_inputs_ok [of 1]] by auto
  ultimately have run: "reindexEpochs sample_externals Roswell_EPOCH sample_node 10 (\<lambda>_. all_written)
       \<lparr>isReindexing = False, aborted = False\<rparr> 1 12 sample_db
     = (\<lparr>isReindexing = False, aborted = False\<rparr>, db', ReindexDone True)"
    by (simp add: reindexEpochs_def block_range_def Let_def)
  have w: "\<forall>e :: bigint. epoch_written all_written" by (simp add: all_written_def)
  have all: "\<forall>n \<in> {1..<2}. \<exists>doc. db_epochs db' n = Some doc \<and> doc_epochNumber doc = n \<and> doc_startBlock doc = n * 5"
      and low: "\<forall>n < 1. db_epochs db' n = db_epochs sample_db n"
    using reindex_rebuilds_epochs [OF run _ _ w] by simp_all
  from bspec [OF all, of 1] spec [OF low, of 0] run show ?thesis by (auto simp: sample_db_def)
qed

end
