(* ===== verification/Merkle_Trees.thy ===== *)
theory Merkle_Trees
  imports Epoch_Merkle
begin

section \<open>The Merkle trees of a block\<close>

text \<open>
  \<open>src/src/blockchain-indexer/processor/block/merkle\<close>: the abstract \<open>MerkleTree\<close> over a map from
  contract addresses to maps, its two subclasses \<open>StateMerkleTree\<close> (storage slots written in the
  block) and \<open>ReceiptMerkleTree\<close> (results of its transactions), and \<open>ChecksumMerkle\<close>, the tree of
  the six values that make up the checksum of a block.

  The methods of the abstract class are functions of what a subclass supplies: \<open>enc\<close> turns an entry
  into its buffers, \<open>toB\<close> joins the buffers to a leaf, \<open>unchanged\<close> is the test that skips a write,
  \<open>dummies\<close> are the filler entries. The Merkle package, the byte writer and the converters
  are the fields of \<open>merkle_package\<close>; a built tree is the list of its leaves. The buffers of the
  values are compared by reference in the code; \<open>same\<close> stands for that comparison.
\<close>

record merkle_package =
  mp_root :: "bytes list \<Rightarrow> bytes"
  mp_rootHex :: "bytes list \<Rightarrow> string"
  mp_indexProof :: "bytes list \<Rightarrow> bytes \<Rightarrow> string list option"
  mp_hashes :: "bytes list \<Rightarrow> bytes list"
  mp_hashProof :: "bytes list \<Rightarrow> bytes \<Rightarrow> string list option"
  mp_hash :: "bytes \<Rightarrow> bytes"
  mp_verify :: "bytes list \<Rightarrow> bytes \<Rightarrow> bytes \<Rightarrow> bool"
  mp_fromHex :: "string \<Rightarrow> bytes option"
  mp_hexToUint8Array :: "string \<Rightarrow> bytes option"
  mp_pointerToUint8Array :: "bigint \<Rightarrow> bytes option"
  mp_valueToUint8Array :: "bigint \<Rightarrow> bytes option"
  mp_writer :: "nat \<Rightarrow> bytes list \<Rightarrow> bytes"
  mp_writeU8 :: "nat \<Rightarrow> bytes"
  mp_fakeAddress :: address

datatype merkle_error = TreeNotGenerated | MerkleTreeFrozen | FrozenUpdate | ProofNotFound
  | PackageError

definition or_throw :: "'a option \<Rightarrow> merkle_error + 'a" where
  "or_throw r = (case r of None \<Rightarrow> Inl PackageError | Some x \<Rightarrow> Inr x)"

lemma or_throw_Inr [simp]: "or_throw r = Inr x \<longleftrightarrow> r = Some x"
  by (simp add: or_throw_def split: option.splits)

lemma or_throw_Some [simp]: "or_throw (Some x) = Inr x"
  by (simp add: or_throw_def)

definition merkle_toBytes :: "merkle_package \<Rightarrow> string \<Rightarrow> merkle_error + bytes" where
  "merkle_toBytes M bytesStr =
     or_throw (mp_fromHex M (if take 2 bytesStr = ''0x'' then drop 2 bytesStr else bytesStr))"

subsection \<open>The abstract class\<close>

type_synonym ('k, 'v) address_values = "(address, ('k, 'v) js_map) js_map"

record ('k, 'v) MerkleTree =
  mk_values :: "('k, 'v) address_values"
  mk_valueChanged :: bool
  mk_frozen :: bool
  mk_tree :: "bytes list option"

definition MerkleTree_new :: "('k, 'v) MerkleTree" where
  "MerkleTree_new = \<lparr>mk_values = [], mk_valueChanged = False, mk_frozen = False, mk_tree = None\<rparr>"

definition MerkleTree_tree :: "('k, 'v) MerkleTree \<Rightarrow> merkle_error + bytes list" where
  "MerkleTree_tree t = (case mk_tree t of None \<Rightarrow> Inl TreeNotGenerated | Some ls \<Rightarrow> Inr ls)"

definition MerkleTree_root :: "merkle_package \<Rightarrow> ('k, 'v) MerkleTree \<Rightarrow> merkle_error + string" where
  "MerkleTree_root M t = res_bind (MerkleTree_tree t) (\<lambda>ls. Inr (mp_rootHex M ls))"

definition getProofHashes ::
    "merkle_package \<Rightarrow> (bytes list \<Rightarrow> bytes) \<Rightarrow> ('k, 'v) MerkleTree \<Rightarrow> bytes list \<Rightarrow> merkle_error + string list"
  where
  "getProofHashes M toB t data =
     res_bind (MerkleTree_tree t) (\<lambda>ls. or_throw (mp_indexProof M ls (toB data)))"

definition MerkleTree_size :: "('k, 'v) MerkleTree \<Rightarrow> nat" where
  "MerkleTree_size t = length (mk_values t)"

definition hasTree :: "('k, 'v) MerkleTree \<Rightarrow> bool" where
  "hasTree t \<longleftrightarrow> mk_tree t \<noteq> None"

definition countValues :: "('k, 'v) MerkleTree \<Rightarrow> nat" where
  "countValues t = sum_list (map (length \<circ> snd) (mk_values t))"

definition MerkleTree_entries :: "('k, 'v) MerkleTree \<Rightarrow> ('k \<times> 'v) list" where
  "MerkleTree_entries t = concat (map snd (mk_values t))"

definition MerkleTree_getValues ::
    "('k \<Rightarrow> 'v \<Rightarrow> merkle_error + bytes list) \<Rightarrow> ('k, 'v) MerkleTree \<Rightarrow> merkle_error + bytes list list" where
  "MerkleTree_getValues enc t = res_map (\<lambda>(key, v). enc key v) (MerkleTree_entries t)"

definition MerkleTree_generateTree ::
    "('k \<Rightarrow> 'v \<Rightarrow> merkle_error + bytes list) \<Rightarrow> (bytes list \<Rightarrow> bytes) \<Rightarrow> bool \<Rightarrow> ('k, 'v) MerkleTree
       \<Rightarrow> merkle_error + ('k, 'v) MerkleTree" where
  "MerkleTree_generateTree enc toB regeneratedIfValueChanged t =
     (if mk_frozen t then Inl MerkleTreeFrozen
      else if MerkleTree_size t = 0 then Inr t
      else if mk_tree t \<noteq> None \<and> \<not> mk_valueChanged t \<and> \<not> regeneratedIfValueChanged then Inr t
      else res_bind (MerkleTree_getValues enc t) (\<lambda>vs.
             Inr (t\<lparr>mk_tree := Some (map toB vs), mk_valueChanged := False\<rparr>)))"

definition add_missing :: "('k \<times> 'v) list \<Rightarrow> ('k, 'v) js_map \<Rightarrow> ('k, 'v) js_map" where
  "add_missing m current =
     fold (\<lambda>(key, v) c. if key \<in> set (js_keys c) then c else AList.update key v c) m current"

definition add_dummies ::
    "('k, 'v) address_values \<Rightarrow> ('k, 'v) address_values \<Rightarrow> ('k, 'v) address_values" where
  "add_dummies dummies vs =
     fold (\<lambda>(a, m) vs. if a \<notin> set (js_keys vs) then AList.update a m vs
                        else AList.map_entry a (add_missing m) vs) dummies vs"

definition MINIMUM_VALUES :: nat where "MINIMUM_VALUES = 2"

definition with_minimum ::
    "('k, 'v) address_values \<Rightarrow> ('k, 'v) MerkleTree \<Rightarrow> ('k, 'v) MerkleTree" where
  "with_minimum dummies t =
     (if countValues t < MINIMUM_VALUES
      then t\<lparr>mk_values := add_dummies dummies (mk_values t)\<rparr> else t)"

definition MerkleTree_freeze ::
    "('k \<Rightarrow> 'v \<Rightarrow> merkle_error + bytes list) \<Rightarrow> (bytes list \<Rightarrow> bytes) \<Rightarrow> ('k, 'v) address_values
       \<Rightarrow> ('k, 'v) MerkleTree \<Rightarrow> merkle_error + ('k, 'v) MerkleTree" where
  "MerkleTree_freeze enc toB dummies t =
     res_bind (MerkleTree_generateTree enc toB True (with_minimum dummies t))
       (\<lambda>t2. Inr (t2\<lparr>mk_frozen := True\<rparr>))"

text \<open>The methods both subclasses write out in the same way.\<close>

definition ensureAddress :: "address \<Rightarrow> ('k, 'v) address_values \<Rightarrow> ('k, 'v) address_values" where
  "ensureAddress a vs = (if a \<notin> set (js_keys vs) then AList.update a [] vs else vs)"

definition put_value :: "('v \<Rightarrow> 'v \<Rightarrow> bool) \<Rightarrow> address \<Rightarrow> 'k \<Rightarrow> 'v \<Rightarrow> ('k, 'v) MerkleTree \<Rightarrow> ('k, 'v) MerkleTree"
  where
  "put_value unchanged a key v t =
     (case map_of (mk_values t) a of
        None \<Rightarrow> t
      | Some m \<Rightarrow>
          (case map_of m key of
             Some currentValue \<Rightarrow>
               if unchanged currentValue v then t
               else t\<lparr>mk_values := AList.map_entry a (AList.update key v) (mk_values t),
                      mk_valueChanged := True\<rparr>
           | None \<Rightarrow> t\<lparr>mk_values := AList.map_entry a (AList.update key v) (mk_values t),
                       mk_valueChanged := True\<rparr>))"

definition updateValues ::
    "('v \<Rightarrow> 'v \<Rightarrow> bool) \<Rightarrow> address \<Rightarrow> ('k \<times> 'v) list \<Rightarrow> ('k, 'v) MerkleTree \<Rightarrow> ('k, 'v) MerkleTree" where
  "updateValues unchanged a val t =
     fold (\<lambda>(key, v). put_value unchanged a key v) val
       (t\<lparr>mk_values := ensureAddress a (mk_values t)\<rparr>)"

definition updateValue ::
    "('v \<Rightarrow> 'v \<Rightarrow> bool) \<Rightarrow> address \<Rightarrow> 'k \<Rightarrow> 'v \<Rightarrow> ('k, 'v) MerkleTree
       \<Rightarrow> merkle_error + ('k, 'v) MerkleTree" where
  "updateValue unchanged a key v t =
     (if mk_frozen t then Inl FrozenUpdate
      else Inr (put_value unchanged a key v (t\<lparr>mk_values := ensureAddress a (mk_values t)\<rparr>)))"

definition getValue :: "('k, 'v) MerkleTree \<Rightarrow> address \<Rightarrow> 'k \<Rightarrow> 'v option" where
  "getValue t a key = (case map_of (mk_values t) a of None \<Rightarrow> None | Some m \<Rightarrow> map_of m key)"

definition entry_proof ::
    "merkle_package \<Rightarrow> (bytes list \<Rightarrow> bytes) \<Rightarrow> ('k, 'v) MerkleTree \<Rightarrow> bytes list \<Rightarrow> merkle_error + string list"
  where
  "entry_proof M toB t data =
     res_bind (getProofHashes M toB t data) (\<lambda>pf. if pf = [] then Inl ProofNotFound else Inr pf)"

definition prove_entry ::
    "merkle_package \<Rightarrow> ('k \<Rightarrow> 'v \<Rightarrow> merkle_error + bytes list) \<Rightarrow> (bytes list \<Rightarrow> bytes)
       \<Rightarrow> ('k, 'v) MerkleTree \<Rightarrow> 'k \<Rightarrow> 'v \<Rightarrow> merkle_error + string list" where
  "prove_entry M enc toB t key v = res_bind (enc key v) (entry_proof M toB t)"

definition put_proof ::
    "address \<Rightarrow> 'k \<Rightarrow> string list \<Rightarrow> ('k, string list) address_values \<Rightarrow> ('k, string list) address_values"
  where
  "put_proof a key pf proofs =
     AList.update a (AList.update key pf (case map_of proofs a of None \<Rightarrow> [] | Some m \<Rightarrow> m)) proofs"

definition getProofs ::
    "merkle_package \<Rightarrow> ('k \<Rightarrow> 'v \<Rightarrow> merkle_error + bytes list) \<Rightarrow> (bytes list \<Rightarrow> bytes)
       \<Rightarrow> ('k, 'v) MerkleTree \<Rightarrow> merkle_error + ('k, string list) address_values" where
  "getProofs M enc toB t =
     res_fold (\<lambda>(a, val). res_fold (\<lambda>(key, v) proofs.
         res_bind (prove_entry M enc toB t key v) (\<lambda>pf. Inr (put_proof a key pf proofs))) val)
       (mk_values t) []"

definition getValuesWithProofs ::
    "merkle_package \<Rightarrow> ('k \<Rightarrow> 'v \<Rightarrow> merkle_error + bytes list) \<Rightarrow> (bytes list \<Rightarrow> bytes)
       \<Rightarrow> ('k, 'v) MerkleTree \<Rightarrow> address \<Rightarrow> merkle_error + ('k, 'v \<times> string list) js_map" where
  "getValuesWithProofs M enc toB t a =
     (case map_of (mk_values t) a of
        None \<Rightarrow> Inr []
      | Some m \<Rightarrow> res_fold (\<lambda>(key, v) proofs.
          res_bind (prove_entry M enc toB t key v) (\<lambda>pf. Inr (AList.update key (v, pf) proofs))) m [])"

definition getEverythingWithProofs ::
    "merkle_package \<Rightarrow> ('k \<Rightarrow> 'v \<Rightarrow> merkle_error + bytes list) \<Rightarrow> (bytes list \<Rightarrow> bytes)
       \<Rightarrow> ('k, 'v) MerkleTree \<Rightarrow> merkle_error + ('k, 'v \<times> string list) address_values option" where
  "getEverythingWithProofs M enc toB t =
     (if mk_tree t = None then Inr None
      else res_bind (res_fold (\<lambda>a proofs. res_bind (getValuesWithProofs M enc toB t a)
                       (\<lambda>m. Inr (AList.update a m proofs))) (js_keys (mk_values t)) [])
             (\<lambda>proofs. Inr (Some proofs)))"

subsection \<open>The storage tree\<close>

definition StateMerkleTree_toBytes :: "merkle_package \<Rightarrow> bytes list \<Rightarrow> bytes" where
  "StateMerkleTree_toBytes M values = mp_writer M (32 * length values) values"

definition StateMerkleTree_verify ::
    "merkle_package \<Rightarrow> string \<Rightarrow> bytes list \<Rightarrow> string list \<Rightarrow> merkle_error + bool" where
  "StateMerkleTree_verify M rt values pf =
     res_bind (res_map (merkle_toBytes M) pf) (\<lambda>ps.
     res_bind (merkle_toBytes M rt) (\<lambda>r.
       Inr (mp_verify M ps r (mp_hash M (mp_writer M (32 * length values) values)))))"

definition encodePointer :: "merkle_package \<Rightarrow> bigint \<Rightarrow> merkle_error + bytes" where
  "encodePointer M pointer = or_throw (mp_pointerToUint8Array M pointer)"

definition state_entry :: "merkle_package \<Rightarrow> bigint \<Rightarrow> bigint \<Rightarrow> merkle_error + bytes list" where
  "state_entry M key v =
     res_bind (encodePointer M key) (\<lambda>pointer.
     res_bind (or_throw (mp_valueToUint8Array M v)) (\<lambda>valueAsBuffer. Inr [pointer, valueAsBuffer]))"

definition state_unchanged :: "bigint \<Rightarrow> bigint \<Rightarrow> bool" where
  "state_unchanged currentValue v \<longleftrightarrow> currentValue \<noteq> 0 \<and> currentValue = v"

definition StateMerkleTree_getDummyValues :: "merkle_package \<Rightarrow> (bigint, bigint) address_values" where
  "StateMerkleTree_getDummyValues M = [(mp_fakeAddress M, [(1, 1), (2, 2)])]"

type_synonym StateMerkleTree = "(bigint, bigint) MerkleTree"

definition StateMerkleTree_updateValue ::
    "address \<Rightarrow> bigint \<Rightarrow> bigint \<Rightarrow> StateMerkleTree \<Rightarrow> merkle_error + StateMerkleTree" where
  "StateMerkleTree_updateValue = updateValue state_unchanged"

definition StateMerkleTree_updateValues ::
    "address \<Rightarrow> (bigint \<times> bigint) list \<Rightarrow> StateMerkleTree \<Rightarrow> StateMerkleTree" where
  "StateMerkleTree_updateValues = updateValues state_unchanged"

definition StateMerkleTree_freeze ::
    "merkle_package \<Rightarrow> StateMerkleTree \<Rightarrow> merkle_error + StateMerkleTree" where
  "StateMerkleTree_freeze M =
     MerkleTree_freeze (state_entry M) (StateMerkleTree_toBytes M) (StateMerkleTree_getDummyValues M)"

definition StateMerkleTree_generateTree ::
    "merkle_package \<Rightarrow> bool \<Rightarrow> StateMerkleTree \<Rightarrow> merkle_error + StateMerkleTree" where
  "StateMerkleTree_generateTree M = MerkleTree_generateTree (state_entry M) (StateMerkleTree_toBytes M)"

definition StateMerkleTree_getValueWithProofs ::
    "merkle_package \<Rightarrow> StateMerkleTree \<Rightarrow> address \<Rightarrow> bigint \<Rightarrow> merkle_error + (bytes \<times> string list) option"
  where
  "StateMerkleTree_getValueWithProofs M t a key =
     (case getValue t a key of
        None \<Rightarrow> Inr None
      | Some v \<Rightarrow>
          res_bind (or_throw (mp_valueToUint8Array M v)) (\<lambda>uint8Array.
          res_bind (encodePointer M key) (\<lambda>pointer.
            if mk_tree t = None then Inr (Some (uint8Array, []))
            else res_bind (entry_proof M (StateMerkleTree_toBytes M) t [pointer, uint8Array])
                   (\<lambda>pf. Inr (Some (uint8Array, pf))))))"

subsection \<open>The receipt tree\<close>

definition MAX_HASH :: string where
  "MAX_HASH = CHR ''0'' # CHR ''x'' # replicate 64 (CHR ''f'')"

definition MAX_MINUS_ONE :: string where
  "MAX_MINUS_ONE = CHR ''0'' # CHR ''x'' # replicate 63 (CHR ''f'') @ ''e''"

definition ReceiptMerkleTree_toBytes :: "merkle_package \<Rightarrow> bytes list \<Rightarrow> bytes" where
  "ReceiptMerkleTree_toBytes M values = mp_writer M (32 * length values) values"

definition receipt_entry :: "merkle_package \<Rightarrow> string \<Rightarrow> bytes \<Rightarrow> merkle_error + bytes list" where
  "receipt_entry M key v = res_bind (or_throw (mp_fromHex M key)) (\<lambda>keyBuf. Inr [keyBuf, v])"

definition receipt_unchanged :: "(bytes \<Rightarrow> bytes \<Rightarrow> bool) \<Rightarrow> bytes \<Rightarrow> bytes \<Rightarrow> bool" where
  "receipt_unchanged same currentValue v \<longleftrightarrow> same currentValue v \<and> currentValue = v"

definition ReceiptMerkleTree_getDummyValues :: "merkle_package \<Rightarrow> (string, bytes) address_values" where
  "ReceiptMerkleTree_getDummyValues M =
     [(mp_fakeAddress M, [(MAX_HASH, [1]), (MAX_MINUS_ONE, [1])])]"

type_synonym ReceiptMerkleTree = "(string, bytes) MerkleTree"

definition ReceiptMerkleTree_updateValue ::
    "(bytes \<Rightarrow> bytes \<Rightarrow> bool) \<Rightarrow> address \<Rightarrow> string \<Rightarrow> bytes \<Rightarrow> ReceiptMerkleTree
       \<Rightarrow> merkle_error + ReceiptMerkleTree" where
  "ReceiptMerkleTree_updateValue same = updateValue (receipt_unchanged same)"

definition ReceiptMerkleTree_updateValues ::
    "(bytes \<Rightarrow> bytes \<Rightarrow> bool) \<Rightarrow> address \<Rightarrow> (string \<times> bytes) list \<Rightarrow> ReceiptMerkleTree \<Rightarrow> ReceiptMerkleTree"
  where
  "ReceiptMerkleTree_updateValues same = updateValues (receipt_unchanged same)"

definition ReceiptMerkleTree_freeze ::
    "merkle_package \<Rightarrow> ReceiptMerkleTree \<Rightarrow> merkle_error + ReceiptMerkleTree" where
  "ReceiptMerkleTree_freeze M =
     MerkleTree_freeze (receipt_entry M) (ReceiptMerkleTree_toBytes M) (ReceiptMerkleTree_getDummyValues M)"

definition ReceiptMerkleTree_getProofs ::
    "merkle_package \<Rightarrow> ReceiptMerkleTree \<Rightarrow> merkle_error + (string, string list) address_values" where
  "ReceiptMerkleTree_getProofs M = getProofs M (receipt_entry M) (ReceiptMerkleTree_toBytes M)"

definition ReceiptMerkleTree_getValueWithProofs ::
    "merkle_package \<Rightarrow> ReceiptMerkleTree \<Rightarrow> address \<Rightarrow> string \<Rightarrow> merkle_error + (bytes \<times> string list) option"
  where
  "ReceiptMerkleTree_getValueWithProofs M t a key =
     (if mk_tree t = None then Inr None
      else res_bind (or_throw (mp_fromHex M key)) (\<lambda>keyBuf.
        (case getValue t a key of
           None \<Rightarrow> Inr None
         | Some v \<Rightarrow> res_bind (entry_proof M (ReceiptMerkleTree_toBytes M) t [keyBuf, v])
                       (\<lambda>pf. Inr (Some (v, pf))))))"

subsection \<open>The checksum tree\<close>

record ChecksumMerkle =
  cm_tree :: "bytes list option"
  cm_values :: "(nat \<times> bytes) list"

definition ChecksumMerkle_new :: ChecksumMerkle where
  "ChecksumMerkle_new = \<lparr>cm_tree = None, cm_values = []\<rparr>"

definition ChecksumMerkle_root :: "merkle_package \<Rightarrow> ChecksumMerkle \<Rightarrow> merkle_error + string" where
  "ChecksumMerkle_root M c =
     (case cm_tree c of None \<Rightarrow> Inl TreeNotGenerated | Some ls \<Rightarrow> Inr (mp_rootHex M ls))"

definition ChecksumMerkle_toBytes :: "merkle_package \<Rightarrow> nat \<times> bytes \<Rightarrow> bytes" where
  "ChecksumMerkle_toBytes M v = mp_writer M (1 + length (snd v)) [mp_writeU8 M (fst v), snd v]"

definition ChecksumMerkle_verify ::
    "merkle_package \<Rightarrow> bytes \<Rightarrow> nat \<times> bytes \<Rightarrow> string list \<Rightarrow> merkle_error + bool" where
  "ChecksumMerkle_verify M rt values pf =
     res_bind (res_map (merkle_toBytes M) pf) (\<lambda>ps.
       Inr (mp_verify M ps rt (mp_hash M (ChecksumMerkle_toBytes M values))))"

definition ChecksumMerkle_generateTree :: "merkle_package \<Rightarrow> ChecksumMerkle \<Rightarrow> ChecksumMerkle" where
  "ChecksumMerkle_generateTree M c = c\<lparr>cm_tree := Some (map (ChecksumMerkle_toBytes M) (cm_values c))\<rparr>"

definition hex_or_zero :: "merkle_package \<Rightarrow> string \<Rightarrow> merkle_error + bytes" where
  "hex_or_zero M s = or_throw (mp_hexToUint8Array M (if s = [] then ZERO_HASH else s))"

definition push_value :: "merkle_package \<Rightarrow> nat \<times> string \<Rightarrow> ChecksumMerkle \<Rightarrow> merkle_error + ChecksumMerkle" where
  "push_value M v c =
     res_bind (hex_or_zero M (snd v)) (\<lambda>b. Inr (c\<lparr>cm_values := cm_values c @ [(fst v, b)]\<rparr>))"

definition setBlockData ::
    "merkle_package \<Rightarrow> string \<Rightarrow> string \<Rightarrow> string \<Rightarrow> string \<Rightarrow> string \<Rightarrow> string \<Rightarrow> ChecksumMerkle
       \<Rightarrow> merkle_error + ChecksumMerkle" where
  "setBlockData M previousBlockHash previousBlockChecksum blockHash blockMerkleRoot blockStateRoot
       blockReceiptRoot c =
     res_bind (res_fold (push_value M)
         [(0, previousBlockHash), (1, previousBlockChecksum), (2, blockHash), (3, blockMerkleRoot),
          (4, blockStateRoot), (5, blockReceiptRoot)] c)
       (\<lambda>c'. Inr (ChecksumMerkle_generateTree M c'))"

definition ChecksumMerkle_getProofs ::
    "merkle_package \<Rightarrow> ChecksumMerkle \<Rightarrow> merkle_error + (nat \<times> string list) list" where
  "ChecksumMerkle_getProofs M c =
     (case cm_tree c of
        None \<Rightarrow> Inl TreeNotGenerated
      | Some ls \<Rightarrow> res_map (\<lambda>(i, h). res_bind (or_throw (mp_hashProof M ls h)) (\<lambda>pf. Inr (i, pf)))
                     (enumerate 0 (mp_hashes M ls)))"

subsection \<open>The contract of the subclasses\<close>

definition mk_ok :: "('k, 'v) MerkleTree \<Rightarrow> bool" where
  "mk_ok t \<longleftrightarrow> js_map_ok (mk_values t) \<and> (\<forall>(a, m) \<in> set (mk_values t). js_map_ok m)"

definition leaves_ok ::
    "('k \<Rightarrow> 'v \<Rightarrow> merkle_error + bytes list) \<Rightarrow> (bytes list \<Rightarrow> bytes) \<Rightarrow> ('k, 'v) MerkleTree \<Rightarrow> bool" where
  "leaves_ok enc toB t \<longleftrightarrow>
     (\<exists>vs. mk_tree t = Some (map toB vs)
        \<and> list_all2 (\<lambda>(key, v) d. enc key v = Inr d) (MerkleTree_entries t) vs)"

lemma map_of_map_entry:
  "map_of (AList.map_entry a f xs) b = (if b = a then map_option f (map_of xs a) else map_of xs b)"
  by (induction xs) auto

lemma keys_map_entry [simp]: "map fst (AList.map_entry a f xs) = map fst xs"
  by (induction xs) auto

lemma image_fst_map_entry [simp]: "fst ` set (AList.map_entry a f xs) = fst ` set xs"
  by (metis keys_map_entry list.set_map)

lemma map_of_absent: "a \<notin> fst ` set xs \<Longrightarrow> map_of xs a = None"
  by (simp add: map_of_eq_None_iff)

lemma map_entry_set: "(b, m) \<in> set (AList.map_entry a f xs) \<Longrightarrow>
    (b, m) \<in> set xs \<or> (\<exists>m'. (b, m') \<in> set xs \<and> m = f m')"
  by (induction xs) (auto split: if_splits)

lemma add_missing_ok: "js_map_ok c \<Longrightarrow> js_map_ok (add_missing m c)"
  unfolding add_missing_def by (induction m arbitrary: c) (auto simp: distinct_update)

lemma add_missing_keeps: "map_of c key = Some v \<Longrightarrow> map_of (add_missing m c) key = Some v"
  unfolding add_missing_def
proof (induction m arbitrary: c)
  case (Cons e m)
  obtain j w where e: "e = (j, w)" by (cases e)
  show ?case
  proof (cases "j \<in> set (js_keys c)")
    case True
    with Cons e show ?thesis by simp
  next
    case False
    with Cons.prems have "j \<noteq> key" by (metis map_of_eq_None_iff option.simps(3) set_map)
    with Cons e False show ?thesis by (simp add: update_conv)
  qed
qed simp

lemma add_missing_keys: "fst ` set (add_missing m c) = fst ` set c \<union> fst ` set m"
  unfolding add_missing_def
proof (induction m arbitrary: c)
  case (Cons e m)
  obtain j w where e: "e = (j, w)" by (cases e)
  show ?case
  proof (cases "j \<in> fst ` set c")
    case True
    with Cons [of c] e show ?thesis by (simp add: insert_absorb)
  next
    case False
    with Cons [of "AList.update j w c"] e show ?thesis by (simp add: dom_update)
  qed
qed simp

lemma add_missing_subset: "set (add_missing m c) \<subseteq> set c \<union> set m"
  unfolding add_missing_def
proof (induction m arbitrary: c)
  case (Cons e m)
  obtain j w where e: "e = (j, w)" by (cases e)
  have "set (if j \<in> fst ` set c then c else AList.update j w c) \<subseteq> insert (j, w) (set c)"
    using update_subset [of j w c] by auto
  with Cons.IH [of "if j \<in> fst ` set c then c else AList.update j w c"] e show ?case by fastforce
qed simp

lemma distinct_keys_length: "js_map_ok m \<Longrightarrow> length m = card (fst ` set m)"
  by (metis distinct_card length_map set_map)

lemma countValues_entries: "countValues t = length (MerkleTree_entries t)"
  by (simp add: countValues_def MerkleTree_entries_def length_concat comp_def)

lemma getValue_entry: "getValue t a key = Some v \<Longrightarrow> (key, v) \<in> set (MerkleTree_entries t)"
  by (auto simp: getValue_def MerkleTree_entries_def split: option.splits dest!: map_of_SomeD
      intro: bexI [rotated])

lemma map_of_ensureAddress: "map_of (ensureAddress a vs) b =
    (if b = a \<and> a \<notin> set (js_keys vs) then Some [] else map_of vs b)"
  by (simp add: ensureAddress_def update_conv)

lemma ensureAddress_in [simp]: "a \<in> fst ` set (ensureAddress a vs)"
  by (simp add: ensureAddress_def dom_update)

lemma ensureAddress_ok: "mk_ok t \<Longrightarrow> mk_ok (t\<lparr>mk_values := ensureAddress a (mk_values t)\<rparr>)"
  by (auto simp: mk_ok_def ensureAddress_def distinct_update update_fresh_append)

lemma map_entry_ok: "mk_ok t \<Longrightarrow> (\<And>m. js_map_ok m \<Longrightarrow> js_map_ok (f m)) \<Longrightarrow>
    mk_ok (t\<lparr>mk_values := AList.map_entry a f (mk_values t), mk_valueChanged := b\<rparr>)"
  by (fastforce simp: mk_ok_def dest!: map_entry_set)

lemma put_value_ok: "mk_ok t \<Longrightarrow> mk_ok (put_value u a key v t)"
  by (auto simp: put_value_def split: option.splits intro!: map_entry_ok distinct_update)

lemma put_value_frame [simp]:
  "mk_frozen (put_value u a key v t) = mk_frozen t" "mk_tree (put_value u a key v t) = mk_tree t"
  "fst ` set (mk_values (put_value u a key v t)) = fst ` set (mk_values t)"
  by (simp_all add: put_value_def split: option.splits)

lemma elem_le_sum_list_plain: "x \<in> set xs \<Longrightarrow> f x \<le> sum_list (map f xs)" for f :: "'a \<Rightarrow> nat"
  by (rule member_le_sum_list) auto

text \<open>
  What a subclass owes the abstract class: the test that skips a write holds for equal values only, and
  the filler entries are two different keys at least.
\<close>

locale merkle_tree_class =
  fixes enc :: "'k \<Rightarrow> 'v \<Rightarrow> merkle_error + bytes list"
    and toB :: "bytes list \<Rightarrow> bytes"
    and unchanged :: "'v \<Rightarrow> 'v \<Rightarrow> bool"
    and fake :: address
    and filler :: "('k \<times> 'v) list"
  assumes unchanged_eq: "unchanged c v \<Longrightarrow> c = v"
    and filler_ok: "js_map_ok filler"
    and filler_two: "MINIMUM_VALUES \<le> length filler"
begin

lemma getValue_put:
  assumes "a \<in> fst ` set (mk_values t)"
  shows "getValue (put_value unchanged a key v t) b j =
    (if b = a \<and> j = key then Some v else getValue t b j)"
proof -
  from assms obtain m where m: "map_of (mk_values t) a = Some m"
    by (metis list.set_map map_of_eq_None_iff option.exhaust)
  then show ?thesis
    by (auto simp: getValue_def put_value_def map_of_map_entry update_conv
        split: option.splits dest: unchanged_eq)
qed

lemma getValue_ensure: "getValue (t\<lparr>mk_values := ensureAddress a (mk_values t)\<rparr>) b j = getValue t b j"
proof -
  show ?thesis
    by (auto simp: getValue_def map_of_ensureAddress map_of_absent split: option.splits)
qed

lemma updateValue_spec:
  assumes "mk_ok t" "\<not> mk_frozen t"
  shows "\<exists>t'. updateValue unchanged a key v t = Inr t' \<and> mk_ok t' \<and> \<not> mk_frozen t'
    \<and> (\<forall>b j. getValue t' b j = (if b = a \<and> j = key then Some v else getValue t b j))"
  using assms by (simp add: updateValue_def put_value_ok ensureAddress_ok getValue_put getValue_ensure)

lemma updateValues_spec:
  "mk_ok t \<Longrightarrow> mk_ok (updateValues unchanged a kvs t)
     \<and> getValue (updateValues unchanged a kvs t) b j =
         (if b = a then (getValue t a ++ map_of (rev kvs)) j else getValue t b j)
     \<and> mk_tree (updateValues unchanged a kvs t) = mk_tree t
     \<and> mk_frozen (updateValues unchanged a kvs t) = mk_frozen t"
proof -
  assume ok: "mk_ok t"
  have run: "mk_ok (fold (\<lambda>(key, v). put_value unchanged a key v) kvs s)
      \<and> getValue (fold (\<lambda>(key, v). put_value unchanged a key v) kvs s) b j =
          (if b = a then (getValue s a ++ map_of (rev kvs)) j else getValue s b j)
      \<and> mk_tree (fold (\<lambda>(key, v). put_value unchanged a key v) kvs s) = mk_tree s
      \<and> mk_frozen (fold (\<lambda>(key, v). put_value unchanged a key v) kvs s) = mk_frozen s"
    if "mk_ok s" "a \<in> fst ` set (mk_values s)" for s
    using that
  proof (induction kvs arbitrary: s)
    case (Cons e kvs)
    obtain key v where e: "e = (key, v)" by (cases e)
    from Cons.IH [of "put_value unchanged a key v s"] Cons.prems e show ?case
      by (auto simp: put_value_ok getValue_put map_add_def split: option.splits)
  qed simp
  show ?thesis
    using run [of "t\<lparr>mk_values := ensureAddress a (mk_values t)\<rparr>"] ok
    by (simp add: updateValues_def ensureAddress_ok getValue_ensure map_add_def split: option.splits)
qed

lemma updates_spec:
  assumes "mk_ok t" "\<not> mk_frozen t"
  shows "\<exists>t'. res_fold (\<lambda>(a, key, v). updateValue unchanged a key v) ups t = Inr t'
    \<and> mk_ok t' \<and> \<not> mk_frozen t'
    \<and> (\<forall>b j. getValue t' b j =
         (case map_of (rev (map (\<lambda>(a, key, v). ((a, key), v)) ups)) (b, j) of
            Some v \<Rightarrow> Some v | None \<Rightarrow> getValue t b j))"
  using assms
proof (induction ups arbitrary: t)
  case (Cons e ups)
  obtain a key v where e: "e = (a, key, v)" by (cases e) auto
  from updateValue_spec [OF Cons.prems, of a key v] obtain t1 where
    t1: "updateValue unchanged a key v t = Inr t1" "mk_ok t1" "\<not> mk_frozen t1"
      "\<forall>b j. getValue t1 b j = (if b = a \<and> j = key then Some v else getValue t b j)" by auto
  from Cons.IH [OF t1(2,3)] t1(1,4) e show ?case
    by (fastforce simp: map_add_def split: option.splits)
qed simp

lemma updates_new:
  assumes "mk_ok t" "\<not> mk_frozen t" "\<forall>b j. getValue t b j = None"
  obtains t' where "res_fold (\<lambda>(a, key, v). updateValue unchanged a key v) ups t = Inr t'"
    "mk_ok t'" "\<not> mk_frozen t'"
    "\<And>b j. getValue t' b j = map_of (rev (map (\<lambda>(a, key, v). ((a, key), v)) ups)) (b, j)"
proof -
  have id: "(case r of Some v \<Rightarrow> Some v | None \<Rightarrow> None) = r" for r :: "'v option" by (cases r) auto
  from updates_spec [OF assms(1,2), of ups] assms(3) that show thesis
    by (auto simp: id cong: option.case_cong)
qed

lemma with_minimum_ok: "mk_ok t \<Longrightarrow> mk_ok (with_minimum [(fake, filler)] t)"
  by (auto simp: with_minimum_def add_dummies_def mk_ok_def distinct_update filler_ok
      update_fresh_append add_missing_ok dest!: map_entry_set)

lemma with_minimum_keeps: "getValue t a key = Some v \<Longrightarrow> getValue (with_minimum [(fake, filler)] t) a key = Some v"
  by (auto simp: with_minimum_def add_dummies_def getValue_def update_conv map_of_map_entry
      add_missing_keeps map_of_absent split: option.splits)

lemma with_minimum_count:
  assumes "mk_ok t"
  shows "MINIMUM_VALUES \<le> countValues (with_minimum [(fake, filler)] t)"
proof (cases "countValues t < MINIMUM_VALUES")
  case True
  let ?vs = "add_dummies [(fake, filler)] (mk_values t)"
  have "\<exists>m. (fake, m) \<in> set ?vs \<and> js_map_ok m \<and> fst ` set filler \<subseteq> fst ` set m"
  proof (cases "fake \<in> set (js_keys (mk_values t))")
    case False
    then show ?thesis by (auto simp: add_dummies_def update_fresh_append filler_ok)
  next
    case True
    then obtain m where m: "map_of (mk_values t) fake = Some m"
      by (metis list.set_map map_of_eq_None_iff option.exhaust)
    then have "map_of (AList.map_entry fake (add_missing filler) (mk_values t)) fake
        = Some (add_missing filler m)" by (simp add: map_of_map_entry)
    moreover from m assms have "js_map_ok m" by (auto simp: mk_ok_def dest: map_of_SomeD)
    moreover have "fst ` set filler \<subseteq> fst ` set (add_missing filler m)" by (simp add: add_missing_keys)
    ultimately show ?thesis using True
      by (simp add: add_dummies_def) (metis add_missing_ok map_of_SomeD)
  qed
  then obtain m where m: "(fake, m) \<in> set ?vs" "js_map_ok m" "fst ` set filler \<subseteq> fst ` set m" by auto
  have "length filler \<le> length m"
    using m(2,3) filler_ok by (simp add: distinct_keys_length card_mono)
  also have "length m \<le> sum_list (map (length \<circ> snd) ?vs)"
    using m(1) by (metis comp_apply elem_le_sum_list_plain snd_conv)
  finally show ?thesis using filler_two True by (simp add: with_minimum_def countValues_def)
qed (simp add: with_minimum_def)

lemma freeze_total:
  assumes "mk_ok t" "\<not> mk_frozen t"
    and "\<forall>(key, v) \<in> set (MerkleTree_entries (with_minimum [(fake, filler)] t)). \<exists>d. enc key v = Inr d"
  shows "\<exists>t'. MerkleTree_freeze enc toB [(fake, filler)] t = Inr t'"
proof -
  from assms(3) obtain vs where "MerkleTree_getValues enc (with_minimum [(fake, filler)] t) = Inr vs"
    unfolding MerkleTree_getValues_def using res_map_total [of _ "\<lambda>(key, v). enc key v"] by force
  moreover have "mk_frozen (with_minimum [(fake, filler)] t) = mk_frozen t"
    by (simp add: with_minimum_def)
  ultimately show ?thesis using assms(2)
    by (simp add: MerkleTree_freeze_def MerkleTree_generateTree_def)
qed

lemma freeze_spec:
  assumes "mk_ok t" "MerkleTree_freeze enc toB [(fake, filler)] t = Inr t'"
  shows "mk_ok t' \<and> mk_frozen t' \<and> \<not> mk_frozen t \<and> leaves_ok enc toB t' \<and> MINIMUM_VALUES \<le> countValues t'
    \<and> mk_values t' = mk_values (with_minimum [(fake, filler)] t)"
proof -
  let ?t = "with_minimum [(fake, filler)] t"
  from with_minimum_count [OF assms(1)] have "MerkleTree_size ?t \<noteq> 0"
    by (auto simp: MINIMUM_VALUES_def countValues_def MerkleTree_size_def)
  moreover have "mk_frozen ?t = mk_frozen t" by (simp add: with_minimum_def)
  ultimately obtain vs where vs: "MerkleTree_getValues enc ?t = Inr vs" "\<not> mk_frozen t"
    "t' = ?t\<lparr>mk_tree := Some (map toB vs), mk_valueChanged := False, mk_frozen := True\<rparr>"
    using assms(2) by (auto simp: MerkleTree_freeze_def MerkleTree_generateTree_def split: if_splits)
  then show ?thesis using with_minimum_count [OF assms(1)] with_minimum_ok [OF assms(1)]
    by (auto simp: leaves_ok_def MerkleTree_getValues_def MerkleTree_entries_def res_map_Inr_iff
        countValues_def mk_ok_def case_prod_unfold)
qed

lemma freeze_keeps:
  "mk_ok t \<Longrightarrow> MerkleTree_freeze enc toB [(fake, filler)] t = Inr t' \<Longrightarrow> getValue t a key = Some v \<Longrightarrow>
     getValue t' a key = Some v"
  using with_minimum_keeps [of t a key v] freeze_spec [of t t'] by (simp add: getValue_def)

end

subsection \<open>What the packages promise\<close>

text \<open>
  The documented behaviour of the Merkle package: a tree of two leaves or more has a proof for each of
  its leaves, the proof is not empty and verifies against the root, and the root and the proof
  survive being written and read back as hexadecimal text. The hashes of a tree are those of its leaves, in
  order.
\<close>

definition proof_accepted :: "merkle_package \<Rightarrow> bytes list \<Rightarrow> bytes \<Rightarrow> string list \<Rightarrow> bool" where
  "proof_accepted M ls d pf \<longleftrightarrow> pf \<noteq> [] \<and>
     (\<exists>ps. res_map (merkle_toBytes M) pf = Inr ps \<and> mp_verify M ps (mp_root M ls) (mp_hash M d))"

definition merkle_package_ok :: "merkle_package \<Rightarrow> bool" where
  "merkle_package_ok M \<longleftrightarrow>
     (\<forall>ls d. 2 \<le> length ls \<longrightarrow> d \<in> set ls \<longrightarrow>
        (\<exists>pf. mp_indexProof M ls d = Some pf \<and> proof_accepted M ls d pf)
        \<and> (\<exists>pf. mp_hashProof M ls (mp_hash M d) = Some pf \<and> proof_accepted M ls d pf))
     \<and> (\<forall>ls. mp_hashes M ls = map (mp_hash M) ls)
     \<and> (\<forall>ls. merkle_toBytes M (mp_rootHex M ls) = Inr (mp_root M ls))"

lemma entry_proved:
  assumes "merkle_package_ok M" "leaves_ok enc toB t" "MINIMUM_VALUES \<le> countValues t"
    and "(key, v) \<in> set (MerkleTree_entries t)"
  obtains ls d pf where "mk_tree t = Some ls" "enc key v = Inr d" "entry_proof M toB t d = Inr pf"
    "proof_accepted M ls (toB d) pf"
proof -
  from assms(2) obtain vs where vs: "mk_tree t = Some (map toB vs)"
    "list_all2 (\<lambda>(key, v) d. enc key v = Inr d) (MerkleTree_entries t) vs" by (auto simp: leaves_ok_def)
  from assms(4) obtain i where i: "i < length (MerkleTree_entries t)" "MerkleTree_entries t ! i = (key, v)"
    by (auto simp: in_set_conv_nth)
  with vs(2) have d: "enc key v = Inr (vs ! i)" "i < length vs"
    by (auto simp: list_all2_conv_all_nth split: prod.splits)
  from d(2) have "toB (vs ! i) \<in> set (map toB vs)" by simp
  moreover from assms(3) vs(2) have "2 \<le> length (map toB vs)"
    by (simp add: MINIMUM_VALUES_def countValues_entries list_all2_lengthD)
  ultimately obtain pf where pf: "mp_indexProof M (map toB vs) (toB (vs ! i)) = Some pf"
    "proof_accepted M (map toB vs) (toB (vs ! i)) pf"
    using assms(1) unfolding merkle_package_ok_def by blast
  then have "entry_proof M toB t (vs ! i) = Inr pf" using vs(1)
    by (auto simp: entry_proof_def getProofHashes_def MerkleTree_tree_def proof_accepted_def)
  with vs(1) d(1) pf(2) that show thesis by blast
qed

text \<open>Reading a map of maps.\<close>

definition nested :: "('k, 'v) address_values \<Rightarrow> address \<Rightarrow> 'k \<Rightarrow> 'v option" where
  "nested vs a key = (case map_of vs a of None \<Rightarrow> None | Some m \<Rightarrow> map_of m key)"

lemma getValue_nested: "getValue t a key = nested (mk_values t) a key"
  by (simp add: getValue_def nested_def)

lemma nested_put_proof [simp]:
  "nested (put_proof a key pf proofs) b j = (if b = a \<and> j = key then Some pf else nested proofs b j)"
  by (auto simp: nested_def put_proof_def update_conv split: option.splits)

lemma proofs_of_address:
  assumes "\<forall>(key, v) \<in> set m. f key v = Inr (g key v)" "js_map_ok m"
  shows "\<exists>proofs'. res_fold (\<lambda>(key, v) proofs. res_bind (f key v) (\<lambda>pf. Inr (put_proof a key pf proofs)))
      m proofs = Inr proofs'
    \<and> (\<forall>b j. nested proofs' b j =
         (case (if b = a then map_of m j else None) of Some v \<Rightarrow> Some (g j v) | None \<Rightarrow> nested proofs b j))"
  using assms
proof (induction m arbitrary: proofs)
  case (Cons e m)
  obtain key v where e: "e = (key, v)" by (cases e)
  from Cons.prems e have f: "f key v = Inr (g key v)" and m: "map_of m key = None"
    by (auto simp: map_of_eq_None_iff)
  from Cons.IH [of "put_proof a key (g key v) proofs"] Cons.prems obtain proofs' where
    "res_fold (\<lambda>(key, v) proofs. res_bind (f key v) (\<lambda>pf. Inr (put_proof a key pf proofs)))
      m (put_proof a key (g key v) proofs) = Inr proofs'"
    and "\<forall>b j. nested proofs' b j =
         (case (if b = a then map_of m j else None) of Some v \<Rightarrow> Some (g j v)
          | None \<Rightarrow> nested (put_proof a key (g key v) proofs) b j)"
    by auto
  with e f m show ?case by (auto split: option.splits)
qed (simp add: option.case_eq_if)

lemma proofs_of_addresses:
  assumes "js_map_ok vs" "\<forall>(a, m) \<in> set vs. js_map_ok m"
    "\<forall>(a, m) \<in> set vs. \<forall>(key, v) \<in> set m. f key v = Inr (g key v)"
  shows "\<exists>proofs'. res_fold (\<lambda>(a, val). res_fold (\<lambda>(key, v) proofs.
         res_bind (f key v) (\<lambda>pf. Inr (put_proof a key pf proofs))) val) vs proofs = Inr proofs'
     \<and> (\<forall>a key. nested proofs' a key =
          (case nested vs a key of Some v \<Rightarrow> Some (g key v) | None \<Rightarrow> nested proofs a key))"
  using assms
proof (induction vs arbitrary: proofs)
  case (Cons e vs)
  obtain a m where e: "e = (a, m)" by (cases e)
  from Cons.prems e have "map_of vs a = None" by (auto simp: map_of_eq_None_iff)
  then have split: "nested (e # vs) b j = (if b = a then map_of m j else nested vs b j)"
    "nested vs a j = None" for b j using e by (auto simp: nested_def)
  from proofs_of_address [of m f g a proofs] Cons.prems e obtain p1 where
    p1: "res_fold (\<lambda>(key, v) proofs. res_bind (f key v) (\<lambda>pf. Inr (put_proof a key pf proofs)))
       m proofs = Inr p1"
      "\<forall>b j. nested p1 b j =
       (case (if b = a then map_of m j else None) of Some v \<Rightarrow> Some (g j v) | None \<Rightarrow> nested proofs b j)"
    by auto
  from Cons.IH [of p1] Cons.prems obtain p2 where
    p2: "res_fold (\<lambda>(a, val). res_fold (\<lambda>(key, v) proofs.
         res_bind (f key v) (\<lambda>pf. Inr (put_proof a key pf proofs))) val) vs p1 = Inr p2"
      "\<forall>b key. nested p2 b key =
          (case nested vs b key of Some v \<Rightarrow> Some (g key v) | None \<Rightarrow> nested p1 b key)" by auto
  have "nested p2 b j = (case nested (e # vs) b j of Some v \<Rightarrow> Some (g j v) | None \<Rightarrow> nested proofs b j)"
    for b j using p1(2) p2(2) split by (cases "b = a") (simp_all cong: option.case_cong)
  with e p1(1) p2(1) show ?case by simp
qed (simp add: nested_def [of "[]"])

lemma getProofs_spec:
  assumes "\<forall>(key, v) \<in> set (MerkleTree_entries t). prove_entry M enc toB t key v = Inr (g key v)" "mk_ok t"
  shows "\<exists>proofs. getProofs M enc toB t = Inr proofs
    \<and> (\<forall>a key. nested proofs a key = map_option (g key) (getValue t a key))"
proof -
  have "\<forall>(a, m) \<in> set (mk_values t). \<forall>(key, v) \<in> set m. prove_entry M enc toB t key v = Inr (g key v)"
    using assms(1) by (fastforce simp: MerkleTree_entries_def)
  with proofs_of_addresses [of "mk_values t" "prove_entry M enc toB t" g "[]"] assms(2)
  obtain proofs where "getProofs M enc toB t = Inr proofs"
    "\<forall>a key. nested proofs a key =
       (case nested (mk_values t) a key of Some v \<Rightarrow> Some (g key v) | None \<Rightarrow> nested [] a key)"
    by (auto simp: getProofs_def mk_ok_def)
  then show ?thesis by (auto simp: getValue_nested nested_def [of "[]"] map_option_case cong: option.case_cong)
qed

interpretation state_tree: merkle_tree_class "state_entry M" "StateMerkleTree_toBytes M" state_unchanged
  "mp_fakeAddress M" "[(1, 1), (2, 2)]" for M
  by unfold_locales (simp_all add: state_unchanged_def MINIMUM_VALUES_def)

interpretation receipt_tree: merkle_tree_class "receipt_entry M" "ReceiptMerkleTree_toBytes M"
  "receipt_unchanged same" "mp_fakeAddress M" "[(MAX_HASH, [1]), (MAX_MINUS_ONE, [1])]" for M same
proof unfold_locales
  have "last MAX_HASH \<noteq> last MAX_MINUS_ONE" by (simp add: MAX_HASH_def MAX_MINUS_ONE_def)
  then show "js_map_ok [(MAX_HASH, [1 :: byte]), (MAX_MINUS_ONE, [1])]" by auto
qed (simp_all add: receipt_unchanged_def MINIMUM_VALUES_def)

lemma MerkleTree_new_ok [simp]: "mk_ok MerkleTree_new" "\<not> mk_frozen MerkleTree_new"
  "getValue MerkleTree_new a key = None"
  by (simp_all add: mk_ok_def MerkleTree_new_def getValue_def)

lemma with_minimum_entries:
  assumes "mk_ok t" "(key, v) \<in> set (MerkleTree_entries (with_minimum [(a, m)] t))"
  shows "(key, v) \<in> set m \<or> (\<exists>b. getValue t b key = Some v)"
proof -
  have stored: "\<exists>b. getValue t b key = Some v" if "(b, m') \<in> set (mk_values t)" "(key, v) \<in> set m'" for b m'
    using assms(1) that by (auto simp: mk_ok_def getValue_def intro!: exI [of _ b])
  from assms(2) obtain b m' where
    "(b, m') \<in> set (mk_values (with_minimum [(a, m)] t))" "(key, v) \<in> set m'"
    by (auto simp: MerkleTree_entries_def)
  then show ?thesis using stored
    by (auto simp: with_minimum_def add_dummies_def update_fresh_append split: if_splits
        dest!: map_entry_set dest: subsetD [OF add_missing_subset])
qed

definition u256 :: "bigint \<Rightarrow> bool" where
  "u256 n \<longleftrightarrow> 0 \<le> n \<and> n < 2 ^ 256"

definition slot_encoders_ok :: "merkle_package \<Rightarrow> bool" where
  "slot_encoders_ok M \<longleftrightarrow>
     (\<forall>n. u256 n \<longrightarrow> mp_pointerToUint8Array M n \<noteq> None \<and> mp_valueToUint8Array M n \<noteq> None)"

lemma state_entry_total: "slot_encoders_ok M \<Longrightarrow> u256 key \<Longrightarrow> u256 v \<Longrightarrow> \<exists>d. state_entry M key v = Inr d"
proof -
  assume "slot_encoders_ok M" "u256 key" "u256 v"
  then obtain p b where "mp_pointerToUint8Array M key = Some p" "mp_valueToUint8Array M v = Some b"
    by (fastforce simp: slot_encoders_ok_def)
  then show ?thesis by (simp add: state_entry_def encodePointer_def)
qed

lemma u256_small [simp]: "u256 1" "u256 2"
  by (simp_all add: u256_def)

text \<open>The proofs of the checksum tree: one for each value, under its index, and each is accepted.\<close>

lemma checksum_proofs:
  assumes pkg: "merkle_package_ok M" and tree: "cm_tree c = Some (map (ChecksumMerkle_toBytes M) vs)"
    and two: "2 \<le> length vs"
  obtains pfs where "ChecksumMerkle_getProofs M c = Inr pfs" "map fst pfs = [0..<length vs]"
    "\<And>i. i < length vs \<Longrightarrow> ChecksumMerkle_verify M (mp_root M (map (ChecksumMerkle_toBytes M) vs)) (vs ! i)
            (snd (pfs ! i)) = Inr True"
proof -
  let ?ls = "map (ChecksumMerkle_toBytes M) vs"
  let ?f = "\<lambda>(i, h). res_bind (or_throw (mp_hashProof M ?ls h)) (\<lambda>pf. Inr (i :: nat, pf))"
  let ?hs = "enumerate 0 (mp_hashes M ?ls)"
  have hs: "length ?hs = length vs" "\<And>i. i < length vs \<Longrightarrow> ?hs ! i = (i, mp_hash M (?ls ! i))"
    using pkg by (simp_all add: merkle_package_ok_def nth_enumerate_eq)
  have acc: "\<exists>pf. mp_hashProof M ?ls (mp_hash M (?ls ! i)) = Some pf \<and> proof_accepted M ?ls (?ls ! i) pf"
    if "i < length vs" for i
  proof -
    from that have "?ls ! i \<in> set ?ls" by (metis length_map nth_mem)
    moreover from two have "2 \<le> length ?ls" by simp
    ultimately show ?thesis using pkg unfolding merkle_package_ok_def by blast
  qed
  have "\<exists>y. ?f x = Inr y" if x: "x \<in> set ?hs" for x
  proof -
    from x hs(1) obtain i where i: "i < length vs" "x = ?hs ! i" by (metis in_set_conv_nth)
    with acc [OF i(1)] hs(2) [OF i(1)] show ?thesis by auto
  qed
  then have "\<exists>pfs. res_map ?f ?hs = Inr pfs" by (intro res_map_total ballI)
  then obtain pfs where run: "res_map ?f ?hs = Inr pfs" ..
  then have all: "list_all2 (\<lambda>x y. ?f x = Inr y) ?hs pfs" by (simp add: res_map_Inr_iff)
  then have len: "length pfs = length vs" using hs(1) by (simp add: list_all2_lengthD [symmetric])
  have each: "fst (pfs ! i) = i \<and> proof_accepted M ?ls (?ls ! i) (snd (pfs ! i))" if "i < length vs" for i
    using list_all2_nthD [OF all, of i] hs(1) hs(2) [OF that] acc [OF that] that
    by (cases "pfs ! i") auto
  have idx: "fst (pfs ! i) = i" if "i < length vs" for i using each [OF that] ..
  show thesis
  proof (rule that)
    show "ChecksumMerkle_getProofs M c = Inr pfs" using run tree by (simp add: ChecksumMerkle_getProofs_def)
    show "map fst pfs = [0..<length vs]" 
      by (rule nth_equalityI) (simp_all add: len idx)
    show "ChecksumMerkle_verify M (mp_root M ?ls) (vs ! i) (snd (pfs ! i)) = Inr True" if "i < length vs" for i
      using each [OF that] that by (auto simp: proof_accepted_def ChecksumMerkle_verify_def)
  qed
qed

subsection \<open>Properties\<close>

text \<open>
  C33: the storage tree of a block proves every slot it holds. After any writes of 256-bit pointers
  and values into an empty tree, freezing it succeeds; each slot then carries the last value written to it,
  and \<open>getValueWithProofs\<close> returns the encoding of that value with a proof that
  \<open>StateMerkleTree.verify\<close> accepts against the root of the tree.\<close>

theorem state_values_proved:
  assumes pkg: "merkle_package_ok M"
    and enc: "slot_encoders_ok M"
    and slots: "\<forall>(a, key, v) \<in> set writes. u256 key \<and> u256 v"
  shows "\<exists>t t' rt. res_fold (\<lambda>(a, key, v). StateMerkleTree_updateValue a key v) writes MerkleTree_new = Inr t
    \<and> StateMerkleTree_freeze M t = Inr t' \<and> MerkleTree_root M t' = Inr rt
    \<and> (\<forall>a key v. map_of (rev (map (\<lambda>(a, key, v). ((a, key), v)) writes)) (a, key) = Some v \<longrightarrow>
         (\<exists>p b pf. mp_pointerToUint8Array M key = Some p \<and> mp_valueToUint8Array M v = Some b
            \<and> StateMerkleTree_getValueWithProofs M t' a key = Inr (Some (b, pf))
            \<and> StateMerkleTree_verify M rt [p, b] pf = Inr True))"
proof -
  let ?last = "map_of (rev (map (\<lambda>(a, key, v). ((a, key), v)) writes))"
  obtain t where t: "res_fold (\<lambda>(a, key, v). updateValue state_unchanged a key v) writes MerkleTree_new = Inr t"
    "mk_ok t" "\<not> mk_frozen t" "\<And>a key. getValue t a key = ?last (a, key)"
    by (rule state_tree.updates_new [of MerkleTree_new writes]) simp_all
  have inrange: "u256 key \<and> u256 v" if "getValue t a key = Some v" for a key v
    using that t(4) slots by (auto dest!: map_of_SomeD)
  have "\<exists>d. state_entry M key v = Inr d"
    if "(key, v) \<in> set (MerkleTree_entries (with_minimum [(mp_fakeAddress M, [(1, 1), (2, 2)])] t))" for key v
    using with_minimum_entries [OF t(2) that] inrange by (auto intro!: state_entry_total [OF enc])
  with state_tree.freeze_total [OF t(2,3)] obtain t' where
    fr: "MerkleTree_freeze (state_entry M) (StateMerkleTree_toBytes M)
      [(mp_fakeAddress M, [(1, 1), (2, 2)])] t = Inr t'" by blast
  note spec = state_tree.freeze_spec [OF t(2) fr]
  then obtain ls where ls: "mk_tree t' = Some ls" by (auto simp: leaves_ok_def)
  have "\<exists>p b pf. mp_pointerToUint8Array M key = Some p \<and> mp_valueToUint8Array M v = Some b
      \<and> StateMerkleTree_getValueWithProofs M t' a key = Inr (Some (b, pf))
      \<and> StateMerkleTree_verify M (mp_rootHex M ls) [p, b] pf = Inr True"
    if "?last (a, key) = Some v" for a key v
  proof -
    from that t(4) state_tree.freeze_keeps [OF t(2) fr] have v: "getValue t' a key = Some v" by simp
    from entry_proved [OF pkg _ _ getValue_entry [OF v]] spec ls obtain d pf where
      d: "state_entry M key v = Inr d" "entry_proof M (StateMerkleTree_toBytes M) t' d = Inr pf"
        "proof_accepted M ls (StateMerkleTree_toBytes M d) pf" by (metis option.inject)
    then show ?thesis using v ls pkg
      by (auto simp: state_entry_def encodePointer_def StateMerkleTree_getValueWithProofs_def
          StateMerkleTree_verify_def StateMerkleTree_toBytes_def proof_accepted_def merkle_package_ok_def)
  qed
  moreover have "MerkleTree_root M t' = Inr (mp_rootHex M ls)"
    using ls by (simp add: MerkleTree_root_def MerkleTree_tree_def)
  ultimately show ?thesis using t(1) fr
    by (auto simp: StateMerkleTree_updateValue_def StateMerkleTree_freeze_def StateMerkleTree_getDummyValues_def)
qed

text \<open>
  the receipt tree of a block proves every receipt it holds. After any receipts have been
  recorded under transaction ids that decode, freezing the tree succeeds and \<open>getProofs\<close> returns, for every
  contract and transaction, a proof of the receipt recorded last, which the package accepts against
  the root.\<close>

theorem receipts_proved:
  assumes pkg: "merkle_package_ok M"
    and keys: "\<forall>(a, key, v) \<in> set writes. mp_fromHex M key \<noteq> None"
    and filler: "mp_fromHex M MAX_HASH \<noteq> None" "mp_fromHex M MAX_MINUS_ONE \<noteq> None"
  shows "\<exists>t t' ls proofs.
      res_fold (\<lambda>(a, key, v). ReceiptMerkleTree_updateValue same a key v) writes MerkleTree_new = Inr t
    \<and> ReceiptMerkleTree_freeze M t = Inr t' \<and> mk_tree t' = Some ls
    \<and> ReceiptMerkleTree_getProofs M t' = Inr proofs
    \<and> (\<forall>a key v. map_of (rev (map (\<lambda>(a, key, v). ((a, key), v)) writes)) (a, key) = Some v \<longrightarrow>
         (\<exists>k pf. mp_fromHex M key = Some k \<and> nested proofs a key = Some pf
            \<and> proof_accepted M ls (ReceiptMerkleTree_toBytes M [k, v]) pf))"
proof -
  let ?last = "map_of (rev (map (\<lambda>(a, key, v). ((a, key), v)) writes))"
  let ?fill = "[(mp_fakeAddress M, [(MAX_HASH, [1]), (MAX_MINUS_ONE, [1])])]"
  let ?toB = "ReceiptMerkleTree_toBytes M"
  obtain t where t: "res_fold (\<lambda>(a, key, v). updateValue (receipt_unchanged same) a key v)
      writes MerkleTree_new = Inr t"
    "mk_ok t" "\<not> mk_frozen t" "\<And>a key. getValue t a key = ?last (a, key)"
    by (rule receipt_tree.updates_new [of MerkleTree_new same writes]) simp_all
  have keyed: "mp_fromHex M key \<noteq> None" if "getValue t a key = Some v" for a key v
    using that t(4) keys by (auto dest!: map_of_SomeD)
  have "\<exists>d. receipt_entry M key v = Inr d" if "(key, v) \<in> set (MerkleTree_entries (with_minimum ?fill t))"
    for key v
    using with_minimum_entries [OF t(2) that] keyed filler by (auto simp: receipt_entry_def)
  with receipt_tree.freeze_total [OF t(2,3)] obtain t' where
    fr: "MerkleTree_freeze (receipt_entry M) ?toB ?fill t = Inr t'" by blast
  note spec = receipt_tree.freeze_spec [OF t(2) fr]
  then obtain ls where ls: "mk_tree t' = Some ls" by (auto simp: leaves_ok_def)
  define g where "g key v = projr (prove_entry M (receipt_entry M) ?toB t' key v)" for key v
  have proved: "prove_entry M (receipt_entry M) ?toB t' key v = Inr (g key v)
      \<and> (\<exists>d. receipt_entry M key v = Inr d \<and> proof_accepted M ls (?toB d) (g key v))"
    if "(key, v) \<in> set (MerkleTree_entries t')" for key v
  proof -
    from entry_proved [OF pkg _ _ that] spec ls obtain d pf where "receipt_entry M key v = Inr d"
      "entry_proof M ?toB t' d = Inr pf" "proof_accepted M ls (?toB d) pf" by (metis option.inject)
    then show ?thesis by (simp add: g_def prove_entry_def)
  qed
  then obtain proofs where pr: "getProofs M (receipt_entry M) ?toB t' = Inr proofs"
    "\<forall>a key. nested proofs a key = map_option (g key) (getValue t' a key)"
    using getProofs_spec [of t' M "receipt_entry M" ?toB g] spec by auto
  have "\<exists>k pf. mp_fromHex M key = Some k \<and> nested proofs a key = Some pf \<and> proof_accepted M ls (?toB [k, v]) pf"
    if "?last (a, key) = Some v" for a key v
  proof -
    from that t(4) receipt_tree.freeze_keeps [OF t(2) fr] have v: "getValue t' a key = Some v" by simp
    from proved [OF getValue_entry [OF v]] pr(2) v show ?thesis by (auto simp: receipt_entry_def)
  qed
  with t(1) fr ls pr(1) show ?thesis
    by (auto simp: ReceiptMerkleTree_updateValue_def ReceiptMerkleTree_freeze_def
        ReceiptMerkleTree_getDummyValues_def ReceiptMerkleTree_getProofs_def)
qed

text \<open>
  a frozen storage tree refuses single writes, a second freezing and a new generation, and none of
  its values is lost by freezing; \<open>updateValues\<close> however has no such guard: it still changes the
  values of a frozen tree, whose root stays the old one.\<close>

theorem frozen_state_tree:
  assumes "mk_ok t" and "StateMerkleTree_freeze M t = Inr t'"
  shows "StateMerkleTree_updateValue a key v t' = Inl FrozenUpdate
    \<and> StateMerkleTree_freeze M t' = Inl MerkleTreeFrozen
    \<and> StateMerkleTree_generateTree M regenerate t' = Inl MerkleTreeFrozen
    \<and> MINIMUM_VALUES \<le> countValues t'
    \<and> (getValue t b j = Some w \<longrightarrow> getValue t' b j = Some w)
    \<and> MerkleTree_root M (StateMerkleTree_updateValues a kvs t') = MerkleTree_root M t'
    \<and> getValue (StateMerkleTree_updateValues a kvs t') a j = (getValue t' a ++ map_of (rev kvs)) j"
proof -
  have fr: "MerkleTree_freeze (state_entry M) (StateMerkleTree_toBytes M)
      [(mp_fakeAddress M, [(1, 1), (2, 2)])] t = Inr t'"
    using assms(2) by (simp add: StateMerkleTree_freeze_def StateMerkleTree_getDummyValues_def)
  note spec = state_tree.freeze_spec [OF assms(1) fr]
  then have "mk_frozen (with_minimum d t')" for d by (simp add: with_minimum_def)
  with spec show ?thesis
    using state_tree.updateValues_spec [of t' a kvs a j] state_tree.freeze_keeps [OF assms(1) fr, of b j w]
    by (simp add: StateMerkleTree_updateValue_def updateValue_def StateMerkleTree_freeze_def
        MerkleTree_freeze_def StateMerkleTree_generateTree_def MerkleTree_generateTree_def
        MerkleTree_root_def MerkleTree_tree_def StateMerkleTree_updateValues_def)
qed

subsection \<open>Witnesses\<close>

definition sample_hex :: "bytes \<Rightarrow> string" where
  "sample_hex b = CHR ''h'' # map (\<lambda>w. char_of (unat w)) b"

definition sample_unhex :: "string \<Rightarrow> bytes" where
  "sample_unhex s = map (\<lambda>c. of_nat (of_char c)) (tl s)"

lemma sample_unhex_hex [simp]: "sample_unhex (sample_hex b) = b"
proof -
  have "unat w mod 256 = unat w" for w :: byte using unsigned_less [of w, where ?'a = nat] by simp
  then show ?thesis by (simp add: sample_hex_def sample_unhex_def comp_def map_idI)
qed

definition sample_merkle :: merkle_package where
  "sample_merkle = \<lparr>mp_root = concat, mp_rootHex = (\<lambda>ls. sample_hex (concat ls)),
     mp_indexProof = (\<lambda>ls d. if d \<in> set ls then Some (map sample_hex ls) else None),
     mp_hashes = (\<lambda>ls. ls), mp_hashProof = (\<lambda>ls h. if h \<in> set ls then Some (map sample_hex ls) else None),
     mp_hash = (\<lambda>d. d), mp_verify = (\<lambda>ps r h. r = concat ps \<and> h \<in> set ps),
     mp_fromHex = (\<lambda>s. Some (sample_unhex s)), 
     mp_hexToUint8Array = (\<lambda>s. Some (if s = ZERO_HASH then replicate 32 0 else sample_unhex s)),
     mp_pointerToUint8Array = (\<lambda>n. Some (be_bytes 32 n)), mp_valueToUint8Array = (\<lambda>n. Some (be_bytes 32 n)),
     mp_writer = (\<lambda>n bs. concat bs), mp_writeU8 = (\<lambda>n. [of_nat n]), mp_fakeAddress = ''dead''\<rparr>"

lemma sample_merkle_toBytes [simp]: "merkle_toBytes sample_merkle (sample_hex b) = Inr b"
  by (simp add: merkle_toBytes_def sample_merkle_def) (simp add: sample_hex_def sample_unhex_def [symmetric])

lemma sample_res_map: "res_map (merkle_toBytes sample_merkle) (map sample_hex ls) = Inr ls"
  by (induction ls) simp_all

lemma sample_merkle_ok: "merkle_package_ok sample_merkle"
proof -
  have "merkle_toBytes sample_merkle (mp_rootHex sample_merkle ls) = Inr (mp_root sample_merkle ls)" for ls
    by (simp add: sample_merkle_def [THEN arg_cong [of _ _ mp_rootHex]] sample_merkle_def [THEN arg_cong [of _ _ mp_root]])
  with sample_res_map show ?thesis
    by (auto simp: merkle_package_ok_def proof_accepted_def) (auto simp: sample_merkle_def)
qed

lemma sample_slots_ok: "slot_encoders_ok sample_merkle"
  by (simp add: slot_encoders_ok_def sample_merkle_def)

theorem state_values_proved_witness:
  "\<exists>t t' rt pf. res_fold (\<lambda>(a, key, v). StateMerkleTree_updateValue a key v)
       [(''a'', 5, 7), (''b'', 6, 8), (''a'', 5, 9)] MerkleTree_new = Inr t
     \<and> StateMerkleTree_freeze sample_merkle t = Inr t' \<and> MerkleTree_root sample_merkle t' = Inr rt
     \<and> StateMerkleTree_getValueWithProofs sample_merkle t' ''a'' 5 = Inr (Some (be_bytes 32 9, pf))
     \<and> StateMerkleTree_verify sample_merkle rt [be_bytes 32 5, be_bytes 32 9] pf = Inr True"
proof -
  let ?w = "[(''a'', 5, 7), (''b'', 6, 8), (''a'', 5, 9)] :: (address \<times> bigint \<times> bigint) list"
  have "\<forall>(a, key, v) \<in> set ?w. u256 key \<and> u256 v" by (simp add: u256_def)
  from state_values_proved [OF sample_merkle_ok sample_slots_ok this] obtain t t' rt where
    run: "res_fold (\<lambda>(a, key, v). StateMerkleTree_updateValue a key v) ?w MerkleTree_new = Inr t"
      "StateMerkleTree_freeze sample_merkle t = Inr t'" "MerkleTree_root sample_merkle t' = Inr rt"
    and "\<exists>p b pf. mp_pointerToUint8Array sample_merkle 5 = Some p \<and> mp_valueToUint8Array sample_merkle 9 = Some b
       \<and> StateMerkleTree_getValueWithProofs sample_merkle t' ''a'' 5 = Inr (Some (b, pf))
       \<and> StateMerkleTree_verify sample_merkle rt [p, b] pf = Inr True"
    by fastforce
  moreover have "mp_pointerToUint8Array sample_merkle n = Some (be_bytes 32 n)"
    "mp_valueToUint8Array sample_merkle n = Some (be_bytes 32 n)" for n
    by (simp_all add: sample_merkle_def)
  ultimately show ?thesis by auto
qed

theorem receipts_proved_witness:
  "\<exists>t t' ls proofs pf. res_fold (\<lambda>(a, key, v). ReceiptMerkleTree_updateValue (\<lambda>_ _. False) a key v)
       [(''a'', ''x1'', [7])] MerkleTree_new = Inr t
     \<and> ReceiptMerkleTree_freeze sample_merkle t = Inr t' \<and> mk_tree t' = Some ls
     \<and> ReceiptMerkleTree_getProofs sample_merkle t' = Inr proofs
     \<and> nested proofs ''a'' ''x1'' = Some pf
     \<and> proof_accepted sample_merkle ls (ReceiptMerkleTree_toBytes sample_merkle [[49], [7]]) pf"
proof -
  let ?w = "[(''a'', ''x1'', [7])] :: (address \<times> string \<times> bytes) list"
  have hex: "mp_fromHex sample_merkle s = Some (sample_unhex s)" for s by (simp add: sample_merkle_def)
  have "\<forall>(a, key, v) \<in> set ?w. mp_fromHex sample_merkle key \<noteq> None" by (simp add: hex)
  from receipts_proved [OF sample_merkle_ok this, of "\<lambda>_ _. False"] obtain t t' ls proofs where
    run: "res_fold (\<lambda>(a, key, v). ReceiptMerkleTree_updateValue (\<lambda>_ _. False) a key v) ?w MerkleTree_new = Inr t"
      "ReceiptMerkleTree_freeze sample_merkle t = Inr t'" "mk_tree t' = Some ls"
      "ReceiptMerkleTree_getProofs sample_merkle t' = Inr proofs"
    and "\<exists>k pf. mp_fromHex sample_merkle ''x1'' = Some k \<and> nested proofs ''a'' ''x1'' = Some pf
       \<and> proof_accepted sample_merkle ls (ReceiptMerkleTree_toBytes sample_merkle [k, [7]]) pf"
    by (fastforce simp: hex)
  moreover have "sample_unhex ''x1'' = [49]" by (simp add: sample_unhex_def)
  ultimately show ?thesis by (auto simp: hex)
qed

definition sample_tree :: StateMerkleTree where
  "sample_tree = \<lparr>mk_values = [(''a'', [(5, 7)])], mk_valueChanged = True, mk_frozen = False, mk_tree = None\<rparr>"

theorem frozen_state_tree_witness:
  "\<exists>t'. StateMerkleTree_freeze sample_merkle sample_tree = Inr t'
     \<and> StateMerkleTree_updateValue ''a'' 5 8 t' = Inl FrozenUpdate
     \<and> getValue t' ''a'' 5 = Some 7
     \<and> getValue (StateMerkleTree_updateValues ''a'' [(5, 8)] t') ''a'' 5 = Some 8
     \<and> MerkleTree_root sample_merkle (StateMerkleTree_updateValues ''a'' [(5, 8)] t')
         = MerkleTree_root sample_merkle t'"
proof -
  have ok: "mk_ok sample_tree" by (simp add: mk_ok_def sample_tree_def)
  have "\<exists>t'. StateMerkleTree_freeze sample_merkle sample_tree = Inr t'"
    by (simp add: StateMerkleTree_freeze_def MerkleTree_freeze_def MerkleTree_generateTree_def
        with_minimum_def countValues_def MINIMUM_VALUES_def sample_tree_def add_dummies_def
        StateMerkleTree_getDummyValues_def sample_merkle_def MerkleTree_size_def MerkleTree_getValues_def
        MerkleTree_entries_def state_entry_def encodePointer_def)
  then obtain t' where fr: "StateMerkleTree_freeze sample_merkle sample_tree = Inr t'" ..
  have "getValue sample_tree ''a'' 5 = Some 7" by (simp add: getValue_def sample_tree_def)
  with frozen_state_tree [OF ok fr, of "''a''" 5 8 True "''a''" 5 7 "[(5, 8)]"] fr show ?thesis by simp
qed

end
