(* ===== verification/Block_Headers.thy ===== *)
theory Block_Headers
  imports Merkle_Trees
begin

section \<open>Block headers and their checksums\<close>

text \<open>
  \<open>src/src/vm/BlockHeaderValidator.ts\<close> and the part of \<open>src/src/blockchain-indexer/processor/block/Block.ts\<close>
  that computes the checksum of a block. The checksum root of a header commits to six values, one of
  which is the checksum root of the previous block, so that the headers form a hash chain.

  A header is a record of the fields the checksum is about; a field that is absent is the empty string, which
  the code tests in the same way. The stored headers are a function of the height (\<open>db\<close>);
  \<open>DataConverter\<close>'s decimals are the integers they stand for. The validator's cache is state and is threaded
  through every call that touches it.
\<close>

record BlockHeaderDocument =
  bh_height :: bigint
  bh_checksumRoot :: string
  bh_hash :: string
  bh_previousBlockHash :: string
  bh_previousBlockChecksum :: string
  bh_merkleRoot :: string
  bh_storageRoot :: string
  bh_receiptRoot :: string
  bh_checksumProofs :: "(nat \<times> string list) list"

datatype header_error = ChecksumNotFound | BlockDataNotFound | InvalidPreviousChecksum bigint
  | PreviousChecksumNotFound | ProofIndexNotFound nat | MerkleFailure merkle_error | DataCorrupted

definition lift_merkle :: "merkle_error + 'a \<Rightarrow> header_error + 'a" where
  "lift_merkle r = (case r of Inl e \<Rightarrow> Inl (MerkleFailure e) | Inr x \<Rightarrow> Inr x)"

lemma lift_merkle_Inr [simp]: "lift_merkle r = Inr x \<longleftrightarrow> r = Inr x" "lift_merkle (Inr y) = Inr y"
  by (simp_all add: lift_merkle_def split: sum.splits)

type_synonym header_db = "bigint \<Rightarrow> BlockHeaderDocument option"

subsection \<open>The validator and its cache\<close>

record BlockHeaderValidator =
  hv_cache :: "(bigint, BlockHeaderDocument) js_map"
  hv_enableCaching :: bool

definition ensureCacheSizeWithinLimit :: "BlockHeaderValidator \<Rightarrow> BlockHeaderValidator" where
  "ensureCacheSizeWithinLimit v = (if length (hv_cache v) > 100 then v\<lparr>hv_cache := []\<rparr> else v)"

definition setToCache :: "BlockHeaderDocument \<Rightarrow> BlockHeaderValidator \<Rightarrow> BlockHeaderValidator" where
  "setToCache d v =
     (if hv_enableCaching v
      then (let v1 = ensureCacheSizeWithinLimit v
            in v1\<lparr>hv_cache := AList.update (bh_height d) d (hv_cache v1)\<rparr>)
      else v)"

definition setLastBlockHeader :: "BlockHeaderDocument \<Rightarrow> BlockHeaderValidator \<Rightarrow> BlockHeaderValidator" where
  "setLastBlockHeader d v = setToCache d v"

definition clear :: "BlockHeaderValidator \<Rightarrow> BlockHeaderValidator" where
  "clear v = v\<lparr>hv_cache := []\<rparr>"

definition getBlockHeader ::
    "header_db \<Rightarrow> bigint \<Rightarrow> BlockHeaderValidator \<Rightarrow> BlockHeaderDocument option \<times> BlockHeaderValidator" where
  "getBlockHeader db height v =
     (case map_of (hv_cache v) height of
        Some d \<Rightarrow> (Some d, v)
      | None \<Rightarrow> (case db height of None \<Rightarrow> (None, v) | Some d \<Rightarrow> (Some d, setToCache d v)))"

definition getPreviousBlockChecksumOfHeight ::
    "header_db \<Rightarrow> bool \<Rightarrow> bigint \<Rightarrow> BlockHeaderValidator \<Rightarrow> (header_error + string) \<times> BlockHeaderValidator" where
  "getPreviousBlockChecksumOfHeight db light height v =
     (let newHeight = height - 1; (blockRootStates, v1) = getBlockHeader db newHeight v
      in ((if newHeight < 0 then Inr ZERO_HASH
           else (case blockRootStates of
                   None \<Rightarrow> if light then Inr ZERO_HASH else Inl (InvalidPreviousChecksum newHeight)
                 | Some d \<Rightarrow>
                     if bh_checksumRoot d = []
                     then if light then Inr ZERO_HASH else Inl (InvalidPreviousChecksum newHeight)
                     else Inr (bh_checksumRoot d))), v1))"

fun getProofForIndex :: "(nat \<times> string list) list \<Rightarrow> nat \<Rightarrow> header_error + string list" where
  "getProofForIndex [] index = Inl (ProofIndexNotFound index)"
| "getProofForIndex (p # ps) index = (if fst p = index then Inr (snd p) else getProofForIndex ps index)"

definition verify_value ::
    "merkle_package \<Rightarrow> bytes \<Rightarrow> (nat \<times> string list) list \<Rightarrow> nat \<Rightarrow> bytes \<Rightarrow> header_error + bool" where
  "verify_value M checksumRoot proofs index b =
     res_bind (getProofForIndex proofs index) (\<lambda>pf.
       lift_merkle (ChecksumMerkle_verify M checksumRoot (index, b) pf))"

definition verify_hex ::
    "merkle_package \<Rightarrow> bytes \<Rightarrow> (nat \<times> string list) list \<Rightarrow> nat \<Rightarrow> string \<Rightarrow> header_error + bool" where
  "verify_hex M checksumRoot proofs index s =
     res_bind (getProofForIndex proofs index) (\<lambda>_.
     res_bind (lift_merkle (or_throw (mp_hexToUint8Array M s))) (\<lambda>b.
       verify_value M checksumRoot proofs index b))"

definition verify_checksum ::
    "merkle_package \<Rightarrow> BlockHeaderDocument \<Rightarrow> bytes \<Rightarrow> string \<Rightarrow> header_error + bool" where
  "verify_checksum M d checksumRoot previousBlockChecksum =
     (let proofs = bh_checksumProofs d in
      res_bind (if bh_previousBlockHash d = [] then Inr (replicate 32 0)
                else lift_merkle (or_throw (mp_hexToUint8Array M (bh_previousBlockHash d)))) (\<lambda>prevHash.
      res_bind (verify_value M checksumRoot proofs 0 prevHash) (\<lambda>hasValidPrevHash.
      res_bind (verify_hex M checksumRoot proofs 1 previousBlockChecksum) (\<lambda>hasValidPrevChecksum.
      res_bind (verify_hex M checksumRoot proofs 2 (bh_hash d)) (\<lambda>hasValidBlockHash.
      res_bind (verify_hex M checksumRoot proofs 3 (bh_merkleRoot d)) (\<lambda>hasValidBlockMerkelRoot.
      res_bind (verify_hex M checksumRoot proofs 4 (bh_storageRoot d)) (\<lambda>hasValidBlockStorage.
      res_bind (verify_hex M checksumRoot proofs 5 (bh_receiptRoot d)) (\<lambda>hasValidBlockReceipt.
        Inr (hasValidPrevHash \<and> hasValidPrevChecksum \<and> hasValidBlockHash \<and> hasValidBlockMerkelRoot
             \<and> hasValidBlockStorage \<and> hasValidBlockReceipt)))))))))"

definition validateBlockChecksum ::
    "merkle_package \<Rightarrow> header_db \<Rightarrow> bool \<Rightarrow> BlockHeaderDocument \<Rightarrow> BlockHeaderValidator
       \<Rightarrow> (header_error + bool) \<times> BlockHeaderValidator" where
  "validateBlockChecksum M db light d v =
     (if bh_checksumRoot d = [] then (Inl ChecksumNotFound, v)
      else (case merkle_toBytes M (bh_checksumRoot d) of
              Inl e \<Rightarrow> (Inl (MerkleFailure e), v)
            | Inr checksumRoot \<Rightarrow>
                if bh_receiptRoot d = [] \<or> bh_storageRoot d = [] \<or> bh_hash d = [] \<or> bh_merkleRoot d = []
                then (Inl BlockDataNotFound, v)
                else (case getPreviousBlockChecksumOfHeight db light (bh_height d) v of
                        (Inl e, v1) \<Rightarrow> (Inl e, v1)
                      | (Inr previousBlockChecksum, v1) \<Rightarrow>
                          if previousBlockChecksum = [] then (Inl PreviousChecksumNotFound, v1)
                          else if bh_previousBlockChecksum d \<noteq> previousBlockChecksum then (Inr False, v1)
                          else (verify_checksum M d checksumRoot previousBlockChecksum, v1))))"

subsection \<open>Signing a block\<close>

text \<open>What the checksum of a block is computed from, once its transactions have been executed.\<close>

record executed_block =
  eb_height :: bigint
  eb_hash :: string
  eb_previousBlockHash :: string
  eb_merkleRoot :: string
  eb_storageRoot :: string
  eb_receiptRoot :: string

definition getBlockHeaderDocument ::
    "executed_block \<Rightarrow> string \<Rightarrow> string \<Rightarrow> (nat \<times> string list) list \<Rightarrow> BlockHeaderDocument" where
  "getBlockHeaderDocument b checksumRoot previousBlockChecksum checksumProofs =
     \<lparr>bh_height = eb_height b, bh_checksumRoot = checksumRoot, bh_hash = eb_hash b,
      bh_previousBlockHash = eb_previousBlockHash b, bh_previousBlockChecksum = previousBlockChecksum,
      bh_merkleRoot = eb_merkleRoot b, bh_storageRoot = eb_storageRoot b, bh_receiptRoot = eb_receiptRoot b,
      bh_checksumProofs = checksumProofs\<rparr>"

definition signBlock ::
    "merkle_package \<Rightarrow> header_db \<Rightarrow> bool \<Rightarrow> executed_block \<Rightarrow> BlockHeaderValidator
       \<Rightarrow> (header_error + BlockHeaderDocument) \<times> BlockHeaderValidator" where
  "signBlock M db light b v =
     (case getPreviousBlockChecksumOfHeight db light (eb_height b) v of
        (Inl e, v1) \<Rightarrow> (Inl e, v1)
      | (Inr previousChecksumHeader, v1) \<Rightarrow>
          if previousChecksumHeader = [] then (Inl DataCorrupted, v1)
          else (lift_merkle
                  (res_bind (setBlockData M (eb_previousBlockHash b) previousChecksumHeader (eb_hash b)
                      (eb_merkleRoot b) (eb_storageRoot b) (eb_receiptRoot b) ChecksumMerkle_new) (\<lambda>c.
                   res_bind (ChecksumMerkle_getProofs M c) (\<lambda>proofs.
                   res_bind (ChecksumMerkle_root M c) (\<lambda>rt.
                     Inr (getBlockHeaderDocument b rt previousChecksumHeader proofs))))), v1))"

subsection \<open>The cache is transparent\<close>

text \<open>
  The cache holds stored headers only, under their own heights, and at most 101 of them (the size
  is tested before the insertion). Every operation keeps this as long as the storage answers a height
  with a header of that height.
\<close>

definition db_ok :: "header_db \<Rightarrow> bool" where
  "db_ok db \<longleftrightarrow> (\<forall>n d. db n = Some d \<longrightarrow> bh_height d = n)"

definition hv_ok :: "header_db \<Rightarrow> BlockHeaderValidator \<Rightarrow> bool" where
  "hv_ok db v \<longleftrightarrow> (\<forall>n d. map_of (hv_cache v) n = Some d \<longrightarrow> db n = Some d) \<and> length (hv_cache v) \<le> 101"

lemma length_update_le: "length (AList.update k v xs) \<le> Suc (length xs)"
  by (induction xs) auto

lemma hv_ok_new: "hv_ok db \<lparr>hv_cache = [], hv_enableCaching = b\<rparr>"
  by (simp add: hv_ok_def)

lemma hv_ok_clear: "hv_ok db (clear v)"
  by (simp add: hv_ok_def clear_def)

lemma setToCache_ok:
  assumes "hv_ok db v" "db (bh_height d) = Some d"
  shows "hv_ok db (setToCache d v)"
proof -
  have "length (AList.update (bh_height d) d xs) \<le> 101" if "length xs \<le> 100" for xs
    using length_update_le [of "bh_height d" d xs] that by simp
  with assms show ?thesis
    by (auto simp: hv_ok_def setToCache_def ensureCacheSizeWithinLimit_def update_conv Let_def)
qed

lemma getBlockHeader_spec:
  assumes "db_ok db" "hv_ok db v"
  shows "fst (getBlockHeader db n v) = db n \<and> hv_ok db (snd (getBlockHeader db n v))"
proof (cases "map_of (hv_cache v) n")
  case None
  show ?thesis
  proof (cases "db n")
    case (Some d)
    with assms(1) have "bh_height d = n" by (simp add: db_ok_def)
    with Some setToCache_ok [OF assms(2), of d] None show ?thesis by (simp add: getBlockHeader_def)
  qed (use None assms in \<open>simp add: getBlockHeader_def\<close>)
next
  case (Some d)
  with assms(2) have "db n = Some d" by (simp add: hv_ok_def)
  with Some assms(2) show ?thesis by (simp add: getBlockHeader_def)
qed

definition previous_checksum :: "header_db \<Rightarrow> bool \<Rightarrow> bigint \<Rightarrow> header_error + string" where
  "previous_checksum db light n =
     (if n - 1 < 0 then Inr ZERO_HASH
      else (case db (n - 1) of
              Some d \<Rightarrow> if bh_checksumRoot d \<noteq> [] then Inr (bh_checksumRoot d)
                         else if light then Inr ZERO_HASH else Inl (InvalidPreviousChecksum (n - 1))
            | None \<Rightarrow> if light then Inr ZERO_HASH else Inl (InvalidPreviousChecksum (n - 1))))"

lemma getPrevious_spec:
  assumes "db_ok db" "hv_ok db v"
  obtains v1 where "getPreviousBlockChecksumOfHeight db light n v = (previous_checksum db light n, v1)"
    "hv_ok db v1"
proof -
  obtain r v1 where r: "getBlockHeader db (n - 1) v = (r, v1)" by force
  with getBlockHeader_spec [OF assms, of "n - 1"] have "r = db (n - 1)" "hv_ok db v1" by auto
  with r that show thesis
    by (auto simp: getPreviousBlockChecksumOfHeight_def previous_checksum_def Let_def split: option.splits)
qed

definition checksum_verdict ::
    "merkle_package \<Rightarrow> header_db \<Rightarrow> bool \<Rightarrow> BlockHeaderDocument \<Rightarrow> header_error + bool" where
  "checksum_verdict M db light d =
     (if bh_checksumRoot d = [] then Inl ChecksumNotFound
      else res_bind (lift_merkle (merkle_toBytes M (bh_checksumRoot d))) (\<lambda>checksumRoot.
        if bh_receiptRoot d = [] \<or> bh_storageRoot d = [] \<or> bh_hash d = [] \<or> bh_merkleRoot d = []
        then Inl BlockDataNotFound
        else res_bind (previous_checksum db light (bh_height d)) (\<lambda>previousBlockChecksum.
          if bh_previousBlockChecksum d \<noteq> previousBlockChecksum then Inr False
          else verify_checksum M d checksumRoot previousBlockChecksum)))"

text \<open>The validator computes its verdict on a header from the stored headers alone.\<close>

lemma previous_checksum_nonempty: "previous_checksum db light n = Inr s \<Longrightarrow> s \<noteq> []"
  by (auto simp: previous_checksum_def ZERO_HASH_def split: if_splits option.splits)

lemma validateBlockChecksum_spec:
  assumes "db_ok db" "hv_ok db v"
  shows "\<exists>v1. validateBlockChecksum M db light d v = (checksum_verdict M db light d, v1) \<and> hv_ok db v1"
proof -
  obtain v1 where "getPreviousBlockChecksumOfHeight db light (bh_height d) v
      = (previous_checksum db light (bh_height d), v1)" "hv_ok db v1"
    using assms by (rule getPrevious_spec)
  then show ?thesis using previous_checksum_nonempty [of db light "bh_height d"] assms(2)
    by (auto simp: validateBlockChecksum_def checksum_verdict_def lift_merkle_def split: sum.splits)
qed

subsection \<open>Signed headers\<close>

definition block_values :: "executed_block \<Rightarrow> string \<Rightarrow> string list" where
  "block_values b prev = [eb_previousBlockHash b, prev, eb_hash b, eb_merkleRoot b, eb_storageRoot b,
     eb_receiptRoot b]"

lemma res_fold_push:
  "(\<forall>v \<in> set vs. hex_or_zero M (snd v) = Inr (h v)) \<Longrightarrow>
     res_fold (push_value M) vs c = Inr (c\<lparr>cm_values := cm_values c @ map (\<lambda>v. (fst v, h v)) vs\<rparr>)"
  by (induction vs arbitrary: c) (auto simp: push_value_def)

lemma setBlockData_spec:
  assumes "\<forall>s \<in> {pb, pc, bl, mr, sr, rr}. hex_or_zero M s = Inr (h s)"
  shows "setBlockData M pb pc bl mr sr rr ChecksumMerkle_new
    = Inr (ChecksumMerkle_generateTree M
        \<lparr>cm_tree = None, cm_values = [(0, h pb), (1, h pc), (2, h bl), (3, h mr), (4, h sr), (5, h rr)]\<rparr>)"
proof -
  have "res_fold (push_value M) [(0, pb), (1, pc), (2, bl), (3, mr), (4, sr), (5, rr)] ChecksumMerkle_new
     = Inr \<lparr>cm_tree = None, cm_values = [(0, h pb), (1, h pc), (2, h bl), (3, h mr), (4, h sr), (5, h rr)]\<rparr>"
    using assms by (subst res_fold_push [where h = "\<lambda>v. h (snd v)"]) (auto simp: ChecksumMerkle_new_def)
  then show ?thesis by (simp only: setBlockData_def res_bind.simps)
qed

lemma getProofForIndex_nth:
  "map fst pfs = [0..<n] \<Longrightarrow> i < n \<Longrightarrow> getProofForIndex pfs i = Inr (snd (pfs ! i))"
proof -
  have *: "getProofForIndex ps i = Inr (snd (ps ! (i - k)))" if "map fst ps = [k..<n]" "k \<le> i" "i < n" for ps k
    using that
  proof (induction ps arbitrary: k)
    case Nil
    then show ?case by (simp add: upt_conv_Cons)
  next
    case (Cons p ps)
    then have hd: "fst p = k" "map fst ps = [Suc k..<n]" by (auto simp: upt_conv_Cons)
    show ?case
    proof (cases "k = i")
      case False
      with Cons hd have "getProofForIndex ps i = Inr (snd (ps ! (i - Suc k)))" by simp
      moreover have "i - k = Suc (i - Suc k)" using False Cons.prems by simp
      ultimately show ?thesis using hd False by simp
    qed (simp add: hd)
  qed
  show "map fst pfs = [0..<n] \<Longrightarrow> i < n \<Longrightarrow> ?thesis" using * [of pfs 0] by simp
qed

text \<open>The bytes a header commits to, by their index in the checksum tree.\<close>

definition committed_bytes :: "merkle_package \<Rightarrow> BlockHeaderDocument \<Rightarrow> bytes option list" where
  "committed_bytes M d =
     [if bh_previousBlockHash d = [] then Some (replicate 32 0)
      else mp_hexToUint8Array M (bh_previousBlockHash d),
      mp_hexToUint8Array M (bh_previousBlockChecksum d), mp_hexToUint8Array M (bh_hash d),
      mp_hexToUint8Array M (bh_merkleRoot d), mp_hexToUint8Array M (bh_storageRoot d),
      mp_hexToUint8Array M (bh_receiptRoot d)]"

definition commits :: "merkle_package \<Rightarrow> BlockHeaderDocument \<Rightarrow> bytes \<Rightarrow> nat \<Rightarrow> bool" where
  "commits M d r i \<longleftrightarrow> (\<exists>b pf. committed_bytes M d ! i = Some b
     \<and> getProofForIndex (bh_checksumProofs d) i = Inr pf \<and> ChecksumMerkle_verify M r (i, b) pf = Inr True)"

lemma verify_value_True: "verify_value M r pfs i b = Inr x \<longleftrightarrow>
    (\<exists>pf. getProofForIndex pfs i = Inr pf \<and> ChecksumMerkle_verify M r (i, b) pf = Inr x)"
  by (simp add: verify_value_def)

lemma verify_hex_True: "verify_hex M r pfs i s = Inr x \<longleftrightarrow>
    (\<exists>b pf. mp_hexToUint8Array M s = Some b \<and> getProofForIndex pfs i = Inr pf
       \<and> ChecksumMerkle_verify M r (i, b) pf = Inr x)"
  by (auto simp: verify_hex_def verify_value_True)

lemma less_six: "(\<forall>i < 6. P i) \<longleftrightarrow> P 0 \<and> P 1 \<and> P 2 \<and> P 3 \<and> P 4 \<and> P (5 :: nat)"
proof -
  have "{i. i < 6} = {0, 1, 2, 3, 4, 5 :: nat}" by auto
  then show ?thesis by (metis (mono_tags, lifting) insert_iff mem_Collect_eq singletonD)
qed

lemma verify_checksum_True:
  "verify_checksum M d r (bh_previousBlockChecksum d) = Inr True \<longleftrightarrow> (\<forall>i < 6. commits M d r i)"
  unfolding less_six
  by (simp add: verify_checksum_def commits_def committed_bytes_def verify_value_True verify_hex_True Let_def
      ex_bool_eq) (auto simp: ex_bool_eq)

lemma checksum_of_block:
  assumes pkg: "merkle_package_ok M" and h: "\<And>s. s \<in> set (block_values b prev) \<Longrightarrow> hex_or_zero M s = Inr (h s)"
  obtains c ls pfs where
    "setBlockData M (eb_previousBlockHash b) prev (eb_hash b) (eb_merkleRoot b) (eb_storageRoot b)
      (eb_receiptRoot b) ChecksumMerkle_new = Inr c" "cm_tree c = Some ls"
    "ChecksumMerkle_getProofs M c = Inr pfs"
    "\<And>i. i < 6 \<Longrightarrow> getProofForIndex pfs i = Inr (snd (pfs ! i))
      \<and> ChecksumMerkle_verify M (mp_root M ls) (i, h (block_values b prev ! i)) (snd (pfs ! i)) = Inr True"
proof -
  define vs where "vs = [(0, h (eb_previousBlockHash b)), (1, h prev), (2, h (eb_hash b)),
    (3, h (eb_merkleRoot b)), (4, h (eb_storageRoot b)), (5 :: nat, h (eb_receiptRoot b))]"
  define c where "c = ChecksumMerkle_generateTree M \<lparr>cm_tree = None, cm_values = vs\<rparr>"
  have len: "length vs = 6" by (simp add: vs_def)
  have "\<forall>i < 6. vs ! i = (i, h (block_values b prev ! i))"
    unfolding less_six by (simp add: vs_def block_values_def)
  then have nth: "vs ! i = (i, h (block_values b prev ! i))" if "i < 6" for i using that by blast
  have set: "setBlockData M (eb_previousBlockHash b) prev (eb_hash b) (eb_merkleRoot b) (eb_storageRoot b)
      (eb_receiptRoot b) ChecksumMerkle_new = Inr c"
    unfolding c_def vs_def by (rule setBlockData_spec) (use h in \<open>auto simp: block_values_def\<close>)
  have tree: "cm_tree c = Some (map (ChecksumMerkle_toBytes M) vs)"
    by (simp add: c_def ChecksumMerkle_generateTree_def)
  obtain pfs where pfs: "ChecksumMerkle_getProofs M c = Inr pfs" "map fst pfs = [0..<length vs]"
    "\<And>i. i < length vs \<Longrightarrow> ChecksumMerkle_verify M (mp_root M (map (ChecksumMerkle_toBytes M) vs)) (vs ! i)
        (snd (pfs ! i)) = Inr True"
    using pkg tree by (rule checksum_proofs) (simp_all add: len)
  show thesis
  proof (rule that [OF set tree pfs(1)])
    fix i :: nat
    assume "i < 6"
    then show "getProofForIndex pfs i = Inr (snd (pfs ! i))
      \<and> ChecksumMerkle_verify M (mp_root M (map (ChecksumMerkle_toBytes M) vs))
          (i, h (block_values b prev ! i)) (snd (pfs ! i)) = Inr True"
      using getProofForIndex_nth [OF pfs(2), of i] pfs(3) [of i] nth [of i] len by simp
  qed
qed

subsection \<open>Properties\<close>

text \<open>
  C25: exactly which headers the validator accepts, whatever its cache holds. The header must
  have a checksum root that decodes, a hash and all its roots; the previous checksum it names must be
  the checksum root of the stored block below it (the zero hash for block 0, and on a light
  node for a block below which nothing is stored); and each of its six values must be proved by the proof at
  its index. The cache is left with stored headers only, at most 101.\<close>

theorem validateBlockChecksum_accepts_iff:
  assumes "db_ok db" and "hv_ok db v"
  shows "(fst (validateBlockChecksum M db light d v) = Inr True \<longleftrightarrow>
      bh_checksumRoot d \<noteq> [] \<and> bh_receiptRoot d \<noteq> [] \<and> bh_storageRoot d \<noteq> [] \<and> bh_hash d \<noteq> []
      \<and> bh_merkleRoot d \<noteq> []
      \<and> previous_checksum db light (bh_height d) = Inr (bh_previousBlockChecksum d)
      \<and> (\<exists>r. merkle_toBytes M (bh_checksumRoot d) = Inr r \<and> (\<forall>i < 6. commits M d r i)))
    \<and> hv_ok db (snd (validateBlockChecksum M db light d v))"
proof -
  obtain v1 where v1: "validateBlockChecksum M db light d v = (checksum_verdict M db light d, v1)" "hv_ok db v1"
    using validateBlockChecksum_spec [OF assms] by blast
  have "checksum_verdict M db light d = Inr True \<longleftrightarrow>
      bh_checksumRoot d \<noteq> [] \<and> bh_receiptRoot d \<noteq> [] \<and> bh_storageRoot d \<noteq> [] \<and> bh_hash d \<noteq> []
      \<and> bh_merkleRoot d \<noteq> []
      \<and> previous_checksum db light (bh_height d) = Inr (bh_previousBlockChecksum d)
      \<and> (\<exists>r. merkle_toBytes M (bh_checksumRoot d) = Inr r \<and> (\<forall>i < 6. commits M d r i))"
    by (auto simp: checksum_verdict_def verify_checksum_True [symmetric])
  with v1 show ?thesis by simp
qed

text \<open>
  C24: a header made by signing a block validates. For a block with a hash and all its roots whose values
  decode, and whose previous checksum is known, signing succeeds, the header names that previous
  checksum, and the validator accepts it in every state of its cache.\<close>

theorem signed_header_validates:
  assumes pkg: "merkle_package_ok M" "mp_hexToUint8Array M ZERO_HASH = Some (replicate 32 0)"
      "\<forall>ls. mp_rootHex M ls \<noteq> []"
    and db: "db_ok db" "hv_ok db v" "hv_ok db w"
    and prev: "previous_checksum db light (eb_height b) = Inr prev"
    and roots: "eb_hash b \<noteq> []" "eb_merkleRoot b \<noteq> []" "eb_storageRoot b \<noteq> []" "eb_receiptRoot b \<noteq> []"
    and hex: "\<forall>s \<in> set (block_values b prev). s \<noteq> [] \<longrightarrow> mp_hexToUint8Array M s \<noteq> None"
  shows "\<exists>d. fst (signBlock M db light b v) = Inr d \<and> bh_height d = eb_height b \<and> bh_hash d = eb_hash b
    \<and> bh_previousBlockChecksum d = prev
    \<and> fst (validateBlockChecksum M db light d w) = Inr True"
proof -
  define h where "h s = the (mp_hexToUint8Array M (if s = [] then ZERO_HASH else s))" for s
  have prev_ne: "prev \<noteq> []" using prev by (rule previous_checksum_nonempty)
  have h: "hex_or_zero M s = Inr (h s)" "s \<noteq> [] \<Longrightarrow> mp_hexToUint8Array M s = Some (h s)"
    if "s \<in> set (block_values b prev)" for s
    using that hex pkg(2) by (auto simp: hex_or_zero_def h_def)
  from checksum_of_block [OF pkg(1) h(1)] obtain c ls pfs where
    c: "setBlockData M (eb_previousBlockHash b) prev (eb_hash b) (eb_merkleRoot b) (eb_storageRoot b)
      (eb_receiptRoot b) ChecksumMerkle_new = Inr c" "cm_tree c = Some ls"
    "ChecksumMerkle_getProofs M c = Inr pfs"
    and proved: "\<And>i. i < 6 \<Longrightarrow> getProofForIndex pfs i = Inr (snd (pfs ! i))
      \<and> ChecksumMerkle_verify M (mp_root M ls) (i, h (block_values b prev ! i)) (snd (pfs ! i)) = Inr True"
    by blast
  define d where "d = getBlockHeaderDocument b (mp_rootHex M ls) prev pfs"
  obtain v1 where "getPreviousBlockChecksumOfHeight db light (eb_height b) v = (Inr prev, v1)"
    using db(1,2) getPrevious_spec [of db v light "eb_height b"] prev by metis
  with c prev_ne have sign: "fst (signBlock M db light b v) = Inr d"
    by (simp add: signBlock_def ChecksumMerkle_root_def d_def)
  have zero: "h [] = replicate 32 0" using pkg(2) by (simp add: h_def)
  have "committed_bytes M d ! i = Some (h (block_values b prev ! i))" if "i < 6" for i
  proof -
    have "\<forall>i < 6. committed_bytes M d ! i = Some (h (block_values b prev ! i))"
      unfolding less_six using h(2) roots prev_ne zero
      by (simp add: committed_bytes_def d_def getBlockHeaderDocument_def block_values_def)
    with that show ?thesis by blast
  qed
  with proved have "commits M d (mp_root M ls) i" if "i < 6" for i
    using that by (auto simp: commits_def d_def getBlockHeaderDocument_def)
  then have "verify_checksum M d (mp_root M ls) (bh_previousBlockChecksum d) = Inr True"
    by (simp add: verify_checksum_True)
  moreover obtain w1 where "getPreviousBlockChecksumOfHeight db light (eb_height b) w = (Inr prev, w1)"
    using db(1,3) getPrevious_spec [of db w light "eb_height b"] prev by metis
  ultimately have "fst (validateBlockChecksum M db light d w) = Inr True"
    using pkg roots prev_ne
    by (simp add: validateBlockChecksum_def d_def getBlockHeaderDocument_def merkle_package_ok_def)
  with sign show ?thesis by (simp add: d_def getBlockHeaderDocument_def)
qed

subsection \<open>Witnesses\<close>

definition sample_leaves :: "bytes list" where
  "sample_leaves = [0 # replicate 32 0, 1 # replicate 32 0, [2, 98], [3, 99], [4, 100], [5, 101]]"

definition sample_header :: BlockHeaderDocument where
  "sample_header = \<lparr>bh_height = 0, bh_checksumRoot = sample_hex (concat sample_leaves), bh_hash = ''hb'',
     bh_previousBlockHash = [], bh_previousBlockChecksum = ZERO_HASH, bh_merkleRoot = ''hc'',
     bh_storageRoot = ''hd'', bh_receiptRoot = ''he'',
     bh_checksumProofs = map (\<lambda>i. (i, map sample_hex sample_leaves)) [0, 1, 2, 3, 4, 5]\<rparr>"

definition sample_headers :: header_db where
  "sample_headers n = (if n = 0 then Some sample_header else None)"

definition sample_validator :: BlockHeaderValidator where
  "sample_validator = \<lparr>hv_cache = [], hv_enableCaching = True\<rparr>"

lemma sample_headers_ok: "db_ok sample_headers" "hv_ok sample_headers sample_validator"
  by (simp_all add: db_ok_def sample_headers_def sample_header_def hv_ok_def sample_validator_def)

lemma sample_hex_value:
  "mp_hexToUint8Array sample_merkle s = Some (if s = ZERO_HASH then replicate 32 0 else sample_unhex s)"
  by (simp add: sample_merkle_def)

lemma sample_commits: "\<forall>i < 6. commits sample_merkle sample_header (concat sample_leaves) i"
proof -
  have ver: "ChecksumMerkle_verify sample_merkle (concat sample_leaves) (i, b) (map sample_hex sample_leaves)
      = Inr (of_nat i # b \<in> set sample_leaves)" for i b
    by (simp add: ChecksumMerkle_verify_def sample_res_map)
      (simp add: sample_merkle_def ChecksumMerkle_toBytes_def)
  have idx: "getProofForIndex (bh_checksumProofs sample_header) i = Inr (map sample_hex sample_leaves)"
    if "i \<in> {0, 1, 2, 3, 4, 5}" for i using that by (auto simp: sample_header_def)
  have bytes: "committed_bytes sample_merkle sample_header
      = map Some [replicate 32 0, replicate 32 0, [98], [99], [100], [101]]"
    by (simp add: committed_bytes_def sample_hex_value sample_header_def sample_unhex_def)
      (simp add: ZERO_HASH_def)
  show ?thesis unfolding less_six commits_def bytes
    by (simp add: idx ver) (simp add: sample_leaves_def)
qed

theorem validateBlockChecksum_accepts_iff_witness:
  "fst (validateBlockChecksum sample_merkle sample_headers False sample_header sample_validator) = Inr True
   \<and> hv_ok sample_headers (snd (validateBlockChecksum sample_merkle sample_headers False sample_header sample_validator))"
proof -
  have "merkle_toBytes sample_merkle (bh_checksumRoot sample_header) = Inr (concat sample_leaves)"
    by (simp add: sample_header_def)
  moreover have "previous_checksum sample_headers False (bh_height sample_header)
      = Inr (bh_previousBlockChecksum sample_header)"
    by (simp add: previous_checksum_def sample_header_def)
  moreover have "bh_checksumRoot sample_header \<noteq> []" "bh_receiptRoot sample_header \<noteq> []"
    "bh_storageRoot sample_header \<noteq> []" "bh_hash sample_header \<noteq> []" "bh_merkleRoot sample_header \<noteq> []"
    by (simp_all add: sample_header_def sample_hex_def)
  ultimately show ?thesis
    using validateBlockChecksum_accepts_iff [OF sample_headers_ok, of sample_merkle False sample_header] sample_commits
    by blast
qed

definition sample_block :: executed_block where
  "sample_block = \<lparr>eb_height = 1, eb_hash = ''hx'', eb_previousBlockHash = ''hb'', eb_merkleRoot = ''hm'',
     eb_storageRoot = ''hs'', eb_receiptRoot = ''hr''\<rparr>"

theorem signed_header_validates_witness:
  "\<exists>d. fst (signBlock sample_merkle sample_headers False sample_block sample_validator) = Inr d
     \<and> bh_height d = 1 \<and> bh_previousBlockChecksum d = bh_checksumRoot sample_header
     \<and> fst (validateBlockChecksum sample_merkle sample_headers False d sample_validator) = Inr True"
proof -
  have prev: "previous_checksum sample_headers False (eb_height sample_block) = Inr (bh_checksumRoot sample_header)"
    by (simp add: previous_checksum_def sample_block_def sample_headers_def) (simp add: sample_header_def sample_hex_def)
  have zero: "mp_hexToUint8Array sample_merkle ZERO_HASH = Some (replicate 32 0)"
    by (simp add: sample_hex_value)
  have rt: "\<forall>ls. mp_rootHex sample_merkle ls \<noteq> []" by (simp add: sample_merkle_def sample_hex_def)
  have "\<forall>s \<in> set (block_values sample_block (bh_checksumRoot sample_header)).
      s \<noteq> [] \<longrightarrow> mp_hexToUint8Array sample_merkle s \<noteq> None" by (simp add: sample_hex_value)
  from signed_header_validates [OF sample_merkle_ok zero rt sample_headers_ok sample_headers_ok(2) prev _ _ _ _ this]
  show ?thesis by (auto simp: sample_block_def)
qed

end
