(* ===== verification/UTXO_Store.thy ===== *)
theory UTXO_Store
  imports Prelude "HOL-Library.Multiset"
begin

section \<open>Unspent transaction outputs\<close>

text \<open>
  \<open>src/src/db/repositories/UnspentTransactionRepository.ts\<close>, the collection of transaction outputs, and the
  queue of \<open>src/src/blockchain-indexer/sync/classes/ChainSynchronisation.ts\<close> that feeds it.

  The collection is keyed by transaction id and output index, as every write addresses a document by
  both. A document gets its height, value and script together when the output is created, and
  \<open>deletedAtBlock\<close> when it is spent; each write is an upsert, so either part may be missing. The template
  strings that key \<open>spentSet\<close> are equal for equal transaction ids and indices only, and are modelled as the
  pair. The writes of one call are issued chunk by chunk; they are modelled in the order of the chunks.
  Balance and wallet queries and the tagging of anyone-can-spend outputs are left out.
\<close>

type_synonym outpoint = "bytes \<times> nat"

record ShortScriptPubKey =
  sp_hex :: string
  sp_address :: "string option"
  sp_addresses :: "string list option"

record TransactionInput =
  ti_originalTransactionId :: bytes
  ti_outputTransactionIndex :: "nat option"

record TransactionOutput =
  to_value :: bigint
  to_index :: nat
  to_scriptPubKey :: ShortScriptPubKey

record ITransactionDocumentBasic =
  tb_id :: bytes
  tb_blockHeight :: bigint
  tb_inputs :: "TransactionInput list"
  tb_outputs :: "TransactionOutput list"

record ProcessUnspentTransaction =
  pu_transactions :: "ITransactionDocumentBasic list"
  pu_blockHeight :: bigint

record created_output =
  cr_blockHeight :: bigint
  cr_value :: bigint
  cr_scriptPubKey :: ShortScriptPubKey

record IUnspentTransaction =
  un_created :: "created_output option"
  un_deletedAtBlock :: "bigint option"

type_synonym utxo_db = "outpoint \<Rightarrow> IUnspentTransaction option"

record utxo_config =
  ALLOW_PURGE :: bool
  PURGE_SPENT_UTXO_OLDER_THAN_BLOCKS :: bigint

subsection \<open>Deletions\<close>

text \<open>A deletion removes the documents that satisfy its criteria; a missing field satisfies no bound.\<close>

definition delete_where :: "(IUnspentTransaction \<Rightarrow> bool) \<Rightarrow> utxo_db \<Rightarrow> utxo_db" where
  "delete_where criteria db p = (case db p of None \<Rightarrow> None | Some d \<Rightarrow> if criteria d then None else Some d)"

definition unset_deletedAt :: "(IUnspentTransaction \<Rightarrow> bool) \<Rightarrow> utxo_db \<Rightarrow> utxo_db" where
  "unset_deletedAt criteria db p =
     (case db p of None \<Rightarrow> None | Some d \<Rightarrow> Some (if criteria d then d\<lparr>un_deletedAtBlock := None\<rparr> else d))"

definition created_in :: "(bigint \<Rightarrow> bool) \<Rightarrow> IUnspentTransaction \<Rightarrow> bool" where
  "created_in bound d \<longleftrightarrow> (case un_created d of None \<Rightarrow> False | Some c \<Rightarrow> bound (cr_blockHeight c))"

definition spent_in :: "(bigint \<Rightarrow> bool) \<Rightarrow> IUnspentTransaction \<Rightarrow> bool" where
  "spent_in bound d \<longleftrightarrow> (case un_deletedAtBlock d of None \<Rightarrow> False | Some h \<Rightarrow> bound h)"

definition UTXO_deleteTransactionsFromBlockHeight :: "bigint \<Rightarrow> utxo_db \<Rightarrow> utxo_db" where
  "UTXO_deleteTransactionsFromBlockHeight h db =
     unset_deletedAt (spent_in (\<lambda>n. h \<le> n)) (delete_where (created_in (\<lambda>n. h \<le> n)) db)"

definition UTXO_deleteTransactionsInRange :: "bigint \<Rightarrow> bigint \<Rightarrow> utxo_db \<Rightarrow> utxo_db" where
  "UTXO_deleteTransactionsInRange from to db =
     unset_deletedAt (spent_in (\<lambda>n. from \<le> n \<and> n < to)) (delete_where (created_in (\<lambda>n. from \<le> n \<and> n < to)) db)"

definition UTXO_deleteGreaterThanBlockHeight :: "bigint \<Rightarrow> utxo_db \<Rightarrow> utxo_db" where
  "UTXO_deleteGreaterThanBlockHeight h db =
     (if h < 0 then (\<lambda>p. None) else delete_where (created_in (\<lambda>n. h \<le> n)) db)"

definition purgeSpentUTXOsFromBlockHeight :: "bigint \<Rightarrow> utxo_db \<Rightarrow> utxo_db" where
  "purgeSpentUTXOsFromBlockHeight h db = delete_where (spent_in (\<lambda>n. n \<le> h)) db"

subsection \<open>Insertion\<close>

definition input_spends :: "bigint \<Rightarrow> TransactionInput \<Rightarrow> (outpoint \<times> bigint) list" where
  "input_spends h i =
     (case ti_outputTransactionIndex i of None \<Rightarrow> [] | Some n \<Rightarrow> [((ti_originalTransactionId i, n), h)])"

definition convertSpentTransactions :: "ProcessUnspentTransaction list \<Rightarrow> (outpoint \<times> bigint) list" where
  "convertSpentTransactions blocks =
     concat (map (\<lambda>b. concat (map (\<lambda>t. concat (map (input_spends (pu_blockHeight b)) (tb_inputs t)))
       (pu_transactions b))) blocks)"

definition truthy_address :: "string option \<Rightarrow> bool" where
  "truthy_address a \<longleftrightarrow> (case a of None \<Rightarrow> False | Some s \<Rightarrow> s \<noteq> [])"

definition indexed_output :: "TransactionOutput \<Rightarrow> bool" where
  "indexed_output out \<longleftrightarrow> to_value out \<noteq> 0
     \<and> (truthy_address (sp_address (to_scriptPubKey out)) \<or> sp_addresses (to_scriptPubKey out) \<noteq> None)"

text \<open>The script is stored with the list of addresses only if there is no single address.\<close>

definition stored_script :: "ShortScriptPubKey \<Rightarrow> ShortScriptPubKey" where
  "stored_script s =
     s\<lparr>sp_addresses := (if truthy_address (sp_address s) then Some [] else sp_addresses s)\<rparr>"

definition output_write :: "ITransactionDocumentBasic \<Rightarrow> TransactionOutput \<Rightarrow> outpoint \<times> created_output" where
  "output_write t out =
     ((tb_id t, to_index out), \<lparr>cr_blockHeight = tb_blockHeight t, cr_value = to_value out,
        cr_scriptPubKey = stored_script (to_scriptPubKey out)\<rparr>)"

definition block_outputs :: "ProcessUnspentTransaction \<Rightarrow> (outpoint \<times> created_output) list" where
  "block_outputs b =
     concat (map (\<lambda>t. map (output_write t) (filter indexed_output (tb_outputs t))) (pu_transactions b))"

definition convertToUnspentTransactions ::
    "ProcessUnspentTransaction list \<Rightarrow> (outpoint \<times> bigint) list \<Rightarrow> (outpoint \<times> created_output) list" where
  "convertToUnspentTransactions blocks spent =
     filter (\<lambda>w. fst w \<notin> fst ` set spent) (concat (map block_outputs blocks))"

definition chunkArray :: "nat \<Rightarrow> 'a list \<Rightarrow> 'a list list" where
  "chunkArray n xs = map (\<lambda>i. take n (drop i xs)) (filter (\<lambda>i. i mod n = 0) [0..<length xs])"

definition empty_doc :: IUnspentTransaction where
  "empty_doc = \<lparr>un_created = None, un_deletedAtBlock = None\<rparr>"

definition doc_at :: "utxo_db \<Rightarrow> outpoint \<Rightarrow> IUnspentTransaction" where
  "doc_at db p = (case db p of None \<Rightarrow> empty_doc | Some d \<Rightarrow> d)"

definition upsert_created :: "outpoint \<times> created_output \<Rightarrow> utxo_db \<Rightarrow> utxo_db" where
  "upsert_created w db = db(fst w \<mapsto> (doc_at db (fst w))\<lparr>un_created := Some (snd w)\<rparr>)"

definition upsert_deleted :: "outpoint \<times> bigint \<Rightarrow> utxo_db \<Rightarrow> utxo_db" where
  "upsert_deleted w db = db(fst w \<mapsto> (doc_at db (fst w))\<lparr>un_deletedAtBlock := Some (snd w)\<rparr>)"

definition highest_block :: "ProcessUnspentTransaction list \<Rightarrow> bigint" where
  "highest_block blocks = fold (\<lambda>b h. if pu_blockHeight b > h then pu_blockHeight b else h) blocks 0"

definition purge_old_spent :: "utxo_config \<Rightarrow> ProcessUnspentTransaction list \<Rightarrow> utxo_db \<Rightarrow> utxo_db" where
  "purge_old_spent cfg blocks db =
     (if ALLOW_PURGE cfg \<and> PURGE_SPENT_UTXO_OLDER_THAN_BLOCKS cfg \<noteq> 0
      then purgeSpentUTXOsFromBlockHeight (highest_block blocks - PURGE_SPENT_UTXO_OLDER_THAN_BLOCKS cfg) db
      else db)"

definition insertTransactions :: "utxo_config \<Rightarrow> ProcessUnspentTransaction list \<Rightarrow> utxo_db \<Rightarrow> utxo_db" where
  "insertTransactions cfg blocks db =
     (let db1 = purge_old_spent cfg blocks db;
          spent = convertSpentTransactions blocks;
          writes = convertToUnspentTransactions blocks spent
      in if writes \<noteq> []
         then fold (fold upsert_deleted) (chunkArray 500 spent)
                (fold (fold upsert_created) (chunkArray 500 writes) db1)
         else db1)"

subsection \<open>The queue of a synchronisation thread\<close>

record ChainSynchronisation =
  cs_unspentTransactionOutputs :: "ProcessUnspentTransaction list"
  cs_amountOfUTXOs :: nat
  cs_pendingSave :: "ProcessUnspentTransaction list option"
  cs_bestTip :: bigint
  cs_currentBlock :: "bigint option"

definition canSaveAfterBlock :: "ChainSynchronisation \<Rightarrow> bool" where
  "canSaveAfterBlock s \<longleftrightarrow> cs_bestTip s > (case cs_currentBlock s of None \<Rightarrow> 0 | Some n \<Rightarrow> n) - 3"

definition purgeUTXOs :: "bigint option \<Rightarrow> ChainSynchronisation \<Rightarrow> ChainSynchronisation" where
  "purgeUTXOs fromBlock s =
     (case fromBlock of
        None \<Rightarrow> s\<lparr>cs_unspentTransactionOutputs := [], cs_amountOfUTXOs := 0\<rparr>
      | Some h \<Rightarrow>
          (let q = filter (\<lambda>b. pu_blockHeight b < h) (cs_unspentTransactionOutputs s)
           in s\<lparr>cs_unspentTransactionOutputs := q,
                cs_amountOfUTXOs := fold (\<lambda>b acc. acc + length (pu_transactions b)) q 0\<rparr>))"

text \<open>
  A save takes the queue and is pending until the database has answered. A write that throws is only
  logged: \<open>failed\<close> is then the database it has left behind.
\<close>

definition saveUTXOs_begin :: "ChainSynchronisation \<Rightarrow> ChainSynchronisation" where
  "saveUTXOs_begin s =
     (case cs_pendingSave s of
        Some b \<Rightarrow> s
      | None \<Rightarrow> s\<lparr>cs_unspentTransactionOutputs := [], cs_amountOfUTXOs := 0,
                  cs_pendingSave := Some (cs_unspentTransactionOutputs s)\<rparr>)"

definition saveUTXOs_end ::
    "utxo_config \<Rightarrow> utxo_db option \<Rightarrow> ChainSynchronisation \<times> utxo_db \<Rightarrow> ChainSynchronisation \<times> utxo_db" where
  "saveUTXOs_end cfg failed sd =
     (case (cs_pendingSave (fst sd), failed) of
        (None, _) \<Rightarrow> sd
      | (Some batch, None) \<Rightarrow> ((fst sd)\<lparr>cs_pendingSave := None\<rparr>, insertTransactions cfg batch (snd sd))
      | (Some batch, Some db) \<Rightarrow> ((fst sd)\<lparr>cs_pendingSave := None\<rparr>, db))"

definition awaitUTXOWrites ::
    "utxo_config \<Rightarrow> utxo_db option \<Rightarrow> ChainSynchronisation \<times> utxo_db \<Rightarrow> ChainSynchronisation \<times> utxo_db" where
  "awaitUTXOWrites cfg failed sd = saveUTXOs_end cfg failed (saveUTXOs_begin (fst sd), snd sd)"

definition queryUTXOs ::
    "bigint \<Rightarrow> ProcessUnspentTransaction \<Rightarrow> ChainSynchronisation \<Rightarrow> ChainSynchronisation" where
  "queryUTXOs START_INDEXING_UTXO_AT_BLOCK_HEIGHT b s =
     (if START_INDEXING_UTXO_AT_BLOCK_HEIGHT > 0 \<and> pu_blockHeight b < START_INDEXING_UTXO_AT_BLOCK_HEIGHT then s
      else if pu_blockHeight b = 0 then s
      else s\<lparr>cs_unspentTransactionOutputs := cs_unspentTransactionOutputs s @ [b],
             cs_amountOfUTXOs := cs_amountOfUTXOs s + length (pu_transactions b)\<rparr>)"

definition onReorg ::
    "utxo_config \<Rightarrow> utxo_db option \<Rightarrow> bigint \<Rightarrow> ChainSynchronisation \<times> utxo_db
     \<Rightarrow> ChainSynchronisation \<times> utxo_db" where
  "onReorg cfg failed fromHeight sd =
     (let s1 = purgeUTXOs (Some fromHeight) (fst sd)
      in if cs_pendingSave s1 \<noteq> None then awaitUTXOWrites cfg failed (s1, snd sd) else (s1, snd sd))"

subsection \<open>What a document says\<close>

definition creation :: "utxo_db \<Rightarrow> outpoint \<Rightarrow> created_output option" where
  "creation db p = un_created (doc_at db p)"

definition spending :: "utxo_db \<Rightarrow> outpoint \<Rightarrow> bigint option" where
  "spending db p = un_deletedAtBlock (doc_at db p)"

text \<open>The output a wallet query returns: created, and not marked as spent.\<close>

definition unspent :: "utxo_db \<Rightarrow> outpoint \<Rightarrow> created_output option" where
  "unspent db p = (if spending db p = None then creation db p else None)"

lemma filter_upt_mod:
  assumes "0 < n" "0 < L"
  shows "filter (\<lambda>i. i mod n = 0) [0..<L] = 0 # map (\<lambda>i. i + n) (filter (\<lambda>i. i mod n = 0) [0..<L - n])"
proof -
  have low: "filter (\<lambda>i. i mod n = 0) [0..<k] = [0]" if "0 < k" "k \<le> n" for k
  proof -
    have "filter (\<lambda>i. i mod n = 0) [0..<k] = filter (\<lambda>i. i = 0) [0..<k]"
      using that by (intro filter_cong) auto
    then show ?thesis using that by (simp add: upt_conv_Cons)
  qed
  show ?thesis
  proof (cases "L \<le> n")
    case True
    then show ?thesis using low [of L] assms by simp
  next
    case False
    then have "[0..<L] = [0..<n] @ [n..<L]" using upt_add_eq_append [of 0 n "L - n"] by simp
    moreover have "[n..<L] = map (\<lambda>i. i + n) [0..<L - n]" using False by (simp add: map_add_upt)
    ultimately show ?thesis using low [of n] assms by (simp add: filter_map comp_def)
  qed
qed

lemma concat_chunkArray [simp]: "0 < n \<Longrightarrow> concat (chunkArray n xs) = xs"
proof (induction "length xs" arbitrary: xs rule: less_induct)
  case less
  show ?case
  proof (cases "xs = []")
    case True
    then show ?thesis by (simp add: chunkArray_def)
  next
    case False
    then have "chunkArray n xs = take n xs # chunkArray n (drop n xs)"
      using less.prems by (simp add: chunkArray_def filter_upt_mod comp_def add.commute)
    then show ?thesis using less False by simp
  qed
qed

lemma fold_chunks [simp]: "0 < n \<Longrightarrow> fold (fold f) (chunkArray n xs) = fold f xs"
proof -
  have "fold (fold f) xss = fold f (concat xss)" for xss by (induction xss) auto
  then show "0 < n \<Longrightarrow> fold (fold f) (chunkArray n xs) = fold f xs" by simp
qed

lemma fold_upsert_created:
  "creation (fold upsert_created ws db) p =
     (case map_of (rev ws) p of None \<Rightarrow> creation db p | Some c \<Rightarrow> Some c)"
  "spending (fold upsert_created ws db) p = spending db p"
  by (induction ws arbitrary: db)
    (auto simp: upsert_created_def creation_def spending_def doc_at_def map_add_def split: option.splits)

lemma fold_upsert_deleted:
  "spending (fold upsert_deleted ws db) p =
     (case map_of (rev ws) p of None \<Rightarrow> spending db p | Some c \<Rightarrow> Some c)"
  "creation (fold upsert_deleted ws db) p = creation db p"
  by (induction ws arbitrary: db)
    (auto simp: upsert_deleted_def creation_def spending_def doc_at_def map_add_def split: option.splits)

subsection \<open>The effect of an insertion\<close>

definition outputs_of :: "ProcessUnspentTransaction list \<Rightarrow> (outpoint \<times> created_output) list" where
  "outputs_of blocks = concat (map block_outputs blocks)"

definition spends_of :: "ProcessUnspentTransaction list \<Rightarrow> outpoint set" where
  "spends_of blocks = fst ` set (convertSpentTransactions blocks)"

text \<open>The spends of a batch are written only if the batch also creates an output it does not spend.\<close>

definition batch_ok :: "ProcessUnspentTransaction list \<Rightarrow> bool" where
  "batch_ok blocks \<longleftrightarrow> (\<exists>w \<in> set (outputs_of blocks). fst w \<notin> spends_of blocks) \<or> spends_of blocks = {}"

lemma outputs_of_append [simp]: "outputs_of (xs @ ys) = outputs_of xs @ outputs_of ys"
  by (simp add: outputs_of_def)

lemma spends_of_append [simp]: "spends_of (xs @ ys) = spends_of xs \<union> spends_of ys"
  by (simp add: spends_of_def convertSpentTransactions_def image_Un)

lemma outputs_of_Nil [simp]: "outputs_of [] = []" and spends_of_Nil [simp]: "spends_of [] = {}"
  by (simp_all add: outputs_of_def spends_of_def convertSpentTransactions_def)

lemma map_of_rev_filter_key: "P k \<Longrightarrow> map_of (rev (filter (\<lambda>w. P (fst w)) ws)) k = map_of (rev ws) k"
  by (induction ws) (auto simp: map_add_def split: option.splits)

lemma unwritten_batch: "convertToUnspentTransactions bs (convertSpentTransactions bs) = [] \<longleftrightarrow>
    (\<forall>w \<in> set (outputs_of bs). fst w \<in> spends_of bs)"
  by (auto simp: convertToUnspentTransactions_def outputs_of_def spends_of_def filter_empty_conv)

lemma map_of_rev_None: "map_of (rev ws) p = None \<longleftrightarrow> p \<notin> fst ` set ws"
  by (simp add: map_of_eq_None_iff)

lemma creation_insert:
  assumes "\<not> ALLOW_PURGE cfg"
  shows "creation (insertTransactions cfg bs db) p =
    (if p \<in> spends_of bs then creation db p
     else case map_of (rev (outputs_of bs)) p of None \<Rightarrow> creation db p | Some c \<Rightarrow> Some c)"
proof (cases "convertToUnspentTransactions bs (convertSpentTransactions bs) = []")
  case True
  have "p \<notin> spends_of bs \<Longrightarrow> map_of (rev (outputs_of bs)) p = None"
    using True by (auto simp: unwritten_batch map_of_rev_None)
  then show ?thesis using True assms by (auto simp: insertTransactions_def purge_old_spent_def)
next
  case False
  have "p \<in> spends_of bs \<Longrightarrow>
      map_of (rev (convertToUnspentTransactions bs (convertSpentTransactions bs))) p = None"
    unfolding map_of_rev_None convertToUnspentTransactions_def spends_of_def by force
  moreover have "p \<notin> spends_of bs \<Longrightarrow>
      map_of (rev (convertToUnspentTransactions bs (convertSpentTransactions bs))) p = map_of (rev (outputs_of bs)) p"
    by (simp add: convertToUnspentTransactions_def outputs_of_def spends_of_def
        map_of_rev_filter_key [where P = "\<lambda>k. k \<notin> fst ` set (convertSpentTransactions bs)"])
  ultimately show ?thesis using False assms
    by (simp add: insertTransactions_def purge_old_spent_def Let_def fold_upsert_created fold_upsert_deleted
        split: option.splits)
qed

lemma spending_insert_cases:
  assumes "\<not> ALLOW_PURGE cfg"
  shows "spending (insertTransactions cfg bs db) p =
    (if convertToUnspentTransactions bs (convertSpentTransactions bs) = [] then spending db p
     else case map_of (rev (convertSpentTransactions bs)) p of None \<Rightarrow> spending db p | Some n \<Rightarrow> Some n)"
  using assms
  by (simp add: insertTransactions_def purge_old_spent_def Let_def fold_upsert_created fold_upsert_deleted
      split: option.splits)

lemma spending_insert:
  assumes "\<not> ALLOW_PURGE cfg"
  shows "spending (insertTransactions cfg bs db) p = spending db p
    \<or> (\<exists>n. (p, n) \<in> set (convertSpentTransactions bs) \<and> spending (insertTransactions cfg bs db) p = Some n)"
proof (cases "map_of (rev (convertSpentTransactions bs)) p")
  case None
  then show ?thesis by (simp add: spending_insert_cases [OF assms])
next
  case (Some n)
  then have "(p, n) \<in> set (convertSpentTransactions bs)" using map_of_SomeD by fastforce
  then show ?thesis using Some by (auto simp: spending_insert_cases [OF assms])
qed

lemma spending_insert_None:
  assumes "\<not> ALLOW_PURGE cfg" "batch_ok bs"
  shows "spending (insertTransactions cfg bs db) p = None \<longleftrightarrow> spending db p = None \<and> p \<notin> spends_of bs"
proof (cases "convertToUnspentTransactions bs (convertSpentTransactions bs) = []")
  case True
  then have "spends_of bs = {}" using assms by (auto simp: unwritten_batch batch_ok_def)
  then show ?thesis using True by (simp add: spending_insert_cases [OF assms(1)])
next
  case False
  then show ?thesis
    using map_of_rev_None [of "convertSpentTransactions bs" p]
    by (cases "map_of (rev (convertSpentTransactions bs)) p")
      (simp_all add: spending_insert_cases [OF assms(1)] spends_of_def)
qed

lemma fold_insert_spending:
  assumes "\<not> ALLOW_PURGE cfg" "\<forall>bs \<in> set bss. batch_ok bs"
  shows "spending (fold (insertTransactions cfg) bss db) p = None \<longleftrightarrow>
    spending db p = None \<and> p \<notin> spends_of (concat bss)"
  using assms(2) by (induction bss arbitrary: db) (auto simp: spending_insert_None [OF assms(1)])

lemma fold_insert_creation:
  assumes "\<not> ALLOW_PURGE cfg" "p \<notin> spends_of (concat bss)"
  shows "creation (fold (insertTransactions cfg) bss db) p =
    (case map_of (rev (outputs_of (concat bss))) p of None \<Rightarrow> creation db p | Some c \<Rightarrow> Some c)"
  using assms(2)
  by (induction bss arbitrary: db) (auto simp: creation_insert [OF assms(1)] map_add_def split: option.splits)

lemma unspent_fold_insert:
  assumes "\<not> ALLOW_PURGE cfg" "\<forall>bs \<in> set bss. batch_ok bs" "distinct (map fst (outputs_of (concat bss)))"
  shows "unspent (fold (insertTransactions cfg) bss db) p = Some c \<longleftrightarrow>
    p \<notin> spends_of (concat bss) \<and> spending db p = None
    \<and> ((p, c) \<in> set (outputs_of (concat bss))
       \<or> p \<notin> fst ` set (outputs_of (concat bss)) \<and> creation db p = Some c)"
proof -
  have m: "map_of (rev (outputs_of (concat bss))) p = Some c \<longleftrightarrow> (p, c) \<in> set (outputs_of (concat bss))" for c
  proof -
    have "distinct (map fst (rev (outputs_of (concat bss))))"
      using assms(3) by (simp only: rev_map [symmetric] distinct_rev)
    then show ?thesis by (simp only: map_of_eq_Some_iff set_rev)
  qed
  show ?thesis
  proof (cases "map_of (rev (outputs_of (concat bss))) p")
    case None
    then show ?thesis using m [of c] map_of_rev_None [of "outputs_of (concat bss)" p]
      by (auto simp: unspent_def fold_insert_spending [OF assms(1,2)] fold_insert_creation [OF assms(1)])
  next
    case (Some d)
    then have "p \<in> fst ` set (outputs_of (concat bss))" using m [of d] by force
    then show ?thesis using Some m [of c] m [of d]
      by (auto simp: unspent_def fold_insert_spending [OF assms(1,2)] fold_insert_creation [OF assms(1)])
  qed
qed

subsection \<open>Batches and threads\<close>

lemma mset_outputs_of: "mset (outputs_of xs) = (\<Sum>b \<in># mset xs. mset (block_outputs b))"
  by (induction xs) (simp_all add: outputs_of_def)

lemma spends_of_blocks: "spends_of xs = (\<Union>b \<in> set xs. spends_of [b])"
proof (induction xs)
  case (Cons b xs)
  then show ?case using spends_of_append [of "[b]" xs] by simp
qed simp

lemma outputs_of_perm:
  assumes "mset xs = mset ys"
  shows "set (outputs_of xs) = set (outputs_of ys)" "spends_of xs = spends_of ys"
    "distinct (map fst (outputs_of xs)) \<longleftrightarrow> distinct (map fst (outputs_of ys))"
proof -
  have m: "mset (outputs_of xs) = mset (outputs_of ys)" using assms by (simp only: mset_outputs_of)
  then show "set (outputs_of xs) = set (outputs_of ys)" by (rule mset_eq_setD)
  have "mset (map fst (outputs_of xs)) = mset (map fst (outputs_of ys))" using m by simp
  then show "distinct (map fst (outputs_of xs)) \<longleftrightarrow> distinct (map fst (outputs_of ys))"
    by (rule mset_eq_imp_distinct_iff)
  have "set xs = set ys" using assms by (rule mset_eq_setD)
  then show "spends_of xs = spends_of ys" using spends_of_blocks by metis
qed


subsection \<open>Reverting\<close>

lemma unspent_reverted:
  "unspent (UTXO_deleteTransactionsFromBlockHeight h db) p =
     (case creation db p of None \<Rightarrow> None
      | Some c \<Rightarrow> if h \<le> cr_blockHeight c then None
                  else case spending db p of None \<Rightarrow> Some c | Some n \<Rightarrow> if h \<le> n then Some c else None)"
  by (auto simp: unspent_def creation_def spending_def doc_at_def UTXO_deleteTransactionsFromBlockHeight_def
      unset_deletedAt_def delete_where_def created_in_def spent_in_def empty_doc_def split: option.splits)

lemma reverted_below:
  "creation (UTXO_deleteTransactionsFromBlockHeight h db) p = Some c \<Longrightarrow> cr_blockHeight c < h"
  "spending (UTXO_deleteTransactionsFromBlockHeight h db) p = Some n \<Longrightarrow> n < h"
  by (auto simp: creation_def spending_def doc_at_def UTXO_deleteTransactionsFromBlockHeight_def
      unset_deletedAt_def delete_where_def created_in_def spent_in_def empty_doc_def
      split: option.splits if_splits)

definition block_heights_ok :: "ProcessUnspentTransaction \<Rightarrow> bool" where
  "block_heights_ok b \<longleftrightarrow> (\<forall>t \<in> set (pu_transactions b). tb_blockHeight t = pu_blockHeight b)"

lemma outputs_height:
  "(p, c) \<in> set (outputs_of bs) \<Longrightarrow> \<forall>b \<in> set bs. block_heights_ok b \<Longrightarrow>
    \<exists>b \<in> set bs. cr_blockHeight c = pu_blockHeight b"
  by (fastforce simp: outputs_of_def block_outputs_def output_write_def block_heights_ok_def)

lemma spends_height:
  "(p, n) \<in> set (convertSpentTransactions bs) \<Longrightarrow> \<exists>b \<in> set bs. n = pu_blockHeight b"
  by (fastforce simp: convertSpentTransactions_def input_spends_def split: option.splits)

text \<open>\<open>db'\<close> adds to \<open>db\<close> only creations and spendings from height \<open>h\<close> on.\<close>

definition grown_above :: "bigint \<Rightarrow> utxo_db \<Rightarrow> utxo_db \<Rightarrow> bool" where
  "grown_above h db db' \<longleftrightarrow> (\<forall>p.
     (creation db' p = creation db p \<or> creation db p = None \<and> (\<exists>c. creation db' p = Some c \<and> h \<le> cr_blockHeight c))
     \<and> (spending db' p = spending db p \<or> spending db p = None \<and> (\<exists>n. spending db' p = Some n \<and> h \<le> n)))"

lemma grown_aboveD:
  assumes "grown_above h db db'"
  shows "creation db' p = creation db p
      \<or> creation db p = None \<and> (\<exists>c. creation db' p = Some c \<and> h \<le> cr_blockHeight c)"
    and "spending db' p = spending db p \<or> spending db p = None \<and> (\<exists>n. spending db' p = Some n \<and> h \<le> n)"
  using assms unfolding grown_above_def by blast+

definition new_above :: "bigint \<Rightarrow> utxo_db \<Rightarrow> ProcessUnspentTransaction list \<Rightarrow> bool" where
  "new_above h db bs \<longleftrightarrow> (\<forall>b \<in> set bs. h \<le> pu_blockHeight b \<and> block_heights_ok b)
     \<and> (\<forall>p \<in> fst ` set (outputs_of bs). creation db p = None) \<and> (\<forall>p \<in> spends_of bs. spending db p = None)"

lemma grown_above_insert:
  assumes "\<not> ALLOW_PURGE cfg" "new_above h db bs" "grown_above h db db'"
  shows "grown_above h db (insertTransactions cfg bs db')"
  unfolding grown_above_def
proof (intro allI conjI)
  fix p
  show "creation (insertTransactions cfg bs db') p = creation db p
    \<or> creation db p = None \<and> (\<exists>c. creation (insertTransactions cfg bs db') p = Some c \<and> h \<le> cr_blockHeight c)"
  proof (cases "p \<notin> spends_of bs \<and> map_of (rev (outputs_of bs)) p \<noteq> None")
    case True
    then obtain c where c: "map_of (rev (outputs_of bs)) p = Some c" by auto
    then have mem: "(p, c) \<in> set (outputs_of bs)" using map_of_SomeD by fastforce
    have "h \<le> cr_blockHeight c" using outputs_height [OF mem] assms(2) by (fastforce simp: new_above_def)
    moreover have "creation db p = None" using mem assms(2) by (force simp: new_above_def)
    ultimately show ?thesis using True c by (simp add: creation_insert [OF assms(1)])
  next
    case False
    then have "creation (insertTransactions cfg bs db') p = creation db' p"
      by (auto simp: creation_insert [OF assms(1)] split: option.splits)
    then show ?thesis using grown_aboveD(1) [OF assms(3), of p] by simp
  qed
  show "spending (insertTransactions cfg bs db') p = spending db p
    \<or> spending db p = None \<and> (\<exists>n. spending (insertTransactions cfg bs db') p = Some n \<and> h \<le> n)"
    using spending_insert [OF assms(1), of bs db' p]
  proof (elim disjE exE conjE)
    assume "spending (insertTransactions cfg bs db') p = spending db' p"
    then show ?thesis using grown_aboveD(2) [OF assms(3), of p] by simp
  next
    fix n
    assume n: "(p, n) \<in> set (convertSpentTransactions bs)" "spending (insertTransactions cfg bs db') p = Some n"
    then have "p \<in> spends_of bs" by (force simp: spends_of_def)
    moreover have "h \<le> n" using spends_height [OF n(1)] assms(2) by (auto simp: new_above_def)
    ultimately show ?thesis using n(2) assms(2) by (simp add: new_above_def)
  qed
qed

lemma grown_above_fold:
  assumes "\<not> ALLOW_PURGE cfg" "\<forall>bs \<in> set bss. new_above h db bs" "grown_above h db db'"
  shows "grown_above h db (fold (insertTransactions cfg) bss db')"
  using assms(2,3) by (induction bss arbitrary: db') (simp_all add: grown_above_insert [OF assms(1)])

lemma new_above_concat: "new_above h db (concat bss) \<Longrightarrow> bs \<in> set bss \<Longrightarrow> new_above h db bs"
  by (induction bss) (auto simp: new_above_def)

definition utxos_below :: "bigint \<Rightarrow> utxo_db \<Rightarrow> bool" where
  "utxos_below h db \<longleftrightarrow> (\<forall>p. (\<forall>c. creation db p = Some c \<longrightarrow> cr_blockHeight c < h)
     \<and> (\<forall>n. spending db p = Some n \<longrightarrow> n < h))"


text \<open>
  An output created and spent in one batch is stored without its height, value and script: whatever
  height is reverted afterwards, it is not unspent again. Written in two batches, the same two blocks
  give the output back when only the spending block is reverted.
\<close>

theorem batched_spend_loses_output:
  assumes "\<not> ALLOW_PURGE cfg" and "batch_ok [b2]" and "creation db p = None" and "spending db p = None"
    and "p \<in> spends_of [b2]" and "p \<notin> spends_of [b1]" and "map_of (rev (block_outputs b1)) p = Some c"
    and "cr_blockHeight c < pu_blockHeight b2"
  shows "(\<forall>h. unspent (UTXO_deleteTransactionsFromBlockHeight h (insertTransactions cfg [b1, b2] db)) p = None)
    \<and> unspent (UTXO_deleteTransactionsFromBlockHeight (pu_blockHeight b2)
        (insertTransactions cfg [b2] (insertTransactions cfg [b1] db))) p = Some c"
proof (intro conjI allI)
  fix h
  have "p \<in> spends_of [b1, b2]" using assms(5) spends_of_append [of "[b1]" "[b2]"] by simp
  then show "unspent (UTXO_deleteTransactionsFromBlockHeight h (insertTransactions cfg [b1, b2] db)) p = None"
    using assms(3) by (simp add: unspent_reverted creation_insert [OF assms(1)])
  let ?db = "insertTransactions cfg [b1] db"
  have c: "creation (insertTransactions cfg [b2] ?db) p = Some c"
    using assms(5-7) by (simp add: creation_insert [OF assms(1)] outputs_of_def)
  have "spending (insertTransactions cfg [b2] ?db) p \<noteq> None"
    using assms(5) by (simp only: spending_insert_None [OF assms(1,2)]) simp
  moreover have "spending ?db p = None"
    using spending_insert [OF assms(1), of "[b1]" db p] assms(4,6) by (force simp: spends_of_def)
  ultimately have "spending (insertTransactions cfg [b2] ?db) p = Some (pu_blockHeight b2)"
    using spending_insert [OF assms(1), of "[b2]" ?db p] spends_height [of p _ "[b2]"] by fastforce
  then show "unspent (UTXO_deleteTransactionsFromBlockHeight (pu_blockHeight b2)
      (insertTransactions cfg [b2] ?db)) p = Some c"
    using c assms(8) by (simp add: unspent_reverted)
qed

subsection \<open>Reorganisations\<close>

definition queue_ok :: "ChainSynchronisation \<Rightarrow> bool" where
  "queue_ok s \<longleftrightarrow> (\<forall>b \<in> set (cs_unspentTransactionOutputs s). block_heights_ok b)
     \<and> cs_amountOfUTXOs s = (\<Sum>b \<leftarrow> cs_unspentTransactionOutputs s. length (pu_transactions b))"

lemma fold_add_lengths: "fold (\<lambda>b acc. acc + f b) q (n :: nat) = n + (\<Sum>b \<leftarrow> q. f b)"
  by (induction q arbitrary: n) simp_all

lemma purgeUTXOs_ok: "queue_ok s \<Longrightarrow> queue_ok (purgeUTXOs h s)"
  by (auto simp: queue_ok_def purgeUTXOs_def Let_def fold_add_lengths split: option.splits)

lemma onReorg_queue:
  assumes "onReorg cfg failed h (s, db) = (s', db')"
  shows "cs_pendingSave s' = None"
    and "cs_unspentTransactionOutputs s' = filter (\<lambda>b. pu_blockHeight b < h) (cs_unspentTransactionOutputs s)"
    and "queue_ok s \<Longrightarrow> queue_ok s'"
  using assms purgeUTXOs_ok [of s "Some h"]
  by (auto simp: onReorg_def awaitUTXOWrites_def saveUTXOs_begin_def saveUTXOs_end_def purgeUTXOs_def
      queue_ok_def Let_def split: option.splits if_splits)

lemma utxos_below_insert:
  assumes "\<not> ALLOW_PURGE cfg" "\<forall>b \<in> set bs. block_heights_ok b \<and> pu_blockHeight b < h" "utxos_below h db"
  shows "utxos_below h (insertTransactions cfg bs db)"
  unfolding utxos_below_def
proof (intro allI conjI impI)
  fix p c
  assume "creation (insertTransactions cfg bs db) p = Some c"
  then have "creation db p = Some c \<or> (p, c) \<in> set (outputs_of bs)"
    using map_of_SomeD [of "rev (outputs_of bs)" p c]
    by (auto simp: creation_insert [OF assms(1)] split: if_splits option.splits)
  then show "cr_blockHeight c < h"
    using assms(2,3) outputs_height [of p c bs] unfolding utxos_below_def by fastforce
next
  fix p n
  assume "spending (insertTransactions cfg bs db) p = Some n"
  then have "spending db p = Some n \<or> (p, n) \<in> set (convertSpentTransactions bs)"
    using spending_insert [OF assms(1), of bs db p] by auto
  then show "n < h"
    using assms(2,3) spends_height [of p n bs] unfolding utxos_below_def by fastforce
qed

text \<open>
  After a reorganisation message for height \<open>h\<close>, whether a pending write succeeded or failed, no save
  is pending and the count of queued outputs is right; and when the database has been reverted to \<open>h\<close>,
  saving what is left in the queue brings back nothing from height \<open>h\<close> on: no output created there and
  no output marked as spent there.
\<close>

theorem reorg_forgets_blocks:
  assumes "\<not> ALLOW_PURGE cfg" and "queue_ok s" and "onReorg cfg failed h (s, db) = (s', db')"
  shows "cs_pendingSave s' = None \<and> queue_ok s'
    \<and> utxos_below h (snd (awaitUTXOWrites cfg None (s', UTXO_deleteTransactionsFromBlockHeight h db')))"
proof -
  note q = onReorg_queue [OF assms(3)]
  let ?db = "UTXO_deleteTransactionsFromBlockHeight h db'"
  have "utxos_below h ?db" unfolding utxos_below_def using reverted_below by blast
  moreover have "snd (awaitUTXOWrites cfg None (s', ?db)) =
      insertTransactions cfg (cs_unspentTransactionOutputs s') ?db"
    using q(1) by (simp add: awaitUTXOWrites_def saveUTXOs_begin_def saveUTXOs_end_def)
  moreover have "\<forall>b \<in> set (cs_unspentTransactionOutputs s'). block_heights_ok b \<and> pu_blockHeight b < h"
    using q(2) assms(2) by (simp add: queue_ok_def)
  ultimately show ?thesis using q(1) q(3) [OF assms(2)] utxos_below_insert [OF assms(1)] by simp
qed

subsection \<open>Examples\<close>

definition sample_utxo_config :: utxo_config where
  "sample_utxo_config = \<lparr>ALLOW_PURGE = False, PURGE_SPENT_UTXO_OLDER_THAN_BLOCKS = 0\<rparr>"

definition sample_script :: ShortScriptPubKey where
  "sample_script = \<lparr>sp_hex = ''51'', sp_address = Some ''bc1'', sp_addresses = None\<rparr>"

definition sample_utx :: "byte \<Rightarrow> bigint \<Rightarrow> TransactionInput list \<Rightarrow> ITransactionDocumentBasic" where
  "sample_utx i h ins = \<lparr>tb_id = [i], tb_blockHeight = h, tb_inputs = ins,
     tb_outputs = [\<lparr>to_value = 50, to_index = 0, to_scriptPubKey = sample_script\<rparr>]\<rparr>"

definition coinbase_input :: TransactionInput where
  "coinbase_input = \<lparr>ti_originalTransactionId = [], ti_outputTransactionIndex = None\<rparr>"

definition sample_block5 :: ProcessUnspentTransaction where
  "sample_block5 = \<lparr>pu_transactions = [sample_utx 1 5 [coinbase_input]], pu_blockHeight = 5\<rparr>"

definition sample_block6 :: ProcessUnspentTransaction where
  "sample_block6 = \<lparr>pu_transactions = [sample_utx 2 6 [coinbase_input],
     sample_utx 3 6 [\<lparr>ti_originalTransactionId = [1], ti_outputTransactionIndex = Some 0\<rparr>]], pu_blockHeight = 6\<rparr>"

definition sample_created :: "bigint \<Rightarrow> created_output" where
  "sample_created h = \<lparr>cr_blockHeight = h, cr_value = 50, cr_scriptPubKey = sample_script\<lparr>sp_addresses := Some []\<rparr>\<rparr>"

lemma sample_created_height [simp]: "cr_blockHeight (sample_created h) = h"
  by (simp add: sample_created_def)

definition no_utxos :: utxo_db where "no_utxos = (\<lambda>p. None)"

lemma sample_utxo_facts [simp]:
  "block_outputs sample_block5 = [(([1], 0), sample_created 5)]"
  "block_outputs sample_block6 = [(([2], 0), sample_created 6), (([3], 0), sample_created 6)]"
  "convertSpentTransactions [sample_block5] = []"
  "convertSpentTransactions [sample_block6] = [(([1], 0), 6)]"
  "convertSpentTransactions [sample_block6, sample_block5] = [(([1], 0), 6)]"
  "creation no_utxos p = None" "spending no_utxos p = None"
  "pu_blockHeight sample_block5 = 5" "pu_blockHeight sample_block6 = 6"
  "block_heights_ok sample_block5" "block_heights_ok sample_block6" "\<not> ALLOW_PURGE sample_utxo_config"
  by (simp_all add: block_outputs_def sample_block5_def sample_block6_def sample_utx_def sample_created_def
      output_write_def indexed_output_def truthy_address_def sample_script_def stored_script_def coinbase_input_def
      convertSpentTransactions_def input_spends_def creation_def spending_def doc_at_def empty_doc_def
      no_utxos_def block_heights_ok_def sample_utxo_config_def)

lemma sample_utxo_batches [simp]:
  "outputs_of [sample_block5] = [(([1], 0), sample_created 5)]"
  "outputs_of [sample_block6] = [(([2], 0), sample_created 6), (([3], 0), sample_created 6)]"
  "outputs_of [sample_block5, sample_block6] =
     [(([1], 0), sample_created 5), (([2], 0), sample_created 6), (([3], 0), sample_created 6)]"
  "outputs_of [sample_block6, sample_block5] =
     [(([2], 0), sample_created 6), (([3], 0), sample_created 6), (([1], 0), sample_created 5)]"
  "spends_of [sample_block5] = {}" "spends_of [sample_block6] = {([1], 0)}"
  "spends_of [sample_block5, sample_block6] = {([1], 0)}"
  "spends_of [sample_block6, sample_block5] = {([1], 0)}"
  "batch_ok [sample_block5]" "batch_ok [sample_block6]" "batch_ok [sample_block6, sample_block5]"
  using spends_of_append [of "[sample_block5]" "[sample_block6]"]
  by (simp_all add: outputs_of_def spends_of_def batch_ok_def)



theorem batched_spend_loses_output_witness:
  "(\<forall>h. unspent (UTXO_deleteTransactionsFromBlockHeight h
      (insertTransactions sample_utxo_config [sample_block5, sample_block6] no_utxos)) ([1], 0) = None)
   \<and> unspent (UTXO_deleteTransactionsFromBlockHeight 6 (insertTransactions sample_utxo_config [sample_block6]
        (insertTransactions sample_utxo_config [sample_block5] no_utxos))) ([1], 0) = Some (sample_created 5)"
  using batched_spend_loses_output [of sample_utxo_config sample_block6 no_utxos "([1], 0)" sample_block5
      "sample_created 5"] by simp

definition sample_sync :: ChainSynchronisation where
  "sample_sync = \<lparr>cs_unspentTransactionOutputs = [sample_block5, sample_block6], cs_amountOfUTXOs = 3,
     cs_pendingSave = Some [], cs_bestTip = 6, cs_currentBlock = Some 6\<rparr>"

theorem reorg_forgets_blocks_witness:
  "let r = onReorg sample_utxo_config None 6 (sample_sync, no_utxos) in
   cs_unspentTransactionOutputs (fst r) = [sample_block5] \<and> cs_pendingSave (fst r) = None \<and> queue_ok (fst r)
   \<and> utxos_below 6 (snd (awaitUTXOWrites sample_utxo_config None
        (fst r, UTXO_deleteTransactionsFromBlockHeight 6 (snd r))))"
proof -
  obtain s' db' where r: "onReorg sample_utxo_config None 6 (sample_sync, no_utxos) = (s', db')" by fastforce
  have "queue_ok sample_sync"
    by (simp add: queue_ok_def sample_sync_def) (simp add: sample_block5_def sample_block6_def)
  then show ?thesis
    using reorg_forgets_blocks [OF _ _ r] onReorg_queue(2) [OF r] r by (simp add: Let_def sample_sync_def)
qed

end
