(* ===== verification/Storage_Revert.thy ===== *)
theory Storage_Revert
  imports Epoch_Manager Block_Headers UTXO_Store
begin

section \<open>The block database and its reverts\<close>

text \<open>
  The purge of \<open>src/src/vm/storage/databases/VMMongoStorage.ts\<close> with the deletions of the repositories
  under \<open>src/src/db/repositories\<close> it calls, and the history of contract storage in
  \<open>ContractPointerValueRepository.ts\<close>.

  A collection is the list of its documents and a deletion removes those that satisfy its criteria. Of
  a document the fields are kept that the code here reads; the others are one opaque field. The
  deletions of a batch concern different collections, so running them at once or one after the other
  is the same. That a repository is not initialised, and a database that fails, are left out.
\<close>

record ITransactionDocument =
  td_blockHeight :: bigint
  td_id :: bytes

record IContractDocument =
  cd_blockHeight :: bigint
  cd_contractAddress :: string
  cd_contractPublicKey :: address
  cd_bytecode :: bytes
  cd_wasCompressed :: bool
  cd_deployedTransactionId :: bytes
  cd_deployedTransactionHash :: bytes
  cd_deployerPubKey :: bytes
  cd_contractSeed :: bytes
  cd_contractSaltHash :: bytes
  cd_deployerAddress :: address

record IContractPointerValue =
  pv_contractAddress :: address
  pv_pointer :: bytes
  pv_value :: bytes
  pv_proofs :: "string list"
  pv_lastSeenAt :: bigint

record IReorgDocument =
  rd_fromBlock :: bigint
  rd_toBlock :: bigint

record IEpochSubmissionsDocument = IEpochSubmission +
  sd_confirmedAt :: bigint

record ITargetEpochDocument =
  te_epochNumber :: bigint
  te_rest :: bytes

record MLDSAPublicKeyDocument =
  mk_level :: nat
  mk_hashedPublicKey :: bytes
  mk_legacyPublicKey :: bytes
  mk_tweakedPublicKey :: bytes
  mk_publicKey :: "bytes option"
  mk_insertedBlockHeight :: bigint
  mk_exposedBlockHeight :: "bigint option"

record IMempoolTransaction =
  mt_blockHeight :: bigint
  mt_id :: string

record storage =
  st_headers :: "BlockHeaderDocument list"
  st_transactions :: "ITransactionDocument list"
  st_utxos :: utxo_db
  st_contracts :: "IContractDocument list"
  st_pointers :: "IContractPointerValue list"
  st_witnesses :: "BlockWitness list"
  st_reorgs :: "IReorgDocument list"
  st_epochs :: "IEpochDocument list"
  st_submissions :: "IEpochSubmissionsDocument list"
  st_targetEpochs :: "ITargetEpochDocument list"
  st_publicKeys :: "MLDSAPublicKeyDocument list"
  st_mempool :: "IMempoolTransaction list"
  st_inProgressBlock :: bigint

record purge_config =
  REINDEX_BATCH_SIZE :: bigint
  REINDEX_PURGE_UTXOS :: bool

subsection \<open>The repositories\<close>

definition header_lookup :: "BlockHeaderDocument list \<Rightarrow> header_db" where
  "header_lookup hs n = find (\<lambda>d. BlockHeaderDocument.bh_height d = n) hs"

definition delete_from :: "('d \<Rightarrow> bigint) \<Rightarrow> bigint \<Rightarrow> 'd list \<Rightarrow> 'd list" where
  "delete_from key h = filter (\<lambda>d. \<not> h \<le> key d)"

definition delete_range :: "('d \<Rightarrow> bigint) \<Rightarrow> bigint \<Rightarrow> bigint \<Rightarrow> 'd list \<Rightarrow> 'd list" where
  "delete_range key from to = filter (\<lambda>d. \<not> (from \<le> key d \<and> key d < to))"

definition deleteBlockHeadersFromBlockHeight :: "bigint \<Rightarrow> BlockHeaderDocument list \<Rightarrow> BlockHeaderDocument list" where
  "deleteBlockHeadersFromBlockHeight = delete_from BlockHeaderDocument.bh_height"

definition deleteBlockHeadersInRange ::
    "bigint \<Rightarrow> bigint \<Rightarrow> BlockHeaderDocument list \<Rightarrow> BlockHeaderDocument list" where
  "deleteBlockHeadersInRange = delete_range BlockHeaderDocument.bh_height"

definition deleteTransactionsFromBlockHeight :: "bigint \<Rightarrow> ITransactionDocument list \<Rightarrow> ITransactionDocument list" where
  "deleteTransactionsFromBlockHeight = delete_from td_blockHeight"

definition deleteTransactionsInRange ::
    "bigint \<Rightarrow> bigint \<Rightarrow> ITransactionDocument list \<Rightarrow> ITransactionDocument list" where
  "deleteTransactionsInRange = delete_range td_blockHeight"

definition deleteContractsFromBlockHeight :: "bigint \<Rightarrow> IContractDocument list \<Rightarrow> IContractDocument list" where
  "deleteContractsFromBlockHeight = delete_from cd_blockHeight"

definition deleteContractsInRange :: "bigint \<Rightarrow> bigint \<Rightarrow> IContractDocument list \<Rightarrow> IContractDocument list" where
  "deleteContractsInRange = delete_range cd_blockHeight"

definition deletePointerFromBlockHeight ::
    "bigint \<Rightarrow> IContractPointerValue list \<Rightarrow> IContractPointerValue list" where
  "deletePointerFromBlockHeight = delete_from pv_lastSeenAt"

definition deletePointerInRange ::
    "bigint \<Rightarrow> bigint \<Rightarrow> IContractPointerValue list \<Rightarrow> IContractPointerValue list" where
  "deletePointerInRange = delete_range pv_lastSeenAt"

definition deleteBlockWitnessesFromHeight :: "bigint \<Rightarrow> BlockWitness list \<Rightarrow> BlockWitness list" where
  "deleteBlockWitnessesFromHeight = delete_from wi_blockNumber"

definition deleteBlockWitnessesInRange :: "bigint \<Rightarrow> bigint \<Rightarrow> BlockWitness list \<Rightarrow> BlockWitness list" where
  "deleteBlockWitnessesInRange = delete_range wi_blockNumber"

definition deleteReorgs :: "bigint \<Rightarrow> IReorgDocument list \<Rightarrow> IReorgDocument list" where
  "deleteReorgs = delete_from rd_fromBlock"

definition deleteReorgsInRange :: "bigint \<Rightarrow> bigint \<Rightarrow> IReorgDocument list \<Rightarrow> IReorgDocument list" where
  "deleteReorgsInRange = delete_range rd_fromBlock"

definition deleteEpochFromBitcoinBlockNumber :: "bigint \<Rightarrow> IEpochDocument list \<Rightarrow> IEpochDocument list" where
  "deleteEpochFromBitcoinBlockNumber = delete_from doc_startBlock"

definition deleteEpochInRange :: "bigint \<Rightarrow> bigint \<Rightarrow> IEpochDocument list \<Rightarrow> IEpochDocument list" where
  "deleteEpochInRange = delete_range doc_startBlock"

definition deleteSubmissionsFromBlock ::
    "bigint \<Rightarrow> IEpochSubmissionsDocument list \<Rightarrow> IEpochSubmissionsDocument list" where
  "deleteSubmissionsFromBlock = delete_from sd_confirmedAt"

definition deleteSubmissionsInRange ::
    "bigint \<Rightarrow> bigint \<Rightarrow> IEpochSubmissionsDocument list \<Rightarrow> IEpochSubmissionsDocument list" where
  "deleteSubmissionsInRange = delete_range sd_confirmedAt"

text \<open>A public key exposed in a deleted block is hidden again before the keys inserted there are deleted.\<close>

definition null_exposed :: "(bigint \<Rightarrow> bool) \<Rightarrow> MLDSAPublicKeyDocument \<Rightarrow> MLDSAPublicKeyDocument" where
  "null_exposed bound d =
     (case mk_exposedBlockHeight d of
        None \<Rightarrow> d
      | Some h \<Rightarrow> if bound h then d\<lparr>mk_publicKey := None, mk_exposedBlockHeight := None\<rparr> else d)"

definition nullPublicKeyFromBlockHeight ::
    "bigint \<Rightarrow> MLDSAPublicKeyDocument list \<Rightarrow> MLDSAPublicKeyDocument list" where
  "nullPublicKeyFromBlockHeight h = map (null_exposed (\<lambda>n. h \<le> n))"

definition MLDSA_deleteFromBlockHeight ::
    "bigint \<Rightarrow> MLDSAPublicKeyDocument list \<Rightarrow> MLDSAPublicKeyDocument list" where
  "MLDSA_deleteFromBlockHeight h ks = delete_from mk_insertedBlockHeight h (nullPublicKeyFromBlockHeight h ks)"

definition MLDSA_deleteInRange ::
    "bigint \<Rightarrow> bigint \<Rightarrow> MLDSAPublicKeyDocument list \<Rightarrow> MLDSAPublicKeyDocument list" where
  "MLDSA_deleteInRange from to ks =
     delete_range mk_insertedBlockHeight from to (map (null_exposed (\<lambda>n. from \<le> n \<and> n < to)) ks)"

definition deleteAllTargetEpochs :: "ITargetEpochDocument list \<Rightarrow> ITargetEpochDocument list" where
  "deleteAllTargetEpochs ts = []"

definition Mempool_deleteGreaterThanBlockHeight ::
    "bigint \<Rightarrow> IMempoolTransaction list \<Rightarrow> IMempoolTransaction list" where
  "Mempool_deleteGreaterThanBlockHeight h ms =
     (if h \<le> 0 then [] else filter (\<lambda>m. \<not> h < mt_blockHeight m) ms)"

text \<open>\<open>getLatestBlock\<close> is the query for one header, sorted by descending height.\<close>

definition getLatestBlock :: "BlockHeaderDocument list \<Rightarrow> bigint option" where
  "getLatestBlock hs = (if hs = [] then None else Some (Max (BlockHeaderDocument.bh_height ` set hs)))"

subsection \<open>The purge\<close>

definition purge_upper_bound :: "bigint \<Rightarrow> storage \<Rightarrow> bigint" where
  "purge_upper_bound blockId st =
     (let blockHeaderHeight = (case getLatestBlock (st_headers st) of None \<Rightarrow> blockId | Some h \<Rightarrow> h);
          chainInfoHeight = st_inProgressBlock st;
          derivedUpper = (if blockHeaderHeight > chainInfoHeight then blockHeaderHeight else chainInfoHeight)
      in if derivedUpper > blockId then derivedUpper else blockId)"

definition purge_from :: "bool \<Rightarrow> bigint \<Rightarrow> storage \<Rightarrow> storage" where
  "purge_from purgeUtxos h st =
     st\<lparr>st_headers := deleteBlockHeadersFromBlockHeight h (st_headers st),
        st_transactions := deleteTransactionsFromBlockHeight h (st_transactions st),
        st_utxos := (if purgeUtxos then UTXO_deleteTransactionsFromBlockHeight h (st_utxos st) else st_utxos st),
        st_contracts := deleteContractsFromBlockHeight h (st_contracts st),
        st_pointers := deletePointerFromBlockHeight h (st_pointers st),
        st_witnesses := deleteBlockWitnessesFromHeight h (st_witnesses st),
        st_reorgs := deleteReorgs h (st_reorgs st),
        st_epochs := deleteEpochFromBitcoinBlockNumber h (st_epochs st),
        st_submissions := deleteSubmissionsFromBlock h (st_submissions st),
        st_publicKeys := MLDSA_deleteFromBlockHeight h (st_publicKeys st)\<rparr>"

definition purge_range :: "bool \<Rightarrow> bigint \<Rightarrow> bigint \<Rightarrow> storage \<Rightarrow> storage" where
  "purge_range purgeUtxos from to st =
     st\<lparr>st_headers := deleteBlockHeadersInRange from to (st_headers st),
        st_transactions := deleteTransactionsInRange from to (st_transactions st),
        st_utxos := (if purgeUtxos then UTXO_deleteTransactionsInRange from to (st_utxos st) else st_utxos st),
        st_contracts := deleteContractsInRange from to (st_contracts st),
        st_pointers := deletePointerInRange from to (st_pointers st),
        st_witnesses := deleteBlockWitnessesInRange from to (st_witnesses st),
        st_reorgs := deleteReorgsInRange from to (st_reorgs st),
        st_epochs := deleteEpochInRange from to (st_epochs st),
        st_submissions := deleteSubmissionsInRange from to (st_submissions st),
        st_publicKeys := MLDSA_deleteInRange from to (st_publicKeys st)\<rparr>"

text \<open>The loop over the batches runs for ever if the batch size is not positive.\<close>

partial_function (option) purge_batches :: "bool \<Rightarrow> bigint \<Rightarrow> bigint \<Rightarrow> bigint \<Rightarrow> storage \<Rightarrow> storage option" where
  "purge_batches purgeUtxos batch blockId to st =
     (if to > blockId
      then purge_batches purgeUtxos batch blockId (to - batch)
             (purge_range purgeUtxos (if to - batch < blockId then blockId else to - batch) to st)
      else Some st)"

definition batch_size :: "purge_config \<Rightarrow> bigint" where
  "batch_size cfg = (if REINDEX_BATCH_SIZE cfg = 0 then 1000 else REINDEX_BATCH_SIZE cfg)"

definition purge_mempool :: "bool \<Rightarrow> bigint \<Rightarrow> storage \<Rightarrow> storage" where
  "purge_mempool purgeUtxos blockId st =
     (if blockId \<le> 0
      then st\<lparr>st_utxos := (if purgeUtxos then UTXO_deleteGreaterThanBlockHeight blockId (st_utxos st) else st_utxos st),
              st_mempool := Mempool_deleteGreaterThanBlockHeight blockId (st_mempool st)\<rparr>
      else st)"

definition revertDataUntilBlock :: "purge_config \<Rightarrow> bigint \<Rightarrow> bool option \<Rightarrow> storage \<Rightarrow> storage option" where
  "revertDataUntilBlock cfg blockId purgeUtxosOverride st =
     (let upperBound = purge_upper_bound blockId st;
          purgeUtxos = (case purgeUtxosOverride of None \<Rightarrow> REINDEX_PURGE_UTXOS cfg | Some b \<Rightarrow> b);
          st1 = st\<lparr>st_targetEpochs := deleteAllTargetEpochs (st_targetEpochs st)\<rparr>
      in map_option (purge_mempool purgeUtxos blockId)
           (purge_batches purgeUtxos (batch_size cfg) blockId upperBound (purge_from purgeUtxos upperBound st1)))"

definition purge_headers_range :: "bigint \<Rightarrow> bigint \<Rightarrow> storage \<Rightarrow> storage" where
  "purge_headers_range from to st =
     st\<lparr>st_headers := deleteBlockHeadersInRange from to (st_headers st),
        st_witnesses := deleteBlockWitnessesInRange from to (st_witnesses st)\<rparr>"

partial_function (option) header_batches :: "bigint \<Rightarrow> bigint \<Rightarrow> bigint \<Rightarrow> storage \<Rightarrow> storage option" where
  "header_batches batch upperBound from st =
     (if from \<le> upperBound
      then header_batches batch upperBound (from + batch) (purge_headers_range from (from + batch) st)
      else Some st)"

definition revertBlockHeadersOnly :: "purge_config \<Rightarrow> bigint \<Rightarrow> storage \<Rightarrow> storage option" where
  "revertBlockHeadersOnly cfg blockId st =
     (let upperBound = (case getLatestBlock (st_headers st) of None \<Rightarrow> blockId | Some h \<Rightarrow> h)
      in header_batches (batch_size cfg) upperBound blockId st)"

subsection \<open>Contract storage\<close>

text \<open>
  A block writes the pointers it changed under its own height, by upserts. A read returns the newest
  value below the height it is given; a height of 0 in a document counts as missing.
\<close>

datatype pointer_error = InvalidPointerValue

definition pointer_matches :: "address \<Rightarrow> bytes \<Rightarrow> bigint option \<Rightarrow> IContractPointerValue \<Rightarrow> bool" where
  "pointer_matches contract ptr height d \<longleftrightarrow> pv_contractAddress d = contract \<and> pv_pointer d = ptr
     \<and> (case height of None \<Rightarrow> True | Some h \<Rightarrow> pv_lastSeenAt d < h)"

fun newest :: "IContractPointerValue list \<Rightarrow> IContractPointerValue option" where
  "newest [] = None"
| "newest (d # ds) =
     (case newest ds of
        None \<Rightarrow> Some d
      | Some e \<Rightarrow> if pv_lastSeenAt d < pv_lastSeenAt e then Some e else Some d)"

definition getByContractAndPointer ::
    "address \<Rightarrow> bytes \<Rightarrow> bigint option \<Rightarrow> IContractPointerValue list
     \<Rightarrow> pointer_error + IContractPointerValue option" where
  "getByContractAndPointer contract ptr height ds =
     (case newest (filter (pointer_matches contract ptr height) ds) of
        None \<Rightarrow> Inr None
      | Some d \<Rightarrow> if pv_lastSeenAt d = 0 then Inl InvalidPointerValue else Inr (Some d))"

definition same_pointer :: "IContractPointerValue \<Rightarrow> IContractPointerValue \<Rightarrow> bool" where
  "same_pointer d e \<longleftrightarrow> pv_contractAddress d = pv_contractAddress e \<and> pv_pointer d = pv_pointer e
     \<and> pv_lastSeenAt d = pv_lastSeenAt e"

fun upsert_pointer :: "IContractPointerValue \<Rightarrow> IContractPointerValue list \<Rightarrow> IContractPointerValue list" where
  "upsert_pointer d [] = [d]"
| "upsert_pointer d (e # es) = (if same_pointer d e then d # es else e # upsert_pointer d es)"

definition setStoragePointers ::
    "address \<Rightarrow> (address \<times> (bytes \<times> bytes \<times> string list) list) list \<Rightarrow> bigint
     \<Rightarrow> IContractPointerValue list \<Rightarrow> IContractPointerValue list" where
  "setStoragePointers DUMMY_ADDRESS_NON_EXISTENT changes lastSeenAt ds =
     fold (\<lambda>(contract, pointers) ds.
       if contract = DUMMY_ADDRESS_NON_EXISTENT then ds
       else fold (\<lambda>(ptr, v, proofs). upsert_pointer \<lparr>pv_contractAddress = contract, pv_pointer = ptr,
              pv_value = v, pv_proofs = proofs, pv_lastSeenAt = lastSeenAt\<rparr>) pointers ds) changes ds"

subsection \<open>Purging in batches\<close>

text \<open>
  What the purge relies on: deleting a range just below a height, after everything from that height on
  was deleted, is deleting from the lower end of the range.
\<close>

locale purgeable =
  fixes from_height :: "bigint \<Rightarrow> 'd \<Rightarrow> 'd" and in_range :: "bigint \<Rightarrow> bigint \<Rightarrow> 'd \<Rightarrow> 'd"
  assumes range_below: "a \<le> b \<Longrightarrow> in_range a b (from_height b d) = from_height a d"

text \<open>A loop that walks down from a height in batches, as the purge does.\<close>

locale batched_purge = purgeable from_height in_range
  for from_height :: "bigint \<Rightarrow> 'd \<Rightarrow> 'd" and in_range :: "bigint \<Rightarrow> bigint \<Rightarrow> 'd \<Rightarrow> 'd" +
  fixes walk :: "bigint \<Rightarrow> 'd \<Rightarrow> 'd option" and batch :: bigint and block :: bigint
  assumes walk_step: "walk to d = (if to > block
    then walk (to - batch) (in_range (if to - batch < block then block else to - batch) to d) else Some d)"
begin

lemma walk_ends:
  assumes "0 < batch" and "block \<le> to"
  shows "walk to (from_height to d) = Some (from_height block d)"
  using assms(2)
proof (induction "nat (to - block)" arbitrary: to rule: less_induct)
  case less
  show ?case
  proof (cases "to - batch < block")
    case True
    then show ?thesis using less.prems
      by (subst walk_step) (simp add: range_below, subst walk_step, simp)
  next
    case False
    then have "walk (to - batch) (from_height (to - batch) d) = Some (from_height block d)"
      using less assms(1) by simp
    then show ?thesis using False less.prems assms(1) by (subst walk_step) (simp add: range_below)
  qed
qed

end

lemma delete_range_from [simp]: "a \<le> b \<Longrightarrow> delete_range key a b (delete_from key b ds) = delete_from key a ds"
  by (auto simp: delete_range_def delete_from_def intro!: filter_cong)

interpretation header_collection: purgeable deleteBlockHeadersFromBlockHeight deleteBlockHeadersInRange
  by unfold_locales (simp add: deleteBlockHeadersFromBlockHeight_def deleteBlockHeadersInRange_def)

interpretation transaction_collection: purgeable deleteTransactionsFromBlockHeight deleteTransactionsInRange
  by unfold_locales (simp add: deleteTransactionsFromBlockHeight_def deleteTransactionsInRange_def)

interpretation contract_collection: purgeable deleteContractsFromBlockHeight deleteContractsInRange
  by unfold_locales (simp add: deleteContractsFromBlockHeight_def deleteContractsInRange_def)

interpretation pointer_collection: purgeable deletePointerFromBlockHeight deletePointerInRange
  by unfold_locales (simp add: deletePointerFromBlockHeight_def deletePointerInRange_def)

interpretation witness_collection: purgeable deleteBlockWitnessesFromHeight deleteBlockWitnessesInRange
  by unfold_locales (simp add: deleteBlockWitnessesFromHeight_def deleteBlockWitnessesInRange_def)

interpretation reorg_collection: purgeable deleteReorgs deleteReorgsInRange
  by unfold_locales (simp add: deleteReorgs_def deleteReorgsInRange_def)

interpretation epoch_collection: purgeable deleteEpochFromBitcoinBlockNumber deleteEpochInRange
  by unfold_locales (simp add: deleteEpochFromBitcoinBlockNumber_def deleteEpochInRange_def)

interpretation submission_collection: purgeable deleteSubmissionsFromBlock deleteSubmissionsInRange
  by unfold_locales (simp add: deleteSubmissionsFromBlock_def deleteSubmissionsInRange_def)

interpretation utxo_collection: purgeable UTXO_deleteTransactionsFromBlockHeight UTXO_deleteTransactionsInRange
proof
  fix a b :: bigint and db
  assume "a \<le> b"
  then show "UTXO_deleteTransactionsInRange a b (UTXO_deleteTransactionsFromBlockHeight b db) =
      UTXO_deleteTransactionsFromBlockHeight a db"
    by (intro ext) (auto simp: UTXO_deleteTransactionsInRange_def UTXO_deleteTransactionsFromBlockHeight_def
        unset_deletedAt_def delete_where_def created_in_def spent_in_def split: option.splits)
qed

lemma null_exposed_inserted [simp]: "mk_insertedBlockHeight (null_exposed bound d) = mk_insertedBlockHeight d"
  by (simp add: null_exposed_def split: option.splits)

lemma null_exposed_twice:
  "a \<le> b \<Longrightarrow> null_exposed (\<lambda>n. a \<le> n \<and> n < b) (null_exposed (\<lambda>n. b \<le> n) d) = null_exposed (\<lambda>n. a \<le> n) d"
  by (auto simp: null_exposed_def split: option.splits)

lemma delete_map: "(\<And>d. key (f d) = key d) \<Longrightarrow> delete_from key h (map f ds) = map f (delete_from key h ds)"
  "(\<And>d. key (f d) = key d) \<Longrightarrow> delete_range key a b (map f ds) = map f (delete_range key a b ds)"
  by (induction ds) (simp_all add: delete_from_def delete_range_def)

interpretation key_collection: purgeable MLDSA_deleteFromBlockHeight MLDSA_deleteInRange
  by unfold_locales
    (simp add: MLDSA_deleteFromBlockHeight_def MLDSA_deleteInRange_def nullPublicKeyFromBlockHeight_def
      delete_map null_exposed_twice comp_def)

lemmas collection_laws = header_collection.range_below transaction_collection.range_below
  contract_collection.range_below pointer_collection.range_below witness_collection.range_below
  reorg_collection.range_below epoch_collection.range_below submission_collection.range_below
  utxo_collection.range_below key_collection.range_below

interpretation storage_purge: batched_purge "purge_from u" "purge_range u" "purge_batches u batch blockId" batch blockId
  for u batch blockId
proof
  fix a b :: bigint and st
  assume "a \<le> b"
  then show "purge_range u a b (purge_from u b st) = purge_from u a st"
    by (simp add: purge_range_def purge_from_def collection_laws)
next
  fix to st
  show "purge_batches u batch blockId to st = (if blockId < to
      then purge_batches u batch blockId (to - batch)
        (purge_range u (if to - batch < blockId then blockId else to - batch) to st) else Some st)"
    by (subst purge_batches.simps) simp
qed

lemma batch_size_pos: "0 \<le> REINDEX_BATCH_SIZE cfg \<Longrightarrow> 0 < batch_size cfg"
  by (simp add: batch_size_def)

lemma purge_upper_bound_ge: "blockId \<le> purge_upper_bound blockId st"
  by (simp add: purge_upper_bound_def Let_def split: option.splits)

text \<open>The purge in one pass.\<close>

definition purge_at_once :: "purge_config \<Rightarrow> bigint \<Rightarrow> bool option \<Rightarrow> storage \<Rightarrow> storage" where
  "purge_at_once cfg blockId over st =
     (let u = (case over of None \<Rightarrow> REINDEX_PURGE_UTXOS cfg | Some b \<Rightarrow> b)
      in purge_mempool u blockId (purge_from u blockId (st\<lparr>st_targetEpochs := []\<rparr>)))"

lemma revertDataUntilBlock_at_once:
  assumes "0 \<le> REINDEX_BATCH_SIZE cfg"
  shows "revertDataUntilBlock cfg blockId over st = Some (purge_at_once cfg blockId over st)"
  unfolding revertDataUntilBlock_def purge_at_once_def Let_def deleteAllTargetEpochs_def
  by (subst storage_purge.walk_ends [OF batch_size_pos [OF assms] purge_upper_bound_ge]) simp

lemmas repository_deletes = deleteBlockHeadersFromBlockHeight_def deleteTransactionsFromBlockHeight_def
  deleteContractsFromBlockHeight_def deletePointerFromBlockHeight_def deleteBlockWitnessesFromHeight_def
  deleteReorgs_def deleteEpochFromBitcoinBlockNumber_def deleteSubmissionsFromBlock_def delete_from_def

lemma purge_at_once_documents:
  "st_headers (purge_at_once cfg b over st) = filter (\<lambda>d. BlockHeaderDocument.bh_height d < b) (st_headers st)"
  "st_pointers (purge_at_once cfg b over st) = filter (\<lambda>d. pv_lastSeenAt d < b) (st_pointers st)"
  by (simp_all add: purge_at_once_def Let_def purge_mempool_def purge_from_def repository_deletes not_le)

lemma utxo_purge_twice:
  "UTXO_deleteGreaterThanBlockHeight h (UTXO_deleteTransactionsFromBlockHeight h db) =
     (if h < 0 then \<lambda>p. None else UTXO_deleteTransactionsFromBlockHeight h db)"
  by (auto simp: UTXO_deleteGreaterThanBlockHeight_def UTXO_deleteTransactionsFromBlockHeight_def unset_deletedAt_def
      delete_where_def created_in_def fun_eq_iff split: option.splits)


lemma delete_range_join: "a \<le> b \<Longrightarrow> b \<le> c \<Longrightarrow> delete_range key b c (delete_range key a b ds) = delete_range key a c ds"
  by (auto simp: delete_range_def intro!: filter_cong)

lemma delete_range_empty [simp]: "delete_range key a a ds = ds"
  by (auto simp: delete_range_def intro: filter_True)

lemmas header_ranges = purge_headers_range_def deleteBlockHeadersInRange_def deleteBlockWitnessesInRange_def

lemma header_batches_range:
  assumes "0 < batch"
  shows "\<exists>top. upper < top \<and> lo \<le> top \<and> header_batches batch upper lo st = Some (purge_headers_range lo top st)"
proof (induction "nat (upper + 1 - lo)" arbitrary: lo st rule: less_induct)
  case less
  show ?case
  proof (cases "lo \<le> upper")
    case True
    let ?st = "purge_headers_range lo (lo + batch) st"
    obtain top where top: "upper < top" "lo + batch \<le> top"
      "header_batches batch upper (lo + batch) ?st = Some (purge_headers_range (lo + batch) top ?st)"
      using less [of "lo + batch" ?st] True assms by auto
    have "header_batches batch upper lo st = Some (purge_headers_range lo top st)"
      using True top(2,3) assms by (subst header_batches.simps) (simp add: header_ranges delete_range_join)
    then show ?thesis using top assms by (intro exI [of _ top]) simp
  next
    case False
    then have "header_batches batch upper lo st = Some (purge_headers_range lo lo st)"
      by (subst header_batches.simps) (simp add: header_ranges)
    then show ?thesis using False by (intro exI [of _ lo]) simp
  qed
qed

text \<open>
  The purge of a resynchronisation returns and touches nothing but headers and witnesses: all headers
  from \<open>blockId\<close> on are deleted, and the witnesses from \<open>blockId\<close> up to some height above the latest header;
  witnesses above that height stay.
\<close>

theorem resync_purges_headers_only:
  assumes "0 \<le> REINDEX_BATCH_SIZE cfg"
  shows "\<exists>top > (case getLatestBlock (st_headers st) of None \<Rightarrow> blockId | Some h \<Rightarrow> h).
    revertBlockHeadersOnly cfg blockId st =
      Some (st\<lparr>st_headers := filter (\<lambda>d. BlockHeaderDocument.bh_height d < blockId) (st_headers st),
               st_witnesses := filter (\<lambda>w. \<not> (blockId \<le> wi_blockNumber w \<and> wi_blockNumber w < top)) (st_witnesses st)\<rparr>)"
proof -
  let ?upper = "case getLatestBlock (st_headers st) of None \<Rightarrow> blockId | Some h \<Rightarrow> h"
  obtain top where top: "?upper < top"
    "header_batches (batch_size cfg) ?upper blockId st = Some (purge_headers_range blockId top st)"
    using header_batches_range [OF batch_size_pos [OF assms]] by blast
  have "BlockHeaderDocument.bh_height d < top" if "d \<in> set (st_headers st)" for d
  proof -
    have "BlockHeaderDocument.bh_height d \<le> Max (BlockHeaderDocument.bh_height ` set (st_headers st))"
      using that by simp
    then show ?thesis using top(1) that by (auto simp: getLatestBlock_def split: if_splits)
  qed
  then have "deleteBlockHeadersInRange blockId top (st_headers st) =
      filter (\<lambda>d. BlockHeaderDocument.bh_height d < blockId) (st_headers st)"
    unfolding deleteBlockHeadersInRange_def delete_range_def by (intro filter_cong) auto
  then show ?thesis using top
    by (intro exI [of _ top])
      (simp add: revertBlockHeadersOnly_def purge_headers_range_def deleteBlockWitnessesInRange_def delete_range_def)
qed

subsection \<open>Reading contract storage\<close>

lemma newest_mem: "newest ds = Some d \<Longrightarrow> d \<in> set ds"
  by (induction ds arbitrary: d) (auto split: option.splits if_splits)

lemma matches_same_pointer:
  "same_pointer d e \<Longrightarrow> pointer_matches c p h d \<longleftrightarrow> pointer_matches c p h e"
  by (auto simp: same_pointer_def pointer_matches_def split: option.splits)

lemma upsert_other:
  "\<not> pointer_matches c p h d \<Longrightarrow>
    filter (pointer_matches c p h) (upsert_pointer d ds) = filter (pointer_matches c p h) ds"
  by (induction ds) (auto simp: matches_same_pointer)

lemma newest_upsert:
  assumes "pointer_matches c p h d"
    and "\<forall>e \<in> set ds. pointer_matches c p h e \<longrightarrow> pv_lastSeenAt e \<le> pv_lastSeenAt d"
  shows "newest (filter (pointer_matches c p h) (upsert_pointer d ds)) = Some d"
  using assms(2)
proof (induction ds)
  case Nil
  then show ?case using assms(1) by simp
next
  case (Cons e es)
  show ?case
  proof (cases "same_pointer d e")
    case True
    show ?thesis
    proof (cases "newest (filter (pointer_matches c p h) es)")
      case (Some f)
      then have "f \<in> set (filter (pointer_matches c p h) es)" by (rule newest_mem)
      then have "pv_lastSeenAt f \<le> pv_lastSeenAt d" using Cons.prems by auto
      then show ?thesis using Some True assms(1) by simp
    qed (use True assms(1) in simp)
  next
    case False
    moreover have "pointer_matches c p h e \<Longrightarrow> pv_lastSeenAt e < pv_lastSeenAt d"
      using False Cons.prems assms(1) by (fastforce simp: pointer_matches_def same_pointer_def)
    ultimately show ?thesis using Cons by simp
  qed
qed

text \<open>The documents a block writes.\<close>

definition written_pointers ::
    "address \<Rightarrow> (address \<times> (bytes \<times> bytes \<times> string list) list) list \<Rightarrow> bigint \<Rightarrow> IContractPointerValue list" where
  "written_pointers dummy changes n =
     concat (map (\<lambda>(contract, pointers). map (\<lambda>(ptr, v, proofs). \<lparr>pv_contractAddress = contract, pv_pointer = ptr,
       pv_value = v, pv_proofs = proofs, pv_lastSeenAt = n\<rparr>) pointers)
       (filter (\<lambda>(contract, pointers). contract \<noteq> dummy) changes))"

lemma setStoragePointers_upserts:
  "setStoragePointers dummy changes n ds = fold upsert_pointer (written_pointers dummy changes n) ds"
proof (induction changes arbitrary: ds)
  case (Cons ch changes)
  have "fold (\<lambda>(ptr, v, proofs). upsert_pointer \<lparr>pv_contractAddress = c, pv_pointer = ptr, pv_value = v,
        pv_proofs = proofs, pv_lastSeenAt = n\<rparr>) ps ds =
      fold upsert_pointer (map (\<lambda>(ptr, v, proofs). \<lparr>pv_contractAddress = c, pv_pointer = ptr, pv_value = v,
        pv_proofs = proofs, pv_lastSeenAt = n\<rparr>) ps) ds" for c ps ds
    by (induction ps arbitrary: ds) auto
  then show ?case using Cons by (cases ch) (simp add: setStoragePointers_def written_pointers_def)
qed (simp add: setStoragePointers_def written_pointers_def)

lemma written_pointers_seen: "d \<in> set (written_pointers dummy changes n) \<Longrightarrow> pv_lastSeenAt d = n"
  by (auto simp: written_pointers_def)

lemma fold_upsert_other:
  "\<forall>d \<in> set ws. \<not> pointer_matches c p h d \<Longrightarrow>
    filter (pointer_matches c p h) (fold upsert_pointer ws ds) = filter (pointer_matches c p h) ds"
  by (induction ws arbitrary: ds) (auto simp: upsert_other)

lemma upsert_seen: "e \<in> set (upsert_pointer d ds) \<Longrightarrow> e = d \<or> e \<in> set ds"
  by (induction ds) (auto split: if_splits)

lemma fold_upsert_seen: "e \<in> set (fold upsert_pointer ws ds) \<Longrightarrow> e \<in> set ws \<or> e \<in> set ds"
  by (induction ws arbitrary: ds) (auto dest: upsert_seen)

lemma newest_fold_upsert:
  assumes "distinct (map (\<lambda>d. (pv_contractAddress d, pv_pointer d)) ws)" "d \<in> set ws"
    "\<forall>e \<in> set ws. pv_lastSeenAt e = n" "\<forall>e \<in> set ds. pv_lastSeenAt e \<le> n"
    "pointer_matches c p h d"
  shows "newest (filter (pointer_matches c p h) (fold upsert_pointer ws ds)) = Some d"
proof -
  obtain pre post where ws: "ws = pre @ d # post" using assms(2) by (auto simp: in_set_conv_decomp)
  have "(pv_contractAddress d, pv_pointer d) \<notin> (\<lambda>d. (pv_contractAddress d, pv_pointer d)) ` set post"
    using assms(1) by (simp add: ws)
  then have "\<forall>e \<in> set post. \<not> pointer_matches c p h e"
    using assms(5) by (auto simp: pointer_matches_def image_iff)
  then have "filter (pointer_matches c p h) (fold upsert_pointer ws ds) =
      filter (pointer_matches c p h) (upsert_pointer d (fold upsert_pointer pre ds))"
    by (simp add: ws fold_upsert_other)
  moreover have "\<forall>e \<in> set (fold upsert_pointer pre ds). pv_lastSeenAt e \<le> pv_lastSeenAt d"
    using assms(3,4) fold_upsert_seen [of _ pre ds] by (fastforce simp: ws)
  ultimately show ?thesis using newest_upsert [OF assms(5)] by simp
qed

text \<open>
  C22: Contract storage keeps its history. When the block of height \<open>n\<close> writes its changes on top of values
  written no later than \<open>n\<close>, a read below any greater height returns what the block wrote, reads below
  heights up to \<open>n\<close> return what they returned before, and after the data has been reverted to \<open>n\<close> every read,
  with or without a height, returns the value from before the block.
\<close>

theorem contract_storage_history:
  assumes "0 \<le> REINDEX_BATCH_SIZE cfg" and "n \<noteq> 0"
    and "\<forall>e \<in> set (st_pointers st). pv_lastSeenAt e < n"
    and "distinct (map (\<lambda>d. (pv_contractAddress d, pv_pointer d)) (written_pointers dummy changes n))"
    and "st1 = st\<lparr>st_pointers := setStoragePointers dummy changes n (st_pointers st)\<rparr>"
  shows "(\<forall>d \<in> set (written_pointers dummy changes n). \<forall>h > n.
        getByContractAndPointer (pv_contractAddress d) (pv_pointer d) (Some h) (st_pointers st1) = Inr (Some d))
    \<and> (\<forall>c p. \<forall>h \<le> n. getByContractAndPointer c p (Some h) (st_pointers st1) =
        getByContractAndPointer c p (Some h) (st_pointers st))
    \<and> (\<exists>st2. revertDataUntilBlock cfg n over st1 = Some st2 \<and> (\<forall>c p h.
        getByContractAndPointer c p h (st_pointers st2) = getByContractAndPointer c p h (st_pointers st)))"
proof -
  let ?ws = "written_pointers dummy changes n"
  have p1: "st_pointers st1 = fold upsert_pointer ?ws (st_pointers st)"
    using assms(5) by (simp add: setStoragePointers_upserts)
  have old: "\<forall>e \<in> set (st_pointers st). pv_lastSeenAt e \<le> n" using assms(3) by fastforce
  have read: "getByContractAndPointer (pv_contractAddress d) (pv_pointer d) (Some h) (st_pointers st1) = Inr (Some d)"
    if "d \<in> set ?ws" "n < h" for d h
  proof -
    have "pv_lastSeenAt d = n" using that(1) by (rule written_pointers_seen)
    moreover have "newest (filter (pointer_matches (pv_contractAddress d) (pv_pointer d) (Some h)) (st_pointers st1)) = Some d"
      unfolding p1
      by (rule newest_fold_upsert [OF assms(4) that(1) _ old])
        (use that calculation in \<open>auto simp: pointer_matches_def dest: written_pointers_seen\<close>)
    ultimately show ?thesis using assms(2) by (simp add: getByContractAndPointer_def)
  qed
  have below: "getByContractAndPointer c p (Some h) (st_pointers st1) = getByContractAndPointer c p (Some h) (st_pointers st)"
    if "h \<le> n" for c p h
    using fold_upsert_other [of ?ws c p "Some h" "st_pointers st"] that
    by (fastforce simp: getByContractAndPointer_def p1 pointer_matches_def dest: written_pointers_seen)
  let ?st2 = "purge_at_once cfg n over st1"
  have "filter (\<lambda>d. pv_lastSeenAt d < n) (st_pointers st1) = st_pointers st"
  proof -
    have *: "filter (\<lambda>d. pv_lastSeenAt d < n) (upsert_pointer d ds) = filter (\<lambda>d. pv_lastSeenAt d < n) ds"
      if "pv_lastSeenAt d = n" for d ds
      using that by (induction ds) (auto simp: same_pointer_def)
    have "\<forall>d \<in> set ws. pv_lastSeenAt d = n \<Longrightarrow> filter (\<lambda>d. pv_lastSeenAt d < n) (fold upsert_pointer ws ds) =
        filter (\<lambda>d. pv_lastSeenAt d < n) ds" for ws ds
      by (induction ws arbitrary: ds) (auto simp: *)
    then show ?thesis using assms(3) written_pointers_seen [of _ dummy changes n] by (simp add: p1 filter_id_conv)
  qed
  then have "st_pointers ?st2 = st_pointers st"
    by (simp add: purge_at_once_documents)
  then show ?thesis using read below by (simp add: revertDataUntilBlock_at_once [OF assms(1)])
qed

subsection \<open>Examples\<close>

definition sample_purge_config :: purge_config where
  "sample_purge_config = \<lparr>REINDEX_BATCH_SIZE = 2, REINDEX_PURGE_UTXOS = False\<rparr>"

definition sample_pointer :: "bigint \<Rightarrow> byte \<Rightarrow> IContractPointerValue" where
  "sample_pointer n v = \<lparr>pv_contractAddress = ''c'', pv_pointer = [1], pv_value = [v], pv_proofs = [], pv_lastSeenAt = n\<rparr>"

lemma sample_pointer_key [simp]:
  "pv_contractAddress (sample_pointer n v) = ''c''" "pv_pointer (sample_pointer n v) = [1]"
  by (simp_all add: sample_pointer_def)

definition sample_storage :: "bigint list \<Rightarrow> storage" where
  "sample_storage hs = \<lparr>st_headers = map (\<lambda>h. \<lparr>bh_height = h, bh_checksumRoot = [], bh_hash = [],
       bh_previousBlockHash = [], bh_previousBlockChecksum = [], bh_merkleRoot = [], bh_storageRoot = [],
       bh_receiptRoot = [], bh_checksumProofs = []\<rparr>) hs,
     st_transactions = [], st_utxos = no_utxos, st_contracts = [], st_pointers = [sample_pointer 3 9],
     st_witnesses = [\<lparr>wi_blockNumber = 4, wi_signature = [], wi_timestamp = 0, wi_publicKey = None\<rparr>],
     st_reorgs = [], st_epochs = [], st_submissions = [], st_targetEpochs = [], st_publicKeys = [],
     st_mempool = [], st_inProgressBlock = 7\<rparr>"


theorem resync_purges_headers_only_witness:
  "\<exists>st'. revertBlockHeadersOnly sample_purge_config 4 (sample_storage [3, 4, 5, 12]) = Some st'
    \<and> map BlockHeaderDocument.bh_height (st_headers st') = [3] \<and> st_witnesses st' = []
    \<and> st_pointers st' = [sample_pointer 3 9]"
proof -
  have "getLatestBlock (st_headers (sample_storage [3, 4, 5, 12])) = Some 12"
    by (simp add: sample_storage_def getLatestBlock_def)
  then obtain top where "12 < top" "revertBlockHeadersOnly sample_purge_config 4 (sample_storage [3, 4, 5, 12]) =
      Some ((sample_storage [3, 4, 5, 12])\<lparr>
        st_headers := filter (\<lambda>d. BlockHeaderDocument.bh_height d < 4) (st_headers (sample_storage [3, 4, 5, 12])),
        st_witnesses := filter (\<lambda>w. \<not> (4 \<le> wi_blockNumber w \<and> wi_blockNumber w < top))
          (st_witnesses (sample_storage [3, 4, 5, 12]))\<rparr>)"
    using resync_purges_headers_only [where cfg = sample_purge_config and st = "sample_storage [3, 4, 5, 12]" and blockId = 4]
    by (auto simp: sample_purge_config_def)
  then show ?thesis by (simp add: sample_storage_def)
qed

theorem contract_storage_history_witness:
  "let st1 = (sample_storage [])\<lparr>st_pointers := setStoragePointers ''d'' [(''c'', [([1], [5], [])])] 5 [sample_pointer 3 9]\<rparr>
   in getByContractAndPointer ''c'' [1] (Some 6) (st_pointers st1) = Inr (Some (sample_pointer 5 5))
      \<and> getByContractAndPointer ''c'' [1] (Some 5) (st_pointers st1) = Inr (Some (sample_pointer 3 9))
      \<and> (\<exists>st2. revertDataUntilBlock sample_purge_config 5 None st1 = Some st2
           \<and> getByContractAndPointer ''c'' [1] None (st_pointers st2) = Inr (Some (sample_pointer 3 9)))"
proof -
  let ?st = "sample_storage []"
  let ?ch = "[(''c'', [([1], [5], [])])] :: (address \<times> (bytes \<times> bytes \<times> string list) list) list"
  let ?st1 = "?st\<lparr>st_pointers := setStoragePointers ''d'' ?ch 5 (st_pointers ?st)\<rparr>"
  have w: "written_pointers ''d'' ?ch 5 = [sample_pointer 5 5]"
    by (simp add: written_pointers_def sample_pointer_def)
  have p: "st_pointers ?st = [sample_pointer 3 9]" by (simp add: sample_storage_def)
  have old: "getByContractAndPointer ''c'' [1] h [sample_pointer 3 9] = Inr (Some (sample_pointer 3 9))"
    if "h = None \<or> h = Some 5" for h
    using that by (auto simp: getByContractAndPointer_def pointer_matches_def sample_pointer_def)
  have "(\<forall>d \<in> set (written_pointers ''d'' ?ch 5). \<forall>h > 5.
        getByContractAndPointer (pv_contractAddress d) (pv_pointer d) (Some h) (st_pointers ?st1) = Inr (Some d))
    \<and> (\<forall>c p. \<forall>h \<le> 5. getByContractAndPointer c p (Some h) (st_pointers ?st1) =
        getByContractAndPointer c p (Some h) (st_pointers ?st))
    \<and> (\<exists>st2. revertDataUntilBlock sample_purge_config 5 None ?st1 = Some st2 \<and> (\<forall>c p h.
        getByContractAndPointer c p h (st_pointers st2) = getByContractAndPointer c p h (st_pointers ?st)))"
    by (rule contract_storage_history)
      (simp_all add: w p, simp_all add: sample_purge_config_def sample_pointer_def)
  then show ?thesis unfolding w p by (auto simp: Let_def old)
qed

end
