(* ===== verification/MLDSA_Keys.thy ===== *)
theory MLDSA_Keys
  imports Storage_Revert
begin

text \<open>
  The links between Bitcoin keys and ML-DSA keys: \<open>MLDSAPublicKeysRepository.ts\<close>, and the links a block
  has accepted but not yet written, which \<open>VMManager.ts\<close> keeps in three maps (\<open>mldsaToStore\<close>,
  \<open>mldsaToStoreLegacy\<close>, \<open>mldsaToStoreByHash\<close>) next to two caches of database answers.

  An \<open>AddressMap\<close> is keyed by the 32 bytes of an address, here the hashed public key or the tweaked key.
  \<open>tweak\<close> is \<open>Address.tweakedPublicKeyToBuffer\<close> as a function of the legacy key, from a package. The two
  unique indexes of the collection (\<open>IndexedMLDSAPublicKeys.ts\<close>) make a write with a key already
  present fail. A promise kept in a cache is its value.
\<close>

subsection \<open>The repository\<close>

record IMLDSAPublicKey =
  ik_level :: nat
  ik_hashedPublicKey :: bytes
  ik_legacyPublicKey :: bytes
  ik_tweakedPublicKey :: bytes
  ik_publicKey :: "bytes option"
  ik_insertedBlockHeight :: "bigint option"
  ik_exposedBlockHeight :: "bigint option"

record MLDSAUpdateData =
  ud_exposePublicKey :: bool
  ud_data :: IMLDSAPublicKey

record MLDSAPublicKeyExists =
  hashedExists :: bool
  legacyExists :: bool
  sameId :: bool
  ex_level :: "nat option"
  publicKeyExists :: "bool option"

datatype mldsa_error = InvalidKeyLengths | InsertedHeightRequired | LegacyKeyLength | DuplicateKey
  | KeyHeightMismatch | PublicKeyUndefined | HashPendingElsewhere | LegacyKeyPending
  | ReassignedKey | ConflictingKeys | LevelMismatch

fun first_index :: "('d \<Rightarrow> bool) \<Rightarrow> 'd list \<Rightarrow> nat option" where
  "first_index P [] = None"
| "first_index P (d # ds) = (if P d then Some 0 else map_option Suc (first_index P ds))"

definition exists_keys ::
    "bytes \<Rightarrow> bytes \<Rightarrow> MLDSAPublicKeyDocument list \<Rightarrow> mldsa_error + MLDSAPublicKeyExists" where
  "exists_keys hashedPublicKey legacyPublicKey ds =
     (if length hashedPublicKey \<noteq> 32 \<or> length legacyPublicKey \<noteq> 33 then Inl InvalidKeyLengths
      else (let hashedResult = first_index (\<lambda>d. mk_hashedPublicKey d = hashedPublicKey) ds;
                legacyResult = first_index (\<lambda>d. mk_legacyPublicKey d = legacyPublicKey) ds;
                same = (hashedResult \<noteq> None \<and> hashedResult = legacyResult)
            in Inr \<lparr>hashedExists = (hashedResult \<noteq> None), legacyExists = (legacyResult \<noteq> None),
                    sameId = same,
                    ex_level = (if same then Some (mk_level (ds ! the hashedResult)) else None),
                    publicKeyExists = (if same then Some (mk_exposedBlockHeight (ds ! the hashedResult) \<noteq> None)
                                       else None)\<rparr>))"

definition height_or_null :: "bigint option \<Rightarrow> bigint option" where
  "height_or_null h = (if truthy h then h else None)"

definition MLDSA_toDocument :: "IMLDSAPublicKey \<Rightarrow> bigint \<Rightarrow> MLDSAPublicKeyDocument" where
  "MLDSA_toDocument k inserted =
     \<lparr>mk_level = ik_level k, mk_hashedPublicKey = ik_hashedPublicKey k, mk_legacyPublicKey = ik_legacyPublicKey k,
      mk_tweakedPublicKey = ik_tweakedPublicKey k, mk_publicKey = ik_publicKey k,
      mk_insertedBlockHeight = inserted, mk_exposedBlockHeight = height_or_null (ik_exposedBlockHeight k)\<rparr>"

definition MLDSA_parseResult :: "MLDSAPublicKeyDocument \<Rightarrow> IMLDSAPublicKey" where
  "MLDSA_parseResult d =
     \<lparr>ik_level = mk_level d, ik_hashedPublicKey = mk_hashedPublicKey d, ik_legacyPublicKey = mk_legacyPublicKey d,
      ik_tweakedPublicKey = mk_tweakedPublicKey d, ik_publicKey = mk_publicKey d,
      ik_insertedBlockHeight = Some (mk_insertedBlockHeight d),
      ik_exposedBlockHeight = height_or_null (mk_exposedBlockHeight d)\<rparr>"

datatype bulk_operation = InsertOne MLDSAPublicKeyDocument | UpdateOne MLDSAPublicKeyDocument

definition key_operation :: "MLDSAUpdateData \<Rightarrow> mldsa_error + bulk_operation" where
  "key_operation key =
     (case ik_insertedBlockHeight (ud_data key) of
        None \<Rightarrow> Inl InsertedHeightRequired
      | Some h \<Rightarrow>
          if \<not> ud_exposePublicKey key then Inr (InsertOne (MLDSA_toDocument (ud_data key) h))
          else if length (ik_legacyPublicKey (ud_data key)) \<noteq> 33 then Inl LegacyKeyLength
          else Inr (UpdateOne (MLDSA_toDocument (ud_data key) h)))"

definition insertOne ::
    "MLDSAPublicKeyDocument \<Rightarrow> MLDSAPublicKeyDocument list \<Rightarrow> mldsa_error + MLDSAPublicKeyDocument list" where
  "insertOne d ds =
     (if \<exists>e \<in> set ds. mk_hashedPublicKey e = mk_hashedPublicKey d \<or> mk_legacyPublicKey e = mk_legacyPublicKey d
      then Inl DuplicateKey else Inr (ds @ [d]))"

definition matches_key :: "MLDSAPublicKeyDocument \<Rightarrow> MLDSAPublicKeyDocument \<Rightarrow> bool" where
  "matches_key d e \<longleftrightarrow> mk_hashedPublicKey e = mk_hashedPublicKey d \<and> mk_legacyPublicKey e = mk_legacyPublicKey d
     \<and> mk_tweakedPublicKey e = mk_tweakedPublicKey d"

definition set_exposed :: "MLDSAPublicKeyDocument \<Rightarrow> MLDSAPublicKeyDocument \<Rightarrow> MLDSAPublicKeyDocument" where
  "set_exposed d e = e\<lparr>mk_publicKey := mk_publicKey d, mk_exposedBlockHeight := mk_exposedBlockHeight d\<rparr>"

definition updateOne ::
    "MLDSAPublicKeyDocument \<Rightarrow> MLDSAPublicKeyDocument list \<Rightarrow> mldsa_error + MLDSAPublicKeyDocument list" where
  "updateOne d ds =
     (case first_index (matches_key d) ds of
        Some i \<Rightarrow> Inr (ds[i := set_exposed d (ds ! i)])
      | None \<Rightarrow> insertOne d ds)"

fun bulk_step ::
    "bulk_operation \<Rightarrow> MLDSAPublicKeyDocument list \<Rightarrow> mldsa_error + MLDSAPublicKeyDocument list" where
  "bulk_step (InsertOne d) ds = insertOne d ds"
| "bulk_step (UpdateOne d) ds = updateOne d ds"

text \<open>An ordered bulk write: the operations before the one that fails stay written.\<close>

fun bulkWrite ::
    "bulk_operation list \<Rightarrow> MLDSAPublicKeyDocument list \<Rightarrow> (mldsa_error + unit) \<times> MLDSAPublicKeyDocument list" where
  "bulkWrite [] ds = (Inr (), ds)"
| "bulkWrite (p # ops) ds = (case bulk_step p ds of Inl e \<Rightarrow> (Inl e, ds) | Inr ds' \<Rightarrow> bulkWrite ops ds')"

definition savePublicKeys ::
    "MLDSAUpdateData list \<Rightarrow> MLDSAPublicKeyDocument list \<Rightarrow> (mldsa_error + unit) \<times> MLDSAPublicKeyDocument list" where
  "savePublicKeys keys ds =
     (case res_map key_operation keys of Inl e \<Rightarrow> (Inl e, ds) | Inr ops \<Rightarrow> bulkWrite ops ds)"

definition getByHashedPublicKey :: "bytes \<Rightarrow> bigint \<Rightarrow> MLDSAPublicKeyDocument list \<Rightarrow> IMLDSAPublicKey option" where
  "getByHashedPublicKey h height ds =
     map_option MLDSA_parseResult
       (find (\<lambda>d. mk_hashedPublicKey d = h \<and> mk_insertedBlockHeight d \<le> height) ds)"

definition getByHashedOrLegacy :: "bytes \<Rightarrow> bigint \<Rightarrow> MLDSAPublicKeyDocument list \<Rightarrow> IMLDSAPublicKey option" where
  "getByHashedOrLegacy key height ds =
     map_option MLDSA_parseResult
       (find (\<lambda>d. mk_insertedBlockHeight d \<le> height
          \<and> (mk_hashedPublicKey d = key \<or> mk_legacyPublicKey d = key \<or> mk_tweakedPublicKey d = key)) ds)"

subsection \<open>The links of the current block\<close>

record mldsa_registry =
  mldsaToStore :: "(bytes, MLDSAUpdateData) js_map"
  mldsaToStoreLegacy :: "(bytes, bytes) js_map"
  mldsaToStoreByHash :: "(bytes, bytes) js_map"
  mldsaCache :: "(bytes, IMLDSAPublicKey option) js_map"
  mldsaCacheFromLegacy :: "(bytes, IMLDSAPublicKey option) js_map"

definition registry_empty :: mldsa_registry where
  "registry_empty = \<lparr>mldsaToStore = [], mldsaToStoreLegacy = [], mldsaToStoreByHash = [], mldsaCache = [],
     mldsaCacheFromLegacy = []\<rparr>"

definition validateMLDSALinkRequest ::
    "(bytes \<Rightarrow> bytes) \<Rightarrow> mldsa_registry \<Rightarrow> IMLDSAPublicKey \<Rightarrow> mldsa_error + bytes option" where
  "validateMLDSALinkRequest tweak r k =
     (case map_of (mldsaToStore r) (ik_hashedPublicKey k) of
        Some existingEntry \<Rightarrow>
          if ik_legacyPublicKey (ud_data existingEntry) = ik_legacyPublicKey k then Inr None
          else Inl HashPendingElsewhere
      | None \<Rightarrow>
          (let tweakedAddress = tweak (ik_legacyPublicKey k) in
           if map_of (mldsaToStoreLegacy r) tweakedAddress \<noteq> None then Inl LegacyKeyPending
           else (case map_of (mldsaToStoreByHash r) (ik_hashedPublicKey k) of
                   Some existingLegacyKey \<Rightarrow>
                     if existingLegacyKey \<noteq> ik_legacyPublicKey k then Inl HashPendingElsewhere
                     else Inr (Some tweakedAddress)
                 | None \<Rightarrow> Inr (Some tweakedAddress))))"

definition shouldInsertMLDSAKey ::
    "MLDSAPublicKeyDocument list \<Rightarrow> bytes \<Rightarrow> bytes \<Rightarrow> nat \<Rightarrow> bool \<Rightarrow> mldsa_error + bool" where
  "shouldInsertMLDSAKey ds hashedPublicKey legacyPublicKey level isExpose =
     res_bind (exists_keys hashedPublicKey legacyPublicKey ds) (\<lambda>ex.
       if hashedExists ex \<noteq> legacyExists ex then Inl ReassignedKey
       else if hashedExists ex \<and> legacyExists ex \<and> \<not> sameId ex then Inl ConflictingKeys
       else (let exist = hashedExists ex \<or> legacyExists ex in
             if exist \<and> ex_level ex \<noteq> Some level then Inl LevelMismatch
             else if isExpose \<and> publicKeyExists ex \<noteq> Some True then Inr False
             else Inr exist))"

definition record_link ::
    "bool \<Rightarrow> bytes \<Rightarrow> IMLDSAPublicKey \<Rightarrow> mldsa_registry \<Rightarrow> mldsa_registry" where
  "record_link expose tweakedAddress k r =
     r\<lparr>mldsaToStore := AList.update (ik_hashedPublicKey k) \<lparr>ud_exposePublicKey = expose, ud_data = k\<rparr> (mldsaToStore r),
       mldsaToStoreLegacy := AList.update tweakedAddress (ik_hashedPublicKey k) (mldsaToStoreLegacy r),
       mldsaToStoreByHash := AList.update (ik_hashedPublicKey k) (ik_legacyPublicKey k) (mldsaToStoreByHash r)\<rparr>"

definition link_key ::
    "(bytes \<Rightarrow> bytes) \<Rightarrow> MLDSAPublicKeyDocument list \<Rightarrow> bool \<Rightarrow> IMLDSAPublicKey \<Rightarrow> mldsa_registry
     \<Rightarrow> mldsa_error + mldsa_registry" where
  "link_key tweak ds expose k r =
     res_bind (validateMLDSALinkRequest tweak r k) (\<lambda>addresses.
       case addresses of
         None \<Rightarrow> Inr r
       | Some tweakedAddress \<Rightarrow>
           res_bind (shouldInsertMLDSAKey ds (ik_hashedPublicKey k) (ik_legacyPublicKey k) (ik_level k) expose)
             (\<lambda>exist. Inr (if \<not> exist then record_link expose tweakedAddress k r else r)))"

definition addMLDSAInfoToStore ::
    "(bytes \<Rightarrow> bytes) \<Rightarrow> MLDSAPublicKeyDocument list \<Rightarrow> bigint \<Rightarrow> IMLDSAPublicKey \<Rightarrow> mldsa_registry
     \<Rightarrow> mldsa_error + mldsa_registry" where
  "addMLDSAInfoToStore tweak ds height k r =
     (if ik_insertedBlockHeight k \<noteq> Some height then Inl KeyHeightMismatch else link_key tweak ds False k r)"

definition exposeMLDSAPublicKey ::
    "(bytes \<Rightarrow> bytes) \<Rightarrow> MLDSAPublicKeyDocument list \<Rightarrow> IMLDSAPublicKey \<Rightarrow> mldsa_registry
     \<Rightarrow> mldsa_error + mldsa_registry" where
  "exposeMLDSAPublicKey tweak ds k r =
     (if ik_publicKey k = None then Inl PublicKeyUndefined else link_key tweak ds True k r)"

definition getMLDSAPublicKey ::
    "MLDSAPublicKeyDocument list \<Rightarrow> bigint \<Rightarrow> bytes \<Rightarrow> mldsa_registry \<Rightarrow> IMLDSAPublicKey option \<times> mldsa_registry" where
  "getMLDSAPublicKey ds height a r =
     (case map_of (mldsaToStore r) a of
        Some u \<Rightarrow> (Some (ud_data u), r)
      | None \<Rightarrow>
          (case map_of (mldsaCache r) a of
             Some cached \<Rightarrow> (cached, r)
           | None \<Rightarrow> (let publicKeyData = getByHashedPublicKey a height ds
                     in (publicKeyData, r\<lparr>mldsaCache := AList.update a publicKeyData (mldsaCache r)\<rparr>))))"

definition getMLDSAPublicKeyFromLegacyKey ::
    "MLDSAPublicKeyDocument list \<Rightarrow> bigint \<Rightarrow> bytes \<Rightarrow> mldsa_registry \<Rightarrow> IMLDSAPublicKey option \<times> mldsa_registry" where
  "getMLDSAPublicKeyFromLegacyKey ds height tweakedPublicKey r =
     (case map_of (mldsaToStoreLegacy r) tweakedPublicKey of
        Some cachedAddress \<Rightarrow> (map_option ud_data (map_of (mldsaToStore r) cachedAddress), r)
      | None \<Rightarrow>
          (case map_of (mldsaCacheFromLegacy r) tweakedPublicKey of
             Some cached \<Rightarrow> (cached, r)
           | None \<Rightarrow> (let publicKeyData = getByHashedOrLegacy tweakedPublicKey height ds
                     in (publicKeyData,
                         r\<lparr>mldsaCacheFromLegacy := AList.update tweakedPublicKey publicKeyData (mldsaCacheFromLegacy r)\<rparr>))))"

subsection \<open>Link requests of a transaction\<close>

text \<open>
  \<open>SharedInteractionParameters.assignMLDSAToLegacy\<close>. The signature checks, the hash, the protocol and chain
  identifiers are parameters; \<open>originalKey\<close> is the sender's 33-byte key and the result is the
  address (hashed key, legacy key) the transaction then runs under.
\<close>

record signer_package =
  sg_verifySignature :: "bytes \<Rightarrow> bytes \<Rightarrow> bytes \<Rightarrow> bool"
  sg_verifyMLDSASignature :: "nat \<Rightarrow> bytes \<Rightarrow> bytes \<Rightarrow> bytes \<Rightarrow> bool"
  sg_sha256 :: "bytes \<Rightarrow> bytes"
  sg_tweak :: "bytes \<Rightarrow> bytes"
  sg_protocolId :: bytes
  sg_chainId :: bytes

record MLDSARequestData =
  lr_verifyRequest :: bool
  lr_publicKey :: "bytes option"
  lr_hashedPublicKey :: bytes
  lr_level :: nat
  lr_mldsaSignature :: "bytes option"
  lr_legacySignature :: bytes

datatype assign_error = InvalidLegacySignature | PublicKeyNotProvided | SignatureNotProvided | HashMismatch
  | TweakedKeyLength | OriginalKeyLength | InvalidMLDSASignature | NoLinkedKey | LinkError mldsa_error

definition link_message :: "signer_package \<Rightarrow> bytes \<Rightarrow> MLDSARequestData \<Rightarrow> bytes" where
  "link_message S originalKey q =
     [of_nat (lr_level q)] @ lr_hashedPublicKey q @ sg_tweak S originalKey @ originalKey @ sg_protocolId S @ sg_chainId S"

definition reveal_message :: "signer_package \<Rightarrow> bytes \<Rightarrow> MLDSARequestData \<Rightarrow> bytes \<Rightarrow> bytes" where
  "reveal_message S originalKey q publicKey =
     [of_nat (lr_level q)] @ lr_hashedPublicKey q @ publicKey @ sg_tweak S originalKey @ originalKey
       @ sg_protocolId S @ sg_chainId S"

definition lift_link :: "mldsa_error + mldsa_registry \<Rightarrow> mldsa_registry \<Rightarrow> (assign_error + unit) \<times> mldsa_registry" where
  "lift_link res r = (case res of Inl e \<Rightarrow> (Inl (LinkError e), r) | Inr r' \<Rightarrow> (Inr (), r'))"

definition verifyMLDSASignature ::
    "signer_package \<Rightarrow> MLDSAPublicKeyDocument list \<Rightarrow> bigint \<Rightarrow> MLDSARequestData \<Rightarrow> bytes \<Rightarrow> mldsa_registry
     \<Rightarrow> (assign_error + unit) \<times> mldsa_registry" where
  "verifyMLDSASignature S ds height q originalKey r =
     (case (lr_publicKey q, lr_mldsaSignature q) of
        (None, _) \<Rightarrow> (Inl PublicKeyNotProvided, r)
      | (_, None) \<Rightarrow> (Inl SignatureNotProvided, r)
      | (Some publicKey, Some mldsaSignature) \<Rightarrow>
          if sg_sha256 S publicKey \<noteq> lr_hashedPublicKey q then (Inl HashMismatch, r)
          else if length (sg_tweak S originalKey) \<noteq> 32 then (Inl TweakedKeyLength, r)
          else if length originalKey \<noteq> 33 then (Inl OriginalKeyLength, r)
          else if \<not> sg_verifyMLDSASignature S (lr_level q) publicKey (reveal_message S originalKey q publicKey) mldsaSignature
          then (Inl InvalidMLDSASignature, r)
          else lift_link (exposeMLDSAPublicKey (sg_tweak S) ds
                 \<lparr>ik_level = lr_level q, ik_hashedPublicKey = lr_hashedPublicKey q, ik_legacyPublicKey = originalKey,
                  ik_tweakedPublicKey = sg_tweak S originalKey, ik_publicKey = Some publicKey,
                  ik_insertedBlockHeight = Some height, ik_exposedBlockHeight = Some height\<rparr> r) r)"

definition regenerateProvenance ::
    "signer_package \<Rightarrow> MLDSAPublicKeyDocument list \<Rightarrow> bigint \<Rightarrow> bytes \<Rightarrow> mldsa_registry
     \<Rightarrow> (assign_error + bytes \<times> bytes) \<times> mldsa_registry" where
  "regenerateProvenance S ds height originalKey r =
     (case getMLDSAPublicKeyFromLegacyKey ds height (sg_tweak S originalKey) r of
        (None, r') \<Rightarrow> (Inl NoLinkedKey, r')
      | (Some keyData, r') \<Rightarrow> (Inr (ik_hashedPublicKey keyData, sg_tweak S originalKey), r'))"

definition assignMLDSAToLegacy ::
    "signer_package \<Rightarrow> MLDSAPublicKeyDocument list \<Rightarrow> bigint \<Rightarrow> bytes \<Rightarrow> MLDSARequestData option \<Rightarrow> mldsa_registry
     \<Rightarrow> (assign_error + bytes \<times> bytes) \<times> mldsa_registry" where
  "assignMLDSAToLegacy S ds height originalKey mldsaLinkRequest r =
     (case mldsaLinkRequest of
        None \<Rightarrow> regenerateProvenance S ds height originalKey r
      | Some q \<Rightarrow>
          if \<not> sg_verifySignature S (sg_tweak S originalKey) (link_message S originalKey q) (lr_legacySignature q)
          then (Inl InvalidLegacySignature, r)
          else (case (if lr_verifyRequest q then verifyMLDSASignature S ds height q originalKey r
                      else lift_link (addMLDSAInfoToStore (sg_tweak S) ds height
                        \<lparr>ik_level = lr_level q, ik_hashedPublicKey = lr_hashedPublicKey q, ik_legacyPublicKey = originalKey,
                         ik_tweakedPublicKey = sg_tweak S originalKey, ik_publicKey = None,
                         ik_insertedBlockHeight = Some height, ik_exposedBlockHeight = None\<rparr> r) r) of
                  (Inl e, r') \<Rightarrow> (Inl e, r')
                | (Inr _, r') \<Rightarrow> (Inr (lr_hashedPublicKey q, originalKey), r')))"

subsection \<open>Keys and their documents\<close>

definition keys_ok :: "(bytes \<Rightarrow> bytes) \<Rightarrow> MLDSAPublicKeyDocument list \<Rightarrow> bool" where
  "keys_ok tweak ds \<longleftrightarrow> distinct (map mk_hashedPublicKey ds) \<and> distinct (map mk_legacyPublicKey ds)
     \<and> (\<forall>d \<in> set ds. mk_tweakedPublicKey d = tweak (mk_legacyPublicKey d)
          \<and> (mk_exposedBlockHeight d = None \<longrightarrow> mk_publicKey d = None))"

definition key_at :: "MLDSAPublicKeyDocument list \<Rightarrow> bytes \<Rightarrow> MLDSAPublicKeyDocument option" where
  "key_at ds h = find (\<lambda>d. mk_hashedPublicKey d = h) ds"

lemma first_index_None: "first_index P ds = None \<longleftrightarrow> (\<forall>d \<in> set ds. \<not> P d)"
  by (induction ds) auto

lemma first_index_Some: "first_index P ds = Some i \<Longrightarrow> i < length ds \<and> P (ds ! i)"
  by (induction ds arbitrary: i) (auto split: if_splits)

lemma key_at_Some: "key_at ds h = Some d \<Longrightarrow> d \<in> set ds \<and> mk_hashedPublicKey d = h"
  by (auto simp: key_at_def find_Some_iff)

lemma key_at_None: "key_at ds h = None \<longleftrightarrow> (\<forall>d \<in> set ds. mk_hashedPublicKey d \<noteq> h)"
  by (auto simp: key_at_def find_None_iff)

lemma key_at_mem:
  assumes "distinct (map mk_hashedPublicKey ds)" "d \<in> set ds"
  shows "key_at ds (mk_hashedPublicKey d) = Some d"
proof (cases "key_at ds (mk_hashedPublicKey d)")
  case None
  then show ?thesis using assms(2) by (auto simp: key_at_None)
next
  case (Some e)
  then have "e \<in> set ds" "mk_hashedPublicKey e = mk_hashedPublicKey d" by (auto dest: key_at_Some)
  with assms have "e = d" by (auto simp: distinct_map inj_on_def)
  with Some show ?thesis by simp
qed

lemma key_at_append: "key_at (ds @ [d]) h =
    (case key_at ds h of Some e \<Rightarrow> Some e | None \<Rightarrow> if mk_hashedPublicKey d = h then Some d else None)"
  by (induction ds) (auto simp: key_at_def)

lemma nth_eq_key:
  "distinct (map mk_hashedPublicKey ds) \<Longrightarrow> i < length ds \<Longrightarrow> j < length ds \<Longrightarrow>
    mk_hashedPublicKey (ds ! i) = mk_hashedPublicKey (ds ! j) \<Longrightarrow> i = j"
  by (simp add: distinct_conv_nth) blast

lemma key_at_update:
  assumes "distinct (map mk_hashedPublicKey ds)" "i < length ds" "mk_hashedPublicKey e = mk_hashedPublicKey (ds ! i)"
  shows "key_at (ds[i := e]) h = (if mk_hashedPublicKey e = h then Some e else key_at ds h)"
proof -
  have m: "map mk_hashedPublicKey (ds[i := e]) = map mk_hashedPublicKey ds"
    using assms(2,3) by (simp add: map_update list_update_same_conv)
  then have dist: "distinct (map mk_hashedPublicKey (ds[i := e]))" using assms(1) by simp
  show ?thesis
  proof (cases "mk_hashedPublicKey e = h")
    case True
    then show ?thesis using key_at_mem [OF dist, of e] assms(2) by (simp add: set_update_memI)
  next
    case False
    show ?thesis
    proof (cases "key_at ds h")
      case None
      then have "h \<notin> set (map mk_hashedPublicKey ds)" by (auto simp: key_at_None)
      then have "key_at (ds[i := e]) h = None" unfolding key_at_None m [symmetric] by auto
      then show ?thesis using None False by simp
    next
      case (Some d)
      then obtain j where j: "j < length ds" "d = ds ! j" "mk_hashedPublicKey d = h"
        by (auto dest!: key_at_Some simp: in_set_conv_nth)
      then have "j \<noteq> i" using False assms(3) by auto
      then have "d \<in> set (ds[i := e])" using j(1,2) by (metis length_list_update nth_list_update_neq nth_mem)
      then show ?thesis using key_at_mem [OF dist] j(3) Some False by fastforce
    qed
  qed
qed

text \<open>What an accepted request means for the documents already stored.\<close>

definition unlinked :: "MLDSAPublicKeyDocument list \<Rightarrow> bytes \<Rightarrow> bytes \<Rightarrow> bool" where
  "unlinked ds h l \<longleftrightarrow> (\<forall>d \<in> set ds. mk_hashedPublicKey d \<noteq> h \<and> mk_legacyPublicKey d \<noteq> l)"

lemma shouldInsert_cases:
  assumes "shouldInsertMLDSAKey ds h l lvl expose = Inr exist"
  shows "length h = 32 \<and> length l = 33
    \<and> (unlinked ds h l \<and> \<not> exist
       \<or> (\<exists>d \<in> set ds. mk_hashedPublicKey d = h \<and> mk_legacyPublicKey d = l \<and> mk_level d = lvl
            \<and> (exist \<longleftrightarrow> expose \<longrightarrow> mk_exposedBlockHeight d \<noteq> None)))"
proof -
  let ?i = "first_index (\<lambda>d. mk_hashedPublicKey d = h) ds" and ?j = "first_index (\<lambda>d. mk_legacyPublicKey d = l) ds"
  have len: "length h = 32" "length l = 33"
    using assms by (auto simp: shouldInsertMLDSAKey_def exists_keys_def split: if_splits)
  show ?thesis
  proof (cases ?i)
    case None
    then have "?j = None"
      using assms len by (simp add: shouldInsertMLDSAKey_def exists_keys_def Let_def split: if_splits)
    moreover from this None have "unlinked ds h l" by (auto simp: first_index_None unlinked_def)
    ultimately show ?thesis using None assms len
      by (auto simp: shouldInsertMLDSAKey_def exists_keys_def Let_def split: if_splits)
  next
    case (Some i)
    then have j: "?j = Some i"
      using assms len by (auto simp: shouldInsertMLDSAKey_def exists_keys_def Let_def split: if_splits)
    then have "mk_level (ds ! i) = lvl" "exist \<longleftrightarrow> expose \<longrightarrow> mk_exposedBlockHeight (ds ! i) \<noteq> None"
      using Some assms len
      by (auto simp: shouldInsertMLDSAKey_def exists_keys_def Let_def split: if_splits)
    moreover have "ds ! i \<in> set ds" "mk_hashedPublicKey (ds ! i) = h" "mk_legacyPublicKey (ds ! i) = l"
      using first_index_Some [OF Some] first_index_Some [OF j] by simp_all
    ultimately show ?thesis using len by blast
  qed
qed

text \<open>
  A pending link: either neither key is stored, or the link is stored without its public key and the
  request reveals it.
\<close>

definition request_ok :: "(bytes \<Rightarrow> bytes) \<Rightarrow> bigint \<Rightarrow> bool \<Rightarrow> IMLDSAPublicKey \<Rightarrow> bool" where
  "request_ok tweak n expose k \<longleftrightarrow> ik_insertedBlockHeight k = Some n \<and> ik_tweakedPublicKey k = tweak (ik_legacyPublicKey k)
     \<and> (if expose then ik_publicKey k \<noteq> None \<and> ik_exposedBlockHeight k = Some n
        else ik_publicKey k = None \<and> ik_exposedBlockHeight k = None)"

definition revealable :: "MLDSAPublicKeyDocument list \<Rightarrow> IMLDSAPublicKey \<Rightarrow> bool" where
  "revealable ds k \<longleftrightarrow> (\<exists>d \<in> set ds. mk_hashedPublicKey d = ik_hashedPublicKey k
     \<and> mk_legacyPublicKey d = ik_legacyPublicKey k \<and> mk_level d = ik_level k \<and> mk_exposedBlockHeight d = None)"

definition pending_ok ::
    "(bytes \<Rightarrow> bytes) \<Rightarrow> bigint \<Rightarrow> MLDSAPublicKeyDocument list \<Rightarrow> bytes \<times> MLDSAUpdateData \<Rightarrow> bool" where
  "pending_ok tweak n ds p \<longleftrightarrow> (let u = snd p; k = ud_data u in
     fst p = ik_hashedPublicKey k \<and> length (ik_legacyPublicKey k) = 33 \<and> request_ok tweak n (ud_exposePublicKey u) k
     \<and> (unlinked ds (ik_hashedPublicKey k) (ik_legacyPublicKey k) \<or> ud_exposePublicKey u \<and> revealable ds k))"

definition registry_ok ::
    "(bytes \<Rightarrow> bytes) \<Rightarrow> bigint \<Rightarrow> MLDSAPublicKeyDocument list \<Rightarrow> mldsa_registry \<Rightarrow> bool" where
  "registry_ok tweak n ds r \<longleftrightarrow> js_map_ok (mldsaToStore r)
     \<and> (\<forall>p \<in> set (mldsaToStore r). pending_ok tweak n ds p
          \<and> map_of (mldsaToStoreLegacy r) (tweak (ik_legacyPublicKey (ud_data (snd p)))) = Some (fst p))"

lemma registry_empty_ok: "registry_ok tweak n ds registry_empty"
  by (simp add: registry_ok_def registry_empty_def)

lemma link_key_cases:
  assumes "link_key tweak ds expose k r = Inr r'"
  shows "r' = r \<or> (r' = record_link expose (tweak (ik_legacyPublicKey k)) k r
     \<and> map_of (mldsaToStore r) (ik_hashedPublicKey k) = None
     \<and> map_of (mldsaToStoreLegacy r) (tweak (ik_legacyPublicKey k)) = None
     \<and> length (ik_legacyPublicKey k) = 33
     \<and> (unlinked ds (ik_hashedPublicKey k) (ik_legacyPublicKey k) \<or> expose \<and> revealable ds k))"
proof (cases "r' = r")
  case False
  then obtain t where v: "validateMLDSALinkRequest tweak r k = Inr (Some t)"
    and s: "shouldInsertMLDSAKey ds (ik_hashedPublicKey k) (ik_legacyPublicKey k) (ik_level k) expose = Inr False"
    and r': "r' = record_link expose t k r"
    using assms by (auto simp: link_key_def split: option.splits if_splits)
  have "t = tweak (ik_legacyPublicKey k)" "map_of (mldsaToStore r) (ik_hashedPublicKey k) = None"
    "map_of (mldsaToStoreLegacy r) (tweak (ik_legacyPublicKey k)) = None"
    using v by (auto simp: validateMLDSALinkRequest_def Let_def split: option.splits if_splits)
  then show ?thesis using r' shouldInsert_cases [OF s] by (auto simp: revealable_def)
qed simp

lemma record_link_ok:
  assumes "registry_ok tweak n ds r" "request_ok tweak n expose k"
    "map_of (mldsaToStore r) (ik_hashedPublicKey k) = None"
    "map_of (mldsaToStoreLegacy r) (tweak (ik_legacyPublicKey k)) = None"
    "length (ik_legacyPublicKey k) = 33"
    "unlinked ds (ik_hashedPublicKey k) (ik_legacyPublicKey k) \<or> expose \<and> revealable ds k"
  shows "registry_ok tweak n ds (record_link expose (tweak (ik_legacyPublicKey k)) k r)"
proof -
  have fresh: "ik_hashedPublicKey k \<notin> set (map fst (mldsaToStore r))"
    using assms(3) by (simp add: map_of_eq_None_iff)
  have "tweak (ik_legacyPublicKey (ud_data (snd p))) \<noteq> tweak (ik_legacyPublicKey k)"
    if "p \<in> set (mldsaToStore r)" for p
    using assms(1,4) that by (force simp: registry_ok_def)
  then show ?thesis using assms fresh
    by (auto simp: registry_ok_def record_link_def update_fresh_append pending_ok_def Let_def update_conv)
qed

lemma link_key_ok:
  assumes "registry_ok tweak n ds r" "request_ok tweak n expose k" "link_key tweak ds expose k r = Inr r'"
  shows "registry_ok tweak n ds r'"
  using link_key_cases [OF assms(3)] record_link_ok [OF assms(1,2)] assms(1) by blast

lemma registry_pending:
  "registry_ok tweak n ds r \<Longrightarrow> p \<in> set (mldsaToStore r) \<Longrightarrow>
    map_of (mldsaToStoreLegacy r) (tweak (ik_legacyPublicKey (ud_data (snd p)))) = Some (fst p)"
  by (simp add: registry_ok_def)

text \<open>Different pending links have different hashed and different legacy keys.\<close>

lemma pending_legacy_distinct:
  assumes "registry_ok tweak n ds r"
  shows "distinct (map (\<lambda>p. ik_legacyPublicKey (ud_data (snd p))) (mldsaToStore r))"
proof -
  have "p = q" if "p \<in> set (mldsaToStore r)" "q \<in> set (mldsaToStore r)"
    "ik_legacyPublicKey (ud_data (snd p)) = ik_legacyPublicKey (ud_data (snd q))" for p q
  proof -
    have "Some (fst p) = Some (fst q)"
      using registry_pending [OF assms that(1)] registry_pending [OF assms that(2)] that(3) by metis
    then have "fst p = fst q" by simp
    then show ?thesis using assms that by (auto simp: registry_ok_def distinct_map inj_on_def)
  qed
  then show ?thesis using assms by (auto simp: registry_ok_def distinct_map inj_on_def)
qed

subsection \<open>Writing the links of a block\<close>

definition link_document :: "bigint \<Rightarrow> MLDSAUpdateData \<Rightarrow> MLDSAPublicKeyDocument" where
  "link_document n u = MLDSA_toDocument (ud_data u) n"

definition written_key ::
    "bigint \<Rightarrow> MLDSAUpdateData \<Rightarrow> MLDSAPublicKeyDocument option \<Rightarrow> MLDSAPublicKeyDocument" where
  "written_key n u stored =
     (case stored of None \<Rightarrow> link_document n u | Some d \<Rightarrow> set_exposed (link_document n u) d)"

definition link_written ::
    "(bytes \<Rightarrow> bytes) \<Rightarrow> bigint \<Rightarrow> bytes \<times> MLDSAUpdateData \<Rightarrow> MLDSAPublicKeyDocument list
     \<Rightarrow> MLDSAPublicKeyDocument list \<Rightarrow> bool" where
  "link_written tweak n p ds ds1 \<longleftrightarrow> keys_ok tweak ds1
     \<and> (\<forall>h. key_at ds1 h = (if h = fst p then Some (written_key n (snd p) (key_at ds h)) else key_at ds h))
     \<and> MLDSA_deleteFromBlockHeight n ds1 = MLDSA_deleteFromBlockHeight n ds
     \<and> (\<forall>q. pending_ok tweak n ds q \<and> fst q \<noteq> fst p
          \<and> ik_legacyPublicKey (ud_data (snd q)) \<noteq> ik_legacyPublicKey (ud_data (snd p)) \<longrightarrow> pending_ok tweak n ds1 q)"

lemma link_document_simps [simp]:
  "mk_hashedPublicKey (link_document n u) = ik_hashedPublicKey (ud_data u)"
  "mk_legacyPublicKey (link_document n u) = ik_legacyPublicKey (ud_data u)"
  "mk_tweakedPublicKey (link_document n u) = ik_tweakedPublicKey (ud_data u)"
  "mk_level (link_document n u) = ik_level (ud_data u)"
  "mk_publicKey (link_document n u) = ik_publicKey (ud_data u)"
  "mk_insertedBlockHeight (link_document n u) = n"
  by (simp_all add: link_document_def MLDSA_toDocument_def)

lemma link_document_exposed:
  "request_ok tweak n (ud_exposePublicKey u) (ud_data u) \<Longrightarrow> n \<noteq> 0 \<Longrightarrow>
    mk_exposedBlockHeight (link_document n u) = (if ud_exposePublicKey u then Some n else None)"
  by (simp add: link_document_def MLDSA_toDocument_def request_ok_def height_or_null_def truthy_def)

lemma set_exposed_simps [simp]:
  "mk_hashedPublicKey (set_exposed d e) = mk_hashedPublicKey e"
  "mk_legacyPublicKey (set_exposed d e) = mk_legacyPublicKey e"
  "mk_tweakedPublicKey (set_exposed d e) = mk_tweakedPublicKey e"
  "mk_level (set_exposed d e) = mk_level e"
  "mk_exposedBlockHeight (set_exposed d e) = mk_exposedBlockHeight d"
  "mk_publicKey (set_exposed d e) = mk_publicKey d"
  by (simp_all add: set_exposed_def)

lemma insert_link_written:
  assumes ds: "keys_ok tweak ds" and p: "pending_ok tweak n ds p" and n: "n \<noteq> 0"
    and u: "unlinked ds (fst p) (ik_legacyPublicKey (ud_data (snd p)))"
  shows "link_written tweak n p ds (ds @ [link_document n (snd p)])"
proof -
  let ?d = "link_document n (snd p)"
  have fst: "fst p = ik_hashedPublicKey (ud_data (snd p))"
    and r: "request_ok tweak n (ud_exposePublicKey (snd p)) (ud_data (snd p))"
    using p by (simp_all add: pending_ok_def Let_def)
  have none: "key_at ds (fst p) = None" using u by (auto simp: key_at_None unlinked_def)
  have "keys_ok tweak (ds @ [?d])"
    using ds u r link_document_exposed [OF r n] fst
    by (auto simp: keys_ok_def unlinked_def request_ok_def split: if_splits)
  moreover have "key_at (ds @ [?d]) h =
      (if h = fst p then Some (written_key n (snd p) (key_at ds h)) else key_at ds h)" for h
    using none fst by (auto simp: key_at_append written_key_def split: option.splits)
  moreover have "MLDSA_deleteFromBlockHeight n (ds @ [?d]) = MLDSA_deleteFromBlockHeight n ds"
    by (simp add: MLDSA_deleteFromBlockHeight_def nullPublicKeyFromBlockHeight_def delete_from_def)
  moreover have "pending_ok tweak n (ds @ [?d]) q" if "pending_ok tweak n ds q" "fst q \<noteq> fst p"
    "ik_legacyPublicKey (ud_data (snd q)) \<noteq> ik_legacyPublicKey (ud_data (snd p))" for q
    using that fst by (auto simp: pending_ok_def Let_def unlinked_def revealable_def)
  ultimately show ?thesis by (simp add: link_written_def)
qed

lemma expose_link_written:
  assumes ds: "keys_ok tweak ds" and p: "pending_ok tweak n ds p" and n: "n \<noteq> 0"
    and e: "ud_exposePublicKey (snd p)" and i: "i < length ds" "mk_hashedPublicKey (ds ! i) = fst p"
    "mk_legacyPublicKey (ds ! i) = ik_legacyPublicKey (ud_data (snd p))" "mk_exposedBlockHeight (ds ! i) = None"
  shows "link_written tweak n p ds (ds[i := set_exposed (link_document n (snd p)) (ds ! i)])"
proof -
  let ?d = "set_exposed (link_document n (snd p)) (ds ! i)"
  have r: "request_ok tweak n True (ud_data (snd p))" using p e by (simp add: pending_ok_def Let_def)
  then have x: "mk_exposedBlockHeight ?d = Some n" using link_document_exposed [of tweak n "snd p"] n e by simp
  have dist: "distinct (map mk_hashedPublicKey ds)" using ds by (simp add: keys_ok_def)
  have di: "ds ! i \<in> set ds" using i(1) by simp
  have at: "key_at ds (fst p) = Some (ds ! i)" using key_at_mem [OF dist di] i(2) by simp
  have "map mk_hashedPublicKey (ds[i := ?d]) = map mk_hashedPublicKey ds"
    "map mk_legacyPublicKey (ds[i := ?d]) = map mk_legacyPublicKey ds"
    using i(1) by (simp_all add: map_update list_update_same_conv)
  then have "keys_ok tweak (ds[i := ?d])"
    using ds di x by (auto simp: keys_ok_def dest!: set_update_subset_insert [THEN subsetD])
  moreover have "key_at (ds[i := ?d]) h =
      (if h = fst p then Some (written_key n (snd p) (key_at ds h)) else key_at ds h)" for h
    using key_at_update [OF dist i(1), of ?d h] at i(2) by (auto simp: written_key_def)
  moreover have "MLDSA_deleteFromBlockHeight n (ds[i := ?d]) = MLDSA_deleteFromBlockHeight n ds"
  proof -
    have "mk_publicKey (ds ! i) = None" using ds di i(4) by (auto simp: keys_ok_def)
    then have "null_exposed (\<lambda>h. n \<le> h) ?d = null_exposed (\<lambda>h. n \<le> h) (ds ! i)"
      using i(4) x by (simp add: null_exposed_def set_exposed_def)
    then have "nullPublicKeyFromBlockHeight n (ds[i := ?d]) = nullPublicKeyFromBlockHeight n ds"
      using i(1) by (simp add: nullPublicKeyFromBlockHeight_def map_update list_update_same_conv)
    then show ?thesis by (simp add: MLDSA_deleteFromBlockHeight_def)
  qed
  moreover have "pending_ok tweak n (ds[i := ?d]) q" if q: "pending_ok tweak n ds q" "fst q \<noteq> fst p"
    "ik_legacyPublicKey (ud_data (snd q)) \<noteq> ik_legacyPublicKey (ud_data (snd p))" for q
  proof -
    have "unlinked ds h l \<Longrightarrow> unlinked (ds[i := ?d]) h l" for h l
      using di by (auto simp: unlinked_def dest!: set_update_subset_insert [THEN subsetD])
    moreover have "revealable (ds[i := ?d]) k" if "revealable ds k" "ik_hashedPublicKey k \<noteq> fst p" for k
    proof -
      obtain d where d: "d \<in> set ds" "mk_hashedPublicKey d = ik_hashedPublicKey k"
        "mk_legacyPublicKey d = ik_legacyPublicKey k" "mk_level d = ik_level k" "mk_exposedBlockHeight d = None"
        using \<open>revealable ds k\<close> by (auto simp: revealable_def)
      then obtain j where j: "j < length ds" "d = ds ! j" by (auto simp: in_set_conv_nth)
      then have "j \<noteq> i" using d(2) that(2) i(2) by auto
      then have "d \<in> set (ds[i := ?d])" using j by (metis length_list_update nth_list_update_neq nth_mem)
      then show ?thesis using d by (auto simp: revealable_def)
    qed
    ultimately show ?thesis using q by (auto simp: pending_ok_def Let_def)
  qed
  ultimately show ?thesis by (simp add: link_written_def)
qed

lemma pending_written:
  assumes ds: "keys_ok tweak ds" and p: "pending_ok tweak n ds p" and n: "n \<noteq> 0"
  obtains p' ds1 where "key_operation (snd p) = Inr p'" "bulk_step p' ds = Inr ds1" "link_written tweak n p ds ds1"
proof -
  let ?u = "snd p" and ?d = "link_document n (snd p)"
  have fst: "fst p = ik_hashedPublicKey (ud_data ?u)" and len: "length (ik_legacyPublicKey (ud_data ?u)) = 33"
    and r: "request_ok tweak n (ud_exposePublicKey ?u) (ud_data ?u)"
    and c: "unlinked ds (fst p) (ik_legacyPublicKey (ud_data ?u)) \<or> ud_exposePublicKey ?u \<and> revealable ds (ud_data ?u)"
    using p by (simp_all add: pending_ok_def Let_def)
  have op: "key_operation ?u = Inr ((if ud_exposePublicKey ?u then UpdateOne else InsertOne) ?d)"
    using r len by (simp add: key_operation_def request_ok_def link_document_def)
  show thesis
  proof (cases "unlinked ds (fst p) (ik_legacyPublicKey (ud_data ?u))")
    case True
    then have ins: "insertOne ?d ds = Inr (ds @ [?d])" using fst by (auto simp: insertOne_def unlinked_def)
    moreover have "first_index (matches_key ?d) ds = None"
      using True fst by (auto simp: first_index_None matches_key_def unlinked_def)
    ultimately have "bulk_step ((if ud_exposePublicKey ?u then UpdateOne else InsertOne) ?d) ds = Inr (ds @ [?d])"
      by (simp add: updateOne_def)
    then show thesis using that op insert_link_written [OF ds p n True] by blast
  next
    case False
    with c have e: "ud_exposePublicKey ?u" and "revealable ds (ud_data ?u)" by blast+
    then obtain d where d: "d \<in> set ds" "mk_hashedPublicKey d = fst p" "mk_exposedBlockHeight d = None"
      "mk_legacyPublicKey d = ik_legacyPublicKey (ud_data ?u)" using fst by (auto simp: revealable_def)
    then have "matches_key ?d d" using ds r fst by (auto simp: matches_key_def keys_ok_def request_ok_def)
    then obtain i where i: "first_index (matches_key ?d) ds = Some i" using d(1) first_index_None by fastforce
    then have im: "i < length ds" "matches_key ?d (ds ! i)" by (auto dest: first_index_Some)
    have "ds ! i = d"
      using im d(1,2) fst key_at_mem [of ds "ds ! i"] key_at_mem [of ds d] ds by (simp add: keys_ok_def matches_key_def)
    then have "link_written tweak n p ds (ds[i := set_exposed ?d (ds ! i)])"
      using expose_link_written [OF ds p n e im(1)] d by simp
    then show thesis using that op e i by (simp add: updateOne_def)
  qed
qed

lemma pending_links_written:
  assumes "keys_ok tweak ds" "\<forall>p \<in> set ps. pending_ok tweak n ds p" "n \<noteq> 0" "distinct (map fst ps)"
    "distinct (map (\<lambda>p. ik_legacyPublicKey (ud_data (snd p))) ps)"
  shows "\<exists>ds'. savePublicKeys (map snd ps) ds = (Inr (), ds') \<and> keys_ok tweak ds'
    \<and> (\<forall>h. key_at ds' h = (case map_of ps h of None \<Rightarrow> key_at ds h | Some u \<Rightarrow> Some (written_key n u (key_at ds h))))
    \<and> MLDSA_deleteFromBlockHeight n ds' = MLDSA_deleteFromBlockHeight n ds"
  using assms
proof (induction ps arbitrary: ds)
  case (Cons p ps)
  obtain p' ds1 where p': "key_operation (snd p) = Inr p'" "bulk_step p' ds = Inr ds1"
    and w: "link_written tweak n p ds ds1"
    using pending_written [OF Cons.prems(1) _ Cons.prems(3), of p] Cons.prems(2) by auto
  have other: "fst q \<noteq> fst p" "ik_legacyPublicKey (ud_data (snd q)) \<noteq> ik_legacyPublicKey (ud_data (snd p))"
    if "q \<in> set ps" for q using Cons.prems(4,5) that by (force simp: image_iff)+
  have "\<forall>q \<in> set ps. pending_ok tweak n ds1 q"
    using w other Cons.prems(2) unfolding link_written_def by (meson list.set_intros(2))
  then obtain ds' where ds': "savePublicKeys (map snd ps) ds1 = (Inr (), ds')" "keys_ok tweak ds'"
    "\<forall>h. key_at ds' h = (case map_of ps h of None \<Rightarrow> key_at ds1 h | Some u \<Rightarrow> Some (written_key n u (key_at ds1 h)))"
    "MLDSA_deleteFromBlockHeight n ds' = MLDSA_deleteFromBlockHeight n ds1"
    using Cons.IH [of ds1] w Cons.prems(3,4,5) by (auto simp: link_written_def)
  have "savePublicKeys (map snd (p # ps)) ds = (Inr (), ds')"
    using ds'(1) p' by (auto simp: savePublicKeys_def split: sum.splits)
  moreover have "map_of ps (fst p) = None" using other by (force simp: map_of_eq_None_iff)
  then have "key_at ds' h = (case map_of (p # ps) h of None \<Rightarrow> key_at ds h | Some u \<Rightarrow> Some (written_key n u (key_at ds h)))" for h
    using ds'(3) w by (cases p) (auto simp: link_written_def split: option.splits)
  ultimately show ?case using ds'(2,4) w by (auto simp: link_written_def)
qed (auto simp: savePublicKeys_def)

text \<open>The link requests of the transactions of one block, in order; a request that throws changes no map.\<close>

definition process_link ::
    "signer_package \<Rightarrow> MLDSAPublicKeyDocument list \<Rightarrow> bigint \<Rightarrow> bytes \<times> MLDSARequestData option \<Rightarrow> mldsa_registry
     \<Rightarrow> mldsa_registry" where
  "process_link S ds n tx r = snd (assignMLDSAToLegacy S ds n (fst tx) (snd tx) r)"

lemma registry_ok_pending_cong:
  "mldsaToStore r = mldsaToStore r' \<Longrightarrow> mldsaToStoreLegacy r = mldsaToStoreLegacy r' \<Longrightarrow>
    registry_ok tweak n ds r = registry_ok tweak n ds r'"
  by (simp add: registry_ok_def)

lemma getFromLegacy_pending:
  "getMLDSAPublicKeyFromLegacyKey ds height t r = (k, r') \<Longrightarrow>
    mldsaToStore r' = mldsaToStore r \<and> mldsaToStoreLegacy r' = mldsaToStoreLegacy r"
  by (auto simp: getMLDSAPublicKeyFromLegacyKey_def Let_def split: option.splits)

lemma lift_link_ok:
  assumes "registry_ok tweak n ds r" "\<And>r'. res = Inr r' \<Longrightarrow> registry_ok tweak n ds r'"
  shows "registry_ok tweak n ds (snd (lift_link res r))"
  using assms by (auto simp: lift_link_def split: sum.splits)

lemma add_ok:
  "registry_ok tweak n ds r \<Longrightarrow> request_ok tweak n False k \<Longrightarrow> addMLDSAInfoToStore tweak ds n k r = Inr r' \<Longrightarrow>
    registry_ok tweak n ds r'"
  by (auto simp: addMLDSAInfoToStore_def split: if_splits intro: link_key_ok)

lemma expose_ok:
  "registry_ok tweak n ds r \<Longrightarrow> request_ok tweak n True k \<Longrightarrow> exposeMLDSAPublicKey tweak ds k r = Inr r' \<Longrightarrow>
    registry_ok tweak n ds r'"
  by (auto simp: exposeMLDSAPublicKey_def split: if_splits intro: link_key_ok)

lemma verify_ok:
  assumes "registry_ok (sg_tweak S) n ds r"
  shows "registry_ok (sg_tweak S) n ds (snd (verifyMLDSASignature S ds n q originalKey r))"
proof -
  have "registry_ok (sg_tweak S) n ds (snd (lift_link (exposeMLDSAPublicKey (sg_tweak S) ds k r) r))"
    if "request_ok (sg_tweak S) n True k" for k
    using assms that expose_ok by (blast intro: lift_link_ok)
  then show ?thesis using assms
    by (simp add: verifyMLDSASignature_def request_ok_def split: option.splits)
qed

lemma process_link_ok:
  assumes "registry_ok (sg_tweak S) n ds r"
  shows "registry_ok (sg_tweak S) n ds (process_link S ds n tx r)"
proof -
  have "registry_ok (sg_tweak S) n ds (snd (lift_link (addMLDSAInfoToStore (sg_tweak S) ds n k r) r))"
    if "request_ok (sg_tweak S) n False k" for k
    using assms that add_ok by (blast intro: lift_link_ok)
  moreover have "registry_ok (sg_tweak S) n ds (snd (regenerateProvenance S ds n (fst tx) r))"
  proof -
    obtain k r' where g: "getMLDSAPublicKeyFromLegacyKey ds n (sg_tweak S (fst tx)) r = (k, r')" by force
    then have "snd (regenerateProvenance S ds n (fst tx) r) = r'"
      by (simp add: regenerateProvenance_def split: option.splits)
    then show ?thesis using assms registry_ok_pending_cong getFromLegacy_pending [OF g] by metis
  qed
  moreover have *: "snd (case x of (Inl e, r') \<Rightarrow> (Inl e, r') | (Inr u, r') \<Rightarrow> (Inr y, r')) = snd x"
    for x :: "(assign_error + unit) \<times> mldsa_registry" and y :: "bytes \<times> bytes"
    by (simp split: prod.splits sum.splits)
  ultimately show ?thesis using assms verify_ok [OF assms]
    by (cases "snd tx") (simp_all add: process_link_def assignMLDSAToLegacy_def * request_ok_def del: sum.case_distrib)
qed

lemma process_links_ok:
  "registry_ok (sg_tweak S) n ds r \<Longrightarrow> registry_ok (sg_tweak S) n ds (fold (process_link S ds n) txs r)"
  by (induction txs arbitrary: r) (simp_all add: process_link_ok)

text \<open>
  C15: The links of a block are written as accepted. For stored keys that link hashed and legacy keys
  one to one, whatever the transactions of the block request, writing the pending links succeeds; the links are
  one to one again; a pending link is stored under its hashed key, a link stored before keeps its legacy key, its
  level and its height, and only a link that was stored unrevealed can gain its public key; nothing else changes.
\<close>

theorem mldsa_links_one_to_one:
  assumes "keys_ok (sg_tweak S) ds" and "n \<noteq> 0" and "r = fold (process_link S ds n) txs registry_empty"
  shows "\<exists>ds'. savePublicKeys (map snd (mldsaToStore r)) ds = (Inr (), ds') \<and> keys_ok (sg_tweak S) ds'
    \<and> (\<forall>h. key_at ds' h = (case map_of (mldsaToStore r) h of None \<Rightarrow> key_at ds h
         | Some u \<Rightarrow> Some (written_key n u (key_at ds h))))
    \<and> (\<forall>d \<in> set ds. \<exists>d'. key_at ds' (mk_hashedPublicKey d) = Some d' \<and> mk_legacyPublicKey d' = mk_legacyPublicKey d
         \<and> mk_level d' = mk_level d \<and> mk_insertedBlockHeight d' = mk_insertedBlockHeight d)"
proof -
  have r: "registry_ok (sg_tweak S) n ds r"
    using process_links_ok [OF registry_empty_ok] assms(3) by simp
  then have "\<forall>p \<in> set (mldsaToStore r). pending_ok (sg_tweak S) n ds p" "distinct (map fst (mldsaToStore r))"
    by (simp_all add: registry_ok_def)
  then obtain ds' where ds': "savePublicKeys (map snd (mldsaToStore r)) ds = (Inr (), ds')" "keys_ok (sg_tweak S) ds'"
    "\<forall>h. key_at ds' h = (case map_of (mldsaToStore r) h of None \<Rightarrow> key_at ds h | Some u \<Rightarrow> Some (written_key n u (key_at ds h)))"
    using pending_links_written [OF assms(1) _ assms(2) _ pending_legacy_distinct [OF r]] by auto
  have "key_at ds (mk_hashedPublicKey d) = Some d" if "d \<in> set ds" for d
    using key_at_mem [OF _ that] assms(1) by (simp add: keys_ok_def)
  then have "\<forall>d \<in> set ds. \<exists>d'. key_at ds' (mk_hashedPublicKey d) = Some d' \<and> mk_legacyPublicKey d' = mk_legacyPublicKey d
      \<and> mk_level d' = mk_level d \<and> mk_insertedBlockHeight d' = mk_insertedBlockHeight d"
    by (auto simp: ds'(3) written_key_def set_exposed_def split: option.splits)
  with ds' show ?thesis by blast
qed

text \<open>
  C39: A block's links are undone by a revert. When every stored link is older than the block, deleting the keys from
  the block's height on gives back the collection as it was before the block, revealed keys included.
\<close>

theorem mldsa_links_reverted:
  assumes "keys_ok (sg_tweak S) ds" and "n \<noteq> 0" and "r = fold (process_link S ds n) txs registry_empty"
    and "\<forall>d \<in> set ds. mk_insertedBlockHeight d < n \<and> (\<forall>h. mk_exposedBlockHeight d = Some h \<longrightarrow> h < n)"
  shows "MLDSA_deleteFromBlockHeight n (snd (savePublicKeys (map snd (mldsaToStore r)) ds)) = ds"
proof -
  have r: "registry_ok (sg_tweak S) n ds r"
    using process_links_ok [OF registry_empty_ok] assms(3) by simp
  then have "\<forall>p \<in> set (mldsaToStore r). pending_ok (sg_tweak S) n ds p" "distinct (map fst (mldsaToStore r))"
    by (simp_all add: registry_ok_def)
  then have "MLDSA_deleteFromBlockHeight n (snd (savePublicKeys (map snd (mldsaToStore r)) ds)) =
      MLDSA_deleteFromBlockHeight n ds"
    using pending_links_written [OF assms(1) _ assms(2) _ pending_legacy_distinct [OF r]] by auto
  moreover have "map (null_exposed (\<lambda>h. n \<le> h)) ds = ds"
    using assms(4) by (fastforce simp: null_exposed_def intro!: map_idI split: option.splits)
  ultimately show ?thesis using assms(4)
    by (auto simp: MLDSA_deleteFromBlockHeight_def nullPublicKeyFromBlockHeight_def delete_from_def filter_id_conv)
qed

text \<open>Only requests whose signatures verify enter the registry.\<close>

definition link_authorised :: "signer_package \<Rightarrow> bytes \<Rightarrow> MLDSARequestData \<Rightarrow> bytes \<times> MLDSAUpdateData \<Rightarrow> bool" where
  "link_authorised S originalKey q p \<longleftrightarrow>
     fst p = lr_hashedPublicKey q \<and> ik_hashedPublicKey (ud_data (snd p)) = lr_hashedPublicKey q
     \<and> ik_legacyPublicKey (ud_data (snd p)) = originalKey \<and> ik_level (ud_data (snd p)) = lr_level q
     \<and> sg_verifySignature S (sg_tweak S originalKey) (link_message S originalKey q) (lr_legacySignature q)
     \<and> (ud_exposePublicKey (snd p) \<longrightarrow> (\<exists>publicKey sig. ik_publicKey (ud_data (snd p)) = Some publicKey
          \<and> lr_publicKey q = Some publicKey \<and> lr_mldsaSignature q = Some sig \<and> sg_sha256 S publicKey = lr_hashedPublicKey q
          \<and> sg_verifyMLDSASignature S (lr_level q) publicKey (reveal_message S originalKey q publicKey) sig))
     \<and> (\<not> ud_exposePublicKey (snd p) \<longrightarrow> ik_publicKey (ud_data (snd p)) = None)"

lemma link_key_entries:
  assumes "link_key tweak ds expose k r = Inr r'"
  shows "set (mldsaToStore r') \<subseteq> insert (ik_hashedPublicKey k, \<lparr>ud_exposePublicKey = expose, ud_data = k\<rparr>) (set (mldsaToStore r))"
proof -
  let ?e = "\<lparr>ud_exposePublicKey = expose, ud_data = k\<rparr>"
  have "mldsaToStore r' = mldsaToStore r \<or> mldsaToStore r' = AList.update (ik_hashedPublicKey k) ?e (mldsaToStore r)"
    using link_key_cases [OF assms] by (auto simp: record_link_def)
  then show ?thesis using update_subset [of "ik_hashedPublicKey k" ?e "mldsaToStore r"] by auto
qed

lemma lift_link_entries:
  assumes "lift_link res r = (x, r')" "\<And>r1. res = Inr r1 \<Longrightarrow> set (mldsaToStore r1) \<subseteq> A" "set (mldsaToStore r) \<subseteq> A"
  shows "set (mldsaToStore r') \<subseteq> A"
  using assms by (auto simp: lift_link_def split: sum.splits)

lemma verify_entries:
  assumes "verifyMLDSASignature S ds n q originalKey r = (x, r')"
    "sg_verifySignature S (sg_tweak S originalKey) (link_message S originalKey q) (lr_legacySignature q)"
  shows "set (mldsaToStore r') \<subseteq> set (mldsaToStore r) \<union> {p. link_authorised S originalKey q p}"
proof (cases "r' = r")
  case False
  then obtain pk sg where pk: "lr_publicKey q = Some pk" "lr_mldsaSignature q = Some sg" "sg_sha256 S pk = lr_hashedPublicKey q"
      "sg_verifyMLDSASignature S (lr_level q) pk (reveal_message S originalKey q pk) sg"
    and l: "lift_link (exposeMLDSAPublicKey (sg_tweak S) ds
       \<lparr>ik_level = lr_level q, ik_hashedPublicKey = lr_hashedPublicKey q, ik_legacyPublicKey = originalKey,
        ik_tweakedPublicKey = sg_tweak S originalKey, ik_publicKey = Some pk,
        ik_insertedBlockHeight = Some n, ik_exposedBlockHeight = Some n\<rparr> r) r = (x, r')"
    using assms(1) by (auto simp: verifyMLDSASignature_def split: option.splits if_splits)
  let ?k = "\<lparr>ik_level = lr_level q, ik_hashedPublicKey = lr_hashedPublicKey q, ik_legacyPublicKey = originalKey,
        ik_tweakedPublicKey = sg_tweak S originalKey, ik_publicKey = Some pk,
        ik_insertedBlockHeight = Some n, ik_exposedBlockHeight = Some n\<rparr>"
  have "link_authorised S originalKey q (ik_hashedPublicKey ?k, \<lparr>ud_exposePublicKey = True, ud_data = ?k\<rparr>)"
    using pk assms(2) by (auto simp: link_authorised_def)
  then have "set (mldsaToStore r1) \<subseteq> set (mldsaToStore r) \<union> {p. link_authorised S originalKey q p}"
    if "exposeMLDSAPublicKey (sg_tweak S) ds ?k r = Inr r1" for r1
    using that link_key_entries [of "sg_tweak S" ds True ?k r r1] by (auto simp: exposeMLDSAPublicKey_def split: if_splits)
  then show ?thesis by (rule lift_link_entries [OF l]) auto
qed simp

lemma process_link_entries:
  assumes "p \<in> set (mldsaToStore (process_link S ds n tx r))" "p \<notin> set (mldsaToStore r)"
  shows "\<exists>q. snd tx = Some q \<and> link_authorised S (fst tx) q p"
proof -
  obtain x r' where a: "assignMLDSAToLegacy S ds n (fst tx) (snd tx) r = (x, r')" by force
  then have p: "p \<in> set (mldsaToStore r')" using assms(1) by (simp add: process_link_def)
  show ?thesis
  proof (cases "snd tx")
    case None
    then have "mldsaToStore r' = mldsaToStore r"
      using a getFromLegacy_pending [of ds n "sg_tweak S (fst tx)" r]
      by (auto simp: assignMLDSAToLegacy_def regenerateProvenance_def split: prod.splits option.splits)
    then show ?thesis using p assms(2) by simp
  next
    case (Some q)
    then have sig: "sg_verifySignature S (sg_tweak S (fst tx)) (link_message S (fst tx) q) (lr_legacySignature q)"
      using a p assms(2) by (fastforce simp: assignMLDSAToLegacy_def split: if_splits)
    show ?thesis
    proof (cases "lr_verifyRequest q")
      case True
      then obtain y where "verifyMLDSASignature S ds n q (fst tx) r = (y, r')"
        using a Some sig by (auto simp: assignMLDSAToLegacy_def split: prod.splits sum.splits)
      then show ?thesis using verify_entries [OF _ sig] p assms(2) Some by blast
    next
      case False
      then obtain y k where l: "lift_link (addMLDSAInfoToStore (sg_tweak S) ds n k r) r = (y, r')"
        and k: "ik_hashedPublicKey k = lr_hashedPublicKey q" "ik_legacyPublicKey k = fst tx" "ik_level k = lr_level q"
          "ik_publicKey k = None"
        using a Some sig by (auto simp: assignMLDSAToLegacy_def split: prod.splits sum.splits)
      have "link_authorised S (fst tx) q (ik_hashedPublicKey k, \<lparr>ud_exposePublicKey = False, ud_data = k\<rparr>)"
        using k sig by (simp add: link_authorised_def)
      moreover have "set (mldsaToStore r') \<subseteq> insert (ik_hashedPublicKey k, \<lparr>ud_exposePublicKey = False, ud_data = k\<rparr>) (set (mldsaToStore r))"
        by (rule lift_link_entries [OF l]) (auto simp: addMLDSAInfoToStore_def split: if_splits dest!: link_key_entries)
      ultimately show ?thesis using p assms(2) Some by blast
    qed
  qed
qed

lemma pending_links_authorised:
  assumes "p \<in> set (mldsaToStore (fold (process_link S ds n) txs registry_empty))"
  shows "\<exists>tx q. tx \<in> set txs \<and> snd tx = Some q \<and> link_authorised S (fst tx) q p"
proof -
  have "\<exists>tx q. tx \<in> set txs \<and> snd tx = Some q \<and> link_authorised S (fst tx) q p"
    if "p \<in> set (mldsaToStore (fold (process_link S ds n) txs r))" "p \<notin> set (mldsaToStore r)" for r
    using that
  proof (induction txs arbitrary: r)
    case (Cons tx txs)
    show ?case
    proof (cases "p \<in> set (mldsaToStore (process_link S ds n tx r))")
      case True
      then show ?thesis using process_link_entries [OF True Cons.prems(2)] list.set_intros(1) by metis
    next
      case False
      then show ?thesis using Cons.IH [OF _ False] Cons.prems(1) by auto
    qed
  qed simp
  then show ?thesis using assms by (simp add: registry_empty_def)
qed

text \<open>
  The key collections a node can have: blocks with any transactions write their pending links, completely or as far as
  the write got, and a revert deletes from a height on. \<open>reqs\<close> are the senders and link requests of the transactions so far.
\<close>

inductive stored_links ::
    "signer_package \<Rightarrow> (bytes \<times> MLDSARequestData option) list \<Rightarrow> MLDSAPublicKeyDocument list \<Rightarrow> bool" for S where
  empty: "stored_links S [] []"
| block: "stored_links S reqs ds \<Longrightarrow> r = fold (process_link S ds n) txs registry_empty \<Longrightarrow>
     stored_links S (reqs @ txs) (snd (savePublicKeys (map snd (mldsaToStore r)) ds))"
| revert: "stored_links S reqs ds \<Longrightarrow> stored_links S reqs (MLDSA_deleteFromBlockHeight n ds)"

definition legacy_signed :: "signer_package \<Rightarrow> MLDSAPublicKeyDocument \<Rightarrow> MLDSARequestData \<Rightarrow> bool" where
  "legacy_signed S d q \<longleftrightarrow> lr_hashedPublicKey q = mk_hashedPublicKey d
     \<and> sg_verifySignature S (sg_tweak S (mk_legacyPublicKey d)) (link_message S (mk_legacyPublicKey d) q) (lr_legacySignature q)"

definition key_authorised ::
    "signer_package \<Rightarrow> (bytes \<times> MLDSARequestData option) set \<Rightarrow> MLDSAPublicKeyDocument \<Rightarrow> bool" where
  "key_authorised S reqs d \<longleftrightarrow>
     (\<exists>q. (mk_legacyPublicKey d, Some q) \<in> reqs \<and> legacy_signed S d q \<and> lr_level q = mk_level d)
     \<and> (\<forall>pk. mk_publicKey d = Some pk \<longrightarrow>
          (\<exists>q sig. (mk_legacyPublicKey d, Some q) \<in> reqs \<and> legacy_signed S d q \<and> lr_publicKey q = Some pk
             \<and> lr_mldsaSignature q = Some sig \<and> sg_sha256 S pk = mk_hashedPublicKey d
             \<and> sg_verifyMLDSASignature S (lr_level q) pk (reveal_message S (mk_legacyPublicKey d) q pk) sig))"

lemma key_authorised_mono: "key_authorised S A d \<Longrightarrow> A \<subseteq> B \<Longrightarrow> key_authorised S B d"
  unfolding key_authorised_def by blast

lemma link_document_authorised:
  assumes "link_authorised S (fst tx) q p" "snd tx = Some q" "tx \<in> reqs"
  shows "key_authorised S reqs (MLDSA_toDocument (ud_data (snd p)) h)"
proof -
  have "(fst tx, Some q) \<in> reqs" using assms(2,3) by (metis prod.collapse)
  with assms(1) show ?thesis
    by (cases "ud_exposePublicKey (snd p)")
      (auto simp: link_authorised_def key_authorised_def legacy_signed_def MLDSA_toDocument_def)
qed

text \<open>Every operation of the bulk write keeps the documents authorised: an update takes its public key from the request.\<close>

lemma bulk_step_authorised:
  assumes "key_operation u = Inr p" "link_authorised S (fst tx) q (h, u)" "snd tx = Some q" "tx \<in> reqs"
    and "\<forall>d \<in> set ds. key_authorised S reqs d" "bulk_step p ds = Inr ds'"
  shows "\<forall>d \<in> set ds'. key_authorised S reqs d"
proof -
  obtain n where n: "p = InsertOne (MLDSA_toDocument (ud_data u) n) \<or> p = UpdateOne (MLDSA_toDocument (ud_data u) n)"
    using assms(1) by (auto simp: key_operation_def split: option.splits if_splits)
  let ?d = "MLDSA_toDocument (ud_data u) n"
  have new: "key_authorised S reqs ?d" using link_document_authorised [OF assms(2-4)] by simp
  have ins: ?thesis if "insertOne ?d ds = Inr ds'" using that new assms(5) by (auto simp: insertOne_def split: if_splits)
  have old: "key_authorised S reqs (set_exposed ?d e)" if "key_authorised S reqs e" "matches_key ?d e" for e
    using that new by (simp add: key_authorised_def legacy_signed_def set_exposed_def matches_key_def)
  show ?thesis
  proof (cases "first_index (matches_key ?d) ds")
    case None
    then show ?thesis using n ins assms(6) by (auto simp: updateOne_def)
  next
    case (Some i)
    then have i: "i < length ds" "matches_key ?d (ds ! i)" using first_index_Some by blast+
    have "\<forall>d \<in> set (ds[i := set_exposed ?d (ds ! i)]). key_authorised S reqs d"
      using old [OF _ i(2)] i(1) assms(5) set_update_subset_insert [of ds i] by fastforce
    then show ?thesis using n ins assms(6) Some by (auto simp: updateOne_def)
  qed
qed

lemma bulkWrite_authorised:
  assumes "res_map key_operation us = Inr ops" "\<forall>d \<in> set ds. key_authorised S reqs d"
    and "\<And>u. u \<in> set us \<Longrightarrow> \<exists>tx q h. tx \<in> reqs \<and> snd tx = Some q \<and> link_authorised S (fst tx) q (h, u)"
  shows "\<forall>d \<in> set (snd (bulkWrite ops ds)). key_authorised S reqs d"
  using assms
proof (induction us arbitrary: ops ds)
  case (Cons u us)
  obtain p ps where ops: "ops = p # ps" "key_operation u = Inr p" "res_map key_operation us = Inr ps"
    using Cons.prems(1) by (auto split: sum.splits)
  obtain tx q h where "tx \<in> reqs" "snd tx = Some q" "link_authorised S (fst tx) q (h, u)"
    using Cons.prems(3) [of u] by auto
  note step = bulk_step_authorised [OF ops(2) this(3,2,1) Cons.prems(2)]
  show ?case
  proof (cases "bulk_step p ds")
    case (Inl e)
    then show ?thesis using Cons.prems(2) by (simp add: ops(1))
  next
    case (Inr ds')
    then show ?thesis using Cons.IH [OF ops(3) step [OF Inr]] Cons.prems(3) by (simp add: ops(1))
  qed
qed simp

text \<open>
  C16: Links are authorised. In every key collection the node can have, after any blocks and reverts, every stored link comes from a
  transaction whose sender signed the link request with the legacy key that is linked, and every
  revealed public key comes from a transaction of that sender, hashes to the linked hash, and the request's ML-DSA signature
  verifies under it.
\<close>

theorem mldsa_links_authorised:
  assumes "stored_links S reqs ds" and "d \<in> set ds"
  shows "key_authorised S (set reqs) d"
  using assms
proof (induction arbitrary: d rule: stored_links.induct)
  case (block reqs ds r n txs)
  have old: "\<forall>d \<in> set ds. key_authorised S (set (reqs @ txs)) d"
    using block.IH key_authorised_mono [of S "set reqs" _ "set (reqs @ txs)"] by auto
  have new: "\<exists>tx q h. tx \<in> set (reqs @ txs) \<and> snd tx = Some q \<and> link_authorised S (fst tx) q (h, u)"
    if "u \<in> set (map snd (mldsaToStore r))" for u
  proof -
    from that obtain h where "(h, u) \<in> set (mldsaToStore r)" by auto
    from pending_links_authorised [OF this [unfolded block.hyps(2)]] show ?thesis by auto
  qed
  show ?case
  proof (cases "res_map key_operation (map snd (mldsaToStore r))")
    case (Inl e)
    then show ?thesis using block.prems old by (simp add: savePublicKeys_def)
  next
    case (Inr ops)
    from bulkWrite_authorised [OF Inr old new] show ?thesis using block.prems Inr by (simp add: savePublicKeys_def)
  qed
next
  case (revert reqs ds n)
  then obtain e where e: "e \<in> set ds" "d = null_exposed (\<lambda>m. n \<le> m) e"
    by (auto simp: MLDSA_deleteFromBlockHeight_def nullPublicKeyFromBlockHeight_def delete_from_def)
  with revert.IH [OF e(1)] show ?case
    by (auto simp: null_exposed_def key_authorised_def legacy_signed_def split: option.splits)
qed simp

text \<open>
  One Bitcoin key can hold two links. The tweaked key has no parity, so two legacy keys can share it. Inside a
  block the second of them is refused, but a key that shares its tweaked key with a link of an
  earlier block is accepted, and a later lookup by that tweaked key still answers with the first link.
\<close>

theorem tweaked_key_linked_twice:
  assumes "length (ik_hashedPublicKey k) = 32" and "length (ik_legacyPublicKey k) = 33"
    and "ik_insertedBlockHeight k = Some n" and "ik_tweakedPublicKey k = tweak (ik_legacyPublicKey k)"
    and "unlinked ds (ik_hashedPublicKey k) (ik_legacyPublicKey k)"
    and "find (\<lambda>d. mk_insertedBlockHeight d \<le> h \<and> (mk_hashedPublicKey d = ik_tweakedPublicKey k
        \<or> mk_legacyPublicKey d = ik_tweakedPublicKey k \<or> mk_tweakedPublicKey d = ik_tweakedPublicKey k)) ds = Some d"
  shows "addMLDSAInfoToStore tweak ds n k registry_empty = Inr (record_link False (tweak (ik_legacyPublicKey k)) k registry_empty)
    \<and> savePublicKeys [\<lparr>ud_exposePublicKey = False, ud_data = k\<rparr>] ds = (Inr (), ds @ [MLDSA_toDocument k n])
    \<and> getByHashedOrLegacy (tweak (ik_legacyPublicKey k)) h (ds @ [MLDSA_toDocument k n]) = Some (MLDSA_parseResult d)
    \<and> mk_hashedPublicKey d \<noteq> ik_hashedPublicKey k
    \<and> (\<forall>r. map_of (mldsaToStore r) (ik_hashedPublicKey k) = None
        \<and> map_of (mldsaToStoreLegacy r) (tweak (ik_legacyPublicKey k)) \<noteq> None
        \<longrightarrow> addMLDSAInfoToStore tweak ds n k r = Inl LegacyKeyPending)"
proof -
  have none: "first_index (\<lambda>d. mk_hashedPublicKey d = ik_hashedPublicKey k) ds = None"
    "first_index (\<lambda>d. mk_legacyPublicKey d = ik_legacyPublicKey k) ds = None"
    using assms(5) by (auto simp: first_index_None unlinked_def)
  then have "shouldInsertMLDSAKey ds (ik_hashedPublicKey k) (ik_legacyPublicKey k) (ik_level k) False = Inr False"
    using assms(1,2) by (simp add: shouldInsertMLDSAKey_def exists_keys_def Let_def)
  then have "addMLDSAInfoToStore tweak ds n k registry_empty = Inr (record_link False (tweak (ik_legacyPublicKey k)) k registry_empty)"
    using assms(3) by (simp add: addMLDSAInfoToStore_def link_key_def validateMLDSALinkRequest_def registry_empty_def)
  moreover have "savePublicKeys [\<lparr>ud_exposePublicKey = False, ud_data = k\<rparr>] ds = (Inr (), ds @ [MLDSA_toDocument k n])"
    using assms(3,5) by (auto simp: savePublicKeys_def key_operation_def insertOne_def MLDSA_toDocument_def unlinked_def)
  moreover have "find P (ds @ [x]) = Some y" if "find P ds = Some y" for P and x y :: MLDSAPublicKeyDocument
    using that by (induction ds) auto
  then have "getByHashedOrLegacy (tweak (ik_legacyPublicKey k)) h (ds @ [MLDSA_toDocument k n]) = Some (MLDSA_parseResult d)"
    using assms(4,6) by (simp add: getByHashedOrLegacy_def)
  moreover have "mk_hashedPublicKey d \<noteq> ik_hashedPublicKey k"
    using assms(5,6) by (auto simp: unlinked_def find_Some_iff)
  moreover have "addMLDSAInfoToStore tweak ds n k r = Inl LegacyKeyPending"
    if "map_of (mldsaToStore r) (ik_hashedPublicKey k) = None"
      "map_of (mldsaToStoreLegacy r) (tweak (ik_legacyPublicKey k)) \<noteq> None" for r
    using that assms(3) by (auto simp: addMLDSAInfoToStore_def link_key_def validateMLDSALinkRequest_def)
  ultimately show ?thesis by blast
qed

text \<open>A public key revealed in the block that created its link is dropped: the request counts as a duplicate.\<close>

lemma reveal_after_link_dropped:
  "map_of (mldsaToStore r) (ik_hashedPublicKey k) = Some u \<Longrightarrow>
    ik_legacyPublicKey (ud_data u) = ik_legacyPublicKey k \<Longrightarrow> ik_publicKey k \<noteq> None \<Longrightarrow>
    exposeMLDSAPublicKey tweak ds k r = Inr r"
  by (simp add: exposeMLDSAPublicKey_def link_key_def validateMLDSALinkRequest_def)

subsection \<open>Examples\<close>

definition sample_signer :: signer_package where
  "sample_signer = \<lparr>sg_verifySignature = (\<lambda>key msg sig. sig = key), sg_verifyMLDSASignature = (\<lambda>level key msg sig. sig = [9]),
     sg_sha256 = (\<lambda>b. take 32 (b @ replicate 32 0)), sg_tweak = drop 1, sg_protocolId = [1], sg_chainId = [2]\<rparr>"

definition sample_request :: "bytes \<Rightarrow> byte \<Rightarrow> MLDSARequestData" where
  "sample_request key b = \<lparr>lr_verifyRequest = True, lr_publicKey = Some [b], lr_hashedPublicKey = b # replicate 31 0,
     lr_level = 2, lr_mldsaSignature = Some [9], lr_legacySignature = drop 1 key\<rparr>"

definition sample_links :: "(bytes \<times> MLDSARequestData option) list" where
  "sample_links = [(2 # replicate 32 5, Some (sample_request (2 # replicate 32 5) 7)), (3 # replicate 32 6, None)]"

definition sample_update :: MLDSAUpdateData where
  "sample_update = \<lparr>ud_exposePublicKey = True, ud_data = \<lparr>ik_level = 2, ik_hashedPublicKey = 7 # replicate 31 0,
     ik_legacyPublicKey = 2 # replicate 32 5, ik_tweakedPublicKey = replicate 32 5, ik_publicKey = Some [7],
     ik_insertedBlockHeight = Some 5, ik_exposedBlockHeight = Some 5\<rparr>\<rparr>"

lemma sample_links_pending:
  "mldsaToStore (fold (process_link sample_signer [] 5) sample_links registry_empty) = [(7 # replicate 31 0, sample_update)]"
  by code_simp

theorem mldsa_links_one_to_one_witness:
  "\<exists>ds'. savePublicKeys [sample_update] [] = (Inr (), ds') \<and> keys_ok (drop 1) ds'
     \<and> key_at ds' (7 # replicate 31 0) = Some (written_key 5 sample_update None)"
proof -
  have tw: "sg_tweak sample_signer = drop 1" by (simp add: sample_signer_def)
  have ok: "keys_ok (sg_tweak sample_signer) []" by (simp add: keys_ok_def)
  have none: "key_at [] h = None" for h by (simp add: key_at_None)
  from mldsa_links_one_to_one [OF ok _ refl, of 5 sample_links]
  show ?thesis unfolding sample_links_pending tw none by auto
qed

theorem mldsa_links_reverted_witness:
  "MLDSA_deleteFromBlockHeight 5 (snd (savePublicKeys [sample_update] [])) = []"
proof -
  have "keys_ok (sg_tweak sample_signer) []" by (simp add: keys_ok_def)
  from mldsa_links_reverted [OF this _ refl, of 5 sample_links]
  show ?thesis by (simp add: sample_links_pending)
qed

theorem mldsa_links_authorised_witness:
  "\<exists>d. d \<in> set (snd (savePublicKeys [sample_update] [])) \<and> mk_publicKey d = Some [7]
     \<and> key_authorised sample_signer (set sample_links) d"
proof -
  let ?d = "link_document 5 sample_update"
  have links: "stored_links sample_signer sample_links (snd (savePublicKeys [sample_update] []))"
    using stored_links.block [OF stored_links.empty refl, of sample_signer sample_links 5] by (simp add: sample_links_pending)
  have mem: "?d \<in> set (snd (savePublicKeys [sample_update] []))" "mk_publicKey ?d = Some [7]" by code_simp+
  from mldsa_links_authorised [OF links mem(1)] mem show ?thesis by blast
qed

definition sample_key :: "byte \<Rightarrow> byte \<Rightarrow> IMLDSAPublicKey" where
  "sample_key parity b = \<lparr>ik_level = 2, ik_hashedPublicKey = b # replicate 31 0, ik_legacyPublicKey = parity # replicate 32 5,
     ik_tweakedPublicKey = replicate 32 5, ik_publicKey = None, ik_insertedBlockHeight = Some 6, ik_exposedBlockHeight = None\<rparr>"

theorem tweaked_key_linked_twice_witness:
  "addMLDSAInfoToStore (drop 1) [MLDSA_toDocument (sample_key 2 7) 5] 6 (sample_key 3 8) registry_empty
     = Inr (record_link False (replicate 32 5) (sample_key 3 8) registry_empty)
   \<and> getByHashedOrLegacy (replicate 32 5) 9 [MLDSA_toDocument (sample_key 2 7) 5, MLDSA_toDocument (sample_key 3 8) 6]
     = Some (MLDSA_parseResult (MLDSA_toDocument (sample_key 2 7) 5))"
  using tweaked_key_linked_twice [of "sample_key 3 8" 6 "drop 1" "[MLDSA_toDocument (sample_key 2 7) 5]" 9
      "MLDSA_toDocument (sample_key 2 7) 5"]
  by (simp add: sample_key_def MLDSA_toDocument_def unlinked_def)

end
