(* ===== verification/Reorg_Watchdog.thy ===== *)
theory Reorg_Watchdog
  imports Block_Headers
begin

section \<open>The reorganisation watchdog\<close>

text \<open>
  \<open>src/src/blockchain-indexer/processor/reorg/ReorgWatchdog.ts\<close>: before a block is completed the watchdog
  decides whether the chain was reorganised below it; when it was, it looks for the last block the
  node and the Bitcoin client agree on and whose checksum proofs hold, and tells its listeners to
  revert everything above.

  The Bitcoin client and the database are the functions of \<open>reorg_env\<close>, fixed during one call. The
  watchdog's own state includes the validator whose cache its calls change. A listener acts on a state \<open>'s\<close>
  of its own, the rest of the indexer, and may throw after having changed it. The two search
  loops run over block heights below the starting height and are recursive on it.
\<close>

record LastBlock =
  lb_hash :: "string option"
  lb_checksum :: "string option"
  lb_blockNumber :: "bigint option"
  lb_opnetBlock :: "BlockHeaderDocument option"

record HeaderInfo =
  hi_blockNumber :: bigint
  hi_blockHash :: string
  hi_previousBlockHash :: string

record BlockHeaderInfo =
  bi_height :: bigint
  bi_hash :: string
  bi_previousblockhash :: string

record reorg_env =
  re_getBlockHash :: "bigint \<Rightarrow> string option"
  re_rpcHeader :: "string \<Rightarrow> BlockHeaderInfo option"
  re_db :: header_db
  re_merkle :: merkle_package
  re_light :: bool
  re_alwaysVerify :: bool

datatype reorg_error = LastBlockNumberNotSet | CurrentHeaderNotSet | FetchBlockHash bigint
  | FetchBlockHeader bigint | LastGoodHeaderMissing | PreviousBlockMissing bigint | ListenerThrew

record ReorgWatchdog =
  rw_lastBlock :: LastBlock
  rw_currentHeader :: "HeaderInfo option"
  rw_validator :: BlockHeaderValidator

type_synonym 's listener = "bigint \<Rightarrow> bigint \<Rightarrow> string \<Rightarrow> 's \<Rightarrow> (reorg_error + unit) \<times> 's"

definition no_block :: LastBlock where
  "no_block = \<lparr>lb_hash = None, lb_checksum = None, lb_blockNumber = None, lb_opnetBlock = None\<rparr>"

definition pendingBlockHeight :: "ReorgWatchdog \<Rightarrow> reorg_error + bigint" where
  "pendingBlockHeight w =
     (case lb_blockNumber (rw_lastBlock w) of None \<Rightarrow> Inl LastBlockNumberNotSet | Some n \<Rightarrow> Inr n)"

definition ReorgWatchdog_onBlockChange :: "BlockHeaderInfo \<Rightarrow> ReorgWatchdog \<Rightarrow> ReorgWatchdog" where
  "ReorgWatchdog_onBlockChange header w =
     w\<lparr>rw_currentHeader := Some \<lparr>hi_blockNumber = bi_height header, hi_blockHash = bi_hash header,
        hi_previousBlockHash = bi_previousblockhash header\<rparr>\<rparr>"

text \<open>\<open>init\<close> calls itself one block lower while the block below is not stored; its argument is the height.\<close>

fun ReorgWatchdog_init :: "reorg_env \<Rightarrow> nat \<Rightarrow> ReorgWatchdog \<Rightarrow> (reorg_error + unit) \<times> ReorgWatchdog" where
  "ReorgWatchdog_init E n w =
     (case re_getBlockHash E (int n) of
        None \<Rightarrow> (Inl (FetchBlockHash (int n)), w)
      | Some blockHash \<Rightarrow>
          if blockHash = [] then (Inl (FetchBlockHash (int n)), w)
          else (case re_rpcHeader E blockHash of
             None \<Rightarrow> (Inl (FetchBlockHeader (int n)), w)
           | Some latestBlockHeader \<Rightarrow>
               let w1 = w\<lparr>rw_currentHeader := Some \<lparr>hi_blockNumber = int n, hi_blockHash = blockHash,
                            hi_previousBlockHash = bi_previousblockhash latestBlockHeader\<rparr>\<rparr>
               in (case n of
                     0 \<Rightarrow> (Inr (), w1\<lparr>rw_lastBlock := no_block\<lparr>lb_blockNumber := Some (- 1)\<rparr>\<rparr>)
                   | Suc m \<Rightarrow>
                       (case re_db E (int m) of
                          None \<Rightarrow> ReorgWatchdog_init E m w1
                        | Some lastBlock \<Rightarrow>
                            (Inr (), w1\<lparr>rw_lastBlock := \<lparr>lb_hash = Some (bh_hash lastBlock),
                               lb_checksum = Some (bh_checksumRoot lastBlock),
                               lb_blockNumber = Some (int n), lb_opnetBlock = Some lastBlock\<rparr>\<rparr>)))))"

declare ReorgWatchdog_init.simps [simp del]

definition updateBlock :: "BlockHeaderDocument \<Rightarrow> ReorgWatchdog \<Rightarrow> ReorgWatchdog" where
  "updateBlock block w =
     w\<lparr>rw_lastBlock := \<lparr>lb_hash = Some (bh_hash block), lb_checksum = Some (bh_checksumRoot block),
        lb_blockNumber = Some (bh_height block), lb_opnetBlock = Some block\<rparr>\<rparr>"

subsection \<open>Looking for the last good block\<close>

fun hash_loop :: "reorg_env \<Rightarrow> nat \<Rightarrow> reorg_error + nat option" where
  "hash_loop E 0 = Inr None"
| "hash_loop E (Suc previousBlock) =
     (case re_getBlockHash E (int previousBlock) of
        None \<Rightarrow> Inl (FetchBlockHash (int previousBlock))
      | Some currentBlockHash \<Rightarrow>
          (case re_db E (int previousBlock) of
             None \<Rightarrow> Inl (FetchBlockHeader (int previousBlock))
           | Some savedBlockHeader \<Rightarrow>
               if bh_hash savedBlockHeader = currentBlockHash then Inr (Some previousBlock)
               else hash_loop E previousBlock))"

fun proof_loop :: "reorg_env \<Rightarrow> nat \<Rightarrow> BlockHeaderValidator \<Rightarrow> bigint \<times> BlockHeaderValidator" where
  "proof_loop E previousBlock v =
     (case re_db E (int previousBlock) of
        None \<Rightarrow> (int previousBlock, v)
      | Some opnetHeaders \<Rightarrow>
          (case validateBlockChecksum (re_merkle E) (re_db E) (re_light E) opnetHeaders v of
             (verifiedProofs, v1) \<Rightarrow>
               if verifiedProofs = Inr True then (int previousBlock, v1)
               else (case previousBlock of 0 \<Rightarrow> (- 1, v1) | Suc n \<Rightarrow> proof_loop E n v1)))"

declare proof_loop.simps [simp del]

definition revertToLastGoodBlock ::
    "reorg_env \<Rightarrow> bigint \<Rightarrow> BlockHeaderValidator \<Rightarrow> (reorg_error + bigint) \<times> BlockHeaderValidator" where
  "revertToLastGoodBlock E height v =
     (case hash_loop E (nat height) of
        Inl e \<Rightarrow> (Inl e, v)
      | Inr None \<Rightarrow> (Inr 0, v)
      | Inr (Some n) \<Rightarrow> (case proof_loop E n v of (previousBlock, v1) \<Rightarrow> (Inr previousBlock, v1)))"

fun notifyReorgListeners ::
    "'s listener list \<Rightarrow> bigint \<Rightarrow> bigint \<Rightarrow> string \<Rightarrow> 's \<Rightarrow> (reorg_error + unit) \<times> 's" where
  "notifyReorgListeners [] fromHeight toHeight newBest s = (Inr (), s)"
| "notifyReorgListeners (l # ls) fromHeight toHeight newBest s =
     (case l fromHeight toHeight newBest s of
        (Inl e, s1) \<Rightarrow> (Inl e, s1)
      | (Inr u, s1) \<Rightarrow> notifyReorgListeners ls fromHeight toHeight newBest s1)"

definition restoreBlockchain ::
    "reorg_env \<Rightarrow> 's listener list \<Rightarrow> bigint \<Rightarrow> ReorgWatchdog \<times> 's
       \<Rightarrow> (reorg_error + unit) \<times> ReorgWatchdog \<times> 's" where
  "restoreBlockchain E ls tip ws =
     (case revertToLastGoodBlock E tip (rw_validator (fst ws)) of
        (Inl e, v1) \<Rightarrow> (Inl e, (fst ws)\<lparr>rw_validator := v1\<rparr>, snd ws)
      | (Inr lastGoodBlock, v1) \<Rightarrow>
          (case re_db E lastGoodBlock of
             None \<Rightarrow> (Inl LastGoodHeaderMissing, (fst ws)\<lparr>rw_validator := v1\<rparr>, snd ws)
           | Some lastGoodBlockHeader \<Rightarrow>
               (case notifyReorgListeners ls (lastGoodBlock + 1) tip (bh_hash lastGoodBlockHeader) (snd ws) of
                  (r, s1) \<Rightarrow> (r, (fst ws)\<lparr>rw_validator := v1, rw_lastBlock := no_block\<rparr>, s1))))"

subsection \<open>Has the chain been reorganised?\<close>

definition known_last_block :: "bigint \<Rightarrow> LastBlock \<Rightarrow> bool" where
  "known_last_block height lb \<longleftrightarrow>
     lb_hash lb \<notin> {None, Some []} \<and> lb_checksum lb \<notin> {None, Some []} \<and> lb_blockNumber lb = Some height"

definition getLastBlockHash ::
    "reorg_env \<Rightarrow> bigint \<Rightarrow> ReorgWatchdog \<Rightarrow> (reorg_error + LastBlock option) \<times> ReorgWatchdog" where
  "getLastBlockHash E height w =
     (if height = - 1 then (Inr None, w)
      else if known_last_block height (rw_lastBlock w)
      then (Inr (Some ((rw_lastBlock w)\<lparr>lb_blockNumber := None\<rparr>)), w)
      else (case getBlockHeader (re_db E) height (rw_validator w) of
              (None, v1) \<Rightarrow> (Inl (PreviousBlockMissing height), w\<lparr>rw_validator := v1\<rparr>)
            | (Some previousBlock, v1) \<Rightarrow>
                (Inr (Some \<lparr>lb_hash = Some (bh_hash previousBlock),
                    lb_checksum = Some (bh_checksumRoot previousBlock), lb_blockNumber = Some height,
                    lb_opnetBlock = Some previousBlock\<rparr>), w\<lparr>rw_validator := v1\<rparr>)))"

definition checksum_disagrees :: "BlockHeaderDocument \<Rightarrow> BlockHeaderDocument \<Rightarrow> header_error + bool \<Rightarrow> bool" where
  "checksum_disagrees block opnetBlock verifiedProofs =
     (case verifiedProofs of
        Inl e \<Rightarrow> True
      | Inr ok \<Rightarrow> bh_previousBlockChecksum block = []
                    \<or> bh_checksumRoot opnetBlock \<noteq> bh_previousBlockChecksum block \<or> \<not> ok)"

definition verifyChainReorg ::
    "reorg_env \<Rightarrow> BlockHeaderDocument \<Rightarrow> ReorgWatchdog \<Rightarrow> (reorg_error + bool) \<times> ReorgWatchdog" where
  "verifyChainReorg E block w =
     (let previousBlock = bh_height block - 1 in
      if previousBlock \<le> 0 then (Inr False, w)
      else (case getLastBlockHash E previousBlock w of
              (Inl e, w1) \<Rightarrow> (Inl e, w1)
            | (Inr None, w1) \<Rightarrow> (Inl (PreviousBlockMissing previousBlock), w1)
            | (Inr (Some previous), w1) \<Rightarrow>
                (case lb_opnetBlock previous of
                   None \<Rightarrow> (Inl (PreviousBlockMissing previousBlock), w1)
                 | Some opnetBlock \<Rightarrow>
                     if Some (bh_previousBlockHash block) \<noteq> lb_hash previous then (Inr True, w1)
                     else (case validateBlockChecksum (re_merkle E) (re_db E) (re_light E) opnetBlock
                                  (rw_validator w1) of
                             (verifiedProofs, v1) \<Rightarrow>
                               (Inr (checksum_disagrees block opnetBlock verifiedProofs),
                                w1\<lparr>rw_validator := v1\<rparr>)))))"

definition restore_and_report ::
    "reorg_env \<Rightarrow> 's listener list \<Rightarrow> bigint \<Rightarrow> ReorgWatchdog \<times> 's
       \<Rightarrow> (reorg_error + bool) \<times> ReorgWatchdog \<times> 's" where
  "restore_and_report E ls tip ws =
     (case restoreBlockchain E ls tip ws of (Inl e, ws1) \<Rightarrow> (Inl e, ws1) | (Inr u, ws1) \<Rightarrow> (Inr True, ws1))"

definition verifyChainReorgForBlock ::
    "reorg_env \<Rightarrow> 's listener list \<Rightarrow> bigint \<Rightarrow> BlockHeaderDocument \<Rightarrow> ReorgWatchdog \<times> 's
       \<Rightarrow> (reorg_error + bool) \<times> ReorgWatchdog \<times> 's" where
  "verifyChainReorgForBlock E ls tip block ws =
     (case rw_currentHeader (fst ws) of
        None \<Rightarrow> (Inl CurrentHeaderNotSet, ws)
      | Some header \<Rightarrow>
          if hi_blockNumber header - tip \<ge> 100 \<and> \<not> re_alwaysVerify E
          then (Inr False, updateBlock block (fst ws), snd ws)
          else (case verifyChainReorg E block (fst ws) of
                  (Inl e, w1) \<Rightarrow> (Inl e, w1, snd ws)
                | (Inr True, w1) \<Rightarrow> restore_and_report E ls tip (w1, snd ws)
                | (Inr False, w1) \<Rightarrow>
                    if hi_blockNumber header = tip \<and> hi_blockHash header \<noteq> bh_hash block
                    then restore_and_report E ls tip (w1, snd ws)
                    else (Inr False, updateBlock block w1, snd ws)))"

subsection \<open>The last good block, without loops and cache\<close>

definition agrees :: "reorg_env \<Rightarrow> nat \<Rightarrow> bool" where
  "agrees E k \<longleftrightarrow> map_option bh_hash (re_db E (int k)) = re_getBlockHash E (int k)"

definition proofs_hold :: "reorg_env \<Rightarrow> nat \<Rightarrow> bool" where
  "proofs_hold E k \<longleftrightarrow>
     map_option (checksum_verdict (re_merkle E) (re_db E) (re_light E)) (re_db E (int k)) = Some (Inr True)"

definition known_below :: "reorg_env \<Rightarrow> nat \<Rightarrow> bool" where
  "known_below E n \<longleftrightarrow> (\<forall>k < n. re_db E (int k) \<noteq> None \<and> re_getBlockHash E (int k) \<noteq> None)"

fun last_below :: "(nat \<Rightarrow> bool) \<Rightarrow> nat \<Rightarrow> nat option" where
  "last_below P 0 = None"
| "last_below P (Suc n) = (if P n then Some n else last_below P n)"

lemma last_below_Some: "last_below P n = Some k \<longleftrightarrow> k < n \<and> P k \<and> (\<forall>j. k < j \<and> j < n \<longrightarrow> \<not> P j)"
proof (induction n)
  case (Suc n)
  then show ?case by (auto simp: less_Suc_eq)
qed simp

lemma last_below_None: "last_below P n = None \<longleftrightarrow> (\<forall>j < n. \<not> P j)"
  by (induction n) (auto simp: less_Suc_eq)

definition fork_point :: "reorg_env \<Rightarrow> nat \<Rightarrow> nat option" where
  "fork_point E n =
     (case last_below (agrees E) n of None \<Rightarrow> Some 0 | Some k \<Rightarrow> last_below (proofs_hold E) (Suc k))"

lemma hash_loop_last_below: "known_below E n \<Longrightarrow> hash_loop E n = Inr (last_below (agrees E) n)"
proof (induction n)
  case (Suc n)
  then have "re_db E (int n) \<noteq> None" "re_getBlockHash E (int n) \<noteq> None" "known_below E n"
    by (auto simp: known_below_def)
  with Suc.IH show ?case by (auto simp: agrees_def)
qed simp

definition block_number :: "nat option \<Rightarrow> bigint" where
  "block_number r = (case r of None \<Rightarrow> - 1 | Some k \<Rightarrow> int k)"

lemma proof_loop_last_below:
  assumes "db_ok (re_db E)" "hv_ok (re_db E) v" "known_below E (Suc n)"
  shows "\<exists>v1. proof_loop E n v = (block_number (last_below (proofs_hold E) (Suc n)), v1) \<and> hv_ok (re_db E) v1"
  using assms
proof (induction n arbitrary: v)
  case 0
  then obtain d where d: "re_db E (int 0) = Some d" by (auto simp: known_below_def)
  from validateBlockChecksum_spec [OF 0(1,2)] obtain v1 where
    "validateBlockChecksum (re_merkle E) (re_db E) (re_light E) d v
       = (checksum_verdict (re_merkle E) (re_db E) (re_light E) d, v1)" "hv_ok (re_db E) v1" by blast
  with d show ?case by (auto simp: proof_loop.simps [of E 0] block_number_def proofs_hold_def)
next
  case (Suc n)
  then obtain d where d: "re_db E (int (Suc n)) = Some d" by (auto simp: known_below_def simp del: of_nat_Suc)
  from validateBlockChecksum_spec [OF Suc.prems(1,2)] obtain v1 where
    v1: "validateBlockChecksum (re_merkle E) (re_db E) (re_light E) d v
       = (checksum_verdict (re_merkle E) (re_db E) (re_light E) d, v1)" "hv_ok (re_db E) v1" by blast
  show ?case
  proof (cases "proofs_hold E (Suc n)")
    case True
    with d v1 show ?thesis
      by (auto simp: proof_loop.simps [of E "Suc n"] block_number_def proofs_hold_def simp del: of_nat_Suc)
  next
    case False
    from Suc.prems(3) have "known_below E (Suc n)" by (auto simp: known_below_def)
    from Suc.IH [OF Suc.prems(1) v1(2) this] False d v1(1) show ?thesis
      by (auto simp: proof_loop.simps [of E "Suc n"] proofs_hold_def simp del: of_nat_Suc)
  qed
qed

lemma revertToLastGoodBlock_spec:
  assumes "db_ok (re_db E)" "hv_ok (re_db E) v" "known_below E (nat tip)"
  shows "\<exists>v1. revertToLastGoodBlock E tip v = (Inr (block_number (fork_point E (nat tip))), v1)
    \<and> hv_ok (re_db E) v1"
proof (cases "last_below (agrees E) (nat tip)")
  case None
  then show ?thesis using assms
    by (simp add: revertToLastGoodBlock_def hash_loop_last_below fork_point_def block_number_def)
next
  case (Some k)
  then have "k < nat tip" by (simp add: last_below_Some)
  with assms(3) have "known_below E (Suc k)" by (auto simp: known_below_def)
  from proof_loop_last_below [OF assms(1,2) this] Some assms(3) show ?thesis
    by (auto simp: revertToLastGoodBlock_def hash_loop_last_below fork_point_def)
qed

lemma fork_point_cases:
  assumes "fork_point E n = Some g"
  obtains (genesis) "g = 0" "\<And>j. j < n \<Longrightarrow> \<not> agrees E j"
    | (fork) m where "m < n" "\<And>j. m < j \<Longrightarrow> j < n \<Longrightarrow> \<not> agrees E j"
        "g \<le> m" "proofs_hold E g" "\<And>j. g < j \<Longrightarrow> j \<le> m \<Longrightarrow> \<not> proofs_hold E j"
proof (cases "last_below (agrees E) n")
  case None
  with assms genesis show thesis by (simp add: fork_point_def last_below_None)
next
  case (Some m)
  with assms have "last_below (proofs_hold E) (Suc m) = Some g" by (simp add: fork_point_def del: last_below.simps)
  with Some fork [of m] show thesis unfolding last_below_Some less_Suc_eq_le by blast
qed

lemma fork_point_Some:
  assumes "fork_point E n = Some g" "0 < n"
  shows "g < n" "\<And>j. g < j \<Longrightarrow> j < n \<Longrightarrow> \<not> agrees E j \<or> \<not> proofs_hold E j"
    "agrees E k \<Longrightarrow> k < n \<Longrightarrow> proofs_hold E g"
proof -
  show "g < n" using assms(1) by (cases rule: fork_point_cases) (use assms(2) in simp_all)
  show "\<not> agrees E j \<or> \<not> proofs_hold E j" if "g < j" "j < n" for j
    using assms(1)
  proof (cases rule: fork_point_cases)
    case (fork m)
    then show ?thesis using that by (cases "m < j") auto
  qed (use that in simp)
  show "proofs_hold E g" if "agrees E k" "k < n"
    using assms(1) by (cases rule: fork_point_cases) (use that in auto)
qed

lemma fork_point_None:
  assumes "fork_point E n = None"
  shows "\<exists>k < n. agrees E k \<and> (\<forall>j \<le> k. \<not> proofs_hold E j)"
proof (cases "last_below (agrees E) n")
  case None
  with assms show ?thesis by (simp add: fork_point_def)
next
  case (Some m)
  with assms have "last_below (proofs_hold E) (Suc m) = None" by (simp add: fork_point_def del: last_below.simps)
  with Some show ?thesis unfolding last_below_Some last_below_None less_Suc_eq_le by blast
qed

subsection \<open>The check, without cache\<close>

definition last_block_ok :: "reorg_env \<Rightarrow> ReorgWatchdog \<Rightarrow> bool" where
  "last_block_ok E w \<longleftrightarrow> (\<forall>n. known_last_block n (rw_lastBlock w) \<longrightarrow>
     (\<exists>d. re_db E n = Some d \<and> lb_hash (rw_lastBlock w) = Some (bh_hash d)
          \<and> lb_opnetBlock (rw_lastBlock w) = Some d))"

definition linked :: "reorg_env \<Rightarrow> BlockHeaderDocument \<Rightarrow> BlockHeaderDocument \<Rightarrow> bool" where
  "linked E block d \<longleftrightarrow> bh_previousBlockHash block = bh_hash d
     \<and> bh_previousBlockChecksum block = bh_checksumRoot d
     \<and> checksum_verdict (re_merkle E) (re_db E) (re_light E) d = Inr True"

lemma getLastBlockHash_spec:
  assumes "db_ok (re_db E)" "hv_ok (re_db E) (rw_validator w)" "last_block_ok E w"
    and "re_db E n = Some d" "n \<noteq> - 1"
  shows "\<exists>p w1. getLastBlockHash E n w = (Inr (Some p), w1) \<and> lb_hash p = Some (bh_hash d)
    \<and> lb_opnetBlock p = Some d \<and> hv_ok (re_db E) (rw_validator w1)"
proof (cases "known_last_block n (rw_lastBlock w)")
  case True
  with assms show ?thesis by (auto simp: getLastBlockHash_def last_block_ok_def)
next
  case False
  obtain r v1 where r: "getBlockHeader (re_db E) n (rw_validator w) = (r, v1)" by force
  with getBlockHeader_spec [OF assms(1,2), of n] assms(4) have "r = Some d" "hv_ok (re_db E) v1" by simp_all
  with r False assms(5) show ?thesis by (simp add: getLastBlockHash_def)
qed

lemma verdict_True_root: "checksum_verdict M db light d = Inr True \<Longrightarrow> bh_checksumRoot d \<noteq> []"
  by (auto simp: checksum_verdict_def)

lemma verifyChainReorg_spec:
  assumes "db_ok (re_db E)" "hv_ok (re_db E) (rw_validator w)" "last_block_ok E w"
    and "re_db E (bh_height block - 1) = Some d" "1 < bh_height block"
  shows "\<exists>w1. verifyChainReorg E block w = (Inr (\<not> linked E block d), w1)"
proof -
  obtain p w1 where p: "getLastBlockHash E (bh_height block - 1) w = (Inr (Some p), w1)"
    "lb_hash p = Some (bh_hash d)" "lb_opnetBlock p = Some d" "hv_ok (re_db E) (rw_validator w1)"
    using getLastBlockHash_spec [OF assms(1-4)] assms(5) by auto
  obtain v2 where v2: "validateBlockChecksum (re_merkle E) (re_db E) (re_light E) d (rw_validator w1)
      = (checksum_verdict (re_merkle E) (re_db E) (re_light E) d, v2)"
    using validateBlockChecksum_spec [OF assms(1) p(4)] by blast
  have "checksum_disagrees block d (checksum_verdict (re_merkle E) (re_db E) (re_light E) d)
      \<longleftrightarrow> \<not> linked E block d" if "bh_previousBlockHash block = bh_hash d"
    using that verdict_True_root [of "re_merkle E" "re_db E" "re_light E" d]
    by (auto simp: checksum_disagrees_def linked_def split: sum.splits)
  then show ?thesis using p v2 assms(5) by (auto simp: verifyChainReorg_def linked_def Let_def)
qed

lemma restore_never_False: "fst (restore_and_report E ls tip ws) \<noteq> Inr False"
  by (simp add: restore_and_report_def split: sum.splits prod.splits)

subsection \<open>Properties\<close>

text \<open>
  C9: a reorganisation reverts the node to the last good block below the tip, and no further. When every
  block below the tip is known to the node and to the Bitcoin client, the listeners are told to revert from the
  block above the last block on or below the fork whose checksum proofs hold: every block they are
  told to drop differs from the Bitcoin chain or has bad proofs, and the block they keep has good proofs.
  If no block agrees, they revert to block 0; if no block at or below the fork has good proofs, the watchdog throws
  and no listener is called.\<close>

theorem reorg_reverts_to_last_good_block:
  assumes "db_ok (re_db E)" "hv_ok (re_db E) (rw_validator w)" "known_below E (nat tip)"
    and "0 < tip" "re_db E (- 1) = None"
  shows "case fork_point E (nat tip) of
      Some g \<Rightarrow>
        int g + 1 \<le> tip
        \<and> (\<forall>j. g < j \<and> j < nat tip \<longrightarrow> \<not> agrees E j \<or> \<not> proofs_hold E j)
        \<and> ((\<exists>k < nat tip. agrees E k) \<longrightarrow> proofs_hold E g)
        \<and> (\<exists>w' d. re_db E (int g) = Some d \<and> rw_lastBlock w' = no_block
             \<and> hv_ok (re_db E) (rw_validator w')
             \<and> restoreBlockchain E ls tip (w, s)
                 = (let (r, s') = notifyReorgListeners ls (int g + 1) tip (bh_hash d) s in (r, w', s')))
    | None \<Rightarrow> (\<exists>k < nat tip. agrees E k \<and> (\<forall>j \<le> k. \<not> proofs_hold E j))
        \<and> (\<exists>w'. restoreBlockchain E ls tip (w, s) = (Inl LastGoodHeaderMissing, w', s))"
proof -
  obtain v1 where v1: "revertToLastGoodBlock E tip (rw_validator w)
      = (Inr (block_number (fork_point E (nat tip))), v1)" "hv_ok (re_db E) v1"
    using revertToLastGoodBlock_spec [OF assms(1-3)] by blast
  show ?thesis
  proof (cases "fork_point E (nat tip)")
    case None
    then have "\<exists>k < nat tip. agrees E k \<and> (\<forall>j \<le> k. \<not> proofs_hold E j)" by (rule fork_point_None)
    moreover have "\<exists>w'. restoreBlockchain E ls tip (w, s) = (Inl LastGoodHeaderMissing, w', s)"
      using v1(1) None assms(5) by (simp add: restoreBlockchain_def block_number_def)
    ultimately show ?thesis using None by simp
  next
    case (Some g)
    have pos: "0 < nat tip" using assms(4) by simp
    note fp = fork_point_Some [OF Some pos]
    from fp(1) assms(3) obtain d where d: "re_db E (int g) = Some d" by (auto simp: known_below_def)
    define w' where "w' = w\<lparr>rw_validator := v1, rw_lastBlock := no_block\<rparr>"
    have "restoreBlockchain E ls tip (w, s)
        = (let (r, s') = notifyReorgListeners ls (int g + 1) tip (bh_hash d) s in (r, w', s'))"
      using v1(1) Some d by (simp add: restoreBlockchain_def block_number_def w'_def split: prod.splits)
    moreover have "rw_lastBlock w' = no_block" "hv_ok (re_db E) (rw_validator w')"
      using v1(2) by (simp_all add: w'_def)
    moreover have "int g + 1 \<le> tip" using fp(1) by linarith
    ultimately show ?thesis using Some fp(2,3) d by fastforce
  qed
qed

text \<open>
  exactly when a block passes the check. With a stored block below it, the block is accepted if and
  only if the node is at least 100 blocks behind the chain tip (and the check is not forced), or the block names
  the hash and the checksum root of the stored block below, whose own checksum proofs hold, and the
  block is the one the Bitcoin client reports for its height when that height is the tip. An accepted block
  becomes the watchdog's last block, and no listener is called.\<close>

theorem reorg_check_exact:
  assumes "db_ok (re_db E)" "hv_ok (re_db E) (rw_validator w)" "last_block_ok E w"
    and "re_db E (bh_height block - 1) = Some d" "1 < bh_height block"
    and "rw_currentHeader w = Some header"
  shows "(fst (verifyChainReorgForBlock E ls tip block (w, s)) = Inr False \<longleftrightarrow>
      (100 \<le> hi_blockNumber header - tip \<and> \<not> re_alwaysVerify E)
      \<or> (linked E block d \<and> (hi_blockNumber header = tip \<longrightarrow> hi_blockHash header = bh_hash block)))
    \<and> (fst (verifyChainReorgForBlock E ls tip block (w, s)) = Inr False \<longrightarrow>
        rw_lastBlock (fst (snd (verifyChainReorgForBlock E ls tip block (w, s))))
          = \<lparr>lb_hash = Some (bh_hash block), lb_checksum = Some (bh_checksumRoot block),
             lb_blockNumber = Some (bh_height block), lb_opnetBlock = Some block\<rparr>
        \<and> snd (snd (verifyChainReorgForBlock E ls tip block (w, s))) = s)"
proof -
  obtain w1 where "verifyChainReorg E block w = (Inr (\<not> linked E block d), w1)"
    using verifyChainReorg_spec [OF assms(1-5)] by blast
  then show ?thesis using assms(6) restore_never_False [of E ls tip "(w1, s)"]
    by (cases "linked E block d") (auto simp: verifyChainReorgForBlock_def updateBlock_def)
qed

lemma watchdog_init_settles:
  assumes "\<forall>k \<le> n. \<exists>h i. re_getBlockHash E (int k) = Some h \<and> h \<noteq> [] \<and> re_rpcHeader E h = Some i"
  shows "\<exists>w'. ReorgWatchdog_init E n w = (Inr (), w')
    \<and> pendingBlockHeight w' = Inr (case last_below (\<lambda>k. re_db E (int k) \<noteq> None) n of
                                         None \<Rightarrow> - 1 | Some m \<Rightarrow> int m + 1)"
  using assms
proof (induction n arbitrary: w)
  case 0
  then show ?case
    by (auto simp: ReorgWatchdog_init.simps [of E 0] pendingBlockHeight_def)
next
  case (Suc n)
  from Suc.prems obtain h i where h: "re_getBlockHash E (int (Suc n)) = Some h" "h \<noteq> []" "re_rpcHeader E h = Some i"
    by blast
  from Suc.prems have low: "\<forall>k \<le> n. \<exists>h i. re_getBlockHash E (int k) = Some h \<and> h \<noteq> [] \<and> re_rpcHeader E h = Some i"
    by simp
  show ?case
  proof (cases "re_db E (int n)")
    case None
    with h Suc.IH [OF low] show ?thesis
      by (simp add: ReorgWatchdog_init.simps [of E "Suc n"] Let_def)
  next
    case (Some d)
    with h show ?thesis
      by (simp add: ReorgWatchdog_init.simps [of E "Suc n"] pendingBlockHeight_def Let_def)
  qed
qed

text \<open>
  starting the watchdog ends, also on a database with missing blocks. If the Bitcoin client answers for
  every height up to the starting one, \<open>init\<close> returns, and the pending height it settles on is the highest
  height not above the start whose block below is stored, or -1 if no block below the start is stored.\<close>

theorem watchdog_init_returns:
  assumes "\<forall>k \<le> n. \<exists>h i. re_getBlockHash E (int k) = Some h \<and> h \<noteq> [] \<and> re_rpcHeader E h = Some i"
  shows "\<exists>w'. ReorgWatchdog_init E n w = (Inr (), w')
    \<and> pendingBlockHeight w' = Inr (case last_below (\<lambda>k. re_db E (int k) \<noteq> None) n of
                                         None \<Rightarrow> - 1 | Some m \<Rightarrow> int m + 1)"
  using assms by (rule watchdog_init_settles)

subsection \<open>Witnesses\<close>

lemma sample_verdict:
  assumes "previous_checksum db light n = Inr ZERO_HASH"
  shows "checksum_verdict sample_merkle db light (sample_header\<lparr>bh_height := n\<rparr>) = Inr True"
proof -
  let ?d = "sample_header\<lparr>bh_height := n\<rparr>"
  have "commits sample_merkle ?d r i = commits sample_merkle sample_header r i" for r i
    by (simp add: commits_def committed_bytes_def)
  with sample_commits have "verify_checksum sample_merkle ?d (concat sample_leaves) (bh_previousBlockChecksum ?d)
      = Inr True" by (simp only: verify_checksum_True)
  moreover have "merkle_toBytes sample_merkle (bh_checksumRoot ?d) = Inr (concat sample_leaves)"
    "bh_previousBlockChecksum ?d = ZERO_HASH" by (simp_all add: sample_header_def)
  moreover have "bh_checksumRoot ?d \<noteq> []" "bh_receiptRoot ?d \<noteq> []" "bh_storageRoot ?d \<noteq> []" "bh_hash ?d \<noteq> []"
    "bh_merkleRoot ?d \<noteq> []" by (simp_all add: sample_header_def sample_hex_def)
  ultimately show ?thesis using assms by (simp add: checksum_verdict_def)
qed

definition sample_env :: "header_db \<Rightarrow> bool \<Rightarrow> reorg_env" where
  "sample_env db light =
     \<lparr>re_getBlockHash = (\<lambda>n. Some (if n = 0 then ''hb'' else ''new'')),
      re_rpcHeader = (\<lambda>h. Some \<lparr>bi_height = 0, bi_hash = h, bi_previousblockhash = []\<rparr>),
      re_db = db, re_merkle = sample_merkle, re_light = light, re_alwaysVerify = False\<rparr>"

definition forked_db :: header_db where
  "forked_db n = (if n = 0 then Some sample_header
     else if n = 1 then Some (sample_header\<lparr>bh_height := 1, bh_hash := ''old''\<rparr>) else None)"

definition sample_watchdog :: ReorgWatchdog where
  "sample_watchdog = \<lparr>rw_lastBlock = no_block, rw_currentHeader = Some \<lparr>hi_blockNumber = 2, hi_blockHash = ''hz'',
     hi_previousBlockHash = ''hb''\<rparr>, rw_validator = sample_validator\<rparr>"

definition record_listener :: "(bigint \<times> bigint \<times> string) list listener" where
  "record_listener f t b s = (Inr (), s @ [(f, t, b)])"

theorem reorg_reverts_to_last_good_block_witness:
  "\<exists>w'. restoreBlockchain (sample_env forked_db False) [record_listener] 2 (sample_watchdog, [])
     = (Inr (), w', [(1, 2, ''hb'')])"
proof -
  let ?E = "sample_env forked_db False"
  have ok: "db_ok (re_db ?E)" "hv_ok (re_db ?E) (rw_validator sample_watchdog)" "known_below ?E (nat 2)"
    "(0 :: int) < 2" "re_db ?E (- 1) = None"
    by (auto simp: db_ok_def sample_env_def forked_db_def sample_header_def hv_ok_def sample_watchdog_def
        sample_validator_def known_below_def)
  have "previous_checksum forked_db False 0 = Inr ZERO_HASH" by (simp add: previous_checksum_def)
  from sample_verdict [OF this] have "proofs_hold ?E 0"
    by (simp add: proofs_hold_def sample_env_def forked_db_def sample_header_def)
  moreover have "agrees ?E 0" "\<not> agrees ?E 1"
    by (simp_all add: agrees_def sample_env_def forked_db_def sample_header_def)
  ultimately have "fork_point ?E (nat 2) = Some 0"
    by (simp add: fork_point_def numeral_2_eq_2)
  with reorg_reverts_to_last_good_block [OF ok, of "[record_listener]" "[]"]
  have "\<exists>w' d. re_db ?E (int 0) = Some d \<and> restoreBlockchain ?E [record_listener] 2 (sample_watchdog, [])
      = (let (r, s') = notifyReorgListeners [record_listener] (int 0 + 1) 2 (bh_hash d) [] in (r, w', s'))"
    by (simp only: option.case) blast
  moreover have "re_db ?E (int 0) = Some sample_header" "bh_hash sample_header = ''hb''"
    by (simp_all add: sample_env_def forked_db_def sample_header_def)
  ultimately show ?thesis by (auto simp: record_listener_def)
qed

definition single_db :: header_db where
  "single_db n = (if n = 1 then Some (sample_header\<lparr>bh_height := 1\<rparr>) else None)"

definition next_block :: BlockHeaderDocument where
  "next_block = sample_header\<lparr>bh_height := 2, bh_hash := ''hz'', bh_previousBlockHash := ''hb'',
     bh_previousBlockChecksum := bh_checksumRoot sample_header\<rparr>"

theorem reorg_check_exact_witness:
  "fst (verifyChainReorgForBlock (sample_env single_db True) [record_listener] 2 next_block (sample_watchdog, []))
     = Inr False
   \<and> fst (verifyChainReorgForBlock (sample_env single_db True) [] 2 (next_block\<lparr>bh_hash := ''other''\<rparr>)
          (sample_watchdog, ())) \<noteq> Inr False"
proof -
  let ?E = "sample_env single_db True" and ?d = "sample_header\<lparr>bh_height := 1\<rparr>"
  have ok: "db_ok (re_db ?E)" "hv_ok (re_db ?E) (rw_validator sample_watchdog)" "last_block_ok ?E sample_watchdog"
    by (simp_all add: db_ok_def sample_env_def single_db_def hv_ok_def sample_watchdog_def sample_validator_def
        last_block_ok_def known_last_block_def no_block_def)
  have block: "re_db ?E (bh_height next_block - 1) = Some ?d" "1 < bh_height next_block"
    "re_db ?E (bh_height (next_block\<lparr>bh_hash := ''other''\<rparr>) - 1) = Some ?d"
    "1 < bh_height (next_block\<lparr>bh_hash := ''other''\<rparr>)"
    by (simp_all add: next_block_def sample_env_def single_db_def)
  have hdr: "rw_currentHeader sample_watchdog = Some \<lparr>hi_blockNumber = 2, hi_blockHash = ''hz'',
     hi_previousBlockHash = ''hb''\<rparr>" by (simp add: sample_watchdog_def)
  have "previous_checksum single_db True 1 = Inr ZERO_HASH" by (simp add: previous_checksum_def single_db_def)
  from sample_verdict [OF this] have "linked ?E next_block ?d"
    by (simp add: linked_def next_block_def sample_env_def) (simp add: sample_header_def)
  then show ?thesis
    using reorg_check_exact [OF ok block(1,2) hdr, of "[record_listener]" 2 "[]"]
      reorg_check_exact [OF ok block(3,4) hdr, of "[]" 2 "()"]
    by (simp add: next_block_def)
qed

theorem watchdog_init_returns_witness:
  "\<exists>w'. ReorgWatchdog_init (sample_env single_db True) 4 sample_watchdog = (Inr (), w')
     \<and> pendingBlockHeight w' = Inr 2"
proof -
  let ?E = "sample_env single_db True"
  have "\<forall>k \<le> 4. \<exists>h i. re_getBlockHash ?E (int k) = Some h \<and> h \<noteq> [] \<and> re_rpcHeader ?E h = Some i"
    by (simp add: sample_env_def)
  from watchdog_init_returns [OF this, of sample_watchdog]
  show ?thesis by (simp add: sample_env_def single_db_def eval_nat_numeral)
qed

end
