(* ===== verification/Chain_Observer.thy ===== *)
theory Chain_Observer
  imports Consensus_Config Reorg_Watchdog
begin

section \<open>The chain observer\<close>

text \<open>
  \<open>src/src/blockchain-indexer/processor/observer/ChainObserver.ts\<close>: where the node stands (the height it has
  indexed, the next height to schedule, the height of the Bitcoin chain), the height it records in the database to
  resume from, and the consensus height it announces. \<open>getByNetwork\<close> of
  \<open>src/src/db/repositories/BlockchainInfoRepository.ts\<close> answers with the default document when none is
  stored, so the stored document is its one number.

  The Bitcoin client's answers are the fields of \<open>observer_env\<close>; a height is a number below \<open>2\<^sup>5\<^sup>3\<close>, so that the
  conversions between \<open>bigint\<close> and \<open>number\<close> do not round. The read-only mode's subscription to the
  database is left out.
\<close>

record SynchronisationStatus =
  ss_bestBlockHash :: "string option"
  ss_pendingBlockHeight :: bigint
  ss_targetBlockHeight :: bigint
  ss_bestTip :: bigint
  ss_initialBlockDownload :: bool
  ss_isDownloading :: bool
  ss_isReorging :: bool
  ss_isSyncing :: bool
  ss_chain :: "string option"

record ChainObserver =
  co_status :: SynchronisationStatus
  co_consensus :: OPNetConsensus
  co_inProgressBlock :: bigint

record BlockchainInfo =
  ci_bestblockhash :: string
  ci_chain :: string
  ci_initialblockdownload :: bool

record observer_env =
  oe_getBlockCount :: "bigint option"
  oe_getChainInfo :: "BlockchainInfo option"
  oe_config :: node_config
  oe_table :: consensus_table

datatype observer_error = InvalidFromHeight | ChainHeightNotFound | ChainInfoNotFound
  | ConsensusHeightNotSet | NextBestTipTooHigh | ChainNotSet

definition synchronisationStatus :: SynchronisationStatus where
  "synchronisationStatus = \<lparr>ss_bestBlockHash = None, ss_pendingBlockHeight = 0, ss_targetBlockHeight = 0,
     ss_bestTip = 0, ss_initialBlockDownload = False, ss_isDownloading = False, ss_isReorging = False,
     ss_isSyncing = False, ss_chain = None\<rparr>"

abbreviation pending :: "ChainObserver \<Rightarrow> bigint" where
  "pending o1 \<equiv> ss_pendingBlockHeight (co_status o1)"

abbreviation target :: "ChainObserver \<Rightarrow> bigint" where
  "target o1 \<equiv> ss_targetBlockHeight (co_status o1)"

abbreviation bestTip :: "ChainObserver \<Rightarrow> bigint" where
  "bestTip o1 \<equiv> ss_bestTip (co_status o1)"

definition chain :: "ChainObserver \<Rightarrow> observer_error + string" where
  "chain o1 = (case ss_chain (co_status o1) of
     None \<Rightarrow> Inl ChainNotSet | Some c \<Rightarrow> if c = [] then Inl ChainNotSet else Inr c)"

definition nextBestTip :: "ChainObserver \<Rightarrow> (observer_error + bigint) \<times> ChainObserver" where
  "nextBestTip o1 =
     (if bestTip o1 > target o1 then (Inl NextBestTipTooHigh, o1)
      else (Inr (bestTip o1), o1\<lparr>co_status := (co_status o1)\<lparr>ss_bestTip := bestTip o1 + 1\<rparr>\<rparr>))"

definition set_nextBestTip :: "bigint \<Rightarrow> ChainObserver \<Rightarrow> ChainObserver" where
  "set_nextBestTip block o1 = o1\<lparr>co_status := (co_status o1)\<lparr>ss_bestTip := block\<rparr>\<rparr>"

definition set_targetBlockHeight :: "bigint \<Rightarrow> ChainObserver \<Rightarrow> ChainObserver" where
  "set_targetBlockHeight block o1 = o1\<lparr>co_status := (co_status o1)\<lparr>ss_targetBlockHeight := block\<rparr>\<rparr>"

definition set_bestBlockHash :: "string \<Rightarrow> ChainObserver \<Rightarrow> ChainObserver" where
  "set_bestBlockHash h o1 = o1\<lparr>co_status := (co_status o1)\<lparr>ss_bestBlockHash := Some h\<rparr>\<rparr>"

definition updateStatus :: "ChainObserver \<Rightarrow> ChainObserver" where
  "updateStatus o1 =
     o1\<lparr>co_status := (co_status o1)\<lparr>ss_isDownloading := pending o1 < target o1,
                                   ss_isSyncing := pending o1 \<noteq> target o1\<rparr>\<rparr>"

definition updateCurrentBlockProgress :: "ChainObserver \<Rightarrow> ChainObserver" where
  "updateCurrentBlockProgress o1 = o1\<lparr>co_inProgressBlock := pending o1 + 1\<rparr>"

definition setNewHeight :: "bigint \<Rightarrow> ChainObserver \<Rightarrow> ChainObserver" where
  "setNewHeight height o1 =
     updateCurrentBlockProgress (o1\<lparr>co_status := (co_status o1)\<lparr>ss_pendingBlockHeight := height\<rparr>\<rparr>)"

definition fetchChainHeight :: "observer_env \<Rightarrow> observer_error + bigint" where
  "fetchChainHeight Env = (case oe_getBlockCount Env of None \<Rightarrow> Inl ChainHeightNotFound | Some n \<Rightarrow> Inr n)"

definition fetchChainInfo :: "observer_env \<Rightarrow> observer_error + BlockchainInfo" where
  "fetchChainInfo Env = (case oe_getChainInfo Env of None \<Rightarrow> Inl ChainInfoNotFound | Some i \<Rightarrow> Inr i)"

definition fetchCurrentHeightFromDB :: "ChainObserver \<Rightarrow> bigint" where
  "fetchCurrentHeightFromDB o1 =
     (let block = co_inProgressBlock o1 in if block \<le> 0 then block else block - 1)"

definition sync :: "observer_env \<Rightarrow> ChainObserver \<Rightarrow> (observer_error + unit) \<times> ChainObserver" where
  "sync Env o1 =
     (case (fetchChainHeight Env, fetchChainInfo Env) of
        (Inl e, _) \<Rightarrow> (Inl e, o1)
      | (Inr h, Inl e) \<Rightarrow> (Inl e, o1)
      | (Inr chainHeight, Inr chainInfo) \<Rightarrow>
          let p = (if REINDEX (oe_config Env) then REINDEX_FROM_BLOCK (oe_config Env)
                   else fetchCurrentHeightFromDB o1)
          in (Inr (), updateStatus (o1\<lparr>co_status := (co_status o1)\<lparr>
                ss_pendingBlockHeight := p, ss_bestTip := p, ss_targetBlockHeight := chainHeight,
                ss_bestBlockHash := Some (ci_bestblockhash chainInfo), ss_chain := Some (ci_chain chainInfo),
                ss_initialBlockDownload := ci_initialblockdownload chainInfo\<rparr>\<rparr>)))"

definition announce_height :: "observer_env \<Rightarrow> bigint \<Rightarrow> ChainObserver \<Rightarrow> (observer_error + unit) \<times> ChainObserver" where
  "announce_height Env h o1 =
     (case setConsensusBlockHeight (oe_config Env) (oe_table Env) (co_consensus o1) h of
        (c, r) \<Rightarrow> (if r = Accepted then Inr () else Inl ConsensusHeightNotSet, o1\<lparr>co_consensus := c\<rparr>))"

definition ChainObserver_init :: "observer_env \<Rightarrow> ChainObserver \<Rightarrow> (observer_error + unit) \<times> ChainObserver" where
  "ChainObserver_init Env o1 =
     (case sync Env o1 of (Inl e, o2) \<Rightarrow> (Inl e, o2) | (Inr u, o2) \<Rightarrow> announce_height Env (bestTip o2) o2)"

definition ChainObserver_onBlockChange :: "BlockHeaderInfo \<Rightarrow> ChainObserver \<Rightarrow> ChainObserver" where
  "ChainObserver_onBlockChange blockInfo o1 =
     updateStatus (set_bestBlockHash (bi_hash blockInfo) (set_targetBlockHeight (bi_height blockInfo) o1))"

definition onChainReorganisation ::
    "observer_env \<Rightarrow> bigint \<Rightarrow> bigint \<Rightarrow> string \<Rightarrow> ChainObserver \<Rightarrow> (observer_error + unit) \<times> ChainObserver" where
  "onChainReorganisation Env fromHeight toHeight newBest o1 =
     (let o2 = o1\<lparr>co_status := (co_status o1)\<lparr>ss_isReorging := True\<rparr>\<rparr> in
      if fromHeight = 0 then (Inl InvalidFromHeight, o2)
      else (let o3 = setNewHeight fromHeight (set_bestBlockHash newBest o2)
            in (case fetchChainHeight Env of
                  Inl e \<Rightarrow> (Inl e, o3)
                | Inr chainHeight \<Rightarrow>
                    (case announce_height Env fromHeight o3 of
                       (Inl e, o4) \<Rightarrow> (Inl e, o4)
                     | (Inr u, o4) \<Rightarrow>
                         (Inr (), updateStatus (set_nextBestTip fromHeight (set_targetBlockHeight chainHeight o4)))))))"

subsection \<open>What the operations do to the heights\<close>

lemmas observer_defs = setNewHeight_def updateCurrentBlockProgress_def updateStatus_def
  set_bestBlockHash_def set_targetBlockHeight_def set_nextBestTip_def

lemma setNewHeight_heights [simp]:
  "pending (setNewHeight h o1) = h" "bestTip (setNewHeight h o1) = bestTip o1"
  "target (setNewHeight h o1) = target o1" "co_inProgressBlock (setNewHeight h o1) = h + 1"
  by (simp_all add: observer_defs)

lemma onBlockChange_heights [simp]:
  "pending (ChainObserver_onBlockChange i o1) = pending o1"
  "bestTip (ChainObserver_onBlockChange i o1) = bestTip o1"
  "target (ChainObserver_onBlockChange i o1) = bi_height i"
  "co_inProgressBlock (ChainObserver_onBlockChange i o1) = co_inProgressBlock o1"
  by (simp_all add: ChainObserver_onBlockChange_def observer_defs)

lemma announce_height_heights:
  "announce_height Env h o1 = (r, o2) \<Longrightarrow> co_status o2 = co_status o1 \<and> co_inProgressBlock o2 = co_inProgressBlock o1"
  by (auto simp: announce_height_def split: prod.splits)

lemma onChainReorganisation_ok:
  assumes "onChainReorganisation Env f t b o1 = (Inr (), o2)"
  shows "pending o2 = f" "bestTip o2 = f" "oe_getBlockCount Env = Some (target o2)"
    "co_inProgressBlock o2 = f + 1" "f \<noteq> 0"
  using assms
  by (auto simp: onChainReorganisation_def Let_def fetchChainHeight_def observer_defs
      split: if_splits option.splits sum.splits prod.splits dest!: announce_height_heights)

subsection \<open>Properties\<close>

text \<open>
  a restarted node resumes at the height recorded last. Whatever the observer's memory holds, if the
  document in the database is the one written when height \<open>h\<close> was set and the node is not told to reindex, then
  synchronising puts both the indexed height and the next height to schedule at \<open>h\<close>, and the target at
  the height of the Bitcoin chain; a node told to reindex starts at the configured block instead.\<close>

theorem restart_resumes_at_recorded_height:
  assumes "0 \<le> h" and "co_inProgressBlock o2 = co_inProgressBlock (setNewHeight h o1)"
    and "oe_getBlockCount Env = Some n" and "oe_getChainInfo Env = Some info"
  shows "\<exists>o3. sync Env o2 = (Inr (), o3) \<and> bestTip o3 = pending o3 \<and> target o3 = n
    \<and> pending o3 = (if REINDEX (oe_config Env) then REINDEX_FROM_BLOCK (oe_config Env) else h)
    \<and> (ss_isSyncing (co_status o3) \<longleftrightarrow> pending o3 \<noteq> n)"
  using assms
  by (simp add: sync_def fetchChainHeight_def fetchChainInfo_def fetchCurrentHeightFromDB_def updateStatus_def Let_def)

definition sample_observer :: "bigint \<Rightarrow> ChainObserver" where
  "sample_observer n = \<lparr>co_status = synchronisationStatus, co_consensus = OPNetConsensus_init,
     co_inProgressBlock = n\<rparr>"

definition sample_observer_env :: observer_env where
  "sample_observer_env = \<lparr>oe_getBlockCount = Some 900,
     oe_getChainInfo = Some \<lparr>ci_bestblockhash = ''aa'', ci_chain = ''main'', ci_initialblockdownload = False\<rparr>,
     oe_config = \<lparr>CHAIN_ID = Bitcoin, NETWORK = mainnet, REINDEX = False, REINDEX_FROM_BLOCK = 0\<rparr>,
     oe_table = allConsensus\<rparr>"

theorem restart_resumes_at_recorded_height_witness:
  "\<exists>o3. sync sample_observer_env (sample_observer 701) = (Inr (), o3) \<and> pending o3 = 700 \<and> bestTip o3 = 700
     \<and> target o3 = 900"
  using restart_resumes_at_recorded_height [of 700 "sample_observer 701" "sample_observer 0" sample_observer_env 900
      "\<lparr>ci_bestblockhash = ''aa'', ci_chain = ''main'', ci_initialblockdownload = False\<rparr>"]
  by (auto simp: sample_observer_def sample_observer_env_def)

end
