(* ===== verification/Block_Indexer.thy ===== *)
theory Block_Indexer
  imports Chain_Observer
begin

section \<open>The block indexer\<close>

text \<open>
  \<open>src/src/blockchain-indexer/processor/BlockIndexer.ts\<close> and the life cycle of
  \<open>src/src/blockchain-indexer/processor/tasks/IndexingTask.ts\<close>: the indexer keeps a queue of prefetched
  tasks, runs one of them at a time, and cancels all of them when the chain is reverted.

  The code between two \<open>await\<close>s is one function on the state; what may happen while the indexer waits is the
  step relation \<open>indexer_step\<close>: a block notification, progress or failure of the running task, and the
  progress of the reverts under way. \<open>ix_running\<close> is the task whose \<open>process\<close> call is pending (the flag
  \<open>taskInProgress\<close> lets the code start no second one) and \<open>ix_hasCurrent\<close> says whether the field
  \<open>currentTask\<close> still refers to it. The phase of a task is the last \<open>await\<close> of \<open>process\<close> and
  \<open>onCompletedTask\<close> before which its abort signal was read: \<open>Finalizing\<close> from the check at the head of
  \<open>finalizeBlock\<close> until the block header is written, \<open>Completing\<close> from the check at the head of
  \<open>onCompletedTask\<close> until the height is set, so that a revert may begin in between. A revert under way is a
  call of \<open>revertChain\<close> that has not returned; the awaits of \<open>stopAllTasks\<close>, which end when the aborted
  prefetches have resolved, and the write of the new height to the database are not interleaved. \<open>ix_stored\<close> are
  the heights whose blocks are in the database. Block execution (a task is finalised or fails), messages to other
  threads and log output are left out; so is the check of the block below when a block is signed, which makes a
  task fail that the relation also lets succeed.
\<close>

datatype task_phase = Executing | Finalizing | Saved | Completing

record IndexingTask =
  it_tip :: bigint
  it_chainReorged :: bool
  it_aborted :: bool
  it_phase :: task_phase

datatype revert_caller = FromRegression | FromWatchdog | FromProcessing

datatype revert_phase = Stopped | StorageReverted | Broken

record revert =
  rv_from :: bigint
  rv_to :: bigint
  rv_newBest :: string
  rv_reorged :: bool
  rv_caller :: revert_caller
  rv_phase :: revert_phase

record indexer_config =
  prefetchQueueSize :: nat
  PROCESS_ONLY_X_BLOCK :: nat

record BlockIndexer =
  ix_chainReorged :: bool
  ix_started :: bool
  ix_taskInProgress :: bool
  ix_hasCurrent :: bool
  ix_running :: "IndexingTask option"
  ix_indexingTasks :: "IndexingTask list"
  ix_processedBlocks :: nat
  ix_observer :: ChainObserver
  ix_header :: "BlockHeaderInfo option"
  ix_reverts :: "revert list"
  ix_stored :: "bigint \<Rightarrow> bool"

datatype indexer_error = TipAboveTarget | ObserverFailure observer_error | BlockHeightNotPositive
  | TwoTasksRunning

definition IndexingTask_new :: "bigint \<Rightarrow> IndexingTask" where
  "IndexingTask_new tip = \<lparr>it_tip = tip, it_chainReorged = False, it_aborted = False, it_phase = Executing\<rparr>"

definition cancel :: "bool \<Rightarrow> IndexingTask \<Rightarrow> IndexingTask" where
  "cancel reorged t = t\<lparr>it_chainReorged := reorged, it_aborted := True\<rparr>"

subsection \<open>Scheduling\<close>

definition nextTask :: "BlockIndexer \<Rightarrow> (indexer_error + unit) \<times> BlockIndexer" where
  "nextTask s =
     (case nextBestTip (ix_observer s) of
        (Inl e, o1) \<Rightarrow> (Inl (ObserverFailure e), s\<lparr>ix_observer := o1\<rparr>)
      | (Inr currentBestTip, o1) \<Rightarrow>
          if target o1 < currentBestTip then (Inl TipAboveTarget, s\<lparr>ix_observer := o1\<rparr>)
          else (Inr (), s\<lparr>ix_observer := o1,
                  ix_indexingTasks := ix_indexingTasks s @ [IndexingTask_new currentBestTip]\<rparr>))"

fun start_loop :: "nat \<Rightarrow> BlockIndexer \<Rightarrow> BlockIndexer" where
  "start_loop 0 s = s"
| "start_loop (Suc n) s =
     (if target (ix_observer s) < bestTip (ix_observer s) then s else start_loop n (snd (nextTask s)))"

definition processNextTask :: "BlockIndexer \<Rightarrow> BlockIndexer" where
  "processNextTask s =
     (if ix_taskInProgress s then s
      else (case ix_indexingTasks s of
              [] \<Rightarrow> s
            | t # ts \<Rightarrow> s\<lparr>ix_taskInProgress := True, ix_hasCurrent := True, ix_running := Some t,
                          ix_indexingTasks := ts\<rparr>))"

definition startTasks :: "indexer_config \<Rightarrow> BlockIndexer \<Rightarrow> BlockIndexer" where
  "startTasks cfg s =
     (if ix_chainReorged s then s
      else (let s1 = start_loop (prefetchQueueSize cfg - length (ix_indexingTasks s)) s
            in if ix_indexingTasks s1 \<noteq> [] then processNextTask s1 else s1))"

definition releaseLockAndCallNextTask :: "indexer_config \<Rightarrow> bool \<Rightarrow> BlockIndexer \<Rightarrow> BlockIndexer" where
  "releaseLockAndCallNextTask cfg mayRestartTask s =
     (let s1 = s\<lparr>ix_taskInProgress := False, ix_hasCurrent := False, ix_running := None\<rparr>
      in if PROCESS_ONLY_X_BLOCK cfg \<noteq> 0 \<and> ix_processedBlocks s1 \<ge> PROCESS_ONLY_X_BLOCK cfg then s1
         else if \<not> mayRestartTask then s1
         else if \<not> ix_chainReorged s1 then startTasks cfg s1
         else s1)"

subsection \<open>Reverting\<close>

definition stopAllTasks :: "bool \<Rightarrow> BlockIndexer \<Rightarrow> BlockIndexer" where
  "stopAllTasks reorged s =
     s\<lparr>ix_running := (if ix_hasCurrent s then map_option (cancel reorged) (ix_running s) else ix_running s),
       ix_hasCurrent := False, ix_indexingTasks := []\<rparr>"

definition revertChain_begin ::
    "bigint \<Rightarrow> bigint \<Rightarrow> string \<Rightarrow> bool \<Rightarrow> revert_caller \<Rightarrow> BlockIndexer \<Rightarrow> BlockIndexer" where
  "revertChain_begin fromHeight toHeight newBest reorged caller s =
     (let s1 = stopAllTasks reorged (s\<lparr>ix_chainReorged := True\<rparr>)
      in s1\<lparr>ix_reverts := ix_reverts s1 @ [\<lparr>rv_from = fromHeight, rv_to = toHeight, rv_newBest = newBest,
              rv_reorged = reorged, rv_caller = caller, rv_phase = Stopped\<rparr>]\<rparr>)"

definition purge_blocks :: "bigint \<Rightarrow> (bigint \<Rightarrow> bool) \<Rightarrow> bigint \<Rightarrow> bool" where
  "purge_blocks blockId stored n \<longleftrightarrow> n < blockId \<and> stored n"

definition reorgFromHeight :: "bigint \<Rightarrow> indexer_error + unit" where
  "reorgFromHeight fromHeight = (if fromHeight \<le> 0 then Inl BlockHeightNotPositive else Inr ())"

definition revertChain_observe ::
    "observer_env \<Rightarrow> revert \<Rightarrow> BlockIndexer \<Rightarrow> (indexer_error + unit) \<times> BlockIndexer" where
  "revertChain_observe Env r s =
     (case onChainReorganisation Env (rv_from r) (rv_to r) (rv_newBest r) (ix_observer s) of
        (Inl e, o1) \<Rightarrow> (Inl (ObserverFailure e), s\<lparr>ix_observer := o1\<rparr>)
      | (Inr u, o1) \<Rightarrow> (if rv_reorged r then reorgFromHeight (rv_from r) else Inr (), s\<lparr>ix_observer := o1\<rparr>))"

text \<open>What the caller of \<open>revertChain\<close> does when the call returns or throws.\<close>

definition after_revert :: "indexer_config \<Rightarrow> bool \<Rightarrow> revert \<Rightarrow> BlockIndexer \<Rightarrow> BlockIndexer" where
  "after_revert cfg returned r s =
     (case rv_caller r of
        FromRegression \<Rightarrow> if returned then startTasks cfg s else s
      | FromWatchdog \<Rightarrow> s
      | FromProcessing \<Rightarrow> releaseLockAndCallNextTask cfg True s)"

subsection \<open>Block notifications and the running task\<close>

definition BlockIndexer_onBlockChange :: "indexer_config \<Rightarrow> BlockHeaderInfo \<Rightarrow> BlockIndexer \<Rightarrow> BlockIndexer" where
  "BlockIndexer_onBlockChange cfg header s =
     (let s1 = s\<lparr>ix_header := Some header, ix_observer := ChainObserver_onBlockChange header (ix_observer s)\<rparr>
      in if PROCESS_ONLY_X_BLOCK cfg \<noteq> 0 \<and> ix_processedBlocks s1 \<ge> PROCESS_ONLY_X_BLOCK cfg then s1
         else if ix_started s1 \<and> \<not> ix_chainReorged s1 \<and> bi_height header > 0
                 \<and> bi_height header \<le> pending (ix_observer s1)
         then revertChain_begin (bi_height header) (pending (ix_observer s1)) (bi_hash header) True FromRegression s1
         else if \<not> ix_started s1 then (startTasks cfg s1)\<lparr>ix_started := True\<rparr>
         else if ix_taskInProgress s1 \<and> ix_indexingTasks s1 \<noteq> [] then s1
         else startTasks cfg s1)"

text \<open>\<open>onCompletedTask\<close> up to the wait for the epoch, and from there on.\<close>

definition onCompletedTask_check :: "IndexingTask \<Rightarrow> bool" where
  "onCompletedTask_check t \<longleftrightarrow> \<not> (it_chainReorged t \<or> it_aborted t)"

definition onCompletedTask :: "indexer_config \<Rightarrow> IndexingTask \<Rightarrow> BlockIndexer \<Rightarrow> indexer_error + BlockIndexer"
  where
  "onCompletedTask cfg t s =
     (if \<not> ix_taskInProgress s then Inl TwoTasksRunning
      else Inr (s\<lparr>ix_observer := setNewHeight (it_tip t) (ix_observer s),
             ix_processedBlocks := (if PROCESS_ONLY_X_BLOCK cfg \<noteq> 0 then Suc (ix_processedBlocks s)
                                    else ix_processedBlocks s)\<rparr>))"

text \<open>The \<open>catch\<close> clause of \<open>processNextTask\<close>.\<close>

definition processing_error :: "indexer_config \<Rightarrow> IndexingTask \<Rightarrow> BlockIndexer \<Rightarrow> BlockIndexer" where
  "processing_error cfg t s =
     (if ix_chainReorged s \<or> \<not> ix_hasCurrent s \<or> it_chainReorged t then releaseLockAndCallNextTask cfg True s
      else (let newHeight = pending (ix_observer s) - 1
            in if newHeight > 0
               then (revertChain_begin (pending (ix_observer s)) newHeight ''processing-error'' False
                       FromProcessing s)\<lparr>ix_running := None\<rparr>
               else releaseLockAndCallNextTask cfg False s))"

subsection \<open>Steps\<close>

text \<open>
  \<open>overlap\<close> says whether the watchdog may report a reorganisation while a revert is under way. \<open>faults\<close> says
  whether the three events may happen from which the scheduler alone does not recover: a notification of a lower
  block while the running task is between the last look at its abort signal and the write that
  follows; a task that fails by itself when no block above 1 is indexed, after which the code asks for a resync; and a
  revert that throws before its purge has ended.

  The watchdog reports, for a task that is still executing, a height above 0 and not above the task's,
  whose block below is stored. A revert that throws before its purge has ended unlocks the node; the
  purge removes blocks from the top down, so it has removed those from some height \<open>k\<close> on, if any.
\<close>

definition finishing :: "BlockIndexer \<Rightarrow> bool" where
  "finishing s \<longleftrightarrow>
     (case ix_running s of None \<Rightarrow> False | Some t \<Rightarrow> it_phase t = Finalizing \<or> it_phase t = Completing)"

inductive indexer_step :: "indexer_config \<Rightarrow> bool \<Rightarrow> bool \<Rightarrow> BlockIndexer \<Rightarrow> BlockIndexer \<Rightarrow> bool"
  for cfg overlap faults where
  block_change: "faults \<or> \<not> finishing s \<or> pending (ix_observer s) < bi_height header \<Longrightarrow>
     indexer_step cfg overlap faults s (BlockIndexer_onBlockChange cfg header s)"
| task_finalizing: "ix_running s = Some t \<Longrightarrow> it_phase t = Executing \<Longrightarrow> \<not> it_aborted t \<Longrightarrow>
     indexer_step cfg overlap faults s (s\<lparr>ix_running := Some (t\<lparr>it_phase := Finalizing\<rparr>)\<rparr>)"
| task_saved: "ix_running s = Some t \<Longrightarrow> it_phase t = Finalizing \<Longrightarrow>
     indexer_step cfg overlap faults s
       (s\<lparr>ix_running := Some (t\<lparr>it_phase := Saved\<rparr>), ix_stored := (ix_stored s)(it_tip t := True)\<rparr>)"
| task_cancelled: "ix_running s = Some t \<Longrightarrow> it_phase t = Saved \<Longrightarrow> \<not> onCompletedTask_check t \<Longrightarrow>
     indexer_step cfg overlap faults s (releaseLockAndCallNextTask cfg True s)"
| task_checked: "ix_running s = Some t \<Longrightarrow> it_phase t = Saved \<Longrightarrow> onCompletedTask_check t \<Longrightarrow>
     indexer_step cfg overlap faults s (s\<lparr>ix_running := Some (t\<lparr>it_phase := Completing\<rparr>)\<rparr>)"
| task_completed: "ix_running s = Some t \<Longrightarrow> it_phase t = Completing \<Longrightarrow> onCompletedTask cfg t s = Inr s1 \<Longrightarrow>
     indexer_step cfg overlap faults s (releaseLockAndCallNextTask cfg True s1)"
| task_failed: "ix_running s = Some t \<Longrightarrow>
     faults \<or> ix_chainReorged s \<or> \<not> ix_hasCurrent s \<or> 1 < pending (ix_observer s) \<Longrightarrow>
     indexer_step cfg overlap faults s (processing_error cfg t s)"
| reorg_detected: "ix_running s = Some t \<Longrightarrow> it_phase t = Executing \<Longrightarrow> overlap \<or> ix_reverts s = [] \<Longrightarrow>
     0 < f \<Longrightarrow> f \<le> it_tip t \<Longrightarrow> ix_stored s (f - 1) \<Longrightarrow>
     indexer_step cfg overlap faults s (revertChain_begin f (it_tip t) newBest True FromWatchdog s)"
| revert_failed: "faults \<Longrightarrow> ix_reverts s = rs @ r # rs' \<Longrightarrow> rv_phase r = Stopped \<Longrightarrow> rv_from r \<le> k \<Longrightarrow>
     indexer_step cfg overlap faults s
       (after_revert cfg False r (s\<lparr>ix_chainReorged := False, ix_reverts := rs @ rs',
          ix_stored := purge_blocks k (ix_stored s)\<rparr>))"
| revert_storage: "ix_reverts s = rs @ r # rs' \<Longrightarrow> rv_phase r = Stopped \<Longrightarrow>
     indexer_step cfg overlap faults s
       (s\<lparr>ix_reverts := rs @ r\<lparr>rv_phase := StorageReverted\<rparr> # rs',
          ix_stored := purge_blocks (rv_from r) (ix_stored s)\<rparr>)"
| revert_done: "ix_reverts s = rs @ r # rs' \<Longrightarrow> rv_phase r = StorageReverted \<Longrightarrow>
     revertChain_observe Env r s = (Inr (), s1) \<Longrightarrow>
     indexer_step cfg overlap faults s
       (after_revert cfg True r (s1\<lparr>ix_chainReorged := False, ix_reverts := rs @ rs'\<rparr>))"
| revert_broken: "ix_reverts s = rs @ r # rs' \<Longrightarrow> rv_phase r = StorageReverted \<Longrightarrow>
     revertChain_observe Env r s = (res, s1) \<Longrightarrow>
     indexer_step cfg overlap faults s
       (after_revert cfg False r (s1\<lparr>ix_reverts := rs @ r\<lparr>rv_phase := Broken\<rparr> # rs'\<rparr>))"

text \<open>
  A node starts without tasks at some height \<open>p\<close>, with the blocks below \<open>p\<close> stored: those at \<open>p\<close> and above
  have just been purged.
\<close>

definition indexer_start :: "BlockIndexer \<Rightarrow> bool" where
  "indexer_start s \<longleftrightarrow> \<not> ix_chainReorged s \<and> \<not> ix_started s \<and> \<not> ix_taskInProgress s \<and> \<not> ix_hasCurrent s
     \<and> ix_running s = None \<and> ix_indexingTasks s = [] \<and> ix_reverts s = []
     \<and> 0 \<le> pending (ix_observer s) \<and> bestTip (ix_observer s) = pending (ix_observer s)
     \<and> ix_stored s = (\<lambda>n. 0 \<le> n \<and> n < pending (ix_observer s))"

inductive indexer_reachable :: "indexer_config \<Rightarrow> bool \<Rightarrow> bool \<Rightarrow> BlockIndexer \<Rightarrow> bool"
  for cfg overlap faults where
  start: "indexer_start s \<Longrightarrow> indexer_reachable cfg overlap faults s"
| step: "indexer_reachable cfg overlap faults s \<Longrightarrow> indexer_step cfg overlap faults s s' \<Longrightarrow>
     indexer_reachable cfg overlap faults s'"

inductive_cases indexer_stepE [consumes 1, case_names block_change task_finalizing task_saved task_cancelled
    task_checked task_completed task_failed reorg_detected revert_failed revert_storage revert_done
    revert_broken]: "indexer_step cfg overlap faults s s'"

subsection \<open>Invariants\<close>

text \<open>The queue holds the heights scheduled last, in order; the running task is the one before them.\<close>

definition scheduled_ok :: "indexer_config \<Rightarrow> BlockIndexer \<Rightarrow> bool" where
  "scheduled_ok cfg s \<longleftrightarrow>
     map it_tip (ix_indexingTasks s)
       = [bestTip (ix_observer s) - int (length (ix_indexingTasks s)) .. bestTip (ix_observer s) - 1]
     \<and> length (ix_indexingTasks s) \<le> prefetchQueueSize cfg
     \<and> (\<forall>t \<in> set (ix_indexingTasks s). \<not> it_aborted t)"

definition running_ok :: "BlockIndexer \<Rightarrow> bool" where
  "running_ok s \<longleftrightarrow>
     (\<forall>t. ix_running s = Some t \<longrightarrow> ix_taskInProgress s \<and>
        (if ix_hasCurrent s
         then \<not> it_aborted t \<and> it_tip t = bestTip (ix_observer s) - int (length (ix_indexingTasks s)) - 1
         else it_aborted t))
     \<and> (ix_hasCurrent s \<longrightarrow> ix_running s \<noteq> None)"

definition locked_ok :: "BlockIndexer \<Rightarrow> bool" where
  "locked_ok s \<longleftrightarrow> (ix_reverts s = [] \<longleftrightarrow> \<not> ix_chainReorged s) \<and> length (ix_reverts s) \<le> 1
     \<and> (ix_chainReorged s \<longrightarrow> ix_indexingTasks s = [] \<and> \<not> ix_hasCurrent s)"

definition indexer_ok :: "indexer_config \<Rightarrow> BlockIndexer \<Rightarrow> bool" where
  "indexer_ok cfg s \<longleftrightarrow> scheduled_ok cfg s \<and> running_ok s \<and> locked_ok s"

lemma indexer_okI: "scheduled_ok cfg s \<Longrightarrow> running_ok s \<Longrightarrow> locked_ok s \<Longrightarrow> indexer_ok cfg s"
  by (simp add: indexer_ok_def)

lemma nextTask_runs:
  assumes "bestTip (ix_observer s) \<le> target (ix_observer s)"
  shows "nextTask s = (Inr (), s\<lparr>ix_observer := (ix_observer s)\<lparr>co_status := (co_status (ix_observer s))
      \<lparr>ss_bestTip := bestTip (ix_observer s) + 1\<rparr>\<rparr>,
      ix_indexingTasks := ix_indexingTasks s @ [IndexingTask_new (bestTip (ix_observer s))]\<rparr>)"
  using assms by (simp add: nextTask_def nextBestTip_def)

lemma nextTask_scheduled:
  assumes "scheduled_ok cfg s" "length (ix_indexingTasks s) < prefetchQueueSize cfg"
    and "bestTip (ix_observer s) \<le> target (ix_observer s)"
  shows "scheduled_ok cfg (snd (nextTask s))"
  using assms(1,2) unfolding scheduled_ok_def nextTask_runs [OF assms(3)]
  by (simp add: IndexingTask_new_def upto_rec2)

lemma start_loop_frame:
  "ix_chainReorged (start_loop n s) = ix_chainReorged s" "ix_taskInProgress (start_loop n s) = ix_taskInProgress s"
  "ix_hasCurrent (start_loop n s) = ix_hasCurrent s" "ix_running (start_loop n s) = ix_running s"
  "ix_reverts (start_loop n s) = ix_reverts s" "ix_stored (start_loop n s) = ix_stored s"
  "pending (ix_observer (start_loop n s)) = pending (ix_observer s)"
  by (induction n arbitrary: s) (simp_all add: nextTask_runs)

lemma start_loop_scheduled:
  "scheduled_ok cfg s \<Longrightarrow> n + length (ix_indexingTasks s) \<le> prefetchQueueSize cfg \<Longrightarrow>
     scheduled_ok cfg (start_loop n s)"
proof (induction n arbitrary: s)
  case (Suc n)
  show ?case
  proof (cases "target (ix_observer s) < bestTip (ix_observer s)")
    case False
    then have "scheduled_ok cfg (snd (nextTask s))" using Suc.prems by (intro nextTask_scheduled) auto
    moreover have "length (ix_indexingTasks (snd (nextTask s))) = Suc (length (ix_indexingTasks s))"
      using False by (simp add: nextTask_runs)
    ultimately show ?thesis using Suc False by simp
  qed (simp add: Suc.prems)
qed simp

lemma start_loop_running: "running_ok s \<Longrightarrow> running_ok (start_loop n s)"
proof (induction n arbitrary: s)
  case (Suc n)
  show ?case
  proof (cases "target (ix_observer s) < bestTip (ix_observer s)")
    case False
    then have "running_ok (snd (nextTask s))" using Suc.prems
      by (auto simp: nextTask_runs running_ok_def)
    with Suc.IH False show ?thesis by simp
  qed (simp add: Suc.prems)
qed simp

lemma processNextTask_ok:
  assumes "scheduled_ok cfg s" "running_ok s" "locked_ok s" "\<not> ix_chainReorged s"
  shows "indexer_ok cfg (processNextTask s)"
proof (cases "ix_taskInProgress s \<or> ix_indexingTasks s = []")
  case True
  with assms show ?thesis by (auto simp: processNextTask_def indexer_ok_def)
next
  case False
  then obtain t ts where q: "ix_indexingTasks s = t # ts" by (cases "ix_indexingTasks s") auto
  let ?b = "bestTip (ix_observer s)"
  from assms(1) q have "it_tip t # map it_tip ts = [?b - int (length ts) - 1 .. ?b - 1]" and "\<not> it_aborted t"
    by (simp_all add: scheduled_ok_def algebra_simps)
  then have "it_tip t = ?b - int (length ts) - 1" "map it_tip ts = [?b - int (length ts) .. ?b - 1]"
    by (simp_all add: upto_rec1)
  with assms q False \<open>\<not> it_aborted t\<close> show ?thesis
    by (auto simp: processNextTask_def indexer_ok_def scheduled_ok_def running_ok_def locked_ok_def)
qed

lemma startTasks_ok:
  assumes "indexer_ok cfg s"
  shows "indexer_ok cfg (startTasks cfg s)"
proof (cases "ix_chainReorged s")
  case False
  let ?s = "start_loop (prefetchQueueSize cfg - length (ix_indexingTasks s)) s"
  have "scheduled_ok cfg ?s"
    using assms by (intro start_loop_scheduled) (auto simp: indexer_ok_def scheduled_ok_def)
  moreover have "running_ok ?s" using assms by (simp add: start_loop_running indexer_ok_def)
  moreover have "locked_ok ?s" using assms False by (simp add: locked_ok_def start_loop_frame indexer_ok_def)
  ultimately show ?thesis using False
    by (simp add: startTasks_def Let_def indexer_okI processNextTask_ok start_loop_frame)
qed (use assms in \<open>simp add: startTasks_def\<close>)

lemma release_ok:
  assumes "indexer_ok cfg s"
  shows "indexer_ok cfg (releaseLockAndCallNextTask cfg b s)"
proof -
  have "indexer_ok cfg (s\<lparr>ix_taskInProgress := False, ix_hasCurrent := False, ix_running := None\<rparr>)"
    using assms by (simp add: indexer_ok_def scheduled_ok_def running_ok_def locked_ok_def)
  then show ?thesis by (simp add: releaseLockAndCallNextTask_def Let_def startTasks_ok)
qed

lemma revertChain_begin_ok:
  assumes "indexer_ok cfg s" "ix_reverts s = []"
  shows "indexer_ok cfg (revertChain_begin f t b reorged caller s)"
  using assms
  by (auto simp: revertChain_begin_def stopAllTasks_def Let_def indexer_ok_def scheduled_ok_def running_ok_def
      locked_ok_def cancel_def)

lemma onBlockChange_ok:
  assumes "indexer_ok cfg s"
  shows "indexer_ok cfg (BlockIndexer_onBlockChange cfg header s)"
proof -
  let ?s = "s\<lparr>ix_header := Some header, ix_observer := ChainObserver_onBlockChange header (ix_observer s)\<rparr>"
  have ok: "indexer_ok cfg ?s"
    using assms by (auto simp: indexer_ok_def scheduled_ok_def running_ok_def locked_ok_def)
  have "indexer_ok cfg (s\<lparr>ix_started := True\<rparr>)" if "indexer_ok cfg s" for s
    using that by (auto simp: indexer_ok_def scheduled_ok_def running_ok_def locked_ok_def)
  with ok startTasks_ok [OF ok] show ?thesis
    by (auto simp: BlockIndexer_onBlockChange_def Let_def intro!: revertChain_begin_ok)
      (auto simp: indexer_ok_def locked_ok_def)
qed

lemma after_revert_ok:
  assumes "indexer_ok cfg s"
  shows "indexer_ok cfg (after_revert cfg b r s)"
  using assms by (simp add: after_revert_def startTasks_ok release_ok split: revert_caller.splits)

lemma task_failed_ok:
  assumes "indexer_ok cfg s" "ix_running s = Some t"
  shows "indexer_ok cfg (processing_error cfg t s)"
proof -
  have "indexer_ok cfg (s'\<lparr>ix_running := None\<rparr>)" if "indexer_ok cfg s'" "\<not> ix_hasCurrent s'" for s'
    using that by (auto simp: indexer_ok_def scheduled_ok_def running_ok_def locked_ok_def)
  moreover have "\<not> ix_hasCurrent (revertChain_begin f t b reorged caller s)" for f t b reorged caller
    by (simp add: revertChain_begin_def stopAllTasks_def Let_def)
  moreover have "ix_reverts s = []" if "\<not> ix_chainReorged s" using assms that by (simp add: indexer_ok_def locked_ok_def)
  ultimately show ?thesis using assms(1)
    by (simp add: processing_error_def Let_def revertChain_begin_ok release_ok)
qed

lemma revertChain_observe_frame: "revertChain_observe Env r s = (res, s1) \<Longrightarrow> \<exists>o1. s1 = s\<lparr>ix_observer := o1\<rparr>"
  by (auto simp: revertChain_observe_def split: sum.splits prod.splits)

text \<open>While the node is locked there is no task in the queue, so the heights may move freely.\<close>

lemma revert_progress_ok:
  assumes "indexer_ok cfg s" "ix_reverts s = rs @ r # rs'"
  shows "indexer_ok cfg (s\<lparr>ix_observer := o1, ix_chainReorged := False, ix_reverts := rs @ rs', ix_stored := st\<rparr>)"
    and "indexer_ok cfg (s\<lparr>ix_observer := o1, ix_reverts := rs @ r' # rs', ix_stored := st\<rparr>)"
proof -
  from assms have "rs = []" "rs' = []" "ix_chainReorged s" "ix_indexingTasks s = []" "\<not> ix_hasCurrent s"
    by (auto simp: indexer_ok_def locked_ok_def)
  with assms(1) show "indexer_ok cfg (s\<lparr>ix_observer := o1, ix_chainReorged := False, ix_reverts := rs @ rs',
      ix_stored := st\<rparr>)"
    and "indexer_ok cfg (s\<lparr>ix_observer := o1, ix_reverts := rs @ r' # rs', ix_stored := st\<rparr>)"
    by (simp_all add: indexer_ok_def scheduled_ok_def running_ok_def locked_ok_def)
qed

lemma task_phase_ok:
  assumes "indexer_ok cfg s" "ix_running s = Some t"
  shows "indexer_ok cfg (s\<lparr>ix_running := Some (t\<lparr>it_phase := ph\<rparr>)\<rparr>)"
    and "indexer_ok cfg (s\<lparr>ix_running := Some (t\<lparr>it_phase := ph\<rparr>), ix_stored := st\<rparr>)"
  using assms by (auto simp: indexer_ok_def scheduled_ok_def running_ok_def locked_ok_def split: if_splits)

lemma onCompletedTask_ok:
  assumes "indexer_ok cfg s" "onCompletedTask cfg t s = Inr s1"
  shows "indexer_ok cfg s1"
  using assms
  by (auto simp: onCompletedTask_def indexer_ok_def scheduled_ok_def running_ok_def locked_ok_def split: if_splits)

lemma indexer_step_ok:
  assumes "indexer_step cfg False faults s s'" "indexer_ok cfg s"
  shows "indexer_ok cfg s'"
  using assms(1)
proof (cases rule: indexer_stepE)
  case (task_completed t s1)
  with onCompletedTask_ok [OF assms(2)] show ?thesis by (simp add: release_ok)
next
  case (revert_failed rs r rs' k)
  with revert_progress_ok(1) [OF assms(2) revert_failed(3), where ?o1.0 = "ix_observer s"] show ?thesis
    by (simp add: after_revert_ok)
next
  case (revert_storage rs r rs')
  with revert_progress_ok(2) [OF assms(2) revert_storage(2), where ?o1.0 = "ix_observer s"] show ?thesis by simp
next
  case (revert_done rs r rs' Env s1)
  then obtain o1 where "s1 = s\<lparr>ix_observer := o1\<rparr>" using revertChain_observe_frame by blast
  with revert_done revert_progress_ok(1) [OF assms(2) revert_done(2), where ?o1.0 = o1 and st = "ix_stored s"] show ?thesis
    by (simp add: after_revert_ok)
next
  case (revert_broken rs r rs' Env res s1)
  then obtain o1 where "s1 = s\<lparr>ix_observer := o1\<rparr>" using revertChain_observe_frame by blast
  with revert_broken revert_progress_ok(2) [OF assms(2) revert_broken(2), where ?o1.0 = o1 and st = "ix_stored s"] show ?thesis
    by (simp add: after_revert_ok)
qed (use assms(2) in \<open>auto simp: onBlockChange_ok task_failed_ok revertChain_begin_ok task_phase_ok release_ok\<close>)

lemma indexer_start_ok: "indexer_start s \<Longrightarrow> indexer_ok cfg s"
  by (auto simp: indexer_start_def indexer_ok_def scheduled_ok_def running_ok_def locked_ok_def)

lemma indexer_reachable_ok: "indexer_reachable cfg False faults s \<Longrightarrow> indexer_ok cfg s"
  by (induction rule: indexer_reachable.induct) (auto simp: indexer_start_ok indexer_step_ok)

subsection \<open>The stored chain\<close>

text \<open>
  The next height to be stored, as the scheduler has it: that of the current task while its block is not written, then
  that of the first queued task, then the next height to schedule.
\<close>

fun unwritten :: "IndexingTask option \<Rightarrow> bool" where
  "unwritten None = False"
| "unwritten (Some t) = (it_phase t = Executing \<or> it_phase t = Finalizing)"

definition next_unstored :: "BlockIndexer \<Rightarrow> bigint" where
  "next_unstored s =
     bestTip (ix_observer s) - int (length (ix_indexingTasks s)) -
       (if ix_hasCurrent s \<and> unwritten (ix_running s) then 1 else 0)"

definition tasks_ok :: "BlockIndexer \<Rightarrow> bool" where
  "tasks_ok s \<longleftrightarrow> (\<forall>t \<in> set (ix_indexingTasks s). it_phase t = Executing \<and> \<not> it_chainReorged t)
     \<and> (\<forall>t. ix_running s = Some t \<longrightarrow> (ix_hasCurrent s \<longrightarrow> \<not> it_chainReorged t)
          \<and> (it_aborted t \<longrightarrow> it_phase t = Executing \<or> it_phase t = Saved))"

definition chain_ok :: "bigint \<Rightarrow> BlockIndexer \<Rightarrow> bool" where
  "chain_ok h s \<longleftrightarrow> 0 \<le> h \<and> ix_stored s = (\<lambda>n. 0 \<le> n \<and> n < h) \<and> tasks_ok s
     \<and> (ix_reverts s = [] \<longrightarrow> next_unstored s = h \<and> pending (ix_observer s) \<le> h)
     \<and> (\<forall>r \<in> set (ix_reverts s). 0 < rv_from r \<and> rv_from r \<le> h \<and> (rv_phase r = Stopped \<or> rv_from r = h))"

lemma nextTask_chain:
  assumes "bestTip (ix_observer s) \<le> target (ix_observer s)"
  shows "chain_ok h (snd (nextTask s)) \<longleftrightarrow> chain_ok h s"
  by (simp add: nextTask_runs [OF assms] chain_ok_def tasks_ok_def next_unstored_def IndexingTask_new_def)

lemma start_loop_chain: "chain_ok h (start_loop n s) \<longleftrightarrow> chain_ok h s"
  by (induction n arbitrary: s) (simp_all add: nextTask_chain)

lemma processNextTask_chain:
  assumes "chain_ok h s" "running_ok s"
  shows "chain_ok h (processNextTask s)"
proof (cases "ix_taskInProgress s \<or> ix_indexingTasks s = []")
  case True
  with assms(1) show ?thesis by (auto simp: processNextTask_def)
next
  case False
  then obtain t ts where q: "ix_indexingTasks s = t # ts" by (cases "ix_indexingTasks s") auto
  from assms(2) False have "ix_running s = None" "\<not> ix_hasCurrent s"
    by (cases "ix_running s"; simp add: running_ok_def)+
  with assms(1) False q show ?thesis
    by (auto simp: processNextTask_def chain_ok_def tasks_ok_def next_unstored_def)
qed

lemma startTasks_chain:
  assumes "chain_ok h s" "running_ok s"
  shows "chain_ok h (startTasks cfg s)"
  using assms by (simp add: startTasks_def Let_def processNextTask_chain start_loop_chain start_loop_running)

lemma release_chain:
  assumes "chain_ok h s" "running_ok s"
    and "ix_reverts s = [] \<Longrightarrow> ix_hasCurrent s \<Longrightarrow> ix_running s = Some t \<and> (it_phase t = Saved \<or> it_phase t = Completing)"
  shows "chain_ok h (releaseLockAndCallNextTask cfg b s)"
proof -
  let ?s = "s\<lparr>ix_taskInProgress := False, ix_hasCurrent := False, ix_running := None\<rparr>"
  have "chain_ok h ?s"
    using assms(1,3) by (cases "ix_hasCurrent s")
      (auto simp: chain_ok_def tasks_ok_def next_unstored_def split: option.splits)
  moreover have "running_ok ?s" by (simp add: running_ok_def)
  ultimately show ?thesis by (simp add: releaseLockAndCallNextTask_def Let_def startTasks_chain)
qed

lemma release_idle_chain:
  "chain_ok h s \<Longrightarrow> running_ok s \<Longrightarrow> \<not> ix_hasCurrent s \<Longrightarrow> chain_ok h (releaseLockAndCallNextTask cfg b s)"
  by (rule release_chain) auto

lemma revertChain_begin_chain:
  assumes "chain_ok h s" "\<not> finishing s \<or> \<not> ix_hasCurrent s" "0 < f" "f \<le> h"
  shows "chain_ok h (revertChain_begin f t b reorged caller s)"
proof -
  let ?s = "revertChain_begin f t b reorged caller s"
  have "it_phase u = Executing \<or> it_phase u = Saved" if "ix_running s = Some u" "ix_hasCurrent s" for u
    using assms(2) that by (cases "it_phase u") (auto simp: finishing_def)
  then have "tasks_ok ?s"
    using assms(1) by (auto simp: chain_ok_def tasks_ok_def revertChain_begin_def stopAllTasks_def Let_def cancel_def)
  then show ?thesis using assms(1,3,4)
    by (auto simp: chain_ok_def revertChain_begin_def stopAllTasks_def Let_def)
qed

lemma after_revert_chain:
  assumes "chain_ok h s" "running_ok s" "\<not> ix_hasCurrent s"
  shows "chain_ok h (after_revert cfg b r s)"
  using assms by (simp add: after_revert_def startTasks_chain release_idle_chain split: revert_caller.splits)

lemma onBlockChange_chain:
  assumes "chain_ok h s" "indexer_ok cfg s" "\<not> finishing s \<or> pending (ix_observer s) < bi_height header"
  shows "chain_ok h (BlockIndexer_onBlockChange cfg header s)"
proof -
  let ?s = "s\<lparr>ix_header := Some header, ix_observer := ChainObserver_onBlockChange header (ix_observer s)\<rparr>"
  have ch: "chain_ok h ?s" using assms(1) by (simp add: chain_ok_def tasks_ok_def next_unstored_def)
  have run: "running_ok ?s" using assms(2) by (auto simp: indexer_ok_def running_ok_def)
  have "chain_ok h (s'\<lparr>ix_started := True\<rparr>)" if "chain_ok h s'" for s'
    using that by (simp add: chain_ok_def tasks_ok_def next_unstored_def)
  note started = this [OF startTasks_chain [OF ch run]]
  have revert: "chain_ok h (revertChain_begin f t b True FromRegression ?s)"
    if "f = bi_height header" "bi_height header \<le> pending (ix_observer s)" "\<not> ix_chainReorged s" "0 < f" for f t b
  proof (rule revertChain_begin_chain [OF ch])
    show "\<not> finishing ?s \<or> \<not> ix_hasCurrent ?s" using assms(3) that(2) by (simp add: finishing_def)
    show "0 < f" by (rule that(4))
    have "ix_reverts s = []" using assms(2) that(3) by (simp add: indexer_ok_def locked_ok_def)
    with assms(1) that(1,2) show "f \<le> h" by (simp add: chain_ok_def)
  qed
  show ?thesis
    by (simp add: BlockIndexer_onBlockChange_def Let_def ch started startTasks_chain [OF ch run] revert)
qed

lemma processing_error_chain:
  assumes "chain_ok h s" "indexer_ok cfg s" "ix_running s = Some t"
    and "ix_chainReorged s \<or> \<not> ix_hasCurrent s \<or> 1 < pending (ix_observer s)"
  shows "chain_ok h (processing_error cfg t s)"
proof -
  have run: "running_ok s" and locked: "locked_ok s" using assms(2) by (simp_all add: indexer_ok_def)
  show ?thesis
  proof (cases "ix_chainReorged s \<or> \<not> ix_hasCurrent s")
    case True
    then have "\<not> ix_hasCurrent s" using locked by (auto simp: locked_ok_def)
    with True show ?thesis by (simp add: processing_error_def release_idle_chain [OF assms(1) run])
  next
    case False
    let ?r = "revertChain_begin (pending (ix_observer s)) (pending (ix_observer s) - 1) ''processing-error'' False
      FromProcessing s"
    from assms(1,3) False have "\<not> it_chainReorged t" by (simp add: chain_ok_def tasks_ok_def)
    with False assms(4) have eq: "processing_error cfg t s = ?r\<lparr>ix_running := None\<rparr>"
      by (simp add: processing_error_def Let_def)
    have "ix_reverts s = []" using False locked by (simp add: locked_ok_def)
    with assms(1,4) False show ?thesis unfolding eq
      by (auto simp: chain_ok_def tasks_ok_def revertChain_begin_def stopAllTasks_def Let_def)
  qed
qed

lemma task_phase_chain:
  assumes "chain_ok h s" "running_ok s" "ix_running s = Some t" "\<not> it_aborted t"
    and "ph \<in> {Executing, Finalizing} \<longleftrightarrow> it_phase t \<in> {Executing, Finalizing}"
  shows "chain_ok h (s\<lparr>ix_running := Some (t\<lparr>it_phase := ph\<rparr>)\<rparr>)"
  using assms by (auto simp: chain_ok_def tasks_ok_def next_unstored_def split: if_splits)

text \<open>The write of a block: a task that is being finalised is the current one, and its height is the next.\<close>

lemma task_saved_chain:
  assumes "chain_ok h s" "indexer_ok cfg s" "ix_running s = Some t" "it_phase t = Finalizing"
  shows "chain_ok (h + 1) (s\<lparr>ix_running := Some (t\<lparr>it_phase := Saved\<rparr>), ix_stored := (ix_stored s)(it_tip t := True)\<rparr>)"
proof -
  have "\<not> it_aborted t" using assms(1,3,4) by (auto simp: chain_ok_def tasks_ok_def)
  with assms(2,3) have cur: "ix_hasCurrent s"
    and tip: "it_tip t = bestTip (ix_observer s) - int (length (ix_indexingTasks s)) - 1"
    by (auto simp: indexer_ok_def running_ok_def split: if_splits)
  from cur assms(2) have free: "ix_reverts s = []" by (auto simp: indexer_ok_def locked_ok_def)
  with assms(1,3,4) cur tip have "it_tip t = h" by (simp add: chain_ok_def next_unstored_def)
  moreover have "(\<lambda>n. 0 \<le> n \<and> n < h)(h := True) = (\<lambda>n. 0 \<le> n \<and> n < h + 1)" using assms(1) by (intro ext) (auto simp: chain_ok_def)
  ultimately show ?thesis using assms(1,3,4) free cur tip \<open>\<not> it_aborted t\<close>
    by (auto simp: chain_ok_def tasks_ok_def next_unstored_def)
qed

lemma task_completed_chain:
  assumes "chain_ok h s" "indexer_ok cfg s" "ix_running s = Some t" "it_phase t = Completing"
    and "onCompletedTask cfg t s = Inr s1"
  shows "chain_ok h (releaseLockAndCallNextTask cfg True s1)"
proof -
  have "\<not> it_aborted t" using assms(1,3,4) by (auto simp: chain_ok_def tasks_ok_def)
  with assms(2,3) have cur: "ix_hasCurrent s"
    and tip: "it_tip t = bestTip (ix_observer s) - int (length (ix_indexingTasks s)) - 1"
    by (auto simp: indexer_ok_def running_ok_def split: if_splits)
  from cur assms(2) have "ix_reverts s = []" by (auto simp: indexer_ok_def locked_ok_def)
  with assms(1,3,4) tip have "it_tip t \<le> h" by (simp add: chain_ok_def next_unstored_def)
  with assms(1,5) have "chain_ok h s1"
    by (auto simp: onCompletedTask_def chain_ok_def tasks_ok_def next_unstored_def split: if_splits)
  moreover have "running_ok s1" using onCompletedTask_ok [OF assms(2,5)] by (simp add: indexer_ok_def)
  moreover have "ix_running s1 = Some t" using assms(3,5) by (auto simp: onCompletedTask_def split: if_splits)
  ultimately show ?thesis using assms(4) by (auto intro!: release_chain)
qed

text \<open>The purge of a revert cuts the stored chain at its height; when the revert ends, that is the next height.\<close>

lemma revert_storage_chain:
  assumes "chain_ok h s" "indexer_ok cfg s" "ix_reverts s = rs @ r # rs'"
  shows "chain_ok (rv_from r) (s\<lparr>ix_reverts := rs @ r\<lparr>rv_phase := ph\<rparr> # rs',
    ix_stored := purge_blocks (rv_from r) (ix_stored s)\<rparr>)"
proof -
  from assms(2,3) have "rs = []" "rs' = []" by (auto simp: indexer_ok_def locked_ok_def)
  moreover have "rv_from r \<le> h" using assms(1,3) by (simp add: chain_ok_def)
  then have "purge_blocks (rv_from r) (\<lambda>n. 0 \<le> n \<and> n < h) = (\<lambda>n. 0 \<le> n \<and> n < rv_from r)"
    by (auto simp: purge_blocks_def)
  ultimately show ?thesis using assms(1,3) by (simp add: chain_ok_def tasks_ok_def)
qed

lemma revert_done_chain:
  assumes "chain_ok h s" "indexer_ok cfg s" "ix_reverts s = rs @ r # rs'" "rv_phase r = StorageReverted"
    and "revertChain_observe Env r s = (Inr (), s1)"
  shows "chain_ok h (s1\<lparr>ix_chainReorged := False, ix_reverts := rs @ rs'\<rparr>)"
proof -
  obtain o1 where o1: "onChainReorganisation Env (rv_from r) (rv_to r) (rv_newBest r) (ix_observer s) = (Inr (), o1)"
    "s1 = s\<lparr>ix_observer := o1\<rparr>"
    using assms(5) by (auto simp: revertChain_observe_def split: sum.splits prod.splits)
  from assms(2,3) have "rs = []" "rs' = []" "ix_indexingTasks s = []" "\<not> ix_hasCurrent s"
    by (auto simp: indexer_ok_def locked_ok_def)
  moreover have "rv_from r = h" using assms(1,3,4) by (auto simp: chain_ok_def)
  moreover have "pending o1 = rv_from r" "bestTip o1 = rv_from r" using onChainReorganisation_ok [OF o1(1)] by simp_all
  ultimately show ?thesis using assms(1) o1(2)
    by (simp add: chain_ok_def tasks_ok_def next_unstored_def split: option.splits)
qed

lemma revert_broken_chain:
  assumes "chain_ok h s" "ix_reverts s = rs @ r # rs'" "rv_phase r = StorageReverted"
  shows "chain_ok h (s\<lparr>ix_observer := o1, ix_reverts := rs @ r\<lparr>rv_phase := Broken\<rparr> # rs'\<rparr>)"
  using assms by (auto simp: chain_ok_def tasks_ok_def)

lemma indexer_step_chain:
  assumes "indexer_step cfg False False s s'" "indexer_ok cfg s" "chain_ok h s"
  shows "\<exists>h. chain_ok h s'"
  using assms(1)
proof (cases rule: indexer_stepE)
  case (block_change header)
  with onBlockChange_chain [OF assms(3,2), of header] show ?thesis by auto
next
  case (task_finalizing t)
  with task_phase_chain [OF assms(3), of t Finalizing] assms(2) show ?thesis by (auto simp: indexer_ok_def)
next
  case (task_saved t)
  with task_saved_chain [OF assms(3,2)] show ?thesis by auto
next
  case (task_cancelled t)
  with release_chain [OF assms(3), of t cfg True] assms(2) show ?thesis by (auto simp: indexer_ok_def)
next
  case (task_checked t)
  with task_phase_chain [OF assms(3), of t Completing] assms(2) show ?thesis
    by (auto simp: indexer_ok_def onCompletedTask_check_def)
next
  case (task_completed t s1)
  with task_completed_chain [OF assms(3,2)] show ?thesis by auto
next
  case (task_failed t)
  with processing_error_chain [OF assms(3,2), of t] show ?thesis by auto
next
  case (reorg_detected t f newBest)
  have "f - 1 < h" using reorg_detected assms(3) by (simp add: chain_ok_def)
  moreover have "\<not> finishing s" using reorg_detected by (simp add: finishing_def)
  ultimately have "chain_ok h s'"
    using reorg_detected revertChain_begin_chain [OF assms(3), of f "it_tip t" newBest True FromWatchdog] by simp
  then show ?thesis ..
next
  case (revert_storage rs r rs')
  with revert_storage_chain [OF assms(3,2), of rs r rs' StorageReverted] show ?thesis by auto
next
  case (revert_done rs r rs' Env s1)
  let ?s = "s1\<lparr>ix_chainReorged := False, ix_reverts := rs @ rs'\<rparr>"
  obtain o1 where "s1 = s\<lparr>ix_observer := o1\<rparr>" using revert_done revertChain_observe_frame by blast
  with revert_progress_ok(1) [OF assms(2) revert_done(2), where ?o1.0 = o1 and st = "ix_stored s"]
  have "running_ok ?s" by (simp add: indexer_ok_def)
  moreover have "\<not> ix_hasCurrent ?s"
    using \<open>s1 = _\<close> revert_done(2) assms(2) by (auto simp: indexer_ok_def locked_ok_def)
  ultimately have "chain_ok h s'"
    using revert_done revert_done_chain [OF assms(3,2) revert_done(2,3)] by (auto intro!: after_revert_chain)
  then show ?thesis ..
next
  case (revert_broken rs r rs' Env res s1)
  obtain o1 where o1: "s1 = s\<lparr>ix_observer := o1\<rparr>" using revert_broken revertChain_observe_frame by blast
  with revert_progress_ok(2) [OF assms(2) revert_broken(2), where ?o1.0 = o1 and st = "ix_stored s"]
  have "running_ok (s1\<lparr>ix_reverts := rs @ r\<lparr>rv_phase := Broken\<rparr> # rs'\<rparr>)" by (simp add: indexer_ok_def)
  moreover have "\<not> ix_hasCurrent s1" using o1 revert_broken(2) assms(2) by (auto simp: indexer_ok_def locked_ok_def)
  ultimately have "chain_ok h s'"
    using revert_broken(1) revert_broken_chain [OF assms(3) revert_broken(2,3), of o1] o1
    by (auto intro!: after_revert_chain)
  then show ?thesis ..
qed auto

lemma indexer_reachable_chain: "indexer_reachable cfg False False s \<Longrightarrow> \<exists>h. chain_ok h s"
proof (induction rule: indexer_reachable.induct)
  case (start s)
  then have "chain_ok (pending (ix_observer s)) s"
    by (simp add: chain_ok_def tasks_ok_def next_unstored_def indexer_start_def)
  then show ?case ..
next
  case (step s s')
  then show ?case using indexer_step_chain indexer_reachable_ok by blast
qed

text \<open>What \<open>startTasks\<close> adds to the queue starts at the next height to schedule.\<close>

lemma start_loop_queue:
  "\<exists>ts. ix_indexingTasks (start_loop n s) = ix_indexingTasks s @ ts
     \<and> (\<forall>t \<in> set ts. bestTip (ix_observer s) \<le> it_tip t)
     \<and> (0 < n \<and> bestTip (ix_observer s) \<le> target (ix_observer s) \<longrightarrow>
          ts \<noteq> [] \<and> hd ts = IndexingTask_new (bestTip (ix_observer s)))"
proof (induction n arbitrary: s)
  case (Suc n)
  show ?case
  proof (cases "target (ix_observer s) < bestTip (ix_observer s)")
    case False
    then have le: "bestTip (ix_observer s) \<le> target (ix_observer s)" by simp
    from Suc.IH [of "snd (nextTask s)"] obtain ts where
      "ix_indexingTasks (start_loop n (snd (nextTask s))) = ix_indexingTasks (snd (nextTask s)) @ ts"
      "\<forall>t \<in> set ts. bestTip (ix_observer (snd (nextTask s))) \<le> it_tip t" by blast
    with le show ?thesis
      by (intro exI [of _ "IndexingTask_new (bestTip (ix_observer s)) # ts"])
        (auto simp: nextTask_runs IndexingTask_new_def)
  qed simp
qed simp

lemma startTasks_stored [simp]: "ix_stored (startTasks cfg s) = ix_stored s"
  by (simp add: startTasks_def Let_def processNextTask_def start_loop_frame split: list.splits)

lemma startTasks_from_scratch:
  assumes "\<not> ix_chainReorged s" "\<not> ix_taskInProgress s" "ix_indexingTasks s = []" "0 < prefetchQueueSize cfg"
    and "bestTip (ix_observer s) \<le> target (ix_observer s)"
  shows "ix_running (startTasks cfg s) = Some (IndexingTask_new (bestTip (ix_observer s)))"
    and "\<forall>t \<in> set (ix_indexingTasks (startTasks cfg s)). bestTip (ix_observer s) \<le> it_tip t"
    and "ix_chainReorged (startTasks cfg s) = False" "ix_reverts (startTasks cfg s) = ix_reverts s"
    and "pending (ix_observer (startTasks cfg s)) = pending (ix_observer s)"
proof -
  let ?s = "start_loop (prefetchQueueSize cfg) s"
  obtain ts where ts: "ix_indexingTasks ?s = ts" "\<forall>t \<in> set ts. bestTip (ix_observer s) \<le> it_tip t"
    "ts \<noteq> []" "hd ts = IndexingTask_new (bestTip (ix_observer s))"
    using start_loop_queue [of "prefetchQueueSize cfg" s] assms(3-5) by auto
  then obtain t ts' where cons: "ts = t # ts'" by (cases ts) auto
  have eq: "startTasks cfg s = ?s\<lparr>ix_taskInProgress := True, ix_hasCurrent := True, ix_running := Some t,
      ix_indexingTasks := ts'\<rparr>"
    using ts(1) cons assms(1-3) by (simp add: startTasks_def processNextTask_def start_loop_frame)
  show "ix_running (startTasks cfg s) = Some (IndexingTask_new (bestTip (ix_observer s)))"
    "\<forall>t \<in> set (ix_indexingTasks (startTasks cfg s)). bestTip (ix_observer s) \<le> it_tip t"
    "ix_chainReorged (startTasks cfg s) = False" "ix_reverts (startTasks cfg s) = ix_reverts s"
    "pending (ix_observer (startTasks cfg s)) = pending (ix_observer s)"
    using ts cons assms(1) by (simp_all add: eq start_loop_frame)
qed

subsection \<open>Properties\<close>

text \<open>
  C11: the discipline of the scheduler. As long as no reorganisation is reported while a revert is under
  way, in every reachable state: the queue holds consecutive heights ending just below the next height to
  schedule, at most the configured number, none of them cancelled; the current task is running, not cancelled,
  and has the height right below the queue; exactly when a revert is under way, or broke after it
  had changed the storage, the node is locked, and a locked node has neither a current task nor a
  queue.\<close>

theorem indexer_discipline:
  assumes "indexer_reachable cfg False faults s"
  shows "map it_tip (ix_indexingTasks s)
        = [bestTip (ix_observer s) - int (length (ix_indexingTasks s)) .. bestTip (ix_observer s) - 1]
    \<and> length (ix_indexingTasks s) \<le> prefetchQueueSize cfg
    \<and> (\<forall>t \<in> set (ix_indexingTasks s). \<not> it_aborted t)
    \<and> (ix_hasCurrent s \<longrightarrow> ix_taskInProgress s \<and> (\<exists>t. ix_running s = Some t \<and> \<not> it_aborted t
          \<and> it_tip t = bestTip (ix_observer s) - int (length (ix_indexingTasks s)) - 1))
    \<and> (ix_chainReorged s \<longleftrightarrow> ix_reverts s \<noteq> []) \<and> length (ix_reverts s) \<le> 1
    \<and> (ix_chainReorged s \<longrightarrow> ix_indexingTasks s = [] \<and> \<not> ix_hasCurrent s)"
  using indexer_reachable_ok [OF assms]
  by (auto simp: indexer_ok_def scheduled_ok_def running_ok_def locked_ok_def split: if_splits)

text \<open>
  C3: the scheduler stores the chain without gaps. In every state reached without overlapping reverts
  and without the three faults named above, the stored blocks are those below some height \<open>h\<close>, and unless a
  revert is under way \<open>h\<close> is the next height the scheduler will store: that of the current task until its block
  is written, else the first queued one or the next one to schedule. The node's indexed height is not above it.\<close>

theorem stored_chain_has_no_gaps:
  assumes "indexer_reachable cfg False False s"
  shows "\<exists>h. (\<forall>n. ix_stored s n \<longleftrightarrow> 0 \<le> n \<and> n < h)
    \<and> (\<not> ix_chainReorged s \<longrightarrow> next_unstored s = h \<and> pending (ix_observer s) \<le> h)"
proof -
  obtain h where h: "chain_ok h s" using indexer_reachable_chain [OF assms] by blast
  have "ix_chainReorged s \<longleftrightarrow> ix_reverts s \<noteq> []"
    using indexer_reachable_ok [OF assms] by (auto simp: indexer_ok_def locked_ok_def)
  with h show ?thesis by (intro exI [of _ h]) (simp add: chain_ok_def)
qed

text \<open>
  a revert that throws before it has changed the storage loses the tasks it cancelled. From any state
  with a current task, if the watchdog reports a reorganisation and the revert it starts throws early, the node can
  reach a state in which it is unlocked, no revert is under way and the stored blocks and the indexed height
  are unchanged, but the running task is at the next height to schedule of before: the blocks
  from the cancelled task's height up to it are neither running nor queued.\<close>

theorem failed_revert_skips_blocks:
  assumes reach: "indexer_reachable cfg False True s" and cur: "ix_hasCurrent s" "ix_running s = Some t" "it_phase t = Executing"
    and room: "0 < prefetchQueueSize cfg" "PROCESS_ONLY_X_BLOCK cfg = 0"
      "bestTip (ix_observer s) \<le> target (ix_observer s)"
    and reorg: "0 < f" "f \<le> it_tip t" "ix_stored s (f - 1)"
    and h: "\<forall>n. ix_stored s n \<longrightarrow> n < h"
  shows "\<exists>s' t'. indexer_reachable cfg False True s' \<and> \<not> ix_chainReorged s' \<and> ix_reverts s' = []
    \<and> ix_stored s' = ix_stored s \<and> pending (ix_observer s') = pending (ix_observer s)
    \<and> ix_running s' = Some t' \<and> it_tip t' = bestTip (ix_observer s)
    \<and> (\<forall>n. it_tip t \<le> n \<and> n < bestTip (ix_observer s) \<longrightarrow> n \<notin> set (map it_tip (ix_indexingTasks s')))"
proof -
  have ok: "indexer_ok cfg s" using reach by (rule indexer_reachable_ok)
  with cur have free: "\<not> ix_chainReorged s" "ix_reverts s = []" "ix_taskInProgress s"
    by (auto simp: indexer_ok_def locked_ok_def running_ok_def)
  define r where "r = \<lparr>rv_from = f, rv_to = it_tip t, rv_newBest = [], rv_reorged = True, rv_caller = FromWatchdog,
    rv_phase = Stopped\<rparr>"
  define s2 where "s2 = revertChain_begin f (it_tip t) [] True FromWatchdog s"
  have s2: "ix_reverts s2 = [] @ r # []" "ix_running s2 = Some (cancel True t)" "ix_stored s2 = ix_stored s"
    "\<not> ix_hasCurrent s2" "ix_indexingTasks s2 = []" "ix_observer s2 = ix_observer s"
    using free cur by (simp_all add: s2_def r_def revertChain_begin_def stopAllTasks_def Let_def)
  have reach2: "indexer_reachable cfg False True s2"
    unfolding s2_def using reach by (rule indexer_reachable.step) (use free cur reorg in \<open>auto intro: reorg_detected\<close>)
  define s3 where "s3 = s2\<lparr>ix_chainReorged := False, ix_reverts := [],
    ix_stored := purge_blocks (max h f) (ix_stored s2)\<rparr>"
  have "rv_phase r = Stopped" "rv_from r \<le> max h f" by (simp_all add: r_def)
  from indexer_reachable.step [OF reach2 revert_failed [OF TrueI s2(1) this]]
  have reach3: "indexer_reachable cfg False True s3" by (simp add: s3_def after_revert_def r_def)
  have "purge_blocks (max h f) (ix_stored s) n = ix_stored s n" for n
    using spec [OF h, of n] by (auto simp: purge_blocks_def)
  then have "purge_blocks (max h f) (ix_stored s) = ix_stored s" by (rule ext)
  then have s3: "ix_stored s3 = ix_stored s" "ix_running s3 = Some (cancel True t)" "\<not> ix_hasCurrent s3"
    "ix_indexingTasks s3 = []" "ix_observer s3 = ix_observer s" "\<not> ix_chainReorged s3" "ix_reverts s3 = []"
    using s2 by (simp_all add: s3_def)
  define s4 where "s4 = s3\<lparr>ix_taskInProgress := False, ix_hasCurrent := False, ix_running := None\<rparr>"
  have eq: "processing_error cfg (cancel True t) s3 = startTasks cfg s4"
    using s3 room(2) by (simp add: processing_error_def releaseLockAndCallNextTask_def s4_def)
  have reach5: "indexer_reachable cfg False True (startTasks cfg s4)"
    using indexer_reachable.step [OF reach3 task_failed [OF s3(2) disjI1 [OF TrueI]]] by (simp add: eq)
  have "\<not> ix_chainReorged s4" "\<not> ix_taskInProgress s4" "ix_indexingTasks s4 = []"
    "bestTip (ix_observer s4) \<le> target (ix_observer s4)" using s3 room(3) by (simp_all add: s4_def)
  note st = startTasks_from_scratch [OF this(1-3) room(1) this(4)]
  have obs: "ix_observer s4 = ix_observer s" "ix_reverts s4 = []" "ix_stored s4 = ix_stored s"
    using s3 by (simp_all add: s4_def)
  have "n \<notin> set (map it_tip (ix_indexingTasks (startTasks cfg s4)))" if "n < bestTip (ix_observer s)" for n
    using st(2) that obs(1) by force
  with reach5 st obs show ?thesis
    by (intro exI [of _ "startTasks cfg s4"] exI [of _ "IndexingTask_new (bestTip (ix_observer s))"])
      (simp add: IndexingTask_new_def)
qed

subsection \<open>Runs\<close>

definition sample_config :: indexer_config where
  "sample_config = \<lparr>prefetchQueueSize = 3, PROCESS_ONLY_X_BLOCK = 0\<rparr>"

definition sample_status :: "bigint \<Rightarrow> bigint \<Rightarrow> ChainObserver" where
  "sample_status p b = \<lparr>co_status = synchronisationStatus\<lparr>ss_pendingBlockHeight := p, ss_bestTip := b\<rparr>,
     co_consensus = OPNetConsensus_init, co_inProgressBlock = p + 1\<rparr>"

definition sample_indexer :: BlockIndexer where
  "sample_indexer = \<lparr>ix_chainReorged = False, ix_started = False, ix_taskInProgress = False, ix_hasCurrent = False,
     ix_running = None, ix_indexingTasks = [], ix_processedBlocks = 0, ix_observer = sample_status 10 10,
     ix_header = None, ix_reverts = [], ix_stored = (\<lambda>n. 0 \<le> n \<and> n < 10)\<rparr>"

definition sample_block_info :: "bigint \<Rightarrow> BlockHeaderInfo" where
  "sample_block_info h = \<lparr>bi_height = h, bi_hash = ''b'', bi_previousblockhash = ''a''\<rparr>"

lemma sample_start: "indexer_reachable cfg overlap faults sample_indexer"
  by (rule indexer_reachable.start) (auto simp: indexer_start_def sample_indexer_def sample_status_def)

lemmas run_simps = BlockIndexer_onBlockChange_def sample_config_def sample_indexer_def sample_status_def
  sample_block_info_def synchronisationStatus_def startTasks_def nextTask_def nextBestTip_def
  IndexingTask_new_def processNextTask_def ChainObserver_onBlockChange_def observer_defs
  revertChain_begin_def stopAllTasks_def cancel_def after_revert_def processing_error_def
  releaseLockAndCallNextTask_def purge_blocks_def

definition run1 :: BlockIndexer where
  "run1 = BlockIndexer_onBlockChange sample_config (sample_block_info 15) sample_indexer"

lemma run1_facts:
  "ix_running run1 = Some (IndexingTask_new 10)" "map it_tip (ix_indexingTasks run1) = [11, 12]"
  "ix_hasCurrent run1" "ix_reverts run1 = []"
  by (simp_all add: run1_def run_simps eval_nat_numeral)

lemma run1_reachable: "indexer_reachable sample_config overlap faults run1"
  unfolding run1_def
  by (rule indexer_reachable.step [OF sample_start block_change]) (simp add: finishing_def sample_indexer_def)

lemma run1_more:
  "ix_started run1" "\<not> ix_chainReorged run1" "ix_taskInProgress run1" "ix_processedBlocks run1 = 0"
  "ix_stored run1 = (\<lambda>n. 0 \<le> n \<and> n < 10)" "pending (ix_observer run1) = 10" "bestTip (ix_observer run1) = 13"
  "target (ix_observer run1) = 15" "co_consensus (ix_observer run1) = OPNetConsensus_init"
  by (simp_all add: run1_def run_simps eval_nat_numeral)

theorem indexer_discipline_witness:
  "map it_tip (ix_indexingTasks run1) = [11, 12]
   \<and> (\<exists>t. ix_running run1 = Some t \<and> \<not> it_aborted t \<and> it_tip t = 10)"
proof -
  have len: "length (ix_indexingTasks run1) = 2" using arg_cong [OF run1_facts(2), of length] by simp
  from indexer_discipline [OF run1_reachable] run1_facts(3) obtain t where "ix_running run1 = Some t"
    "\<not> it_aborted t" "it_tip t = bestTip (ix_observer run1) - int (length (ix_indexingTasks run1)) - 1" by blast
  then show ?thesis by (simp add: len run1_more run1_facts(2))
qed

definition run_saved :: BlockIndexer where
  "run_saved = run1\<lparr>ix_running := Some ((IndexingTask_new 10)\<lparr>it_phase := Saved\<rparr>),
     ix_stored := (ix_stored run1)(10 := True)\<rparr>"

lemma run_saved_reachable: "indexer_reachable sample_config overlap faults run_saved"
proof -
  let ?t = "IndexingTask_new 10" and ?s = "run1\<lparr>ix_running := Some ((IndexingTask_new 10)\<lparr>it_phase := Finalizing\<rparr>)\<rparr>"
  have "it_phase ?t = Executing" "\<not> it_aborted ?t" by (simp_all add: IndexingTask_new_def)
  from indexer_reachable.step [OF run1_reachable task_finalizing [OF run1_facts(1) this]]
  have "indexer_reachable sample_config overlap faults ?s" .
  moreover have "indexer_step sample_config overlap faults ?s
      (?s\<lparr>ix_running := Some ((?t\<lparr>it_phase := Finalizing\<rparr>)\<lparr>it_phase := Saved\<rparr>),
          ix_stored := (ix_stored ?s)(it_tip (?t\<lparr>it_phase := Finalizing\<rparr>) := True)\<rparr>)"
    by (rule task_saved) simp_all
  ultimately show ?thesis unfolding run_saved_def
    by (auto dest: indexer_reachable.step simp: IndexingTask_new_def)
qed

theorem stored_chain_has_no_gaps_witness: "ix_stored run_saved 10 \<and> (\<forall>n. ix_stored run_saved n \<longleftrightarrow> 0 \<le> n \<and> n < 11)"
proof -
  have len: "length (ix_indexingTasks run1) = 2" using arg_cong [OF run1_facts(2), of length] by simp
  have "next_unstored run_saved = 11" "\<not> ix_chainReorged run_saved"
    by (simp_all add: run_saved_def next_unstored_def len run1_more)
  with stored_chain_has_no_gaps [OF run_saved_reachable] have
    "\<forall>n. ix_stored run_saved n \<longleftrightarrow> 0 \<le> n \<and> n < 11" by auto
  then show ?thesis by simp
qed

theorem failed_revert_skips_blocks_witness:
  "\<exists>s t. indexer_reachable sample_config False True s \<and> \<not> ix_chainReorged s \<and> ix_reverts s = []
     \<and> pending (ix_observer s) = 10 \<and> ix_running s = Some t \<and> it_tip t = 13
     \<and> \<not> ix_stored s 10 \<and> 10 \<notin> set (map it_tip (ix_indexingTasks s))"
proof -
  have cfg: "0 < prefetchQueueSize sample_config" "PROCESS_ONLY_X_BLOCK sample_config = 0"
    by (simp_all add: sample_config_def)
  have t: "it_phase (IndexingTask_new 10) = Executing" "it_tip (IndexingTask_new 10) = 10" by (simp_all add: IndexingTask_new_def)
  have le: "bestTip (ix_observer run1) \<le> target (ix_observer run1)" "(9 :: int) \<le> it_tip (IndexingTask_new 10)"
    "ix_stored run1 (9 - 1)" by (simp_all add: run1_more t)
  have no10: "\<not> ix_stored run1 10" by (simp add: run1_more)
  obtain s t' where st: "indexer_reachable sample_config False True s" "\<not> ix_chainReorged s" "ix_reverts s = []"
    "ix_stored s = ix_stored run1" "pending (ix_observer s) = pending (ix_observer run1)" "ix_running s = Some t'"
    "it_tip t' = bestTip (ix_observer run1)"
    "\<forall>n. it_tip (IndexingTask_new 10) \<le> n \<and> n < bestTip (ix_observer run1) \<longrightarrow>
       n \<notin> set (map it_tip (ix_indexingTasks s))"
    using failed_revert_skips_blocks [OF run1_reachable run1_facts(3) run1_facts(1) t(1) cfg le(1) _ le(2) le(3), of 10]
    by (force simp: run1_more)
  have "10 \<notin> set (map it_tip (ix_indexingTasks s))" using spec [OF st(8), of 10] by (simp add: t run1_more)
  with st(1-7) no10 show ?thesis by (intro exI [of _ s] exI [of _ t']) (simp add: run1_more)
qed

text \<open>Two reverts at once: a notification of a lower block starts one, and the watchdog, in the middle of its
  check of the task that was running, starts another.\<close>

definition sample_env5 :: observer_env where
  "sample_env5 = \<lparr>oe_getBlockCount = Some 15, oe_getChainInfo = None,
     oe_config = \<lparr>CHAIN_ID = Bitcoin, NETWORK = mainnet, REINDEX = False, REINDEX_FROM_BLOCK = 0\<rparr>,
     oe_table = allConsensus\<rparr>"

definition rev_a :: revert where
  "rev_a = \<lparr>rv_from = 5, rv_to = 10, rv_newBest = ''b'', rv_reorged = True, rv_caller = FromRegression,
     rv_phase = Stopped\<rparr>"

definition rev_b :: revert where
  "rev_b = \<lparr>rv_from = 9, rv_to = 10, rv_newBest = [], rv_reorged = True, rv_caller = FromWatchdog,
     rv_phase = Stopped\<rparr>"

definition run2 :: BlockIndexer where
  "run2 = BlockIndexer_onBlockChange sample_config (sample_block_info 5) run1"

definition run3 :: BlockIndexer where
  "run3 = revertChain_begin 9 10 [] True FromWatchdog run2"

lemma run2_eq: "run2 = revertChain_begin 5 10 ''b'' True FromRegression
    (run1\<lparr>ix_header := Some (sample_block_info 5),
          ix_observer := ChainObserver_onBlockChange (sample_block_info 5) (ix_observer run1)\<rparr>)"
  by (simp add: run2_def BlockIndexer_onBlockChange_def Let_def run1_more)
    (simp add: sample_config_def sample_block_info_def)

lemma run3_facts:
  "ix_running run3 = Some (cancel True (IndexingTask_new 10))" "ix_reverts run3 = [] @ rev_a # [rev_b]"
  "ix_indexingTasks run3 = []" "\<not> ix_hasCurrent run3" "ix_taskInProgress run3" "ix_processedBlocks run3 = 0"
  "co_consensus (ix_observer run3) = OPNetConsensus_init"
  by (simp_all add: run3_def run2_eq revertChain_begin_def stopAllTasks_def Let_def run1_facts run1_more rev_a_def
      rev_b_def ChainObserver_onBlockChange_def observer_defs)

lemma run2_facts: "ix_running run2 = Some (cancel True (IndexingTask_new 10))"
    "ix_stored run2 = (\<lambda>n. 0 \<le> n \<and> n < 10)"
  by (simp_all add: run2_eq revertChain_begin_def stopAllTasks_def Let_def run1_facts run1_more)

lemma run3_reachable: "indexer_reachable sample_config True False run3"
proof -
  have "indexer_reachable sample_config True False run2"
    unfolding run2_def
    by (rule indexer_reachable.step [OF run1_reachable block_change])
      (simp add: finishing_def run1_facts IndexingTask_new_def)
  moreover have "indexer_step sample_config True False run2 (revertChain_begin 9 (it_tip (cancel True (IndexingTask_new 10)))
      [] True FromWatchdog run2)"
    using run2_facts by (intro reorg_detected) (simp_all add: cancel_def IndexingTask_new_def)
  ultimately show ?thesis unfolding run3_def
    by (auto intro: indexer_reachable.step simp: cancel_def IndexingTask_new_def)
qed

lemma reorganise_5:
  assumes "co_consensus o1 = OPNetConsensus_init"
  obtains o2 where "onChainReorganisation sample_env5 5 10 ''b'' o1 = (Inr (), o2)"
proof -
  let ?cfg = "oe_config sample_env5"
  obtain c r where cr: "setConsensusBlockHeight ?cfg allConsensus OPNetConsensus_init 5 = (c, r)" by force
  with tracker_step_roswell [OF tracker_reachable_roswell [OF tracker_reachable.start] cr] have "r = Accepted"
    by (simp add: effective_height_def OPNetConsensus_init_def sample_env5_def)
  with cr assms that show thesis
    by (auto simp: onChainReorganisation_def Let_def announce_height_def fetchChainHeight_def observer_defs
        sample_env5_def)
qed

text \<open>
  the lock of \<open>revertChain\<close> is one flag and not a count, so it does not survive two reverts at once. If the
  watchdog may report a reorganisation while the indexer is already reverting on a notification of
  a lower block, there is a run to a state in which the second revert is still under way and yet the node
  is unlocked and runs a task.\<close>

theorem overlapping_reverts_unlock:
  "\<exists>s t. indexer_reachable sample_config True False s \<and> ix_reverts s = [rev_b] \<and> rv_phase rev_b = Stopped
     \<and> \<not> ix_chainReorged s \<and> ix_running s = Some t \<and> \<not> it_aborted t \<and> it_tip t = 5"
proof -
  define ra where "ra = rev_a\<lparr>rv_phase := StorageReverted\<rparr>"
  define s4 where "s4 = run3\<lparr>ix_reverts := [] @ ra # [rev_b],
    ix_stored := purge_blocks 5 (ix_stored run3)\<rparr>"
  have "rv_phase rev_a = Stopped" "rv_from rev_a = 5" by (simp_all add: rev_a_def)
  with indexer_reachable.step [OF run3_reachable revert_storage [OF run3_facts(2)]]
  have reach4: "indexer_reachable sample_config True False s4" by (simp add: s4_def ra_def)
  obtain o5 where o5: "onChainReorganisation sample_env5 5 10 ''b'' (ix_observer run3) = (Inr (), o5)"
    using run3_facts(7) by (rule reorganise_5)
  define s5 where "s5 = s4\<lparr>ix_observer := o5, ix_chainReorged := False, ix_reverts := [] @ [rev_b]\<rparr>"
  have obs: "revertChain_observe sample_env5 ra s4 = (Inr (), s4\<lparr>ix_observer := o5\<rparr>)"
    using o5 by (simp add: revertChain_observe_def ra_def rev_a_def s4_def reorgFromHeight_def)
  have ra: "ix_reverts s4 = [] @ ra # [rev_b]" "rv_phase ra = StorageReverted" "rv_caller ra = FromRegression"
    by (simp_all add: s4_def ra_def rev_a_def)
  from indexer_reachable.step [OF reach4 revert_done [OF ra(1,2) obs]]
  have reach5: "indexer_reachable sample_config True False (startTasks sample_config s5)"
    by (simp add: after_revert_def ra(3) s5_def)
  let ?s6 = "start_loop 3 s5"
  have o5h: "bestTip o5 = 5" "target o5 = 15"
    using onChainReorganisation_ok [OF o5] by (simp_all add: sample_env5_def)
  have s5: "ix_indexingTasks s5 = []" "ix_taskInProgress s5" "\<not> ix_chainReorged s5" "ix_reverts s5 = [rev_b]"
    "ix_running s5 = Some (cancel True (IndexingTask_new 10))" "\<not> ix_hasCurrent s5" "ix_processedBlocks s5 = 0"
    "ix_observer s5 = o5"
    using run3_facts by (simp_all add: s5_def s4_def)
  obtain ts where ts: "ix_indexingTasks ?s6 = IndexingTask_new 5 # ts"
    using start_loop_queue [of 3 s5] s5 o5h by (auto simp: neq_Nil_conv)
  have len: "length (ix_indexingTasks ?s6) = 3"
    using o5h s5 by (simp add: eval_nat_numeral nextTask_runs)
  have st: "startTasks sample_config s5 = ?s6"
    using s5 ts by (simp add: startTasks_def processNextTask_def start_loop_frame sample_config_def)
  define s7 where "s7 = ?s6\<lparr>ix_taskInProgress := True, ix_hasCurrent := True, ix_running := Some (IndexingTask_new 5),
    ix_indexingTasks := ts\<rparr>"
  have "processing_error sample_config (cancel True (IndexingTask_new 10)) ?s6 = s7"
    using s5 ts len
    by (simp add: processing_error_def releaseLockAndCallNextTask_def startTasks_def processNextTask_def
        start_loop_frame sample_config_def s7_def)
  moreover have "ix_running ?s6 = Some (cancel True (IndexingTask_new 10))" using s5 by (simp add: start_loop_frame)
  ultimately have "indexer_reachable sample_config True False s7"
    using indexer_reachable.step [OF reach5 task_failed] s5 by (simp add: st start_loop_frame)
  moreover have "ix_reverts s7 = [rev_b]" "\<not> ix_chainReorged s7" "ix_running s7 = Some (IndexingTask_new 5)"
    using s5 by (simp_all add: s7_def start_loop_frame)
  ultimately show ?thesis by (force simp: IndexingTask_new_def rev_b_def)
qed

text \<open>
  the check of the abort signal in \<open>onCompletedTask\<close> comes before the wait for the epoch and is not repeated
  after it. If a lower block is notified in between, the revert sets the height back, and then the
  completing task sets it to its own again: the node reaches a state with no revert under way in which the indexed height
  is 10 and no block from 5 on is stored.\<close>

definition run_completing :: BlockIndexer where
  "run_completing = run_saved\<lparr>ix_running := Some ((IndexingTask_new 10)\<lparr>it_phase := Completing\<rparr>)\<rparr>"

definition run_regressed :: BlockIndexer where
  "run_regressed = BlockIndexer_onBlockChange sample_config (sample_block_info 5) run_completing"

lemma run_completing_reachable: "indexer_reachable sample_config overlap faults run_completing"
proof -
  let ?t = "(IndexingTask_new 10)\<lparr>it_phase := Saved\<rparr>"
  have "ix_running run_saved = Some ?t" by (simp add: run_saved_def)
  moreover have "it_phase ?t = Saved" "onCompletedTask_check ?t"
    by (simp_all add: onCompletedTask_check_def IndexingTask_new_def)
  ultimately have "indexer_step sample_config overlap faults run_saved
      (run_saved\<lparr>ix_running := Some (?t\<lparr>it_phase := Completing\<rparr>)\<rparr>)" by (rule task_checked)
  with run_saved_reachable show ?thesis unfolding run_completing_def by (auto dest: indexer_reachable.step)
qed

lemma run_regressed_facts:
  "ix_running run_regressed = Some (cancel True ((IndexingTask_new 10)\<lparr>it_phase := Completing\<rparr>))"
  "ix_reverts run_regressed = [] @ rev_a # []" "ix_indexingTasks run_regressed = []" "\<not> ix_hasCurrent run_regressed"
  "ix_taskInProgress run_regressed" "co_consensus (ix_observer run_regressed) = OPNetConsensus_init"
  "ix_stored run_regressed = (\<lambda>n. 0 \<le> n \<and> n < 10)(10 := True)"
proof -
  have eq: "run_regressed = revertChain_begin 5 10 ''b'' True FromRegression
      (run_completing\<lparr>ix_header := Some (sample_block_info 5),
         ix_observer := ChainObserver_onBlockChange (sample_block_info 5) (ix_observer run_completing)\<rparr>)"
    by (simp add: run_regressed_def BlockIndexer_onBlockChange_def Let_def run_completing_def run_saved_def run1_more)
      (simp add: sample_config_def sample_block_info_def)
  show "ix_running run_regressed = Some (cancel True ((IndexingTask_new 10)\<lparr>it_phase := Completing\<rparr>))"
    "ix_reverts run_regressed = [] @ rev_a # []" "ix_indexingTasks run_regressed = []" "\<not> ix_hasCurrent run_regressed"
    "ix_taskInProgress run_regressed" "co_consensus (ix_observer run_regressed) = OPNetConsensus_init"
    "ix_stored run_regressed = (\<lambda>n. 0 \<le> n \<and> n < 10)(10 := True)"
    unfolding eq
    by (simp_all add: revertChain_begin_def stopAllTasks_def Let_def run_completing_def run_saved_def run1_facts
        run1_more rev_a_def ChainObserver_onBlockChange_def observer_defs)
qed

theorem completion_overtakes_revert:
  "\<exists>s. indexer_reachable sample_config False True s \<and> \<not> ix_chainReorged s \<and> ix_reverts s = []
     \<and> pending (ix_observer s) = 10 \<and> (\<forall>n \<ge> 5. \<not> ix_stored s n)"
proof -
  define ra where "ra = rev_a\<lparr>rv_phase := StorageReverted\<rparr>"
  define s4 where "s4 = run_regressed\<lparr>ix_reverts := [] @ ra # [], ix_stored := purge_blocks 5 (ix_stored run_regressed)\<rparr>"
  have "indexer_reachable sample_config False True run_regressed"
    unfolding run_regressed_def by (rule indexer_reachable.step [OF run_completing_reachable block_change]) simp
  moreover have "rv_phase rev_a = Stopped" "rv_from rev_a = 5" by (simp_all add: rev_a_def)
  ultimately have reach4: "indexer_reachable sample_config False True s4"
    using indexer_reachable.step [OF _ revert_storage [OF run_regressed_facts(2)]] by (simp add: s4_def ra_def)
  obtain o5 where o5: "onChainReorganisation sample_env5 5 10 ''b'' (ix_observer run_regressed) = (Inr (), o5)"
    using run_regressed_facts(6) by (rule reorganise_5)
  define s5 where "s5 = s4\<lparr>ix_observer := o5, ix_chainReorged := False, ix_reverts := [] @ []\<rparr>"
  have obs: "revertChain_observe sample_env5 ra s4 = (Inr (), s4\<lparr>ix_observer := o5\<rparr>)"
    using o5 by (simp add: revertChain_observe_def ra_def rev_a_def s4_def reorgFromHeight_def)
  have ra: "ix_reverts s4 = [] @ ra # []" "rv_phase ra = StorageReverted" "rv_caller ra = FromRegression"
    by (simp_all add: s4_def ra_def rev_a_def)
  define s6 where "s6 = startTasks sample_config s5"
  from indexer_reachable.step [OF reach4 revert_done [OF ra(1,2) obs]]
  have reach6: "indexer_reachable sample_config False True s6" by (simp add: after_revert_def ra(3) s5_def s6_def)
  let ?t = "cancel True ((IndexingTask_new 10)\<lparr>it_phase := Completing\<rparr>)"
  have s5: "ix_running s5 = Some ?t" "ix_taskInProgress s5" "\<not> ix_chainReorged s5" "ix_reverts s5 = []"
    "ix_stored s5 = purge_blocks 5 (ix_stored run_regressed)"
    using run_regressed_facts by (simp_all add: s5_def s4_def)
  then have s6: "ix_running s6 = Some ?t" "ix_taskInProgress s6" "\<not> ix_chainReorged s6" "ix_reverts s6 = []"
    "ix_stored s6 = ix_stored s5"
    by (simp_all add: s6_def startTasks_def Let_def processNextTask_def start_loop_frame)
  define s7 where "s7 = s6\<lparr>ix_observer := setNewHeight 10 (ix_observer s6)\<rparr>"
  have done7: "onCompletedTask sample_config ?t s6 = Inr s7" using s6(2)
    by (simp add: onCompletedTask_def s7_def cancel_def IndexingTask_new_def sample_config_def)
  define s8 where "s8 = s7\<lparr>ix_taskInProgress := False, ix_hasCurrent := False, ix_running := None\<rparr>"
  have "it_phase ?t = Completing" by (simp add: cancel_def)
  from indexer_reachable.step [OF reach6 task_completed [OF s6(1) this done7]] s6(3)
  have reach8: "indexer_reachable sample_config False True (startTasks sample_config s8)"
    by (simp add: releaseLockAndCallNextTask_def Let_def sample_config_def s7_def s8_def)
  have "pending (ix_observer (startTasks sample_config s8)) = 10" "\<not> ix_chainReorged (startTasks sample_config s8)"
    "ix_reverts (startTasks sample_config s8) = []" "\<forall>n \<ge> 5. \<not> ix_stored (startTasks sample_config s8) n"
    using s6 s5(5)
    by (simp_all add: startTasks_def Let_def processNextTask_def start_loop_frame s8_def s7_def purge_blocks_def
        split: list.splits)
  with reach8 show ?thesis by blast
qed

end
