(* ===== verification/Node_Startup.thy ===== *)
theory Node_Startup
  imports Storage_Revert Block_Indexer
begin

section \<open>Starting the indexer\<close>

text \<open>
  \<open>init\<close> of \<open>src/src/blockchain-indexer/processor/BlockIndexer.ts\<close>: the observer reads the recorded height,
  the database is purged from there, the watchdog looks for missing blocks below, and the node reverts
  to the last complete height before it listens to new blocks. The observer's document and the one the
  purge reads are the same row of the database. The result of the epoch reindexing and of the check for
  pending commits are arguments, and so are the answers of the Bitcoin client. Creating the
  header of a light node always throws in the code. Messages to the synchronisation threads are taken to be
  delivered. A failure to tell the plugins of the purge is ignored by the code; in \<open>revertChain\<close> it is not, and
  \<open>plugins\<close> says whether that message is delivered.
\<close>

record startup_config =
  READONLY_MODE :: bool
  EPOCH_REINDEX :: bool
  EPOCH_REINDEX_FROM_EPOCH :: bigint
  RESYNC_BLOCK_HEIGHTS :: bool
  RESYNC_BLOCK_HEIGHTS_UNTIL :: bigint
  LIGHT_MODE_FROM_BLOCK :: bigint
  su_isLightNode :: bool
  su_purge :: purge_config

record node =
  nd_indexer :: BlockIndexer
  nd_storage :: storage
  nd_watchdog :: ReorgWatchdog

datatype startup_error = ObserverInit observer_error | DatabaseLocked | ReindexConflict | NegativeEpoch
  | EpochReindexFailed | ConsensusFailure consensus_error | ResyncFromGenesis | ResyncAboveOPNet | ResyncNotIndexed
  | PurgeDiverged | WatchdogInit reorg_error | RevertFailed indexer_error | PluginsUnreachable

datatype startup_result = ReadOnly | Listening | LightModeFailed

definition stored_heights :: "storage \<Rightarrow> bigint \<Rightarrow> bool" where
  "stored_heights st n \<longleftrightarrow> n \<in> BlockHeaderDocument.bh_height ` set (st_headers st)"

definition observer :: "node \<Rightarrow> ChainObserver" where
  "observer nd = ix_observer (nd_indexer nd)"

definition set_observer :: "ChainObserver \<Rightarrow> node \<Rightarrow> node" where
  "set_observer o1 nd = nd\<lparr>nd_indexer := (nd_indexer nd)\<lparr>ix_observer := o1\<rparr>,
     nd_storage := (nd_storage nd)\<lparr>st_inProgressBlock := co_inProgressBlock o1\<rparr>\<rparr>"

definition set_storage :: "storage \<Rightarrow> node \<Rightarrow> node" where
  "set_storage st nd = nd\<lparr>nd_storage := st, nd_indexer := (nd_indexer nd)\<lparr>ix_stored := stored_heights st\<rparr>\<rparr>"

definition handleEpochReindex :: "startup_config \<Rightarrow> node_config \<Rightarrow> bool \<Rightarrow> startup_error + unit" where
  "handleEpochReindex cfg ncfg reindexed =
     (if REINDEX ncfg then Inl ReindexConflict
      else if EPOCH_REINDEX_FROM_EPOCH cfg < 0 then Inl NegativeEpoch
      else if \<not> reindexed then Inl EpochReindexFailed
      else Inr ())"

definition check_resync :: "startup_config \<Rightarrow> node_config \<Rightarrow> node \<Rightarrow> startup_error + unit" where
  "check_resync cfg ncfg nd =
     (case opnetEnabled ncfg (co_consensus (observer nd)) of
        Inl e \<Rightarrow> Inl (ConsensusFailure e)
      | Inr en \<Rightarrow>
          if OE_ENABLED en \<and> OE_BLOCK en = 0 then Inl ResyncFromGenesis
          else if OE_ENABLED en \<and> RESYNC_BLOCK_HEIGHTS_UNTIL cfg \<ge> OE_BLOCK en then Inl ResyncAboveOPNet
          else (let latestBlockHeight = (case getLatestBlock (st_headers (nd_storage nd)) of None \<Rightarrow> - 1 | Some h \<Rightarrow> h)
                in if latestBlockHeight < RESYNC_BLOCK_HEIGHTS_UNTIL cfg then Inl ResyncNotIndexed else Inr ()))"

definition startup_purge :: "startup_config \<Rightarrow> bigint \<Rightarrow> node \<Rightarrow> startup_error + node" where
  "startup_purge cfg purgeFromBlock nd =
     (case (if RESYNC_BLOCK_HEIGHTS cfg
            then revertBlockHeadersOnly (su_purge cfg) purgeFromBlock (nd_storage nd)
            else revertDataUntilBlock (su_purge cfg) purgeFromBlock None (nd_storage nd)) of
        None \<Rightarrow> Inl PurgeDiverged
      | Some st \<Rightarrow> Inr (set_storage st nd))"

text \<open>\<open>revertChain\<close> without the tasks and the interleaving, as the start of the node calls it.\<close>

definition startup_revertChain ::
    "startup_config \<Rightarrow> observer_env \<Rightarrow> bool \<Rightarrow> bigint \<Rightarrow> bigint \<Rightarrow> string \<Rightarrow> node \<Rightarrow> (startup_error + unit) \<times> node" where
  "startup_revertChain cfg Env plugins fromHeight toHeight newBest nd =
     (let nd1 = nd\<lparr>nd_indexer := (nd_indexer nd)\<lparr>ix_chainReorged := True\<rparr>\<rparr> in
      case revertDataUntilBlock (su_purge cfg) fromHeight (Some True) (nd_storage nd1) of
        None \<Rightarrow> (Inl PurgeDiverged, nd1)
      | Some st \<Rightarrow>
          (let nd2 = set_storage st nd1 in
           case onChainReorganisation Env fromHeight toHeight newBest (observer nd2) of
             (Inl e, o1) \<Rightarrow> (Inl (RevertFailed (ObserverFailure e)), set_observer o1 nd2)
           | (Inr u, o1) \<Rightarrow>
               (let nd3 = set_observer o1 nd2 in
                if \<not> plugins then (Inl PluginsUnreachable, nd3)
                else (Inr (), nd3\<lparr>nd_indexer := (nd_indexer nd3)\<lparr>ix_chainReorged := False\<rparr>\<rparr>))))"

definition onHeightMismatch ::
    "startup_config \<Rightarrow> observer_env \<Rightarrow> bool \<Rightarrow> bigint \<Rightarrow> bigint \<Rightarrow> node \<Rightarrow> (startup_error + unit) \<times> node" where
  "onHeightMismatch cfg Env plugins watchdogHeight originalHeight nd =
     (case startup_revertChain cfg Env plugins watchdogHeight originalHeight ''database-corrupted''
             (nd\<lparr>nd_indexer := (nd_indexer nd)\<lparr>ix_taskInProgress := True\<rparr>\<rparr>) of
        (Inl e, nd1) \<Rightarrow> (Inl e, nd1)
      | (Inr u, nd1) \<Rightarrow> (Inr (), nd1\<lparr>nd_indexer := (nd_indexer nd1)\<lparr>ix_taskInProgress := False\<rparr>\<rparr>))"

definition nodeSyncLightTargetBlock :: "startup_config \<Rightarrow> node \<Rightarrow> bigint" where
  "nodeSyncLightTargetBlock cfg nd = target (observer nd) - LIGHT_MODE_FROM_BLOCK cfg"

definition createLightNodeLastBlock :: "node_config \<Rightarrow> bigint \<Rightarrow> node \<Rightarrow> bool \<times> node" where
  "createLightNodeLastBlock ncfg tip nd =
     (case opnetEnabled ncfg (co_consensus (observer nd)) of
        Inl e \<Rightarrow> (False, nd)
      | Inr en \<Rightarrow>
          if OE_ENABLED en \<and> OE_BLOCK en \<noteq> 0 \<and> OE_BLOCK en < tip then (False, nd)
          else if header_lookup (st_headers (nd_storage nd)) (tip - 2) \<noteq> None then (True, nd)
          else (False, set_observer (set_nextBestTip tip (observer nd)) nd))"

definition verifyMode :: "startup_config \<Rightarrow> node_config \<Rightarrow> node \<Rightarrow> bool \<times> node" where
  "verifyMode cfg ncfg nd =
     (if \<not> su_isLightNode cfg then (True, nd)
      else createLightNodeLastBlock ncfg (nodeSyncLightTargetBlock cfg nd) nd)"

definition startup_finish :: "startup_config \<Rightarrow> node_config \<Rightarrow> node \<Rightarrow> (startup_error + startup_result) \<times> node" where
  "startup_finish cfg ncfg nd =
     (case verifyMode cfg ncfg nd of (ok, nd1) \<Rightarrow> (Inr (if ok then Listening else LightModeFailed), nd1))"

definition startup_watchdog ::
    "startup_config \<Rightarrow> observer_env \<Rightarrow> reorg_env \<Rightarrow> bool \<Rightarrow> bigint \<Rightarrow> node
     \<Rightarrow> (startup_error + startup_result) \<times> node" where
  "startup_watchdog cfg Env E plugins originalHeight nd =
     (case ReorgWatchdog_init (E\<lparr>re_db := header_lookup (st_headers (nd_storage nd))\<rparr>) (nat originalHeight)
             (nd_watchdog nd) of
        (Inl e, w) \<Rightarrow> (Inl (WatchdogInit e), nd\<lparr>nd_watchdog := w\<rparr>)
      | (Inr u, w) \<Rightarrow>
          (let nd1 = nd\<lparr>nd_watchdog := w\<rparr> in
           case pendingBlockHeight w of
             Inl e \<Rightarrow> (Inl (WatchdogInit e), nd1)
           | Inr h \<Rightarrow>
               if h \<noteq> originalHeight \<and> h \<noteq> - 1
               then (case onHeightMismatch cfg Env plugins h originalHeight nd1 of
                       (Inl e, nd2) \<Rightarrow> (Inl e, nd2)
                     | (Inr u, nd2) \<Rightarrow> startup_finish cfg (oe_config Env) nd2)
               else startup_finish cfg (oe_config Env) nd1))"

definition startup_checks :: "startup_config \<Rightarrow> node_config \<Rightarrow> bool \<Rightarrow> bool \<Rightarrow> node \<Rightarrow> startup_error + unit" where
  "startup_checks cfg ncfg mayStart reindexed nd =
     (if \<not> mayStart then Inl DatabaseLocked
      else res_bind (if EPOCH_REINDEX cfg then handleEpochReindex cfg ncfg reindexed else Inr ()) (\<lambda>u.
           if RESYNC_BLOCK_HEIGHTS cfg then check_resync cfg ncfg nd else Inr ()))"

definition BlockIndexer_init ::
    "startup_config \<Rightarrow> observer_env \<Rightarrow> reorg_env \<Rightarrow> bool \<Rightarrow> bool \<Rightarrow> bool \<Rightarrow> node
     \<Rightarrow> (startup_error + startup_result) \<times> node" where
  "BlockIndexer_init cfg Env E mayStart reindexed plugins nd =
     (case ChainObserver_init Env (observer nd) of
        (Inl e, o1) \<Rightarrow> (Inl (ObserverInit e), set_observer o1 nd)
      | (Inr u, o1) \<Rightarrow>
          (let nd1 = set_observer o1 nd in
           if READONLY_MODE cfg then (Inr ReadOnly, nd1)
           else case startup_checks cfg (oe_config Env) mayStart reindexed nd1 of
             Inl e \<Rightarrow> (Inl e, nd1)
           | Inr u \<Rightarrow>
               (let purgeFromBlock = (if REINDEX (oe_config Env) then REINDEX_FROM_BLOCK (oe_config Env)
                                      else pending (observer nd1));
                    originalHeight = pending (observer nd1)
                in case startup_purge cfg purgeFromBlock nd1 of
                     Inl e \<Rightarrow> (Inl e, nd1)
                   | Inr nd2 \<Rightarrow>
                       startup_watchdog cfg Env E plugins originalHeight
                         (set_observer (setNewHeight purgeFromBlock (observer nd2)) nd2))))"

subsection \<open>The state a start leaves\<close>

lemma header_lookup_stored: "header_lookup (st_headers st) n \<noteq> None \<longleftrightarrow> stored_heights st n"
  by (auto simp: header_lookup_def stored_heights_def find_None_iff)

lemma node_updates [simp]:
  "observer (set_observer o1 nd) = o1" "observer (set_storage st nd) = observer nd"
  "nd_storage (set_storage st nd) = st" "st_headers (nd_storage (set_observer o1 nd)) = st_headers (nd_storage nd)"
  "nd_watchdog (set_observer o1 nd) = nd_watchdog nd" "nd_watchdog (set_storage st nd) = nd_watchdog nd"
  "observer (nd\<lparr>nd_watchdog := w\<rparr>) = observer nd"
  by (simp_all add: observer_def set_observer_def set_storage_def)

lemma last_below_cong: "(\<And>k. k < n \<Longrightarrow> P k \<longleftrightarrow> Q k) \<Longrightarrow> last_below P n = last_below Q n"
  by (induction n) auto

text \<open>The indexer before it has done anything, and the height it takes from the database.\<close>

definition fresh_indexer :: "BlockIndexer \<Rightarrow> bool" where
  "fresh_indexer s \<longleftrightarrow> \<not> ix_chainReorged s \<and> \<not> ix_started s \<and> \<not> ix_taskInProgress s \<and> \<not> ix_hasCurrent s
     \<and> ix_running s = None \<and> ix_indexingTasks s = [] \<and> ix_reverts s = []"

definition start_height :: "observer_env \<Rightarrow> ChainObserver \<Rightarrow> bigint" where
  "start_height Env o1 = (if REINDEX (oe_config Env) then REINDEX_FROM_BLOCK (oe_config Env)
     else fetchCurrentHeightFromDB o1)"

definition accepts_height :: "observer_env \<Rightarrow> bigint \<Rightarrow> OPNetConsensus \<Rightarrow> OPNetConsensus \<Rightarrow> bool" where
  "accepts_height Env h c c' \<longleftrightarrow> setConsensusBlockHeight (oe_config Env) (oe_table Env) c h = (c', Accepted)"

lemma ChainObserver_init_ok:
  assumes "oe_getBlockCount Env = Some n" "oe_getChainInfo Env = Some info"
    "accepts_height Env (start_height Env o1) (co_consensus o1) c"
  shows "\<exists>o2. ChainObserver_init Env o1 = (Inr (), o2) \<and> pending o2 = start_height Env o1
    \<and> bestTip o2 = start_height Env o1 \<and> co_consensus o2 = c"
  using assms
  by (simp add: ChainObserver_init_def sync_def fetchChainHeight_def fetchChainInfo_def start_height_def
      accepts_height_def announce_height_def updateStatus_def Let_def)

lemma onChainReorganisation_returns:
  assumes "oe_getBlockCount Env = Some n" "f \<noteq> 0" "accepts_height Env f (co_consensus o1) c"
  shows "\<exists>o2. onChainReorganisation Env f t b o1 = (Inr (), o2) \<and> pending o2 = f \<and> bestTip o2 = f"
  using assms
  by (simp add: onChainReorganisation_def fetchChainHeight_def accepts_height_def announce_height_def
      observer_defs Let_def)

lemma purge_stored_heights:
  assumes "0 \<le> REINDEX_BATCH_SIZE cfg" "revertDataUntilBlock cfg b over st = Some st'"
  shows "stored_heights st' k \<longleftrightarrow> k < b \<and> stored_heights st k"
  using assms(2)
  by (auto simp: revertDataUntilBlock_at_once [OF assms(1)] purge_at_once_documents stored_heights_def)

text \<open>The database purge is the purge of the indexer's model on the heights of the stored headers.\<close>

lemma purge_refines_purge_blocks:
  assumes "0 \<le> REINDEX_BATCH_SIZE cfg" "revertDataUntilBlock cfg b over st = Some st'"
  shows "stored_heights st' = purge_blocks b (stored_heights st)"
  by (intro ext) (simp add: purge_blocks_def purge_stored_heights [OF assms])

lemma startup_revertChain_ok:
  assumes "0 \<le> REINDEX_BATCH_SIZE (su_purge cfg)" "oe_getBlockCount Env = Some n" "f \<noteq> 0" "plugins"
    "accepts_height Env f (co_consensus (observer nd)) c"
  shows "\<exists>nd'. startup_revertChain cfg Env plugins f t b nd = (Inr (), nd')
    \<and> pending (observer nd') = f \<and> bestTip (observer nd') = f
    \<and> ix_stored (nd_indexer nd') = purge_blocks f (stored_heights (nd_storage nd))
    \<and> (fresh_indexer ((nd_indexer nd)\<lparr>ix_taskInProgress := False\<rparr>)
        \<longrightarrow> fresh_indexer ((nd_indexer nd')\<lparr>ix_taskInProgress := False\<rparr>))"
proof -
  let ?st = "purge_at_once (su_purge cfg) f (Some True) (nd_storage nd)"
  note rev = revertDataUntilBlock_at_once [OF assms(1), of f "Some True" "nd_storage nd"]
  obtain o2 where o2: "onChainReorganisation Env f t b (observer nd) = (Inr (), o2)" "pending o2 = f" "bestTip o2 = f"
    using onChainReorganisation_returns [OF assms(2,3,5)] by blast
  have "observer (nd\<lparr>nd_indexer := (nd_indexer nd)\<lparr>ix_chainReorged := True\<rparr>\<rparr>) = observer nd"
    by (simp add: observer_def)
  then show ?thesis using rev o2 assms(4) purge_refines_purge_blocks [OF assms(1) rev]
    by (simp add: startup_revertChain_def Let_def)
      (simp add: set_observer_def set_storage_def observer_def fresh_indexer_def)
qed

text \<open>
  The height after the last stored block below \<open>p\<close>, and \<open>p\<close> itself when no block below it is stored: the watchdog
  then answers \<open>-1\<close>, which \<open>init\<close> takes for no mismatch.
\<close>

definition resume_height :: "storage \<Rightarrow> bigint \<Rightarrow> bigint" where
  "resume_height st p =
     (case last_below (\<lambda>k. stored_heights st (int k)) (nat p) of None \<Rightarrow> p | Some m \<Rightarrow> int m + 1)"

lemma resume_height_bounds:
  assumes "0 \<le> p"
  shows "resume_height st p \<le> p" "0 \<le> resume_height st p" "resume_height st p < p \<Longrightarrow> resume_height st p \<noteq> 0"
    "k < p \<Longrightarrow> 0 \<le> k \<Longrightarrow> stored_heights st k \<Longrightarrow> k < resume_height st p"
proof -
  show "resume_height st p \<le> p" "0 \<le> resume_height st p" "resume_height st p < p \<Longrightarrow> resume_height st p \<noteq> 0"
    using assms by (auto simp: resume_height_def last_below_Some split: option.splits)
  show "k < resume_height st p" if "k < p" "0 \<le> k" "stored_heights st k"
  proof (cases "last_below (\<lambda>k. stored_heights st (int k)) (nat p)")
    case None
    then show ?thesis using that by (simp add: resume_height_def)
  next
    case (Some m)
    then have "\<not> (m < nat k \<and> nat k < nat p)" using that unfolding last_below_Some by auto
    then show ?thesis using that Some by (simp add: resume_height_def)
  qed
qed

definition client_answers :: "reorg_env \<Rightarrow> bigint \<Rightarrow> bool" where
  "client_answers E p \<longleftrightarrow>
     (\<forall>k \<le> nat p. \<exists>h i. re_getBlockHash E (int k) = Some h \<and> h \<noteq> [] \<and> re_rpcHeader E h = Some i)"

lemma watchdog_finds_end:
  assumes "client_answers E p"
  shows "\<exists>w' h. ReorgWatchdog_init (E\<lparr>re_db := header_lookup (st_headers st)\<rparr>) (nat p) w = (Inr (), w')
    \<and> pendingBlockHeight w' = Inr h \<and> (if h = - 1 then resume_height st p = p else h = resume_height st p)"
proof -
  let ?E = "E\<lparr>re_db := header_lookup (st_headers st)\<rparr>"
  have "(\<lambda>k. re_db ?E (int k) \<noteq> None) = (\<lambda>k. stored_heights st (int k))"
    using header_lookup_stored [of st] by (intro ext) simp
  moreover have "\<forall>k \<le> nat p. \<exists>h i. re_getBlockHash ?E (int k) = Some h \<and> h \<noteq> [] \<and> re_rpcHeader ?E h = Some i"
    using assms by (simp add: client_answers_def)
  ultimately obtain w' where w': "ReorgWatchdog_init ?E (nat p) w = (Inr (), w')"
      "pendingBlockHeight w' = Inr (case last_below (\<lambda>k. stored_heights st (int k)) (nat p) of
         None \<Rightarrow> - 1 | Some m \<Rightarrow> int m + 1)"
    using watchdog_init_settles [of "nat p" ?E w] by auto
  show ?thesis
  proof (intro exI conjI)
    show "if (case last_below (\<lambda>k. stored_heights st (int k)) (nat p) of None \<Rightarrow> - 1 | Some m \<Rightarrow> int m + 1) = - 1
      then resume_height st p = p
      else (case last_below (\<lambda>k. stored_heights st (int k)) (nat p) of None \<Rightarrow> - 1 | Some m \<Rightarrow> int m + 1)
        = resume_height st p"
      by (simp add: resume_height_def split: option.splits)
  qed (rule w')+
qed

lemma onHeightMismatch_ok:
  assumes "0 \<le> REINDEX_BATCH_SIZE (su_purge cfg)" "oe_getBlockCount Env = Some n" "q \<noteq> 0" "plugins"
    "accepts_height Env q (co_consensus (observer nd)) c" "fresh_indexer (nd_indexer nd)"
  shows "\<exists>nd'. onHeightMismatch cfg Env plugins q t nd = (Inr (), nd') \<and> pending (observer nd') = q
    \<and> bestTip (observer nd') = q \<and> ix_stored (nd_indexer nd') = purge_blocks q (stored_heights (nd_storage nd))
    \<and> fresh_indexer (nd_indexer nd')"
proof -
  let ?nd = "nd\<lparr>nd_indexer := (nd_indexer nd)\<lparr>ix_taskInProgress := True\<rparr>\<rparr>"
  have same: "observer ?nd = observer nd" "nd_storage ?nd = nd_storage nd" by (simp_all add: observer_def)
  have "fresh_indexer ((nd_indexer ?nd)\<lparr>ix_taskInProgress := False\<rparr>)" using assms(6) by (simp add: fresh_indexer_def)
  then obtain nd' where nd': "startup_revertChain cfg Env plugins q t ''database-corrupted'' ?nd = (Inr (), nd')"
      "pending (observer nd') = q" "bestTip (observer nd') = q"
      "ix_stored (nd_indexer nd') = purge_blocks q (stored_heights (nd_storage nd))"
      "fresh_indexer ((nd_indexer nd')\<lparr>ix_taskInProgress := False\<rparr>)"
    using startup_revertChain_ok [OF assms(1-4), of ?nd c t "''database-corrupted''"] assms(5) same by auto
  then show ?thesis by (simp add: onHeightMismatch_def) (simp add: observer_def)
qed

lemma startup_watchdog_ok:
  assumes "0 \<le> REINDEX_BATCH_SIZE (su_purge cfg)" "oe_getBlockCount Env = Some n" "client_answers E p" "plugins"
    "\<not> su_isLightNode cfg" "fresh_indexer (nd_indexer nd)" "pending (observer nd) = p" "bestTip (observer nd) = p"
    "ix_stored (nd_indexer nd) = stored_heights (nd_storage nd)" "0 \<le> p"
    "\<forall>k. stored_heights (nd_storage nd) k \<longrightarrow> k < p" "q = resume_height (nd_storage nd) p"
    "q < p \<Longrightarrow> accepts_height Env q (co_consensus (observer nd)) c"
  shows "\<exists>nd'. startup_watchdog cfg Env E plugins p nd = (Inr Listening, nd') \<and> pending (observer nd') = q
    \<and> bestTip (observer nd') = q \<and> fresh_indexer (nd_indexer nd')
    \<and> ix_stored (nd_indexer nd') = purge_blocks q (stored_heights (nd_storage nd))"
proof -
  let ?nd = "\<lambda>w. nd\<lparr>nd_watchdog := w\<rparr>"
  obtain w h where w: "ReorgWatchdog_init (E\<lparr>re_db := header_lookup (st_headers (nd_storage nd))\<rparr>) (nat p)
      (nd_watchdog nd) = (Inr (), w)" "pendingBlockHeight w = Inr h" "if h = - 1 then q = p else h = q"
    using watchdog_finds_end [OF assms(3), of "nd_storage nd" "nd_watchdog nd"] assms(12) by blast
  have finish: "startup_finish cfg ncfg nd1 = (Inr Listening, nd1)" for ncfg nd1
    using assms(5) by (simp add: startup_finish_def verifyMode_def)
  have bounds: "q \<le> p" "0 \<le> q" "q < p \<Longrightarrow> q \<noteq> 0" using resume_height_bounds [OF assms(10)] assms(12) by simp_all
  show ?thesis
  proof (cases "q = p")
    case True
    with w(3) have "h = p \<or> h = - 1" by (auto split: if_splits)
    then have "startup_watchdog cfg Env E plugins p nd = (Inr Listening, ?nd w)"
      using w(1,2) by (auto simp: startup_watchdog_def finish Let_def)
    moreover have "purge_blocks p (stored_heights (nd_storage nd)) = stored_heights (nd_storage nd)"
      using assms(11) by (intro ext) (auto simp: purge_blocks_def)
    ultimately show ?thesis using assms(6-9) True by (simp add: observer_def)
  next
    case False
    with bounds w(3) have q: "q < p" "q \<noteq> 0" "h = q" by (auto split: if_splits)
    have "accepts_height Env q (co_consensus (observer (?nd w))) c" "fresh_indexer (nd_indexer (?nd w))"
      using assms(6) assms(13) [OF q(1)] by simp_all
    from onHeightMismatch_ok [OF assms(1,2) q(2) assms(4) this, of p]
    obtain nd' where nd': "onHeightMismatch cfg Env plugins q p (?nd w) = (Inr (), nd')"
        "pending (observer nd') = q" "bestTip (observer nd') = q" "fresh_indexer (nd_indexer nd')"
        "ix_stored (nd_indexer nd') = purge_blocks q (stored_heights (nd_storage nd))"
      by simp blast
    have "startup_watchdog cfg Env E plugins p nd = (Inr Listening, nd')"
      using w(1,2) q nd'(1) bounds(2) by (simp add: startup_watchdog_def finish Let_def)
    then show ?thesis using nd'(2-5) by simp
  qed
qed


subsection \<open>Example\<close>

text \<open>A node recorded at height 4 whose database has lost the blocks 2 and 3.\<close>

definition sample_startup_config :: startup_config where
  "sample_startup_config = \<lparr>READONLY_MODE = False, EPOCH_REINDEX = False, EPOCH_REINDEX_FROM_EPOCH = 0,
     RESYNC_BLOCK_HEIGHTS = False, RESYNC_BLOCK_HEIGHTS_UNTIL = 0, LIGHT_MODE_FROM_BLOCK = 0,
     su_isLightNode = False, su_purge = sample_purge_config\<rparr>"

definition sample_node_state :: node where
  "sample_node_state = \<lparr>nd_indexer = sample_indexer\<lparr>ix_observer := sample_observer 5\<rparr>,
     nd_storage = sample_storage [0, 1, 4, 6], nd_watchdog = sample_watchdog\<rparr>"

lemma sample_accepts:
  assumes "roswell_only s" "0 \<le> h" "h < 953020"
  shows "\<exists>s'. accepts_height sample_observer_env h s s' \<and> roswell_only s'"
proof -
  obtain s' r where step: "setConsensusBlockHeight (oe_config sample_observer_env) allConsensus s h = (s', r)"
    by fastforce
  note t = tracker_step_roswell [OF assms(1) step]
  have "effective_height (oe_config sample_observer_env) s h = h"
    by (simp add: effective_height_def sample_observer_env_def)
  then have "r = Accepted \<and> roswell_only s'" using t assms(2,3) by auto
  then show ?thesis using step by (auto simp: accepts_height_def sample_observer_env_def)
qed


end
