(* ===== verification/Transaction_Sorter.thy ===== *)
theory Transaction_Sorter
  imports Prelude "HOL-Library.Multiset"
begin

section \<open>The order of transactions in a block\<close>

text \<open>
  \<open>src/src/blockchain-indexer/processor/transaction/transaction-sorter/TransactionSorter.ts\<close>: rewards first,
  then the other transactions parents before children, the one of highest effective priority first.

  The priority queue, the hexadecimal encoder and the comparison of byte strings are packages: \<open>dequeue\<close>
  takes a comparator and the elements of the queue and gives the next element and the others,
  \<open>toHex\<close> and \<open>cmp\<close> are functions of the package \<open>sorter_package\<close>. The set \<open>visiting\<close> of the
  recursion is left by every call as it was found, so it is an argument; the cache of effective priorities
  is threaded through. The queue is given the comparator with an empty cache: the lemma
  \<open>comparator_ignores_cache\<close> shows that for transactions without cyclic dependencies what the cache holds
  makes no difference.
\<close>

record Transaction =
  tx_id :: string
  tx_inputs :: "bytes list"
  tx_priorityFee :: bigint
  tx_computedIndexingHash :: bytes
  tx_index :: nat

record sorter_package =
  sp_toHex :: "bytes \<Rightarrow> string"
  sp_compare :: "bytes \<Rightarrow> bytes \<Rightarrow> int"
  sp_dequeue :: "(Transaction \<Rightarrow> Transaction \<Rightarrow> int) \<Rightarrow> Transaction list \<Rightarrow> Transaction \<times> Transaction list"

datatype sorter_error = CountChanged nat nat | TransactionNotFound string

record DependencyGraph =
  transactionsById :: "(string, Transaction) js_map"
  adjacency :: "string \<Rightarrow> string list"
  inDegree :: "string \<Rightarrow> int"

subsection \<open>The dependency graph\<close>

definition getInputTransactionId :: "sorter_package \<Rightarrow> bytes \<Rightarrow> string option" where
  "getInputTransactionId P originalTransactionId =
     (if originalTransactionId = [] then None else Some (sp_toHex P originalTransactionId))"

definition add_dependency ::
    "sorter_package \<Rightarrow> string \<Rightarrow> bytes \<Rightarrow> DependencyGraph \<Rightarrow> DependencyGraph" where
  "add_dependency P childId input g =
     (case getInputTransactionId P input of
        None \<Rightarrow> g
      | Some parentId \<Rightarrow>
          if map_of (transactionsById g) parentId = None \<or> parentId = childId
             \<or> childId \<in> set (adjacency g parentId) then g
          else g\<lparr>adjacency := (adjacency g)(parentId := adjacency g parentId @ [childId]),
                 inDegree := (inDegree g)(childId := inDegree g childId + 1)\<rparr>)"

definition add_transaction :: "sorter_package \<Rightarrow> Transaction \<Rightarrow> DependencyGraph \<Rightarrow> DependencyGraph" where
  "add_transaction P tx g = fold (add_dependency P (tx_id tx)) (tx_inputs tx) g"

definition buildDependencyGraph :: "sorter_package \<Rightarrow> Transaction list \<Rightarrow> DependencyGraph" where
  "buildDependencyGraph P txs =
     fold (add_transaction P) txs
       \<lparr>transactionsById = fold (\<lambda>tx. AList.update (tx_id tx) tx) txs [],
        adjacency = (\<lambda>i. []), inDegree = (\<lambda>i. 0)\<rparr>"

definition getTx :: "DependencyGraph \<Rightarrow> string \<Rightarrow> sorter_error + Transaction" where
  "getTx g i = (case map_of (transactionsById g) i of None \<Rightarrow> Inl (TransactionNotFound i) | Some tx \<Rightarrow> Inr tx)"

subsection \<open>Priorities\<close>

definition getTransactionPriority :: "Transaction \<Rightarrow> bigint" where
  "getTransactionPriority tx = tx_priorityFee tx"

text \<open>The children of a transaction of the graph are in the graph; for an unknown identifier there is no call.\<close>

function computeEffectivePriority ::
    "DependencyGraph \<Rightarrow> string list \<Rightarrow> (string \<Rightarrow> bigint option) \<Rightarrow> string \<Rightarrow> bigint \<times> (string \<Rightarrow> bigint option)" where
  "computeEffectivePriority g visiting cache txId =
     (case cache txId of
        Some p \<Rightarrow> (p, cache)
      | None \<Rightarrow>
          (case map_of (transactionsById g) txId of
             None \<Rightarrow> (0, cache)
           | Some tx \<Rightarrow>
               if txId \<in> set visiting then (getTransactionPriority tx, cache)
               else (let r = fold (\<lambda>childId acc.
                             (let c = computeEffectivePriority g (txId # visiting) (snd acc) childId
                              in (if fst c > fst acc then fst c else fst acc, snd c)))
                           (adjacency g txId) (getTransactionPriority tx, cache)
                     in (fst r, (snd r)(txId \<mapsto> fst r)))))"
  by pat_completeness auto

termination
proof (relation "measure (\<lambda>(g, visiting, cache, txId). card (fst ` set (transactionsById g) - set visiting))")
  fix g visiting cache txId tx childId acc
  assume "map_of (transactionsById g) txId = Some tx" "txId \<notin> set visiting"
  then have "fst ` set (transactionsById g) - set (txId # visiting) \<subset> fst ` set (transactionsById g) - set visiting"
    by (force dest: map_of_SomeD)
  then show "((g, txId # visiting, snd acc, childId), (g, visiting, cache, txId))
      \<in> measure (\<lambda>(g, visiting, cache, txId). card (fst ` set (transactionsById g) - set visiting))"
    by (simp add: psubset_card_mono)
qed simp

declare computeEffectivePriority.simps [simp del]

definition createPriorityComparator ::
    "sorter_package \<Rightarrow> DependencyGraph \<Rightarrow> (string \<Rightarrow> bigint option) \<Rightarrow> Transaction \<Rightarrow> Transaction \<Rightarrow> int" where
  "createPriorityComparator P g cache a b =
     (let ea = computeEffectivePriority g [] cache (tx_id a);
          eb = computeEffectivePriority g [] (snd ea) (tx_id b)
      in if fst ea \<noteq> fst eb then (if fst ea > fst eb then - 1 else 1)
         else if getTransactionPriority a \<noteq> getTransactionPriority b
         then (if getTransactionPriority a > getTransactionPriority b then - 1 else 1)
         else sp_compare P (tx_computedIndexingHash a) (tx_computedIndexingHash b))"

subsection \<open>Sorting\<close>

definition release_child :: "string \<Rightarrow> (string \<Rightarrow> int) \<times> string list \<Rightarrow> (string \<Rightarrow> int) \<times> string list" where
  "release_child childId acc =
     (let updated = fst acc childId - 1
      in ((fst acc)(childId := updated), if updated = 0 then snd acc @ [childId] else snd acc))"

text \<open>The traversal; its state is the in-degrees, the queue and the transactions emitted so far.\<close>

partial_function (option) emit_loop ::
    "sorter_package \<Rightarrow> DependencyGraph \<Rightarrow> (Transaction \<Rightarrow> Transaction \<Rightarrow> int) \<Rightarrow> (string \<Rightarrow> int) \<Rightarrow> Transaction list
     \<Rightarrow> Transaction list \<Rightarrow> (sorter_error + Transaction list) option" where
  "emit_loop P g cmp degree queue emitted =
     (if queue = [] then Some (Inr emitted)
      else (let d = sp_dequeue P cmp queue;
                r = fold release_child (adjacency g (tx_id (fst d))) (degree, [])
            in (case res_map (getTx g) (snd r) of
                  Inl e \<Rightarrow> Some (Inl e)
                | Inr txs \<Rightarrow> emit_loop P g cmp (fst r) (snd d @ txs) (emitted @ [fst d]))))"

definition leftovers ::
    "DependencyGraph \<Rightarrow> (Transaction \<Rightarrow> Transaction \<Rightarrow> int) \<Rightarrow> Transaction list \<Rightarrow> sorter_error + Transaction list" where
  "leftovers g cmp emitted =
     (if length emitted = length (transactionsById g) then Inr emitted
      else res_bind (js_sort (\<lambda>a b. Inr (cmp a b))
                       (filter (\<lambda>a. tx_id a \<notin> tx_id ` set emitted) (map snd (transactionsById g))))
             (\<lambda>remaining. Inr (emitted @ remaining)))"

definition sortByFeeWithDependencies ::
    "sorter_package \<Rightarrow> Transaction list \<Rightarrow> (sorter_error + Transaction list) option" where
  "sortByFeeWithDependencies P txs =
     (let g = buildDependencyGraph P txs;
          cmp = createPriorityComparator P g (\<lambda>i. None)
      in (case res_map (getTx g) (filter (\<lambda>i. inDegree g i = 0) (js_keys (transactionsById g))) of
            Inl e \<Rightarrow> Some (Inl e)
          | Inr queue \<Rightarrow> map_option (\<lambda>r. res_bind r (leftovers g cmp)) (emit_loop P g cmp (inDegree g) queue [])))"

definition blockRewards :: "Transaction list \<Rightarrow> Transaction list" where
  "blockRewards txs = filter (\<lambda>t. \<exists>i \<in> set (tx_inputs t). i = []) txs"

definition nonBlockRewards :: "Transaction list \<Rightarrow> Transaction list" where
  "nonBlockRewards txs = filter (\<lambda>t. \<forall>i \<in> set (tx_inputs t). i \<noteq> []) txs"

definition number_transactions :: "Transaction list \<Rightarrow> Transaction list" where
  "number_transactions txs = map (\<lambda>(i, t). t\<lparr>tx_index := i\<rparr>) (enumerate 0 txs)"

definition sortTransactions :: "sorter_package \<Rightarrow> Transaction list \<Rightarrow> (sorter_error + Transaction list) option" where
  "sortTransactions P txs =
     map_option (\<lambda>r. res_bind r (\<lambda>sortedNonRewards.
       let finalList = number_transactions (blockRewards txs @ sortedNonRewards)
       in if length finalList \<noteq> length txs then Inl (CountChanged (length txs) (length finalList))
          else Inr finalList))
       (sortByFeeWithDependencies P (nonBlockRewards txs))"

definition sortTransactionsByOrder ::
    "string list \<Rightarrow> Transaction list \<Rightarrow> sorter_error + Transaction list" where
  "sortTransactionsByOrder transactionIds transactions =
     (if length transactionIds \<noteq> length transactions
      then Inl (CountChanged (length transactions) (length transactionIds))
      else res_map (\<lambda>i. case find (\<lambda>t. tx_id t = i) transactions of
                          None \<Rightarrow> Inl (TransactionNotFound i) | Some tx \<Rightarrow> Inr tx) transactionIds)"

subsection \<open>What the graph holds\<close>

definition dependency :: "sorter_package \<Rightarrow> string set \<Rightarrow> string \<Rightarrow> bytes \<Rightarrow> (string \<times> string) set" where
  "dependency P ids childId input =
     (if input \<noteq> [] \<and> sp_toHex P input \<in> ids \<and> sp_toHex P input \<noteq> childId then {(sp_toHex P input, childId)} else {})"

text \<open>The dependencies between the transactions of a list: from parent to child.\<close>

definition dependencies :: "sorter_package \<Rightarrow> Transaction list \<Rightarrow> (string \<times> string) set" where
  "dependencies P txs = (\<Union>t \<in> set txs. \<Union>i \<in> set (tx_inputs t). dependency P (tx_id ` set txs) (tx_id t) i)"

definition graph_of :: "(string, Transaction) js_map \<Rightarrow> (string \<times> string) set \<Rightarrow> DependencyGraph \<Rightarrow> bool" where
  "graph_of B E g \<longleftrightarrow> transactionsById g = B \<and> finite E \<and> (\<forall>p c. c \<in> set (adjacency g p) \<longleftrightarrow> (p, c) \<in> E)
     \<and> (\<forall>p. distinct (adjacency g p)) \<and> (\<forall>c. inDegree g c = int (card {p. (p, c) \<in> E}))"

lemma finite_parents: "finite E \<Longrightarrow> finite {p. (p, c) \<in> E}"
  by (rule finite_subset [of _ "fst ` E"]) force+

lemma graph_of_add_dependency:
  assumes "graph_of B E g"
  shows "graph_of B (E \<union> dependency P (fst ` set B) c i) (add_dependency P c i g)"
proof (cases "i \<noteq> [] \<and> sp_toHex P i \<in> fst ` set B \<and> sp_toHex P i \<noteq> c \<and> (sp_toHex P i, c) \<notin> E")
  case True
  let ?p = "sp_toHex P i"
  have B: "transactionsById g = B" and E: "finite E" "\<And>p c. c \<in> set (adjacency g p) \<longleftrightarrow> (p, c) \<in> E"
    "\<And>p. distinct (adjacency g p)" "\<And>c. inDegree g c = int (card {p. (p, c) \<in> E})"
    using assms by (auto simp: graph_of_def)
  have "map_of B ?p \<noteq> None" using True by (simp add: map_of_eq_None_iff)
  then have g: "add_dependency P c i g = g\<lparr>adjacency := (adjacency g)(?p := adjacency g ?p @ [c]),
      inDegree := (inDegree g)(c := inDegree g c + 1)\<rparr>"
    using True B E(2) by (auto simp: add_dependency_def getInputTransactionId_def)
  have "{p. (p, c) \<in> insert (?p, c) E} = insert ?p {p. (p, c) \<in> E}" by auto
  then have "card {p. (p, c) \<in> insert (?p, c) E} = Suc (card {p. (p, c) \<in> E})"
    using True finite_parents [OF E(1)] by simp
  moreover have "{p. (p, d) \<in> insert (?p, c) E} = {p. (p, d) \<in> E}" if "d \<noteq> c" for d using that by auto
  moreover have "dependency P (fst ` set B) c i = {(?p, c)}" using True by (simp add: dependency_def)
  ultimately show ?thesis using True B E unfolding graph_of_def g by auto
next
  case False
  then have "E \<union> dependency P (fst ` set B) c i = E" by (auto simp: dependency_def)
  moreover have "add_dependency P c i g = g"
    using False assms
    by (auto simp: add_dependency_def getInputTransactionId_def graph_of_def map_of_eq_None_iff split: option.splits)
  ultimately show ?thesis using assms by simp
qed

lemma graph_of_add_transaction:
  assumes "graph_of B E g"
  shows "graph_of B (E \<union> (\<Union>i \<in> set (tx_inputs t). dependency P (fst ` set B) (tx_id t) i)) (add_transaction P t g)"
proof -
  have "graph_of B (E \<union> (\<Union>i \<in> set is. dependency P (fst ` set B) (tx_id t) i)) (fold (add_dependency P (tx_id t)) is g)"
    if "graph_of B E g" for "is" E g
    using that
  proof (induction "is" arbitrary: E g)
    case (Cons i "is")
    show ?case using Cons.IH [OF graph_of_add_dependency [OF Cons.prems]] by (simp add: Un_assoc)
  qed simp
  then show ?thesis using assms by (simp add: add_transaction_def)
qed

lemma update_all_fresh:
  "distinct (map tx_id txs) \<Longrightarrow> tx_id ` set txs \<inter> fst ` set m = {} \<Longrightarrow>
    fold (\<lambda>tx. AList.update (tx_id tx) tx) txs m = m @ map (\<lambda>t. (tx_id t, t)) txs"
proof (induction txs arbitrary: m)
  case (Cons t txs)
  then have "AList.update (tx_id t) t m = m @ [(tx_id t, t)]" by (intro update_fresh_append) auto
  then show ?case using Cons by auto
qed simp

lemma buildDependencyGraph_graph:
  assumes "distinct (map tx_id txs)"
  shows "graph_of (map (\<lambda>t. (tx_id t, t)) txs) (dependencies P txs) (buildDependencyGraph P txs)"
proof -
  let ?B = "map (\<lambda>t. (tx_id t, t)) txs"
  have ids: "fst ` set ?B = tx_id ` set txs" by force
  have all: "graph_of ?B (E \<union> (\<Union>t \<in> set ts. \<Union>i \<in> set (tx_inputs t). dependency P (fst ` set ?B) (tx_id t) i))
      (fold (add_transaction P) ts g)" if "graph_of ?B E g" for ts E g
    using that
  proof (induction ts arbitrary: E g)
    case (Cons t ts)
    show ?case using Cons.IH [OF graph_of_add_transaction [OF Cons.prems]] by (simp add: Un_assoc)
  qed simp
  have "graph_of ?B {} \<lparr>transactionsById = fold (\<lambda>tx. AList.update (tx_id tx) tx) txs [],
      adjacency = (\<lambda>i. []), inDegree = (\<lambda>i. 0)\<rparr>"
    using update_all_fresh [OF assms, of "[]"] by (simp add: graph_of_def)
  from all [OF this, of txs] show ?thesis by (simp only: ids buildDependencyGraph_def dependencies_def Un_empty_left)
qed

subsection \<open>Effective priorities\<close>

definition priority_in :: "DependencyGraph \<Rightarrow> string \<Rightarrow> bigint" where
  "priority_in g i = (case map_of (transactionsById g) i of None \<Rightarrow> 0 | Some t \<Rightarrow> getTransactionPriority t)"

definition child_rel :: "DependencyGraph \<Rightarrow> (string \<times> string) set" where
  "child_rel g = {(p, c). c \<in> set (adjacency g p)}"

text \<open>The greatest priority among a transaction and its descendants.\<close>

definition effective :: "DependencyGraph \<Rightarrow> string \<Rightarrow> bigint \<Rightarrow> bool" where
  "effective g i p \<longleftrightarrow> (\<exists>d. (i, d) \<in> (child_rel g)\<^sup>* \<and> priority_in g d = p)
     \<and> (\<forall>d. (i, d) \<in> (child_rel g)\<^sup>* \<longrightarrow> priority_in g d \<le> p)"

lemma effective_unique: "effective g i p \<Longrightarrow> effective g i q \<Longrightarrow> p = q"
  by (auto simp: effective_def intro: antisym)

lemma effective_step:
  assumes "priority_in g i \<le> b" "\<forall>c \<in> set (adjacency g i). \<exists>q. effective g c q \<and> q \<le> b"
    and "b = priority_in g i \<or> (\<exists>c \<in> set (adjacency g i). effective g c b)"
  shows "effective g i b"
  unfolding effective_def
proof (intro conjI allI impI)
  show "\<exists>d. (i, d) \<in> (child_rel g)\<^sup>* \<and> priority_in g d = b"
    using assms(3)
  proof
    assume "\<exists>c \<in> set (adjacency g i). effective g c b"
    then obtain c d where "c \<in> set (adjacency g i)" "(c, d) \<in> (child_rel g)\<^sup>*" "priority_in g d = b"
      by (auto simp: effective_def)
    then show ?thesis by (auto simp: child_rel_def intro: converse_rtrancl_into_rtrancl)
  qed auto
  fix d
  assume "(i, d) \<in> (child_rel g)\<^sup>*"
  then show "priority_in g d \<le> b"
  proof (cases rule: converse_rtranclE)
    case base
    then show ?thesis using assms(1) by simp
  next
    case (step c)
    then have "c \<in> set (adjacency g i)" by (simp add: child_rel_def)
    then obtain q where "effective g c q" "q \<le> b" using assms(2) by blast
    then show ?thesis using step(2) unfolding effective_def by (meson order.trans)
  qed
qed

definition cache_sound :: "DependencyGraph \<Rightarrow> (string \<Rightarrow> bigint option) \<Rightarrow> bool" where
  "cache_sound g cache \<longleftrightarrow> (\<forall>i p. cache i = Some p \<longrightarrow> effective g i p)"

text \<open>Every dependency leads to a transaction of the graph of greater rank.\<close>

definition ranked :: "(string \<Rightarrow> nat) \<Rightarrow> DependencyGraph \<Rightarrow> bool" where
  "ranked rank g \<longleftrightarrow> (\<forall>p c. c \<in> set (adjacency g p) \<longrightarrow> rank p < rank c \<and> map_of (transactionsById g) c \<noteq> None)"

lemma children_fold:
  fixes f :: "(string \<Rightarrow> bigint option) \<Rightarrow> string \<Rightarrow> bigint \<times> (string \<Rightarrow> bigint option)"
  assumes "\<And>c cache. c \<in> set cs \<Longrightarrow> cache_sound g cache \<Longrightarrow> effective g c (fst (f cache c)) \<and> cache_sound g (snd (f cache c))"
    and "cache_sound g (snd acc)"
    and "r = fold (\<lambda>c acc. let x = f (snd acc) c in (if fst x > fst acc then fst x else fst acc, snd x)) cs acc"
  shows "cache_sound g (snd r) \<and> fst acc \<le> fst r \<and> (\<forall>c \<in> set cs. \<exists>q. effective g c q \<and> q \<le> fst r)
    \<and> (fst r = fst acc \<or> (\<exists>c \<in> set cs. effective g c (fst r)))"
  using assms
proof (induction cs arbitrary: acc)
  case (Cons c cs)
  let ?x = "f (snd acc) c"
  let ?acc = "(if fst ?x > fst acc then fst ?x else fst acc, snd ?x)"
  have x: "effective g c (fst ?x)" "cache_sound g (snd ?x)"
    using Cons.prems(1) [of c "snd acc"] Cons.prems(2) by auto
  have "cache_sound g (snd r) \<and> fst ?acc \<le> fst r \<and> (\<forall>c \<in> set cs. \<exists>q. effective g c q \<and> q \<le> fst r)
      \<and> (fst r = fst ?acc \<or> (\<exists>c \<in> set cs. effective g c (fst r)))"
    using Cons.IH [of ?acc] Cons.prems(1,3) x(2) by (simp add: Let_def)
  then show ?case using x(1) by (auto split: if_splits intro: order.trans)
qed simp

lemma computeEffectivePriority_effective:
  assumes "ranked rank g"
  shows "cache_sound g cache \<Longrightarrow> \<forall>v \<in> set visiting. rank v < rank i \<Longrightarrow> map_of (transactionsById g) i \<noteq> None \<Longrightarrow>
    effective g i (fst (computeEffectivePriority g visiting cache i))
    \<and> cache_sound g (snd (computeEffectivePriority g visiting cache i))"
  using assms
proof (induction g visiting cache i rule: computeEffectivePriority.induct)
  case (1 g visiting cache i)
  obtain t where t: "map_of (transactionsById g) i = Some t" using "1.prems"(3) by auto
  show ?case
  proof (cases "cache i")
    case (Some p)
    then show ?thesis using "1.prems"(1) t
      by (subst (1 2) computeEffectivePriority.simps) (simp add: cache_sound_def)
  next
    case None
    have new: "i \<notin> set visiting" using "1.prems"(2) by blast
    let ?f = "computeEffectivePriority g (i # visiting)"
    define r where "r = fold (\<lambda>c acc. let x = ?f (snd acc) c in (if fst x > fst acc then fst x else fst acc, snd x))
      (adjacency g i) (getTransactionPriority t, cache)"
    have ih: "effective g c (fst (?f ch c)) \<and> cache_sound g (snd (?f ch c))"
      if "c \<in> set (adjacency g i)" "cache_sound g ch" for c ch
    proof -
      have "rank i < rank c" "map_of (transactionsById g) c \<noteq> None"
        using that(1) "1.prems"(4) by (auto simp: ranked_def)
      moreover from this(1) have "\<forall>v \<in> set visiting. rank v < rank c" using "1.prems"(2) by fastforce
      ultimately show ?thesis
        using "1.IH" [OF None t new that(1), of "(0, ch)"] that(2) "1.prems"(4) by auto
    qed
    have r: "cache_sound g (snd r) \<and> priority_in g i \<le> fst r
      \<and> (\<forall>c \<in> set (adjacency g i). \<exists>q. effective g c q \<and> q \<le> fst r)
      \<and> (fst r = priority_in g i \<or> (\<exists>c \<in> set (adjacency g i). effective g c (fst r)))"
      using children_fold [OF ih _ r_def] "1.prems"(1) t by (simp add: priority_in_def)
    then have "effective g i (fst r)" by (intro effective_step) auto
    moreover from this have "cache_sound g ((snd r)(i \<mapsto> fst r))" using r by (auto simp: cache_sound_def)
    moreover have "computeEffectivePriority g visiting cache i = (fst r, (snd r)(i \<mapsto> fst r))"
      using None t new by (subst computeEffectivePriority.simps) (simp add: r_def Let_def)
    ultimately show ?thesis by (simp only: fst_conv snd_conv simp_thms)
  qed
qed

subsection \<open>The comparator\<close>

definition order_on :: "('a \<Rightarrow> 'a \<Rightarrow> int) \<Rightarrow> 'a set \<Rightarrow> bool" where
  "order_on cmp S \<longleftrightarrow> (\<forall>a \<in> S. \<forall>b \<in> S. cmp a b \<le> 0 \<or> cmp b a \<le> 0)
     \<and> (\<forall>a \<in> S. \<forall>b \<in> S. \<forall>c \<in> S. cmp a b \<le> 0 \<longrightarrow> cmp b c \<le> 0 \<longrightarrow> cmp a c \<le> 0)"

lemma order_on_subset: "order_on cmp S \<Longrightarrow> T \<subseteq> S \<Longrightarrow> order_on cmp T"
  unfolding order_on_def by (elim conjE, intro conjI ballI impI) blast+

text \<open>
  What the packages promise: \<open>compare\<close> orders byte strings and distinguishes different ones, and \<open>dequeue\<close>
  removes an element no other element of the queue comes before, if the comparator is an order.
\<close>

definition sorter_package_ok :: "sorter_package \<Rightarrow> bool" where
  "sorter_package_ok P \<longleftrightarrow> order_on (sp_compare P) UNIV
     \<and> (\<forall>a b. sp_compare P a b \<le> 0 \<longrightarrow> sp_compare P b a \<le> 0 \<longrightarrow> a = b)
     \<and> (\<forall>cmp q. q \<noteq> [] \<longrightarrow> order_on cmp (set q) \<longrightarrow>
          mset q = add_mset (fst (sp_dequeue P cmp q)) (mset (snd (sp_dequeue P cmp q)))
          \<and> (\<forall>y \<in> set q. cmp (fst (sp_dequeue P cmp q)) y \<le> 0))"

lemma sorter_package_okD:
  assumes "sorter_package_ok P"
  shows "order_on (sp_compare P) UNIV" "\<forall>a b. sp_compare P a b \<le> 0 \<longrightarrow> sp_compare P b a \<le> 0 \<longrightarrow> a = b"
    "q \<noteq> [] \<Longrightarrow> order_on cmp (set q) \<Longrightarrow>
      mset q = add_mset (fst (sp_dequeue P cmp q)) (mset (snd (sp_dequeue P cmp q)))
      \<and> (\<forall>y \<in> set q. cmp (fst (sp_dequeue P cmp q)) y \<le> 0)"
proof -
  note ok = assms [unfolded sorter_package_ok_def]
  show "order_on (sp_compare P) UNIV" using ok by (rule conjunct1)
  show "\<forall>a b. sp_compare P a b \<le> 0 \<longrightarrow> sp_compare P b a \<le> 0 \<longrightarrow> a = b" using conjunct2 [OF ok] by (rule conjunct1)
  show "q \<noteq> [] \<Longrightarrow> order_on cmp (set q) \<Longrightarrow>
      mset q = add_mset (fst (sp_dequeue P cmp q)) (mset (snd (sp_dequeue P cmp q)))
      \<and> (\<forall>y \<in> set q. cmp (fst (sp_dequeue P cmp q)) y \<le> 0)"
    using conjunct2 [OF conjunct2 [OF ok]] by simp
qed

text \<open>The order the comparator stands for, given the effective priorities.\<close>

definition comes_before :: "sorter_package \<Rightarrow> (string \<Rightarrow> bigint) \<Rightarrow> Transaction \<Rightarrow> Transaction \<Rightarrow> bool" where
  "comes_before P eff a b \<longleftrightarrow> eff (tx_id a) > eff (tx_id b)
     \<or> eff (tx_id a) = eff (tx_id b) \<and> (tx_priorityFee a > tx_priorityFee b
        \<or> tx_priorityFee a = tx_priorityFee b
          \<and> sp_compare P (tx_computedIndexingHash a) (tx_computedIndexingHash b) \<le> 0)"

definition effective_priority :: "DependencyGraph \<Rightarrow> string \<Rightarrow> bigint" where
  "effective_priority g i = fst (computeEffectivePriority g [] (\<lambda>i. None) i)"

lemma cache_sound_empty [simp]: "cache_sound g (\<lambda>i. None)"
  by (simp add: cache_sound_def)

lemma effective_priority_effective:
  "ranked rank g \<Longrightarrow> map_of (transactionsById g) i \<noteq> None \<Longrightarrow> effective g i (effective_priority g i)"
  unfolding effective_priority_def
  using computeEffectivePriority_effective [of rank g "\<lambda>i. None" "[]" i] by simp

lemma computeEffectivePriority_cached:
  assumes "ranked rank g" "cache_sound g cache" "map_of (transactionsById g) i \<noteq> None"
  shows "fst (computeEffectivePriority g [] cache i) = effective_priority g i"
    "cache_sound g (snd (computeEffectivePriority g [] cache i))"
  using computeEffectivePriority_effective [OF assms(1,2), of "[]" i] effective_priority_effective [OF assms(1,3)]
    assms(3) by (auto intro: effective_unique)

lemma comparator_value:
  assumes "ranked rank g" "cache_sound g cache" "map_of (transactionsById g) (tx_id a) \<noteq> None"
    "map_of (transactionsById g) (tx_id b) \<noteq> None"
  shows "createPriorityComparator P g cache a b =
    (let ea = effective_priority g (tx_id a); eb = effective_priority g (tx_id b)
     in if ea \<noteq> eb then (if ea > eb then - 1 else 1)
        else if tx_priorityFee a \<noteq> tx_priorityFee b then (if tx_priorityFee a > tx_priorityFee b then - 1 else 1)
        else sp_compare P (tx_computedIndexingHash a) (tx_computedIndexingHash b))"
  using computeEffectivePriority_cached [OF assms(1,2,3)]
    computeEffectivePriority_cached(1) [OF assms(1) _ assms(4), of "snd (computeEffectivePriority g [] cache (tx_id a))"]
  by (simp add: createPriorityComparator_def getTransactionPriority_def Let_def)

lemma comparator_ignores_cache:
  assumes "ranked rank g" "cache_sound g cache" "map_of (transactionsById g) (tx_id a) \<noteq> None"
    "map_of (transactionsById g) (tx_id b) \<noteq> None"
  shows "createPriorityComparator P g cache a b = createPriorityComparator P g (\<lambda>i. None) a b"
  by (simp only: comparator_value [OF assms] comparator_value [OF assms(1) cache_sound_empty assms(3,4)])

lemma comparator_order:
  assumes "ranked rank g" "map_of (transactionsById g) (tx_id a) \<noteq> None" "map_of (transactionsById g) (tx_id b) \<noteq> None"
  shows "createPriorityComparator P g (\<lambda>i. None) a b \<le> 0 \<longleftrightarrow> comes_before P (effective_priority g) a b"
  by (auto simp: comparator_value [OF assms(1) cache_sound_empty assms(2,3)] comes_before_def Let_def)

lemma comes_before_order:
  assumes "sorter_package_ok P"
  shows "comes_before P eff a b \<or> comes_before P eff b a"
    and "comes_before P eff a b \<Longrightarrow> comes_before P eff b c \<Longrightarrow> comes_before P eff a c"
    and "comes_before P eff a b \<Longrightarrow> comes_before P eff b a \<Longrightarrow> tx_computedIndexingHash a = tx_computedIndexingHash b"
proof -
  let ?h = tx_computedIndexingHash
  have "order_on (sp_compare P) UNIV"
    and anti: "\<forall>a b. sp_compare P a b \<le> 0 \<longrightarrow> sp_compare P b a \<le> 0 \<longrightarrow> a = b"
    using sorter_package_okD(1,2) [OF assms] by blast+
  then have tot: "\<forall>a b. sp_compare P a b \<le> 0 \<or> sp_compare P b a \<le> 0"
    and tr: "\<forall>a b c. sp_compare P a b \<le> 0 \<longrightarrow> sp_compare P b c \<le> 0 \<longrightarrow> sp_compare P a c \<le> 0"
    unfolding order_on_def by blast+
  have c: "sp_compare P (?h a) (?h b) \<le> 0 \<or> sp_compare P (?h b) (?h a) \<le> 0"
    "sp_compare P (?h a) (?h b) \<le> 0 \<Longrightarrow> sp_compare P (?h b) (?h c) \<le> 0 \<Longrightarrow> sp_compare P (?h a) (?h c) \<le> 0"
    "sp_compare P (?h a) (?h b) \<le> 0 \<Longrightarrow> sp_compare P (?h b) (?h a) \<le> 0 \<Longrightarrow> ?h a = ?h b"
    using tot tr anti by blast+
  show "comes_before P eff a b \<or> comes_before P eff b a" using c(1) by (auto simp: comes_before_def)
  show "comes_before P eff a b \<Longrightarrow> comes_before P eff b c \<Longrightarrow> comes_before P eff a c"
    unfolding comes_before_def by (elim disjE conjE) (simp_all add: c(2))
  show "comes_before P eff a b \<Longrightarrow> comes_before P eff b a \<Longrightarrow> ?h a = ?h b"
    using c(3) by (auto simp: comes_before_def)
qed

lemma comparator_order_on:
  assumes "sorter_package_ok P" "ranked rank g" "\<forall>t \<in> S. map_of (transactionsById g) (tx_id t) \<noteq> None"
  shows "order_on (createPriorityComparator P g (\<lambda>i. None)) S"
proof -
  have le: "createPriorityComparator P g (\<lambda>i. None) a b \<le> 0 \<longleftrightarrow> comes_before P (effective_priority g) a b"
    if "a \<in> S" "b \<in> S" for a b
    using comparator_order [OF assms(2)] assms(3) that by blast
  show ?thesis
    unfolding order_on_def
    using comes_before_order(1,2) [OF assms(1), of "effective_priority g"] by (simp add: le)
qed

subsection \<open>The traversal\<close>

text \<open>
  A transaction is available after \<open>done\<close> if it is not among them and all its parents in the list are. An
  order is greedy if each transaction was available and came before every other available one.
\<close>

definition available :: "(string \<times> string) set \<Rightarrow> Transaction list \<Rightarrow> Transaction list \<Rightarrow> Transaction \<Rightarrow> bool" where
  "available E txs emitted t \<longleftrightarrow> t \<in> set txs \<and> t \<notin> set emitted
     \<and> (\<forall>p. (p, tx_id t) \<in> E \<longrightarrow> p \<in> tx_id ` set emitted)"

definition greedy ::
    "(string \<times> string) set \<Rightarrow> Transaction list \<Rightarrow> (Transaction \<Rightarrow> Transaction \<Rightarrow> bool) \<Rightarrow> Transaction list \<Rightarrow> bool" where
  "greedy E txs before zs \<longleftrightarrow> (\<forall>ys x ws. zs = ys @ x # ws \<longrightarrow>
     available E txs ys x \<and> (\<forall>t. available E txs ys t \<longrightarrow> before x t))"

lemma greedy_Nil [simp]: "greedy E txs before []"
  by (simp add: greedy_def)

lemma greedy_snoc:
  assumes "greedy E txs before zs" "available E txs zs x" "\<And>t. available E txs zs t \<Longrightarrow> before x t"
  shows "greedy E txs before (zs @ [x])"
  unfolding greedy_def
proof (intro allI impI)
  fix ys y ws
  assume eq: "zs @ [x] = ys @ y # ws"
  show "available E txs ys y \<and> (\<forall>t. available E txs ys t \<longrightarrow> before y t)"
  proof (cases ws rule: rev_cases)
    case Nil
    then show ?thesis using eq assms(2,3) by simp
  next
    case (snoc ws' w)
    then have "zs = ys @ y # ws'" using eq by simp
    then show ?thesis using assms(1) unfolding greedy_def by blast
  qed
qed

lemma release_children:
  "distinct cs \<Longrightarrow> fold release_child cs (degree, acc) =
    (\<lambda>i. if i \<in> set cs then degree i - 1 else degree i, acc @ filter (\<lambda>c. degree c = 1) cs)"
proof (induction cs arbitrary: degree acc)
  case (Cons c cs)
  let ?d = "degree(c := degree c - 1)"
  have "fold release_child (c # cs) (degree, acc) =
      fold release_child cs (?d, if degree c = 1 then acc @ [c] else acc)"
    by (simp add: release_child_def Let_def)
  moreover have "filter (\<lambda>c. ?d c = 1) cs = filter (\<lambda>c. degree c = 1) cs"
    using Cons.prems by (intro filter_cong) auto
  ultimately show ?case using Cons by (auto simp: fun_eq_iff)
qed simp

text \<open>The invariant of the traversal.\<close>

definition traversal ::
    "(string \<times> string) set \<Rightarrow> Transaction list \<Rightarrow> (string \<Rightarrow> int) \<Rightarrow> Transaction list \<Rightarrow> Transaction list \<Rightarrow> bool" where
  "traversal E txs degree queue emitted \<longleftrightarrow> distinct (map tx_id (emitted @ queue)) \<and> set (emitted @ queue) \<subseteq> set txs
     \<and> (\<forall>c. degree c = int (card {p. (p, c) \<in> E \<and> p \<notin> tx_id ` set emitted}))
     \<and> (\<forall>t. t \<in> set queue \<longleftrightarrow> available E txs emitted t)
     \<and> (\<forall>t \<in> set emitted. \<forall>p. (p, tx_id t) \<in> E \<longrightarrow> p \<in> tx_id ` set emitted)"

lemma tx_id_inj: "distinct (map tx_id txs) \<Longrightarrow> a \<in> set txs \<Longrightarrow> b \<in> set txs \<Longrightarrow> tx_id a = tx_id b \<Longrightarrow> a = b"
  by (auto simp: distinct_map inj_on_def)

lemma graph_lookup:
  assumes "distinct (map tx_id txs)" "graph_of (map (\<lambda>t. (tx_id t, t)) txs) E g"
  shows "map_of (transactionsById g) i = Some t \<longleftrightarrow> t \<in> set txs \<and> tx_id t = i"
proof -
  have "distinct (map fst (map (\<lambda>t. (tx_id t, t)) txs))" using assms(1) by (simp add: comp_def)
  then have "map_of (map (\<lambda>t. (tx_id t, t)) txs) i = Some t \<longleftrightarrow> (i, t) \<in> set (map (\<lambda>t. (tx_id t, t)) txs)"
    by (rule map_of_eq_Some_iff)
  then show ?thesis using assms(2) by (auto simp: graph_of_def)
qed

lemma res_map_getTx:
  assumes "distinct (map tx_id txs)" "graph_of (map (\<lambda>t. (tx_id t, t)) txs) E g" "set is \<subseteq> tx_id ` set txs"
  shows "\<exists>ts. res_map (getTx g) is = Inr ts \<and> map tx_id ts = is \<and> set ts = {t \<in> set txs. tx_id t \<in> set is}"
  using assms(3)
proof (induction "is")
  case (Cons i "is")
  then obtain ts t where ts: "res_map (getTx g) is = Inr ts" "map tx_id ts = is"
    "set ts = {t \<in> set txs. tx_id t \<in> set is}" and t: "t \<in> set txs" "tx_id t = i" by auto
  then have "getTx g i = Inr t" using graph_lookup [OF assms(1,2), of i t] by (simp add: getTx_def)
  moreover have "{t' \<in> set txs. tx_id t' \<in> set (i # is)} = insert t {t \<in> set txs. tx_id t \<in> set is}"
    using t tx_id_inj [OF assms(1)] by auto
  ultimately show ?case using ts t by simp
qed simp

lemma dependencies_ids: "(p, c) \<in> dependencies P txs \<Longrightarrow> p \<in> tx_id ` set txs \<and> c \<in> tx_id ` set txs"
  by (auto simp: dependencies_def dependency_def split: if_splits)

lemma traversal_degree:
  assumes "finite E" "x \<notin> D" "(x, c) \<in> E"
  shows "card {p. (p, c) \<in> E \<and> p \<notin> D} = Suc (card {p. (p, c) \<in> E \<and> p \<notin> insert x D})"
proof -
  have "{p. (p, c) \<in> E \<and> p \<notin> D} = insert x {p. (p, c) \<in> E \<and> p \<notin> insert x D}" using assms(2,3) by auto
  moreover have "finite {p. (p, c) \<in> E \<and> p \<notin> insert x D}"
    using finite_parents [OF assms(1), of c] by (rule rev_finite_subset) auto
  ultimately show ?thesis by simp
qed

lemma traversal_step:
  assumes "distinct (map tx_id txs)" "graph_of (map (\<lambda>t. (tx_id t, t)) txs) E g"
    and E: "\<And>p c. (p, c) \<in> E \<Longrightarrow> c \<in> tx_id ` set txs"
    and tr: "traversal E txs degree queue emitted" and q: "mset queue = add_mset x (mset rest)"
  shows "\<exists>ts. res_map (getTx g) (snd (fold release_child (adjacency g (tx_id x)) (degree, []))) = Inr ts
    \<and> traversal E txs (fst (fold release_child (adjacency g (tx_id x)) (degree, []))) (rest @ ts) (emitted @ [x])"
proof -
  let ?cs = "adjacency g (tx_id x)" and ?D = "tx_id ` set emitted"
  have adj: "\<And>c. c \<in> set ?cs \<longleftrightarrow> (tx_id x, c) \<in> E" "distinct ?cs" "finite E"
    using assms(2) by (auto simp: graph_of_def)
  note rel = release_children [OF adj(2), of degree "[]"]
  let ?ready = "filter (\<lambda>c. degree c = 1) ?cs"
  have queue: "set queue = insert x (set rest)" using q by (metis set_mset_add_mset_insert set_mset_mset)
  have "mset (map tx_id (emitted @ queue)) = mset (map tx_id (emitted @ [x] @ rest))" using q by simp
  then have dist: "distinct (map tx_id (emitted @ [x] @ rest))"
    using tr unfolding traversal_def by (metis mset_eq_imp_distinct_iff)
  have sub: "set (emitted @ queue) \<subseteq> set txs" and deg: "\<And>c. degree c = int (card {p. (p, c) \<in> E \<and> p \<notin> ?D})"
    and av: "\<And>t. t \<in> set queue \<longleftrightarrow> available E txs emitted t"
    and closed: "\<And>t p. t \<in> set emitted \<Longrightarrow> (p, tx_id t) \<in> E \<Longrightarrow> p \<in> ?D"
    using tr unfolding traversal_def by blast+
  have x: "tx_id x \<notin> ?D" "x \<notin> set rest" using dist by (auto simp: image_iff)
  have x_av: "\<And>p. (p, tx_id x) \<in> E \<Longrightarrow> p \<in> ?D" using av [of x] queue by (simp add: available_def)
  have ready: "degree c = 1 \<longleftrightarrow> (\<forall>p. (p, c) \<in> E \<longrightarrow> p \<in> insert (tx_id x) ?D)" if "(tx_id x, c) \<in> E" for c
  proof -
    have "finite {p. (p, c) \<in> E \<and> p \<notin> insert (tx_id x) ?D}"
      using finite_parents [OF adj(3), of c] by (rule rev_finite_subset) auto
    then show ?thesis using traversal_degree [OF adj(3) x(1) that] deg [of c] by auto
  qed
  have "set ?ready \<subseteq> tx_id ` set txs" using adj(1) E by auto
  then obtain ts where ts: "res_map (getTx g) ?ready = Inr ts" "map tx_id ts = ?ready"
      "set ts = {t \<in> set txs. tx_id t \<in> set ?ready}"
    using res_map_getTx [OF assms(1,2)] by blast
  have new: "t \<notin> set emitted \<and> t \<notin> set queue" if "(tx_id x, tx_id t) \<in> E" for t
    using that closed [of t "tx_id x"] av [of t] x(1) by (auto simp: available_def)
  have avail: "t \<in> set (rest @ ts) \<longleftrightarrow> available E txs (emitted @ [x]) t" for t
  proof (cases "(tx_id x, tx_id t) \<in> E")
    case True
    then show ?thesis using new [OF True] ts(3) ready [OF True] queue adj(1) by (auto simp: available_def)
  next
    case False
    then have "t \<notin> set ts" using ts(3) adj(1) by auto
    moreover have "t \<in> set rest \<longleftrightarrow> t \<in> set queue \<and> t \<noteq> x" using queue x(2) by auto
    moreover have "(p, tx_id t) \<in> E \<Longrightarrow> p \<noteq> tx_id x" for p using False by auto
    ultimately show ?thesis using av [of t] by (auto simp: available_def)
  qed
  have deg': "(if c \<in> set ?cs then degree c - 1 else degree c) =
      int (card {p. (p, c) \<in> E \<and> p \<notin> tx_id ` set (emitted @ [x])})" for c
  proof (cases "(tx_id x, c) \<in> E")
    case True
    then show ?thesis using traversal_degree [OF adj(3) x(1) True] deg [of c] adj(1) by simp
  next
    case False
    then have "{p. (p, c) \<in> E \<and> p \<notin> tx_id ` set (emitted @ [x])} = {p. (p, c) \<in> E \<and> p \<notin> ?D}" by auto
    then show ?thesis using False deg [of c] adj(1) by simp
  qed
  have "tx_id ` set ts \<inter> tx_id ` set (emitted @ [x] @ rest) = {}"
  proof -
    have "tx_id t \<noteq> tx_id u" if t: "t \<in> set ts" and u: "u \<in> set (emitted @ [x] @ rest)" for t u
    proof
      assume "tx_id t = tx_id u"
      moreover have "t \<in> set txs" "u \<in> set txs" using t u ts(3) sub queue by auto
      ultimately have "t = u" using tx_id_inj [OF assms(1)] by blast
      moreover have "(tx_id x, tx_id t) \<in> E" using t ts(3) adj(1) by auto
      ultimately show False using new [of t] u queue by auto
    qed
    then show ?thesis by blast
  qed
  moreover have "distinct (map tx_id ts)" using ts(2) adj(2) by simp
  ultimately have "distinct (map tx_id ((emitted @ [x]) @ rest @ ts))" using dist by auto
  moreover have "set ((emitted @ [x]) @ rest @ ts) \<subseteq> set txs" using sub queue ts(3) by auto
  ultimately have "traversal E txs (\<lambda>i. if i \<in> set ?cs then degree i - 1 else degree i) (rest @ ts) (emitted @ [x])"
    using deg' avail closed x_av unfolding traversal_def by auto
  then show ?thesis using ts(1) rel by simp
qed

lemma emit_loop_greedy:
  assumes "sorter_package_ok P" "distinct (map tx_id txs)" "graph_of (map (\<lambda>t. (tx_id t, t)) txs) E g"
    and "\<And>p c. (p, c) \<in> E \<Longrightarrow> c \<in> tx_id ` set txs" and "order_on cmp (set txs)"
    and "\<And>a b. a \<in> set txs \<Longrightarrow> b \<in> set txs \<Longrightarrow> cmp a b \<le> 0 \<Longrightarrow> before a b"
  shows "traversal E txs degree queue emitted \<Longrightarrow> greedy E txs before emitted \<Longrightarrow>
    \<exists>zs degree'. emit_loop P g cmp degree queue emitted = Some (Inr zs) \<and> traversal E txs degree' [] zs
      \<and> greedy E txs before zs"
proof (induction "length txs - length emitted" arbitrary: degree queue emitted rule: less_induct)
  case less
  show ?case
  proof (cases "queue = []")
    case True
    then show ?thesis using less.prems by (subst emit_loop.simps) auto
  next
    case False
    let ?x = "fst (sp_dequeue P cmp queue)" and ?rest = "snd (sp_dequeue P cmp queue)"
    have sub: "set (emitted @ queue) \<subseteq> set txs" and av: "\<And>t. t \<in> set queue \<longleftrightarrow> available E txs emitted t"
      using less.prems(1) unfolding traversal_def by blast+
    have "order_on cmp (set queue)" by (rule order_on_subset [OF assms(5)]) (use sub in simp)
    then have q: "mset queue = add_mset ?x (mset ?rest)" "\<forall>y \<in> set queue. cmp ?x y \<le> 0"
      using sorter_package_okD(3) [OF assms(1) False] by blast+
    have x: "?x \<in> set queue" using q(1) by (metis set_mset_mset union_single_eq_member)
    obtain ts where ts: "res_map (getTx g) (snd (fold release_child (adjacency g (tx_id ?x)) (degree, []))) = Inr ts"
      "traversal E txs (fst (fold release_child (adjacency g (tx_id ?x)) (degree, []))) (?rest @ ts) (emitted @ [?x])"
      using traversal_step [OF assms(2,3) _ less.prems(1) q(1)] assms(4) by blast
    have gr: "greedy E txs before (emitted @ [?x])"
    proof (rule greedy_snoc [OF less.prems(2)])
      show "available E txs emitted ?x" using av x by blast
      fix t
      assume "available E txs emitted t"
      then have "t \<in> set queue" using av by blast
      then show "before ?x t" using q(2) x sub by (intro assms(6)) auto
    qed
    have "distinct emitted" "set (emitted @ [?x]) \<subseteq> set txs" "?x \<notin> set emitted"
      using less.prems(1) x sub by (auto simp: traversal_def distinct_map)
    moreover from this(2) have "card (set (emitted @ [?x])) \<le> card (set txs)" by (intro card_mono) auto
    ultimately have "Suc (length emitted) \<le> card (set txs)" by (simp add: distinct_card)
    then have "length txs - length (emitted @ [?x]) < length txs - length emitted"
      using card_length [of txs] by simp
    then obtain zs degree' where "emit_loop P g cmp (fst (fold release_child (adjacency g (tx_id ?x)) (degree, [])))
        (?rest @ ts) (emitted @ [?x]) = Some (Inr zs)" "traversal E txs degree' [] zs" "greedy E txs before zs"
      using less.hyps [OF _ ts(2) gr] by blast
    then show ?thesis using False ts(1) by (subst emit_loop.simps) (auto simp add: Let_def)
  qed
qed

text \<open>Each transaction has a greater rank than the transactions it spends: dependencies are not cyclic.\<close>

definition dependency_rank :: "sorter_package \<Rightarrow> (string \<Rightarrow> nat) \<Rightarrow> Transaction list \<Rightarrow> bool" where
  "dependency_rank P rank txs \<longleftrightarrow> (\<forall>t \<in> set txs. \<forall>i \<in> set (tx_inputs t). rank (sp_toHex P i) < rank (tx_id t))"

lemma dependencies_rank:
  "dependency_rank P rank txs \<Longrightarrow> (p, c) \<in> dependencies P txs \<Longrightarrow> rank p < rank c"
  by (auto simp: dependency_rank_def dependencies_def dependency_def split: if_splits)

lemma graph_ranked:
  assumes "distinct (map tx_id txs)" "dependency_rank P rank txs"
    "graph_of (map (\<lambda>t. (tx_id t, t)) txs) (dependencies P txs) g"
  shows "ranked rank g"
  unfolding ranked_def
proof (intro allI impI conjI)
  fix p c
  assume "c \<in> set (adjacency g p)"
  then have e: "(p, c) \<in> dependencies P txs" using assms(3) by (simp add: graph_of_def)
  show "rank p < rank c" by (rule dependencies_rank [OF assms(2) e])
  obtain t where "t \<in> set txs" "tx_id t = c" using dependencies_ids [OF e] by auto
  then show "map_of (transactionsById g) c \<noteq> None" using graph_lookup [OF assms(1,3), of c t] by simp
qed

lemma traversal_complete:
  assumes "traversal E txs degree [] zs" "\<And>p c. (p, c) \<in> E \<Longrightarrow> p \<in> tx_id ` set txs \<and> rank p < (rank c :: nat)"
    "distinct (map tx_id txs)" "t \<in> set txs"
  shows "t \<in> set zs"
  using assms(4)
proof (induction "rank (tx_id t)" arbitrary: t rule: less_induct)
  case less
  have "p \<in> tx_id ` set zs" if e: "(p, tx_id t) \<in> E" for p
  proof -
    obtain u where "u \<in> set txs" "p = tx_id u" using assms(2) [OF e] by auto
    then show ?thesis using less.hyps [of u] assms(2) [OF e] by auto
  qed
  then show ?case using less.prems assms(1) unfolding traversal_def available_def by auto
qed

definition before_in :: "sorter_package \<Rightarrow> Transaction list \<Rightarrow> Transaction \<Rightarrow> Transaction \<Rightarrow> bool" where
  "before_in P txs = comes_before P (effective_priority (buildDependencyGraph P txs))"

lemma sortByFeeWithDependencies_greedy:
  assumes "sorter_package_ok P" "distinct (map tx_id txs)" "dependency_rank P rank txs"
  shows "\<exists>zs. sortByFeeWithDependencies P txs = Some (Inr zs) \<and> mset zs = mset txs
    \<and> greedy (dependencies P txs) txs (before_in P txs) zs"
proof -
  let ?g = "buildDependencyGraph P txs" and ?E = "dependencies P txs"
  let ?cmp = "createPriorityComparator P ?g (\<lambda>i. None)"
  note g = buildDependencyGraph_graph [OF assms(2), of P]
  note rk = graph_ranked [OF assms(2,3) g]
  have B: "transactionsById ?g = map (\<lambda>t. (tx_id t, t)) txs" and adj: "finite ?E"
    and deg: "\<And>c. inDegree ?g c = int (card {p. (p, c) \<in> ?E})" using g by (auto simp: graph_of_def)
  have found: "map_of (transactionsById ?g) (tx_id t) \<noteq> None" if "t \<in> set txs" for t
    using graph_lookup [OF assms(2) g, of "tx_id t" t] that by simp
  let ?roots = "filter (\<lambda>i. inDegree ?g i = 0) (js_keys (transactionsById ?g))"
  obtain queue where q: "res_map (getTx ?g) ?roots = Inr queue" "map tx_id queue = ?roots"
      "set queue = {t \<in> set txs. tx_id t \<in> set ?roots}"
    using res_map_getTx [OF assms(2) g, of ?roots] B by auto
  have "distinct (map tx_id queue)" unfolding q(2) using assms(2) B by (simp add: comp_def)
  moreover have "inDegree ?g c = 0 \<longleftrightarrow> (\<forall>p. (p, c) \<notin> ?E)" for c
    using deg [of c] finite_parents [OF adj, of c] by auto
  then have "t \<in> set queue \<longleftrightarrow> available ?E txs [] t" for t
    using q(3) B by (auto simp: available_def)
  ultimately have "traversal ?E txs (inDegree ?g) queue []"
    using q(3) deg by (auto simp: traversal_def)
  moreover have "before_in P txs a b" if "a \<in> set txs" "b \<in> set txs" "?cmp a b \<le> 0" for a b
    using comparator_order [OF rk found found] that by (simp add: before_in_def)
  moreover have "order_on ?cmp (set txs)" using comparator_order_on [OF assms(1) rk] found by blast
  ultimately obtain zs degree' where zs: "emit_loop P ?g ?cmp (inDegree ?g) queue [] = Some (Inr zs)"
      "traversal ?E txs degree' [] zs" "greedy ?E txs (before_in P txs) zs"
    using emit_loop_greedy [OF assms(1,2) g, of ?cmp "before_in P txs"] dependencies_ids [of _ _ P txs] greedy_Nil
    by blast
  have "set zs = set txs"
    using traversal_complete [OF zs(2) _ assms(2), of rank] dependencies_ids [of _ _ P txs]
      dependencies_rank [OF assms(3)] zs(2) unfolding traversal_def by auto
  moreover have "distinct zs" using zs(2) by (auto simp: traversal_def distinct_map)
  ultimately have m: "mset zs = mset txs" using assms(2) by (simp add: distinct_map set_eq_iff_mset_eq_distinct)
  then have "length zs = length (transactionsById ?g)" using B mset_eq_length by fastforce
  then show ?thesis using q(1) zs m by (simp add: sortByFeeWithDependencies_def leftovers_def Let_def)
qed

subsection \<open>Properties of the order\<close>

lemma number_transactions_props:
  "length (number_transactions zs) = length zs"
  "i < length zs \<Longrightarrow> number_transactions zs ! i = (zs ! i)\<lparr>tx_index := i\<rparr>"
  by (simp_all add: number_transactions_def nth_enumerate_eq)

lemma rewards_partition: "mset (blockRewards txs) + mset (nonBlockRewards txs) = mset txs"
proof -
  have "nonBlockRewards txs = filter (\<lambda>t. \<not> (\<exists>i \<in> set (tx_inputs t). i = [])) txs"
    unfolding nonBlockRewards_def by (intro filter_cong) auto
  then show ?thesis by (simp add: blockRewards_def)
qed

lemma sortTransactions_sorted:
  assumes "sorter_package_ok P" "distinct (map tx_id txs)" "dependency_rank P rank (nonBlockRewards txs)"
  shows "\<exists>ns. sortTransactions P txs = Some (Inr (number_transactions (blockRewards txs @ ns)))
    \<and> mset ns = mset (nonBlockRewards txs)
    \<and> greedy (dependencies P (nonBlockRewards txs)) (nonBlockRewards txs) (before_in P (nonBlockRewards txs)) ns"
proof -
  have "distinct (map tx_id (nonBlockRewards txs))"
    using assms(2) by (simp add: nonBlockRewards_def distinct_map_filter)
  then obtain ns where ns: "sortByFeeWithDependencies P (nonBlockRewards txs) = Some (Inr ns)"
      "mset ns = mset (nonBlockRewards txs)"
      "greedy (dependencies P (nonBlockRewards txs)) (nonBlockRewards txs) (before_in P (nonBlockRewards txs)) ns"
    using sortByFeeWithDependencies_greedy [OF assms(1) _ assms(3)] by blast
  have "size (mset (blockRewards txs) + mset ns) = size (mset txs)"
    unfolding ns(2) rewards_partition ..
  then have "length (blockRewards txs @ ns) = length txs" by simp
  then have "sortTransactions P txs = Some (Inr (number_transactions (blockRewards txs @ ns)))"
    using ns(1) by (simp add: sortTransactions_def number_transactions_props Let_def)
  then show ?thesis using ns(2,3) by blast
qed

text \<open>The greatest fee among a transaction and its descendants in a list.\<close>

definition greatest_fee :: "sorter_package \<Rightarrow> Transaction list \<Rightarrow> string \<Rightarrow> bigint \<Rightarrow> bool" where
  "greatest_fee P txs i fee \<longleftrightarrow>
     (\<exists>d \<in> set txs. (i, tx_id d) \<in> (dependencies P txs)\<^sup>* \<and> tx_priorityFee d = fee)
     \<and> (\<forall>d \<in> set txs. (i, tx_id d) \<in> (dependencies P txs)\<^sup>* \<longrightarrow> tx_priorityFee d \<le> fee)"

lemma effective_priority_greatest_fee:
  assumes "distinct (map tx_id txs)" "dependency_rank P rank txs" "t \<in> set txs"
  shows "greatest_fee P txs (tx_id t) (effective_priority (buildDependencyGraph P txs) (tx_id t))"
proof -
  let ?g = "buildDependencyGraph P txs"
  note g = buildDependencyGraph_graph [OF assms(1), of P]
  have look: "map_of (transactionsById ?g) (tx_id d) = Some d" if "d \<in> set txs" for d
    using graph_lookup [OF assms(1) g, of "tx_id d" d] that by simp
  have rel: "child_rel ?g = dependencies P txs" using g by (auto simp: child_rel_def graph_of_def)
  have fee: "priority_in ?g (tx_id d) = tx_priorityFee d" if "d \<in> set txs" for d
    by (simp add: priority_in_def look [OF that] getTransactionPriority_def)
  have eff: "effective ?g (tx_id t) (effective_priority ?g (tx_id t))"
    using effective_priority_effective [OF graph_ranked [OF assms(1,2) g]] look [OF assms(3)] by simp
  have reach: "\<exists>d \<in> set txs. j = tx_id d" if "(tx_id t, j) \<in> (dependencies P txs)\<^sup>*" for j
    using that assms(3) dependencies_ids [of _ j P txs] by (cases rule: rtranclE) auto
  from eff obtain j where j: "(tx_id t, j) \<in> (dependencies P txs)\<^sup>*" "priority_in ?g j = effective_priority ?g (tx_id t)"
    unfolding effective_def rel by blast
  obtain d where "d \<in> set txs" "j = tx_id d" using reach [OF j(1)] by blast
  then show ?thesis using j eff fee unfolding greatest_fee_def effective_def rel by auto
qed

text \<open>
  C13: A block is put in an executable order. For transactions with distinct identifiers and without cyclic
  dependencies, sorting returns: the rewards in their old order, then all the other transactions, each
  numbered by its position. Among the others, every transaction comes after all the transactions of the
  block it spends from, and is at its turn the first of all that could come next: by the greatest fee among
  itself and its descendants, then by its own fee, then by hash.
\<close>

theorem transactions_sorted_by_dependency_and_fee:
  assumes "sorter_package_ok P" and "distinct (map tx_id txs)" and "dependency_rank P rank (nonBlockRewards txs)"
  shows "\<exists>ns eff. sortTransactions P txs = Some (Inr (number_transactions (blockRewards txs @ ns)))
    \<and> mset ns = mset (nonBlockRewards txs)
    \<and> (\<forall>t \<in> set ns. greatest_fee P (nonBlockRewards txs) (tx_id t) (eff (tx_id t)))
    \<and> (\<forall>ys x ws. ns = ys @ x # ws \<longrightarrow>
         (\<forall>p. (p, tx_id x) \<in> dependencies P (nonBlockRewards txs) \<longrightarrow> p \<in> tx_id ` set ys)
         \<and> (\<forall>t. available (dependencies P (nonBlockRewards txs)) (nonBlockRewards txs) ys t \<longrightarrow>
              comes_before P eff x t))
    \<and> (\<forall>i < length txs. number_transactions (blockRewards txs @ ns) ! i =
         ((blockRewards txs @ ns) ! i)\<lparr>tx_index := i\<rparr>)"
proof -
  let ?n = "nonBlockRewards txs"
  obtain ns where ns: "sortTransactions P txs = Some (Inr (number_transactions (blockRewards txs @ ns)))"
      "mset ns = mset ?n" "greedy (dependencies P ?n) ?n (before_in P ?n) ns"
    using sortTransactions_sorted [OF assms] by blast
  have "size (mset (blockRewards txs) + mset ns) = size (mset txs)" unfolding ns(2) rewards_partition ..
  then have len: "length (blockRewards txs @ ns) = length txs" by simp
  have d: "distinct (map tx_id ?n)" using assms(2) by (simp add: nonBlockRewards_def distinct_map_filter)
  have "\<forall>t \<in> set ns. greatest_fee P ?n (tx_id t) (effective_priority (buildDependencyGraph P ?n) (tx_id t))"
    using effective_priority_greatest_fee [OF d assms(3)] mset_eq_setD [OF ns(2)] by blast
  then show ?thesis using ns len number_transactions_props(2) [of _ "blockRewards txs @ ns"]
    unfolding greedy_def available_def before_in_def
    by (intro exI [of _ ns] exI [of _ "effective_priority (buildDependencyGraph P ?n)"]) auto
qed

lemma greedy_unique:
  assumes "greedy E txs bef zs" "greedy E txs bef zs'" "length zs = length zs'"
    and anti: "\<And>a b. a \<in> set txs \<Longrightarrow> b \<in> set txs \<Longrightarrow> bef a b \<Longrightarrow> bef b a \<Longrightarrow> a = b"
  shows "zs = zs'"
proof -
  have "take n zs = take n zs'" if "n \<le> length zs" for n
    using that
  proof (induction n)
    case (Suc n)
    let ?ys = "take n zs"
    have n: "n < length zs" "n < length zs'" using Suc.prems assms(3) by auto
    have eq: "take n zs' = ?ys" using Suc by simp
    have "zs = ?ys @ zs ! n # drop (Suc n) zs" "zs' = ?ys @ zs' ! n # drop (Suc n) zs'"
      using id_take_nth_drop [OF n(1)] id_take_nth_drop [OF n(2)] eq by auto
    then have a: "available E txs ?ys (zs ! n)" "\<And>t. available E txs ?ys t \<Longrightarrow> bef (zs ! n) t"
        "available E txs ?ys (zs' ! n)" "\<And>t. available E txs ?ys t \<Longrightarrow> bef (zs' ! n) t"
      using assms(1,2) unfolding greedy_def by blast+
    then have "zs ! n = zs' ! n" by (intro anti) (auto simp: available_def)
    then show ?case using n eq by (simp add: take_Suc_conv_app_nth)
  qed simp
  from this [of "length zs"] show ?thesis using assms(3) by simp
qed

lemma dependencies_cong:
  "set txs = set txs' \<Longrightarrow> sp_toHex P = sp_toHex P' \<Longrightarrow> dependencies P txs = dependencies P' txs'"
  by (simp add: dependencies_def dependency_def)

lemma effective_priority_cong:
  assumes "distinct (map tx_id txs)" "distinct (map tx_id txs')" "set txs = set txs'" "sp_toHex P = sp_toHex P'"
    "dependency_rank P rank txs" "t \<in> set txs"
  shows "effective_priority (buildDependencyGraph P txs) (tx_id t) =
    effective_priority (buildDependencyGraph P' txs') (tx_id t)"
proof -
  let ?g = "buildDependencyGraph P txs" and ?g' = "buildDependencyGraph P' txs'"
  note g = buildDependencyGraph_graph [OF assms(1), of P] and g' = buildDependencyGraph_graph [OF assms(2), of P']
  have rank': "dependency_rank P' rank txs'" using assms(3,4,5) by (simp add: dependency_rank_def)
  have look: "map_of (transactionsById ?g) i = map_of (transactionsById ?g') i" for i
    using graph_lookup [OF assms(1) g, of i] graph_lookup [OF assms(2) g', of i] assms(3)
    by (cases "map_of (transactionsById ?g) i"; cases "map_of (transactionsById ?g') i") auto
  have rel: "child_rel ?g = child_rel ?g'"
    using g g' dependencies_cong [OF assms(3,4)] by (simp add: child_rel_def graph_of_def)
  have eff: "effective ?g i p \<longleftrightarrow> effective ?g' i p" for i p
    by (simp add: effective_def rel priority_in_def look)
  have "map_of (transactionsById ?g) (tx_id t) \<noteq> None"
    using graph_lookup [OF assms(1) g, of "tx_id t" t] assms(6) by simp
  then show ?thesis
    using effective_priority_effective [OF graph_ranked [OF assms(1,5) g]]
      effective_priority_effective [OF graph_ranked [OF assms(2) rank' g']] look eff effective_unique by metis
qed

lemma greedy_cong:
  assumes "set txs = set txs'" "E = E'"
    and "\<And>a b. a \<in> set txs \<Longrightarrow> b \<in> set txs \<Longrightarrow> bef a b \<longleftrightarrow> bef' a b"
  shows "greedy E txs bef zs \<longleftrightarrow> greedy E' txs' bef' zs"
proof -
  have av: "available E txs ys t \<longleftrightarrow> available E' txs' ys t" for ys t by (simp add: available_def assms(1,2))
  have "(available E txs ys x \<and> (\<forall>t. available E txs ys t \<longrightarrow> bef x t)) \<longleftrightarrow>
      (available E' txs' ys x \<and> (\<forall>t. available E' txs' ys t \<longrightarrow> bef' x t))" for ys x
    unfolding av [symmetric] using assms(3) by (auto simp: available_def)
  then show ?thesis unfolding greedy_def by simp
qed

text \<open>
  C8: The order of a block is canonical: it depends neither on the order in which the node received the
  transactions nor on how its priority queue breaks ties. If two nodes sort the same transactions, with
  distinct identifiers and distinct indexing hashes, then the transactions that are not rewards come in the
  same order.
\<close>

theorem block_order_canonical:
  assumes "sorter_package_ok P" and "sorter_package_ok P'" and "sp_toHex P = sp_toHex P'"
    and "sp_compare P = sp_compare P'" and "mset txs = mset txs'" and "distinct (map tx_id txs)"
    and "dependency_rank P rank (nonBlockRewards txs)"
    and "inj_on tx_computedIndexingHash (set (nonBlockRewards txs))"
  shows "\<exists>ns. sortTransactions P txs = Some (Inr (number_transactions (blockRewards txs @ ns)))
    \<and> sortTransactions P' txs' = Some (Inr (number_transactions (blockRewards txs' @ ns)))"
proof -
  let ?n = "nonBlockRewards txs" and ?n' = "nonBlockRewards txs'"
  have m: "mset ?n = mset ?n'" using assms(5) by (simp add: nonBlockRewards_def)
  have s: "set ?n = set ?n'" by (rule mset_eq_setD [OF m])
  have d': "distinct (map tx_id txs')"
    using assms(5,6) by (metis mset_eq_imp_distinct_iff mset_map)
  have d: "distinct (map tx_id ?n)" "distinct (map tx_id ?n')"
    using assms(6) d' by (simp_all add: nonBlockRewards_def distinct_map_filter)
  have r': "dependency_rank P' rank ?n'" using assms(3,7) s by (simp add: dependency_rank_def)
  obtain ns where ns: "sortTransactions P txs = Some (Inr (number_transactions (blockRewards txs @ ns)))"
      "mset ns = mset ?n" "greedy (dependencies P ?n) ?n (before_in P ?n) ns"
    using sortTransactions_sorted [OF assms(1,6,7)] by blast
  obtain ns' where ns': "sortTransactions P' txs' = Some (Inr (number_transactions (blockRewards txs' @ ns')))"
      "mset ns' = mset ?n'" "greedy (dependencies P' ?n') ?n' (before_in P' ?n') ns'"
    using sortTransactions_sorted [OF assms(2) d' r'] by blast
  have "before_in P ?n a b \<longleftrightarrow> before_in P' ?n' a b" if "a \<in> set ?n" "b \<in> set ?n" for a b
    using effective_priority_cong [OF d s assms(3,7)] that
    by (simp add: before_in_def comes_before_def assms(4))
  then have "greedy (dependencies P ?n) ?n (before_in P ?n) ns'"
    using ns'(3) greedy_cong [OF s dependencies_cong [OF s assms(3)]] by blast
  moreover have "a = b" if "a \<in> set ?n" "b \<in> set ?n" "before_in P ?n a b" "before_in P ?n b a" for a b
    using comes_before_order(3) [OF assms(1)] that assms(8) unfolding before_in_def by (auto dest: inj_onD)
  moreover have "length ns = length ns'" using ns(2) ns'(2) m by (metis mset_eq_length)
  ultimately have "ns = ns'" using greedy_unique [OF ns(3)] by blast
  then show ?thesis using ns(1) ns'(1) by blast
qed

text \<open>
  Applying a recorded order gives that order back: for transactions with distinct identifiers,
  the identifiers of any permutation of them, applied to the transactions in any order, return the permutation;
  an unknown identifier or a wrong number of them is refused.
\<close>

theorem recorded_order_restored:
  assumes "distinct (map tx_id txs)"
  shows "(mset zs = mset txs \<longrightarrow> sortTransactionsByOrder (map tx_id zs) txs = Inr zs)
    \<and> (length ids \<noteq> length txs \<or> \<not> set ids \<subseteq> tx_id ` set txs \<longrightarrow>
        (\<exists>e. sortTransactionsByOrder ids txs = Inl e))"
proof (intro conjI impI)
  let ?f = "\<lambda>i. case find (\<lambda>t. tx_id t = i) txs of None \<Rightarrow> Inl (TransactionNotFound i) | Some tx \<Rightarrow> Inr tx"
  have f: "?f (tx_id t) = Inr t" if "t \<in> set txs" for t
  proof (cases "find (\<lambda>u. tx_id u = tx_id t) txs")
    case None
    then show ?thesis using that by (auto simp: find_None_iff)
  next
    case (Some u)
    then have "u \<in> set txs" "tx_id u = tx_id t" by (auto simp: find_Some_iff)
    then show ?thesis using Some tx_id_inj [OF assms] that by auto
  qed
  assume "mset zs = mset txs"
  then have len: "length zs = length txs" and "set zs = set txs" by (auto dest: mset_eq_length mset_eq_setD)
  moreover have "res_map ?f (map tx_id zs) = Inr zs"
    unfolding res_map_Inr_iff list_all2_map1 list_all2_same using f \<open>set zs = set txs\<close> by blast
  ultimately show "sortTransactionsByOrder (map tx_id zs) txs = Inr zs" by (simp add: sortTransactionsByOrder_def)
next
  let ?f = "\<lambda>i. case find (\<lambda>t. tx_id t = i) txs of None \<Rightarrow> Inl (TransactionNotFound i) | Some tx \<Rightarrow> Inr tx"
  assume bad: "length ids \<noteq> length txs \<or> \<not> set ids \<subseteq> tx_id ` set txs"
  have "\<nexists>ys. res_map ?f ids = Inr ys" if "\<not> set ids \<subseteq> tx_id ` set txs"
  proof
    assume "\<exists>ys. res_map ?f ids = Inr ys"
    then obtain ys where "list_all2 (\<lambda>i y. ?f i = Inr y) ids ys" by (auto simp: res_map_Inr_iff)
    then have "\<forall>i \<in> set ids. \<exists>y. ?f i = Inr y" by (auto simp: list_all2_conv_all_nth in_set_conv_nth)
    then have "set ids \<subseteq> tx_id ` set txs" by (fastforce split: option.splits simp: find_Some_iff)
    then show False using that by simp
  qed
  then show "\<exists>e. sortTransactionsByOrder ids txs = Inl e"
    using bad by (cases "res_map ?f ids") (auto simp: sortTransactionsByOrder_def)
qed

subsection \<open>Examples\<close>

fun pick_first :: "('a \<Rightarrow> 'a \<Rightarrow> int) \<Rightarrow> 'a list \<Rightarrow> 'a \<times> 'a list" where
  "pick_first cmp [x] = (x, [])"
| "pick_first cmp (x # y # ys) =
     (let r = pick_first cmp (y # ys) in if cmp x (fst r) \<le> 0 then (x, fst r # snd r) else (fst r, x # snd r))"

lemma pick_first_ok:
  "order_on cmp (set q) \<Longrightarrow> q \<noteq> [] \<Longrightarrow>
    mset q = add_mset (fst (pick_first cmp q)) (mset (snd (pick_first cmp q)))
    \<and> (\<forall>y \<in> set q. cmp (fst (pick_first cmp q)) y \<le> 0)"
proof (induction cmp q rule: pick_first.induct)
  case (1 cmp x)
  then show ?case by (auto simp: order_on_def)
next
  case (2 cmp x y ys)
  let ?r = "pick_first cmp (y # ys)"
  have "order_on cmp (set (y # ys))" by (rule order_on_subset [OF "2.prems"(1)]) auto
  then have ih: "mset (y # ys) = add_mset (fst ?r) (mset (snd ?r))" "\<forall>z \<in> set (y # ys). cmp (fst ?r) z \<le> 0"
    using "2.IH" by auto
  have r: "fst ?r \<in> set (y # ys)" using ih(1) by (metis set_mset_mset union_single_eq_member)
  have mem: "x \<in> set (x # y # ys)" "fst ?r \<in> set (x # y # ys)" using r by auto
  note tot = conjunct1 [OF "2.prems"(1) [unfolded order_on_def]]
    and trans = conjunct2 [OF "2.prems"(1) [unfolded order_on_def]]
  show ?case
  proof (cases "cmp x (fst ?r) \<le> 0")
    case True
    have "cmp x z \<le> 0" if "z \<in> set (y # ys)" for z
    proof -
      have "z \<in> set (x # y # ys)" using that by simp
      from bspec [OF bspec [OF bspec [OF trans mem(1)] mem(2)] this] show ?thesis using True ih(2) that by blast
    qed
    moreover have "cmp x x \<le> 0" using "2.prems"(1) by (auto simp: order_on_def)
    ultimately show ?thesis using True ih(1) by (auto simp: Let_def)
  next
    case False
    then have "cmp (fst ?r) x \<le> 0" using bspec [OF bspec [OF tot mem(1)] mem(2)] by blast
    then show ?thesis using False ih by (auto simp: Let_def)
  qed
qed simp

definition sample_sorter :: sorter_package where
  "sample_sorter = \<lparr>sp_toHex = map (\<lambda>w. char_of (unat w)),
     sp_compare = (\<lambda>a b. if a = b then 0 else if ord_class.lexordp a b then - 1 else 1), sp_dequeue = pick_first\<rparr>"

lemma sample_sorter_ok: "sorter_package_ok sample_sorter"
  unfolding sorter_package_ok_def
proof (intro conjI allI impI)
  show "order_on (sp_compare sample_sorter) UNIV"
    unfolding order_on_def sample_sorter_def
    using lexordp_linear by (auto split: if_splits dest: lexordp_trans)
  fix a b
  assume "sp_compare sample_sorter a b \<le> 0" "sp_compare sample_sorter b a \<le> 0"
  then show "a = b" by (auto simp: sample_sorter_def split: if_splits dest: lexordp_antisym)
qed (simp_all add: sample_sorter_def pick_first_ok)

definition sample_txs :: "Transaction list" where
  "sample_txs =
     [\<lparr>tx_id = ''D'', tx_inputs = [[2]], tx_priorityFee = 5, tx_computedIndexingHash = [4], tx_index = 0\<rparr>,
      \<lparr>tx_id = ''B'', tx_inputs = [[65]], tx_priorityFee = 10, tx_computedIndexingHash = [3], tx_index = 1\<rparr>,
      \<lparr>tx_id = ''A'', tx_inputs = [[1]], tx_priorityFee = 1, tx_computedIndexingHash = [2], tx_index = 2\<rparr>,
      \<lparr>tx_id = ''C'', tx_inputs = [[]], tx_priorityFee = 0, tx_computedIndexingHash = [1], tx_index = 3\<rparr>]"

definition sample_rank :: "string \<Rightarrow> nat" where
  "sample_rank i = (if i = ''B'' then 2 else if i = ''A'' \<or> i = ''D'' then 1 else 0)"

lemma sample_txs_ok:
  "distinct (map tx_id sample_txs)" "dependency_rank sample_sorter sample_rank (nonBlockRewards sample_txs)"
  "inj_on tx_computedIndexingHash (set (nonBlockRewards sample_txs))"
  "map tx_id (blockRewards sample_txs) = [''C'']" "map tx_id (nonBlockRewards sample_txs) = [''D'', ''B'', ''A'']"
  by (simp_all add: sample_txs_def nonBlockRewards_def blockRewards_def dependency_rank_def sample_sorter_def
      sample_rank_def char_of_def inj_on_def)

theorem transactions_sorted_by_dependency_and_fee_witness:
  "\<exists>ns. sortTransactions sample_sorter sample_txs = Some (Inr (number_transactions (blockRewards sample_txs @ ns)))
     \<and> mset (map tx_id ns) = {#''A'', ''B'', ''D''#}"
proof -
  obtain ns where ns: "sortTransactions sample_sorter sample_txs =
      Some (Inr (number_transactions (blockRewards sample_txs @ ns)))" "mset ns = mset (nonBlockRewards sample_txs)"
    using transactions_sorted_by_dependency_and_fee [OF sample_sorter_ok sample_txs_ok(1,2)] by blast
  have "mset (map tx_id ns) = mset (map tx_id (nonBlockRewards sample_txs))" using ns(2) by simp
  then show ?thesis using ns(1) sample_txs_ok(5) by (intro exI [of _ ns]) simp
qed

theorem block_order_canonical_witness:
  "\<exists>ns. sortTransactions sample_sorter sample_txs = Some (Inr (number_transactions (blockRewards sample_txs @ ns)))
     \<and> sortTransactions sample_sorter (rev sample_txs) = Some (Inr (number_transactions (blockRewards (rev sample_txs) @ ns)))"
  by (rule block_order_canonical [OF sample_sorter_ok sample_sorter_ok _ _ _ sample_txs_ok(1,2,3)]) simp_all

theorem recorded_order_restored_witness:
  "sortTransactionsByOrder (map tx_id (rev sample_txs)) sample_txs = Inr (rev sample_txs)
   \<and> (\<exists>e. sortTransactionsByOrder [''C''] sample_txs = Inl e)"
  using recorded_order_restored [OF sample_txs_ok(1), of "rev sample_txs" "[''C'']"] by (simp add: sample_txs_def)

end
