(* ===== verification/VM_Manager.thy ===== *)
theory VM_Manager
  imports Contract_Evaluation MLDSA_Keys
begin

text \<open>
  \<open>VMManager.ts\<close> and \<open>VMBitcoinBlock.ts\<close>: the block session of the virtual machine. One block at a time is
  prepared, its transactions' results are collected in the storage and receipt trees, contracts read
  storage through the trees, a cache and the database, and at the end the trees are frozen
  and the slots they hold are written under the block's height. The contract collection
  (\<open>ContractRepository.ts\<close>) and \<open>ContractInformation.ts\<close> are here too.

  The state is the record \<open>VMManager\<close> with the database (\<open>vm_storage\<close>) inside; methods return the state with
  their result or error. Caches of promises are the promises' values. The parameters
  \<open>vm_env\<close> are the configuration, the consensus values and the functions of packages. Log output and
  the native instances that \<open>purgeAllContractInstances\<close> drops are left out; \<open>vmEvaluators\<close> is left out as well:
  no caller allows cached evaluators.
\<close>

subsection \<open>Contracts\<close>

definition ContractInformation_toDocument :: "ContractInformation \<Rightarrow> IContractDocument" where
  "ContractInformation_toDocument c =
     \<lparr>cd_blockHeight = ci_blockHeight c, cd_contractAddress = ci_contractAddress c,
      cd_contractPublicKey = contractPublicKey c, cd_bytecode = ci_bytecode c, cd_wasCompressed = ci_wasCompressed c,
      cd_deployedTransactionId = ci_deployedTransactionId c, cd_deployedTransactionHash = ci_deployedTransactionHash c,
      cd_deployerPubKey = ci_deployerPubKey c, cd_contractSeed = ci_contractSeed c,
      cd_contractSaltHash = ci_contractSaltHash c, cd_deployerAddress = ci_deployerAddress c\<rparr>"

definition ContractInformation_fromDocument :: "IContractDocument \<Rightarrow> ContractInformation" where
  "ContractInformation_fromDocument d =
     \<lparr>ci_blockHeight = cd_blockHeight d, ci_contractAddress = cd_contractAddress d,
      contractPublicKey = cd_contractPublicKey d, ci_bytecode = cd_bytecode d, ci_wasCompressed = cd_wasCompressed d,
      ci_deployedTransactionId = cd_deployedTransactionId d, ci_deployedTransactionHash = cd_deployedTransactionHash d,
      ci_deployerPubKey = cd_deployerPubKey d, ci_contractSeed = cd_contractSeed d,
      ci_contractSaltHash = cd_contractSaltHash d, ci_deployerAddress = cd_deployerAddress d\<rparr>"

lemma document_roundtrip [simp]:
  "ContractInformation_fromDocument (ContractInformation_toDocument c) = c"
  by (simp add: ContractInformation_fromDocument_def ContractInformation_toDocument_def)

datatype vm_error = VMAlreadyProcessing | BlockAlreadyPrepared | RevertNotPrepared | TerminateNotPrepared
  | BlockStateNotFound | ReceiptStateNotFound | TransactionIdNotFound | ChangedStorageNotFound
  | ExecutorCannotSave | BlockHeightMismatch | PointerProofsNotFound | PointerProofsInvalid | StateWithoutTree
  | BlockRootsNotFound | AlteredHeaders | HeaderHeightMismatch | InvalidChecksumLength | InvalidAddress
  | ContractAlreadyExists | CannotDeployItself | ContractNotFound | DeployedInCache | DeployedInEvaluation
  | MissingDeploymentIds | VMMerkle merkle_error | VMHeader header_error | VMPointer pointer_error
  | VMKeys mldsa_error | VMEvaluation eval_error | Concurrency | OutOfGas | EvaluatorNotFound | InvalidContract
  | AccessListNotAllowed | InvalidBlockHeight | MissingBytecode

record ProvenMemoryValue =
  pm_value :: bytes
  pm_proofs :: "string list"
  pm_lastSeenAt :: bigint

record vm_env =
  ve_isExecutor :: bool
  ve_disableStorageCheck :: bool
  ve_resync :: bool
  ve_light :: bool
  ve_tx :: TRANSACTIONS_config
  ve_merkle :: merkle_package
  ve_toPointer :: "bytes \<Rightarrow> bigint"
  ve_same :: "bytes \<Rightarrow> bytes \<Rightarrow> bool"
  ve_fromString :: "string \<Rightarrow> address option"
  ve_p2op :: "address \<Rightarrow> string"
  ve_contractSeed :: "bytes \<Rightarrow> bytes \<Rightarrow> bytes \<Rightarrow> address"
  ve_hash256 :: "bytes \<Rightarrow> bytes"
  ve_addressBytes :: "address \<Rightarrow> bytes"
  ve_zeroAddress :: address
  ve_tweak :: "bytes \<Rightarrow> bytes"

record VMManager =
  vm_isPrepared :: bool
  vm_blockId :: bigint
  vm_blockState :: "StateMerkleTree option"
  vm_receiptState :: "ReceiptMerkleTree option"
  vm_verifiedBlockHeights :: "(bigint, header_error + bool) js_map"
  vm_contractCache :: "(address, ContractInformation) js_map"
  vm_contractAddressCache :: "(string, address) js_map"
  vm_isProcessing :: bool
  vm_validator :: BlockHeaderValidator
  vm_pointerCache :: "(address, (bigint, ProvenMemoryValue option) js_map) js_map"
  vm_mldsa :: mldsa_registry
  vm_storage :: storage

text \<open>\<open>startsWith\<close> on an address string, and the lookups of \<open>ContractRepository\<close>. A document has no hybrid
  public key, so a string of 132 characters after \<open>0x\<close> finds nothing.\<close>

definition getContractAddressAt ::
    "vm_env \<Rightarrow> string \<Rightarrow> bigint option \<Rightarrow> IContractDocument list \<Rightarrow> vm_error + address option" where
  "getContractAddressAt E contractAddress height ds =
     (if take 2 contractAddress = ''0x''
      then if length contractAddress \<noteq> 132
           then (case ve_fromString E contractAddress of None \<Rightarrow> Inl InvalidAddress | Some a \<Rightarrow> Inr (Some a))
           else Inr None
      else Inr (map_option cd_contractPublicKey
             (find (\<lambda>d. cd_contractAddress d = contractAddress
                \<and> (case height of None \<Rightarrow> True | Some h \<Rightarrow> cd_blockHeight d < h)) ds)))"

definition getContract :: "address \<Rightarrow> bigint option \<Rightarrow> IContractDocument list \<Rightarrow> ContractInformation option" where
  "getContract a height ds =
     map_option ContractInformation_fromDocument
       (find (\<lambda>d. cd_contractPublicKey d = a \<and> (case height of None \<Rightarrow> True | Some h \<Rightarrow> cd_blockHeight d \<le> h)) ds)"

definition setContract ::
    "vm_env \<Rightarrow> ContractInformation \<Rightarrow> IContractDocument list \<Rightarrow> vm_error + IContractDocument list" where
  "setContract E contract ds =
     res_bind (getContractAddressAt E (ci_contractAddress contract) None ds) (\<lambda>contractExists.
       if contractExists \<noteq> None then Inl ContractAlreadyExists
       else Inr (ds @ [ContractInformation_toDocument contract]))"

subsection \<open>The block session\<close>

definition VMBitcoinBlock_prepare :: "bigint \<Rightarrow> VMManager \<Rightarrow> (vm_error + unit) \<times> VMManager" where
  "VMBitcoinBlock_prepare blockId vm =
     (if vm_isPrepared vm then (Inl BlockAlreadyPrepared, vm)
      else (Inr (), vm\<lparr>vm_isPrepared := True, vm_blockId := blockId\<rparr>))"

definition VMBitcoinBlock_reset :: "VMManager \<Rightarrow> VMManager" where
  "VMBitcoinBlock_reset vm = vm\<lparr>vm_isPrepared := False, vm_blockId := 0\<rparr>"

definition VMBitcoinBlock_revert :: "VMManager \<Rightarrow> (vm_error + unit) \<times> VMManager" where
  "VMBitcoinBlock_revert vm =
     (if \<not> vm_isPrepared vm then (Inl RevertNotPrepared, vm) else (Inr (), VMBitcoinBlock_reset vm))"

definition VMBitcoinBlock_terminate :: "VMManager \<Rightarrow> (vm_error + unit) \<times> VMManager" where
  "VMBitcoinBlock_terminate vm =
     (if \<not> vm_isPrepared vm then (Inl TerminateNotPrepared, vm) else (Inr (), VMBitcoinBlock_reset vm))"

definition vm_clear :: "VMManager \<Rightarrow> VMManager" where
  "vm_clear vm = vm\<lparr>vm_blockState := None, vm_receiptState := None, vm_verifiedBlockHeights := [],
     vm_contractCache := [], vm_contractAddressCache := [], vm_validator := clear (vm_validator vm),
     vm_pointerCache := [], vm_mldsa := registry_empty\<rparr>"

definition prepareBlock :: "bigint \<Rightarrow> VMManager \<Rightarrow> (vm_error + unit) \<times> VMManager" where
  "prepareBlock blockId vm =
     (if vm_blockState vm \<noteq> None then (Inl VMAlreadyProcessing, vm)
      else st_bind (VMBitcoinBlock_prepare blockId)
        (\<lambda>_. st_put (\<lambda>vm. vm\<lparr>vm_blockState := Some MerkleTree_new, vm_receiptState := Some MerkleTree_new\<rparr>)) vm)"

definition revertBlock :: "VMManager \<Rightarrow> (vm_error + unit) \<times> VMManager" where
  "revertBlock vm = (case VMBitcoinBlock_revert vm of (r, vm') \<Rightarrow> (r, vm_clear vm'))"

definition terminateBlock :: "VMManager \<Rightarrow> (vm_error + unit) \<times> VMManager" where
  "terminateBlock vm = (case VMBitcoinBlock_terminate vm of (r, vm') \<Rightarrow> (r, vm_clear vm'))"

definition lift_vm :: "('e \<Rightarrow> vm_error) \<Rightarrow> 'e + 'a \<Rightarrow> vm_error + 'a" where
  "lift_vm c r = (case r of Inl e \<Rightarrow> Inl (c e) | Inr x \<Rightarrow> Inr x)"

lemma lift_vm_Inr [simp]: "lift_vm c r = Inr x \<longleftrightarrow> r = Inr x" "lift_vm c (Inr y) = Inr y" "lift_vm c (Inl e) = Inl (c e)"
  by (simp_all add: lift_vm_def split: sum.splits)

text \<open>The changes of a transaction, address by address; a slot's entries are those of its map.\<close>

definition apply_changes :: "(address, FastBigIntMap) js_map \<Rightarrow> StateMerkleTree \<Rightarrow> StateMerkleTree" where
  "apply_changes changed t =
     fold (\<lambda>(contract, val). StateMerkleTree_updateValues contract (bm_contents val)) changed t"

definition updateBlockValuesFromResult ::
    "vm_env \<Rightarrow> ContractEvaluation option \<Rightarrow> address \<Rightarrow> string \<Rightarrow> bool \<Rightarrow> VMManager \<Rightarrow> (vm_error + unit) \<times> VMManager" where
  "updateBlockValuesFromResult E evaluation contract transactionId disableStorageCheck vm =
     (if ve_isExecutor E then (Inr (), vm)
      else case (vm_blockState vm, vm_receiptState vm) of
        (None, _) \<Rightarrow> (Inl BlockStateNotFound, vm)
      | (_, None) \<Rightarrow> (Inl ReceiptStateNotFound, vm)
      | (Some bs, Some rs) \<Rightarrow>
          if transactionId = [] then (Inl TransactionIdNotFound, vm)
          else
            (let saved = (case evaluation of
                   None \<Rightarrow> Inr None
                 | Some e \<Rightarrow>
                     (let result = getEvaluationResult e in
                      case (ce_revert e, er_result result) of
                        (None, Some r) \<Rightarrow>
                          (case er_changedStorage result of
                             None \<Rightarrow> Inl ChangedStorageNotFound
                           | Some changed \<Rightarrow> Inr (Some (changed, r)))
                      | _ \<Rightarrow> Inr None)) in
             st_bind (st_lift saved) (\<lambda>s.
             st_bind (case s of
                 Some (changed, r) \<Rightarrow>
                   st_bind (st_put (\<lambda>vm. vm\<lparr>vm_blockState := Some (apply_changes changed bs)\<rparr>)) (\<lambda>_.
                   st_bind (st_lift (lift_vm VMMerkle (ReceiptMerkleTree_updateValue (ve_same E) contract transactionId r rs)))
                     (\<lambda>rs'. st_put (\<lambda>vm. vm\<lparr>vm_receiptState := Some rs'\<rparr>)))
               | None \<Rightarrow>
                   st_bind (st_lift (lift_vm VMMerkle (ReceiptMerkleTree_updateValue (ve_same E) contract transactionId [0] rs)))
                     (\<lambda>rs'. st_put (\<lambda>vm. vm\<lparr>vm_receiptState := Some rs'\<rparr>))) (\<lambda>_.
             st_when (\<not> disableStorageCheck)
               (\<lambda>vm. (case vm_blockState vm of
                   None \<Rightarrow> (Inl BlockStateNotFound, vm)
                 | Some t \<Rightarrow>
                     (case StateMerkleTree_generateTree (ve_merkle E) True t of
                        Inl e \<Rightarrow> (Inl (VMMerkle e), vm)
                      | Inr t' \<Rightarrow> (Inr (), vm\<lparr>vm_blockState := Some t'\<rparr>)))))) vm))"

subsection \<open>Reading storage\<close>

text \<open>A JavaScript value that can also be \<open>undefined\<close> or \<open>null\<close>.\<close>

datatype 'a js_lookup = JsUndefined | JsNull | JsValue 'a

definition getPointerFromCache :: "address \<Rightarrow> bigint \<Rightarrow> VMManager \<Rightarrow> ProvenMemoryValue js_lookup" where
  "getPointerFromCache a pointer vm =
     (case map_of (vm_pointerCache vm) a of
        None \<Rightarrow> JsUndefined
      | Some addressCache \<Rightarrow>
          (case map_of addressCache pointer of Some (Some v) \<Rightarrow> JsValue v | _ \<Rightarrow> JsUndefined))"

definition storePointerInCache :: "address \<Rightarrow> bigint \<Rightarrow> ProvenMemoryValue option \<Rightarrow> VMManager \<Rightarrow> VMManager" where
  "storePointerInCache a pointer v vm =
     (let addressCache = (case map_of (vm_pointerCache vm) a of None \<Rightarrow> [] | Some c \<Rightarrow> c)
      in vm\<lparr>vm_pointerCache := AList.update a (AList.update pointer v addressCache) (vm_pointerCache vm)\<rparr>)"

definition getFromInternalCache ::
    "vm_env \<Rightarrow> address \<Rightarrow> bigint \<Rightarrow> VMManager \<Rightarrow> vm_error + (bytes \<times> string list) js_lookup" where
  "getFromInternalCache E a pointer vm =
     res_bind (case vm_blockState vm of
                 None \<Rightarrow> Inr None
               | Some t \<Rightarrow> lift_vm VMMerkle (StateMerkleTree_getValueWithProofs (ve_merkle E) t a pointer)) (\<lambda>fromState.
       case fromState of
         Some v \<Rightarrow> Inr (JsValue v)
       | None \<Rightarrow>
           (case getPointerFromCache a pointer vm of
              JsValue v \<Rightarrow> Inr (JsValue (pm_value v, pm_proofs v))
            | JsNull \<Rightarrow> Inr JsNull
            | JsUndefined \<Rightarrow> Inr JsUndefined))"

definition storage_getStorage ::
    "address \<Rightarrow> bytes \<Rightarrow> bigint \<Rightarrow> storage \<Rightarrow> vm_error + ProvenMemoryValue option" where
  "storage_getStorage a pointer height st =
     lift_vm VMPointer (res_bind (getByContractAndPointer a pointer (Some height) (st_pointers st))
       (\<lambda>v. Inr (map_option (\<lambda>d. \<lparr>pm_value = pv_value d, pm_proofs = pv_proofs d, pm_lastSeenAt = pv_lastSeenAt d\<rparr>) v)))"

datatype db_value = DirectMemory bytes | Proven ProvenMemoryValue

definition getStorageFromDB ::
    "address \<Rightarrow> bytes \<Rightarrow> bigint \<Rightarrow> bigint \<Rightarrow> VMManager \<Rightarrow> (vm_error + db_value option) \<times> VMManager" where
  "getStorageFromDB a pointer pointerBigInt blockNumber vm =
     (case storage_getStorage a pointer blockNumber (vm_storage vm) of
        Inl e \<Rightarrow> (Inl e, vm)
      | Inr valueFromDB \<Rightarrow>
          (let vm1 = storePointerInCache a pointerBigInt valueFromDB vm in
           case valueFromDB of
             None \<Rightarrow> (Inr None, vm1)
           | Some v \<Rightarrow> (Inr (Some (if pm_lastSeenAt v = 0 then DirectMemory (pm_value v) else Proven v)), vm1)))"

definition vm_headers :: "VMManager \<Rightarrow> header_db" where
  "vm_headers vm = header_lookup (st_headers (vm_storage vm))"

definition vm_getBlockHeader :: "bigint \<Rightarrow> VMManager \<Rightarrow> (vm_error + BlockHeaderDocument option) \<times> VMManager" where
  "vm_getBlockHeader height vm =
     (case getBlockHeader (vm_headers vm) height (vm_validator vm) of (d, v) \<Rightarrow> (Inr d, vm\<lparr>vm_validator := v\<rparr>))"

definition verifyBlockAtHeight_uncached ::
    "vm_env \<Rightarrow> bigint \<Rightarrow> BlockHeaderDocument \<Rightarrow> VMManager \<Rightarrow> (header_error + bool) option \<times> VMManager" where
  "verifyBlockAtHeight_uncached E height d vm =
     (if height \<noteq> BlockHeaderDocument.bh_height d then (None, vm)
      else (case validateBlockChecksum (ve_merkle E) (vm_headers vm) (ve_light E) d (vm_validator vm) of
              (r, v) \<Rightarrow> (Some r, vm\<lparr>vm_validator := v\<rparr>)))"

definition verifyBlockAtHeight ::
    "vm_env \<Rightarrow> bigint \<Rightarrow> BlockHeaderDocument \<Rightarrow> VMManager \<Rightarrow> (vm_error + bool) \<times> VMManager" where
  "verifyBlockAtHeight E height d vm =
     (case map_of (vm_verifiedBlockHeights vm) height of
        Some r \<Rightarrow> (lift_vm VMHeader r, vm)
      | None \<Rightarrow>
          (case verifyBlockAtHeight_uncached E height d vm of
             (None, vm1) \<Rightarrow> (Inl HeaderHeightMismatch, vm1)
           | (Some r, vm1) \<Rightarrow>
               (lift_vm VMHeader r,
                vm1\<lparr>vm_verifiedBlockHeights := AList.update height r (vm_verifiedBlockHeights vm1)\<rparr>)))"

definition verifyProofs ::
    "vm_env \<Rightarrow> bytes \<Rightarrow> bytes \<Rightarrow> string list \<Rightarrow> bigint \<Rightarrow> VMManager \<Rightarrow> (vm_error + bool) \<times> VMManager" where
  "verifyProofs E encodedPointer v proofs height vm =
     (if height = vm_blockId vm
      then (case vm_blockState vm of
              None \<Rightarrow> (Inl BlockStateNotFound, vm)
            | Some t \<Rightarrow>
                if \<not> ve_disableStorageCheck E \<and> \<not> hasTree t then (Inl StateWithoutTree, vm)
                else if ve_disableStorageCheck E then (Inr True, vm)
                else (lift_vm VMMerkle (res_bind (MerkleTree_root (ve_merkle E) t)
                        (\<lambda>rt. StateMerkleTree_verify (ve_merkle E) rt [encodedPointer, v] proofs)), vm))
      else st_bind (vm_getBlockHeader height) (\<lambda>blockHeaders.
        case blockHeaders of
          None \<Rightarrow> st_throw BlockRootsNotFound
        | Some d \<Rightarrow>
            st_bind (verifyBlockAtHeight E height d) (\<lambda>isVerifiedBlock.
              if \<not> isVerifiedBlock then st_throw AlteredHeaders
              else st_lift (lift_vm VMMerkle
                (StateMerkleTree_verify (ve_merkle E) (BlockHeaderDocument.bh_storageRoot d) [encodedPointer, v] proofs)))) vm)"

definition finalizeProvenMemoryValue ::
    "vm_env \<Rightarrow> address \<Rightarrow> bytes \<Rightarrow> ProvenMemoryValue option \<Rightarrow> bigint \<Rightarrow> bool \<Rightarrow> VMManager
     \<Rightarrow> (vm_error + ProvenMemoryValue option) \<times> VMManager" where
  "finalizeProvenMemoryValue E a pointer provenMemoryValue blockNumber treatNullAsZero vm =
     (if provenMemoryValue = None \<and> \<not> treatNullAsZero then (Inr None, vm)
      else
        (let realValue = or_else provenMemoryValue
               \<lparr>pm_value = replicate 32 0, pm_proofs = [], pm_lastSeenAt = blockNumber\<rparr>;
             vm1 = storePointerInCache a (ve_toPointer E pointer) (Some realValue) vm in
         if SKIP_PROOF_VALIDATION_FOR_EXECUTION_BEFORE_TRANSACTION (ve_tx E) then (Inr (Some realValue), vm1)
         else if pm_proofs realValue = [] then (Inl PointerProofsNotFound, vm1)
         else st_bind (verifyProofs E pointer (pm_value realValue) (pm_proofs realValue) (pm_lastSeenAt realValue))
           (\<lambda>isValid. if isValid then st_return (Some realValue) else st_throw PointerProofsInvalid) vm1))"

definition VM_getStorage ::
    "vm_env \<Rightarrow> address \<Rightarrow> bytes \<Rightarrow> bigint \<Rightarrow> bool \<Rightarrow> VMManager \<Rightarrow> (vm_error + bytes option) \<times> VMManager" where
  "VM_getStorage E a pointer blockNumber doNotLoad vm =
     (if vm_blockState vm = None \<and> \<not> ve_isExecutor E then (Inl BlockStateNotFound, vm)
      else
        (let finish = (\<lambda>p. st_bind (finalizeProvenMemoryValue E a pointer p blockNumber False)
               (\<lambda>verified. st_return (map_option pm_value verified))) in
         case getFromInternalCache E a (ve_toPointer E pointer) vm of
           Inl e \<Rightarrow> (Inl e, vm)
         | Inr JsNull \<Rightarrow> finish None vm
         | Inr JsUndefined \<Rightarrow>
             if doNotLoad then (Inr None, vm)
             else st_bind (getStorageFromDB a pointer (ve_toPointer E pointer) blockNumber) (\<lambda>result.
               case result of
                 None \<Rightarrow> st_return None
               | Some (DirectMemory m) \<Rightarrow> st_return (Some m)
               | Some (Proven p) \<Rightarrow> finish (Some p)) vm
         | Inr (JsValue (v, proofs)) \<Rightarrow>
             if SKIP_PROOF_VALIDATION_FOR_EXECUTION_BEFORE_TRANSACTION (ve_tx E) then (Inr (Some v), vm)
             else finish (Some \<lparr>pm_value = v, pm_proofs = proofs, pm_lastSeenAt = vm_blockId vm\<rparr>) vm))"

text \<open>
  \<open>getStorageMultiple\<close>. The maps of the answer are keyed by byte array objects, not by their contents: a pointer
  found in the database gives an entry of its own next to the entry of the requested pointer, which
  stays \<open>null\<close>. So the answer is a list of entries, in insertion order. The aggregation returns for each
  pointer the newest document below the height.
\<close>

definition found_pointers ::
    "address \<times> bytes list \<Rightarrow> bigint \<Rightarrow> storage \<Rightarrow> (bytes \<times> ProvenMemoryValue option) list" where
  "found_pointers req height st =
     concat (map (\<lambda>p. case newest (filter (pointer_matches (fst req) p (Some height)) (st_pointers st)) of
         None \<Rightarrow> []
       | Some d \<Rightarrow> [(p, Some \<lparr>pm_value = pv_value d, pm_proofs = pv_proofs d, pm_lastSeenAt = pv_lastSeenAt d\<rparr>)])
       (remdups (snd req)))"

definition getByContractsAndPointers ::
    "(address \<times> bytes list) list \<Rightarrow> bigint \<Rightarrow> storage \<Rightarrow> (address \<times> (bytes \<times> ProvenMemoryValue option) list) list option"
  where
  "getByContractsAndPointers pointers height st =
     (if pointers = [] then None
      else Some (map (\<lambda>req. (fst req, map (\<lambda>p. (p, None)) (snd req) @ found_pointers req height st)) pointers))"

definition preload_pointer ::
    "vm_env \<Rightarrow> address \<Rightarrow> VMManager \<Rightarrow> bytes \<Rightarrow> (bytes \<times> ProvenMemoryValue option) list \<times> bytes list
     \<Rightarrow> vm_error + (bytes \<times> ProvenMemoryValue option) list \<times> bytes list" where
  "preload_pointer E a vm pointer acc =
     (case acc of (entries, missing) \<Rightarrow>
        res_bind (getFromInternalCache E a (ve_toPointer E pointer) vm) (\<lambda>r. case r of
            JsNull \<Rightarrow> Inr (entries @ [(pointer, None)], missing)
          | JsValue (v, proofs) \<Rightarrow>
              Inr (entries @ [(pointer, Some \<lparr>pm_value = v, pm_proofs = proofs, pm_lastSeenAt = vm_blockId vm\<rparr>)], missing)
          | JsUndefined \<Rightarrow> Inr (entries, missing @ [pointer])))"

definition finalize_entry ::
    "vm_env \<Rightarrow> bigint \<Rightarrow> address \<Rightarrow> bytes \<times> ProvenMemoryValue option \<Rightarrow> VMManager
     \<Rightarrow> (vm_error + bytes \<times> ProvenMemoryValue option) \<times> VMManager" where
  "finalize_entry E blockNumber a kv =
     st_bind (finalizeProvenMemoryValue E a (fst kv) (snd kv) blockNumber False) (\<lambda>verified. st_return (fst kv, verified))"

fun st_map :: "('a \<Rightarrow> 's \<Rightarrow> ('e + 'b) \<times> 's) \<Rightarrow> 'a list \<Rightarrow> 's \<Rightarrow> ('e + 'b list) \<times> 's" where
  "st_map f [] = st_return []"
| "st_map f (x # xs) = st_bind (f x) (\<lambda>y. st_bind (st_map f xs) (\<lambda>ys. st_return (y # ys)))"

definition VM_getStorageMultiple ::
    "vm_env \<Rightarrow> (address \<times> bytes list) list \<Rightarrow> bigint \<Rightarrow> VMManager
     \<Rightarrow> (vm_error + (address \<times> (bytes \<times> ProvenMemoryValue option) list) list option) \<times> VMManager" where
  "VM_getStorageMultiple E pointerList blockNumber vm =
     (if vm_blockState vm = None \<and> \<not> ve_isExecutor E then (Inl BlockStateNotFound, vm)
      else case res_map (\<lambda>(a, pointers). res_bind (res_fold (preload_pointer E a vm) pointers ([], []))
                  (\<lambda>(entries, missing). Inr (a, entries, missing))) pointerList of
        Inl e \<Rightarrow> (Inl e, vm)
      | Inr parts \<Rightarrow>
          (case getByContractsAndPointers (map (\<lambda>(a, entries, missing). (a, missing)) parts) blockNumber (vm_storage vm) of
             None \<Rightarrow> (Inr None, vm)
           | Some fetched \<Rightarrow>
               st_bind (st_map (\<lambda>(a, entries). st_bind (st_map (finalize_entry E blockNumber a) entries)
                   (\<lambda>vs. st_return (a, vs)))
                 (map2 (\<lambda>(a, entries, missing) (b, found). (a, entries @ found)) parts fetched))
                 (\<lambda>r. st_return (Some r)) vm))"

subsection \<open>The end of a block\<close>

definition updateReceiptState :: "vm_env \<Rightarrow> VMManager \<Rightarrow> (vm_error + unit) \<times> VMManager" where
  "updateReceiptState E vm =
     (case vm_receiptState vm of
        None \<Rightarrow> (Inl ReceiptStateNotFound, vm)
      | Some rs \<Rightarrow>
          (case getPreviousBlockChecksumOfHeight (vm_headers vm) (ve_light E) (vm_blockId vm) (vm_validator vm) of
             (Inl e, v) \<Rightarrow> (Inl (VMHeader e), vm\<lparr>vm_validator := v\<rparr>)
           | (Inr lastChecksum, v) \<Rightarrow>
               st_bind (st_lift
                 (res_bind (if lastChecksum \<noteq> [] \<and> lastChecksum \<noteq> ZERO_HASH
                            then res_bind (lift_vm VMMerkle (merkle_toBytes (ve_merkle E) lastChecksum)) (\<lambda>b.
                              if length b \<noteq> 32 then Inl InvalidChecksumLength else Inr b)
                            else Inr []) (\<lambda>checksumBuffer.
                  lift_vm VMMerkle
                    (res_bind (ReceiptMerkleTree_updateValue (ve_same E) (mp_fakeAddress (ve_merkle E)) MAX_HASH checksumBuffer rs) (\<lambda>r1.
                     res_bind (ReceiptMerkleTree_updateValue (ve_same E) (mp_fakeAddress (ve_merkle E)) MAX_MINUS_ONE [1] r1)
                       (ReceiptMerkleTree_freeze (ve_merkle E))))))) (\<lambda>r3.
               st_put (\<lambda>vm. vm\<lparr>vm_receiptState := Some r3\<rparr>)) (vm\<lparr>vm_validator := v\<rparr>)))"

definition storage_changes ::
    "merkle_package \<Rightarrow> (bigint, bigint \<times> string list) address_values
     \<Rightarrow> merkle_error + (address \<times> (bytes \<times> bytes \<times> string list) list) list" where
  "storage_changes M stateChanges =
     res_map (\<lambda>(a, val). res_bind
         (res_map (\<lambda>(key, v). res_bind (encodePointer M key) (\<lambda>pointer.
            res_bind (or_throw (mp_valueToUint8Array M (fst v))) (\<lambda>data. Inr (pointer, data, snd v)))) val)
         (\<lambda>entries. Inr (a, entries)))
       (filter (\<lambda>(a, val). val \<noteq> []) stateChanges)"

definition saveBlockStateChanges :: "vm_env \<Rightarrow> VMManager \<Rightarrow> (vm_error + unit) \<times> VMManager" where
  "saveBlockStateChanges E vm =
     (if ve_isExecutor E then (Inl ExecutorCannotSave, vm)
      else case vm_blockState vm of
        None \<Rightarrow> (Inl BlockStateNotFound, vm)
      | Some t \<Rightarrow>
          if ve_resync E then (Inr (), vm)
          else st_bind (st_when (mldsaToStore (vm_mldsa vm) \<noteq> []) (\<lambda>vm.
                 (case savePublicKeys (map snd (mldsaToStore (vm_mldsa vm))) (st_publicKeys (vm_storage vm)) of
                    (r, ks) \<Rightarrow> (lift_vm VMKeys r, vm\<lparr>vm_storage := (vm_storage vm)\<lparr>st_publicKeys := ks\<rparr>\<rparr>)))) (\<lambda>_.
               st_bind (st_lift (lift_vm VMMerkle
                   (getEverythingWithProofs (ve_merkle E) (state_entry (ve_merkle E)) (StateMerkleTree_toBytes (ve_merkle E)) t)))
                 (\<lambda>stateChanges. case stateChanges of
                    None \<Rightarrow> st_return ()
                  | Some changes \<Rightarrow>
                      st_bind (st_lift (lift_vm VMMerkle (storage_changes (ve_merkle E) changes))) (\<lambda>storageToUpdate.
                        st_when (storageToUpdate \<noteq> [])
                          (st_put (\<lambda>vm. vm\<lparr>vm_storage := (vm_storage vm)\<lparr>st_pointers :=
                             setStoragePointers (mp_fakeAddress (ve_merkle E)) storageToUpdate (vm_blockId vm)
                               (st_pointers (vm_storage vm))\<rparr>\<rparr>))))) vm)"

definition updateEvaluatedStates ::
    "vm_env \<Rightarrow> VMManager \<Rightarrow> (vm_error + StateMerkleTree \<times> ReceiptMerkleTree) \<times> VMManager" where
  "updateEvaluatedStates E vm =
     (if vm_blockState vm = None then (Inl BlockStateNotFound, vm)
      else if vm_receiptState vm = None then (Inl ReceiptStateNotFound, vm)
      else st_bind (updateReceiptState E) (\<lambda>_.
        st_bind (\<lambda>vm. (case vm_blockState vm of
             None \<Rightarrow> (Inl BlockStateNotFound, vm)
           | Some t \<Rightarrow>
               (case StateMerkleTree_freeze (ve_merkle E) t of
                  Inl e \<Rightarrow> (Inl (VMMerkle e), vm)
                | Inr t' \<Rightarrow> (Inr (), vm\<lparr>vm_blockState := Some t'\<rparr>)))) (\<lambda>_.
        st_bind (saveBlockStateChanges E) (\<lambda>_.
        (\<lambda>vm. case (vm_blockState vm, vm_receiptState vm) of
            (Some storage, Some receipts) \<Rightarrow>
              (Inr (storage, receipts), vm\<lparr>vm_blockState := None, vm_receiptState := None\<rparr>)
          | _ \<Rightarrow> (Inl BlockStateNotFound, vm))))) vm)"

fun upsert_header :: "BlockHeaderDocument \<Rightarrow> BlockHeaderDocument list \<Rightarrow> BlockHeaderDocument list" where
  "upsert_header d [] = [d]"
| "upsert_header d (e # es) =
     (if BlockHeaderDocument.bh_height e = BlockHeaderDocument.bh_height d then d # es else e # upsert_header d es)"

definition saveBlock :: "BlockHeaderDocument \<Rightarrow> VMManager \<Rightarrow> (vm_error + unit) \<times> VMManager" where
  "saveBlock d vm =
     (if BlockHeaderDocument.bh_height d \<noteq> vm_blockId vm then (Inl BlockHeightMismatch, vm)
      else (Inr (), vm\<lparr>vm_storage := (vm_storage vm)\<lparr>st_headers := upsert_header d (st_headers (vm_storage vm))\<rparr>\<rparr>))"

subsection \<open>Contracts of the current block\<close>

definition VM_setStorage :: "vm_env \<Rightarrow> address \<Rightarrow> bigint \<Rightarrow> bigint \<Rightarrow> VMManager \<Rightarrow> (vm_error + unit) \<times> VMManager" where
  "VM_setStorage E a pointer v vm =
     (if ve_isExecutor E then (Inr (), vm)
      else case vm_blockState vm of
        None \<Rightarrow> (Inl BlockStateNotFound, vm)
      | Some t \<Rightarrow>
          (case StateMerkleTree_updateValue a pointer v t of
             Inl e \<Rightarrow> (Inl (VMMerkle e), vm)
           | Inr t' \<Rightarrow> (Inr (), vm\<lparr>vm_blockState := Some t'\<rparr>)))"

definition getContractAddress :: "vm_env \<Rightarrow> string \<Rightarrow> VMManager \<Rightarrow> (vm_error + address option) \<times> VMManager" where
  "getContractAddress E potentialContractAddress vm =
     (case map_of (vm_contractAddressCache vm) potentialContractAddress of
        Some a \<Rightarrow> (Inr (Some a), vm)
      | None \<Rightarrow>
          (case getContractAddressAt E potentialContractAddress None (st_contracts (vm_storage vm)) of
             Inl e \<Rightarrow> (Inl e, vm)
           | Inr None \<Rightarrow> (Inr None, vm)
           | Inr (Some a) \<Rightarrow>
               (Inr (Some a), vm\<lparr>vm_contractAddressCache :=
                  AList.update potentialContractAddress a (vm_contractAddressCache vm)\<rparr>)))"

definition isContract :: "vm_env \<Rightarrow> address \<Rightarrow> VMManager \<Rightarrow> (vm_error + bool) \<times> VMManager" where
  "isContract E a = st_bind (getContractAddress E (ve_p2op E a)) (\<lambda>contract. st_return (contract = Some a))"

definition getContractInformation ::
    "address \<Rightarrow> bigint option \<Rightarrow> VMManager \<Rightarrow> (vm_error + ContractInformation option) \<times> VMManager" where
  "getContractInformation a height vm =
     (case map_of (vm_contractCache vm) a of
        Some c \<Rightarrow> (Inr (Some c), vm)
      | None \<Rightarrow>
          (case getContract a height (st_contracts (vm_storage vm)) of
             None \<Rightarrow> (Inr None, vm)
           | Some c \<Rightarrow> (Inr (Some c), vm\<lparr>vm_contractCache := AList.update a c (vm_contractCache vm)\<rparr>)))"

definition setContractAt :: "vm_env \<Rightarrow> ContractInformation \<Rightarrow> VMManager \<Rightarrow> (vm_error + unit) \<times> VMManager" where
  "setContractAt E c vm =
     (let vm1 = vm\<lparr>vm_contractCache := AList.update (contractPublicKey c) c (vm_contractCache vm)\<rparr> in
      case setContract E c (st_contracts (vm_storage vm1)) of
        Inl e \<Rightarrow> (Inl e, vm1)
      | Inr ds \<Rightarrow> (Inr (), vm1\<lparr>vm_storage := (vm_storage vm1)\<lparr>st_contracts := ds\<rparr>\<rparr>))"

definition deployContractFromInfo :: "vm_env \<Rightarrow> ContractInformation \<Rightarrow> VMManager \<Rightarrow> (vm_error + unit) \<times> VMManager" where
  "deployContractFromInfo E c = (if ve_isExecutor E then st_return () else setContractAt E c)"

definition generateAddress :: "vm_env \<Rightarrow> bytes \<Rightarrow> address \<Rightarrow> bytes \<Rightarrow> address" where
  "generateAddress E salt deployer bytecode =
     ve_contractSeed E (ve_hash256 E (ve_addressBytes E deployer)) bytecode salt"

text \<open>
  The result is the new address with the length of the bytecode; a contract already deployed in an earlier
  block gives the zero address. \<open>address === evaluation.contractAddress\<close> compares objects: \<open>self\<close> says
  whether the caller passed its own address object.
\<close>

definition deployContractAtAddress ::
    "vm_env \<Rightarrow> bool \<Rightarrow> bigint \<Rightarrow> bytes \<times> bytes \<Rightarrow> address \<Rightarrow> bytes \<Rightarrow> ContractEvaluation \<Rightarrow> VMManager
     \<Rightarrow> (vm_error + (address \<times> nat) \<times> ContractEvaluation) \<times> VMManager" where
  "deployContractAtAddress E self blockNumber ids a salt e =
     (if self then st_throw CannotDeployItself
      else st_bind (getContractInformation a (Some blockNumber)) (\<lambda>contractInfo. case contractInfo of
          None \<Rightarrow> st_throw ContractNotFound
        | Some info \<Rightarrow>
            (let deployResult = generateAddress E salt (ce_contractAddress e) (drop 1 (ci_bytecode info)) in
             st_bind (st_get (\<lambda>vm. map_of (vm_contractCache vm) deployResult \<noteq> None)) (\<lambda>cached.
             if cached then st_throw DeployedInCache
             else if deployedContract e deployResult then st_throw DeployedInEvaluation
             else st_bind (st_get (\<lambda>vm. getContract deployResult (Some (blockNumber - 1)) (st_contracts (vm_storage vm))))
               (\<lambda>exist. case exist of
                  Some c \<Rightarrow> st_return ((ve_zeroAddress E, 0), e)
                | None \<Rightarrow>
                    st_bind (st_lift (lift_vm VMEvaluation (addContractInformation e
                        \<lparr>ci_blockHeight = blockNumber, ci_contractAddress = ve_p2op E deployResult,
                         contractPublicKey = deployResult, ci_bytecode = ci_bytecode info, ci_wasCompressed = False,
                         ci_deployedTransactionId = fst ids, ci_deployedTransactionHash = snd ids,
                         ci_deployerPubKey = ve_addressBytes E (contractPublicKey info), ci_contractSeed = salt,
                         ci_contractSaltHash = ve_hash256 E salt, ci_deployerAddress = ce_contractAddress e\<rparr>)))
                      (\<lambda>e'. st_return ((deployResult, length (ci_bytecode info)), e')))))))"

subsection \<open>What a read returns\<close>

text \<open>
  The value of a slot during the block: what the storage tree holds, otherwise the newest value the
  database has below the block's height.
\<close>

definition db_slot :: "bigint \<Rightarrow> storage \<Rightarrow> address \<Rightarrow> bytes \<Rightarrow> bytes option" where
  "db_slot n st a p = map_option pv_value (newest (filter (pointer_matches a p (Some n)) (st_pointers st)))"

definition block_slot :: "VMManager \<Rightarrow> address \<Rightarrow> bigint \<Rightarrow> bigint option" where
  "block_slot vm a k = (case vm_blockState vm of None \<Rightarrow> None | Some t \<Rightarrow> getValue t a k)"

definition current_slot :: "vm_env \<Rightarrow> VMManager \<Rightarrow> address \<Rightarrow> bytes \<Rightarrow> bytes option" where
  "current_slot E vm a p =
     (case block_slot vm a (ve_toPointer E p) of
        Some v \<Rightarrow> mp_valueToUint8Array (ve_merkle E) v
      | None \<Rightarrow> db_slot (vm_blockId vm) (vm_storage vm) a p)"

definition codec_ok :: "vm_env \<Rightarrow> bool" where
  "codec_ok E \<longleftrightarrow>
     (\<forall>p. length p = 32 \<longrightarrow> u256 (ve_toPointer E p) \<and> mp_pointerToUint8Array (ve_merkle E) (ve_toPointer E p) = Some p)
     \<and> (\<forall>k. u256 k \<longrightarrow> (\<exists>p. mp_pointerToUint8Array (ve_merkle E) k = Some p \<and> length p = 32 \<and> ve_toPointer E p = k))
     \<and> (\<forall>v. u256 v \<longrightarrow> (\<exists>b. mp_valueToUint8Array (ve_merkle E) v = Some b))"

definition cache_ok :: "vm_env \<Rightarrow> VMManager \<Rightarrow> bool" where
  "cache_ok E vm \<longleftrightarrow> (\<forall>a k v. getPointerFromCache a k vm = JsValue v \<longrightarrow> block_slot vm a k \<noteq> None
     \<or> (\<exists>p. mp_pointerToUint8Array (ve_merkle E) k = Some p
          \<and> db_slot (vm_blockId vm) (vm_storage vm) a p = Some (pm_value v)))"

definition pointers_ok :: "storage \<Rightarrow> bool" where
  "pointers_ok st \<longleftrightarrow> (\<forall>d \<in> set (st_pointers st). pv_lastSeenAt d \<noteq> 0)"

definition slots_ok :: "VMManager \<Rightarrow> bool" where
  "slots_ok vm \<longleftrightarrow> (\<forall>a k v. block_slot vm a k = Some v \<longrightarrow> u256 k \<and> u256 v)"

definition reads_ok :: "vm_env \<Rightarrow> VMManager \<Rightarrow> bool" where
  "reads_ok E vm \<longleftrightarrow> cache_ok E vm \<and> pointers_ok (vm_storage vm) \<and> slots_ok vm
     \<and> hv_ok (vm_headers vm) (vm_validator vm)"

lemma header_lookup_ok: "db_ok (header_lookup hs)"
  by (auto simp: db_ok_def header_lookup_def find_Some_iff)

lemma vm_headers_ok [simp]: "db_ok (vm_headers vm)"
  by (simp add: vm_headers_def header_lookup_ok)

text \<open>A read changes the caches only.\<close>

definition same_session :: "VMManager \<Rightarrow> VMManager \<Rightarrow> bool" where
  "same_session vm vm' \<longleftrightarrow> vm_blockState vm' = vm_blockState vm \<and> vm_storage vm' = vm_storage vm
     \<and> vm_blockId vm' = vm_blockId vm \<and> vm_isPrepared vm' = vm_isPrepared vm
     \<and> vm_receiptState vm' = vm_receiptState vm \<and> vm_mldsa vm' = vm_mldsa vm
     \<and> vm_contractCache vm' = vm_contractCache vm \<and> vm_contractAddressCache vm' = vm_contractAddressCache vm
     \<and> vm_isProcessing vm' = vm_isProcessing vm"

lemma same_session_fields:
  assumes "same_session vm vm'"
  shows "vm_blockState vm' = vm_blockState vm" "vm_storage vm' = vm_storage vm" "vm_blockId vm' = vm_blockId vm"
    "vm_isPrepared vm' = vm_isPrepared vm" "vm_receiptState vm' = vm_receiptState vm" "vm_mldsa vm' = vm_mldsa vm"
    "block_slot vm' = block_slot vm" "vm_headers vm' = vm_headers vm" "current_slot E vm' = current_slot E vm"
    "slots_ok vm' = slots_ok vm"
  using assms by (simp_all add: same_session_def block_slot_def vm_headers_def current_slot_def slots_ok_def fun_eq_iff
      cong: option.case_cong)

lemma same_session_refl [simp]: "same_session vm vm"
  by (simp add: same_session_def)

lemma same_session_trans: "same_session vm vm1 \<Longrightarrow> same_session vm1 vm2 \<Longrightarrow> same_session vm vm2"
  by (simp add: same_session_def)

lemma getPointer_store:
  "getPointerFromCache b j (storePointerInCache a k v vm) =
     (if b = a \<and> j = k then (case v of Some w \<Rightarrow> JsValue w | None \<Rightarrow> JsUndefined) else getPointerFromCache b j vm)"
  by (auto simp: getPointerFromCache_def storePointerInCache_def Let_def update_conv split: option.splits)

lemma store_session: "same_session vm (storePointerInCache a k v vm)"
  by (simp add: same_session_def storePointerInCache_def Let_def)

lemma store_reads_ok:
  assumes "reads_ok E vm"
    and "\<And>w. v = Some w \<Longrightarrow> block_slot vm a k \<noteq> None \<or> (\<exists>p. mp_pointerToUint8Array (ve_merkle E) k = Some p
        \<and> db_slot (vm_blockId vm) (vm_storage vm) a p = Some (pm_value w))"
  shows "reads_ok E (storePointerInCache a k v vm)"
proof -
  have f: "vm_validator (storePointerInCache a k v vm) = vm_validator vm"
    by (simp add: storePointerInCache_def Let_def)
  have "cache_ok E (storePointerInCache a k v vm)"
    using assms unfolding reads_ok_def cache_ok_def getPointer_store same_session_fields [OF store_session]
    by (auto split: if_splits option.splits)
  then show ?thesis using assms(1) by (simp add: reads_ok_def f same_session_fields [OF store_session])
qed

lemma reads_ok_validator:
  "reads_ok E vm \<Longrightarrow> hv_ok (vm_headers vm) v \<Longrightarrow> reads_ok E (vm\<lparr>vm_validator := v\<rparr>)"
  "reads_ok E vm \<Longrightarrow> reads_ok E (vm\<lparr>vm_verifiedBlockHeights := h\<rparr>)"
  by (auto simp: reads_ok_def cache_ok_def slots_ok_def block_slot_def vm_headers_def getPointerFromCache_def)

definition read_step :: "vm_env \<Rightarrow> VMManager \<Rightarrow> 'a \<times> VMManager \<Rightarrow> bool" where
  "read_step E vm res \<longleftrightarrow> same_session vm (snd res) \<and> reads_ok E (snd res)"

lemma read_step_bind:
  assumes "read_step E vm (m vm)" "\<And>x vm1. m vm = (Inr x, vm1) \<Longrightarrow> read_step E vm1 (f x vm1)"
  shows "read_step E vm (st_bind m f vm)"
  using assms unfolding read_step_def st_bind_def
  by (auto split: prod.splits sum.splits intro: same_session_trans)

lemma read_step_pure: "reads_ok E vm \<Longrightarrow> read_step E vm (r, vm)"
  by (simp add: read_step_def)

lemma vm_getBlockHeader_read: "reads_ok E vm \<Longrightarrow> read_step E vm (vm_getBlockHeader h vm)"
proof -
  assume ok: "reads_ok E vm"
  obtain d v where g: "getBlockHeader (vm_headers vm) h (vm_validator vm) = (d, v)" by force
  have "hv_ok (vm_headers vm) v"
    using getBlockHeader_spec [of "vm_headers vm" "vm_validator vm" h] ok g by (simp add: reads_ok_def)
  then show ?thesis using g reads_ok_validator(1) [OF ok]
    by (auto simp: read_step_def vm_getBlockHeader_def same_session_def)
qed

lemma verifyBlockAtHeight_read: "reads_ok E vm \<Longrightarrow> read_step E vm (verifyBlockAtHeight E h d vm)"
proof -
  assume ok: "reads_ok E vm"
  obtain r v where g: "validateBlockChecksum (ve_merkle E) (vm_headers vm) (ve_light E) d (vm_validator vm) = (r, v)"
    by force
  then have "hv_ok (vm_headers vm) v"
    using validateBlockChecksum_spec [of "vm_headers vm" "vm_validator vm" "ve_merkle E" "ve_light E" d] ok
    by (auto simp: reads_ok_def)
  then have "reads_ok E (vm\<lparr>vm_validator := v\<rparr>)" by (rule reads_ok_validator(1) [OF ok])
  then show ?thesis using g ok reads_ok_validator(2)
    by (auto simp: read_step_def verifyBlockAtHeight_def verifyBlockAtHeight_uncached_def same_session_def
        split: option.splits)
qed

lemma verifyProofs_read: "reads_ok E vm \<Longrightarrow> read_step E vm (verifyProofs E p v pfs h vm)"
proof -
  assume ok: "reads_ok E vm"
  have "read_step E vm (st_bind (vm_getBlockHeader h) f vm)"
    if "\<And>x vm1. reads_ok E vm1 \<Longrightarrow> read_step E vm1 (f x vm1)" for f :: "_ \<Rightarrow> VMManager \<Rightarrow> (vm_error + bool) \<times> VMManager"
  proof (rule read_step_bind)
    fix x vm1 assume "vm_getBlockHeader h vm = (Inr x, vm1)"
    then show "read_step E vm1 (f x vm1)" using vm_getBlockHeader_read [OF ok, of h] that by (simp add: read_step_def)
  qed (rule vm_getBlockHeader_read [OF ok])
  moreover have "read_step E vm1 (st_bind (verifyBlockAtHeight E h d) f vm1)"
    if "reads_ok E vm1" "\<And>x vm2. reads_ok E vm2 \<Longrightarrow> read_step E vm2 (f x vm2)"
    for vm1 d and f :: "_ \<Rightarrow> VMManager \<Rightarrow> (vm_error + bool) \<times> VMManager"
  proof (rule read_step_bind)
    fix x vm2 assume "verifyBlockAtHeight E h d vm1 = (Inr x, vm2)"
    then show "read_step E vm2 (f x vm2)" using verifyBlockAtHeight_read [OF that(1), of h d] that(2) by (simp add: read_step_def)
  qed (rule verifyBlockAtHeight_read [OF that(1)])
  ultimately show ?thesis using ok
    by (auto simp: verifyProofs_def st_throw_def st_lift_def read_step_pure split: option.splits)
qed

text \<open>The value a finalised slot holds, and when it may be cached.\<close>

definition cacheable :: "vm_env \<Rightarrow> VMManager \<Rightarrow> address \<Rightarrow> bytes \<Rightarrow> bytes \<Rightarrow> bool" where
  "cacheable E vm a p v \<longleftrightarrow> block_slot vm a (ve_toPointer E p) \<noteq> None
     \<or> db_slot (vm_blockId vm) (vm_storage vm) a p = Some v"

lemma finalize_read:
  assumes "codec_ok E" "reads_ok E vm" "length p = 32"
    and "\<And>w. pv = Some w \<Longrightarrow> cacheable E vm a p (pm_value w)"
  shows "read_step E vm (finalizeProvenMemoryValue E a p pv n False vm)
    \<and> (\<forall>r vm'. finalizeProvenMemoryValue E a p pv n False vm = (Inr r, vm') \<longrightarrow> r = pv)
    \<and> (SKIP_PROOF_VALIDATION_FOR_EXECUTION_BEFORE_TRANSACTION (ve_tx E) \<longrightarrow>
         (\<exists>r vm'. finalizeProvenMemoryValue E a p pv n False vm = (Inr r, vm')))"
proof (cases pv)
  case None
  then show ?thesis using assms(2) by (simp add: finalizeProvenMemoryValue_def read_step_pure)
next
  case (Some w)
  let ?vm = "storePointerInCache a (ve_toPointer E p) (Some w) vm"
  have ptr: "mp_pointerToUint8Array (ve_merkle E) (ve_toPointer E p) = Some p"
    using assms(1,3) by (simp add: codec_ok_def)
  have ok: "reads_ok E ?vm"
    using assms(4) [OF Some] ptr by (intro store_reads_ok [OF assms(2)]) (auto simp: cacheable_def)
  have "read_step E ?vm (st_bind (verifyProofs E p (pm_value w) (pm_proofs w) (pm_lastSeenAt w))
      (\<lambda>isValid. if isValid then st_return (Some w) else st_throw PointerProofsInvalid) ?vm)"
    by (rule read_step_bind)
      (use verifyProofs_read [OF ok, of p "pm_value w" "pm_proofs w" "pm_lastSeenAt w"] in
        \<open>auto simp: read_step_def st_return_def st_throw_def\<close>)
  then have "read_step E vm (finalizeProvenMemoryValue E a p pv n False vm)"
    using Some ok store_session [of vm a "ve_toPointer E p" "Some w"]
    by (auto simp: finalizeProvenMemoryValue_def Let_def read_step_def intro: same_session_trans)
  moreover have "r = pv" if "finalizeProvenMemoryValue E a p pv n False vm = (Inr r, vm')" for r vm'
    using that Some by (auto simp: finalizeProvenMemoryValue_def Let_def st_bind_Inr_iff st_simps split: if_splits)
  ultimately show ?thesis using Some by (auto simp: finalizeProvenMemoryValue_def Let_def)
qed

lemma getFromInternalCache_value:
  assumes "codec_ok E" "reads_ok E vm" "length p = 32" "getFromInternalCache E a (ve_toPointer E p) vm = Inr r"
  shows "r \<noteq> JsNull
    \<and> (\<forall>v pfs. r = JsValue (v, pfs) \<longrightarrow> current_slot E vm a p = Some v \<and> cacheable E vm a p v)
    \<and> (r = JsUndefined \<longrightarrow> block_slot vm a (ve_toPointer E p) = None)"
proof (cases "block_slot vm a (ve_toPointer E p)")
  case None
  have ptr: "mp_pointerToUint8Array (ve_merkle E) (ve_toPointer E p) = Some p"
    using assms(1,3) by (simp add: codec_ok_def)
  have "pm_value w = v \<Longrightarrow> getPointerFromCache a (ve_toPointer E p) vm = JsValue w \<Longrightarrow>
      db_slot (vm_blockId vm) (vm_storage vm) a p = Some v" for w v
    using assms(2) None ptr by (fastforce simp: reads_ok_def cache_ok_def)
  moreover have "r = (case getPointerFromCache a (ve_toPointer E p) vm of JsValue v \<Rightarrow> JsValue (pm_value v, pm_proofs v)
      | JsNull \<Rightarrow> JsNull | JsUndefined \<Rightarrow> JsUndefined)"
    using assms(4) None by (auto simp: getFromInternalCache_def block_slot_def StateMerkleTree_getValueWithProofs_def
        split: option.splits js_lookup.splits)
  moreover have "getPointerFromCache a (ve_toPointer E p) vm \<noteq> JsNull"
    by (simp add: getPointerFromCache_def split: option.splits)
  ultimately show ?thesis using None
    by (auto simp: current_slot_def cacheable_def split: js_lookup.splits)
next
  case (Some v)
  then obtain t where t: "vm_blockState vm = Some t" "getValue t a (ve_toPointer E p) = Some v"
    by (auto simp: block_slot_def split: option.splits)
  then obtain b pfs where "mp_valueToUint8Array (ve_merkle E) v = Some b" "r = JsValue (b, pfs)"
    using assms(4) by (auto simp: getFromInternalCache_def StateMerkleTree_getValueWithProofs_def split: if_splits)
  then show ?thesis using Some by (auto simp: current_slot_def cacheable_def)
qed

lemma storage_getStorage_slot:
  assumes "pointers_ok st"
  shows "\<exists>v. storage_getStorage a p n st = Inr v \<and> map_option pm_value v = db_slot n st a p
    \<and> (\<forall>w. v = Some w \<longrightarrow> pm_lastSeenAt w \<noteq> 0)"
proof (cases "newest (filter (pointer_matches a p (Some n)) (st_pointers st))")
  case (Some d)
  then have "pv_lastSeenAt d \<noteq> 0" using assms newest_mem [OF Some] by (simp add: pointers_ok_def)
  then show ?thesis using Some by (simp add: storage_getStorage_def getByContractAndPointer_def db_slot_def)
qed (simp add: storage_getStorage_def getByContractAndPointer_def db_slot_def)

lemma VM_getStorage_read:
  assumes "codec_ok E" "reads_ok E vm" "length p = 32"
  shows "read_step E vm (VM_getStorage E a p (vm_blockId vm) False vm)
    \<and> (\<forall>v vm'. VM_getStorage E a p (vm_blockId vm) False vm = (Inr v, vm') \<longrightarrow> v = current_slot E vm a p)"
proof (cases "vm_blockState vm = None \<and> \<not> ve_isExecutor E")
  case True
  then show ?thesis using assms(2) by (simp add: VM_getStorage_def read_step_pure)
next
  case False
  let ?finish = "\<lambda>pv. st_bind (finalizeProvenMemoryValue E a p pv (vm_blockId vm) False)
     (\<lambda>verified. st_return (map_option pm_value verified))"
  have finish: "read_step E vm1 (?finish (Some w) vm1) \<and> (\<forall>v vm'. ?finish (Some w) vm1 = (Inr v, vm') \<longrightarrow> v = Some (pm_value w))"
    if ok: "reads_ok E vm1" and w: "cacheable E vm1 a p (pm_value w)" for vm1 w
  proof -
    have w': "\<And>x. Some w = Some x \<Longrightarrow> cacheable E vm1 a p (pm_value x)" using w by simp
    note fr = finalize_read [OF assms(1) ok assms(3), where pv = "Some w" and a = a and n = "vm_blockId vm", OF w']
    have "read_step E vm1 (?finish (Some w) vm1)"
      by (rule read_step_bind) (use fr in \<open>auto simp: read_step_def st_return_def\<close>)
    moreover have "v = Some (pm_value w)" if "?finish (Some w) vm1 = (Inr v, vm')" for v vm'
      using that fr by (auto simp: st_bind_Inr_iff st_return_def)
    ultimately show ?thesis by blast
  qed
  show ?thesis
  proof (cases "getFromInternalCache E a (ve_toPointer E p) vm")
    case (Inl e)
    then show ?thesis using False assms(2) by (simp add: VM_getStorage_def read_step_pure)
  next
    case (Inr r)
    note g = getFromInternalCache_value [OF assms Inr]
    show ?thesis
    proof (cases r)
      case JsUndefined
      then have none: "block_slot vm a (ve_toPointer E p) = None" using g by simp
      obtain dv where dv: "storage_getStorage a p (vm_blockId vm) (vm_storage vm) = Inr dv"
        "map_option pm_value dv = db_slot (vm_blockId vm) (vm_storage vm) a p" "\<And>w. dv = Some w \<Longrightarrow> pm_lastSeenAt w \<noteq> 0"
        using storage_getStorage_slot [of "vm_storage vm" a p "vm_blockId vm"] assms(2) unfolding reads_ok_def by blast
      let ?vm = "storePointerInCache a (ve_toPointer E p) dv vm"
      have ptr: "mp_pointerToUint8Array (ve_merkle E) (ve_toPointer E p) = Some p"
        using assms(1,3) by (simp add: codec_ok_def)
      have ok: "reads_ok E ?vm"
        using dv(2) ptr by (intro store_reads_ok [OF assms(2)]) auto
      have cur: "current_slot E vm a p = map_option pm_value dv" using none dv(2) by (simp add: current_slot_def)
      show ?thesis
      proof (cases dv)
        case None
        then show ?thesis using False Inr JsUndefined dv(1) ok cur assms(2) store_session [of vm a "ve_toPointer E p" None]
          by (simp add: VM_getStorage_def getStorageFromDB_def st_bind_def st_return_def read_step_def Let_def)
      next
        case (Some w)
        have "cacheable E ?vm a p (pm_value w)"
          using dv(2) Some same_session_fields [OF store_session] by (simp add: cacheable_def)
        note fw = finish [OF ok this]
        have "VM_getStorage E a p (vm_blockId vm) False vm = ?finish (Some w) ?vm"
          using False Inr JsUndefined dv(1) dv(3) Some
          by (auto simp: VM_getStorage_def getStorageFromDB_def st_bind_def Let_def)
        then show ?thesis using fw cur Some store_session [of vm a "ve_toPointer E p" dv]
          by (auto simp: read_step_def intro: same_session_trans)
      qed
    next
      case (JsValue x)
      obtain v pfs where x: "x = (v, pfs)" by (cases x)
      then have cur: "current_slot E vm a p = Some v" "cacheable E vm a p v" using g JsValue by auto
      show ?thesis
        using False Inr JsValue x cur assms(2)
          finish [OF assms(2), of "\<lparr>pm_value = v, pm_proofs = pfs, pm_lastSeenAt = vm_blockId vm\<rparr>"]
        by (auto simp: VM_getStorage_def read_step_pure)
    qed (use g in simp)
  qed
qed

end
