(* ===== verification/VM_Storage.thy ===== *)
theory VM_Storage
  imports VM_Manager
begin

text \<open>
  Contract storage across the life of a block. The abstract view is one map from contract and pointer to
  value: results of transactions overwrite it, reads look it up, the end of the block
  makes it the stored state below every greater height, a reverted block leaves the stored state as it was.
  The lemmas show that the block session of \<open>VM_Manager\<close> implements it.
\<close>

subsection \<open>The results of a transaction\<close>

text \<open>What a transaction changes: nothing when it reverted or ended without a result.\<close>

definition effects :: "ContractEvaluation option \<Rightarrow> address \<Rightarrow> bigint \<Rightarrow> bigint option" where
  "effects ev a k =
     (case ev of None \<Rightarrow> None
      | Some e \<Rightarrow> if ce_revert e = None \<and> ce_result e \<noteq> None then modified_at e a k else None)"

definition effects_ok :: "ContractEvaluation option \<Rightarrow> bool" where
  "effects_ok ev \<longleftrightarrow>
     (case ev of None \<Rightarrow> True
      | Some e \<Rightarrow> ce_modifiedStorage e \<noteq> None \<and> modified_ok e \<and> js_map_ok (or_else (ce_modifiedStorage e) [])
          \<and> (\<forall>a k v. modified_at e a k = Some v \<longrightarrow> u256 k \<and> u256 v))"

lemma modified_table: "ce_modifiedStorage e = Some ch \<Longrightarrow> modified_at e = table_at ch"
  by (auto simp: fun_eq_iff modified_at_def table_at_def split: option.splits)

lemma apply_changes_spec:
  assumes "js_map_ok ch" "table_ok ch" "mk_ok t"
  shows "mk_ok (apply_changes ch t) \<and> mk_tree (apply_changes ch t) = mk_tree t
    \<and> mk_frozen (apply_changes ch t) = mk_frozen t
    \<and> (\<forall>a k. getValue (apply_changes ch t) a k = (getValue t a ++ table_at ch a) k)"
  using assms
proof (induction ch arbitrary: t)
  case (Cons x ch)
  obtain c m where x: "x = (c, m)" by (cases x)
  let ?t = "updateValues state_unchanged c (bm_contents m) t"
  have inv: "bm_invar m" using Cons.prems(2) x by (simp add: table_ok_def)
  have m: "map_of (rev (bm_contents m)) = FastBigIntMap_get m"
    using js_map_rev [OF fbm.distinct_contents [OF inv]] fbm.lookup_contents [OF inv] by auto
  note up = state_tree.updateValues_spec [OF Cons.prems(3), where a = c and kvs = "bm_contents m"]
  have c: "map_of ch c = None" using Cons.prems(1) x by (simp add: map_of_eq_None_iff)
  have ih: "mk_ok (apply_changes ch ?t) \<and> mk_tree (apply_changes ch ?t) = mk_tree ?t
    \<and> mk_frozen (apply_changes ch ?t) = mk_frozen ?t
    \<and> (\<forall>a k. getValue (apply_changes ch ?t) a k = (getValue ?t a ++ table_at ch a) k)"
    by (rule Cons.IH) (use Cons.prems up x in \<open>auto simp: table_ok_def\<close>)
  have "apply_changes (x # ch) t = apply_changes ch ?t"
    by (simp add: x apply_changes_def StateMerkleTree_updateValues_def)
  moreover have "(getValue ?t a ++ table_at ch a) k = (getValue t a ++ table_at (x # ch) a) k" for a k
    using up [of a k] c by (cases "a = c") (auto simp: x m table_at_def map_add_def split: option.splits)
  ultimately show ?case using ih up by simp
qed (simp add: apply_changes_def table_at_def map_add_def)

subsection \<open>The open block\<close>

definition session_ok :: "vm_env \<Rightarrow> VMManager \<Rightarrow> bool" where
  "session_ok E vm \<longleftrightarrow> reads_ok E vm \<and> vm_isPrepared vm
     \<and> (\<exists>t. vm_blockState vm = Some t \<and> mk_ok t \<and> \<not> mk_frozen t \<and> (ve_disableStorageCheck E \<longrightarrow> mk_tree t = None))
     \<and> (\<exists>r. vm_receiptState vm = Some r \<and> mk_ok r \<and> \<not> mk_frozen r)"

lemma generateTree_keeps:
  assumes "StateMerkleTree_generateTree M b t = Inr t'"
  shows "mk_values t' = mk_values t \<and> mk_frozen t' = mk_frozen t"
  using assms by (auto simp: StateMerkleTree_generateTree_def MerkleTree_generateTree_def split: if_splits)

lemma block_state_reads:
  assumes "reads_ok E vm" "\<And>a k. block_slot vm' a k = (block_slot vm a ++ f a) k"
    and "\<And>a k v. f a k = Some v \<Longrightarrow> u256 k \<and> u256 v"
    and "vm_storage vm' = vm_storage vm" "vm_blockId vm' = vm_blockId vm" "vm_validator vm' = vm_validator vm"
    and "vm_pointerCache vm' = vm_pointerCache vm"
  shows "reads_ok E vm'"
proof -
  have "getPointerFromCache a k vm' = getPointerFromCache a k vm" for a k
    using assms(7) by (simp add: getPointerFromCache_def)
  then have "cache_ok E vm'"
    using assms(1,4,5) unfolding reads_ok_def cache_ok_def assms(2)
    by (metis map_add_None)
  moreover have "slots_ok vm'"
    using assms(1,3) unfolding reads_ok_def slots_ok_def assms(2)
    by (metis map_add_Some_iff)
  ultimately show ?thesis using assms(1,4,6) by (simp add: reads_ok_def vm_headers_def)
qed

text \<open>The session with another storage tree.\<close>

definition published :: "VMManager \<Rightarrow> ContractEvaluation option \<Rightarrow> VMManager \<Rightarrow> bool" where
  "published vm ev vm' \<longleftrightarrow> (\<forall>a k. block_slot vm' a k = (block_slot vm a ++ effects ev a) k)
     \<and> vm_storage vm' = vm_storage vm \<and> vm_blockId vm' = vm_blockId vm \<and> vm_validator vm' = vm_validator vm
     \<and> vm_pointerCache vm' = vm_pointerCache vm \<and> vm_isPrepared vm' = vm_isPrepared vm \<and> vm_mldsa vm' = vm_mldsa vm"

definition changes_of :: "ContractEvaluation option \<Rightarrow> (address, FastBigIntMap) js_map" where
  "changes_of ev = (case ev of None \<Rightarrow> [] | Some e \<Rightarrow>
     if ce_revert e = None \<and> ce_result e \<noteq> None then or_else (ce_modifiedStorage e) [] else [])"

lemma changes_of_ok:
  "effects_ok ev \<Longrightarrow> js_map_ok (changes_of ev) \<and> table_ok (changes_of ev) \<and> table_at (changes_of ev) = effects ev"
  by (auto simp: effects_ok_def changes_of_def effects_def fun_eq_iff modified_table modified_ok_def table_ok_def
      table_at_def [of "[]"] split: option.splits)

lemma publish_step:
  assumes "effects_ok ev" "\<not> ve_isExecutor E" "vm_blockState vm = Some t" "vm_receiptState vm = Some rs" "tx \<noteq> []"
    and "\<And>b. \<exists>r'. ReceiptMerkleTree_updateValue (ve_same E) c tx b rs = Inr r' \<and> P r'"
  shows "\<exists>r'. P r' \<and> updateBlockValuesFromResult E ev c tx d vm =
    st_when (\<not> d) (\<lambda>vm. (case vm_blockState vm of
         None \<Rightarrow> (Inl BlockStateNotFound, vm)
       | Some t \<Rightarrow> (case StateMerkleTree_generateTree (ve_merkle E) True t of
             Inl e \<Rightarrow> (Inl (VMMerkle e), vm)
           | Inr t' \<Rightarrow> (Inr (), vm\<lparr>vm_blockState := Some t'\<rparr>))))
      (vm\<lparr>vm_blockState := Some (apply_changes (changes_of ev) t), vm_receiptState := Some r'\<rparr>)"
proof -
  have same: "vm\<lparr>vm_blockState := Some t\<rparr> = vm"
    using assms(3) by (cases vm) simp
  show ?thesis
  proof (cases "\<exists>e x. ev = Some e \<and> ce_revert e = None \<and> ce_result e = Some x")
    case True
    then obtain e x where e: "ev = Some e" "ce_revert e = None" "ce_result e = Some x" by blast
    obtain ch where "ce_modifiedStorage e = Some ch" using assms(1) e(1) by (auto simp: effects_ok_def)
    then show ?thesis using assms(2-5) assms(6) [of x] e
      by (auto simp: updateBlockValuesFromResult_def getEvaluationResult_def changes_of_def st_bind_def st_simps Let_def)
  next
    case False
    then have "changes_of ev = []" by (auto simp: changes_of_def split: option.splits)
    moreover have "ev = None \<or> (\<exists>e. ev = Some e \<and> (ce_revert e = None \<longrightarrow> ce_result e = None))"
      using False by (cases ev) auto
    ultimately show ?thesis using assms(2-5) assms(6) [of "[0]"]
      by (auto simp: updateBlockValuesFromResult_def getEvaluationResult_def st_bind_def st_simps Let_def apply_changes_def same
          split: option.splits)
  qed
qed

lemma publish_spec:
  assumes "session_ok E vm" "effects_ok ev" "\<not> ve_isExecutor E"
    and "updateBlockValuesFromResult E ev c tx (ve_disableStorageCheck E) vm = (r, vm')"
  shows "(r = Inr () \<longrightarrow> session_ok E vm' \<and> published vm ev vm')
    \<and> (ve_disableStorageCheck E \<and> tx \<noteq> [] \<longrightarrow> r = Inr ())"
proof (cases "tx = []")
  case True
  then show ?thesis using assms(1,3,4) by (auto simp: session_ok_def updateBlockValuesFromResult_def)
next
  case False
  obtain t where t: "vm_blockState vm = Some t" "mk_ok t" "\<not> mk_frozen t" "ve_disableStorageCheck E \<longrightarrow> mk_tree t = None"
    using assms(1) by (auto simp: session_ok_def)
  obtain rs where rs: "vm_receiptState vm = Some rs" "mk_ok rs" "\<not> mk_frozen rs"
    using assms(1) by (auto simp: session_ok_def)
  have receipt: "\<exists>r'. ReceiptMerkleTree_updateValue (ve_same E) c tx b rs = Inr r' \<and> mk_ok r' \<and> \<not> mk_frozen r'" for b
    using receipt_tree.updateValue_spec [OF rs(2,3), of "ve_same E" c tx b] by (auto simp: ReceiptMerkleTree_updateValue_def)
  note step = publish_step [OF assms(2,3) t(1) rs(1) False receipt, of "ve_disableStorageCheck E"]
  then obtain r' where r': "mk_ok r'" "\<not> mk_frozen r'" and run: "(r, vm') =
    st_when (\<not> ve_disableStorageCheck E) (\<lambda>vm. (case vm_blockState vm of
         None \<Rightarrow> (Inl BlockStateNotFound, vm)
       | Some t \<Rightarrow> (case StateMerkleTree_generateTree (ve_merkle E) True t of
             Inl e \<Rightarrow> (Inl (VMMerkle e), vm)
           | Inr t' \<Rightarrow> (Inr (), vm\<lparr>vm_blockState := Some t'\<rparr>))))
      (vm\<lparr>vm_blockState := Some (apply_changes (changes_of ev) t), vm_receiptState := Some r'\<rparr>)"
    using assms(4) by auto
  note ch = changes_of_ok [OF assms(2)]
  note ac = apply_changes_spec [of "changes_of ev" t] ch t(2)
  have done_: "session_ok E vm' \<and> published vm ev vm'"
    if "vm' = vm\<lparr>vm_blockState := Some t', vm_receiptState := Some r'\<rparr>" "mk_values t' = mk_values (apply_changes (changes_of ev) t)"
      "mk_frozen t' = mk_frozen t" "ve_disableStorageCheck E \<Longrightarrow> mk_tree t' = mk_tree t" for t'
  proof -
    have g: "getValue t' a k = (getValue t a ++ effects ev a) k" for a k
      using ac that(2) by (simp add: getValue_def)
    have slot: "block_slot vm' a k = (block_slot vm a ++ effects ev a) k" for a k
    proof -
      have "block_slot vm a = getValue t a" by (rule ext) (simp add: block_slot_def t(1))
      then show ?thesis using g that(1) by (simp add: block_slot_def)
    qed
    have "reads_ok E vm'"
      by (rule block_state_reads [OF _ slot]) (use assms(1,2) that(1) in
        \<open>auto simp: session_ok_def effects_ok_def effects_def split: option.splits if_splits\<close>)
    moreover have "mk_ok t'" using ac that(2) by (simp add: mk_ok_def)
    ultimately show ?thesis using that t r' slot assms(1) by (auto simp: session_ok_def published_def)
  qed
  show ?thesis
  proof (cases "ve_disableStorageCheck E")
    case True
    then show ?thesis using run done_ [of "apply_changes (changes_of ev) t"] ac by (auto simp: st_when_def st_return_def)
  next
    case False
    show ?thesis
    proof (cases "StateMerkleTree_generateTree (ve_merkle E) True (apply_changes (changes_of ev) t)")
      case (Inl e)
      then show ?thesis using False run by (simp add: st_when_def)
    next
      case (Inr t')
      have "vm' = vm\<lparr>vm_blockState := Some t', vm_receiptState := Some r'\<rparr>"
        using run False Inr by (simp add: st_when_def)
      from done_ [OF this] generateTree_keeps [OF Inr] ac False show ?thesis by simp
    qed
  qed
qed

subsection \<open>Reads and results in order\<close>

lemma same_session_ok: "session_ok E vm \<Longrightarrow> same_session vm vm' \<Longrightarrow> reads_ok E vm' \<Longrightarrow> session_ok E vm'"
  by (auto simp: session_ok_def same_session_def)

lemma internal_cache_total:
  assumes "codec_ok E" "session_ok E vm" "ve_disableStorageCheck E" "length p = 32"
  shows "\<exists>r. getFromInternalCache E a (ve_toPointer E p) vm = Inr r"
proof (cases "block_slot vm a (ve_toPointer E p)")
  case None
  then show ?thesis
    by (auto simp: block_slot_def getFromInternalCache_def StateMerkleTree_getValueWithProofs_def
        split: option.splits js_lookup.splits)
next
  case (Some v)
  then have "u256 v" using assms(2) by (auto simp: session_ok_def reads_ok_def slots_ok_def)
  then obtain b where "mp_valueToUint8Array (ve_merkle E) v = Some b" using assms(1) by (auto simp: codec_ok_def)
  moreover obtain t where "vm_blockState vm = Some t" "mk_tree t = None" "getValue t a (ve_toPointer E p) = Some v"
    using assms(2,3) Some by (auto simp: session_ok_def block_slot_def)
  ultimately show ?thesis using assms(1,4)
    by (auto simp: getFromInternalCache_def StateMerkleTree_getValueWithProofs_def encodePointer_def codec_ok_def)
qed

lemma read_total:
  assumes "codec_ok E" "session_ok E vm" "ve_disableStorageCheck E" "length p = 32"
    and "SKIP_PROOF_VALIDATION_FOR_EXECUTION_BEFORE_TRANSACTION (ve_tx E)"
  shows "\<exists>v vm'. VM_getStorage E a p (vm_blockId vm) False vm = (Inr v, vm')"
proof -
  obtain t where t: "vm_blockState vm = Some t" using assms(2) by (auto simp: session_ok_def)
  have "pointers_ok (vm_storage vm)" using assms(2) by (simp add: session_ok_def reads_ok_def)
  from storage_getStorage_slot [OF this, of a p "vm_blockId vm"]
  obtain dv where dv: "storage_getStorage a p (vm_blockId vm) (vm_storage vm) = Inr dv" by auto
  have fin: "\<exists>x vm2. finalizeProvenMemoryValue E a p pv (vm_blockId vm) False vm1 = (Inr x, vm2)" for pv vm1
    using assms(5) by (simp add: finalizeProvenMemoryValue_def Let_def)
  obtain r where "getFromInternalCache E a (ve_toPointer E p) vm = Inr r"
    using internal_cache_total [OF assms(1-4)] by blast
  moreover have "\<exists>v vm'. st_bind (finalizeProvenMemoryValue E a p pv (vm_blockId vm) False)
      (\<lambda>verified. st_return (map_option pm_value verified)) vm1 = (Inr v, vm')" for pv vm1
    using fin [of pv vm1] by (auto simp: st_bind_def st_return_def)
  ultimately show ?thesis using t dv assms(5)
    by (auto simp: VM_getStorage_def getStorageFromDB_def st_bind_def st_return_def Let_def split: js_lookup.splits option.splits)
qed

datatype slot_op = PublishResult "ContractEvaluation option" address string | ReadSlot address bytes

definition slot_op_ok :: "slot_op \<Rightarrow> bool" where
  "slot_op_ok op = (case op of PublishResult ev c tx \<Rightarrow> effects_ok ev \<and> tx \<noteq> [] | ReadSlot a p \<Rightarrow> length p = 32)"

definition run_slot_op :: "vm_env \<Rightarrow> slot_op \<Rightarrow> VMManager \<Rightarrow> (vm_error + bytes option) \<times> VMManager" where
  "run_slot_op E op = (case op of
     PublishResult ev c tx \<Rightarrow>
       st_bind (updateBlockValuesFromResult E ev c tx (ve_disableStorageCheck E)) (\<lambda>_. st_return None)
   | ReadSlot a p \<Rightarrow> (\<lambda>vm. VM_getStorage E a p (vm_blockId vm) False vm))"

text \<open>The abstract slots.\<close>

type_synonym slots = "address \<Rightarrow> bytes \<Rightarrow> bytes option"

definition overwrite :: "vm_env \<Rightarrow> ContractEvaluation option \<Rightarrow> slots \<Rightarrow> slots" where
  "overwrite E ev m a p =
     (case effects ev a (ve_toPointer E p) of Some v \<Rightarrow> mp_valueToUint8Array (ve_merkle E) v | None \<Rightarrow> m a p)"

fun abstract_ops :: "vm_env \<Rightarrow> slot_op list \<Rightarrow> slots \<Rightarrow> bytes option list \<times> slots" where
  "abstract_ops E [] m = ([], m)"
| "abstract_ops E (PublishResult ev c tx # ops) m =
     (case abstract_ops E ops (overwrite E ev m) of (outs, m') \<Rightarrow> (None # outs, m'))"
| "abstract_ops E (ReadSlot a p # ops) m =
     (case abstract_ops E ops m of (outs, m') \<Rightarrow> (m a p # outs, m'))"

lemma published_slots: "published vm ev vm' \<Longrightarrow> current_slot E vm' = overwrite E ev (current_slot E vm)"
  by (auto simp: fun_eq_iff published_def current_slot_def overwrite_def map_add_def split: option.splits)

lemma run_slot_op_spec:
  assumes "codec_ok E" "\<not> ve_isExecutor E" "session_ok E vm" "slot_op_ok op" "run_slot_op E op vm = (r, vm')"
  shows "(\<forall>x. r = Inr x \<longrightarrow> session_ok E vm' \<and> vm_storage vm' = vm_storage vm \<and> vm_blockId vm' = vm_blockId vm
        \<and> vm_mldsa vm' = vm_mldsa vm \<and> abstract_ops E [op] (current_slot E vm) = ([x], current_slot E vm'))
    \<and> (ve_disableStorageCheck E \<and> SKIP_PROOF_VALIDATION_FOR_EXECUTION_BEFORE_TRANSACTION (ve_tx E) \<longrightarrow> (\<exists>x. r = Inr x))"
proof (cases op)
  case (PublishResult ev c tx)
  obtain r1 vm1 where up: "updateBlockValuesFromResult E ev c tx (ve_disableStorageCheck E) vm = (r1, vm1)" by fastforce
  have "effects_ok ev" "tx \<noteq> []" using assms(4) PublishResult by (simp_all add: slot_op_ok_def)
  note spec = publish_spec [OF assms(3) this(1) assms(2) up] \<open>tx \<noteq> []\<close>
  then show ?thesis using assms(5) up PublishResult published_slots [of vm ev vm1 E]
    by (cases r1) (auto simp: run_slot_op_def st_bind_def st_return_def published_def)
next
  case (ReadSlot a p)
  have p: "length p = 32" using assms(4) ReadSlot by (simp add: slot_op_ok_def)
  have "reads_ok E vm" using assms(3) by (simp add: session_ok_def)
  note rd = VM_getStorage_read [OF assms(1) this p, of a]
  have run: "VM_getStorage E a p (vm_blockId vm) False vm = (r, vm')" using assms(5) ReadSlot by (simp add: run_slot_op_def)
  have ss: "same_session vm vm'" "reads_ok E vm'" using rd run by (simp_all add: read_step_def)
  then have "current_slot E vm' = current_slot E vm" by (simp add: same_session_fields [OF ss(1)])
  then show ?thesis using rd run ReadSlot ss same_session_ok [OF assms(3) ss] read_total [OF assms(1,3) _ p, of a]
    by (auto simp: same_session_def)
qed

lemma run_slot_ops:
  assumes "codec_ok E" "\<not> ve_isExecutor E" "session_ok E vm" "list_all slot_op_ok ops"
    and "st_map (run_slot_op E) ops vm = (r, vm')"
  shows "(\<forall>outs. r = Inr outs \<longrightarrow> session_ok E vm' \<and> vm_storage vm' = vm_storage vm \<and> vm_blockId vm' = vm_blockId vm
        \<and> vm_mldsa vm' = vm_mldsa vm \<and> abstract_ops E ops (current_slot E vm) = (outs, current_slot E vm'))
    \<and> (ve_disableStorageCheck E \<and> SKIP_PROOF_VALIDATION_FOR_EXECUTION_BEFORE_TRANSACTION (ve_tx E) \<longrightarrow> (\<exists>outs. r = Inr outs))"
  using assms(3-)
proof (induction ops arbitrary: vm r vm')
  case Nil
  then show ?case by (auto simp: st_return_def)
next
  case (Cons op ops)
  obtain r1 vm1 where op: "run_slot_op E op vm = (r1, vm1)" by fastforce
  have okop: "slot_op_ok op" "list_all slot_op_ok ops" using Cons.prems(2) by simp_all
  note s1 = run_slot_op_spec [OF assms(1,2) Cons.prems(1) okop(1) op]
  show ?case
  proof (cases r1)
    case (Inl e)
    then show ?thesis using s1 Cons.prems(3) op by (auto simp: st_bind_def)
  next
    case (Inr x)
    obtain r2 vm2 where ops: "st_map (run_slot_op E) ops vm1 = (r2, vm2)" by fastforce
    have ok1: "session_ok E vm1" using s1 Inr by simp
    note ih = Cons.IH [OF ok1 okop(2) ops]
    have split: "abstract_ops E (op # ops) m = (case abstract_ops E [op] m of (xs, m1) \<Rightarrow>
        case abstract_ops E ops m1 of (ys, m2) \<Rightarrow> (xs @ ys, m2))" for m
      by (cases op) (auto split: prod.splits)
    show ?thesis using ih s1 Inr Cons.prems(3) op ops split [of "current_slot E vm"]
      by (cases r2) (auto simp: st_bind_def st_return_def)
  qed
qed

subsection \<open>The slots of a frozen tree\<close>

lemma res_map_list: "(\<And>x. x \<in> set xs \<Longrightarrow> f x = Inr (g x)) \<Longrightarrow> res_map f xs = Inr (map g xs)"
  by (induction xs) auto

lemma res_fold_update:
  assumes "\<And>x. x \<in> set xs \<Longrightarrow> F x = Inr (G x)" "distinct (map fst acc @ map key xs)"
  shows "res_fold (\<lambda>x acc. res_bind (F x) (\<lambda>r. Inr (AList.update (key x) (h x r) acc))) xs acc =
    Inr (acc @ map (\<lambda>x. (key x, h x (G x))) xs)"
  using assms
proof (induction xs arbitrary: acc)
  case (Cons x xs)
  have "AList.update (key x) (h x (G x)) acc = acc @ [(key x, h x (G x))]"
    using Cons.prems(2) by (intro update_fresh_append) auto
  then show ?case using Cons.IH [of "acc @ [(key x, h x (G x))]"] Cons.prems by simp
qed simp

lemma getValuesWithProofs_list:
  assumes "mk_ok t" "(a, m) \<in> set (mk_values t)"
    and "\<And>key v. (key, v) \<in> set m \<Longrightarrow> prove_entry M enc toB t key v = Inr (g key v)"
  shows "getValuesWithProofs M enc toB t a = Inr (map (\<lambda>(key, v). (key, v, g key v)) m)"
proof -
  have m: "map_of (mk_values t) a = Some m" "distinct (map fst m)"
    using assms(1,2) by (auto simp: mk_ok_def)
  show ?thesis
    using res_fold_update [of m "\<lambda>x. prove_entry M enc toB t (fst x) (snd x)" "\<lambda>x. g (fst x) (snd x)" "[]" fst
        "\<lambda>x pf. (snd x, pf)"] m assms(3)
    by (simp add: getValuesWithProofs_def case_prod_unfold)
qed

lemma getEverythingWithProofs_list:
  assumes "mk_ok t" "mk_tree t \<noteq> None"
    and "\<And>key v. (key, v) \<in> set (MerkleTree_entries t) \<Longrightarrow> prove_entry M enc toB t key v = Inr (g key v)"
  shows "getEverythingWithProofs M enc toB t =
    Inr (Some (map (\<lambda>(a, m). (a, map (\<lambda>(key, v). (key, v, g key v)) m)) (mk_values t)))"
proof -
  let ?G = "\<lambda>a. map (\<lambda>(key, v). (key, v, g key v)) (the (map_of (mk_values t) a))"
  have dist: "distinct (map fst (mk_values t))" using assms(1) by (simp add: mk_ok_def)
  have "getValuesWithProofs M enc toB t a = Inr (?G a)" if a: "a \<in> set (map fst (mk_values t))" for a
  proof -
    obtain m where m: "(a, m) \<in> set (mk_values t)" using a by auto
    then have "(key, v) \<in> set m \<Longrightarrow> (key, v) \<in> set (MerkleTree_entries t)" for key v
      by (force simp: MerkleTree_entries_def)
    from getValuesWithProofs_list [OF assms(1) m, of M enc toB g] assms(3) this m dist
    show ?thesis by simp
  qed
  from res_fold_update [of "js_keys (mk_values t)" "getValuesWithProofs M enc toB t" ?G "[]" "\<lambda>a. a" "\<lambda>_ m. m", OF this]
  have "getEverythingWithProofs M enc toB t = Inr (Some (map (\<lambda>a. (a, ?G a)) (map fst (mk_values t))))"
    using dist assms(2) by (simp add: getEverythingWithProofs_def)
  also have "map (\<lambda>a. (a, ?G a)) (map fst (mk_values t)) =
      map (\<lambda>(a, m). (a, map (\<lambda>(key, v). (key, v, g key v)) m)) (mk_values t)"
    using dist by (auto simp: case_prod_unfold)
  finally show ?thesis .
qed

text \<open>The database documents of a frozen storage tree.\<close>

definition slot_pointer :: "merkle_package \<Rightarrow> bigint \<Rightarrow> bytes" where
  "slot_pointer M k = the (mp_pointerToUint8Array M k)"

definition slot_value :: "merkle_package \<Rightarrow> bigint \<Rightarrow> bytes" where
  "slot_value M v = the (mp_valueToUint8Array M v)"

lemma storage_changes_list:
  assumes "\<And>a m key v pf. (a, m) \<in> set cs \<Longrightarrow> (key, v, pf) \<in> set m \<Longrightarrow>
      mp_pointerToUint8Array M key \<noteq> None \<and> mp_valueToUint8Array M v \<noteq> None"
  shows "storage_changes M cs = Inr (map (\<lambda>(a, m). (a, map (\<lambda>(key, v, pf). (slot_pointer M key, slot_value M v, pf)) m))
    (filter (\<lambda>(a, m). m \<noteq> []) cs))"
proof -
  let ?row = "\<lambda>(key, v). res_bind (encodePointer M key) (\<lambda>pointer.
            res_bind (or_throw (mp_valueToUint8Array M (fst v))) (\<lambda>data. Inr (pointer, data, snd v)))"
  have row: "res_map ?row m = Inr (map (\<lambda>(key, v, pf). (slot_pointer M key, slot_value M v, pf)) m)" if "(a, m) \<in> set cs" for a m
    by (rule res_map_list)
      (use assms [OF that] in \<open>fastforce simp: encodePointer_def slot_pointer_def slot_value_def split: prod.splits\<close>)
  show ?thesis unfolding storage_changes_def by (rule res_map_list) (use row in auto)
qed

lemma with_minimum_other: "b \<noteq> a \<Longrightarrow> getValue (with_minimum [(a, m)] t) b key = getValue t b key"
  by (auto simp: with_minimum_def add_dummies_def getValue_def update_conv map_of_map_entry)

lemma codec_encoders: "codec_ok E \<Longrightarrow> slot_encoders_ok (ve_merkle E)"
  by (fastforce simp: codec_ok_def slot_encoders_ok_def)

lemma codec_pointer:
  assumes "codec_ok E" "u256 k"
  shows "mp_pointerToUint8Array (ve_merkle E) k = Some (slot_pointer (ve_merkle E) k)
    \<and> length (slot_pointer (ve_merkle E) k) = 32 \<and> ve_toPointer E (slot_pointer (ve_merkle E) k) = k"
  using assms by (auto simp: codec_ok_def slot_pointer_def)

lemma codec_toPointer: "codec_ok E \<Longrightarrow> length p = 32 \<Longrightarrow> slot_pointer (ve_merkle E) (ve_toPointer E p) = p"
  by (simp add: codec_ok_def slot_pointer_def)

lemma codec_value: "codec_ok E \<Longrightarrow> u256 v \<Longrightarrow> mp_valueToUint8Array (ve_merkle E) v = Some (slot_value (ve_merkle E) v)"
  by (auto simp: codec_ok_def slot_value_def)

definition tree_documents ::
    "merkle_package \<Rightarrow> bigint \<Rightarrow> (bigint \<Rightarrow> bigint \<Rightarrow> string list) \<Rightarrow> StateMerkleTree \<Rightarrow> IContractPointerValue list" where
  "tree_documents M n g t =
     concat (map (\<lambda>(a, m). map (\<lambda>(key, v). \<lparr>pv_contractAddress = a, pv_pointer = slot_pointer M key,
        pv_value = slot_value M v, pv_proofs = g key v, pv_lastSeenAt = n\<rparr>) m)
       (filter (\<lambda>(a, m). a \<noteq> mp_fakeAddress M) (mk_values t)))"

lemma written_tree_documents:
  "written_pointers (mp_fakeAddress M) (map (\<lambda>(a, m). (a, map (\<lambda>(key, v, pf). (slot_pointer M key, slot_value M v, pf)) m))
      (filter (\<lambda>(a, m). m \<noteq> []) (map (\<lambda>(a, m). (a, map (\<lambda>(key, v). (key, v, g key v)) m)) (mk_values t)))) n
    = tree_documents M n g t"
proof -
  have "written_pointers d (map (\<lambda>(a, m). (a, map (\<lambda>(key, v, pf). (slot_pointer M key, slot_value M v, pf)) m))
      (filter (\<lambda>(a, m). m \<noteq> []) (map (\<lambda>(a, m). (a, map (\<lambda>(key, v). (key, v, g key v)) m)) vs))) n
    = concat (map (\<lambda>(a, m). map (\<lambda>(key, v). \<lparr>pv_contractAddress = a, pv_pointer = slot_pointer M key,
        pv_value = slot_value M v, pv_proofs = g key v, pv_lastSeenAt = n\<rparr>) m) (filter (\<lambda>(a, m). a \<noteq> d) vs))" for d vs
    by (induction vs) (auto simp: written_pointers_def case_prod_unfold comp_def)
  then show ?thesis by (simp add: tree_documents_def)
qed

lemma tree_documents_mem:
  assumes "mk_ok t" "d \<in> set (tree_documents M n g t)"
  shows "\<exists>k v. getValue t (pv_contractAddress d) k = Some v \<and> pv_contractAddress d \<noteq> mp_fakeAddress M
    \<and> pv_pointer d = slot_pointer M k \<and> pv_value d = slot_value M v \<and> pv_lastSeenAt d = n"
proof -
  obtain a m k v where *: "(a, m) \<in> set (mk_values t)" "a \<noteq> mp_fakeAddress M" "(k, v) \<in> set m"
    "d = \<lparr>pv_contractAddress = a, pv_pointer = slot_pointer M k, pv_value = slot_value M v, pv_proofs = g k v, pv_lastSeenAt = n\<rparr>"
    using assms(2) by (auto simp: tree_documents_def)
  then have "getValue t a k = Some v" using assms(1) by (auto simp: mk_ok_def getValue_def)
  with * show ?thesis by auto
qed

lemma tree_documents_of:
  assumes "getValue t a k = Some v" "a \<noteq> mp_fakeAddress M"
  shows "\<lparr>pv_contractAddress = a, pv_pointer = slot_pointer M k, pv_value = slot_value M v, pv_proofs = g k v, pv_lastSeenAt = n\<rparr>
    \<in> set (tree_documents M n g t)"
proof -
  obtain m where "(a, m) \<in> set (mk_values t)" "(k, v) \<in> set m"
    using assms(1) by (auto simp: getValue_def dest: map_of_SomeD split: option.splits)
  with assms(2) show ?thesis by (force simp: tree_documents_def)
qed

lemma tree_documents_distinct:
  assumes "mk_ok t" "inj_on (slot_pointer M) {k. \<exists>a. getValue t a k \<noteq> None}"
  shows "distinct (map (\<lambda>d. (pv_contractAddress d, pv_pointer d)) (tree_documents M n g t))"
proof -
  have dist: "distinct (map fst vs) \<Longrightarrow> (\<forall>(a, m) \<in> set vs. distinct (map (\<lambda>x. slot_pointer M (fst x)) m)) \<Longrightarrow>
    distinct (concat (map (\<lambda>(a, m). map (\<lambda>(key, v). (a, slot_pointer M key)) m) vs))" for vs :: "(bigint, bigint) address_values"
  proof (induction vs)
    case (Cons x vs)
    obtain a m where x: "x = (a, m)" by (cases x)
    have "distinct (map (\<lambda>(key, v). (a, slot_pointer M key)) m)"
      using Cons.prems(2) x by (auto simp: distinct_map inj_on_def case_prod_unfold)
    then show ?case using Cons x by (force simp: distinct_append)
  qed simp
  have ptrs: "distinct (map (\<lambda>x. slot_pointer M (fst x)) m)" if "(a, m) \<in> set (mk_values t)" for a m
  proof -
    have m: "js_map_ok m" using assms(1) that by (auto simp: mk_ok_def)
    have "fst ` set m \<subseteq> {k. \<exists>a. getValue t a k \<noteq> None}"
      using assms(1) that by (fastforce simp: mk_ok_def getValue_def intro!: exI [of _ a])
    then have "inj_on (slot_pointer M) (set (map fst m))" using assms(2) by (auto intro: inj_on_subset)
    then have "distinct (map (slot_pointer M) (map fst m))" using m by (simp add: distinct_map del: map_map)
    then show ?thesis by (simp add: comp_def)
  qed
  have "distinct (concat (map (\<lambda>(a, m). map (\<lambda>(key, v). (a, slot_pointer M key)) m)
      (filter (\<lambda>(a, m). a \<noteq> mp_fakeAddress M) (mk_values t))))"
    by (rule dist) (use assms(1) ptrs in \<open>auto simp: mk_ok_def distinct_map_filter\<close>)
  then show ?thesis by (simp add: tree_documents_def map_concat comp_def case_prod_unfold)
qed

subsection \<open>The end of the block\<close>

definition older_than :: "bigint \<Rightarrow> storage \<Rightarrow> bool" where
  "older_than n st \<longleftrightarrow> (\<forall>d \<in> set (st_pointers st). pv_lastSeenAt d < n)"

lemma db_slot_later: "older_than n st \<Longrightarrow> n \<le> h \<Longrightarrow> db_slot h st a p = db_slot n st a p"
  by (auto simp: db_slot_def older_than_def pointer_matches_def intro!: arg_cong [where f = newest]
      arg_cong [where f = "map_option pv_value"] filter_cong)

lemma documents_slots:
  assumes "codec_ok E" "mk_ok t" "\<And>a k v. getValue t a k = Some v \<Longrightarrow> u256 k \<and> u256 v" "older_than n st"
    and "st_pointers st' = fold upsert_pointer (tree_documents (ve_merkle E) n g t) (st_pointers st)"
  shows "(n < h \<longrightarrow> a \<noteq> mp_fakeAddress (ve_merkle E) \<longrightarrow> length p = 32 \<longrightarrow> db_slot h st' a p =
       (case getValue t a (ve_toPointer E p) of Some v \<Rightarrow> mp_valueToUint8Array (ve_merkle E) v | None \<Rightarrow> db_slot n st a p))
    \<and> (h \<le> n \<longrightarrow> db_slot h st' a p = db_slot h st a p)"
proof (intro conjI impI)
  let ?ws = "tree_documents (ve_merkle E) n g t"
  have seen: "\<forall>e \<in> set ?ws. pv_lastSeenAt e = n" using tree_documents_mem [OF assms(2)] by blast
  show "db_slot h st' a p = db_slot h st a p" if "h \<le> n"
    using fold_upsert_other [of ?ws a p "Some h" "st_pointers st"] seen that
    by (simp add: db_slot_def assms(5) pointer_matches_def)
  assume h: "n < h" and a: "a \<noteq> mp_fakeAddress (ve_merkle E)" and p: "length p = 32"
  have inj: "inj_on (slot_pointer (ve_merkle E)) {k. \<exists>a. getValue t a k \<noteq> None}"
  proof (rule inj_on_inverseI [where g = "ve_toPointer E"])
    fix k assume "k \<in> {k. \<exists>a. getValue t a k \<noteq> None}"
    then show "ve_toPointer E (slot_pointer (ve_merkle E) k) = k" using assms(3) codec_pointer [OF assms(1)] by blast
  qed
  show "db_slot h st' a p = (case getValue t a (ve_toPointer E p) of
      Some v \<Rightarrow> mp_valueToUint8Array (ve_merkle E) v | None \<Rightarrow> db_slot n st a p)"
  proof (cases "getValue t a (ve_toPointer E p)")
    case (Some v)
    let ?d = "\<lparr>pv_contractAddress = a, pv_pointer = slot_pointer (ve_merkle E) (ve_toPointer E p),
        pv_value = slot_value (ve_merkle E) v, pv_proofs = g (ve_toPointer E p) v, pv_lastSeenAt = n\<rparr>"
    have old: "\<forall>e \<in> set (st_pointers st). pv_lastSeenAt e \<le> n" using assms(4) by (auto simp: older_than_def)
    have "newest (filter (pointer_matches a p (Some h)) (fold upsert_pointer ?ws (st_pointers st))) = Some ?d"
      by (rule newest_fold_upsert [OF tree_documents_distinct [OF assms(2) inj] tree_documents_of [OF Some a] seen old])
        (use h codec_toPointer [OF assms(1) p] in \<open>simp add: pointer_matches_def\<close>)
    moreover have "u256 v" using assms(3) Some by blast
    ultimately show ?thesis using Some codec_value [OF assms(1), of v] by (simp add: db_slot_def assms(5))
  next
    case None
    have "\<not> pointer_matches a p (Some h) d" if d: "d \<in> set ?ws" for d
    proof
      assume m: "pointer_matches a p (Some h) d"
      obtain k v where k: "getValue t a k = Some v" "p = slot_pointer (ve_merkle E) k"
        using tree_documents_mem [OF assms(2) d] m by (auto simp: pointer_matches_def)
      then have "ve_toPointer E p = k" using assms(3) codec_pointer [OF assms(1)] by blast
      then show False using None k(1) by simp
    qed
    then have "db_slot h st' a p = db_slot h st a p"
      using fold_upsert_other [of ?ws a p "Some h" "st_pointers st"] by (simp add: db_slot_def assms(5))
    then show ?thesis using None db_slot_later [OF assms(4), of h a p] h by simp
  qed
qed

text \<open>
  What the end of a block needs besides the session: the previous header's checksum, receipts under
  hexadecimal transaction ids, and pending key links that can be written.
\<close>

definition commit_ready :: "vm_env \<Rightarrow> VMManager \<Rightarrow> bool" where
  "commit_ready E vm \<longleftrightarrow>
     (\<exists>prev. previous_checksum (vm_headers vm) (ve_light E) (vm_blockId vm) = Inr prev
        \<and> (prev = [] \<or> prev = ZERO_HASH \<or> (\<exists>b. merkle_toBytes (ve_merkle E) prev = Inr b \<and> length b = 32)))
     \<and> mp_fromHex (ve_merkle E) MAX_HASH \<noteq> None \<and> mp_fromHex (ve_merkle E) MAX_MINUS_ONE \<noteq> None
     \<and> (\<forall>r a key v. vm_receiptState vm = Some r \<longrightarrow> getValue r a key = Some v \<longrightarrow> mp_fromHex (ve_merkle E) key \<noteq> None)
     \<and> fst (savePublicKeys (map snd (mldsaToStore (vm_mldsa vm))) (st_publicKeys (vm_storage vm))) = Inr ()"

lemma receipt_entry_total: "mp_fromHex M key \<noteq> None \<Longrightarrow> \<exists>d. receipt_entry M key v = Inr d"
  by (auto simp: receipt_entry_def)

lemma receipts_frozen:
  assumes "mk_ok r" "\<not> mk_frozen r" "mp_fromHex M MAX_HASH \<noteq> None" "mp_fromHex M MAX_MINUS_ONE \<noteq> None"
    and "\<forall>a key v. getValue r a key = Some v \<longrightarrow> mp_fromHex M key \<noteq> None"
  shows "\<exists>r1 r2 r3. ReceiptMerkleTree_updateValue same (mp_fakeAddress M) MAX_HASH b r = Inr r1
    \<and> ReceiptMerkleTree_updateValue same (mp_fakeAddress M) MAX_MINUS_ONE [1] r1 = Inr r2
    \<and> ReceiptMerkleTree_freeze M r2 = Inr r3"
proof -
  obtain r1 where r1: "updateValue (receipt_unchanged same) (mp_fakeAddress M) MAX_HASH b r = Inr r1" "mk_ok r1" "\<not> mk_frozen r1"
    "\<forall>a j. getValue r1 a j = (if a = mp_fakeAddress M \<and> j = MAX_HASH then Some b else getValue r a j)"
    using receipt_tree.updateValue_spec [OF assms(1,2), of same] by blast
  obtain r2 where r2: "updateValue (receipt_unchanged same) (mp_fakeAddress M) MAX_MINUS_ONE [1] r1 = Inr r2" "mk_ok r2" "\<not> mk_frozen r2"
    "\<forall>a j. getValue r2 a j = (if a = mp_fakeAddress M \<and> j = MAX_MINUS_ONE then Some [1] else getValue r1 a j)"
    using receipt_tree.updateValue_spec [OF r1(2,3), of same] by blast
  have hex: "mp_fromHex M key \<noteq> None" if "getValue r2 a key = Some v" for a key v
    using that r1(4) [rule_format, of a key] r2(4) [rule_format, of a key] assms(3,4) assms(5) [rule_format, of a key v]
    by (auto split: if_splits)
  have "\<forall>(key, v) \<in> set (MerkleTree_entries (with_minimum [(mp_fakeAddress M, [(MAX_HASH, [1]), (MAX_MINUS_ONE, [1])])] r2)).
      \<exists>d. receipt_entry M key v = Inr d"
  proof (clarify)
    fix key v
    assume "(key, v) \<in> set (MerkleTree_entries (with_minimum [(mp_fakeAddress M, [(MAX_HASH, [1]), (MAX_MINUS_ONE, [1])])] r2))"
    from with_minimum_entries [OF r2(2) this] have "mp_fromHex M key \<noteq> None" using hex assms(3,4) by auto
    then show "\<exists>d. receipt_entry M key v = Inr d" by (rule receipt_entry_total)
  qed
  from receipt_tree.freeze_total [OF r2(2,3) this] show ?thesis using r1(1) r2(1)
    by (simp add: ReceiptMerkleTree_updateValue_def ReceiptMerkleTree_freeze_def ReceiptMerkleTree_getDummyValues_def)
qed

lemma updateReceiptState_total:
  assumes "session_ok E vm" "commit_ready E vm"
  shows "\<exists>v r3. updateReceiptState E vm = (Inr (), vm\<lparr>vm_validator := v, vm_receiptState := Some r3\<rparr>)"
proof -
  obtain r where r: "vm_receiptState vm = Some r" "mk_ok r" "\<not> mk_frozen r" using assms(1) by (auto simp: session_ok_def)
  have hv: "hv_ok (vm_headers vm) (vm_validator vm)" using assms(1) by (simp add: session_ok_def reads_ok_def)
  obtain prev where prev: "previous_checksum (vm_headers vm) (ve_light E) (vm_blockId vm) = Inr prev"
    "prev = [] \<or> prev = ZERO_HASH \<or> (\<exists>b. merkle_toBytes (ve_merkle E) prev = Inr b \<and> length b = 32)"
    using assms(2) by (auto simp: commit_ready_def)
  obtain v where v: "getPreviousBlockChecksumOfHeight (vm_headers vm) (ve_light E) (vm_blockId vm) (vm_validator vm) = (Inr prev, v)"
    using getPrevious_spec [OF vm_headers_ok hv, of "ve_light E" "vm_blockId vm"] prev(1) by metis
  have "\<exists>b. (if prev \<noteq> [] \<and> prev \<noteq> ZERO_HASH
      then res_bind (lift_vm VMMerkle (merkle_toBytes (ve_merkle E) prev)) (\<lambda>b. if length b \<noteq> 32 then Inl InvalidChecksumLength else Inr b)
      else Inr []) = Inr b"
    using prev(2) by auto
  then obtain b where b: "(if prev \<noteq> [] \<and> prev \<noteq> ZERO_HASH
      then res_bind (lift_vm VMMerkle (merkle_toBytes (ve_merkle E) prev)) (\<lambda>b. if length b \<noteq> 32 then Inl InvalidChecksumLength else Inr b)
      else Inr []) = Inr b" ..
  have hexes: "mp_fromHex (ve_merkle E) MAX_HASH \<noteq> None" "mp_fromHex (ve_merkle E) MAX_MINUS_ONE \<noteq> None"
    "\<forall>a key v. getValue r a key = Some v \<longrightarrow> mp_fromHex (ve_merkle E) key \<noteq> None"
    using assms(2) r(1) unfolding commit_ready_def by blast+
  obtain r1 r2 r3 where "ReceiptMerkleTree_updateValue (ve_same E) (mp_fakeAddress (ve_merkle E)) MAX_HASH b r = Inr r1"
    "ReceiptMerkleTree_updateValue (ve_same E) (mp_fakeAddress (ve_merkle E)) MAX_MINUS_ONE [1] r1 = Inr r2"
    "ReceiptMerkleTree_freeze (ve_merkle E) r2 = Inr r3"
    using receipts_frozen [OF r(2,3) hexes] by blast
  with b have "updateReceiptState E vm = (Inr (), vm\<lparr>vm_validator := v, vm_receiptState := Some r3\<rparr>)"
    using r(1) v by (simp add: updateReceiptState_def st_bind_def st_simps)
  then show ?thesis by blast
qed

lemma state_frozen:
  assumes "codec_ok E" "mk_ok t" "\<not> mk_frozen t" "\<forall>a k v. getValue t a k = Some v \<longrightarrow> u256 k \<and> u256 v"
  obtains t' where "StateMerkleTree_freeze (ve_merkle E) t = Inr t'" "mk_ok t'" "mk_frozen t'"
    "leaves_ok (state_entry (ve_merkle E)) (StateMerkleTree_toBytes (ve_merkle E)) t'" "MINIMUM_VALUES \<le> countValues t'"
    "\<And>a k. a \<noteq> mp_fakeAddress (ve_merkle E) \<Longrightarrow> getValue t' a k = getValue t a k"
    "\<And>a k v. getValue t' a k = Some v \<Longrightarrow> u256 k \<and> u256 v"
proof -
  let ?M = "ve_merkle E" and ?t = "with_minimum [(mp_fakeAddress (ve_merkle E), [(1, 1), (2, 2)])] t"
  have entries: "u256 k \<and> u256 v" if "(k, v) \<in> set (MerkleTree_entries ?t)" for k v
    using with_minimum_entries [OF assms(2) that] assms(4) by auto
  have "\<forall>(k, v) \<in> set (MerkleTree_entries ?t). \<exists>d. state_entry ?M k v = Inr d"
    using entries state_entry_total [OF codec_encoders [OF assms(1)]] by blast
  from state_tree.freeze_total [OF assms(2,3) this] obtain t' where
    fr: "MerkleTree_freeze (state_entry ?M) (StateMerkleTree_toBytes ?M) [(mp_fakeAddress ?M, [(1, 1), (2, 2)])] t = Inr t'"
    by blast
  note spec = state_tree.freeze_spec [OF assms(2) fr]
  have vals: "getValue t' a k = getValue ?t a k" for a k using spec by (simp add: getValue_def)
  show thesis
  proof (rule that)
    show "StateMerkleTree_freeze ?M t = Inr t'" using fr by (simp add: StateMerkleTree_freeze_def StateMerkleTree_getDummyValues_def)
    show "u256 k \<and> u256 v" if "getValue t' a k = Some v" for a k v
      using entries [OF getValue_entry] that vals by metis
  qed (use spec with_minimum_other vals in auto)
qed

lemma saveBlockStateChanges_slots:
  assumes "codec_ok E" "merkle_package_ok (ve_merkle E)" "\<not> ve_isExecutor E" "\<not> ve_resync E"
    and "vm_blockState vm = Some t" "mk_ok t" "MINIMUM_VALUES \<le> countValues t"
    and "leaves_ok (state_entry (ve_merkle E)) (StateMerkleTree_toBytes (ve_merkle E)) t"
    and "\<forall>a k v. getValue t a k = Some v \<longrightarrow> u256 k \<and> u256 v"
    and "fst (savePublicKeys (map snd (mldsaToStore (vm_mldsa vm))) (st_publicKeys (vm_storage vm))) = Inr ()"
  shows "\<exists>ks g. saveBlockStateChanges E vm = (Inr (), vm\<lparr>vm_storage := (vm_storage vm)\<lparr>st_publicKeys := ks, st_pointers :=
    fold upsert_pointer (tree_documents (ve_merkle E) (vm_blockId vm) g t) (st_pointers (vm_storage vm))\<rparr>\<rparr>)"
proof -
  let ?M = "ve_merkle E"
  have enc: "\<exists>pf. prove_entry ?M (state_entry ?M) (StateMerkleTree_toBytes ?M) t k v = Inr pf"
    if "(k, v) \<in> set (MerkleTree_entries t)" for k v
    by (rule entry_proved [OF assms(2,8,7) that]) (simp add: prove_entry_def)
  define g where "g k v = projr (prove_entry ?M (state_entry ?M) (StateMerkleTree_toBytes ?M) t k v)" for k v
  have g: "prove_entry ?M (state_entry ?M) (StateMerkleTree_toBytes ?M) t k v = Inr (g k v)"
    if "(k, v) \<in> set (MerkleTree_entries t)" for k v
    using enc [OF that] by (auto simp: g_def)
  have tree: "mk_tree t \<noteq> None" using assms(8) by (auto simp: leaves_ok_def)
  note ev = getEverythingWithProofs_list [OF assms(6) tree g]
  let ?cs = "map (\<lambda>(a, m). (a, map (\<lambda>(key, v). (key, v, g key v)) m)) (mk_values t)"
  have enc2: "mp_pointerToUint8Array ?M k \<noteq> None \<and> mp_valueToUint8Array ?M v \<noteq> None"
    if cs: "(a, m) \<in> set ?cs" "(k, v, pf) \<in> set m" for a m k v pf
  proof -
    obtain m' where "(a, m') \<in> set (mk_values t)" "(k, v) \<in> set m'" using cs by auto
    then have "getValue t a k = Some v" using assms(6) by (auto simp: mk_ok_def getValue_def)
    then have "u256 k" "u256 v" using assms(9) by blast+
    then show ?thesis using codec_pointer [OF assms(1)] codec_value [OF assms(1)] by simp
  qed
  define ws where "ws = map (\<lambda>(a, m). (a, map (\<lambda>(key, v, pf). (slot_pointer ?M key, slot_value ?M v, pf)) m))
    (filter (\<lambda>(a, m). m \<noteq> []) ?cs)"
  have sc: "storage_changes ?M ?cs = Inr ws"
    unfolding ws_def by (rule storage_changes_list) (use enc2 in blast)
  have wsdoc: "setStoragePointers (mp_fakeAddress ?M) ws n ds = fold upsert_pointer (tree_documents ?M n g t) ds" for n ds
    unfolding setStoragePointers_upserts ws_def written_tree_documents ..
  have "\<exists>ks. (if mldsaToStore (vm_mldsa vm) \<noteq> []
      then savePublicKeys (map snd (mldsaToStore (vm_mldsa vm))) (st_publicKeys (vm_storage vm))
      else (Inr (), st_publicKeys (vm_storage vm))) = (Inr (), ks)"
    using assms(10) by (cases "savePublicKeys (map snd (mldsaToStore (vm_mldsa vm))) (st_publicKeys (vm_storage vm))") auto
  then obtain ks where ks: "(if mldsaToStore (vm_mldsa vm) \<noteq> []
      then savePublicKeys (map snd (mldsaToStore (vm_mldsa vm))) (st_publicKeys (vm_storage vm))
      else (Inr (), st_publicKeys (vm_storage vm))) = (Inr (), ks)" ..
  have keys: "st_when (mldsaToStore (vm_mldsa vm) \<noteq> []) (\<lambda>vm.
      (case savePublicKeys (map snd (mldsaToStore (vm_mldsa vm))) (st_publicKeys (vm_storage vm)) of
         (r, ks) \<Rightarrow> (lift_vm VMKeys r, vm\<lparr>vm_storage := (vm_storage vm)\<lparr>st_publicKeys := ks\<rparr>\<rparr>))) vm
    = (Inr (), vm\<lparr>vm_storage := (vm_storage vm)\<lparr>st_publicKeys := ks\<rparr>\<rparr>)"
    using ks by (auto simp: st_when_def st_return_def split: if_splits)
  have empty: "ws = [] \<Longrightarrow> tree_documents ?M n g t = []" for n
    using wsdoc [of n "[]"] written_tree_documents [of ?M g t n] by (simp add: ws_def [symmetric] written_pointers_def)
  have "saveBlockStateChanges E vm = (Inr (), vm\<lparr>vm_storage := (vm_storage vm)\<lparr>st_publicKeys := ks, st_pointers :=
    fold upsert_pointer (tree_documents ?M (vm_blockId vm) g t) (st_pointers (vm_storage vm))\<rparr>\<rparr>)"
    using assms(3-5) ev sc wsdoc keys empty [of "vm_blockId vm"]
    by (cases "ws = []") (simp_all add: saveBlockStateChanges_def st_bind_def st_return_def st_lift_def st_put_def
        st_when_def [of "ws \<noteq> []"] st_when_def [of True] st_when_def [of False])
  then show ?thesis by blast
qed

lemma commit_block:
  assumes "codec_ok E" "merkle_package_ok (ve_merkle E)" "\<not> ve_isExecutor E" "\<not> ve_resync E"
    and "session_ok E vm" "commit_ready E vm" "older_than (vm_blockId vm) (vm_storage vm)"
  shows "\<exists>t r vm'. updateEvaluatedStates E vm = (Inr (t, r), vm') \<and> vm_blockState vm' = None \<and> vm_receiptState vm' = None
    \<and> vm_isPrepared vm' \<and> vm_blockId vm' = vm_blockId vm \<and> mk_frozen t
    \<and> st_headers (vm_storage vm') = st_headers (vm_storage vm)
    \<and> (\<forall>d \<in> set (st_pointers (vm_storage vm')). pv_lastSeenAt d \<le> vm_blockId vm
         \<and> (pv_lastSeenAt d = vm_blockId vm \<or> d \<in> set (st_pointers (vm_storage vm))))
    \<and> (\<forall>h a p. (vm_blockId vm < h \<longrightarrow> a \<noteq> mp_fakeAddress (ve_merkle E) \<longrightarrow> length p = 32 \<longrightarrow>
           db_slot h (vm_storage vm') a p = current_slot E vm a p)
         \<and> (h \<le> vm_blockId vm \<longrightarrow> db_slot h (vm_storage vm') a p = db_slot h (vm_storage vm) a p))"
proof -
  obtain t where t: "vm_blockState vm = Some t" "mk_ok t" "\<not> mk_frozen t" using assms(5) by (auto simp: session_ok_def)
  have slots: "\<forall>a k v. getValue t a k = Some v \<longrightarrow> u256 k \<and> u256 v"
    using assms(5) t(1) by (auto simp: session_ok_def reads_ok_def slots_ok_def block_slot_def)
  obtain v r3 where rcp: "updateReceiptState E vm = (Inr (), vm\<lparr>vm_validator := v, vm_receiptState := Some r3\<rparr>)"
    using updateReceiptState_total [OF assms(5,6)] by blast
  obtain t' where t': "StateMerkleTree_freeze (ve_merkle E) t = Inr t'" "mk_ok t'" "mk_frozen t'"
    "leaves_ok (state_entry (ve_merkle E)) (StateMerkleTree_toBytes (ve_merkle E)) t'" "MINIMUM_VALUES \<le> countValues t'"
    "\<And>a k. a \<noteq> mp_fakeAddress (ve_merkle E) \<Longrightarrow> getValue t' a k = getValue t a k"
    "\<And>a k v. getValue t' a k = Some v \<Longrightarrow> u256 k \<and> u256 v"
    using state_frozen [OF assms(1) t(2,3) slots] by metis
  define vm1 where "vm1 = vm\<lparr>vm_validator := v, vm_receiptState := Some r3, vm_blockState := Some t'\<rparr>"
  have f1: "vm_blockState vm1 = Some t'" "vm_receiptState vm1 = Some r3" "vm_mldsa vm1 = vm_mldsa vm"
    "vm_storage vm1 = vm_storage vm" "vm_blockId vm1 = vm_blockId vm" "vm_isPrepared vm1 = vm_isPrepared vm"
    by (simp_all add: vm1_def)
  have "fst (savePublicKeys (map snd (mldsaToStore (vm_mldsa vm1))) (st_publicKeys (vm_storage vm1))) = Inr ()"
    using assms(6) by (simp add: commit_ready_def f1)
  from saveBlockStateChanges_slots [OF assms(1-4) f1(1) t'(2,5,4) _ this] t'(7)
  obtain ks g where sv: "saveBlockStateChanges E vm1 = (Inr (), vm1\<lparr>vm_storage := (vm_storage vm)\<lparr>st_publicKeys := ks, st_pointers :=
    fold upsert_pointer (tree_documents (ve_merkle E) (vm_blockId vm) g t') (st_pointers (vm_storage vm))\<rparr>\<rparr>)"
    by (auto simp: f1)
  define st' where "st' = (vm_storage vm)\<lparr>st_publicKeys := ks, st_pointers :=
    fold upsert_pointer (tree_documents (ve_merkle E) (vm_blockId vm) g t') (st_pointers (vm_storage vm))\<rparr>"
  let ?vm' = "vm1\<lparr>vm_storage := st', vm_blockState := None, vm_receiptState := None\<rparr>"
  have run: "updateEvaluatedStates E vm = (Inr (t', r3), ?vm')"
    using t(1) assms(5) rcp t'(1) sv
    by (auto simp: updateEvaluatedStates_def session_ok_def st_bind_def vm1_def [symmetric] st'_def [symmetric] f1)
  have ptrs: "st_pointers st' = fold upsert_pointer (tree_documents (ve_merkle E) (vm_blockId vm) g t') (st_pointers (vm_storage vm))"
    by (simp add: st'_def)
  have cur: "(case getValue t' a (ve_toPointer E p) of Some v \<Rightarrow> mp_valueToUint8Array (ve_merkle E) v
      | None \<Rightarrow> db_slot (vm_blockId vm) (vm_storage vm) a p) = current_slot E vm a p"
    if "a \<noteq> mp_fakeAddress (ve_merkle E)" for a p
    using t(1) t'(6) [OF that] by (simp add: current_slot_def block_slot_def)
  have new: "pv_lastSeenAt d \<le> vm_blockId vm \<and> (pv_lastSeenAt d = vm_blockId vm \<or> d \<in> set (st_pointers (vm_storage vm)))"
    if "d \<in> set (st_pointers st')" for d
    using fold_upsert_seen [OF that [unfolded ptrs]] tree_documents_mem [OF t'(2)] assms(7) by (force simp: older_than_def)
  show ?thesis
    using run new cur documents_slots [OF assms(1) t'(2,7) assms(7) ptrs] assms(5)
    by (auto simp: f1 t'(3) session_ok_def st'_def)
qed

subsection \<open>Blocks in a row\<close>

definition idle_ok :: "VMManager \<Rightarrow> bool" where
  "idle_ok vm \<longleftrightarrow> vm_blockState vm = None \<and> \<not> vm_isPrepared vm \<and> vm_pointerCache vm = [] \<and> vm_mldsa vm = registry_empty
     \<and> hv_ok (vm_headers vm) (vm_validator vm)"

definition run_block ::
    "vm_env \<Rightarrow> bigint \<Rightarrow> slot_op list \<Rightarrow> BlockHeaderDocument \<Rightarrow> VMManager \<Rightarrow> (vm_error + bytes option list) \<times> VMManager" where
  "run_block E n ops d =
     st_bind (prepareBlock n) (\<lambda>_.
     st_bind (st_map (run_slot_op E) ops) (\<lambda>outs.
     st_bind (updateEvaluatedStates E) (\<lambda>_.
     st_bind (saveBlock d) (\<lambda>_.
     st_bind terminateBlock (\<lambda>_. st_return outs)))))"

lemma prepare_session:
  assumes "idle_ok vm" "pointers_ok (vm_storage vm)"
  shows "\<exists>vm'. prepareBlock n vm = (Inr (), vm') \<and> session_ok E vm' \<and> vm_storage vm' = vm_storage vm \<and> vm_blockId vm' = n
    \<and> vm_mldsa vm' = registry_empty \<and> vm_receiptState vm' = Some MerkleTree_new
    \<and> current_slot E vm' = db_slot n (vm_storage vm)"
proof -
  let ?vm = "vm\<lparr>vm_isPrepared := True, vm_blockId := n, vm_blockState := Some MerkleTree_new, vm_receiptState := Some MerkleTree_new\<rparr>"
  have run: "prepareBlock n vm = (Inr (), ?vm)"
    using assms(1) by (simp add: idle_ok_def prepareBlock_def VMBitcoinBlock_prepare_def st_bind_def st_put_def)
  have slot: "block_slot ?vm a k = None" for a k by (simp add: block_slot_def)
  have "reads_ok E ?vm"
    using assms slot by (simp add: reads_ok_def cache_ok_def slots_ok_def getPointerFromCache_def idle_ok_def vm_headers_def)
  then show ?thesis using run slot assms(1)
    by (auto simp: session_ok_def idle_ok_def current_slot_def fun_eq_iff MerkleTree_new_def mk_ok_def)
qed

lemma clear_idle: "VMBitcoinBlock_reset vm = vm' \<Longrightarrow> idle_ok (vm_clear vm')"
  by (auto simp: idle_ok_def vm_clear_def VMBitcoinBlock_reset_def hv_ok_clear)

text \<open>Receipts are recorded under transaction ids that decode.\<close>

definition receipts_hex :: "vm_env \<Rightarrow> VMManager \<Rightarrow> bool" where
  "receipts_hex E vm \<longleftrightarrow> (\<forall>r a key v. vm_receiptState vm = Some r \<longrightarrow> getValue r a key = Some v \<longrightarrow>
     mp_fromHex (ve_merkle E) key \<noteq> None)"

definition op_hex :: "vm_env \<Rightarrow> slot_op \<Rightarrow> bool" where
  "op_hex E op = (case op of PublishResult ev c tx \<Rightarrow> mp_fromHex (ve_merkle E) tx \<noteq> None
     | ReadSlot a p \<Rightarrow> a \<noteq> mp_fakeAddress (ve_merkle E))"

lemma op_receipts_hex:
  assumes "codec_ok E" "\<not> ve_isExecutor E" "session_ok E vm" "slot_op_ok op" "run_slot_op E op vm = (Inr x, vm')"
    and "receipts_hex E vm" "op_hex E op"
  shows "receipts_hex E vm'"
proof (cases op)
  case (PublishResult ev c tx)
  obtain t rs where t: "vm_blockState vm = Some t" "vm_receiptState vm = Some rs" and rs: "mk_ok rs" "\<not> mk_frozen rs"
    using assms(3) by (auto simp: session_ok_def)
  let ?P = "\<lambda>r'. \<forall>a key v. getValue r' a key = Some v \<longrightarrow> mp_fromHex (ve_merkle E) key \<noteq> None"
  have step: "\<exists>r'. ReceiptMerkleTree_updateValue (ve_same E) c tx b rs = Inr r' \<and> ?P r'" for b
  proof -
    obtain r' where r': "updateValue (receipt_unchanged (ve_same E)) c tx b rs = Inr r'"
      "\<forall>a j. getValue r' a j = (if a = c \<and> j = tx then Some b else getValue rs a j)"
      using receipt_tree.updateValue_spec [OF rs, of "ve_same E" c tx b] by blast
    have "mp_fromHex (ve_merkle E) key \<noteq> None" if v: "getValue r' a key = Some v" for a key v
    proof (cases "a = c \<and> key = tx")
      case True
      then show ?thesis using assms(7) PublishResult by (simp add: op_hex_def)
    next
      case False
      then have "getValue rs a key = Some v" using v r'(2) [rule_format, of a key] by (simp split: if_splits)
      then show ?thesis using assms(6) t(2) unfolding receipts_hex_def by blast
    qed
    then have "?P r'" by blast
    with r'(1) show ?thesis by (auto simp: ReceiptMerkleTree_updateValue_def)
  qed
  have ok: "effects_ok ev" "tx \<noteq> []" using assms(4) PublishResult by (simp_all add: slot_op_ok_def)
  obtain r' where P: "?P r'" and run: "updateBlockValuesFromResult E ev c tx (ve_disableStorageCheck E) vm =
    st_when (\<not> ve_disableStorageCheck E) (\<lambda>vm. (case vm_blockState vm of
         None \<Rightarrow> (Inl BlockStateNotFound, vm)
       | Some t \<Rightarrow> (case StateMerkleTree_generateTree (ve_merkle E) True t of
             Inl e \<Rightarrow> (Inl (VMMerkle e), vm)
           | Inr t' \<Rightarrow> (Inr (), vm\<lparr>vm_blockState := Some t'\<rparr>))))
      (vm\<lparr>vm_blockState := Some (apply_changes (changes_of ev) t), vm_receiptState := Some r'\<rparr>)"
    using publish_step [OF ok(1) assms(2) t ok(2) step, of "ve_disableStorageCheck E"] by blast
  have "vm_receiptState vm' = Some r'" using run assms(5) PublishResult
    by (auto simp: run_slot_op_def st_bind_Inr_iff st_return_def st_when_def split: sum.splits if_splits)
  then show ?thesis using P unfolding receipts_hex_def by auto
next
  case (ReadSlot a p)
  have "reads_ok E vm" "length p = 32" using assms(3,4) ReadSlot by (simp_all add: session_ok_def slot_op_ok_def)
  from VM_getStorage_read [OF assms(1) this, of a] assms(5) ReadSlot
  have "same_session vm vm'" by (simp add: run_slot_op_def read_step_def)
  then show ?thesis using assms(6) by (simp add: receipts_hex_def same_session_def)
qed

lemma ops_receipts_hex:
  assumes "codec_ok E" "\<not> ve_isExecutor E" "session_ok E vm" "list_all slot_op_ok ops" "list_all (op_hex E) ops"
    and "st_map (run_slot_op E) ops vm = (Inr outs, vm')" "receipts_hex E vm"
  shows "receipts_hex E vm'"
  using assms(3-)
proof (induction ops arbitrary: vm outs)
  case (Cons op ops)
  obtain x vm1 outs' where run: "run_slot_op E op vm = (Inr x, vm1)" "st_map (run_slot_op E) ops vm1 = (Inr outs', vm')"
    using Cons.prems(4) by (auto simp: st_bind_Inr_iff st_return_def)
  have ok: "slot_op_ok op" "list_all slot_op_ok ops" "op_hex E op" "list_all (op_hex E) ops" using Cons.prems by simp_all
  have "session_ok E vm1" using run_slot_op_spec [OF assms(1,2) Cons.prems(1) ok(1) run(1)] by simp
  from Cons.IH [OF this ok(2,4) run(2)] op_receipts_hex [OF assms(1,2) Cons.prems(1) ok(1) run(1) Cons.prems(5) ok(3)]
  show ?case .
qed (simp add: st_return_def)

definition checksum_known :: "vm_env \<Rightarrow> bigint \<Rightarrow> storage \<Rightarrow> bool" where
  "checksum_known E n st \<longleftrightarrow>
     (\<exists>prev. previous_checksum (header_lookup (st_headers st)) (ve_light E) n = Inr prev
        \<and> (prev = ZERO_HASH \<or> (\<exists>b. merkle_toBytes (ve_merkle E) prev = Inr b \<and> length b = 32)))"

definition header_ok :: "vm_env \<Rightarrow> bigint \<Rightarrow> BlockHeaderDocument \<Rightarrow> bool" where
  "header_ok E n d \<longleftrightarrow> BlockHeaderDocument.bh_height d = n \<and> bh_checksumRoot d \<noteq> []
     \<and> (\<exists>b. merkle_toBytes (ve_merkle E) (bh_checksumRoot d) = Inr b \<and> length b = 32)"

lemma upsert_header_lookup:
  "header_lookup (upsert_header d hs) (BlockHeaderDocument.bh_height d) = Some d"
  by (induction hs) (auto simp: header_lookup_def)

text \<open>The setting of an indexing node: the defaults of the configuration and of the consensus.\<close>

definition node_ok :: "vm_env \<Rightarrow> bool" where
  "node_ok E \<longleftrightarrow> codec_ok E \<and> merkle_package_ok (ve_merkle E) \<and> \<not> ve_isExecutor E \<and> \<not> ve_resync E
     \<and> ve_disableStorageCheck E \<and> SKIP_PROOF_VALIDATION_FOR_EXECUTION_BEFORE_TRANSACTION (ve_tx E)
     \<and> mp_fromHex (ve_merkle E) MAX_HASH \<noteq> None \<and> mp_fromHex (ve_merkle E) MAX_MINUS_ONE \<noteq> None"

definition chain_ok :: "vm_env \<Rightarrow> bigint \<Rightarrow> VMManager \<Rightarrow> bool" where
  "chain_ok E n vm \<longleftrightarrow> idle_ok vm \<and> pointers_ok (vm_storage vm) \<and> older_than n (vm_storage vm) \<and> checksum_known E n (vm_storage vm)"

definition agree :: "vm_env \<Rightarrow> slots \<Rightarrow> slots \<Rightarrow> bool" where
  "agree E m m' \<longleftrightarrow> (\<forall>a p. a \<noteq> mp_fakeAddress (ve_merkle E) \<longrightarrow> length p = 32 \<longrightarrow> m a p = m' a p)"

lemma run_block_spec:
  assumes E: "node_ok E" and vm: "chain_ok E n vm" and n: "0 < n" and ops: "list_all slot_op_ok ops" "list_all (op_hex E) ops"
    and d: "header_ok E n d"
  shows "\<exists>outs m vm'. run_block E n ops d vm = (Inr outs, vm') \<and> chain_ok E (n + 1) vm'
    \<and> abstract_ops E ops (db_slot n (vm_storage vm)) = (outs, m) \<and> agree E (db_slot (n + 1) (vm_storage vm')) m
    \<and> (\<forall>h \<le> n. \<forall>a p. db_slot h (vm_storage vm') a p = db_slot h (vm_storage vm) a p)"
proof -
  have E': "codec_ok E" "merkle_package_ok (ve_merkle E)" "\<not> ve_isExecutor E" "\<not> ve_resync E" "ve_disableStorageCheck E"
    "SKIP_PROOF_VALIDATION_FOR_EXECUTION_BEFORE_TRANSACTION (ve_tx E)"
    "mp_fromHex (ve_merkle E) MAX_HASH \<noteq> None" "mp_fromHex (ve_merkle E) MAX_MINUS_ONE \<noteq> None"
    using E by (simp_all add: node_ok_def)
  have v: "idle_ok vm" "pointers_ok (vm_storage vm)" "older_than n (vm_storage vm)" "checksum_known E n (vm_storage vm)"
    using vm by (simp_all add: chain_ok_def)
  obtain vm1 where p: "prepareBlock n vm = (Inr (), vm1)" "session_ok E vm1" "vm_storage vm1 = vm_storage vm" "vm_blockId vm1 = n"
    "vm_mldsa vm1 = registry_empty" "vm_receiptState vm1 = Some MerkleTree_new" "current_slot E vm1 = db_slot n (vm_storage vm)"
    using prepare_session [OF v(1,2), of n E] by blast
  obtain r vm2 where run: "st_map (run_slot_op E) ops vm1 = (r, vm2)" by fastforce
  note rs = run_slot_ops [OF E'(1,3) p(2) ops(1) run]
  then obtain outs where outs: "r = Inr outs" using E'(5,6) by blast
  then have s2: "session_ok E vm2" "vm_storage vm2 = vm_storage vm" "vm_blockId vm2 = n" "vm_mldsa vm2 = registry_empty"
    "abstract_ops E ops (db_slot n (vm_storage vm)) = (outs, current_slot E vm2)"
    using rs p by auto
  have "receipts_hex E vm2"
    using ops_receipts_hex [OF E'(1,3) p(2) ops run [unfolded outs]] p(6) by (simp add: receipts_hex_def)
  then have "commit_ready E vm2"
    using v(4) E'(7,8) s2(2-4)
    by (auto simp: commit_ready_def checksum_known_def receipts_hex_def registry_empty_def savePublicKeys_def vm_headers_def)
  moreover have "older_than (vm_blockId vm2) (vm_storage vm2)" using v(3) s2 by simp
  ultimately obtain t rc vm3 where c: "updateEvaluatedStates E vm2 = (Inr (t, rc), vm3)" "vm_isPrepared vm3" "vm_blockId vm3 = n"
    "\<forall>d \<in> set (st_pointers (vm_storage vm3)). pv_lastSeenAt d \<le> n
         \<and> (pv_lastSeenAt d = n \<or> d \<in> set (st_pointers (vm_storage vm)))"
    "\<forall>h a p. (n < h \<longrightarrow> a \<noteq> mp_fakeAddress (ve_merkle E) \<longrightarrow> length p = 32 \<longrightarrow>
           db_slot h (vm_storage vm3) a p = current_slot E vm2 a p)
         \<and> (h \<le> n \<longrightarrow> db_slot h (vm_storage vm3) a p = db_slot h (vm_storage vm) a p)"
    using commit_block [OF E'(1-4) s2(1)] unfolding s2(2,3) by blast
  define vm4 where "vm4 = vm3\<lparr>vm_storage := (vm_storage vm3)\<lparr>st_headers := upsert_header d (st_headers (vm_storage vm3))\<rparr>\<rparr>"
  have sv: "saveBlock d vm3 = (Inr (), vm4)" using c(3) d by (simp add: saveBlock_def header_ok_def vm4_def)
  let ?vm' = "vm_clear (VMBitcoinBlock_reset vm4)"
  have t4: "terminateBlock vm4 = (Inr (), ?vm')" using c(2) by (simp add: terminateBlock_def VMBitcoinBlock_terminate_def vm4_def)
  have st4: "vm_storage ?vm' = (vm_storage vm3)\<lparr>st_headers := upsert_header d (st_headers (vm_storage vm3))\<rparr>"
    by (simp add: vm_clear_def VMBitcoinBlock_reset_def vm4_def)
  have slot4: "db_slot h (vm_storage ?vm') a p = db_slot h (vm_storage vm3) a p" for h a p by (simp add: db_slot_def st4)
  have "checksum_known E (n + 1) (vm_storage ?vm')"
    using d n upsert_header_lookup [of d "st_headers (vm_storage vm3)"]
    by (auto simp: checksum_known_def st4 previous_checksum_def header_ok_def)
  moreover have "pointers_ok (vm_storage ?vm')" using c(4) v(2) n by (fastforce simp: pointers_ok_def st4)
  moreover have "older_than (n + 1) (vm_storage ?vm')" using c(4) by (fastforce simp: older_than_def st4)
  ultimately have "chain_ok E (n + 1) ?vm'" using clear_idle [OF refl, of vm4] by (simp add: chain_ok_def)
  moreover have "run_block E n ops d vm = (Inr outs, ?vm')"
    using p(1) run outs c(1) sv t4 by (simp add: run_block_def st_bind_def st_return_def)
  moreover have "agree E (db_slot (n + 1) (vm_storage ?vm')) (current_slot E vm2)"
    using c(5) slot4 by (simp add: agree_def)
  moreover have "\<forall>h \<le> n. \<forall>a p. db_slot h (vm_storage ?vm') a p = db_slot h (vm_storage vm) a p"
    using c(5) slot4 by simp
  ultimately show ?thesis using s2(5) by blast
qed

lemma st_keeps_snd: "st_keeps P m \<Longrightarrow> P s \<Longrightarrow> P (snd (m s))"
  by (simp add: st_keeps_def)

lemma publish_frame:
  "st_keeps (\<lambda>s. vm_storage s = st \<and> vm_isPrepared s = b \<and> vm_blockId s = n) (updateBlockValuesFromResult E ev c tx d)"
proof (rule st_keepsI)
  fix s :: VMManager assume s: "vm_storage s = st \<and> vm_isPrepared s = b \<and> vm_blockId s = n"
  let ?P = "\<lambda>s. vm_storage s = st \<and> vm_isPrepared s = b \<and> vm_blockId s = n"
  have tree: "st_keeps ?P (\<lambda>vm. (case vm_blockState vm of
                   None \<Rightarrow> (Inl BlockStateNotFound, vm)
                 | Some t \<Rightarrow>
                     (case StateMerkleTree_generateTree (ve_merkle E) True t of
                        Inl e \<Rightarrow> (Inl (VMMerkle e), vm)
                      | Inr t' \<Rightarrow> (Inr (), vm\<lparr>vm_blockState := Some t'\<rparr>))))"
    by (auto simp: st_keeps_def split: option.splits sum.splits)
  have put: "st_keeps ?P (st_put (\<lambda>vm. vm\<lparr>vm_blockState := x\<rparr>))" "st_keeps ?P (st_put (\<lambda>vm. vm\<lparr>vm_receiptState := y\<rparr>))" for x y
    by (rule st_keeps_put, simp)+
  have pub: "st_keeps ?P (case ch of
                 Some (changed, r) \<Rightarrow>
                   st_bind (st_put (\<lambda>vm. vm\<lparr>vm_blockState := Some (apply_changes changed bs)\<rparr>)) (\<lambda>_.
                   st_bind (st_lift (lift_vm VMMerkle (ReceiptMerkleTree_updateValue (ve_same E) c tx r rs)))
                     (\<lambda>rs'. st_put (\<lambda>vm. vm\<lparr>vm_receiptState := Some rs'\<rparr>)))
               | None \<Rightarrow>
                   st_bind (st_lift (lift_vm VMMerkle (ReceiptMerkleTree_updateValue (ve_same E) c tx [0] rs)))
                     (\<lambda>rs'. st_put (\<lambda>vm. vm\<lparr>vm_receiptState := Some rs'\<rparr>)))" for ch bs rs
    by (cases ch) (auto intro!: st_keeps_bind put)
  show "?P (snd (updateBlockValuesFromResult E ev c tx d s))"
  proof (cases "ve_isExecutor E \<or> vm_blockState s = None \<or> vm_receiptState s = None \<or> tx = []")
    case True
    then show ?thesis using s by (auto simp: updateBlockValuesFromResult_def split: option.splits)
  next
    case False
    then obtain bs rs where *: "vm_blockState s = Some bs" "vm_receiptState s = Some rs" "\<not> ve_isExecutor E" "tx \<noteq> []" by auto
    show ?thesis
      unfolding updateBlockValuesFromResult_def Let_def using *(3,4)
      by (simp only: *(1,2) if_False option.case prod.case)
        (rule st_keeps_snd [where P = ?P, OF _ s], intro st_keeps_bind st_keeps_basic pub st_keeps_when tree)
  qed
qed

lemma op_frame:
  assumes "codec_ok E" "session_ok E vm" "slot_op_ok op"
  shows "vm_storage (snd (run_slot_op E op vm)) = vm_storage vm \<and> vm_isPrepared (snd (run_slot_op E op vm)) = vm_isPrepared vm
    \<and> vm_blockId (snd (run_slot_op E op vm)) = vm_blockId vm"
proof (cases op)
  case (PublishResult ev c tx)
  have "st_keeps (\<lambda>s. vm_storage s = vm_storage vm \<and> vm_isPrepared s = vm_isPrepared vm \<and> vm_blockId s = vm_blockId vm)
      (run_slot_op E op)"
    unfolding run_slot_op_def PublishResult slot_op.case by (intro st_keeps_bind publish_frame) simp
  then show ?thesis by (simp add: st_keeps_def)
next
  case (ReadSlot a p)
  have "reads_ok E vm" "length p = 32" using assms(2,3) ReadSlot by (simp_all add: session_ok_def slot_op_ok_def)
  from VM_getStorage_read [OF assms(1) this, of a] show ?thesis
    by (simp add: ReadSlot run_slot_op_def read_step_def same_session_def)
qed

lemma ops_frame:
  assumes "codec_ok E" "\<not> ve_isExecutor E" "session_ok E vm" "list_all slot_op_ok ops"
    and "st_map (run_slot_op E) ops vm = (r, vm')"
  shows "vm_storage vm' = vm_storage vm \<and> vm_isPrepared vm' \<and> vm_blockId vm' = vm_blockId vm"
  using assms(3-)
proof (induction ops arbitrary: vm r vm')
  case Nil
  then show ?case by (simp add: st_return_def session_ok_def)
next
  case (Cons op ops)
  obtain r1 vm1 where op: "run_slot_op E op vm = (r1, vm1)" by fastforce
  have fr: "vm_storage vm1 = vm_storage vm" "vm_isPrepared vm1" "vm_blockId vm1 = vm_blockId vm"
    using op_frame [OF assms(1) Cons.prems(1), of op] Cons.prems(1,2) op by (simp_all add: session_ok_def)
  show ?case
  proof (cases r1)
    case (Inl e)
    then show ?thesis using Cons.prems(3) op fr by (simp add: st_bind_def)
  next
    case (Inr x)
    have ok: "slot_op_ok op" "list_all slot_op_ok ops" using Cons.prems(2) by simp_all
    obtain r2 vm2 where ops: "st_map (run_slot_op E) ops vm1 = (r2, vm2)" by fastforce
    have "session_ok E vm1" using run_slot_op_spec [OF assms(1,2) Cons.prems(1) ok(1) op] Inr by simp
    from Cons.IH [OF this ok(2) ops] fr Cons.prems(3) op ops Inr show ?thesis
      by (cases r2) (auto simp: st_bind_def st_return_def)
  qed
qed

lemma abstract_ops_agree:
  "list_all slot_op_ok ops \<Longrightarrow> list_all (op_hex E) ops \<Longrightarrow> agree E m m' \<Longrightarrow>
     fst (abstract_ops E ops m) = fst (abstract_ops E ops m') \<and> agree E (snd (abstract_ops E ops m)) (snd (abstract_ops E ops m'))"
proof (induction E ops m arbitrary: m' rule: abstract_ops.induct)
  case (2 E ev c tx ops m)
  have "agree E (overwrite E ev m) (overwrite E ev m')"
    using "2.prems"(3) by (auto simp: agree_def overwrite_def split: option.splits)
  from "2.IH" [OF _ _ this] "2.prems" show ?case by (auto split: prod.splits)
next
  case (3 E a p ops m)
  have "m a p = m' a p" using "3.prems" by (simp add: agree_def slot_op_ok_def op_hex_def)
  with "3.IH" [of m'] "3.prems" show ?case by (auto split: prod.splits)
qed simp

fun run_chain ::
    "vm_env \<Rightarrow> bigint \<Rightarrow> (slot_op list \<times> BlockHeaderDocument) list \<Rightarrow> VMManager
     \<Rightarrow> (vm_error + bytes option list list) \<times> VMManager" where
  "run_chain E n [] = st_return []"
| "run_chain E n ((ops, d) # bs) =
     st_bind (run_block E n ops d) (\<lambda>outs. st_bind (run_chain E (n + 1) bs) (\<lambda>rest. st_return (outs # rest)))"

fun abstract_chain ::
    "vm_env \<Rightarrow> (slot_op list \<times> BlockHeaderDocument) list \<Rightarrow> slots \<Rightarrow> bytes option list list \<times> slots" where
  "abstract_chain E [] m = ([], m)"
| "abstract_chain E ((ops, d) # bs) m =
     (case abstract_ops E ops m of (outs, m1) \<Rightarrow> case abstract_chain E bs m1 of (rest, m2) \<Rightarrow> (outs # rest, m2))"

fun blocks_ok :: "vm_env \<Rightarrow> bigint \<Rightarrow> (slot_op list \<times> BlockHeaderDocument) list \<Rightarrow> bool" where
  "blocks_ok E n [] = True"
| "blocks_ok E n ((ops, d) # bs) \<longleftrightarrow>
     list_all slot_op_ok ops \<and> list_all (op_hex E) ops \<and> header_ok E n d \<and> blocks_ok E (n + 1) bs"

lemma abstract_chain_agree:
  "blocks_ok E n bs \<Longrightarrow> agree E m m' \<Longrightarrow>
     fst (abstract_chain E bs m) = fst (abstract_chain E bs m') \<and> agree E (snd (abstract_chain E bs m)) (snd (abstract_chain E bs m'))"
proof (induction E n bs arbitrary: m m' rule: blocks_ok.induct)
  case (2 E n ops d bs)
  then have ag: "fst (abstract_ops E ops m) = fst (abstract_ops E ops m')"
    "agree E (snd (abstract_ops E ops m)) (snd (abstract_ops E ops m'))"
    using abstract_ops_agree [of ops E m m'] by simp_all
  from "2.IH" [OF _ ag(2)] "2.prems"(1) ag(1) show ?case by (auto split: prod.splits)
qed simp

lemma run_chain_spec:
  assumes "node_ok E"
  shows "chain_ok E n vm \<Longrightarrow> 0 < n \<Longrightarrow> blocks_ok E n bs \<Longrightarrow> \<exists>vm'.
     run_chain E n bs vm = (Inr (fst (abstract_chain E bs (db_slot n (vm_storage vm)))), vm')
     \<and> chain_ok E (n + int (length bs)) vm'
     \<and> agree E (db_slot (n + int (length bs)) (vm_storage vm')) (snd (abstract_chain E bs (db_slot n (vm_storage vm))))
     \<and> (\<forall>h \<le> n. \<forall>a p. db_slot h (vm_storage vm') a p = db_slot h (vm_storage vm) a p)"
proof (induction bs arbitrary: n vm)
  case Nil
  then show ?case by (simp add: st_return_def agree_def)
next
  case (Cons b bs)
  obtain ops d where b: "b = (ops, d)" by (cases b)
  have ok: "list_all slot_op_ok ops" "list_all (op_hex E) ops" "header_ok E n d" "blocks_ok E (n + 1) bs"
    using Cons.prems(3) b by simp_all
  obtain outs m vm1 where r1: "run_block E n ops d vm = (Inr outs, vm1)" "chain_ok E (n + 1) vm1"
    "abstract_ops E ops (db_slot n (vm_storage vm)) = (outs, m)" "agree E (db_slot (n + 1) (vm_storage vm1)) m"
    "\<forall>h \<le> n. \<forall>a p. db_slot h (vm_storage vm1) a p = db_slot h (vm_storage vm) a p"
    using run_block_spec [OF assms Cons.prems(1,2) ok(1-3)] by blast
  have "0 < n + 1" using Cons.prems(2) by simp
  from Cons.IH [OF r1(2) this ok(4)] obtain vm' where
    r2: "run_chain E (n + 1) bs vm1 = (Inr (fst (abstract_chain E bs (db_slot (n + 1) (vm_storage vm1)))), vm')"
      "chain_ok E (n + 1 + int (length bs)) vm'"
      "agree E (db_slot (n + 1 + int (length bs)) (vm_storage vm')) (snd (abstract_chain E bs (db_slot (n + 1) (vm_storage vm1))))"
      "\<forall>h \<le> n + 1. \<forall>a p. db_slot h (vm_storage vm') a p = db_slot h (vm_storage vm1) a p" by blast
  note ag = abstract_chain_agree [OF ok(4) r1(4)]
  have len: "n + int (length (b # bs)) = n + 1 + int (length bs)" by simp
  have run: "run_chain E n (b # bs) vm = (Inr (outs # fst (abstract_chain E bs m)), vm')"
    using r1(1) r2(1) ag by (simp add: b st_bind_def st_return_def)
  have abs: "abstract_chain E (b # bs) (db_slot n (vm_storage vm)) = (outs # fst (abstract_chain E bs m), snd (abstract_chain E bs m))"
    using r1(3) by (simp add: b split: prod.splits)
  have "agree E (db_slot (n + 1 + int (length bs)) (vm_storage vm')) (snd (abstract_chain E bs m))"
    using r2(3) ag by (simp add: agree_def)
  moreover have "\<forall>h \<le> n. \<forall>a p. db_slot h (vm_storage vm') a p = db_slot h (vm_storage vm) a p"
    using r1(5) r2(4) by simp
  ultimately show ?case unfolding len abs using run r2(2) by simp
qed

subsection \<open>Properties\<close>

text \<open>
  C1: Contract storage is one map. For an indexing node with the default settings, blocks at consecutive heights
  are all executed and saved: every read, in whatever block, returns the value the latest result before
  it wrote to that slot, a reverted transaction counting for nothing, and otherwise the stored value from before the
  blocks; after the last block the database holds exactly the resulting map below every greater height, and reads below the
  first height return what they did.
\<close>

theorem contract_storage_chain:
  assumes "node_ok E" and "chain_ok E n vm" and "0 < n" and "blocks_ok E n bs"
  shows "\<exists>vm'. run_chain E n bs vm = (Inr (fst (abstract_chain E bs (db_slot n (vm_storage vm)))), vm')
    \<and> chain_ok E (n + int (length bs)) vm'
    \<and> (\<forall>h a p. n + int (length bs) \<le> h \<longrightarrow> a \<noteq> mp_fakeAddress (ve_merkle E) \<longrightarrow> length p = 32 \<longrightarrow>
         db_slot h (vm_storage vm') a p = snd (abstract_chain E bs (db_slot n (vm_storage vm))) a p)
    \<and> (\<forall>h a p. h \<le> n \<longrightarrow> db_slot h (vm_storage vm') a p = db_slot h (vm_storage vm) a p)"
proof -
  obtain vm' where vm': "run_chain E n bs vm = (Inr (fst (abstract_chain E bs (db_slot n (vm_storage vm)))), vm')"
    "chain_ok E (n + int (length bs)) vm'"
    "agree E (db_slot (n + int (length bs)) (vm_storage vm')) (snd (abstract_chain E bs (db_slot n (vm_storage vm))))"
    "\<forall>h \<le> n. \<forall>a p. db_slot h (vm_storage vm') a p = db_slot h (vm_storage vm) a p"
    using run_chain_spec [OF assms] by blast
  have later: "db_slot h (vm_storage vm') a p = db_slot (n + int (length bs)) (vm_storage vm') a p"
    if "n + int (length bs) \<le> h" for h a p
    using vm'(2) db_slot_later [OF _ that] by (simp add: chain_ok_def)
  show ?thesis
  proof (intro exI conjI allI impI)
    show "run_chain E n bs vm = (Inr (fst (abstract_chain E bs (db_slot n (vm_storage vm)))), vm')" by (rule vm'(1))
    show "chain_ok E (n + int (length bs)) vm'" by (rule vm'(2))
  next
    fix h a and p :: bytes assume h: "n + int (length bs) \<le> h" "a \<noteq> mp_fakeAddress (ve_merkle E)" "length p = 32"
    show "db_slot h (vm_storage vm') a p = snd (abstract_chain E bs (db_slot n (vm_storage vm))) a p"
      unfolding later [OF h(1)] using vm'(3) h(2,3) by (simp add: agree_def)
  next
    fix h a p assume "h \<le> n"
    then show "db_slot h (vm_storage vm') a p = db_slot h (vm_storage vm) a p" using vm'(4) by blast
  qed
qed

text \<open>
  Writing the states of block \<open>n\<close>, as far as it gets, adds documents of height \<open>n\<close> only: no read up to that
  height sees them.
\<close>

definition slots_below :: "bigint \<Rightarrow> storage \<Rightarrow> VMManager \<Rightarrow> bool" where
  "slots_below n st vm \<longleftrightarrow> vm_blockId vm = n \<and> vm_isPrepared vm \<and> pointers_ok (vm_storage vm)
     \<and> (\<forall>h a p. h \<le> n \<longrightarrow> db_slot h (vm_storage vm) a p = db_slot h st a p)"

lemma setStoragePointers_below:
  assumes "n \<noteq> 0" "pointers_ok st"
  shows "pointers_ok (st\<lparr>st_pointers := setStoragePointers dummy changes n (st_pointers st)\<rparr>)"
    and "h \<le> n \<Longrightarrow> db_slot h (st\<lparr>st_pointers := setStoragePointers dummy changes n (st_pointers st)\<rparr>) a p = db_slot h st a p"
proof -
  let ?ws = "written_pointers dummy changes n"
  have "e \<in> set (fold upsert_pointer ws ds) \<Longrightarrow> e \<in> set ws \<or> e \<in> set ds" for e ws ds
    by (induction ws arbitrary: ds) (auto dest: upsert_seen)
  with assms show "pointers_ok (st\<lparr>st_pointers := setStoragePointers dummy changes n (st_pointers st)\<rparr>)"
    by (fastforce simp: pointers_ok_def setStoragePointers_upserts dest: written_pointers_seen)
  show "db_slot h (st\<lparr>st_pointers := setStoragePointers dummy changes n (st_pointers st)\<rparr>) a p = db_slot h st a p" if "h \<le> n"
  proof -
    have "\<forall>d \<in> set ?ws. \<not> pointer_matches a p (Some h) d"
      using that by (auto simp: pointer_matches_def dest: written_pointers_seen)
    from fold_upsert_other [OF this] show ?thesis by (simp add: db_slot_def setStoragePointers_upserts)
  qed
qed

lemma updateEvaluatedStates_below:
  assumes "n \<noteq> 0"
  shows "st_keeps (slots_below n st) (updateEvaluatedStates E)"
proof -
  let ?P = "slots_below n st"
  have receipts: "st_keeps ?P (updateReceiptState E)"
    by (auto simp: st_keeps_def updateReceiptState_def slots_below_def st_bind_def st_simps split: option.splits prod.splits sum.splits)
  have freeze: "st_keeps ?P (\<lambda>vm. (case vm_blockState vm of
           None \<Rightarrow> (Inl BlockStateNotFound, vm)
         | Some t \<Rightarrow> (case StateMerkleTree_freeze (ve_merkle E) t of
              Inl e \<Rightarrow> (Inl (VMMerkle e), vm) | Inr t' \<Rightarrow> (Inr (), vm\<lparr>vm_blockState := Some t'\<rparr>))))"
    by (auto simp: st_keeps_def slots_below_def split: option.splits sum.splits)
  have keys: "st_keeps ?P (\<lambda>vm. (case savePublicKeys (map snd (mldsaToStore (vm_mldsa vm))) (st_publicKeys (vm_storage vm)) of
      (r, ks) \<Rightarrow> (lift_vm VMKeys r, vm\<lparr>vm_storage := (vm_storage vm)\<lparr>st_publicKeys := ks\<rparr>\<rparr>)))"
    by (auto simp: st_keeps_def slots_below_def pointers_ok_def db_slot_def split: prod.splits)
  have pointers: "st_keeps ?P (st_put (\<lambda>vm. vm\<lparr>vm_storage := (vm_storage vm)\<lparr>st_pointers :=
      setStoragePointers dummy changes (vm_blockId vm) (st_pointers (vm_storage vm))\<rparr>\<rparr>))" for dummy changes
    using setStoragePointers_below [OF assms] by (intro st_keeps_put) (auto simp: slots_below_def)
  have save: "st_keeps ?P (saveBlockStateChanges E)"
  proof (rule st_keepsI)
    fix vm :: VMManager assume vm: "?P vm"
    show "?P (snd (saveBlockStateChanges E vm))"
    proof (cases "ve_isExecutor E \<or> vm_blockState vm = None \<or> ve_resync E")
      case True
      then show ?thesis using vm by (auto simp: saveBlockStateChanges_def split: option.splits)
    next
      case False
      then obtain t where t: "vm_blockState vm = Some t" by auto
      show ?thesis unfolding saveBlockStateChanges_def t using False
        by (simp only: option.case if_False de_Morgan_disj)
          (rule st_keeps_snd [where P = ?P, OF _ vm],
            intro st_keeps_bind st_keeps_basic st_keeps_when st_keeps_option keys pointers)
    qed
  qed
  have finish: "st_keeps ?P (\<lambda>vm. case (vm_blockState vm, vm_receiptState vm) of
            (Some storage, Some receipts) \<Rightarrow>
              (Inr (storage, receipts), vm\<lparr>vm_blockState := None, vm_receiptState := None\<rparr>)
          | _ \<Rightarrow> (Inl BlockStateNotFound, vm))"
    by (auto simp: st_keeps_def slots_below_def split: option.splits)
  have "st_keeps ?P (st_bind (updateReceiptState E) (\<lambda>_. st_bind (\<lambda>vm. (case vm_blockState vm of
           None \<Rightarrow> (Inl BlockStateNotFound, vm)
         | Some t \<Rightarrow> (case StateMerkleTree_freeze (ve_merkle E) t of
              Inl e \<Rightarrow> (Inl (VMMerkle e), vm) | Inr t' \<Rightarrow> (Inr (), vm\<lparr>vm_blockState := Some t'\<rparr>)))) (\<lambda>_.
        st_bind (saveBlockStateChanges E) (\<lambda>_. (\<lambda>vm. case (vm_blockState vm, vm_receiptState vm) of
            (Some storage, Some receipts) \<Rightarrow>
              (Inr (storage, receipts), vm\<lparr>vm_blockState := None, vm_receiptState := None\<rparr>)
          | _ \<Rightarrow> (Inl BlockStateNotFound, vm))))))"
    by (intro st_keeps_bind receipts freeze save finish)
  then show ?thesis by (auto simp: st_keeps_def updateEvaluatedStates_def)
qed

text \<open>Reverting a prepared block keeps the database and leaves a manager that can prepare the block again.\<close>

lemma revert_prepared:
  assumes "vm_isPrepared vm" "pointers_ok (vm_storage vm)"
  shows "\<exists>vm2. revertBlock vm = (Inr (), vm2) \<and> vm_storage vm2 = vm_storage vm \<and> idle_ok vm2
    \<and> (\<exists>vm3. prepareBlock n vm2 = (Inr (), vm3) \<and> current_slot E vm3 = db_slot n (vm_storage vm))"
proof -
  let ?vm2 = "vm_clear (VMBitcoinBlock_reset vm)"
  have "revertBlock vm = (Inr (), ?vm2)" using assms(1) by (simp add: revertBlock_def VMBitcoinBlock_revert_def)
  moreover have st: "vm_storage ?vm2 = vm_storage vm" by (simp add: vm_clear_def VMBitcoinBlock_reset_def)
  moreover have idle: "idle_ok ?vm2" by (rule clear_idle [OF refl])
  moreover have "\<exists>vm3. prepareBlock n ?vm2 = (Inr (), vm3) \<and> current_slot E vm3 = db_slot n (vm_storage vm)"
    using prepare_session [OF idle, of n E] assms(2) unfolding st by blast
  ultimately show ?thesis by blast
qed

text \<open>
  C20: A block can be given up at any point of its execution. However far the transactions got, failed reads and results
  included, reverting succeeds, leaves the database as it was before the block was prepared, and the manager can
  prepare a block again. If the states of the block were being written, with whatever result, reverting still
  succeeds; the database may hold documents of the block then, but every read up to its height is as before, so the
  block prepared again starts from the same slots.
\<close>

theorem block_revert_restores:
  assumes "codec_ok E" and "\<not> ve_isExecutor E" and "idle_ok vm" and "pointers_ok (vm_storage vm)"
    and "list_all slot_op_ok ops" and "st_bind (prepareBlock n) (\<lambda>_. st_map (run_slot_op E) ops) vm = (r, vm1)"
  shows "(\<exists>vm2. revertBlock vm1 = (Inr (), vm2) \<and> vm_storage vm2 = vm_storage vm \<and> idle_ok vm2
      \<and> (\<exists>vm3. prepareBlock n vm2 = (Inr (), vm3) \<and> current_slot E vm3 = db_slot n (vm_storage vm)))
    \<and> (n \<noteq> 0 \<longrightarrow> (\<exists>vm2. revertBlock (snd (updateEvaluatedStates E vm1)) = (Inr (), vm2) \<and> idle_ok vm2
      \<and> (\<forall>h a p. h \<le> n \<longrightarrow> db_slot h (vm_storage vm2) a p = db_slot h (vm_storage vm) a p)
      \<and> (\<exists>vm3. prepareBlock n vm2 = (Inr (), vm3) \<and> current_slot E vm3 = db_slot n (vm_storage vm))))"
proof -
  obtain vm0 where p: "prepareBlock n vm = (Inr (), vm0)" "session_ok E vm0" "vm_storage vm0 = vm_storage vm" "vm_blockId vm0 = n"
    using prepare_session [OF assms(3,4), of n E] by blast
  have "st_map (run_slot_op E) ops vm0 = (r, vm1)" using assms(6) p(1) by (simp add: st_bind_def)
  from ops_frame [OF assms(1,2) p(2) assms(5) this]
  have fr: "vm_storage vm1 = vm_storage vm" "vm_isPrepared vm1" "vm_blockId vm1 = n" using p(3,4) by simp_all
  have early: "\<exists>vm2. revertBlock vm1 = (Inr (), vm2) \<and> vm_storage vm2 = vm_storage vm \<and> idle_ok vm2
      \<and> (\<exists>vm3. prepareBlock n vm2 = (Inr (), vm3) \<and> current_slot E vm3 = db_slot n (vm_storage vm))"
    using revert_prepared [OF fr(2), of n E] assms(4) unfolding fr(1) by blast
  have "\<exists>vm2. revertBlock u = (Inr (), vm2) \<and> idle_ok vm2
      \<and> (\<forall>h a p. h \<le> n \<longrightarrow> db_slot h (vm_storage vm2) a p = db_slot h (vm_storage vm) a p)
      \<and> (\<exists>vm3. prepareBlock n vm2 = (Inr (), vm3) \<and> current_slot E vm3 = db_slot n (vm_storage vm))"
    if "n \<noteq> 0" "u = snd (updateEvaluatedStates E vm1)" for u
  proof -
    have "slots_below n (vm_storage vm) vm1" using fr assms(4) by (simp add: slots_below_def)
    then have below: "slots_below n (vm_storage vm) u"
      using st_keeps_snd [OF updateEvaluatedStates_below [OF that(1)]] that(2) by blast
    then have "db_slot n (vm_storage u) = db_slot n (vm_storage vm)" by (intro ext) (simp add: slots_below_def)
    with revert_prepared [of u n E] below show ?thesis by (auto simp: slots_below_def)
  qed
  with early show ?thesis by blast
qed

subsection \<open>Witnesses\<close>

lemma be_bytes_Suc: "be_bytes (Suc n) v = be_bytes n (v div 256) @ [word_of_int v]"
proof -
  have "map (\<lambda>i. word_of_int (drop_bit (8 * i) v) :: byte) (rev [0..<Suc n]) =
      map (\<lambda>i. word_of_int (drop_bit (8 * i) v)) (map Suc (rev [0..<n])) @ [word_of_int v]"
    by (simp add: rev_map [symmetric] map_Suc_upt upt_conv_Cons del: upt_Suc)
  also have "\<dots> = be_bytes n (v div 256) @ [word_of_int v]"
    by (simp add: be_bytes_def drop_bit_eq_div zdiv_zmult2_eq [symmetric] power_add mult.commute)
  finally show ?thesis by (simp add: be_bytes_def del: upt_Suc)
qed

lemma be_bytes_be_value: "be_bytes (length p) (be_value p) = p \<and> 0 \<le> be_value p \<and> be_value p < 256 ^ length p"
proof (induction p rule: rev_induct)
  case Nil
  then show ?case by (simp add: be_bytes_def be_value_def)
next
  case (snoc b p)
  have v: "be_value (p @ [b]) = 256 * be_value p + uint b" by (simp add: be_value_def)
  have b: "0 \<le> uint b" "uint b < 256" using unsigned_less [of b, where ?'a = int] by simp_all
  have "word_of_int (256 * be_value p + uint b) = b"
  proof -
    have z: "(256 :: byte) = 0" by transfer simp
    have "word_of_int (256 * be_value p + uint b) = (256 :: byte) * word_of_int (be_value p) + b" by simp
    also have "\<dots> = b" unfolding z by simp
    finally show ?thesis .
  qed
  then show ?case using snoc b by (simp add: v be_bytes_Suc)
qed

definition sample_env :: vm_env where
  "sample_env = \<lparr>ve_isExecutor = False, ve_disableStorageCheck = True, ve_resync = False, ve_light = False,
     ve_tx = Roswell_TRANSACTIONS, ve_merkle = sample_merkle, ve_toPointer = be_value, ve_same = (=),
     ve_fromString = (\<lambda>_. None), ve_p2op = id, ve_contractSeed = (\<lambda>a b c. ''new''), ve_hash256 = id,
     ve_addressBytes = (\<lambda>_. replicate 32 0), ve_zeroAddress = ''zero'', ve_tweak = id\<rparr>"

definition sample_manager :: VMManager where
  "sample_manager = \<lparr>vm_isPrepared = False, vm_blockId = 0, vm_blockState = None, vm_receiptState = None,
     vm_verifiedBlockHeights = [], vm_contractCache = [], vm_contractAddressCache = [], vm_isProcessing = False,
     vm_validator = \<lparr>hv_cache = [], hv_enableCaching = True\<rparr>, vm_pointerCache = [], vm_mldsa = registry_empty,
     vm_storage = (sample_storage [])\<lparr>st_headers := [\<lparr>bh_height = 4, bh_checksumRoot = sample_hex (replicate 32 7), bh_hash = [],
       bh_previousBlockHash = [], bh_previousBlockChecksum = [], bh_merkleRoot = [], bh_storageRoot = [],
       bh_receiptRoot = [], bh_checksumProofs = []\<rparr>]\<rparr>\<rparr>"

definition sample_block_header :: "bigint \<Rightarrow> BlockHeaderDocument" where
  "sample_block_header n = \<lparr>bh_height = n, bh_checksumRoot = sample_hex (replicate 32 7), bh_hash = [],
       bh_previousBlockHash = [], bh_previousBlockChecksum = [], bh_merkleRoot = [], bh_storageRoot = [],
       bh_receiptRoot = [], bh_checksumProofs = []\<rparr>"

definition sample_result :: ContractEvaluation where
  "sample_result = (evaluation_of_params sample_params)
     \<lparr>ce_modifiedStorage := Some [(''c'', FastBigIntMap_set FastBigIntMap_empty 5 9)], ce_result := Some [1], ce_revert := None\<rparr>"

lemma sample_codec: "codec_ok sample_env"
proof -
  have "u256 (be_value p) \<and> be_bytes 32 (be_value p) = p" if "length p = 32" for p
    using be_bytes_be_value [of p] that by (simp add: u256_def)
  moreover have "be_value (be_bytes 32 k) = k" if "u256 k" for k
    using that by (simp add: be_value_be_bytes u256_def)
  moreover have "length (be_bytes 32 k) = 32" for k by (simp add: be_bytes_def)
  ultimately show ?thesis by (simp add: codec_ok_def sample_env_def sample_merkle_def)
qed

lemma sample_node: "node_ok sample_env"
  using sample_codec sample_merkle_ok
  by (simp add: node_ok_def sample_env_def Roswell_TRANSACTIONS_def) (simp add: sample_merkle_def)

lemma sample_hex_nonempty [simp]: "sample_hex b \<noteq> []"
  by (simp add: sample_hex_def)

lemma sample_chain: "chain_ok sample_env 5 sample_manager"
  by (auto simp: chain_ok_def idle_ok_def sample_manager_def hv_ok_def pointers_ok_def older_than_def sample_storage_def
      sample_pointer_def checksum_known_def previous_checksum_def header_lookup_def sample_env_def)

definition sample_ops :: "slot_op list" where
  "sample_ops = [PublishResult (Some sample_result) ''c'' ''t'', ReadSlot ''c'' (be_bytes 32 5)]"

lemma sample_modified: "modified_at sample_result a k = (if a = ''c'' \<and> k = 5 then Some 9 else None)"
  by (auto simp: modified_at_def sample_result_def FastBigIntMap_get_def FastBigIntMap_set_def FastBigIntMap_empty_def
      update_conv)

lemma sample_ops_ok: "list_all slot_op_ok sample_ops \<and> list_all (op_hex sample_env) sample_ops"
proof -
  have "modified_ok sample_result"
    using fbm.invar_put [OF fbm.invar_empty] by (simp add: modified_ok_def sample_result_def)
  moreover have "u256 5" "u256 9" by (simp_all add: u256_def)
  ultimately have "effects_ok (Some sample_result)"
    by (auto simp: effects_ok_def sample_modified) (simp_all add: sample_result_def)
  then show ?thesis
    by (simp add: sample_ops_def slot_op_ok_def op_hex_def sample_env_def sample_merkle_def) (simp add: be_bytes_def)
qed

lemma sample_blocks: "blocks_ok sample_env 5 [(sample_ops, sample_block_header 5), ([ReadSlot ''c'' (be_bytes 32 5)], sample_block_header 6)]"
  using sample_ops_ok
  by (simp add: header_ok_def sample_block_header_def sample_env_def slot_op_ok_def op_hex_def)
    (simp add: sample_merkle_def be_bytes_def)

lemma sample_written: "overwrite sample_env (Some sample_result) m ''c'' (be_bytes 32 5) = Some (be_bytes 32 9)"
proof -
  have "ve_toPointer sample_env (be_bytes 32 5) = 5" by (simp add: sample_env_def be_value_be_bytes)
  moreover have "ce_revert sample_result = None" "ce_result sample_result \<noteq> None" by (simp_all add: sample_result_def)
  ultimately show ?thesis by (simp add: overwrite_def effects_def sample_modified) (simp add: sample_env_def sample_merkle_def)
qed

theorem contract_storage_chain_witness:
  "\<exists>vm'. run_chain sample_env 5 [(sample_ops, sample_block_header 5), ([ReadSlot ''c'' (be_bytes 32 5)], sample_block_header 6)]
     sample_manager = (Inr [[None, Some (be_bytes 32 9)], [Some (be_bytes 32 9)]], vm')"
  using contract_storage_chain [OF sample_node sample_chain _ sample_blocks]
  by (simp add: sample_ops_def sample_written) blast

theorem block_revert_restores_witness:
  "\<exists>r vm1 vm2 vm3. st_bind (prepareBlock 5) (\<lambda>_. st_map (run_slot_op sample_env) sample_ops) sample_manager = (r, vm1)
     \<and> revertBlock vm1 = (Inr (), vm2) \<and> vm_storage vm2 = vm_storage sample_manager
     \<and> revertBlock (snd (updateEvaluatedStates sample_env vm1)) = (Inr (), vm3)
     \<and> db_slot 5 (vm_storage vm3) ''c'' (be_bytes 32 5) = db_slot 5 (vm_storage sample_manager) ''c'' (be_bytes 32 5)"
proof -
  obtain r vm1 where run: "st_bind (prepareBlock 5) (\<lambda>_. st_map (run_slot_op sample_env) sample_ops) sample_manager = (r, vm1)"
    by fastforce
  have "idle_ok sample_manager" "pointers_ok (vm_storage sample_manager)" using sample_chain by (simp_all add: chain_ok_def)
  moreover have "\<not> ve_isExecutor sample_env" by (simp add: sample_env_def)
  ultimately have main: "(\<exists>vm2. revertBlock vm1 = (Inr (), vm2) \<and> vm_storage vm2 = vm_storage sample_manager)
    \<and> (\<exists>vm2. revertBlock (snd (updateEvaluatedStates sample_env vm1)) = (Inr (), vm2)
        \<and> (\<forall>h a p. h \<le> 5 \<longrightarrow> db_slot h (vm_storage vm2) a p = db_slot h (vm_storage sample_manager) a p))"
    using block_revert_restores [OF sample_codec _ _ _ _ run] sample_ops_ok by force
  with run show ?thesis by blast
qed

end
