(* ===== verification/Contract_Calls.thy ===== *)
theory Contract_Calls
  imports VM_Storage
begin

text \<open>
  \<open>ContractEvaluator.ts\<close> and the execution methods of \<open>VMManager.ts\<close>: a contract runs in the native virtual machine
  and asks the host to load and store slots, call, deploy and update contracts, emit events and so on. The host runs a
  called contract in the same way, with the caller's gas tracker, call stack, counters, storage and list of deployed
  contracts, and merges its evaluation into the caller's.

  The native machine (\<open>op-vm\<close>) is a parameter: \<open>vp_rust\<close> makes an instance of a bytecode, whose run is a
  \<open>rust_program\<close>, a tree of host requests and, at the leaves, the outcome. Each branch of the tree is finite: the machine
  stops a contract at its gas limit. The byte readers and writers and the converters of the packages
  are parameters too (\<open>vm_package\<close>), as are the texts of error messages (\<open>vp_message\<close>).

  An evaluation is the record of \<open>Contract_Evaluation\<close> with a \<open>call_context\<close> for the fields no operation changes.
  Objects the code shares between caller and callee are passed to the callee and written back by
  \<open>share\<close> when it returns. Host callbacks that throw are answers of their own (\<open>Failed\<close>), as the native machine
  sees them. Nested calls are bounded by fuel; running out of it is the error \<open>FuelExhausted\<close>, which no handler
  catches.
\<close>

subsection \<open>Parameters\<close>

datatype call_error = CallVM vm_error | CallEvaluation eval_error | CallMerkle merkle_error | RustFailure string
  | ReaderFailure | WriterFailure | InvalidBytecode | ContractMissing | PreloadExceedsGas | CallStackTooDeep
  | DeploymentFailed | MethodNotImplemented | OutOfGasStore bigint | ReceiptTooLong nat | NoResultReturned
  | InvalidSecurityLevel | ContractNotKnown | NoFee | WrongHeight | ConcurrentCall | NoEvaluator | MissingBytecodeOf
  | DivisionByZero | FuelExhausted

record rust_parameters =
  rp_address :: address
  rp_bytecode :: bytes
  rp_gasUsed :: bigint
  rp_gasMax :: bigint
  rp_memoryPagesUsed :: bigint

record rust_environment =
  re_blockHash :: bytes
  re_blockNumber :: bigint
  re_blockMedianTime :: bigint
  re_ids :: "bytes \<times> bytes"
  re_contractAddress :: address
  re_contractDeployer :: address
  re_caller :: address
  re_origin :: address

datatype rust_entry = EntryExecute | EntryOnDeploy | EntryOnUpdate

datatype host_request = LoadRequest bytes | StoreRequest bytes | CallRequest bytes | DeployRequest bytes
  | UpdateRequest bytes | LogRequest bytes | EmitRequest bytes | InputsRequest | OutputsRequest | LoadMLDSARequest bytes
  | AccountTypeRequest bytes | BlockHashRequest bigint | TLoadRequest bytes | TStoreRequest bytes

datatype host_response = Answer bytes | AccountAnswer nat bool | Failed call_error

record ExitDataResponse =
  ex_status :: nat
  ex_data :: bytes
  ex_gasUsed :: bigint

text \<open>The outcome with the gas counter of the instance afterwards; \<open>None\<close> stands for \<open>getUsedGas\<close> throwing.\<close>

datatype rust_program =
    Finished "string + ExitDataResponse option" "bigint option"
  | Host host_request "host_response \<Rightarrow> rust_program"

record rust_instance =
  ri_usedGas :: "bigint option"
  ri_environmentAccepted :: "rust_environment \<Rightarrow> bool"
  ri_run :: "rust_environment \<Rightarrow> rust_entry \<Rightarrow> bytes \<Rightarrow> rust_program"

type_synonym 'a reader = "bytes \<Rightarrow> ('a \<times> bytes) option"

record vm_package =
  vp_env :: vm_env
  vp_gas :: GAS_config
  vp_put :: "bigint \<Rightarrow> bigint \<Rightarrow> pointer_entries \<Rightarrow> pointer_entries"
  vp_fromBase64 :: "string \<Rightarrow> bytes option"
  vp_message :: "call_error \<Rightarrow> string"
  vp_errorBuffer :: "string \<Rightarrow> bytes"
  vp_readU256 :: "bigint reader"
  vp_readU64 :: "bigint reader"
  vp_readU32 :: "bigint reader"
  vp_readU8 :: "bigint reader"
  vp_readAddress :: "address reader"
  vp_readBytes :: "nat \<Rightarrow> bytes reader"
  vp_readBytesWithLength :: "bytes reader"
  vp_readStringWithLength :: "string reader"
  vp_writeU256 :: "bigint \<Rightarrow> bytes option"
  vp_writeU64 :: "bigint \<Rightarrow> bytes option"
  vp_writeU32 :: "bigint \<Rightarrow> bytes option"
  vp_writeBoolean :: "bool \<Rightarrow> bytes"
  vp_writeAddress :: "address \<Rightarrow> bytes"
  vp_uint8ArrayToValue :: "bytes \<Rightarrow> bigint"
  vp_dead :: address
  vp_serializedInputs :: bytes
  vp_serializedOutputs :: bytes
  NEW_STORAGE_SLOT_GAS_COST :: bigint
  UPDATED_STORAGE_SLOT_GAS_COST :: bigint
  ENABLED_LEVELS :: "bigint list"
  MAX_LOADS :: bigint
  vp_LEVEL2 :: bigint
  vp_LEVEL3 :: bigint
  vp_LEVEL5 :: bigint
  vp_rust :: "rust_parameters \<Rightarrow> rust_instance option"

record call_context =
  cx_contractAddressStr :: address
  cx_calldata :: bytes
  cx_msgSender :: address
  cx_txOrigin :: address
  cx_blockHash :: bytes
  cx_blockNumber :: bigint
  cx_blockMedian :: bigint
  cx_ids :: "bytes \<times> bytes"
  cx_preloadStorageList :: "(address \<times> bytes list) list option"
  cx_specialContract :: "SpecialContract option"

record host_state =
  hs_eval :: ContractEvaluation
  hs_memoryPagesUsed :: bigint
  hs_usedGas :: "bigint option"
  hs_vm :: VMManager

type_synonym 'a host = "host_state \<Rightarrow> (call_error + 'a) \<times> host_state"

abbreviation vp_tx :: "vm_package \<Rightarrow> TRANSACTIONS_config" where
  "vp_tx P \<equiv> ve_tx (vp_env P)"

subsection \<open>The evaluation and the manager as state\<close>

definition on_eval :: "(ContractEvaluation \<Rightarrow> eval_error + ContractEvaluation) \<Rightarrow> unit host" where
  "on_eval f s = (case f (hs_eval s) of Inl e \<Rightarrow> (Inl (CallEvaluation e), s) | Inr e \<Rightarrow> (Inr (), s\<lparr>hs_eval := e\<rparr>))"

definition set_eval :: "(ContractEvaluation \<Rightarrow> ContractEvaluation) \<Rightarrow> unit host" where
  "set_eval f = st_put (\<lambda>s. s\<lparr>hs_eval := f (hs_eval s)\<rparr>)"

definition on_vm :: "(VMManager \<Rightarrow> (vm_error + 'a) \<times> VMManager) \<Rightarrow> 'a host" where
  "on_vm f s = (case f (hs_vm s) of
      (Inl e, vm) \<Rightarrow> (Inl (CallVM e), s\<lparr>hs_vm := vm\<rparr>)
    | (Inr x, vm) \<Rightarrow> (Inr x, s\<lparr>hs_vm := vm\<rparr>))"

definition try_catch :: "'a host \<Rightarrow> (call_error \<Rightarrow> 'a host) \<Rightarrow> 'a host" where
  "try_catch m h s = (case m s of
      (Inl e, s') \<Rightarrow> if e = FuelExhausted then (Inl e, s') else h e s'
    | (Inr x, s') \<Rightarrow> (Inr x, s'))"

definition reading :: "'a reader \<Rightarrow> bytes \<Rightarrow> ('a \<times> bytes) host" where
  "reading r data = (case r data of None \<Rightarrow> st_throw ReaderFailure | Some x \<Rightarrow> st_return x)"

definition writing :: "bytes option list \<Rightarrow> bytes host" where
  "writing parts = (if None \<in> set parts then st_throw WriterFailure else st_return (concat (map the parts)))"

definition revert_with :: "vm_package \<Rightarrow> call_error \<Rightarrow> unit host" where
  "revert_with P e = set_eval (\<lambda>ev. set_revert (vp_errorBuffer P) ev (vp_message P e))"

definition eval_gasUsed :: "host_state \<Rightarrow> bigint" where
  "eval_gasUsed s = gt_gasUsed (ce_gasTracker (hs_eval s))"

definition use_gas :: "vm_package \<Rightarrow> bigint \<Rightarrow> unit host" where
  "use_gas P g = on_eval (\<lambda>e. evaluation_setGasUsed (vp_gas P) e g 0)"

subsection \<open>Host functions\<close>

definition getStorageState :: "vm_package \<Rightarrow> call_context \<Rightarrow> bigint \<Rightarrow> bigint option host" where
  "getStorageState P cx pointer =
     (case mp_pointerToUint8Array (ve_merkle (vp_env P)) pointer of
        None \<Rightarrow> st_throw (CallMerkle PackageError)
      | Some rawData \<Rightarrow>
          st_bind (st_get (\<lambda>s. ce_contractAddress (hs_eval s))) (\<lambda>a.
          st_bind (on_vm (VM_getStorage (vp_env P) a rawData (cx_blockNumber cx) False)) (\<lambda>v.
            st_return (map_option (vp_uint8ArrayToValue P) v))))"

definition load :: "vm_package \<Rightarrow> call_context \<Rightarrow> bytes \<Rightarrow> bytes host" where
  "load P cx data =
     st_bind (reading (vp_readU256 P) data) (\<lambda>(pointer, _).
     st_bind (st_get (\<lambda>s. getStorage (hs_eval s) pointer)) (\<lambda>inEvaluation.
     st_bind (case inEvaluation of
         Some v \<Rightarrow> st_return (v, False)
       | None \<Rightarrow>
           st_bind (getStorageState P cx pointer) (\<lambda>stored.
             (let v = or_else stored 0 in
              st_bind (on_eval (\<lambda>e. addToStorage (vp_put P) e pointer v)) (\<lambda>_. st_return (v, True))))) (\<lambda>(v, wasCold).
       writing [vp_writeU256 P v, Some (vp_writeBoolean P wasCold)])))"

definition store :: "vm_package \<Rightarrow> bytes \<Rightarrow> bytes host" where
  "store P data =
     st_bind (reading (vp_readU256 P) data) (\<lambda>(pointer, rest).
     st_bind (reading (vp_readU256 P) rest) (\<lambda>(v, _).
     st_bind (set_eval (\<lambda>e. setStorage (vp_put P) e pointer v)) (\<lambda>_. st_return [1])))"

definition onEvent :: "vm_package \<Rightarrow> bytes \<Rightarrow> bytes host" where
  "onEvent P data =
     st_bind (reading (vp_readStringWithLength P) data) (\<lambda>(eventName, rest).
     st_bind (reading (vp_readBytesWithLength P) rest) (\<lambda>(eventData, _).
     st_bind (on_eval (\<lambda>e. emitEvent (vp_tx P) e \<lparr>ev_type = eventName, ev_data = eventData\<rparr>)) (\<lambda>_. st_return [])))"

definition MLDSA_fromLevel :: "vm_package \<Rightarrow> bigint \<Rightarrow> nat option" where
  "MLDSA_fromLevel P level =
     (if level = vp_LEVEL2 P then Some 1312
      else if level = vp_LEVEL3 P then Some 1952
      else if level = vp_LEVEL5 P then Some 2592
      else None)"

definition vm_getMLDSAPublicKey :: "vm_env \<Rightarrow> address \<Rightarrow> VMManager \<Rightarrow> (vm_error + IMLDSAPublicKey option) \<times> VMManager" where
  "vm_getMLDSAPublicKey E a vm =
     (case getMLDSAPublicKey (st_publicKeys (vm_storage vm)) (vm_blockId vm) (ve_addressBytes E a) (vm_mldsa vm) of
        (k, r) \<Rightarrow> (Inr k, vm\<lparr>vm_mldsa := r\<rparr>))"

definition loadMLDSA :: "vm_package \<Rightarrow> bytes \<Rightarrow> bytes host" where
  "loadMLDSA P data =
     st_bind (reading (vp_readU8 P) data) (\<lambda>(level, rest).
     st_bind (reading (vp_readAddress P) rest) (\<lambda>(a, _).
     st_bind (st_get (\<lambda>s. mn_value (ce_mldsaLoadCounter (hs_eval s)))) (\<lambda>loads.
       if MAX_LOADS P \<le> loads then st_return (vp_writeBoolean P False)
       else
         st_bind (set_eval incrementMLDSALoadCounter) (\<lambda>_.
         if level \<notin> set (ENABLED_LEVELS P) then st_return (vp_writeBoolean P False)
         else
           st_bind (on_vm (vm_getMLDSAPublicKey (vp_env P) a)) (\<lambda>publicKeyData.
           case publicKeyData of
             None \<Rightarrow> st_return (vp_writeBoolean P False)
           | Some k \<Rightarrow>
               (case ik_publicKey k of
                  None \<Rightarrow> st_return (vp_writeBoolean P False)
                | Some key \<Rightarrow>
                    if int (ik_level k) \<noteq> level then st_return (vp_writeBoolean P False)
                    else
                      (case MLDSA_fromLevel P level of
                         None \<Rightarrow> st_throw InvalidSecurityLevel
                       | Some expectedLength \<Rightarrow>
                           if length key = expectedLength then st_return (vp_writeBoolean P True @ key)
                           else st_return (vp_writeBoolean P False))))))))"

definition getAccountType :: "vm_package \<Rightarrow> bytes \<Rightarrow> (nat \<times> bool) host" where
  "getAccountType P data =
     st_bind (reading (vp_readAddress P) data) (\<lambda>(targetAddress, _).
     st_bind (st_get (\<lambda>s. touchedAddress (hs_eval s) targetAddress)) (\<lambda>isAddressWarm. case isAddressWarm of
         None \<Rightarrow>
           st_bind (on_vm (isContract (vp_env P) targetAddress)) (\<lambda>b.
           st_bind (set_eval (\<lambda>e. touchAddress e targetAddress b)) (\<lambda>_. st_return (if b then 1 else 0, False)))
       | Some w \<Rightarrow> st_return (if w then 1 else 0, w)))"

subsection \<open>Calls between contracts\<close>

text \<open>The runner of a called contract, given by the manager.\<close>

type_synonym callee =
  "call_context \<Rightarrow> ExecutionParameters \<Rightarrow> bigint \<Rightarrow> VMManager \<Rightarrow> (call_error + ContractEvaluation) \<times> VMManager"

definition share :: "ContractEvaluation \<Rightarrow> ContractEvaluation \<Rightarrow> ContractEvaluation" where
  "share e response =
     e\<lparr>ce_gasTracker := ce_gasTracker response, ce_callStack := ce_callStack response,
       ce_contractDeployDepth := ce_contractDeployDepth response,
       ce_contractUpdateDepth := ce_contractUpdateDepth response,
       ce_mldsaLoadCounter := ce_mldsaLoadCounter response,
       ce_deployedContracts := ce_deployedContracts response,
       ce_storage := ce_storage response, ce_preloadStorage := ce_preloadStorage response\<rparr>"

definition external_params :: "ContractEvaluation \<Rightarrow> bool \<Rightarrow> bool \<Rightarrow> address \<Rightarrow> ExecutionParameters" where
  "external_params e isDeployment isUpdate a =
     \<lparr>xp_contractAddress = a, xp_externalCall = True, xp_isDeployment = isDeployment, xp_isUpdate = isUpdate,
      xp_contractDeployDepth = Some (ce_contractDeployDepth e), xp_contractUpdateDepth = Some (ce_contractUpdateDepth e),
      xp_mldsaLoadCounter = Some (ce_mldsaLoadCounter e), xp_gasTracker = ce_gasTracker e,
      xp_storage = ce_storage e, xp_preloadStorage = ce_preloadStorage e,
      xp_deployedContracts = Some (ce_deployedContracts e), xp_touchedAddresses = None,
      xp_callStack = Some (ce_callStack e), xp_accessList = ce_accessList e\<rparr>"

definition external_context :: "vm_package \<Rightarrow> call_context \<Rightarrow> ContractEvaluation \<Rightarrow> bytes \<Rightarrow> address \<Rightarrow> call_context" where
  "external_context P cx e calldata a =
     cx\<lparr>cx_contractAddressStr := ve_p2op (vp_env P) a, cx_calldata := calldata, cx_msgSender := ce_contractAddress e,
        cx_preloadStorageList := None, cx_specialContract := None\<rparr>"

record InternalCallResponse =
  ir_isWarm :: bool
  ir_result :: bytes
  ir_status :: bigint
  ir_gasUsed :: bigint

definition internalCall ::
    "vm_package \<Rightarrow> callee \<Rightarrow> call_context \<Rightarrow> bytes \<Rightarrow> bool \<Rightarrow> bool \<Rightarrow> address \<Rightarrow> InternalCallResponse host" where
  "internalCall P callExternal cx calldata isDeployment isUpdate a s =
     (let e = hs_eval s; isWarm = (touchedAddress e a = Some True) in
      case callExternal (external_context P cx e calldata a) (external_params e isDeployment isUpdate a)
             (hs_memoryPagesUsed s) (hs_vm s) of
        (Inl err, vm) \<Rightarrow> (Inl err, s\<lparr>hs_vm := vm\<rparr>)
      | (Inr response, vm) \<Rightarrow>
          st_bind (on_eval (\<lambda>e. merge (vp_gas P) (vp_tx P) e response)) (\<lambda>_.
            st_return \<lparr>ir_isWarm = isWarm,
              ir_result = (case ce_revert response of Some r \<Rightarrow> r | None \<Rightarrow> or_else (ce_result response) []),
              ir_status = (if ce_revert response \<noteq> None then 1 else 0),
              ir_gasUsed = gt_gasUsed (ce_gasTracker response)\<rparr>)
            (s\<lparr>hs_eval := share e response, hs_vm := vm\<rparr>))"

definition buildCallResponse :: "vm_package \<Rightarrow> bool \<Rightarrow> bigint \<Rightarrow> bigint \<Rightarrow> bytes \<Rightarrow> bytes host" where
  "buildCallResponse P isAddressWarm usedGas status response =
     writing [Some (vp_writeBoolean P isAddressWarm), vp_writeU64 P usedGas, vp_writeU32 P status, Some response]"

definition buildUpdateFromAddressResponse :: "vm_package \<Rightarrow> bigint \<Rightarrow> bigint \<Rightarrow> bigint \<Rightarrow> bytes \<Rightarrow> bytes host" where
  "buildUpdateFromAddressResponse P bytecodeLength usedGas status response =
     writing [vp_writeU32 P bytecodeLength, vp_writeU64 P usedGas, vp_writeU32 P status, Some response]"

definition buildDeployFromAddressResponse ::
    "vm_package \<Rightarrow> address \<Rightarrow> bigint \<Rightarrow> bigint \<Rightarrow> bigint \<Rightarrow> bytes \<Rightarrow> bytes host" where
  "buildDeployFromAddressResponse P a bytecodeLength usedGas status response =
     writing [Some (vp_writeAddress P a), vp_writeU32 P bytecodeLength, vp_writeU64 P usedGas, vp_writeU32 P status,
       Some response]"

definition free_context :: "call_context \<Rightarrow> bool" where
  "free_context cx = (case cx_specialContract cx of None \<Rightarrow> False | Some sp \<Rightarrow> freeGas sp)"

text \<open>The gas counter a handler was called with: what it has read by the time it fails.\<close>

definition requested_gas :: "vm_package \<Rightarrow> bytes \<Rightarrow> host_state \<Rightarrow> bigint" where
  "requested_gas P data s = (case vp_readU64 P data of Some (g, _) \<Rightarrow> g | None \<Rightarrow> eval_gasUsed s)"

definition call_body :: "vm_package \<Rightarrow> callee \<Rightarrow> call_context \<Rightarrow> bytes \<Rightarrow> bytes host" where
  "call_body P callExternal cx data =
     st_bind (reading (vp_readU64 P) data) (\<lambda>(gasUsed, d1).
     st_bind (use_gas P gasUsed) (\<lambda>_.
     st_bind (reading (vp_readU32 P) d1) (\<lambda>(pages, d2).
     st_bind (st_put (\<lambda>s. s\<lparr>hs_memoryPagesUsed := pages\<rparr>)) (\<lambda>_.
     st_bind (reading (vp_readAddress P) d2) (\<lambda>(contractAddress, d3).
     st_bind (reading (vp_readBytesWithLength P) d3) (\<lambda>(calldata, _).
     st_bind (st_get (\<lambda>s. isCallStackTooDeep (vp_tx P) (hs_eval s))) (\<lambda>tooDeep.
     if tooDeep then st_throw CallStackTooDeep
     else
       st_bind (internalCall P callExternal cx calldata False False contractAddress) (\<lambda>response.
         buildCallResponse P (ir_isWarm response) (if free_context cx then 0 else ir_gasUsed response - gasUsed)
           (ir_status response) (ir_result response)))))))))"

definition call :: "vm_package \<Rightarrow> callee \<Rightarrow> call_context \<Rightarrow> bytes \<Rightarrow> bytes host" where
  "call P callExternal cx data s =
     (let gasUsed = requested_gas P data s in
      try_catch (call_body P callExternal cx data) (\<lambda>err.
        st_bind (revert_with P err) (\<lambda>_.
        st_bind (st_get eval_gasUsed) (\<lambda>g. buildCallResponse P False (g - gasUsed) 1 []))) s)"

definition deploy_depth_step :: "vm_package \<Rightarrow> unit host" where
  "deploy_depth_step P = on_eval (incrementContractDeployDepth (vp_tx P))"

definition at_address ::
    "vm_package \<Rightarrow> call_context \<Rightarrow> address \<Rightarrow> bytes \<Rightarrow> (address \<times> nat) host" where
  "at_address P cx a salt s =
     (case deployContractAtAddress (vp_env P) False (cx_blockNumber cx) (cx_ids cx) a salt (hs_eval s) (hs_vm s) of
        (Inl err, vm) \<Rightarrow> (Inl (CallVM err), s\<lparr>hs_vm := vm\<rparr>)
      | (Inr (r, e), vm) \<Rightarrow> (Inr r, s\<lparr>hs_eval := e, hs_vm := vm\<rparr>))"

definition deploy_body :: "vm_package \<Rightarrow> callee \<Rightarrow> call_context \<Rightarrow> bytes \<Rightarrow> bytes host" where
  "deploy_body P callExternal cx data =
     st_bind (deploy_depth_step P) (\<lambda>_.
     st_bind (reading (vp_readU64 P) data) (\<lambda>(usedGas, d1).
     st_bind (use_gas P usedGas) (\<lambda>_.
     st_bind (reading (vp_readAddress P) d1) (\<lambda>(a, d2).
     st_bind (reading (vp_readBytes P 32) d2) (\<lambda>(salt, calldata).
     st_bind (at_address P cx a salt) (\<lambda>(contractAddress, bytecodeLength).
     if contractAddress = vp_dead P then st_throw DeploymentFailed
     else
       st_bind (internalCall P callExternal cx calldata True False contractAddress) (\<lambda>r.
         buildDeployFromAddressResponse P contractAddress (int bytecodeLength)
           (if free_context cx then 0 else ir_gasUsed r - usedGas) (ir_status r) (ir_result r))))))))"

definition deployContractFromAddressRaw :: "vm_package \<Rightarrow> callee \<Rightarrow> call_context \<Rightarrow> bytes \<Rightarrow> bytes host" where
  "deployContractFromAddressRaw P callExternal cx data s =
     (let usedGas = (if mn_value (ce_contractDeployDepth (hs_eval s)) < int (MAXIMUM_DEPLOYMENT_DEPTH (vp_tx P))
                     then requested_gas P data s else eval_gasUsed s) in
      try_catch (deploy_body P callExternal cx data) (\<lambda>err.
        st_bind (revert_with P err) (\<lambda>_.
        st_bind (st_get (\<lambda>s. (eval_gasUsed s, or_else (ce_revert (hs_eval s)) []))) (\<lambda>(g, r).
          buildDeployFromAddressResponse P (vp_dead P) 0 (g - usedGas) 1 r))) s)"

text \<open>\<open>updateFromAddressJsFunction\<close> keeps its default, which throws: no caller replaces it. What follows it in the
  handler is never reached.\<close>

definition update_body :: "vm_package \<Rightarrow> bytes \<Rightarrow> bytes host" where
  "update_body P data =
     st_bind (on_eval (incrementContractUpdates (vp_tx P))) (\<lambda>_.
     st_bind (reading (vp_readU64 P) data) (\<lambda>(usedGas, d1).
     st_bind (use_gas P usedGas) (\<lambda>_.
     st_bind (reading (vp_readAddress P) d1) (\<lambda>(sourceAddress, calldata).
       st_throw MethodNotImplemented))))"

definition updateContractFromAddressRaw :: "vm_package \<Rightarrow> bytes \<Rightarrow> bytes host" where
  "updateContractFromAddressRaw P data s =
     (let usedGas = (if mn_value (ce_contractUpdateDepth (hs_eval s)) < int (MAXIMUM_UPDATE_DEPTH (vp_tx P))
                     then requested_gas P data s else eval_gasUsed s) in
      try_catch (update_body P data) (\<lambda>err.
        st_bind (revert_with P err) (\<lambda>_.
        st_bind (st_get (\<lambda>s. (eval_gasUsed s, or_else (ce_revert (hs_eval s)) []))) (\<lambda>(g, r).
          buildUpdateFromAddressResponse P 0 (g - usedGas) 1 r))) s)"

text \<open>\<open>getBlockHashForBlockNumber\<close> keeps its default as well.\<close>

definition getBlockHashImport :: "bigint \<Rightarrow> bytes host" where
  "getBlockHashImport blockNumber = st_throw MethodNotImplemented"

fun answer :: "vm_package \<Rightarrow> callee \<Rightarrow> call_context \<Rightarrow> host_request \<Rightarrow> host_response host" where
  "answer P c cx (LoadRequest d) = st_bind (load P cx d) (\<lambda>b. st_return (Answer b))"
| "answer P c cx (StoreRequest d) = st_bind (store P d) (\<lambda>b. st_return (Answer b))"
| "answer P c cx (CallRequest d) = st_bind (call P c cx d) (\<lambda>b. st_return (Answer b))"
| "answer P c cx (DeployRequest d) = st_bind (deployContractFromAddressRaw P c cx d) (\<lambda>b. st_return (Answer b))"
| "answer P c cx (UpdateRequest d) = st_bind (updateContractFromAddressRaw P d) (\<lambda>b. st_return (Answer b))"
| "answer P c cx (LogRequest d) = st_return (Answer [])"
| "answer P c cx (EmitRequest d) = st_bind (onEvent P d) (\<lambda>b. st_return (Answer b))"
| "answer P c cx InputsRequest = st_return (Answer (vp_serializedInputs P))"
| "answer P c cx OutputsRequest = st_return (Answer (vp_serializedOutputs P))"
| "answer P c cx (LoadMLDSARequest d) = st_bind (loadMLDSA P d) (\<lambda>b. st_return (Answer b))"
| "answer P c cx (AccountTypeRequest d) = st_bind (getAccountType P d) (\<lambda>(t, w). st_return (AccountAnswer t w))"
| "answer P c cx (BlockHashRequest n) = st_bind (getBlockHashImport n) (\<lambda>b. st_return (Answer b))"
| "answer P c cx (TLoadRequest d) = st_return (Answer [])"
| "answer P c cx (TStoreRequest d) = st_return (Answer [])"

primrec drive ::
    "(host_request \<Rightarrow> host_response host) \<Rightarrow> rust_program \<Rightarrow> (string + ExitDataResponse option) host" where
  "drive h (Finished outcome used) = st_bind (st_put (\<lambda>s. s\<lparr>hs_usedGas := used\<rparr>)) (\<lambda>_. st_return outcome)"
| "drive h (Host request continue) = (\<lambda>s. case h request s of
      (Inl e, s') \<Rightarrow> if e = FuelExhausted then (Inl e, s') else drive h (continue (Failed e)) s'
    | (Inr r, s') \<Rightarrow> drive h (continue r) s')"

subsection \<open>One evaluation\<close>

definition loadContractFromBytecode ::
    "vm_package \<Rightarrow> call_context \<Rightarrow> ContractInformation \<Rightarrow> host_state \<Rightarrow> rust_instance option" where
  "loadContractFromBytecode P cx c s =
     (let e = hs_eval s; t = ce_gasTracker e in
      if gt_maxGas t - gt_gasUsed t < 0 then None
      else vp_rust P \<lparr>rp_address = cx_contractAddressStr cx, rp_bytecode = drop 1 (ci_bytecode c),
             rp_gasUsed = combinedGas t (ce_externalCall e), rp_gasMax = maxGasVM (vp_gas P) t (ce_externalCall e),
             rp_memoryPagesUsed = hs_memoryPagesUsed s\<rparr>)"

definition setEnvironment ::
    "vm_package \<Rightarrow> call_context \<Rightarrow> ContractInformation \<Rightarrow> rust_instance \<Rightarrow> rust_environment host" where
  "setEnvironment P cx c inst =
     (case ri_usedGas inst of
        None \<Rightarrow> st_throw (RustFailure ''getUsedGas'')
      | Some g \<Rightarrow>
          st_bind (use_gas P g) (\<lambda>_.
            (let env = \<lparr>re_blockHash = cx_blockHash cx, re_blockNumber = cx_blockNumber cx,
                   re_blockMedianTime = cx_blockMedian cx, re_ids = cx_ids cx, re_contractAddress = contractPublicKey c,
                   re_contractDeployer = ci_deployerAddress c, re_caller = cx_msgSender cx, re_origin = cx_txOrigin cx\<rparr> in
             if ri_environmentAccepted inst env then st_return env else st_throw (RustFailure ''setEnvironment''))))"

definition preloadPointers :: "vm_package \<Rightarrow> call_context \<Rightarrow> unit host" where
  "preloadPointers P cx =
     (case cx_preloadStorageList cx of
        None \<Rightarrow> st_return ()
      | Some pointerList \<Rightarrow>
          (let totalPointerPreload = sum_list (map (\<lambda>(a, ps). length ps) pointerList);
               gasCostPreload = COLD_STORAGE_LOAD (vp_gas P) * int totalPointerPreload in
           st_bind (st_get (\<lambda>s. gt_maxGas (ce_gasTracker (hs_eval s)))) (\<lambda>maxGas.
             if maxGas < gasCostPreload then st_throw PreloadExceedsGas
             else
               st_bind (on_vm (VM_getStorageMultiple (vp_env P) pointerList (cx_blockNumber cx))) (\<lambda>pointers.
                 set_eval (\<lambda>e. preloadedStorage (vp_put P) (ve_toPointer (vp_env P)) e
                   (map_option (map (\<lambda>(a, entries). (a, map (\<lambda>(p, v). (p, map_option pm_value v)) entries))) pointers))))))"

definition processResult :: "vm_package \<Rightarrow> ExitDataResponse \<Rightarrow> unit host" where
  "processResult P r =
     (if MAXIMUM_RECEIPT_LENGTH (vp_tx P) < length (ex_data r) then revert_with P (ReceiptTooLong (length (ex_data r)))
      else if ex_status r \<noteq> 0 then set_eval (\<lambda>e. e\<lparr>ce_revert := Some (ex_data r)\<rparr>)
      else set_eval (\<lambda>e. if ce_revert e = None then setResult e (ex_data r) else e))"

definition gas_after_failure :: "vm_package \<Rightarrow> unit host" where
  "gas_after_failure P s =
     (let fatal = use_gas P (paidMaximum (ce_gasTracker (hs_eval s))) in
      case hs_usedGas s of
        None \<Rightarrow> fatal s
      | Some g \<Rightarrow> (case use_gas P g s of (Inl _, s') \<Rightarrow> fatal s' | r \<Rightarrow> r))"

definition onExecutionResult :: "vm_package \<Rightarrow> string + ExitDataResponse option \<Rightarrow> unit host" where
  "onExecutionResult P outcome =
     (case outcome of
        Inr (Some r) \<Rightarrow> st_bind (use_gas P (ex_gasUsed r)) (\<lambda>_. processResult P r)
      | Inr None \<Rightarrow> st_bind (gas_after_failure P) (\<lambda>_. revert_with P NoResultReturned)
      | Inl message \<Rightarrow> st_bind (gas_after_failure P) (\<lambda>_. set_eval (\<lambda>e. set_revert (vp_errorBuffer P) e message)))"

text \<open>The gas of the slots a transaction leaves behind. The current value is read from the contract of the evaluation,
  whatever contract the slot belongs to.\<close>

fun slots_cost ::
    "vm_package \<Rightarrow> call_context \<Rightarrow> bool \<Rightarrow> bigint \<Rightarrow> (bigint \<times> bigint) list \<Rightarrow> bigint \<Rightarrow> bigint host" where
  "slots_cost P cx isSpecialContract gasUsed [] cost = st_return cost"
| "slots_cost P cx isSpecialContract gasUsed ((key, v) # rest) cost =
     st_bind (st_get (\<lambda>s. gt_maxGas (ce_gasTracker (hs_eval s)))) (\<lambda>maxGas.
     st_bind (if \<not> isSpecialContract \<and> maxGas < gasUsed + cost + UPDATED_STORAGE_SLOT_GAS_COST P then st_return None
       else
         st_bind (getStorageState P cx key) (\<lambda>currentValue.
           (let cost' = (case currentValue of
                 None \<Rightarrow> cost + NEW_STORAGE_SLOT_GAS_COST P
               | Some w \<Rightarrow> if w \<noteq> v then cost + UPDATED_STORAGE_SLOT_GAS_COST P else cost) in
            st_return (if \<not> isSpecialContract \<and> maxGas < gasUsed + cost' then None else Some cost')))) (\<lambda>r.
     case r of
       Some cost' \<Rightarrow> slots_cost P cx isSpecialContract gasUsed rest cost'
     | None \<Rightarrow>
         st_bind (st_get (\<lambda>s. paidMaximum (ce_gasTracker (hs_eval s)))) (\<lambda>paid.
         st_bind (use_gas P paid) (\<lambda>_.
         st_bind (st_get (\<lambda>s. paidMaximum (ce_gasTracker (hs_eval s)))) (\<lambda>paid'. st_throw (OutOfGasStore paid'))))))"

fun addresses_cost ::
    "vm_package \<Rightarrow> call_context \<Rightarrow> (address \<times> FastBigIntMap) list \<Rightarrow> bigint \<Rightarrow> bigint \<Rightarrow> (bigint \<times> bigint) host" where
  "addresses_cost P cx [] totalGasCost totalGasSpecial = st_return (totalGasCost, totalGasSpecial)"
| "addresses_cost P cx ((a, states) # rest) totalGasCost totalGasSpecial =
     st_bind (st_get (\<lambda>s. (ce_externalCall (hs_eval s), ce_gasTracker (hs_eval s)))) (\<lambda>(external, t).
       (let isSpecialContract = (\<not> external \<and> (case cx_specialContract cx of
                None \<Rightarrow> False | Some sp \<Rightarrow> freeGas sp \<and> sc_address sp = a));
            gasUsed = (if isSpecialContract then gt_specialGas t + totalGasSpecial else gt_gasUsed t + totalGasCost) in
        st_bind (slots_cost P cx isSpecialContract gasUsed (bm_contents states) 0) (\<lambda>cost.
          if isSpecialContract then addresses_cost P cx rest totalGasCost (totalGasSpecial + cost)
          else addresses_cost P cx rest (totalGasCost + cost) totalGasSpecial)))"

definition calculateGasCostStore :: "vm_package \<Rightarrow> call_context \<Rightarrow> unit host" where
  "calculateGasCostStore P cx s =
     (case ce_modifiedStorage (hs_eval s) of
        None \<Rightarrow> (Inr (), s)
      | Some m \<Rightarrow>
          st_bind (addresses_cost P cx m 0 0) (\<lambda>(totalGasCost, totalGasSpecial).
            on_eval (\<lambda>e. evaluation_setFinalGasUsed e (gt_gasUsed (ce_gasTracker e) + totalGasCost)
              (gt_specialGas (ce_gasTracker e) + totalGasSpecial))) s)"

text \<open>\<open>Promise.safeAll\<close> over the deployments: all of them run, the first error is thrown afterwards.\<close>

fun deploy_all :: "vm_env \<Rightarrow> ContractInformation list \<Rightarrow> VMManager \<Rightarrow> (vm_error + unit) \<times> VMManager" where
  "deploy_all E [] vm = (Inr (), vm)"
| "deploy_all E (c # cs) vm =
     (case deployContractFromInfo E c vm of (r, vm1) \<Rightarrow>
      case deploy_all E cs vm1 of (r', vm2) \<Rightarrow> (case r of Inl e \<Rightarrow> Inl e | Inr _ \<Rightarrow> r', vm2))"

definition terminateEvaluation :: "vm_package \<Rightarrow> call_context \<Rightarrow> unit host" where
  "terminateEvaluation P cx s =
     (if ce_externalCall (hs_eval s) \<or> ce_revert (hs_eval s) \<noteq> None then (Inr (), s)
      else
        st_bind (calculateGasCostStore P cx) (\<lambda>_.
        st_bind (st_get (\<lambda>s. map snd (ce_deployedContracts (hs_eval s)))) (\<lambda>cs. on_vm (deploy_all (vp_env P) cs))) s)"

definition attemptToSetGasUsed :: "vm_package \<Rightarrow> host_state \<Rightarrow> host_state" where
  "attemptToSetGasUsed P s =
     (let t = ce_gasTracker (hs_eval s);
          gasUsed = (case hs_usedGas s of Some g \<Rightarrow> g | None \<Rightarrow> paidMaximum t) in
      if gt_gasUsed t + gt_specialGas t > gasUsed then s else snd (use_gas P gasUsed s))"

definition entry_of :: "ExecutionParameters \<Rightarrow> rust_entry" where
  "entry_of params = (if xp_isDeployment params then EntryOnDeploy else if xp_isUpdate params then EntryOnUpdate else EntryExecute)"

definition evaluate ::
    "vm_package \<Rightarrow> callee \<Rightarrow> call_context \<Rightarrow> ContractInformation \<Rightarrow> ExecutionParameters \<Rightarrow> unit host" where
  "evaluate P callExternal cx c params s =
     (case loadContractFromBytecode P cx c s of
        None \<Rightarrow> (Inl InvalidBytecode, s)
      | Some inst \<Rightarrow>
          st_bind (st_put (\<lambda>s. s\<lparr>hs_usedGas := ri_usedGas inst\<rparr>)) (\<lambda>_.
          st_bind (setEnvironment P cx c inst) (\<lambda>env.
          st_bind (preloadPointers P cx) (\<lambda>_.
          st_bind (drive (answer P callExternal cx) (ri_run inst env (entry_of params) (cx_calldata cx))) (\<lambda>outcome.
          st_bind (onExecutionResult P outcome) (\<lambda>_.
            terminateEvaluation P cx))))) s)"

definition evaluator_run ::
    "vm_package \<Rightarrow> callee \<Rightarrow> call_context \<Rightarrow> ContractInformation \<Rightarrow> ExecutionParameters \<Rightarrow> bigint \<Rightarrow> VMManager
     \<Rightarrow> (call_error + ContractEvaluation) \<times> VMManager" where
  "evaluator_run P callExternal cx c params memoryPagesUsed vm =
     (case ContractEvaluation_new (vp_put P) (ve_fromString (vp_env P)) (vp_fromBase64 P) (vp_tx P) params of
        Inl err \<Rightarrow> (Inl (CallEvaluation err), vm)
      | Inr e \<Rightarrow>
          (case evaluate P callExternal cx c params
                  \<lparr>hs_eval = e, hs_memoryPagesUsed = memoryPagesUsed, hs_usedGas = None, hs_vm = vm\<rparr> of
             (Inr _, s) \<Rightarrow> (Inr (hs_eval s), hs_vm s)
           | (Inl err, s) \<Rightarrow>
               if err = FuelExhausted then (Inl err, hs_vm s)
               else (Inr (set_revert (vp_errorBuffer P) (hs_eval (attemptToSetGasUsed P s)) (vp_message P err)), hs_vm s)))"

subsection \<open>The manager\<close>

text \<open>\<open>setContractInformation\<close> throws without a version byte and some code after it; the caller turns that into
  no evaluator.\<close>

definition evaluator_valid :: "ContractInformation \<Rightarrow> bool" where
  "evaluator_valid c \<longleftrightarrow> 2 \<le> length (ci_bytecode c)"

definition getVMEvaluatorFromParams ::
    "address \<Rightarrow> bigint \<Rightarrow> ContractInformation option \<Rightarrow> VMManager \<Rightarrow> ContractInformation option \<times> VMManager" where
  "getVMEvaluatorFromParams a height contract vm =
     (let (info, vm1) = (case contract of
          Some c \<Rightarrow> (Some c, vm)
        | None \<Rightarrow> (case getContractInformation a (Some height) vm of (Inr r, vm1) \<Rightarrow> (r, vm1) | (Inl _, vm1) \<Rightarrow> (None, vm1)))
      in (case info of Some c \<Rightarrow> if evaluator_valid c then Some c else None | None \<Rightarrow> None, vm1))"

definition executeCallInternal ::
    "vm_package \<Rightarrow> callee \<Rightarrow> call_context \<Rightarrow> ExecutionParameters \<Rightarrow> bigint \<Rightarrow> VMManager
     \<Rightarrow> (call_error + ContractEvaluation) \<times> VMManager" where
  "executeCallInternal P callExternal cx params memoryPagesUsed vm =
     (let deployed = (case xp_deployedContracts params of None \<Rightarrow> None | Some m \<Rightarrow> map_of m (xp_contractAddress params));
          (first, vm1) = (case deployed of
              Some c \<Rightarrow> getVMEvaluatorFromParams (xp_contractAddress params) (cx_blockNumber cx) (Some c) vm
            | None \<Rightarrow> (None, vm));
          (evaluator, vm2) = (case first of
              Some c \<Rightarrow> (Some c, vm1)
            | None \<Rightarrow> getVMEvaluatorFromParams (xp_contractAddress params) (cx_blockNumber cx) None vm1)
      in (case evaluator of
            None \<Rightarrow> (Inl ContractMissing, vm2)
          | Some c \<Rightarrow> evaluator_run P callExternal cx c params memoryPagesUsed vm2))"

primrec executeCall :: "nat \<Rightarrow> vm_package \<Rightarrow> callee" where
  "executeCall 0 P = (\<lambda>cx params pages vm. (Inl FuelExhausted, vm))"
| "executeCall (Suc n) P = executeCallInternal P (executeCall n P)"

text \<open>The number of contracts that can be running at once: every call pushes onto the call stack, which is never popped,
  and every deployment raises the deployment counter.\<close>

definition call_fuel :: "vm_package \<Rightarrow> nat" where
  "call_fuel P = MAXIMUM_CALL_DEPTH (vp_tx P) + MAXIMUM_DEPLOYMENT_DEPTH (vp_tx P) + 1"

text \<open>\<open>calculateMaxGas\<close> of \<open>GasUtils.ts\<close>; dividing by a base price of 0 throws.\<close>

definition calculateMaxGas :: "GAS_config \<Rightarrow> bool \<Rightarrow> bigint \<Rightarrow> bigint \<Rightarrow> bigint \<Rightarrow> call_error + bigint" where
  "calculateMaxGas gas isSimulation gasInSat baseGas maxGas =
     (let g = (if isSimulation then maxGas else convertSatToGas gasInSat maxGas (SAT_TO_GAS_RATIO gas))
      in if baseGas = 0 then Inl DivisionByZero else Inr (bigint_div (toBaseBigInt g) baseGas))"

definition getGasTracker :: "GAS_config \<Rightarrow> bigint \<Rightarrow> bigint \<Rightarrow> SpecialContract option \<Rightarrow> call_error + GasTracker" where
  "getGasTracker gas maxGas usedGas specialSettings =
     (case setGasUsed gas (GasTracker_new gas maxGas specialSettings) usedGas 0 True None of
        Inl e \<Rightarrow> Inl (CallEvaluation (GasError e)) | Inr t \<Rightarrow> Inr t)"

definition first_params ::
    "address \<Rightarrow> GasTracker \<Rightarrow> (address, ContractInformation) js_map option \<Rightarrow> bool \<Rightarrow> bigint
     \<Rightarrow> (string \<times> (string \<times> string) list) list option \<Rightarrow> ExecutionParameters" where
  "first_params a t deployed isDeployment depth accessList =
     \<lparr>xp_contractAddress = a, xp_externalCall = False, xp_isDeployment = isDeployment, xp_isUpdate = False,
      xp_contractDeployDepth = Some \<lparr>mn_value = depth\<rparr>, xp_contractUpdateDepth = Some MutableNumber_new,
      xp_mldsaLoadCounter = Some MutableNumber_new, xp_gasTracker = t, xp_storage = [], xp_preloadStorage = [],
      xp_deployedContracts = deployed, xp_touchedAddresses = None, xp_callStack = None, xp_accessList = accessList\<rparr>"

record InteractionTransaction =
  it_contractAddress :: string
  it_from :: address
  it_txOrigin :: address
  it_msgSender :: "address option"
  it_gasSatFee :: bigint
  it_calldata :: bytes
  it_ids :: "bytes \<times> bytes"
  it_preloadStorageList :: "(address \<times> bytes list) list option"
  it_specialSettings :: "SpecialContract option"

record DeploymentTransaction =
  dt_contractAddress :: string
  dt_address :: address
  dt_blockHeight :: bigint
  dt_bytecode :: "bytes option"
  dt_wasCompressed :: bool
  dt_ids :: "bytes \<times> bytes"
  dt_deployerPubKey :: "bytes option"
  dt_contractSeed :: "bytes option"
  dt_contractSaltHash :: "bytes option"
  dt_from :: address
  dt_gasSatFee :: bigint
  dt_calldata :: bytes
  dt_preloadStorageList :: "(address \<times> bytes list) list option"

record block_context =
  bc_blockHash :: bytes
  bc_blockHeight :: bigint
  bc_blockMedian :: bigint
  bc_baseGas :: bigint

definition processing ::
    "(VMManager \<Rightarrow> (call_error + 'a) \<times> VMManager) \<Rightarrow> VMManager \<Rightarrow> (call_error + 'a) \<times> VMManager" where
  "processing m vm = (case m (vm\<lparr>vm_isProcessing := True\<rparr>) of (r, vm') \<Rightarrow> (r, vm'\<lparr>vm_isProcessing := False\<rparr>))"

definition lift_call :: "(VMManager \<Rightarrow> (vm_error + 'a) \<times> VMManager) \<Rightarrow> VMManager \<Rightarrow> (call_error + 'a) \<times> VMManager" where
  "lift_call m vm = (case m vm of (Inl e, vm') \<Rightarrow> (Inl (CallVM e), vm') | (Inr x, vm') \<Rightarrow> (Inr x, vm'))"

definition executeTransaction ::
    "vm_package \<Rightarrow> block_context \<Rightarrow> InteractionTransaction \<Rightarrow> bool \<Rightarrow> VMManager
     \<Rightarrow> (call_error + ContractEvaluation) \<times> VMManager" where
  "executeTransaction P b tx isSimulation vm =
     (if vm_isProcessing vm then (Inl ConcurrentCall, vm)
      else processing
        (\<lambda>vm. if vm_blockId vm \<noteq> bc_blockHeight b then (Inl WrongHeight, vm)
         else st_bind (lift_call (getContractAddress (vp_env P) (it_contractAddress tx))) (\<lambda>found. case found of
            None \<Rightarrow> st_throw ContractNotKnown
          | Some a \<Rightarrow>
              if it_gasSatFee tx = 0 then st_throw NoFee
              else
                st_bind (st_lift (calculateMaxGas (vp_gas P) isSimulation (it_gasSatFee tx) (bc_baseGas b)
                  (case it_specialSettings tx of Some sp \<Rightarrow> transactionGasLimit sp | None \<Rightarrow> TRANSACTION_MAX_GAS (vp_gas P)))) (\<lambda>maxGas.
                st_bind (st_lift (getGasTracker (vp_gas P) maxGas 0 (it_specialSettings tx))) (\<lambda>t.
                  executeCall (call_fuel P) P
                    \<lparr>cx_contractAddressStr = it_contractAddress tx, cx_calldata = it_calldata tx,
                     cx_msgSender = or_else (it_msgSender tx) (it_from tx), cx_txOrigin = it_txOrigin tx,
                     cx_blockHash = bc_blockHash b, cx_blockNumber = bc_blockHeight b, cx_blockMedian = bc_blockMedian b,
                     cx_ids = it_ids tx, cx_preloadStorageList = it_preloadStorageList tx,
                     cx_specialContract = it_specialSettings tx\<rparr>
                    (first_params a t None False 0 None) 0))) vm) vm)"

definition ContractInformation_fromTransaction ::
    "bigint \<Rightarrow> DeploymentTransaction \<Rightarrow> call_error + ContractInformation" where
  "ContractInformation_fromTransaction height tx =
     (case (dt_bytecode tx, dt_deployerPubKey tx, dt_contractSeed tx, dt_contractSaltHash tx) of
        (Some bytecode, Some deployerPubKey, Some contractSeed, Some contractSaltHash) \<Rightarrow>
          Inr \<lparr>ci_blockHeight = height, ci_contractAddress = dt_contractAddress tx, contractPublicKey = dt_address tx,
            ci_bytecode = bytecode, ci_wasCompressed = dt_wasCompressed tx, ci_deployedTransactionId = fst (dt_ids tx),
            ci_deployedTransactionHash = snd (dt_ids tx), ci_deployerPubKey = deployerPubKey,
            ci_contractSeed = contractSeed, ci_contractSaltHash = contractSaltHash, ci_deployerAddress = dt_from tx\<rparr>
      | _ \<Rightarrow> Inl MissingBytecodeOf)"

definition VM_deployContract ::
    "vm_package \<Rightarrow> block_context \<Rightarrow> DeploymentTransaction \<Rightarrow> VMManager \<Rightarrow> (call_error + ContractEvaluation) \<times> VMManager" where
  "VM_deployContract P b tx vm =
     (if vm_blockId vm \<noteq> bc_blockHeight b then (Inl WrongHeight, vm)
      else case ContractInformation_fromTransaction (bc_blockHeight b) tx of
        Inl e \<Rightarrow> (Inl e, vm)
      | Inr info \<Rightarrow>
          if vm_isProcessing vm then (Inl ConcurrentCall, vm)
          else processing
            (\<lambda>vm. case getVMEvaluatorFromParams (dt_address tx) (dt_blockHeight tx) (Some info) vm of
               (None, vm1) \<Rightarrow> (Inl NoEvaluator, vm1)
             | (Some c, vm1) \<Rightarrow>
                 (if dt_gasSatFee tx = 0 then st_throw NoFee
                  else
                    st_bind (st_lift (calculateMaxGas (vp_gas P) False (dt_gasSatFee tx) (bc_baseGas b)
                      (TRANSACTION_MAX_GAS (vp_gas P)))) (\<lambda>maxGas.
                    st_bind (st_lift (getGasTracker (vp_gas P) maxGas 0 None)) (\<lambda>t.
                      evaluator_run P (executeCall (call_fuel P) P)
                        \<lparr>cx_contractAddressStr = dt_contractAddress tx, cx_calldata = dt_calldata tx,
                         cx_msgSender = dt_from tx, cx_txOrigin = dt_from tx, cx_blockHash = bc_blockHash b,
                         cx_blockNumber = bc_blockHeight b, cx_blockMedian = bc_blockMedian b, cx_ids = dt_ids tx,
                         cx_preloadStorageList = dt_preloadStorageList tx, cx_specialContract = None\<rparr>
                        c (first_params (dt_address tx) t (Some [(contractPublicKey info, info)]) True 1 None) 0))) vm1) vm)"

text \<open>The read-only execution of the API. The header of the height, or the newest one, comes from the database; the newest
  one is kept for two seconds, so the height of a run without one is an argument when it is in that cache.\<close>

record simulation =
  sm_to :: string
  sm_from :: address
  sm_calldata :: bytes
  sm_height :: "bigint option"
  sm_now :: bigint
  sm_cachedLastBlockHeight :: "bigint option"
  sm_accessList :: "(string \<times> (string \<times> string) list) list option"
  sm_preloadList :: "(address \<times> bytes list) list option"

definition VM_execute ::
    "vm_package \<Rightarrow> (address \<Rightarrow> SpecialContract option) \<Rightarrow> (bigint \<Rightarrow> bigint \<times> bytes) \<Rightarrow> bytes \<times> bytes \<Rightarrow> simulation \<Rightarrow> VMManager
     \<Rightarrow> (call_error + EvaluatedResult) \<times> VMManager" where
  "VM_execute P special headerData ids q vm =
     (if vm_isProcessing vm then (Inl ConcurrentCall, vm)
      else if \<not> ve_isExecutor (vp_env P) \<and> sm_accessList q \<noteq> None then (Inl (CallVM AccessListNotAllowed), vm)
      else processing
        (st_bind (lift_call (getContractAddress (vp_env P) (sm_to q))) (\<lambda>found. case found of
            None \<Rightarrow> st_throw ContractNotKnown
          | Some a \<Rightarrow>
              st_bind (st_get (\<lambda>vm. case sm_height q of
                  Some h \<Rightarrow> map_option (\<lambda>d. (h, fst (headerData h), snd (headerData h))) (vm_headers vm h)
                | None \<Rightarrow> map_option (\<lambda>h. (h + 1, sm_now q, replicate 32 0)) (case sm_cachedLastBlockHeight q of
                    Some h \<Rightarrow> Some h | None \<Rightarrow> getLatestBlock (st_headers (vm_storage vm))))) (\<lambda>block.
              case block of
                None \<Rightarrow> st_throw (CallVM InvalidBlockHeight)
              | Some (height, median, hash) \<Rightarrow>
                  st_bind (st_lift (getGasTracker (vp_gas P) (EMULATION_MAX_GAS (vp_gas P)) 0 (special a))) (\<lambda>t.
                  st_bind (executeCall (call_fuel P) P
                    \<lparr>cx_contractAddressStr = ve_p2op (vp_env P) a, cx_calldata = sm_calldata q, cx_msgSender = sm_from q,
                     cx_txOrigin = sm_from q, cx_blockHash = hash, cx_blockNumber = height, cx_blockMedian = median,
                     cx_ids = ids, cx_preloadStorageList = sm_preloadList q, cx_specialContract = special a\<rparr>
                    (first_params a t None False 0 (sm_accessList q)) 0) (\<lambda>e. st_return (getEvaluationResult e)))))) vm)"

subsection \<open>What every host function keeps\<close>

lemma keeps_on_eval:
  "(\<And>e e'. I e \<Longrightarrow> f e = Inr e' \<Longrightarrow> I e') \<Longrightarrow> st_keeps (\<lambda>s. I (hs_eval s)) (on_eval f)"
  by (auto simp: st_keeps_def on_eval_def split: sum.splits)

lemma keeps_set_eval: "(\<And>e. I e \<Longrightarrow> I (f e)) \<Longrightarrow> st_keeps (\<lambda>s. I (hs_eval s)) (set_eval f)"
  by (simp add: set_eval_def st_keeps_put)

lemma keeps_on_vm: "st_keeps (\<lambda>s. I (hs_eval s)) (on_vm f)"
  by (auto simp: st_keeps_def on_vm_def split: prod.splits sum.splits)

lemma keeps_reading [simp]: "st_keeps Q (reading r d)"
  by (simp add: reading_def split: option.splits)

lemma keeps_writing [simp]: "st_keeps Q (writing ps)"
  by (simp add: writing_def)

lemma keeps_try: "st_keeps Q m \<Longrightarrow> (\<And>e. st_keeps Q (h e)) \<Longrightarrow> st_keeps Q (try_catch m h)"
  unfolding st_keeps_def try_catch_def by (auto split: prod.splits sum.splits)

lemma keeps_frame: "(\<And>s. hs_eval (f s) = hs_eval s) \<Longrightarrow> st_keeps (\<lambda>s. I (hs_eval s)) (st_put f)"
  by (simp add: st_keeps_put)

lemma keeps_drive: "(\<And>r. st_keeps (\<lambda>s. I (hs_eval s)) (h r)) \<Longrightarrow> st_keeps (\<lambda>s. I (hs_eval s)) (drive h p)"
proof (induction p)
  case (Finished outcome used)
  show ?case by (simp add: st_keeps_bind keeps_frame)
next
  case (Host request continue)
  show ?case
  proof (rule st_keepsI)
    fix s :: host_state assume s: "I (hs_eval s)"
    obtain r s1 where h: "h request s = (r, s1)" by fastforce
    then have "I (hs_eval s1)" using st_keepsD [OF Host.prems [of request] s h] by simp
    then have "I (hs_eval (snd (drive h (continue x) s1)))" for x
      using st_keeps_snd [where P = "\<lambda>s. I (hs_eval s)", OF Host.IH [OF _ Host.prems]] by blast
    then show "I (hs_eval (snd (drive h (Host request continue) s)))" using h \<open>I (hs_eval s1)\<close>
      by (auto split: sum.splits)
  qed
qed

lemma deployAt_result:
  assumes "deployContractAtAddress E False n ids a salt e vm = (Inr (r, e'), vm')"
  shows "e' = e \<or> (\<exists>c. addContractInformation e c = Inr e')"
proof -
  obtain ri vm1 where g: "getContractInformation a (Some n) vm = (ri, vm1)" by fastforce
  show ?thesis
  proof (cases "\<exists>i. ri = Inr (Some i)")
    case False
    then show ?thesis using assms g
      by (cases ri) (auto simp: deployContractAtAddress_def st_bind_def st_throw_def split: option.splits)
  next
    case True
    then obtain i where i: "ri = Inr (Some i)" by blast
    let ?a = "generateAddress E salt (ce_contractAddress e) (drop 1 (ci_bytecode i))"
    show ?thesis
    proof (cases "getContract ?a (Some (n - 1)) (st_contracts (vm_storage vm1))")
      case None
      then show ?thesis using assms g i
        by (auto simp: deployContractAtAddress_def Let_def st_bind_def st_get_def st_throw_def st_return_def st_lift_def lift_vm_def
            split: if_splits sum.splits)
    next
      case (Some c)
      then show ?thesis using assms g i
        by (auto simp: deployContractAtAddress_def Let_def st_bind_def st_get_def st_throw_def st_return_def split: if_splits)
    qed
  qed
qed

text \<open>
  A predicate on evaluations that the operations a running contract can cause all keep, the shared objects of a
  callee included.
\<close>

locale evaluation_invariant =
  fixes P :: vm_package and callExternal :: callee and I :: "ContractEvaluation \<Rightarrow> bool"
  assumes I_gas: "I e \<Longrightarrow> evaluation_setGasUsed (vp_gas P) e g 0 = Inr e' \<Longrightarrow> I e'"
    and I_touch: "I e \<Longrightarrow> I (touchAddress e a b)"
    and I_mldsa: "I e \<Longrightarrow> I (incrementMLDSALoadCounter e)"
    and I_store: "I e \<Longrightarrow> I (setStorage (vp_put P) e p v)"
    and I_load: "I e \<Longrightarrow> addToStorage (vp_put P) e p v = Inr e' \<Longrightarrow> I e'"
    and I_preload: "I e \<Longrightarrow> I (preloadedStorage (vp_put P) tp e st)"
    and I_emit: "I e \<Longrightarrow> emitEvent (vp_tx P) e ev = Inr e' \<Longrightarrow> I e'"
    and I_result: "I e \<Longrightarrow> ce_revert e = None \<Longrightarrow> I (setResult e r)"
    and I_revert: "I e \<Longrightarrow> I (e\<lparr>ce_revert := Some r\<rparr>)"
    and I_deploy_depth: "I e \<Longrightarrow> incrementContractDeployDepth (vp_tx P) e = Inr e' \<Longrightarrow> I e'"
    and I_update_depth: "I e \<Longrightarrow> incrementContractUpdates (vp_tx P) e = Inr e' \<Longrightarrow> I e'"
    and I_deployed: "I e \<Longrightarrow> addContractInformation e c = Inr e' \<Longrightarrow> I e'"
    and I_callee: "I e \<Longrightarrow> callExternal cx (external_params e d u a) pages vm = (Inr response, vm') \<Longrightarrow> I (share e response)"
    and I_merge: "I e \<Longrightarrow> callExternal cx (external_params e d u a) pages vm = (Inr response, vm') \<Longrightarrow>
        merge (vp_gas P) (vp_tx P) (share e response) response = Inr e' \<Longrightarrow> I e'"
begin

lemma use_gas_keeps: "st_keeps (\<lambda>s. I (hs_eval s)) (use_gas P g)"
  unfolding use_gas_def by (rule keeps_on_eval) (rule I_gas)

lemma revert_keeps: "st_keeps (\<lambda>s. I (hs_eval s)) (revert_with P e)"
  unfolding revert_with_def by (rule keeps_set_eval) (simp add: set_revert_def Let_def I_revert)

lemma getStorageState_keeps: "st_keeps (\<lambda>s. I (hs_eval s)) (getStorageState P cx p)"
  unfolding getStorageState_def by (auto intro!: st_keeps_intros keeps_on_vm split: option.splits)

lemma load_keeps: "st_keeps (\<lambda>s. I (hs_eval s)) (load P cx d)"
  unfolding load_def Let_def
  by (auto intro!: st_keeps_bind getStorageState_keeps keeps_on_eval split: prod.splits option.splits) (rule I_load)

lemma store_keeps: "st_keeps (\<lambda>s. I (hs_eval s)) (store P d)"
  unfolding store_def by (auto intro!: st_keeps_bind keeps_set_eval I_store split: prod.splits)

lemma event_keeps: "st_keeps (\<lambda>s. I (hs_eval s)) (onEvent P d)"
  unfolding onEvent_def by (auto intro!: st_keeps_bind keeps_on_eval split: prod.splits) (rule I_emit)

lemma loadMLDSA_keeps: "st_keeps (\<lambda>s. I (hs_eval s)) (loadMLDSA P d)"
  unfolding loadMLDSA_def
  by (auto intro!: st_keeps_bind keeps_set_eval I_mldsa keeps_on_vm split: prod.splits option.splits)

lemma accountType_keeps: "st_keeps (\<lambda>s. I (hs_eval s)) (getAccountType P d)"
  unfolding getAccountType_def
  by (auto intro!: st_keeps_bind keeps_set_eval I_touch keeps_on_vm split: prod.splits option.splits)

lemma internalCall_keeps: "st_keeps (\<lambda>s. I (hs_eval s)) (internalCall P callExternal cx calldata d u a)"
proof (rule st_keepsI)
  fix s :: host_state assume s: "I (hs_eval s)"
  obtain r vm where c: "callExternal (external_context P cx (hs_eval s) calldata a) (external_params (hs_eval s) d u a)
      (hs_memoryPagesUsed s) (hs_vm s) = (r, vm)" by fastforce
  show "I (hs_eval (snd (internalCall P callExternal cx calldata d u a s)))"
  proof (cases r)
    case (Inl e)
    then show ?thesis using s c by (simp add: internalCall_def Let_def)
  next
    case (Inr response)
    note c' = c [unfolded Inr]
    show ?thesis using c' I_callee [OF s c'] I_merge [OF s c']
      by (cases "merge (vp_gas P) (vp_tx P) (share (hs_eval s) response) response")
        (simp_all add: internalCall_def Let_def st_bind_def on_eval_def st_return_def)
  qed
qed

lemma call_keeps: "st_keeps (\<lambda>s. I (hs_eval s)) (call P callExternal cx d)"
proof -
  have "st_keeps (\<lambda>s. I (hs_eval s)) (call_body P callExternal cx d)"
    unfolding call_body_def buildCallResponse_def
    by (auto intro!: st_keeps_bind use_gas_keeps keeps_frame internalCall_keeps split: prod.splits)
  then have "st_keeps (\<lambda>s. I (hs_eval s)) (try_catch (call_body P callExternal cx d) (\<lambda>err. st_bind (revert_with P err) (\<lambda>_.
      st_bind (st_get eval_gasUsed) (\<lambda>x. buildCallResponse P False (x - g) 1 []))))" for g
    by (auto intro!: keeps_try st_keeps_bind revert_keeps simp: buildCallResponse_def)
  then show ?thesis by (simp add: call_def st_keeps_def Let_def)
qed

lemma at_address_keeps: "st_keeps (\<lambda>s. I (hs_eval s)) (at_address P cx a salt)"
proof (rule st_keepsI)
  fix s :: host_state assume s: "I (hs_eval s)"
  have "I e" if "deployContractAtAddress (vp_env P) False n ids a salt (hs_eval s) vm = (Inr (r, e), vm')" for n ids vm r e vm'
    using deployAt_result [OF that] s I_deployed by blast
  then show "I (hs_eval (snd (at_address P cx a salt s)))" using s
    by (auto simp: at_address_def split: prod.splits sum.splits)
qed

lemma deploy_keeps: "st_keeps (\<lambda>s. I (hs_eval s)) (deployContractFromAddressRaw P callExternal cx d)"
proof -
  have "st_keeps (\<lambda>s. I (hs_eval s)) (deploy_depth_step P)"
    unfolding deploy_depth_step_def by (rule keeps_on_eval) (rule I_deploy_depth)
  then have "st_keeps (\<lambda>s. I (hs_eval s)) (deploy_body P callExternal cx d)"
    unfolding deploy_body_def buildDeployFromAddressResponse_def
    by (auto intro!: st_keeps_bind use_gas_keeps at_address_keeps internalCall_keeps split: prod.splits)
  then have "st_keeps (\<lambda>s. I (hs_eval s)) (try_catch (deploy_body P callExternal cx d) (\<lambda>err. st_bind (revert_with P err) (\<lambda>_.
      st_bind (st_get (\<lambda>s. (eval_gasUsed s, or_else (ce_revert (hs_eval s)) []))) (\<lambda>(x, r).
        buildDeployFromAddressResponse P (vp_dead P) 0 (x - g) 1 r))))" for g
    by (auto intro!: keeps_try st_keeps_bind revert_keeps simp: buildDeployFromAddressResponse_def split: prod.splits)
  then show ?thesis by (simp add: deployContractFromAddressRaw_def st_keeps_def Let_def)
qed

lemma update_keeps: "st_keeps (\<lambda>s. I (hs_eval s)) (updateContractFromAddressRaw P d)"
proof -
  have "st_keeps (\<lambda>s. I (hs_eval s)) (on_eval (incrementContractUpdates (vp_tx P)))"
    by (rule keeps_on_eval) (rule I_update_depth)
  then have "st_keeps (\<lambda>s. I (hs_eval s)) (update_body P d)"
    unfolding update_body_def by (auto intro!: st_keeps_bind use_gas_keeps split: prod.splits)
  then have "st_keeps (\<lambda>s. I (hs_eval s)) (try_catch (update_body P d) (\<lambda>err. st_bind (revert_with P err) (\<lambda>_.
      st_bind (st_get (\<lambda>s. (eval_gasUsed s, or_else (ce_revert (hs_eval s)) []))) (\<lambda>(x, r).
        buildUpdateFromAddressResponse P 0 (x - g) 1 r))))" for g
    by (auto intro!: keeps_try st_keeps_bind revert_keeps simp: buildUpdateFromAddressResponse_def split: prod.splits)
  then show ?thesis by (simp add: updateContractFromAddressRaw_def st_keeps_def Let_def)
qed

lemmas handler_keeps = load_keeps store_keeps call_keeps deploy_keeps update_keeps event_keeps loadMLDSA_keeps accountType_keeps

lemma answer_keeps: "st_keeps (\<lambda>s. I (hs_eval s)) (answer P callExternal cx r)"
  by (cases r) (auto intro!: st_keeps_bind handler_keeps simp: getBlockHashImport_def split: prod.splits)

lemma drive_keeps: "st_keeps (\<lambda>s. I (hs_eval s)) (drive (answer P callExternal cx) p)"
  by (rule keeps_drive) (rule answer_keeps)

lemma environment_keeps: "st_keeps (\<lambda>s. I (hs_eval s)) (setEnvironment P cx c inst)"
  unfolding setEnvironment_def Let_def by (auto intro!: st_keeps_bind use_gas_keeps split: option.splits)

lemma preload_keeps: "st_keeps (\<lambda>s. I (hs_eval s)) (preloadPointers P cx)"
  unfolding preloadPointers_def Let_def
  by (auto intro!: st_keeps_bind keeps_on_vm keeps_set_eval I_preload split: option.splits)

lemma result_keeps: "st_keeps (\<lambda>s. I (hs_eval s)) (onExecutionResult P outcome)"
proof -
  have gas: "I (hs_eval (snd (use_gas P g s)))" if "I (hs_eval s)" for g s
    using st_keeps_snd [where P = "\<lambda>s. I (hs_eval s)", OF use_gas_keeps that] .
  have "st_keeps (\<lambda>s. I (hs_eval s)) (gas_after_failure P)"
  proof (rule st_keepsI)
    fix s :: host_state assume s: "I (hs_eval s)"
    have "I (hs_eval s1)" if "use_gas P g s = (r, s1)" for g r s1 using gas [OF s, of g] that by simp
    then show "I (hs_eval (snd (gas_after_failure P s)))" using gas s
      by (auto simp: gas_after_failure_def Let_def split: option.splits prod.splits sum.splits)
  qed
  moreover have "st_keeps (\<lambda>s. I (hs_eval s)) (processResult P r)" for r
    unfolding processResult_def by (auto intro!: revert_keeps keeps_set_eval I_revert I_result)
  ultimately show ?thesis
    unfolding onExecutionResult_def
    by (auto intro!: st_keeps_bind use_gas_keeps revert_keeps keeps_set_eval simp: set_revert_def Let_def I_revert
        split: sum.splits option.splits)
qed

lemma slots_cost_keeps: "st_keeps (\<lambda>s. I (hs_eval s)) (slots_cost P cx sp g kvs cost)"
proof (induction kvs arbitrary: cost)
  case (Cons kv kvs)
  obtain key v where kv: "kv = (key, v)" by (cases kv)
  show ?case unfolding kv slots_cost.simps Let_def
    by (auto intro!: st_keeps_bind getStorageState_keeps use_gas_keeps Cons.IH split: option.splits)
qed simp

lemma addresses_cost_keeps: "st_keeps (\<lambda>s. I (hs_eval s)) (addresses_cost P cx m tg ts)"
proof (induction m arbitrary: tg ts)
  case (Cons x m)
  obtain a states where x: "x = (a, states)" by (cases x)
  show ?case unfolding x addresses_cost.simps Let_def
    by (auto intro!: st_keeps_bind slots_cost_keeps Cons.IH split: prod.splits)
qed simp

lemma terminate_keeps:
  assumes cost: "st_keeps (\<lambda>s. I (hs_eval s)) (calculateGasCostStore P cx)"
  shows "st_keeps (\<lambda>s. I (hs_eval s)) (terminateEvaluation P cx)"
proof -
  have "st_keeps (\<lambda>s. I (hs_eval s)) (st_bind (calculateGasCostStore P cx) (\<lambda>_.
      st_bind (st_get (\<lambda>s. map snd (ce_deployedContracts (hs_eval s)))) (\<lambda>cs. on_vm (deploy_all (vp_env P) cs))))"
    by (intro st_keeps_bind cost keeps_on_vm) simp
  then show ?thesis by (simp add: st_keeps_def terminateEvaluation_def)
qed

lemma evaluate_keeps:
  assumes "st_keeps (\<lambda>s. I (hs_eval s)) (terminateEvaluation P cx)"
  shows "st_keeps (\<lambda>s. I (hs_eval s)) (evaluate P callExternal cx c params)"
proof -
  have "st_keeps (\<lambda>s. I (hs_eval s)) (st_bind (st_put (\<lambda>s. s\<lparr>hs_usedGas := ri_usedGas inst\<rparr>)) (\<lambda>_.
          st_bind (setEnvironment P cx c inst) (\<lambda>env.
          st_bind (preloadPointers P cx) (\<lambda>_.
          st_bind (drive (answer P callExternal cx) (ri_run inst env (entry_of params) (cx_calldata cx))) (\<lambda>outcome.
          st_bind (onExecutionResult P outcome) (\<lambda>_. terminateEvaluation P cx))))))" for inst
    by (intro st_keeps_bind keeps_frame environment_keeps preload_keeps drive_keeps result_keeps assms) simp
  then show ?thesis by (simp add: st_keeps_def evaluate_def split: option.splits)
qed

lemma run_keeps:
  assumes last: "st_keeps (\<lambda>s. I (hs_eval s)) (terminateEvaluation P cx)"
    and "ContractEvaluation_new (vp_put P) (ve_fromString (vp_env P)) (vp_fromBase64 P) (vp_tx P) params = Inr e" "I e"
    and "evaluator_run P callExternal cx c params pages vm = (Inr e', vm')"
  shows "I e'"
proof -
  let ?s = "\<lparr>hs_eval = e, hs_memoryPagesUsed = pages, hs_usedGas = None, hs_vm = vm\<rparr>"
  obtain r s where run: "evaluate P callExternal cx c params ?s = (r, s)" by fastforce
  have s: "I (hs_eval s)"
    using st_keepsD [OF evaluate_keeps [OF last] _ run] assms(3) by simp
  have "I (hs_eval (attemptToSetGasUsed P s))"
    using s st_keeps_snd [where P = "\<lambda>s. I (hs_eval s)", OF use_gas_keeps s] by (simp add: attemptToSetGasUsed_def Let_def)
  then show ?thesis using assms(2,4) run s
    by (cases r) (auto simp: evaluator_run_def set_revert_def Let_def I_revert split: if_splits)
qed

end

subsection \<open>A running evaluation only grows\<close>

text \<open>The call stack and the deployment counter never shrink, and a revert is never taken back.\<close>

definition stack_size :: "ContractEvaluation \<Rightarrow> nat" where
  "stack_size e = AddressStack_length (ce_callStack e)"

definition extends :: "ContractEvaluation \<Rightarrow> ContractEvaluation \<Rightarrow> bool" where
  "extends e0 e \<longleftrightarrow> stack_size e0 \<le> stack_size e \<and> mn_value (ce_contractDeployDepth e0) \<le> mn_value (ce_contractDeployDepth e)
     \<and> (ce_revert e0 \<noteq> None \<longrightarrow> ce_revert e \<noteq> None)
     \<and> ce_contractAddress e = ce_contractAddress e0 \<and> ce_externalCall e = ce_externalCall e0"

definition params_stack :: "ExecutionParameters \<Rightarrow> nat" where
  "params_stack params = AddressStack_length (or_else (xp_callStack params) \<lparr>as_items = []\<rparr>)"

definition params_depth :: "ExecutionParameters \<Rightarrow> int" where
  "params_depth params = mn_value (or_else (xp_contractDeployDepth params) MutableNumber_new)"

definition grows :: "callee \<Rightarrow> bool" where
  "grows c \<longleftrightarrow> (\<forall>cx params pages vm e vm'. c cx params pages vm = (Inr e, vm') \<longrightarrow>
     params_stack params \<le> stack_size e \<and> params_depth params \<le> mn_value (ce_contractDeployDepth e))"

lemma growsD:
  "grows c \<Longrightarrow> c cx params pages vm = (Inr e, vm') \<Longrightarrow>
     params_stack params \<le> stack_size e \<and> params_depth params \<le> mn_value (ce_contractDeployDepth e)"
  unfolding grows_def by blast

lemma extends_refl [simp]: "extends e e"
  by (simp add: extends_def)

lemma mergeEvents_only:
  assumes "mergeEvents cfg e evs = Inr e'"
  shows "\<exists>x n. e' = e\<lparr>ce_totalEventSize := n, ce_events := x\<rparr>"
proof -
  let ?Q = "\<lambda>e'. \<exists>x n. e' = e\<lparr>ce_totalEventSize := n, ce_events := x\<rparr>"
  have push: "\<exists>n. fst st' = (fst st)\<lparr>ce_totalEventSize := n\<rparr>" if "res_fold (push_event cfg) vs st = Inr st'" for vs st st'
    using that
  proof (induction vs arbitrary: st)
    case Nil
    then show ?case by (auto intro: exI [of _ "ce_totalEventSize (fst st)"])
  next
    case (Cons v vs)
    from Cons.prems obtain st1 where st1: "push_event cfg v st = Inr st1" "res_fold (push_event cfg) vs st1 = Inr st'" by auto
    have "\<exists>n. fst st1 = (fst st)\<lparr>ce_totalEventSize := n\<rparr>"
      using st1(1) by (auto simp: push_event_def enforceEventLimits_def setTotalEventSize_def Let_def split: prod.splits if_splits)
    with Cons.IH [OF st1(2)] show ?case by auto
  qed
  have "?Q s'" if "?Q s" "mergeEvents_entry cfg kv s = Inr s'" for kv s s'
    using that by (auto simp: mergeEvents_entry_def Let_def dest!: push) blast
  moreover have "?Q e" by (intro exI [of _ "ce_events e"] exI [of _ "ce_totalEventSize e"]) simp
  ultimately show ?thesis
    using res_fold_invariant [of evs ?Q "mergeEvents_entry cfg" e e'] assms unfolding mergeEvents_def by blast
qed

lemma merge_keeps:
  assumes "merge gas cfg e x = Inr e'"
  shows "ce_contractAddress e' = ce_contractAddress e \<and> ce_externalCall e' = ce_externalCall e
    \<and> (ce_revert e \<noteq> None \<or> ce_revert x \<noteq> None \<longleftrightarrow> ce_revert e' \<noteq> None)
    \<and> (ce_callStack e' = ce_callStack x \<or> ce_callStack e' = ce_callStack e)
    \<and> (ce_contractDeployDepth e' = ce_contractDeployDepth x \<or> ce_contractDeployDepth e' = ce_contractDeployDepth e)"
  using assms by (auto simp: merge_def Let_def mergeStorage_def split: if_splits sum.splits option.splits dest!: mergeEvents_only)

lemma extends_instance:
  assumes "grows c"
  shows "evaluation_invariant P c (extends e0)"
proof
  show "extends e0 e \<Longrightarrow> evaluation_setGasUsed (vp_gas P) e g 0 = Inr e' \<Longrightarrow> extends e0 e'" for e g e'
    by (auto simp: extends_def stack_size_def evaluation_setGasUsed_def split: sum.splits)
  show "extends e0 e \<Longrightarrow> addToStorage (vp_put P) e p v = Inr e' \<Longrightarrow> extends e0 e'" for e p v e'
    by (auto simp: extends_def stack_size_def addToStorage_def Let_def split: if_splits)
  show "extends e0 e \<Longrightarrow> emitEvent (vp_tx P) e ev = Inr e' \<Longrightarrow> extends e0 e'" for e ev e'
    by (auto simp: extends_def stack_size_def emitEvent_def enforceEventLimits_def setTotalEventSize_def Let_def split: if_splits)
  show "extends e0 e \<Longrightarrow> incrementContractDeployDepth (vp_tx P) e = Inr e' \<Longrightarrow> extends e0 e'" for e e'
    by (auto simp: extends_def stack_size_def incrementContractDeployDepth_def MutableNumber_increment_def split: if_splits)
  show "extends e0 e \<Longrightarrow> incrementContractUpdates (vp_tx P) e = Inr e' \<Longrightarrow> extends e0 e'" for e e'
    by (auto simp: extends_def stack_size_def incrementContractUpdates_def split: if_splits)
  show "extends e0 e \<Longrightarrow> addContractInformation e ci = Inr e' \<Longrightarrow> extends e0 e'" for e ci e'
    by (auto simp: extends_def stack_size_def addContractInformation_def split: if_splits)
  fix e cx d u a pages vm response vm'
  assume e: "extends e0 e" and call: "c cx (external_params e d u a) pages vm = (Inr response, vm')"
  have g: "stack_size e \<le> stack_size response" "mn_value (ce_contractDeployDepth e) \<le> mn_value (ce_contractDeployDepth response)"
    using growsD [OF assms call] by (simp_all add: external_params_def params_stack_def params_depth_def stack_size_def)
  then show sh: "extends e0 (share e response)" using e by (auto simp: extends_def share_def stack_size_def)
  fix e' assume "merge (vp_gas P) (vp_tx P) (share e response) response = Inr e'"
  from merge_keeps [OF this] show "extends e0 e'" using e g by (auto simp: extends_def share_def stack_size_def)
qed (auto simp: extends_def stack_size_def touchAddress_def incrementMLDSALoadCounter_def setStorage_def preloadedStorage_def
      setResult_def mergeStorage_def Let_def split: option.splits)

lemma extends_cost:
  assumes "evaluation_invariant P c (extends e0)"
  shows "st_keeps (\<lambda>s. extends e0 (hs_eval s)) (calculateGasCostStore P cx)"
proof -
  have "extends e0 e'" if "extends e0 e" "evaluation_setFinalGasUsed e g sg = Inr e'" for e g sg e'
    using that by (auto simp: evaluation_setFinalGasUsed_def extends_def stack_size_def split: sum.splits)
  then have "st_keeps (\<lambda>s. extends e0 (hs_eval s)) (st_bind (addresses_cost P cx m 0 0) (\<lambda>(tg, ts).
      on_eval (\<lambda>e. evaluation_setFinalGasUsed e (gt_gasUsed (ce_gasTracker e) + tg) (gt_specialGas (ce_gasTracker e) + ts))))" for m
    by (auto intro!: st_keeps_bind evaluation_invariant.addresses_cost_keeps [OF assms] keeps_on_eval split: prod.splits)
  then show ?thesis by (simp add: st_keeps_def calculateGasCostStore_def split: option.splits)
qed

lemma new_grows:
  assumes "ContractEvaluation_new put fs fb cfg params = Inr e"
  shows "stack_size e = Suc (params_stack params) \<and> params_depth params \<le> mn_value (ce_contractDeployDepth e)
    \<and> ce_revert e = None \<and> ce_contractAddress e = xp_contractAddress params \<and> ce_externalCall e = xp_externalCall params
    \<and> ce_gasTracker e = xp_gasTracker params"
  using assms
proof (rule new_steps)
  fix e1 e2 st
  assume "(if xp_isDeployment params then incrementContractDeployDepth cfg (evaluation_of_params params)
      else Inr (evaluation_of_params params)) = Inr e1"
    and "(if ce_isUpdate e1 then incrementContractUpdates cfg e1 else Inr e1) = Inr e2"
    and "e = (touchAddress (e2\<lparr>ce_callStack := \<lparr>as_items = as_items (ce_callStack e2) @ [ce_contractAddress e2]\<rparr>\<rparr>)
      (ce_contractAddress e2) True)\<lparr>ce_storage := st\<rparr>"
  then show ?thesis
    by (auto simp: stack_size_def params_stack_def params_depth_def AddressStack_length_def touchAddress_def
        incrementContractDeployDepth_def incrementContractUpdates_def MutableNumber_increment_def evaluation_of_params_def
        split: if_splits)
qed

lemma run_extends:
  assumes "grows c" "ContractEvaluation_new (vp_put P) (ve_fromString (vp_env P)) (vp_fromBase64 P) (vp_tx P) params = Inr e"
    and "evaluator_run P c cx ci params pages vm = (Inr e', vm')"
  shows "extends e e'"
proof -
  note inst = extends_instance [OF assms(1), of P e]
  from evaluation_invariant.run_keeps [OF inst evaluation_invariant.terminate_keeps [OF inst extends_cost [OF inst]] assms(2) extends_refl assms(3)]
  show ?thesis .
qed

lemma executeCallInternal_cases:
  assumes "executeCallInternal P c cx params pages vm = (r, vm')"
  shows "r = Inl ContractMissing \<or> (\<exists>ci vm1. evaluator_run P c cx ci params pages vm1 = (r, vm'))"
  using assms by (auto simp: executeCallInternal_def Let_def split: prod.splits option.splits)

lemma executeCall_grows: "grows (executeCall n P)"
proof (induction n)
  case 0
  then show ?case by (simp add: grows_def)
next
  case (Suc n)
  have "params_stack params \<le> stack_size e' \<and> params_depth params \<le> mn_value (ce_contractDeployDepth e')"
    if call: "executeCall (Suc n) P cx params pages vm = (Inr e', vm')" for cx params pages vm e' vm'
  proof -
    obtain ci vm1 where run: "evaluator_run P (executeCall n P) cx ci params pages vm1 = (Inr e', vm')"
      using executeCallInternal_cases [of P "executeCall n P" cx params pages vm "Inr e'" vm'] call by auto
    then obtain e where new: "ContractEvaluation_new (vp_put P) (ve_fromString (vp_env P)) (vp_fromBase64 P) (vp_tx P) params = Inr e"
      by (auto simp: evaluator_run_def split: sum.splits)
    from run_extends [OF Suc.IH new run] new_grows [OF new] show ?thesis by (simp add: extends_def)
  qed
  then show ?case unfolding grows_def by blast
qed

interpretation calls: evaluation_invariant P "executeCall n P" "extends e0" for n P e0
  by (rule extends_instance) (rule executeCall_grows)

subsection \<open>Calls end\<close>

definition eval_room :: "vm_package \<Rightarrow> ContractEvaluation \<Rightarrow> nat" where
  "eval_room P e = (MAXIMUM_CALL_DEPTH (vp_tx P) - stack_size e)
     + nat (int (MAXIMUM_DEPLOYMENT_DEPTH (vp_tx P)) - mn_value (ce_contractDeployDepth e))"

definition params_room :: "vm_package \<Rightarrow> ExecutionParameters \<Rightarrow> nat" where
  "params_room P params = (MAXIMUM_CALL_DEPTH (vp_tx P) - params_stack params)
     + nat (int (MAXIMUM_DEPLOYMENT_DEPTH (vp_tx P)) - params_depth params)"

definition ends_below :: "vm_package \<Rightarrow> nat \<Rightarrow> callee \<Rightarrow> bool" where
  "ends_below P n c \<longleftrightarrow> (\<forall>cx params pages vm. params_room P params < n \<longrightarrow> fst (c cx params pages vm) \<noteq> Inl FuelExhausted)"

text \<open>A host function that does not run out of fuel in the states of \<open>Q\<close>.\<close>

definition st_ends :: "(host_state \<Rightarrow> bool) \<Rightarrow> 'a host \<Rightarrow> bool" where
  "st_ends Q m \<longleftrightarrow> (\<forall>s. Q s \<longrightarrow> fst (m s) \<noteq> Inl FuelExhausted)"

lemma ends_bind: "st_ends Q m \<Longrightarrow> st_keeps Q m \<Longrightarrow> (\<And>x. st_ends Q (f x)) \<Longrightarrow> st_ends Q (st_bind m f)"
  unfolding st_ends_def st_keeps_def st_bind_def by (force split: prod.splits sum.splits)

lemma ends_basic [simp]:
  "st_ends Q (st_return x)" "e \<noteq> FuelExhausted \<Longrightarrow> st_ends Q (st_throw e)" "st_ends Q (st_get g)" "st_ends Q (st_put h)"
  "st_ends Q (on_eval f)" "st_ends Q (set_eval k)" "st_ends Q (on_vm w)" "st_ends Q (reading r d)" "st_ends Q (writing ps)"
  by (auto simp: st_ends_def st_simps on_eval_def set_eval_def on_vm_def reading_def writing_def
      split: sum.splits prod.splits option.splits)

lemma ends_try: "st_ends Q m \<Longrightarrow> st_keeps Q m \<Longrightarrow> (\<And>e. st_ends Q (h e)) \<Longrightarrow> st_ends Q (try_catch m h)"
  unfolding st_ends_def st_keeps_def try_catch_def by (force split: prod.splits sum.splits)

lemma ends_weaken: "st_ends Q m \<Longrightarrow> (\<And>s. R s \<Longrightarrow> Q s) \<Longrightarrow> st_ends R m"
  by (simp add: st_ends_def)

lemma ends_guard:
  "st_ends (\<lambda>s. Q s \<and> \<not> f s) m \<Longrightarrow> e \<noteq> FuelExhausted \<Longrightarrow> st_ends Q (st_bind (st_get f) (\<lambda>b. if b then st_throw e else m))"
  by (simp add: st_ends_def st_bind_def st_simps)

lemma ends_seq: "(\<And>s s'. Q s \<Longrightarrow> m s = (Inr (), s') \<Longrightarrow> R s') \<Longrightarrow> st_ends Q m \<Longrightarrow> (\<And>x. st_ends R (f x)) \<Longrightarrow> st_ends Q (st_bind m f)"
  unfolding st_ends_def st_bind_def by (force split: prod.splits sum.splits)

lemma ends_then: "st_ends Q m \<Longrightarrow> (\<And>x. st_ends (\<lambda>_. True) (f x)) \<Longrightarrow> st_ends Q (st_bind m f)"
  unfolding st_ends_def st_bind_def by (force split: prod.splits sum.splits)

lemma ends_drive:
  assumes "\<And>r. st_ends Q (h r)" "\<And>r. st_keeps Q (h r)"
  shows "st_ends Q (drive h p)"
proof (induction p)
  case (Finished outcome used)
  show ?case by (simp add: st_ends_def st_bind_def st_simps)
next
  case (Host request continue)
  show ?case unfolding st_ends_def
  proof (intro allI impI)
    fix s assume s: "Q s"
    obtain r s1 where h: "h request s = (r, s1)" by fastforce
    have "Q s1" using st_keepsD [OF assms(2) s h] .
    moreover have "r \<noteq> Inl FuelExhausted" using assms(1) [of request] s h by (auto simp: st_ends_def)
    ultimately show "fst (drive h (Host request continue) s) \<noteq> Inl FuelExhausted"
      using h Host.IH unfolding st_ends_def by (auto split: sum.splits)
  qed
qed

lemma keeps_True [simp]: "st_keeps (\<lambda>_. True) m"
  by (simp add: st_keeps_def)

lemma use_gas_ends [simp]: "st_ends R (use_gas P g)"
  by (simp add: use_gas_def)

lemma revert_ends [simp]: "st_ends R (revert_with P e)"
  by (simp add: revert_with_def)

lemma getStorageState_ends [simp]: "st_ends R (getStorageState P cx p)"
  by (auto simp: st_ends_def getStorageState_def st_bind_def st_simps on_vm_def split: option.splits prod.splits sum.splits)

lemma slots_cost_ends: "st_ends (\<lambda>_. True) (slots_cost P cx sp g kvs cost)"
proof (induction kvs arbitrary: cost)
  case (Cons kv kvs)
  obtain key v where kv: "kv = (key, v)" by (cases kv)
  show ?case unfolding kv slots_cost.simps Let_def by (auto intro!: ends_bind Cons.IH split: option.splits)
qed simp

lemma addresses_cost_ends: "st_ends (\<lambda>_. True) (addresses_cost P cx m tg ts)"
proof (induction m arbitrary: tg ts)
  case (Cons x m)
  obtain a states where x: "x = (a, states)" by (cases x)
  show ?case unfolding x addresses_cost.simps Let_def by (auto intro!: ends_bind slots_cost_ends Cons.IH split: prod.splits)
qed simp

lemma terminate_ends: "st_ends (\<lambda>_. True) (terminateEvaluation P cx)"
proof -
  have cost: "st_ends (\<lambda>_. True) (st_bind (addresses_cost P cx m 0 0) (\<lambda>(totalGasCost, totalGasSpecial).
      on_eval (\<lambda>e. evaluation_setFinalGasUsed e (gt_gasUsed (ce_gasTracker e) + totalGasCost)
        (gt_specialGas (ce_gasTracker e) + totalGasSpecial))))" for m
    by (auto intro!: ends_bind addresses_cost_ends split: prod.splits)
  then have "st_ends (\<lambda>_. True) (calculateGasCostStore P cx)"
    by (simp add: st_ends_def calculateGasCostStore_def split: option.splits)
  then have "st_ends (\<lambda>_. True) (st_bind (calculateGasCostStore P cx) (\<lambda>_.
      st_bind (st_get (\<lambda>s. map snd (ce_deployedContracts (hs_eval s)))) (\<lambda>cs. on_vm (deploy_all (vp_env P) cs))))"
    by (intro ends_bind) simp_all
  then show ?thesis by (simp add: st_ends_def terminateEvaluation_def)
qed

lemma result_ends: "st_ends (\<lambda>_. True) (onExecutionResult P outcome)"
proof -
  have "fst (use_gas P g s) \<noteq> Inl FuelExhausted" for g s using use_gas_ends [of "\<lambda>_. True" P g] by (simp add: st_ends_def)
  then have "st_ends (\<lambda>_. True) (gas_after_failure P)"
    by (simp add: st_ends_def gas_after_failure_def Let_def split: option.splits prod.splits sum.splits)
  moreover have "st_ends (\<lambda>_. True) (processResult P r)" for r by (simp add: processResult_def)
  ultimately show ?thesis
    unfolding onExecutionResult_def by (auto intro!: ends_bind split: sum.splits option.splits)
qed

lemma setup_ends: "st_ends (\<lambda>_. True) (setEnvironment P cx c inst)" "st_ends (\<lambda>_. True) (preloadPointers P cx)"
  unfolding setEnvironment_def preloadPointers_def Let_def by (auto intro!: ends_bind split: option.splits)

text \<open>An evaluation whose callees end, as long as there is room for them.\<close>

locale ending_calls =
  fixes P :: vm_package and c :: callee and n :: nat and e0 :: ContractEvaluation
  assumes c_grows: "grows c" and c_ends: "ends_below P n c"
    and room_call: "extends e0 e \<Longrightarrow> stack_size e < MAXIMUM_CALL_DEPTH (vp_tx P) \<Longrightarrow> eval_room P e < n"
    and room_deploy: "extends e0 e \<Longrightarrow> incrementContractDeployDepth (vp_tx P) e = Inr e' \<Longrightarrow> extends e' e2 \<Longrightarrow> eval_room P e2 < n"
begin

abbreviation Q :: "host_state \<Rightarrow> bool" where
  "Q s \<equiv> extends e0 (hs_eval s)"

lemma inst: "evaluation_invariant P c (extends e1)"
  by (rule extends_instance) (rule c_grows)

lemmas keeps = evaluation_invariant.use_gas_keeps [OF inst] evaluation_invariant.revert_keeps [OF inst]
  evaluation_invariant.getStorageState_keeps [OF inst] evaluation_invariant.handler_keeps [OF inst]
  evaluation_invariant.internalCall_keeps [OF inst] evaluation_invariant.at_address_keeps [OF inst]
  evaluation_invariant.environment_keeps [OF inst] evaluation_invariant.preload_keeps [OF inst]
  evaluation_invariant.result_keeps [OF inst] evaluation_invariant.slots_cost_keeps [OF inst]
  evaluation_invariant.addresses_cost_keeps [OF inst]

lemma internalCall_ends: "st_ends (\<lambda>s. eval_room P (hs_eval s) < n) (internalCall P c cx calldata d u a)"
proof -
  have "fst (c cx' (external_params e d u a) pages vm) \<noteq> Inl FuelExhausted" if "eval_room P e < n" for cx' e pages vm
  proof -
    have "params_room P (external_params e d u a) = eval_room P e"
      by (simp add: params_room_def eval_room_def params_stack_def params_depth_def external_params_def stack_size_def)
    with that c_ends show ?thesis by (simp add: ends_below_def)
  qed
  then show ?thesis
    unfolding st_ends_def internalCall_def Let_def st_bind_def on_eval_def st_return_def
    by (auto split: prod.splits sum.splits) (metis fst_conv)+
qed

lemma call_ends: "st_ends Q (call P c cx d)"
proof -
  have inner: "st_ends (\<lambda>s. Q s \<and> \<not> isCallStackTooDeep (vp_tx P) (hs_eval s))
      (st_bind (internalCall P c cx calldata False False a) (\<lambda>r. buildCallResponse P (x r) (y r) (z r) (w r)))"
    for calldata a and x :: "InternalCallResponse \<Rightarrow> bool" and y z w
  proof (rule ends_weaken)
    show "st_ends (\<lambda>s. eval_room P (hs_eval s) < n)
      (st_bind (internalCall P c cx calldata False False a) (\<lambda>r. buildCallResponse P (x r) (y r) (z r) (w r)))"
      by (rule ends_then [OF internalCall_ends]) (simp add: buildCallResponse_def)
    show "\<And>s. Q s \<and> \<not> isCallStackTooDeep (vp_tx P) (hs_eval s) \<Longrightarrow> eval_room P (hs_eval s) < n"
      using room_call by (auto simp: isCallStackTooDeep_def stack_size_def)
  qed
  have body: "st_ends Q (call_body P c cx d)"
    unfolding call_body_def
    by (auto intro!: ends_bind ends_guard inner keeps keeps_frame split: prod.splits)
  have keep: "st_keeps Q (call_body P c cx d)"
    unfolding call_body_def buildCallResponse_def
    by (auto intro!: st_keeps_bind keeps keeps_frame split: prod.splits)
  have "st_ends Q (try_catch (call_body P c cx d) (\<lambda>err. st_bind (revert_with P err) (\<lambda>_.
      st_bind (st_get eval_gasUsed) (\<lambda>x. buildCallResponse P False (x - g) 1 []))))" for g
    by (intro ends_try body keep ends_bind keeps) (simp_all add: buildCallResponse_def)
  then show ?thesis by (simp add: call_def st_ends_def Let_def)
qed

lemma deploy_ends: "st_ends Q (deployContractFromAddressRaw P c cx d)"
proof -
  let ?R = "\<lambda>e' s. extends e' (hs_eval s)"
  have room: "eval_room P (hs_eval s) < n" if "Q s0" "deploy_depth_step P s0 = (Inr (), s1)" "?R (hs_eval s1) s" for s0 s1 s
    using that room_deploy [of "hs_eval s0" "hs_eval s1" "hs_eval s"]
    by (auto simp: deploy_depth_step_def on_eval_def split: sum.splits)
  have body: "st_ends Q (deploy_body P c cx d)"
    unfolding st_ends_def
  proof (intro allI impI)
    fix s0 assume q: "Q s0"
    show "fst (deploy_body P c cx d s0) \<noteq> Inl FuelExhausted"
    proof (cases "fst (deploy_depth_step P s0)")
      case (Inl e)
      then obtain s1 where d: "deploy_depth_step P s0 = (Inl e, s1)" by (cases "deploy_depth_step P s0") auto
      have "e \<noteq> FuelExhausted" using d by (auto simp: deploy_depth_step_def on_eval_def split: sum.splits)
      then show ?thesis using d by (simp add: deploy_body_def st_bind_def)
    next
      case (Inr u)
      then obtain s1 where d: "deploy_depth_step P s0 = (Inr (), s1)" by (cases "deploy_depth_step P s0") auto
      let ?Q1 = "?R (hs_eval s1)"
      have r: "?Q1 s \<Longrightarrow> eval_room P (hs_eval s) < n" for s using room [OF q d] by blast
      have "st_ends ?Q1 (internalCall P c cx calldata True False a)" for calldata a
        by (rule ends_weaken [OF internalCall_ends]) (rule r)
      moreover have "st_ends ?Q1 (at_address P cx a salt)" for a salt
        by (auto simp: st_ends_def at_address_def split: prod.splits sum.splits)
      ultimately have "st_ends ?Q1 (st_bind (reading (vp_readU64 P) d) (\<lambda>(usedGas, d1).
         st_bind (use_gas P usedGas) (\<lambda>_.
         st_bind (reading (vp_readAddress P) d1) (\<lambda>(a, d2).
         st_bind (reading (vp_readBytes P 32) d2) (\<lambda>(salt, calldata).
         st_bind (at_address P cx a salt) (\<lambda>(contractAddress, bytecodeLength).
         if contractAddress = vp_dead P then st_throw DeploymentFailed
         else st_bind (internalCall P c cx calldata True False contractAddress) (\<lambda>r.
             buildDeployFromAddressResponse P contractAddress (int bytecodeLength)
               (if free_context cx then 0 else ir_gasUsed r - usedGas) (ir_status r) (ir_result r))))))))"
        by (auto intro!: ends_bind keeps simp: buildDeployFromAddressResponse_def split: prod.splits)
      then show ?thesis using d by (simp add: deploy_body_def st_bind_def st_ends_def)
    qed
  qed
  have depth: "st_keeps Q (deploy_depth_step P)"
    unfolding deploy_depth_step_def by (rule keeps_on_eval) (rule evaluation_invariant.I_deploy_depth [OF inst])
  have keep: "st_keeps Q (deploy_body P c cx d)"
    unfolding deploy_body_def buildDeployFromAddressResponse_def
    by (auto intro!: st_keeps_bind depth keeps split: prod.splits)
  have "st_ends Q (try_catch (deploy_body P c cx d) (\<lambda>err. st_bind (revert_with P err) (\<lambda>_.
      st_bind (st_get (\<lambda>s. (eval_gasUsed s, or_else (ce_revert (hs_eval s)) []))) (\<lambda>(x, r).
        buildDeployFromAddressResponse P (vp_dead P) 0 (x - g) 1 r))))" for g
    by (intro ends_try body keep ends_bind keeps) (auto simp: buildDeployFromAddressResponse_def split: prod.splits)
  then show ?thesis by (simp add: deployContractFromAddressRaw_def st_ends_def Let_def)
qed

lemma update_ends: "st_ends Q (updateContractFromAddressRaw P d)"
proof -
  have depth: "st_keeps Q (on_eval (incrementContractUpdates (vp_tx P)))"
    by (rule keeps_on_eval) (rule evaluation_invariant.I_update_depth [OF inst])
  have body: "st_ends Q (update_body P d)" "st_keeps Q (update_body P d)"
    unfolding update_body_def by (auto intro!: ends_bind st_keeps_bind depth keeps split: prod.splits)
  have "st_ends Q (try_catch (update_body P d) (\<lambda>err. st_bind (revert_with P err) (\<lambda>_.
      st_bind (st_get (\<lambda>s. (eval_gasUsed s, or_else (ce_revert (hs_eval s)) []))) (\<lambda>(x, r).
        buildUpdateFromAddressResponse P 0 (x - g) 1 r))))" for g
    by (intro ends_try body ends_bind keeps) (auto simp: buildUpdateFromAddressResponse_def split: prod.splits)
  then show ?thesis by (simp add: updateContractFromAddressRaw_def st_ends_def Let_def)
qed

lemma load_ends: "st_ends Q (load P cx d)"
proof -
  have add: "st_keeps Q (on_eval (\<lambda>e. addToStorage (vp_put P) e p v))" for p v
    by (rule keeps_on_eval) (rule evaluation_invariant.I_load [OF inst])
  have cold: "st_ends Q (st_bind (getStorageState P cx p) (\<lambda>stored. st_bind (on_eval (\<lambda>e. addToStorage (vp_put P) e p (or_else stored 0)))
      (\<lambda>_. st_return (or_else stored 0, True))))"
    "st_keeps Q (st_bind (getStorageState P cx p) (\<lambda>stored. st_bind (on_eval (\<lambda>e. addToStorage (vp_put P) e p (or_else stored 0)))
      (\<lambda>_. st_return (or_else stored 0, True))))" for p
    by (intro ends_bind st_keeps_bind keeps add; simp)+
  have mid: "st_ends Q (case r of Some v \<Rightarrow> st_return (v, False) | None \<Rightarrow> st_bind (getStorageState P cx p) (\<lambda>stored.
      st_bind (on_eval (\<lambda>e. addToStorage (vp_put P) e p (or_else stored 0))) (\<lambda>_. st_return (or_else stored 0, True))))"
    "st_keeps Q (case r of Some v \<Rightarrow> st_return (v, False) | None \<Rightarrow> st_bind (getStorageState P cx p) (\<lambda>stored.
      st_bind (on_eval (\<lambda>e. addToStorage (vp_put P) e p (or_else stored 0))) (\<lambda>_. st_return (or_else stored 0, True))))" for r p
    using cold [of p] by (cases r; simp)+
  show ?thesis
    unfolding load_def Let_def by (auto intro!: ends_bind mid split: prod.splits)
qed

lemma mldsa_ends: "st_ends Q (loadMLDSA P d)"
  unfolding loadMLDSA_def
  by (auto intro!: ends_bind keeps_set_eval evaluation_invariant.I_mldsa [OF inst] keeps_on_vm split: prod.splits option.splits)

lemma accountType_ends: "st_ends Q (getAccountType P d)"
  unfolding getAccountType_def
  by (auto intro!: ends_bind keeps_set_eval evaluation_invariant.I_touch [OF inst] keeps_on_vm split: prod.splits option.splits)

lemma store_event_ends: "st_ends Q (store P d)" "st_ends Q (onEvent P d)"
  unfolding store_def onEvent_def
  by (auto intro!: ends_bind keeps_set_eval keeps_on_eval evaluation_invariant.I_store [OF inst] split: prod.splits)
    (rule evaluation_invariant.I_emit [OF inst])

lemma answer_ends: "st_ends Q (answer P c cx r)"
  by (cases r)
    (auto intro!: ends_bind load_ends store_event_ends call_ends deploy_ends update_ends mldsa_ends accountType_ends keeps
      simp: getBlockHashImport_def split: prod.splits)

lemma evaluate_ends: "st_ends Q (evaluate P c cx ci params)"
proof -
  have "st_ends Q (st_bind (st_put (\<lambda>s. s\<lparr>hs_usedGas := ri_usedGas inst\<rparr>)) (\<lambda>_.
          st_bind (setEnvironment P cx ci inst) (\<lambda>env.
          st_bind (preloadPointers P cx) (\<lambda>_.
          st_bind (drive (answer P c cx) (ri_run inst env (entry_of params) (cx_calldata cx))) (\<lambda>outcome.
          st_bind (onExecutionResult P outcome) (\<lambda>_. terminateEvaluation P cx))))))" for inst
    by (intro ends_bind keeps keeps_frame ends_drive answer_ends evaluation_invariant.answer_keeps [OF inst]
        evaluation_invariant.drive_keeps [OF inst] ends_weaken [OF setup_ends(1)] ends_weaken [OF setup_ends(2)]
        ends_weaken [OF result_ends] ends_weaken [OF terminate_ends]) simp_all
  then show ?thesis by (simp add: st_ends_def evaluate_def split: option.splits)
qed

lemma run_ends:
  assumes "ContractEvaluation_new (vp_put P) (ve_fromString (vp_env P)) (vp_fromBase64 P) (vp_tx P) params = Inr e0"
  shows "fst (evaluator_run P c cx ci params pages vm) \<noteq> Inl FuelExhausted"
proof -
  let ?s = "\<lparr>hs_eval = e0, hs_memoryPagesUsed = pages, hs_usedGas = None, hs_vm = vm\<rparr>"
  have "fst (evaluate P c cx ci params ?s) \<noteq> Inl FuelExhausted"
    using evaluate_ends by (simp add: st_ends_def)
  then show ?thesis using assms by (auto simp: evaluator_run_def split: prod.splits sum.splits)
qed

end

lemma extends_room:
  assumes "extends e0 e"
  shows "eval_room P e \<le> eval_room P e0"
  using assms by (auto simp: extends_def eval_room_def intro!: add_mono nat_mono)

lemma deploy_room:
  "incrementContractDeployDepth (vp_tx P) e = Inr e' \<Longrightarrow> eval_room P e' < eval_room P e"
  by (auto simp: incrementContractDeployDepth_def MutableNumber_increment_def eval_room_def stack_size_def split: if_splits)

lemma new_room:
  assumes "ContractEvaluation_new put fs fb (vp_tx P) params = Inr e0" "params_room P params \<le> n"
  shows "eval_room P e0 \<le> n \<and> (\<forall>e. extends e0 e \<longrightarrow> stack_size e < MAXIMUM_CALL_DEPTH (vp_tx P) \<longrightarrow> eval_room P e < n)"
  using new_grows [OF assms(1)] assms(2) by (auto simp: extends_def eval_room_def params_room_def)

lemma ending_instance:
  assumes "grows c" "ends_below P n c" "ContractEvaluation_new put fs fb (vp_tx P) params = Inr e0" "params_room P params \<le> n"
  shows "ending_calls P c n e0"
proof
  show "grows c" "ends_below P n c" by (fact assms(1,2))+
  show "eval_room P e < n" if "extends e0 e" "stack_size e < MAXIMUM_CALL_DEPTH (vp_tx P)" for e
    using new_room [OF assms(3,4)] that by blast
  show "eval_room P e2 < n" if "extends e0 e" "incrementContractDeployDepth (vp_tx P) e = Inr e'" "extends e' e2" for e e' e2
    using new_room [OF assms(3,4)] extends_room [OF that(1), of P] deploy_room [OF that(2)] extends_room [OF that(3), of P] by linarith
qed

lemma run_total:
  assumes "grows c" "ends_below P n c" "params_room P params \<le> n"
  shows "fst (evaluator_run P c cx ci params pages vm) \<noteq> Inl FuelExhausted"
proof (cases "ContractEvaluation_new (vp_put P) (ve_fromString (vp_env P)) (vp_fromBase64 P) (vp_tx P) params")
  case (Inl err)
  then show ?thesis by (simp add: evaluator_run_def)
next
  case (Inr e0)
  from ending_calls.run_ends [OF ending_instance [OF assms(1,2) Inr assms(3)] Inr] show ?thesis .
qed

lemma executeCall_ends: "ends_below P n (executeCall n P)"
proof (induction n)
  case 0
  then show ?case by (simp add: ends_below_def)
next
  case (Suc n)
  have "fst (executeCall (Suc n) P cx params pages vm) \<noteq> Inl FuelExhausted" if "params_room P params < Suc n" for cx params pages vm
  proof -
    obtain r vm' where c: "executeCall (Suc n) P cx params pages vm = (r, vm')" by fastforce
    then have "r = Inl ContractMissing \<or> (\<exists>ci vm1. evaluator_run P (executeCall n P) cx ci params pages vm1 = (r, vm'))"
      using executeCallInternal_cases by simp
    then show ?thesis using c run_total [OF executeCall_grows Suc.IH, of params] that by (metis call_error.distinct fst_conv less_Suc_eq_le old.sum.inject(1))
  qed
  then show ?case by (simp add: ends_below_def)
qed

interpretation bounded: ending_calls P "executeCall (Suc (eval_room P e0)) P" "Suc (eval_room P e0)" e0 for P e0
proof
  show "grows (executeCall (Suc (eval_room P e0)) P)" by (rule executeCall_grows)
  show "ends_below P (Suc (eval_room P e0)) (executeCall (Suc (eval_room P e0)) P)" by (rule executeCall_ends)
  show "eval_room P e < Suc (eval_room P e0)" if "extends e0 e" for e
    using extends_room [OF that, of P] by simp
  show "eval_room P e2 < Suc (eval_room P e0)"
    if "extends e0 e" "incrementContractDeployDepth (vp_tx P) e = Inr e'" "extends e' e2" for e e' e2
    using extends_room [OF that(1), of P] deploy_room [OF that(2)] extends_room [OF that(3), of P] by simp
qed

subsection \<open>More fuel changes nothing\<close>

definition st_agree :: "('s \<Rightarrow> (call_error + 'a) \<times> 's) \<Rightarrow> ('s \<Rightarrow> (call_error + 'a) \<times> 's) \<Rightarrow> bool" where
  "st_agree m m' \<longleftrightarrow> (\<forall>s. fst (m s) \<noteq> Inl FuelExhausted \<longrightarrow> m' s = m s)"

definition callee_agree :: "callee \<Rightarrow> callee \<Rightarrow> bool" where
  "callee_agree c c' \<longleftrightarrow> (\<forall>cx params pages. st_agree (c cx params pages) (c' cx params pages))"

lemma agree_refl [simp]: "st_agree m m"
  by (simp add: st_agree_def)

lemma agree_bind: "st_agree m m' \<Longrightarrow> (\<And>x. st_agree (f x) (f' x)) \<Longrightarrow> st_agree (st_bind m f) (st_bind m' f')"
  unfolding st_agree_def st_bind_def by (auto split: prod.splits sum.splits)

lemma agree_try: "st_agree m m' \<Longrightarrow> st_agree (try_catch m h) (try_catch m' h)"
  unfolding st_agree_def try_catch_def by (auto split: prod.splits sum.splits)

lemma agree_if: "(b \<Longrightarrow> st_agree m m') \<Longrightarrow> (\<not> b \<Longrightarrow> st_agree k k') \<Longrightarrow> st_agree (if b then m else k) (if b then m' else k')"
  by simp

lemma agree_prod: "(\<And>a b. x = (a, b) \<Longrightarrow> st_agree (f a b) (g a b)) \<Longrightarrow> st_agree (case x of (a, b) \<Rightarrow> f a b) (case x of (a, b) \<Rightarrow> g a b)"
  by (cases x) simp

lemmas agree_rules = agree_bind agree_if agree_prod agree_try agree_refl

lemma internalCall_agree:
  assumes "callee_agree c c'"
  shows "st_agree (internalCall P c cx cd d u a) (internalCall P c' cx cd d u a)"
  unfolding st_agree_def
proof (intro allI impI)
  fix s assume ends: "fst (internalCall P c cx cd d u a s) \<noteq> Inl FuelExhausted"
  let ?c = "\<lambda>c. c (external_context P cx (hs_eval s) cd a) (external_params (hs_eval s) d u a) (hs_memoryPagesUsed s) (hs_vm s)"
  have "fst (?c c) \<noteq> Inl FuelExhausted" using ends by (auto simp: internalCall_def Let_def split: prod.splits)
  then have "?c c' = ?c c" using assms by (simp add: callee_agree_def st_agree_def)
  then show "internalCall P c' cx cd d u a s = internalCall P c cx cd d u a s" by (simp add: internalCall_def Let_def)
qed

lemma answer_agree:
  assumes "callee_agree c c'"
  shows "st_agree (answer P c cx r) (answer P c' cx r)"
proof -
  have "st_agree (call_body P c cx d) (call_body P c' cx d)" for d
    unfolding call_body_def by (intro agree_rules internalCall_agree assms)
  then have call: "st_agree (call P c cx d) (call P c' cx d)" for d
    using agree_try unfolding call_def st_agree_def Let_def by blast
  have "st_agree (deploy_body P c cx d) (deploy_body P c' cx d)" for d
    unfolding deploy_body_def by (intro agree_rules internalCall_agree assms)
  then have deploy: "st_agree (deployContractFromAddressRaw P c cx d) (deployContractFromAddressRaw P c' cx d)" for d
    using agree_try unfolding deployContractFromAddressRaw_def st_agree_def Let_def by blast
  show ?thesis by (cases r) (simp_all add: agree_bind call deploy)
qed

lemma drive_agree:
  assumes "\<And>r. st_agree (h r) (h' r)"
  shows "st_agree (drive h p) (drive h' p)"
proof (induction p)
  case (Host request continue)
  show ?case unfolding st_agree_def
  proof (intro allI impI)
    fix s assume ends: "fst (drive h (Host request continue) s) \<noteq> Inl FuelExhausted"
    obtain r s1 where h: "h request s = (r, s1)" by fastforce
    have "r \<noteq> Inl FuelExhausted" using ends h by auto
    then have h': "h' request s = (r, s1)" using assms [of request] h by (simp add: st_agree_def)
    show "drive h' (Host request continue) s = drive h (Host request continue) s"
      using ends h h' \<open>r \<noteq> Inl FuelExhausted\<close> Host.IH unfolding st_agree_def by (cases r) auto
  qed
qed simp

lemma run_agree:
  assumes "callee_agree c c'"
  shows "st_agree (evaluator_run P c cx ci params pages) (evaluator_run P c' cx ci params pages)"
proof -
  have "st_agree (st_bind (st_put (\<lambda>s. s\<lparr>hs_usedGas := ri_usedGas inst\<rparr>)) (\<lambda>_.
          st_bind (setEnvironment P cx ci inst) (\<lambda>env.
          st_bind (preloadPointers P cx) (\<lambda>_.
          st_bind (drive (answer P c cx) (ri_run inst env (entry_of params) (cx_calldata cx))) (\<lambda>outcome.
          st_bind (onExecutionResult P outcome) (\<lambda>_. terminateEvaluation P cx))))))
      (st_bind (st_put (\<lambda>s. s\<lparr>hs_usedGas := ri_usedGas inst\<rparr>)) (\<lambda>_.
          st_bind (setEnvironment P cx ci inst) (\<lambda>env.
          st_bind (preloadPointers P cx) (\<lambda>_.
          st_bind (drive (answer P c' cx) (ri_run inst env (entry_of params) (cx_calldata cx))) (\<lambda>outcome.
          st_bind (onExecutionResult P outcome) (\<lambda>_. terminateEvaluation P cx))))))" for inst
    by (intro agree_rules drive_agree answer_agree assms)
  then have ev: "st_agree (evaluate P c cx ci params) (evaluate P c' cx ci params)"
    by (simp add: st_agree_def evaluate_def split: option.splits)
  show ?thesis unfolding st_agree_def
  proof (intro allI impI)
    fix vm assume ends: "fst (evaluator_run P c cx ci params pages vm) \<noteq> Inl FuelExhausted"
    show "evaluator_run P c' cx ci params pages vm = evaluator_run P c cx ci params pages vm"
    proof (cases "ContractEvaluation_new (vp_put P) (ve_fromString (vp_env P)) (vp_fromBase64 P) (vp_tx P) params")
      case (Inl err)
      then show ?thesis by (simp add: evaluator_run_def)
    next
      case (Inr e)
      let ?s = "\<lparr>hs_eval = e, hs_memoryPagesUsed = pages, hs_usedGas = None, hs_vm = vm\<rparr>"
      have "fst (evaluate P c cx ci params ?s) \<noteq> Inl FuelExhausted"
        using ends Inr by (auto simp: evaluator_run_def split: prod.splits sum.splits)
      then have "evaluate P c' cx ci params ?s = evaluate P c cx ci params ?s" using ev by (simp add: st_agree_def)
      then show ?thesis using Inr by (simp add: evaluator_run_def)
    qed
  qed
qed

lemma executeCallInternal_agree:
  assumes "callee_agree c c'"
  shows "callee_agree (executeCallInternal P c) (executeCallInternal P c')"
  using run_agree [OF assms] unfolding callee_agree_def st_agree_def executeCallInternal_def Let_def
  by (auto split: prod.splits option.splits)

lemma executeCall_Suc_agree: "callee_agree (executeCall n P) (executeCall (Suc n) P)"
proof (induction n)
  case 0
  then show ?case by (simp add: callee_agree_def st_agree_def)
next
  case (Suc n)
  then show ?case using executeCallInternal_agree [OF Suc.IH, of P] by simp
qed

lemma executeCall_more_fuel:
  assumes "params_room P params < n" "n \<le> m"
  shows "executeCall m P cx params pages vm = executeCall n P cx params pages vm"
  using assms(2)
proof (induction m rule: dec_induct)
  case (step m)
  have "fst (executeCall m P cx params pages vm) \<noteq> Inl FuelExhausted"
    using executeCall_ends [of P m] assms(1) step.hyps by (simp add: ends_below_def)
  then have "executeCall (Suc m) P cx params pages vm = executeCall m P cx params pages vm"
    using executeCall_Suc_agree [of m P] unfolding callee_agree_def st_agree_def by blast
  with step.IH show ?case by simp
qed simp

end
