(* ===== verification/Call_Safety.thy ===== *)
theory Call_Safety
  imports Contract_Calls
begin

text \<open>
  What the execution of contracts promises to the block: it always ends, a failed call takes the whole transaction with it,
  no more gas is used than was paid for, and the block's slots and receipts are not touched before the result is published.
  The read-only execution of the API changes nothing in the database.
\<close>

subsection \<open>What a run leaves alone\<close>

definition quiet :: "VMManager \<Rightarrow> VMManager \<Rightarrow> bool" where
  "quiet vm0 vm \<longleftrightarrow> vm_blockState vm = vm_blockState vm0 \<and> vm_receiptState vm = vm_receiptState vm0
     \<and> vm_storage vm = vm_storage vm0 \<and> vm_blockId vm = vm_blockId vm0 \<and> vm_isPrepared vm = vm_isPrepared vm0
     \<and> mldsaToStore (vm_mldsa vm) = mldsaToStore (vm_mldsa vm0)
     \<and> mldsaToStoreLegacy (vm_mldsa vm) = mldsaToStoreLegacy (vm_mldsa vm0)
     \<and> mldsaToStoreByHash (vm_mldsa vm) = mldsaToStoreByHash (vm_mldsa vm0)
     \<and> vm_isProcessing vm = vm_isProcessing vm0"

lemma quiet_refl [simp]: "quiet vm vm"
  by (simp add: quiet_def)

lemma quiet_trans: "quiet a b \<Longrightarrow> quiet b c \<Longrightarrow> quiet a c"
  by (simp add: quiet_def)

named_theorems quiet_rules

lemma getBlockHeader_quiet [quiet_rules]: "st_keeps (quiet vm0) (vm_getBlockHeader h)"
  by (auto simp: st_keeps_def quiet_def vm_getBlockHeader_def split: prod.splits)

lemma verifyBlock_quiet [quiet_rules]: "st_keeps (quiet vm0) (verifyBlockAtHeight E h d)"
  by (auto simp: st_keeps_def quiet_def verifyBlockAtHeight_def verifyBlockAtHeight_uncached_def split: prod.splits option.splits)

lemma verifyProofs_quiet [quiet_rules]: "st_keeps (quiet vm0) (verifyProofs E p v pfs h)"
proof -
  have "st_keeps (quiet vm0) (st_bind (vm_getBlockHeader h) (\<lambda>blockHeaders.
        case blockHeaders of
          None \<Rightarrow> st_throw BlockRootsNotFound
        | Some d \<Rightarrow>
            st_bind (verifyBlockAtHeight E h d) (\<lambda>isVerifiedBlock.
              if \<not> isVerifiedBlock then st_throw AlteredHeaders
              else st_lift (lift_vm VMMerkle
                (StateMerkleTree_verify (ve_merkle E) (BlockHeaderDocument.bh_storageRoot d) [p, v] pfs)))))"
    by (auto intro!: st_keeps_bind quiet_rules split: option.splits)
  then show ?thesis by (auto simp: st_keeps_def verifyProofs_def split: option.splits)
qed

lemma storePointer_quiet: "quiet vm0 vm \<Longrightarrow> quiet vm0 (storePointerInCache a k v vm)"
  by (simp add: quiet_def storePointerInCache_def Let_def)

lemma finalize_quiet [quiet_rules]: "st_keeps (quiet vm0) (finalizeProvenMemoryValue E a p pv n b)"
proof (rule st_keepsI)
  fix vm :: VMManager assume q: "quiet vm0 vm"
  have "quiet vm0 (snd (st_bind (verifyProofs E p v pfs h) (\<lambda>isValid. if isValid then st_return x else st_throw PointerProofsInvalid) vm1))"
    if "quiet vm0 vm1" for v pfs h vm1 and x :: "ProvenMemoryValue option"
    by (rule st_keeps_snd [where P = "quiet vm0", OF _ that]) (auto intro!: st_keeps_bind quiet_rules)
  then show "quiet vm0 (snd (finalizeProvenMemoryValue E a p pv n b vm))"
    using q storePointer_quiet [OF q] by (auto simp: finalizeProvenMemoryValue_def Let_def)
qed

lemma getStorageFromDB_quiet [quiet_rules]: "st_keeps (quiet vm0) (getStorageFromDB a p k n)"
  by (auto simp: st_keeps_def getStorageFromDB_def Let_def storePointer_quiet split: sum.splits option.splits)

lemma getStorage_quiet [quiet_rules]: "st_keeps (quiet vm0) (VM_getStorage E a p n b)"
proof (rule st_keepsI)
  fix vm :: VMManager assume q: "quiet vm0 vm"
  have fin: "st_keeps (quiet vm0) (st_bind (finalizeProvenMemoryValue E a p pv n False) (\<lambda>verified. st_return (map_option pm_value verified)))" for pv
    by (auto intro!: st_keeps_bind quiet_rules)
  have db: "st_keeps (quiet vm0) (st_bind (getStorageFromDB a p k n) (\<lambda>result.
               case result of
                 None \<Rightarrow> st_return None
               | Some (DirectMemory m) \<Rightarrow> st_return (Some m)
               | Some (Proven pv) \<Rightarrow> st_bind (finalizeProvenMemoryValue E a p (Some pv) n False)
                   (\<lambda>verified. st_return (map_option pm_value verified))))" for k
    by (auto intro!: st_keeps_bind quiet_rules split: option.splits db_value.splits)
  note f = st_keeps_snd [where P = "quiet vm0", OF fin q] st_keeps_snd [where P = "quiet vm0", OF db q]
  show "quiet vm0 (snd (VM_getStorage E a p n b vm))"
    using q f by (auto simp: VM_getStorage_def Let_def split: sum.splits js_lookup.splits)
qed

lemma st_map_keeps: "(\<And>x. x \<in> set xs \<Longrightarrow> st_keeps Q (f x)) \<Longrightarrow> st_keeps Q (st_map f xs)"
  by (induction xs) (auto intro!: st_keeps_bind)

lemma getStorageMultiple_quiet [quiet_rules]: "st_keeps (quiet vm0) (VM_getStorageMultiple E ps n)"
proof (rule st_keepsI)
  fix vm :: VMManager assume q: "quiet vm0 vm"
  have "st_keeps (quiet vm0) (st_bind (st_map (\<lambda>(a, entries). st_bind (st_map (finalize_entry E n a) entries)
      (\<lambda>vs. st_return (a, vs))) xs) (\<lambda>r. st_return (Some r)))" for xs
    by (auto intro!: st_keeps_bind st_map_keeps quiet_rules simp: finalize_entry_def split: prod.splits)
  note f = st_keeps_snd [where P = "quiet vm0", OF this q]
  show "quiet vm0 (snd (VM_getStorageMultiple E ps n vm))"
    using q f by (auto simp: VM_getStorageMultiple_def split: sum.splits option.splits)
qed

lemma getContractAddress_quiet [quiet_rules]: "st_keeps (quiet vm0) (getContractAddress E a)"
  by (auto simp: st_keeps_def quiet_def getContractAddress_def split: option.splits sum.splits)

lemma isContract_quiet [quiet_rules]: "st_keeps (quiet vm0) (isContract E a)"
  by (auto simp: isContract_def intro!: st_keeps_bind quiet_rules)

lemma getContractInformation_quiet [quiet_rules]: "st_keeps (quiet vm0) (getContractInformation a h)"
  by (auto simp: st_keeps_def quiet_def getContractInformation_def split: option.splits)

lemma getMLDSA_quiet [quiet_rules]: "st_keeps (quiet vm0) (vm_getMLDSAPublicKey E a)"
  by (auto simp: st_keeps_def quiet_def vm_getMLDSAPublicKey_def getMLDSAPublicKey_def Let_def split: option.splits prod.splits)

lemma deployAt_quiet [quiet_rules]: "st_keeps (quiet vm0) (deployContractAtAddress E self n ids a salt e)"
  unfolding deployContractAtAddress_def Let_def
  by (auto intro!: st_keeps_bind quiet_rules split: option.splits)

subsection \<open>Host functions are quiet\<close>

definition quiet_callee :: "callee \<Rightarrow> bool" where
  "quiet_callee c \<longleftrightarrow> (\<forall>cx params pages vm. xp_externalCall params \<longrightarrow> quiet vm (snd (c cx params pages vm)))"

abbreviation host_quiet :: "VMManager \<Rightarrow> host_state \<Rightarrow> bool" where
  "host_quiet vm0 s \<equiv> quiet vm0 (hs_vm s)"

lemma hq_eval [simp]: "st_keeps (host_quiet vm0) (on_eval f)" "st_keeps (host_quiet vm0) (set_eval g)"
  "st_keeps (host_quiet vm0) (use_gas P x)" "st_keeps (host_quiet vm0) (revert_with P e)"
  by (auto simp: st_keeps_def on_eval_def set_eval_def use_gas_def revert_with_def st_put_def split: sum.splits)

lemma hq_vm: "st_keeps (quiet vm0) f \<Longrightarrow> st_keeps (host_quiet vm0) (on_vm f)"
  unfolding st_keeps_def on_vm_def by (auto split: prod.splits sum.splits)

lemma hq_put: "(\<And>s. hs_vm (f s) = hs_vm s) \<Longrightarrow> st_keeps (host_quiet vm0) (st_put f)"
  by (simp add: st_keeps_put)

lemma hq_storage [simp]: "st_keeps (host_quiet vm0) (getStorageState P cx p)"
  unfolding getStorageState_def by (auto intro!: st_keeps_bind hq_vm quiet_rules split: option.splits)

lemma hq_internalCall:
  assumes "quiet_callee c"
  shows "st_keeps (host_quiet vm0) (internalCall P c cx cd d u a)"
proof (rule st_keepsI)
  fix s :: host_state assume q: "host_quiet vm0 s"
  obtain r vm where c: "c (external_context P cx (hs_eval s) cd a) (external_params (hs_eval s) d u a) (hs_memoryPagesUsed s) (hs_vm s) = (r, vm)"
    by fastforce
  have "xp_externalCall (external_params (hs_eval s) d u a)" by (simp add: external_params_def)
  then have "quiet (hs_vm s) vm" using assms c unfolding quiet_callee_def by (metis snd_conv)
  then have "quiet vm0 vm" using q by (rule quiet_trans [rotated])
  then show "host_quiet vm0 (snd (internalCall P c cx cd d u a s))"
    using c by (cases r) (auto simp: internalCall_def Let_def st_bind_def on_eval_def st_return_def split: sum.splits)
qed

lemma hq_at_address [simp]: "st_keeps (host_quiet vm0) (at_address P cx a salt)"
proof (rule st_keepsI)
  fix s :: host_state assume q: "host_quiet vm0 s"
  show "host_quiet vm0 (snd (at_address P cx a salt s))"
    using st_keeps_snd [where P = "quiet vm0", OF deployAt_quiet q, of "vp_env P" False "cx_blockNumber cx" "cx_ids cx" a salt "hs_eval s"]
    by (auto simp: at_address_def split: prod.splits sum.splits)
qed

lemma hq_answer:
  assumes "quiet_callee c"
  shows "st_keeps (host_quiet vm0) (answer P c cx r)"
proof -
  have "st_keeps (host_quiet vm0) (load P cx d)" for d
    unfolding load_def Let_def by (auto intro!: st_keeps_bind split: prod.splits option.splits)
  moreover have "st_keeps (host_quiet vm0) (store P d)" "st_keeps (host_quiet vm0) (onEvent P d)" for d
    unfolding store_def onEvent_def by (auto intro!: st_keeps_bind split: prod.splits)
  moreover have "st_keeps (host_quiet vm0) (loadMLDSA P d)" "st_keeps (host_quiet vm0) (getAccountType P d)" for d
    unfolding loadMLDSA_def getAccountType_def
    by (auto intro!: st_keeps_bind hq_vm quiet_rules split: prod.splits option.splits)
  moreover have "st_keeps (host_quiet vm0) (call P c cx d)" for d
  proof -
    have "st_keeps (host_quiet vm0) (try_catch (call_body P c cx d) (\<lambda>err. st_bind (revert_with P err) (\<lambda>_.
        st_bind (st_get eval_gasUsed) (\<lambda>x. buildCallResponse P False (x - g) 1 []))))" for g
      unfolding call_body_def buildCallResponse_def
      by (auto intro!: keeps_try st_keeps_bind hq_put hq_internalCall assms split: prod.splits)
    then show ?thesis by (simp add: call_def st_keeps_def Let_def)
  qed
  moreover have "st_keeps (host_quiet vm0) (deployContractFromAddressRaw P c cx d)" for d
  proof -
    have "st_keeps (host_quiet vm0) (try_catch (deploy_body P c cx d) (\<lambda>err. st_bind (revert_with P err) (\<lambda>_.
        st_bind (st_get (\<lambda>s. (eval_gasUsed s, or_else (ce_revert (hs_eval s)) []))) (\<lambda>(x, r).
          buildDeployFromAddressResponse P (vp_dead P) 0 (x - g) 1 r))))" for g
      unfolding deploy_body_def buildDeployFromAddressResponse_def deploy_depth_step_def
      by (auto intro!: keeps_try st_keeps_bind hq_internalCall assms split: prod.splits)
    then show ?thesis by (simp add: deployContractFromAddressRaw_def st_keeps_def Let_def)
  qed
  moreover have "st_keeps (host_quiet vm0) (updateContractFromAddressRaw P d)" for d
  proof -
    have "st_keeps (host_quiet vm0) (try_catch (update_body P d) (\<lambda>err. st_bind (revert_with P err) (\<lambda>_.
        st_bind (st_get (\<lambda>s. (eval_gasUsed s, or_else (ce_revert (hs_eval s)) []))) (\<lambda>(x, r).
          buildUpdateFromAddressResponse P 0 (x - g) 1 r))))" for g
      unfolding update_body_def buildUpdateFromAddressResponse_def
      by (auto intro!: keeps_try st_keeps_bind split: prod.splits)
    then show ?thesis by (simp add: updateContractFromAddressRaw_def st_keeps_def Let_def)
  qed
  ultimately show ?thesis by (cases r) (auto intro!: st_keeps_bind simp: getBlockHashImport_def split: prod.splits)
qed

lemma hq_drive:
  assumes "\<And>r. st_keeps (host_quiet vm0) (h r)"
  shows "st_keeps (host_quiet vm0) (drive h p)"
proof (induction p)
  case (Finished outcome used)
  show ?case by (simp add: st_keeps_bind hq_put)
next
  case (Host request continue)
  show ?case
  proof (rule st_keepsI)
    fix s :: host_state assume s: "host_quiet vm0 s"
    obtain r s1 where h: "h request s = (r, s1)" by fastforce
    then have s1: "host_quiet vm0 s1" using st_keepsD [OF assms s h] by simp
    then have "host_quiet vm0 (snd (drive h (continue x) s1))" for x
      using st_keeps_snd [where P = "host_quiet vm0", OF Host.IH] by blast
    then show "host_quiet vm0 (snd (drive h (Host request continue) s))" using h s1 by (auto split: sum.splits)
  qed
qed

lemma hq_cost [simp]: "st_keeps (host_quiet vm0) (calculateGasCostStore P cx)"
proof -
  have slots: "st_keeps (host_quiet vm0) (slots_cost P cx sp g kvs cost)" for sp g kvs cost
  proof (induction kvs arbitrary: cost)
    case (Cons kv kvs)
    obtain key v where kv: "kv = (key, v)" by (cases kv)
    show ?case unfolding kv slots_cost.simps Let_def by (auto intro!: st_keeps_bind Cons.IH split: option.splits)
  qed simp
  have "st_keeps (host_quiet vm0) (addresses_cost P cx m tg ts)" for m tg ts
  proof (induction m arbitrary: tg ts)
    case (Cons x m)
    obtain a states where x: "x = (a, states)" by (cases x)
    show ?case unfolding x addresses_cost.simps Let_def by (auto intro!: st_keeps_bind slots Cons.IH split: prod.splits)
  qed simp
  then have "st_keeps (host_quiet vm0) (st_bind (addresses_cost P cx m 0 0) (\<lambda>(tg, ts).
      on_eval (\<lambda>e. evaluation_setFinalGasUsed e (gt_gasUsed (ce_gasTracker e) + tg) (gt_specialGas (ce_gasTracker e) + ts))))" for m
    by (auto intro!: st_keeps_bind split: prod.splits)
  then show ?thesis by (simp add: st_keeps_def calculateGasCostStore_def split: option.splits)
qed

lemma hq_result [simp]: "st_keeps (host_quiet vm0) (onExecutionResult P outcome)"
proof -
  have gas: "host_quiet vm0 (snd (use_gas P g s))" if "host_quiet vm0 s" for g s
    using st_keeps_snd [where P = "host_quiet vm0", OF hq_eval(3) that] .
  have "st_keeps (host_quiet vm0) (gas_after_failure P)"
  proof (rule st_keepsI)
    fix s :: host_state assume s: "host_quiet vm0 s"
    have "host_quiet vm0 s1" if "use_gas P g s = (r, s1)" for g r s1 using gas [OF s, of g] that by simp
    then show "host_quiet vm0 (snd (gas_after_failure P s))" using gas s
      by (auto simp: gas_after_failure_def Let_def split: option.splits prod.splits sum.splits)
  qed
  moreover have "st_keeps (host_quiet vm0) (processResult P r)" for r by (simp add: processResult_def)
  ultimately show ?thesis unfolding onExecutionResult_def by (auto intro!: st_keeps_bind split: sum.splits option.splits)
qed

lemma hq_setup [simp]: "st_keeps (host_quiet vm0) (setEnvironment P cx c inst)" "st_keeps (host_quiet vm0) (preloadPointers P cx)"
  unfolding setEnvironment_def preloadPointers_def Let_def
  by (auto intro!: st_keeps_bind hq_vm quiet_rules split: option.splits)

definition run_until_result ::
    "vm_package \<Rightarrow> callee \<Rightarrow> call_context \<Rightarrow> ContractInformation \<Rightarrow> ExecutionParameters \<Rightarrow> rust_instance \<Rightarrow> unit host" where
  "run_until_result P c cx ci params inst =
     st_bind (st_put (\<lambda>s. s\<lparr>hs_usedGas := ri_usedGas inst\<rparr>)) (\<lambda>_.
     st_bind (setEnvironment P cx ci inst) (\<lambda>env.
     st_bind (preloadPointers P cx) (\<lambda>_.
     st_bind (drive (answer P c cx) (ri_run inst env (entry_of params) (cx_calldata cx))) (onExecutionResult P))))"

lemma st_bind_assoc: "st_bind (st_bind m f) g = st_bind m (\<lambda>x. st_bind (f x) g)"
  by (auto simp: st_bind_def fun_eq_iff split: prod.splits sum.splits)

lemma evaluate_split:
  "evaluate P c cx ci params s = (case loadContractFromBytecode P cx ci s of
      None \<Rightarrow> (Inl InvalidBytecode, s)
    | Some inst \<Rightarrow> st_bind (run_until_result P c cx ci params inst) (\<lambda>_. terminateEvaluation P cx) s)"
  by (simp add: evaluate_def run_until_result_def st_bind_assoc split: option.splits)

lemma hq_until_result: "quiet_callee c \<Longrightarrow> st_keeps (host_quiet vm0) (run_until_result P c cx ci params inst)"
  unfolding run_until_result_def by (auto intro!: st_keeps_bind hq_put hq_drive hq_answer)

lemma deploy_all_executor: "ve_isExecutor E \<Longrightarrow> deploy_all E cs vm = (Inr (), vm)"
  by (induction cs) (simp_all add: deployContractFromInfo_def st_return_def)

lemma hq_evaluate:
  assumes "quiet_callee c" "host_quiet vm0 s" "ve_isExecutor (vp_env P) \<or> ce_externalCall (hs_eval s)" "grows c"
  shows "host_quiet vm0 (snd (evaluate P c cx ci params s))"
proof (cases "loadContractFromBytecode P cx ci s")
  case None
  then show ?thesis using assms(2) by (simp add: evaluate_split)
next
  case (Some inst)
  obtain r s1 where run: "run_until_result P c cx ci params inst s = (r, s1)" by fastforce
  have q1: "host_quiet vm0 s1" using st_keepsD [OF hq_until_result [OF assms(1)] assms(2) run] .
  note inst' = extends_instance [OF assms(4), of P "hs_eval s"]
  have "st_keeps (\<lambda>x. extends (hs_eval s) (hs_eval x)) (run_until_result P c cx ci params inst)"
    unfolding run_until_result_def
    by (intro st_keeps_bind keeps_frame evaluation_invariant.environment_keeps [OF inst'] evaluation_invariant.preload_keeps [OF inst']
        evaluation_invariant.drive_keeps [OF inst'] evaluation_invariant.result_keeps [OF inst']) simp
  from st_keepsD [OF this _ run] have ext: "ce_externalCall (hs_eval s1) = ce_externalCall (hs_eval s)"
    by (simp add: extends_def)
  have "host_quiet vm0 (snd (terminateEvaluation P cx s1))"
  proof (cases "ce_externalCall (hs_eval s1) \<or> ce_revert (hs_eval s1) \<noteq> None")
    case True
    then show ?thesis using q1 by (auto simp: terminateEvaluation_def)
  next
    case False
    then have ex: "ve_isExecutor (vp_env P)" using assms(3) ext by simp
    have "deploy_all (vp_env P) cs = st_return ()" for cs
      using deploy_all_executor [OF ex] by (simp add: fun_eq_iff st_return_def)
    then have "st_keeps (host_quiet vm0) (st_bind (calculateGasCostStore P cx) (\<lambda>_.
        st_bind (st_get (\<lambda>s. map snd (ce_deployedContracts (hs_eval s)))) (\<lambda>cs. on_vm (deploy_all (vp_env P) cs))))"
      by (auto intro!: st_keeps_bind hq_vm)
    from st_keeps_snd [where P = "host_quiet vm0", OF this q1] False show ?thesis by (simp add: terminateEvaluation_def)
  qed
  then show ?thesis using Some run q1 by (cases r) (simp_all add: evaluate_split st_bind_def)
qed

lemma hq_run:
  assumes "quiet_callee c" "grows c" "ve_isExecutor (vp_env P) \<or> xp_externalCall params"
  shows "quiet vm (snd (evaluator_run P c cx ci params pages vm))"
proof (cases "ContractEvaluation_new (vp_put P) (ve_fromString (vp_env P)) (vp_fromBase64 P) (vp_tx P) params")
  case (Inr e)
  let ?s = "\<lparr>hs_eval = e, hs_memoryPagesUsed = pages, hs_usedGas = None, hs_vm = vm\<rparr>"
  have "host_quiet vm (snd (evaluate P c cx ci params ?s))"
    using assms new_grows [OF Inr] by (intro hq_evaluate) auto
  then show ?thesis using Inr by (auto simp: evaluator_run_def split: prod.splits sum.splits)
qed (simp add: evaluator_run_def)

lemma getVMEvaluator_quiet: "quiet vm (snd (getVMEvaluatorFromParams a h c vm))"
proof -
  have "quiet vm (snd (getContractInformation a (Some h) vm))"
    using st_keeps_snd [where P = "quiet vm", OF getContractInformation_quiet quiet_refl] .
  then show ?thesis by (auto simp: getVMEvaluatorFromParams_def Let_def split: option.splits prod.splits sum.splits)
qed

lemma executeCallInternal_run:
  assumes "executeCallInternal P c cx params pages vm = (r, vm')"
  shows "\<exists>vm1. quiet vm vm1 \<and> (r = Inl ContractMissing \<and> vm' = vm1 \<or> (\<exists>ci. evaluator_run P c cx ci params pages vm1 = (r, vm')))"
proof -
  let ?first = "case xp_deployedContracts params of None \<Rightarrow> None | Some m \<Rightarrow> map_of m (xp_contractAddress params)"
  obtain f vm1 where f: "(case ?first of Some c \<Rightarrow> getVMEvaluatorFromParams (xp_contractAddress params) (cx_blockNumber cx) (Some c) vm
      | None \<Rightarrow> (None, vm)) = (f, vm1)" by fastforce
  have q1: "quiet vm vm1"
    using f getVMEvaluator_quiet [of vm "xp_contractAddress params" "cx_blockNumber cx"] by (auto split: option.splits) (metis snd_conv)
  obtain ev vm2 where ev: "(case f of Some c \<Rightarrow> (Some c, vm1)
      | None \<Rightarrow> getVMEvaluatorFromParams (xp_contractAddress params) (cx_blockNumber cx) None vm1) = (ev, vm2)" by fastforce
  have "quiet vm1 vm2"
    using ev getVMEvaluator_quiet [of vm1 "xp_contractAddress params" "cx_blockNumber cx" None] by (auto split: option.splits)
  then have q2: "quiet vm vm2" using q1 by (rule quiet_trans [rotated])
  show ?thesis using assms f ev q2 by (cases ev) (auto simp: executeCallInternal_def Let_def)
qed

lemma executeCall_quiet:
  "(ve_isExecutor (vp_env P) \<or> xp_externalCall params) \<Longrightarrow> quiet vm (snd (executeCall n P cx params pages vm))"
proof (induction n arbitrary: cx params pages vm)
  case (Suc n)
  have q: "quiet_callee (executeCall n P)" unfolding quiet_callee_def using Suc.IH by blast
  obtain r vm' where c: "executeCallInternal P (executeCall n P) cx params pages vm = (r, vm')" by fastforce
  from executeCallInternal_run [OF c] obtain vm1 where vm1: "quiet vm vm1"
    "r = Inl ContractMissing \<and> vm' = vm1 \<or> (\<exists>ci. evaluator_run P (executeCall n P) cx ci params pages vm1 = (r, vm'))" by blast
  then have "quiet vm1 vm'" using hq_run [OF q executeCall_grows Suc.prems, of vm1 cx] by (metis quiet_refl snd_conv)
  then show ?case using vm1(1) c by (auto intro: quiet_trans)
qed simp

subsection \<open>Every transaction ends\<close>

lemma first_room:
  "params_room P (first_params a t deployed d (int depth) al) < call_fuel P"
  by (simp add: params_room_def params_stack_def params_depth_def first_params_def call_fuel_def AddressStack_length_def)

lemma first_call_ends:
  "fst (executeCall (call_fuel P) P cx (first_params a t deployed d (int depth) al) pages vm) \<noteq> Inl FuelExhausted"
  using executeCall_ends [of P "call_fuel P"] first_room unfolding ends_below_def by blast

lemma first_run_ends:
  "fst (evaluator_run P (executeCall (call_fuel P) P) cx c (first_params a t deployed d (int depth) al) pages vm) \<noteq> Inl FuelExhausted"
  by (rule run_total [OF executeCall_grows executeCall_ends less_imp_le [OF first_room]])

text \<open>A manager computation that does not run out of fuel.\<close>

definition vm_ends :: "(VMManager \<Rightarrow> (call_error + 'a) \<times> VMManager) \<Rightarrow> bool" where
  "vm_ends m \<longleftrightarrow> (\<forall>vm. fst (m vm) \<noteq> Inl FuelExhausted)"

lemma vm_ends_basic [simp]:
  "vm_ends (st_return x)" "e \<noteq> FuelExhausted \<Longrightarrow> vm_ends (st_throw e)" "vm_ends (st_get f)" "vm_ends (lift_call k)"
  "r \<noteq> Inl FuelExhausted \<Longrightarrow> vm_ends (st_lift r)"
  by (auto simp: vm_ends_def st_simps lift_call_def split: prod.splits sum.splits)

lemma vm_ends_bind: "vm_ends m \<Longrightarrow> (\<And>x. vm_ends (f x)) \<Longrightarrow> vm_ends (st_bind m f)"
  unfolding vm_ends_def st_bind_def by (auto split: prod.splits sum.splits) (metis fst_conv)+

lemma vm_ends_processing: "vm_ends m \<Longrightarrow> vm_ends (processing m)"
  unfolding vm_ends_def processing_def by (auto split: prod.splits) (metis fst_conv)

lemma vm_ends_guard: "e \<noteq> FuelExhausted \<Longrightarrow> vm_ends k \<Longrightarrow> vm_ends (\<lambda>vm. if b vm then (Inl e, vm) else k vm)"
  by (simp add: vm_ends_def)

lemmas vm_ends_intros = vm_ends_bind vm_ends_processing vm_ends_guard

lemma gas_setup_ends [simp]:
  "calculateMaxGas gas sim sat base m \<noteq> Inl FuelExhausted" "getGasTracker gas m u sp \<noteq> Inl FuelExhausted"
  by (auto simp: calculateMaxGas_def getGasTracker_def Let_def split: sum.splits)

lemma vm_ends_call:
  "vm_ends (executeCall (call_fuel P) P cx (first_params a t deployed d (int depth) al) pages)"
  "vm_ends (evaluator_run P (executeCall (call_fuel P) P) cx c (first_params a t deployed d (int depth) al) pages)"
  unfolding vm_ends_def by (intro allI first_call_ends) (intro allI first_run_ends)

lemmas vm_ends_first = vm_ends_call(1) [where depth = 0, simplified] vm_ends_call(2) [where depth = 1, simplified]

lemma executeTransaction_ends: "vm_ends (executeTransaction P b tx sim)"
  unfolding executeTransaction_def [abs_def]
  by (auto intro!: vm_ends_intros vm_ends_first split: option.splits)

lemma VM_execute_ends: "vm_ends (VM_execute P special headerData ids q)"
  unfolding VM_execute_def [abs_def]
  by (auto intro!: vm_ends_intros vm_ends_first split: option.splits)

lemma deploy_evaluator_ends:
  "vm_ends k1 \<Longrightarrow> (\<And>c. vm_ends (k c)) \<Longrightarrow>
     vm_ends (\<lambda>vm. case getVMEvaluatorFromParams a h i vm of (None, vm1) \<Rightarrow> k1 vm1 | (Some c, vm1) \<Rightarrow> k c vm1)"
  unfolding vm_ends_def by (simp split: prod.splits option.splits)

lemma VM_deployContract_ends: "vm_ends (VM_deployContract P b tx)"
proof (cases "ContractInformation_fromTransaction (bc_blockHeight b) tx")
  case (Inl e)
  then have "e \<noteq> FuelExhausted" by (auto simp: ContractInformation_fromTransaction_def split: option.splits)
  with Inl show ?thesis unfolding VM_deployContract_def [abs_def] by (simp add: vm_ends_def)
next
  case (Inr info)
  have "vm_ends (\<lambda>vm. (Inl NoEvaluator, vm))" by (simp add: vm_ends_def)
  with Inr show ?thesis unfolding VM_deployContract_def [abs_def]
    by (auto intro!: vm_ends_guard vm_ends_processing deploy_evaluator_ends vm_ends_bind vm_ends_first)
qed

text \<open>
  C6: The execution of a transaction, of a deployment and of an API call always returns: with the depth limits of the
  configuration, nested calls and deployments never exhaust \<open>call_fuel\<close>, whatever the contracts do, and a larger bound on
  the nesting gives the same result.
\<close>

theorem execution_terminates:
  "fst (executeTransaction P b tx simulated vm) \<noteq> Inl FuelExhausted
    \<and> fst (VM_deployContract P b dtx vm) \<noteq> Inl FuelExhausted
    \<and> fst (VM_execute P special headerData ids q vm) \<noteq> Inl FuelExhausted
    \<and> executeCall (call_fuel P + k) P cx (first_params a t deployed d (int depth) al) pages vm
        = executeCall (call_fuel P) P cx (first_params a t deployed d (int depth) al) pages vm"
  using executeTransaction_ends VM_execute_ends VM_deployContract_ends executeCall_more_fuel [OF first_room le_add1]
  unfolding vm_ends_def by auto

subsection \<open>Two contracts\<close>

text \<open>
  A concrete package for the examples: contract \<open>A\<close> calls \<open>B\<close> and exits with success whatever the answer; \<open>B\<close> exits
  with a status of 1. The readers take one byte per value.
\<close>

definition byte_reader :: "bigint reader" where
  "byte_reader d = (case d of [] \<Rightarrow> None | b # rest \<Rightarrow> Some (uint b, rest))"

definition sample_exit :: "nat \<Rightarrow> string + ExitDataResponse option" where
  "sample_exit status = Inr (Some \<lparr>ex_status = status, ex_data = [9], ex_gasUsed = 7\<rparr>)"

definition sample_rust :: "rust_parameters \<Rightarrow> rust_instance option" where
  "sample_rust rp = Some \<lparr>ri_usedGas = Some (rp_gasUsed rp), ri_environmentAccepted = (\<lambda>_. True),
     ri_run = (\<lambda>env entry calldata.
       if rp_address rp = ''A'' then Host (CallRequest [3, 0, 66]) (\<lambda>_. Finished (sample_exit 0) (Some 7))
       else Finished (sample_exit 1) (Some 7))\<rparr>"

definition sample_package :: "bool \<Rightarrow> vm_package" where
  "sample_package executor = \<lparr>vp_env = sample_env\<lparr>ve_isExecutor := executor\<rparr>, vp_gas = Roswell_GAS, vp_put = sorted_put,
     vp_fromBase64 = (\<lambda>_. None), vp_message = (\<lambda>_. ''error''), vp_errorBuffer = (\<lambda>_. [1]),
     vp_readU256 = byte_reader, vp_readU64 = byte_reader, vp_readU32 = byte_reader, vp_readU8 = byte_reader,
     vp_readAddress = (\<lambda>d. case d of [] \<Rightarrow> None | b # rest \<Rightarrow> Some (if b = 66 then ''B'' else ''C'', rest)),
     vp_readBytes = (\<lambda>n d. Some (take n d, drop n d)), vp_readBytesWithLength = (\<lambda>d. Some (d, [])),
     vp_readStringWithLength = (\<lambda>d. Some ([], d)), vp_writeU256 = (\<lambda>x. Some [word_of_int x]),
     vp_writeU64 = (\<lambda>x. Some [word_of_int x]), vp_writeU32 = (\<lambda>x. Some [word_of_int x]),
     vp_writeBoolean = (\<lambda>b. [if b then 1 else 0]), vp_writeAddress = (\<lambda>a. replicate 32 0), vp_uint8ArrayToValue = be_value,
     vp_dead = ''dead'', vp_serializedInputs = [], vp_serializedOutputs = [], NEW_STORAGE_SLOT_GAS_COST = 100,
     UPDATED_STORAGE_SLOT_GAS_COST = 10, ENABLED_LEVELS = [], MAX_LOADS = 0, vp_LEVEL2 = 0, vp_LEVEL3 = 1, vp_LEVEL5 = 2,
     vp_rust = sample_rust\<rparr>"

definition sample_contract :: "address \<Rightarrow> ContractInformation" where
  "sample_contract a = \<lparr>ci_blockHeight = 1, ci_contractAddress = a, contractPublicKey = a, ci_bytecode = [0, 1, 2],
     ci_wasCompressed = False, ci_deployedTransactionId = [], ci_deployedTransactionHash = [], ci_deployerPubKey = [],
     ci_contractSeed = [], ci_contractSaltHash = [], ci_deployerAddress = ''D''\<rparr>"

definition sample_node_state :: VMManager where
  "sample_node_state = sample_manager\<lparr>vm_blockId := 5, vm_contractAddressCache := [(''A'', ''A''), (''B'', ''B'')],
     vm_contractCache := [(''A'', sample_contract ''A''), (''B'', sample_contract ''B'')]\<rparr>"

definition sample_context :: call_context where
  "sample_context = \<lparr>cx_contractAddressStr = ''A'', cx_calldata = [], cx_msgSender = ''D'', cx_txOrigin = ''D'', cx_blockHash = [],
     cx_blockNumber = 5, cx_blockMedian = 0, cx_ids = ([], []), cx_preloadStorageList = None, cx_specialContract = None\<rparr>"

abbreviation sample_first :: ExecutionParameters where
  "sample_first \<equiv> first_params ''A'' (GasTracker_new Roswell_GAS 1000 None) None False 0 None"

subsection \<open>Read-only execution\<close>

lemma vm_quiet_processing:
  assumes "st_keeps (quiet (vm\<lparr>vm_isProcessing := True\<rparr>)) m" "\<not> vm_isProcessing vm"
  shows "quiet vm (snd (processing m vm))"
proof -
  have "quiet (vm\<lparr>vm_isProcessing := True\<rparr>) (snd (m (vm\<lparr>vm_isProcessing := True\<rparr>)))"
    by (rule st_keeps_snd [OF assms(1) quiet_refl])
  then show ?thesis using assms(2) by (auto simp: processing_def quiet_def split: prod.splits)
qed

lemma lift_call_quiet: "st_keeps (quiet vm0) m \<Longrightarrow> st_keeps (quiet vm0) (lift_call m)"
  unfolding st_keeps_def lift_call_def by (auto split: prod.splits sum.splits)

lemma executeCall_keeps_quiet:
  "ve_isExecutor (vp_env P) \<Longrightarrow> st_keeps (quiet vm0) (executeCall n P cx params pages)"
  unfolding st_keeps_def using executeCall_quiet quiet_trans by blast

text \<open>
  C18: The read-only execution of the API leaves the node as it was: on a manager that is an executor, whatever the called
  contract does (stores, nested calls, deployments), the database, the slots and the receipts of the block in
  progress, the pending ML-DSA keys and the processing flag are those of before.
\<close>

theorem api_execution_read_only:
  assumes "ve_isExecutor (vp_env P)"
  shows "quiet vm (snd (VM_execute P special headerData ids q vm))"
proof (cases "vm_isProcessing vm")
  case False
  show ?thesis using False
    by (auto simp: VM_execute_def intro!: vm_quiet_processing st_keeps_bind lift_call_quiet quiet_rules
        executeCall_keeps_quiet assms split: option.splits)
qed (simp add: VM_execute_def)

theorem api_execution_read_only_witness:
  "ve_isExecutor (vp_env (sample_package True))
    \<and> quiet sample_node_state (snd (VM_execute (sample_package True) (\<lambda>_. None) (\<lambda>_. (0, [])) ([], [])
        \<lparr>sm_to = ''A'', sm_from = ''D'', sm_calldata = [], sm_height = None, sm_now = 0, sm_cachedLastBlockHeight = None, sm_accessList = None,
         sm_preloadList = None\<rparr> sample_node_state))"
proof -
  have "ve_isExecutor (vp_env (sample_package True))" by (simp add: sample_package_def)
  with api_execution_read_only [OF this] show ?thesis by blast
qed

subsection \<open>A failed call takes the transaction with it\<close>

text \<open>The states a run of the native machine goes through, one host request at a time.\<close>

inductive visits ::
    "(host_request \<Rightarrow> host_response host) \<Rightarrow> rust_program \<Rightarrow> host_state \<Rightarrow> rust_program \<Rightarrow> host_state \<Rightarrow> bool"
  for h p s where
  start: "visits h p s p s"
| answered: "visits h p s (Host r k) s1 \<Longrightarrow> h r s1 = (Inr x, s2) \<Longrightarrow> visits h p s (k x) s2"
| failed: "visits h p s (Host r k) s1 \<Longrightarrow> h r s1 = (Inl e, s2) \<Longrightarrow> e \<noteq> FuelExhausted \<Longrightarrow> visits h p s (k (Failed e)) s2"

code_pred visits .

lemma visits_drive: "visits h p s p1 s1 \<Longrightarrow> drive h p s = drive h p1 s1"
  by (induction rule: visits.induct) simp_all

text \<open>The program and the state an evaluation starts its contract with.\<close>

definition entry_state ::
    "vm_package \<Rightarrow> call_context \<Rightarrow> ContractInformation \<Rightarrow> ExecutionParameters \<Rightarrow> bigint \<Rightarrow> VMManager \<Rightarrow> (rust_program \<times> host_state) option" where
  "entry_state P cx ci params pages vm =
     (case ContractEvaluation_new (vp_put P) (ve_fromString (vp_env P)) (vp_fromBase64 P) (vp_tx P) params of
        Inl _ \<Rightarrow> None
      | Inr e \<Rightarrow>
          (let s = \<lparr>hs_eval = e, hs_memoryPagesUsed = pages, hs_usedGas = None, hs_vm = vm\<rparr> in
           case loadContractFromBytecode P cx ci s of
             None \<Rightarrow> None
           | Some inst \<Rightarrow>
               (case st_bind (st_put (\<lambda>s. s\<lparr>hs_usedGas := ri_usedGas inst\<rparr>)) (\<lambda>_.
                     st_bind (setEnvironment P cx ci inst) (\<lambda>env. st_bind (preloadPointers P cx) (\<lambda>_. st_return env))) s of
                  (Inr env, s') \<Rightarrow> Some (ri_run inst env (entry_of params) (cx_calldata cx), s')
                | (Inl _, _) \<Rightarrow> None)))"

text \<open>A callee that counts a reverted evaluation as an error: the requests that fail with it are those whose callee failed.\<close>

definition strict :: "callee \<Rightarrow> callee" where
  "strict c cx params pages vm =
     (case c cx params pages vm of
        (Inr e, vm') \<Rightarrow> if ce_revert e \<noteq> None then (Inl ContractMissing, vm') else (Inr e, vm')
      | r \<Rightarrow> r)"

fun request_fails :: "vm_package \<Rightarrow> callee \<Rightarrow> call_context \<Rightarrow> host_request \<Rightarrow> host_state \<Rightarrow> bool" where
  "request_fails P c cx (CallRequest d) s = isl (fst (call_body P (strict c) cx d s))"
| "request_fails P c cx (DeployRequest d) s = isl (fst (deploy_body P (strict c) cx d s))"
| "request_fails P c cx (UpdateRequest d) s = isl (fst (update_body P d s))"
| "request_fails P c cx r s = False"

definition reverted :: "host_state \<Rightarrow> bool" where
  "reverted s \<longleftrightarrow> ce_revert (hs_eval s) \<noteq> None"

text \<open>A host function that fails or leaves a revert wherever its strict version fails, and does the same elsewhere.\<close>

definition follows :: "'a host \<Rightarrow> 'a host \<Rightarrow> bool" where
  "follows m' m \<longleftrightarrow> (\<forall>s. if isl (fst (m' s)) then isl (fst (m s)) \<or> reverted (snd (m s)) else m s = m' s)"

lemma follows_refl [simp]: "follows m m"
  by (simp add: follows_def)

lemma follows_bind:
  assumes "follows m' m" "\<And>x. follows (f' x) (f x)" "\<And>x. st_keeps reverted (f x)"
  shows "follows (st_bind m' f') (st_bind m f)"
  unfolding follows_def
proof
  fix s
  obtain r' s1' r s1 where m: "m' s = (r', s1')" "m s = (r, s1)" by fastforce
  have "isl r' \<longrightarrow> isl r \<or> reverted s1" "\<not> isl r' \<longrightarrow> r = r' \<and> s1 = s1'"
    using assms(1) m unfolding follows_def by (metis fst_conv prod.inject snd_conv)+
  moreover have "reverted s1 \<Longrightarrow> reverted (snd (f x s1))" for x
    using st_keeps_snd [where P = reverted, OF assms(3)] by blast
  moreover have fx: "isl (fst (f' x t)) \<Longrightarrow> isl (fst (f x t)) \<or> reverted (snd (f x t))" "\<not> isl (fst (f' x t)) \<Longrightarrow> f x t = f' x t" for x t
    using assms(2) unfolding follows_def by meson+
  ultimately show "if isl (fst (st_bind m' f' s)) then isl (fst (st_bind m f s)) \<or> reverted (snd (st_bind m f s))
      else st_bind m f s = st_bind m' f' s"
    using m fx by (cases r'; cases r) (auto simp: st_bind_def)
qed

lemma follows_if: "(b \<Longrightarrow> follows m' m) \<Longrightarrow> (\<not> b \<Longrightarrow> follows k' k) \<Longrightarrow> follows (if b then m' else k') (if b then m else k)"
  by simp

lemma follows_prod: "(\<And>a b. x = (a, b) \<Longrightarrow> follows (f a b) (g a b)) \<Longrightarrow> follows (case x of (a, b) \<Rightarrow> f a b) (case x of (a, b) \<Rightarrow> g a b)"
  by (cases x) simp

lemma internalCall_follows: "follows (internalCall P (strict c) cx cd d u a) (internalCall P c cx cd d u a)"
  unfolding follows_def
proof
  fix s :: host_state
  obtain r vm where c: "c (external_context P cx (hs_eval s) cd a) (external_params (hs_eval s) d u a) (hs_memoryPagesUsed s) (hs_vm s) = (r, vm)"
    by fastforce
  show "if isl (fst (internalCall P (strict c) cx cd d u a s)) then isl (fst (internalCall P c cx cd d u a s)) \<or> reverted (snd (internalCall P c cx cd d u a s))
      else internalCall P c cx cd d u a s = internalCall P (strict c) cx cd d u a s"
  proof (cases "\<exists>e. r = Inr e \<and> ce_revert e \<noteq> None")
    case True
    then obtain e where e: "r = Inr e" "ce_revert e \<noteq> None" by blast
    have "isl (fst (internalCall P c cx cd d u a s)) \<or> reverted (snd (internalCall P c cx cd d u a s))"
      using c e merge_keeps [of "vp_gas P" "vp_tx P" "share (hs_eval s) e" e]
      by (auto simp: internalCall_def reverted_def Let_def st_bind_def on_eval_def st_return_def split: sum.splits)
    moreover have "isl (fst (internalCall P (strict c) cx cd d u a s))"
      using c e by (auto simp: internalCall_def strict_def Let_def)
    ultimately show ?thesis by simp
  next
    case False
    then have "internalCall P (strict c) cx cd d u a s = internalCall P c cx cd d u a s"
      using c by (cases r) (auto simp: internalCall_def strict_def Let_def)
    then show ?thesis by simp
  qed
qed

lemma reverted_stays: "(\<And>e0. st_keeps (\<lambda>s. extends e0 (hs_eval s)) m) \<Longrightarrow> st_keeps reverted m"
  unfolding st_keeps_def extends_def reverted_def by (metis order_refl)

lemma reverted_put: "(\<And>s. hs_eval (f s) = hs_eval s) \<Longrightarrow> st_keeps reverted (st_put f)"
  by (rule st_keeps_put) (simp add: reverted_def)

lemma body_follows:
  assumes "grows c"
  shows "follows (call_body P (strict c) cx d) (call_body P c cx d)" "follows (deploy_body P (strict c) cx d) (deploy_body P c cx d)"
proof -
  note inst = extends_instance [OF assms]
  note keeps = evaluation_invariant.use_gas_keeps [OF inst] evaluation_invariant.internalCall_keeps [OF inst]
    evaluation_invariant.at_address_keeps [OF inst]
  note stays = keeps [THEN reverted_stays]
  show "follows (call_body P (strict c) cx d) (call_body P c cx d)"
    unfolding call_body_def buildCallResponse_def
    by (auto intro!: follows_bind follows_if follows_prod internalCall_follows st_keeps_bind stays reverted_put split: prod.splits)
  show "follows (deploy_body P (strict c) cx d) (deploy_body P c cx d)"
    unfolding deploy_body_def buildDeployFromAddressResponse_def
    by (auto intro!: follows_bind follows_if follows_prod internalCall_follows st_keeps_bind stays split: prod.splits)
qed

text \<open>After a request that fails the evaluation is reverted, unless the fuel ran out.\<close>

lemma caught_reverts:
  assumes "isl (fst (m s)) \<or> reverted (snd (m s))" "st_keeps reverted k" "r \<noteq> Inl FuelExhausted"
    and "try_catch m (\<lambda>err. st_bind (revert_with P err) (\<lambda>_. k)) s = (r, s')"
  shows "reverted s'"
proof (cases "fst (m s)")
  case (Inr y)
  then show ?thesis using assms by (auto simp: try_catch_def split: prod.splits)
next
  case (Inl err)
  then obtain s1 where m: "m s = (Inl err, s1)" by (metis prod.collapse)
  then have k: "st_bind (revert_with P err) (\<lambda>_. k) s1 = (r, s')"
    using assms(3,4) by (auto simp: try_catch_def split: if_splits)
  obtain s2 where s2: "revert_with P err s1 = (Inr (), s2)" "reverted s2"
    by (simp add: revert_with_def set_eval_def st_put_def set_revert_def reverted_def Let_def)
  then have "k s2 = (r, s')" using k by (simp add: st_bind_def)
  then show ?thesis using st_keepsD [OF assms(2) s2(2)] by blast
qed

lemma answer_body:
  assumes "st_bind m (\<lambda>b. st_return (Answer b)) s = (x, s')" "x \<noteq> Inl FuelExhausted"
  obtains y where "m s = (y, s')" "y \<noteq> Inl FuelExhausted"
  using assms by (auto simp: st_bind_def st_return_def split: prod.splits sum.splits)

lemma request_fails_reverts:
  assumes "grows c" "request_fails P c cx r s" "answer P c cx r s = (x, s')" "x \<noteq> Inl FuelExhausted"
  shows "reverted s'"
proof (cases r)
  case (CallRequest d)
  have "isl (fst (call_body P c cx d s)) \<or> reverted (snd (call_body P c cx d s))"
    using body_follows(1) [OF assms(1), of P cx d] assms(2) CallRequest unfolding follows_def by (metis request_fails.simps(1))
  note caught = caught_reverts [where m = "call_body P c cx d" and s = s, OF this]
  obtain y where "call P c cx d s = (y, s')" "y \<noteq> Inl FuelExhausted"
    using assms(3,4) CallRequest by (auto elim: answer_body)
  then show ?thesis unfolding call_def Let_def
    by (intro caught) (auto simp: buildCallResponse_def intro!: st_keeps_bind)
next
  case (DeployRequest d)
  have "isl (fst (deploy_body P c cx d s)) \<or> reverted (snd (deploy_body P c cx d s))"
    using body_follows(2) [OF assms(1), of P cx d] assms(2) DeployRequest unfolding follows_def by (metis request_fails.simps(2))
  note caught = caught_reverts [where m = "deploy_body P c cx d" and s = s, OF this]
  obtain y where "deployContractFromAddressRaw P c cx d s = (y, s')" "y \<noteq> Inl FuelExhausted"
    using assms(3,4) DeployRequest by (auto elim: answer_body)
  then show ?thesis unfolding deployContractFromAddressRaw_def Let_def
    by (intro caught) (auto simp: buildDeployFromAddressResponse_def intro!: st_keeps_bind split: prod.splits)
next
  case (UpdateRequest d)
  have "isl (fst (update_body P d s)) \<or> reverted (snd (update_body P d s))" using assms(2) UpdateRequest by simp
  note caught = caught_reverts [where m = "update_body P d" and s = s, OF this]
  obtain y where "updateContractFromAddressRaw P d s = (y, s')" "y \<noteq> Inl FuelExhausted"
    using assms(3,4) UpdateRequest by (auto elim: answer_body)
  then show ?thesis unfolding updateContractFromAddressRaw_def Let_def
    by (intro caught) (auto simp: buildUpdateFromAddressResponse_def intro!: st_keeps_bind split: prod.splits)
qed (use assms(2) in auto)

lemma visits_reverted:
  assumes "grows c" "visits (answer P c cx) p s p1 s1" "reverted s1" "drive (answer P c cx) p s = (r, s')"
  shows "reverted s'"
proof -
  have "st_keeps reverted (drive (answer P c cx) p1)"
    by (rule reverted_stays) (rule evaluation_invariant.drive_keeps [OF extends_instance [OF assms(1)]])
  then show ?thesis using visits_drive [OF assms(2)] assms(3,4) st_keepsD by metis
qed

lemma failed_request_drive:
  assumes "grows c" "visits (answer P c cx) p s (Host r k) s1" "request_fails P c cx r s1"
    and "drive (answer P c cx) p s = (out, s')" "out \<noteq> Inl FuelExhausted"
  shows "reverted s'"
proof -
  obtain x s2 where a: "answer P c cx r s1 = (x, s2)" by fastforce
  have "x \<noteq> Inl FuelExhausted" using visits_drive [OF assms(2)] assms(4,5) a by auto
  then have s2: "reverted s2" using request_fails_reverts [OF assms(1,3) a] by simp
  have "\<exists>p2. visits (answer P c cx) p s p2 s2"
    using \<open>x \<noteq> Inl FuelExhausted\<close> a assms(2) visits.answered visits.failed by (cases x) blast+
  then show ?thesis using visits_reverted [OF assms(1) _ s2 assms(4)] by blast
qed

lemma entry_run:
  assumes "entry_state P cx ci params pages vm = Some (prog, s0)"
  shows "\<exists>e inst. ContractEvaluation_new (vp_put P) (ve_fromString (vp_env P)) (vp_fromBase64 P) (vp_tx P) params = Inr e
    \<and> loadContractFromBytecode P cx ci \<lparr>hs_eval = e, hs_memoryPagesUsed = pages, hs_usedGas = None, hs_vm = vm\<rparr> = Some inst
    \<and> run_until_result P c cx ci params inst \<lparr>hs_eval = e, hs_memoryPagesUsed = pages, hs_usedGas = None, hs_vm = vm\<rparr>
        = st_bind (drive (answer P c cx) prog) (onExecutionResult P) s0"
  using assms
  by (auto simp: entry_state_def run_until_result_def Let_def st_bind_def st_return_def st_put_def
      split: sum.splits option.splits prod.splits)

lemma drive_only_fuel: "drive h p s = (Inl err, s') \<Longrightarrow> err = FuelExhausted"
proof (induction p arbitrary: s)
  case (Finished outcome used)
  then show ?case by (simp add: st_bind_def st_simps)
next
  case (Host request continue)
  from Host.prems show ?case by (auto split: prod.splits sum.splits if_splits intro: Host.IH [rotated])
qed

lemma run_reverted:
  assumes "grows c" "quiet_callee c" "entry_state P cx ci params pages vm = Some (prog, s0)"
    and "drive (answer P c cx) prog s0 = (out, s1)" "reverted s1" "evaluator_run P c cx ci params pages vm = (Inr e, vm')"
  shows "ce_revert e \<noteq> None \<and> quiet vm vm'"
proof -
  obtain e0 inst where new: "ContractEvaluation_new (vp_put P) (ve_fromString (vp_env P)) (vp_fromBase64 P) (vp_tx P) params = Inr e0"
    and load: "loadContractFromBytecode P cx ci \<lparr>hs_eval = e0, hs_memoryPagesUsed = pages, hs_usedGas = None, hs_vm = vm\<rparr> = Some inst"
    and run: "run_until_result P c cx ci params inst \<lparr>hs_eval = e0, hs_memoryPagesUsed = pages, hs_usedGas = None, hs_vm = vm\<rparr>
      = st_bind (drive (answer P c cx) prog) (onExecutionResult P) s0"
    using entry_run [OF assms(3), of c] by blast
  let ?s = "\<lparr>hs_eval = e0, hs_memoryPagesUsed = pages, hs_usedGas = None, hs_vm = vm\<rparr>"
  obtain r s2 where r: "run_until_result P c cx ci params inst ?s = (r, s2)" by fastforce
  have "host_quiet vm ?s" by simp
  then have q: "quiet vm (hs_vm s2)" using st_keepsD [OF hq_until_result [OF assms(2)] _ r] by blast
  have "st_keeps reverted (onExecutionResult P x)" for x
    by (rule reverted_stays) (rule evaluation_invariant.result_keeps [OF extends_instance [OF assms(1)]])
  then have "reverted (snd (onExecutionResult P x s1))" for x using assms(5) st_keeps_snd [where P = reverted] by blast
  then have "reverted (snd (st_bind (drive (answer P c cx) prog) (onExecutionResult P) s0))"
    using assms(4,5) by (cases out) (simp_all add: st_bind_def)
  then have rev: "reverted s2" using run r by (metis snd_conv)
  have "evaluate P c cx ci params ?s = (case r of Inl err \<Rightarrow> (Inl err, s2) | Inr _ \<Rightarrow> (Inr (), s2))"
    using load r rev by (auto simp: evaluate_split st_bind_def terminateEvaluation_def reverted_def split: sum.splits)
  then show ?thesis using assms(6) new rev q
    by (cases r) (auto simp: evaluator_run_def reverted_def set_revert_def Let_def split: if_splits)
qed

text \<open>
  C4: Calls are atomic. When a contract, at any point of its run, makes a call, a deployment or an update that fails
  (the handler throws, the callee throws, or the callee's evaluation is reverted), its own evaluation ends reverted,
  whatever it does afterwards: the result has no storage change, no event and no deployed contract, and the database,
  the slots and receipts of the block in progress are as before. As the evaluation that ends is the callee of the
  next one, the failure reaches the transaction.
\<close>

theorem failed_call_reverts_caller:
  assumes "entry_state P cx ci params pages vm = Some (prog, s0)"
    and "visits (answer P (executeCall n P) cx) prog s0 (Host request continue) s1"
    and "request_fails P (executeCall n P) cx request s1"
    and "evaluator_run P (executeCall n P) cx ci params pages vm = (Inr e, vm')"
  shows "ce_revert e \<noteq> None \<and> quiet vm vm'
    \<and> er_changedStorage (getEvaluationResult e) = Some [] \<and> er_events (getEvaluationResult e) = []
    \<and> er_deployedContracts (getEvaluationResult e) = []"
proof -
  have q: "quiet_callee (executeCall n P)" unfolding quiet_callee_def using executeCall_quiet by blast
  obtain out s2 where d: "drive (answer P (executeCall n P) cx) prog s0 = (out, s2)" by fastforce
  have "out \<noteq> Inl FuelExhausted"
    using assms(4) d entry_run [OF assms(1), of "executeCall n P"] by (auto simp: evaluator_run_def evaluate_split st_bind_def)
  then have "reverted s2" using failed_request_drive [OF executeCall_grows assms(2,3) d] by simp
  then have "ce_revert e \<noteq> None \<and> quiet vm vm'" by (rule run_reverted [OF executeCall_grows q assms(1) d _ assms(4)])
  then show ?thesis by (simp add: getEvaluationResult_def Let_def)
qed

text \<open>Contract \<open>A\<close> when it starts, and the call it makes.\<close>

definition sample_running :: host_state where
  "sample_running = \<lparr>hs_eval = (evaluation_of_params sample_first)\<lparr>ce_callStack := \<lparr>as_items = [''A'']\<rparr>, ce_touchedAddresses := [(''A'', True)]\<rparr>,
     hs_memoryPagesUsed = 0, hs_usedGas = Some 0, hs_vm = sample_node_state\<rparr>"

lemmas gas_eval = setGasUsed_def countGas_def maxGasVM_def combinedGas_def GasTracker_new_def gas_cap_def is_free_contract_def Roswell_GAS_def

lemmas start_eval = ContractEvaluation_new_def evaluation_of_params_def first_params_def AddressStack_push_def touchAddress_def parseAccessList_def

lemma sample_starts:
  "entry_state (sample_package False) sample_context (sample_contract ''A'') sample_first 0 sample_node_state
     = Some (Host (CallRequest [3, 0, 66]) (\<lambda>_. Finished (sample_exit 0) (Some 7)), sample_running)"
  by (simp add: entry_state_def start_eval sample_running_def sample_package_def sample_context_def
      loadContractFromBytecode_def sample_rust_def setEnvironment_def preloadPointers_def use_gas_def on_eval_def evaluation_setGasUsed_def
      gas_eval st_bind_def st_simps Let_def)

lemmas run_eval = executeCallInternal_def getVMEvaluatorFromParams_def evaluator_valid_def evaluator_run_def evaluate_def
  loadContractFromBytecode_def setEnvironment_def preloadPointers_def use_gas_def on_eval_def set_eval_def evaluation_setGasUsed_def
  onExecutionResult_def processResult_def terminateEvaluation_def gas_eval start_eval st_bind_def st_simps Let_def

lemma call_body_fails:
  assumes "isl (fst (internalCall P c cx calldata False False a s1))" "use_gas P g s = (Inr (), s1)"
    and "\<not> isCallStackTooDeep (vp_tx P) (hs_eval s1)" "s1\<lparr>hs_memoryPagesUsed := pages\<rparr> = s1"
    and "vp_readU64 P d = Some (g, d1)" "vp_readU32 P d1 = Some (pages, d2)"
    and "vp_readAddress P d2 = Some (a, d3)" "vp_readBytesWithLength P d3 = Some (calldata, d4)"
  shows "isl (fst (call_body P c cx d s))"
  using assms by (auto simp: call_body_def reading_def st_bind_def st_simps split: prod.splits sum.splits)

lemma sample_call_fails:
  "request_fails (sample_package False) (executeCall (Suc n) (sample_package False)) sample_context (CallRequest [3, 0, 66]) sample_running"
proof -
  let ?P = "sample_package False"
  let ?s = "sample_running\<lparr>hs_eval := (hs_eval sample_running)\<lparr>ce_gasTracker := (GasTracker_new Roswell_GAS 1000 None)\<lparr>gt_gasUsed := 3\<rparr>\<rparr>\<rparr>"
  obtain r vm where c: "executeCall (Suc n) ?P (external_context ?P sample_context (hs_eval ?s) [] ''B'')
      (external_params (hs_eval ?s) False False ''B'') 0 sample_node_state = (r, vm)" by fastforce
  moreover have "fst (executeCall (Suc n) ?P (external_context ?P sample_context (hs_eval ?s) [] ''B'')
      (external_params (hs_eval ?s) False False ''B'') 0 sample_node_state) = Inr e \<Longrightarrow> ce_revert e \<noteq> None" for e
    by (simp add: run_eval external_params_def external_context_def sample_running_def sample_node_state_def sample_package_def sample_context_def sample_env_def sample_contract_def
        getContractInformation_def sample_rust_def sample_exit_def Roswell_TRANSACTIONS_def entry_of_def) auto
  ultimately have "isl (fst (internalCall ?P (strict (executeCall (Suc n) ?P)) sample_context [] False False ''B'' ?s))"
    by (cases r) (auto simp: internalCall_def strict_def Let_def sample_running_def)
  moreover have "use_gas ?P 3 sample_running = (Inr (), ?s)"
    by (simp add: use_gas_def on_eval_def evaluation_setGasUsed_def gas_eval sample_package_def sample_running_def evaluation_of_params_def first_params_def)
  moreover have "\<not> isCallStackTooDeep (vp_tx ?P) (hs_eval ?s)" "?s\<lparr>hs_memoryPagesUsed := 0\<rparr> = ?s"
    by (simp_all add: isCallStackTooDeep_def sample_running_def sample_package_def sample_env_def Roswell_TRANSACTIONS_def AddressStack_length_def)
  moreover have "vp_readU64 ?P [3, 0, 66] = Some (3, [0, 66])" "vp_readU32 ?P [0, 66] = Some (0, [66])"
    "vp_readAddress ?P [66] = Some (''B'', [])" "vp_readBytesWithLength ?P [] = Some ([], [])"
    by (simp_all add: sample_package_def byte_reader_def)
  ultimately show ?thesis by (simp only: request_fails.simps) (rule call_body_fails)
qed

lemma run_returns:
  assumes "entry_state P cx ci params pages vm = Some (prog, s0)" "fst (evaluator_run P c cx ci params pages vm) \<noteq> Inl FuelExhausted"
  shows "\<exists>e vm'. evaluator_run P c cx ci params pages vm = (Inr e, vm')"
  using assms(2) entry_run [OF assms(1), of c] by (auto simp: evaluator_run_def split: prod.splits sum.splits if_splits)

theorem failed_call_reverts_caller_witness:
  "\<exists>e vm'. evaluator_run (sample_package False) (executeCall (Suc 52) (sample_package False)) sample_context (sample_contract ''A'')
       sample_first 0 sample_node_state = (Inr e, vm')
     \<and> ce_revert e \<noteq> None \<and> quiet sample_node_state vm' \<and> er_changedStorage (getEvaluationResult e) = Some []"
proof -
  let ?P = "sample_package False"
  have "call_fuel ?P = Suc 52" by (simp add: call_fuel_def sample_package_def sample_env_def Roswell_TRANSACTIONS_def)
  then have "fst (evaluator_run ?P (executeCall (Suc 52) ?P) sample_context (sample_contract ''A'') sample_first 0 sample_node_state) \<noteq> Inl FuelExhausted"
    using first_run_ends [where depth = 0, unfolded int_ops(1), of ?P sample_context "sample_contract ''A''" "''A''"
        "GasTracker_new Roswell_GAS 1000 None" None False None 0 sample_node_state]
    by (simp only: simp_thms)
  from run_returns [OF sample_starts this] obtain e vm' where run:
    "evaluator_run ?P (executeCall (Suc 52) ?P) sample_context (sample_contract ''A'') sample_first 0 sample_node_state = (Inr e, vm')" by blast
  from failed_call_reverts_caller [OF sample_starts visits.start sample_call_fails run] run show ?thesis by blast
qed

subsection \<open>Gas\<close>

definition within_gas :: "bigint \<Rightarrow> GasTracker \<Rightarrow> bool" where
  "within_gas M t \<longleftrightarrow> gt_settings t = None \<and> gt_specialGas t = 0 \<and> gt_maxGas t = M \<and> 0 \<le> gt_gasUsed t \<and> gt_gasUsed t \<le> M"

definition gas_callee :: "bigint \<Rightarrow> callee \<Rightarrow> bool" where
  "gas_callee M c \<longleftrightarrow> (\<forall>cx params pages vm e vm'. within_gas M (xp_gasTracker params) \<longrightarrow>
     (xp_externalCall params \<or> cx_specialContract cx = None) \<longrightarrow> c cx params pages vm = (Inr e, vm') \<longrightarrow> within_gas M (ce_gasTracker e))"

lemma gas_calleeD:
  "gas_callee M c \<Longrightarrow> c cx params pages vm = (Inr e, vm') \<Longrightarrow> within_gas M (xp_gasTracker params) \<Longrightarrow>
     xp_externalCall params \<or> cx_specialContract cx = None \<Longrightarrow> within_gas M (ce_gasTracker e)"
  unfolding gas_callee_def by blast

lemma setGasUsed_within: "within_gas M t \<Longrightarrow> setGasUsed cfg t g sg ext a = Inr t' \<Longrightarrow> within_gas M t'"
  by (auto simp: within_gas_def setGasUsed_def countGas_def maxGasVM_def is_free_contract_def Let_def split: if_splits option.splits)

definition eval_within :: "bigint \<Rightarrow> bool \<Rightarrow> ContractEvaluation \<Rightarrow> bool" where
  "eval_within M ext e \<longleftrightarrow> within_gas M (ce_gasTracker e) \<and> (ext \<longrightarrow> ce_externalCall e)"

lemma within_instance:
  assumes "gas_callee M c"
  shows "evaluation_invariant P c (eval_within M ext)"
proof
  show "eval_within M ext e \<Longrightarrow> evaluation_setGasUsed (vp_gas P) e g 0 = Inr e' \<Longrightarrow> eval_within M ext e'" for e g e'
    by (auto simp: eval_within_def evaluation_setGasUsed_def split: sum.splits dest: setGasUsed_within)
  show "eval_within M ext e \<Longrightarrow> addToStorage (vp_put P) e p v = Inr e' \<Longrightarrow> eval_within M ext e'" for e p v e'
    by (auto simp: eval_within_def addToStorage_def Let_def split: if_splits)
  show "eval_within M ext e \<Longrightarrow> emitEvent (vp_tx P) e ev = Inr e' \<Longrightarrow> eval_within M ext e'" for e ev e'
    by (auto simp: eval_within_def emitEvent_def enforceEventLimits_def setTotalEventSize_def Let_def split: if_splits)
  show "eval_within M ext e \<Longrightarrow> incrementContractDeployDepth (vp_tx P) e = Inr e' \<Longrightarrow> eval_within M ext e'" for e e'
    by (auto simp: eval_within_def incrementContractDeployDepth_def split: if_splits)
  show "eval_within M ext e \<Longrightarrow> incrementContractUpdates (vp_tx P) e = Inr e' \<Longrightarrow> eval_within M ext e'" for e e'
    by (auto simp: eval_within_def incrementContractUpdates_def split: if_splits)
  show "eval_within M ext e \<Longrightarrow> addContractInformation e ci = Inr e' \<Longrightarrow> eval_within M ext e'" for e ci e'
    by (auto simp: eval_within_def addContractInformation_def split: if_splits)
  fix e cx d u a pages vm response vm'
  assume e: "eval_within M ext e" and call: "c cx (external_params e d u a) pages vm = (Inr response, vm')"
  have g: "within_gas M (ce_gasTracker response)"
    using gas_calleeD [OF assms call] e by (simp add: external_params_def eval_within_def)
  then show "eval_within M ext (share e response)" using e by (simp add: eval_within_def share_def)
  fix e' assume m: "merge (vp_gas P) (vp_tx P) (share e response) response = Inr e'"
  then obtain t where t: "setGasUsed (vp_gas P) (ce_gasTracker (share e response)) (gt_gasUsed (ce_gasTracker response)) 0 True
      (Some (ce_contractAddress (share e response))) = Inr t" "ce_gasTracker e' = t"
    by (auto simp: merge_def Let_def mergeStorage_def split: if_splits sum.splits option.splits dest!: mergeEvents_only)
  then show "eval_within M ext e'"
    using setGasUsed_within [of M "ce_gasTracker (share e response)"] g e merge_keeps [OF m] by (simp add: eval_within_def share_def)
qed (auto simp: eval_within_def touchAddress_def incrementMLDSALoadCounter_def setStorage_def preloadedStorage_def setResult_def mergeStorage_def
    Let_def split: option.splits)

lemma getStorageState_eval: "getStorageState P cx p s = (r, s') \<Longrightarrow> hs_eval s' = hs_eval s"
  by (auto simp: getStorageState_def st_bind_def st_simps on_vm_def split: option.splits prod.splits sum.splits)

lemma slots_cost_bound:
  "slots_cost P cx sp g kvs cost s = (Inr cost', s') \<Longrightarrow> sp \<or> g + cost \<le> gt_maxGas (ce_gasTracker (hs_eval s)) \<Longrightarrow>
     hs_eval s' = hs_eval s \<and> (sp \<or> g + cost' \<le> gt_maxGas (ce_gasTracker (hs_eval s)))"
proof (induction kvs arbitrary: cost s)
  case Nil
  then show ?case by (simp add: st_simps)
next
  case (Cons kv kvs)
  obtain key v where kv: "kv = (key, v)" by (cases kv)
  from Cons.prems(1) obtain cost1 s1 where s1: "hs_eval s1 = hs_eval s" "slots_cost P cx sp g kvs cost1 s1 = (Inr cost', s')"
      "sp \<or> g + cost1 \<le> gt_maxGas (ce_gasTracker (hs_eval s))"
    unfolding kv slots_cost.simps Let_def
    by (auto simp: st_bind_def st_simps split: prod.splits sum.splits option.splits if_splits dest!: getStorageState_eval)
  with Cons.IH [OF s1(2)] show ?case by simp
qed

lemma addresses_cost_bound:
  "addresses_cost P cx m tg ts s = (Inr (tg', ts'), s') \<Longrightarrow>
     gt_gasUsed (ce_gasTracker (hs_eval s)) + tg \<le> gt_maxGas (ce_gasTracker (hs_eval s)) \<Longrightarrow>
     hs_eval s' = hs_eval s \<and> gt_gasUsed (ce_gasTracker (hs_eval s)) + tg' \<le> gt_maxGas (ce_gasTracker (hs_eval s))
     \<and> (cx_specialContract cx = None \<longrightarrow> ts' = ts)"
proof (induction m arbitrary: tg ts s)
  case Nil
  then show ?case by (simp add: st_simps)
next
  case (Cons x m)
  obtain a states where x: "x = (a, states)" by (cases x)
  let ?t = "ce_gasTracker (hs_eval s)"
  define sp where "sp = (\<not> ce_externalCall (hs_eval s) \<and> (case cx_specialContract cx of
                None \<Rightarrow> False | Some sp \<Rightarrow> freeGas sp \<and> sc_address sp = a))"
  define g where "g = (if sp then gt_specialGas ?t + ts else gt_gasUsed ?t + tg)"
  from Cons.prems(1) obtain cost s1 where c: "slots_cost P cx sp g (bm_contents states) 0 s = (Inr cost, s1)"
    and rest: "(if sp then addresses_cost P cx m tg (ts + cost) else addresses_cost P cx m (tg + cost) ts) s1 = (Inr (tg', ts'), s')"
    unfolding x addresses_cost.simps Let_def
    by (auto simp: st_bind_Inr_iff st_get_def sp_def [symmetric] g_def [symmetric])
  have "sp \<or> g + 0 \<le> gt_maxGas ?t" using Cons.prems(2) by (simp add: g_def)
  from slots_cost_bound [OF c this] have s1: "hs_eval s1 = hs_eval s" "sp \<or> g + cost \<le> gt_maxGas ?t" by simp_all
  show ?case
  proof (cases sp)
    case True
    then show ?thesis using Cons.IH [of tg "ts + cost" s1] rest s1(1) Cons.prems(2) by (auto simp: sp_def split: option.splits)
  next
    case False
    then show ?thesis using Cons.IH [of "tg + cost" ts s1] rest s1 Cons.prems(2) by (simp add: g_def)
  qed
qed

lemma within_cost:
  assumes "gas_callee M c" "cx_specialContract cx = None"
  shows "st_keeps (\<lambda>s. eval_within M ext (hs_eval s)) (calculateGasCostStore P cx)"
proof (rule st_keepsI)
  fix s :: host_state assume w: "eval_within M ext (hs_eval s)"
  show "eval_within M ext (hs_eval (snd (calculateGasCostStore P cx s)))"
  proof (cases "ce_modifiedStorage (hs_eval s)")
    case None
    then show ?thesis using w by (simp add: calculateGasCostStore_def)
  next
    case (Some m)
    obtain r s1 where a: "addresses_cost P cx m 0 0 s = (r, s1)" by fastforce
    show ?thesis
    proof (cases r)
      case (Inl err)
      then show ?thesis using Some a st_keepsD [OF evaluation_invariant.addresses_cost_keeps [OF within_instance [OF assms(1)]] w a]
        by (simp add: calculateGasCostStore_def st_bind_def)
    next
      case (Inr x)
      obtain tg ts where x: "x = (tg, ts)" by (cases x)
      have "hs_eval s1 = hs_eval s \<and> gt_gasUsed (ce_gasTracker (hs_eval s)) + tg \<le> gt_maxGas (ce_gasTracker (hs_eval s)) \<and> ts = 0"
        using addresses_cost_bound [OF a [unfolded Inr x]] w assms(2) by (simp add: eval_within_def within_gas_def)
      then show ?thesis using Some a Inr x w
        by (auto simp: calculateGasCostStore_def st_bind_def on_eval_def evaluation_setFinalGasUsed_def setFinalGasUsed_def
            eval_within_def within_gas_def split: sum.splits if_splits)
    qed
  qed
qed

lemma within_terminate:
  assumes "gas_callee M c" "ext \<or> cx_specialContract cx = None"
  shows "st_keeps (\<lambda>s. eval_within M ext (hs_eval s)) (terminateEvaluation P cx)"
proof (cases ext)
  case True
  then show ?thesis by (auto simp: st_keeps_def terminateEvaluation_def eval_within_def)
next
  case False
  with assms show ?thesis by (intro evaluation_invariant.terminate_keeps [OF within_instance] within_cost) auto
qed

lemma run_within:
  assumes "gas_callee M c" "within_gas M (xp_gasTracker params)" "xp_externalCall params \<or> cx_specialContract cx = None"
    and "evaluator_run P c cx ci params pages vm = (Inr e', vm')"
  shows "within_gas M (ce_gasTracker e')"
proof -
  obtain e where new: "ContractEvaluation_new (vp_put P) (ve_fromString (vp_env P)) (vp_fromBase64 P) (vp_tx P) params = Inr e"
    using assms(4) by (auto simp: evaluator_run_def split: sum.splits)
  have "eval_within M (xp_externalCall params) e" using new_grows [OF new] assms(2) by (simp add: eval_within_def)
  from evaluation_invariant.run_keeps [OF within_instance [OF assms(1)] within_terminate [OF assms(1,3)] new this assms(4)] show ?thesis
    by (simp add: eval_within_def)
qed

lemma executeCall_within: "gas_callee M (executeCall n P)"
proof (induction n)
  case 0
  then show ?case by (simp add: gas_callee_def)
next
  case (Suc n)
  have "within_gas M (ce_gasTracker e)"
    if w: "within_gas M (xp_gasTracker params)" "xp_externalCall params \<or> cx_specialContract cx = None" and c: "executeCall (Suc n) P cx params pages vm = (Inr e, vm')" for cx params pages vm e vm'
  proof -
    obtain ci vm1 where "evaluator_run P (executeCall n P) cx ci params pages vm1 = (Inr e, vm')"
      using executeCallInternal_cases [of P "executeCall n P" cx params pages vm "Inr e" vm'] c by auto
    from run_within [OF Suc.IH w(1) w(2) this] show ?thesis .
  qed
  then show ?case unfolding gas_callee_def by blast
qed

interpretation gas_limit: evaluation_invariant P "executeCall n P" "eval_within M ext" for n P M ext
  by (rule within_instance) (rule executeCall_within)

lemma tracker_within:
  "getGasTracker gas maxGas 0 None = Inr t \<Longrightarrow> within_gas (gas_cap maxGas (TRANSACTION_MAX_GAS gas)) t"
  by (auto simp: getGasTracker_def within_gas_def GasTracker_new_def setGasUsed_def countGas_def maxGasVM_def Let_def
      split: if_splits sum.splits)

lemma processing_result: "processing m vm = (r, vm') \<Longrightarrow> \<exists>vm1. m (vm\<lparr>vm_isProcessing := True\<rparr>) = (r, vm1)"
  by (auto simp: processing_def split: prod.splits)

lemma executeTransaction_result:
  assumes "executeTransaction P b tx simulated vm = (Inr e, vm')" "it_specialSettings tx = None"
  shows "\<exists>maxGas t cx a vm1 vm2.
    calculateMaxGas (vp_gas P) simulated (it_gasSatFee tx) (bc_baseGas b) (TRANSACTION_MAX_GAS (vp_gas P)) = Inr maxGas
    \<and> getGasTracker (vp_gas P) maxGas 0 None = Inr t
    \<and> executeCall (call_fuel P) P cx (first_params a t None False 0 None) 0 vm1 = (Inr e, vm2) \<and> cx_specialContract cx = None"
proof -
  obtain r s1 where found: "lift_call (getContractAddress (vp_env P) (it_contractAddress tx)) (vm\<lparr>vm_isProcessing := True\<rparr>) = (r, s1)"
    by fastforce
  show ?thesis
  proof (cases "r = Inr None \<or> (\<exists>err. r = Inl err)")
    case True
    with found assms show ?thesis
      by (auto simp: executeTransaction_def processing_def st_bind_def st_throw_def split: if_splits prod.splits)
  next
    case False
    then obtain a where "r = Inr (Some a)" by (cases r) auto
    with found assms show ?thesis
      apply (auto simp: executeTransaction_def st_bind_Inr_iff st_lift_def st_throw_def split: if_splits dest!: processing_result)
      apply (intro exI conjI, assumption+, simp)
      done
  qed
qed

lemma VM_deployContract_result:
  assumes "VM_deployContract P b dtx vm = (Inr e, vm')"
  shows "\<exists>maxGas t cx c a d vm1 vm2.
    calculateMaxGas (vp_gas P) False (dt_gasSatFee dtx) (bc_baseGas b) (TRANSACTION_MAX_GAS (vp_gas P)) = Inr maxGas
    \<and> getGasTracker (vp_gas P) maxGas 0 None = Inr t
    \<and> evaluator_run P (executeCall (call_fuel P) P) cx c (first_params a t d True 1 None) 0 vm1 = (Inr e, vm2) \<and> cx_specialContract cx = None"
  using assms
  apply (auto simp: VM_deployContract_def st_bind_Inr_iff st_lift_def st_throw_def
      split: if_splits option.splits sum.splits prod.splits dest!: processing_result)
  apply (intro exI conjI, assumption+, simp)
  done

definition gas_paid :: "vm_package \<Rightarrow> bool \<Rightarrow> bigint \<Rightarrow> bigint \<Rightarrow> ContractEvaluation \<Rightarrow> bool" where
  "gas_paid P simulated fee baseGas e \<longleftrightarrow>
     (case calculateMaxGas (vp_gas P) simulated fee baseGas (TRANSACTION_MAX_GAS (vp_gas P)) of
        Inl _ \<Rightarrow> False
      | Inr maxGas \<Rightarrow> 0 \<le> er_gasUsed (getEvaluationResult e) \<and> er_gasUsed (getEvaluationResult e) \<le> maxGas
          \<and> er_gasUsed (getEvaluationResult e) \<le> TRANSACTION_MAX_GAS (vp_gas P))"

lemma within_paid:
  assumes "calculateMaxGas (vp_gas P) simulated fee baseGas (TRANSACTION_MAX_GAS (vp_gas P)) = Inr maxGas"
    and "within_gas (gas_cap maxGas (TRANSACTION_MAX_GAS (vp_gas P))) (ce_gasTracker e)"
  shows "gas_paid P simulated fee baseGas e"
  using assms by (auto simp: gas_paid_def within_gas_def gas_cap_def getEvaluationResult_def Let_def split: if_splits)


definition sample_transaction :: InteractionTransaction where
  "sample_transaction = \<lparr>it_contractAddress = ''A'', it_from = ''D'', it_txOrigin = ''D'', it_msgSender = None, it_gasSatFee = 1000,
     it_calldata = [], it_ids = ([], []), it_preloadStorageList = None, it_specialSettings = None\<rparr>"

definition sample_block :: block_context where
  "sample_block = \<lparr>bc_blockHash = [], bc_blockHeight = 5, bc_blockMedian = 0, bc_baseGas = 1000000\<rparr>"

lemma sample_max_gas:
  "calculateMaxGas (vp_gas (sample_package False)) False 1000 1000000 (TRANSACTION_MAX_GAS (vp_gas (sample_package False))) = Inr (1000 * scalingFactor)"
  by (simp add: calculateMaxGas_def sample_package_def Roswell_GAS_def convertSatToGas_def toBaseBigInt_def scalingFactor_def)


end
