(* ===== verification/Block_Execution.thy ===== *)
theory Block_Execution
  imports Call_Safety
begin

text \<open>
  \<open>Block.ts\<close> and \<open>IndexingTask.ts\<close>: the transactions of a block are created and split into generic and OP_NET
  ones, the OP_NET ones are executed in order, the state and receipt trees are frozen, the block is signed, and the header
  is written when everything else has been saved.

  The transactions of a block are one list; \<open>opnetTransactions\<close> and \<open>genericTransactions\<close> hold positions of it, as the
  code's lists hold references to the same objects. The list \<open>bk_signal\<close> says at which of the next times \<open>signal.aborted\<close> is
  read someone has cancelled the task; from then on the block stays aborted. The promises the code collects in \<open>saveGenericPromises\<close> are their outcomes. Parsing a raw transaction
  and sorting are functions of the environment, as are the writes of transactions, which can fail. Logging and timings are left
  out. \<open>SpecialManager\<close> has no manager for any type, so no transaction has additional steps.
\<close>

subsection \<open>State\<close>

datatype OPNetTransactionTypes = Generic | Deployment | Interaction

text \<open>A transaction with what the execution needs of it: its inputs as pairs of transaction id and output index, and what
  a contract sees of inputs and outputs.\<close>

record block_transaction =
  bt_type :: OPNetTransactionTypes
  bt_index :: nat
  bt_originalIndex :: nat
  bt_id :: string
  bt_txid :: bytes
  bt_address :: address
  bt_inputList :: "(bytes \<times> nat) list"
  bt_inputs :: bytes
  bt_outputs :: bytes
  bt_originalKey :: bytes
  bt_mldsaLinkRequest :: "MLDSARequestData option"
  bt_specialSettings :: "SpecialContract option"
  bt_interaction :: InteractionTransaction
  bt_deployment :: DeploymentTransaction
  bt_contractPublicKey :: bytes
  bt_hash :: bytes
  bt_submission :: "Submission option"
  bt_receipt :: "EvaluatedResult option"
  bt_revert :: "bytes option"
  bt_receiptProofs :: "string list option"

definition firstInput :: "block_transaction \<Rightarrow> bytes option" where
  "firstInput tx = (case bt_inputList tx of [] \<Rightarrow> None | (originalTransactionId, _) # _ \<Rightarrow> Some originalTransactionId)"

datatype block_error = OPNetDisabled | BlockOutOfGas | CoinbaseNotAllowed | AssignFailed assign_error | DeadAddress
  | ExecutionFailed call_error | ManagerFailed vm_error | RevertedWithDeployments | BlockAborted | AlreadyExecuted
  | AlreadyProcessed | HeaderFailed header_error | TreeFailed merkle_error | PredictorFailed gas_error | DuplicatePredictor
  | SaveFailed | SpecialExecutionMissing | TransactionsExist | NoRawData | SortFailed | BlockUnsigned
  | ConsensusNotReady | WritesNotKilled | PrefetchFailed | SolutionsAlreadySet | BlockWasReverted | FinalizationFailed
  | TaskCancelled | MempoolFailed | SubmissionsFailed

record EpochSubmission =
  es_submission :: Submission
  es_validationResult :: "ValidatedSolutionResult option"
  es_transactionId :: bytes
  es_txHash :: bytes

record Block =
  bk_height :: bigint
  bk_hash :: string
  bk_hashBuffer :: bytes
  bk_previousBlockHash :: string
  bk_merkleRoot :: string
  bk_median :: bigint
  bk_transactions :: "block_transaction list"
  bk_genericTransactions :: "nat list"
  bk_opnetTransactions :: "nat list"
  bk_specialTransaction :: "nat list"
  bk_processed :: bool
  bk_executed :: bool
  bk_reverted :: bool
  bk_blockUsedGas :: bigint
  bk_prevEMA :: bigint
  bk_prevBaseGas :: bigint
  bk_predictedGas :: "CalculatedBlockGas option"
  bk_storageRoot :: "string option"
  bk_receiptRoot :: "string option"
  bk_receiptProofs :: "(string, string list) address_values option"
  bk_document :: "BlockHeaderDocument option"
  bk_saveGenericPromises :: "(block_error + unit) list"
  bk_epochSubmissions :: "(string, EpochSubmission) js_map"
  bk_allowedSolutions :: bool
  bk_aborted :: bool
  bk_signal :: "bool list"

record block_env =
  be_package :: vm_package
  be_signer :: signer_package
  be_opnet :: OPNetEnabledConfigs
  be_addressOf :: "bytes \<times> bytes \<Rightarrow> address"
  be_isDead :: "address \<Rightarrow> bool"
  be_gasOf :: "BlockHeaderDocument \<Rightarrow> bigint \<times> bigint"
  be_toHex :: "bytes \<Rightarrow> string"
  be_errorBuffer :: "block_error \<Rightarrow> bytes"
  be_simulateHighGas :: bool
  be_savesGeneric :: bool
  be_savesOPNet :: bool
  be_epoch :: EPOCH_config
  be_externals :: externals
  be_existsFails :: bool
  be_savesSubmission :: "IEpochSubmissionsDocument \<Rightarrow> bool"
  be_allowUnsafe :: bool
  be_keyAddress :: "bytes \<Rightarrow> address"

record exec_state =
  xs_block :: Block
  xs_vm :: VMManager
  xs_tweakedKeys :: "bytes list"

type_synonym 'a exec = "exec_state \<Rightarrow> (block_error + 'a) \<times> exec_state"

abbreviation be_env :: "block_env \<Rightarrow> vm_env" where
  "be_env X \<equiv> vp_env (be_package X)"

abbreviation be_gas :: "block_env \<Rightarrow> GAS_config" where
  "be_gas X \<equiv> vp_gas (be_package X)"

definition on_block :: "(Block \<Rightarrow> Block) \<Rightarrow> unit exec" where
  "on_block f = st_put (\<lambda>s. s\<lparr>xs_block := f (xs_block s)\<rparr>)"

definition on_manager :: "('e \<Rightarrow> block_error) \<Rightarrow> (VMManager \<Rightarrow> ('e + 'a) \<times> VMManager) \<Rightarrow> 'a exec" where
  "on_manager c m s = (case m (xs_vm s) of
      (Inl e, vm) \<Rightarrow> (Inl (c e), s\<lparr>xs_vm := vm\<rparr>)
    | (Inr x, vm) \<Rightarrow> (Inr x, s\<lparr>xs_vm := vm\<rparr>))"

definition update_tx :: "nat \<Rightarrow> (block_transaction \<Rightarrow> block_transaction) \<Rightarrow> unit exec" where
  "update_tx i f = on_block (\<lambda>b. b\<lparr>bk_transactions := (bk_transactions b)[i := f (bk_transactions b ! i)]\<rparr>)"

definition verifyIfBlockAborted :: "unit exec" where
  "verifyIfBlockAborted s =
     (let b = xs_block s; isAborted = (bk_aborted b \<or> (bk_signal b \<noteq> [] \<and> hd (bk_signal b))) in
      (if isAborted then Inl BlockAborted else Inr (),
       s\<lparr>xs_block := b\<lparr>bk_aborted := isAborted, bk_signal := tl (bk_signal b)\<rparr>\<rparr>))"

definition block_catch :: "'a exec \<Rightarrow> (block_error \<Rightarrow> 'a exec) \<Rightarrow> 'a exec" where
  "block_catch m h s = (case m s of (Inl e, s') \<Rightarrow> h e s' | (Inr x, s') \<Rightarrow> (Inr x, s'))"

subsection \<open>One transaction\<close>

definition prevBaseGas :: "block_env \<Rightarrow> Block \<Rightarrow> bigint" where
  "prevBaseGas X b = (if bk_prevBaseGas b \<noteq> 0 then bk_prevBaseGas b
     else \<lfloor>MIN_BASE_GAS (be_gas X) * rat_of_int scalingFactor\<rfloor>)"

definition isOPNetEnabled :: "block_env \<Rightarrow> Block \<Rightarrow> bool" where
  "isOPNetEnabled X b \<longleftrightarrow> OE_ENABLED (be_opnet X) \<and> OE_BLOCK (be_opnet X) \<le> bk_height b"

definition checkConstraintsBlock :: "block_env \<Rightarrow> block_transaction \<Rightarrow> unit exec" where
  "checkConstraintsBlock X tx s =
     (if \<not> isOPNetEnabled X (xs_block s) then (Inl OPNetDisabled, s)
      else if (case bt_specialSettings tx of Some sp \<Rightarrow> bypassBlockLimit sp | None \<Rightarrow> False) then (Inr (), s)
      else if MAX_THEORETICAL_GAS (be_gas X) < bk_blockUsedGas (xs_block s) then (Inl BlockOutOfGas, s)
      else (Inr (), s))"

text \<open>\<open>assignMLDSAToLegacy\<close> gives the transaction the address it runs under.\<close>

definition assign_sender :: "block_env \<Rightarrow> nat \<Rightarrow> unit exec" where
  "assign_sender X i s =
     (let tx = bk_transactions (xs_block s) ! i; vm = xs_vm s in
      case assignMLDSAToLegacy (be_signer X) (st_publicKeys (vm_storage vm)) (vm_blockId vm) (bt_originalKey tx)
             (bt_mldsaLinkRequest tx) (vm_mldsa vm) of
        (Inl e, r) \<Rightarrow> (Inl (AssignFailed e), s\<lparr>xs_vm := vm\<lparr>vm_mldsa := r\<rparr>\<rparr>)
      | (Inr k, r) \<Rightarrow>
          update_tx i (\<lambda>tx. tx\<lparr>bt_interaction := (bt_interaction tx)\<lparr>it_from := be_addressOf X k, it_txOrigin := be_addressOf X k\<rparr>,
              bt_deployment := (bt_deployment tx)\<lparr>dt_from := be_addressOf X k\<rparr>\<rparr>)
            (s\<lparr>xs_vm := vm\<lparr>vm_mldsa := r\<rparr>\<rparr>))"

definition tx_package :: "block_env \<Rightarrow> block_transaction \<Rightarrow> vm_package" where
  "tx_package X tx = (be_package X)\<lparr>vp_serializedInputs := bt_inputs tx, vp_serializedOutputs := bt_outputs tx\<rparr>"

definition block_context_of :: "block_env \<Rightarrow> Block \<Rightarrow> block_context" where
  "block_context_of X b = \<lparr>bc_blockHash = bk_hashBuffer b, bc_blockHeight = bk_height b, bc_blockMedian = bk_median b,
     bc_baseGas = prevBaseGas X b\<rparr>"

definition totalGasUsed :: "ContractEvaluation \<Rightarrow> bigint" where
  "totalGasUsed e = gt_gasUsed (ce_gasTracker e) + gt_specialGas (ce_gasTracker e)"

definition processRevertedTx :: "nat \<Rightarrow> unit exec" where
  "processRevertedTx i = update_tx i (\<lambda>tx. case bt_receipt tx of
      None \<Rightarrow> tx
    | Some r \<Rightarrow> (case er_revert r of None \<Rightarrow> tx | Some e \<Rightarrow> tx\<lparr>bt_revert := Some e\<rparr>))"

definition processEvaluation :: "block_env \<Rightarrow> nat \<Rightarrow> ContractEvaluation \<Rightarrow> unit exec" where
  "processEvaluation X i e =
     st_bind (st_get (\<lambda>s. bk_transactions (xs_block s) ! i)) (\<lambda>tx.
       on_manager ManagerFailed
         (updateBlockValuesFromResult (be_env X) (Some e) (ce_contractAddress e) (be_toHex X (bt_txid tx)) (ve_disableStorageCheck (be_env X))))"

definition processTransactionFailure :: "block_env \<Rightarrow> nat \<Rightarrow> block_error \<Rightarrow> unit exec" where
  "processTransactionFailure X i err =
     st_bind (on_block (\<lambda>b. b\<lparr>bk_blockUsedGas := bk_blockUsedGas b + PANIC_GAS_COST (be_gas X)\<rparr>)) (\<lambda>_.
     st_bind (update_tx i (\<lambda>tx. tx\<lparr>bt_revert := Some (be_errorBuffer X err)\<rparr>)) (\<lambda>_.
     st_bind (st_get (\<lambda>s. bk_transactions (xs_block s) ! i)) (\<lambda>tx.
       on_manager ManagerFailed (updateBlockValuesFromResult (be_env X) None (bt_address tx) (bt_id tx) True))))"

definition verifyTransaction :: "nat \<Rightarrow> unit exec" where
  "verifyTransaction i s =
     (case bt_receipt (bk_transactions (xs_block s) ! i) of
        None \<Rightarrow> (Inr (), s)
      | Some r \<Rightarrow> (if er_revert r \<noteq> None \<and> er_deployedContracts r \<noteq> [] then Inl RevertedWithDeployments else Inr (), s))"

text \<open>What follows the execution, the same for both kinds.\<close>

definition record_evaluation :: "block_env \<Rightarrow> nat \<Rightarrow> ContractEvaluation \<Rightarrow> unit exec" where
  "record_evaluation X i e =
     st_bind (on_block (\<lambda>b. b\<lparr>bk_blockUsedGas := bk_blockUsedGas b + totalGasUsed e\<rparr>)) (\<lambda>_.
     st_bind (update_tx i (\<lambda>tx. tx\<lparr>bt_receipt := Some (getEvaluationResult e)\<rparr>)) (\<lambda>_.
     st_bind (processRevertedTx i) (\<lambda>_. processEvaluation X i e)))"

definition executeInteractionTransaction :: "block_env \<Rightarrow> nat \<Rightarrow> bool \<Rightarrow> unit exec" where
  "executeInteractionTransaction X i isSimulation =
     st_bind (block_catch
       (st_bind (st_get (\<lambda>s. bk_transactions (xs_block s) ! i)) (\<lambda>tx.
        st_bind (checkConstraintsBlock X tx) (\<lambda>_.
        if firstInput tx = None \<or> firstInput tx = Some [] then st_throw CoinbaseNotAllowed
        else
          st_bind (assign_sender X i) (\<lambda>_.
          st_bind (st_get (\<lambda>s. (bk_transactions (xs_block s) ! i, xs_block s))) (\<lambda>(tx, b).
          if be_isDead X (it_from (bt_interaction tx)) then st_throw DeadAddress
          else
            st_bind (on_manager ExecutionFailed
              (executeTransaction (tx_package X tx) (block_context_of X b)
                ((bt_interaction tx)\<lparr>it_specialSettings := bt_specialSettings tx\<rparr>) isSimulation)) (\<lambda>e.
              record_evaluation X i e))))))
       (processTransactionFailure X i)) (\<lambda>_. verifyTransaction i)"

definition executeDeploymentTransaction :: "block_env \<Rightarrow> nat \<Rightarrow> unit exec" where
  "executeDeploymentTransaction X i =
     st_bind (block_catch
       (st_bind (st_get (\<lambda>s. bk_transactions (xs_block s) ! i)) (\<lambda>tx.
        st_bind (checkConstraintsBlock X tx) (\<lambda>_.
        if firstInput tx = None then st_throw CoinbaseNotAllowed
        else
          st_bind (assign_sender X i) (\<lambda>_.
          st_bind (st_get (\<lambda>s. (bk_transactions (xs_block s) ! i, xs_block s))) (\<lambda>(tx, b).
          if be_isDead X (dt_from (bt_deployment tx)) then st_throw DeadAddress
          else
            st_bind (on_manager ExecutionFailed
              (VM_deployContract (tx_package X tx) (block_context_of X b) (bt_deployment tx))) (\<lambda>e.
              record_evaluation X i e))))))
       (processTransactionFailure X i)) (\<lambda>_. verifyTransaction i)"

text \<open>\<open>SpecialManager\<close>: its table of managers is empty.\<close>

definition requireAdditionalSteps :: "OPNetTransactionTypes \<Rightarrow> bool" where
  "requireAdditionalSteps t = False"

definition executeOPNetSingleTransaction :: "block_env \<Rightarrow> nat \<Rightarrow> unit exec" where
  "executeOPNetSingleTransaction X i =
     st_bind (st_get (\<lambda>s. bk_transactions (xs_block s) ! i)) (\<lambda>tx.
     st_bind (case bt_type tx of
         Interaction \<Rightarrow> executeInteractionTransaction X i False
       | Deployment \<Rightarrow>
           st_bind (executeDeploymentTransaction X i) (\<lambda>_.
             st_put (\<lambda>s. s\<lparr>xs_tweakedKeys := xs_tweakedKeys s @ [bt_contractPublicKey tx]\<rparr>))
       | Generic \<Rightarrow> st_return ()) (\<lambda>_.
     st_bind (st_get (\<lambda>s. bk_transactions (xs_block s) ! i)) (\<lambda>tx.
       st_when (bt_revert tx = None \<and> requireAdditionalSteps (bt_type tx))
         (on_block (\<lambda>b. b\<lparr>bk_specialTransaction := bk_specialTransaction b @ [i]\<rparr>)))))"

fun executeOPNetTransactions :: "block_env \<Rightarrow> nat list \<Rightarrow> unit exec" where
  "executeOPNetTransactions X [] = st_return ()"
| "executeOPNetTransactions X (i # rest) =
     st_bind (executeOPNetSingleTransaction X i) (\<lambda>_.
     st_bind verifyIfBlockAborted (\<lambda>_. executeOPNetTransactions X rest))"

definition executeSpecialTransactions :: "unit exec" where
  "executeSpecialTransactions =
     st_bind (st_get (\<lambda>s. map (\<lambda>i. bt_type (bk_transactions (xs_block s) ! i)) (bk_specialTransaction (xs_block s)))) (\<lambda>types.
       if list_all requireAdditionalSteps types then st_return () else st_throw SpecialExecutionMissing)"

subsection \<open>The end of a block\<close>

definition lift_block :: "('e \<Rightarrow> block_error) \<Rightarrow> 'e + 'a \<Rightarrow> 'a exec" where
  "lift_block c r = (case r of Inl e \<Rightarrow> st_throw (c e) | Inr x \<Rightarrow> st_return x)"

definition proofs_for :: "(string, string list) address_values \<Rightarrow> block_transaction \<Rightarrow> block_transaction" where
  "proofs_for receiptProofs tx =
     (case map_of receiptProofs (bt_address tx) of
        None \<Rightarrow> tx
      | Some contractProofs \<Rightarrow> tx\<lparr>bt_receiptProofs := map_of contractProofs (bt_id tx)\<rparr>)"

fun assign_proofs :: "(string, string list) address_values \<Rightarrow> nat list \<Rightarrow> unit exec" where
  "assign_proofs receiptProofs [] = st_return ()"
| "assign_proofs receiptProofs (i # rest) =
     st_bind verifyIfBlockAborted (\<lambda>_.
     st_bind (st_get (\<lambda>s. bt_type (bk_transactions (xs_block s) ! i))) (\<lambda>t.
     st_bind (st_when (t \<noteq> Generic) (update_tx i (proofs_for receiptProofs))) (\<lambda>_.
       assign_proofs receiptProofs rest)))"

definition assignReceiptProofsToTransactions :: "unit exec" where
  "assignReceiptProofsToTransactions =
     st_bind (st_get (\<lambda>s. (bk_receiptProofs (xs_block s), length (bk_transactions (xs_block s))))) (\<lambda>(proofs, n).
       case proofs of None \<Rightarrow> st_return () | Some receiptProofs \<Rightarrow> assign_proofs receiptProofs [0..<n])"

definition setGasParameters :: "block_env \<Rightarrow> BlockHeaderDocument option \<Rightarrow> unit exec" where
  "setGasParameters X previousBlockHeaders =
     (case previousBlockHeaders of
        None \<Rightarrow> st_return ()
      | Some d \<Rightarrow> on_block (\<lambda>b. b\<lparr>bk_prevEMA := fst (be_gasOf X d), bk_prevBaseGas := snd (be_gasOf X d)\<rparr>))"

definition calculateNextBlockBaseGas :: "block_env \<Rightarrow> unit exec" where
  "calculateNextBlockBaseGas X =
     st_bind (st_get xs_block) (\<lambda>b0.
     if bk_predictedGas b0 \<noteq> None then st_throw DuplicatePredictor
     else
       st_bind (st_when (be_simulateHighGas X)
         (on_block (\<lambda>b. b\<lparr>bk_blockUsedGas := bk_blockUsedGas b + (TARGET_GAS (be_gas X) - 1000000)\<rparr>))) (\<lambda>_.
       st_bind (st_get xs_block) (\<lambda>b.
       st_bind (lift_block PredictorFailed (calculateNextBaseGas
           (BlockGasPredictor_new (MIN_BASE_GAS (be_gas X)) (Some (prevBaseGas X b)) (TARGET_GAS (be_gas X))
             (SMOOTH_OUT_GAS_INCREASE (be_gas X)) (SMOOTHING_FACTOR (be_gas X)) (ALPHA1 (be_gas X)) (ALPHA2 (be_gas X))
             (U_TARGET (be_gas X)))
           (bk_blockUsedGas b) (bk_prevEMA b))) (\<lambda>(p, g).
         on_block (\<lambda>b. b\<lparr>bk_predictedGas := Some g\<rparr>)))))"

definition executed_of :: "Block \<Rightarrow> string \<Rightarrow> string \<Rightarrow> executed_block" where
  "executed_of b storageRoot receiptRoot = \<lparr>eb_height = bk_height b, eb_hash = bk_hash b,
     eb_previousBlockHash = bk_previousBlockHash b, eb_merkleRoot = bk_merkleRoot b, eb_storageRoot = storageRoot,
     eb_receiptRoot = receiptRoot\<rparr>"

text \<open>\<open>storageRoot\<close> throws on an empty string as well, \<open>receiptRoot\<close> only when it is missing.\<close>

definition Block_signBlock :: "block_env \<Rightarrow> unit exec" where
  "Block_signBlock X =
     st_bind assignReceiptProofsToTransactions (\<lambda>_.
     st_bind (st_get (\<lambda>s. bk_height (xs_block s))) (\<lambda>height.
     st_bind (on_manager HeaderFailed (\<lambda>vm. case getPreviousBlockChecksumOfHeight (vm_headers vm) (ve_light (be_env X)) height (vm_validator vm) of
         (r, v) \<Rightarrow> (r, vm\<lparr>vm_validator := v\<rparr>))) (\<lambda>previousChecksumHeader.
     if previousChecksumHeader = [] then st_throw (HeaderFailed DataCorrupted)
     else
       st_bind (calculateNextBlockBaseGas X) (\<lambda>_.
       st_bind (st_get xs_block) (\<lambda>b.
       case (bk_storageRoot b, bk_receiptRoot b) of
         (Some storageRoot, Some receiptRoot) \<Rightarrow>
           if storageRoot = [] then st_throw BlockUnsigned
           else
             st_bind (lift_block TreeFailed
               (res_bind (setBlockData (ve_merkle (be_env X)) (bk_previousBlockHash b) previousChecksumHeader (bk_hash b)
                   (bk_merkleRoot b) storageRoot receiptRoot ChecksumMerkle_new) (\<lambda>c.
                res_bind (ChecksumMerkle_getProofs (ve_merkle (be_env X)) c) (\<lambda>proofs.
                res_bind (ChecksumMerkle_root (ve_merkle (be_env X)) c) (\<lambda>rt.
                  Inr (getBlockHeaderDocument (executed_of b storageRoot receiptRoot) rt previousChecksumHeader proofs)))))) (\<lambda>d.
             st_bind (on_block (\<lambda>b. b\<lparr>bk_document := Some d\<rparr>)) (\<lambda>_.
             st_bind executeSpecialTransactions (\<lambda>_. on_block (\<lambda>b. b\<lparr>bk_specialTransaction := []\<rparr>))))
       | _ \<Rightarrow> st_throw BlockUnsigned)))))"

definition processBlockStates :: "block_env \<Rightarrow> StateMerkleTree \<times> ReceiptMerkleTree \<Rightarrow> unit exec" where
  "processBlockStates X states =
     (let (storageTree, receipts) = states; M = ve_merkle (be_env X) in
      st_bind (if MerkleTree_size storageTree \<noteq> 0
        then st_bind (lift_block TreeFailed (MerkleTree_root M storageTree)) (\<lambda>r. on_block (\<lambda>b. b\<lparr>bk_storageRoot := Some r\<rparr>))
        else on_block (\<lambda>b. b\<lparr>bk_storageRoot := Some ZERO_HASH\<rparr>)) (\<lambda>_.
      st_bind verifyIfBlockAborted (\<lambda>_.
      st_bind (lift_block TreeFailed (ReceiptMerkleTree_getProofs M receipts)) (\<lambda>proofs.
      st_bind (lift_block TreeFailed (MerkleTree_root M receipts)) (\<lambda>r.
      st_bind (on_block (\<lambda>b. b\<lparr>bk_receiptRoot := Some r, bk_receiptProofs := Some proofs\<rparr>)) (\<lambda>_. Block_signBlock X))))))"

definition onEmptyBlock :: "block_env \<Rightarrow> unit exec" where
  "onEmptyBlock X = st_bind (on_block (\<lambda>b. b\<lparr>bk_storageRoot := Some ZERO_HASH, bk_receiptRoot := Some ZERO_HASH\<rparr>)) (\<lambda>_. Block_signBlock X)"

subsection \<open>Saving transactions\<close>

text \<open>\<open>saveTransactions\<close> replaces the document of a transaction in its block.\<close>

definition tx_document :: "Block \<Rightarrow> nat \<Rightarrow> ITransactionDocument" where
  "tx_document b i = \<lparr>td_blockHeight = bk_height b, td_id = bt_txid (bk_transactions b ! i)\<rparr>"

definition saveTransactions :: "ITransactionDocument list \<Rightarrow> VMManager \<Rightarrow> VMManager" where
  "saveTransactions ds vm = vm\<lparr>vm_storage := (vm_storage vm)\<lparr>st_transactions :=
     filter (\<lambda>d. d \<notin> set ds) (st_transactions (vm_storage vm)) @ ds\<rparr>\<rparr>"

text \<open>A failed write of generic transactions aborts the block; the promise itself succeeds. A failed write of
  OP_NET transactions rejects the promise.\<close>

definition saveGenericTransactions :: "block_env \<Rightarrow> unit exec" where
  "saveGenericTransactions X s =
     (let b = xs_block s in
      if bk_genericTransactions b = [] then (Inr (), s)
      else if be_savesGeneric X
      then (Inr (), s\<lparr>xs_vm := saveTransactions (map (tx_document b) (bk_genericTransactions b)) (xs_vm s)\<rparr>)
      else (Inr (), s\<lparr>xs_block := b\<lparr>bk_aborted := True\<rparr>\<rparr>))"

definition saveOPNetTransactions :: "block_env \<Rightarrow> unit exec" where
  "saveOPNetTransactions X s =
     (let b = xs_block s in
      if bk_opnetTransactions b = [] then (Inr (), s)
      else if be_savesOPNet X
      then (Inr (), s\<lparr>xs_vm := saveTransactions (map (tx_document b) (bk_opnetTransactions b)) (xs_vm s)\<rparr>)
      else (Inl SaveFailed, s))"

definition started :: "unit exec \<Rightarrow> unit exec" where
  "started m s = (case m s of (r, s') \<Rightarrow>
     (Inr (), s'\<lparr>xs_block := (xs_block s')\<lparr>bk_saveGenericPromises := bk_saveGenericPromises (xs_block s') @ [r]\<rparr>\<rparr>))"

definition insertPartialTransactions :: "block_env \<Rightarrow> unit exec" where
  "insertPartialTransactions X = st_when (\<not> ve_resync (be_env X)) (started (saveGenericTransactions X))"

definition await_saves :: "unit exec" where
  "await_saves = st_bind (st_get (\<lambda>s. bk_saveGenericPromises (xs_block s))) (\<lambda>ps.
     if list_all (\<lambda>r. r = Inr ()) ps then st_return () else st_throw SaveFailed)"

subsection \<open>Creating the transactions\<close>

text \<open>\<open>parse\<close> and \<open>parseGeneric\<close> are \<open>TransactionFactory.parseTransaction\<close> and the generic transaction; \<open>None\<close> stands for an error.\<close>

definition treatAsGenericTransaction :: "('raw \<Rightarrow> block_transaction option) \<Rightarrow> 'raw \<Rightarrow> nat \<Rightarrow> block_transaction list \<Rightarrow> block_transaction list" where
  "treatAsGenericTransaction parseGeneric raw i txs =
     (case parseGeneric raw of None \<Rightarrow> txs | Some t \<Rightarrow> txs @ [t\<lparr>bt_originalIndex := i\<rparr>])"

definition processTransaction ::
    "('raw \<Rightarrow> block_transaction option) \<Rightarrow> ('raw \<Rightarrow> block_transaction option) \<Rightarrow> 'raw \<Rightarrow> nat \<Rightarrow> block_transaction list \<Rightarrow> block_transaction list" where
  "processTransaction parse parseGeneric raw i txs =
     (case parse raw of
        Some t \<Rightarrow> txs @ [t\<lparr>bt_originalIndex := i\<rparr>]
      | None \<Rightarrow> treatAsGenericTransaction parseGeneric raw i txs)"

fun create_loop ::
    "('raw \<Rightarrow> block_transaction option) \<Rightarrow> ('raw \<Rightarrow> block_transaction option) \<Rightarrow> nat \<Rightarrow> 'raw list \<Rightarrow> unit exec" where
  "create_loop parse parseGeneric i [] = st_return ()"
| "create_loop parse parseGeneric i (raw # rest) =
     st_bind verifyIfBlockAborted (\<lambda>_.
     st_bind (on_block (\<lambda>b. b\<lparr>bk_transactions := processTransaction parse parseGeneric raw i (bk_transactions b)\<rparr>)) (\<lambda>_.
       create_loop parse parseGeneric (Suc i) rest))"

definition createTransactions ::
    "bool \<Rightarrow> ('raw \<Rightarrow> block_transaction option) \<Rightarrow> ('raw \<Rightarrow> block_transaction option) \<Rightarrow> 'raw list option \<Rightarrow> unit exec" where
  "createTransactions processEverythingAsGeneric parse parseGeneric rawData =
     st_bind (st_get (\<lambda>s. bk_transactions (xs_block s))) (\<lambda>txs.
     if txs \<noteq> [] then st_throw TransactionsExist
     else case rawData of
       None \<Rightarrow> st_throw NoRawData
     | Some raws \<Rightarrow>
         if processEverythingAsGeneric
         then on_block (\<lambda>b. b\<lparr>bk_transactions := fold (\<lambda>(i, raw). treatAsGenericTransaction parseGeneric raw i) (enumerate 0 raws) (bk_transactions b)\<rparr>)
         else create_loop parse parseGeneric 0 raws)"

definition separateGenericTransactions :: "block_transaction list \<Rightarrow> nat list \<times> nat list" where
  "separateGenericTransactions txs =
     (sort_key (\<lambda>i. bt_index (txs ! i)) (filter (\<lambda>i. bt_type (txs ! i) = Generic) [0..<length txs]),
      sort_key (\<lambda>i. bt_index (txs ! i)) (filter (\<lambda>i. bt_type (txs ! i) \<noteq> Generic) [0..<length txs]))"

definition defineGeneric :: "unit exec" where
  "defineGeneric = on_block (\<lambda>b. b\<lparr>bk_genericTransactions := fst (separateGenericTransactions (bk_transactions b)),
     bk_opnetTransactions := snd (separateGenericTransactions (bk_transactions b))\<rparr>)"

definition deserialize ::
    "bool \<Rightarrow> ('raw \<Rightarrow> block_transaction option) \<Rightarrow> ('raw \<Rightarrow> block_transaction option) \<Rightarrow> 'raw list option
     \<Rightarrow> (block_transaction list \<Rightarrow> block_transaction list option) \<Rightarrow> unit exec" where
  "deserialize everythingGeneric parse parseGeneric rawData order =
     st_bind (st_get (\<lambda>s. bk_processed (xs_block s))) (\<lambda>processed.
     if processed then st_throw AlreadyProcessed
     else
       st_bind (on_block (\<lambda>b. b\<lparr>bk_processed := True\<rparr>)) (\<lambda>_.
       st_bind (createTransactions everythingGeneric parse parseGeneric rawData) (\<lambda>_.
       st_bind (st_get (\<lambda>s. order (bk_transactions (xs_block s)))) (\<lambda>sorted.
       case sorted of
         None \<Rightarrow> st_throw SortFailed
       | Some txs \<Rightarrow> st_bind (on_block (\<lambda>b. b\<lparr>bk_transactions := txs\<rparr>)) (\<lambda>_. defineGeneric)))))"

subsection \<open>Epoch submissions\<close>

definition generateSubmissionKey :: "block_env \<Rightarrow> Submission \<Rightarrow> string" where
  "generateSubmissionKey X sub = be_toHex X (sb_salt sub) @ ''-'' @ be_toHex X (sb_mldsaPublicKey sub)"

definition extract_submission :: "block_env \<Rightarrow> block_transaction \<Rightarrow> (string, EpochSubmission) js_map \<Rightarrow> (string, EpochSubmission) js_map" where
  "extract_submission X tx m =
     (case bt_submission tx of
        None \<Rightarrow> m
      | Some sub \<Rightarrow>
          if map_of m (generateSubmissionKey X sub) \<noteq> None then m
          else AList.update (generateSubmissionKey X sub)
            \<lparr>es_submission = sub, es_validationResult = None, es_transactionId = bt_txid tx, es_txHash = bt_hash tx\<rparr> m)"

definition extractUniqueSubmissions :: "block_env \<Rightarrow> unit exec" where
  "extractUniqueSubmissions X =
     on_block (\<lambda>b. b\<lparr>bk_epochSubmissions := fold (extract_submission X) (bk_transactions b) (bk_epochSubmissions b)\<rparr>)"

definition submissionExists :: "IEpochSubmissionsDocument list \<Rightarrow> bytes \<Rightarrow> bytes \<Rightarrow> bigint \<Rightarrow> bool" where
  "submissionExists ds mldsaPublicKey salt epochNumber \<longleftrightarrow>
     (\<exists>d \<in> set ds. su_epochNumber d = epochNumber \<and> su_mldsaPublicKey d = mldsaPublicKey \<and> su_salt d = salt)"

definition filterExistingSubmissions :: "block_env \<Rightarrow> bigint \<Rightarrow> unit exec" where
  "filterExistingSubmissions X currentEpoch =
     st_bind (st_get (\<lambda>s. st_submissions (vm_storage (xs_vm s)))) (\<lambda>ds.
       on_block (\<lambda>b. b\<lparr>bk_epochSubmissions :=
         (if be_existsFails X then []
          else filter (\<lambda>(k, d). \<not> submissionExists ds (sb_mldsaPublicKey (es_submission d)) (sb_salt (es_submission d)) currentEpoch)
                 (bk_epochSubmissions b))\<rparr>))"

definition validateSubmissions :: "block_env \<Rightarrow> PendingTargetEpoch \<Rightarrow> unit exec" where
  "validateSubmissions X pendingTarget =
     on_block (\<lambda>b.
       (let check = (\<lambda>d. validateEpochSubmission (be_externals X) (be_epoch X) (es_submission d) (bk_height b) pendingTarget) in
        b\<lparr>bk_epochSubmissions := map (\<lambda>(k, d). (k, d\<lparr>es_validationResult := Some (check d)\<rparr>))
            (filter (\<lambda>(k, d). vs_valid (check d)) (bk_epochSubmissions b))\<rparr>))"

definition MLDSA44_PUBLIC_KEY_LEN :: nat where
  "MLDSA44_PUBLIC_KEY_LEN = 1312"

definition wallet_accepted :: "block_env \<Rightarrow> IMLDSAPublicKey \<Rightarrow> bool" where
  "wallet_accepted X walletInfo \<longleftrightarrow> be_allowUnsafe X
     \<or> (ik_exposedBlockHeight walletInfo \<noteq> None \<and> ik_exposedBlockHeight walletInfo \<noteq> Some 0
        \<and> (case ik_publicKey walletInfo of None \<Rightarrow> False | Some k \<Rightarrow> length k = MLDSA44_PUBLIC_KEY_LEN))"

definition submission_document :: "block_env \<Rightarrow> Block \<Rightarrow> EpochSubmission \<Rightarrow> ValidatedSolutionResult \<Rightarrow> bytes \<Rightarrow> IEpochSubmissionsDocument" where
  "submission_document X b d v legacyPublicKey =
     \<lparr>su_epochNumber = bigint_div (bk_height b) (BLOCKS_PER_EPOCH (be_epoch X)), su_txId = es_transactionId d, su_txHash = es_txHash d,
      su_hash = vs_hash v, su_solution = vs_hash v, su_mldsaPublicKey = sb_mldsaPublicKey (es_submission d),
      su_legacyPublicKey = legacyPublicKey, su_salt = sb_salt (es_submission d), su_graffiti = sb_graffiti (es_submission d),
      sd_confirmedAt = bk_height b\<rparr>"

fun extended_submissions :: "block_env \<Rightarrow> EpochSubmission list \<Rightarrow> (IEpochSubmissionsDocument list) exec" where
  "extended_submissions X [] = st_return []"
| "extended_submissions X (d # rest) =
     (case es_validationResult d of
        None \<Rightarrow> extended_submissions X rest
      | Some v \<Rightarrow>
          if \<not> vs_valid v then extended_submissions X rest
          else
            (let a = be_keyAddress X (sb_mldsaPublicKey (es_submission d)) in
             st_bind (on_manager ManagerFailed (vm_getMLDSAPublicKey (be_env X) a)) (\<lambda>walletInfo.
             case walletInfo of
               None \<Rightarrow> extended_submissions X rest
             | Some w \<Rightarrow>
                 if be_isDead X a \<or> \<not> wallet_accepted X w then extended_submissions X rest
                 else
                   st_bind (extended_submissions X rest) (\<lambda>docs.
                   st_bind (st_get xs_block) (\<lambda>b. st_return (submission_document X b d v (ik_legacyPublicKey w) # docs))))))"

text \<open>\<open>saveSubmission\<close> writes under the hash of the transaction. The documents of a block are written in parallel: those whose
  write succeeds (\<open>be_savesSubmission\<close>) stay when another one fails and the block is given up.\<close>

fun saveSubmission :: "IEpochSubmissionsDocument \<Rightarrow> IEpochSubmissionsDocument list \<Rightarrow> IEpochSubmissionsDocument list" where
  "saveSubmission d [] = [d]"
| "saveSubmission d (x # xs) = (if su_txHash x = su_txHash d then d # xs else x # saveSubmission d xs)"

definition saveEpochSubmissions :: "block_env \<Rightarrow> unit exec" where
  "saveEpochSubmissions X =
     st_bind (st_get (\<lambda>s. map snd (bk_epochSubmissions (xs_block s)))) (\<lambda>ds.
     if ds = [] then st_return ()
     else
       st_bind (extended_submissions X ds) (\<lambda>docs.
       st_bind (if docs = [] then st_return ()
         else st_bind (st_put (\<lambda>s. s\<lparr>xs_vm := (xs_vm s)\<lparr>vm_storage := (vm_storage (xs_vm s))\<lparr>st_submissions :=
                fold saveSubmission (filter (be_savesSubmission X) docs) (st_submissions (vm_storage (xs_vm s)))\<rparr>\<rparr>\<rparr>)) (\<lambda>_.
              if list_all (be_savesSubmission X) docs then st_return () else st_throw SubmissionsFailed)) (\<lambda>_.
         on_block (\<lambda>b. b\<lparr>bk_epochSubmissions := []\<rparr>))))"

definition processSubmissions :: "block_env \<Rightarrow> unit exec" where
  "processSubmissions X =
     st_bind (st_get (\<lambda>s. bigint_div (bk_height (xs_block s)) (BLOCKS_PER_EPOCH (be_epoch X)))) (\<lambda>currentEpoch.
     st_bind (extractUniqueSubmissions X) (\<lambda>_.
     st_bind (filterExistingSubmissions X currentEpoch) (\<lambda>_.
     st_bind (\<lambda>s. lift_block (\<lambda>_. SubmissionsFailed) (getPendingEpochTarget (be_epoch X) (x_sha1 (be_externals X)) (x_fromHex (be_externals X))
         (\<lambda>h. map_option BlockHeaderDocument.bh_checksumRoot (vm_headers (xs_vm s) h)) currentEpoch) s) (\<lambda>pendingTarget.
     st_bind (validateSubmissions X pendingTarget) (\<lambda>_. saveEpochSubmissions X)))))"

subsection \<open>The whole block\<close>

definition ensureNotExecuted :: "unit exec" where
  "ensureNotExecuted = st_bind (st_get (\<lambda>s. bk_executed (xs_block s))) (\<lambda>done.
     if done then st_throw AlreadyExecuted else on_block (\<lambda>b. b\<lparr>bk_executed := True\<rparr>))"

definition block_execute :: "block_env \<Rightarrow> unit exec" where
  "block_execute X =
     st_bind ensureNotExecuted (\<lambda>_.
     st_bind (st_get (\<lambda>s. bk_height (xs_block s))) (\<lambda>height.
     st_bind (on_manager ManagerFailed (vm_getBlockHeader (height - 1))) (\<lambda>previousBlockHeaders.
     st_bind (setGasParameters X previousBlockHeaders) (\<lambda>_.
     st_bind (st_get (\<lambda>s. bk_opnetTransactions (xs_block s))) (\<lambda>opnetTransactions.
     st_bind (executeOPNetTransactions X opnetTransactions) (\<lambda>_.
     st_bind (on_manager ManagerFailed (updateEvaluatedStates (be_env X))) (\<lambda>states.
     st_bind verifyIfBlockAborted (\<lambda>_.
     st_bind (if MerkleTree_size (snd states) \<noteq> 0 then processBlockStates X states else onEmptyBlock X) (\<lambda>_.
     st_bind verifyIfBlockAborted (\<lambda>_.
       st_when (\<not> ve_resync (be_env X)) (started (saveOPNetTransactions X))))))))))))"

definition block_revertBlock :: "unit exec" where
  "block_revertBlock =
     st_bind await_saves (\<lambda>_.
     st_bind executeSpecialTransactions (\<lambda>_.
     st_bind (on_block (\<lambda>b. b\<lparr>bk_reverted := True\<rparr>)) (\<lambda>_. on_manager ManagerFailed revertBlock)))"

definition save_header :: "unit exec" where
  "save_header = st_bind (st_get (\<lambda>s. bk_document (xs_block s))) (\<lambda>doc.
     case doc of None \<Rightarrow> st_throw BlockUnsigned | Some d \<Rightarrow> on_manager ManagerFailed (saveBlock d))"

definition finalizeBlock :: "bool exec" where
  "finalizeBlock = block_catch
     (st_bind verifyIfBlockAborted (\<lambda>_.
      st_bind await_saves (\<lambda>_.
      st_bind save_header (\<lambda>_.
      st_bind (on_manager ManagerFailed terminateBlock) (\<lambda>_. st_return True)))))
     (\<lambda>_. block_catch (st_bind block_revertBlock (\<lambda>_. st_return False)) (\<lambda>_. st_return False))"

subsection \<open>The indexing task\<close>

text \<open>
  \<open>IndexingTask.process\<close> with the answers of the rest of the node: the outcome of the prefetch, whether the consensus tracker
  lets the height through, whether the pending writes could be killed, the answer of the reorganisation watchdog, the writes of
  the mempool and the completion handler. The two promises of \<open>Promise.all\<close> run to their end; the effect of the finalisation
  is there also when the other one fails.
\<close>

record 'raw task_env =
  tk_block :: block_env
  tk_tip :: bigint
  tk_prefetchError :: bool
  tk_everythingGeneric :: bool
  tk_parse :: "'raw \<Rightarrow> block_transaction option"
  tk_parseGeneric :: "'raw \<Rightarrow> block_transaction option"
  tk_rawTransactionData :: "'raw list option"
  tk_order :: "block_transaction list \<Rightarrow> block_transaction list option"
  tk_cannotProceed :: bool
  tk_killFails :: bool
  tk_verifyReorg :: bool
  tk_mempoolInputs :: "IMempoolTransaction \<Rightarrow> (string \<times> nat) list"
  tk_mempoolFails :: bool
  tk_detectionAborted :: bool
  tk_complete :: "block_error + unit"
  tk_abortedAtEnd :: bool

record task_state =
  ts_exec :: exec_state
  ts_chainReorged :: bool
  ts_destroyed :: bool
  ts_completed :: bool

type_synonym 'a task = "task_state \<Rightarrow> (block_error + 'a) \<times> task_state"

definition in_block :: "'a exec \<Rightarrow> 'a task" where
  "in_block m s = (case m (ts_exec s) of (r, x) \<Rightarrow> (r, s\<lparr>ts_exec := x\<rparr>))"

definition setChallengeSolutions :: "unit exec" where
  "setChallengeSolutions = st_bind (st_get (\<lambda>s. bk_allowedSolutions (xs_block s))) (\<lambda>already.
     if already then st_throw SolutionsAlreadySet else on_block (\<lambda>b. b\<lparr>bk_allowedSolutions := True\<rparr>))"

definition prepare_block :: "'raw task_env \<Rightarrow> unit exec" where
  "prepare_block K =
     st_bind (st_get (\<lambda>s. bk_processed (xs_block s))) (\<lambda>processed.
     if processed then st_throw AlreadyProcessed
     else st_bind (deserialize (tk_everythingGeneric K) (tk_parse K) (tk_parseGeneric K) (tk_rawTransactionData K) (tk_order K)) (\<lambda>_.
       on_block (\<lambda>b. b\<lparr>bk_processed := True\<rparr>)))"

text \<open>\<open>revertBlock\<close> of the task: it always throws, the error of the revert itself if that fails.\<close>

definition task_revertBlock :: "'raw task_env \<Rightarrow> block_error \<Rightarrow> unit exec" where
  "task_revertBlock K err =
     (if tk_killFails K then st_throw WritesNotKilled
      else st_bind block_revertBlock (\<lambda>_. st_throw err))"

definition task_processBlock :: "'raw task_env \<Rightarrow> unit task" where
  "task_processBlock K =
     (if tk_cannotProceed K then st_throw ConsensusNotReady
      else
        st_bind (in_block (block_catch
          (st_bind (on_manager ManagerFailed (prepareBlock (tk_tip K))) (\<lambda>_.
           st_bind (insertPartialTransactions (tk_block K)) (\<lambda>_.
           st_bind (block_execute (tk_block K)) (\<lambda>_. processSubmissions (tk_block K)))))
          (task_revertBlock K))) (\<lambda>_.
        st_put (\<lambda>s. if ts_chainReorged s then s else s\<lparr>ts_chainReorged := tk_verifyReorg K\<rparr>)))"

definition deleteTransactionsById :: "string list \<Rightarrow> IMempoolTransaction list \<Rightarrow> IMempoolTransaction list" where
  "deleteTransactionsById ids ms = filter (\<lambda>m. mt_id m \<notin> set ids) ms"

definition on_mempool :: "'raw task_env \<Rightarrow> (IMempoolTransaction list \<Rightarrow> IMempoolTransaction list) \<Rightarrow> unit exec" where
  "on_mempool K f =
     (if tk_mempoolFails K then st_throw MempoolFailed
      else st_put (\<lambda>s. s\<lparr>xs_vm := (xs_vm s)\<lparr>vm_storage := (vm_storage (xs_vm s))\<lparr>st_mempool := f (st_mempool (vm_storage (xs_vm s)))\<rparr>\<rparr>\<rparr>))"

definition findConflictingTransactions ::
    "(IMempoolTransaction \<Rightarrow> (string \<times> nat) list) \<Rightarrow> string \<Rightarrow> (string \<times> nat) list \<Rightarrow> IMempoolTransaction list \<Rightarrow> IMempoolTransaction list" where
  "findConflictingTransactions inputsOf txid inputs ms =
     (if inputs = [] then [] else filter (\<lambda>m. (\<exists>i \<in> set inputs. i \<in> set (inputsOf m)) \<and> mt_id m \<noteq> txid) ms)"

text \<open>The batches only bound how many queries run at once, so the conflicts are those of all transactions.\<close>

definition conflict_ids :: "'raw task_env \<Rightarrow> block_transaction list \<Rightarrow> IMempoolTransaction list \<Rightarrow> string list" where
  "conflict_ids K blockTxs ms =
     remdups (filter (\<lambda>i. i \<notin> bt_id ` set blockTxs) (concat (map (\<lambda>tx. map mt_id
       (findConflictingTransactions (tk_mempoolInputs K) (bt_id tx)
         (map (\<lambda>(originalTransactionId, n). (be_toHex (tk_block K) originalTransactionId, n)) (bt_inputList tx)) ms)) blockTxs)))"

definition detectAndRemoveConflictingTransactions :: "'raw task_env \<Rightarrow> block_transaction list \<Rightarrow> unit exec" where
  "detectAndRemoveConflictingTransactions K blockTxs =
     (if blockTxs = [] then st_return ()
      else if tk_detectionAborted K then st_throw TaskCancelled
      else st_bind (st_get (\<lambda>s. conflict_ids K blockTxs (st_mempool (vm_storage (xs_vm s))))) (\<lambda>ids.
        if ids = [] then st_return () else on_mempool K (deleteTransactionsById ids)))"

definition finalize_both :: "'raw task_env \<Rightarrow> block_transaction list \<Rightarrow> bool exec" where
  "finalize_both K blockTxs s =
     (case finalizeBlock s of (r, s1) \<Rightarrow>
      case (if ve_resync (be_env (tk_block K)) then (Inr (), s1) else detectAndRemoveConflictingTransactions K blockTxs s1) of
        (Inl e, s2) \<Rightarrow> (Inl e, s2)
      | (Inr _, s2) \<Rightarrow> (r, s2))"

definition process_body :: "'raw task_env \<Rightarrow> unit task" where
  "process_body K =
     st_bind (st_lift (if tk_prefetchError K then Inl PrefetchFailed else Inr ())) (\<lambda>_.
     st_bind (in_block setChallengeSolutions) (\<lambda>_.
     st_bind (in_block (prepare_block K)) (\<lambda>_.
     st_bind (task_processBlock K) (\<lambda>_.
     st_bind (st_get (\<lambda>s. xs_block (ts_exec s))) (\<lambda>b.
     if bk_reverted b then st_throw BlockWasReverted
     else
       st_bind (in_block (st_when (\<not> ve_resync (be_env (tk_block K))) (on_mempool K (deleteTransactionsById (map bt_id (bk_transactions b)))))) (\<lambda>_.
       st_bind (in_block (finalize_both K (bk_transactions b))) (\<lambda>finalizationResult.
       st_bind (in_block verifyIfBlockAborted) (\<lambda>_.
       if tk_abortedAtEnd K then st_return ()
       else if \<not> finalizationResult then st_throw FinalizationFailed
       else st_bind (st_lift (tk_complete K)) (\<lambda>_. st_put (\<lambda>s. s\<lparr>ts_completed := True\<rparr>))))))))))"

definition task_process :: "'raw task_env \<Rightarrow> unit task" where
  "task_process K s =
     (case process_body K s of
        (Inl e, s') \<Rightarrow> (Inl e, s'\<lparr>ts_destroyed := True\<rparr>)
      | (Inr _, s') \<Rightarrow> (Inr (), s'))"

end
