(* ===== verification/Block_Safety.thy ===== *)
theory Block_Safety
  imports Block_Execution
begin

text \<open>
  What the execution of a block promises: a transaction that fails or reverts leaves the slots of the block as they were and does
  not stop the block, the gas of a block is bounded, and a task that ends, whatever it failed at, gives the block session back.
\<close>

subsection \<open>What the execution of a transaction leaves alone\<close>

text \<open>Only the contracts of the storage change before the result of a transaction is published.\<close>

definition session_frame :: "VMManager \<Rightarrow> VMManager \<Rightarrow> bool" where
  "session_frame vm0 vm \<longleftrightarrow> vm_blockState vm = vm_blockState vm0 \<and> vm_receiptState vm = vm_receiptState vm0
     \<and> vm_blockId vm = vm_blockId vm0 \<and> vm_isPrepared vm = vm_isPrepared vm0
     \<and> (\<exists>cs. vm_storage vm = (vm_storage vm0)\<lparr>st_contracts := cs\<rparr>)"

lemma frame_refl [simp]: "session_frame vm vm"
  by (auto simp: session_frame_def intro: exI [of _ "st_contracts (vm_storage vm)"])

lemma frame_trans: "session_frame a b \<Longrightarrow> session_frame b c \<Longrightarrow> session_frame a c"
  by (auto simp: session_frame_def)

lemma quiet_frame: "quiet vm0 vm \<Longrightarrow> session_frame vm0 vm"
  by (auto simp: quiet_def session_frame_def intro: exI [of _ "st_contracts (vm_storage vm0)"])

lemma deploy_all_frame: "session_frame vm0 vm \<Longrightarrow> session_frame vm0 (snd (deploy_all E cs vm))"
proof (induction cs arbitrary: vm)
  case (Cons c cs)
  have "session_frame vm0 (snd (deployContractFromInfo E c vm))"
    using Cons.prems by (auto simp: deployContractFromInfo_def setContractAt_def Let_def session_frame_def st_return_def split: sum.splits)
  then show ?case using Cons.IH by (auto split: prod.splits) (metis snd_conv)
qed simp

lemma run_frame: "session_frame vm (snd (evaluator_run P (executeCall n P) cx ci params pages vm))"
proof (cases "ContractEvaluation_new (vp_put P) (ve_fromString (vp_env P)) (vp_fromBase64 P) (vp_tx P) params")
  case (Inr e)
  let ?F = "\<lambda>s. session_frame vm (hs_vm s)"
  let ?s = "\<lparr>hs_eval = e, hs_memoryPagesUsed = pages, hs_usedGas = None, hs_vm = vm\<rparr>"
  have q: "quiet_callee (executeCall n P)" unfolding quiet_callee_def using executeCall_quiet by blast
  have "?F (snd (evaluate P (executeCall n P) cx ci params ?s))"
  proof (cases "loadContractFromBytecode P cx ci ?s")
    case None
    then show ?thesis by (simp add: evaluate_split)
  next
    case (Some inst)
    obtain r s1 where run: "run_until_result P (executeCall n P) cx ci params inst ?s = (r, s1)" by fastforce
    have q1: "host_quiet vm s1" using st_keepsD [OF hq_until_result [OF q] _ run] by simp
    have "?F (snd (terminateEvaluation P cx s1))"
    proof -
      obtain rc s2 where c: "calculateGasCostStore P cx s1 = (rc, s2)" by fastforce
      have "host_quiet vm s2" using st_keepsD [OF hq_cost q1 c] .
      then show ?thesis using q1 c deploy_all_frame [OF quiet_frame, of vm "hs_vm s2" "vp_env P" "map snd (ce_deployedContracts (hs_eval s2))"]
        by (cases rc) (auto simp: terminateEvaluation_def st_bind_def st_get_def on_vm_def quiet_frame split: prod.splits sum.splits)
    qed
    then show ?thesis using Some run q1 by (cases r) (simp_all add: evaluate_split st_bind_def quiet_frame)
  qed
  then show ?thesis using Inr by (auto simp: evaluator_run_def split: prod.splits sum.splits)
qed (simp add: evaluator_run_def)

lemma executeCall_frame: "session_frame vm (snd (executeCall n P cx params pages vm))"
proof (cases n)
  case (Suc m)
  obtain r vm' where c: "executeCallInternal P (executeCall m P) cx params pages vm = (r, vm')" by fastforce
  from executeCallInternal_run [OF c] obtain vm1 where vm1: "quiet vm vm1"
    "r = Inl ContractMissing \<and> vm' = vm1 \<or> (\<exists>ci. evaluator_run P (executeCall m P) cx ci params pages vm1 = (r, vm'))" by blast
  then have "session_frame vm1 vm'" using run_frame [of vm1 P m cx] by (metis frame_refl snd_conv)
  then show ?thesis using frame_trans [OF quiet_frame [OF vm1(1)]] c Suc by simp
qed simp

lemma st_keeps_frame: "(\<And>vm. session_frame vm (snd (m vm))) \<Longrightarrow> st_keeps (session_frame vm0) m"
  unfolding st_keeps_def using frame_trans by blast

lemma processing_frame:
  assumes "st_keeps (session_frame (vm\<lparr>vm_isProcessing := True\<rparr>)) m"
  shows "session_frame vm (snd (processing m vm))"
  using st_keeps_snd [OF assms frame_refl] by (auto simp: processing_def session_frame_def split: prod.splits)

lemma getContractAddress_frame: "st_keeps (session_frame vm0) (lift_call (getContractAddress E a))"
proof (rule st_keeps_frame)
  fix vm
  show "session_frame vm (snd (lift_call (getContractAddress E a) vm))"
    using st_keeps_snd [OF lift_call_quiet [OF getContractAddress_quiet] quiet_refl] by (rule quiet_frame)
qed

lemma executeCall_keeps_frame: "st_keeps (session_frame vm0) (executeCall n P cx params pages)"
  by (rule st_keeps_frame) (rule executeCall_frame)

lemma st_keeps_guard: "st_keeps Q k \<Longrightarrow> st_keeps Q (\<lambda>vm. if b vm then (Inl e, vm) else k vm)"
  by (simp add: st_keeps_def)

lemma executeTransaction_frame: "session_frame vm (snd (executeTransaction P b tx sim vm))"
  by (auto simp: executeTransaction_def intro!: processing_frame st_keeps_guard st_keeps_bind getContractAddress_frame executeCall_keeps_frame
      split: option.splits)

lemma VM_deployContract_frame: "session_frame vm (snd (VM_deployContract P b tx vm))"
proof (cases "vm_blockId vm \<noteq> bc_blockHeight b \<or> vm_isProcessing vm")
  case False
  show ?thesis
  proof (cases "ContractInformation_fromTransaction (bc_blockHeight b) tx")
    case (Inr info)
    let ?vm = "vm\<lparr>vm_isProcessing := True\<rparr>"
    obtain c vm1 where g: "getVMEvaluatorFromParams (dt_address tx) (dt_blockHeight tx) (Some info) ?vm = (c, vm1)" by fastforce
    have q: "session_frame ?vm vm1" using quiet_frame [OF getVMEvaluator_quiet [of ?vm]] g by (metis snd_conv)
    have run: "st_keeps (session_frame ?vm) (\<lambda>vm. evaluator_run P (executeCall (call_fuel P) P) cx ci params pages vm)" for cx ci params pages
      by (rule st_keeps_frame) (rule run_frame)
    show ?thesis
    proof (cases c)
      case None
      then show ?thesis using False Inr g q by (auto simp: VM_deployContract_def processing_def session_frame_def)
    next
      case (Some ci)
      have "st_keeps (session_frame ?vm) (if dt_gasSatFee tx = 0 then st_throw NoFee
                  else
                    st_bind (st_lift (calculateMaxGas (vp_gas P) False (dt_gasSatFee tx) (bc_baseGas b)
                      (TRANSACTION_MAX_GAS (vp_gas P)))) (\<lambda>maxGas.
                    st_bind (st_lift (getGasTracker (vp_gas P) maxGas 0 None)) (\<lambda>t.
                      evaluator_run P (executeCall (call_fuel P) P)
                        \<lparr>cx_contractAddressStr = dt_contractAddress tx, cx_calldata = dt_calldata tx,
                         cx_msgSender = dt_from tx, cx_txOrigin = dt_from tx, cx_blockHash = bc_blockHash b,
                         cx_blockNumber = bc_blockHeight b, cx_blockMedian = bc_blockMedian b, cx_ids = dt_ids tx,
                         cx_preloadStorageList = dt_preloadStorageList tx, cx_specialContract = None\<rparr>
                        ci (first_params (dt_address tx) t (Some [(contractPublicKey info, info)]) True 1 None) 0)))"
        by (intro st_keeps_if st_keeps_bind run) simp_all
      from st_keeps_snd [OF this q] show ?thesis using False Inr g Some
        by (auto simp: VM_deployContract_def processing_def session_frame_def split: prod.splits)
    qed
  qed (use False in \<open>simp add: VM_deployContract_def\<close>)
qed (auto simp: VM_deployContract_def split: sum.splits)

subsection \<open>Triples for the code of a block\<close>

text \<open>The rules of \<open>triple\<close> for the constructs of a block.\<close>

lemma triple_catch [triple_rules]:
  "triple Pre m Post Exc' \<Longrightarrow> (\<And>e. triple (Exc' e) (h e) Post Exc) \<Longrightarrow> triple Pre (block_catch m h) Post Exc"
  unfolding triple_def block_catch_def by (fastforce split: prod.splits sum.splits)

lemma triple_block: "(\<And>s. Pre s \<Longrightarrow> Post () (s\<lparr>xs_block := f (xs_block s)\<rparr>)) \<Longrightarrow> triple Pre (on_block f) Post Exc"
  by (simp add: triple_def on_block_def st_put_def)

lemma triple_manager:
  "(\<And>s r vm. Pre s \<Longrightarrow> m (xs_vm s) = (r, vm) \<Longrightarrow>
      (case r of Inr x \<Rightarrow> Post x (s\<lparr>xs_vm := vm\<rparr>) | Inl e \<Rightarrow> Exc (c e) (s\<lparr>xs_vm := vm\<rparr>)))
   \<Longrightarrow> triple Pre (on_manager c m) Post Exc"
  unfolding triple_def on_manager_def by (fastforce split: prod.splits sum.splits)

subsection \<open>The outcome of a transaction\<close>

text \<open>What a settled transaction does to the slots of the block, and the gas it is charged.\<close>

definition publish_tx :: "block_transaction \<Rightarrow> StateMerkleTree \<Rightarrow> StateMerkleTree" where
  "publish_tx tx t = (case (bt_revert tx, bt_receipt tx) of
      (None, Some r) \<Rightarrow> (case (er_result r, er_changedStorage r) of (Some _, Some changed) \<Rightarrow> apply_changes changed t | _ \<Rightarrow> t)
    | _ \<Rightarrow> t)"

definition charged :: "block_env \<Rightarrow> block_transaction \<Rightarrow> bigint" where
  "charged X tx = (case bt_receipt tx of
      None \<Rightarrow> PANIC_GAS_COST (be_gas X)
    | Some r \<Rightarrow> er_gasUsed r + er_specialGasUsed r
        + (if er_revert r = None \<and> bt_revert tx \<noteq> None then PANIC_GAS_COST (be_gas X) else 0))"

definition open_block :: "VMManager \<Rightarrow> bool" where
  "open_block vm \<longleftrightarrow> vm_blockState vm \<noteq> None \<and> (\<exists>r. vm_receiptState vm = Some r \<and> \<not> mk_frozen r)"

definition unexecuted :: "block_env \<Rightarrow> block_transaction \<Rightarrow> bool" where
  "unexecuted X tx \<longleftrightarrow> bt_id tx \<noteq> [] \<and> be_toHex X (bt_txid tx) \<noteq> [] \<and> bt_receipt tx = None \<and> bt_revert tx = None"

lemma frame_open: "session_frame vm0 vm \<Longrightarrow> open_block vm0 \<Longrightarrow> open_block vm"
  by (simp add: session_frame_def open_block_def)

lemma receipt_update:
  assumes "\<not> mk_frozen r"
  shows "\<exists>r'. ReceiptMerkleTree_updateValue same c tx b r = Inr r' \<and> \<not> mk_frozen r'"
  using assms by (auto simp: ReceiptMerkleTree_updateValue_def updateValue_def)

lemma publish_failure:
  assumes "open_block vm" "tx \<noteq> []" "updateBlockValuesFromResult E None c tx True vm = (r, vm')"
  shows "r = Inr () \<and> open_block vm' \<and> (\<exists>rs. vm' = vm\<lparr>vm_receiptState := rs\<rparr>)"
proof -
  obtain t rs where t: "vm_blockState vm = Some t" "vm_receiptState vm = Some rs" "\<not> mk_frozen rs"
    using assms(1) by (auto simp: open_block_def)
  obtain r' where "ReceiptMerkleTree_updateValue (ve_same E) c tx [0] rs = Inr r'" "\<not> mk_frozen r'"
    using receipt_update [OF t(3)] by blast
  then show ?thesis using assms t
    by (auto simp: updateBlockValuesFromResult_def st_bind_def st_simps open_block_def Let_def split: if_splits intro: exI [of _ "vm_receiptState vm"])
qed

lemma publish_success:
  assumes "open_block vm" "tx \<noteq> []" "\<not> ve_isExecutor E" "updateBlockValuesFromResult E (Some e) c tx True vm = (r, vm')"
    and "vm_blockState vm = Some t"
  shows "open_block vm' \<and> (case r of
      Inl _ \<Rightarrow> vm' = vm \<and> ce_revert e = None
    | Inr _ \<Rightarrow> (\<exists>rs. vm' = vm\<lparr>vm_blockState := Some (publish_tx (tx0\<lparr>bt_receipt := Some (getEvaluationResult e), bt_revert := ce_revert e\<rparr>) t),
        vm_receiptState := rs\<rparr>))"
proof -
  obtain rs where t: "vm_receiptState vm = Some rs" "\<not> mk_frozen rs"
    using assms(1) by (auto simp: open_block_def)
  have up: "\<exists>r'. ReceiptMerkleTree_updateValue (ve_same E) c tx b rs = Inr r' \<and> \<not> mk_frozen r'" for b
    using receipt_update [OF t(2)] by blast
  have same: "vm\<lparr>vm_blockState := Some t\<rparr> = vm" using assms(5) by (cases vm) simp
  show ?thesis
  proof (cases "ce_revert e = None \<and> (\<exists>x. ce_result e = Some x)")
    case True
    then obtain x where x: "ce_revert e = None" "ce_result e = Some x" by blast
    obtain r' where r': "ReceiptMerkleTree_updateValue (ve_same E) c tx x rs = Inr r'" "\<not> mk_frozen r'" using up by blast
    show ?thesis
    proof (cases "ce_modifiedStorage e")
      case None
      then show ?thesis using assms t x
        by (auto simp: updateBlockValuesFromResult_def st_bind_def st_simps open_block_def Let_def getEvaluationResult_def)
    next
      case (Some changed)
      with r' x assms t show ?thesis
        by (auto simp: updateBlockValuesFromResult_def st_bind_def st_simps open_block_def Let_def publish_tx_def getEvaluationResult_def)
    qed
  next
    case False
    then have "ce_revert e \<noteq> None \<or> ce_result e = None" by auto
    then show ?thesis using up [of "[0]"] assms t
      by (auto simp: updateBlockValuesFromResult_def st_bind_def st_simps open_block_def Let_def publish_tx_def getEvaluationResult_def same
          split: option.splits)
  qed
qed

text \<open>A transaction on its way, at position \<open>i\<close> of the block \<open>s0\<close>: only its sender has been filled in. Then the two ways in which
  the attempt can end, and the transaction when it is settled.\<close>

definition with_tx :: "nat \<Rightarrow> Block \<Rightarrow> block_transaction \<Rightarrow> bigint \<Rightarrow> Block" where
  "with_tx i b tx gas = b\<lparr>bk_transactions := (bk_transactions b)[i := tx], bk_blockUsedGas := gas\<rparr>"

definition sender_of :: "block_transaction \<Rightarrow> block_transaction \<Rightarrow> bool" where
  "sender_of tx tx' \<longleftrightarrow> (\<exists>ia da. tx' = tx\<lparr>bt_interaction := ia, bt_deployment := da\<rparr>)"

definition pending_tx :: "nat \<Rightarrow> exec_state \<Rightarrow> exec_state \<Rightarrow> bool" where
  "pending_tx i s0 s \<longleftrightarrow> (\<exists>tx. sender_of (bk_transactions (xs_block s0) ! i) tx
     \<and> xs_block s = with_tx i (xs_block s0) tx (bk_blockUsedGas (xs_block s0)))
     \<and> session_frame (xs_vm s0) (xs_vm s) \<and> xs_tweakedKeys s = xs_tweakedKeys s0"

definition unpublished_tx :: "nat \<Rightarrow> exec_state \<Rightarrow> exec_state \<Rightarrow> bool" where
  "unpublished_tx i s0 s \<longleftrightarrow> (\<exists>tx e. sender_of (bk_transactions (xs_block s0) ! i) tx \<and> ce_revert e = None
     \<and> xs_block s = with_tx i (xs_block s0) (tx\<lparr>bt_receipt := Some (getEvaluationResult e)\<rparr>) (bk_blockUsedGas (xs_block s0) + totalGasUsed e))
     \<and> session_frame (xs_vm s0) (xs_vm s) \<and> xs_tweakedKeys s = xs_tweakedKeys s0"

definition settled_tx :: "block_env \<Rightarrow> nat \<Rightarrow> exec_state \<Rightarrow> exec_state \<Rightarrow> bool" where
  "settled_tx X i s0 s \<longleftrightarrow> (\<exists>tx receipt rv. sender_of (bk_transactions (xs_block s0) ! i) tx
     \<and> (receipt = None \<or> (\<exists>e. receipt = Some (getEvaluationResult e))) \<and> (rv = None \<longrightarrow> receipt \<noteq> None)
     \<and> xs_block s = with_tx i (xs_block s0) (tx\<lparr>bt_receipt := receipt, bt_revert := rv\<rparr>)
         (bk_blockUsedGas (xs_block s0) + charged X (tx\<lparr>bt_receipt := receipt, bt_revert := rv\<rparr>))
     \<and> vm_blockState (xs_vm s) = map_option (publish_tx (tx\<lparr>bt_receipt := receipt, bt_revert := rv\<rparr>)) (vm_blockState (xs_vm s0)))
     \<and> vm_blockId (xs_vm s) = vm_blockId (xs_vm s0) \<and> vm_isPrepared (xs_vm s) = vm_isPrepared (xs_vm s0)
     \<and> open_block (xs_vm s) \<and> (\<exists>cs. vm_storage (xs_vm s) = (vm_storage (xs_vm s0))\<lparr>st_contracts := cs\<rparr>)"

lemma sender_refl [simp]: "sender_of tx tx"
  unfolding sender_of_def by (intro exI [of _ "bt_interaction tx"] exI [of _ "bt_deployment tx"]) simp

lemma sender_trans: "sender_of tx tx' \<Longrightarrow> sender_of tx' tx'' \<Longrightarrow> sender_of tx tx''"
  by (auto simp: sender_of_def) blast

lemma sender_update: "sender_of tx (tx\<lparr>bt_interaction := ia, bt_deployment := da\<rparr>)"
  unfolding sender_of_def by blast

lemma sender_fields:
  "sender_of tx tx' \<Longrightarrow> bt_type tx' = bt_type tx \<and> bt_id tx' = bt_id tx \<and> bt_txid tx' = bt_txid tx \<and> bt_receipt tx' = bt_receipt tx
     \<and> bt_revert tx' = bt_revert tx \<and> bt_specialSettings tx' = bt_specialSettings tx"
  by (auto simp: sender_of_def)

lemma with_tx_same [simp]: "with_tx i b (bk_transactions b ! i) (bk_blockUsedGas b) = b"
  by (simp add: with_tx_def)

lemma with_tx_twice [simp]: "with_tx i (with_tx i b tx g) tx' g' = with_tx i b tx' g'"
  by (simp add: with_tx_def)

lemma with_tx_fields [simp]: "i < length (bk_transactions b) \<Longrightarrow> bk_transactions (with_tx i b tx g) ! i = tx"
  "bk_blockUsedGas (with_tx i b tx g) = g" "bk_height (with_tx i b tx g) = bk_height b"
  "bk_transactions (with_tx i b tx g) = (bk_transactions b)[i := tx]"
  by (simp_all add: with_tx_def)

lemma with_tx_gas [simp]: "(with_tx i b tx g)\<lparr>bk_blockUsedGas := g'\<rparr> = with_tx i b tx g'"
  by (simp add: with_tx_def)

lemma with_tx_update [simp]: "(with_tx i b tx g)\<lparr>bk_transactions := (bk_transactions b)[i := tx']\<rparr> = with_tx i b tx' g"
  by (cases b) (simp add: with_tx_def)

lemma no_revert: "bt_revert tx = None \<Longrightarrow> tx\<lparr>bt_receipt := r, bt_revert := None\<rparr> = tx\<lparr>bt_receipt := r\<rparr>"
  by (cases tx) simp

lemma result_fields [simp]: "er_revert (getEvaluationResult e) = ce_revert e"
  "er_gasUsed (getEvaluationResult e) + er_specialGasUsed (getEvaluationResult e) = totalGasUsed e"
  "ce_revert e \<noteq> None \<Longrightarrow> er_deployedContracts (getEvaluationResult e) = []"
  by (simp_all add: getEvaluationResult_def totalGasUsed_def Let_def)

lemma pending_refl: "pending_tx i s s"
  unfolding pending_tx_def using sender_refl with_tx_same by (metis frame_refl)

lemma checkConstraints_keeps: "st_keeps Q (checkConstraintsBlock X tx)"
  by (auto simp: st_keeps_def checkConstraintsBlock_def)

lemma assign_sender_pending:
  assumes "i < length (bk_transactions (xs_block s0))"
  shows "st_keeps (pending_tx i s0) (assign_sender X i)"
proof (rule st_keepsI)
  fix s :: exec_state assume p: "pending_tx i s0 s"
  then obtain tx where tx: "sender_of (bk_transactions (xs_block s0) ! i) tx"
    "xs_block s = with_tx i (xs_block s0) tx (bk_blockUsedGas (xs_block s0))" by (auto simp: pending_tx_def)
  have sender: "sender_of (bk_transactions (xs_block s0) ! i) (tx\<lparr>bt_interaction := ia, bt_deployment := da\<rparr>)" for ia da
    using sender_trans [OF tx(1) sender_update] .
  have fr: "session_frame (xs_vm s0) (xs_vm s\<lparr>vm_mldsa := r\<rparr>)" for r
    using p by (auto simp: pending_tx_def session_frame_def)
  obtain res r where "assignMLDSAToLegacy (be_signer X) (st_publicKeys (vm_storage (xs_vm s))) (vm_blockId (xs_vm s)) (bt_originalKey tx)
             (bt_mldsaLinkRequest tx) (vm_mldsa (xs_vm s)) = (res, r)" by fastforce
  then show "pending_tx i s0 (snd (assign_sender X i s))"
    using p tx assms fr [of r] sender
    by (cases res) (auto simp: assign_sender_def update_tx_def on_block_def st_put_def pending_tx_def Let_def with_tx_def)
qed

lemma manager_pending:
  assumes "\<And>vm. session_frame vm (snd (m vm))"
  shows "st_keeps (pending_tx i s0) (on_manager c m)"
proof (rule st_keepsI)
  fix s :: exec_state assume "pending_tx i s0 s"
  moreover obtain r vm where "m (xs_vm s) = (r, vm)" by fastforce
  moreover have "session_frame (xs_vm s) vm" using assms [of "xs_vm s"] calculation(2) by simp
  ultimately show "pending_tx i s0 (snd (on_manager c m s))"
    using frame_trans by (cases r) (auto simp: on_manager_def pending_tx_def)
qed

lemma record_settles:
  assumes i: "i < length (bk_transactions (xs_block s0))" and tx0: "unexecuted X (bk_transactions (xs_block s0) ! i)"
    and E: "\<not> ve_isExecutor (be_env X)" "ve_disableStorageCheck (be_env X)" "open_block (xs_vm s0)"
  shows "triple (pending_tx i s0) (record_evaluation X i e) (\<lambda>_. settled_tx X i s0) (\<lambda>_. unpublished_tx i s0)"
  unfolding triple_def
proof (intro allI impI)
  fix s assume p: "pending_tx i s0 s"
  then obtain tx where tx: "sender_of (bk_transactions (xs_block s0) ! i) tx"
    "xs_block s = with_tx i (xs_block s0) tx (bk_blockUsedGas (xs_block s0))"
    and fr: "session_frame (xs_vm s0) (xs_vm s)" "xs_tweakedKeys s = xs_tweakedKeys s0" by (auto simp: pending_tx_def)
  note f = sender_fields [OF tx(1)]
  define rtx where "rtx = tx\<lparr>bt_receipt := Some (getEvaluationResult e), bt_revert := ce_revert e\<rparr>"
  define b where "b = with_tx i (xs_block s0) rtx (bk_blockUsedGas (xs_block s0) + totalGasUsed e)"
  have rv: "bt_revert tx = None" using f tx0 by (simp add: unexecuted_def)
  have run: "record_evaluation X i e s = processEvaluation X i e (s\<lparr>xs_block := b\<rparr>)"
    using i tx rv by (cases "ce_revert e")
      (simp_all add: record_evaluation_def st_bind_def on_block_def st_put_def update_tx_def processRevertedTx_def b_def rtx_def no_revert)
  obtain t where t: "vm_blockState (xs_vm s) = Some t" "vm_blockState (xs_vm s0) = Some t"
    using frame_open [OF fr(1) E(3)] fr(1) by (auto simp: open_block_def session_frame_def)
  obtain r vm where pub: "updateBlockValuesFromResult (be_env X) (Some e) (ce_contractAddress e) (be_toHex X (bt_txid rtx)) True (xs_vm s) = (r, vm)"
    by fastforce
  have "be_toHex X (bt_txid rtx) \<noteq> []" using f tx0 by (simp add: unexecuted_def rtx_def)
  note res = publish_success [OF frame_open [OF fr(1) E(3)] this E(1) pub t(1), of tx, folded rtx_def]
  have gas: "totalGasUsed e = charged X rtx"
    by (auto simp: charged_def rtx_def)
  have step: "record_evaluation X i e s = (case r of Inl er \<Rightarrow> Inl (ManagerFailed er) | Inr u \<Rightarrow> Inr u, s\<lparr>xs_block := b, xs_vm := vm\<rparr>)"
    unfolding run using pub i E(2) by (cases r) (simp_all add: processEvaluation_def st_bind_def st_get_def on_manager_def b_def)
  show "case record_evaluation X i e s of (Inr x, s') \<Rightarrow> settled_tx X i s0 s' | (Inl er, s') \<Rightarrow> unpublished_tx i s0 s'"
  proof (cases r)
    case (Inl er)
    then have "rtx = tx\<lparr>bt_receipt := Some (getEvaluationResult e)\<rparr>" "vm = xs_vm s" "ce_revert e = None"
      using res rv unfolding rtx_def by simp_all
    then have "unpublished_tx i s0 (s\<lparr>xs_block := b, xs_vm := vm\<rparr>)"
      unfolding unpublished_tx_def using tx(1) fr by (auto simp: b_def)
    then show ?thesis using step Inl by simp
  next
    case (Inr u)
    then obtain rs where vm: "vm = (xs_vm s)\<lparr>vm_blockState := Some (publish_tx rtx t), vm_receiptState := rs\<rparr>" and op: "open_block vm"
      using res by auto
    have "settled_tx X i s0 (s\<lparr>xs_block := b, xs_vm := vm\<rparr>)"
      unfolding settled_tx_def
      by (intro conjI exI [of _ tx] exI [of _ "Some (getEvaluationResult e)"] exI [of _ "ce_revert e"])
        (use tx(1) fr(1) t op in \<open>auto simp: vm b_def gas rtx_def [symmetric] session_frame_def\<close>)
    then show ?thesis using step Inr by simp
  qed
qed

lemma failure_settles:
  assumes i: "i < length (bk_transactions (xs_block s0))" and tx0: "unexecuted X (bk_transactions (xs_block s0) ! i)"
    and E: "open_block (xs_vm s0)"
  shows "triple (\<lambda>s. pending_tx i s0 s \<or> unpublished_tx i s0 s) (processTransactionFailure X i err) (\<lambda>_. settled_tx X i s0) (\<lambda>_ _. False)"
  unfolding triple_def
proof (intro allI impI)
  fix s assume "pending_tx i s0 s \<or> unpublished_tx i s0 s"
  then obtain tx receipt g where tx: "sender_of (bk_transactions (xs_block s0) ! i) tx"
    "xs_block s = with_tx i (xs_block s0) (tx\<lparr>bt_receipt := receipt\<rparr>) g"
    and fr: "session_frame (xs_vm s0) (xs_vm s)" "xs_tweakedKeys s = xs_tweakedKeys s0"
    and g: "receipt = None \<and> g = bk_blockUsedGas (xs_block s0) \<or> (\<exists>e. receipt = Some (getEvaluationResult e) \<and> ce_revert e = None
        \<and> g = bk_blockUsedGas (xs_block s0) + totalGasUsed e)"
  proof (elim disjE, goal_cases)
    case 1
    then obtain tx where *: "sender_of (bk_transactions (xs_block s0) ! i) tx"
      "xs_block s = with_tx i (xs_block s0) tx (bk_blockUsedGas (xs_block s0))"
      "session_frame (xs_vm s0) (xs_vm s)" "xs_tweakedKeys s = xs_tweakedKeys s0" by (auto simp: pending_tx_def)
    moreover have "tx\<lparr>bt_receipt := None\<rparr> = tx" using sender_fields [OF *(1)] tx0 by (cases tx) (simp add: unexecuted_def)
    ultimately show ?case using 1(1) [of tx None] by simp
  next
    case 2
    then show ?case unfolding unpublished_tx_def by blast
  qed
  note f = sender_fields [OF tx(1)]
  define rtx where "rtx = tx\<lparr>bt_receipt := receipt, bt_revert := Some (be_errorBuffer X err)\<rparr>"
  define b where "b = with_tx i (xs_block s0) rtx (g + PANIC_GAS_COST (be_gas X))"
  obtain r vm where pub: "updateBlockValuesFromResult (be_env X) None (bt_address rtx) (bt_id rtx) True (xs_vm s) = (r, vm)"
    by fastforce
  have "bt_id rtx \<noteq> []" using f tx0 by (simp add: rtx_def unexecuted_def)
  note res = publish_failure [OF frame_open [OF fr(1) E] this pub]
  have run: "processTransactionFailure X i err s = (Inr (), s\<lparr>xs_block := b, xs_vm := vm\<rparr>)"
    using i tx pub res
    by (simp add: processTransactionFailure_def st_bind_def on_block_def st_put_def update_tx_def st_get_def on_manager_def b_def rtx_def)
  have gas: "g + PANIC_GAS_COST (be_gas X) = bk_blockUsedGas (xs_block s0) + charged X rtx"
    using g by (auto simp: charged_def rtx_def)
  obtain t where t: "vm_blockState (xs_vm s0) = Some t" using E by (auto simp: open_block_def)
  have "settled_tx X i s0 (s\<lparr>xs_block := b, xs_vm := vm\<rparr>)"
    unfolding settled_tx_def
    by (intro conjI exI [of _ tx] exI [of _ receipt] exI [of _ "Some (be_errorBuffer X err)"])
      (use tx(1) fr(1) t res g in \<open>auto simp: b_def gas rtx_def [symmetric] session_frame_def publish_tx_def\<close>,
       auto simp: rtx_def)
  then show "case processTransactionFailure X i err s of (Inr x, s') \<Rightarrow> settled_tx X i s0 s' | (Inl e, s') \<Rightarrow> False"
    using run by simp
qed

text \<open>The two kinds of execution have the same shape, so one rule serves both.\<close>

definition attempt ::
    "block_env \<Rightarrow> nat \<Rightarrow> (block_transaction \<Rightarrow> bool) \<Rightarrow> (block_transaction \<Rightarrow> bool)
     \<Rightarrow> (block_transaction \<Rightarrow> Block \<Rightarrow> VMManager \<Rightarrow> (call_error + ContractEvaluation) \<times> VMManager) \<Rightarrow> unit exec" where
  "attempt X i coinbase dead m =
     st_bind (st_get (\<lambda>s. bk_transactions (xs_block s) ! i)) (\<lambda>tx.
     st_bind (checkConstraintsBlock X tx) (\<lambda>_.
     if coinbase tx then st_throw CoinbaseNotAllowed
     else
       st_bind (assign_sender X i) (\<lambda>_.
       st_bind (st_get (\<lambda>s. (bk_transactions (xs_block s) ! i, xs_block s))) (\<lambda>(tx, b).
       if dead tx then st_throw DeadAddress
       else st_bind (on_manager ExecutionFailed (m tx b)) (\<lambda>e. record_evaluation X i e)))))"

definition interaction_run :: "block_env \<Rightarrow> bool \<Rightarrow> block_transaction \<Rightarrow> Block \<Rightarrow> VMManager \<Rightarrow> (call_error + ContractEvaluation) \<times> VMManager" where
  "interaction_run X simulated tx b =
     executeTransaction (tx_package X tx) (block_context_of X b) ((bt_interaction tx)\<lparr>it_specialSettings := bt_specialSettings tx\<rparr>) simulated"

definition deployment_run :: "block_env \<Rightarrow> block_transaction \<Rightarrow> Block \<Rightarrow> VMManager \<Rightarrow> (call_error + ContractEvaluation) \<times> VMManager" where
  "deployment_run X tx b = VM_deployContract (tx_package X tx) (block_context_of X b) (bt_deployment tx)"

lemma execution_shapes:
  "executeInteractionTransaction X i simulated =
     st_bind (block_catch (attempt X i (\<lambda>tx. firstInput tx = None \<or> firstInput tx = Some []) (\<lambda>tx. be_isDead X (it_from (bt_interaction tx)))
       (interaction_run X simulated)) (processTransactionFailure X i)) (\<lambda>_. verifyTransaction i)"
  "executeDeploymentTransaction X i =
     st_bind (block_catch (attempt X i (\<lambda>tx. firstInput tx = None) (\<lambda>tx. be_isDead X (dt_from (bt_deployment tx)))
       (deployment_run X)) (processTransactionFailure X i)) (\<lambda>_. verifyTransaction i)"
  unfolding executeInteractionTransaction_def executeDeploymentTransaction_def attempt_def interaction_run_def deployment_run_def
  by (rule refl)+

lemma run_frames: "session_frame vm (snd (interaction_run X simulated tx b vm))" "session_frame vm (snd (deployment_run X tx b vm))"
  by (simp_all add: interaction_run_def deployment_run_def executeTransaction_frame VM_deployContract_frame)

lemma verify_settled:
  assumes "i < length (bk_transactions (xs_block s0))"
  shows "triple (settled_tx X i s0) (verifyTransaction i) (\<lambda>_. settled_tx X i s0) (\<lambda>_ _. False)"
proof -
  have "verifyTransaction i s = (Inr (), s)" if "settled_tx X i s0 s" for s
    using that assms by (auto simp: settled_tx_def verifyTransaction_def split: option.splits)
  then show ?thesis by (simp add: triple_def)
qed

lemma triple_pending:
  "st_keeps (pending_tx i s0) k \<Longrightarrow> triple (pending_tx i s0) k (\<lambda>_. pending_tx i s0) (\<lambda>_ s. pending_tx i s0 s \<or> unpublished_tx i s0 s)"
  by (rule triple_weaken [OF triple_keeps [where Q = "pending_tx i s0" and Pre = "pending_tx i s0"]]) auto

lemma attempt_settles:
  assumes i: "i < length (bk_transactions (xs_block s0))" and "unexecuted X (bk_transactions (xs_block s0) ! i)"
    and "\<not> ve_isExecutor (be_env X)" "ve_disableStorageCheck (be_env X)" "open_block (xs_vm s0)"
    and m: "\<And>tx b vm. session_frame vm (snd (m tx b vm))"
  shows "triple (\<lambda>s. s = s0) (st_bind (block_catch (attempt X i coinbase dead m) (processTransactionFailure X i)) (\<lambda>_. verifyTransaction i))
    (\<lambda>_. settled_tx X i s0) (\<lambda>_ _. False)"
proof -
  have get: "st_keeps (pending_tx i s0) (st_get g)" for g by simp
  have throw: "triple (pending_tx i s0) (st_throw er) Q (\<lambda>_ s. pending_tx i s0 s \<or> unpublished_tx i s0 s)" for er Q
    by (rule triple_throw) simp
  have last: "triple (pending_tx i s0) (record_evaluation X i e) (\<lambda>_. settled_tx X i s0) (\<lambda>_ s. pending_tx i s0 s \<or> unpublished_tx i s0 s)" for e
    by (rule triple_weaken [OF record_settles [OF assms(1-5)]]) auto
  have "triple (pending_tx i s0) (attempt X i coinbase dead m) (\<lambda>_. settled_tx X i s0) (\<lambda>_ s. pending_tx i s0 s \<or> unpublished_tx i s0 s)"
    unfolding attempt_def
    by (intro triple_bind [OF triple_pending [OF checkConstraints_keeps]] triple_bind [OF triple_pending [OF assign_sender_pending [OF i]]]
        triple_bind [OF triple_pending [OF manager_pending [OF m]]] triple_bind [OF triple_pending [OF st_keeps_basic(4)]]
        triple_if triple_prod throw last)
  then have "triple (\<lambda>s. s = s0) (attempt X i coinbase dead m) (\<lambda>_. settled_tx X i s0) (\<lambda>_ s. pending_tx i s0 s \<or> unpublished_tx i s0 s)"
    by (rule triple_weaken) (simp_all add: pending_refl)
  then show ?thesis by (intro triple_bind [OF triple_catch [OF _ failure_settles [OF assms(1,2,5)]] verify_settled [OF i]])
qed

lemma single_transaction:
  assumes "i < length (bk_transactions (xs_block s0))" "unexecuted X (bk_transactions (xs_block s0) ! i)"
    and "\<not> ve_isExecutor (be_env X)" "ve_disableStorageCheck (be_env X)" "open_block (xs_vm s0)"
    and "bt_type (bk_transactions (xs_block s0) ! i) \<noteq> Generic"
  shows "\<exists>s. executeOPNetSingleTransaction X i s0 = (Inr (), s) \<and> settled_tx X i s0 s"
proof -
  have inter: "\<exists>s. executeInteractionTransaction X i False s0 = (Inr (), s) \<and> settled_tx X i s0 s"
    unfolding execution_shapes by (rule triple_total [OF attempt_settles [OF assms(1-5) run_frames(1)] refl])
  have depl: "\<exists>s. executeDeploymentTransaction X i s0 = (Inr (), s) \<and> settled_tx X i s0 s"
    unfolding execution_shapes by (rule triple_total [OF attempt_settles [OF assms(1-5) run_frames(2)] refl])
  have keys: "settled_tx X i s0 (s\<lparr>xs_tweakedKeys := ks\<rparr>) = settled_tx X i s0 s" for s ks by (simp add: settled_tx_def)
  show ?thesis
  proof (cases "bt_type (bk_transactions (xs_block s0) ! i)")
    case Interaction
    then show ?thesis using inter by (auto simp: executeOPNetSingleTransaction_def st_bind_def st_simps requireAdditionalSteps_def)
  next
    case Deployment
    then show ?thesis using depl by (auto simp: executeOPNetSingleTransaction_def st_bind_def st_simps requireAdditionalSteps_def keys)
  qed (use assms(6) in simp)
qed

subsection \<open>The transactions of a block\<close>

text \<open>What the executed part \<open>done\<close> of a block did: the slots are those of before with the receipts published in order.\<close>

definition executed_part :: "block_env \<Rightarrow> nat list \<Rightarrow> exec_state \<Rightarrow> exec_state \<Rightarrow> bool" where
  "executed_part X part s0 s \<longleftrightarrow>
     (let txs = map (\<lambda>i. bk_transactions (xs_block s) ! i) part in
      vm_blockState (xs_vm s) = map_option (fold publish_tx txs) (vm_blockState (xs_vm s0))
      \<and> bk_blockUsedGas (xs_block s) = bk_blockUsedGas (xs_block s0) + sum_list (map (charged X) txs)
      \<and> list_all (\<lambda>tx. bt_receipt tx \<noteq> None \<or> bt_revert tx \<noteq> None) txs)
     \<and> length (bk_transactions (xs_block s)) = length (bk_transactions (xs_block s0))
     \<and> (\<forall>j. j \<notin> set part \<longrightarrow> bk_transactions (xs_block s) ! j = bk_transactions (xs_block s0) ! j)
     \<and> vm_isPrepared (xs_vm s) = vm_isPrepared (xs_vm s0) \<and> vm_blockId (xs_vm s) = vm_blockId (xs_vm s0)
     \<and> (\<exists>cs. vm_storage (xs_vm s) = (vm_storage (xs_vm s0))\<lparr>st_contracts := cs\<rparr>)"

lemma settled_part:
  assumes "settled_tx X i s0 s" "i < length (bk_transactions (xs_block s0))"
  shows "executed_part X [i] s0 s \<and> open_block (xs_vm s)"
  using assms by (auto simp: settled_tx_def executed_part_def Let_def)

lemma executed_part_cons:
  assumes "executed_part X [i] s0 s1" "executed_part X part s1 s2" "i \<notin> set part"
  shows "executed_part X (i # part) s0 s2"
proof -
  have same: "bk_transactions (xs_block s2) ! i = bk_transactions (xs_block s1) ! i"
    using assms(2,3) by (simp add: executed_part_def)
  show ?thesis using assms unfolding executed_part_def Let_def
    by (auto simp: same option.map_comp comp_def)
qed

lemma abort_step:
  "verifyIfBlockAborted s = (r, s') \<Longrightarrow> (r = Inr () \<or> r = Inl BlockAborted) \<and> xs_vm s' = xs_vm s
     \<and> (\<exists>a sig. xs_block s' = (xs_block s)\<lparr>bk_aborted := a, bk_signal := sig\<rparr>)"
  by (auto simp: verifyIfBlockAborted_def Let_def) blast

lemma abort_part: "verifyIfBlockAborted s1 = (r, s2) \<Longrightarrow> executed_part X part s0 s2 = executed_part X part s0 s1
    \<and> executed_part X part s2 = executed_part X part s1"
  by (drule abort_step) (auto simp: executed_part_def fun_eq_iff)

lemma execute_parts:
  assumes "\<not> ve_isExecutor (be_env X)" "ve_disableStorageCheck (be_env X)"
  shows "open_block (xs_vm s) \<Longrightarrow> distinct part \<Longrightarrow>
    (\<forall>i \<in> set part. i < length (bk_transactions (xs_block s)) \<and> unexecuted X (bk_transactions (xs_block s) ! i)
      \<and> bt_type (bk_transactions (xs_block s) ! i) \<noteq> Generic) \<Longrightarrow>
    executeOPNetTransactions X part s = (r, s') \<Longrightarrow>
    \<exists>first rest. part = first @ rest \<and> executed_part X first s s' \<and> (r = Inr () \<and> rest = [] \<or> r = Inl BlockAborted)"
proof (induction part arbitrary: s)
  case Nil
  then show ?case by (auto simp: executed_part_def st_return_def Let_def option.map_id intro: exI [of _ "st_contracts (vm_storage (xs_vm s))"])
next
  case (Cons i part)
  obtain s1 where s1: "executeOPNetSingleTransaction X i s = (Inr (), s1)" "settled_tx X i s s1"
    using single_transaction [of i s X] assms Cons.prems by auto
  have one: "executed_part X [i] s s1" "open_block (xs_vm s1)"
    using settled_part [OF s1(2)] Cons.prems by simp_all
  obtain r2 s2 where ab: "verifyIfBlockAborted s1 = (r2, s2)" by fastforce
  note keep = abort_step [OF ab] abort_part [OF ab]
  show ?case
  proof (cases r2)
    case (Inl e)
    then show ?thesis using Cons.prems(4) s1(1) ab keep one by (intro exI [of _ "[i]"] exI [of _ part]) (auto simp: st_bind_def)
  next
    case (Inr u)
    have rest: "executeOPNetTransactions X part s2 = (r, s')" using Cons.prems(4) s1(1) ab Inr by (simp add: st_bind_def)
    have "\<forall>j. j \<noteq> i \<longrightarrow> bk_transactions (xs_block s2) ! j = bk_transactions (xs_block s) ! j"
      "length (bk_transactions (xs_block s2)) = length (bk_transactions (xs_block s))"
      using one(1) keep(1) by (auto simp: executed_part_def)
    then have prem: "\<forall>j \<in> set part. j < length (bk_transactions (xs_block s2)) \<and> unexecuted X (bk_transactions (xs_block s2) ! j)
      \<and> bt_type (bk_transactions (xs_block s2) ! j) \<noteq> Generic" "distinct part" "open_block (xs_vm s2)"
      using Cons.prems(2,3) one(2) keep(1) by auto
    from Cons.IH [OF prem(3,2,1) rest] obtain first rest where ih: "part = first @ rest" "executed_part X first s1 s'"
      "r = Inr () \<and> rest = [] \<or> r = Inl BlockAborted" using keep(2) by auto
    have "executed_part X (i # first) s s'" using executed_part_cons [OF one(1) ih(2)] Cons.prems(2) ih(1) by auto
    then show ?thesis using ih by (intro exI [of _ "i # first"] exI [of _ rest]) auto
  qed
qed

text \<open>
  C2: The state of a block is the changes of its successful transactions, in order. On an open block of transactions not executed yet,
  the loop over the OP_NET transactions ends in one of two ways: all of them ran, or the task was cancelled after one of them;
  no error or revert of a transaction stops it. Every transaction that ran has a receipt or a revert; the slots of
  the block are those of before with the published changes of the transactions that ran, in order, and a transaction that threw or
  reverted changes none; the gas of the block grew by what each was charged; of the database only the contracts can have changed.
\<close>

theorem block_state_from_receipts:
  assumes "\<not> ve_isExecutor (be_env X)" "ve_disableStorageCheck (be_env X)" "open_block (xs_vm s)"
    and "list_all (unexecuted X) (bk_transactions (xs_block s))"
    and "executeOPNetTransactions X (snd (separateGenericTransactions (bk_transactions (xs_block s)))) s = (r, s')"
  shows "\<exists>first rest. snd (separateGenericTransactions (bk_transactions (xs_block s))) = first @ rest
    \<and> executed_part X first s s' \<and> (r = Inr () \<and> rest = [] \<or> r = Inl BlockAborted)"
proof (rule execute_parts [OF assms(1-3) _ _ assms(5)])
  show "distinct (snd (separateGenericTransactions (bk_transactions (xs_block s))))"
    by (simp add: separateGenericTransactions_def)
  show "\<forall>i \<in> set (snd (separateGenericTransactions (bk_transactions (xs_block s)))). i < length (bk_transactions (xs_block s))
      \<and> unexecuted X (bk_transactions (xs_block s) ! i) \<and> bt_type (bk_transactions (xs_block s) ! i) \<noteq> Generic"
    using assms(4) by (auto simp: separateGenericTransactions_def list_all_length)
qed

subsection \<open>The gas of a block\<close>

lemma within_total: "within_gas (gas_cap g limit) (ce_gasTracker e) \<Longrightarrow> totalGasUsed e \<le> limit"
  by (auto simp: within_gas_def gas_cap_def totalGasUsed_def split: if_splits)

lemma tx_package_gas [simp]: "vp_gas (tx_package X tx) = be_gas X"
  by (simp add: tx_package_def)

lemma run_gas:
  "bt_specialSettings tx = None \<Longrightarrow> interaction_run X simulated tx b vm = (Inr e, vm') \<Longrightarrow> totalGasUsed e \<le> TRANSACTION_MAX_GAS (be_gas X)"
  "deployment_run X tx b vm = (Inr e, vm') \<Longrightarrow> totalGasUsed e \<le> TRANSACTION_MAX_GAS (be_gas X)"
proof -
  assume sp: "bt_specialSettings tx = None" and run: "interaction_run X simulated tx b vm = (Inr e, vm')"
  from executeTransaction_result [OF run [unfolded interaction_run_def]] sp obtain maxGas t cx a vm1 vm2 where "getGasTracker (be_gas X) maxGas 0 None = Inr t"
    "executeCall (call_fuel (tx_package X tx)) (tx_package X tx) cx (first_params a t None False 0 None) 0 vm1 = (Inr e, vm2)"
    "cx_specialContract cx = None"
    by auto
  then show "totalGasUsed e \<le> TRANSACTION_MAX_GAS (be_gas X)"
    using gas_calleeD [OF executeCall_within] tracker_within by (intro within_total [of maxGas]) (auto simp: first_params_def)
next
  assume deployed: "deployment_run X tx b vm = (Inr e, vm')"
  from VM_deployContract_result [OF deployed [unfolded deployment_run_def]] obtain maxGas t cx c a d vm1 vm2 where t: "getGasTracker (be_gas X) maxGas 0 None = Inr t" "cx_specialContract cx = None"
    and run: "evaluator_run (tx_package X tx) (executeCall (call_fuel (tx_package X tx)) (tx_package X tx)) cx c
      (first_params a t d True 1 None) 0 vm1 = (Inr e, vm2)"
    by auto
  show "totalGasUsed e \<le> TRANSACTION_MAX_GAS (be_gas X)"
    by (rule within_total [OF run_within [OF executeCall_within _ _ run]]) (use t tracker_within in \<open>auto simp: first_params_def\<close>)
qed

definition gas_limited ::
    "block_env \<Rightarrow> (block_transaction \<Rightarrow> Block \<Rightarrow> VMManager \<Rightarrow> (call_error + ContractEvaluation) \<times> VMManager) \<Rightarrow> bool" where
  "gas_limited X m \<longleftrightarrow> (\<forall>tx b vm e vm'. bt_specialSettings tx = None \<longrightarrow> m tx b vm = (Inr e, vm') \<longrightarrow> totalGasUsed e \<le> TRANSACTION_MAX_GAS (be_gas X))"

lemma run_gas_limited: "gas_limited X (interaction_run X simulated)" "gas_limited X (deployment_run X)"
  unfolding gas_limited_def using run_gas by blast+

text \<open>The gas of the block while one transaction without special settings runs.\<close>

definition gas_at :: "nat \<Rightarrow> bigint \<Rightarrow> exec_state \<Rightarrow> bool" where
  "gas_at i g s \<longleftrightarrow> bk_blockUsedGas (xs_block s) = g \<and> bt_specialSettings (bk_transactions (xs_block s) ! i) = None
     \<and> i < length (bk_transactions (xs_block s))"

lemma assign_sender_gas: "st_keeps (gas_at i g) (assign_sender X i)"
  by (auto simp: st_keeps_def gas_at_def assign_sender_def update_tx_def on_block_def st_put_def Let_def split: prod.splits sum.splits)

lemma checkConstraints_gas:
  "triple (\<lambda>s. gas_at i g s \<and> tx = bk_transactions (xs_block s) ! i) (checkConstraintsBlock X tx)
     (\<lambda>_ s. gas_at i g s \<and> g \<le> MAX_THEORETICAL_GAS (be_gas X)) (\<lambda>_. gas_at i g)"
  by (auto simp: triple_def checkConstraintsBlock_def gas_at_def)

lemma record_gas:
  "bk_blockUsedGas (xs_block (snd (record_evaluation X i e s))) = bk_blockUsedGas (xs_block s) + totalGasUsed e"
  by (auto simp: record_evaluation_def st_bind_def on_block_def st_put_def update_tx_def processRevertedTx_def processEvaluation_def st_get_def
      on_manager_def split: prod.splits sum.splits)

lemma attempt_gas:
  assumes "0 \<le> TRANSACTION_MAX_GAS (be_gas X)"
    and m: "gas_limited X m"
  defines "bound \<equiv> \<lambda>g s. bk_blockUsedGas (xs_block s) \<le> (if MAX_THEORETICAL_GAS (be_gas X) < g then g else g + TRANSACTION_MAX_GAS (be_gas X))"
  shows "triple (gas_at i g) (attempt X i coinbase dead m) (\<lambda>_. bound g) (\<lambda>_. bound g)"
proof -
  have pre: "gas_at i g s \<Longrightarrow> bound g s" for s using assms(1) by (simp add: gas_at_def bound_def)
  have throw: "triple (gas_at i g) (st_throw er) (\<lambda>_. bound g) (\<lambda>_. bound g)" for er by (rule triple_throw) (rule pre)
  have sender: "triple (gas_at i g) (assign_sender X i) (\<lambda>_. gas_at i g) (\<lambda>_. bound g)"
    by (rule triple_weaken [OF triple_keeps [OF assign_sender_gas, where Pre = "gas_at i g"]]) (auto intro: pre)
  have run: "triple (\<lambda>s. gas_at i g s \<and> (tx, b) = (bk_transactions (xs_block s) ! i, xs_block s)) (on_manager ExecutionFailed (m tx b))
      (\<lambda>e s. gas_at i g s \<and> totalGasUsed e \<le> TRANSACTION_MAX_GAS (be_gas X)) (\<lambda>_. bound g)" for tx b
    by (rule triple_manager) (auto simp: gas_at_def bound_def assms(1) gas_limited_def split: sum.splits dest: m [unfolded gas_limited_def, rule_format])
  have rec: "triple (\<lambda>s. gas_at i g s \<and> totalGasUsed e \<le> TRANSACTION_MAX_GAS (be_gas X)) (record_evaluation X i e) (\<lambda>_. bound g) (\<lambda>_. bound g)"
    if "g \<le> MAX_THEORETICAL_GAS (be_gas X)" for e
    unfolding triple_def using that record_gas [of X i e]
    by (auto simp: bound_def gas_at_def split: prod.splits sum.splits) (metis add_left_mono snd_conv)+
  have rest: "triple (\<lambda>s. gas_at i g s \<and> g \<le> MAX_THEORETICAL_GAS (be_gas X)) (if c then st_throw CoinbaseNotAllowed
     else
       st_bind (assign_sender X i) (\<lambda>_.
       st_bind (st_get (\<lambda>s. (bk_transactions (xs_block s) ! i, xs_block s))) (\<lambda>(tx, b).
       if dead tx then st_throw DeadAddress
       else st_bind (on_manager ExecutionFailed (m tx b)) (\<lambda>e. record_evaluation X i e)))) (\<lambda>_. bound g) (\<lambda>_. bound g)" for c
  proof (cases "g \<le> MAX_THEORETICAL_GAS (be_gas X)")
    case True
    then show ?thesis
      by (auto intro!: triple_bind [OF sender] triple_get triple_if triple_prod triple_bind [OF run] rec throw
          triple_weaken [OF throw] simp del: prod.inject)
  qed (simp add: triple_def)
  show ?thesis unfolding attempt_def
    by (rule triple_get, rule triple_bind [OF triple_weaken [OF checkConstraints_gas] rest]) (auto intro: pre)
qed

lemma failure_gas:
  "bk_blockUsedGas (xs_block (snd (processTransactionFailure X i err s))) = bk_blockUsedGas (xs_block s) + PANIC_GAS_COST (be_gas X)"
  by (auto simp: processTransactionFailure_def st_bind_def on_block_def st_put_def update_tx_def st_get_def on_manager_def
      split: prod.splits sum.splits)

lemma verify_state: "snd (verifyTransaction i s) = s"
  by (simp add: verifyTransaction_def split: option.splits)

lemma settle_gas:
  assumes "0 \<le> TRANSACTION_MAX_GAS (be_gas X)" "0 \<le> PANIC_GAS_COST (be_gas X)"
    and m: "gas_limited X m"
    and "gas_at i g s"
  shows "bk_blockUsedGas (xs_block (snd (st_bind (block_catch (attempt X i coinbase dead m) (processTransactionFailure X i)) (\<lambda>_. verifyTransaction i) s)))
    \<le> (if MAX_THEORETICAL_GAS (be_gas X) < g then g else g + TRANSACTION_MAX_GAS (be_gas X)) + PANIC_GAS_COST (be_gas X)"
proof -
  obtain r s1 where a: "attempt X i coinbase dead m s = (r, s1)" by fastforce
  have b: "bk_blockUsedGas (xs_block s1) \<le> (if MAX_THEORETICAL_GAS (be_gas X) < g then g else g + TRANSACTION_MAX_GAS (be_gas X))"
    using tripleD [OF attempt_gas [OF assms(1) m, where coinbase = coinbase and dead = dead] assms(4)] a by (cases r) simp_all
  show ?thesis
  proof (cases r)
    case (Inl er)
    obtain r2 s2 where f: "processTransactionFailure X i er s1 = (r2, s2)" by fastforce
    have "bk_blockUsedGas (xs_block s2) = bk_blockUsedGas (xs_block s1) + PANIC_GAS_COST (be_gas X)" using failure_gas [of X i er s1] f by simp
    then show ?thesis using Inl a f b by (cases r2) (simp_all add: st_bind_def block_catch_def verify_state)
  next
    case (Inr u)
    then show ?thesis using a b assms(2) by (simp add: st_bind_def block_catch_def verify_state)
  qed
qed

lemma single_gas:
  assumes "0 \<le> TRANSACTION_MAX_GAS (be_gas X)" "0 \<le> PANIC_GAS_COST (be_gas X)" "gas_at i g s"
  shows "bk_blockUsedGas (xs_block (snd (executeOPNetSingleTransaction X i s)))
    \<le> (if MAX_THEORETICAL_GAS (be_gas X) < g then g else g + TRANSACTION_MAX_GAS (be_gas X)) + PANIC_GAS_COST (be_gas X)"
proof (cases "bt_type (bk_transactions (xs_block s) ! i)")
  case Generic
  then show ?thesis using assms by (auto simp: executeOPNetSingleTransaction_def st_bind_def st_simps requireAdditionalSteps_def gas_at_def)
next
  case Interaction
  obtain r s1 where "executeInteractionTransaction X i False s = (r, s1)" by fastforce
  moreover have "bk_blockUsedGas (xs_block (snd (executeInteractionTransaction X i False s)))
    \<le> (if MAX_THEORETICAL_GAS (be_gas X) < g then g else g + TRANSACTION_MAX_GAS (be_gas X)) + PANIC_GAS_COST (be_gas X)"
    unfolding execution_shapes by (rule settle_gas [OF assms(1,2) run_gas_limited(1) assms(3)])
  ultimately show ?thesis using Interaction
    by (cases r) (simp_all add: executeOPNetSingleTransaction_def st_bind_def st_simps requireAdditionalSteps_def)
next
  case Deployment
  obtain r s1 where "executeDeploymentTransaction X i s = (r, s1)" by fastforce
  moreover have "bk_blockUsedGas (xs_block (snd (executeDeploymentTransaction X i s)))
    \<le> (if MAX_THEORETICAL_GAS (be_gas X) < g then g else g + TRANSACTION_MAX_GAS (be_gas X)) + PANIC_GAS_COST (be_gas X)"
    unfolding execution_shapes by (rule settle_gas [OF assms(1,2) run_gas_limited(2) assms(3)])
  ultimately show ?thesis using Deployment
    by (cases r) (simp_all add: executeOPNetSingleTransaction_def st_bind_def st_simps requireAdditionalSteps_def)
qed

text \<open>No step of the loop touches the special settings or the number of the transactions.\<close>

definition plain_block :: "nat \<Rightarrow> exec_state \<Rightarrow> bool" where
  "plain_block n s \<longleftrightarrow> length (bk_transactions (xs_block s)) = n \<and> (\<forall>i < n. bt_specialSettings (bk_transactions (xs_block s) ! i) = None)"

lemma plain_update:
  "plain_block n s \<Longrightarrow> (\<And>tx. bt_specialSettings (f tx) = bt_specialSettings tx) \<Longrightarrow>
   plain_block n (s\<lparr>xs_block := (xs_block s)\<lparr>bk_transactions := (bk_transactions (xs_block s))[i := f (bk_transactions (xs_block s) ! i)]\<rparr>, xs_vm := vm\<rparr>)"
  by (cases "i < n") (auto simp: plain_block_def nth_list_update)

lemma update_tx_plain: "(\<And>tx. bt_specialSettings (f tx) = bt_specialSettings tx) \<Longrightarrow> st_keeps (plain_block n) (update_tx i f)"
  using plain_update [of n _ f] by (auto simp: st_keeps_def update_tx_def on_block_def st_put_def plain_block_def)

lemma block_plain: "(\<And>b. bk_transactions (f b) = bk_transactions b) \<Longrightarrow> st_keeps (plain_block n) (on_block f)"
  by (simp add: st_keeps_def plain_block_def on_block_def st_put_def)

lemma manager_plain [simp]: "st_keeps (plain_block n) (on_manager c m)"
  by (auto simp: st_keeps_def plain_block_def on_manager_def split: prod.splits sum.splits)

lemma catch_keeps: "st_keeps Q m \<Longrightarrow> (\<And>e. st_keeps Q (h e)) \<Longrightarrow> st_keeps Q (block_catch m h)"
  unfolding st_keeps_def block_catch_def by (fastforce split: prod.splits sum.splits)

lemma verify_keeps: "st_keeps Q (verifyTransaction i)"
  by (simp add: st_keeps_def verify_state)

lemma assign_sender_plain: "st_keeps (plain_block n) (assign_sender X i)"
proof -
  have "st_keeps (plain_block n) (update_tx i (\<lambda>tx. tx\<lparr>bt_interaction := (bt_interaction tx)\<lparr>it_from := be_addressOf X k, it_txOrigin := be_addressOf X k\<rparr>,
              bt_deployment := (bt_deployment tx)\<lparr>dt_from := be_addressOf X k\<rparr>\<rparr>))" for k
    by (rule update_tx_plain) simp
  moreover have "plain_block n (s\<lparr>xs_vm := vm\<rparr>) = plain_block n s" for s vm by (simp add: plain_block_def)
  ultimately show ?thesis by (auto simp: st_keeps_def assign_sender_def Let_def split: prod.splits sum.splits)
qed

lemma prod_keeps: "(\<And>a b. x = (a, b) \<Longrightarrow> st_keeps Q (f a b)) \<Longrightarrow> st_keeps Q (case x of (a, b) \<Rightarrow> f a b)"
  by (cases x) simp

lemma attempt_plain: "st_keeps (plain_block n) (attempt X i coinbase dead m)"
  unfolding attempt_def record_evaluation_def processRevertedTx_def processEvaluation_def
  by (intro st_keeps_bind st_keeps_if prod_keeps checkConstraints_keeps assign_sender_plain manager_plain update_tx_plain block_plain st_keeps_basic)
    (auto split: option.splits)

lemma single_plain: "st_keeps (plain_block n) (executeOPNetSingleTransaction X i)"
proof -
  have fail: "st_keeps (plain_block n) (processTransactionFailure X i er)" for er
    unfolding processTransactionFailure_def by (intro st_keeps_bind manager_plain update_tx_plain block_plain st_keeps_basic) simp_all
  have put: "st_keeps (plain_block n) (st_put (\<lambda>s. s\<lparr>xs_tweakedKeys := ks s\<rparr>))" for ks
    by (rule st_keeps_put) (simp add: plain_block_def)
  show ?thesis unfolding executeOPNetSingleTransaction_def execution_shapes
    by (auto intro!: st_keeps_bind st_keeps_when catch_keeps attempt_plain fail verify_keeps put block_plain split: OPNetTransactionTypes.splits)
qed


subsection \<open>The block session is given back\<close>

definition released :: "VMManager \<Rightarrow> bool" where
  "released vm \<longleftrightarrow> \<not> vm_isPrepared vm \<and> vm_blockState vm = None \<and> vm_receiptState vm = None"

text \<open>What holds from the preparation of a block to its end: the session is prepared, every write that was started has succeeded.\<close>

definition in_session :: "exec_state \<Rightarrow> bool" where
  "in_session s \<longleftrightarrow> vm_isPrepared (xs_vm s) \<and> list_all (\<lambda>r. r = Inr ()) (bk_saveGenericPromises (xs_block s))
     \<and> bk_specialTransaction (xs_block s) = [] \<and> \<not> bk_reverted (xs_block s)"

named_theorems session_rules

lemma block_session:
  "(\<And>b. bk_saveGenericPromises (f b) = bk_saveGenericPromises b) \<Longrightarrow> (\<And>b. bk_specialTransaction (f b) = bk_specialTransaction b) \<Longrightarrow>
   (\<And>b. bk_reverted (f b) = bk_reverted b) \<Longrightarrow> st_keeps in_session (on_block f)"
  by (simp add: st_keeps_def in_session_def on_block_def st_put_def)

lemma manager_session: "st_keeps vm_isPrepared m \<Longrightarrow> st_keeps in_session (on_manager c m)"
  by (auto simp: st_keeps_def in_session_def on_manager_def split: prod.splits sum.splits)

lemma update_tx_session [session_rules]: "st_keeps in_session (update_tx i f)"
  unfolding update_tx_def by (rule block_session) simp_all

lemma abort_session [session_rules]: "st_keeps in_session verifyIfBlockAborted"
  by (auto simp: st_keeps_def in_session_def verifyIfBlockAborted_def Let_def)

lemma frame_prepared: "(\<And>vm. session_frame vm (snd (m vm))) \<Longrightarrow> st_keeps vm_isPrepared m"
  by (auto simp: st_keeps_def session_frame_def)

lemma quiet_prepared: "(\<And>vm0. st_keeps (quiet vm0) m) \<Longrightarrow> st_keeps vm_isPrepared m"
  unfolding st_keeps_def by (metis quiet_def quiet_refl)

lemma publish_prepared: "st_keeps vm_isPrepared (updateBlockValuesFromResult E ev c tx d)"
proof (rule st_keepsI)
  fix vm :: VMManager assume "vm_isPrepared vm"
  then show "vm_isPrepared (snd (updateBlockValuesFromResult E ev c tx d vm))"
    using st_keeps_snd [OF publish_frame [of "vm_storage vm" True "vm_blockId vm" E ev c tx d], of vm] by simp
qed

lemma assign_sender_session [session_rules]: "st_keeps in_session (assign_sender X i)"
  by (auto simp: st_keeps_def in_session_def assign_sender_def update_tx_def on_block_def st_put_def Let_def split: prod.splits sum.splits)

lemma attempt_session [session_rules]:
  assumes "\<And>tx b vm. session_frame vm (snd (m tx b vm))"
  shows "st_keeps in_session (attempt X i coinbase dead m)"
  unfolding attempt_def record_evaluation_def processRevertedTx_def processEvaluation_def
  by (intro st_keeps_bind st_keeps_if prod_keeps checkConstraints_keeps session_rules manager_session publish_prepared frame_prepared assms block_session
      st_keeps_basic) simp_all

lemma single_session [session_rules]: "st_keeps in_session (executeOPNetSingleTransaction X i)"
proof -
  have fail: "st_keeps in_session (processTransactionFailure X i er)" for er
    unfolding processTransactionFailure_def by (intro st_keeps_bind session_rules manager_session publish_prepared block_session st_keeps_basic) simp_all
  have put: "st_keeps in_session (st_put (\<lambda>s. s\<lparr>xs_tweakedKeys := ks s\<rparr>))" for ks
    by (rule st_keeps_put) (simp add: in_session_def)
  show ?thesis unfolding executeOPNetSingleTransaction_def execution_shapes requireAdditionalSteps_def
    by (auto intro!: st_keeps_bind catch_keeps attempt_session run_frames fail verify_keeps put st_keeps_when split: OPNetTransactionTypes.splits)
qed

lemma transactions_session [session_rules]: "st_keeps in_session (executeOPNetTransactions X part)"
  by (induction part) (auto intro!: st_keeps_bind session_rules)

lemma lift_block_keeps [simp]: "st_keeps Q (lift_block c r)"
  by (simp add: lift_block_def split: sum.splits)

lemma special_session [session_rules]: "st_keeps Q executeSpecialTransactions"
  unfolding executeSpecialTransactions_def by (intro st_keeps_bind st_keeps_if) simp_all

lemma proofs_session [session_rules]: "st_keeps in_session assignReceiptProofsToTransactions"
proof -
  have "st_keeps in_session (assign_proofs ps part)" for ps part
    by (induction ps part rule: assign_proofs.induct) (auto intro!: st_keeps_bind st_keeps_when session_rules)
  then show ?thesis unfolding assignReceiptProofsToTransactions_def by (auto intro!: st_keeps_bind split: option.splits prod.splits)
qed

lemma sign_session [session_rules]: "st_keeps in_session (Block_signBlock X)"
proof -
  have prev: "st_keeps vm_isPrepared (\<lambda>vm. case getPreviousBlockChecksumOfHeight (vm_headers vm) l h (vm_validator vm) of (r, v) \<Rightarrow> (r, vm\<lparr>vm_validator := v\<rparr>))"
    for l h by (auto simp: st_keeps_def split: prod.splits)
  have gas: "st_keeps in_session (calculateNextBlockBaseGas X)"
    unfolding calculateNextBlockBaseGas_def
    by (auto intro!: st_keeps_bind st_keeps_if st_keeps_when block_session split: prod.splits)
  have clear: "st_keeps in_session (on_block (\<lambda>b. b\<lparr>bk_specialTransaction := []\<rparr>))"
    by (simp add: st_keeps_def in_session_def on_block_def st_put_def)
  show ?thesis unfolding Block_signBlock_def
    by (auto intro!: st_keeps_bind st_keeps_if session_rules manager_session prev gas clear block_session split: option.splits prod.splits)
qed

lemma states_prepared: "st_keeps vm_isPrepared (updateEvaluatedStates E)"
proof -
  have "st_keeps vm_isPrepared (updateReceiptState E)"
    by (auto simp: st_keeps_def updateReceiptState_def st_bind_def st_simps split: option.splits prod.splits sum.splits)
  moreover have "st_keeps vm_isPrepared (saveBlockStateChanges E)"
    by (auto simp: st_keeps_def saveBlockStateChanges_def st_bind_def st_simps split: option.splits prod.splits sum.splits)
  moreover have "st_keeps vm_isPrepared (\<lambda>vm. (case vm_blockState vm of
             None \<Rightarrow> (Inl BlockStateNotFound, vm)
           | Some t \<Rightarrow>
               (case StateMerkleTree_freeze (ve_merkle E) t of
                  Inl e \<Rightarrow> (Inl (VMMerkle e), vm)
                | Inr t' \<Rightarrow> (Inr (), vm\<lparr>vm_blockState := Some t'\<rparr>))))"
    "st_keeps vm_isPrepared (\<lambda>vm. case (vm_blockState vm, vm_receiptState vm) of
            (Some storage, Some receipts) \<Rightarrow>
              (Inr (storage, receipts), vm\<lparr>vm_blockState := None, vm_receiptState := None\<rparr>)
          | _ \<Rightarrow> (Inl BlockStateNotFound, vm))"
    by (auto simp: st_keeps_def split: option.splits sum.splits)
  ultimately show ?thesis unfolding updateEvaluatedStates_def by (intro st_keeps_guard st_keeps_bind)
qed

lemma execute_session [session_rules]:
  assumes "be_savesOPNet X"
  shows "st_keeps in_session (block_execute X)"
proof -
  have prev: "st_keeps vm_isPrepared (vm_getBlockHeader h)" for h by (rule quiet_prepared) (rule getBlockHeader_quiet)
  have gas: "st_keeps in_session (setGasParameters X d)" for d
    unfolding setGasParameters_def by (auto intro!: block_session split: option.splits)
  have states: "st_keeps in_session (processBlockStates X st)" for st
    unfolding processBlockStates_def Let_def by (auto intro!: st_keeps_bind st_keeps_if session_rules block_session split: prod.splits)
  have empty: "st_keeps in_session (onEmptyBlock X)"
    unfolding onEmptyBlock_def by (auto intro!: st_keeps_bind session_rules block_session)
  have save: "st_keeps in_session (started (saveOPNetTransactions X))"
    using assms by (auto simp: st_keeps_def started_def saveOPNetTransactions_def in_session_def Let_def saveTransactions_def)
  show ?thesis unfolding block_execute_def ensureNotExecuted_def
    by (intro st_keeps_bind st_keeps_if st_keeps_when session_rules manager_session prev states_prepared gas states empty save block_session st_keeps_basic)
      simp_all
qed

lemma insert_session [session_rules]: "st_keeps in_session (insertPartialTransactions X)"
  unfolding insertPartialTransactions_def
  by (rule st_keeps_when)
    (auto simp: st_keeps_def started_def saveGenericTransactions_def in_session_def Let_def saveTransactions_def)

lemma submissions_session [session_rules]: "st_keeps in_session (processSubmissions X)"
proof -
  have docs: "st_keeps in_session (extended_submissions X ds)" for ds
  proof (induction ds)
    case (Cons d ds)
    have "st_keeps vm_isPrepared (vm_getMLDSAPublicKey E a)" for E a by (rule quiet_prepared) (rule getMLDSA_quiet)
    then show ?case unfolding extended_submissions.simps Let_def
      by (auto intro!: st_keeps_bind manager_session Cons.IH split: option.splits)
  qed simp
  have put: "st_keeps in_session (st_put (\<lambda>s. s\<lparr>xs_vm := (xs_vm s)\<lparr>vm_storage := f s\<rparr>\<rparr>))" for f
    by (rule st_keeps_put) (simp add: in_session_def)
  have lift: "st_keeps in_session (\<lambda>s. lift_block c (f s) s)" for c :: "'x \<Rightarrow> block_error" and f :: "exec_state \<Rightarrow> 'x + 'y"
    by (auto simp: st_keeps_def lift_block_def st_simps split: sum.splits)
  show ?thesis
    unfolding processSubmissions_def extractUniqueSubmissions_def filterExistingSubmissions_def validateSubmissions_def saveEpochSubmissions_def Let_def
    by (intro st_keeps_bind st_keeps_if docs put lift block_session st_keeps_basic) simp_all
qed

lemma session_reverts:
  assumes "in_session s"
  shows "\<exists>s'. block_revertBlock s = (Inr (), s') \<and> released (xs_vm s')"
  using assms
  by (auto simp: block_revertBlock_def await_saves_def executeSpecialTransactions_def in_session_def st_bind_def st_simps on_block_def on_manager_def
      revertBlock_def VMBitcoinBlock_revert_def VMBitcoinBlock_reset_def vm_clear_def released_def)

lemma finalize_releases:
  assumes "in_session s"
  shows "\<exists>r s'. finalizeBlock s = (Inr r, s') \<and> released (xs_vm s')"
proof -
  let ?body = "st_bind verifyIfBlockAborted (\<lambda>_. st_bind await_saves (\<lambda>_. st_bind save_header (\<lambda>_.
      st_bind (on_manager ManagerFailed terminateBlock) (\<lambda>_. st_return True))))"
  have last: "triple in_session (st_bind (on_manager ManagerFailed terminateBlock) (\<lambda>_. st_return True))
      (\<lambda>_ s. released (xs_vm s)) (\<lambda>_. in_session)"
    by (auto simp: triple_def st_bind_def st_return_def on_manager_def terminateBlock_def VMBitcoinBlock_terminate_def VMBitcoinBlock_reset_def
        vm_clear_def released_def in_session_def)
  have saves: "st_keeps in_session await_saves" unfolding await_saves_def by (auto intro!: st_keeps_bind)
  have "st_keeps vm_isPrepared (saveBlock d)" for d by (simp add: st_keeps_def saveBlock_def)
  then have header: "st_keeps in_session save_header"
    unfolding save_header_def by (auto intro!: st_keeps_bind manager_session split: option.splits)
  have "triple in_session ?body (\<lambda>_ s. released (xs_vm s)) (\<lambda>_. in_session)"
    by (intro triple_bind [OF triple_keeps [OF abort_session]] triple_bind [OF triple_keeps [OF saves]] triple_bind [OF triple_keeps [OF header]] last)
  from tripleD [OF this assms] show ?thesis unfolding finalizeBlock_def block_catch_def
    by (auto simp: st_bind_def st_return_def split: prod.splits sum.splits dest!: session_reverts)
qed

lemma processing_session:
  assumes "be_savesOPNet (tk_block K)" "\<not> tk_killFails K" "released (xs_vm (ts_exec s))" "bk_saveGenericPromises (xs_block (ts_exec s)) = []"
    and "bk_specialTransaction (xs_block (ts_exec s)) = []" "\<not> bk_reverted (xs_block (ts_exec s))"
    and "task_processBlock K s = (r, s')"
  shows "(case r of Inl _ \<Rightarrow> released (xs_vm (ts_exec s')) | Inr _ \<Rightarrow> in_session (ts_exec s'))"
proof (cases "tk_cannotProceed K")
  case True
  then show ?thesis using assms(3,7) by (auto simp: task_processBlock_def st_throw_def)
next
  case False
  let ?X = "tk_block K"
  let ?body = "st_bind (insertPartialTransactions ?X) (\<lambda>_. st_bind (block_execute ?X) (\<lambda>_. processSubmissions ?X))"
  let ?s1 = "(ts_exec s)\<lparr>xs_vm := (xs_vm (ts_exec s))\<lparr>vm_isPrepared := True, vm_blockId := tk_tip K,
      vm_blockState := Some MerkleTree_new, vm_receiptState := Some MerkleTree_new\<rparr>\<rparr>"
  have prep: "on_manager ManagerFailed (prepareBlock (tk_tip K)) (ts_exec s) = (Inr (), ?s1)"
    using assms(3) by (simp add: on_manager_def prepareBlock_def VMBitcoinBlock_prepare_def released_def st_bind_def st_put_def)
  have start: "in_session ?s1" using assms(4-6) by (simp add: in_session_def)
  have keeps: "st_keeps in_session ?body" by (intro st_keeps_bind session_rules assms(1))
  obtain rb sb where body: "?body ?s1 = (rb, sb)" by (rule prod.exhaust)
  have inv: "in_session sb" by (rule st_keepsD [OF keeps start body])
  then obtain sr where rev: "block_revertBlock sb = (Inr (), sr)" "released (xs_vm sr)" using session_reverts by blast
  have run: "st_bind (on_manager ManagerFailed (prepareBlock (tk_tip K))) (\<lambda>_. ?body) (ts_exec s) = (rb, sb)"
    using st_bind_Inr [of "on_manager ManagerFailed (prepareBlock (tk_tip K))" "ts_exec s" "()" ?s1 "\<lambda>_. ?body"] prep body by simp
  show ?thesis
  proof (cases rb)
    case (Inl e)
    have "task_revertBlock K e sb = (Inl e, sr)" using assms(2) rev(1) by (simp add: task_revertBlock_def st_bind_Inr st_throw_def)
    then have "in_block (block_catch (st_bind (on_manager ManagerFailed (prepareBlock (tk_tip K))) (\<lambda>_. ?body)) (task_revertBlock K)) s
        = (Inl e, s\<lparr>ts_exec := sr\<rparr>)"
      unfolding in_block_def block_catch_def run Inl by simp
    then show ?thesis using assms(7) rev(2) False by (simp add: task_processBlock_def st_bind_Inl) (auto)
  next
    case (Inr u)
    have "in_block (block_catch (st_bind (on_manager ManagerFailed (prepareBlock (tk_tip K))) (\<lambda>_. ?body)) (task_revertBlock K)) s
        = (Inr u, s\<lparr>ts_exec := sb\<rparr>)"
      unfolding in_block_def block_catch_def run Inr by simp
    then show ?thesis using assms(7) inv False by (simp add: task_processBlock_def st_bind_Inr st_put_def) (auto)
  qed
qed

text \<open>The blocks that came before the execution do not touch the session.\<close>

definition block_prefix :: "exec_state \<Rightarrow> exec_state \<Rightarrow> bool" where
  "block_prefix s0 s \<longleftrightarrow> xs_vm s = xs_vm s0 \<and> bk_saveGenericPromises (xs_block s) = bk_saveGenericPromises (xs_block s0)
     \<and> bk_specialTransaction (xs_block s) = bk_specialTransaction (xs_block s0) \<and> bk_reverted (xs_block s) = bk_reverted (xs_block s0)"

lemma prepare_prefix: "st_keeps (block_prefix s0) (prepare_block K)" "st_keeps (block_prefix s0) setChallengeSolutions"
proof -
  have block: "st_keeps (block_prefix s0) (on_block f)"
    if "\<And>b. bk_saveGenericPromises (f b) = bk_saveGenericPromises b \<and> bk_specialTransaction (f b) = bk_specialTransaction b \<and> bk_reverted (f b) = bk_reverted b" for f
    using that by (simp add: st_keeps_def block_prefix_def on_block_def st_put_def)
  have abort: "st_keeps (block_prefix s0) verifyIfBlockAborted"
    by (auto simp: st_keeps_def block_prefix_def verifyIfBlockAborted_def Let_def)
  have loop: "st_keeps (block_prefix s0) (create_loop p pg n raws)" for p pg n and raws :: "'x list"
    by (induction raws arbitrary: n) (auto intro!: st_keeps_bind abort block)
  show "st_keeps (block_prefix s0) (prepare_block K)"
    unfolding prepare_block_def deserialize_def createTransactions_def defineGeneric_def
    by (auto intro!: st_keeps_bind st_keeps_if loop block split: option.splits)
  show "st_keeps (block_prefix s0) setChallengeSolutions"
    unfolding setChallengeSolutions_def by (auto intro!: st_keeps_bind block)
qed

lemma mempool_session: "\<not> tk_mempoolFails K \<Longrightarrow> \<exists>s'. on_mempool K f s = (Inr (), s') \<and> in_session s' = in_session s \<and> released (xs_vm s') = released (xs_vm s)"
  by (simp add: on_mempool_def st_put_def in_session_def released_def)

lemma detect_released: "released (xs_vm s) \<Longrightarrow> released (xs_vm (snd (detectAndRemoveConflictingTransactions K txs s)))"
  by (auto simp: detectAndRemoveConflictingTransactions_def on_mempool_def st_bind_def st_simps released_def)

lemma finalize_both_releases:
  assumes "in_session s"
  shows "released (xs_vm (snd (finalize_both K txs s)))"
proof -
  obtain r s1 where f: "finalizeBlock s = (Inr r, s1)" "released (xs_vm s1)" using finalize_releases [OF assms] by blast
  show ?thesis using f detect_released [OF f(2), of K txs] by (auto simp: finalize_both_def split: prod.splits sum.splits)
qed

lemma in_block_snd [simp]: "ts_exec (snd (in_block m s)) = snd (m (ts_exec s))"
  by (simp add: in_block_def split: prod.splits)

definition finish_task :: "'raw task_env \<Rightarrow> unit task" where
  "finish_task K =
     st_bind (st_get (\<lambda>s. xs_block (ts_exec s))) (\<lambda>b.
     if bk_reverted b then st_throw BlockWasReverted
     else
       st_bind (in_block (st_when (\<not> ve_resync (be_env (tk_block K))) (on_mempool K (deleteTransactionsById (map bt_id (bk_transactions b)))))) (\<lambda>_.
       st_bind (in_block (finalize_both K (bk_transactions b))) (\<lambda>finalizationResult.
       st_bind (in_block verifyIfBlockAborted) (\<lambda>_.
       if tk_abortedAtEnd K then st_return ()
       else if \<not> finalizationResult then st_throw FinalizationFailed
       else st_bind (st_lift (tk_complete K)) (\<lambda>_. st_put (\<lambda>s. s\<lparr>ts_completed := True\<rparr>))))))"

lemma process_body_steps:
  "process_body K = st_bind (st_lift (if tk_prefetchError K then Inl PrefetchFailed else Inr ())) (\<lambda>_.
     st_bind (in_block setChallengeSolutions) (\<lambda>_. st_bind (in_block (prepare_block K)) (\<lambda>_. st_bind (task_processBlock K) (\<lambda>_. finish_task K))))"
  by (simp only: process_body_def finish_task_def)

lemma in_block_run: "m (ts_exec s) = (r, x) \<Longrightarrow> in_block m s = (r, s\<lparr>ts_exec := x\<rparr>)"
  by (simp add: in_block_def)

lemma finish_releases:
  assumes "in_session (ts_exec s)" "\<not> tk_mempoolFails K"
  shows "released (xs_vm (ts_exec (snd (finish_task K s))))"
proof -
  let ?b = "xs_block (ts_exec s)"
  let ?purge = "st_when (\<not> ve_resync (be_env (tk_block K))) (on_mempool K (deleteTransactionsById (map bt_id (bk_transactions ?b))))"
  have alive: "\<not> bk_reverted ?b" using assms(1) by (simp add: in_session_def)
  obtain x1 where x1: "?purge (ts_exec s) = (Inr (), x1)" "in_session x1"
    using mempool_session [OF assms(2)] assms(1) by (cases "ve_resync (be_env (tk_block K))") (auto simp: st_when_def st_return_def)
  obtain r2 x2 where x2: "finalize_both K (bk_transactions ?b) x1 = (r2, x2)" by (rule prod.exhaust)
  have rel: "released (xs_vm x2)" using finalize_both_releases [OF x1(2), of K "bk_transactions ?b"] x2 by simp
  obtain r3 x3 where x3: "verifyIfBlockAborted x2 = (r3, x3)" by (rule prod.exhaust)
  have rel3: "released (xs_vm x3)" using abort_step [OF x3] rel by simp
  have steps: "finish_task K s = st_bind (in_block (finalize_both K (bk_transactions ?b))) (\<lambda>finalizationResult.
       st_bind (in_block verifyIfBlockAborted) (\<lambda>_.
       if tk_abortedAtEnd K then st_return ()
       else if \<not> finalizationResult then st_throw FinalizationFailed
       else st_bind (st_lift (tk_complete K)) (\<lambda>_. st_put (\<lambda>s. s\<lparr>ts_completed := True\<rparr>)))) (s\<lparr>ts_exec := x1\<rparr>)"
    unfolding finish_task_def using alive in_block_run [of ?purge s, OF x1(1)] by (simp add: st_bind_def st_get_def)
  show ?thesis
  proof (cases r2)
    case (Inl e)
    then show ?thesis unfolding steps using rel x2 by (simp add: st_bind_Inl in_block_def)
  next
    case (Inr ok)
    then show ?thesis unfolding steps using rel3 x2 x3
      by (cases r3; cases "tk_complete K") (simp_all add: st_bind_def in_block_def st_simps)
  qed
qed


text \<open>
  C40: A rejected write costs the next block. When a write of OP_NET transactions of a prepared block was rejected, the finalisation reports
  the failure but leaves the block prepared, because the revert waits for the same rejected write before it reaches the manager.
  The next task, with whatever block, then fails at its first step, and only its revert gives the session back.
\<close>

theorem rejected_write_fails_next_block:
  assumes "vm_isPrepared (xs_vm x)" "\<not> list_all (\<lambda>r. r = Inr ()) (bk_saveGenericPromises (xs_block x))"
    and "\<not> tk_killFails K" "\<not> tk_cannotProceed K" "in_session (ts_exec s)"
  shows "(\<exists>x'. finalizeBlock x = (Inr False, x') \<and> xs_vm x' = xs_vm x)
    \<and> (\<exists>e s'. task_processBlock K s = (Inl (ManagerFailed e), s') \<and> released (xs_vm (ts_exec s')))"
proof
  obtain r x1 where a: "verifyIfBlockAborted x = (r, x1)" by (rule prod.exhaust)
  have x1: "xs_vm x1 = xs_vm x" "\<not> list_all (\<lambda>r. r = Inr ()) (bk_saveGenericPromises (xs_block x1))"
    using abort_step [OF a] assms(2) by auto
  have "await_saves x1 = (Inl SaveFailed, x1)" using x1(2) by (simp add: await_saves_def st_bind_def st_simps)
  then show "\<exists>x'. finalizeBlock x = (Inr False, x') \<and> xs_vm x' = xs_vm x"
    using a x1(1) by (cases r) (simp_all add: finalizeBlock_def block_revertBlock_def block_catch_def st_bind_def st_return_def)
next
  have prep: "vm_isPrepared (xs_vm (ts_exec s))" using assms(5) by (simp add: in_session_def)
  obtain e where fail: "on_manager ManagerFailed (prepareBlock (tk_tip K)) (ts_exec s) = (Inl (ManagerFailed e), ts_exec s)"
    using prep by (cases "vm_blockState (xs_vm (ts_exec s))")
      (simp_all add: on_manager_def prepareBlock_def VMBitcoinBlock_prepare_def st_bind_def)
  obtain x' where rev: "block_revertBlock (ts_exec s) = (Inr (), x')" "released (xs_vm x')" using session_reverts [OF assms(5)] by blast
  have "task_revertBlock K (ManagerFailed e) (ts_exec s) = (Inl (ManagerFailed e), x')"
    using assms(3) rev(1) by (simp add: task_revertBlock_def st_bind_def st_throw_def)
  then have "task_processBlock K s = (Inl (ManagerFailed e), s\<lparr>ts_exec := x'\<rparr>)"
    using assms(4) fail by (simp add: task_processBlock_def in_block_def block_catch_def st_bind_def)
  then show "\<exists>e s'. task_processBlock K s = (Inl (ManagerFailed e), s') \<and> released (xs_vm (ts_exec s'))" using rev(2) by auto
qed

subsection \<open>Samples\<close>

definition sample_block_env :: block_env where
  "sample_block_env = \<lparr>be_package = sample_package False, be_signer = sample_signer, be_opnet = \<lparr>OE_ENABLED = True, OE_BLOCK = 0\<rparr>,
     be_addressOf = (\<lambda>_. ''D''), be_isDead = (\<lambda>_. False), be_gasOf = (\<lambda>_. (0, 0)), be_toHex = (\<lambda>b. CHR ''h'' # map (\<lambda>w. char_of (unat w)) b),
     be_errorBuffer = (\<lambda>_. [1]), be_simulateHighGas = False, be_savesGeneric = True, be_savesOPNet = True, be_epoch = Roswell_EPOCH,
     be_externals = sample_externals, be_existsFails = False, be_savesSubmission = (\<lambda>_. True), be_allowUnsafe = False, be_keyAddress = (\<lambda>_. ''D'')\<rparr>"

definition sample_block_tx :: "nat \<Rightarrow> block_transaction" where
  "sample_block_tx n = \<lparr>bt_type = Interaction, bt_index = n, bt_originalIndex = n, bt_id = ''t'', bt_txid = [of_nat n], bt_address = ''A'',
     bt_inputList = [([1], 0)], bt_inputs = [], bt_outputs = [], bt_originalKey = [], bt_mldsaLinkRequest = None, bt_specialSettings = None,
     bt_interaction = sample_transaction, bt_deployment = \<lparr>dt_contractAddress = [], dt_address = [], dt_blockHeight = 0, dt_bytecode = None,
       dt_wasCompressed = False, dt_ids = ([], []), dt_deployerPubKey = None, dt_contractSeed = None, dt_contractSaltHash = None, dt_from = [],
       dt_gasSatFee = 0, dt_calldata = [], dt_preloadStorageList = None\<rparr>,
     bt_contractPublicKey = [], bt_hash = [of_nat n], bt_submission = None, bt_receipt = None, bt_revert = None, bt_receiptProofs = None\<rparr>"

definition sample_bitcoin_block :: Block where
  "sample_bitcoin_block = \<lparr>bk_height = 5, bk_hash = ''h'', bk_hashBuffer = [], bk_previousBlockHash = ''p'', bk_merkleRoot = ''m'', bk_median = 0,
     bk_transactions = [sample_block_tx 0, sample_block_tx 1], bk_genericTransactions = [], bk_opnetTransactions = [], bk_specialTransaction = [],
     bk_processed = False, bk_executed = False, bk_reverted = False, bk_blockUsedGas = 0, bk_prevEMA = 0, bk_prevBaseGas = 0,
     bk_predictedGas = None, bk_storageRoot = None, bk_receiptRoot = None, bk_receiptProofs = None, bk_document = None,
     bk_saveGenericPromises = [], bk_epochSubmissions = [], bk_allowedSolutions = False, bk_aborted = False, bk_signal = []\<rparr>"

definition sample_exec :: exec_state where
  "sample_exec = \<lparr>xs_block = sample_bitcoin_block, xs_vm = sample_node_state\<lparr>vm_blockState := Some MerkleTree_new,
     vm_receiptState := Some MerkleTree_new, vm_isPrepared := True\<rparr>, xs_tweakedKeys = []\<rparr>"

definition sample_task_env :: "nat task_env" where
  "sample_task_env = \<lparr>tk_block = sample_block_env, tk_tip = 5, tk_prefetchError = False, tk_everythingGeneric = False,
     tk_parse = (\<lambda>n. Some (sample_block_tx n)), tk_parseGeneric = (\<lambda>_. None), tk_rawTransactionData = Some [0, 1], tk_order = Some,
     tk_cannotProceed = False, tk_killFails = False, tk_verifyReorg = False, tk_mempoolInputs = (\<lambda>_. []), tk_mempoolFails = False,
     tk_detectionAborted = False, tk_complete = Inr (), tk_abortedAtEnd = False\<rparr>"

definition sample_task :: task_state where
  "sample_task = \<lparr>ts_exec = \<lparr>xs_block = sample_bitcoin_block\<lparr>bk_transactions := []\<rparr>, xs_vm = sample_node_state, xs_tweakedKeys = []\<rparr>,
     ts_chainReorged = False, ts_destroyed = False, ts_completed = False\<rparr>"

theorem block_state_from_receipts_witness:
  "\<exists>r s' first rest. executeOPNetTransactions sample_block_env [0, 1] sample_exec = (r, s') \<and> [0, 1] = first @ rest
    \<and> executed_part sample_block_env first sample_exec s' \<and> (r = Inr () \<and> rest = [] \<or> r = Inl BlockAborted)"
proof -
  obtain r s' where run: "executeOPNetTransactions sample_block_env [0, 1] sample_exec = (r, s')" by (rule prod.exhaust)
  have sep: "snd (separateGenericTransactions (bk_transactions (xs_block sample_exec))) = [0, 1]"
    by (simp add: separateGenericTransactions_def sample_exec_def sample_bitcoin_block_def sample_block_tx_def)
  have "\<exists>first rest. [0, 1] = first @ rest \<and> executed_part sample_block_env first sample_exec s' \<and> (r = Inr () \<and> rest = [] \<or> r = Inl BlockAborted)"
    by (rule block_state_from_receipts [of sample_block_env sample_exec, unfolded sep, OF _ _ _ _ run])
      (simp_all add: sample_block_env_def sample_package_def sample_env_def sample_exec_def open_block_def MerkleTree_new_def
        sample_bitcoin_block_def sample_block_tx_def unexecuted_def)
  with run show ?thesis by blast
qed



theorem rejected_write_fails_next_block_witness:
  "(\<exists>x'. finalizeBlock (sample_exec\<lparr>xs_block := sample_bitcoin_block\<lparr>bk_saveGenericPromises := [Inl SaveFailed]\<rparr>\<rparr>) = (Inr False, x')
      \<and> xs_vm x' = xs_vm sample_exec)
    \<and> (\<exists>e s'. task_processBlock sample_task_env (sample_task\<lparr>ts_exec := sample_exec\<rparr>) = (Inl (ManagerFailed e), s') \<and> released (xs_vm (ts_exec s')))"
  using rejected_write_fails_next_block [of "sample_exec\<lparr>xs_block := sample_bitcoin_block\<lparr>bk_saveGenericPromises := [Inl SaveFailed]\<rparr>\<rparr>"
    sample_task_env "sample_task\<lparr>ts_exec := sample_exec\<rparr>"]
  by (simp add: sample_exec_def sample_task_env_def sample_bitcoin_block_def in_session_def)

end
