(* ===== verification/Epoch_Submissions.thy ===== *)
theory Epoch_Submissions
  imports Block_Safety
begin

text \<open>
  The epoch submissions of a block (\<open>processSubmissions\<close> of \<open>Block.ts\<close>): what is written is valid for the pending target, comes from a
  transaction of the block whose owner's key is known, and no salt and key is ever stored twice for an epoch.
\<close>

definition submission_pair :: "EpochSubmission \<Rightarrow> bytes \<times> bytes" where
  "submission_pair d = (sb_mldsaPublicKey (es_submission d), sb_salt (es_submission d))"

definition document_key :: "IEpochSubmissionsDocument \<Rightarrow> bigint \<times> bytes \<times> bytes" where
  "document_key d = (su_epochNumber d, su_mldsaPublicKey d, su_salt d)"

definition unique_submissions :: "IEpochSubmissionsDocument list \<Rightarrow> bool" where
  "unique_submissions ds \<longleftrightarrow> distinct (map document_key ds)"

text \<open>The submissions collected from a block: each under the key made of its salt and public key.\<close>

definition collected :: "block_env \<Rightarrow> block_transaction list \<Rightarrow> (string, EpochSubmission) js_map \<Rightarrow> bool" where
  "collected X txs m \<longleftrightarrow> distinct (map fst m) \<and> (\<forall>(k, d) \<in> set m. k = generateSubmissionKey X (es_submission d)
     \<and> (\<exists>tx \<in> set txs. bt_submission tx = Some (es_submission d) \<and> es_txHash d = bt_hash tx))"

lemma collected_pairs: "collected X txs m \<Longrightarrow> distinct (map (\<lambda>(k, d). submission_pair d) m)"
proof (induction m)
  case (Cons e m)
  obtain k d where e: "e = (k, d)" by (cases e)
  have "submission_pair d \<noteq> submission_pair d'" if "(k', d') \<in> set m" for k' d'
  proof
    assume "submission_pair d = submission_pair d'"
    then have "generateSubmissionKey X (es_submission d) = generateSubmissionKey X (es_submission d')"
      by (simp add: submission_pair_def generateSubmissionKey_def)
    then have "k = k'" using Cons.prems that e by (auto simp: collected_def)
    then show False using Cons.prems that e by (force simp: collected_def)
  qed
  moreover have "collected X txs m" using Cons.prems by (auto simp: collected_def)
  ultimately show ?case using Cons.IH e by auto
qed simp

lemma collected_filter: "collected X txs m \<Longrightarrow> collected X txs (filter p m)"
  by (auto simp: collected_def distinct_map_filter)

lemma extract_collected:
  assumes "collected X txs m" "tx \<in> set txs"
  shows "collected X txs (extract_submission X tx m)"
proof (cases "bt_submission tx")
  case (Some sub)
  show ?thesis
  proof (cases "map_of m (generateSubmissionKey X sub)")
    case None
    then have "generateSubmissionKey X sub \<notin> fst ` set m" by (simp add: map_of_eq_None_iff)
    then show ?thesis using assms Some None
      by (auto simp: extract_submission_def collected_def update_fresh_append intro!: bexI [of _ tx])
  qed (use assms Some in \<open>simp add: extract_submission_def\<close>)
qed (use assms in \<open>simp add: extract_submission_def\<close>)

lemma extract_all:
  "collected X txs m \<Longrightarrow> set ts \<subseteq> set txs \<Longrightarrow> collected X txs (fold (extract_submission X) ts m)"
  by (induction ts arbitrary: m) (simp_all add: extract_collected)

subsection \<open>What is written\<close>

text \<open>
  The key the node knows for the address of an ML-DSA key, as \<open>getMLDSAPublicKey\<close> answers in the state \<open>vm\<close>: a link of this
  block, else the cached answer, else the stored key. Asking for one key does not change the answer for another.
\<close>

definition owner_key :: "block_env \<Rightarrow> VMManager \<Rightarrow> bytes \<Rightarrow> IMLDSAPublicKey option" where
  "owner_key X vm mldsaPublicKey = fst (getMLDSAPublicKey (st_publicKeys (vm_storage vm)) (vm_blockId vm)
     (ve_addressBytes (be_env X) (be_keyAddress X mldsaPublicKey)) (vm_mldsa vm))"

definition owner_accepted :: "block_env \<Rightarrow> VMManager \<Rightarrow> bytes \<Rightarrow> IMLDSAPublicKey \<Rightarrow> bool" where
  "owner_accepted X vm mldsaPublicKey w \<longleftrightarrow> owner_key X vm mldsaPublicKey = Some w
     \<and> \<not> be_isDead X (be_keyAddress X mldsaPublicKey) \<and> wallet_accepted X w"

definition written_ok :: "block_env \<Rightarrow> Block \<Rightarrow> VMManager \<Rightarrow> EpochSubmission list \<Rightarrow> IEpochSubmissionsDocument \<Rightarrow> bool" where
  "written_ok X b vm ds doc \<longleftrightarrow> (\<exists>d \<in> set ds. \<exists>v w. es_validationResult d = Some v \<and> vs_valid v
     \<and> owner_accepted X vm (sb_mldsaPublicKey (es_submission d)) w \<and> doc = submission_document X b d v (ik_legacyPublicKey w))"

lemma getMLDSAPublicKey_answers:
  "fst (getMLDSAPublicKey ds h a (snd (getMLDSAPublicKey ds h b r))) = fst (getMLDSAPublicKey ds h a r)"
  by (auto simp: getMLDSAPublicKey_def Let_def update_conv' split: option.splits)

lemma wallet_read:
  "\<exists>vm. on_manager ManagerFailed (vm_getMLDSAPublicKey (be_env X) (be_keyAddress X k)) s = (Inr (owner_key X (xs_vm s) k), s\<lparr>xs_vm := vm\<rparr>)
     \<and> vm_storage vm = vm_storage (xs_vm s) \<and> owner_key X vm = owner_key X (xs_vm s)"
proof -
  let ?vm = "xs_vm s"
  let ?get = "\<lambda>k. getMLDSAPublicKey (st_publicKeys (vm_storage ?vm)) (vm_blockId ?vm) (ve_addressBytes (be_env X) (be_keyAddress X k))"
  let ?vm' = "?vm\<lparr>vm_mldsa := snd (?get k (vm_mldsa ?vm))\<rparr>"
  have "on_manager ManagerFailed (vm_getMLDSAPublicKey (be_env X) (be_keyAddress X k)) s = (Inr (owner_key X ?vm k), s\<lparr>xs_vm := ?vm'\<rparr>)"
    by (simp add: on_manager_def vm_getMLDSAPublicKey_def owner_key_def split: prod.split)
  moreover have "owner_key X ?vm' = owner_key X ?vm"
    by (rule ext) (simp add: owner_key_def getMLDSAPublicKey_answers)
  ultimately show ?thesis by force
qed

lemma document_pair: "document_key (submission_document X b d v l) = (bigint_div (bk_height b) (BLOCKS_PER_EPOCH (be_epoch X)), submission_pair d)"
  by (simp add: document_key_def submission_document_def submission_pair_def)

lemma written_key: "written_ok X b vm ds doc \<Longrightarrow> \<exists>d \<in> set ds. document_key doc = (bigint_div (bk_height b) (BLOCKS_PER_EPOCH (be_epoch X)), submission_pair d)"
  by (auto simp: written_ok_def document_pair)

lemma written_more: "written_ok X b vm ds doc \<Longrightarrow> written_ok X b vm (d # ds) doc"
  by (auto simp: written_ok_def)

lemma written_height: "bk_height b = bk_height b' \<Longrightarrow> written_ok X b vm ds doc = written_ok X b' vm ds doc"
  by (simp add: written_ok_def submission_document_def)

lemma extended_total: "\<exists>docs s'. extended_submissions X ds s = (Inr docs, s')"
proof (induction ds arbitrary: s)
  case (Cons d ds)
  let ?w = "owner_key X (xs_vm s) (sb_mldsaPublicKey (es_submission d))"
  obtain vm where "on_manager ManagerFailed (vm_getMLDSAPublicKey (be_env X) (be_keyAddress X (sb_mldsaPublicKey (es_submission d)))) s
      = (Inr ?w, s\<lparr>xs_vm := vm\<rparr>)" using wallet_read by blast
  moreover obtain docs1 s1 where "extended_submissions X ds (s\<lparr>xs_vm := vm\<rparr>) = (Inr docs1, s1)" using Cons.IH by blast
  moreover obtain docs2 s2 where "extended_submissions X ds s = (Inr docs2, s2)" using Cons.IH by blast
  ultimately show ?case by (cases "es_validationResult d"; cases ?w) (simp_all add: st_bind_def st_simps Let_def)
qed (simp add: st_return_def)

lemma extended_documents:
  "extended_submissions X ds s = (Inr docs, s') \<Longrightarrow> distinct (map submission_pair ds) \<Longrightarrow>
   xs_block s' = xs_block s \<and> st_submissions (vm_storage (xs_vm s')) = st_submissions (vm_storage (xs_vm s))
   \<and> (\<forall>doc \<in> set docs. written_ok X (xs_block s) (xs_vm s) ds doc) \<and> distinct (map document_key docs)"
proof (induction ds arbitrary: s docs)
  case (Cons d ds)
  have skip: ?case if "extended_submissions X ds s1 = (Inr docs, s')" "xs_block s1 = xs_block s"
      "st_submissions (vm_storage (xs_vm s1)) = st_submissions (vm_storage (xs_vm s))"
      "owner_key X (xs_vm s1) = owner_key X (xs_vm s)" for s1
    using Cons.IH [OF that(1)] Cons.prems(2) that(2,3) written_more
    by (auto simp: written_ok_def owner_accepted_def that(4))
  show ?case
  proof (cases "\<exists>v. es_validationResult d = Some v \<and> vs_valid v")
    case False
    then have "extended_submissions X ds s = (Inr docs, s')" using Cons.prems(1) by (auto split: option.splits)
    then show ?thesis by (rule skip) simp_all
  next
    case True
    then obtain v where v: "es_validationResult d = Some v" "vs_valid v" by blast
    let ?k = "sb_mldsaPublicKey (es_submission d)"
    let ?a = "be_keyAddress X ?k" and ?w = "owner_key X (xs_vm s) ?k"
    obtain vm where w: "on_manager ManagerFailed (vm_getMLDSAPublicKey (be_env X) ?a) s = (Inr ?w, s\<lparr>xs_vm := vm\<rparr>)"
      "vm_storage vm = vm_storage (xs_vm s)" "owner_key X vm = owner_key X (xs_vm s)" using wallet_read by blast
    show ?thesis
    proof (cases "\<exists>wi. ?w = Some wi \<and> \<not> be_isDead X ?a \<and> wallet_accepted X wi")
      case False
      then have "extended_submissions X ds (s\<lparr>xs_vm := vm\<rparr>) = (Inr docs, s')"
        using Cons.prems(1) v w(1) by (cases ?w) (auto simp: st_bind_def Let_def split: if_splits)
      then show ?thesis by (rule skip) (simp_all add: w)
    next
      case True
      then obtain wi where wi: "?w = Some wi" "\<not> be_isDead X ?a" "wallet_accepted X wi" by blast
      obtain r s2 where run: "extended_submissions X ds (s\<lparr>xs_vm := vm\<rparr>) = (r, s2)" by (rule prod.exhaust)
      obtain rest where rest: "extended_submissions X ds (s\<lparr>xs_vm := vm\<rparr>) = (Inr rest, s')"
        "docs = submission_document X (xs_block s') d v (ik_legacyPublicKey wi) # rest"
        using Cons.prems(1) v w(1) wi run by (cases r) (simp_all add: st_bind_def st_get_def st_return_def Let_def, auto)
      have ih: "xs_block s' = xs_block s" "st_submissions (vm_storage (xs_vm s')) = st_submissions (vm_storage (xs_vm s))"
        "\<forall>doc \<in> set rest. written_ok X (xs_block s) (xs_vm s) ds doc" "distinct (map document_key rest)"
        using Cons.IH [OF rest(1)] Cons.prems(2) w(2,3) by (simp_all add: written_ok_def owner_accepted_def)
      have "document_key (submission_document X (xs_block s) d v (ik_legacyPublicKey wi)) \<notin> document_key ` set rest"
      proof
        assume "document_key (submission_document X (xs_block s) d v (ik_legacyPublicKey wi)) \<in> document_key ` set rest"
        then obtain doc where "doc \<in> set rest" "document_key doc = document_key (submission_document X (xs_block s) d v (ik_legacyPublicKey wi))" by auto
        then show False using written_key [of X "xs_block s" "xs_vm s" ds doc] ih(3) Cons.prems(2) by (auto simp: document_pair)
      qed
      moreover have "written_ok X (xs_block s) (xs_vm s) (d # ds) (submission_document X (xs_block s) d v (ik_legacyPublicKey wi))"
        using v wi by (auto simp: written_ok_def owner_accepted_def)
      ultimately show ?thesis using ih rest(2) written_more by auto
    qed
  qed
qed (simp add: st_return_def)

subsection \<open>Storing\<close>

lemma saveSubmission_set: "set (saveSubmission d xs) \<subseteq> insert d (set xs)"
  by (induction xs) auto

lemma saveSubmission_unique:
  "unique_submissions xs \<Longrightarrow> document_key d \<notin> document_key ` set xs \<Longrightarrow> unique_submissions (saveSubmission d xs)"
proof (induction xs)
  case (Cons x xs)
  have "document_key x \<notin> document_key ` set (saveSubmission d xs)"
    using Cons.prems saveSubmission_set [of d xs] by (auto simp: unique_submissions_def)
  then show ?case using Cons by (auto simp: unique_submissions_def)
qed (simp add: unique_submissions_def)

lemma save_all:
  "unique_submissions xs \<Longrightarrow> distinct (map document_key docs) \<Longrightarrow> (\<forall>d \<in> set docs. document_key d \<notin> document_key ` set xs) \<Longrightarrow>
   unique_submissions (fold saveSubmission docs xs) \<and> set (fold saveSubmission docs xs) \<subseteq> set docs \<union> set xs"
proof (induction docs arbitrary: xs)
  case (Cons d docs)
  have "unique_submissions (saveSubmission d xs)" using Cons.prems by (intro saveSubmission_unique) simp_all
  moreover have "\<forall>d' \<in> set docs. document_key d' \<notin> document_key ` set (saveSubmission d xs)"
  proof
    fix d' assume d': "d' \<in> set docs"
    have "document_key d' \<noteq> document_key d" using Cons.prems(2) d' by (metis distinct.simps(2) image_eqI list.set_map list.simps(9))
    moreover have "document_key d' \<notin> document_key ` set xs" using Cons.prems(3) d' by simp
    moreover have "document_key ` set (saveSubmission d xs) \<subseteq> insert (document_key d) (document_key ` set xs)"
      using saveSubmission_set [of d xs] by blast
    ultimately show "document_key d' \<notin> document_key ` set (saveSubmission d xs)" by blast
  qed
  ultimately show ?case using Cons.IH [of "saveSubmission d xs"] Cons.prems(2) saveSubmission_set [of d xs] by auto
qed simp

subsection \<open>The submissions of a block\<close>

definition pending_target :: "block_env \<Rightarrow> exec_state \<Rightarrow> PendingTargetEpoch option" where
  "pending_target X s = (case getPendingEpochTarget (be_epoch X) (x_sha1 (be_externals X)) (x_fromHex (be_externals X))
       (\<lambda>h. map_option BlockHeaderDocument.bh_checksumRoot (vm_headers (xs_vm s) h))
       (bigint_div (bk_height (xs_block s)) (BLOCKS_PER_EPOCH (be_epoch X))) of Inl _ \<Rightarrow> None | Inr t \<Rightarrow> Some t)"

text \<open>A stored document that the block \<open>s\<close> wrote.\<close>

definition submission_of_block :: "block_env \<Rightarrow> exec_state \<Rightarrow> IEpochSubmissionsDocument \<Rightarrow> bool" where
  "submission_of_block X s doc \<longleftrightarrow> (\<exists>tx sub target w. tx \<in> set (bk_transactions (xs_block s)) \<and> bt_submission tx = Some sub \<and> su_txHash doc = bt_hash tx
     \<and> pending_target X s = Some target
     \<and> vs_valid (validateEpochSubmission (be_externals X) (be_epoch X) sub (bk_height (xs_block s)) target)
     \<and> su_solution doc = vs_hash (validateEpochSubmission (be_externals X) (be_epoch X) sub (bk_height (xs_block s)) target)
     \<and> su_mldsaPublicKey doc = sb_mldsaPublicKey sub \<and> su_salt doc = sb_salt sub
     \<and> owner_accepted X (xs_vm s) (sb_mldsaPublicKey sub) w \<and> su_legacyPublicKey doc = ik_legacyPublicKey w
     \<and> su_epochNumber doc = bigint_div (bk_height (xs_block s)) (BLOCKS_PER_EPOCH (be_epoch X)) \<and> sd_confirmedAt doc = bk_height (xs_block s))"

definition collected_submissions :: "block_env \<Rightarrow> exec_state \<Rightarrow> (string, EpochSubmission) js_map" where
  "collected_submissions X s =
     (if be_existsFails X then []
      else filter (\<lambda>(k, d). \<not> submissionExists (st_submissions (vm_storage (xs_vm s))) (sb_mldsaPublicKey (es_submission d)) (sb_salt (es_submission d))
             (bigint_div (bk_height (xs_block s)) (BLOCKS_PER_EPOCH (be_epoch X))))
           (fold (extract_submission X) (bk_transactions (xs_block s)) (bk_epochSubmissions (xs_block s))))"

definition validated_submissions :: "block_env \<Rightarrow> exec_state \<Rightarrow> PendingTargetEpoch \<Rightarrow> (string, EpochSubmission) js_map" where
  "validated_submissions X s target =
     (let check = (\<lambda>d. validateEpochSubmission (be_externals X) (be_epoch X) (es_submission d) (bk_height (xs_block s)) target) in
      map (\<lambda>(k, d). (k, d\<lparr>es_validationResult := Some (check d)\<rparr>)) (filter (\<lambda>(k, d). vs_valid (check d)) (collected_submissions X s)))"

lemma processSubmissions_steps:
  "processSubmissions X s = (case pending_target X s of
      None \<Rightarrow> (Inl SubmissionsFailed, s\<lparr>xs_block := (xs_block s)\<lparr>bk_epochSubmissions := collected_submissions X s\<rparr>\<rparr>)
    | Some target \<Rightarrow> saveEpochSubmissions X (s\<lparr>xs_block := (xs_block s)\<lparr>bk_epochSubmissions := validated_submissions X s target\<rparr>\<rparr>))"
  by (simp add: processSubmissions_def extractUniqueSubmissions_def filterExistingSubmissions_def validateSubmissions_def collected_submissions_def
      validated_submissions_def pending_target_def st_bind_def st_get_def on_block_def st_put_def lift_block_def st_return_def st_throw_def Let_def
      split: sum.splits)

lemma collected_start:
  assumes "bk_epochSubmissions (xs_block s) = []"
  shows "collected X (bk_transactions (xs_block s)) (collected_submissions X s)"
proof -
  have "collected X txs []" for txs by (simp add: collected_def)
  then show ?thesis using extract_all [of X "bk_transactions (xs_block s)" "[]"] assms collected_filter by (simp add: collected_submissions_def)
qed

lemma pairs_validated:
  "map submission_pair (map snd (map (\<lambda>(k, d). (k, d\<lparr>es_validationResult := r d\<rparr>)) xs)) = map (\<lambda>(k, d). submission_pair d) xs"
  by (auto simp: submission_pair_def)

lemma validated_pairs:
  assumes "bk_epochSubmissions (xs_block s) = []"
  shows "distinct (map submission_pair (map snd (validated_submissions X s target)))"
  unfolding validated_submissions_def Let_def pairs_validated
  by (rule collected_pairs [OF collected_filter [OF collected_start [OF assms]]])

lemma written_of_block:
  assumes "bk_epochSubmissions (xs_block s) = []" "pending_target X s = Some target"
    and "written_ok X (xs_block s) (xs_vm s) (map snd (validated_submissions X s target)) doc"
  shows "submission_of_block X s doc \<and> document_key doc \<notin> document_key ` set (st_submissions (vm_storage (xs_vm s)))"
proof -
  let ?epoch = "bigint_div (bk_height (xs_block s)) (BLOCKS_PER_EPOCH (be_epoch X))"
  let ?check = "\<lambda>d. validateEpochSubmission (be_externals X) (be_epoch X) (es_submission d) (bk_height (xs_block s)) target"
  from assms(3) obtain k d v w where d: "(k, d) \<in> set (validated_submissions X s target)" "es_validationResult d = Some v" "vs_valid v"
    "owner_accepted X (xs_vm s) (sb_mldsaPublicKey (es_submission d)) w" and doc: "doc = submission_document X (xs_block s) d v (ik_legacyPublicKey w)" by (auto simp: written_ok_def)
  from d(1) obtain d0 where d0: "(k, d0) \<in> set (collected_submissions X s)" "d = d0\<lparr>es_validationResult := Some (?check d0)\<rparr>"
    by (auto simp: validated_submissions_def Let_def)
  have v: "v = ?check d" using d(2) d0(2) by simp
  obtain tx where tx: "tx \<in> set (bk_transactions (xs_block s))" "bt_submission tx = Some (es_submission d)" "es_txHash d = bt_hash tx"
    using collected_start [OF assms(1), of X] d0 by (auto simp: collected_def)
  have new: "\<not> submissionExists (st_submissions (vm_storage (xs_vm s))) (sb_mldsaPublicKey (es_submission d)) (sb_salt (es_submission d)) ?epoch"
    using d0 by (auto simp: collected_submissions_def split: if_splits)
  have "submission_of_block X s doc" unfolding submission_of_block_def
    using tx assms(2) d(3,4) v doc by (intro exI [of _ tx] exI [of _ "es_submission d"] exI [of _ target] exI [of _ w]) (simp add: submission_document_def)
  moreover have "document_key doc \<notin> document_key ` set (st_submissions (vm_storage (xs_vm s)))"
    using new unfolding doc document_pair by (auto simp: submissionExists_def document_key_def submission_pair_def)
  ultimately show ?thesis ..
qed

text \<open>
  C19: The stored epoch submissions stay unique and authentic. Whatever the outcome of processing the submissions of a block, no salt and
  public key is stored twice for an epoch if none was before, and every document that was not there before belongs to the epoch of the block, is confirmed
  at its height, comes from a transaction of the block, solves the pending target at the required difficulty, and carries the
  legacy key that the node has linked to the submission's ML-DSA key, an address that is not dead and, unless unsafe signatures
  are allowed, has its public key revealed.
\<close>

theorem submissions_unique_and_valid:
  assumes "bk_epochSubmissions (xs_block s) = []" "unique_submissions (st_submissions (vm_storage (xs_vm s)))"
    and "processSubmissions X s = (r, s')"
  shows "unique_submissions (st_submissions (vm_storage (xs_vm s')))
    \<and> (\<forall>doc \<in> set (st_submissions (vm_storage (xs_vm s'))). doc \<in> set (st_submissions (vm_storage (xs_vm s))) \<or> submission_of_block X s doc)"
proof (cases "pending_target X s")
  case None
  then show ?thesis using assms(2,3) by (auto simp: processSubmissions_steps)
next
  case (Some target)
  let ?s1 = "s\<lparr>xs_block := (xs_block s)\<lparr>bk_epochSubmissions := validated_submissions X s target\<rparr>\<rparr>"
  let ?ds = "map snd (validated_submissions X s target)"
  have run: "saveEpochSubmissions X ?s1 = (r, s')" using assms(3) Some by (simp add: processSubmissions_steps)
  obtain docs s2 where ext: "extended_submissions X ?ds ?s1 = (Inr docs, s2)" using extended_total by blast
  note res = extended_documents [OF ext validated_pairs [OF assms(1)]]
  have doc: "submission_of_block X s d \<and> document_key d \<notin> document_key ` set (st_submissions (vm_storage (xs_vm s)))" if "d \<in> set docs" for d
    using written_of_block [OF assms(1) Some] written_height [of "xs_block ?s1" "xs_block s"] res that by simp
  have same: "st_submissions (vm_storage (xs_vm s2)) = st_submissions (vm_storage (xs_vm s))" using res by simp
  let ?saved = "filter (be_savesSubmission X) docs"
  note save = save_all [OF assms(2), of ?saved]
  have distinct: "distinct (map document_key ?saved)" using res by (simp add: distinct_map_filter)
  show ?thesis
  proof (cases "?ds = [] \<or> docs = []")
    case True
    then have "st_submissions (vm_storage (xs_vm s')) = st_submissions (vm_storage (xs_vm s))"
      using run ext same by (auto simp: saveEpochSubmissions_def st_bind_def st_simps on_block_def split: if_splits)
    then show ?thesis using assms(2) by simp
  next
    case False
    then have "st_submissions (vm_storage (xs_vm s')) = fold saveSubmission ?saved (st_submissions (vm_storage (xs_vm s)))"
      using run ext same by (auto simp: saveEpochSubmissions_def st_bind_def st_simps on_block_def split: if_splits)
    then show ?thesis using save distinct doc by auto
  qed
qed

subsection \<open>Example\<close>

text \<open>A block whose first transaction carries a submission by a key that is linked and revealed.\<close>

definition sample_submitter :: block_env where
  "sample_submitter = sample_block_env\<lparr>be_externals := sample_externals\<lparr>x_sha1 := (\<lambda>_. replicate 20 1)\<rparr>\<rparr>"

definition sample_owner :: MLDSAPublicKeyDocument where
  "sample_owner = \<lparr>mk_level = 2, mk_hashedPublicKey = replicate 32 0, mk_legacyPublicKey = replicate 33 3, mk_tweakedPublicKey = replicate 32 3,
     mk_publicKey = Some (replicate 1312 9), mk_insertedBlockHeight = 1, mk_exposedBlockHeight = Some 2\<rparr>"

definition sample_submission_block :: exec_state where
  "sample_submission_block = sample_exec\<lparr>xs_block := sample_bitcoin_block\<lparr>bk_transactions :=
       [(sample_block_tx 0)\<lparr>bt_submission := Some \<lparr>sb_mldsaPublicKey = replicate 32 1, sb_salt = replicate 32 2, sb_graffiti = None\<rparr>\<rparr>]\<rparr>,
     xs_vm := (xs_vm sample_exec)\<lparr>vm_storage := (vm_storage (xs_vm sample_exec))\<lparr>st_publicKeys := [sample_owner]\<rparr>\<rparr>\<rparr>"

definition sample_solution :: ValidatedSolutionResult where
  "sample_solution = \<lparr>vs_valid = True, vs_matchingBits = 160, vs_hash = replicate 20 1, vs_reason = None\<rparr>"

definition sample_entry :: EpochSubmission where
  "sample_entry = \<lparr>es_submission = \<lparr>sb_mldsaPublicKey = replicate 32 1, sb_salt = replicate 32 2, sb_graffiti = None\<rparr>,
     es_validationResult = Some sample_solution, es_transactionId = [0], es_txHash = [0]\<rparr>"

lemma sample_bits: "countMatchingBits (replicate 20 1) (replicate 20 1) = 160"
  using common_prefix_full [of "bit_string (replicate 20 1)" "bit_string (replicate 20 1)"]
  by (simp add: countMatchingBits_prefix)

lemmas sample_block_defs = sample_submitter_def sample_submission_block_def sample_block_env_def sample_exec_def
  sample_bitcoin_block_def sample_block_tx_def sample_node_state_def sample_manager_def sample_package_def sample_env_def

lemma sample_target:
  obtains c where "pending_target sample_submitter sample_submission_block
    = Some \<lparr>pt_checksumRoot = c, pt_targetHash = replicate 20 1, pt_nextEpochNumber = 1\<rparr>"
  by (simp add: pending_target_def getPendingEpochTarget_def getEpochData_def vm_headers_def header_lookup_def stringToBuffer_def
      sample_block_defs sample_externals_def Roswell_EPOCH_def)

lemma sample_validated:
  assumes "pt_targetHash target = replicate 20 1" "pt_nextEpochNumber target = 1"
  shows "map snd (validated_submissions sample_submitter sample_submission_block target) = [sample_entry]"
proof -
  have "validateEpochSubmission (be_externals sample_submitter) (be_epoch sample_submitter)
      \<lparr>sb_mldsaPublicKey = replicate 32 1, sb_salt = replicate 32 2, sb_graffiti = None\<rparr> 5 target = sample_solution"
    using assms sample_bits
    by (simp add: validateEpochSubmission_def sample_solution_def sample_submitter_def sample_block_env_def Roswell_EPOCH_def Let_def)
  moreover have "collected_submissions sample_submitter sample_submission_block
      = [(generateSubmissionKey sample_submitter (es_submission sample_entry), sample_entry\<lparr>es_validationResult := None\<rparr>)]"
    by (simp add: collected_submissions_def extract_submission_def submissionExists_def sample_entry_def sample_block_defs sample_storage_def)
  moreover have "bk_height (xs_block sample_submission_block) = 5" by (simp add: sample_block_defs)
  ultimately show ?thesis by (simp add: validated_submissions_def sample_entry_def sample_solution_def)
qed

lemma sample_owner_known:
  "owner_accepted sample_submitter (xs_vm sample_submission_block) (replicate 32 1) (MLDSA_parseResult sample_owner)"
proof -
  have "wallet_accepted sample_submitter (MLDSA_parseResult sample_owner)"
    by (simp add: wallet_accepted_def sample_owner_def MLDSA_parseResult_def height_or_null_def truthy_def MLDSA44_PUBLIC_KEY_LEN_def)
  moreover have "owner_key sample_submitter (xs_vm sample_submission_block) k = Some (MLDSA_parseResult sample_owner)" for k
    by (simp add: owner_key_def getMLDSAPublicKey_def getByHashedPublicKey_def registry_empty_def sample_block_defs)
      (simp add: sample_owner_def Let_def)
  ultimately show ?thesis by (simp add: owner_accepted_def sample_submitter_def sample_block_env_def)
qed

lemma sample_submission_stored:
  "\<exists>doc. processSubmissions sample_submitter sample_submission_block = (Inr (), snd (processSubmissions sample_submitter sample_submission_block))
    \<and> st_submissions (vm_storage (xs_vm (snd (processSubmissions sample_submitter sample_submission_block)))) = [doc]
    \<and> su_legacyPublicKey doc = replicate 33 3"
proof -
  let ?X = "sample_submitter" and ?s = "sample_submission_block"
  obtain c where t: "pending_target ?X ?s = Some \<lparr>pt_checksumRoot = c, pt_targetHash = replicate 20 1, pt_nextEpochNumber = 1\<rparr>"
    by (rule sample_target)
  let ?target = "\<lparr>pt_checksumRoot = c, pt_targetHash = replicate 20 1, pt_nextEpochNumber = 1\<rparr>"
  let ?s1 = "?s\<lparr>xs_block := (xs_block ?s)\<lparr>bk_epochSubmissions := validated_submissions ?X ?s ?target\<rparr>\<rparr>"
  have ds: "map snd (validated_submissions ?X ?s ?target) = [sample_entry]" by (rule sample_validated) simp_all
  have k: "sb_mldsaPublicKey (es_submission sample_entry) = replicate 32 1" by (simp add: sample_entry_def)
  obtain vm where w: "on_manager ManagerFailed (vm_getMLDSAPublicKey (be_env ?X) (be_keyAddress ?X (replicate 32 1))) ?s1
      = (Inr (owner_key ?X (xs_vm ?s) (replicate 32 1)), ?s1\<lparr>xs_vm := vm\<rparr>)" "vm_storage vm = vm_storage (xs_vm ?s)"
    using wallet_read [of ?X "replicate 32 1" ?s1] by auto
  let ?doc = "submission_document ?X (xs_block ?s1) sample_entry sample_solution (replicate 33 3)"
  have v: "es_validationResult sample_entry = Some sample_solution" "vs_valid sample_solution"
    by (simp_all add: sample_entry_def sample_solution_def)
  have "extended_submissions ?X [sample_entry] ?s1 = (Inr [?doc], ?s1\<lparr>xs_vm := vm\<rparr>)"
    using sample_owner_known w(1)
    by (simp add: v k owner_accepted_def st_bind_def st_return_def st_get_def Let_def MLDSA_parseResult_def sample_owner_def)
  moreover have "be_savesSubmission ?X ?doc" "st_submissions (vm_storage (xs_vm ?s)) = []"
    by (simp_all add: sample_block_defs sample_storage_def)
  ultimately have "processSubmissions ?X ?s = (Inr (), snd (processSubmissions ?X ?s))
    \<and> st_submissions (vm_storage (xs_vm (snd (processSubmissions ?X ?s)))) = [?doc]"
    using w(2) by (simp add: processSubmissions_steps t saveEpochSubmissions_def ds st_bind_def st_get_def st_put_def st_return_def on_block_def)
  moreover have "su_legacyPublicKey ?doc = replicate 33 3" by (simp add: submission_document_def)
  ultimately show ?thesis by blast
qed

theorem submissions_unique_and_valid_witness:
  "\<exists>doc s'. processSubmissions sample_submitter sample_submission_block = (Inr (), s')
    \<and> st_submissions (vm_storage (xs_vm s')) = [doc] \<and> su_legacyPublicKey doc = replicate 33 3
    \<and> submission_of_block sample_submitter sample_submission_block doc"
proof -
  obtain doc s' where run: "processSubmissions sample_submitter sample_submission_block = (Inr (), s')"
    and doc: "st_submissions (vm_storage (xs_vm s')) = [doc]" "su_legacyPublicKey doc = replicate 33 3"
    using sample_submission_stored by blast
  have "bk_epochSubmissions (xs_block sample_submission_block) = []" "st_submissions (vm_storage (xs_vm sample_submission_block)) = []"
    by (simp_all add: sample_block_defs sample_storage_def)
  with submissions_unique_and_valid [OF _ _ run] doc(1) have "submission_of_block sample_submitter sample_submission_block doc"
    by (simp add: unique_submissions_def)
  with run doc show ?thesis by blast
qed

end
