(* ===== verification/Config_Loader.thy ===== *)
theory Config_Loader
  imports Prelude "HOL-Library.AList"
begin

text \<open>
  The configuration of the node, \<open>config/BtcIndexerConfigLoader.ts\<close>: the defaults, the checks of the
  file's values and the merge of the two, with the derived settings of a resynchronisation; the
  declared types are those of \<open>config/interfaces/IBtcIndexerConfig.ts\<close>.

  A value of the file is a \<open>jsval\<close>; numbers are integers and characters are below 256. A property read
  of a missing key is \<open>undefined\<close>, as is the read of an upper-case key from a boolean, a number or a
  string; the code reads a key of \<open>undefined\<close> or \<open>null\<close> only with \<open>?.\<close>, which gives \<open>undefined\<close> too. An
  array carries the named properties assigned to it. The class \<open>ConfigManager\<close> the loader extends is a
  package: what its \<open>verifyConfig\<close>, \<open>parsePartialConfig\<close> and \<open>getDefaultConfig\<close> do is a parameter of the
  definitions that call them.
\<close>

subsection \<open>Values of the configuration file\<close>

datatype jsval = JUndef | JNull | JBool bool | JNum int | JStr string
  | JArr "jsval list" "(string \<times> jsval) list" | JObj "(string \<times> jsval) list"

type_synonym fields = "(string \<times> jsval) list"

datatype js_kind = K_boolean | K_number | K_string | K_array

text \<open>
  \<open>Thrown\<close> is an \<open>Error\<close> with its message, \<open>TypeError\<close> the assignment of a property of a primitive.
  \<open>OutsideModel\<close> marks the arithmetic coercion of a value that is not a number; the loader has refused
  such a value before it gets there.
\<close>

datatype cfg_error = Thrown string | TypeError | OutsideModel

fun js_truthy :: "jsval \<Rightarrow> bool" where
  "js_truthy JUndef = False"
| "js_truthy JNull = False"
| "js_truthy (JBool b) = b"
| "js_truthy (JNum n) = (n \<noteq> 0)"
| "js_truthy (JStr s) = (s \<noteq> [])"
| "js_truthy (JArr xs ps) = True"
| "js_truthy (JObj fs) = True"

fun has_kind :: "js_kind \<Rightarrow> jsval \<Rightarrow> bool" where
  "has_kind K_boolean (JBool b) = True"
| "has_kind K_number (JNum n) = True"
| "has_kind K_string (JStr s) = True"
| "has_kind K_array (JArr xs ps) = True"
| "has_kind t v = False"

definition field :: "fields \<Rightarrow> string \<Rightarrow> jsval" where
  "field fs k = (case map_of fs k of None \<Rightarrow> JUndef | Some v \<Rightarrow> v)"

fun get :: "jsval \<Rightarrow> string \<Rightarrow> jsval" where
  "get (JObj fs) k = field fs k"
| "get (JArr xs ps) k = field ps k"
| "get v k = JUndef"

fun assign :: "jsval \<Rightarrow> string \<Rightarrow> jsval \<Rightarrow> cfg_error + jsval" where
  "assign (JObj fs) k v = Inr (JObj (AList.update k v fs))"
| "assign (JArr xs ps) k v = Inr (JArr xs (AList.update k v ps))"
| "assign u k v = Inl TypeError"

definition nullish :: "jsval \<Rightarrow> jsval \<Rightarrow> jsval" where
  "nullish v d = (if v = JUndef \<or> v = JNull then d else v)"

fun elements :: "jsval \<Rightarrow> jsval list" where
  "elements (JArr xs ps) = xs"
| "elements v = []"

definition spread :: "fields \<Rightarrow> fields \<Rightarrow> fields" where
  "spread a b = fold (\<lambda>(k, v) fs. AList.update k v fs) b a"

text \<open>\<open>String(v)\<close>: arrays are joined with commas, with \<open>null\<close> and \<open>undefined\<close> elements empty.\<close>

fun join_comma :: "string list \<Rightarrow> string" where
  "join_comma [] = []"
| "join_comma [s] = s"
| "join_comma (s # t # ss) = s @ '','' @ join_comma (t # ss)"

fun js_toString :: "jsval \<Rightarrow> string" where
  "js_toString JUndef = ''undefined''"
| "js_toString JNull = ''null''"
| "js_toString (JBool b) = (if b then ''true'' else ''false'')"
| "js_toString (JNum n) = bigint_toString n"
| "js_toString (JStr s) = s"
| "js_toString (JArr xs ps) =
     join_comma (map (\<lambda>x. if x = JUndef \<or> x = JNull then [] else js_toString x) xs)"
| "js_toString (JObj fs) = ''[object Object]''"

text \<open>
  \<open>encodeURIComponent\<close> keeps letters, digits and \<open>- _ . ! ~ * ' ( )\<close> and writes every byte of the UTF-8
  encoding of any other character as a percent sign and two hexadecimal digits.
\<close>

definition unreserved :: "nat \<Rightarrow> bool" where
  "unreserved c = (65 \<le> c \<and> c \<le> 90 \<or> 97 \<le> c \<and> c \<le> 122 \<or> 48 \<le> c \<and> c \<le> 57
     \<or> c \<in> set [45, 95, 46, 33, 126, 42, 39, 40, 41])"

definition hex_digit :: "nat \<Rightarrow> char" where
  "hex_digit d = char_of (if d < 10 then 48 + d else 55 + d)"

definition percent :: "nat \<Rightarrow> string" where
  "percent b = [CHR ''%'', hex_digit (b div 16), hex_digit (b mod 16)]"

definition utf8 :: "nat \<Rightarrow> nat list" where
  "utf8 c = (if c < 128 then [c] else [192 + c div 64, 128 + c mod 64])"

definition encodeURIComponent :: "string \<Rightarrow> string" where
  "encodeURIComponent s =
     concat (map (\<lambda>c. if unreserved (of_char c) then [c] else concat (map percent (utf8 (of_char c)))) s)"

text \<open>
  An enumeration of strings is an object. Both \<open>k in Enum\<close> and \<open>Enum[k] !== undefined\<close> also find the
  properties every object inherits.
\<close>

definition Object_prototype :: "string list" where
  "Object_prototype = [''constructor'', ''__defineGetter__'', ''__defineSetter__'', ''hasOwnProperty'',
     ''__lookupGetter__'', ''__lookupSetter__'', ''isPrototypeOf'', ''propertyIsEnumerable'', ''toString'',
     ''valueOf'', ''__proto__'', ''toLocaleString'']"

definition has_property :: "string list \<Rightarrow> string \<Rightarrow> bool" where
  "has_property enum k = (k \<in> set enum \<or> k \<in> set Object_prototype)"

definition OPNetIndexerMode_keys :: "string list" where
  "OPNetIndexerMode_keys = [''ARCHIVE'', ''FULL'', ''LIGHT'']"

definition BitcoinNetwork_keys :: "string list" where
  "BitcoinNetwork_keys = [''mainnet'', ''testnet'', ''testnet4'', ''regtest'', ''signet'', ''custom'']"

definition BlockUpdateMethods_keys :: "string list" where
  "BlockUpdateMethods_keys = [''RPC'', ''P2P'']"

definition IndexerStorageType_keys :: "string list" where
  "IndexerStorageType_keys = [''MONGODB'']"

definition PeerToPeerMethod_values :: "string list" where
  "PeerToPeerMethod_values = [''udp'', ''tcp'', ''ws'']"

definition ChainIds_values :: "int list" where
  "ChainIds_values = [0, 1, 2, 3]"

subsection \<open>The declared types\<close>

text \<open>
  The types of the interfaces: an enumeration is the list of its values (of the enumerations tested by
  name, the names are the values), and a property declared with a question mark is \<open>T_optional\<close>.
\<close>

datatype ts_type = T_boolean | T_number | T_string | T_enum "string list" | T_numeric_enum "int list"
  | T_array ts_type | T_optional ts_type

fun has_type :: "ts_type \<Rightarrow> jsval \<Rightarrow> bool" where
  "has_type T_boolean v = has_kind K_boolean v"
| "has_type T_number v = has_kind K_number v"
| "has_type T_string v = has_kind K_string v"
| "has_type (T_enum ss) v = (case v of JStr s \<Rightarrow> s \<in> set ss | _ \<Rightarrow> False)"
| "has_type (T_numeric_enum ns) v = (case v of JNum n \<Rightarrow> n \<in> set ns | _ \<Rightarrow> False)"
| "has_type (T_array t) v = (case v of JArr xs ps \<Rightarrow> list_all (has_type t) xs | _ \<Rightarrow> False)"
| "has_type (T_optional t) v = (v = JUndef \<or> has_type t v)"

definition IndexerConfig_fields :: "(string \<times> ts_type) list" where
  "IndexerConfig_fields =
    [(''ENABLED'', T_boolean),
     (''BLOCK_UPDATE_METHOD'', T_enum BlockUpdateMethods_keys),
     (''ALLOW_PURGE'', T_boolean),
     (''BLOCK_QUERY_INTERVAL'', T_number),
     (''SOLVE_UNKNOWN_UTXOS'', T_boolean),
     (''STORAGE_TYPE'', T_enum IndexerStorageType_keys),
     (''READONLY_MODE'', T_boolean),
     (''PURGE_SPENT_UTXO_OLDER_THAN_BLOCKS'', T_number),
     (''UTXO_SAVE_INTERVAL'', T_number),
     (''START_INDEXING_UTXO_AT_BLOCK_HEIGHT'', T_number)]"

definition RPCConfig_fields :: "(string \<times> ts_type) list" where
  "RPCConfig_fields =
    [(''THREADS'', T_number),
     (''VM_CONCURRENCY'', T_number),
     (''CHILD_PROCESSES'', T_number)]"

definition OPNetConfig_fields :: "(string \<times> ts_type) list" where
  "OPNetConfig_fields =
    [(''TRANSACTIONS_MAXIMUM_CONCURRENT'', T_number),
     (''PENDING_BLOCK_THRESHOLD'', T_number),
     (''MAXIMUM_PREFETCH_BLOCKS'', T_number),
     (''ENABLE_BATCH_PROCESSING'', T_boolean),
     (''REINDEX'', T_boolean),
     (''REINDEX_FROM_BLOCK'', T_number),
     (''REINDEX_PURGE_UTXOS'', T_boolean),
     (''REINDEX_BATCH_SIZE'', T_number),
     (''EPOCH_REINDEX'', T_boolean),
     (''EPOCH_REINDEX_FROM_EPOCH'', T_number),
     (''DISABLE_SCANNED_BLOCK_STORAGE_CHECK'', T_boolean),
     (''VERIFY_INTEGRITY_ON_STARTUP'', T_boolean),
     (''MODE'', T_enum OPNetIndexerMode_keys),
     (''LIGHT_MODE_FROM_BLOCK'', T_number)]"

definition PoC_fields :: "(string \<times> ts_type) list" where
  "PoC_fields =
    [(''ENABLED'', T_boolean)]"

definition P2P_fields :: "(string \<times> ts_type) list" where
  "P2P_fields =
    [(''IS_BOOTSTRAP_NODE'', T_boolean),
     (''CLIENT_MODE'', T_boolean),
     (''EXTERNAL_ADDRESS_THRESHOLD'', T_number),
     (''PRIVATE_MODE'', T_boolean),
     (''MDNS'', T_boolean),
     (''ENABLE_IP_BANNING'', T_boolean),
     (''ANNOUNCE_ADDRESSES'', T_optional (T_array T_string)),
     (''ENABLE_IPV6'', T_boolean),
     (''P2P_HOST_V6'', T_string),
     (''P2P_PORT_V6'', T_number),
     (''P2P_HOST'', T_string),
     (''P2P_PORT'', T_number),
     (''ENABLE_P2P_LOGGING'', T_boolean),
     (''P2P_PROTOCOL'', T_enum PeerToPeerMethod_values),
     (''ENABLE_UPNP'', T_boolean),
     (''MINIMUM_PEERS'', T_number),
     (''MAXIMUM_PEERS'', T_number),
     (''MAXIMUM_INCOMING_PENDING_PEERS'', T_number),
     (''PEER_INACTIVITY_TIMEOUT'', T_number),
     (''MAXIMUM_INBOUND_STREAMS'', T_number),
     (''MAXIMUM_OUTBOUND_STREAMS'', T_number),
     (''NODES'', T_array T_string),
     (''PRIVATE_NODES'', T_array T_string),
     (''BOOTSTRAP_NODES'', T_array T_string)]"

definition MempoolConfig_fields :: "(string \<times> ts_type) list" where
  "MempoolConfig_fields =
    [(''THREADS'', T_number),
     (''PREVENT_TX_BROADCAST_IF_NOT_SYNCED'', T_boolean),
     (''EXPIRATION_BLOCKS'', T_number),
     (''ENABLE_BLOCK_PURGE'', T_boolean),
     (''BATCH_SIZE'', T_number),
     (''FETCH_INTERVAL'', T_number)]"

definition SSHConfig_fields :: "(string \<times> ts_type) list" where
  "SSHConfig_fields =
    [(''ENABLED'', T_boolean),
     (''PORT'', T_number),
     (''HOST'', T_string),
     (''USERNAME'', T_string),
     (''PASSWORD'', T_string),
     (''PUBLIC_KEY'', T_string),
     (''NO_AUTH'', T_boolean),
     (''ALLOWED_IPS'', T_array T_string)]"

definition EpochConfigs_fields :: "(string \<times> ts_type) list" where
  "EpochConfigs_fields =
    [(''MAX_ATTESTATION_PER_BLOCK'', T_number),
     (''LOG_FINALIZATION'', T_boolean)]"

definition APIConfig_fields :: "(string \<times> ts_type) list" where
  "APIConfig_fields =
    [(''ENABLED'', T_boolean),
     (''PORT'', T_number),
     (''THREADS'', T_number)]"

definition APIExtendedConfigurations_fields :: "(string \<times> ts_type) list" where
  "APIExtendedConfigurations_fields =
    [(''MAXIMUM_PENDING_REQUESTS_PER_THREADS'', T_number),
     (''BATCH_PROCESSING_SIZE'', T_number),
     (''MAXIMUM_PARALLEL_BLOCK_QUERY'', T_number),
     (''MAXIMUM_REQUESTS_PER_BATCH'', T_number),
     (''MAXIMUM_TRANSACTION_BROADCAST'', T_number),
     (''MAXIMUM_PENDING_CALL_REQUESTS'', T_number),
     (''MAXIMUM_PARALLEL_EPOCH_QUERY'', T_number),
     (''EPOCH_CACHE_SIZE'', T_number),
     (''UTXO_LIMIT'', T_number)]"

definition DevConfig_fields :: "(string \<times> ts_type) list" where
  "DevConfig_fields =
    [(''PROCESS_ONLY_X_BLOCK'', T_number),
     (''DEBUG_TRANSACTION_FAILURE'', T_boolean),
     (''ALLOW_LARGE_TRANSACTIONS'', T_boolean),
     (''DEBUG_TRANSACTION_PARSE_FAILURE'', T_boolean),
     (''CAUSE_FETCHING_FAILURE'', T_boolean),
     (''DISPLAY_VALID_BLOCK_WITNESS'', T_boolean),
     (''DISPLAY_INVALID_BLOCK_WITNESS'', T_boolean),
     (''SAVE_TIMEOUTS_TO_FILE'', T_boolean),
     (''SIMULATE_HIGH_GAS_USAGE'', T_boolean),
     (''DEBUG_VALID_TRANSACTIONS'', T_boolean),
     (''DEBUG_API_ERRORS'', T_boolean),
     (''DEBUG_PENDING_REQUESTS'', T_boolean),
     (''DEBUG_API_CALLS'', T_boolean),
     (''ENABLE_CONTRACT_DEBUG'', T_boolean),
     (''ALWAYS_ENABLE_REORG_VERIFICATION'', T_boolean),
     (''ENABLE_REORG_NIGHTMARE'', T_boolean),
     (''RESYNC_BLOCK_HEIGHTS'', T_boolean),
     (''RESYNC_BLOCK_HEIGHTS_UNTIL'', T_number)]"

definition BitcoinConfig_fields :: "(string \<times> ts_type) list" where
  "BitcoinConfig_fields =
    [(''CHAIN_ID'', T_numeric_enum ChainIds_values),
     (''NETWORK'', T_enum BitcoinNetwork_keys),
     (''NETWORK_MAGIC'', T_optional (T_array T_number)),
     (''DNS_SEEDS'', T_optional (T_array T_string))]"

definition DatabaseAuthSource_fields :: "(string \<times> ts_type) list" where
  "DatabaseAuthSource_fields =
    [(''SOURCE'', T_optional T_string)]"

definition DocsConfig_fields :: "(string \<times> ts_type) list" where
  "DocsConfig_fields =
    [(''ENABLED'', T_boolean),
     (''PORT'', T_number)]"

definition PluginsConfig_fields :: "(string \<times> ts_type) list" where
  "PluginsConfig_fields =
    [(''PLUGINS_DIR'', T_string),
     (''PLUGINS_ENABLED'', T_boolean),
     (''WORKER_POOL_SIZE'', T_number),
     (''EMIT_ERROR_OR_WARNING'', T_boolean)]"

definition BlockchainConfig_fields :: "(string \<times> ts_type) list" where
  "BlockchainConfig_fields =
    [(''BITCOIND_HOST'', T_string),
     (''BITCOIND_PORT'', T_number),
     (''BITCOIND_USERNAME'', T_string),
     (''BITCOIND_PASSWORD'', T_string)]"

definition WebSocketConfig_fields :: "(string \<times> ts_type) list" where
  "WebSocketConfig_fields =
    [(''ENABLED'', T_boolean),
     (''MAX_CONNECTIONS'', T_number),
     (''IDLE_TIMEOUT'', T_number),
     (''MAX_PAYLOAD_SIZE'', T_number),
     (''MAX_PENDING_REQUESTS'', T_number),
     (''REQUEST_TIMEOUT'', T_number),
     (''MAX_REQUESTS_PER_SECOND'', T_number),
     (''MAX_SUBSCRIPTIONS'', T_number)]"

definition APIMempoolConfig_fields :: "(string \<times> ts_type) list" where
  "APIMempoolConfig_fields =
    [(''MAX_ADDRESSES'', T_number),
     (''DEFAULT_LIMIT'', T_number),
     (''MAX_LIMIT'', T_number)]"

subsection \<open>The defaults\<close>

definition default_DOCS :: fields where
  "default_DOCS =
    [(''ENABLED'', JBool False),
     (''PORT'', JNum 7000)]"

definition default_PLUGINS :: fields where
  "default_PLUGINS =
    [(''PLUGINS_DIR'', JStr ''./plugins''),
     (''PLUGINS_ENABLED'', JBool True),
     (''WORKER_POOL_SIZE'', JNum 4),
     (''EMIT_ERROR_OR_WARNING'', JBool False)]"

definition default_EPOCH :: fields where
  "default_EPOCH =
    [(''MAX_ATTESTATION_PER_BLOCK'', JNum 100000),
     (''LOG_FINALIZATION'', JBool False)]"

definition default_BITCOIN :: fields where
  "default_BITCOIN =
    [(''CHAIN_ID'', JNum 0),
     (''NETWORK'', JStr ''mainnet''),
     (''NETWORK_MAGIC'', JArr [] []),
     (''DNS_SEEDS'', JArr [] [])]"

definition default_BLOCKCHAIN :: fields where
  "default_BLOCKCHAIN =
    [(''BITCOIND_HOST'', JStr ''''),
     (''BITCOIND_PORT'', JNum 0),
     (''BITCOIND_USERNAME'', JStr ''''),
     (''BITCOIND_PASSWORD'', JStr '''')]"

definition default_DATABASE_credentials :: fields where
  "default_DATABASE_credentials =
    [(''USERNAME'', JStr ''''),
     (''PASSWORD'', JStr '''')]"

definition default_DATABASE :: fields where
  "default_DATABASE =
    [(''DATABASE_NAME'', JStr ''''),
     (''HOST'', JStr ''''),
     (''PORT'', JNum 0),
     (''AUTH'', JObj default_DATABASE_credentials)]"

definition default_INDEXER :: fields where
  "default_INDEXER =
    [(''ENABLED'', JBool True),
     (''BLOCK_UPDATE_METHOD'', JStr ''RPC''),
     (''STORAGE_TYPE'', JStr ''MONGODB''),
     (''BLOCK_QUERY_INTERVAL'', JNum 5000),
     (''READONLY_MODE'', JBool False),
     (''SOLVE_UNKNOWN_UTXOS'', JBool False),
     (''ALLOW_PURGE'', JBool False),
     (''PURGE_SPENT_UTXO_OLDER_THAN_BLOCKS'', JNum 10000000),
     (''UTXO_SAVE_INTERVAL'', JNum 120000),
     (''START_INDEXING_UTXO_AT_BLOCK_HEIGHT'', JNum 800000)]"

definition default_DATABASE_AUTH :: fields where
  "default_DATABASE_AUTH =
    [(''SOURCE'', JUndef)]"

definition default_DEV :: fields where
  "default_DEV =
    [(''PROCESS_ONLY_X_BLOCK'', JNum 0),
     (''DEBUG_TRANSACTION_FAILURE'', JBool True),
     (''DEBUG_TRANSACTION_PARSE_FAILURE'', JBool True),
     (''CAUSE_FETCHING_FAILURE'', JBool False),
     (''DISPLAY_VALID_BLOCK_WITNESS'', JBool False),
     (''DISPLAY_INVALID_BLOCK_WITNESS'', JBool False),
     (''SAVE_TIMEOUTS_TO_FILE'', JBool False),
     (''SIMULATE_HIGH_GAS_USAGE'', JBool False),
     (''DEBUG_VALID_TRANSACTIONS'', JBool True),
     (''ALLOW_LARGE_TRANSACTIONS'', JBool False),
     (''DEBUG_API_ERRORS'', JBool False),
     (''ENABLE_CONTRACT_DEBUG'', JBool False),
     (''ALWAYS_ENABLE_REORG_VERIFICATION'', JBool False),
     (''ENABLE_REORG_NIGHTMARE'', JBool False),
     (''DEBUG_API_CALLS'', JBool False),
     (''DEBUG_PENDING_REQUESTS'', JBool False),
     (''RESYNC_BLOCK_HEIGHTS'', JBool False),
     (''RESYNC_BLOCK_HEIGHTS_UNTIL'', JNum 0)]"

definition default_P2P :: fields where
  "default_P2P =
    [(''IS_BOOTSTRAP_NODE'', JBool False),
     (''CLIENT_MODE'', JBool False),
     (''ENABLE_IPV6'', JBool False),
     (''EXTERNAL_ADDRESS_THRESHOLD'', JNum 3),
     (''ENABLE_IP_BANNING'', JBool False),
     (''PRIVATE_MODE'', JBool False),
     (''MDNS'', JBool False),
     (''ANNOUNCE_ADDRESSES'', JArr [] []),
     (''P2P_HOST_V6'', JStr ''::''),
     (''P2P_PORT_V6'', JNum 9801),
     (''P2P_HOST'', JStr ''0.0.0.0''),
     (''P2P_PORT'', JNum 9805),
     (''P2P_PROTOCOL'', JStr ''tcp''),
     (''ENABLE_P2P_LOGGING'', JBool False),
     (''ENABLE_UPNP'', JBool False),
     (''MINIMUM_PEERS'', JNum 50),
     (''MAXIMUM_PEERS'', JNum 100),
     (''MAXIMUM_INCOMING_PENDING_PEERS'', JNum 50),
     (''PEER_INACTIVITY_TIMEOUT'', JNum 10000),
     (''MAXIMUM_INBOUND_STREAMS'', JNum 100),
     (''MAXIMUM_OUTBOUND_STREAMS'', JNum 100),
     (''NODES'', JArr [] []),
     (''PRIVATE_NODES'', JArr [] []),
     (''BOOTSTRAP_NODES'', JArr [] [])]"

definition default_API_WEBSOCKET :: fields where
  "default_API_WEBSOCKET =
    [(''ENABLED'', JBool True),
     (''MAX_CONNECTIONS'', JNum 1000),
     (''IDLE_TIMEOUT'', JNum 120),
     (''MAX_PAYLOAD_SIZE'', JNum (16 * 1024 * 1024)),
     (''MAX_PENDING_REQUESTS'', JNum 100),
     (''REQUEST_TIMEOUT'', JNum 30000),
     (''MAX_REQUESTS_PER_SECOND'', JNum 50),
     (''MAX_SUBSCRIPTIONS'', JNum 10)]"

definition default_API_MEMPOOL :: fields where
  "default_API_MEMPOOL =
    [(''MAX_ADDRESSES'', JNum 20),
     (''DEFAULT_LIMIT'', JNum 25),
     (''MAX_LIMIT'', JNum 100)]"

definition default_API :: fields where
  "default_API =
    [(''ENABLED'', JBool True),
     (''PORT'', JNum 9000),
     (''THREADS'', JNum 16),
     (''MAXIMUM_PENDING_REQUESTS_PER_THREADS'', JNum 1000),
     (''BATCH_PROCESSING_SIZE'', JNum 15),
     (''MAXIMUM_PARALLEL_BLOCK_QUERY'', JNum 50),
     (''MAXIMUM_REQUESTS_PER_BATCH'', JNum 500),
     (''MAXIMUM_TRANSACTION_BROADCAST'', JNum 80),
     (''MAXIMUM_PENDING_CALL_REQUESTS'', JNum 200),
     (''MAXIMUM_PARALLEL_EPOCH_QUERY'', JNum 50),
     (''EPOCH_CACHE_SIZE'', JNum 15),
     (''UTXO_LIMIT'', JNum 2000),
     (''WEBSOCKET'', JObj default_API_WEBSOCKET),
     (''MEMPOOL'', JObj default_API_MEMPOOL)]"

definition default_POC :: fields where
  "default_POC =
    [(''ENABLED'', JBool True)]"

definition default_MEMPOOL :: fields where
  "default_MEMPOOL =
    [(''THREADS'', JNum 2),
     (''PREVENT_TX_BROADCAST_IF_NOT_SYNCED'', JBool True),
     (''EXPIRATION_BLOCKS'', JNum 20),
     (''ENABLE_BLOCK_PURGE'', JBool True),
     (''BATCH_SIZE'', JNum 25),
     (''FETCH_INTERVAL'', JNum 30000)]"

definition default_RPC :: fields where
  "default_RPC =
    [(''CHILD_PROCESSES'', JNum 8),
     (''THREADS'', JNum 6),
     (''VM_CONCURRENCY'', JNum 30)]"

definition default_SSH :: fields where
  "default_SSH =
    [(''ENABLED'', JBool False),
     (''PORT'', JNum 4800),
     (''HOST'', JStr ''0.0.0.0''),
     (''NO_AUTH'', JBool False),
     (''USERNAME'', JStr ''opnet''),
     (''PASSWORD'', JStr ''opnet''),
     (''PUBLIC_KEY'', JStr ''''),
     (''ALLOWED_IPS'', JArr [JStr ''127.0.0.1'', JStr ''0.0.0.0'', JStr ''localhost''] [])]"

definition default_OP_NET :: fields where
  "default_OP_NET =
    [(''PENDING_BLOCK_THRESHOLD'', JNum 1000),
     (''TRANSACTIONS_MAXIMUM_CONCURRENT'', JNum 100),
     (''MAXIMUM_PREFETCH_BLOCKS'', JNum 12),
     (''REINDEX'', JBool False),
     (''REINDEX_FROM_BLOCK'', JNum 0),
     (''REINDEX_PURGE_UTXOS'', JBool False),
     (''REINDEX_BATCH_SIZE'', JNum 1000),
     (''EPOCH_REINDEX'', JBool False),
     (''EPOCH_REINDEX_FROM_EPOCH'', JNum 0),
     (''ENABLE_BATCH_PROCESSING'', JBool True),
     (''VERIFY_INTEGRITY_ON_STARTUP'', JBool False),
     (''DISABLE_SCANNED_BLOCK_STORAGE_CHECK'', JBool True),
     (''MODE'', JStr ''ARCHIVE''),
     (''LIGHT_MODE_FROM_BLOCK'', JNum 10000)]"

definition defaultConfig :: fields where
  "defaultConfig =
    [(''DOCS'', JObj default_DOCS),
     (''PLUGINS'', JObj default_PLUGINS),
     (''EPOCH'', JObj default_EPOCH),
     (''BITCOIN'', JObj default_BITCOIN),
     (''BLOCKCHAIN'', JObj default_BLOCKCHAIN),
     (''DATABASE'', JObj default_DATABASE),
     (''DEV_MODE'', JBool False),
     (''INDEXER'', JObj default_INDEXER),
     (''DATABASE_AUTH'', JObj default_DATABASE_AUTH),
     (''DEV'', JObj default_DEV),
     (''P2P'', JObj default_P2P),
     (''API'', JObj default_API),
     (''POC'', JObj default_POC),
     (''MEMPOOL'', JObj default_MEMPOOL),
     (''RPC'', JObj default_RPC),
     (''SSH'', JObj default_SSH),
     (''OP_NET'', JObj default_OP_NET)]"

subsection \<open>The checks\<close>

text \<open>
  The conditions of \<open>verifyConfig\<close> under which it throws, with the messages: \<open>Optional\<close> is
  \<open>x !== undefined && typeof x !== t\<close>, \<open>Required\<close> is \<open>typeof x !== t\<close>, \<open>Guarded\<close> is \<open>x && typeof x !== t\<close>
  (\<open>!Array.isArray(x)\<close> for arrays) and \<open>Refuse\<close> any other condition on the section. A disjunction
  \<open>typeof x !== t || c\<close> is the two checks with the same message.
\<close>

datatype cfg_check = Optional string js_kind string | Required string js_kind string
  | Guarded string js_kind string | Refuse "jsval \<Rightarrow> bool" "jsval \<Rightarrow> string"

fun throws :: "cfg_check \<Rightarrow> jsval \<Rightarrow> bool" where
  "throws (Optional k t m) s = (get s k \<noteq> JUndef \<and> \<not> has_kind t (get s k))"
| "throws (Required k t m) s = (\<not> has_kind t (get s k))"
| "throws (Guarded k t m) s = (js_truthy (get s k) \<and> \<not> has_kind t (get s k))"
| "throws (Refuse P m) s = P s"

fun message :: "cfg_check \<Rightarrow> jsval \<Rightarrow> string" where
  "message (Optional k t m) s = m"
| "message (Required k t m) s = m"
| "message (Guarded k t m) s = m"
| "message (Refuse P m) s = m s"

fun run_checks :: "cfg_check list \<Rightarrow> jsval \<Rightarrow> cfg_error + unit" where
  "run_checks [] s = Inr ()"
| "run_checks (c # cs) s = (if throws c s then Inl (Thrown (message c s)) else run_checks cs s)"

definition verify_DOCS :: "cfg_check list" where
  "verify_DOCS =
    [Guarded ''ENABLED'' K_boolean ''Oops the property DOCS.ENABLED is not a boolean.'',
     Refuse (\<lambda>s. js_truthy (get s ''ENABLED'') \<and> \<not> has_kind K_number (get s ''PORT''))
       (\<lambda>s. ''Oops the property DOCS.PORT is not a number.'')]"

definition verify_PLUGINS :: "cfg_check list" where
  "verify_PLUGINS =
    [Optional ''PLUGINS_DIR'' K_string ''Oops the property PLUGINS.PLUGINS_DIR is not a string.'',
     Optional ''PLUGINS_ENABLED'' K_boolean ''Oops the property PLUGINS.PLUGINS_ENABLED is not a boolean.'',
     Optional ''WORKER_POOL_SIZE'' K_number ''Oops the property PLUGINS.WORKER_POOL_SIZE is not a number.'',
     Optional ''EMIT_ERROR_OR_WARNING'' K_boolean ''Oops the property PLUGINS.EMIT_ERROR_OR_WARNING is not a boolean.'']"

definition verify_API :: "cfg_check list" where
  "verify_API =
    [Guarded ''ENABLED'' K_boolean ''Oops the property API.ENABLED is not a boolean.'',
     Refuse (\<lambda>s. js_truthy (get s ''ENABLED'') \<and> \<not> has_kind K_number (get s ''PORT''))
       (\<lambda>s. ''Oops the property API.PORT is not a number.'')]"

definition verify_BLOCKCHAIN :: "cfg_check list" where
  "verify_BLOCKCHAIN =
    [Required ''BITCOIND_HOST'' K_string ''Oops the property BLOCKCHAIN.BITCOIND_HOST is not a string.'',
     Refuse (\<lambda>s. \<not> js_truthy (get s ''BITCOIND_HOST''))
       (\<lambda>s. ''Oops the property BLOCKCHAIN.BITCOIND_HOST is not valid.''),
     Required ''BITCOIND_PORT'' K_number ''Oops the property BLOCKCHAIN.BITCOIND_PORT is not a number.'',
     Refuse (\<lambda>s. get s ''BITCOIND_PORT'' = JNum 0)
       (\<lambda>s. ''Oops the property BLOCKCHAIN.BITCOIND_PORT is not defined.'')]"

definition verify_INDEXER :: "cfg_check list" where
  "verify_INDEXER =
    [Guarded ''ENABLED'' K_boolean ''Oops the property INDEXER.ENABLED is not a boolean.'',
     Required ''STORAGE_TYPE'' K_string ''Oops the property INDEXER.STORAGE_TYPE is not a valid IndexerStorageType enum value.'',
     Refuse (\<lambda>s. \<not> has_property IndexerStorageType_keys (js_toString (get s ''STORAGE_TYPE'')))
       (\<lambda>s. ''Oops the property INDEXER.STORAGE_TYPE is not a valid IndexerStorageType enum value.''),
     Required ''BLOCK_UPDATE_METHOD'' K_string ''Oops the property INDEXER.BLOCK_UPDATE_METHOD is not a valid BlockUpdateMethods enum value.'',
     Refuse (\<lambda>s. \<not> has_property BlockUpdateMethods_keys (js_toString (get s ''BLOCK_UPDATE_METHOD'')))
       (\<lambda>s. ''Oops the property INDEXER.BLOCK_UPDATE_METHOD is not a valid BlockUpdateMethods enum value.''),
     Optional ''ALLOW_PURGE'' K_boolean ''Oops the property INDEXER.ALLOW_PURGE is not a boolean.'',
     Optional ''READONLY_MODE'' K_boolean ''Oops the property INDEXER.READONLY_MODE is not a boolean.'',
     Optional ''START_INDEXING_UTXO_AT_BLOCK_HEIGHT'' K_number ''Oops the property INDEXER.START_INDEXING_UTXO_AT_BLOCK_HEIGHT is not a number.'',
     Optional ''PURGE_SPENT_UTXO_OLDER_THAN_BLOCKS'' K_number ''Oops the property INDEXER.PURGE_SPENT_UTXO_OLDER_THAN_BLOCKS is not a number.'',
     Optional ''UTXO_SAVE_INTERVAL'' K_number ''Oops the property INDEXER.UTXO_SAVE_INTERVAL is not a number.'',
     Optional ''BLOCK_QUERY_INTERVAL'' K_number ''Oops the property INDEXER.BLOCK_QUERY_INTERVAL is not a number.'',
     Optional ''SOLVE_UNKNOWN_UTXOS'' K_boolean ''Oops the property INDEXER.SOLVE_UNKNOWN_UTXOS is not a boolean.'']"

definition verify_RPC :: "cfg_check list" where
  "verify_RPC =
    [Optional ''THREADS'' K_number ''Oops the property RPC.THREADS is not a boolean.'',
     Optional ''VM_CONCURRENCY'' K_number ''Oops the property RPC.VM_CONCURRENCY is not a number.'',
     Optional ''CHILD_PROCESSES'' K_number ''Oops the property RPC.CHILD_PROCESSES is not a number.'']"

definition verify_OP_NET :: "cfg_check list" where
  "verify_OP_NET =
    [Optional ''MAXIMUM_PREFETCH_BLOCKS'' K_number ''Oops the property OP_NET.MAXIMUM_PREFETCH_BLOCKS is not a number.'',
     Required ''REINDEX'' K_boolean ''Oops the property OP_NET.REINDEX is not a boolean.'',
     Optional ''ENABLE_BATCH_PROCESSING'' K_boolean ''Oops the property OP_NET.ENABLE_BATCH_PROCESSING is not a boolean.'',
     Optional ''REINDEX_FROM_BLOCK'' K_number ''Oops the property OP_NET.REINDEX_FROM_BLOCK is not a number.'',
     Optional ''REINDEX_PURGE_UTXOS'' K_boolean ''Oops the property OP_NET.REINDEX_PURGE_UTXOS is not a boolean.'',
     Optional ''REINDEX_BATCH_SIZE'' K_number ''Oops the property OP_NET.REINDEX_BATCH_SIZE is not a number.'',
     Refuse (\<lambda>s. case get s ''REINDEX_BATCH_SIZE'' of JNum n \<Rightarrow> n \<le> 0 | _ \<Rightarrow> False)
       (\<lambda>s. ''OP_NET.REINDEX_BATCH_SIZE must be greater than 0, got '' @ js_toString (get s ''REINDEX_BATCH_SIZE'') @ ''.''),
     Optional ''EPOCH_REINDEX'' K_boolean ''Oops the property OP_NET.EPOCH_REINDEX is not a boolean.'',
     Optional ''EPOCH_REINDEX_FROM_EPOCH'' K_number ''Oops the property OP_NET.EPOCH_REINDEX_FROM_EPOCH is not a number.'',
     Required ''VERIFY_INTEGRITY_ON_STARTUP'' K_boolean ''Oops the property OP_NET.VERIFY_INTEGRITY_ON_STARTUP is not a boolean.'',
     Required ''MODE'' K_string ''Oops the property OP_NET.MODE is not a string.'',
     Optional ''LIGHT_MODE_FROM_BLOCK'' K_number ''Oops the property OP_NET.LIGHT_MODE_FROM_BLOCK is not a number.'',
     Refuse (\<lambda>s. \<not> has_property OPNetIndexerMode_keys (js_toString (get s ''MODE'')))
       (\<lambda>s. ''Oops the property OP_NET.MODE is not a valid OPNetIndexerMode enum value.''),
     Optional ''PENDING_BLOCK_THRESHOLD'' K_number ''Oops the property OP_NET.TRANSACTIONS_THREADS is not a number.'',
     Optional ''TRANSACTIONS_MAXIMUM_CONCURRENT'' K_number ''Oops the property OP_NET.TRANSACTIONS_MAXIMUM_CONCURRENT is not a number.'']"

definition verify_BITCOIN :: "cfg_check list" where
  "verify_BITCOIN =
    [Optional ''CHAIN_ID'' K_number ''Oops the property OP_NET.CHAIN_ID is not a number.'',
     Optional ''NETWORK_MAGIC'' K_array ''Oops the property BITCOIN.NETWORK_MAGIC is not an array.'',
     Refuse (\<lambda>s. list_ex (\<lambda>magic. \<not> has_kind K_number magic) (elements (get s ''NETWORK_MAGIC'')))
       (\<lambda>s. ''Oops the property BITCOIN.NETWORK_MAGIC is not an array of numbers.''),
     Refuse (\<lambda>s. get s ''NETWORK'' \<noteq> JUndef \<and> \<not> has_property BitcoinNetwork_keys (js_toString (get s ''NETWORK'')))
       (\<lambda>s. ''Oops the property BITCOIN.NETWORK is not a valid BitcoinNetwork enum value.''),
     Optional ''DNS_SEEDS'' K_array ''Oops the property OP_NET.DNS_SEEDS is not an array.'']"

definition verify_POC :: "cfg_check list" where
  "verify_POC =
    [Optional ''ENABLED'' K_boolean ''Oops the property POA.ENABLED is not a boolean.'']"

definition verify_P2P :: "cfg_check list" where
  "verify_P2P =
    [Optional ''CLIENT_MODE'' K_boolean ''Oops the property P2P.CLIENT_MODE is not a boolean.'',
     Optional ''MDNS'' K_boolean ''Oops the property P2P.MDNS is not a boolean.'',
     Optional ''PRIVATE_MODE'' K_boolean ''Oops the property P2P.PRIVATE_MODE is not a boolean.'',
     Optional ''ENABLE_IP_BANNING'' K_boolean ''Oops the property P2P.ENABLE_IP_BANNING is not a boolean.'',
     Optional ''ANNOUNCE_ADDRESSES'' K_array ''Oops the property P2P.ANNOUNCE_ADDRESSES is not an array.'',
     Optional ''IS_BOOTSTRAP_NODE'' K_boolean ''Oops the property P2P.IS_BOOTSTRAP_NODE is not a boolean.'',
     Optional ''EXTERNAL_ADDRESS_THRESHOLD'' K_number ''Oops the property P2P.EXTERNAL_ADDRESS_THRESHOLD is not a number.'',
     Optional ''ENABLE_P2P_LOGGING'' K_boolean ''Oops the property P2P.ENABLE_P2P_LOGGING is not a boolean.'',
     Optional ''ENABLE_UPNP'' K_boolean ''Oops the property P2P.ENABLE_UPNP is not a boolean.'',
     Refuse (\<lambda>s. js_truthy (get s ''CLIENT_MODE'') \<and> js_truthy (get s ''IS_BOOTSTRAP_NODE''))
       (\<lambda>s. ''Oops the property P2P.CLIENT_MODE and P2P.IS_BOOTSTRAP_NODE cannot be both true.''),
     Optional ''ENABLE_IPV6'' K_boolean ''Oops the property P2P.ENABLE_IPV6 is not a boolean.'',
     Optional ''P2P_HOST_V6'' K_string ''Oops the property P2P.P2P_HOST_V6 is not a string.'',
     Optional ''P2P_PORT_V6'' K_number ''Oops the property P2P.P2P_PORT_V6 is not a number.'',
     Optional ''P2P_HOST'' K_string ''Oops the property P2P.P2P_HOST is not a string.'',
     Optional ''P2P_PORT'' K_number ''Oops the property P2P.P2P_PORT is not a number.'',
     Optional ''P2P_PROTOCOL'' K_string ''Oops the property P2P.P2P_PROTOCOL is not a string.'',
     Optional ''MAXIMUM_INBOUND_STREAMS'' K_number ''Oops the property P2P.MAXIMUM_INBOUND_STREAMS is not a number.'',
     Optional ''MAXIMUM_OUTBOUND_STREAMS'' K_number ''Oops the property P2P.MAXIMUM_OUTBOUND_PEERS is not a number.'',
     Optional ''BOOTSTRAP_NODES'' K_array ''Oops the property P2P.BOOTSTRAP_NODES is not an array.'',
     Optional ''NODES'' K_array ''Oops the property P2P.NODES is not an array.'',
     Optional ''PRIVATE_NODES'' K_array ''Oops the property P2P.PRIVATE_NODES is not an array.'',
     Optional ''PEER_INACTIVITY_TIMEOUT'' K_number ''Oops the property P2P.PEER_INACTIVITY_TIMEOUT is not a number.'',
     Optional ''MINIMUM_PEERS'' K_number ''Oops the property P2P.MINIMUM_PEERS is not a number.'',
     Optional ''MAXIMUM_PEERS'' K_number ''Oops the property P2P.MAXIMUM_PEERS is not a number.'']"

definition verify_MEMPOOL :: "cfg_check list" where
  "verify_MEMPOOL =
    [Optional ''EXPIRATION_BLOCKS'' K_number ''Oops the property MEMPOOL.EXPIRATION_BLOCKS is not a number.'',
     Optional ''PREVENT_TX_BROADCAST_IF_NOT_SYNCED'' K_boolean ''Oops the property MEMPOOL.PREVENT_TX_BROADCAST_IF_NOT_SYNCED is not a boolean.'',
     Optional ''THREADS'' K_number ''Oops the property MEMPOOL.THREADS is not a number.'',
     Optional ''ENABLE_BLOCK_PURGE'' K_boolean ''Oops the property MEMPOOL.ENABLE_BLOCK_PURGE is not a boolean.'',
     Optional ''BATCH_SIZE'' K_number ''Oops the property MEMPOOL.BATCH_SIZE is not a number.'',
     Optional ''FETCH_INTERVAL'' K_number ''Oops the property MEMPOOL.FETCH_INTERVAL is not a number.'']"

definition verify_SSH :: "cfg_check list" where
  "verify_SSH =
    [Guarded ''ENABLED'' K_boolean ''Oops the property SSH.ENABLED is not a boolean.'',
     Required ''PORT'' K_number ''Oops the property SSH.PORT is not a number.'',
     Required ''HOST'' K_string ''Oops the property SSH.HOST is not a string.'',
     Required ''USERNAME'' K_string ''Oops the property SSH.USERNAME is not a string.'',
     Required ''PASSWORD'' K_string ''Oops the property SSH.PASSWORD is not a string.'',
     Required ''PUBLIC_KEY'' K_string ''Oops the property SSH.PUBLIC_KEY is not a string.'',
     Required ''NO_AUTH'' K_boolean ''Oops the property SSH.NO_AUTH is not a boolean.'',
     Required ''ALLOWED_IPS'' K_array ''Oops the property SSH.ALLOWED_IPS is not an array.'']"

definition verify_API_limits :: "cfg_check list" where
  "verify_API_limits =
    [Guarded ''MAXIMUM_PENDING_REQUESTS_PER_THREADS'' K_number ''Oops the property API.MAXIMUM_PENDING_REQUESTS_PER_THREADS is not a number.'',
     Guarded ''BATCH_PROCESSING_SIZE'' K_number ''Oops the property API.BATCH_PROCESSING_SIZE is not a number.'',
     Guarded ''MAXIMUM_PARALLEL_BLOCK_QUERY'' K_number ''Oops the property API.MAXIMUM_PARALLEL_BLOCK_QUERY is not a number.'',
     Guarded ''MAXIMUM_TRANSACTION_BROADCAST'' K_number ''Oops the property API.MAXIMUM_TRANSACTION_BROADCAST is not a number.'',
     Guarded ''MAXIMUM_PARALLEL_EPOCH_QUERY'' K_number ''Oops the property API.MAXIMUM_PARALLEL_EPOCH_QUERY is not a number.'',
     Guarded ''EPOCH_CACHE_SIZE'' K_number ''Oops the property API.EPOCH_CACHE_SIZE is not a number.'',
     Guarded ''MAXIMUM_PENDING_CALL_REQUESTS'' K_number ''Oops the property API.MAXIMUM_PENDING_CALL_REQUESTS is not a number.'',
     Guarded ''UTXO_LIMIT'' K_number ''Oops the property API.UTXO_LIMIT is not a number.'',
     Guarded ''MAXIMUM_REQUESTS_PER_BATCH'' K_number ''Oops the property API.MAXIMUM_REQUESTS_PER_BATCH is not a number.'',
     Guarded ''THREADS'' K_number ''Oops the property API.THREADS is not a number.'']"

definition verify_EPOCH :: "cfg_check list" where
  "verify_EPOCH =
    [Optional ''MAX_ATTESTATION_PER_BLOCK'' K_number ''Oops the property EPOCH.MAX_ATTESTATION_PER_EPOCH is not a number.'',
     Optional ''LOG_FINALIZATION'' K_boolean ''Oops the property EPOCH.LOG_FINALIZATION is not a boolean.'']"

definition verify_DEV :: "cfg_check list" where
  "verify_DEV =
    [Optional ''PROCESS_ONLY_X_BLOCK'' K_number ''Oops the property DEV.PROCESS_ONLY_X_BLOCK is not a number.'',
     Optional ''DEBUG_TRANSACTION_FAILURE'' K_boolean ''Oops the property DEV.DEBUG_TRANSACTION_FAILURE is not a boolean.'',
     Optional ''ALLOW_LARGE_TRANSACTIONS'' K_boolean ''Oops the property DEV.ALLOW_LARGE_TRANSACTIONS is not a boolean.'',
     Optional ''DEBUG_TRANSACTION_PARSE_FAILURE'' K_boolean ''Oops the property DEV.DEBUG_TRANSACTION_FAILURE is not a boolean.'',
     Optional ''CAUSE_FETCHING_FAILURE'' K_boolean ''Oops the property DEV.CAUSE_FETCHING_FAILURE is not a boolean.'',
     Optional ''DISPLAY_VALID_BLOCK_WITNESS'' K_boolean ''Oops the property DEV.DISPLAY_VALID_BLOCK_WITNESS is not a boolean.'',
     Optional ''DISPLAY_INVALID_BLOCK_WITNESS'' K_boolean ''Oops the property DEV.DISPLAY_INVALID_BLOCK_WITNESS is not a boolean.'',
     Optional ''ENABLE_CONTRACT_DEBUG'' K_boolean ''Oops the property DEV.ENABLE_CONTRACT_DEBUG is not a boolean.'',
     Optional ''ALWAYS_ENABLE_REORG_VERIFICATION'' K_boolean ''Oops the property DEV.ALWAYS_ENABLE_REORG_VERIFICATION is not a boolean.'',
     Optional ''ENABLE_REORG_NIGHTMARE'' K_boolean ''Oops the property DEV.ENABLE_REORG_NIGHTMARE is not a boolean.'',
     Optional ''SAVE_TIMEOUTS_TO_FILE'' K_boolean ''Oops the property DEV.SAVE_TIMEOUTS_TO_FILE is not a boolean.'',
     Refuse (\<lambda>s. \<not> js_truthy (get s ''SIMULATE_HIGH_GAS_USAGE'') \<and> \<not> has_kind K_boolean (get s ''SIMULATE_HIGH_GAS_USAGE''))
       (\<lambda>s. ''Oops the property DEV.SIMULATE_HIGH_GAS_USAGE is not a boolean.''),
     Optional ''DEBUG_VALID_TRANSACTIONS'' K_boolean ''Oops the property DEV.DEBUG_VALID_TRANSACTIONS is not a boolean.'',
     Optional ''DEBUG_API_ERRORS'' K_boolean ''Oops the property DEV.DEBUG_API_ERRORS is not a boolean.'',
     Optional ''DEBUG_API_CALLS'' K_boolean ''Oops the property DEV.DEBUG_API_CALLS is not a boolean.'',
     Optional ''DEBUG_PENDING_REQUESTS'' K_boolean ''Oops the property DEV.DEBUG_PENDING_REQUESTS is not a boolean.'',
     Optional ''RESYNC_BLOCK_HEIGHTS'' K_boolean ''Oops the property DEV.RESYNC_BLOCK_HEIGHTS is not a boolean.'',
     Optional ''RESYNC_BLOCK_HEIGHTS_UNTIL'' K_number ''Oops the property DEV.RESYNC_BLOCK_HEIGHTS_UNTIL is not a number.'']"

definition verify_DATABASE_AUTH :: "cfg_check list" where
  "verify_DATABASE_AUTH =
    [Optional ''SOURCE'' K_string ''Oops the property DATABASE_AUTH.SOURCE is not a string.'']"

definition verifyWebSocketConfig :: "cfg_check list" where
  "verifyWebSocketConfig =
    [Optional ''ENABLED'' K_boolean ''Oops the property API.WEBSOCKET.ENABLED is not a boolean.'',
     Optional ''MAX_CONNECTIONS'' K_number ''Oops the property API.WEBSOCKET.MAX_CONNECTIONS is not a number.'',
     Optional ''IDLE_TIMEOUT'' K_number ''Oops the property API.WEBSOCKET.IDLE_TIMEOUT is not a number.'',
     Optional ''MAX_PAYLOAD_SIZE'' K_number ''Oops the property API.WEBSOCKET.MAX_PAYLOAD_SIZE is not a number.'',
     Optional ''MAX_PENDING_REQUESTS'' K_number ''Oops the property API.WEBSOCKET.MAX_PENDING_REQUESTS is not a number.'',
     Optional ''REQUEST_TIMEOUT'' K_number ''Oops the property API.WEBSOCKET.REQUEST_TIMEOUT is not a number.'',
     Optional ''MAX_REQUESTS_PER_SECOND'' K_number ''Oops the property API.WEBSOCKET.MAX_REQUESTS_PER_SECOND is not a number.'',
     Optional ''MAX_SUBSCRIPTIONS'' K_number ''Oops the property API.WEBSOCKET.MAX_SUBSCRIPTIONS is not a number.'']"

definition verifyAPIMempoolConfig :: "cfg_check list" where
  "verifyAPIMempoolConfig =
    [Optional ''MAX_ADDRESSES'' K_number ''Oops the property API.MEMPOOL.MAX_ADDRESSES is not a number.'',
     Optional ''DEFAULT_LIMIT'' K_number ''Oops the property API.MEMPOOL.DEFAULT_LIMIT is not a number.'',
     Optional ''MAX_LIMIT'' K_number ''Oops the property API.MEMPOOL.MAX_LIMIT is not a number.'']"

definition section_checks :: "jsval \<Rightarrow> string \<Rightarrow> cfg_check list \<Rightarrow> cfg_error + unit" where
  "section_checks p k cs = (if js_truthy (get p k) then run_checks cs (get p k) else Inr ())"

definition check_DEV_MODE :: "jsval \<Rightarrow> cfg_error + unit" where
  "check_DEV_MODE p =
     (if \<not> (get p ''DEV_MODE'' = JUndef \<or> get p ''DEV_MODE'' = JNull) \<and> \<not> has_kind K_boolean (get p ''DEV_MODE'')
      then Inl (Thrown ''Oops the property DEV_MODE is not a boolean.'') else Inr ())"

definition check_API :: "jsval \<Rightarrow> cfg_error + unit" where
  "check_API p =
     (if js_truthy (get p ''API'')
      then res_bind (run_checks verify_API_limits (get p ''API'')) (\<lambda>_.
           res_bind (section_checks (get p ''API'') ''WEBSOCKET'' verifyWebSocketConfig) (\<lambda>_.
           section_checks (get p ''API'') ''MEMPOOL'' verifyAPIMempoolConfig))
      else Inr ())"

fun run_all :: "(cfg_error + unit) list \<Rightarrow> cfg_error + unit" where
  "run_all [] = Inr ()"
| "run_all (r # rs) = res_bind r (\<lambda>_. run_all rs)"

definition all_checks :: "jsval \<Rightarrow> cfg_error + unit" where
  "all_checks p = run_all
    [section_checks p ''DOCS'' verify_DOCS,
     section_checks p ''PLUGINS'' verify_PLUGINS,
     section_checks p ''API'' verify_API,
     section_checks p ''BLOCKCHAIN'' verify_BLOCKCHAIN,
     check_DEV_MODE p,
     section_checks p ''INDEXER'' verify_INDEXER,
     section_checks p ''RPC'' verify_RPC,
     section_checks p ''OP_NET'' verify_OP_NET,
     section_checks p ''BITCOIN'' verify_BITCOIN,
     section_checks p ''POC'' verify_POC,
     section_checks p ''P2P'' verify_P2P,
     section_checks p ''MEMPOOL'' verify_MEMPOOL,
     section_checks p ''SSH'' verify_SSH,
     check_API p,
     section_checks p ''EPOCH'' verify_EPOCH,
     section_checks p ''DEV'' verify_DEV,
     section_checks p ''DATABASE_AUTH'' verify_DATABASE_AUTH]"

definition encode_password :: "fields \<Rightarrow> cfg_error + fields" where
  "encode_password p =
     (let db = field p ''DATABASE''; auth = get db ''AUTH'' in
      if js_truthy auth
      then res_bind (assign auth ''PASSWORD'' (JStr (encodeURIComponent (js_toString (get auth ''PASSWORD''))))) (\<lambda>auth'.
           res_bind (assign db ''AUTH'' auth') (\<lambda>db'.
           Inr (AList.update ''DATABASE'' db' p)))
      else Inr p)"

subsection \<open>The loader\<close>

record BtcIndexerConfigManager =
  cm_config :: fields
  cm_verifiedConfig :: bool

definition verifyConfig ::
    "(fields \<Rightarrow> cfg_error + fields) \<Rightarrow> fields \<Rightarrow> BtcIndexerConfigManager
      \<Rightarrow> cfg_error + fields \<times> BtcIndexerConfigManager" where
  "verifyConfig super_verify parsedConfig m =
     (if cm_verifiedConfig m then Inl (Thrown ''Config has already been verified.'')
      else res_bind (super_verify parsedConfig) (\<lambda>p.
           res_bind (all_checks (JObj p)) (\<lambda>_.
           res_bind (encode_password p) (\<lambda>p'.
           Inr (p', m\<lparr>cm_verifiedConfig := True\<rparr>)))))"

definition getDefaultConfig :: "fields \<Rightarrow> fields" where
  "getDefaultConfig super_default = spread super_default defaultConfig"

definition merge_fields :: "jsval \<Rightarrow> fields \<Rightarrow> fields" where
  "merge_fields configData dflt = map (\<lambda>(k, d). (k, nullish (get configData k) d)) dflt"

definition getConfigModified :: "jsval \<Rightarrow> jsval \<Rightarrow> cfg_error + jsval" where
  "getConfigModified config dflt =
     (case dflt of
        JObj fs \<Rightarrow> Inr (JObj (merge_fields (if js_truthy config then config else JObj []) fs))
      | _ \<Rightarrow> Inl (Thrown ''Oops the default config is not defined.''))"

definition merge_section :: "fields \<Rightarrow> fields \<Rightarrow> string \<Rightarrow> fields \<Rightarrow> cfg_error + fields" where
  "merge_section p d k c =
     res_bind (getConfigModified (field p k) (field d k)) (\<lambda>v. Inr (AList.update k v c))"

definition mergedWsConfig :: "jsval \<Rightarrow> jsval \<Rightarrow> jsval" where
  "mergedWsConfig ws d = JObj (map (\<lambda>k. (k, nullish (get ws k) (get d k)))
     [''ENABLED'', ''MAX_CONNECTIONS'', ''IDLE_TIMEOUT'', ''MAX_PAYLOAD_SIZE'', ''MAX_PENDING_REQUESTS'',
      ''REQUEST_TIMEOUT'', ''MAX_REQUESTS_PER_SECOND'', ''MAX_SUBSCRIPTIONS''])"

definition mergedMempoolConfig :: "jsval \<Rightarrow> jsval \<Rightarrow> jsval" where
  "mergedMempoolConfig mp d = JObj (map (\<lambda>k. (k, nullish (get mp k) (get d k)))
     [''MAX_ADDRESSES'', ''DEFAULT_LIMIT'', ''MAX_LIMIT''])"

definition merge_API :: "fields \<Rightarrow> fields \<Rightarrow> fields \<Rightarrow> cfg_error + fields" where
  "merge_API p d c =
     res_bind (getConfigModified (field p ''API'') (field d ''API'')) (\<lambda>apiConfig.
       (let defaults = field d ''API''; api = field p ''API'' in
        if js_truthy (get defaults ''WEBSOCKET'')
        then (let ws = mergedWsConfig (get api ''WEBSOCKET'') (get defaults ''WEBSOCKET'');
                  mp = (if js_truthy (get defaults ''MEMPOOL'')
                        then mergedMempoolConfig (get api ''MEMPOOL'') (get defaults ''MEMPOOL'')
                        else get apiConfig ''MEMPOOL'')
              in res_bind (assign apiConfig ''WEBSOCKET'' ws) (\<lambda>a.
                 res_bind (assign a ''MEMPOOL'' mp) (\<lambda>a'. Inr (AList.update ''API'' a' c))))
        else Inr (AList.update ''API'' apiConfig c)))"

definition merge_BITCOIN :: "fields \<Rightarrow> fields \<Rightarrow> fields \<Rightarrow> cfg_error + fields" where
  "merge_BITCOIN p d c =
     (let orEmpty = (\<lambda>v. if js_truthy v then v else JObj []) in
      res_bind (getConfigModified (orEmpty (field p ''BITCOIN'')) (orEmpty (field d ''BITCOIN''))) (\<lambda>v.
      Inr (AList.update ''BITCOIN'' v c)))"

definition resync_settings :: "fields \<Rightarrow> cfg_error + fields" where
  "resync_settings c =
     (let dev = field c ''DEV''; until = get dev ''RESYNC_BLOCK_HEIGHTS_UNTIL'' in
      if \<not> js_truthy (get dev ''RESYNC_BLOCK_HEIGHTS'') then Inr c
      else if \<not> js_truthy until
      then Inl (Thrown ''RESYNC_BLOCK_HEIGHTS_UNTIL must be set to a positive number when RESYNC_BLOCK_HEIGHTS is enabled'')
      else (case until of
          JNum n \<Rightarrow>
            (if n \<le> 0
             then Inl (Thrown ''RESYNC_BLOCK_HEIGHTS_UNTIL must be set to a positive number when RESYNC_BLOCK_HEIGHTS is enabled'')
             else res_bind (assign dev ''PROCESS_ONLY_X_BLOCK'' (JNum (n + 1))) (\<lambda>dev'.
                  res_bind (assign (field c ''INDEXER'') ''START_INDEXING_UTXO_AT_BLOCK_HEIGHT'' until) (\<lambda>indexer.
                  res_bind (assign (field c ''OP_NET'') ''REINDEX'' (JBool True)) (\<lambda>opnet.
                  res_bind (assign opnet ''REINDEX_FROM_BLOCK'' (JNum 0)) (\<lambda>opnet'.
                  Inr (AList.update ''OP_NET'' opnet' (AList.update ''INDEXER'' indexer (AList.update ''DEV'' dev' c))))))))
        | _ \<Rightarrow> Inl OutsideModel))"

definition plain_sections :: "string list" where
  "plain_sections = [''INDEXER'', ''RPC'', ''OP_NET'', ''P2P'', ''POC'', ''MEMPOOL'', ''BLOCKCHAIN'', ''DATABASE'',
     ''DATABASE_AUTH'', ''DOCS'', ''PLUGINS'', ''SSH'']"

definition parseConfig :: "fields \<Rightarrow> fields \<Rightarrow> fields \<Rightarrow> cfg_error + fields" where
  "parseConfig super_default p c =
     (let d = getDefaultConfig super_default;
          c0 = AList.update ''DEV_MODE'' (nullish (field p ''DEV_MODE'') (field d ''DEV_MODE'')) c
      in res_bind (res_fold (merge_section p d) plain_sections c0) (\<lambda>c1.
         res_bind (merge_API p d c1) (\<lambda>c2.
         res_bind (merge_BITCOIN p d c2) (\<lambda>c3.
         res_bind (res_fold (merge_section p d) [''DEV'', ''EPOCH''] c3) resync_settings))))"

definition parsePartialConfig ::
    "(fields \<Rightarrow> fields \<Rightarrow> cfg_error + fields) \<Rightarrow> fields \<Rightarrow> fields \<Rightarrow> BtcIndexerConfigManager
      \<Rightarrow> cfg_error + BtcIndexerConfigManager" where
  "parsePartialConfig super_parse super_default p m =
     res_bind (super_parse p (cm_config m)) (\<lambda>c.
     res_bind (parseConfig super_default p c) (\<lambda>c'. Inr (m\<lparr>cm_config := c'\<rparr>)))"

subsection \<open>Reading and writing fields\<close>

lemma field_update [simp]: "field (AList.update k v fs) j = (if j = k then v else field fs j)"
  by (simp add: field_def update_conv')

lemma field_spread:
  "distinct (map fst b) \<Longrightarrow> field (spread a b) k = (case map_of b k of None \<Rightarrow> field a k | Some v \<Rightarrow> v)"
proof (induction b arbitrary: a)
  case (Cons x b)
  then have "map_of b (fst x) = None" by (simp add: map_of_eq_None_iff)
  then show ?case using Cons by (cases x) (auto simp: spread_def split: option.splits)
qed (simp add: spread_def)

lemma field_merge [simp]:
  "field (merge_fields u fs) k = (case map_of fs k of None \<Rightarrow> JUndef | Some d \<Rightarrow> nullish (get u k) d)"
  by (induction fs) (auto simp: merge_fields_def field_def split: if_splits option.splits)

lemma has_kind_not_nullish: "has_kind t v \<Longrightarrow> v \<noteq> JUndef \<and> v \<noteq> JNull"
  by (cases t) auto

lemma nullish_kind: "has_kind t v \<Longrightarrow> nullish v d = v"
  using has_kind_not_nullish [of t v] by (simp add: nullish_def)

lemma nullish_undef [simp]: "nullish JUndef d = d" "nullish JNull d = d"
  by (simp_all add: nullish_def)

lemma run_checks_ok: "run_checks cs s = Inr () \<longleftrightarrow> (\<forall>c\<in>set cs. \<not> throws c s)"
  by (induction cs) auto

lemma run_all_ok: "run_all rs = Inr () \<longleftrightarrow> (\<forall>r\<in>set rs. r = Inr ())"
proof (induction rs)
  case (Cons r rs)
  then show ?case by (cases r) auto
qed simp

subsection \<open>What the checks guarantee of the merged section\<close>

fun strict_fields :: "cfg_check list \<Rightarrow> (string \<times> js_kind) list" where
  "strict_fields [] = []"
| "strict_fields (Optional k t m # cs) = (k, t) # strict_fields cs"
| "strict_fields (Required k t m # cs) = (k, t) # strict_fields cs"
| "strict_fields (c # cs) = strict_fields cs"

fun guarded_fields :: "cfg_check list \<Rightarrow> (string \<times> js_kind) list" where
  "guarded_fields [] = []"
| "guarded_fields (Guarded k t m # cs) = (k, t) # guarded_fields cs"
| "guarded_fields (c # cs) = guarded_fields cs"

definition or_empty :: "jsval \<Rightarrow> jsval" where
  "or_empty v = (if js_truthy v then v else JObj [])"

lemma get_falsy: "\<not> js_truthy v \<Longrightarrow> get v k = JUndef"
  by (cases v) auto

lemma get_or_empty [simp]: "get (or_empty v) k = get v k"
  by (simp add: or_empty_def get_falsy) (simp add: field_def)

lemma strict_fieldsD:
  "(k, t) \<in> set (strict_fields cs) \<Longrightarrow> \<exists>m. Optional k t m \<in> set cs \<or> Required k t m \<in> set cs"
  by (induction cs rule: strict_fields.induct) auto

lemma guarded_fieldsD: "(k, t) \<in> set (guarded_fields cs) \<Longrightarrow> \<exists>m. Guarded k t m \<in> set cs"
  by (induction cs rule: guarded_fields.induct) auto

lemma section_checks_ok:
  "section_checks p s cs = Inr () \<longleftrightarrow> (js_truthy (get p s) \<longrightarrow> (\<forall>c\<in>set cs. \<not> throws c (get p s)))"
  by (simp add: section_checks_def run_checks_ok)

lemma strict_value:
  assumes "section_checks p s cs = Inr ()" "(k, t) \<in> set (strict_fields cs)"
  shows "get (get p s) k = JUndef \<or> has_kind t (get (get p s) k)"
  using assms strict_fieldsD [OF assms(2)] get_falsy [of "get p s" k] by (auto simp: section_checks_ok)

lemma guarded_value:
  assumes "section_checks p s cs = Inr ()" "(k, t) \<in> set (guarded_fields cs)"
  shows "\<not> js_truthy (get (get p s) k) \<or> has_kind t (get (get p s) k)"
  using assms guarded_fieldsD [OF assms(2)] get_falsy [of "get p s" k] by (auto simp: section_checks_ok)

lemma refuse_value:
  assumes "section_checks p s cs = Inr ()" "Refuse P m \<in> set cs"
  shows "\<not> js_truthy (get p s) \<or> \<not> P (get p s)"
  using assms by (auto simp: section_checks_ok)

lemma strict_kind:
  assumes "section_checks p s cs = Inr ()" "(k, t) \<in> set (strict_fields cs)" "has_kind t d"
  shows "has_kind t (nullish (get (get p s) k) d)"
  using strict_value [OF assms(1,2)] assms(3) by (auto simp: nullish_kind)

lemma nullish_neither: "d \<noteq> JUndef \<Longrightarrow> d \<noteq> JNull \<Longrightarrow> nullish v d \<noteq> JUndef \<and> nullish v d \<noteq> JNull"
  by (simp add: nullish_def)

subsection \<open>The merged configuration\<close>

text \<open>The section \<open>s\<close> of the file over the section \<open>s\<close> of the loader's own defaults.\<close>

definition merged :: "fields \<Rightarrow> string \<Rightarrow> jsval" where
  "merged p s = (case field defaultConfig s of JObj fs \<Rightarrow> JObj (merge_fields (or_empty (field p s)) fs) | v \<Rightarrow> v)"

lemma field_defaults:
  "field (getDefaultConfig d) s = (case map_of defaultConfig s of None \<Rightarrow> field d s | Some v \<Rightarrow> v)"
  unfolding getDefaultConfig_def by (rule field_spread) (simp add: defaultConfig_def)

lemma default_section:
  assumes "field defaultConfig s = JObj fs"
  shows "field (getDefaultConfig d) s = JObj fs"
  using assms by (auto simp: field_defaults) (auto simp: field_def split: option.splits)

lemma merge_section_eq:
  assumes "field defaultConfig s = JObj fs"
  shows "merge_section p (getDefaultConfig d) s c = Inr (AList.update s (merged p s) c)"
  by (simp add: merge_section_def getConfigModified_def default_section [OF assms] merged_def assms or_empty_def)

lemma merge_sections_field:
  assumes "\<And>s. s \<in> set ss \<Longrightarrow> \<exists>fs. field defaultConfig s = JObj fs"
    and "res_fold (merge_section p (getDefaultConfig d)) ss c = Inr c'"
  shows "field c' s = (if s \<in> set ss then merged p s else field c s)"
  using assms
proof (induction ss arbitrary: c)
  case (Cons k ss)
  obtain fs where "field defaultConfig k = JObj fs" using Cons.prems(1) [of k] by auto
  then have "res_fold (merge_section p (getDefaultConfig d)) ss (AList.update k (merged p k) c) = Inr c'"
    using Cons.prems(2) by (simp add: merge_section_eq)
  then show ?case using Cons.IH Cons.prems(1) by auto
qed simp

lemmas default_sections =
  defaultConfig_def field_def plain_sections_def

lemma plain_defaults: "s \<in> set plain_sections \<Longrightarrow> \<exists>fs. field defaultConfig s = JObj fs"
  by (auto simp: default_sections)

definition merged_API :: "fields \<Rightarrow> jsval" where
  "merged_API p =
     JObj (AList.update ''MEMPOOL'' (mergedMempoolConfig (get (field p ''API'') ''MEMPOOL'') (JObj default_API_MEMPOOL))
          (AList.update ''WEBSOCKET'' (mergedWsConfig (get (field p ''API'') ''WEBSOCKET'') (JObj default_API_WEBSOCKET))
             (merge_fields (or_empty (field p ''API'')) default_API)))"

lemma merge_API_eq: "merge_API p (getDefaultConfig d) c = Inr (AList.update ''API'' (merged_API p) c)"
proof -
  have "field (getDefaultConfig d) ''API'' = JObj default_API"
    by (rule default_section) (simp add: default_sections)
  moreover have "field default_API ''WEBSOCKET'' = JObj default_API_WEBSOCKET"
    "field default_API ''MEMPOOL'' = JObj default_API_MEMPOOL"
    by (simp_all add: default_API_def field_def)
  ultimately show ?thesis
    by (simp add: merge_API_def getConfigModified_def Let_def merged_API_def or_empty_def)
qed

lemma merge_BITCOIN_eq: "merge_BITCOIN p (getDefaultConfig d) c = Inr (AList.update ''BITCOIN'' (merged p ''BITCOIN'') c)"
proof -
  have *: "field defaultConfig ''BITCOIN'' = JObj default_BITCOIN" by (simp add: default_sections)
  show ?thesis
    by (simp add: merge_BITCOIN_def getConfigModified_def default_section [OF *] merged_def * or_empty_def)
qed

text \<open>The configuration before the settings of a resynchronisation.\<close>

lemma merge_sections_total:
  assumes "\<And>s. s \<in> set ss \<Longrightarrow> \<exists>fs. field defaultConfig s = JObj fs"
  shows "\<exists>c'. res_fold (merge_section p (getDefaultConfig d)) ss c = Inr c'"
  using assms
proof (induction ss arbitrary: c)
  case (Cons k ss)
  obtain fs where "field defaultConfig k = JObj fs" using Cons.prems [of k] by auto
  then show ?case using Cons.IH Cons.prems by (simp add: merge_section_eq)
qed simp

lemma parseConfig_sections:
  obtains c1 where "parseConfig d p c = resync_settings c1"
    "\<And>s. s \<in> set (plain_sections @ [''BITCOIN'', ''DEV'', ''EPOCH'']) \<Longrightarrow> field c1 s = merged p s"
    "field c1 ''API'' = merged_API p"
    "field c1 ''DEV_MODE'' = nullish (field p ''DEV_MODE'') (JBool False)"
proof -
  let ?M = "merge_section p (getDefaultConfig d)"
  let ?c0 = "AList.update ''DEV_MODE'' (nullish (field p ''DEV_MODE'') (field (getDefaultConfig d) ''DEV_MODE'')) c"
  have tail: "s \<in> set [''DEV'', ''EPOCH''] \<Longrightarrow> \<exists>fs. field defaultConfig s = JObj fs" for s
    by (auto simp: default_sections)
  obtain c1 where c1: "res_fold ?M plain_sections ?c0 = Inr c1"
    using merge_sections_total [OF plain_defaults] by blast
  obtain c4 where c4: "res_fold ?M [''DEV'', ''EPOCH''] (AList.update ''BITCOIN'' (merged p ''BITCOIN'')
               (AList.update ''API'' (merged_API p) c1)) = Inr c4"
    using merge_sections_total [OF tail] by blast
  have r: "parseConfig d p c = resync_settings c4"
    by (simp only: parseConfig_def Let_def c1 res_bind.simps merge_API_eq merge_BITCOIN_eq c4)
  have f1: "field c1 s = (if s \<in> set plain_sections then merged p s else field ?c0 s)" for s
    using merge_sections_field [OF plain_defaults c1] .
  have f4: "field c4 s = (if s \<in> set [''DEV'', ''EPOCH''] then merged p s
      else if s = ''BITCOIN'' then merged p s else if s = ''API'' then merged_API p else field c1 s)" for s
    using merge_sections_field [OF tail c4] by simp
  have "field (getDefaultConfig d) ''DEV_MODE'' = JBool False"
    unfolding field_defaults by (simp add: defaultConfig_def)
  then have "field c4 ''DEV_MODE'' = nullish (field p ''DEV_MODE'') (JBool False)"
    unfolding f4 f1 by (simp add: plain_sections_def)
  moreover have "field c4 s = merged p s" if "s \<in> set (plain_sections @ [''BITCOIN'', ''DEV'', ''EPOCH''])" for s
  proof -
    have "''API'' \<notin> set plain_sections" by (simp add: plain_sections_def)
    then show ?thesis using that unfolding f4 f1 by auto
  qed
  moreover have "field c4 ''API'' = merged_API p" unfolding f4 by simp
  ultimately show ?thesis using that r by blast
qed

lemma get_assign: "assign v k u = Inr w \<Longrightarrow> get w j = (if j = k then u else get v j)"
  by (cases v) auto

definition resync_overrides :: "int \<Rightarrow> (string \<times> string \<times> jsval) list" where
  "resync_overrides n =
    [(''DEV'', ''PROCESS_ONLY_X_BLOCK'', JNum (n + 1)),
     (''INDEXER'', ''START_INDEXING_UTXO_AT_BLOCK_HEIGHT'', JNum n),
     (''OP_NET'', ''REINDEX'', JBool True),
     (''OP_NET'', ''REINDEX_FROM_BLOCK'', JNum 0)]"

fun overridden :: "(string \<times> string \<times> jsval) list \<Rightarrow> string \<Rightarrow> string \<Rightarrow> jsval \<Rightarrow> jsval" where
  "overridden [] s k v = v"
| "overridden ((s', k', u) # os) s k v = (if s = s' \<and> k = k' then u else overridden os s k v)"

lemma resync_settings_fields:
  assumes "resync_settings c = Inr c'"
  shows "\<not> js_truthy (get (field c ''DEV'') ''RESYNC_BLOCK_HEIGHTS'') \<and> c' = c \<or>
    js_truthy (get (field c ''DEV'') ''RESYNC_BLOCK_HEIGHTS'') \<and>
    (\<exists>n>0. get (field c ''DEV'') ''RESYNC_BLOCK_HEIGHTS_UNTIL'' = JNum n \<and>
      (\<forall>s k. get (field c' s) k = overridden (resync_overrides n) s k (get (field c s) k)))"
proof (cases "js_truthy (get (field c ''DEV'') ''RESYNC_BLOCK_HEIGHTS'')")
  case True
  then obtain n where n: "get (field c ''DEV'') ''RESYNC_BLOCK_HEIGHTS_UNTIL'' = JNum n" "0 < n"
    using assms by (auto simp: resync_settings_def Let_def split: jsval.splits if_splits)
  obtain dev indexer opnet opnet' where
    w: "assign (field c ''DEV'') ''PROCESS_ONLY_X_BLOCK'' (JNum (n + 1)) = Inr dev"
      "assign (field c ''INDEXER'') ''START_INDEXING_UTXO_AT_BLOCK_HEIGHT'' (JNum n) = Inr indexer"
      "assign (field c ''OP_NET'') ''REINDEX'' (JBool True) = Inr opnet"
      "assign opnet ''REINDEX_FROM_BLOCK'' (JNum 0) = Inr opnet'"
    and c': "c' = AList.update ''OP_NET'' opnet' (AList.update ''INDEXER'' indexer (AList.update ''DEV'' dev c))"
    using assms n True by (auto simp: resync_settings_def Let_def)
  have "get (field c' s) k = overridden (resync_overrides n) s k (get (field c s) k)" for s k
    by (simp add: c' resync_overrides_def w [THEN get_assign])
  then show ?thesis using True n by blast
next
  case False
  then show ?thesis using assms by (simp add: resync_settings_def Let_def)
qed

lemma get_merged:
  assumes "field defaultConfig s = JObj fs" "k \<in> set (map fst fs)"
  shows "get (merged p s) k = nullish (get (field p s) k) (field fs k)"
proof -
  obtain v where "map_of fs k = Some v" using assms(2) by (metis list.set_map map_of_eq_None_iff not_None_eq)
  then show ?thesis using assms(1) by (simp add: merged_def) (simp add: field_def)
qed

subsection \<open>The types of an accepted configuration\<close>

text \<open>The sections with their declared fields, their defaults and their checks.\<close>

definition config_sections :: "(string \<times> (string \<times> ts_type) list \<times> fields \<times> cfg_check list) list" where
  "config_sections =
    [(''DOCS'', DocsConfig_fields, default_DOCS, verify_DOCS),
     (''PLUGINS'', PluginsConfig_fields, default_PLUGINS, verify_PLUGINS),
     (''BLOCKCHAIN'', BlockchainConfig_fields, default_BLOCKCHAIN, verify_BLOCKCHAIN),
     (''INDEXER'', IndexerConfig_fields, default_INDEXER, verify_INDEXER),
     (''RPC'', RPCConfig_fields, default_RPC, verify_RPC),
     (''OP_NET'', OPNetConfig_fields, default_OP_NET, verify_OP_NET),
     (''BITCOIN'', BitcoinConfig_fields, default_BITCOIN, verify_BITCOIN),
     (''POC'', PoC_fields, default_POC, verify_POC),
     (''P2P'', P2P_fields, default_P2P, verify_P2P),
     (''MEMPOOL'', MempoolConfig_fields, default_MEMPOOL, verify_MEMPOOL),
     (''SSH'', SSHConfig_fields, default_SSH, verify_SSH),
     (''EPOCH'', EpochConfigs_fields, default_EPOCH, verify_EPOCH),
     (''DEV'', DevConfig_fields, default_DEV, verify_DEV),
     (''DATABASE_AUTH'', DatabaseAuthSource_fields, default_DATABASE_AUTH, verify_DATABASE_AUTH)]"

definition declared_fields :: "(string \<times> string \<times> ts_type) list" where
  "declared_fields =
     concat (map (\<lambda>(s, decl, _). map (\<lambda>(k, t). (s, k, t)) decl) config_sections)
     @ map (\<lambda>(k, t). (''API'', k, t)) (APIConfig_fields @ APIExtendedConfigurations_fields)"

text \<open>
  What the loader guarantees of a field: its declared type, or, for the fields listed in \<open>exceptions\<close>,
  less. A check guarded by the value lets any false value through (\<open>Declared_or_false\<close>), the negated
  guard any true one (\<open>Declared_or_true\<close>); a test of the kind says nothing of the elements of an array
  or of the members of an enumeration (\<open>Kind_only\<close>); a test with \<open>in\<close> also lets the inherited names
  through (\<open>Declared_or_inherited\<close>), and without a test of the kind any value that prints as such a name
  (\<open>Prints_as_member\<close>). Of the fields that are not checked, or only when the section is enabled, the merge
  still makes sure that they are not missing (\<open>Not_missing\<close>).
\<close>

datatype guarantee = Declared | Declared_or_false | Declared_or_true | Kind_only | Declared_or_inherited
  | Prints_as_member | Not_missing

definition exceptions :: "((string \<times> string) \<times> guarantee) list" where
  "exceptions =
     map (\<lambda>sk. (sk, Declared_or_false))
       ([(''DOCS'', ''ENABLED''), (''INDEXER'', ''ENABLED''), (''SSH'', ''ENABLED'')]
        @ map (Pair ''API'') [''ENABLED'', ''THREADS'', ''MAXIMUM_PENDING_REQUESTS_PER_THREADS'', ''BATCH_PROCESSING_SIZE'',
            ''MAXIMUM_PARALLEL_BLOCK_QUERY'', ''MAXIMUM_REQUESTS_PER_BATCH'', ''MAXIMUM_TRANSACTION_BROADCAST'',
            ''MAXIMUM_PENDING_CALL_REQUESTS'', ''MAXIMUM_PARALLEL_EPOCH_QUERY'', ''EPOCH_CACHE_SIZE'', ''UTXO_LIMIT''])
     @ map (\<lambda>sk. (sk, Kind_only))
       ([(''BITCOIN'', ''CHAIN_ID''), (''BITCOIN'', ''DNS_SEEDS''), (''SSH'', ''ALLOWED_IPS'')]
        @ map (Pair ''P2P'') [''ANNOUNCE_ADDRESSES'', ''NODES'', ''PRIVATE_NODES'', ''BOOTSTRAP_NODES'', ''P2P_PROTOCOL''])
     @ map (\<lambda>sk. (sk, Declared_or_inherited))
       [(''OP_NET'', ''MODE''), (''INDEXER'', ''BLOCK_UPDATE_METHOD''), (''INDEXER'', ''STORAGE_TYPE'')]
     @ map (\<lambda>sk. (sk, Not_missing))
       [(''DOCS'', ''PORT''), (''API'', ''PORT''), (''BLOCKCHAIN'', ''BITCOIND_USERNAME''),
        (''BLOCKCHAIN'', ''BITCOIND_PASSWORD''), (''OP_NET'', ''DISABLE_SCANNED_BLOCK_STORAGE_CHECK''),
        (''P2P'', ''MAXIMUM_INCOMING_PENDING_PEERS'')]
     @ [((''BITCOIN'', ''NETWORK''), Prints_as_member), ((''DEV'', ''SIMULATE_HIGH_GAS_USAGE''), Declared_or_true)]"

definition guarantee_of :: "string \<Rightarrow> string \<Rightarrow> guarantee" where
  "guarantee_of s k = (case map_of exceptions (s, k) of None \<Rightarrow> Declared | Some g \<Rightarrow> g)"

fun base_kind :: "ts_type \<Rightarrow> js_kind" where
  "base_kind T_boolean = K_boolean"
| "base_kind T_number = K_number"
| "base_kind T_string = K_string"
| "base_kind (T_enum ss) = K_string"
| "base_kind (T_numeric_enum ns) = K_number"
| "base_kind (T_array t) = K_array"
| "base_kind (T_optional t) = base_kind t"

fun enum_members :: "ts_type \<Rightarrow> string list" where
  "enum_members (T_enum ss) = ss"
| "enum_members t = []"

fun guaranteed :: "guarantee \<Rightarrow> ts_type \<Rightarrow> jsval \<Rightarrow> bool" where
  "guaranteed Declared t v = has_type t v"
| "guaranteed Declared_or_false t v = (has_type t v \<or> \<not> js_truthy v \<and> v \<noteq> JUndef \<and> v \<noteq> JNull)"
| "guaranteed Declared_or_true t v = (has_type t v \<or> js_truthy v)"
| "guaranteed Kind_only t v = has_kind (base_kind t) v"
| "guaranteed Declared_or_inherited t v =
     (has_type t v \<or> (case v of JStr s \<Rightarrow> s \<in> set Object_prototype | _ \<Rightarrow> False))"
| "guaranteed Prints_as_member t v = has_property (enum_members t) (js_toString v)"
| "guaranteed Not_missing t v = (v \<noteq> JUndef \<and> v \<noteq> JNull)"

text \<open>The types a test of the kind decides.\<close>

fun plain_type :: "ts_type \<Rightarrow> bool" where
  "plain_type (T_optional t) = plain_type t"
| "plain_type t = (t = T_boolean \<or> t = T_number \<or> t = T_string)"

lemma plain_has_type: "plain_type t \<Longrightarrow> has_kind (base_kind t) v \<Longrightarrow> has_type t v"
  by (induction t rule: plain_type.induct) auto

text \<open>
  The checks of a section that give the guarantees, and its defaults have the declared types. The fields
  of \<open>tested_members\<close> are checked by a condition of their own.
\<close>

definition tested_members :: "(string \<times> string \<times> ts_type \<times> fields) list" where
  "tested_members =
    [(''BITCOIN'', ''NETWORK_MAGIC'', T_optional (T_array T_number), default_BITCOIN),
     (''BITCOIN'', ''NETWORK'', T_enum BitcoinNetwork_keys, default_BITCOIN),
     (''OP_NET'', ''MODE'', T_enum OPNetIndexerMode_keys, default_OP_NET),
     (''INDEXER'', ''BLOCK_UPDATE_METHOD'', T_enum BlockUpdateMethods_keys, default_INDEXER),
     (''INDEXER'', ''STORAGE_TYPE'', T_enum IndexerStorageType_keys, default_INDEXER),
     (''DEV'', ''SIMULATE_HIGH_GAS_USAGE'', T_boolean, default_DEV)]"

definition covered_field :: "string \<Rightarrow> cfg_check list \<Rightarrow> string \<Rightarrow> ts_type \<Rightarrow> jsval \<Rightarrow> bool" where
  "covered_field s cs k t d = (case guarantee_of s k of
      Declared \<Rightarrow> plain_type t \<and> (k, base_kind t) \<in> set (strict_fields cs)
    | Declared_or_false \<Rightarrow> plain_type t \<and> (k, base_kind t) \<in> set (guarded_fields cs) \<and> has_kind (base_kind t) d
    | Kind_only \<Rightarrow> (k, base_kind t) \<in> set (strict_fields cs) \<and> has_kind (base_kind t) d
    | Not_missing \<Rightarrow> has_kind (base_kind t) d
    | _ \<Rightarrow> False)"

definition covered :: "string \<Rightarrow> (string \<times> ts_type) list \<Rightarrow> fields \<Rightarrow> cfg_check list \<Rightarrow> bool" where
  "covered s decl dflt cs = list_all (\<lambda>(k, t). k \<in> set (map fst dflt) \<and> has_type t (field dflt k) \<and>
     ((s, k, t, dflt) \<in> set tested_members \<or> covered_field s cs k t (field dflt k))) decl"

lemma sections_covered: "list_all (\<lambda>(s, decl, dflt, cs). covered s decl dflt cs) config_sections"
  by code_simp

lemma API_covered:
  "covered ''API'' (APIConfig_fields @ APIExtendedConfigurations_fields) default_API (verify_API @ verify_API_limits)"
  by code_simp

lemma covered_guaranteed:
  assumes "covered s decl dflt cs" "section_checks p s cs = Inr ()" "(k, t) \<in> set decl"
  shows "k \<in> set (map fst dflt)" "(s, k, t, dflt) \<notin> set tested_members \<Longrightarrow>
    guaranteed (guarantee_of s k) t (nullish (get (get p s) k) (field dflt k))"
proof -
  have c: "k \<in> set (map fst dflt)" "has_type t (field dflt k)"
    "(s, k, t, dflt) \<in> set tested_members \<or> covered_field s cs k t (field dflt k)"
    using assms(1,3) by (auto simp: covered_def list_all_iff)
  show "k \<in> set (map fst dflt)" by (rule c(1))
  assume "(s, k, t, dflt) \<notin> set tested_members"
  then have f: "covered_field s cs k t (field dflt k)" using c(3) by blast
  show "guaranteed (guarantee_of s k) t (nullish (get (get p s) k) (field dflt k))"
  proof (cases "guarantee_of s k")
    case Declared
    then show ?thesis
      using f strict_value [OF assms(2), of k "base_kind t"] c(2) plain_has_type
      by (auto simp: covered_field_def nullish_kind)
  next
    case Declared_or_false
    then have "\<not> js_truthy (get (get p s) k) \<or> has_type t (get (get p s) k)"
      using f guarded_value [OF assms(2), of k "base_kind t"] plain_has_type by (auto simp: covered_field_def)
    then show ?thesis using Declared_or_false c(2) by (auto simp: nullish_def)
  next
    case Kind_only
    then show ?thesis using f strict_kind [OF assms(2)] by (simp add: covered_field_def)
  next
    case Not_missing
    then show ?thesis
      using f has_kind_not_nullish nullish_neither by (fastforce simp: covered_field_def)
  qed (use f in \<open>simp_all add: covered_field_def\<close>)
qed

text \<open>The fields with a condition of their own.\<close>

lemma has_type_enum: "has_type (T_enum ss) v \<longleftrightarrow> (\<exists>n. v = JStr n \<and> n \<in> set ss)"
  by (cases v) auto

lemma enum_guaranteed:
  assumes "section_checks p s cs = Inr ()" "(k, K_string) \<in> set (strict_fields cs)"
    and "Refuse (\<lambda>s. \<not> has_property ss (js_toString (get s k))) m \<in> set cs" "has_type (T_enum ss) d"
  shows "guaranteed Declared_or_inherited (T_enum ss) (nullish (get (get p s) k) d)"
proof (cases "get (get p s) k = JUndef")
  case False
  then obtain n where n: "get (get p s) k = JStr n"
    using strict_value [OF assms(1,2)] by (cases "get (get p s) k") auto
  then have "js_truthy (get p s)" using get_falsy [of "get p s" k] by auto
  then have "has_property ss n" using refuse_value [OF assms(1,3)] n by simp
  then show ?thesis by (auto simp: n nullish_def has_property_def)
qed (use assms(4) in simp)

lemma network_guaranteed:
  assumes "section_checks p ''BITCOIN'' verify_BITCOIN = Inr ()"
  shows "guaranteed Prints_as_member (T_enum BitcoinNetwork_keys)
    (nullish (get (get p ''BITCOIN'') ''NETWORK'') (JStr ''mainnet''))"
proof (cases "get (get p ''BITCOIN'') ''NETWORK'' = JUndef \<or> get (get p ''BITCOIN'') ''NETWORK'' = JNull")
  case True
  then show ?thesis by (auto simp: has_property_def BitcoinNetwork_keys_def)
next
  case False
  then have t: "js_truthy (get p ''BITCOIN'')" using get_falsy [of "get p ''BITCOIN''"] by auto
  have "Refuse (\<lambda>s. get s ''NETWORK'' \<noteq> JUndef \<and> \<not> has_property BitcoinNetwork_keys (js_toString (get s ''NETWORK'')))
      (\<lambda>s. ''Oops the property BITCOIN.NETWORK is not a valid BitcoinNetwork enum value.'') \<in> set verify_BITCOIN"
    unfolding verify_BITCOIN_def by (simp only: list.set insert_iff simp_thms)
  from refuse_value [OF assms this] show ?thesis using t False by (auto simp: nullish_def)
qed

lemma magic_guaranteed:
  assumes "section_checks p ''BITCOIN'' verify_BITCOIN = Inr ()"
  shows "guaranteed Declared (T_optional (T_array T_number))
    (nullish (get (get p ''BITCOIN'') ''NETWORK_MAGIC'') (JArr [] []))"
proof (cases "get (get p ''BITCOIN'') ''NETWORK_MAGIC'' = JUndef")
  case False
  have "(''NETWORK_MAGIC'', K_array) \<in> set (strict_fields verify_BITCOIN)" by code_simp
  then obtain xs ps where a: "get (get p ''BITCOIN'') ''NETWORK_MAGIC'' = JArr xs ps"
    using strict_value [OF assms] False by (cases "get (get p ''BITCOIN'') ''NETWORK_MAGIC''") fastforce+
  then have t: "js_truthy (get p ''BITCOIN'')" using get_falsy [of "get p ''BITCOIN''" "''NETWORK_MAGIC''"] by auto
  have "Refuse (\<lambda>s. list_ex (\<lambda>magic. \<not> has_kind K_number magic) (elements (get s ''NETWORK_MAGIC'')))
      (\<lambda>s. ''Oops the property BITCOIN.NETWORK_MAGIC is not an array of numbers.'') \<in> set verify_BITCOIN"
    unfolding verify_BITCOIN_def by (simp only: list.set insert_iff simp_thms)
  from refuse_value [OF assms this] show ?thesis
    using t by (simp add: a nullish_def list_all_iff list_ex_iff)
qed simp

lemma simulate_guaranteed:
  assumes "section_checks p ''DEV'' verify_DEV = Inr ()"
  shows "guaranteed Declared_or_true T_boolean (nullish (get (get p ''DEV'') ''SIMULATE_HIGH_GAS_USAGE'') (JBool False))"
proof -
  have "Refuse (\<lambda>s. \<not> js_truthy (get s ''SIMULATE_HIGH_GAS_USAGE'') \<and> \<not> has_kind K_boolean (get s ''SIMULATE_HIGH_GAS_USAGE''))
       (\<lambda>s. ''Oops the property DEV.SIMULATE_HIGH_GAS_USAGE is not a boolean.'') \<in> set verify_DEV"
    unfolding verify_DEV_def by (simp only: list.set insert_iff simp_thms)
  from refuse_value [OF assms this] show ?thesis
    using get_falsy [of "get p ''DEV''" "''SIMULATE_HIGH_GAS_USAGE''"] by (auto simp: nullish_def)
qed

lemma members_guaranteed:
  assumes "all_checks p = Inr ()" "(s, k, t, dflt) \<in> set tested_members"
  shows "guaranteed (guarantee_of s k) t (nullish (get (get p s) k) (field dflt k))"
proof -
  have cs: "section_checks p ''BITCOIN'' verify_BITCOIN = Inr ()" "section_checks p ''OP_NET'' verify_OP_NET = Inr ()"
    "section_checks p ''INDEXER'' verify_INDEXER = Inr ()" "section_checks p ''DEV'' verify_DEV = Inr ()"
    using assms(1) by (simp_all add: all_checks_def run_all_ok)
  have g: "guarantee_of ''BITCOIN'' ''NETWORK_MAGIC'' = Declared" "guarantee_of ''BITCOIN'' ''NETWORK'' = Prints_as_member"
    "guarantee_of ''OP_NET'' ''MODE'' = Declared_or_inherited"
    "guarantee_of ''INDEXER'' ''BLOCK_UPDATE_METHOD'' = Declared_or_inherited"
    "guarantee_of ''INDEXER'' ''STORAGE_TYPE'' = Declared_or_inherited"
    "guarantee_of ''DEV'' ''SIMULATE_HIGH_GAS_USAGE'' = Declared_or_true"
    by code_simp+
  have d: "field default_BITCOIN ''NETWORK_MAGIC'' = JArr [] []" "field default_BITCOIN ''NETWORK'' = JStr ''mainnet''"
    "field default_DEV ''SIMULATE_HIGH_GAS_USAGE'' = JBool False"
    by code_simp+
  have dt: "has_type (T_enum OPNetIndexerMode_keys) (field default_OP_NET ''MODE'')"
    "has_type (T_enum BlockUpdateMethods_keys) (field default_INDEXER ''BLOCK_UPDATE_METHOD'')"
    "has_type (T_enum IndexerStorageType_keys) (field default_INDEXER ''STORAGE_TYPE'')"
    by code_simp+
  have st: "(''MODE'', K_string) \<in> set (strict_fields verify_OP_NET)"
    "(''BLOCK_UPDATE_METHOD'', K_string) \<in> set (strict_fields verify_INDEXER)"
    "(''STORAGE_TYPE'', K_string) \<in> set (strict_fields verify_INDEXER)"
    by code_simp+
  have "guaranteed Declared_or_inherited (T_enum OPNetIndexerMode_keys)
      (nullish (get (get p ''OP_NET'') ''MODE'') (field default_OP_NET ''MODE''))"
    by (rule enum_guaranteed [OF cs(2) st(1) _ dt(1),
          where m = "\<lambda>s. ''Oops the property OP_NET.MODE is not a valid OPNetIndexerMode enum value.''"])
      (unfold verify_OP_NET_def, simp only: list.set insert_iff simp_thms)
  moreover have "guaranteed Declared_or_inherited (T_enum BlockUpdateMethods_keys)
      (nullish (get (get p ''INDEXER'') ''BLOCK_UPDATE_METHOD'') (field default_INDEXER ''BLOCK_UPDATE_METHOD''))"
    by (rule enum_guaranteed [OF cs(3) st(2) _ dt(2),
          where m = "\<lambda>s. ''Oops the property INDEXER.BLOCK_UPDATE_METHOD is not a valid BlockUpdateMethods enum value.''"])
      (unfold verify_INDEXER_def, simp only: list.set insert_iff simp_thms)
  moreover have "guaranteed Declared_or_inherited (T_enum IndexerStorageType_keys)
      (nullish (get (get p ''INDEXER'') ''STORAGE_TYPE'') (field default_INDEXER ''STORAGE_TYPE''))"
    by (rule enum_guaranteed [OF cs(3) st(3) _ dt(3),
          where m = "\<lambda>s. ''Oops the property INDEXER.STORAGE_TYPE is not a valid IndexerStorageType enum value.''"])
      (unfold verify_INDEXER_def, simp only: list.set insert_iff simp_thms)
  moreover note network_guaranteed [OF cs(1), folded d(2)] magic_guaranteed [OF cs(1), folded d(1)]
    simulate_guaranteed [OF cs(4), folded d(3)]
  ultimately show ?thesis
    using assms(2) unfolding tested_members_def list.set insert_iff empty_iff prod.inject
    by (elim disjE conjE FalseE) (simp_all only: g)
qed

lemma overridden_either: "overridden os s k v = v \<or> (s, k, overridden os s k v) \<in> set os"
  by (induction os s k v rule: overridden.induct) auto

fun kind_of :: "jsval \<Rightarrow> js_kind option" where
  "kind_of (JBool b) = Some K_boolean"
| "kind_of (JNum n) = Some K_number"
| "kind_of (JStr s) = Some K_string"
| "kind_of (JArr xs ps) = Some K_array"
| "kind_of v = None"

lemma has_kind_iff: "has_kind t v \<longleftrightarrow> kind_of v = Some t"
  by (cases t; cases v) auto

definition override_kinds :: "(string \<times> string \<times> js_kind option) list" where
  "override_kinds = map (\<lambda>(s, k, u). (s, k, kind_of u)) (resync_overrides 0)"

lemma override_kinds_eq: "map (\<lambda>(s, k, u). (s, k, kind_of u)) (resync_overrides n) = override_kinds"
  by (simp add: override_kinds_def resync_overrides_def)

lemma override_kinds_declared:
  "list_all (\<lambda>(s, k, t). list_all (\<lambda>(s', k', u). (s, k) = (s', k') \<longrightarrow>
     guarantee_of s k = Declared \<and> plain_type t \<and> u = Some (base_kind t)) override_kinds) declared_fields"
  by code_simp

lemma overridden_type:
  assumes "guaranteed (guarantee_of s k) t v" "(s, k, t) \<in> set declared_fields"
  shows "guaranteed (guarantee_of s k) t (overridden (resync_overrides n) s k v)"
proof -
  have "guaranteed (guarantee_of s k) t u" if "(s, k, u) \<in> set (resync_overrides n)" for u
  proof -
    have "(s, k, kind_of u) \<in> set override_kinds"
      using imageI [OF that, of "\<lambda>(s, k, u). (s, k, kind_of u)"]
      by (simp add: override_kinds_eq [of n, symmetric])
    then have "guarantee_of s k = Declared" "plain_type t" "has_kind (base_kind t) u"
      using assms(2) override_kinds_declared by (fastforce simp: list_all_iff has_kind_iff)+
    then show ?thesis by (simp add: plain_has_type)
  qed
  then show ?thesis
    using assms(1) overridden_either [of "resync_overrides n" s k v] by metis
qed

lemma all_checks_sections:
  assumes "all_checks p = Inr ()" "(s, decl, dflt, cs) \<in> set config_sections"
  shows "section_checks p s cs = Inr ()"
  using assms by (auto simp: all_checks_def run_all_ok config_sections_def)

lemma all_checks_API:
  assumes "all_checks p = Inr ()"
  shows "section_checks p ''API'' (verify_API @ verify_API_limits) = Inr ()"
    "section_checks (get p ''API'') ''WEBSOCKET'' verifyWebSocketConfig = Inr ()"
    "section_checks (get p ''API'') ''MEMPOOL'' verifyAPIMempoolConfig = Inr ()"
proof -
  have a: "section_checks p ''API'' verify_API = Inr ()" "check_API p = Inr ()"
    using assms by (auto simp: all_checks_def run_all_ok)
  then show "section_checks p ''API'' (verify_API @ verify_API_limits) = Inr ()"
    by (auto simp: section_checks_ok check_API_def run_checks_ok split: if_splits)
  show "section_checks (get p ''API'') ''WEBSOCKET'' verifyWebSocketConfig = Inr ()"
    "section_checks (get p ''API'') ''MEMPOOL'' verifyAPIMempoolConfig = Inr ()"
    using a(2) by (auto simp: check_API_def section_checks_def get_falsy split: if_splits)
qed

lemma encode_password_field: "encode_password p = Inr p' \<Longrightarrow> s \<noteq> ''DATABASE'' \<Longrightarrow> field p' s = field p s"
  by (auto simp: encode_password_def Let_def split: if_splits)

lemma section_defaults:
  "list_all (\<lambda>(s, decl, dflt, cs). field defaultConfig s = JObj dflt \<and>
     s \<in> set (plain_sections @ [''BITCOIN'', ''DEV'', ''EPOCH'']) \<and> s \<noteq> ''DATABASE'') config_sections"
  by code_simp

lemma section_default:
  assumes "(s, decl, dflt, cs) \<in> set config_sections"
  shows "field defaultConfig s = JObj dflt" "s \<in> set (plain_sections @ [''BITCOIN'', ''DEV'', ''EPOCH''])"
    "s \<noteq> ''DATABASE''"
  using bspec [OF section_defaults [unfolded list_all_iff] assms] by auto

lemma declared_fields_cases:
  assumes "(s, k, t) \<in> set declared_fields"
  obtains decl dflt cs where "(s, decl, dflt, cs) \<in> set config_sections" "(k, t) \<in> set decl"
  | "s = ''API''" "(k, t) \<in> set (APIConfig_fields @ APIExtendedConfigurations_fields)"
  using assms unfolding declared_fields_def by auto

lemma nested_covered:
  "covered ''WEBSOCKET'' WebSocketConfig_fields default_API_WEBSOCKET verifyWebSocketConfig"
  "covered ''MEMPOOL'' APIMempoolConfig_fields default_API_MEMPOOL verifyAPIMempoolConfig"
  by code_simp+

lemma nested_declared:
  "list_all (\<lambda>(k, t). guarantee_of ''WEBSOCKET'' k = Declared \<and>
     (''WEBSOCKET'', k, t, default_API_WEBSOCKET) \<notin> set tested_members) WebSocketConfig_fields"
  "list_all (\<lambda>(k, t). guarantee_of ''MEMPOOL'' k = Declared \<and>
     (''MEMPOOL'', k, t, default_API_MEMPOOL) \<notin> set tested_members) APIMempoolConfig_fields"
  by code_simp+

lemma field_map: "field (map (\<lambda>k. (k, f k)) ks) k = (if k \<in> set ks then f k else JUndef)"
  by (induction ks) (auto simp: field_def)

lemma get_mergedWs:
  assumes "(k, t) \<in> set WebSocketConfig_fields"
  shows "get (mergedWsConfig ws d) k = nullish (get ws k) (get d k)"
proof -
  have "fst (k, t) \<in> set (map fst WebSocketConfig_fields)" using assms by force
  then show ?thesis
    by (simp only: mergedWsConfig_def get.simps field_map) (simp add: WebSocketConfig_fields_def)
qed

lemma get_mergedMempool:
  assumes "(k, t) \<in> set APIMempoolConfig_fields"
  shows "get (mergedMempoolConfig mp d) k = nullish (get mp k) (get d k)"
proof -
  have "fst (k, t) \<in> set (map fst APIMempoolConfig_fields)" using assms by force
  then show ?thesis
    by (simp only: mergedMempoolConfig_def get.simps field_map) (simp add: APIMempoolConfig_fields_def)
qed

lemma covered_has_type:
  assumes "covered s decl dflt cs" "section_checks p s cs = Inr ()" "(k, t) \<in> set decl"
    "list_all (\<lambda>(k, t). guarantee_of s k = Declared \<and> (s, k, t, dflt) \<notin> set tested_members) decl"
  shows "has_type t (nullish (get (get p s) k) (field dflt k))"
  using covered_guaranteed(2) [OF assms(1-3)] bspec [OF assms(4) [unfolded list_all_iff] assms(3)] by simp

lemma resync_other:
  "resync_settings c = Inr c' \<Longrightarrow> s \<notin> {''DEV'', ''INDEXER'', ''OP_NET''} \<Longrightarrow> field c' s = field c s"
  by (auto simp: resync_settings_def Let_def split: if_splits jsval.splits)

lemma get_merged_API:
  assumes "(k, t) \<in> set (APIConfig_fields @ APIExtendedConfigurations_fields)" "k \<in> set (map fst default_API)"
  shows "get (merged_API p) k = nullish (get (field p ''API'') k) (field default_API k)"
proof -
  have "list_all (\<lambda>(k, t). k \<noteq> ''WEBSOCKET'' \<and> k \<noteq> ''MEMPOOL'') (APIConfig_fields @ APIExtendedConfigurations_fields)"
    by code_simp
  then have "k \<noteq> ''WEBSOCKET''" "k \<noteq> ''MEMPOOL''" using assms(1) by (auto simp: list_all_iff)
  moreover obtain v where "map_of default_API k = Some v"
    using assms(2) by (metis list.set_map map_of_eq_None_iff not_None_eq)
  ultimately show ?thesis
    by (simp only: merged_API_def get.simps field_update field_merge if_False option.case get_or_empty)
      (simp add: field_def)
qed

lemma API_not_tested: "list_all (\<lambda>(s, k, t, dflt). s \<noteq> ''API'') tested_members"
  by code_simp

lemma sections_typed:
  assumes "all_checks (JObj p) = Inr ()" "(s, k, t) \<in> set declared_fields"
    and "\<And>s. s \<in> set (plain_sections @ [''BITCOIN'', ''DEV'', ''EPOCH'']) \<Longrightarrow> s \<noteq> ''DATABASE'' \<Longrightarrow> field c s = merged p s"
    and "field c ''API'' = merged_API p"
  shows "guaranteed (guarantee_of s k) t (get (field c s) k)"
  using assms(2)
proof (cases rule: declared_fields_cases)
  case (1 decl dflt cs)
  have "covered s decl dflt cs" using 1(1) sections_covered by (auto simp: list_all_iff)
  note typed = covered_guaranteed [OF this all_checks_sections [OF assms(1) 1(1)] 1(2)]
  have "guaranteed (guarantee_of s k) t (nullish (get (get (JObj p) s) k) (field dflt k))"
    using typed(2) members_guaranteed [OF assms(1)] by blast
  then show ?thesis
    using assms(3) [OF section_default(2,3) [OF 1(1)]] get_merged [OF section_default(1) [OF 1(1)] typed(1)]
    by simp
next
  case 2
  note typed = covered_guaranteed [OF API_covered all_checks_API(1) [OF assms(1)] 2(2)]
  have "(''API'', k, t, default_API) \<notin> set tested_members" using API_not_tested by (auto simp: list_all_iff)
  then show ?thesis using typed(2) get_merged_API [OF 2(2) typed(1)] by (simp add: 2(1) assms(4))
qed

lemma verifyConfig_cases:
  assumes "verifyConfig super_verify file m = Inr (p, m1)"
  obtains q where "\<not> cm_verifiedConfig m" "super_verify file = Inr q" "all_checks (JObj q) = Inr ()"
    "encode_password q = Inr p" "m1 = m\<lparr>cm_verifiedConfig := True\<rparr>"
    "\<And>s. s \<noteq> ''DATABASE'' \<Longrightarrow> field p s = field q s \<and> merged p s = merged q s" "merged_API p = merged_API q"
proof -
  obtain q where q: "\<not> cm_verifiedConfig m" "super_verify file = Inr q" "all_checks (JObj q) = Inr ()"
    "encode_password q = Inr p" "m1 = m\<lparr>cm_verifiedConfig := True\<rparr>"
    using assms by (auto simp: verifyConfig_def split: if_splits)
  have f: "field p s = field q s" if "s \<noteq> ''DATABASE''" for s by (rule encode_password_field [OF q(4) that])
  have "field p s = field q s \<and> merged p s = merged q s" if "s \<noteq> ''DATABASE''" for s
    unfolding merged_def f [OF that] by simp
  moreover have "merged_API p = merged_API q" using f [of "''API''"] by (simp add: merged_API_def)
  ultimately show ?thesis using that [OF q] by blast
qed

lemma DEV_MODE_checked: "all_checks (JObj p) = Inr () \<Longrightarrow> has_kind K_boolean (nullish (field p ''DEV_MODE'') (JBool False))"
  by (auto simp: all_checks_def run_all_ok check_DEV_MODE_def nullish_def split: if_splits)

text \<open>
  C36: When the loader accepts a configuration file, every field the interfaces of
  \<open>IBtcIndexerConfig.ts\<close> declare holds, in the merged configuration, a value of its declared type,
  enumerations, element types of arrays and optional properties included, except for the fields listed in
  \<open>exceptions\<close>, each with what the loader still guarantees: any false value beside the type, only the
  kind of the value (an array with any elements, any number or string for an enumeration), an inherited
  name beside the enumeration, a value that prints as a network name, any true value beside the type, or
  only that the field is not missing. The nested WEBSOCKET and MEMPOOL sections of the API and DEV_MODE have
  their declared types without exception. This holds for any behaviour of the base class and also when the
  settings of a resynchronisation replace fields.
\<close>

theorem accepted_config_types:
  assumes "verifyConfig super_verify file m = Inr (p, m1)"
    and "parsePartialConfig super_parse super_default p m1 = Inr m2"
  shows "(\<forall>(s, k, t)\<in>set declared_fields. guaranteed (guarantee_of s k) t (get (field (cm_config m2) s) k)) \<and>
         (\<forall>(k, t)\<in>set WebSocketConfig_fields. has_type t (get (get (field (cm_config m2) ''API'') ''WEBSOCKET'') k)) \<and>
         (\<forall>(k, t)\<in>set APIMempoolConfig_fields. has_type t (get (get (field (cm_config m2) ''API'') ''MEMPOOL'') k)) \<and>
         has_type T_boolean (field (cm_config m2) ''DEV_MODE'')"
proof -
  obtain q where q: "all_checks (JObj q) = Inr ()" "merged_API p = merged_API q"
    "\<And>s. s \<noteq> ''DATABASE'' \<Longrightarrow> field p s = field q s \<and> merged p s = merged q s"
    using verifyConfig_cases [OF assms(1)] by metis
  obtain c where c: "parseConfig super_default p c = Inr (cm_config m2)"
    using assms(2) by (auto simp: parsePartialConfig_def)
  obtain c1 where r: "resync_settings c1 = Inr (cm_config m2)"
    and c1: "\<And>s. s \<in> set (plain_sections @ [''BITCOIN'', ''DEV'', ''EPOCH'']) \<Longrightarrow> field c1 s = merged p s"
      "field c1 ''API'' = merged_API p" "field c1 ''DEV_MODE'' = nullish (field p ''DEV_MODE'') (JBool False)"
    using parseConfig_sections [of super_default p c] c by metis
  have "guaranteed (guarantee_of s k) t (get (field (cm_config m2) s) k)" if "(s, k, t) \<in> set declared_fields" for s k t
    using sections_typed [OF q(1) that, of c1] overridden_type [OF _ that] resync_settings_fields [OF r] c1 q(2,3)
    by auto
  moreover have api: "field (cm_config m2) ''API'' = merged_API q" using resync_other [OF r] c1(2) q(2) by simp
  have "has_type t (get (get (merged_API q) ''WEBSOCKET'') k)" if "(k, t) \<in> set WebSocketConfig_fields" for k t
    using covered_has_type [OF nested_covered(1) all_checks_API(2) [OF q(1)] that nested_declared(1)] get_mergedWs [OF that]
    by (simp add: merged_API_def)
  moreover have "has_type t (get (get (merged_API q) ''MEMPOOL'') k)" if "(k, t) \<in> set APIMempoolConfig_fields" for k t
    using covered_has_type [OF nested_covered(2) all_checks_API(3) [OF q(1)] that nested_declared(2)] get_mergedMempool [OF that]
    by (simp add: merged_API_def)
  moreover have "has_type T_boolean (field (cm_config m2) ''DEV_MODE'')"
    using resync_other [OF r, of "''DEV_MODE''"] c1(3) q(3) DEV_MODE_checked [OF q(1)] by simp
  ultimately show ?thesis unfolding api by auto
qed

definition sample_file :: fields where
  "sample_file =
    [(''BLOCKCHAIN'', JObj [(''BITCOIND_HOST'', JStr ''127.0.0.1''), (''BITCOIND_PORT'', JNum 8332)]),
     (''DATABASE'', JObj [(''AUTH'', JObj [(''USERNAME'', JStr ''op''), (''PASSWORD'', JStr ''a/b'')])]),
     (''API'', JObj [(''ENABLED'', JBool True), (''PORT'', JNum 9001), (''UTXO_LIMIT'', JBool False)]),
     (''DEV'', JObj [(''SIMULATE_HIGH_GAS_USAGE'', JBool False), (''RESYNC_BLOCK_HEIGHTS'', JBool True),
        (''RESYNC_BLOCK_HEIGHTS_UNTIL'', JNum 100)])]"

definition sample_loader :: BtcIndexerConfigManager where
  "sample_loader = \<lparr>cm_config = [], cm_verifiedConfig = False\<rparr>"

definition sample_parsed :: "fields \<times> BtcIndexerConfigManager" where
  "sample_parsed = (case verifyConfig Inr sample_file sample_loader of Inr r \<Rightarrow> r | Inl e \<Rightarrow> ([], sample_loader))"

definition sample_config :: BtcIndexerConfigManager where
  "sample_config = (case parsePartialConfig (\<lambda>p c. Inr c) [] (fst sample_parsed) (snd sample_parsed) of
     Inr m \<Rightarrow> m | Inl e \<Rightarrow> sample_loader)"

lemma sample_run:
  "case verifyConfig Inr sample_file sample_loader of
     Inl e \<Rightarrow> False
   | Inr (p, m1) \<Rightarrow>
       (case parsePartialConfig (\<lambda>p c. Inr c) [] p m1 of
          Inl e \<Rightarrow> False
        | Inr m2 \<Rightarrow> get (field (cm_config m2) ''DEV'') ''PROCESS_ONLY_X_BLOCK'' = JNum 101 \<and>
            get (field (cm_config m2) ''API'') ''UTXO_LIMIT'' = JBool False \<and>
            js_truthy (get (merged p ''DEV'') ''RESYNC_BLOCK_HEIGHTS''))"
  by code_simp

lemma sample_verified: "verifyConfig Inr sample_file sample_loader = Inr (fst sample_parsed, snd sample_parsed)"
  using sample_run by (auto simp: sample_parsed_def split: sum.splits)

lemma sample_merged:
  "parsePartialConfig (\<lambda>p c. Inr c) [] (fst sample_parsed) (snd sample_parsed) = Inr sample_config"
proof -
  obtain p m1 where pm: "sample_parsed = (p, m1)" by (cases sample_parsed)
  show ?thesis
    using sample_run sample_verified by (auto simp: sample_config_def pm split: sum.splits)
qed

lemma sample_values:
  "get (field (cm_config sample_config) ''DEV'') ''PROCESS_ONLY_X_BLOCK'' = JNum 101 \<and>
   get (field (cm_config sample_config) ''API'') ''UTXO_LIMIT'' = JBool False \<and>
   js_truthy (get (merged (fst sample_parsed) ''DEV'') ''RESYNC_BLOCK_HEIGHTS'')"
proof -
  obtain p m1 where pm: "sample_parsed = (p, m1)" by (cases sample_parsed)
  show ?thesis using sample_run sample_verified sample_merged by (simp add: pm)
qed

lemma sample_field_declared:
  "(''DEV'', ''PROCESS_ONLY_X_BLOCK'', T_number) \<in> set declared_fields \<and>
   guarantee_of ''DEV'' ''PROCESS_ONLY_X_BLOCK'' = Declared \<and>
   (''OP_NET'', ''MODE'', T_enum OPNetIndexerMode_keys) \<in> set declared_fields"
  by code_simp

theorem accepted_config_types_witness:
  "guaranteed Declared T_number (get (field (cm_config sample_config) ''DEV'') ''PROCESS_ONLY_X_BLOCK'') \<and>
   get (field (cm_config sample_config) ''DEV'') ''PROCESS_ONLY_X_BLOCK'' = JNum 101 \<and>
   guaranteed (guarantee_of ''OP_NET'' ''MODE'') (T_enum OPNetIndexerMode_keys)
     (get (field (cm_config sample_config) ''OP_NET'') ''MODE'') \<and>
   get (field (cm_config sample_config) ''API'') ''UTXO_LIMIT'' = JBool False"
proof -
  have "guaranteed (guarantee_of s k) t (get (field (cm_config sample_config) s) k)"
    if "(s, k, t) \<in> set declared_fields" for s k t
    using accepted_config_types [OF sample_verified sample_merged] that by blast
  from this [of "''DEV''" "''PROCESS_ONLY_X_BLOCK''" T_number]
    this [of "''OP_NET''" "''MODE''" "T_enum OPNetIndexerMode_keys"]
  show ?thesis using sample_field_declared sample_values by simp
qed

lemma number_value: "has_kind K_number v \<Longrightarrow> \<exists>n. v = JNum n"
  by (cases v) auto

lemma resync_height_number:
  assumes "verifyConfig super_verify file m = Inr (p, m1)"
  obtains n where "get (merged p ''DEV'') ''RESYNC_BLOCK_HEIGHTS_UNTIL'' = JNum n"
proof -
  obtain q where q: "all_checks (JObj q) = Inr ()" "merged p ''DEV'' = merged q ''DEV''"
  proof (rule verifyConfig_cases [OF assms])
    fix q assume "all_checks (JObj q) = Inr ()"
      "\<And>s. s \<noteq> ''DATABASE'' \<Longrightarrow> field p s = field q s \<and> merged p s = merged q s"
    then show thesis using that [of q] by simp
  qed
  have m: "(''RESYNC_BLOCK_HEIGHTS_UNTIL'', K_number) \<in> set (strict_fields verify_DEV)" by code_simp
  have "section_checks (JObj q) ''DEV'' verify_DEV = Inr ()"
    using q(1) by (auto simp: all_checks_def run_all_ok)
  from strict_kind [OF this m]
  have "has_kind K_number (nullish (get (get (JObj q) ''DEV'') ''RESYNC_BLOCK_HEIGHTS_UNTIL'') (JNum 0))" by simp
  moreover have "get (merged q ''DEV'') ''RESYNC_BLOCK_HEIGHTS_UNTIL'' =
      nullish (get (get (JObj q) ''DEV'') ''RESYNC_BLOCK_HEIGHTS_UNTIL'') (JNum 0)"
    using get_merged [of "''DEV''" default_DEV "''RESYNC_BLOCK_HEIGHTS_UNTIL''" q]
    by (simp add: default_sections default_DEV_def)
  ultimately show ?thesis using that q(2) number_value by metis
qed

lemma merged_section: "s \<in> set (plain_sections @ [''BITCOIN'', ''DEV'', ''EPOCH'']) \<Longrightarrow> \<exists>fs. merged p s = JObj fs"
proof -
  assume "s \<in> set (plain_sections @ [''BITCOIN'', ''DEV'', ''EPOCH''])"
  then obtain fs where "field defaultConfig s = JObj fs"
    using plain_defaults [of s] by (auto simp: defaultConfig_def field_def)
  then show ?thesis by (simp add: merged_def)
qed

text \<open>A field of a section with defaults: the file's value, or the default when the file has none.\<close>

definition file_or_default :: "jsval \<Rightarrow> fields \<Rightarrow> string \<Rightarrow> jsval" where
  "file_or_default sec dflt k = (if k \<in> set (map fst dflt) then nullish (get sec k) (field dflt k) else JUndef)"

lemma merge_fields_file_or_default: "field (merge_fields (or_empty sec) dflt) k = file_or_default sec dflt k"
proof (cases "map_of dflt k")
  case None
  then have "k \<notin> set (map fst dflt)" by (simp add: map_of_eq_None_iff)
  then show ?thesis using None by (simp add: file_or_default_def)
next
  case (Some d)
  then have "k \<in> set (map fst dflt)" by (force dest: map_of_SomeD)
  then show ?thesis using Some by (simp add: file_or_default_def) (simp add: field_def)
qed

lemma merged_file_or_default:
  "field defaultConfig s = JObj dflt \<Longrightarrow> get (merged p s) k = file_or_default (field p s) dflt k"
  by (simp only: merged_def jsval.case get.simps merge_fields_file_or_default)

lemma merged_Ws_file_or_default:
  "get (mergedWsConfig ws (JObj default_API_WEBSOCKET)) k = file_or_default ws default_API_WEBSOCKET k"
proof -
  have "[''ENABLED'', ''MAX_CONNECTIONS'', ''IDLE_TIMEOUT'', ''MAX_PAYLOAD_SIZE'', ''MAX_PENDING_REQUESTS'',
      ''REQUEST_TIMEOUT'', ''MAX_REQUESTS_PER_SECOND'', ''MAX_SUBSCRIPTIONS''] = map fst default_API_WEBSOCKET"
    by code_simp
  then show ?thesis by (simp only: mergedWsConfig_def get.simps field_map file_or_default_def)
qed

lemma merged_Mempool_file_or_default:
  "get (mergedMempoolConfig mp (JObj default_API_MEMPOOL)) k = file_or_default mp default_API_MEMPOOL k"
proof -
  have "[''MAX_ADDRESSES'', ''DEFAULT_LIMIT'', ''MAX_LIMIT''] = map fst default_API_MEMPOOL" by code_simp
  then show ?thesis by (simp only: mergedMempoolConfig_def get.simps field_map file_or_default_def)
qed

lemma merged_API_nested:
  "get (merged_API p) ''WEBSOCKET'' = mergedWsConfig (get (field p ''API'') ''WEBSOCKET'') (JObj default_API_WEBSOCKET)"
  "get (merged_API p) ''MEMPOOL'' = mergedMempoolConfig (get (field p ''API'') ''MEMPOOL'') (JObj default_API_MEMPOOL)"
  by (simp_all add: merged_API_def)

lemma merged_API_file_or_default:
  "k \<noteq> ''WEBSOCKET'' \<Longrightarrow> k \<noteq> ''MEMPOOL'' \<Longrightarrow> get (merged_API p) k = file_or_default (field p ''API'') default_API k"
  by (simp only: merged_API_def get.simps field_update if_False merge_fields_file_or_default)

lemma default_DEV_values:
  "get (merged p ''DEV'') ''RESYNC_BLOCK_HEIGHTS'' = nullish (get (field p ''DEV'') ''RESYNC_BLOCK_HEIGHTS'') (JBool False)"
  "get (merged p ''DEV'') ''RESYNC_BLOCK_HEIGHTS_UNTIL'' =
     nullish (get (field p ''DEV'') ''RESYNC_BLOCK_HEIGHTS_UNTIL'') (JNum 0)"
proof -
  have d: "field defaultConfig ''DEV'' = JObj default_DEV" by code_simp
  have k: "''RESYNC_BLOCK_HEIGHTS'' \<in> set (map fst default_DEV)" "''RESYNC_BLOCK_HEIGHTS_UNTIL'' \<in> set (map fst default_DEV)"
    and v: "field default_DEV ''RESYNC_BLOCK_HEIGHTS'' = JBool False"
      "field default_DEV ''RESYNC_BLOCK_HEIGHTS_UNTIL'' = JNum 0" by code_simp+
  show "get (merged p ''DEV'') ''RESYNC_BLOCK_HEIGHTS'' = nullish (get (field p ''DEV'') ''RESYNC_BLOCK_HEIGHTS'') (JBool False)"
    "get (merged p ''DEV'') ''RESYNC_BLOCK_HEIGHTS_UNTIL'' =
       nullish (get (field p ''DEV'') ''RESYNC_BLOCK_HEIGHTS_UNTIL'') (JNum 0)"
    using get_merged [OF d k(1)] get_merged [OF d k(2)] by (simp_all only: v)
qed

text \<open>Every section of the defaults is merged, the API by its own rule.\<close>

lemma default_sections_merged:
  "list_all (\<lambda>(s, v). (case v of JObj dflt \<Rightarrow> field defaultConfig s = v \<and>
       (s = ''API'' \<and> dflt = default_API \<or> s \<in> set (plain_sections @ [''BITCOIN'', ''DEV'', ''EPOCH'']))
     | _ \<Rightarrow> s = ''DEV_MODE'' \<and> v = JBool False)) defaultConfig"
  by code_simp

lemma default_section_merged:
  assumes "(s, JObj dflt) \<in> set defaultConfig"
  shows "field defaultConfig s = JObj dflt"
    "s = ''API'' \<and> dflt = default_API \<or> s \<in> set (plain_sections @ [''BITCOIN'', ''DEV'', ''EPOCH''])"
  using bspec [OF default_sections_merged [unfolded list_all_iff] assms] by simp_all

text \<open>
  What the merge of the file \<open>p\<close> gives, with the given fields replaced: every field of every section is the
  file's value or the default, the sections of the API included, and nothing else is taken over.
\<close>

definition file_over_defaults :: "fields \<Rightarrow> (string \<times> string \<times> jsval) list \<Rightarrow> fields \<Rightarrow> bool" where
  "file_over_defaults p overrides c \<longleftrightarrow>
     (\<forall>s dflt k. (s, JObj dflt) \<in> set defaultConfig \<longrightarrow> \<not> (s = ''API'' \<and> k \<in> {''WEBSOCKET'', ''MEMPOOL''}) \<longrightarrow>
        get (field c s) k = overridden overrides s k (file_or_default (field p s) dflt k)) \<and>
     (\<forall>k. get (get (field c ''API'') ''WEBSOCKET'') k =
        file_or_default (get (field p ''API'') ''WEBSOCKET'') default_API_WEBSOCKET k) \<and>
     (\<forall>k. get (get (field c ''API'') ''MEMPOOL'') k =
        file_or_default (get (field p ''API'') ''MEMPOOL'') default_API_MEMPOOL k) \<and>
     field c ''DEV_MODE'' = nullish (field p ''DEV_MODE'') (JBool False)"

lemma overridden_API: "os = resync_overrides n \<or> os = [] \<Longrightarrow> overridden os ''API'' k v = v"
  by (auto simp: resync_overrides_def)

lemma merged_over_defaults:
  assumes c1: "\<And>s. s \<in> set (plain_sections @ [''BITCOIN'', ''DEV'', ''EPOCH'']) \<Longrightarrow> field c1 s = merged p s"
    "field c1 ''API'' = merged_API p" "field c1 ''DEV_MODE'' = nullish (field p ''DEV_MODE'') (JBool False)"
    and r: "resync_settings c1 = Inr c" and os: "os = resync_overrides n \<or> os = []"
    and c: "\<And>s k. get (field c s) k = overridden os s k (get (field c1 s) k)"
  shows "file_over_defaults p os c"
proof -
  have api: "field c ''API'' = merged_API p" using resync_other [OF r, of "''API''"] c1(2) by simp
  have "get (field c s) k = overridden os s k (file_or_default (field p s) dflt k)"
    if s: "(s, JObj dflt) \<in> set defaultConfig" and k: "\<not> (s = ''API'' \<and> k \<in> {''WEBSOCKET'', ''MEMPOOL''})" for s dflt k
    using default_section_merged(2) [OF s]
  proof
    assume a: "s = ''API'' \<and> dflt = default_API"
    with k have "k \<noteq> ''WEBSOCKET''" "k \<noteq> ''MEMPOOL''" by blast+
    from merged_API_file_or_default [OF this] show ?thesis using a overridden_API [OF os] api by simp
  next
    assume "s \<in> set (plain_sections @ [''BITCOIN'', ''DEV'', ''EPOCH''])"
    then show ?thesis by (simp only: c c1(1) merged_file_or_default [OF default_section_merged(1) [OF s]])
  qed
  moreover have "field c ''DEV_MODE'' = nullish (field p ''DEV_MODE'') (JBool False)"
    using resync_other [OF r, of "''DEV_MODE''"] c1(3) by simp
  ultimately show ?thesis
    unfolding file_over_defaults_def api merged_API_nested merged_Ws_file_or_default merged_Mempool_file_or_default
    by blast
qed

text \<open>
  C37: The merge of a configuration the loader has accepted is total and explicit. It fails only when a
  resynchronisation is requested with a height that is not positive, and then with the error for it.
  Otherwise every field of every section with defaults, of the nested WEBSOCKET and MEMPOOL sections of the
  API and DEV_MODE is the verified file's value, or the default when the file has none, and no other field of
  the file is taken over; the four settings of a requested resynchronisation come on top: process up to the
  height and one more, index outputs from the height, and reindex from block 0.
\<close>

theorem accepted_config_merge:
  assumes "verifyConfig super_verify file m = Inr (p, m1)" and "super_parse p (cm_config m1) = Inr c"
  shows "\<exists>n. nullish (get (field p ''DEV'') ''RESYNC_BLOCK_HEIGHTS_UNTIL'') (JNum 0) = JNum n \<and>
    (let resync = js_truthy (nullish (get (field p ''DEV'') ''RESYNC_BLOCK_HEIGHTS'') (JBool False))
     in if resync \<and> n \<le> 0
        then parsePartialConfig super_parse super_default p m1 =
          Inl (Thrown ''RESYNC_BLOCK_HEIGHTS_UNTIL must be set to a positive number when RESYNC_BLOCK_HEIGHTS is enabled'')
        else \<exists>m2. parsePartialConfig super_parse super_default p m1 = Inr m2 \<and>
          file_over_defaults p (if resync then resync_overrides n else []) (cm_config m2))"
proof -
  obtain c1 where r: "parseConfig super_default p c = resync_settings c1"
    and c1: "\<And>s. s \<in> set (plain_sections @ [''BITCOIN'', ''DEV'', ''EPOCH'']) \<Longrightarrow> field c1 s = merged p s"
      "field c1 ''API'' = merged_API p" "field c1 ''DEV_MODE'' = nullish (field p ''DEV_MODE'') (JBool False)"
    using parseConfig_sections [of super_default p c] by metis
  obtain n where n: "get (merged p ''DEV'') ''RESYNC_BLOCK_HEIGHTS_UNTIL'' = JNum n"
    using resync_height_number [OF assms(1)] .
  have dev: "field c1 ''DEV'' = merged p ''DEV''" by (rule c1(1)) simp
  have objs: "\<exists>fs. field c1 ''DEV'' = JObj fs" "\<exists>fs. field c1 ''INDEXER'' = JObj fs" "\<exists>fs. field c1 ''OP_NET'' = JObj fs"
    using merged_section [of "''DEV''"] merged_section [of "''INDEXER''"] merged_section [of "''OP_NET''"]
      c1(1) [of "''DEV''"] c1(1) [of "''INDEXER''"] c1(1) [of "''OP_NET''"] by (simp_all add: plain_sections_def)
  have parse: "parsePartialConfig super_parse super_default p m1 =
      res_bind (resync_settings c1) (\<lambda>c'. Inr (m1\<lparr>cm_config := c'\<rparr>))"
    by (simp add: parsePartialConfig_def assms(2) r)
  let ?resync = "js_truthy (get (merged p ''DEV'') ''RESYNC_BLOCK_HEIGHTS'')"
  let ?o = "if ?resync then resync_overrides n else []"
  have "if ?resync \<and> n \<le> 0
    then parsePartialConfig super_parse super_default p m1 =
      Inl (Thrown ''RESYNC_BLOCK_HEIGHTS_UNTIL must be set to a positive number when RESYNC_BLOCK_HEIGHTS is enabled'')
    else \<exists>m2. parsePartialConfig super_parse super_default p m1 = Inr m2 \<and> file_over_defaults p ?o (cm_config m2)"
  proof (cases "?resync \<and> n \<le> 0")
    case True
    then show ?thesis using n by (simp add: parse resync_settings_def Let_def dev)
  next
    case False
    have "\<exists>c'. resync_settings c1 = Inr c'"
      using False n objs by (auto simp: resync_settings_def Let_def dev [symmetric])
    then obtain c' where c': "resync_settings c1 = Inr c'" by blast
    have "get (field c' s) k = overridden ?o s k (get (field c1 s) k)" for s k
      using resync_settings_fields [OF c'] n unfolding dev by auto
    moreover have "?o = resync_overrides n \<or> ?o = []" by simp
    ultimately have "file_over_defaults p ?o c'" using merged_over_defaults [OF c1 c'] by blast
    then show ?thesis using False by (simp only: parse c' res_bind.simps if_False) simp
  qed
  then show ?thesis using n unfolding default_DEV_values Let_def by blast
qed

theorem accepted_config_merge_witness:
  "get (field (cm_config sample_config) ''OP_NET'') ''REINDEX'' = JBool True \<and>
   get (field (cm_config sample_config) ''API'') ''PORT'' = JNum 9001 \<and>
   get (get (field (cm_config sample_config) ''API'') ''MEMPOOL'') ''MAX_LIMIT'' = JNum 100"
proof -
  note merge = accepted_config_merge [OF sample_verified, of "\<lambda>p c. Inr c" "cm_config (snd sample_parsed)" "[]", OF refl]
  obtain n where "file_over_defaults (fst sample_parsed) (resync_overrides n) (cm_config sample_config)"
    using merge sample_merged sample_values unfolding default_DEV_values by (auto simp: Let_def split: if_splits)
  then have f: "(s, JObj dflt) \<in> set defaultConfig \<Longrightarrow> \<not> (s = ''API'' \<and> k \<in> {''WEBSOCKET'', ''MEMPOOL''}) \<Longrightarrow>
      get (field (cm_config sample_config) s) k =
        overridden (resync_overrides n) s k (file_or_default (field (fst sample_parsed) s) dflt k)"
    and g: "get (get (field (cm_config sample_config) ''API'') ''MEMPOOL'') ''MAX_LIMIT'' =
      file_or_default (get (field (fst sample_parsed) ''API'') ''MEMPOOL'') default_API_MEMPOOL ''MAX_LIMIT''" for s dflt k
    unfolding file_over_defaults_def by blast+
  have o: "(''OP_NET'', JObj default_OP_NET) \<in> set defaultConfig" "(''API'', JObj default_API) \<in> set defaultConfig"
    by (simp_all only: defaultConfig_def list.set insert_iff simp_thms)
  have v: "file_or_default (field (fst sample_parsed) ''API'') default_API ''PORT'' = JNum 9001"
    "file_or_default (get (field (fst sample_parsed) ''API'') ''MEMPOOL'') default_API_MEMPOOL ''MAX_LIMIT'' = JNum 100"
    by code_simp+
  show ?thesis using f [OF o(1), of "''REINDEX''"] f [OF o(2), of "''PORT''"] g by (simp add: resync_overrides_def v)
qed

subsection \<open>Boundary cases of the checks\<close>

text \<open>A loader verifies one configuration only, so a password is encoded once.\<close>

lemma verifyConfig_once:
  "verifyConfig super_verify file m = Inr (p, m1) \<Longrightarrow>
   verifyConfig super_verify' file' m1 = Inl (Thrown ''Config has already been verified.'')"
  by (auto simp: verifyConfig_def split: if_splits)

text \<open>
  The check of \<open>SIMULATE_HIGH_GAS_USAGE\<close> has its guard negated: a DEV section without it is refused, and
  any other true value is accepted.
\<close>

lemma simulate_guard_negated:
  "section_checks (JObj [(''DEV'', JObj [])]) ''DEV'' verify_DEV =
     Inl (Thrown ''Oops the property DEV.SIMULATE_HIGH_GAS_USAGE is not a boolean.'') \<and>
   section_checks (JObj [(''DEV'', JObj [(''SIMULATE_HIGH_GAS_USAGE'', JStr ''no'')])]) ''DEV'' verify_DEV = Inr ()"
  by code_simp

text \<open>
  The exceptions are real: for each of them there is a section the checks accept with a value of the field
  that is not of its declared type; the merge takes the value over.
\<close>

definition accepted_section :: "string \<Rightarrow> fields" where
  "accepted_section s =
     (if s = ''BLOCKCHAIN'' then [(''BITCOIND_HOST'', JStr ''h''), (''BITCOIND_PORT'', JNum 1)]
      else if s = ''INDEXER'' then [(''STORAGE_TYPE'', JStr ''MONGODB''), (''BLOCK_UPDATE_METHOD'', JStr ''RPC'')]
      else if s = ''OP_NET'' then
        [(''REINDEX'', JBool False), (''VERIFY_INTEGRITY_ON_STARTUP'', JBool False), (''MODE'', JStr ''FULL'')]
      else if s = ''SSH'' then default_SSH else [])"

fun wrong_value :: "guarantee \<Rightarrow> ts_type \<Rightarrow> jsval" where
  "wrong_value Declared_or_false t = JStr []"
| "wrong_value Kind_only (T_numeric_enum ns) = JNum 9"
| "wrong_value Kind_only (T_enum ss) = JStr ''quic''"
| "wrong_value Kind_only t = JArr [JBool True] []"
| "wrong_value Declared_or_inherited t = JStr ''toString''"
| "wrong_value Prints_as_member t = JArr [JStr ''mainnet''] []"
| "wrong_value g t = JObj []"

lemma exceptions_real:
  "list_all (\<lambda>((s, k), g). list_ex (\<lambda>(s', k', t). s' = s \<and> k' = k \<and>
     all_checks (JObj [(s, JObj (AList.update k (wrong_value g t) (accepted_section s)))]) = Inr () \<and>
     \<not> has_type t (wrong_value g t)) declared_fields) exceptions"
  by code_simp

text \<open>A name every object inherits passes for a member of an enumeration.\<close>

lemma inherited_name_accepted:
  "section_checks (JObj [(''OP_NET'', JObj [(''REINDEX'', JBool False), (''VERIFY_INTEGRITY_ON_STARTUP'', JBool False),
     (''MODE'', JStr ''toString'')])]) ''OP_NET'' verify_OP_NET = Inr ()"
  by code_simp

end
