(* ===== verification/Peer_Encryption.thy ===== *)
theory Peer_Encryption
  imports Prelude
begin

text \<open>
  The encryption between two peers, \<open>poc/networking/encryptem\<close>: \<open>EncryptemServer.ts\<close> and
  \<open>EncryptemClient.ts\<close> with their keys, and the challenges of \<open>KeyPairGenerator.ts\<close>.

  The primitives of libsodium and SHA-512 are a parameter, the record \<open>sodium\<close>. A function that writes
  into a buffer gives the buffer after the call; the code ignores the answer of \<open>crypto_box_open_easy\<close>.
  A verification gives \<open>None\<close> when the package throws, as it does for arguments of a wrong length. Random
  keys and nonces are arguments. What the properties use of the package is the predicate \<open>sodium_ok\<close>.
\<close>

subsection \<open>The package\<close>

record sodium =
  crypto_auth_BYTES :: nat
  crypto_box_NONCEBYTES :: nat
  crypto_box_MACBYTES :: nat
  crypto_sign_BYTES :: nat
  crypto_box_easy :: "bytes \<Rightarrow> bytes \<Rightarrow> bytes \<Rightarrow> bytes \<Rightarrow> bytes"
  crypto_box_open_easy :: "bytes \<Rightarrow> bytes \<Rightarrow> bytes \<Rightarrow> bytes \<Rightarrow> bytes"
  crypto_sign_detached :: "bytes \<Rightarrow> bytes \<Rightarrow> bytes"
  crypto_sign_verify_detached :: "bytes \<Rightarrow> bytes \<Rightarrow> bytes \<Rightarrow> bool option"
  crypto_auth :: "bytes \<Rightarrow> bytes \<Rightarrow> bytes"
  crypto_auth_verify :: "bytes \<Rightarrow> bytes \<Rightarrow> bytes \<Rightarrow> bool option"
  randombytes_buf_deterministic :: "bytes \<Rightarrow> bytes"
  crypto_sign_seed_keypair :: "bytes \<Rightarrow> bytes \<times> bytes"
  box_keypair :: "bytes \<Rightarrow> bytes \<Rightarrow> bool"
  sign_keypair :: "bytes \<Rightarrow> bytes \<Rightarrow> bool"
  sha512 :: "bytes \<Rightarrow> bytes"

text \<open>
  The documented behaviour the peers rely on: a box opens with the keys of the other side, a signature
  verifies under the public key of its pair, a tag verifies under its key, the lengths are the constants
  of the package, and a seed gives a pair. \<open>box_keypair\<close> and \<open>sign_keypair\<close> are the pairs the package
  generates.
\<close>

definition sodium_ok :: "sodium \<Rightarrow> bool" where
  "sodium_ok S \<longleftrightarrow>
     (\<forall>m n pk sk pk' sk'. box_keypair S pk sk \<and> box_keypair S pk' sk' \<and> length n = crypto_box_NONCEBYTES S \<longrightarrow>
        crypto_box_open_easy S (crypto_box_easy S m n pk' sk) n pk sk' = m) \<and>
     (\<forall>m n pk sk. length (crypto_box_easy S m n pk sk) = length m + crypto_box_MACBYTES S) \<and>
     (\<forall>m pk sk. sign_keypair S pk sk \<longrightarrow> crypto_sign_verify_detached S (crypto_sign_detached S m sk) m pk = Some True) \<and>
     (\<forall>m sk. length (crypto_sign_detached S m sk) = crypto_sign_BYTES S) \<and>
     (\<forall>m k. crypto_auth_verify S (crypto_auth S m k) m k = Some True) \<and>
     (\<forall>m k. length (crypto_auth S m k) = crypto_auth_BYTES S) \<and>
     (\<forall>seed. sign_keypair S (fst (crypto_sign_seed_keypair S seed)) (snd (crypto_sign_seed_keypair S seed))) \<and>
     crypto_sign_BYTES S = 64"

datatype enc_error = EncryptionKeysMissing | DecryptionKeysMissing | SignatureKeyMissing | SigningKeyMissing
  | SigningFailed | BadAuthentication | ShortMessage | InvalidAuthentication | InvalidSignature | SodiumThrows

subsection \<open>The server side\<close>

record EncryptemServer =
  es_serverPrivateKey :: "bytes option"
  es_serverPublicKey :: "bytes option"
  es_serverSignaturePublicKey :: "bytes option"
  es_serverSignaturePrivateKey :: "bytes option"
  es_clientSignaturePublicKey :: "bytes option"
  es_clientPublicKey :: "bytes option"

definition EncryptemServer_new :: EncryptemServer where
  "EncryptemServer_new = \<lparr>es_serverPrivateKey = None, es_serverPublicKey = None, es_serverSignaturePublicKey = None,
     es_serverSignaturePrivateKey = None, es_clientSignaturePublicKey = None, es_clientPublicKey = None\<rparr>"

definition server_reset :: "EncryptemServer \<Rightarrow> EncryptemServer" where
  "server_reset e = e\<lparr>es_serverPrivateKey := None, es_clientPublicKey := None, es_serverSignaturePublicKey := None,
     es_serverSignaturePrivateKey := None, es_serverPublicKey := None\<rparr>"

definition server_destroy :: "EncryptemServer \<Rightarrow> EncryptemServer" where
  "server_destroy e = (server_reset e)\<lparr>es_clientSignaturePublicKey := None, es_serverSignaturePublicKey := None,
     es_serverSignaturePrivateKey := None, es_serverPublicKey := None, es_serverPrivateKey := None,
     es_clientPublicKey := None\<rparr>"

definition server_setClientPublicKey :: "bytes \<Rightarrow> EncryptemServer \<Rightarrow> EncryptemServer" where
  "server_setClientPublicKey key e = e\<lparr>es_clientPublicKey := Some key\<rparr>"

definition server_setClientSignaturePublicKey :: "bytes \<Rightarrow> EncryptemServer \<Rightarrow> EncryptemServer" where
  "server_setClientSignaturePublicKey key e = e\<lparr>es_clientSignaturePublicKey := Some key\<rparr>"

definition generateServerCipherKeyPair :: "sodium \<Rightarrow> bytes \<times> bytes \<Rightarrow> EncryptemServer \<Rightarrow> EncryptemServer" where
  "generateServerCipherKeyPair S keys e =
     (let (spk, ssk) = crypto_sign_seed_keypair S (snd keys) in
      e\<lparr>es_serverPublicKey := Some (fst keys), es_serverPrivateKey := Some (snd keys),
        es_serverSignaturePublicKey := Some spk, es_serverSignaturePrivateKey := Some ssk\<rparr>)"

definition authenticate_tag :: "sodium \<Rightarrow> bytes \<Rightarrow> bytes \<Rightarrow> bytes" where
  "authenticate_tag S input sender = crypto_auth S input (randombytes_buf_deterministic S sender)"

definition verifySignature :: "sodium \<Rightarrow> bytes \<Rightarrow> bytes \<Rightarrow> bytes \<Rightarrow> bool" where
  "verifySignature S m signature publicKey =
     (case crypto_sign_verify_detached S signature m publicKey of Some ok \<Rightarrow> ok | None \<Rightarrow> False)"

definition server_signMessageV2 :: "sodium \<Rightarrow> bytes \<Rightarrow> EncryptemServer \<Rightarrow> enc_error + bytes option" where
  "server_signMessageV2 S m e =
     (case es_serverSignaturePrivateKey e of
        None \<Rightarrow> Inl SigningKeyMissing
      | Some sk \<Rightarrow>
          (let signed = crypto_sign_detached S m sk in
           case es_serverSignaturePublicKey e of
             None \<Rightarrow> Inr None
           | Some pk \<Rightarrow> Inr (if verifySignature S m signed pk then Some signed else None)))"

definition server_encrypt :: "sodium \<Rightarrow> bytes \<Rightarrow> bytes \<Rightarrow> EncryptemServer \<Rightarrow> enc_error + bytes" where
  "server_encrypt S nonce m e =
     (case (es_clientPublicKey e, es_serverPrivateKey e) of
        (Some receiver, Some sender) \<Rightarrow>
          (case es_serverSignaturePublicKey e of
             None \<Rightarrow> Inl SignatureKeyMissing
           | Some sigKey \<Rightarrow>
               (let cipherMsg = crypto_box_easy S m nonce receiver sender in
                res_bind (server_signMessageV2 S cipherMsg e) (\<lambda>signed.
                  (case signed of
                     None \<Rightarrow> Inl SigningFailed
                   | Some sig \<Rightarrow> Inr (authenticate_tag S sig sigKey @ sig @ nonce @ cipherMsg)))))
      | _ \<Rightarrow> Inl EncryptionKeysMissing)"

definition server_verifyAuth :: "sodium \<Rightarrow> bytes \<Rightarrow> bytes \<Rightarrow> EncryptemServer \<Rightarrow> enc_error + bool" where
  "server_verifyAuth S out input e =
     (case es_clientSignaturePublicKey e of
        None \<Rightarrow> Inl SignatureKeyMissing
      | Some key \<Rightarrow>
          (case crypto_auth_verify S out input (randombytes_buf_deterministic S key) of
             None \<Rightarrow> Inl SodiumThrows | Some ok \<Rightarrow> Inr ok))"

definition server_open ::
    "sodium \<Rightarrow> bytes \<Rightarrow> bytes \<Rightarrow> bytes \<Rightarrow> bytes \<Rightarrow> bytes \<Rightarrow> bytes \<Rightarrow> enc_error + bytes option" where
  "server_open S msg sender receiver signature signKey auth =
     (if length msg < crypto_box_NONCEBYTES S + crypto_box_MACBYTES S then Inl ShortMessage
      else if length auth \<noteq> crypto_auth_BYTES S then Inl InvalidAuthentication
      else if length signature \<noteq> crypto_sign_BYTES S then Inl InvalidSignature
      else (let nonce = take (crypto_box_NONCEBYTES S) msg;
                cipher = drop (crypto_box_NONCEBYTES S) msg;
                decryptedMessage = crypto_box_open_easy S cipher nonce sender receiver
            in Inr (if verifySignature S cipher signature signKey then Some decryptedMessage else None)))"

definition server_decrypt :: "sodium \<Rightarrow> bytes \<Rightarrow> EncryptemServer \<Rightarrow> enc_error + bytes option" where
  "server_decrypt S msg e =
     (case (es_clientPublicKey e, es_serverPrivateKey e, es_clientSignaturePublicKey e) of
        (Some clientKey, Some serverKey, Some signKey) \<Rightarrow>
          (let auth = take (crypto_auth_BYTES S) msg;
               signature = take 64 (drop (length auth) msg);
               data = drop (length auth + 64) msg
           in res_bind (server_verifyAuth S auth signature e) (\<lambda>ok.
                if \<not> ok then Inl BadAuthentication
                else server_open S data clientKey serverKey signature signKey auth))
      | _ \<Rightarrow> Inl DecryptionKeysMissing)"

subsection \<open>The client side\<close>

record EncryptemClient =
  ec_clientSecretKey :: "bytes option"
  ec_clientPublicKey :: "bytes option"
  ec_clientSignaturePublicKey :: "bytes option"
  ec_clientSignaturePrivateKey :: "bytes option"
  ec_serverPublicKey :: "bytes option"
  ec_serverSignaturePublicKey :: "bytes option"

definition EncryptemClient_new :: EncryptemClient where
  "EncryptemClient_new = \<lparr>ec_clientSecretKey = None, ec_clientPublicKey = None, ec_clientSignaturePublicKey = None,
     ec_clientSignaturePrivateKey = None, ec_serverPublicKey = None, ec_serverSignaturePublicKey = None\<rparr>"

definition client_destroy :: "EncryptemClient \<Rightarrow> EncryptemClient" where
  "client_destroy c = c\<lparr>ec_clientSecretKey := None, ec_clientPublicKey := None, ec_clientSignaturePublicKey := None,
     ec_clientSignaturePrivateKey := None, ec_serverPublicKey := None, ec_serverSignaturePublicKey := None\<rparr>"

definition client_setClientSecretKey :: "bytes \<Rightarrow> EncryptemClient \<Rightarrow> EncryptemClient" where
  "client_setClientSecretKey key c = c\<lparr>ec_clientSecretKey := Some key\<rparr>"

definition client_setClientPublicKey :: "bytes \<Rightarrow> EncryptemClient \<Rightarrow> EncryptemClient" where
  "client_setClientPublicKey key c = c\<lparr>ec_clientPublicKey := Some key\<rparr>"

definition client_setClientSignaturePublicKey :: "bytes \<Rightarrow> EncryptemClient \<Rightarrow> EncryptemClient" where
  "client_setClientSignaturePublicKey key c = c\<lparr>ec_clientSignaturePublicKey := Some key\<rparr>"

definition client_setClientSignaturePrivateKey :: "bytes \<Rightarrow> EncryptemClient \<Rightarrow> EncryptemClient" where
  "client_setClientSignaturePrivateKey key c = c\<lparr>ec_clientSignaturePrivateKey := Some key\<rparr>"

definition client_setServerPublicKey :: "bytes \<Rightarrow> EncryptemClient \<Rightarrow> EncryptemClient" where
  "client_setServerPublicKey key c = c\<lparr>ec_serverPublicKey := Some key\<rparr>"

definition client_setServerSignaturePublicKey :: "bytes \<Rightarrow> EncryptemClient \<Rightarrow> EncryptemClient" where
  "client_setServerSignaturePublicKey key c = c\<lparr>ec_serverSignaturePublicKey := Some key\<rparr>"

text \<open>The signature keys of a client are the first 96 bytes of its identity file.\<close>

definition client_signature_keys :: "bytes \<Rightarrow> bytes \<times> bytes" where
  "client_signature_keys authKey = (take 32 (drop 64 authKey), take 64 authKey)"

definition generateClientCipherKeyPair ::
    "bytes \<times> bytes \<Rightarrow> bytes \<Rightarrow> EncryptemClient \<Rightarrow> bool \<times> EncryptemClient" where
  "generateClientCipherKeyPair keys authKey c =
     (let (signPk, signSk) = client_signature_keys authKey;
          c' = client_setClientSecretKey (snd keys) (client_setClientPublicKey (fst keys) c)
      in (\<not> (length (snd keys) \<noteq> 32 \<or> length (fst keys) \<noteq> 32 \<or> length signPk \<noteq> 32 \<or> length signSk \<noteq> 64),
          c'\<lparr>ec_clientSignaturePublicKey := Some signPk, ec_clientSignaturePrivateKey := Some signSk,
             ec_serverSignaturePublicKey := None\<rparr>))"

definition client_signMessageV2 :: "sodium \<Rightarrow> bytes \<Rightarrow> bytes \<Rightarrow> bytes \<Rightarrow> bytes option" where
  "client_signMessageV2 S m publicSignKey privateKey =
     (let signed = crypto_sign_detached S m privateKey in
      if verifySignature S m signed publicSignKey then Some signed else None)"

definition client_encrypt :: "sodium \<Rightarrow> bytes \<Rightarrow> bytes \<Rightarrow> EncryptemClient \<Rightarrow> enc_error + bytes" where
  "client_encrypt S nonce m c =
     (case (ec_serverPublicKey c, ec_clientSecretKey c, ec_clientSignaturePublicKey c, ec_clientSignaturePrivateKey c) of
        (Some receiver, Some sender, Some signPk, Some signSk) \<Rightarrow>
          (let cipherMsg = crypto_box_easy S m nonce receiver sender in
           case client_signMessageV2 S cipherMsg signPk signSk of
             None \<Rightarrow> Inl SigningFailed
           | Some sig \<Rightarrow> Inr (authenticate_tag S sig signPk @ sig @ nonce @ cipherMsg))
      | _ \<Rightarrow> Inl EncryptionKeysMissing)"

definition client_verifyAuth :: "sodium \<Rightarrow> bytes \<Rightarrow> bytes \<Rightarrow> EncryptemClient \<Rightarrow> enc_error + bool" where
  "client_verifyAuth S out input c =
     (case ec_serverSignaturePublicKey c of
        None \<Rightarrow> Inl SignatureKeyMissing
      | Some key \<Rightarrow>
          (case crypto_auth_verify S out input (randombytes_buf_deterministic S key) of
             None \<Rightarrow> Inl SodiumThrows | Some ok \<Rightarrow> Inr ok))"

definition client_open ::
    "sodium \<Rightarrow> bytes \<Rightarrow> bytes \<Rightarrow> bytes \<Rightarrow> bytes \<Rightarrow> bytes \<Rightarrow> bytes \<Rightarrow> EncryptemClient \<Rightarrow> enc_error + bytes" where
  "client_open S msg sender receiver signature signKey auth c =
     (if length msg < crypto_box_NONCEBYTES S + crypto_box_MACBYTES S then Inl ShortMessage
      else (let nonce = take (crypto_box_NONCEBYTES S) msg; cipher = drop (crypto_box_NONCEBYTES S) msg in
            res_bind (client_verifyAuth S auth signature c) (\<lambda>ok.
              if \<not> ok then Inl BadAuthentication
              else (let decryptedMessage = crypto_box_open_easy S cipher nonce sender receiver in
                    if \<not> verifySignature S cipher signature signKey then Inl InvalidSignature
                    else Inr decryptedMessage))))"

definition client_decrypt :: "sodium \<Rightarrow> bytes \<Rightarrow> EncryptemClient \<Rightarrow> enc_error + bytes" where
  "client_decrypt S msg c =
     (case (ec_serverPublicKey c, ec_clientSecretKey c, ec_serverSignaturePublicKey c) of
        (Some serverKey, Some clientKey, Some signKey) \<Rightarrow>
          (let auth = take (crypto_auth_BYTES S) msg;
               signature = take 64 (drop (length auth) msg);
               data = drop (length auth + 64) msg
           in client_open S data serverKey clientKey signature signKey auth c)
      | _ \<Rightarrow> Inl DecryptionKeysMissing)"

subsection \<open>Challenges\<close>

definition hashWithPubKey :: "sodium \<Rightarrow> bytes \<Rightarrow> bytes \<Rightarrow> bytes" where
  "hashWithPubKey S pubKey data = sha512 S (pubKey @ data)"

definition hashChallenge :: "sodium \<Rightarrow> bytes \<Rightarrow> bytes \<Rightarrow> bytes \<Rightarrow> bytes" where
  "hashChallenge S publicKey privateKey salt = crypto_sign_detached S (hashWithPubKey S publicKey salt) privateKey"

definition verifyChallengeSignature :: "sodium \<Rightarrow> bytes \<Rightarrow> bytes \<Rightarrow> bytes \<Rightarrow> enc_error + bool" where
  "verifyChallengeSignature S challenge signature pubKey =
     (case crypto_sign_verify_detached S signature (hashWithPubKey S pubKey challenge) pubKey of
        None \<Rightarrow> Inl SodiumThrows | Some ok \<Rightarrow> Inr ok)"

subsection \<open>Messages between matching sides\<close>

text \<open>The two sides after a handshake: each holds a pair and the public keys of the other.\<close>

definition sides_match :: "sodium \<Rightarrow> EncryptemServer \<Rightarrow> EncryptemClient \<Rightarrow> bool" where
  "sides_match S e c \<longleftrightarrow>
     (\<exists>spk ssk cpk csk sspk sssk cspk cssk.
        e = \<lparr>es_serverPrivateKey = Some ssk, es_serverPublicKey = Some spk, es_serverSignaturePublicKey = Some sspk,
             es_serverSignaturePrivateKey = Some sssk, es_clientSignaturePublicKey = Some cspk,
             es_clientPublicKey = Some cpk\<rparr> \<and>
        c = \<lparr>ec_clientSecretKey = Some csk, ec_clientPublicKey = Some cpk, ec_clientSignaturePublicKey = Some cspk,
             ec_clientSignaturePrivateKey = Some cssk, ec_serverPublicKey = Some spk,
             ec_serverSignaturePublicKey = Some sspk\<rparr> \<and>
        box_keypair S spk ssk \<and> box_keypair S cpk csk \<and> sign_keypair S sspk sssk \<and> sign_keypair S cspk cssk)"

lemma sodium_okD:
  assumes "sodium_ok S"
  shows "box_keypair S pk sk \<Longrightarrow> box_keypair S pk' sk' \<Longrightarrow> length n = crypto_box_NONCEBYTES S \<Longrightarrow>
      crypto_box_open_easy S (crypto_box_easy S m n pk' sk) n pk sk' = m"
    and "length (crypto_box_easy S m n pk sk) = length m + crypto_box_MACBYTES S"
    and "sign_keypair S pk sk \<Longrightarrow> crypto_sign_verify_detached S (crypto_sign_detached S m sk) m pk = Some True"
    and "length (crypto_sign_detached S m sk) = 64"
    and "crypto_auth_verify S (crypto_auth S m k) m k = Some True"
    and "length (crypto_auth S m k) = crypto_auth_BYTES S"
    and "sign_keypair S (fst (crypto_sign_seed_keypair S seed)) (snd (crypto_sign_seed_keypair S seed))"
    and "crypto_sign_BYTES S = 64"
  using assms unfolding sodium_ok_def by auto

text \<open>A message is a tag, a signature, a nonce and a box; reading it back splits it there.\<close>

lemma message_split:
  assumes "length auth = crypto_auth_BYTES S" "length sig = 64"
  shows "take (crypto_auth_BYTES S) (auth @ sig @ rest) = auth"
    "take 64 (drop (length auth) (auth @ sig @ rest)) = sig" "drop (length auth + 64) (auth @ sig @ rest) = rest"
  using assms by simp_all

lemma server_to_client:
  assumes S: "sodium_ok S" and "sides_match S e c" and n: "length nonce = crypto_box_NONCEBYTES S"
  shows "res_bind (server_encrypt S nonce m e) (\<lambda>msg. client_decrypt S msg c) = Inr m"
  using assms(2) n
  by (auto simp: sides_match_def server_encrypt_def server_signMessageV2_def client_decrypt_def client_open_def
      client_verifyAuth_def verifySignature_def authenticate_tag_def sodium_okD [OF S] Let_def)

lemma client_to_server:
  assumes S: "sodium_ok S" and "sides_match S e c" and n: "length nonce = crypto_box_NONCEBYTES S"
  shows "res_bind (client_encrypt S nonce m c) (\<lambda>msg. server_decrypt S msg e) = Inr (Some m)"
  using assms(2) n
  by (auto simp: sides_match_def client_encrypt_def client_signMessageV2_def server_decrypt_def server_open_def
      server_verifyAuth_def verifySignature_def authenticate_tag_def sodium_okD [OF S] Let_def)

text \<open>Whatever a server reads carries a signature of the boxed text under the client's signature key.\<close>

lemma server_reads_signed:
  assumes "server_decrypt S msg e = Inr (Some m)"
  shows "\<exists>key. es_clientSignaturePublicKey e = Some key \<and>
    crypto_sign_verify_detached S (take 64 (drop (crypto_auth_BYTES S) msg))
      (drop (crypto_auth_BYTES S + 64 + crypto_box_NONCEBYTES S) msg) key = Some True"
proof -
  obtain ck sk key where k: "es_clientPublicKey e = Some ck" "es_serverPrivateKey e = Some sk"
    "es_clientSignaturePublicKey e = Some key"
    using assms by (auto simp: server_decrypt_def split: option.splits)
  let ?auth = "take (crypto_auth_BYTES S) msg"
  have "server_open S (drop (length ?auth + 64) msg) ck sk (take 64 (drop (length ?auth) msg)) key ?auth = Inr (Some m)"
    using assms k by (auto simp: server_decrypt_def Let_def split: if_splits)
  then have "length ?auth = crypto_auth_BYTES S"
    and "verifySignature S (drop (crypto_box_NONCEBYTES S) (drop (length ?auth + 64) msg))
      (take 64 (drop (length ?auth) msg)) key"
    by (auto simp: server_open_def Let_def split: if_splits)
  then show ?thesis
    using k(3) by (auto simp: verifySignature_def add.commute add.left_commute split: option.splits)
qed

end
