(* ===== verification/Peer_Handshake.thy ===== *)
theory Peer_Handshake
  imports Peer_Encryption Consensus_Config
begin

text \<open>
  The authentication of a peer: the server side (\<open>AuthenticationManager.ts\<close>), the client side
  (\<open>ClientAuthenticationManager.ts\<close>), what both inherit from \<open>SharedAuthenticationManager.ts\<close>, the packet
  tables of \<open>OPNetProtocolV1.ts\<close> and the identity of the node (\<open>OPNetIdentity.ts\<close>, \<open>NetworkConverter.ts\<close>).

  A side is a record with the fields of its object and, in order, what it has sent and the disconnections
  it has asked for. The protobuf codec, the conversion of numbers to \<open>Long\<close> and the handlers of packets
  outside the handshake are parameters (\<open>peer_env\<close>). A handler that throws keeps the changes it has made.
  Random values are arguments (\<open>fresh\<close>). A send that fails is a message that does not arrive. A side handles
  one message at a time: two handlers of one peer that interleave at an \<open>await\<close> are not modelled.
\<close>

subsection \<open>Packets, codes and the environment\<close>

datatype DisconnectionCode = RECONNECT | BAD_PROTOCOL | BAD_VERSION | BAD_BEHAVIOR | BAD_IDENTITY | BAD_CHECKSUM
  | BAD_SIGNATURE | AUTH_TIMED_OUT | BAD_ENCRYPTION | BAD_PACKET | BAD_PEER | BAD_AUTH_CIPHER
  | UNABLE_TO_AUTHENTICATE | BAD_PROTOCOL_CHECKSUM | BAD_NETWORK | BAD_CHAIN_ID | BAD_CHALLENGE | FLOOD
  | INVALID_CHAIN | UNREACHABLE | EXPECTED

datatype ConnectionStatus = DISCONNECTED | CONNECTING | CONNECTED | EXCHANGING_KEYS | AUTHENTICATING
  | AUTHENTICATION_FAILED | AUTHENTICATION_SUCCESS

datatype OPNetAuthenticationStatus = SUCCESS | ERROR

record IAuthenticationPacket =
  ap_version :: string
  ap_clientAuthCipher :: "bytes option"
  ap_protocolChecksum :: string
  ap_type :: nat
  ap_network :: nat
  ap_chainId :: nat
  ap_magicNumber :: "nat option"

record IAuthenticationStatusPacket =
  as_status :: OPNetAuthenticationStatus
  as_message :: string
  as_challenge :: "bytes option"

record IClientKeyCipherExchangePacket =
  cx_clientKeyCipher :: "bytes option"
  cx_clientAuthCipher :: "bytes option"
  cx_identity :: bytes
  cx_challenge :: "bytes option"

record IServerKeyCipherExchangePacket =
  sx_serverKeyCipher :: "bytes option"
  sx_serverSigningCipher :: "bytes option"
  sx_encryptionEnabled :: bool

record IPingPacket =
  pg_timestamp :: int
  pg_lastPing :: int

text \<open>The opcodes of \<open>OPNetMessages.ts\<close>.\<close>

abbreviation (input) PONG :: byte where "PONG \<equiv> 0x00"
abbreviation (input) BLOCK_HEADER_WITNESS :: byte where "BLOCK_HEADER_WITNESS \<equiv> 0x0b"
abbreviation (input) BROADCAST_TRANSACTION :: byte where "BROADCAST_TRANSACTION \<equiv> 0x0f"
abbreviation (input) PING :: byte where "PING \<equiv> 0x0c"
abbreviation (input) AUTHENTICATION :: byte where "AUTHENTICATION \<equiv> 0x0d"
abbreviation (input) CLIENT_CIPHER_EXCHANGE :: byte where "CLIENT_CIPHER_EXCHANGE \<equiv> 0x0e"
abbreviation (input) DISCOVER :: byte where "DISCOVER \<equiv> 0x82"
abbreviation (input) SYNC_BLOCK_HEADERS_REQUEST :: byte where "SYNC_BLOCK_HEADERS_REQUEST \<equiv> 0x7a"
abbreviation (input) AUTHENTICATION_STATUS :: byte where "AUTHENTICATION_STATUS \<equiv> 0x80"
abbreviation (input) SERVER_CIPHER_EXCHANGE :: byte where "SERVER_CIPHER_EXCHANGE \<equiv> 0x81"
abbreviation (input) DISCOVERY_RESPONSE :: byte where "DISCOVERY_RESPONSE \<equiv> 0x83"
abbreviation (input) SYNC_BLOCK_HEADERS_RESPONSE :: byte where "SYNC_BLOCK_HEADERS_RESPONSE \<equiv> 0x10"

text \<open>The table of accepted opcodes changes once the peer is authenticated.\<close>

datatype protocol_table = HandshakeTable | SessionTable

fun accepted_opcodes :: "protocol_table \<Rightarrow> byte list" where
  "accepted_opcodes HandshakeTable =
     [PONG, PING, AUTHENTICATION, CLIENT_CIPHER_EXCHANGE, AUTHENTICATION_STATUS, SERVER_CIPHER_EXCHANGE]"
| "accepted_opcodes SessionTable =
     [PONG, PING, DISCOVER, DISCOVERY_RESPONSE, BLOCK_HEADER_WITNESS, SYNC_BLOCK_HEADERS_REQUEST,
      SYNC_BLOCK_HEADERS_RESPONSE, BROADCAST_TRANSACTION]"

datatype peer_error = ProtocolNotFound | EncryptemNotFound | ChallengeAlreadySet | ChallengeNotSet
  | SelfIdentityNotFound | InvalidOpcode | UnpackFailed | PackFailed | CryptoFailed enc_error
  | DecryptFailed | InvalidNetwork | InvalidMode | MagicMissing | InvalidMagic | InvalidServerCipher
  | AuthKeyNotSelected | EncryptemSetupFailed | PublicKeyMissing | ChecksumNotFound

datatype peer_output = Sent bytes | Disconnect DisconnectionCode string

record fresh =
  fr_challenge :: bytes
  fr_keys :: "bytes \<times> bytes"
  fr_nonce :: bytes

record peer_env =
  pe_sodium :: sodium
  encodeAuthentication :: "IAuthenticationPacket \<Rightarrow> bytes option"
  decodeAuthentication :: "bytes \<Rightarrow> IAuthenticationPacket option"
  encodeStatus :: "IAuthenticationStatusPacket \<Rightarrow> bytes option"
  decodeStatus :: "bytes \<Rightarrow> IAuthenticationStatusPacket option"
  encodeClientExchange :: "IClientKeyCipherExchangePacket \<Rightarrow> bytes option"
  decodeClientExchange :: "bytes \<Rightarrow> IClientKeyCipherExchangePacket option"
  encodeServerExchange :: "IServerKeyCipherExchangePacket \<Rightarrow> bytes option"
  decodeServerExchange :: "bytes \<Rightarrow> IServerKeyCipherExchangePacket option"
  encodePing :: "IPingPacket \<Rightarrow> bytes option"
  decodePing :: "bytes \<Rightarrow> IPingPacket option"
  pe_toHex :: "bytes \<Rightarrow> string"
  pe_handled :: "byte option \<Rightarrow> bytes \<Rightarrow> bool"

text \<open>\<open>Packet.pack\<close> puts the opcode before the encoded message and throws when the message does not verify.\<close>

definition pack_packet :: "byte \<Rightarrow> bytes option \<Rightarrow> 's \<Rightarrow> (peer_error + bytes) \<times> 's" where
  "pack_packet opcode encoded = st_lift (case encoded of None \<Rightarrow> Inl PackFailed | Some m \<Rightarrow> Inr (opcode # m))"

definition unpack_packet :: "'p option \<Rightarrow> 's \<Rightarrow> (peer_error + 'p) \<times> 's" where
  "unpack_packet decoded = st_lift (case decoded of None \<Rightarrow> Inl UnpackFailed | Some p \<Rightarrow> Inr p)"

subsection \<open>Versions and the identity of the node\<close>

definition P2PVersion :: string where
  "P2PVersion = ''0.0.2''"

definition PROTOCOL_CHECKSUM :: "(string \<times> string) list" where
  "PROTOCOL_CHECKSUM = [(''0.0.1'', ''0x00000000''), (''0.0.2'', ''0x00000001'')]"

definition protocolChecksum :: "peer_error + string" where
  "protocolChecksum = (case map_of PROTOCOL_CHECKSUM P2PVersion of
     None \<Rightarrow> Inl ChecksumNotFound | Some c \<Rightarrow> if c = [] then Inl ChecksumNotFound else Inr c)"

fun split_on :: "char \<Rightarrow> string \<Rightarrow> string list" where
  "split_on d [] = [[]]"
| "split_on d (c # cs) =
     (if c = d then [] # split_on d cs
      else (case split_on d cs of [] \<Rightarrow> [[c]] | w # ws \<Rightarrow> (c # w) # ws))"

fun string_less :: "string \<Rightarrow> string \<Rightarrow> bool" where
  "string_less s [] = False"
| "string_less [] (d # ds) = True"
| "string_less (c # cs) (d # ds) =
     (if of_char c < (of_char d :: nat) then True else if of_char d < (of_char c :: nat) then False else string_less cs ds)"

definition part :: "nat \<Rightarrow> string list \<Rightarrow> string option" where
  "part i ws = (if i < length ws then Some (ws ! i) else None)"

text \<open>A comparison with \<open>undefined\<close> is false.\<close>

definition mayAcceptVersion :: "string \<Rightarrow> bool" where
  "mayAcceptVersion peerVersion =
     (let peer = split_on CHR ''.'' peerVersion; own = split_on CHR ''.'' P2PVersion in
      if part 0 peer \<noteq> part 0 own then False
      else (case (part 1 peer, part 1 own) of (Some p, Some q) \<Rightarrow> \<not> string_less p q | _ \<Rightarrow> True))"

definition mayAcceptProtocolChecksum :: "string \<Rightarrow> string \<Rightarrow> bool" where
  "mayAcceptProtocolChecksum peerVersion checksum =
     (case map_of PROTOCOL_CHECKSUM peerVersion of
        None \<Rightarrow> False
      | Some requested \<Rightarrow> if requested = [] then False else requested \<noteq> checksum)"

datatype indexer_mode = ARCHIVE | FULL | LIGHT

record OPNetIdentity =
  id_authKeyBin :: bytes
  id_mode :: indexer_mode
  id_network :: BitcoinNetwork
  id_chainId :: nat

fun peerNetwork_of :: "BitcoinNetwork \<Rightarrow> peer_error + nat" where
  "peerNetwork_of mainnet = Inr 0"
| "peerNetwork_of testnet = Inr 1"
| "peerNetwork_of regtest = Inr 2"
| "peerNetwork_of signet = Inr 3"
| "peerNetwork_of custom = Inr 4"
| "peerNetwork_of testnet4 = Inl InvalidNetwork"

fun numberToBitcoinNetwork :: "nat \<Rightarrow> peer_error + BitcoinNetwork" where
  "numberToBitcoinNetwork n =
     (if n = 0 then Inr mainnet else if n = 1 then Inr testnet else if n = 2 then Inr regtest
      else if n = 3 then Inr signet else if n = 4 then Inr custom else Inl InvalidNetwork)"

definition peerNetwork :: "OPNetIdentity \<Rightarrow> peer_error + nat" where
  "peerNetwork i = peerNetwork_of (id_network i)"

definition peerType :: "OPNetIdentity \<Rightarrow> nat" where
  "peerType i = (case id_mode i of ARCHIVE \<Rightarrow> 0 | FULL \<Rightarrow> 1 | LIGHT \<Rightarrow> 2)"

record OPNetKeyPair =
  kp_privateKey :: bytes
  kp_publicKey :: bytes
  kp_hash :: bytes
  kp_proof :: bytes

definition restoreKeyPair :: "bytes \<Rightarrow> OPNetKeyPair" where
  "restoreKeyPair buf = \<lparr>kp_privateKey = take 64 buf, kp_publicKey = take 32 (drop 64 buf),
     kp_hash = take 64 (take 128 (drop 96 buf)), kp_proof = drop 64 (take 128 (drop 96 buf))\<rparr>"

definition identityChallenge :: "sodium \<Rightarrow> OPNetIdentity \<Rightarrow> bytes \<Rightarrow> bytes" where
  "identityChallenge S i salt =
     (let kp = restoreKeyPair (id_authKeyBin i) in hashChallenge S (kp_publicKey kp) (kp_privateKey kp) salt)"

text \<open>
  The magic number reads the configured array in reverse, and reverses it in place: the array after the
  call comes back with the number.
\<close>

definition le_number :: "nat list \<Rightarrow> nat" where
  "le_number bs = foldr (\<lambda>b n. b mod 256 + 256 * n) bs 0"

definition magicNumber :: "nat list option \<Rightarrow> peer_error + nat \<times> nat list option" where
  "magicNumber magic =
     (case magic of
        None \<Rightarrow> Inl MagicMissing
      | Some bs \<Rightarrow> if length bs \<noteq> 4 then Inl InvalidMagic else Inr (le_number (rev bs), Some (rev bs)))"

definition hasMagicNumber :: "nat list option \<Rightarrow> bool" where
  "hasMagicNumber magic = (case magic of None \<Rightarrow> False | Some bs \<Rightarrow> length bs = 4)"

subsection \<open>The server side\<close>

record server_peer =
  sv_selfIdentity :: "OPNetIdentity option"
  sv_clientVersion :: "string option"
  sv_clientIndexerMode :: "nat option"
  sv_clientNetwork :: "nat option"
  sv_clientChainId :: "nat option"
  sv_isAuthenticated :: bool
  sv_passVersionCheck :: bool
  sv_timeoutAuth :: bool
  sv_identityChallenge :: "bytes option"
  sv_clientIdentity :: "string option"
  sv_encryptem :: "EncryptemServer option"
  sv_protocol :: "protocol_table option"
  sv_encryptionStarted :: bool
  sv_destroyed :: bool
  sv_networkHandlers :: nat
  sv_out :: "peer_output list"

type_synonym 'a server = "server_peer \<Rightarrow> (peer_error + 'a) \<times> server_peer"

definition createTimeoutAuth :: "server_peer \<Rightarrow> server_peer" where
  "createTimeoutAuth s = s\<lparr>sv_timeoutAuth := True\<rparr>"

definition ServerPeerNetworking_new :: "OPNetIdentity option \<Rightarrow> server_peer" where
  "ServerPeerNetworking_new selfIdentity = createTimeoutAuth
     \<lparr>sv_selfIdentity = selfIdentity, sv_clientVersion = None, sv_clientIndexerMode = None, sv_clientNetwork = None,
      sv_clientChainId = None, sv_isAuthenticated = False, sv_passVersionCheck = False, sv_timeoutAuth = False,
      sv_identityChallenge = None, sv_clientIdentity = None, sv_encryptem = Some EncryptemServer_new,
      sv_protocol = Some HandshakeTable, sv_encryptionStarted = False, sv_destroyed = False,
      sv_networkHandlers = 0, sv_out = []\<rparr>"

definition server_disconnectPeer :: "DisconnectionCode \<Rightarrow> string \<Rightarrow> unit server" where
  "server_disconnectPeer code reason = st_put (\<lambda>s. s\<lparr>sv_out := sv_out s @ [Disconnect code reason]\<rparr>)"

definition require_protocol :: "unit server" where
  "require_protocol s = (case sv_protocol s of None \<Rightarrow> (Inl ProtocolNotFound, s) | Some t \<Rightarrow> (Inr (), s))"

definition server_encryptem :: "EncryptemServer server" where
  "server_encryptem s = (case sv_encryptem s of None \<Rightarrow> (Inl EncryptemNotFound, s) | Some e \<Rightarrow> (Inr e, s))"

definition server_onIncomingPacket :: "byte \<Rightarrow> unit server" where
  "server_onIncomingPacket opcode s =
     (case sv_protocol s of
        None \<Rightarrow> (Inl ProtocolNotFound, s)
      | Some t \<Rightarrow> if opcode \<in> set (accepted_opcodes t) then (Inr (), s) else (Inl InvalidOpcode, s))"

definition server_sendMsg :: "peer_env \<Rightarrow> fresh \<Rightarrow> bytes \<Rightarrow> unit server" where
  "server_sendMsg E fr buffer s =
     (case sv_encryptem s of
        None \<Rightarrow> (Inl EncryptemNotFound, s)
      | Some e \<Rightarrow>
          (case (if sv_encryptionStarted s then server_encrypt (pe_sodium E) (fr_nonce fr) buffer e else Inr buffer) of
             Inl err \<Rightarrow> (Inr (), s)
           | Inr b \<Rightarrow> (Inr (), s\<lparr>sv_out := sv_out s @ [Sent b]\<rparr>)))"

definition sendAuthenticationStatusPacket :: "peer_env \<Rightarrow> fresh \<Rightarrow> IAuthenticationStatusPacket \<Rightarrow> unit server" where
  "sendAuthenticationStatusPacket E fr info =
     st_bind require_protocol (\<lambda>_.
     st_bind (pack_packet AUTHENTICATION_STATUS (encodeStatus E info)) (server_sendMsg E fr))"

definition createAuthenticationFailureMessage :: "peer_env \<Rightarrow> fresh \<Rightarrow> string \<Rightarrow> unit server" where
  "createAuthenticationFailureMessage E fr message =
     sendAuthenticationStatusPacket E fr \<lparr>as_status = ERROR, as_message = message, as_challenge = None\<rparr>"

definition generateChallenge :: "fresh \<Rightarrow> unit server" where
  "generateChallenge fr s =
     (if sv_identityChallenge s \<noteq> None then (Inl ChallengeAlreadySet, s)
      else (Inr (), s\<lparr>sv_identityChallenge := Some (fr_challenge fr)\<rparr>))"

definition createFullAuthentication :: "peer_env \<Rightarrow> fresh \<Rightarrow> unit server" where
  "createFullAuthentication E fr =
     st_bind server_encryptem (\<lambda>e.
     st_bind (st_get sv_encryptionStarted) (\<lambda>started.
       if started then server_disconnectPeer BAD_ENCRYPTION ''Encryption already started.''
       else
         st_bind (st_put (\<lambda>s. s\<lparr>sv_encryptem := Some (generateServerCipherKeyPair (pe_sodium E) (fr_keys fr) e)\<rparr>)) (\<lambda>_.
         st_bind (generateChallenge fr) (\<lambda>_.
         st_bind (st_get sv_identityChallenge) (\<lambda>challenge.
         st_bind (sendAuthenticationStatusPacket E fr
           \<lparr>as_status = SUCCESS, as_message = ''Pre auth valid.'', as_challenge = challenge\<rparr>) (\<lambda>_.
         st_put (\<lambda>s. s\<lparr>sv_timeoutAuth := False\<rparr>)))))))"

text \<open>\<open>createSession\<close> adds three packet handlers and reports the authentication to the peer.\<close>

definition server_onAuthenticated :: "unit server" where
  "server_onAuthenticated =
     st_bind require_protocol (\<lambda>_.
     st_put (\<lambda>s. s\<lparr>sv_protocol := Some SessionTable, sv_isAuthenticated := True,
       sv_networkHandlers := sv_networkHandlers s + 3\<rparr>))"

definition sendServerHandshake :: "peer_env \<Rightarrow> fresh \<Rightarrow> unit server" where
  "sendServerHandshake E fr =
     st_bind server_encryptem (\<lambda>e.
     st_bind require_protocol (\<lambda>_.
     st_bind (st_get sv_encryptionStarted) (\<lambda>started.
       if started then server_disconnectPeer BAD_ENCRYPTION ''Encryption already started.''
       else (case (es_serverPublicKey e, es_serverSignaturePublicKey e) of
           (Some serverKey, Some signingKey) \<Rightarrow>
             st_bind (pack_packet SERVER_CIPHER_EXCHANGE (encodeServerExchange E
               \<lparr>sx_serverKeyCipher = Some serverKey, sx_serverSigningCipher = Some signingKey,
                sx_encryptionEnabled = True\<rparr>)) (\<lambda>packet.
             st_bind (server_sendMsg E fr packet) (\<lambda>_.
             st_bind (st_put (\<lambda>s. s\<lparr>sv_encryptionStarted := True\<rparr>)) (\<lambda>_.
             server_onAuthenticated)))
         | _ \<Rightarrow> server_disconnectPeer BAD_PACKET ''Server handshake failed.''))))"

definition onPingMessage :: "peer_env \<Rightarrow> fresh \<Rightarrow> bytes \<Rightarrow> unit server" where
  "onPingMessage E fr packet =
     st_bind require_protocol (\<lambda>_.
     st_bind (server_onIncomingPacket PING) (\<lambda>_.
     st_bind (unpack_packet (decodePing E packet)) (\<lambda>ping.
     st_bind (pack_packet PONG (encodePing E \<lparr>pg_timestamp = pg_timestamp ping, pg_lastPing = pg_lastPing ping\<rparr>))
       (server_sendMsg E fr))))"

definition verifySignaturePublicKey :: "bytes \<Rightarrow> bool server" where
  "verifySignaturePublicKey key =
     st_bind server_encryptem (\<lambda>e.
       (case es_clientSignaturePublicKey e of
          None \<Rightarrow>
            st_bind (server_disconnectPeer BAD_AUTH_CIPHER
              ''Invalid client authentication cipher. Signature public key not found.'') (\<lambda>_. st_return False)
        | Some known \<Rightarrow>
            if known \<noteq> key
            then st_bind (server_disconnectPeer BAD_AUTH_CIPHER
              ''Invalid client authentication cipher. Signature public key mismatch.'') (\<lambda>_. st_return False)
            else st_return True))"

definition verifyChallenge :: "peer_env \<Rightarrow> bytes \<Rightarrow> bytes option \<Rightarrow> bool server" where
  "verifyChallenge E key response =
     st_bind (st_get sv_identityChallenge) (\<lambda>challenge.
       (case challenge of
          None \<Rightarrow> st_throw ChallengeNotSet
        | Some ch \<Rightarrow>
            st_bind (st_get sv_selfIdentity) (\<lambda>self.
              if self = None then st_throw SelfIdentityNotFound
              else (case response of
                  None \<Rightarrow> st_bind (server_disconnectPeer BAD_CHALLENGE ''Malformed challenge response.'') (\<lambda>_. st_return False)
                | Some sig \<Rightarrow>
                    (case verifyChallengeSignature (pe_sodium E) ch sig key of
                       Inl err \<Rightarrow> st_throw (CryptoFailed err)
                     | Inr ok \<Rightarrow>
                         if ok then st_return True
                         else st_bind (server_disconnectPeer BAD_CHALLENGE ''Invalid challenge response.'') (\<lambda>_. st_return False))))))"

definition accept_client_keys :: "peer_env \<Rightarrow> fresh \<Rightarrow> bytes \<Rightarrow> bytes \<Rightarrow> unit server" where
  "accept_client_keys E fr identity keyCipher =
     st_bind (st_put (\<lambda>s. s\<lparr>sv_clientIdentity := Some (pe_toHex E identity)\<rparr>)) (\<lambda>_.
     st_bind server_encryptem (\<lambda>e.
     st_bind (st_put (\<lambda>s. s\<lparr>sv_encryptem := Some (server_setClientPublicKey keyCipher e)\<rparr>)) (\<lambda>_.
     st_bind (sendServerHandshake E fr) (\<lambda>_.
     st_put (\<lambda>s. s\<lparr>sv_isAuthenticated := True\<rparr>)))))"

definition onClientCipherExchangeMessage :: "peer_env \<Rightarrow> fresh \<Rightarrow> bytes \<Rightarrow> unit server" where
  "onClientCipherExchangeMessage E fr packet =
     st_bind require_protocol (\<lambda>_.
     st_bind server_encryptem (\<lambda>_.
     st_bind (server_onIncomingPacket CLIENT_CIPHER_EXCHANGE) (\<lambda>_.
     st_bind (unpack_packet (decodeClientExchange E packet)) (\<lambda>d.
       (case (cx_clientKeyCipher d, cx_clientAuthCipher d) of
          (Some keyCipher, Some authCipher) \<Rightarrow>
            if length (cx_identity d) \<noteq> 64 then server_disconnectPeer BAD_IDENTITY ''Invalid peer identity.''
            else
              st_bind (verifySignaturePublicKey authCipher) (\<lambda>isValidSign.
                if \<not> isValidSign then st_return ()
                else st_bind (verifyChallenge E authCipher (cx_challenge d)) (\<lambda>isValidChallenge.
                  if \<not> isValidChallenge then st_return ()
                  else accept_client_keys E fr (cx_identity d) keyCipher))
        | _ \<Rightarrow> createAuthenticationFailureMessage E fr ''Invalid client authentication cipher.'')))))"

definition verifyNetwork :: "unit server" where
  "verifyNetwork =
     st_bind (st_get sv_selfIdentity) (\<lambda>self.
       (case self of
          None \<Rightarrow> st_throw SelfIdentityNotFound
        | Some i \<Rightarrow>
            st_bind (st_lift (peerNetwork i)) (\<lambda>network.
            st_bind (st_get (\<lambda>s. (sv_clientNetwork s, sv_clientChainId s))) (\<lambda>client.
              if fst client \<noteq> Some network then server_disconnectPeer BAD_NETWORK ''Invalid network.''
              else if snd client \<noteq> Some (id_chainId i) then server_disconnectPeer BAD_CHAIN_ID ''Invalid chain ID.''
              else st_return ()))))"

definition onPassedVersionCheck :: "peer_env \<Rightarrow> fresh \<Rightarrow> unit server" where
  "onPassedVersionCheck E fr =
     st_bind (st_put (\<lambda>s. s\<lparr>sv_passVersionCheck := True\<rparr>)) (\<lambda>_. createFullAuthentication E fr)"

definition accept_authentication :: "peer_env \<Rightarrow> fresh \<Rightarrow> IAuthenticationPacket \<Rightarrow> bytes \<Rightarrow> unit server" where
  "accept_authentication E fr d cipher =
     st_bind (st_put (\<lambda>s. s\<lparr>sv_clientVersion := Some (ap_version d), sv_clientNetwork := Some (ap_network d),
       sv_clientIndexerMode := Some (ap_type d), sv_clientChainId := Some (ap_chainId d)\<rparr>)) (\<lambda>_.
     st_bind verifyNetwork (\<lambda>_.
     st_bind server_encryptem (\<lambda>e.
     st_bind (st_put (\<lambda>s. s\<lparr>sv_encryptem := Some (server_setClientSignaturePublicKey cipher e)\<rparr>)) (\<lambda>_.
     onPassedVersionCheck E fr))))"

definition onAuthenticationMessage :: "peer_env \<Rightarrow> fresh \<Rightarrow> bytes \<Rightarrow> unit server" where
  "onAuthenticationMessage E fr packet =
     st_bind require_protocol (\<lambda>_.
     st_bind server_encryptem (\<lambda>_.
     st_bind (st_get sv_passVersionCheck) (\<lambda>passed.
       if passed then server_disconnectPeer BAD_VERSION ''Peer has already passed the version check.''
       else
         st_bind (server_onIncomingPacket AUTHENTICATION) (\<lambda>_.
         st_bind (unpack_packet (decodeAuthentication E packet)) (\<lambda>d.
           if \<not> mayAcceptVersion (ap_version d) then server_disconnectPeer BAD_VERSION ''Outdated protocol version.''
           else if mayAcceptProtocolChecksum (ap_version d) (ap_protocolChecksum d)
           then server_disconnectPeer BAD_PROTOCOL_CHECKSUM ''Invalid protocol checksum.''
           else (case ap_clientAuthCipher d of
               None \<Rightarrow> createAuthenticationFailureMessage E fr ''Invalid client authentication cipher.''
             | Some cipher \<Rightarrow>
                 if cipher = [] then createAuthenticationFailureMessage E fr ''Invalid client authentication cipher.''
                 else if length cipher \<noteq> 32
                 then server_disconnectPeer BAD_AUTH_CIPHER ''Invalid client authentication cipher. Invalid length.''
                 else accept_authentication E fr d cipher))))))"

definition server_onPacket :: "peer_env \<Rightarrow> fresh \<Rightarrow> byte option \<Rightarrow> bytes \<Rightarrow> bool server" where
  "server_onPacket E fr opcode packet =
     (if opcode = Some AUTHENTICATION then st_bind (onAuthenticationMessage E fr packet) (\<lambda>_. st_return True)
      else if opcode = Some CLIENT_CIPHER_EXCHANGE
      then st_bind (onClientCipherExchangeMessage E fr packet) (\<lambda>_. st_return True)
      else if opcode = Some PING then st_bind (onPingMessage E fr packet) (\<lambda>_. st_return True)
      else st_return False)"

definition server_decryptMessage :: "peer_env \<Rightarrow> bytes \<Rightarrow> bytes server" where
  "server_decryptMessage E raw s =
     (case sv_encryptem s of
        Some e \<Rightarrow>
          if sv_encryptionStarted s
          then (case server_decrypt (pe_sodium E) raw e of
              Inl err \<Rightarrow> (Inl (CryptoFailed err), s)
            | Inr None \<Rightarrow> (Inl DecryptFailed, s)
            | Inr (Some m) \<Rightarrow> (Inr m, s))
          else (Inr raw, s)
      | None \<Rightarrow> (Inr raw, s))"

definition first_byte :: "bytes \<Rightarrow> byte option" where
  "first_byte raw = (case raw of [] \<Rightarrow> None | b # bs \<Rightarrow> Some b)"

definition server_onMessage :: "peer_env \<Rightarrow> fresh \<Rightarrow> bytes \<Rightarrow> bool server" where
  "server_onMessage E fr rawBuf =
     st_bind (st_get sv_destroyed) (\<lambda>destroyed.
       if destroyed then st_return False
       else
         st_bind (server_decryptMessage E rawBuf) (\<lambda>raw.
         st_bind (server_onPacket E fr (first_byte raw) (drop 1 raw)) (\<lambda>managed.
         st_get (\<lambda>s. managed \<or> sv_isAuthenticated s \<and> 0 < sv_networkHandlers s \<and>
                    pe_handled E (first_byte raw) (drop 1 raw)))))"

definition server_peer_destroy :: "server_peer \<Rightarrow> server_peer" where
  "server_peer_destroy s =
     (if sv_destroyed s then s
      else s\<lparr>sv_destroyed := True, sv_encryptem := None, sv_protocol := None, sv_networkHandlers := 0\<rparr>)"

definition auth_timed_out :: "server_peer \<Rightarrow> server_peer" where
  "auth_timed_out s =
     (if sv_timeoutAuth s
      then snd (server_disconnectPeer AUTH_TIMED_OUT ''Authentication timeout.'' (s\<lparr>sv_timeoutAuth := False\<rparr>)) else s)"

subsection \<open>The client side\<close>

record client_peer =
  cl_selfIdentity :: "OPNetIdentity option"
  cl_encryptem :: "EncryptemClient option"
  cl_pingInterval :: bool
  cl_lastServerPing :: int
  cl_lastPing :: int
  cl_latency :: int
  cl_OPNetAuthKey :: "bytes option"
  cl_OPNetClientKeyCipher :: "bytes option"
  cl_connectionStatus :: ConnectionStatus
  cl_isAuthenticated :: bool
  cl_protocol :: "protocol_table option"
  cl_encryptionStarted :: bool
  cl_destroyed :: bool
  cl_networkHandlers :: nat
  cl_NETWORK_MAGIC :: "nat list option"
  cl_out :: "peer_output list"

type_synonym 'a client = "client_peer \<Rightarrow> (peer_error + 'a) \<times> client_peer"

text \<open>\<open>now\<close> is \<open>Long.fromInt(Date.now())\<close>; \<open>magic\<close> is the array of the node's configuration.\<close>

definition ClientPeerNetworking_new :: "OPNetIdentity option \<Rightarrow> int \<Rightarrow> nat list option \<Rightarrow> client_peer" where
  "ClientPeerNetworking_new selfIdentity now magic =
     \<lparr>cl_selfIdentity = selfIdentity, cl_encryptem = Some EncryptemClient_new, cl_pingInterval = False,
      cl_lastServerPing = now, cl_lastPing = now, cl_latency = 0, cl_OPNetAuthKey = None,
      cl_OPNetClientKeyCipher = None, cl_connectionStatus = DISCONNECTED, cl_isAuthenticated = False,
      cl_protocol = Some HandshakeTable, cl_encryptionStarted = False, cl_destroyed = False,
      cl_networkHandlers = 0, cl_NETWORK_MAGIC = magic, cl_out = []\<rparr>"

definition client_disconnectPeer :: "DisconnectionCode \<Rightarrow> string \<Rightarrow> unit client" where
  "client_disconnectPeer code reason = st_put (\<lambda>s. s\<lparr>cl_out := cl_out s @ [Disconnect code reason]\<rparr>)"

definition client_require_protocol :: "unit client" where
  "client_require_protocol s = (case cl_protocol s of None \<Rightarrow> (Inl ProtocolNotFound, s) | Some t \<Rightarrow> (Inr (), s))"

definition encryptemClient :: "EncryptemClient client" where
  "encryptemClient s = (case cl_encryptem s of None \<Rightarrow> (Inl EncryptemNotFound, s) | Some c \<Rightarrow> (Inr c, s))"

definition client_onIncomingPacket :: "byte \<Rightarrow> unit client" where
  "client_onIncomingPacket opcode s =
     (case cl_protocol s of
        None \<Rightarrow> (Inl ProtocolNotFound, s)
      | Some t \<Rightarrow> if opcode \<in> set (accepted_opcodes t) then (Inr (), s) else (Inl InvalidOpcode, s))"

definition client_sendMsg :: "peer_env \<Rightarrow> fresh \<Rightarrow> bytes \<Rightarrow> unit client" where
  "client_sendMsg E fr buffer s =
     (case cl_encryptem s of
        None \<Rightarrow> (Inl EncryptemNotFound, s)
      | Some c \<Rightarrow>
          (case (if cl_encryptionStarted s then client_encrypt (pe_sodium E) (fr_nonce fr) buffer c else Inr buffer) of
             Inl err \<Rightarrow> (Inr (), s)
           | Inr b \<Rightarrow> (Inr (), s\<lparr>cl_out := cl_out s @ [Sent b]\<rparr>)))"

definition buildKeyCipherExchangeClientPacket :: "peer_env \<Rightarrow> fresh \<Rightarrow> bytes \<Rightarrow> unit client" where
  "buildKeyCipherExchangeClientPacket E fr challenge =
     st_bind (st_get cl_selfIdentity) (\<lambda>self.
       (case self of
          None \<Rightarrow> st_throw SelfIdentityNotFound
        | Some i \<Rightarrow>
            st_bind (st_get (\<lambda>s. (cl_OPNetAuthKey s, cl_OPNetClientKeyCipher s))) (\<lambda>keys.
              (case keys of
                 (Some authKey, Some keyCipher) \<Rightarrow>
                   st_bind client_require_protocol (\<lambda>_.
                   st_bind (pack_packet CLIENT_CIPHER_EXCHANGE (encodeClientExchange E
                     \<lparr>cx_clientKeyCipher = Some keyCipher, cx_clientAuthCipher = Some authKey,
                      cx_identity = kp_hash (restoreKeyPair (id_authKeyBin i)),
                      cx_challenge = Some (identityChallenge (pe_sodium E) i challenge)\<rparr>)) (client_sendMsg E fr))
               | _ \<Rightarrow> st_throw AuthKeyNotSelected))))"

definition sendPing :: "peer_env \<Rightarrow> fresh \<Rightarrow> int \<Rightarrow> unit client" where
  "sendPing E fr now =
     st_bind client_require_protocol (\<lambda>_.
     st_bind (st_put (\<lambda>s. s\<lparr>cl_lastPing := now\<rparr>)) (\<lambda>_.
     st_bind (st_get cl_lastServerPing) (\<lambda>lastServerPing.
     st_bind (pack_packet PING (encodePing E \<lparr>pg_timestamp = now, pg_lastPing = lastServerPing\<rparr>))
       (client_sendMsg E fr))))"

definition setupEncryptem :: "fresh \<Rightarrow> bytes \<Rightarrow> bool client" where
  "setupEncryptem fr authKey =
     st_bind encryptemClient (\<lambda>c.
       (let (ok, c') = generateClientCipherKeyPair (fr_keys fr) authKey (client_destroy c) in
        st_bind (st_put (\<lambda>s. s\<lparr>cl_encryptem := Some c'\<rparr>)) (\<lambda>_. st_return ok)))"

text \<open>The promise of \<open>setupKey\<close> is rejected first when the keys have a wrong length, but the keys are still kept.\<close>

definition setupKey :: "fresh \<Rightarrow> bytes \<Rightarrow> unit client" where
  "setupKey fr key =
     st_bind (setupEncryptem fr key) (\<lambda>isOk.
     st_bind encryptemClient (\<lambda>c.
       (case (ec_clientPublicKey c, ec_clientSignaturePublicKey c) of
          (Some publicKey, Some authKey) \<Rightarrow>
            st_bind (st_put (\<lambda>s. s\<lparr>cl_OPNetClientKeyCipher := Some publicKey, cl_OPNetAuthKey := Some authKey\<rparr>)) (\<lambda>_.
            if isOk then st_return () else st_throw EncryptemSetupFailed)
        | _ \<Rightarrow> st_throw PublicKeyMissing)))"

definition read_magic :: "nat option client" where
  "read_magic =
     st_bind (st_get cl_NETWORK_MAGIC) (\<lambda>magic.
       if hasMagicNumber magic
       then (case magicNumber magic of
           Inl err \<Rightarrow> st_throw err
         | Inr (n, magic') \<Rightarrow> st_bind (st_put (\<lambda>s. s\<lparr>cl_NETWORK_MAGIC := magic'\<rparr>)) (\<lambda>_. st_return (Some n)))
       else st_return None)"

definition attemptAuth :: "peer_env \<Rightarrow> fresh \<Rightarrow> bytes \<Rightarrow> unit client" where
  "attemptAuth E fr key =
     st_bind (st_get cl_selfIdentity) (\<lambda>self.
       (case self of
          None \<Rightarrow> st_throw SelfIdentityNotFound
        | Some i \<Rightarrow>
            st_bind (st_put (\<lambda>s. s\<lparr>cl_connectionStatus := AUTHENTICATING\<rparr>)) (\<lambda>_.
            st_bind client_require_protocol (\<lambda>_.
            st_bind (setupKey fr key) (\<lambda>_.
            st_bind (st_get cl_OPNetAuthKey) (\<lambda>authKey.
              (case authKey of
                 None \<Rightarrow> st_throw AuthKeyNotSelected
               | Some cipher \<Rightarrow>
                   st_bind (st_lift protocolChecksum) (\<lambda>checksum.
                   st_bind (st_lift (peerNetwork i)) (\<lambda>network.
                   st_bind read_magic (\<lambda>magic.
                   st_bind (pack_packet AUTHENTICATION (encodeAuthentication E
                     \<lparr>ap_version = P2PVersion, ap_clientAuthCipher = Some cipher, ap_protocolChecksum = checksum,
                      ap_type = peerType i, ap_network = network, ap_chainId = id_chainId i,
                      ap_magicNumber = magic\<rparr>)) (client_sendMsg E fr)))))))))))"

definition login :: "peer_env \<Rightarrow> fresh \<Rightarrow> unit client" where
  "login E fr =
     st_bind (st_get cl_destroyed) (\<lambda>destroyed.
       if destroyed then st_return ()
       else st_bind (st_get cl_selfIdentity) (\<lambda>self.
         (case self of
            None \<Rightarrow> st_throw SelfIdentityNotFound
          | Some i \<Rightarrow>
              (\<lambda>s. case attemptAuth E fr (id_authKeyBin i) s of
                 (Inl e, s') \<Rightarrow> client_disconnectPeer UNABLE_TO_AUTHENTICATE ''Failed to authenticate with peer.'' s'
               | (Inr u, s') \<Rightarrow> (Inr u, s')))))"

definition logout :: "unit client" where
  "logout =
     st_bind (st_put (\<lambda>s. s\<lparr>cl_OPNetAuthKey := None, cl_OPNetClientKeyCipher := None\<rparr>)) (\<lambda>_.
     client_disconnectPeer EXPECTED ''Goodbye.'')"

text \<open>The first ping is sent at once, without waiting for it; a failure there is lost.\<close>

definition startPingInterval :: "peer_env \<Rightarrow> fresh \<Rightarrow> int \<Rightarrow> unit client" where
  "startPingInterval E fr now =
     st_bind (st_put (\<lambda>s. s\<lparr>cl_pingInterval := True\<rparr>)) (\<lambda>_.
     (\<lambda>s. (Inr (), snd (sendPing E fr now s))))"

definition client_onAuthenticated :: "peer_env \<Rightarrow> fresh \<Rightarrow> int \<Rightarrow> unit client" where
  "client_onAuthenticated E fr now =
     st_bind client_require_protocol (\<lambda>_.
     st_bind (st_put (\<lambda>s. s\<lparr>cl_protocol := Some SessionTable\<rparr>)) (\<lambda>_.
     st_bind (startPingInterval E fr now) (\<lambda>_.
     st_put (\<lambda>s. s\<lparr>cl_isAuthenticated := True, cl_networkHandlers := cl_networkHandlers s + 3\<rparr>))))"

definition setCipherKeys :: "bytes \<Rightarrow> bytes \<Rightarrow> unit client" where
  "setCipherKeys serverKeyCipher serverSigningCipher =
     st_bind encryptemClient (\<lambda>c.
     st_put (\<lambda>s. s\<lparr>cl_encryptem :=
       Some (client_setServerSignaturePublicKey serverSigningCipher (client_setServerPublicKey serverKeyCipher c))\<rparr>))"

definition handleServerCipherExchangePacket :: "peer_env \<Rightarrow> fresh \<Rightarrow> int \<Rightarrow> bytes \<Rightarrow> unit client" where
  "handleServerCipherExchangePacket E fr now packet =
     st_bind (client_onIncomingPacket SERVER_CIPHER_EXCHANGE) (\<lambda>_.
     st_bind (unpack_packet (decodeServerExchange E packet)) (\<lambda>d.
       (case (sx_encryptionEnabled d, sx_serverKeyCipher d, sx_serverSigningCipher d) of
          (True, Some keyCipher, Some signingCipher) \<Rightarrow>
            st_bind (setCipherKeys keyCipher signingCipher) (\<lambda>_.
            st_bind (st_put (\<lambda>s. s\<lparr>cl_encryptionStarted := True\<rparr>)) (\<lambda>_.
            client_onAuthenticated E fr now))
        | _ \<Rightarrow> st_throw InvalidServerCipher)))"

definition handleAuthenticationStatusPacket :: "peer_env \<Rightarrow> fresh \<Rightarrow> bytes \<Rightarrow> unit client" where
  "handleAuthenticationStatusPacket E fr packet =
     st_bind (client_onIncomingPacket AUTHENTICATION_STATUS) (\<lambda>_.
     st_bind (unpack_packet (decodeStatus E packet)) (\<lambda>d.
       (case (as_status d, as_challenge d) of
          (SUCCESS, Some challenge) \<Rightarrow>
            st_bind (buildKeyCipherExchangeClientPacket E fr challenge) (\<lambda>_.
            st_put (\<lambda>s. s\<lparr>cl_connectionStatus := AUTHENTICATION_SUCCESS\<rparr>))
        | _ \<Rightarrow> st_put (\<lambda>s. s\<lparr>cl_connectionStatus := AUTHENTICATION_FAILED\<rparr>))))"

definition handlePongPacket :: "int \<Rightarrow> unit client" where
  "handlePongPacket now =
     st_bind (client_onIncomingPacket PONG) (\<lambda>_.
     st_put (\<lambda>s. s\<lparr>cl_latency := now - cl_lastPing s\<rparr>))"

definition client_onPacket :: "peer_env \<Rightarrow> fresh \<Rightarrow> int \<Rightarrow> byte option \<Rightarrow> bytes \<Rightarrow> bool client" where
  "client_onPacket E fr now opcode packet =
     (if opcode = Some AUTHENTICATION_STATUS
      then st_bind (handleAuthenticationStatusPacket E fr packet) (\<lambda>_. st_return True)
      else if opcode = Some SERVER_CIPHER_EXCHANGE
      then st_bind (handleServerCipherExchangePacket E fr now packet) (\<lambda>_. st_return True)
      else if opcode = Some PONG then st_bind (handlePongPacket now) (\<lambda>_. st_return True)
      else st_return False)"

definition client_decryptMessage :: "peer_env \<Rightarrow> bytes \<Rightarrow> bytes client" where
  "client_decryptMessage E raw s =
     (case cl_encryptem s of
        Some c \<Rightarrow>
          if cl_encryptionStarted s
          then (case client_decrypt (pe_sodium E) raw c of Inl err \<Rightarrow> (Inl (CryptoFailed err), s) | Inr m \<Rightarrow> (Inr m, s))
          else (Inr raw, s)
      | None \<Rightarrow> (Inr raw, s))"

definition client_onMessage :: "peer_env \<Rightarrow> fresh \<Rightarrow> int \<Rightarrow> bytes \<Rightarrow> bool client" where
  "client_onMessage E fr now rawBuf =
     st_bind (st_get cl_destroyed) (\<lambda>destroyed.
       if destroyed then st_return False
       else
         st_bind (client_decryptMessage E rawBuf) (\<lambda>raw.
         st_bind (client_onPacket E fr now (first_byte raw) (drop 1 raw)) (\<lambda>managed.
         st_get (\<lambda>s. managed \<or> cl_isAuthenticated s \<and> 0 < cl_networkHandlers s \<and>
                    pe_handled E (first_byte raw) (drop 1 raw)))))"

definition client_peer_destroy :: "client_peer \<Rightarrow> client_peer" where
  "client_peer_destroy s =
     (if cl_destroyed s then s
      else s\<lparr>cl_destroyed := True, cl_selfIdentity := None, cl_encryptem := None, cl_protocol := None,
             cl_networkHandlers := 0, cl_pingInterval := False\<rparr>)"

subsection \<open>What the server has established\<close>

text \<open>
  The states of a server side: it is created, receives any messages, one after the other, may time out
  and may be destroyed.
\<close>

inductive server_reachable :: "peer_env \<Rightarrow> OPNetIdentity option \<Rightarrow> server_peer \<Rightarrow> bool"
  for E :: peer_env and i :: "OPNetIdentity option" where
  created: "server_reachable E i (ServerPeerNetworking_new i)"
| message: "server_reachable E i s \<Longrightarrow> server_reachable E i (snd (server_onMessage E fr raw s))"
| timeout: "server_reachable E i s \<Longrightarrow> server_reachable E i (auth_timed_out s)"
| destroyed: "server_reachable E i s \<Longrightarrow> server_reachable E i (server_peer_destroy s)"

definition same_network :: "OPNetIdentity option \<Rightarrow> server_peer \<Rightarrow> bool" where
  "same_network i s \<longleftrightarrow> (\<exists>i' n. i = Some i' \<and> peerNetwork i' = Inr n \<and> sv_clientNetwork s = Some n \<and>
     sv_clientChainId s = Some (id_chainId i'))"

definition asked_to_leave :: "DisconnectionCode list \<Rightarrow> server_peer \<Rightarrow> bool" where
  "asked_to_leave codes s \<longleftrightarrow> (\<exists>code\<in>set codes. \<exists>reason. Disconnect code reason \<in> set (sv_out s))"

text \<open>The version check has passed: the version is acceptable and the network is ours, or the peer was asked to leave.\<close>

definition version_checked :: "OPNetIdentity option \<Rightarrow> server_peer \<Rightarrow> bool" where
  "version_checked i s \<longleftrightarrow> (\<exists>v. sv_clientVersion s = Some v \<and> mayAcceptVersion v) \<and>
     (same_network i s \<or> asked_to_leave [BAD_NETWORK, BAD_CHAIN_ID] s)"

text \<open>The peer has signed the challenge with the key it declared.\<close>

definition challenge_signed :: "peer_env \<Rightarrow> server_peer \<Rightarrow> bool" where
  "challenge_signed E s \<longleftrightarrow>
     (\<exists>ch sig key. sv_identityChallenge s = Some ch \<and> length key = 32 \<and>
        verifyChallengeSignature (pe_sodium E) ch sig key = Inr True \<and>
        (\<forall>e. sv_encryptem s = Some e \<longrightarrow> es_clientSignaturePublicKey e = Some key))"

text \<open>The keys the server holds once it has sent a challenge.\<close>

definition challenged_keys :: "EncryptemServer \<Rightarrow> bool" where
  "challenged_keys e \<longleftrightarrow> es_serverPublicKey e \<noteq> None \<and> es_serverPrivateKey e \<noteq> None \<and>
     es_serverSignaturePublicKey e \<noteq> None \<and>
     (\<exists>key. es_clientSignaturePublicKey e = Some key \<and> length key = 32)"

definition server_inv :: "peer_env \<Rightarrow> OPNetIdentity option \<Rightarrow> server_peer \<Rightarrow> bool" where
  "server_inv E i s \<longleftrightarrow>
     sv_selfIdentity s = i \<and>
     (sv_destroyed s \<longleftrightarrow> sv_encryptem s = None) \<and> (sv_destroyed s \<longleftrightarrow> sv_protocol s = None) \<and>
     (sv_passVersionCheck s \<longrightarrow> version_checked i s) \<and>
     (sv_identityChallenge s \<noteq> None \<longrightarrow> sv_passVersionCheck s \<and> (\<forall>e. sv_encryptem s = Some e \<longrightarrow> challenged_keys e)) \<and>
     (sv_encryptionStarted s \<longleftrightarrow> sv_isAuthenticated s) \<and>
     (sv_isAuthenticated s \<longrightarrow> challenge_signed E s \<and> sv_protocol s \<noteq> Some HandshakeTable \<and>
        (\<forall>e. sv_encryptem s = Some e \<longrightarrow> es_clientPublicKey e \<noteq> None)) \<and>
     (\<not> sv_isAuthenticated s \<longrightarrow> sv_protocol s \<noteq> Some SessionTable) \<and>
     sv_networkHandlers s = (if sv_isAuthenticated s \<and> \<not> sv_destroyed s then 3 else 0)"

text \<open>What is sent and asked for only grows, and the invariant does not look at it otherwise.\<close>

lemma server_inv_out:
  assumes "server_inv E i s"
  shows "server_inv E i (s\<lparr>sv_out := sv_out s @ os\<rparr>)"
  using assms by (auto simp: server_inv_def version_checked_def same_network_def asked_to_leave_def challenge_signed_def)

lemma server_inv_timeout: "server_inv E i s \<Longrightarrow> server_inv E i (s\<lparr>sv_timeoutAuth := b\<rparr>)"
  by (auto simp: server_inv_def version_checked_def same_network_def asked_to_leave_def challenge_signed_def)

lemma server_inv_identity: "server_inv E i s \<Longrightarrow> server_inv E i (s\<lparr>sv_clientIdentity := d\<rparr>)"
  by (auto simp: server_inv_def version_checked_def same_network_def asked_to_leave_def challenge_signed_def)

abbreviation keeps_inv :: "peer_env \<Rightarrow> OPNetIdentity option \<Rightarrow> 'a server \<Rightarrow> bool" where
  "keeps_inv E i m \<equiv> st_keeps (server_inv E i) m"

lemma disconnect_keeps: "keeps_inv E i (server_disconnectPeer code reason)"
  unfolding server_disconnectPeer_def by (intro st_keeps_put server_inv_out)

lemma sendMsg_keeps: "keeps_inv E i (server_sendMsg F fr b)"
  by (rule st_keepsI) (auto simp: server_sendMsg_def server_inv_out split: option.splits sum.splits)

lemma pack_keeps: "st_keeps P (pack_packet opcode m)" "st_keeps P (unpack_packet d)"
  by (simp_all add: pack_packet_def unpack_packet_def)

lemma reads_keep: "st_keeps P require_protocol" "st_keeps P server_encryptem" "st_keeps P (server_onIncomingPacket opcode)"
  "st_keeps P (server_decryptMessage E raw)"
  by (simp_all add: st_keeps_def require_protocol_def server_encryptem_def server_onIncomingPacket_def
      server_decryptMessage_def split: option.splits sum.splits)

lemmas server_keeps = disconnect_keeps sendMsg_keeps pack_keeps reads_keep st_keeps_intros

lemma status_keeps: "keeps_inv E i (sendAuthenticationStatusPacket F fr d)"
  unfolding sendAuthenticationStatusPacket_def by (intro server_keeps)

lemma failure_keeps: "keeps_inv E i (createAuthenticationFailureMessage F fr d)"
  unfolding createAuthenticationFailureMessage_def by (rule status_keeps)

lemma ping_keeps: "keeps_inv E i (onPingMessage F fr packet)"
  unfolding onPingMessage_def by (intro server_keeps)

lemma key_check_keeps: "keeps_inv E i (verifySignaturePublicKey key)"
  unfolding verifySignaturePublicKey_def by (intro server_keeps) simp_all

lemmas server_inv_defs = server_inv_def version_checked_def same_network_def asked_to_leave_def challenge_signed_def
  challenged_keys_def

abbreviation keeps_from :: "(server_peer \<Rightarrow> bool) \<Rightarrow> peer_env \<Rightarrow> OPNetIdentity option \<Rightarrow> unit server \<Rightarrow> bool" where
  "keeps_from Pre E i m \<equiv> triple Pre m (\<lambda>_. server_inv E i) (\<lambda>_. server_inv E i)"

lemma keeps_fromI: "keeps_inv E i m \<Longrightarrow> (\<And>s. Pre s \<Longrightarrow> server_inv E i s) \<Longrightarrow> keeps_from Pre E i m"
  by (rule triple_keeps)

lemma unchallenged:
  "server_inv E i s \<Longrightarrow> \<not> sv_passVersionCheck s \<Longrightarrow>
   sv_identityChallenge s = None \<and> \<not> sv_isAuthenticated s \<and> \<not> sv_encryptionStarted s"
  by (auto simp: server_inv_def challenge_signed_def)

lemma version_checked_frame [simp]:
  "version_checked i (s\<lparr>sv_encryptem := x\<rparr>) = version_checked i s"
  "version_checked i (s\<lparr>sv_passVersionCheck := b\<rparr>) = version_checked i s"
  by (simp_all add: version_checked_def same_network_def asked_to_leave_def)

lemma inv_new_encryptem:
  assumes "server_inv E i s" "\<not> sv_passVersionCheck s" "sv_encryptem s = Some e"
  shows "server_inv E i (s\<lparr>sv_encryptem := Some e'\<rparr>)"
  using assms unchallenged [OF assms(1,2)] by (auto simp: server_inv_def)

lemma inv_passed:
  assumes "server_inv E i s" "\<not> sv_passVersionCheck s" "version_checked i s"
  shows "server_inv E i (s\<lparr>sv_passVersionCheck := True\<rparr>)"
  using assms unchallenged [OF assms(1,2)] by (auto simp: server_inv_def)

lemma verifyNetwork_checks:
  "triple (\<lambda>s. server_inv E i s \<and> \<not> sv_passVersionCheck s \<and> (\<exists>v. sv_clientVersion s = Some v \<and> mayAcceptVersion v))
     verifyNetwork
     (\<lambda>_ s. server_inv E i s \<and> \<not> sv_passVersionCheck s \<and> version_checked i s) (\<lambda>_. server_inv E i)"
  unfolding triple_def
proof (intro allI impI, elim conjE)
  fix s :: server_peer
  assume inv: "server_inv E i s" and n: "\<not> sv_passVersionCheck s"
    and v: "\<exists>v. sv_clientVersion s = Some v \<and> mayAcceptVersion v"
  then have i: "sv_selfIdentity s = i" by (simp add: server_inv_def)
  have out: "server_inv E i (s\<lparr>sv_out := sv_out s @ [o1]\<rparr>)" for o1 by (rule server_inv_out [OF inv])
  show "case verifyNetwork s of (Inl e, s') \<Rightarrow> server_inv E i s'
      | (Inr x, s') \<Rightarrow> server_inv E i s' \<and> \<not> sv_passVersionCheck s' \<and> version_checked i s'"
    using inv n v i out
    by (auto simp: verifyNetwork_def st_bind_def st_simps server_disconnectPeer_def version_checked_def same_network_def
        asked_to_leave_def split: option.splits sum.splits)
qed

lemma full_authentication_keeps:
  "keeps_from (\<lambda>s. server_inv E i s \<and> sv_passVersionCheck s \<and> \<not> sv_isAuthenticated s \<and> sv_identityChallenge s = None \<and>
     (\<forall>e. sv_encryptem s = Some e \<longrightarrow> (\<exists>key. es_clientSignaturePublicKey e = Some key \<and> length key = 32)))
     E i (createFullAuthentication F fr)"
  unfolding triple_def
proof (intro allI impI, elim conjE)
  fix s :: server_peer
  assume inv: "server_inv E i s" and p: "sv_passVersionCheck s" "\<not> sv_isAuthenticated s" "sv_identityChallenge s = None"
    and k: "\<forall>e. sv_encryptem s = Some e \<longrightarrow> (\<exists>key. es_clientSignaturePublicKey e = Some key \<and> length key = 32)"
  let ?Q = "\<lambda>r. case r of (Inl e, s') \<Rightarrow> server_inv E i s' | (Inr x, s') \<Rightarrow> server_inv E i s'"
  show "?Q (createFullAuthentication F fr s)"
  proof (cases "sv_encryptem s")
    case None
    then show ?thesis using inv by (simp add: createFullAuthentication_def st_bind_def server_encryptem_def)
  next
    case (Some e)
    let ?s = "s\<lparr>sv_encryptem := Some (generateServerCipherKeyPair (pe_sodium F) (fr_keys fr) e),
        sv_identityChallenge := Some (fr_challenge fr)\<rparr>"
    have inv': "server_inv E i ?s"
      using inv p k Some by (auto simp: server_inv_defs generateServerCipherKeyPair_def split: prod.splits)
    let ?send = "sendAuthenticationStatusPacket F fr
        \<lparr>as_status = SUCCESS, as_message = ''Pre auth valid.'', as_challenge = Some (fr_challenge fr)\<rparr>"
    have "server_inv E i (snd (?send ?s))" using status_keeps [of E i] inv' by (simp add: st_keeps_def)
    moreover have "\<not> sv_encryptionStarted s" using inv p(2) by (simp add: server_inv_def)
    ultimately show ?thesis
      using Some p(3) server_inv_timeout [of E i "snd (?send ?s)" False]
      by (auto simp: createFullAuthentication_def st_bind_def st_simps server_encryptem_def generateChallenge_def
          split: prod.splits sum.splits)
  qed
qed

lemma accept_authentication_keeps:
  assumes v: "mayAcceptVersion (ap_version d)" and c: "length cipher = 32"
  shows "keeps_from (\<lambda>s. server_inv E i s \<and> \<not> sv_passVersionCheck s) E i (accept_authentication F fr d cipher)"
  unfolding accept_authentication_def onPassedVersionCheck_def
proof (intro triple_bind)
  show "triple (\<lambda>s. server_inv E i s \<and> \<not> sv_passVersionCheck s)
      (st_put (\<lambda>s. s\<lparr>sv_clientVersion := Some (ap_version d), sv_clientNetwork := Some (ap_network d),
        sv_clientIndexerMode := Some (ap_type d), sv_clientChainId := Some (ap_chainId d)\<rparr>))
      (\<lambda>_ s. server_inv E i s \<and> \<not> sv_passVersionCheck s \<and> (\<exists>v. sv_clientVersion s = Some v \<and> mayAcceptVersion v))
      (\<lambda>_. server_inv E i)"
    using v unchallenged by (intro triple_put) (auto simp: server_inv_defs)
  show "triple (\<lambda>s. server_inv E i s \<and> \<not> sv_passVersionCheck s \<and> (\<exists>v. sv_clientVersion s = Some v \<and> mayAcceptVersion v))
      verifyNetwork (\<lambda>_ s. server_inv E i s \<and> \<not> sv_passVersionCheck s \<and> version_checked i s) (\<lambda>_. server_inv E i)"
    by (rule verifyNetwork_checks)
  show "triple (\<lambda>s. server_inv E i s \<and> \<not> sv_passVersionCheck s \<and> version_checked i s) server_encryptem
      (\<lambda>e s. server_inv E i s \<and> \<not> sv_passVersionCheck s \<and> version_checked i s \<and> sv_encryptem s = Some e) (\<lambda>_. server_inv E i)"
    by (auto simp: triple_def server_encryptem_def split: option.splits)
  fix e
  show "triple (\<lambda>s. server_inv E i s \<and> \<not> sv_passVersionCheck s \<and> version_checked i s \<and> sv_encryptem s = Some e)
      (st_put (\<lambda>s. s\<lparr>sv_encryptem := Some (server_setClientSignaturePublicKey cipher e)\<rparr>))
      (\<lambda>_ s. server_inv E i s \<and> \<not> sv_passVersionCheck s \<and> version_checked i s \<and>
        (\<forall>e. sv_encryptem s = Some e \<longrightarrow> es_clientSignaturePublicKey e = Some cipher)) (\<lambda>_. server_inv E i)"
    by (intro triple_put) (auto simp: inv_new_encryptem server_setClientSignaturePublicKey_def)
  show "triple (\<lambda>s. server_inv E i s \<and> \<not> sv_passVersionCheck s \<and> version_checked i s \<and>
        (\<forall>e. sv_encryptem s = Some e \<longrightarrow> es_clientSignaturePublicKey e = Some cipher))
      (st_put (\<lambda>s. s\<lparr>sv_passVersionCheck := True\<rparr>))
      (\<lambda>_ s. server_inv E i s \<and> sv_passVersionCheck s \<and> \<not> sv_isAuthenticated s \<and> sv_identityChallenge s = None \<and>
        (\<forall>e. sv_encryptem s = Some e \<longrightarrow> (\<exists>key. es_clientSignaturePublicKey e = Some key \<and> length key = 32)))
      (\<lambda>_. server_inv E i)"
    using c by (intro triple_put) (auto simp: inv_passed dest: unchallenged)
  show "keeps_from (\<lambda>s. server_inv E i s \<and> sv_passVersionCheck s \<and> \<not> sv_isAuthenticated s \<and> sv_identityChallenge s = None \<and>
     (\<forall>e. sv_encryptem s = Some e \<longrightarrow> (\<exists>key. es_clientSignaturePublicKey e = Some key \<and> length key = 32)))
     E i (createFullAuthentication F fr)"
    by (rule full_authentication_keeps)
qed

lemma authentication_keeps: "keeps_inv E i (onAuthenticationMessage F fr packet)"
proof (rule st_keepsI)
  fix s :: server_peer
  assume inv: "server_inv E i s"
  have accept: "server_inv E i (snd (accept_authentication F fr d cipher s))"
    if "mayAcceptVersion (ap_version d)" "length cipher = 32" "\<not> sv_passVersionCheck s" for d cipher
    using tripleD [OF accept_authentication_keeps [OF that(1,2)], of E i s F fr] inv that(3)
    by (auto split: prod.splits sum.splits)
  have leave: "server_inv E i (snd (server_disconnectPeer code reason s))"
    "server_inv E i (snd (createAuthenticationFailureMessage F fr m s))" for code reason m
    using disconnect_keeps [of E i] failure_keeps [of E i] inv by (simp_all add: st_keeps_def)
  show "server_inv E i (snd (onAuthenticationMessage F fr packet s))"
    using inv accept leave
    by (auto simp: onAuthenticationMessage_def st_bind_def st_simps require_protocol_def server_encryptem_def
        server_onIncomingPacket_def unpack_packet_def split: option.splits)
qed

lemma onAuthenticated_result:
  "sv_protocol s = Some t \<Longrightarrow> server_onAuthenticated s =
     (Inr (), s\<lparr>sv_protocol := Some SessionTable, sv_isAuthenticated := True, sv_networkHandlers := sv_networkHandlers s + 3\<rparr>)"
  by (simp add: server_onAuthenticated_def st_bind_def st_simps require_protocol_def)

text \<open>A handshake packet is read only before the authentication, with the keys of a challenge in place.\<close>

lemma handshake_phase:
  assumes "server_inv E i s" "server_onIncomingPacket CLIENT_CIPHER_EXCHANGE s = (Inr (), s)"
  shows "\<not> sv_isAuthenticated s" "\<not> sv_encryptionStarted s" "sv_protocol s = Some HandshakeTable" "\<exists>e. sv_encryptem s = Some e"
proof -
  have "(CLIENT_CIPHER_EXCHANGE :: byte) \<notin> set (accepted_opcodes SessionTable)" by simp
  then have "sv_protocol s \<noteq> Some SessionTable" "sv_protocol s \<noteq> None"
    using assms(2) by (auto simp: server_onIncomingPacket_def simp del: accepted_opcodes.simps split: option.splits)
  then show p: "sv_protocol s = Some HandshakeTable" by (metis not_None_eq protocol_table.exhaust)
  then show "\<not> sv_isAuthenticated s" "\<not> sv_encryptionStarted s" "\<exists>e. sv_encryptem s = Some e"
    using assms(1) by (auto simp: server_inv_def)
qed

lemma accept_client_keys_keeps:
  assumes inv: "server_inv E i s" and p: "sv_protocol s = Some HandshakeTable"
    and ch: "sv_identityChallenge s = Some ch" and e: "sv_encryptem s = Some e"
    and k: "es_clientSignaturePublicKey e = Some key"
    and sig: "verifyChallengeSignature (pe_sodium E) ch sg key = Inr True"
  shows "server_inv E i (snd (accept_client_keys E fr identity keyCipher s))"
proof -
  let ?e = "server_setClientPublicKey keyCipher e"
  let ?s = "s\<lparr>sv_clientIdentity := Some (pe_toHex E identity), sv_encryptem := Some ?e\<rparr>"
  have n: "\<not> sv_isAuthenticated s" "\<not> sv_encryptionStarted s" using inv p by (auto simp: server_inv_def)
  have keys: "challenged_keys e" and passed: "sv_passVersionCheck s" using inv ch e by (auto simp: server_inv_def)
  then obtain spk ssp where sp: "es_serverPublicKey e = Some spk" "es_serverSignaturePublicKey e = Some ssp"
    by (auto simp: challenged_keys_def)
  have inv1: "server_inv E i ?s"
    using inv n e keys p by (auto simp: server_inv_def version_checked_def same_network_def asked_to_leave_def
        challenged_keys_def server_setClientPublicKey_def)
  let ?p = "pack_packet SERVER_CIPHER_EXCHANGE (encodeServerExchange E \<lparr>sx_serverKeyCipher = Some spk,
      sx_serverSigningCipher = Some ssp, sx_encryptionEnabled = True\<rparr>)"
  have start: "accept_client_keys E fr identity keyCipher s =
      st_bind (sendServerHandshake E fr) (\<lambda>_. st_put (\<lambda>s. s\<lparr>sv_isAuthenticated := True\<rparr>)) ?s"
    by (simp add: accept_client_keys_def st_bind_def st_simps server_encryptem_def e)
  have shake: "sendServerHandshake E fr ?s =
      st_bind ?p (\<lambda>packet. st_bind (server_sendMsg E fr packet) (\<lambda>_.
        st_bind (st_put (\<lambda>s. s\<lparr>sv_encryptionStarted := True\<rparr>)) (\<lambda>_. server_onAuthenticated))) ?s"
    using n p sp by (simp add: sendServerHandshake_def st_bind_def st_simps server_encryptem_def require_protocol_def
        server_setClientPublicKey_def)
  show ?thesis
  proof (cases "encodeServerExchange E \<lparr>sx_serverKeyCipher = Some spk, sx_serverSigningCipher = Some ssp, sx_encryptionEnabled = True\<rparr>")
    case None
    then show ?thesis using inv1 by (simp add: start shake pack_packet_def st_bind_def st_simps)
  next
    case (Some m)
    have "server_sendMsg E fr (SERVER_CIPHER_EXCHANGE # m) ?s = (Inr (), ?s\<lparr>sv_out := sv_out s @ [Sent (SERVER_CIPHER_EXCHANGE # m)]\<rparr>)"
      using n by (simp add: server_sendMsg_def)
    then have "snd (accept_client_keys E fr identity keyCipher s) =
        ?s\<lparr>sv_out := sv_out s @ [Sent (SERVER_CIPHER_EXCHANGE # m)], sv_encryptionStarted := True, sv_protocol := Some SessionTable,
           sv_isAuthenticated := True, sv_networkHandlers := sv_networkHandlers s + 3\<rparr>"
      using p Some by (simp add: start shake pack_packet_def st_bind_def st_simps onAuthenticated_result)
    then show ?thesis
      using server_inv_out [OF inv1, of "[Sent (SERVER_CIPHER_EXCHANGE # m)]"] n keys k ch e sig p passed inv
      by (auto simp: server_inv_def version_checked_def same_network_def asked_to_leave_def challenge_signed_def
          challenged_keys_def server_setClientPublicKey_def)
  qed
qed

lemma verifyChallenge_result:
  assumes "verifyChallenge E key response s = (Inr True, s')"
  obtains ch sg where "s' = s" "sv_identityChallenge s = Some ch" "verifyChallengeSignature (pe_sodium E) ch sg key = Inr True"
  using assms by (auto simp: verifyChallenge_def st_bind_def st_simps server_disconnectPeer_def
      split: option.splits if_splits sum.splits)

lemma verifyChallenge_keeps: "keeps_inv E i (verifyChallenge F key response)"
  unfolding verifyChallenge_def by (intro server_keeps) (simp_all add: server_keeps split: sum.splits)

lemma verifySignaturePublicKey_result:
  assumes "verifySignaturePublicKey key s = (Inr True, s')"
  shows "s' = s \<and> (\<exists>e. sv_encryptem s = Some e \<and> es_clientSignaturePublicKey e = Some key)"
  using assms by (auto simp: verifySignaturePublicKey_def st_bind_def st_simps server_disconnectPeer_def server_encryptem_def
      split: option.splits if_splits)

lemma checked_exchange_keeps:
  assumes inv: "server_inv E i s" and p: "sv_protocol s = Some HandshakeTable"
  shows "server_inv E i (snd (st_bind (verifySignaturePublicKey key) (\<lambda>isValidSign.
     if \<not> isValidSign then st_return ()
     else st_bind (verifyChallenge E key response) (\<lambda>isValidChallenge.
       if \<not> isValidChallenge then st_return () else accept_client_keys E fr identity keyCipher)) s))"
proof -
  have keep1: "server_inv E i (snd (verifySignaturePublicKey key s))"
    and keep2: "server_inv E i (snd (verifyChallenge E key response s))"
    using key_check_keeps [of E i] verifyChallenge_keeps [of E i] inv by (simp_all add: st_keeps_def)
  have done1: "server_inv E i (snd (accept_client_keys E fr identity keyCipher s))"
    if v: "verifySignaturePublicKey key s = (Inr True, s)" "verifyChallenge E key response s = (Inr True, s)"
    using verifySignaturePublicKey_result [OF v(1)] verifyChallenge_result [OF v(2)]
      accept_client_keys_keeps [OF inv p] by metis
  obtain r1 s1 where r1: "verifySignaturePublicKey key s = (r1, s1)" by (rule prod.exhaust)
  obtain r2 s2 where r2: "verifyChallenge E key response s = (r2, s2)" by (rule prod.exhaust)
  show ?thesis
  proof (cases "r1 = Inr True")
    case True
    then have s1: "s1 = s" using verifySignaturePublicKey_result r1 by blast
    show ?thesis
    proof (cases "r2 = Inr True")
      case True2: True
      then have "s2 = s" using verifyChallenge_result r2 by metis
      then show ?thesis using done1 r1 r2 True True2 s1 by (simp add: st_bind_def)
    next
      case False
      then show ?thesis using keep2 r1 r2 True s1 by (auto simp: st_bind_def st_simps split: sum.splits)
    qed
  next
    case False
    then show ?thesis using keep1 r1 by (auto simp: st_bind_def st_simps split: sum.splits)
  qed
qed

lemma st_bind_lift: "st_bind (st_lift (Inl err)) f s = (Inl err, s)" "st_bind (st_lift (Inr x)) f s = f x s"
  by (simp_all add: st_bind_def st_lift_def)

lemma exchange_keeps: "keeps_inv E i (onClientCipherExchangeMessage E fr packet)"
proof (rule st_keepsI)
  fix s :: server_peer
  assume inv: "server_inv E i s"
  have leave: "server_inv E i (snd (server_disconnectPeer code reason s))"
    "server_inv E i (snd (createAuthenticationFailureMessage E fr m s))" for code reason m
    using disconnect_keeps [of E i] failure_keeps [of E i] inv by (simp_all add: st_keeps_def)
  obtain r s1 where r: "server_onIncomingPacket CLIENT_CIPHER_EXCHANGE s = (r, s1)" by (rule prod.exhaust)
  have s1: "s1 = s" using r by (auto simp: server_onIncomingPacket_def split: option.splits if_splits)
  show "server_inv E i (snd (onClientCipherExchangeMessage E fr packet s))"
  proof (cases r)
    case (Inl err)
    then show ?thesis using r s1 inv
      by (auto simp: onClientCipherExchangeMessage_def st_bind_def require_protocol_def server_encryptem_def split: option.splits)
  next
    case (Inr u)
    then have ph: "sv_protocol s = Some HandshakeTable" using handshake_phase(3) [OF inv] r s1 by simp
    obtain e where e: "sv_encryptem s = Some e" using inv ph by (auto simp: server_inv_def)
    have "onClientCipherExchangeMessage E fr packet s =
        st_bind (unpack_packet (decodeClientExchange E packet)) (\<lambda>d.
         (case (cx_clientKeyCipher d, cx_clientAuthCipher d) of
            (Some keyCipher, Some authCipher) \<Rightarrow>
              if length (cx_identity d) \<noteq> 64 then server_disconnectPeer BAD_IDENTITY ''Invalid peer identity.''
              else
                st_bind (verifySignaturePublicKey authCipher) (\<lambda>isValidSign.
                  if \<not> isValidSign then st_return ()
                  else st_bind (verifyChallenge E authCipher (cx_challenge d)) (\<lambda>isValidChallenge.
                    if \<not> isValidChallenge then st_return ()
                    else accept_client_keys E fr (cx_identity d) keyCipher))
          | _ \<Rightarrow> createAuthenticationFailureMessage E fr ''Invalid client authentication cipher.'')) s"
      using r s1 Inr ph e
      by (simp add: onClientCipherExchangeMessage_def st_bind_def [of require_protocol] st_bind_def [of server_encryptem]
          st_bind_def [of "server_onIncomingPacket _"] require_protocol_def server_encryptem_def)
    then show ?thesis
      using inv leave checked_exchange_keeps [OF inv ph]
      by (cases "decodeClientExchange E packet")
        (simp_all add: unpack_packet_def st_bind_lift split: option.splits)
  qed
qed

lemma server_reachable_inv: "server_reachable E i s \<Longrightarrow> server_inv E i s"
proof (induction rule: server_reachable.induct)
  case created
  then show ?case
    by (simp add: ServerPeerNetworking_new_def createTimeoutAuth_def server_inv_def)
next
  case (message s fr raw)
  have "keeps_inv E i (server_onMessage E fr raw)"
    unfolding server_onMessage_def server_onPacket_def
    by (intro server_keeps authentication_keeps exchange_keeps ping_keeps) simp_all
  then show ?case using message.IH by (simp add: st_keeps_def)
next
  case (timeout s)
  have "server_inv E i (snd (server_disconnectPeer AUTH_TIMED_OUT ''Authentication timeout.'' (s\<lparr>sv_timeoutAuth := False\<rparr>)))"
    using disconnect_keeps [of E i] server_inv_timeout [OF timeout.IH] by (simp add: st_keeps_def)
  then show ?case using timeout.IH by (simp add: auth_timed_out_def)
next
  case (destroyed s)
  then show ?case
    by (auto simp: server_peer_destroy_def server_inv_def version_checked_def same_network_def asked_to_leave_def
        challenge_signed_def)
qed

lemma authenticated_reads_signed:
  assumes inv: "server_inv E i s" and a: "sv_isAuthenticated s" and e: "sv_encryptem s = Some e"
    and m: "server_onMessage E fr raw s = (Inr True, s')"
  shows "\<exists>key. es_clientSignaturePublicKey e = Some key \<and>
    crypto_sign_verify_detached (pe_sodium E) (take 64 (drop (crypto_auth_BYTES (pe_sodium E)) raw))
      (drop (crypto_auth_BYTES (pe_sodium E) + 64 + crypto_box_NONCEBYTES (pe_sodium E)) raw) key = Some True"
proof -
  have "sv_encryptionStarted s" "\<not> sv_destroyed s" using inv a e by (auto simp: server_inv_def)
  then obtain b where "server_decrypt (pe_sodium E) raw e = Inr (Some b)"
    using m e by (auto simp: server_onMessage_def st_bind_def st_simps server_decryptMessage_def
        split: sum.splits option.splits prod.splits)
  then show ?thesis by (rule server_reads_signed)
qed

text \<open>
  C14: For any messages a peer sends, in any order, the server side treats the peer as authenticated only
  after it has declared an acceptable version and has signed the server's challenge, hashed with the key it
  declared, with that key; every message handled from then on is signed with the same key; a peer of another
  network or chain has been asked to leave; and before the authentication no packet reaches the handlers of
  blocks, transactions and peers.
\<close>

theorem authenticated_peer_proved_key:
  assumes "server_reachable E i s"
  shows "(\<not> sv_isAuthenticated s \<longrightarrow> sv_networkHandlers s = 0) \<and>
    (sv_isAuthenticated s \<longrightarrow>
       (\<exists>v. sv_clientVersion s = Some v \<and> mayAcceptVersion v) \<and>
       (same_network i s \<or> asked_to_leave [BAD_NETWORK, BAD_CHAIN_ID] s) \<and>
       (\<exists>ch sg key. sv_identityChallenge s = Some ch \<and>
          crypto_sign_verify_detached (pe_sodium E) sg (sha512 (pe_sodium E) (key @ ch)) key = Some True \<and>
          (\<forall>fr raw s'. server_onMessage E fr raw s = (Inr True, s') \<longrightarrow>
             crypto_sign_verify_detached (pe_sodium E) (take 64 (drop (crypto_auth_BYTES (pe_sodium E)) raw))
               (drop (crypto_auth_BYTES (pe_sodium E) + 64 + crypto_box_NONCEBYTES (pe_sodium E)) raw) key = Some True)))"
proof -
  have inv: "server_inv E i s" by (rule server_reachable_inv [OF assms])
  have "\<exists>ch sg key. sv_identityChallenge s = Some ch \<and>
      crypto_sign_verify_detached (pe_sodium E) sg (sha512 (pe_sodium E) (key @ ch)) key = Some True \<and>
      (\<forall>fr raw s'. server_onMessage E fr raw s = (Inr True, s') \<longrightarrow>
         crypto_sign_verify_detached (pe_sodium E) (take 64 (drop (crypto_auth_BYTES (pe_sodium E)) raw))
           (drop (crypto_auth_BYTES (pe_sodium E) + 64 + crypto_box_NONCEBYTES (pe_sodium E)) raw) key = Some True)"
    if a: "sv_isAuthenticated s"
  proof -
    obtain ch sg key where k: "sv_identityChallenge s = Some ch"
      "verifyChallengeSignature (pe_sodium E) ch sg key = Inr True"
      "\<And>e. sv_encryptem s = Some e \<Longrightarrow> es_clientSignaturePublicKey e = Some key"
      using inv a by (auto simp: server_inv_def challenge_signed_def)
    have "crypto_sign_verify_detached (pe_sodium E) sg (sha512 (pe_sodium E) (key @ ch)) key = Some True"
      using k(2) by (auto simp: verifyChallengeSignature_def hashWithPubKey_def split: option.splits)
    moreover have "crypto_sign_verify_detached (pe_sodium E) (take 64 (drop (crypto_auth_BYTES (pe_sodium E)) raw))
        (drop (crypto_auth_BYTES (pe_sodium E) + 64 + crypto_box_NONCEBYTES (pe_sodium E)) raw) key = Some True"
      if m: "server_onMessage E fr raw s = (Inr True, s')" for fr raw s'
    proof (cases "sv_encryptem s")
      case None
      then have "sv_destroyed s" using inv by (simp add: server_inv_def)
      then show ?thesis using m by (simp add: server_onMessage_def st_bind_def st_simps)
    next
      case (Some e)
      then show ?thesis using authenticated_reads_signed [OF inv a Some m] k(3) by auto
    qed
    ultimately show ?thesis using k(1) by blast
  qed
  moreover have "version_checked i s" if "sv_isAuthenticated s"
    using inv that by (auto simp: server_inv_def challenge_signed_def)
  ultimately show ?thesis using inv by (auto simp: server_inv_def version_checked_def)
qed

subsection \<open>An undisturbed handshake\<close>

fun last_sent :: "peer_output list \<Rightarrow> bytes" where
  "last_sent outs = (case rev outs of Sent b # _ \<Rightarrow> b | _ \<Rightarrow> [])"

text \<open>The four messages between a new client side and a new server side, each delivered to the other.\<close>

definition handshake :: "peer_env \<Rightarrow> fresh \<Rightarrow> fresh \<Rightarrow> int \<Rightarrow> client_peer \<Rightarrow> server_peer \<Rightarrow> client_peer \<times> server_peer" where
  "handshake E frc frs now c s =
     (let c1 = snd (login E frc c);
          s1 = snd (server_onMessage E frs (last_sent (cl_out c1)) s);
          c2 = snd (client_onMessage E frc now (last_sent (sv_out s1)) c1);
          s2 = snd (server_onMessage E frs (last_sent (cl_out c2)) s1);
          c3 = snd (client_onMessage E frc now (last_sent (sv_out s2)) c2)
      in (c3, s2))"

definition roundtrips :: "('p \<Rightarrow> bytes option) \<Rightarrow> (bytes \<Rightarrow> 'p option) \<Rightarrow> 'p \<Rightarrow> bool" where
  "roundtrips encode decode p \<longleftrightarrow> (\<exists>m. encode p = Some m \<and> decode m = Some p)"

definition announced_magic :: "nat list option \<Rightarrow> nat option" where
  "announced_magic magic = (if hasMagicNumber magic then Some (le_number (rev (the magic))) else None)"

definition auth_packet :: "OPNetIdentity \<Rightarrow> nat \<Rightarrow> nat list option \<Rightarrow> IAuthenticationPacket" where
  "auth_packet i n magic = \<lparr>ap_version = P2PVersion, ap_clientAuthCipher = Some (take 32 (drop 64 (id_authKeyBin i))),
     ap_protocolChecksum = ''0x00000001'', ap_type = peerType i, ap_network = n, ap_chainId = id_chainId i,
     ap_magicNumber = announced_magic magic\<rparr>"

definition challenge_packet :: "bytes \<Rightarrow> IAuthenticationStatusPacket" where
  "challenge_packet ch = \<lparr>as_status = SUCCESS, as_message = ''Pre auth valid.'', as_challenge = Some ch\<rparr>"

definition client_packet :: "sodium \<Rightarrow> OPNetIdentity \<Rightarrow> fresh \<Rightarrow> bytes \<Rightarrow> IClientKeyCipherExchangePacket" where
  "client_packet S i fr ch = \<lparr>cx_clientKeyCipher = Some (fst (fr_keys fr)),
     cx_clientAuthCipher = Some (take 32 (drop 64 (id_authKeyBin i))),
     cx_identity = kp_hash (restoreKeyPair (id_authKeyBin i)), cx_challenge = Some (identityChallenge S i ch)\<rparr>"

definition server_packet :: "sodium \<Rightarrow> fresh \<Rightarrow> IServerKeyCipherExchangePacket" where
  "server_packet S fr = \<lparr>sx_serverKeyCipher = Some (fst (fr_keys fr)),
     sx_serverSigningCipher = Some (fst (crypto_sign_seed_keypair S (snd (fr_keys fr)))), sx_encryptionEnabled = True\<rparr>"

text \<open>
  What an undisturbed handshake rests on: the package and the four packets behave, the client's identity
  file holds a pair, both nodes are on one network and chain, and the fresh keys are pairs.
\<close>

definition handshake_ok :: "peer_env \<Rightarrow> fresh \<Rightarrow> fresh \<Rightarrow> OPNetIdentity \<Rightarrow> OPNetIdentity \<Rightarrow> nat list option \<Rightarrow> nat \<Rightarrow> bool" where
  "handshake_ok E frc frs ci si magic n \<longleftrightarrow>
     sodium_ok (pe_sodium E) \<and>
     roundtrips (encodeAuthentication E) (decodeAuthentication E) (auth_packet ci n magic) \<and>
     roundtrips (encodeStatus E) (decodeStatus E) (challenge_packet (fr_challenge frs)) \<and>
     roundtrips (encodeClientExchange E) (decodeClientExchange E) (client_packet (pe_sodium E) ci frc (fr_challenge frs)) \<and>
     roundtrips (encodeServerExchange E) (decodeServerExchange E) (server_packet (pe_sodium E) frs) \<and>
     160 \<le> length (id_authKeyBin ci) \<and>
     sign_keypair (pe_sodium E) (take 32 (drop 64 (id_authKeyBin ci))) (take 64 (id_authKeyBin ci)) \<and>
     peerNetwork ci = Inr n \<and> peerNetwork si = Inr n \<and> id_chainId si = id_chainId ci \<and>
     box_keypair (pe_sodium E) (fst (fr_keys frc)) (snd (fr_keys frc)) \<and>
     box_keypair (pe_sodium E) (fst (fr_keys frs)) (snd (fr_keys frs)) \<and>
     length (fst (fr_keys frc)) = 32 \<and> length (snd (fr_keys frc)) = 32"

definition client_keys :: "OPNetIdentity \<Rightarrow> fresh \<Rightarrow> EncryptemClient" where
  "client_keys i fr = \<lparr>ec_clientSecretKey = Some (snd (fr_keys fr)), ec_clientPublicKey = Some (fst (fr_keys fr)),
     ec_clientSignaturePublicKey = Some (take 32 (drop 64 (id_authKeyBin i))),
     ec_clientSignaturePrivateKey = Some (take 64 (id_authKeyBin i)), ec_serverPublicKey = None,
     ec_serverSignaturePublicKey = None\<rparr>"

definition client_logged_in :: "OPNetIdentity \<Rightarrow> fresh \<Rightarrow> int \<Rightarrow> nat list option \<Rightarrow> bytes \<Rightarrow> client_peer" where
  "client_logged_in i fr now magic m = (ClientPeerNetworking_new (Some i) now
     (if hasMagicNumber magic then map_option rev magic else magic))
     \<lparr>cl_encryptem := Some (client_keys i fr), cl_connectionStatus := AUTHENTICATING,
      cl_OPNetAuthKey := Some (take 32 (drop 64 (id_authKeyBin i))),
      cl_OPNetClientKeyCipher := Some (fst (fr_keys fr)), cl_out := [Sent (AUTHENTICATION # m)]\<rparr>"

lemma read_magic_result:
  "read_magic s = (Inr (announced_magic (cl_NETWORK_MAGIC s)),
     s\<lparr>cl_NETWORK_MAGIC := if hasMagicNumber (cl_NETWORK_MAGIC s) then map_option rev (cl_NETWORK_MAGIC s) else cl_NETWORK_MAGIC s\<rparr>)"
  by (cases "cl_NETWORK_MAGIC s")
    (auto simp: read_magic_def st_bind_def st_simps announced_magic_def hasMagicNumber_def magicNumber_def)

lemma protocolChecksum_value: "protocolChecksum = Inr ''0x00000001''"
  by (simp add: protocolChecksum_def PROTOCOL_CHECKSUM_def P2PVersion_def)

lemma login_honest:
  assumes "160 \<le> length (id_authKeyBin i)" "peerNetwork i = Inr n" "length (fst (fr_keys fr)) = 32" "length (snd (fr_keys fr)) = 32"
    "encodeAuthentication E (auth_packet i n magic) = Some m"
  shows "login E fr (ClientPeerNetworking_new (Some i) now magic) = (Inr (), client_logged_in i fr now magic m)"
  using assms(1-4) assms(5) [unfolded auth_packet_def]
  by (simp add: login_def attemptAuth_def st_bind_def st_simps ClientPeerNetworking_new_def client_require_protocol_def
      setupKey_def setupEncryptem_def encryptemClient_def generateClientCipherKeyPair_def client_signature_keys_def
      client_destroy_def EncryptemClient_new_def client_setClientSecretKey_def client_setClientPublicKey_def
      protocolChecksum_value read_magic_result pack_packet_def client_sendMsg_def client_logged_in_def client_keys_def)

lemma own_version_accepted: "mayAcceptVersion P2PVersion" "\<not> mayAcceptProtocolChecksum P2PVersion ''0x00000001''"
  by code_simp+

definition server_keys :: "sodium \<Rightarrow> OPNetIdentity \<Rightarrow> fresh \<Rightarrow> bytes option \<Rightarrow> EncryptemServer" where
  "server_keys S ci fr clientKey =
     \<lparr>es_serverPrivateKey = Some (snd (fr_keys fr)), es_serverPublicKey = Some (fst (fr_keys fr)),
      es_serverSignaturePublicKey = Some (fst (crypto_sign_seed_keypair S (snd (fr_keys fr)))),
      es_serverSignaturePrivateKey = Some (snd (crypto_sign_seed_keypair S (snd (fr_keys fr)))),
      es_clientSignaturePublicKey = Some (take 32 (drop 64 (id_authKeyBin ci))), es_clientPublicKey = clientKey\<rparr>"

definition server_challenged :: "sodium \<Rightarrow> OPNetIdentity \<Rightarrow> OPNetIdentity \<Rightarrow> nat \<Rightarrow> fresh \<Rightarrow> bytes \<Rightarrow> server_peer" where
  "server_challenged S si ci n fr m = (ServerPeerNetworking_new (Some si))
     \<lparr>sv_clientVersion := Some P2PVersion, sv_clientIndexerMode := Some (peerType ci), sv_clientNetwork := Some n,
      sv_clientChainId := Some (id_chainId ci), sv_passVersionCheck := True, sv_timeoutAuth := False,
      sv_identityChallenge := Some (fr_challenge fr), sv_encryptem := Some (server_keys S ci fr None),
      sv_out := [Sent (AUTHENTICATION_STATUS # m)]\<rparr>"

lemma server_challenges:
  assumes "160 \<le> length (id_authKeyBin ci)" "peerNetwork si = Inr n" "id_chainId si = id_chainId ci"
    "decodeAuthentication E m1 = Some (auth_packet ci n magic)"
    "encodeStatus E (challenge_packet (fr_challenge fr)) = Some m2"
  shows "server_onMessage E fr (AUTHENTICATION # m1) (ServerPeerNetworking_new (Some si)) =
    (Inr True, server_challenged (pe_sodium E) si ci n fr m2)"
proof -
  obtain spk ssk where seed: "crypto_sign_seed_keypair (pe_sodium E) (snd (fr_keys fr)) = (spk, ssk)" by (rule prod.exhaust)
  have len: "length (take 32 (drop 64 (id_authKeyBin ci))) = 32" using assms(1) by simp
  then have ne: "take 32 (drop 64 (id_authKeyBin ci)) \<noteq> []" by (metis list.size(3) numeral_neq_zero)
  show ?thesis
    using assms(2-4) assms(5) [unfolded challenge_packet_def] own_version_accepted seed len ne
    by (simp add: server_onMessage_def st_bind_def st_simps ServerPeerNetworking_new_def createTimeoutAuth_def
        server_decryptMessage_def first_byte_def server_onPacket_def onAuthenticationMessage_def require_protocol_def
        server_encryptem_def server_onIncomingPacket_def unpack_packet_def auth_packet_def accept_authentication_def
        verifyNetwork_def onPassedVersionCheck_def createFullAuthentication_def generateServerCipherKeyPair_def
        generateChallenge_def sendAuthenticationStatusPacket_def pack_packet_def server_sendMsg_def
        server_challenged_def server_keys_def server_setClientSignaturePublicKey_def EncryptemServer_new_def
        del: length_take length_drop)
qed

lemma client_answers:
  assumes "decodeStatus E m2 = Some (challenge_packet ch)"
    "encodeClientExchange E (client_packet (pe_sodium E) i fr ch) = Some m3"
  shows "client_onMessage E fr now (AUTHENTICATION_STATUS # m2) (client_logged_in i fr now magic m1) =
    (Inr True, (client_logged_in i fr now magic m1)\<lparr>cl_connectionStatus := AUTHENTICATION_SUCCESS,
       cl_out := [Sent (AUTHENTICATION # m1), Sent (CLIENT_CIPHER_EXCHANGE # m3)]\<rparr>)"
  using assms(1) assms(2) [unfolded client_packet_def]
  by (simp add: client_onMessage_def st_bind_def st_simps client_logged_in_def ClientPeerNetworking_new_def
      client_decryptMessage_def first_byte_def client_onPacket_def handleAuthenticationStatusPacket_def
      client_onIncomingPacket_def unpack_packet_def challenge_packet_def buildKeyCipherExchangeClientPacket_def
      client_require_protocol_def pack_packet_def client_sendMsg_def)

definition server_accepted :: "peer_env \<Rightarrow> OPNetIdentity \<Rightarrow> OPNetIdentity \<Rightarrow> nat \<Rightarrow> fresh \<Rightarrow> fresh \<Rightarrow> bytes \<Rightarrow> bytes \<Rightarrow> server_peer" where
  "server_accepted E si ci n frc frs m2 m4 = (server_challenged (pe_sodium E) si ci n frs m2)
     \<lparr>sv_clientIdentity := Some (pe_toHex E (kp_hash (restoreKeyPair (id_authKeyBin ci)))),
      sv_encryptem := Some (server_keys (pe_sodium E) ci frs (Some (fst (fr_keys frc)))),
      sv_isAuthenticated := True, sv_encryptionStarted := True, sv_protocol := Some SessionTable, sv_networkHandlers := 3,
      sv_out := [Sent (AUTHENTICATION_STATUS # m2), Sent (SERVER_CIPHER_EXCHANGE # m4)]\<rparr>"

lemma challenge_answer_verifies:
  assumes "sodium_ok S" "sign_keypair S (take 32 (drop 64 (id_authKeyBin i))) (take 64 (id_authKeyBin i))"
  shows "verifyChallengeSignature S ch (identityChallenge S i ch) (take 32 (drop 64 (id_authKeyBin i))) = Inr True"
  using sodium_okD(3) [OF assms]
  by (simp add: verifyChallengeSignature_def identityChallenge_def restoreKeyPair_def hashChallenge_def)

lemma server_accepts:
  assumes S: "sodium_ok (pe_sodium E)" and len: "160 \<le> length (id_authKeyBin ci)"
    and pair: "sign_keypair (pe_sodium E) (take 32 (drop 64 (id_authKeyBin ci))) (take 64 (id_authKeyBin ci))"
    and d: "decodeClientExchange E m3 = Some (client_packet (pe_sodium E) ci frc (fr_challenge frs))"
    and x: "encodeServerExchange E (server_packet (pe_sodium E) frs) = Some m4"
  shows "server_onMessage E frs (CLIENT_CIPHER_EXCHANGE # m3) (server_challenged (pe_sodium E) si ci n frs m2) =
    (Inr True, server_accepted E si ci n frc frs m2 m4)"
proof -
  have hash: "length (kp_hash (restoreKeyPair (id_authKeyBin ci))) = 64" using len by (simp add: restoreKeyPair_def)
  show ?thesis
    using challenge_answer_verifies [OF S pair] hash d x [unfolded server_packet_def]
    by (simp add: server_onMessage_def st_bind_def st_simps server_challenged_def ServerPeerNetworking_new_def
        createTimeoutAuth_def server_decryptMessage_def first_byte_def server_onPacket_def
        onClientCipherExchangeMessage_def require_protocol_def server_encryptem_def server_onIncomingPacket_def
        unpack_packet_def client_packet_def verifySignaturePublicKey_def verifyChallenge_def accept_client_keys_def
        sendServerHandshake_def server_keys_def server_setClientPublicKey_def pack_packet_def server_sendMsg_def
        onAuthenticated_result server_accepted_def)
qed

lemma client_sendMsg_frame: "\<exists>ms. snd (client_sendMsg E fr b s) = s\<lparr>cl_out := cl_out s @ map Sent ms\<rparr>"
proof (cases "cl_encryptem s")
  case None
  then show ?thesis by (intro exI [of _ "[]"]) (simp add: client_sendMsg_def)
next
  case (Some k)
  show ?thesis
  proof (cases "if cl_encryptionStarted s then client_encrypt (pe_sodium E) (fr_nonce fr) b k else Inr b")
    case (Inl err)
    then show ?thesis using Some by (intro exI [of _ "[]"]) (simp add: client_sendMsg_def)
  next
    case (Inr m)
    then show ?thesis using Some by (intro exI [of _ "[m]"]) (simp add: client_sendMsg_def)
  qed
qed

lemma sendPing_frame:
  "\<exists>l ms. snd (sendPing E fr now s) = s\<lparr>cl_lastPing := l, cl_out := cl_out s @ map Sent ms\<rparr>"
proof (cases "cl_protocol s = None")
  case True
  then have "snd (sendPing E fr now s) = s" by (simp add: sendPing_def st_bind_def client_require_protocol_def)
  then show ?thesis by (intro exI [of _ "cl_lastPing s"] exI [of _ "[]"]) simp
next
  case False
  let ?s = "s\<lparr>cl_lastPing := now\<rparr>"
  let ?ping = "encodePing E \<lparr>pg_timestamp = now, pg_lastPing = cl_lastServerPing s\<rparr>"
  have "sendPing E fr now s = st_bind (pack_packet PING ?ping) (client_sendMsg E fr) ?s"
    using False by (auto simp: sendPing_def st_bind_def st_simps client_require_protocol_def)
  moreover have "\<exists>ms. snd (st_bind (pack_packet PING ?ping) (client_sendMsg E fr) ?s) = ?s\<lparr>cl_out := cl_out s @ map Sent ms\<rparr>"
  proof (cases ?ping)
    case None
    then show ?thesis by (intro exI [of _ "[]"]) (simp add: pack_packet_def st_bind_lift)
  next
    case (Some m)
    then show ?thesis using client_sendMsg_frame [of E fr "PING # m" ?s] by (simp add: pack_packet_def st_bind_lift)
  qed
  ultimately show ?thesis by auto
qed

definition client_accepted :: "peer_env \<Rightarrow> OPNetIdentity \<Rightarrow> fresh \<Rightarrow> fresh \<Rightarrow> int \<Rightarrow> nat list option \<Rightarrow> peer_output list \<Rightarrow> client_peer" where
  "client_accepted E i frc frs now magic outs = (client_logged_in i frc now magic [])
     \<lparr>cl_connectionStatus := AUTHENTICATION_SUCCESS, cl_pingInterval := True, cl_isAuthenticated := True,
      cl_protocol := Some SessionTable, cl_encryptionStarted := True, cl_networkHandlers := 3,
      cl_encryptem := Some ((client_keys i frc)\<lparr>ec_serverPublicKey := Some (fst (fr_keys frs)),
        ec_serverSignaturePublicKey := Some (fst (crypto_sign_seed_keypair (pe_sodium E) (snd (fr_keys frs))))\<rparr>),
      cl_out := outs\<rparr>"

lemma client_accepts:
  assumes "decodeServerExchange E m4 = Some (server_packet (pe_sodium E) frs)"
    and c: "c = (client_logged_in i frc now magic m1)\<lparr>cl_connectionStatus := AUTHENTICATION_SUCCESS, cl_out := map Sent ms\<rparr>"
  shows "\<exists>l ms'. client_onMessage E frc now (SERVER_CIPHER_EXCHANGE # m4) c =
    (Inr True, (client_accepted E i frc frs now magic (map Sent ms'))\<lparr>cl_lastPing := l\<rparr>)"
proof -
  let ?c = "c\<lparr>cl_encryptem := Some ((client_keys i frc)\<lparr>ec_serverPublicKey := Some (fst (fr_keys frs)),
        ec_serverSignaturePublicKey := Some (fst (crypto_sign_seed_keypair (pe_sodium E) (snd (fr_keys frs))))\<rparr>),
      cl_encryptionStarted := True, cl_protocol := Some SessionTable, cl_pingInterval := True\<rparr>"
  obtain l ms' where ping: "snd (sendPing E frc now ?c) = ?c\<lparr>cl_lastPing := l, cl_out := cl_out ?c @ map Sent ms'\<rparr>"
    using sendPing_frame by blast
  have "client_onMessage E frc now (SERVER_CIPHER_EXCHANGE # m4) c =
      (Inr True, (snd (sendPing E frc now ?c))\<lparr>cl_isAuthenticated := True,
         cl_networkHandlers := cl_networkHandlers (snd (sendPing E frc now ?c)) + 3\<rparr>)"
    using assms(1)
    by (simp add: c client_onMessage_def st_bind_def st_simps client_logged_in_def ClientPeerNetworking_new_def
        client_decryptMessage_def first_byte_def client_onPacket_def handleServerCipherExchangePacket_def
        client_onIncomingPacket_def unpack_packet_def server_packet_def setCipherKeys_def encryptemClient_def
        client_setServerPublicKey_def client_setServerSignaturePublicKey_def client_onAuthenticated_def
        client_require_protocol_def startPingInterval_def)
  then have "client_onMessage E frc now (SERVER_CIPHER_EXCHANGE # m4) c =
      (Inr True, (client_accepted E i frc frs now magic (map Sent (ms @ ms')))\<lparr>cl_lastPing := l\<rparr>)"
    unfolding ping by (simp add: c client_accepted_def client_logged_in_def ClientPeerNetworking_new_def)
  then show ?thesis by blast
qed


subsection \<open>A concrete handshake\<close>

definition sample_sodium :: sodium where
  "sample_sodium = \<lparr>crypto_auth_BYTES = 32, crypto_box_NONCEBYTES = 24, crypto_box_MACBYTES = 16, crypto_sign_BYTES = 64,
     crypto_box_easy = (\<lambda>m n pk sk. replicate 16 0 @ m), crypto_box_open_easy = (\<lambda>c n pk sk. drop 16 c),
     crypto_sign_detached = (\<lambda>m sk. replicate 64 0), crypto_sign_verify_detached = (\<lambda>sg m pk. Some True),
     crypto_auth = (\<lambda>m k. replicate 32 0), crypto_auth_verify = (\<lambda>t m k. Some True),
     randombytes_buf_deterministic = (\<lambda>seed. seed), crypto_sign_seed_keypair = (\<lambda>seed. (seed, seed @ seed)),
     box_keypair = (\<lambda>pk sk. True), sign_keypair = (\<lambda>pk sk. True), sha512 = (\<lambda>d. take 64 d)\<rparr>"

definition sample_identity :: OPNetIdentity where
  "sample_identity = \<lparr>id_authKeyBin = replicate 224 1, id_mode = FULL, id_network = regtest, id_chainId = 0\<rparr>"

definition sample_fresh :: fresh where
  "sample_fresh = \<lparr>fr_challenge = replicate 128 7, fr_keys = (replicate 32 2, replicate 32 3), fr_nonce = replicate 24 4\<rparr>"

definition sample_peer_env :: peer_env where
  "sample_peer_env = \<lparr>pe_sodium = sample_sodium,
     encodeAuthentication = (\<lambda>p. Some []), decodeAuthentication = (\<lambda>m. Some (auth_packet sample_identity 2 None)),
     encodeStatus = (\<lambda>p. Some []), decodeStatus = (\<lambda>m. Some (challenge_packet (fr_challenge sample_fresh))),
     encodeClientExchange = (\<lambda>p. Some []),
     decodeClientExchange = (\<lambda>m. Some (client_packet sample_sodium sample_identity sample_fresh (fr_challenge sample_fresh))),
     encodeServerExchange = (\<lambda>p. Some []), decodeServerExchange = (\<lambda>m. Some (server_packet sample_sodium sample_fresh)),
     encodePing = (\<lambda>p. Some []), decodePing = (\<lambda>m. None), pe_toHex = (\<lambda>b. []), pe_handled = (\<lambda>opcode m. False)\<rparr>"

definition sample_sides :: "client_peer \<times> server_peer" where
  "sample_sides = handshake sample_peer_env sample_fresh sample_fresh 0
     (ClientPeerNetworking_new (Some sample_identity) 0 None) (ServerPeerNetworking_new (Some sample_identity))"

lemma sample_handshake_ok: "handshake_ok sample_peer_env sample_fresh sample_fresh sample_identity sample_identity None 2"
  by (simp add: handshake_ok_def sodium_ok_def roundtrips_def sample_peer_env_def sample_sodium_def sample_identity_def
      sample_fresh_def peerNetwork_def)


lemma sample_server_reachable: "server_reachable sample_peer_env (Some sample_identity) (snd sample_sides)"
  unfolding sample_sides_def handshake_def Let_def snd_conv
  by (intro server_reachable.message server_reachable.created)

lemma sample_server_authenticated: "sv_isAuthenticated (snd sample_sides)"
  by code_simp

theorem authenticated_peer_proved_key_witness:
  "(\<exists>v. sv_clientVersion (snd sample_sides) = Some v \<and> mayAcceptVersion v) \<and>
   (same_network (Some sample_identity) (snd sample_sides) \<or> asked_to_leave [BAD_NETWORK, BAD_CHAIN_ID] (snd sample_sides))"
  using authenticated_peer_proved_key [OF sample_server_reachable] sample_server_authenticated by blast

subsection \<open>Where the handshake is weaker than it looks\<close>

text \<open>A peer of another network is asked to leave, and yet it gets its challenge.\<close>

lemma other_network_still_challenged:
  "let s = snd (server_onMessage sample_peer_env sample_fresh [AUTHENTICATION]
             (ServerPeerNetworking_new (Some (sample_identity\<lparr>id_network := mainnet\<rparr>))))
   in asked_to_leave [BAD_NETWORK] s \<and> sv_passVersionCheck s \<and> sv_identityChallenge s \<noteq> None"
proof -
  have "let s = snd (server_onMessage sample_peer_env sample_fresh [AUTHENTICATION]
             (ServerPeerNetworking_new (Some (sample_identity\<lparr>id_network := mainnet\<rparr>))))
     in Disconnect BAD_NETWORK ''Invalid network.'' \<in> set (sv_out s) \<and> sv_passVersionCheck s \<and> sv_identityChallenge s \<noteq> None"
    by code_simp
  then show ?thesis by (auto simp: Let_def asked_to_leave_def)
qed

text \<open>A client takes the keys of a server that has answered nothing: it need not even have logged in.\<close>

lemma client_accepts_unasked_keys:
  "let c = snd (client_onMessage sample_peer_env sample_fresh 0 [SERVER_CIPHER_EXCHANGE]
             (ClientPeerNetworking_new (Some sample_identity) 0 None))
   in cl_isAuthenticated c \<and> cl_connectionStatus c = DISCONNECTED"
  by code_simp

text \<open>The second magic number a node announces has its bytes in the other order.\<close>

lemma magic_number_alternates:
  "magicNumber (Some [1, 2, 3, 4]) = Inr (16909060, Some [4, 3, 2, 1]) \<and>
   magicNumber (Some [4, 3, 2, 1]) = Inr (67305985, Some [1, 2, 3, 4])"
  by (simp add: magicNumber_def le_number_def)

text \<open>A version without a known checksum passes with any checksum.\<close>

lemma unknown_version_unchecked: "mayAcceptVersion ''0.9.9'' \<and> \<not> mayAcceptProtocolChecksum ''0.9.9'' checksum"
proof -
  have "mayAcceptVersion ''0.9.9''" by code_simp
  then show ?thesis by (simp add: mayAcceptProtocolChecksum_def PROTOCOL_CHECKSUM_def)
qed

text \<open>A peer that has its challenge and never answers is not disconnected by the timer.\<close>

lemma challenged_peer_never_times_out:
  "\<not> sv_isAuthenticated (server_challenged S si ci n fr m) \<and>
   auth_timed_out (server_challenged S si ci n fr m) = server_challenged S si ci n fr m"
  by (simp add: server_challenged_def auth_timed_out_def ServerPeerNetworking_new_def createTimeoutAuth_def)

text \<open>The network numbers of two peers agree only when their networks do.\<close>

lemma network_number_roundtrip: "peerNetwork_of b = Inr n \<Longrightarrow> numberToBitcoinNetwork n = Inr b"
  by (cases b) auto

end
