(* ===== verification/Spec2Isabelle.thy ===== *)
theory Spec2Isabelle
  imports Contract_Evaluation Consensus_Rules MLDSA_Keys Node_Startup Transaction_Sorter Epoch_Submissions Config_Loader Peer_Handshake
begin

text \<open>
  Verification of the node of OP_NET (\<open>src/src/src\<close>), a TypeScript program that follows a Bitcoin node, executes the contract
  transactions of every block in a native virtual machine and keeps the results in a database.

  \<^bold>\<open>The program.\<close> At start the node compares its database with the chain (\<open>BlockIndexer\<close>, \<open>ReorgWatchdog\<close>, \<open>ChainObserver\<close>), reverts what
  no longer belongs to it and then indexes block after block. An indexing task (\<open>IndexingTask.ts\<close>) takes the raw block, orders its
  transactions (\<open>TransactionSorter.ts\<close>), executes them (\<open>Block.ts\<close>, \<open>VMManager.ts\<close>, \<open>ContractEvaluator.ts\<close>), freezes the trees of slots and
  receipts, signs the header with a checksum over the roots and writes slots, transactions, key links, epoch submissions and, last,
  the header. Every few blocks an epoch is finalised (\<open>EpochManager.ts\<close>). A reorganisation of the chain purges the database from
  the fork on (\<open>VMMongoStorage.ts\<close>) and starts again from there.

  Peers authenticate each other and then exchange blocks, witnesses and transactions (\<open>poc/networking\<close>); the configuration file is
  checked and merged with the defaults before anything starts (\<open>config\<close>).

  \<^bold>\<open>The theories, and what they model.\<close>
  \<^item> \<open>Prelude\<close>: JavaScript maps as association lists in insertion order, big integers, results as sums, a state monad with errors
    (\<open>st_bind\<close> and its invariants \<open>st_keeps\<close>), and the locale \<open>insertion_ordered_map\<close> of the collections.
  \<^item> \<open>Fast_Collections\<close>: the four collections of \<open>utils/fast\<close>; a FastBigIntMap behaves as a JavaScript map.
  \<^item> \<open>Consensus_Rules\<close>, \<open>Consensus_Config\<close>: \<open>ConsensusRules.ts\<close>; the tables of \<open>poc/configurations\<close>, their selection by height and
    \<open>ConsensusTracker.ts\<close>. The indexer never passes a fork it does not know.
  \<^item> \<open>Gas\<close>: \<open>BlockGasPredictor.ts\<close> in fixed point and \<open>GasTracker.ts\<close>; the price never falls below its minimum.
  \<^item> \<open>Contract_Evaluation\<close>: the state of one contract call (\<open>ContractEvaluation.ts\<close>), with its reachable states.
  \<^item> \<open>Merkle_Trees\<close>, \<open>Block_Headers\<close>: the trees of \<open>processor/block/merkle\<close>; \<open>BlockHeaderValidator.ts\<close> and the signing of a header. Frozen
    values have proofs that verify, a signed header is accepted.
  \<^item> \<open>Transaction_Sorter\<close>: the order of a block: parents first, then the greatest effective fee; it does not depend on the input order.
  \<^item> \<open>MLDSA_Keys\<close>: \<open>MLDSAPublicKeysRepository.ts\<close>, the links of \<open>VMManager.ts\<close> and \<open>assignMLDSAToLegacy\<close>. Links stay one to one and signed.
  \<^item> \<open>VM_Manager\<close>, \<open>VM_Storage\<close>: the block session of \<open>VMManager.ts\<close> and \<open>VMBitcoinBlock.ts\<close>: preparation, published results, reads through the
    caches with their proofs, the end of a block. Over a chain of blocks contract storage is one map from slots to values.
  \<^item> \<open>Contract_Calls\<close>, \<open>Call_Safety\<close>: \<open>ContractEvaluator.ts\<close> and the execution methods of \<open>VMManager.ts\<close> with nested calls. Execution always
    ends, a failed call reverts its caller, no more gas is used than was paid for, API calls change nothing.
  \<^item> \<open>Block_Execution\<close>, \<open>Block_Safety\<close>, \<open>Epoch_Submissions\<close>: \<open>Block.ts\<close> and \<open>IndexingTask.ts\<close> from the raw block to the header. The slots of a block are the
    changes of its successful transactions in order, its gas is bounded, a task gives the session back, submissions stay unique.
  \<^item> \<open>Epoch_Validator\<close>, \<open>Epoch_Merkle\<close>, \<open>Epoch_Manager\<close>: proof of work, attestation tree, winner, finalisation and reindexing of epochs.
  \<^item> \<open>UTXO_Store\<close>, \<open>Storage_Revert\<close>: unspent outputs with their batched writes, and the purge of all collections in batches.
  \<^item> \<open>Reorg_Watchdog\<close>, \<open>Chain_Observer\<close>, \<open>Block_Indexer\<close>, \<open>Node_Startup\<close>: the search for the fork, the tracked heights, the task queue as a
    step relation over every interleaving, and the start of the node. The stored chain has no gaps.
  \<^item> \<open>Config_Loader\<close>: \<open>BtcIndexerConfigLoader.ts\<close>: defaults, checks and merge of the configuration file. An accepted configuration has the declared types.
  \<^item> \<open>Peer_Encryption\<close>, \<open>Peer_Handshake\<close>: \<open>poc/networking/encryptem\<close> and the two authentication managers with their packet tables. A peer is
    authenticated only after it has signed the challenge with its key, whatever it sends; an undisturbed handshake completes.

  \<^bold>\<open>How the code is modelled.\<close> A class is a record, an enum a datatype; a method is a function of the same name from the state to a result and
  the new state, errors are values of a sum type. \<open>bigint\<close> is \<open>int\<close> with division towards zero, bytes are 8-bit words, addresses are
  strings. Documents of MongoDB collections are lists. Code of packages (hashes, signatures, byte readers and writers, Merkle tree
  hashing, script parsing) and the native contract machine are parameters; what a theorem needs of them is a named hypothesis such
  as \<open>codec_ok\<close> or \<open>merkle_package_ok\<close>, and its witness instantiates them by concrete functions. A contract is a finite tree
  of host requests (\<open>rust_program\<close>), as the native machine meters its steps.

  \<^bold>\<open>Bounds.\<close> Nested calls run with the fuel \<open>call_fuel\<close>, the call depth plus the deployment depth plus one; \<open>execution_terminates\<close> shows that it is
  never exhausted and that more fuel gives the same result. The loops of the watchdog, of the purge and of the reindexing are
  total functions with a measure or partial functions whose theorems prove that they return.

  \<^bold>\<open>Interfaces.\<close> The locales \<open>insertion_ordered_map\<close> and \<open>keyed_store\<close> (collections), \<open>pointer_storage\<close> (slots of a call), \<open>merkle_tree_class\<close>, \<open>evaluation_invariant\<close> and
  \<open>ending_calls\<close> (what every host function keeps), \<open>purgeable\<close> and \<open>batched_purge\<close> state what a component relies on; each is interpreted on the definitions of the code.

  \<^bold>\<open>Not modelled.\<close> The network interfaces (RPC to Bitcoin, the libp2p node and its peer lists, HTTP and websocket), the mempool, threads and message routing, plugins, the
  command line, indexes and aggregations of the database and log output: they move data between the parts above. The parsing of
  witness scripts into transactions rests on package code; its result is a parameter.
\<close>

end
